(* ===== verification/Prelude.thy ===== *)
theory Prelude
  imports Main "HOL-Library.Word" "HOL-Library.Monad_Syntax"
begin

text \<open>
  Shared vocabulary of the development: the machine types of the C code, the byte-order
  helpers (\<open>__builtin_bswap16/32/64\<close>), little-endian byte images of words, array accesses that
  fail out of range, and the bounded loop \<open>foldM\<close> with which the \<open>for\<close> loops of the code
  are written.  A C array access outside the array is the value \<^term>\<open>None\<close>, so that the
  component theories prove the absence of such accesses instead of assuming it.
\<close>

unbundle bit_operations_syntax

named_theorems byte_simps \<open>byte images and byte swapping\<close>
named_theorems arr_simps \<open>checked array accesses and loops\<close>

type_synonym u8 = "8 word"
type_synonym u16 = "16 word"
type_synonym u32 = "32 word"
type_synonym u64 = "64 word"
type_synonym bytes = "u8 list"

section \<open>Checked array accesses\<close>

definition rd :: "'a list \<Rightarrow> nat \<Rightarrow> 'a option" where
  "rd xs i = (if i < length xs then Some (xs ! i) else None)"

definition wr :: "'a list \<Rightarrow> nat \<Rightarrow> 'a \<Rightarrow> 'a list option" where
  "wr xs i v = (if i < length xs then Some (xs[i := v]) else None)"

lemma rd_in [arr_simps]: "i < length xs \<Longrightarrow> rd xs i = Some (xs ! i)"
  by (simp add: rd_def)

lemma rd_out [arr_simps]: "length xs \<le> i \<Longrightarrow> rd xs i = None"
  by (simp add: rd_def)

lemma rd_Some: "rd xs i = Some v \<longleftrightarrow> i < length xs \<and> v = xs ! i"
  by (auto simp: rd_def)

lemma wr_in [arr_simps]: "i < length xs \<Longrightarrow> wr xs i v = Some (xs[i := v])"
  by (simp add: wr_def)

lemma wr_out [arr_simps]: "length xs \<le> i \<Longrightarrow> wr xs i v = None"
  by (simp add: wr_def)

lemma wr_Some: "wr xs i v = Some ys \<longleftrightarrow> i < length xs \<and> ys = xs[i := v]"
  by (auto simp: wr_def)

lemma unat_inj [simp]: "unat i = unat j \<longleftrightarrow> i = j"
  by (simp add: word_unat_eq_iff)

lemma unat_pred_less: "(w :: 'a::len word) \<noteq> 0 \<Longrightarrow> unat (w - 1) < unat w"
proof -
  assume "w \<noteq> 0"
  then have "unat (w - 1) = unat w - 1" "unat w \<noteq> 0" by (simp_all add: unat_minus_one unat_eq_zero)
  then show ?thesis by simp
qed

lemma unat_ucast_down16 [simp]: "unat (w :: u32) < 65536 \<Longrightarrow> unat (ucast w :: u16) = unat w"
  by (simp add: unsigned_ucast_eq take_bit_nat_eq_self)

lemma unat_ucast_up32 [simp]: "unat (ucast (h :: u16) :: u32) = unat h"
proof -
  have "unat h < 2 ^ LENGTH(16)" by (rule unsigned_less)
  then show ?thesis by (simp add: unsigned_ucast_eq take_bit_nat_eq_self)
qed

lemma ucast16_up_down [simp]: "(ucast (ucast (h :: u16) :: u32) :: u16) = h"
  by (rule bit_word_eqI) (auto simp: bit_simps)

lemma ucast_of_nat_16 [simp]: "(ucast (of_nat n :: u32) :: u16) = of_nat n"
  by (rule bit_word_eqI) (auto simp: bit_simps bit_of_nat_iff_bit)

text \<open>Rounding down to a multiple of a power of two by masking.\<close>

lemma unat_and_not_mask: "unat (x AND NOT (mask k) :: 'a::len word) = unat x div 2 ^ k * 2 ^ k"
proof -
  have "x AND NOT (mask k) = push_bit k (drop_bit k x)"
    by (rule bit_word_eqI) (auto simp: bit_simps)
  moreover have "unat (push_bit k (drop_bit k x)) = push_bit k (drop_bit k (unat x))"
    by (rule bit_eqI) (auto simp: bit_simps dest: bit_imp_le_length)
  ultimately show ?thesis by (simp add: push_bit_eq_mult drop_bit_eq_div)
qed

lemma unat_align4096: "unat (x AND NOT 4095 :: u32) = unat x div 4096 * 4096"
  using unat_and_not_mask [of x 12] by (simp add: mask_eq_exp_minus_1)

lemma unat_align16: "unat (x AND NOT 15 :: u32) = unat x div 16 * 16"
  using unat_and_not_mask [of x 4] by (simp add: mask_eq_exp_minus_1)

section \<open>Bounded loops that may fault\<close>

fun foldM :: "('i \<Rightarrow> 's \<Rightarrow> 's option) \<Rightarrow> 'i list \<Rightarrow> 's \<Rightarrow> 's option" where
  "foldM f [] s = Some s"
| "foldM f (i # is) s = do { s' \<leftarrow> f i s; foldM f is s' }"

lemma foldM_Nil: "foldM f [] = Some"
  by (rule ext) simp

lemma foldM_append [arr_simps]: "foldM f (xs @ ys) s = do { s' \<leftarrow> foldM f xs s; foldM f ys s' }"
proof (induction xs arbitrary: s)
  case Nil
  then show ?case by simp
next
  case (Cons x xs)
  then show ?case by (cases "f x s") simp_all
qed

lemma foldM_Suc [arr_simps]:
  "i \<le> n \<Longrightarrow> foldM f [i..<Suc n] s = do { s' \<leftarrow> foldM f [i..<n] s; f n s' }"
proof -
  assume "i \<le> n"
  then have "foldM f [i..<Suc n] s = do { s' \<leftarrow> foldM f [i..<n] s; foldM f [n] s' }"
    by (simp add: foldM_append)
  also have "\<dots> = do { s' \<leftarrow> foldM f [i..<n] s; f n s' }"
    by (cases "foldM f [i..<n] s") (simp_all add: foldM_Nil)
  finally show ?thesis .
qed

text \<open>The loop rule: an invariant indexed by the loop counter, kept by every iteration.\<close>

lemma foldM_upt_rule:
  assumes "P i s" and "i \<le> n"
    and "\<And>k s. \<lbrakk>i \<le> k; k < n; P k s\<rbrakk> \<Longrightarrow> \<exists>s'. f k s = Some s' \<and> P (Suc k) s'"
  shows "\<exists>s'. foldM f [i..<n] s = Some s' \<and> P n s'"
  using assms(2,3)
proof (induction n)
  case 0
  then show ?case using assms(1) by simp
next
  case (Suc n)
  show ?case
  proof (cases "i = Suc n")
    case True
    then show ?thesis using assms(1) by simp
  next
    case False
    with Suc.prems(1) have "i \<le> n" by simp
    moreover from this obtain s1 where "foldM f [i..<n] s = Some s1" "P n s1"
      using Suc.IH Suc.prems(2) by auto
    moreover from this \<open>i \<le> n\<close> obtain s2 where "f n s1 = Some s2" "P (Suc n) s2"
      using Suc.prems(2) by auto
    ultimately show ?thesis by (auto simp: foldM_Suc simp del: upt_Suc)
  qed
qed

section \<open>Byte order\<close>

text \<open>The \<open>k\<close>-th byte of a word, least significant first, and the words built from bytes.\<close>

definition byte_of :: "nat \<Rightarrow> 'a::len word \<Rightarrow> u8" where
  "byte_of k v = ucast (drop_bit (8 * k) v)"

definition word_at :: "nat \<Rightarrow> u8 \<Rightarrow> 'a::len word" where
  "word_at k b = push_bit (8 * k) (ucast b)"

definition mk16 :: "u8 \<Rightarrow> u8 \<Rightarrow> u16" where
  "mk16 b0 b1 = word_at 0 b0 OR word_at 1 b1"

definition mk32 :: "u8 \<Rightarrow> u8 \<Rightarrow> u8 \<Rightarrow> u8 \<Rightarrow> u32" where
  "mk32 b0 b1 b2 b3 = word_at 0 b0 OR word_at 1 b1 OR word_at 2 b2 OR word_at 3 b3"

definition mk64 :: "u32 \<Rightarrow> u32 \<Rightarrow> u64" where
  "mk64 lo hi = ucast lo OR push_bit 32 (ucast hi)"

definition bswap16 :: "u16 \<Rightarrow> u16" where
  "bswap16 v = mk16 (byte_of 1 v) (byte_of 0 v)"

definition bswap32 :: "u32 \<Rightarrow> u32" where
  "bswap32 v = mk32 (byte_of 3 v) (byte_of 2 v) (byte_of 1 v) (byte_of 0 v)"

definition bswap64 :: "u64 \<Rightarrow> u64" where
  "bswap64 v = mk64 (bswap32 (ucast (drop_bit 32 v))) (bswap32 (ucast v))"

lemma bit_byte_of: "bit (byte_of k v) n \<longleftrightarrow> n < 8 \<and> bit v (8 * k + n)"
  for v :: "'a::len word"
  by (auto simp: byte_of_def bit_simps)

lemma bit_word_at: "bit (word_at k b :: 'a::len word) n \<longleftrightarrow>
    n < LENGTH('a) \<and> 8 * k \<le> n \<and> bit b (n - 8 * k)"
  by (auto simp: word_at_def bit_simps)

lemma bit_u8_less: "bit (b :: u8) n \<Longrightarrow> n < 8"
  by (drule bit_imp_le_length) simp

lemma byte_mk16 [byte_simps]: "byte_of 0 (mk16 a b) = a" "byte_of (Suc 0) (mk16 a b) = b"
  by (rule bit_word_eqI; auto simp: bit_byte_of mk16_def bit_word_at bit_or_iff dest: bit_u8_less)+

lemma byte_mk32 [byte_simps]:
  "byte_of 0 (mk32 a b c d) = a" "byte_of (Suc 0) (mk32 a b c d) = b"
  "byte_of 2 (mk32 a b c d) = c" "byte_of 3 (mk32 a b c d) = d"
  by (rule bit_word_eqI; auto simp: bit_byte_of mk32_def bit_word_at bit_or_iff dest: bit_u8_less)+

lemma mk16_bytes [byte_simps]: "mk16 (byte_of 0 v) (byte_of (Suc 0) v) = v"
  by (rule bit_word_eqI) (auto simp: bit_byte_of mk16_def bit_word_at bit_or_iff)

lemma mk32_bytes [byte_simps]:
  "mk32 (byte_of 0 v) (byte_of (Suc 0) v) (byte_of 2 v) (byte_of 3 v) = v"
proof (rule bit_word_eqI)
  fix n assume n: "n < LENGTH(32)"
  consider "n < 16" | k where "n = 16 + k" "k < 8" | k where "n = 24 + k" "k < 8"
  proof (cases "n < 16")
    case False
    with n have "n = 16 + (n - 16) \<and> n - 16 < 8 \<or> n = 24 + (n - 24) \<and> n - 24 < 8" by simp arith
    then show ?thesis using that(2,3) by blast
  qed (use that in blast)
  then show "bit (mk32 (byte_of 0 v) (byte_of (Suc 0) v) (byte_of 2 v) (byte_of 3 v)) n = bit v n"
    by cases (auto simp: bit_byte_of mk32_def bit_word_at bit_or_iff)
qed

lemma mk64_halves [byte_simps]:
  "ucast (mk64 lo hi) = lo" "ucast (drop_bit 32 (mk64 lo hi)) = hi"
proof -
  have b: "\<And>n. bit (lo :: u32) n \<Longrightarrow> n < 32" by (drule bit_imp_le_length) simp
  show "ucast (mk64 lo hi) = lo"
    by (rule bit_word_eqI) (auto simp: mk64_def bit_simps)
  show "ucast (drop_bit 32 (mk64 lo hi)) = hi"
    by (rule bit_word_eqI) (auto simp: mk64_def bit_simps dest: b)
qed

lemma mk64_ucast [byte_simps]: "mk64 (ucast v) (ucast (drop_bit 32 v)) = v"
  by (rule bit_word_eqI) (auto simp: mk64_def bit_simps)

lemma bswap16_bswap16 [simp]: "bswap16 (bswap16 v) = v"
  by (simp add: bswap16_def byte_simps)

lemma bswap32_bswap32 [simp]: "bswap32 (bswap32 v) = v"
  by (simp add: bswap32_def byte_simps)

lemma bswap64_bswap64 [simp]: "bswap64 (bswap64 v) = v"
  by (simp add: bswap64_def byte_simps)

lemma bswap_zero [simp]: "bswap16 0 = 0" "bswap32 0 = 0" "bswap64 0 = 0"
  by (simp_all add: bswap16_def bswap32_def bswap64_def mk16_def mk32_def mk64_def
      byte_of_def word_at_def)

text \<open>Big-endian memory images: the PowerPC stores the most significant byte first.\<close>

definition be16 :: "u16 \<Rightarrow> bytes" where
  "be16 v = [byte_of 1 v, byte_of 0 v]"

definition be32 :: "u32 \<Rightarrow> bytes" where
  "be32 v = [byte_of 3 v, byte_of 2 v, byte_of 1 v, byte_of 0 v]"

definition be64 :: "u64 \<Rightarrow> bytes" where
  "be64 v = be32 (ucast (drop_bit 32 v)) @ be32 (ucast v)"

definition le32 :: "u32 \<Rightarrow> bytes" where
  "le32 v = [byte_of 0 v, byte_of 1 v, byte_of 2 v, byte_of 3 v]"

definition le64 :: "u64 \<Rightarrow> bytes" where
  "le64 v = le32 (ucast v) @ le32 (ucast (drop_bit 32 v))"

lemma length_images [simp]:
  "length (be16 h) = 2" "length (be32 w) = 4" "length (be64 d) = 8"
  "length (le32 w) = 4" "length (le64 d) = 8"
  by (simp_all add: be16_def be32_def be64_def le32_def le64_def)

text \<open>Storing a swapped word on the big-endian CPU leaves the little-endian image.\<close>

lemma be32_bswap32 [byte_simps]: "be32 (bswap32 v) = le32 v"
  by (simp add: be32_def le32_def bswap32_def byte_simps)

lemma be64_bswap64 [byte_simps]: "be64 (bswap64 v) = le64 v"
  by (simp add: be64_def le64_def bswap64_def byte_simps)

lemma unat_u32_less: "unat (w :: u32) < 4294967296"
proof -
  have "unat w < 2 ^ LENGTH(32)" by (rule unsigned_less)
  then show ?thesis by simp
qed

lemma unat_u8_less: "unat (b :: u8) < 256"
proof -
  have "unat b < 2 ^ LENGTH(8)" by (rule unsigned_less)
  then show ?thesis by simp
qed

lemma concat_singles: "concat (map (\<lambda>i. [f i]) xs) = map f xs"
  by (induction xs) simp_all

lemma map_nth_take: "n \<le> length xs \<Longrightarrow> map ((!) xs) [0..<n] = take n xs"
  by (rule nth_equalityI) simp_all

end
