(* ===== verification/Board_Alloc.thy ===== *)
theory Board_Alloc
  imports Prelude
begin

text \<open>
  The board-memory allocator of \<open>src/chip/chip_alloc.c\<close>: a table of slots sorted by offset,
  first fit with splitting, coalescing on release, and the two vtable callbacks on top of it.
  The slot table is the list of the first \<open>num_board_allocs\<close> entries of \<open>board_allocs\<close>.
\<close>

section \<open>State\<close>

record slot =
  s_offset :: u32
  s_size :: u32
  s_used :: bool

record board =
  b_allocs :: "slot list"
  b_alloc_offset :: u32     \<comment> \<open>\<open>gs->board_alloc_offset\<close>\<close>
  b_mem :: u32              \<comment> \<open>\<open>gs->board_mem\<close>, 0 for NULL\<close>
  b_mem_size :: u32
  b_has_mutex :: bool       \<comment> \<open>\<open>gs->alloc_mutex\<close> is not NULL\<close>
  b_locks :: int            \<comment> \<open>obtains minus releases of \<open>alloc_mutex\<close>\<close>

abbreviation MAX_BOARD_ALLOCS :: nat where "MAX_BOARD_ALLOCS \<equiv> 512"

definition alloc_lock :: "board \<Rightarrow> board" where
  "alloc_lock b = (if b_has_mutex b then b\<lparr>b_locks := b_locks b + 1\<rparr> else b)"

definition alloc_unlock :: "board \<Rightarrow> board" where
  "alloc_unlock b = (if b_has_mutex b then b\<lparr>b_locks := b_locks b - 1\<rparr> else b)"

section \<open>The table loops\<close>

text \<open>\<open>for (j = i; j < num - 1; j++) a[j] = a[j + 1]; num--;\<close>\<close>

definition delete_slot :: "nat \<Rightarrow> slot list \<Rightarrow> slot list" where
  "delete_slot i xs = butlast (foldl (\<lambda>a j. a[j := a ! (j + 1)]) xs [i..<length xs - 1])"

text \<open>\<open>for (j = num; j > i; j--) a[j] = a[j - 1]; num++;\<close>\<close>

fun shift_up :: "nat \<Rightarrow> nat \<Rightarrow> slot list \<Rightarrow> slot list" where
  "shift_up i 0 a = a"
| "shift_up i (Suc j) a = (if i < Suc j then shift_up i j (a[Suc j := a ! j]) else a)"

definition open_slot :: "nat \<Rightarrow> slot list \<Rightarrow> slot list" where
  "open_slot i xs = shift_up i (length xs) (xs @ [\<lparr>s_offset = 0, s_size = 0, s_used = False\<rparr>])"

fun drop_trailing_free :: "slot list \<Rightarrow> slot list" where
  "drop_trailing_free xs =
     (if xs \<noteq> [] \<and> \<not> s_used (last xs) then drop_trailing_free (butlast xs) else xs)"

declare drop_trailing_free.simps [simp del]

definition board_recalc_top :: "board \<Rightarrow> board" where
  "board_recalc_top b =
     (if b_allocs b = [] then b\<lparr>b_alloc_offset := 0\<rparr>
      else b\<lparr>b_alloc_offset := s_offset (last (b_allocs b)) + s_size (last (b_allocs b))\<rparr>)"

definition merge_successor :: "nat \<Rightarrow> slot list \<Rightarrow> slot list" where
  "merge_successor i xs =
     (if i + 1 < length xs \<and> \<not> s_used (xs ! (i + 1))
      then delete_slot (i + 1) (xs[i := (xs ! i)\<lparr>s_size := s_size (xs ! i) + s_size (xs ! (i + 1))\<rparr>])
      else xs)"

definition merge_predecessor :: "nat \<Rightarrow> slot list \<Rightarrow> slot list" where
  "merge_predecessor i xs =
     (if 0 < i \<and> \<not> s_used (xs ! (i - 1))
      then delete_slot i
        (xs[i - 1 := (xs ! (i - 1))\<lparr>s_size := s_size (xs ! (i - 1)) + s_size (xs ! i)\<rparr>])
      else xs)"

definition board_coalesce_at :: "nat \<Rightarrow> board \<Rightarrow> board" where
  "board_coalesce_at i b =
     board_recalc_top (b\<lparr>b_allocs :=
       drop_trailing_free (merge_predecessor i (merge_successor i (b_allocs b)))\<rparr>)"

section \<open>board_free\<close>

fun find_used :: "u32 \<Rightarrow> nat \<Rightarrow> slot list \<Rightarrow> nat option" where
  "find_used off i [] = None"
| "find_used off i (s # ss) =
     (if s_offset s = off \<and> s_used s then Some i else find_used off (Suc i) ss)"

definition board_free :: "u32 \<Rightarrow> board \<Rightarrow> bool \<times> board" where
  "board_free mem b =
     (if b_mem b = 0 \<or> mem = 0 then (False, b)
      else
        let b = alloc_lock b;
            target_offset = mem - b_mem b
        in case find_used target_offset 0 (b_allocs b) of
             None \<Rightarrow> (False, alloc_unlock b)
           | Some i \<Rightarrow>
               (True, alloc_unlock (board_coalesce_at i
                  (b\<lparr>b_allocs := (b_allocs b)[i := (b_allocs b ! i)\<lparr>s_used := False\<rparr>]\<rparr>))))"

section \<open>board_alloc\<close>

definition round16 :: "u32 \<Rightarrow> u32" where
  "round16 sz = (let r = (sz + 15) AND NOT 15 in if r = 0 then 16 else r)"

fun first_fit :: "u32 \<Rightarrow> nat \<Rightarrow> slot list \<Rightarrow> nat option" where
  "first_fit sz i [] = None"
| "first_fit sz i (s # ss) =
     (if s_used s then first_fit sz (Suc i) ss
      else if s_size s < sz then first_fit sz (Suc i) ss
      else Some i)"

definition take_hole :: "u32 \<Rightarrow> nat \<Rightarrow> slot list \<Rightarrow> slot list" where
  "take_hole sz i xs =
     (if s_size (xs ! i) = sz then xs[i := (xs ! i)\<lparr>s_used := True\<rparr>]
      else if length xs < MAX_BOARD_ALLOCS then
        let ys = open_slot i xs;
            ys = ys[i := (ys ! i)\<lparr>s_size := sz, s_used := True\<rparr>]
        in ys[i + 1 := (ys ! (i + 1))\<lparr>s_offset := s_offset (ys ! (i + 1)) + sz,
                                      s_size := s_size (ys ! (i + 1)) - sz\<rparr>]
      else xs[i := (xs ! i)\<lparr>s_used := True\<rparr>])"

definition board_alloc :: "u32 \<Rightarrow> board \<Rightarrow> u32 \<times> board" where
  "board_alloc sz b =
     (let sz = round16 sz;
          b = alloc_lock b
      in case first_fit sz 0 (b_allocs b) of
           Some i \<Rightarrow>
             let b = b\<lparr>b_allocs := take_hole sz i (b_allocs b)\<rparr>
             in (b_mem b + s_offset (b_allocs b ! i), alloc_unlock b)
         | None \<Rightarrow>
             if b_mem_size b < b_alloc_offset b + sz then (0, alloc_unlock b)
             else if MAX_BOARD_ALLOCS \<le> length (b_allocs b) then (0, alloc_unlock b)
             else
               let off = b_alloc_offset b;
                   b = b\<lparr>b_allocs := b_allocs b @ [\<lparr>s_offset = off, s_size = sz, s_used = True\<rparr>],
                         b_alloc_offset := off + sz\<rparr>
               in (b_mem b + off, alloc_unlock b))"

section \<open>The vtable callbacks\<close>

text \<open>\<open>g_chip_state\<close> may still be NULL when the callbacks run: the state is optional.\<close>

definition chip_AllocCardMem :: "u32 \<Rightarrow> board option \<Rightarrow> u32 \<times> board option" where
  "chip_AllocCardMem sz gs =
     (case gs of None \<Rightarrow> (0, None)
      | Some b \<Rightarrow> if b_mem b = 0 then (0, Some b)
          else (let (p, b) = board_alloc sz b in (p, Some b)))"

definition chip_FreeCardMem :: "u32 \<Rightarrow> board option \<Rightarrow> bool \<times> board option" where
  "chip_FreeCardMem mem gs =
     (case gs of None \<Rightarrow> (False, None)
      | Some b \<Rightarrow> (let (r, b) = board_free mem b in (r, Some b)))"

section \<open>The table loops as list operations\<close>

lemma shift_down_nth:
  "k < length xs \<Longrightarrow> i \<le> k \<Longrightarrow>
     length (foldl (\<lambda>a j. a[j := a ! (j + 1)]) xs [i..<k]) = length xs \<and>
     (\<forall>p<length xs. foldl (\<lambda>a j. a[j := a ! (j + 1)]) xs [i..<k] ! p =
        (if i \<le> p \<and> p < k then xs ! (p + 1) else xs ! p))"
proof (induction k)
  case 0
  then show ?case by simp
next
  case (Suc k)
  show ?case
  proof (cases "i = Suc k")
    case True
    then show ?thesis by auto
  next
    case False
    then have "i \<le> k" using Suc.prems by simp
    then show ?thesis using Suc.IH Suc.prems by (auto simp: nth_list_update less_Suc_eq)
  qed
qed

lemma delete_slot_eq:
  assumes "i < length xs"
  shows "delete_slot i xs = take i xs @ drop (Suc i) xs"
proof (rule nth_equalityI)
  let ?r = "foldl (\<lambda>a j. a[j := a ! (j + 1)]) xs [i..<length xs - 1]"
  have sh: "length ?r = length xs"
    "\<forall>p<length xs. ?r ! p = (if i \<le> p \<and> p < length xs - 1 then xs ! (p + 1) else xs ! p)"
    using shift_down_nth [of "length xs - 1" xs i] assms by auto
  show "length (delete_slot i xs) = length (take i xs @ drop (Suc i) xs)"
    using sh(1) assms by (simp add: delete_slot_def)
  fix p assume "p < length (delete_slot i xs)"
  then have "p < length xs - 1" using sh(1) by (simp add: delete_slot_def)
  then show "delete_slot i xs ! p = (take i xs @ drop (Suc i) xs) ! p"
    using sh assms by (auto simp: delete_slot_def nth_butlast nth_append min_def)
qed

lemma shift_up_nth:
  "j < length a \<Longrightarrow> length (shift_up i j a) = length a \<and>
     (\<forall>p<length a. shift_up i j a ! p = (if i < p \<and> p \<le> j then a ! (p - 1) else a ! p))"
proof (induction j arbitrary: a)
  case 0
  then show ?case by auto
next
  case (Suc j)
  show ?case
  proof (cases "i < Suc j")
    case True
    then show ?thesis using Suc.IH [of "a[Suc j := a ! j]"] Suc.prems
      by (auto simp: nth_list_update le_Suc_eq)
  qed auto
qed

lemma open_slot_eq:
  assumes "i < length xs"
  shows "open_slot i xs = take i xs @ xs ! i # drop i xs"
proof (rule nth_equalityI)
  let ?a = "xs @ [\<lparr>s_offset = 0, s_size = 0, s_used = False\<rparr>]"
  have sh: "length (open_slot i xs) = Suc (length xs)"
    "\<forall>p<Suc (length xs). open_slot i xs ! p = (if i < p \<and> p \<le> length xs then ?a ! (p - 1) else ?a ! p)"
    using shift_up_nth [of "length xs" ?a i] by (auto simp: open_slot_def)
  show "length (open_slot i xs) = length (take i xs @ xs ! i # drop i xs)"
    using sh(1) assms by simp
  fix p assume "p < length (open_slot i xs)"
  then have "p < Suc (length xs)" using sh(1) by simp
  then show "open_slot i xs ! p = (take i xs @ xs ! i # drop i xs) ! p"
    using sh(2) assms by (auto simp: nth_append nth_Cons' min_def)
qed

lemma drop_trailing_used: "xs = [] \<or> s_used (last xs) \<Longrightarrow> drop_trailing_free xs = xs"
  by (subst drop_trailing_free.simps) auto

lemma drop_trailing_snoc: "\<not> s_used s \<Longrightarrow> drop_trailing_free (xs @ [s]) = drop_trailing_free xs"
  by (subst drop_trailing_free.simps) simp

lemma find_used_Some:
  "find_used off k xs = Some i \<Longrightarrow> k \<le> i \<and> i - k < length xs \<and> s_used (xs ! (i - k)) \<and> s_offset (xs ! (i - k)) = off"
proof (induction xs arbitrary: k)
  case (Cons s ss)
  show ?case
  proof (cases "s_offset s = off \<and> s_used s")
    case True
    with Cons.prems show ?thesis by auto
  next
    case False
    with Cons.prems have "find_used off (Suc k) ss = Some i" by auto
    from Cons.IH [OF this] show ?thesis by (auto simp: nth_Cons')
  qed
qed simp

lemma find_used_None: "find_used off k xs = None \<longleftrightarrow> (\<forall>s\<in>set xs. \<not> (s_used s \<and> s_offset s = off))"
  by (induction xs arbitrary: k) auto

lemma first_fit_Some:
  "first_fit sz k xs = Some i \<Longrightarrow> k \<le> i \<and> i - k < length xs \<and> \<not> s_used (xs ! (i - k)) \<and> sz \<le> s_size (xs ! (i - k))
     \<and> (\<forall>j<i - k. s_used (xs ! j) \<or> s_size (xs ! j) < sz)"
proof (induction xs arbitrary: k)
  case (Cons s ss)
  show ?case
  proof (cases "s_used s \<or> s_size s < sz")
    case False
    with Cons.prems show ?thesis by auto
  next
    case True
    with Cons.prems have "first_fit sz (Suc k) ss = Some i" by (auto split: if_splits)
    from Cons.IH [OF this] have IH: "Suc k \<le> i" "i - Suc k < length ss" "\<not> s_used (ss ! (i - Suc k))"
      "sz \<le> s_size (ss ! (i - Suc k))" "\<forall>j<i - Suc k. s_used (ss ! j) \<or> s_size (ss ! j) < sz" by auto
    then have "i - k = Suc (i - Suc k)" by simp
    then show ?thesis using IH True by (auto simp: less_Suc_eq_0_disj)
  qed
qed simp

lemma first_fit_None: "first_fit sz k xs = None \<longleftrightarrow> (\<forall>s\<in>set xs. s_used s \<or> s_size s < sz)"
  by (induction xs arbitrary: k) auto

end
