(* ===== verification/Board_Correct.thy ===== *)
theory Board_Correct
  imports Board_Alloc "HOL-Library.Multiset"
begin

text \<open>
  Correctness of the board-memory allocator: the slots tile the used part of board memory without
  gaps, free slots are maximal, and the live blocks behave as a set of disjoint, aligned
  blocks inside the board memory.
\<close>

section \<open>Invariant and abstraction\<close>

fun tiled :: "nat \<Rightarrow> slot list \<Rightarrow> nat \<Rightarrow> bool" where
  "tiled a [] b \<longleftrightarrow> a = b"
| "tiled a (s # ss) b \<longleftrightarrow> unat (s_offset s) = a \<and> 0 < unat (s_size s) \<and> unat (s_size s) mod 16 = 0 \<and>
     tiled (a + unat (s_size s)) ss b"

abbreviation one_used :: "slot \<Rightarrow> slot \<Rightarrow> bool" where
  "one_used s t \<equiv> s_used s \<or> s_used t"

definition board_ok :: "board \<Rightarrow> bool" where
  "board_ok b \<longleftrightarrow> tiled 0 (b_allocs b) (unat (b_alloc_offset b))
     \<and> successively one_used (b_allocs b)
     \<and> (b_allocs b \<noteq> [] \<longrightarrow> s_used (last (b_allocs b)))
     \<and> length (b_allocs b) \<le> MAX_BOARD_ALLOCS
     \<and> unat (b_alloc_offset b) \<le> unat (b_mem_size b)
     \<and> b_mem b \<noteq> 0 \<and> unat (b_mem b) + unat (b_mem_size b) < 2 ^ 32"

definition live :: "slot list \<Rightarrow> (nat \<times> nat) multiset" where
  "live xs = image_mset (\<lambda>s. (unat (s_offset s), unat (s_size s))) (filter_mset s_used (mset xs))"

lemma live_simps [simp]: "live [] = {#}" "live (xs @ ys) = live xs + live ys"
  "live (s # xs) = (if s_used s then {#(unat (s_offset s), unat (s_size s))#} else {#}) + live xs"
  by (simp_all add: live_def)

lemma tiled_append: "tiled a (xs @ ys) c \<longleftrightarrow> (\<exists>b. tiled a xs b \<and> tiled b ys c)"
  by (induction xs arbitrary: a) auto

lemma tiled_le: "tiled a xs b \<Longrightarrow> a \<le> b"
  by (induction xs arbitrary: a) fastforce+

lemma tiled_mod: "tiled a xs b \<Longrightarrow> a mod 16 = 0 \<Longrightarrow> b mod 16 = 0"
proof (induction xs arbitrary: a)
  case (Cons s xs)
  then have "(a + unat (s_size s)) mod 16 = 0" by (simp add: mod_add_eq [symmetric])
  then show ?case using Cons by auto
qed simp

lemma tiled_mem: "tiled a xs b \<Longrightarrow> s \<in> set xs \<Longrightarrow>
    a \<le> unat (s_offset s) \<and> unat (s_offset s) + unat (s_size s) \<le> b"
  by (induction xs arbitrary: a) (auto dest: tiled_le, fastforce)

lemma live_mem: "tiled a xs b \<Longrightarrow> (o', n) \<in># live xs \<Longrightarrow> a \<le> o' \<and> o' + n \<le> b"
  by (auto simp: live_def dest: tiled_mem)

text \<open>Two blocks do not overlap.\<close>

definition apart :: "nat \<times> nat \<Rightarrow> nat \<times> nat \<Rightarrow> bool" where
  "apart x y \<longleftrightarrow> fst x + snd x \<le> fst y \<or> fst y + snd y \<le> fst x"

lemma tiled_split_apart:
  assumes "tiled 0 (pre @ s # post) e" "x \<in># live pre + live post"
  shows "apart x (unat (s_offset s), unat (s_size s))"
proof -
  obtain p where p: "tiled 0 pre p" "unat (s_offset s) = p" "tiled (p + unat (s_size s)) post e"
    using assms(1) by (auto simp: tiled_append)
  obtain u v where x: "x = (u, v)" by (cases x) auto
  from assms(2) x have "(u, v) \<in># live pre \<or> (u, v) \<in># live post" by auto
  then show ?thesis
  proof
    assume "(u, v) \<in># live pre"
    from live_mem [OF p(1) this] show ?thesis using p(2) x by (simp add: apart_def)
  next
    assume "(u, v) \<in># live post"
    from live_mem [OF p(3) this] show ?thesis using p(2) x by (simp add: apart_def)
  qed
qed

section \<open>Rounding\<close>

lemma round16_bounds:
  assumes "unat sz + 15 < 2 ^ 32"
  shows "unat sz \<le> unat (round16 sz)" "unat (round16 sz) \<le> unat sz + 16" "0 < unat (round16 sz)"
    "unat (round16 sz) mod 16 = 0"
proof -
  have s: "unat (sz + 15) = unat sz + 15" using assms by (simp add: unat_word_ariths)
  have r: "unat ((sz + 15) AND NOT 15) = (unat sz + 15) div 16 * 16"
    by (simp only: unat_align16 s)
  have z: "((sz + 15) AND NOT 15 = 0) \<longleftrightarrow> (unat sz + 15) div 16 * 16 = 0"
    using r by (metis unat_0 unat_eq_zero)
  have b: "unat sz \<le> (unat sz + 15) div 16 * 16" "(unat sz + 15) div 16 * 16 \<le> unat sz + 15" by linarith+
  show "unat sz \<le> unat (round16 sz)" "unat (round16 sz) \<le> unat sz + 16"
    using r z b by (auto simp: round16_def Let_def)
  show "0 < unat (round16 sz)" "unat (round16 sz) mod 16 = 0"
    using r z by (auto simp: round16_def Let_def)
qed

section \<open>Allocation\<close>

lemma take_hole_split:
  assumes "xs = pre @ h # post" "i = length pre"
  shows "take_hole sz i xs =
     (if s_size h \<noteq> sz \<and> length xs < MAX_BOARD_ALLOCS
      then pre @ h\<lparr>s_size := sz, s_used := True\<rparr> #
             h\<lparr>s_offset := s_offset h + sz, s_size := s_size h - sz\<rparr> # post
      else pre @ h\<lparr>s_used := True\<rparr> # post)"
  using assms by (auto simp: take_hole_def open_slot_eq Let_def nth_append list_update_append)

lemma take_hole_ok:
  assumes t: "tiled a (pre @ h # post) e" and adj: "successively one_used (pre @ h # post)"
    and free: "\<not> s_used h" and fit: "sz \<le> s_size h" and sz: "0 < unat sz" "unat sz mod 16 = 0"
    and xs: "xs = pre @ h # post" and e: "e < 2 ^ 32" and len: "length xs \<le> MAX_BOARD_ALLOCS"
  shows "tiled a (take_hole sz (length pre) xs) e
     \<and> successively one_used (take_hole sz (length pre) xs)
     \<and> length (take_hole sz (length pre) xs) \<le> MAX_BOARD_ALLOCS
     \<and> (take_hole sz (length pre) xs) ! length pre = h\<lparr>s_used := True,
          s_size := if length xs < MAX_BOARD_ALLOCS then sz else s_size h\<rparr>
     \<and> live (take_hole sz (length pre) xs) = live xs + {#(unat (s_offset h),
          unat (if length xs < MAX_BOARD_ALLOCS then sz else s_size h))#}
     \<and> (post \<noteq> [] \<longrightarrow> last (take_hole sz (length pre) xs) = last xs)"
proof -
  obtain p where p: "tiled a pre p" "unat (s_offset h) = p" "0 < unat (s_size h)"
      "unat (s_size h) mod 16 = 0" "tiled (p + unat (s_size h)) post e"
    using t by (auto simp: tiled_append)
  have le: "unat sz \<le> unat (s_size h)" using fit by (simp add: word_le_nat_alt)
  have diff: "unat (s_size h - sz) = unat (s_size h) - unat sz"
    using fit by (simp add: unat_sub)
  have "p + unat (s_size h) < 2 ^ 32" using tiled_le [OF p(5)] e by simp
  then have off: "unat (s_offset h + sz) = p + unat sz"
    using p(2) le by (simp add: unat_word_ariths)
  have m: "(unat (s_size h) - unat sz) mod 16 = 0"
    using p(4) sz(2) le by (metis diff_is_0_eq dvd_diff_nat mod_0_imp_dvd dvd_imp_mod_0)
  have "s_size h \<noteq> sz \<Longrightarrow> unat sz < unat (s_size h)"
    using le by (metis le_neq_implies_less unat_inj)
  then show ?thesis
    unfolding take_hole_split [OF xs refl]
    using p le diff off m sz adj free len xs
    by (auto simp: tiled_append successively_append_iff successively_Cons nth_append ac_simps)
qed

lemma lock_simps [simp]:
  "b_allocs (alloc_lock b) = b_allocs b" "b_alloc_offset (alloc_lock b) = b_alloc_offset b"
  "b_mem (alloc_lock b) = b_mem b" "b_mem_size (alloc_lock b) = b_mem_size b"
  "alloc_unlock (alloc_lock b) = b"
  "alloc_unlock ((alloc_lock b)\<lparr>b_allocs := xs\<rparr>) = b\<lparr>b_allocs := xs\<rparr>"
  "alloc_unlock ((alloc_lock b)\<lparr>b_allocs := xs, b_alloc_offset := t\<rparr>) = b\<lparr>b_allocs := xs, b_alloc_offset := t\<rparr>"
  by (auto simp: alloc_lock_def alloc_unlock_def)

text \<open>Everything \<open>board_alloc\<close> can do for a request that cannot wrap the 32-bit arithmetic.\<close>

definition request_fits :: "board \<Rightarrow> u32 \<Rightarrow> bool" where
  "request_fits b sz \<longleftrightarrow> unat (b_mem_size b) + unat sz + 16 < 2 ^ 32"

definition alloc_fails :: "board \<Rightarrow> u32 \<Rightarrow> bool" where
  "alloc_fails b sz \<longleftrightarrow> (\<forall>s\<in>set (b_allocs b). s_used s \<or> s_size s < round16 sz) \<and>
     (unat (b_mem_size b) < unat (b_alloc_offset b) + unat (round16 sz)
      \<or> MAX_BOARD_ALLOCS \<le> length (b_allocs b))"

lemma board_alloc_cases:
  assumes ok: "board_ok b" and fits: "request_fits b sz"
  shows "board_alloc sz b = (0, b) \<and> alloc_fails b sz
     \<or> (\<exists>off n b'. board_alloc sz b = (b_mem b + of_nat off, b') \<and> \<not> alloc_fails b sz
          \<and> board_ok b' \<and> live (b_allocs b') = live (b_allocs b) + {#(off, n)#}
          \<and> unat sz \<le> n \<and> off mod 16 = 0 \<and> off + n \<le> unat (b_mem_size b)
          \<and> (\<forall>x\<in>#live (b_allocs b). apart x (off, n))
          \<and> b_mem b' = b_mem b \<and> b_mem_size b' = b_mem_size b \<and> b_locks b' = b_locks b
          \<and> b_has_mutex b' = b_has_mutex b)"
proof -
  let ?r = "round16 sz"
  have r: "unat sz \<le> unat ?r" "unat ?r \<le> unat sz + 16" "0 < unat ?r" "unat ?r mod 16 = 0"
    using round16_bounds [of sz] fits by (auto simp: request_fits_def)
  let ?xs = "b_allocs b"
  have t: "tiled 0 ?xs (unat (b_alloc_offset b))" and adj: "successively one_used ?xs"
    and top: "unat (b_alloc_offset b) \<le> unat (b_mem_size b)"
    using ok by (auto simp: board_ok_def)
  show ?thesis
  proof (cases "first_fit ?r 0 ?xs")
    case (Some i)
    then have i: "i < length ?xs" "\<not> s_used (?xs ! i)" "?r \<le> s_size (?xs ! i)"
      using first_fit_Some [OF Some] by auto
    let ?pre = "take i ?xs" and ?h = "?xs ! i" and ?post = "drop (Suc i) ?xs"
    let ?n = "if length ?xs < MAX_BOARD_ALLOCS then ?r else s_size ?h"
    have xs: "?xs = ?pre @ ?h # ?post" "length ?pre = i" using i(1) by (simp_all add: Cons_nth_drop_Suc)
    have e: "unat (b_alloc_offset b) < 2 ^ 32" by (rule order.strict_trans2 [OF unsigned_less]) simp
    have hole: "tiled 0 (take_hole ?r i ?xs) (unat (b_alloc_offset b))"
      "successively one_used (take_hole ?r i ?xs)" "length (take_hole ?r i ?xs) \<le> MAX_BOARD_ALLOCS"
      "(take_hole ?r i ?xs) ! i = ?h\<lparr>s_used := True, s_size := ?n\<rparr>"
      "live (take_hole ?r i ?xs) = live ?xs + {#(unat (s_offset ?h), unat ?n)#}"
      "?post \<noteq> [] \<longrightarrow> last (take_hole ?r i ?xs) = last ?xs"
      using take_hole_ok [OF _ _ i(2,3) r(3,4) xs(1) e, of 0] t adj ok xs by (auto simp: board_ok_def)
    have "?post \<noteq> []"
    proof
      assume "?post = []"
      then have "last ?xs = ?h" using xs(1) by (metis last_snoc)
      then show False using ok i by (auto simp: board_ok_def)
    qed
    then have last: "s_used (last (take_hole ?r i ?xs))" "take_hole ?r i ?xs \<noteq> []"
      using hole(6) ok xs(1) hole(5) by (auto simp: board_ok_def)
    let ?b' = "b\<lparr>b_allocs := take_hole ?r i ?xs\<rparr>"
    have res: "board_alloc sz b = (b_mem b + of_nat (unat (s_offset ?h)), ?b')"
      using Some hole(4) by (simp add: board_alloc_def Let_def)
    have ok': "board_ok ?b'" using ok hole(1,2,3) last by (simp add: board_ok_def)
    have ap: "\<forall>x\<in>#live ?xs. apart x (unat (s_offset ?h), unat ?n)"
    proof
      fix x assume "x \<in># live ?xs"
      then have "x \<in># live ?pre + live ?post" using i(2) by (subst (asm) xs(1)) simp
      then have "apart x (unat (s_offset ?h), unat (s_size ?h))"
        using tiled_split_apart t xs(1) by metis
      then show "apart x (unat (s_offset ?h), unat ?n)"
        using i(3) by (auto simp: apart_def word_le_nat_alt)
    qed
    obtain p where p: "tiled 0 ?pre p" "unat (s_offset ?h) = p"
      using t xs(1) by (metis tiled.simps(2) tiled_append)
    have "unat (s_offset ?h) + unat (s_size ?h) \<le> unat (b_alloc_offset b)"
      using tiled_mem [OF t, of ?h] i(1) by simp
    then have bnd: "unat (s_offset ?h) + unat ?n \<le> unat (b_mem_size b)" "unat sz \<le> unat ?n"
      using top i(3) r(1) by (auto simp: word_le_nat_alt)
    have al: "unat (s_offset ?h) mod 16 = 0" using tiled_mod [OF p(1)] p(2) by simp
    have "?h \<in> set ?xs" using i(1) by simp
    then have nf: "\<not> alloc_fails b sz" using i by (auto simp: alloc_fails_def not_less)
    show ?thesis
      using res ok' hole(5) bnd al ap nf by (intro disjI2 exI [of _ "unat (s_offset ?h)"] exI [of _ "unat ?n"] exI [of _ ?b']) simp
  next
    case None
    then have none: "\<forall>s\<in>set ?xs. s_used s \<or> s_size s < ?r" by (simp add: first_fit_None)
    have sum: "unat (b_alloc_offset b + ?r) = unat (b_alloc_offset b) + unat ?r"
      using fits top r(2) by (simp add: unat_word_ariths request_fits_def)
    have over: "b_mem_size b < b_alloc_offset b + ?r \<longleftrightarrow>
        unat (b_mem_size b) < unat (b_alloc_offset b) + unat ?r"
      by (simp only: word_less_nat_alt sum)
    show ?thesis
    proof (cases "alloc_fails b sz")
      case True
      then show ?thesis using None over by (auto simp: board_alloc_def Let_def alloc_fails_def)
    next
      case False
      then have room: "unat (b_alloc_offset b) + unat ?r \<le> unat (b_mem_size b)" "length ?xs < MAX_BOARD_ALLOCS"
        using none by (auto simp: alloc_fails_def)
      let ?s = "\<lparr>s_offset = b_alloc_offset b, s_size = ?r, s_used = True\<rparr>"
      let ?b' = "b\<lparr>b_allocs := ?xs @ [?s], b_alloc_offset := b_alloc_offset b + ?r\<rparr>"
      have res: "board_alloc sz b = (b_mem b + of_nat (unat (b_alloc_offset b)), ?b')"
        using None over room by (simp add: board_alloc_def Let_def)
      have ok': "board_ok ?b'"
        using ok t adj sum room r by (auto simp: board_ok_def tiled_append successively_append_iff)
      have al: "unat (b_alloc_offset b) mod 16 = 0" using tiled_mod [OF t] by simp
      have ap: "\<forall>x\<in>#live ?xs. apart x (unat (b_alloc_offset b), unat ?r)"
        using live_mem [OF t] by (auto simp: apart_def)
      show ?thesis using res ok' room r al ap False
        by (intro disjI2 exI [of _ "unat (b_alloc_offset b)"] exI [of _ "unat ?r"] exI [of _ ?b']) simp
    qed
  qed
qed

section \<open>Release\<close>

lemma nth_mid: "i = length pre \<Longrightarrow> (pre @ s # post) ! i = s"
  by simp

lemma merge_successor_split:
  assumes "i = length pre"
  shows "merge_successor i (pre @ s # post) =
     (case post of [] \<Rightarrow> pre @ [s] | t # post' \<Rightarrow>
        if s_used t then pre @ s # post
        else pre @ s\<lparr>s_size := s_size s + s_size t\<rparr> # post')"
  using assms by (cases post) (auto simp: merge_successor_def delete_slot_eq nth_append)

lemma merge_predecessor_split:
  assumes "i = length pre"
  shows "merge_predecessor i (pre @ s # post) =
     (if pre \<noteq> [] \<and> \<not> s_used (last pre)
      then butlast pre @ (last pre)\<lparr>s_size := s_size (last pre) + s_size s\<rparr> # post
      else pre @ s # post)"
proof (cases pre rule: rev_cases)
  case Nil
  then show ?thesis using assms by (simp add: merge_predecessor_def)
next
  case (snoc pre' q)
  then show ?thesis using assms
    by (auto simp: merge_predecessor_def delete_slot_eq nth_append list_update_append)
qed

text \<open>
  Two adjacent slots can be replaced by one of their joint size: the tiling and the
  end stay the same, since the sizes cannot wrap below the end of the memory.
\<close>

lemma tiled_join:
  assumes "tiled a (pre @ s # t # post) e" "e < 2 ^ 32"
  shows "tiled a (pre @ s\<lparr>s_size := s_size s + s_size t\<rparr> # post) e"
proof -
  obtain p where p: "tiled a pre p" "unat (s_offset s) = p" "0 < unat (s_size s)"
      "unat (s_size s) mod 16 = 0" "unat (s_size t) mod 16 = 0"
      "tiled (p + unat (s_size s) + unat (s_size t)) post e"
    using assms(1) by (auto simp: tiled_append)
  have "unat (s_size s + s_size t) = unat (s_size s) + unat (s_size t)"
    using tiled_le [OF p(6)] assms(2) by (simp add: unat_word_ariths)
  then show ?thesis using p by (auto simp: tiled_append mod_add_eq [symmetric] ac_simps)
qed

text \<open>The slot list after merging: a free slot between a used (or no) slot on either side.\<close>

lemma merges_ok:
  assumes t: "tiled 0 (pre @ s # post) e" and e: "e < 2 ^ 32" and free: "\<not> s_used s"
    and adj: "successively one_used pre" "successively one_used post"
  defines "ys \<equiv> merge_predecessor (length pre) (merge_successor (length pre) (pre @ s # post))"
  shows "\<exists>pre' m post'. ys = pre' @ m # post' \<and> \<not> s_used m \<and> tiled 0 ys e
     \<and> (pre' \<noteq> [] \<longrightarrow> s_used (last pre')) \<and> (post' \<noteq> [] \<longrightarrow> post \<noteq> [] \<and> s_used (hd post') \<and> last post' = last post)
     \<and> (post' = [] \<longrightarrow> post = [] \<or> \<not> s_used (last post))
     \<and> successively one_used pre' \<and> successively one_used post'
     \<and> live ys = live pre + live post \<and> length ys \<le> length (pre @ s # post)"
proof -
  define zs where "zs = merge_successor (length pre) (pre @ s # post)"
  have "\<exists>s' post'. zs = pre @ s' # post' \<and> \<not> s_used s' \<and> tiled 0 zs e \<and> successively one_used post'
     \<and> (post' \<noteq> [] \<longrightarrow> post \<noteq> [] \<and> s_used (hd post') \<and> last post' = last post)
     \<and> (post' = [] \<longrightarrow> post = [] \<or> \<not> s_used (last post))
     \<and> live post' = live post \<and> length post' \<le> length post"
  proof (cases post)
    case Nil
    then show ?thesis using t free by (simp add: zs_def merge_successor_split [OF refl])
  next
    case (Cons u us)
    show ?thesis
    proof (cases "s_used u")
      case True
      then show ?thesis using t free Cons adj(2) by (auto simp: zs_def merge_successor_split [OF refl])
    next
      case False
      have j: "tiled 0 (pre @ s\<lparr>s_size := s_size s + s_size u\<rparr> # us) e"
        using tiled_join [OF t [unfolded Cons] e] .
      have "zs = pre @ s\<lparr>s_size := s_size s + s_size u\<rparr> # us"
        using False Cons by (simp add: zs_def merge_successor_split [OF refl])
      moreover have "us \<noteq> [] \<longrightarrow> s_used (hd us)" "successively one_used us"
        using adj(2) Cons False by (auto simp: successively_Cons)
      ultimately show ?thesis using j free False Cons
        by (intro exI [of _ "s\<lparr>s_size := s_size s + s_size u\<rparr>"] exI [of _ us]) auto
    qed
  qed
  then obtain s' post' where z: "zs = pre @ s' # post'" "\<not> s_used s'" "tiled 0 zs e"
      "successively one_used post'" "post' \<noteq> [] \<longrightarrow> post \<noteq> [] \<and> s_used (hd post') \<and> last post' = last post"
      "post' = [] \<longrightarrow> post = [] \<or> \<not> s_used (last post)"
      "live post' = live post" "length post' \<le> length post" by blast
  have ys: "ys = merge_predecessor (length pre) zs" by (simp add: ys_def zs_def)
  show ?thesis
  proof (cases "pre \<noteq> [] \<and> \<not> s_used (last pre)")
    case False
    then have "ys = pre @ s' # post'" using z(1) by (auto simp: ys merge_predecessor_split [OF refl])
    then show ?thesis using z False adj(1) by (intro exI [of _ pre] exI [of _ s'] exI [of _ post']) auto
  next
    case True
    then obtain pre' q where pre: "pre = pre' @ [q]" "\<not> s_used q" by (cases pre rule: rev_cases) auto
    let ?m = "q\<lparr>s_size := s_size q + s_size s'\<rparr>"
    have y: "ys = pre' @ ?m # post'" using merge_predecessor_split [of "length pre" pre s' post'] z(1) pre by (simp add: ys)
    have "tiled 0 (pre' @ q # s' # post') e" using z(1,3) pre by simp
    then have "tiled 0 ys e" using tiled_join e y by metis
    moreover have "pre' \<noteq> [] \<longrightarrow> s_used (last pre')" "successively one_used pre'"
      using adj(1) pre by (auto simp: successively_append_iff)
    ultimately show ?thesis using y z pre
      by (intro exI [of _ pre'] exI [of _ ?m] exI [of _ post']) auto
  qed
qed

lemma coalesce_ok:
  assumes ok: "board_ok b" and xs: "b_allocs b = pre @ s # post" and used: "s_used s"
  defines "b' \<equiv> board_coalesce_at (length pre)
     (b\<lparr>b_allocs := (b_allocs b)[length pre := s\<lparr>s_used := False\<rparr>]\<rparr>)"
  shows "board_ok b' \<and> live (b_allocs b') = live pre + live post
     \<and> b_mem b' = b_mem b \<and> b_mem_size b' = b_mem_size b \<and> b_locks b' = b_locks b
     \<and> b_has_mutex b' = b_has_mutex b"
proof -
  let ?e = "unat (b_alloc_offset b)" and ?s = "s\<lparr>s_used := False\<rparr>"
  let ?ys = "merge_predecessor (length pre) (merge_successor (length pre) (pre @ ?s # post))"
  have t: "tiled 0 (pre @ ?s # post) ?e" using ok xs by (auto simp: board_ok_def tiled_append)
  have e: "?e < 2 ^ 32" by (rule order.strict_trans2 [OF unsigned_less]) simp
  have adj: "successively one_used pre" "successively one_used post"
    using ok xs by (auto simp: board_ok_def successively_append_iff successively_Cons)
  have nf: "\<not> s_used ?s" by simp
  obtain pre' m post' where y: "?ys = pre' @ m # post'" "\<not> s_used m" "tiled 0 ?ys ?e"
     "pre' \<noteq> [] \<longrightarrow> s_used (last pre')" "post' \<noteq> [] \<longrightarrow> post \<noteq> [] \<and> s_used (hd post') \<and> last post' = last post"
     "post' = [] \<longrightarrow> post = [] \<or> \<not> s_used (last post)"
     "successively one_used pre'" "successively one_used post'"
     "live ?ys = live pre + live post" "length ?ys \<le> length (pre @ ?s # post)"
    using merges_ok [OF t e nf adj] by blast
  have lastp: "post \<noteq> [] \<longrightarrow> s_used (last post)" using ok xs by (auto simp: board_ok_def)
  have len: "length (pre @ ?s # post) \<le> MAX_BOARD_ALLOCS" using ok xs by (simp add: board_ok_def)
  have b': "b' = board_recalc_top (b\<lparr>b_allocs := drop_trailing_free ?ys\<rparr>)"
    by (simp add: b'_def board_coalesce_at_def xs)
  have top: "b_alloc_offset (board_recalc_top (b\<lparr>b_allocs := zs\<rparr>)) = word_of_nat z"
    if "tiled 0 zs z" "z \<le> ?e" for zs z
  proof (cases zs rule: rev_cases)
    case Nil
    then show ?thesis using that by (simp add: board_recalc_top_def)
  next
    case (snoc zs' l)
    then have "unat (s_offset l) + unat (s_size l) = z" using that by (auto simp: tiled_append)
    then show ?thesis using snoc by (auto simp: board_recalc_top_def)
  qed
  have fld: "b_allocs (board_recalc_top c) = b_allocs c" "b_mem (board_recalc_top c) = b_mem c"
    "b_mem_size (board_recalc_top c) = b_mem_size c" "b_locks (board_recalc_top c) = b_locks c"
    "b_has_mutex (board_recalc_top c) = b_has_mutex c" for c
    by (auto simp: board_recalc_top_def)
  show ?thesis
  proof (cases "post' = []")
    case True
    have "drop_trailing_free pre' = pre'" using y(4) by (intro drop_trailing_used) blast
    then have tr: "drop_trailing_free ?ys = pre'"
      using y(1,2) True by (simp add: drop_trailing_snoc)
    obtain z where z: "tiled 0 pre' z" "z \<le> ?e"
      using y(1,3) True by (auto simp: tiled_append)
    have zz: "unat (word_of_nat z :: u32) = z" using z(2) e by (simp add: unat_of_nat)
    have "live ?ys = live pre'" using y(1,2) True by simp
    moreover have "length pre' \<le> MAX_BOARD_ALLOCS" using y(1,10) len True by simp
    ultimately show ?thesis using y tr z zz top [OF z] ok len
      by (auto simp: b' fld board_ok_def)
  next
    case False
    have tr: "drop_trailing_free ?ys = ?ys"
      using y(1,5) False lastp y(6) by (intro drop_trailing_used) auto
    obtain p ps where p: "post' = p # ps" using False by (cases post') auto
    have adj': "successively one_used ?ys"
      unfolding y(1) using y(2,4,5,7,8) p
      by (auto simp: successively_append_iff successively_Cons)
    have "s_used (last ?ys)" using y(1,5) False lastp by auto
    then show ?thesis using y tr top [OF y(3)] ok len adj'
      by (auto simp: b' fld board_ok_def)
  qed
qed

lemma tiled_offsets_unique:
  assumes "tiled a (pre @ s # post) e" "tiled a (pre' @ s' # post') e"
    "pre @ s # post = pre' @ s' # post'" "s_offset s = s_offset s'"
  shows "pre = pre' \<and> s = s' \<and> post = post'"
  using assms
proof (induction pre arbitrary: pre' a)
  case Nil
  then show ?case
  proof (cases pre')
    case (Cons q qs)
    then have "s = q" "post = qs @ s' # post'" using Nil by auto
    then have "unat (s_offset s') \<ge> a + unat (s_size s)" "0 < unat (s_size s)" "unat (s_offset s) = a"
      using Nil.prems(1) by (auto simp: tiled_append dest: tiled_le)
    then show ?thesis using Nil.prems(4) by simp
  qed auto
next
  case (Cons q qs)
  show ?case
  proof (cases pre')
    case Nil
    then have "s' = q" "post' = qs @ s # post" using Cons.prems by auto
    then have "unat (s_offset s) \<ge> a + unat (s_size s')" "0 < unat (s_size s')" "unat (s_offset s') = a"
      using Cons.prems(2) Nil by (auto simp: tiled_append dest: tiled_le)
    then show ?thesis using Cons.prems(4) by simp
  next
    case (Cons q' qs')
    then show ?thesis using Cons.IH [of "a + unat (s_size q)" qs'] Cons.prems by auto
  qed
qed

text \<open>Everything \<open>board_free\<close> can do.\<close>

lemma board_free_cases:
  assumes ok: "board_ok b" and mem: "mem \<noteq> 0"
  shows "board_free mem b = (False, b) \<and> (\<forall>n. (unat (mem - b_mem b), n) \<notin># live (b_allocs b))
     \<or> (\<exists>n b'. board_free mem b = (True, b') \<and> board_ok b'
          \<and> live (b_allocs b) = live (b_allocs b') + {#(unat (mem - b_mem b), n)#}
          \<and> b_mem b' = b_mem b \<and> b_mem_size b' = b_mem_size b \<and> b_locks b' = b_locks b
          \<and> b_has_mutex b' = b_has_mutex b)"
proof (cases "find_used (mem - b_mem b) 0 (b_allocs b)")
  case None
  have "(unat (mem - b_mem b), n) \<notin># live (b_allocs b)" for n
    using None by (auto simp: find_used_None live_def)
  then show ?thesis using None ok mem by (simp add: board_free_def board_ok_def)
next
  case (Some i)
  let ?xs = "b_allocs b"
  have i: "i < length ?xs" "s_used (?xs ! i)" "s_offset (?xs ! i) = mem - b_mem b"
    using find_used_Some [OF Some] by auto
  let ?pre = "take i ?xs" and ?s = "?xs ! i" and ?post = "drop (Suc i) ?xs"
  have xs: "?xs = ?pre @ ?s # ?post" "length ?pre = i" using i(1) by (simp_all add: Cons_nth_drop_Suc)
  let ?b' = "board_coalesce_at i (b\<lparr>b_allocs := ?xs[i := ?s\<lparr>s_used := False\<rparr>]\<rparr>)"
  have c: "board_ok ?b'" "live (b_allocs ?b') = live ?pre + live ?post"
     "b_mem ?b' = b_mem b" "b_mem_size ?b' = b_mem_size b" "b_locks ?b' = b_locks b"
     "b_has_mutex ?b' = b_has_mutex b"
    using coalesce_ok [OF ok xs(1) i(2)] xs(2) by auto
  have lk: "alloc_unlock (board_coalesce_at i ((alloc_lock b)\<lparr>b_allocs := zs\<rparr>)) =
      board_coalesce_at i (b\<lparr>b_allocs := zs\<rparr>)" for zs
    by (auto simp: board_coalesce_at_def board_recalc_top_def alloc_lock_def alloc_unlock_def)
  have "live ?xs = live ?pre + live ?post + {#(unat (mem - b_mem b), unat (s_size ?s))#}"
    using i by (subst xs(1)) simp
  then show ?thesis using Some ok mem c lk
    by (intro disjI2 exI [of _ "unat (s_size ?s)"] exI [of _ ?b']) (simp add: board_free_def board_ok_def)
qed

end
