(* ===== verification/Board_Properties.thy ===== *)
theory Board_Properties
  imports Board_Correct
begin

text \<open>
  The board-memory allocator behind an abstract interface (a store of disjoint blocks), its
  interpretation on the model of the code, and the properties of the two vtable callbacks.
\<close>

section \<open>The interface of a block store\<close>

locale block_store =
  fixes ok :: "'s \<Rightarrow> bool"
    and blocks :: "'s \<Rightarrow> (nat \<times> nat) multiset"
    and fits :: "'s \<Rightarrow> 'r \<Rightarrow> bool"
    and amount :: "'r \<Rightarrow> nat"
    and alloc :: "'s \<Rightarrow> 'r \<Rightarrow> nat option \<times> 's"
    and release :: "'s \<Rightarrow> nat \<Rightarrow> bool \<times> 's"
    and capacity :: "'s \<Rightarrow> nat"
  assumes alloc_ok: "ok s \<Longrightarrow> fits s r \<Longrightarrow>
      (case fst (alloc s r) of
         None \<Rightarrow> snd (alloc s r) = s
       | Some off \<Rightarrow> \<exists>n\<ge>amount r. ok (snd (alloc s r)) \<and> off + n \<le> capacity s
           \<and> blocks (snd (alloc s r)) = blocks s + {#(off, n)#}
           \<and> (\<forall>x\<in>#blocks s. apart x (off, n))) \<and> capacity (snd (alloc s r)) = capacity s"
    and release_ok: "ok s \<Longrightarrow> ok (snd (release s off)) \<and> capacity (snd (release s off)) = capacity s
      \<and> (if fst (release s off) then \<exists>n. blocks s = blocks (snd (release s off)) + {#(off, n)#}
         else snd (release s off) = s \<and> (\<forall>n. (off, n) \<notin># blocks s))"
begin

text \<open>The operations a client can issue, and the store after a sequence of them.\<close>

fun run :: "'s \<Rightarrow> ('r + nat) list \<Rightarrow> 's" where
  "run s [] = s"
| "run s (Inl r # ops) = (if fits s r then run (snd (alloc s r)) ops else run s ops)"
| "run s (Inr off # ops) = run (snd (release s off)) ops"

text \<open>Blocks that are handed out by a run never overlap and never leave the store.\<close>

definition separated :: "'s \<Rightarrow> bool" where
  "separated s \<longleftrightarrow> (\<forall>x\<in>#blocks s. \<forall>y\<in>#blocks s - {#x#}. apart x y) \<and> (\<forall>(off, n)\<in>#blocks s. off + n \<le> capacity s)"

lemma alloc_separated:
  assumes "ok s" "fits s r" "separated s"
  shows "ok (snd (alloc s r)) \<and> separated (snd (alloc s r)) \<and> capacity (snd (alloc s r)) = capacity s"
proof (cases "fst (alloc s r)")
  case None
  then show ?thesis using alloc_ok [OF assms(1,2)] assms by simp
next
  case (Some off)
  then obtain n where n: "ok (snd (alloc s r))" "off + n \<le> capacity s"
    "blocks (snd (alloc s r)) = blocks s + {#(off, n)#}" "\<forall>x\<in>#blocks s. apart x (off, n)"
    "capacity (snd (alloc s r)) = capacity s"
    using alloc_ok [OF assms(1,2)] by auto
  have sym: "apart u v \<Longrightarrow> apart v u" for u v by (auto simp: apart_def)
  have "apart x y" if x: "x \<in># blocks s + {#(off, n)#}" and y: "y \<in># blocks s + {#(off, n)#} - {#x#}" for x y
  proof (cases "x = (off, n)")
    case True
    then show ?thesis using y n(4) sym by simp
  next
    case False
    then have xb: "x \<in># blocks s" using x by simp
    then have "blocks s + {#(off, n)#} - {#x#} = blocks s - {#x#} + {#(off, n)#}" by simp
    then have "y \<in># blocks s - {#x#} \<or> y = (off, n)" using y by auto
    then show ?thesis using xb assms(3) n(4) by (auto simp: separated_def)
  qed
  then show ?thesis using n assms(3) by (auto simp: separated_def)
qed

lemma release_separated:
  assumes "ok s" "separated s"
  shows "ok (snd (release s off)) \<and> separated (snd (release s off))
     \<and> capacity (snd (release s off)) = capacity s"
proof (cases "fst (release s off)")
  case True
  then obtain n where n: "blocks s = blocks (snd (release s off)) + {#(off, n)#}"
    "capacity (snd (release s off)) = capacity s"
    using release_ok [OF assms(1), of off] by auto
  have "apart x y" if "x \<in># blocks (snd (release s off))" "y \<in># blocks (snd (release s off)) - {#x#}" for x y
    using that assms(2) n(1) by (auto simp: separated_def diff_union_single_conv)
  then show ?thesis using release_ok [OF assms(1), of off] assms(2) n
    by (auto simp: separated_def)
next
  case False
  then show ?thesis using release_ok [OF assms(1), of off] assms by auto
qed

lemma run_separated: "ok s \<Longrightarrow> separated s \<Longrightarrow> ok (run s ops) \<and> separated (run s ops) \<and> capacity (run s ops) = capacity s"
proof (induction s ops rule: run.induct)
  case (2 s r ops)
  then show ?case using alloc_separated [of s r] by auto
next
  case (3 s off ops)
  then show ?case using release_separated [of s off] by auto
qed simp

end

section \<open>The allocator as a block store\<close>

definition store_alloc :: "board \<Rightarrow> u32 \<Rightarrow> nat option \<times> board" where
  "store_alloc b sz = (let (p, b') = board_alloc sz b in
     (if p = 0 then None else Some (unat (p - b_mem b)), b'))"

definition store_release :: "board \<Rightarrow> nat \<Rightarrow> bool \<times> board" where
  "store_release b off = (if off < unat (b_mem_size b) then board_free (b_mem b + of_nat off) b else (False, b))"

lemma board_pointer:
  assumes "board_ok b" "off \<le> unat (b_mem_size b)"
  shows "b_mem b + of_nat off \<noteq> 0" "unat (b_mem b + of_nat off - b_mem b) = off"
proof -
  have "unat (b_mem b) + unat (b_mem_size b) < 2 ^ 32" "b_mem b \<noteq> 0" using assms by (auto simp: board_ok_def)
  moreover have o32: "unat (of_nat off :: u32) = off"
    using assms(2) unsigned_less [where ?'a = nat and w = "b_mem_size b"] by (simp add: unat_of_nat)
  ultimately have "unat (b_mem b + of_nat off) = unat (b_mem b) + off" "0 < unat (b_mem b)"
    using assms(2) by (simp_all add: unat_word_ariths unat_gt_0)
  then show "b_mem b + of_nat off \<noteq> 0" by (metis add_is_0 less_irrefl unat_0)
  show "unat (b_mem b + of_nat off - b_mem b) = off" using o32 by simp
qed

interpretation board_store: block_store board_ok "\<lambda>b. live (b_allocs b)" request_fits unat
  store_alloc store_release "\<lambda>b. unat (b_mem_size b)"
proof unfold_locales
  fix b :: board and r :: u32
  assume ok: "board_ok b" and fits: "request_fits b r"
  show "(case fst (store_alloc b r) of
         None \<Rightarrow> snd (store_alloc b r) = b
       | Some off \<Rightarrow> \<exists>n\<ge>unat r. board_ok (snd (store_alloc b r)) \<and> off + n \<le> unat (b_mem_size b)
           \<and> live (b_allocs (snd (store_alloc b r))) = live (b_allocs b) + {#(off, n)#}
           \<and> (\<forall>x\<in>#live (b_allocs b). apart x (off, n)))
      \<and> unat (b_mem_size (snd (store_alloc b r))) = unat (b_mem_size b)"
    using board_alloc_cases [OF ok fits]
  proof (elim disjE exE conjE)
    assume "board_alloc r b = (0, b)"
    then show ?thesis by (simp add: store_alloc_def)
  next
    fix off n b'
    assume a: "board_alloc r b = (b_mem b + word_of_nat off, b')" "off + n \<le> unat (b_mem_size b)"
      "board_ok b'" "unat r \<le> n" "live (b_allocs b') = live (b_allocs b) + {#(off, n)#}"
      "\<forall>x\<in>#live (b_allocs b). apart x (off, n)" "b_mem_size b' = b_mem_size b"
    have off: "b_mem b + of_nat off \<noteq> 0" "unat (b_mem b + of_nat off - b_mem b) = off"
      using board_pointer [OF ok] a(2) by auto
    then have "store_alloc b r = (Some off, b')" using a(1) by (simp add: store_alloc_def)
    then show ?thesis using a(2-) by auto
  qed
next
  fix b :: board and off :: nat
  assume ok: "board_ok b"
  show "board_ok (snd (store_release b off)) \<and> unat (b_mem_size (snd (store_release b off))) = unat (b_mem_size b)
      \<and> (if fst (store_release b off)
         then \<exists>n. live (b_allocs b) = live (b_allocs (snd (store_release b off))) + {#(off, n)#}
         else snd (store_release b off) = b \<and> (\<forall>n. (off, n) \<notin># live (b_allocs b)))"
  proof (cases "off < unat (b_mem_size b)")
    case True
    then have p: "b_mem b + of_nat off \<noteq> 0" "unat (b_mem b + of_nat off - b_mem b) = off"
      using board_pointer [OF ok] by auto
    show ?thesis using board_free_cases [OF ok p(1)] True ok p(2) by (auto simp: store_release_def)
  next
    case False
    have "(off, n) \<notin># live (b_allocs b)" for n
    proof
      assume "(off, n) \<in># live (b_allocs b)"
      then obtain s where s: "s \<in> set (b_allocs b)" "unat (s_offset s) = off" by (auto simp: live_def)
      then obtain pre post where xs: "b_allocs b = pre @ s # post" by (meson split_list)
      then obtain p where "tiled p (s # post) (unat (b_alloc_offset b))"
        using ok by (auto simp: board_ok_def tiled_append)
      then have "off < unat (b_alloc_offset b)" using s(2) by (auto dest: tiled_le)
      then show False using False ok by (simp add: board_ok_def)
    qed
    then show ?thesis using False ok by (simp add: store_release_def)
  qed
qed

section \<open>Allocating and releasing the same block\<close>

lemma find_used_mid:
  "tiled a (pre @ s # post) e \<Longrightarrow> s_used s \<Longrightarrow> find_used (s_offset s) k (pre @ s # post) = Some (k + length pre)"
proof (induction pre arbitrary: a k)
  case (Cons q pre)
  then have "tiled (a + unat (s_size q)) (pre @ s # post) e" "unat (s_offset q) = a" "0 < unat (s_size q)"
    by auto
  moreover from this have "a + unat (s_size q) \<le> unat (s_offset s)"
    by (auto simp: tiled_append dest: tiled_le)
  ultimately show ?case using Cons by auto
qed simp

lemma board_free_mid:
  assumes "board_ok b" "b_allocs b = pre @ s # post" "s_used s"
  shows "board_free (b_mem b + s_offset s) b =
    (True, board_coalesce_at (length pre) (b\<lparr>b_allocs := pre @ s\<lparr>s_used := False\<rparr> # post\<rparr>))"
proof -
  have t: "tiled 0 (pre @ s # post) (unat (b_alloc_offset b))" using assms by (simp add: board_ok_def)
  have "unat (s_offset s) \<le> unat (b_mem_size b)"
    using tiled_mem [OF t, of s] assms(1) by (simp add: board_ok_def)
  then have nz: "b_mem b + s_offset s \<noteq> 0"
    using board_pointer(1) [OF assms(1), of "unat (s_offset s)"] by simp
  have lk: "alloc_unlock (board_coalesce_at i ((alloc_lock b)\<lparr>b_allocs := zs\<rparr>)) =
      board_coalesce_at i (b\<lparr>b_allocs := zs\<rparr>)" for i zs
    by (auto simp: board_coalesce_at_def board_recalc_top_def alloc_lock_def alloc_unlock_def)
  show ?thesis using find_used_mid [OF t assms(3), of 0] nz assms lk
    by (auto simp: board_free_def board_ok_def)
qed

lemma recalc_same:
  assumes "board_ok b" shows "board_recalc_top b = b"
proof (cases "b_allocs b" rule: rev_cases)
  case Nil
  then have "unat (b_alloc_offset b) = 0" using assms by (simp add: board_ok_def)
  then have "b_alloc_offset b = 0" by (simp add: unat_eq_zero)
  then show ?thesis using Nil by (simp add: board_recalc_top_def)
next
  case (snoc xs l)
  then have "unat (s_offset l) + unat (s_size l) = unat (b_alloc_offset b)"
    using assms by (auto simp: board_ok_def tiled_append)
  then have "of_nat (unat (s_offset l) + unat (s_size l)) = (of_nat (unat (b_alloc_offset b)) :: u32)" by simp
  then have "s_offset l + s_size l = b_alloc_offset b" by simp
  then show ?thesis using snoc by (simp add: board_recalc_top_def)
qed

lemma alloc_release_id:
  assumes ok: "board_ok b" and fits: "request_fits b sz" and a: "board_alloc sz b = (p, b')" and p: "p \<noteq> 0"
  shows "board_free p b' = (True, b)"
proof -
  let ?r = "round16 sz" and ?xs = "b_allocs b"
  have ok': "board_ok b'" and nf: "\<not> alloc_fails b sz"
    using board_alloc_cases [OF ok fits] a p by auto
  have t: "tiled 0 ?xs (unat (b_alloc_offset b))" and adj: "successively one_used ?xs"
    using ok by (auto simp: board_ok_def)
  show ?thesis
  proof (cases "first_fit ?r 0 ?xs")
    case (Some i)
    then have i: "i < length ?xs" "\<not> s_used (?xs ! i)" using first_fit_Some [OF Some] by auto
    let ?pre = "take i ?xs" and ?h = "?xs ! i" and ?post = "drop (Suc i) ?xs"
    have xs: "?xs = ?pre @ ?h # ?post" "i = length ?pre" using i(1) by (simp_all add: Cons_nth_drop_Suc)
    have post: "?post \<noteq> []" "s_used (hd ?post)"
    proof -
      show ne: "?post \<noteq> []"
      proof
        assume "?post = []"
        then have "last ?xs = ?h" using xs(1) by (metis last_snoc)
        then show False using ok i by (auto simp: board_ok_def)
      qed
      have "successively one_used (?h # ?post)" using adj xs(1) by (metis successively_append_iff)
      then show "s_used (hd ?post)" using ne i(2) by (auto simp: successively_Cons)
    qed
    have pre: "?pre = [] \<or> s_used (last ?pre)"
      using adj i(2) by (subst (asm) xs(1)) (auto simp: successively_append_iff)
    have th: "b' = b\<lparr>b_allocs := take_hole ?r i ?xs\<rparr>" "p = b_mem b + s_offset (take_hole ?r i ?xs ! i)"
      using a Some by (auto simp: board_alloc_def Let_def)
    have undo: "board_coalesce_at i (b\<lparr>b_allocs := ?pre @ g # psx\<rparr>) = b"
      if "merge_successor i (?pre @ g # psx) = ?xs" for g psx
    proof -
      have "merge_predecessor i ?xs = ?xs"
        using pre by (subst xs(1), subst merge_predecessor_split [OF xs(2)]) (auto simp: xs(1) [symmetric])
      moreover have "drop_trailing_free ?xs = ?xs" using ok by (intro drop_trailing_used) (auto simp: board_ok_def)
      ultimately show ?thesis using that recalc_same [OF ok] by (simp add: board_coalesce_at_def)
    qed
    have same: "?h\<lparr>s_used := False\<rparr> = ?h" using i(2) by (cases ?h) simp
    show ?thesis
    proof (cases "s_size ?h \<noteq> ?r \<and> length ?xs < MAX_BOARD_ALLOCS")
      case False
      then have al: "take_hole ?r i ?xs = ?pre @ ?h\<lparr>s_used := True\<rparr> # ?post"
        using take_hole_split [OF xs] by auto
      have "merge_successor i (?pre @ ?h # ?post) = ?pre @ ?h # ?post"
        using post merge_successor_split [OF xs(2), of ?h ?post] by (cases ?post) simp_all
      then have "merge_successor i (?pre @ ?h # ?post) = ?xs" by (simp only: xs(1) [symmetric])
      then have "board_coalesce_at i (b\<lparr>b_allocs := ?pre @ ?h # ?post\<rparr>) = b" by (rule undo)
      then show ?thesis
        using board_free_mid [OF ok', of ?pre "?h\<lparr>s_used := True\<rparr>" ?post] th al xs(2) same by (simp add: nth_append)
    next
      case True
      let ?u = "?h\<lparr>s_size := ?r, s_used := True\<rparr>"
      let ?rest = "?h\<lparr>s_offset := s_offset ?h + ?r, s_size := s_size ?h - ?r\<rparr>"
      have al: "take_hole ?r i ?xs = ?pre @ ?u # ?rest # ?post"
        using True take_hole_split [OF xs] by auto
      have "merge_successor i (?pre @ ?u\<lparr>s_used := False\<rparr> # ?rest # ?post) =
          ?pre @ ?h\<lparr>s_used := False\<rparr> # ?post"
        using i(2) merge_successor_split [OF xs(2), of "?u\<lparr>s_used := False\<rparr>" "?rest # ?post"] by simp
      then have "merge_successor i (?pre @ ?u\<lparr>s_used := False\<rparr> # ?rest # ?post) = ?xs"
        by (simp only: same xs(1) [symmetric])
      then have "board_coalesce_at i (b\<lparr>b_allocs := ?pre @ ?u\<lparr>s_used := False\<rparr> # ?rest # ?post\<rparr>) = b" by (rule undo)
      then show ?thesis
        using board_free_mid [OF ok', of ?pre ?u "?rest # ?post"] th al xs(2) by (simp add: nth_append)
    qed
  next
    case None
    let ?s = "\<lparr>s_offset = b_alloc_offset b, s_size = ?r, s_used = True\<rparr>"
    have b': "b' = b\<lparr>b_allocs := ?xs @ [?s], b_alloc_offset := b_alloc_offset b + ?r\<rparr>" "p = b_mem b + s_offset ?s"
      using a p None by (auto simp: board_alloc_def Let_def split: if_splits)
    have lastu: "?xs = [] \<or> s_used (last ?xs)" using ok by (auto simp: board_ok_def)
    have m: "merge_predecessor (length ?xs) (merge_successor (length ?xs) (?xs @ [?s\<lparr>s_used := False\<rparr>])) =
        ?xs @ [?s\<lparr>s_used := False\<rparr>]"
      using lastu by (auto simp: merge_successor_split [OF refl] merge_predecessor_split [OF refl])
    have d: "drop_trailing_free (?xs @ [?s\<lparr>s_used := False\<rparr>]) = ?xs"
      using drop_trailing_used [OF lastu] by (simp add: drop_trailing_snoc)
    have rt: "board_recalc_top (b\<lparr>b_alloc_offset := t\<rparr>) = board_recalc_top b" for t
      by (simp add: board_recalc_top_def)
    have "board_coalesce_at (length ?xs) (b'\<lparr>b_allocs := ?xs @ [?s\<lparr>s_used := False\<rparr>]\<rparr>) = b"
      using m d recalc_same [OF ok] rt [of "b_alloc_offset b + ?r"] b'(1) by (simp add: board_coalesce_at_def)
    then show ?thesis using board_free_mid [OF ok', of ?xs ?s "[]"] b' by simp
  qed
qed

section \<open>Properties of the vtable callbacks\<close>

definition demo_board :: board where
  "demo_board = \<lparr>b_allocs = [\<lparr>s_offset = 0, s_size = 64, s_used = True\<rparr>,
       \<lparr>s_offset = 64, s_size = 160, s_used = False\<rparr>, \<lparr>s_offset = 224, s_size = 32, s_used = True\<rparr>],
     b_alloc_offset = 256, b_mem = 0x10000000, b_mem_size = 0x8000000, b_has_mutex = True, b_locks = 0\<rparr>"

lemma demo_board_ok: "board_ok demo_board"
  by (simp add: board_ok_def demo_board_def)

lemma demo_board_fits: "request_fits demo_board 100"
  by (simp add: request_fits_def demo_board_def)



text \<open>
  Property C8. chip_FreeCardMem on a consistent table: a pointer that is not the start of a live block
  is rejected with nothing changed; a live block disappears from the live blocks, nothing else
  does, and the coalesced table is consistent again (no two adjacent free slots, no free slot
  at the top).
\<close>

theorem free_card_mem_spec:
  assumes "board_ok b" "mem \<noteq> 0"
  shows "chip_FreeCardMem mem (Some b) = (False, Some b) \<and> (\<forall>n. (unat (mem - b_mem b), n) \<notin># live (b_allocs b))
     \<or> (\<exists>n b'. chip_FreeCardMem mem (Some b) = (True, Some b') \<and> board_ok b'
          \<and> live (b_allocs b) = live (b_allocs b') + {#(unat (mem - b_mem b), n)#} \<and> b_locks b' = b_locks b)"
  using board_free_cases [OF assms] by (auto simp: chip_FreeCardMem_def)

theorem free_card_mem_spec_witness:
  "chip_FreeCardMem 0x100000E0 (Some demo_board) = (False, Some demo_board)
       \<and> (\<forall>n. (unat (0x100000E0 - b_mem demo_board), n) \<notin># live (b_allocs demo_board))
     \<or> (\<exists>n b'. chip_FreeCardMem 0x100000E0 (Some demo_board) = (True, Some b') \<and> board_ok b'
          \<and> live (b_allocs demo_board) = live (b_allocs b') + {#(unat (0x100000E0 - b_mem demo_board), n)#}
          \<and> b_locks b' = b_locks demo_board)"
  by (rule free_card_mem_spec [OF demo_board_ok]) simp

text \<open>
  Freeing a block straight after allocating it restores the allocator exactly: the
  hole that was split is whole again, the top is where it was.
\<close>

theorem alloc_free_roundtrip:
  assumes "board_ok b" "request_fits b sz" "chip_AllocCardMem sz (Some b) = (p, gs)" "p \<noteq> 0"
  shows "chip_FreeCardMem p gs = (True, Some b)"
proof -
  obtain b' where "board_alloc sz b = (p, b')" "gs = Some b'"
    using assms(1,3) by (auto simp: chip_AllocCardMem_def board_ok_def split: prod.splits)
  then show ?thesis using alloc_release_id [OF assms(1,2) _ assms(4)] by (simp add: chip_FreeCardMem_def)
qed

theorem alloc_free_roundtrip_witness:
  "chip_FreeCardMem (fst (chip_AllocCardMem 100 (Some demo_board))) (snd (chip_AllocCardMem 100 (Some demo_board)))
     = (True, Some demo_board)"
proof -
  have "fst (chip_AllocCardMem 100 (Some demo_board)) \<noteq> 0"
    by code_simp
  then show ?thesis
    using alloc_free_roundtrip [OF demo_board_ok demo_board_fits prod.collapse [symmetric]] by blast
qed



text \<open>
  Without the size bound the 32-bit rounding wraps: on the board memory of the driver
  (128 MB), a request of nearly 4 GB is answered with a non-NULL pointer to a 16-byte slot
  (rounding up gives 0, which the code then replaces by 16).
\<close>

theorem huge_request_wraps:
  "fst (chip_AllocCardMem 0xFFFFFFF8 (Some demo_board)) = 0x10000040
   \<and> map_option (\<lambda>b. b_allocs b ! 1) (snd (chip_AllocCardMem 0xFFFFFFF8 (Some demo_board)))
       = Some \<lparr>s_offset = 64, s_size = 16, s_used = True\<rparr>"
  by code_simp

end
