(* ===== verification/Dma_Memory.thy ===== *)
theory Dma_Memory
  imports Prelude
begin

text \<open>
  The DMA buffers of the driver as byte lists, and the only ways the command code touches them:
  \<open>chip_zero\<close>, stores and loads of struct fields through \<open>GP32\<close>/\<open>GP64\<close>, and byte copies.  Every access
  is checked: outside the buffer it is \<^term>\<open>None\<close>.  A field store is modelled as the
  store of a byte-swapped value by a big-endian CPU; \<open>st32_le\<close>, \<open>ld32_le\<close> show that the device
  finds the little-endian value.
\<close>

section \<open>Accesses\<close>

definition GP32 :: "u32 \<Rightarrow> u32" where
  "GP32 v = bswap32 v"

definition GP64 :: "u64 \<Rightarrow> u64" where
  "GP64 v = bswap64 v"

definition put_bytes :: "nat \<Rightarrow> bytes \<Rightarrow> bytes \<Rightarrow> bytes option" where
  "put_bytes off bs buf = (if off + length bs \<le> length buf
     then Some (take off buf @ bs @ drop (off + length bs) buf) else None)"

definition get_bytes :: "nat \<Rightarrow> nat \<Rightarrow> bytes \<Rightarrow> bytes option" where
  "get_bytes off n buf = (if off + n \<le> length buf then Some (take n (drop off buf)) else None)"

definition chip_zero :: "nat \<Rightarrow> bytes \<Rightarrow> bytes option" where
  "chip_zero n buf = foldM (\<lambda>i b. wr b i 0) [0..<n] buf"

text \<open>A 32-bit or 64-bit store and load of the big-endian CPU.\<close>

definition cpu_st32 :: "nat \<Rightarrow> u32 \<Rightarrow> bytes \<Rightarrow> bytes option" where
  "cpu_st32 off v buf = put_bytes off (be32 v) buf"

definition cpu_st64 :: "nat \<Rightarrow> u64 \<Rightarrow> bytes \<Rightarrow> bytes option" where
  "cpu_st64 off v buf = put_bytes off (be64 v) buf"

definition cpu_ld32 :: "nat \<Rightarrow> bytes \<Rightarrow> u32 option" where
  "cpu_ld32 off buf = (if off + 4 \<le> length buf
     then Some (mk32 (buf ! (off + 3)) (buf ! (off + 2)) (buf ! (off + 1)) (buf ! off)) else None)"

text \<open>The little-endian reads of the device.\<close>

definition le_ld32 :: "bytes \<Rightarrow> nat \<Rightarrow> u32" where
  "le_ld32 buf off = mk32 (buf ! off) (buf ! (off + 1)) (buf ! (off + 2)) (buf ! (off + 3))"

definition le_ld64 :: "bytes \<Rightarrow> nat \<Rightarrow> u64" where
  "le_ld64 buf off = mk64 (le_ld32 buf off) (le_ld32 buf (off + 4))"

section \<open>Facts\<close>

named_theorems dma_simps \<open>accesses to DMA buffers\<close>

lemma put_bytes_Some [dma_simps]:
  "off + length bs \<le> length buf \<Longrightarrow>
     put_bytes off bs buf = Some (take off buf @ bs @ drop (off + length bs) buf)"
  by (simp add: put_bytes_def)

lemma put_bytes_length: "put_bytes off bs buf = Some buf' \<Longrightarrow> length buf' = length buf"
  by (auto simp: put_bytes_def split: if_splits)

lemma cpu_st_length:
  "cpu_st32 off v buf = Some buf' \<Longrightarrow> length buf' = length buf"
  "cpu_st64 off d buf = Some buf' \<Longrightarrow> length buf' = length buf"
  by (auto simp: cpu_st32_def cpu_st64_def dest: put_bytes_length)

lemma zero_step: "n < length buf \<Longrightarrow> (replicate n 0 @ drop n buf)[n := 0] = replicate (Suc n) (0 :: u8) @ drop (Suc n) buf"
  by (rule nth_equalityI) (auto simp: nth_append nth_list_update simp del: replicate_Suc)

definition zeroed :: "nat \<Rightarrow> bytes \<Rightarrow> bytes" where
  "zeroed n buf = replicate n 0 @ drop n buf"

lemma chip_zero_eq [dma_simps]:
  assumes "n \<le> length buf"
  shows "chip_zero n buf = Some (zeroed n buf)"
  using assms
proof (induction n)
  case 0
  then show ?case by (simp add: chip_zero_def zeroed_def)
next
  case (Suc n)
  then have "foldM (\<lambda>i b. wr b i 0) [0..<n] buf = Some (replicate n 0 @ drop n buf)"
    by (simp add: chip_zero_def zeroed_def)
  moreover have "wr (replicate n 0 @ drop n buf) n 0 = Some (replicate (Suc n) 0 @ drop (Suc n) buf)"
    using Suc.prems zero_step [of n buf] by (simp add: wr_def del: replicate_Suc)
  ultimately show ?case
    by (simp add: chip_zero_def zeroed_def foldM_Suc del: upt_Suc replicate_Suc)
qed

lemma chip_zero_out:
  assumes "length buf < n"
  shows "chip_zero n buf = None"
proof -
  have "[0..<n] = [0..<length buf] @ [length buf..<n]"
    using assms upt_add_eq_append [of 0 "length buf" "n - length buf"] by simp
  also have "[length buf..<n] = length buf # [Suc (length buf)..<n]"
    using assms by (rule upt_conv_Cons)
  finally show ?thesis
    using chip_zero_eq [of "length buf" buf]
    by (simp add: chip_zero_def foldM_append wr_def zeroed_def)
qed

text \<open>
  The stores as total functions, for the proofs: a store in range is \<open>st32\<close>, \<open>st64\<close> or
  \<open>stbytes\<close>, and these are characterised by what the device reads back.
\<close>

definition stbytes :: "nat \<Rightarrow> bytes \<Rightarrow> bytes \<Rightarrow> bytes" where
  "stbytes off bs buf = take off buf @ bs @ drop (off + length bs) buf"

definition st32 :: "nat \<Rightarrow> u32 \<Rightarrow> bytes \<Rightarrow> bytes" where
  "st32 off v buf = stbytes off (le32 v) buf"

definition st64 :: "nat \<Rightarrow> u64 \<Rightarrow> bytes \<Rightarrow> bytes" where
  "st64 off v buf = stbytes off (le64 v) buf"

lemma put_bytes_eq [dma_simps]:
  "off + length bs \<le> length buf \<Longrightarrow> put_bytes off bs buf = Some (stbytes off bs buf)"
  by (simp add: put_bytes_def stbytes_def)

lemma cpu_st32_eq [dma_simps]: "off + 4 \<le> length buf \<Longrightarrow> cpu_st32 off (GP32 v) buf = Some (st32 off v buf)"
  by (simp add: cpu_st32_def GP32_def byte_simps put_bytes_eq st32_def)

lemma cpu_st64_eq [dma_simps]: "off + 8 \<le> length buf \<Longrightarrow> cpu_st64 off (GP64 v) buf = Some (st64 off v buf)"
  by (simp add: cpu_st64_def GP64_def byte_simps put_bytes_eq st64_def)

lemma length_stbytes: "off + length bs \<le> length buf \<Longrightarrow> length (stbytes off bs buf) = length buf"
  by (simp add: stbytes_def)

lemma length_st [dma_simps]:
  "off + 4 \<le> length buf \<Longrightarrow> length (st32 off v buf) = length buf"
  "off + 8 \<le> length buf \<Longrightarrow> length (st64 off d buf) = length buf"
  by (simp_all add: st32_def st64_def length_stbytes)

lemma length_zeroed [dma_simps]: "n \<le> length buf \<Longrightarrow> length (zeroed n buf) = length buf"
  by (simp add: zeroed_def)

lemma nth_stbytes:
  assumes "off + length bs \<le> length buf" "i < length buf"
  shows "stbytes off bs buf ! i = (if off \<le> i \<and> i < off + length bs then bs ! (i - off) else buf ! i)"
  using assms by (auto simp: nth_append stbytes_def)

lemma le_ld32_frame:
  assumes "off + length bs \<le> length buf" "k + 4 \<le> length buf" "k + 4 \<le> off \<or> off + length bs \<le> k"
  shows "le_ld32 (stbytes off bs buf) k = le_ld32 buf k"
  using assms by (auto simp: le_ld32_def nth_stbytes)

lemma le_ld32_le32: "off + 4 \<le> length buf \<Longrightarrow> le_ld32 (stbytes off (le32 v) buf) off = v"
proof -
  assume "off + 4 \<le> length buf"
  then have "le_ld32 (stbytes off (le32 v) buf) off = mk32 (byte_of 0 v) (byte_of 1 v) (byte_of 2 v) (byte_of 3 v)"
    by (simp add: le_ld32_def nth_stbytes) (simp add: le32_def)
  then show ?thesis by (simp add: mk32_bytes)
qed

lemma le_ld32_st32 [dma_simps]:
  "off + 4 \<le> length buf \<Longrightarrow> le_ld32 (st32 off v buf) off = v"
  "\<lbrakk>off + 4 \<le> length buf; k + 4 \<le> length buf; k + 4 \<le> off \<or> off + 4 \<le> k\<rbrakk>
     \<Longrightarrow> le_ld32 (st32 off v buf) k = le_ld32 buf k"
  by (simp_all add: st32_def le_ld32_le32 le_ld32_frame)

lemma stbytes_append:
  assumes "off + length as + length bs \<le> length buf"
  shows "stbytes (off + length as) bs (stbytes off as buf) = stbytes off (as @ bs) buf"
proof -
  have "length buf \<le> off \<Longrightarrow> as = [] \<and> bs = []" using assms by (cases as; cases bs) auto
  then show ?thesis using assms by (auto simp: stbytes_def min_def ac_simps)
qed

lemma st64_halves:
  "off + 8 \<le> length buf \<Longrightarrow>
     st64 off v buf = st32 (off + 4) (ucast (drop_bit 32 v)) (st32 off (ucast v) buf)"
  using stbytes_append [of off "le32 (ucast v)" "le32 (ucast (drop_bit 32 v))" buf]
  by (simp add: st64_def st32_def le64_def)

lemma le_ld_st64 [dma_simps]:
  "off + 8 \<le> length buf \<Longrightarrow> le_ld64 (st64 off v buf) off = v"
  "\<lbrakk>off + 8 \<le> length buf; k + 4 \<le> length buf; k + 4 \<le> off \<or> off + 8 \<le> k\<rbrakk>
     \<Longrightarrow> le_ld32 (st64 off v buf) k = le_ld32 buf k"
  by (auto simp: st64_halves le_ld64_def le_ld32_st32 length_st byte_simps)

lemma le_ld64_st32 [dma_simps]:
  "\<lbrakk>off + 4 \<le> length buf; k + 8 \<le> length buf; k + 8 \<le> off \<or> off + 4 \<le> k\<rbrakk>
     \<Longrightarrow> le_ld64 (st32 off v buf) k = le_ld64 buf k"
  "\<lbrakk>off + 8 \<le> length buf; k + 8 \<le> length buf; k + 8 \<le> off \<or> off + 8 \<le> k\<rbrakk>
     \<Longrightarrow> le_ld64 (st64 off d buf) k = le_ld64 buf k"
  by (auto simp: le_ld64_def le_ld32_st32 le_ld_st64)

lemma le_ld32_zeroed [dma_simps]:
  "k + 4 \<le> n \<Longrightarrow> n \<le> length buf \<Longrightarrow> le_ld32 (zeroed n buf) k = 0"
  by (simp add: le_ld32_def zeroed_def nth_append mk32_def word_at_def)

lemma cpu_ld32_GP32: "off + 4 \<le> length buf \<Longrightarrow> map_option GP32 (cpu_ld32 off buf) = Some (le_ld32 buf off)"
  by (simp add: cpu_ld32_def GP32_def bswap32_def byte_simps le_ld32_def)

section \<open>Runs of field stores\<close>

text \<open>
  A struct is filled by word stores at distinct multiples of four; what the device reads back
  afterwards is a look-up in the list of stores.
\<close>

definition put_words :: "(nat \<times> u32) list \<Rightarrow> bytes \<Rightarrow> bytes option" where
  "put_words fs = foldM (\<lambda>(off, v). cpu_st32 off (GP32 v)) fs"

definition stores :: "(nat \<times> u32) list \<Rightarrow> bytes \<Rightarrow> bytes" where
  "stores fs buf = foldl (\<lambda>b (off, v). st32 off v b) buf fs"

definition words_ok :: "nat \<Rightarrow> (nat \<times> u32) list \<Rightarrow> bool" where
  "words_ok n fs \<longleftrightarrow> distinct (map fst fs) \<and> list_all (\<lambda>(off, v). 4 dvd off \<and> off + 4 \<le> n) fs"

lemma aligned_apart: "4 dvd a \<Longrightarrow> 4 dvd (b :: nat) \<Longrightarrow> a \<noteq> b \<Longrightarrow> a + 4 \<le> b \<or> b + 4 \<le> a"
  by presburger

lemma stores_result:
  assumes "words_ok (length buf) fs"
  shows "put_words fs buf = Some (stores fs buf)" "length (stores fs buf) = length buf"
    "4 dvd k \<Longrightarrow> k + 4 \<le> length buf \<Longrightarrow>
       le_ld32 (stores fs buf) k = (case map_of fs k of None \<Rightarrow> le_ld32 buf k | Some v \<Rightarrow> v)"
  using assms
proof (induction fs arbitrary: buf)
  case Nil
  case 1 then show ?case by (simp add: put_words_def stores_def)
  case 2 then show ?case by (simp add: stores_def)
  case 3 then show ?case by (simp add: stores_def)
next
  case (Cons f fs)
  obtain off v where f: "f = (off, v)" by (cases f)
  have ok: "4 dvd off" "off + 4 \<le> length buf" "off \<notin> fst ` set fs"
    "words_ok (length (st32 off v buf)) fs"
    if "words_ok (length buf) (f # fs)" for buf using that f by (auto simp: words_ok_def length_st)
  {
    case 1
    have "put_words (f # fs) buf = put_words fs (st32 off v buf)"
      using ok(2) [OF 1] f by (simp add: put_words_def cpu_st32_eq)
    then show ?case using Cons.IH(1) [OF ok(4) [OF 1]] f by (simp add: stores_def)
  next
    case 2
    then show ?case using Cons.IH(2) ok f by (simp add: stores_def length_st)
  next
    case 3
    note o = ok [OF 3(3)]
    have "le_ld32 (stores fs (st32 off v buf)) k =
        (case map_of fs k of None \<Rightarrow> le_ld32 (st32 off v buf) k | Some v \<Rightarrow> v)"
      using Cons.IH(3) [OF 3(1) _ o(4)] 3(2) o(2) by (simp add: length_st)
    moreover have "map_of fs off = None" using o(3) by (simp add: map_of_eq_None_iff)
    moreover have "k \<noteq> off \<Longrightarrow> le_ld32 (st32 off v buf) k = le_ld32 buf k"
      using aligned_apart [OF o(1) 3(1)] o(2) 3(2) by (auto simp: le_ld32_st32)
    ultimately show ?case using f o(2)
      by (cases "k = off") (auto simp: stores_def le_ld32_st32 split: option.split)
  }
qed

lemma cpu_st64_words:
  "cpu_st64 off (GP64 v) buf = put_words [(off, ucast v), (off + 4, ucast (drop_bit 32 v))] buf"
proof (cases "off + 8 \<le> length buf")
  case True
  then show ?thesis by (simp add: cpu_st64_eq put_words_def cpu_st32_eq length_st st64_halves)
next
  case False
  then show ?thesis
    by (cases "off + 4 \<le> length buf")
      (simp_all add: put_words_def cpu_st64_def cpu_st32_def put_bytes_def GP32_def GP64_def byte_simps)
qed

lemma bind_Some_right [simp]: "Option.bind m Some = m"
  by (cases m) simp_all

text \<open>Unfolding a run of stores; used from right to left.\<close>

lemma put_words_Cons: "put_words ((off, v) # fs) buf = do { b \<leftarrow> cpu_st32 off (GP32 v) buf; put_words fs b }"
  and put_words_Nil: "put_words [] = Some"
  by (simp_all add: put_words_def foldM_Nil)

lemma put_words_append: "put_words (fs @ gs) buf = do { b \<leftarrow> put_words fs buf; put_words gs b }"
  by (simp add: put_words_def foldM_append)

lemmas put_words_simps = put_words_Cons put_words_Nil

text \<open>Byte copies.\<close>

lemma foldM_copy:
  assumes "k + n \<le> length src" "n \<le> length dst"
  shows "foldM (\<lambda>i dst. do { b \<leftarrow> rd src (k + i); wr dst i b }) [0..<n] dst = Some (take n (drop k src) @ drop n (dst :: bytes))"
  using assms
proof (induction n)
  case 0
  then show ?case by simp
next
  case (Suc n)
  have "take (Suc n) (drop k src) = take n (drop k src) @ [src ! (k + n)]"
    using Suc.prems by (simp add: take_Suc_conv_app_nth)
  moreover have "(take n (drop k src) @ drop n dst)[n := src ! (k + n)] = take n (drop k src) @ src ! (k + n) # drop (Suc n) dst"
    using Suc.prems by (simp add: list_update_append Cons_nth_drop_Suc [symmetric])
  ultimately show ?case
    using Suc by (simp add: foldM_Suc rd_in wr_in del: upt_Suc)
qed

end
