(* ===== verification/Pixels.thy ===== *)
theory Pixels
  imports Dma_Memory
begin

text \<open>
  Pixel formats and pixel memory, shared by the framebuffer conversion (\<open>src/chip/chip_flush.c\<close>) and
  the drawing callbacks (\<open>src/chip/chip_blit.c\<close>): the formats of \<open>RGBFTYPE\<close> the driver names,
  \<open>chip_format_bpp\<close> (\<open>include/chip/chip_state.h\<close>), 16-bit accesses of the big-endian CPU, and
  \<open>paints\<close>, what a loop over rows and columns does to memory.
\<close>

section \<open>Formats\<close>

datatype RGBFTYPE = RGBFB_CLUT | RGBFB_R8G8B8 | RGBFB_B8G8R8 | RGBFB_R5G6B5PC | RGBFB_R5G5B5PC
  | RGBFB_A8R8G8B8 | RGBFB_A8B8G8R8 | RGBFB_R8G8B8A8 | RGBFB_B8G8R8A8 | RGBFB_R5G6B5 | RGBFB_R5G5B5
  | RGBFB_B5G6R5PC | RGBFB_B5G5R5PC | RGBFB_other u32

fun chip_format_bpp :: "RGBFTYPE \<Rightarrow> u16" where
  "chip_format_bpp RGBFB_CLUT = 1"
| "chip_format_bpp RGBFB_R8G8B8 = 3"
| "chip_format_bpp RGBFB_B8G8R8 = 3"
| "chip_format_bpp RGBFB_R5G6B5PC = 2"
| "chip_format_bpp RGBFB_R5G5B5PC = 2"
| "chip_format_bpp RGBFB_R5G6B5 = 2"
| "chip_format_bpp RGBFB_R5G5B5 = 2"
| "chip_format_bpp RGBFB_B5G6R5PC = 2"
| "chip_format_bpp RGBFB_B5G5R5PC = 2"
| "chip_format_bpp _ = 4"

lemma bpp_cases: "chip_format_bpp f \<in> {1, 2, 3, 4}"
  by (cases f) auto

section \<open>Accesses\<close>

definition cpu_ld16 :: "nat \<Rightarrow> bytes \<Rightarrow> u16 option" where
  "cpu_ld16 off buf = (if off + 2 \<le> length buf then Some (mk16 (buf ! (off + 1)) (buf ! off)) else None)"

definition cpu_st16 :: "nat \<Rightarrow> u16 \<Rightarrow> bytes \<Rightarrow> bytes option" where
  "cpu_st16 off v buf = put_bytes off (be16 v) buf"

lemma cpu_st_in:
  "off + 2 \<le> length buf \<Longrightarrow> cpu_st16 off h buf = Some (stbytes off (be16 h) buf)"
  "off + 4 \<le> length buf \<Longrightarrow> cpu_st32 off v buf = Some (stbytes off (be32 v) buf)"
  by (simp_all add: cpu_st16_def cpu_st32_def put_bytes_eq)

text \<open>The bytes a big-endian load sees.\<close>

lemma be_ld:
  "off + 2 \<le> length buf \<Longrightarrow> \<exists>v. cpu_ld16 off buf = Some v \<and> be16 v = [buf ! off, buf ! (off + 1)]"
  "off + 4 \<le> length buf \<Longrightarrow> \<exists>w. cpu_ld32 off buf = Some w
     \<and> be32 w = [buf ! off, buf ! (off + 1), buf ! (off + 2), buf ! (off + 3)]"
  by (simp_all add: cpu_ld16_def cpu_ld32_def be16_def be32_def byte_simps)

section \<open>What a loop does to memory\<close>

text \<open>
  \<open>paints F S m m'\<close>: the bytes at the addresses in \<open>S\<close> become \<open>F a old\<close>, every other byte stays.
\<close>

definition paints :: "(nat \<Rightarrow> u8 \<Rightarrow> u8) \<Rightarrow> nat set \<Rightarrow> bytes \<Rightarrow> bytes \<Rightarrow> bool" where
  "paints F S m m' \<longleftrightarrow> length m' = length m
     \<and> (\<forall>a<length m. m' ! a = (if a \<in> S then F a (m ! a) else m ! a))"

lemma paints_length: "paints F S m m' \<Longrightarrow> length m' = length m"
  by (simp add: paints_def)

lemma paints_refl: "paints F {} m m"
  by (simp add: paints_def)

lemma paints_trans:
  assumes "paints F S a b" "paints F T b c" "S \<inter> T = {}"
  shows "paints F (S \<union> T) a c"
  using assms by (auto simp: paints_def)

text \<open>\<open>m\<close> still has the bytes of \<open>m0\<close> on \<open>R\<close>.\<close>

definition agrees :: "nat set \<Rightarrow> bytes \<Rightarrow> bytes \<Rightarrow> bool" where
  "agrees R m0 m \<longleftrightarrow> length m = length m0 \<and> (\<forall>a\<in>R. a < length m0 \<longrightarrow> m ! a = m0 ! a)"

lemma agrees_refl: "agrees R m m"
  by (simp add: agrees_def)

lemma agrees_length: "agrees R m0 m \<Longrightarrow> length m = length m0"
  by (simp add: agrees_def)

lemma agrees_nth: "agrees R m0 m \<Longrightarrow> a \<in> R \<Longrightarrow> a < length m0 \<Longrightarrow> m ! a = m0 ! a"
  by (simp add: agrees_def)

lemma paints_agrees: "paints F S m0 m \<Longrightarrow> R \<inter> S = {} \<Longrightarrow> agrees R m0 m"
  by (auto simp: agrees_def paints_def)

lemma agrees_paints: "agrees R m0 m \<Longrightarrow> paints F S m m' \<Longrightarrow> R \<inter> S = {} \<Longrightarrow> agrees R m0 m'"
  by (auto simp: agrees_def paints_def)

text \<open>A loop whose iterations paint disjoint areas and read only \<open>R\<close>, which none of them paints.\<close>

lemma paints_loop:
  assumes step: "\<And>k m. k < n \<Longrightarrow> agrees R m0 m \<Longrightarrow> \<exists>m'. f k m = Some m' \<and> paints F (S k) m m'"
    and apart: "\<And>i j. i < j \<Longrightarrow> j < n \<Longrightarrow> S i \<inter> S j = {}" and src: "\<And>k. k < n \<Longrightarrow> R \<inter> S k = {}"
    and start: "agrees R m0 m1"
  shows "\<exists>m'. foldM f [0..<n] m1 = Some m' \<and> paints F (\<Union>k<n. S k) m1 m'"
proof (rule foldM_upt_rule [where P = "\<lambda>k m. paints F (\<Union>i<k. S i) m1 m"])
  show "paints F (\<Union>i<0. S i) m1 m1" by (simp add: paints_refl)
next
  fix k m assume k: "k < n" and p: "paints F (\<Union>i<k. S i) m1 m"
  have "x \<notin> S i" if "x \<in> R" "i < k" for x i using src [of i] that k by auto
  then have "R \<inter> (\<Union>i<k. S i) = {}" by auto
  then have "agrees R m0 m" by (rule agrees_paints [OF start p])
  then obtain m' where m': "f k m = Some m'" "paints F (S k) m m'" using step [OF k] by auto
  have "(\<Union>i<k. S i) \<inter> S k = {}" using apart k by blast
  then have "paints F ((\<Union>i<k. S i) \<union> S k) m1 m'" by (rule paints_trans [OF p m'(2)])
  moreover have "(\<Union>i<k. S i) \<union> S k = (\<Union>i<Suc k. S i)" by (simp add: lessThan_Suc Un_commute)
  ultimately show "\<exists>m'. f k m = Some m' \<and> paints F (\<Union>i<Suc k. S i) m1 m'" using m'(1) by auto
qed simp

text \<open>Stores as painting.\<close>

lemma paints_stbytes:
  assumes "off + length bs \<le> length m" "\<And>i. i < length bs \<Longrightarrow> F (off + i) (m ! (off + i)) = bs ! i"
  shows "paints F {off..<off + length bs} m (stbytes off bs m)"
proof -
  have "F a (m ! a) = bs ! (a - off)" if "off \<le> a" "a < off + length bs" for a
    using assms(2) [of "a - off"] that by simp
  then show ?thesis using assms(1) by (auto simp: paints_def nth_stbytes length_stbytes)
qed

lemma paints_wr:
  assumes "off < length m" "F off (m ! off) = v"
  shows "paints F {off} m (m[off := v])"
  using assms by (auto simp: paints_def nth_list_update)

text \<open>The bytes of a rectangle of rows.\<close>

definition rect_bytes :: "nat \<Rightarrow> nat \<Rightarrow> nat \<Rightarrow> nat \<Rightarrow> nat set" where
  "rect_bytes base stride row_bytes h = (\<Union>row<h. {base + row * stride..<base + row * stride + row_bytes})"

lemma rows_apart:
  fixes base stride row_bytes i j :: nat
  assumes "row_bytes \<le> stride" "i < j"
  shows "{base + i * stride..<base + i * stride + row_bytes} \<inter> {base + j * stride..<base + j * stride + row_bytes} = {}"
proof -
  have "Suc i * stride \<le> j * stride" using assms(2) by (intro mult_right_mono) simp_all
  then show ?thesis using assms(1) by auto
qed

text \<open>A loop over rows whose body paints one row.\<close>

lemma rect_row: "row < h \<Longrightarrow> {base + row * stride..<base + row * stride + row_bytes} \<subseteq> rect_bytes base stride row_bytes h"
  by (auto simp: rect_bytes_def)

lemma paints_rows:
  assumes row: "\<And>row m. row < h \<Longrightarrow> agrees R m0 m \<Longrightarrow>
      \<exists>m'. f row m = Some m' \<and> paints F {base + row * stride..<base + row * stride + row_bytes} m m'"
    and "row_bytes \<le> stride" and src: "R \<inter> rect_bytes base stride row_bytes h = {}" and "agrees R m0 m1"
  shows "\<exists>m'. foldM f [0..<h] m1 = Some m' \<and> paints F (rect_bytes base stride row_bytes h) m1 m'"
  unfolding rect_bytes_def
proof (rule paints_loop [where ?m0.0 = m0 and R = R])
  fix k assume "k < h"
  then show "R \<inter> {base + k * stride..<base + k * stride + row_bytes} = {}" using src rect_row by blast
qed (use assms rows_apart in auto)

text \<open>A loop over the pixels of a row, \<open>k\<close> bytes each.\<close>

lemma pixels_union: "0 < k \<Longrightarrow> (\<Union>col<w. {b + col * k..<b + col * k + k}) = {b..<b + w * (k :: nat)}"
proof (induction w)
  case (Suc w)
  have "(\<Union>col<Suc w. {b + col * k..<b + col * k + k}) = {b..<b + w * k} \<union> {b + w * k..<b + w * k + k}"
    using Suc by (simp add: lessThan_Suc Un_commute)
  then show ?case by auto
qed simp

lemma paints_pixels:
  assumes px: "\<And>col m. col < w \<Longrightarrow> agrees R m0 m \<Longrightarrow>
      \<exists>m'. f col m = Some m' \<and> paints F {base + col * k..<base + col * k + k} m m'"
    and k: "0 < k" and src: "R \<inter> {base..<base + w * k} = {}" and "agrees R m0 m1"
  shows "\<exists>m'. foldM f [0..<w] m1 = Some m' \<and> paints F {base..<base + w * k} m1 m'"
proof -
  have "\<exists>m'. foldM f [0..<w] m1 = Some m' \<and> paints F (\<Union>col<w. {base + col * k..<base + col * k + k}) m1 m'"
  proof (rule paints_loop [where ?m0.0 = m0 and R = R])
    fix col assume "col < w"
    then have "{base + col * k..<base + col * k + k} \<subseteq> {base..<base + w * k}"
      using pixels_union [OF k, of base w] by blast
    then show "R \<inter> {base + col * k..<base + col * k + k} = {}" using src by blast
  qed (use assms rows_apart [of k k] in auto)
  then show ?thesis by (simp only: pixels_union [OF k])
qed

text \<open>Addresses computed in 32 bits, when nothing wraps.\<close>

lemma unat_add_u32: "unat (a :: u32) + unat b < 4294967296 \<Longrightarrow> unat (a + b) = unat a + unat b"
  by (simp add: unat_word_ariths)

lemma unat_mult_u32: "unat (a :: u32) * unat b < 4294967296 \<Longrightarrow> unat (a * b) = unat a * unat b"
  by (simp add: unat_word_ariths)

lemma unat_row_addr:
  assumes "unat (base :: u32) + r * unat stride < 4294967296" "0 < unat stride"
  shows "unat (base + of_nat r * stride) = unat base + r * unat stride"
proof -
  have "r \<le> r * unat stride" using assms(2) by simp
  then have "r < 4294967296" using assms(1) by linarith
  then have r: "unat (of_nat r :: u32) = r" by (simp add: unat_of_nat)
  then have "unat (of_nat r * stride) = r * unat stride" using assms(1) by (subst unat_mult_u32) simp_all
  then show ?thesis using assms(1) by (subst unat_add_u32) simp_all
qed

end
