(* ===== verification/Blit_Memory.thy ===== *)
theory Blit_Memory
  imports Pixels
begin

text \<open>
  The row helpers of the drawing callbacks (\<open>src/chip/chip_blit.c\<close>) on flat memory: pointers are
  32-bit words and wrap as on the machine; an access outside memory is \<^term>\<open>None\<close>.
  \<open>CopyMem\<close> and \<open>CopyMemQuick\<close> belong to exec.library and are arguments of the model; what is relied
  on is their documented behaviour on regions that do not overlap, \<open>copier_ok\<close>.
\<close>

section \<open>Accesses through pointers\<close>

definition ld8 :: "u32 \<Rightarrow> bytes \<Rightarrow> u8 option" where
  "ld8 p m = rd m (unat p)"

definition st8 :: "u32 \<Rightarrow> u8 \<Rightarrow> bytes \<Rightarrow> bytes option" where
  "st8 p v m = wr m (unat p) v"

definition ld16 :: "u32 \<Rightarrow> bytes \<Rightarrow> u16 option" where
  "ld16 p m = cpu_ld16 (unat p) m"

definition st16 :: "u32 \<Rightarrow> u16 \<Rightarrow> bytes \<Rightarrow> bytes option" where
  "st16 p v m = cpu_st16 (unat p) v m"

definition ld32 :: "u32 \<Rightarrow> bytes \<Rightarrow> u32 option" where
  "ld32 p m = cpu_ld32 (unat p) m"

definition sto32 :: "u32 \<Rightarrow> u32 \<Rightarrow> bytes \<Rightarrow> bytes option" where
  "sto32 p v m = cpu_st32 (unat p) v m"

section \<open>Copying\<close>

record copier =
  CopyMemQuick :: "u32 \<Rightarrow> u32 \<Rightarrow> u32 \<Rightarrow> bytes \<Rightarrow> bytes option"
  CopyMem :: "u32 \<Rightarrow> u32 \<Rightarrow> u32 \<Rightarrow> bytes \<Rightarrow> bytes option"

definition copy_long :: "u32 \<Rightarrow> u32 \<Rightarrow> nat \<Rightarrow> bytes \<Rightarrow> bytes option" where
  "copy_long src dst i m = do { v \<leftarrow> ld32 (src + of_nat i * 4) m; sto32 (dst + of_nat i * 4) v m }"

definition chip_lmemmove :: "u32 \<Rightarrow> u32 \<Rightarrow> u32 \<Rightarrow> bool \<Rightarrow> bytes \<Rightarrow> bytes option" where
  "chip_lmemmove src dst longs forward =
     (if forward then foldM (copy_long src dst) [0..<unat longs] else foldM (copy_long src dst) (rev [0..<unat longs]))"

definition copy_byte :: "u32 \<Rightarrow> u32 \<Rightarrow> nat \<Rightarrow> bytes \<Rightarrow> bytes option" where
  "copy_byte src dst i m = do { v \<leftarrow> ld8 (src + of_nat i) m; st8 (dst + of_nat i) v m }"

text \<open>The overlap-safe copy of one row, as it stands in \<open>chip_BlitRect\<close> and \<open>chip_BlitRectNoMaskComplete\<close>.\<close>

definition move_row :: "u32 \<Rightarrow> u32 \<Rightarrow> u32 \<Rightarrow> bytes \<Rightarrow> bytes option" where
  "move_row s d row_bytes =
     (if (s OR d OR row_bytes) AND 3 = 0 then chip_lmemmove s d (drop_bit 2 row_bytes) (d < s)
      else if d < s then foldM (copy_byte s d) [0..<unat row_bytes]
      else foldM (copy_byte s d) (rev [0..<unat row_bytes]))"

definition chip_row_copy :: "copier \<Rightarrow> u32 \<Rightarrow> u32 \<Rightarrow> u32 \<Rightarrow> bytes \<Rightarrow> bytes option" where
  "chip_row_copy ex src dst len = (if (src OR dst OR len) AND 3 = 0 then CopyMemQuick ex src dst len else CopyMem ex src dst len)"

definition chip_copy_rect :: "copier \<Rightarrow> u32 \<Rightarrow> u32 \<Rightarrow> u32 \<Rightarrow> u32 \<Rightarrow> u32 \<Rightarrow> u16 \<Rightarrow> bytes \<Rightarrow> bytes option" where
  "chip_copy_rect ex src s_stride dst d_stride row_bytes h m =
     (if row_bytes = 0 \<or> h = 0 then Some m
      else foldM (\<lambda>row. chip_row_copy ex (src + of_nat row * s_stride) (dst + of_nat row * d_stride) row_bytes) [0..<unat h] m)"

text \<open>The rows bottom up.\<close>

definition move_rows_up :: "u32 \<Rightarrow> u32 \<Rightarrow> u32 \<Rightarrow> u32 \<Rightarrow> u32 \<Rightarrow> u16 \<Rightarrow> bytes \<Rightarrow> bytes option" where
  "move_rows_up src s_stride dst d_stride row_bytes h =
     foldM (\<lambda>row. move_row (src + of_nat row * s_stride) (dst + of_nat row * d_stride) row_bytes) (rev [0..<unat h])"

definition move_rows_down :: "u32 \<Rightarrow> u32 \<Rightarrow> u32 \<Rightarrow> u32 \<Rightarrow> u32 \<Rightarrow> u16 \<Rightarrow> bytes \<Rightarrow> bytes option" where
  "move_rows_down src s_stride dst d_stride row_bytes h =
     foldM (\<lambda>row. move_row (src + of_nat row * s_stride) (dst + of_nat row * d_stride) row_bytes) [0..<unat h]"

section \<open>Filling and exclusive or\<close>

definition chip_lfill :: "u32 \<Rightarrow> u32 \<Rightarrow> u32 \<Rightarrow> bytes \<Rightarrow> bytes option" where
  "chip_lfill dst row_bytes pattern m = do {
     let longs = (if dst AND 3 = 0 then unat (drop_bit 2 row_bytes) else 0);
     m \<leftarrow> foldM (\<lambda>j. sto32 (dst + of_nat j * 4) pattern) [0..<longs] m;
     foldM (\<lambda>i. st8 (dst + of_nat i) (ucast pattern)) [longs * 4..<unat row_bytes] m }"

definition broadcast :: "u8 \<Rightarrow> u32" where
  "broadcast val = push_bit 24 (ucast val) OR push_bit 16 (ucast val) OR push_bit 8 (ucast val) OR ucast val"

definition chip_fill_rect_bytes :: "u32 \<Rightarrow> u32 \<Rightarrow> u32 \<Rightarrow> u16 \<Rightarrow> u8 \<Rightarrow> bytes \<Rightarrow> bytes option" where
  "chip_fill_rect_bytes dst d_stride row_bytes h val m =
     (if row_bytes = 0 \<or> h = 0 then Some m
      else foldM (\<lambda>row. chip_lfill (dst + of_nat row * d_stride) row_bytes (broadcast val)) [0..<unat h] m)"

definition xor_row_src :: "u32 \<Rightarrow> u32 \<Rightarrow> u32 \<Rightarrow> bytes \<Rightarrow> bytes option" where
  "xor_row_src s d row_bytes m = do {
     let longs = (if (s OR d) AND 3 = 0 then unat (drop_bit 2 row_bytes) else 0);
     m \<leftarrow> foldM (\<lambda>j m. do { a \<leftarrow> ld32 (d + of_nat j * 4) m; b \<leftarrow> ld32 (s + of_nat j * 4) m;
        sto32 (d + of_nat j * 4) (a XOR b) m }) [0..<longs] m;
     foldM (\<lambda>i m. do { a \<leftarrow> ld8 (d + of_nat i) m; b \<leftarrow> ld8 (s + of_nat i) m; st8 (d + of_nat i) (a XOR b) m })
       [longs * 4..<unat row_bytes] m }"

definition chip_xor_rect_with_src :: "u32 \<Rightarrow> u32 \<Rightarrow> u32 \<Rightarrow> u32 \<Rightarrow> u32 \<Rightarrow> u16 \<Rightarrow> bytes \<Rightarrow> bytes option" where
  "chip_xor_rect_with_src src s_stride dst d_stride row_bytes h =
     foldM (\<lambda>row. xor_row_src (src + of_nat row * s_stride) (dst + of_nat row * d_stride) row_bytes) [0..<unat h]"

definition xor_row_const :: "u32 \<Rightarrow> u32 \<Rightarrow> bytes \<Rightarrow> bytes option" where
  "xor_row_const d row_bytes m = do {
     let longs = (if d AND 3 = 0 then unat (drop_bit 2 row_bytes) else 0);
     m \<leftarrow> foldM (\<lambda>j m. do { a \<leftarrow> ld32 (d + of_nat j * 4) m; sto32 (d + of_nat j * 4) (a XOR 0xFFFFFFFF) m }) [0..<longs] m;
     foldM (\<lambda>i m. do { a \<leftarrow> ld8 (d + of_nat i) m; st8 (d + of_nat i) (a XOR 0xFF) m }) [longs * 4..<unat row_bytes] m }"

definition chip_xor_rect_with_const :: "u32 \<Rightarrow> u32 \<Rightarrow> u32 \<Rightarrow> u16 \<Rightarrow> bytes \<Rightarrow> bytes option" where
  "chip_xor_rect_with_const dst d_stride row_bytes h =
     foldM (\<lambda>row. xor_row_const (dst + of_nat row * d_stride) row_bytes) [0..<unat h]"

end
