(* ===== verification/Profiling.thy ===== *)
theory Profiling
  imports Prelude
begin

text \<open>
  The profiling buckets \<open>struct ChipProf\<close> (\<open>include/chip/chip_state.h\<close>) with \<open>chip_prof_begin\<close> and
  \<open>chip_prof_end\<close> (\<open>src/chip/chip_flush.c\<close>): 64-bit sums kept as two 32-bit halves, and the lines
  they log.  The EClock is a sequence of readings.  A division by zero is \<^term>\<open>None\<close>.
\<close>

section \<open>State\<close>

record ChipProf =
  p_name :: u32                       \<comment> \<open>the address of the label\<close>
  p_summary_interval :: u32
  p_calls :: u32
  p_max_us :: u32
  p_sum_us_lo :: u32
  p_sum_us_hi :: u32
  p_sum_bytes_lo :: u32
  p_sum_bytes_hi :: u32
  p_next_summary_at :: u32
  p_logged_first :: u32

definition CHIP_PROF_DEFINE :: "u32 \<Rightarrow> u32 \<Rightarrow> ChipProf" where
  "CHIP_PROF_DEFINE label interval = \<lparr>p_name = label, p_summary_interval = interval, p_calls = 0, p_max_us = 0,
     p_sum_us_lo = 0, p_sum_us_hi = 0, p_sum_bytes_lo = 0, p_sum_bytes_hi = 0, p_next_summary_at = interval,
     p_logged_first = 0\<rparr>"

record eclock =
  ec_itimer :: bool                   \<comment> \<open>\<open>gs->ITimer\<close> is set\<close>
  ec_freq :: u32                      \<comment> \<open>\<open>gs->eclock_freq\<close>\<close>
  ec_ticks :: "nat \<Rightarrow> u32"            \<comment> \<open>the low word of the \<open>n\<close>-th reading\<close>
  ec_reads :: nat

definition ReadEClock :: "eclock \<Rightarrow> u32 \<times> eclock" where
  "ReadEClock c = (ec_ticks c (ec_reads c), c\<lparr>ec_reads := ec_reads c + 1\<rparr>)"

datatype prof_msg = First u32 u32 u32 | FirstTime u32 | Summary u32 u32 u32 u64 u32 | SummaryTime u32 u32 u32
  | Outlier u32 u32 u32 u32

record proflog =
  pl_warned :: u32                    \<comment> \<open>\<open>outlier_warned_mask\<close>\<close>
  pl_msgs :: "(u32 \<times> prof_msg) list"

section \<open>Operations\<close>

definition chip_prof_begin :: "eclock \<Rightarrow> u32 \<times> eclock" where
  "chip_prof_begin c = (if \<not> ec_itimer c \<or> ec_freq c = 0 then (0, c)
     else let (lo, c) = ReadEClock c in (lo + 1, c))"

definition prof_div :: "u64 \<Rightarrow> u64 \<Rightarrow> u64 option" where
  "prof_div a b = (if b = 0 then None else Some (a div b))"

definition ticks_to_us :: "u32 \<Rightarrow> u32 \<Rightarrow> u32 option" where
  "ticks_to_us freq delta_ticks = (if delta_ticks = 0 then Some 0 else do {
     us \<leftarrow> prof_div (ucast delta_ticks * 1000000) (ucast freq);
     Some (if us > 0xFFFFFFFF then 0xFFFFFFFF else ucast us) })"

definition prof_accumulate :: "u32 \<Rightarrow> u32 \<Rightarrow> ChipProf \<Rightarrow> ChipProf" where
  "prof_accumulate delta_us nbytes p =
     (let p = p\<lparr>p_calls := p_calls p + 1\<rparr>;
          old_lo = p_sum_us_lo p; new_lo = old_lo + delta_us; p = p\<lparr>p_sum_us_lo := new_lo\<rparr>;
          p = (if new_lo < old_lo then p\<lparr>p_sum_us_hi := p_sum_us_hi p + 1\<rparr> else p);
          p = (if nbytes \<noteq> 0
               then let b_old_lo = p_sum_bytes_lo p; b_new_lo = b_old_lo + nbytes; p = p\<lparr>p_sum_bytes_lo := b_new_lo\<rparr>
                    in if b_new_lo < b_old_lo then p\<lparr>p_sum_bytes_hi := p_sum_bytes_hi p + 1\<rparr> else p
               else p)
      in if delta_us > p_max_us p then p\<lparr>p_max_us := delta_us\<rparr> else p)"

definition prof_sum_us :: "ChipProf \<Rightarrow> u64" where
  "prof_sum_us p = push_bit 32 (ucast (p_sum_us_hi p)) OR ucast (p_sum_us_lo p)"

definition prof_sum_bytes :: "ChipProf \<Rightarrow> u64" where
  "prof_sum_bytes p = push_bit 32 (ucast (p_sum_bytes_hi p)) OR ucast (p_sum_bytes_lo p)"

definition prof_say :: "ChipProf \<Rightarrow> prof_msg \<Rightarrow> proflog \<Rightarrow> proflog" where
  "prof_say p msg lg = lg\<lparr>pl_msgs := pl_msgs lg @ [(p_name p, msg)]\<rparr>"

text \<open>The one-shot for the first sample.\<close>

definition prof_first :: "u32 \<Rightarrow> u32 \<Rightarrow> ChipProf \<times> proflog \<Rightarrow> (ChipProf \<times> proflog) option" where
  "prof_first delta_us nbytes st = (case st of (p, lg) \<Rightarrow>
     if p_logged_first p \<noteq> 0 then Some (p, lg)
     else let p = p\<lparr>p_logged_first := 1\<rparr> in
       if nbytes \<noteq> 0 then do {
         mbs \<leftarrow> (if delta_us > 0 then prof_div (ucast nbytes * 1000000) (ucast delta_us * 1024 * 1024) else Some 0);
         Some (p, prof_say p (First delta_us nbytes (ucast mbs)) lg) }
       else Some (p, prof_say p (FirstTime delta_us) lg))"

text \<open>The rolling summary.\<close>

definition prof_summary :: "ChipProf \<times> proflog \<Rightarrow> (ChipProf \<times> proflog) option" where
  "prof_summary st = (case st of (p, lg) \<Rightarrow>
     if p_summary_interval p \<noteq> 0 \<and> p_calls p \<ge> p_next_summary_at p then
       let p = p\<lparr>p_next_summary_at := p_calls p + p_summary_interval p\<rparr>;
           sum_us = prof_sum_us p; sum_b = prof_sum_bytes p; calls = p_calls p in do {
         avg \<leftarrow> (if calls \<noteq> 0 then prof_div sum_us (ucast calls) else Some 0);
         if sum_b \<noteq> 0 then do {
           mbs \<leftarrow> (if sum_us > 0 then prof_div (sum_b * 1000000) (sum_us * 1024 * 1024) else Some 0);
           Some (p, prof_say p (Summary calls (ucast avg) (p_max_us p) sum_b (ucast mbs)) lg) }
         else Some (p, prof_say p (SummaryTime calls (ucast avg) (p_max_us p)) lg) }
     else Some (p, lg))"

text \<open>Outliers: at most one line for each of 32 classes of labels.\<close>

definition prof_outlier :: "u32 \<Rightarrow> ChipProf \<times> proflog \<Rightarrow> (ChipProf \<times> proflog) option" where
  "prof_outlier delta_us st = (case st of (p, lg) \<Rightarrow>
     if p_calls p > 16 then do {
       avg \<leftarrow> prof_div (prof_sum_us p) (ucast (p_calls p));
       let avg_us = (ucast avg :: u32);
       if avg_us > 0 \<and> delta_us > avg_us * 4 then
         let hit = push_bit (unat (drop_bit 2 (p_name p) AND 0x1F)) 1 in
         if pl_warned lg AND hit = 0
         then Some (p, prof_say p (Outlier delta_us avg_us (p_calls p) (p_max_us p)) (lg\<lparr>pl_warned := pl_warned lg OR hit\<rparr>))
         else Some (p, lg)
       else Some (p, lg) }
     else Some (p, lg))"

definition chip_prof_end :: "u32 \<Rightarrow> u32 \<Rightarrow> ChipProf \<times> proflog \<times> eclock \<Rightarrow> (ChipProf \<times> proflog \<times> eclock) option" where
  "chip_prof_end start_token nbytes st = (case st of (p, lg, c) \<Rightarrow>
     if start_token = 0 \<or> \<not> ec_itimer c \<or> ec_freq c = 0 then Some (p, lg, c)
     else let (ev_lo, c) = ReadEClock c; start_lo = start_token - 1; delta_ticks = ev_lo - start_lo in do {
       delta_us \<leftarrow> ticks_to_us (ec_freq c) delta_ticks;
       s \<leftarrow> prof_first delta_us nbytes (prof_accumulate delta_us nbytes p, lg);
       s \<leftarrow> prof_summary s;
       s \<leftarrow> prof_outlier delta_us s;
       Some (fst s, snd s, c) })"

section \<open>The sums\<close>

text \<open>The number a pair of halves stands for.\<close>

definition pair_value :: "u32 \<Rightarrow> u32 \<Rightarrow> nat" where
  "pair_value lo hi = unat hi * 2 ^ 32 + unat lo"

lemma unat_pair: "unat (push_bit 32 (ucast hi) OR ucast lo :: u64) = pair_value lo hi"
proof -
  have up: "unat (ucast w :: u64) = unat w" for w :: u32
    using unat_u32_less [of w] by (simp add: unsigned_ucast_eq take_bit_nat_eq_self)
  have hi: "unat (push_bit 32 (ucast hi) :: u64) = unat hi * 2 ^ 32"
    using unat_u32_less [of hi] by (simp add: push_bit_eq_mult unat_word_ariths up)
  have lt: "bit lo n \<Longrightarrow> \<not> 32 \<le> n" for n
    by (drule bit_imp_le_length) simp
  then have "push_bit 32 (ucast hi) OR ucast lo = push_bit 32 (ucast hi) + (ucast lo :: u64)"
    by (intro disjunctive_add_eq_or [symmetric]) (auto simp: bit_eq_iff bit_simps dest: lt)
  then show ?thesis using hi up [of lo] unat_u32_less [of hi] unat_u32_less [of lo]
    by (simp add: unat_word_ariths pair_value_def)
qed

lemma unat_prof_sums:
  "unat (prof_sum_us p) = pair_value (p_sum_us_lo p) (p_sum_us_hi p)"
  "unat (prof_sum_bytes p) = pair_value (p_sum_bytes_lo p) (p_sum_bytes_hi p)"
  by (simp_all only: prof_sum_us_def prof_sum_bytes_def unat_pair)

lemma pair_add:
  "pair_value (lo + v) (if lo + v < lo then hi + 1 else hi) = (pair_value lo hi + unat v) mod 2 ^ 64"
proof -
  have b: "unat lo < 2 ^ 32" "unat v < 2 ^ 32" "unat hi < 2 ^ 32"
    using unat_u32_less [of lo] unat_u32_less [of v] unat_u32_less [of hi] by simp_all
  show ?thesis
  proof (cases "unat lo + unat v < 2 ^ 32")
    case True
    then have "unat (lo + v) = unat lo + unat v" by (simp add: unat_word_ariths)
    then show ?thesis using True b by (simp add: pair_value_def word_less_nat_alt)
  next
    case False
    then have s: "unat (lo + v) = unat lo + unat v - 2 ^ 32" using b
      by (simp add: unat_word_ariths mod_if)
    then have c: "lo + v < lo" using False b by (simp add: word_less_nat_alt)
    show ?thesis
    proof (cases "unat hi = 2 ^ 32 - 1")
      case True
      then have "unat (hi + 1) = 0" by (simp add: unat_word_ariths)
      then show ?thesis using True False s c b by (simp add: pair_value_def mod_if)
    next
      case hi: False
      then have "unat (hi + 1) = unat hi + 1" using b by (simp add: unat_word_ariths)
      then show ?thesis using hi False s c b by (simp add: pair_value_def mod_if)
    qed
  qed
qed

text \<open>What a sample adds.\<close>

definition prof_view :: "ChipProf \<Rightarrow> nat \<times> nat \<times> u32 \<times> u32" where
  "prof_view p = (pair_value (p_sum_us_lo p) (p_sum_us_hi p), pair_value (p_sum_bytes_lo p) (p_sum_bytes_hi p),
     p_calls p, p_max_us p)"

lemma accumulate_view:
  assumes "prof_view p = (us, b, n, mx)"
  shows "prof_view (prof_accumulate d k p) = ((us + unat d) mod 2 ^ 64, (b + unat k) mod 2 ^ 64, n + 1, max mx d)"
proof -
  have lt: "pair_value lo hi < 2 ^ 64" for lo hi
    using unat_u32_less [of lo] unat_u32_less [of hi] by (simp add: pair_value_def)
  have "(b + unat k) mod 2 ^ 64 = b" if "k = 0"
    using that assms lt [of "p_sum_bytes_lo p" "p_sum_bytes_hi p"] by (auto simp: prof_view_def)
  then show ?thesis using assms pair_add [of "p_sum_us_lo p" d "p_sum_us_hi p"] pair_add [of "p_sum_bytes_lo p" k "p_sum_bytes_hi p"]
    by (auto simp: prof_view_def prof_accumulate_def Let_def max_def split: if_splits)
qed

text \<open>The time of a sample in microseconds, saturated.\<close>

definition sample_us :: "u32 \<Rightarrow> u32 \<Rightarrow> nat" where
  "sample_us freq ticks = min (unat ticks * 1000000 div unat freq) (2 ^ 32 - 1)"

lemma unat_up64 [simp]: "unat (ucast (w :: u32) :: u64) = unat w"
  using unat_u32_less [of w] by (simp add: unsigned_ucast_eq take_bit_nat_eq_self)

lemma up64_zero [simp]: "(ucast (w :: u32) :: u64) = 0 \<longleftrightarrow> w = 0"
  using unat_up64 [of w] by (metis unat_0 unat_inj unsigned_0)

lemma ticks_to_us_result:
  assumes "freq \<noteq> 0"
  shows "\<exists>us. ticks_to_us freq ticks = Some us \<and> unat us = sample_us freq ticks"
proof (cases "ticks = 0")
  case True
  then show ?thesis by (simp add: ticks_to_us_def sample_us_def)
next
  case False
  let ?q = "(ucast ticks * 1000000) div (ucast freq) :: u64"
  have q: "unat ?q = unat ticks * 1000000 div unat freq"
    using unat_u32_less [of ticks] by (simp add: unat_div_distrib unat_word_ariths)
  have "unat (ucast ?q :: u32) = unat ?q" if "\<not> ?q > 0xFFFFFFFF"
  proof -
    have "unat ?q < 2 ^ 32" using that by (simp add: word_less_nat_alt not_less)
    then show ?thesis by (simp add: unsigned_ucast_eq take_bit_nat_eq_self)
  qed
  then show ?thesis using False assms q
    by (auto simp: ticks_to_us_def prof_div_def sample_us_def word_less_nat_alt min_def)
qed

lemma shift20_nonzero:
  assumes "0 < (x :: u64)" "unat x < 2 ^ 44"
  shows "x * 1024 * 1024 \<noteq> 0"
proof -
  have "unat (x * 1024 * 1024) = unat x * 1024 * 1024" using assms(2) by (simp add: unat_word_ariths mult.assoc)
  moreover have "unat x \<noteq> 0" using assms(1) by (simp add: word_gt_0 unat_eq_zero)
  ultimately show ?thesis by (metis mult_eq_0_iff unat_0 numeral_eq_iff zero_neq_numeral)
qed

text \<open>The logging parts return while the sum of the times is below \<open>2 ^ 44\<close>, and keep the sums.\<close>

lemma prof_first_result:
  "\<exists>p' lg'. prof_first d k (p, lg) = Some (p', lg') \<and> prof_view p' = prof_view p"
proof -
  have "ucast d * 1024 * 1024 \<noteq> (0 :: u64)" if "d > 0"
    using that shift20_nonzero [of "ucast d"] unat_u32_less [of d] by (simp add: word_less_nat_alt)
  then show ?thesis by (auto simp: prof_first_def prof_div_def Let_def prof_view_def)
qed

lemma prof_summary_result:
  assumes "prof_view p = (us, b, n, mx)" "us < 2 ^ 44"
  shows "\<exists>p' lg'. prof_summary (p, lg) = Some (p', lg') \<and> prof_view p' = prof_view p"
proof -
  have u: "unat (prof_sum_us p) < 2 ^ 44" using assms by (simp add: unat_prof_sums prof_view_def)
  have z: "prof_sum_us p * 1024 * 1024 \<noteq> 0" if "prof_sum_us p > 0" by (rule shift20_nonzero [OF that u])
  have s: "prof_sum_us (p\<lparr>p_next_summary_at := x\<rparr>) = prof_sum_us p" "prof_sum_bytes (p\<lparr>p_next_summary_at := x\<rparr>) = prof_sum_bytes p" for x
    by (simp_all add: prof_sum_us_def prof_sum_bytes_def)
  show ?thesis using z by (auto simp: prof_summary_def prof_div_def Let_def prof_view_def s)
qed

lemma prof_outlier_result:
  "\<exists>p' lg'. prof_outlier d (p, lg) = Some (p', lg') \<and> prof_view p' = prof_view p"
proof -
  have "p_calls p \<noteq> 0" if "p_calls p > 16" using that by auto
  then show ?thesis by (auto simp: prof_outlier_def prof_div_def Let_def)
qed

lemma chip_prof_end_result:
  assumes t: "start_token \<noteq> 0" "ec_itimer c" "ec_freq c \<noteq> 0" and p: "prof_view p = (us, b, n, mx)" and room: "us + 2 ^ 32 \<le> 2 ^ 44"
  shows "\<exists>p' lg'. chip_prof_end start_token k (p, lg, c) = Some (p', lg', c\<lparr>ec_reads := ec_reads c + 1\<rparr>)
    \<and> (let d = sample_us (ec_freq c) (ec_ticks c (ec_reads c) - (start_token - 1))
       in prof_view p' = (us + d, (b + unat k) mod 2 ^ 64, n + 1, max mx (of_nat d)))"
proof -
  let ?ticks = "ec_ticks c (ec_reads c) - (start_token - 1)"
  obtain d where d: "ticks_to_us (ec_freq c) ?ticks = Some d" "unat d = sample_us (ec_freq c) ?ticks"
    using ticks_to_us_result [OF t(3)] by blast
  let ?p = "prof_accumulate d k p"
  have lt: "us + unat d < 2 ^ 44" using room unat_u32_less [of d] by simp
  then have v: "prof_view ?p = (us + unat d, (b + unat k) mod 2 ^ 64, n + 1, max mx d)"
    using accumulate_view [OF p, of d k] by simp
  obtain p1 lg1 where 1: "prof_first d k (?p, lg) = Some (p1, lg1)" "prof_view p1 = prof_view ?p"
    using prof_first_result by blast
  have v1: "prof_view p1 = (us + unat d, (b + unat k) mod 2 ^ 64, n + 1, max mx d)" using 1(2) v by simp
  obtain p2 lg2 where 2: "prof_summary (p1, lg1) = Some (p2, lg2)" "prof_view p2 = prof_view p1"
    using prof_summary_result [OF v1 lt] by blast
  obtain p3 lg3 where 3: "prof_outlier d (p2, lg2) = Some (p3, lg3)" "prof_view p3 = prof_view p2"
    using prof_outlier_result by blast
  have "d = of_nat (sample_us (ec_freq c) ?ticks)" unfolding d(2) [symmetric] by simp
  then show ?thesis using t d 1 2 3 v1 by (simp add: chip_prof_end_def ReadEClock_def Let_def)
qed

text \<open>In every case a sample is taken or skipped, and the sum grows by less than \<open>2 ^ 32\<close>.\<close>

definition prof_room :: "nat \<Rightarrow> ChipProf \<Rightarrow> bool" where
  "prof_room k p \<longleftrightarrow> pair_value (p_sum_us_lo p) (p_sum_us_hi p) + k * 2 ^ 32 \<le> 2 ^ 44"

lemma prof_end_total:
  assumes "prof_room (Suc k) p"
  shows "\<exists>p' lg' c'. chip_prof_end t n (p, lg, c) = Some (p', lg', c') \<and> prof_room k p'"
proof (cases "t = 0 \<or> \<not> ec_itimer c \<or> ec_freq c = 0")
  case True
  then show ?thesis using assms by (auto simp: chip_prof_end_def prof_room_def)
next
  case False
  obtain us b m mx where v: "prof_view p = (us, b, m, mx)" by (cases "prof_view p") auto
  then have "us + 2 ^ 32 \<le> 2 ^ 44" and u: "us + Suc k * 2 ^ 32 \<le> 2 ^ 44" using assms by (auto simp: prof_room_def prof_view_def)
  then obtain p' lg' where e: "chip_prof_end t n (p, lg, c) = Some (p', lg', c\<lparr>ec_reads := ec_reads c + 1\<rparr>)"
    and "fst (prof_view p') = us + sample_us (ec_freq c) (ec_ticks c (ec_reads c) - (t - 1))"
    using chip_prof_end_result [OF _ _ _ v] False by (fastforce simp: Let_def)
  moreover have "sample_us (ec_freq c) (ec_ticks c (ec_reads c) - (t - 1)) < 2 ^ 32" by (simp add: sample_us_def)
  ultimately have "prof_room k p'" using u by (simp add: prof_room_def prof_view_def)
  then show ?thesis using e by blast
qed

end
