(* ===== verification/Exec_Kernel.thy ===== *)
theory Exec_Kernel
  imports Prelude
begin

text \<open>
  The calls of the operating system (\<open>IExec\<close>) that the driver relies on.  The kernel is not part
  of the repository, so its answers are parameters: every \<open>ex_*_res\<close> field gives the answer
  of the call made at a given step, and nothing is assumed about them.  The record only keeps the
  books of what the driver holds (live allocations, open DMA mappings, system objects), which is
  what the leak and pairing lemmas of the components are about.
\<close>

record exec =
  ex_step :: nat
  ex_alloc_res :: "nat \<Rightarrow> u32"     \<comment> \<open>AllocVecTags: address, 0 for NULL\<close>
  ex_sdma_res :: "nat \<Rightarrow> u32"      \<comment> \<open>StartDMA: number of entries, 0 for failure\<close>
  ex_obj_res :: "nat \<Rightarrow> u32"       \<comment> \<open>AllocSysObjectTags: address, 0 for NULL\<close>
  ex_signal_res :: "nat \<Rightarrow> int"    \<comment> \<open>AllocSignal(-1): bit number, -1 for failure\<close>
  ex_phys :: "u32 \<Rightarrow> u32"          \<comment> \<open>GetDMAList: first physical address of a buffer\<close>
  ex_live :: "u32 list"
  ex_dma :: "u32 list"
  ex_objs :: "u32 list"
  ex_signals :: "int list"

definition AllocVecTags :: "exec \<Rightarrow> u32 \<times> exec" where
  "AllocVecTags ex =
     (let p = ex_alloc_res ex (ex_step ex) in
      (p, ex\<lparr>ex_step := Suc (ex_step ex),
             ex_live := (if p = 0 then ex_live ex else p # ex_live ex)\<rparr>))"

definition FreeVec :: "u32 \<Rightarrow> exec \<Rightarrow> exec" where
  "FreeVec p ex = ex\<lparr>ex_live := remove1 p (ex_live ex)\<rparr>"

definition StartDMA :: "u32 \<Rightarrow> exec \<Rightarrow> u32 \<times> exec" where
  "StartDMA p ex =
     (let n = ex_sdma_res ex (ex_step ex) in
      (n, ex\<lparr>ex_step := Suc (ex_step ex),
             ex_dma := (if n = 0 then ex_dma ex else p # ex_dma ex)\<rparr>))"

definition EndDMA :: "u32 \<Rightarrow> exec \<Rightarrow> exec" where
  "EndDMA p ex = ex\<lparr>ex_dma := remove1 p (ex_dma ex)\<rparr>"

definition AllocSysObject :: "exec \<Rightarrow> u32 \<times> exec" where
  "AllocSysObject ex =
     (let p = ex_obj_res ex (ex_step ex) in
      (p, ex\<lparr>ex_step := Suc (ex_step ex),
             ex_objs := (if p = 0 then ex_objs ex else p # ex_objs ex)\<rparr>))"

definition FreeSysObject :: "u32 \<Rightarrow> exec \<Rightarrow> exec" where
  "FreeSysObject p ex = ex\<lparr>ex_objs := remove1 p (ex_objs ex)\<rparr>"

definition AllocSignal :: "exec \<Rightarrow> int \<times> exec" where
  "AllocSignal ex =
     (let b = ex_signal_res ex (ex_step ex) in
      (b, ex\<lparr>ex_step := Suc (ex_step ex),
             ex_signals := (if b < 0 then ex_signals ex else b # ex_signals ex)\<rparr>))"

definition FreeSignal :: "int \<Rightarrow> exec \<Rightarrow> exec" where
  "FreeSignal b ex = ex\<lparr>ex_signals := remove1 b (ex_signals ex)\<rparr>"

lemmas exec_defs = AllocVecTags_def FreeVec_def StartDMA_def EndDMA_def
  AllocSysObject_def FreeSysObject_def AllocSignal_def FreeSignal_def

text \<open>What the driver holds: the part of the kernel state that a balanced call leaves alone.\<close>

definition holdings :: "exec \<Rightarrow> u32 list \<times> u32 list \<times> u32 list \<times> int list" where
  "holdings ex = (ex_live ex, ex_dma ex, ex_objs ex, ex_signals ex)"

end
