(* ===== verification/Virtqueue.thy ===== *)
theory Virtqueue
  imports Exec_Kernel
begin

text \<open>
  The split virtqueue of \<open>src/virtio/virtqueue.c\<close> and \<open>include/virtio/virtqueue.h\<close>: the rings as
  the device sees them (raw, possibly byte-swapped words), the free descriptor list threaded
  through \<open>next\<close>, the direct and the indirect path of \<open>VirtQueue_AddBuf\<close>, and the chain walk of
  \<open>VirtQueue_GetBuf\<close>.  The abstract view is a pair: the list of free descriptors in
  allocation order and the list of descriptor chains the device holds.
\<close>

section \<open>Data\<close>

record vring_desc =
  d_addr :: u64
  d_len :: u32
  d_flags :: u16
  d_next :: u16

record vring_sg =
  sg_addr :: u32
  sg_len :: u32

record vring_used_elem =
  u_id :: u32
  u_len :: u32

record virtqueue =
  vq_index :: u32
  vq_num :: u32
  vq_desc :: "vring_desc list"
  vq_avail_flags :: u16
  vq_avail_idx :: u16
  vq_avail_ring :: "u16 list"            \<comment> \<open>\<open>num\<close> slots and the used_event word behind them\<close>
  vq_used_flags :: u16
  vq_used_idx :: u16
  vq_used_ring :: "vring_used_elem list"
  vq_free_head :: u16
  vq_num_free :: u16
  vq_last_used_idx :: u16
  vq_cookies :: "u32 list"
  vq_mem_block :: u32
  vq_mem_size :: u32
  vq_vq_ptr :: u32                       \<comment> \<open>address of the management struct itself\<close>
  vq_cookies_ptr :: u32
  vq_itables_ptr :: u32
  vq_dma_entries :: u32
  vq_dma_phys :: u32
  vq_avail_phys :: u32
  vq_used_phys :: u32
  vq_notify_addr :: u32
  vq_notify_bar_off :: u32
  vq_modern :: bool
  vq_use_event_idx :: bool
  vq_last_kick_avail_idx :: u16
  vq_use_indirect :: bool
  vq_indirect_tables :: "u32 list"
  vq_itbl_mem :: "u32 \<Rightarrow> vring_desc list" \<comment> \<open>contents of the indirect tables, by address\<close>

abbreviation VRING_DESC_F_NEXT :: u16 where "VRING_DESC_F_NEXT \<equiv> 1"
abbreviation VRING_DESC_F_WRITE :: u16 where "VRING_DESC_F_WRITE \<equiv> 2"
abbreviation VRING_DESC_F_INDIRECT :: u16 where "VRING_DESC_F_INDIRECT \<equiv> 4"

definition vr16 :: "bool \<Rightarrow> u16 \<Rightarrow> u16" where
  "vr16 modern v = (if modern then bswap16 v else v)"

definition vr32 :: "bool \<Rightarrow> u32 \<Rightarrow> u32" where
  "vr32 modern v = (if modern then bswap32 v else v)"

definition vr64 :: "bool \<Rightarrow> u64 \<Rightarrow> u64" where
  "vr64 modern v = (if modern then bswap64 v else v)"

lemma vr_vr [simp]: "vr16 m (vr16 m h) = h" "vr32 m (vr32 m w) = w" "vr64 m (vr64 m d) = d"
  by (simp_all add: vr16_def vr32_def vr64_def)

lemma vr_zero [simp]: "vr16 m 0 = 0" "vr32 m 0 = 0" "vr64 m 0 = 0"
  by (simp_all add: vr16_def vr32_def vr64_def)

abbreviation zero_desc :: vring_desc where
  "zero_desc \<equiv> \<lparr>d_addr = 0, d_len = 0, d_flags = 0, d_next = 0\<rparr>"

section \<open>Allocation and release of a queue\<close>

text \<open>The legacy ring layout, in 32-bit arithmetic: (avail offset, used offset, tot size).\<close>

definition vring_layout :: "u32 \<Rightarrow> u32 \<times> u32 \<times> u32" where
  "vring_layout queue_size =
     (let desc_size = 16 * queue_size;
          avail_size = 2 * (3 + queue_size);
          avail_end = desc_size + avail_size;
          used_offset = (avail_end + 4096 - 1) AND NOT (4096 - 1);
          used_size = 2 * 3 + 8 * queue_size
      in (desc_size, used_offset, used_offset + used_size))"

definition init_free_chain :: "u32 \<Rightarrow> vring_desc list \<Rightarrow> vring_desc list option" where
  "init_free_chain queue_size desc = do {
     desc \<leftarrow> foldM (\<lambda>j desc. do { d \<leftarrow> rd desc j;
                                  wr desc j (d\<lparr>d_next := of_nat (j + 1)\<rparr>) })
               [0..<unat (queue_size - 1)] desc;
     d \<leftarrow> rd desc (unat (queue_size - 1));
     wr desc (unat (queue_size - 1)) (d\<lparr>d_next := 0\<rparr>) }"

definition VirtQueue_Allocate ::
  "exec \<Rightarrow> u32 \<Rightarrow> u32 \<Rightarrow> (virtqueue option \<times> exec) option" where
  "VirtQueue_Allocate ex queue_index queue_size =
     (let (_, _, total_mem) = vring_layout queue_size;
          (raw, ex) = AllocVecTags ex
      in if raw = 0 then Some (None, ex) else
     (let (vq, ex) = AllocVecTags ex in
      if vq = 0 then Some (None, FreeVec raw ex) else
     (let (cookies, ex) = AllocVecTags ex in
      if cookies = 0 then Some (None, FreeVec vq (FreeVec raw ex)) else
     (let (itables, ex) = AllocVecTags ex in
      if itables = 0 then Some (None, FreeVec vq (FreeVec raw (FreeVec cookies ex))) else do {
        desc \<leftarrow> init_free_chain queue_size (replicate (unat queue_size) zero_desc);
        Some (Some \<lparr>vq_index = queue_index, vq_num = queue_size, vq_desc = desc,
          vq_avail_flags = 0, vq_avail_idx = 0,
          vq_avail_ring = replicate (unat queue_size + 1) 0,
          vq_used_flags = 0, vq_used_idx = 0,
          vq_used_ring = replicate (unat queue_size) \<lparr>u_id = 0, u_len = 0\<rparr>,
          vq_free_head = 0, vq_num_free = ucast queue_size, vq_last_used_idx = 0,
          vq_cookies = replicate (unat queue_size) 0,
          vq_mem_block = raw, vq_mem_size = total_mem, vq_vq_ptr = vq,
          vq_cookies_ptr = cookies, vq_itables_ptr = itables, vq_dma_entries = 0,
          vq_dma_phys = 0, vq_avail_phys = 0, vq_used_phys = 0, vq_notify_addr = 0,
          vq_notify_bar_off = 0, vq_modern = False, vq_use_event_idx = False,
          vq_last_kick_avail_idx = 0, vq_use_indirect = False,
          vq_indirect_tables = replicate (unat queue_size) 0,
          vq_itbl_mem = (\<lambda>_. [])\<rparr>, ex) }))))"

definition VirtQueue_Free :: "exec \<Rightarrow> virtqueue option \<Rightarrow> exec" where
  "VirtQueue_Free ex q = (case q of None \<Rightarrow> ex | Some vq \<Rightarrow>
     (let ex = (if 0 < vq_dma_entries vq \<and> vq_mem_block vq \<noteq> 0
                then EndDMA (vq_mem_block vq) ex else ex);
          ex = (if vq_itables_ptr vq \<noteq> 0 then FreeVec (vq_itables_ptr vq) ex else ex);
          ex = (if vq_cookies_ptr vq \<noteq> 0 then FreeVec (vq_cookies_ptr vq) ex else ex);
          ex = (if vq_mem_block vq \<noteq> 0 then FreeVec (vq_mem_block vq) ex else ex)
      in FreeVec (vq_vq_ptr vq) ex))"

section \<open>Adding a buffer\<close>

text \<open>Publishing a head in the available ring: the tail common to both paths of AddBuf.\<close>

definition vq_publish :: "virtqueue \<Rightarrow> u16 \<Rightarrow> virtqueue option" where
  "vq_publish vq head =
     (let avail_idx = vr16 (vq_modern vq) (vq_avail_idx vq) in
      if vq_num vq = 0 then None else do {
        ring \<leftarrow> wr (vq_avail_ring vq) (unat avail_idx mod unat (vq_num vq))
                  (vr16 (vq_modern vq) head);
        Some (vq\<lparr>vq_avail_ring := ring,
                 vq_avail_idx := vr16 (vq_modern vq) (avail_idx + 1)\<rparr>) })"

definition indirect_entry :: "bool \<Rightarrow> u32 \<Rightarrow> nat \<Rightarrow> vring_sg \<Rightarrow> vring_desc" where
  "indirect_entry modern out_num n e =
     \<lparr>d_addr = vr64 modern (ucast (sg_addr e)), d_len = vr32 modern (sg_len e),
      d_flags = vr16 modern (if unat out_num \<le> n then VRING_DESC_F_WRITE else 0), d_next = 0\<rparr>"

definition addbuf_indirect ::
  "exec \<Rightarrow> virtqueue \<Rightarrow> vring_sg list \<Rightarrow> u32 \<Rightarrow> u32 \<Rightarrow> u32 \<Rightarrow>
     (bool \<times> exec \<times> virtqueue) option" where
  "addbuf_indirect ex vq sg out_num tot cookie =
     (let head = vq_free_head vq; m = vq_modern vq;
          (itbl, ex) = AllocVecTags ex
      in if itbl = 0 then Some (False, ex, vq) else do {
        tbl \<leftarrow> foldM (\<lambda>n acc. do { e \<leftarrow> rd sg n; Some (acc @ [indirect_entry m out_num n e]) })
                [0..<unat tot] [];
        let itbl_size = 16 * tot;
        let (entries, ex) = StartDMA itbl ex;
        if entries = 0 then Some (False, FreeVec itbl ex, vq) else do {
          let (dma, ex) = AllocSysObject ex;
          if dma = 0 then Some (False, FreeVec itbl (EndDMA itbl ex), vq) else do {
            let itbl_phys = ex_phys ex itbl;
            let ex = FreeSysObject dma ex;
            d \<leftarrow> rd (vq_desc vq) (unat head);
            desc \<leftarrow> wr (vq_desc vq) (unat head)
              \<lparr>d_addr = vr64 m (ucast itbl_phys), d_len = vr32 m itbl_size,
               d_flags = vr16 m VRING_DESC_F_INDIRECT, d_next = 0\<rparr>;
            cookies \<leftarrow> wr (vq_cookies vq) (unat head) cookie;
            itables \<leftarrow> wr (vq_indirect_tables vq) (unat head) itbl;
            vq' \<leftarrow> vq_publish (vq\<lparr>vq_desc := desc, vq_free_head := d_next d,
                     vq_num_free := vq_num_free vq - 1, vq_cookies := cookies,
                     vq_indirect_tables := itables,
                     vq_itbl_mem := (vq_itbl_mem vq)(itbl := tbl)\<rparr>) head;
            Some (True, ex, vq') } } })"

definition addbuf_step ::
  "bool \<Rightarrow> vring_sg list \<Rightarrow> u32 \<Rightarrow> u32 \<Rightarrow> nat \<Rightarrow> u16 \<times> u16 \<times> vring_desc list \<Rightarrow>
     (u16 \<times> u16 \<times> vring_desc list) option" where
  "addbuf_step m sg out_num tot n st = (case st of (idx, free_head, desc) \<Rightarrow>
     (let desc_flags = (if unat out_num \<le> n then VRING_DESC_F_WRITE else 0) OR
                       (if n < unat (tot - 1) then VRING_DESC_F_NEXT else 0) in do {
        d \<leftarrow> rd desc (unat idx);
        e \<leftarrow> rd sg n;
        let next_idx = d_next d;
        let d' = d\<lparr>d_addr := vr64 m (ucast (sg_addr e)), d_len := vr32 m (sg_len e),
                   d_flags := vr16 m desc_flags\<rparr>;
        if n < unat (tot - 1) then do {
          desc \<leftarrow> wr desc (unat idx) (d'\<lparr>d_next := vr16 m next_idx\<rparr>);
          Some (next_idx, free_head, desc) }
        else do {
          desc \<leftarrow> wr desc (unat idx) d';
          Some (idx, next_idx, desc) } }))"

definition addbuf_direct ::
  "virtqueue \<Rightarrow> vring_sg list \<Rightarrow> u32 \<Rightarrow> u32 \<Rightarrow> u32 \<Rightarrow> virtqueue option" where
  "addbuf_direct vq sg out_num tot cookie =
     (let head = vq_free_head vq in do {
        (idx, free_head, desc) \<leftarrow> foldM (addbuf_step (vq_modern vq) sg out_num tot)
           [0..<unat tot] (head, vq_free_head vq, vq_desc vq);
        cookies \<leftarrow> wr (vq_cookies vq) (unat head) cookie;
        itables \<leftarrow> wr (vq_indirect_tables vq) (unat head) 0;
        vq_publish (vq\<lparr>vq_desc := desc, vq_free_head := free_head,
          vq_num_free := vq_num_free vq - ucast tot, vq_cookies := cookies,
          vq_indirect_tables := itables\<rparr>) head })"

definition VirtQueue_AddBuf ::
  "exec \<Rightarrow> virtqueue \<Rightarrow> vring_sg list \<Rightarrow> u32 \<Rightarrow> u32 \<Rightarrow> u32 \<Rightarrow>
     (int \<times> exec \<times> virtqueue) option" where
  "VirtQueue_AddBuf ex vq sg out_num in_num cookie =
     (let tot = out_num + in_num;
          ind = (vq_use_indirect vq \<and> 1 < tot)
      in if (if ind then vq_num_free vq < 1 else ucast (vq_num_free vq) < tot)
         then Some (-1, ex, vq)
         else do {
           (finished, ex, vq) \<leftarrow> (if ind then addbuf_indirect ex vq sg out_num tot cookie
                                else Some (False, ex, vq));
           if finished then Some (0, ex, vq)
           else if ind \<and> ucast (vq_num_free vq) < tot then Some (-1, ex, vq)
           else do { vq \<leftarrow> addbuf_direct vq sg out_num tot cookie; Some (0, ex, vq) } })"

section \<open>Taking a used buffer back\<close>

text \<open>
  The \<open>while (1)\<close> walk over a chain: every descriptor is cleared and pushed on the free
  list.  It terminates on any table: an iteration that goes on clears a NEXT flag.
\<close>

definition has_next :: "bool \<Rightarrow> vring_desc \<Rightarrow> bool" where
  "has_next m d \<longleftrightarrow> vr16 m (d_flags d) AND VRING_DESC_F_NEXT \<noteq> 0"

lemma length_filter_update_less:
  assumes "i < length xs" "P (xs ! i)" "\<not> P v"
  shows "length (filter P (xs[i := v])) < length (filter P xs)"
proof -
  have xs: "xs = take i xs @ xs ! i # drop (Suc i) xs"
    using assms(1) by (simp add: Cons_nth_drop_Suc)
  have "length (filter P xs) = length (filter P (take i xs)) + 1 + length (filter P (drop (Suc i) xs))"
    by (subst xs) (simp add: assms(2))
  then show ?thesis
    using assms by (simp add: upd_conv_take_nth_drop)
qed

function release_chain ::
  "bool \<Rightarrow> vring_desc list \<Rightarrow> u16 \<Rightarrow> u16 \<Rightarrow> u32 \<Rightarrow> (vring_desc list \<times> u16 \<times> u32) option" where
  "release_chain m desc free_head idx freed =
     (if unat idx < length desc then
        (let d = desc ! unat idx;
             nxt = vr16 m (d_next d);
             desc' = desc[unat idx := \<lparr>d_addr = 0, d_len = 0, d_flags = 0, d_next = free_head\<rparr>]
         in if has_next m d then release_chain m desc' idx nxt (freed + 1)
            else Some (desc', idx, freed + 1))
      else None)"
  by pat_completeness auto
termination
  by (relation "measure (\<lambda>(m, desc, _). length (filter (has_next m) desc))")
    (auto intro!: length_filter_update_less simp: has_next_def)

declare release_chain.simps [simp del]

definition getbuf_release :: "exec \<Rightarrow> virtqueue \<Rightarrow> u16 \<Rightarrow> u32 \<Rightarrow> (exec \<times> virtqueue) option" where
  "getbuf_release ex vq idx itbl =
     (if itbl \<noteq> 0 then do {
        d \<leftarrow> rd (vq_desc vq) (unat idx);
        let ex = FreeVec itbl (EndDMA itbl ex);
        desc \<leftarrow> wr (vq_desc vq) (unat idx)
          \<lparr>d_addr = 0, d_len = 0, d_flags = 0, d_next = vq_free_head vq\<rparr>;
        Some (ex, vq\<lparr>vq_desc := desc, vq_free_head := idx, vq_num_free := vq_num_free vq + 1\<rparr>) }
      else do {
        (desc, free_head, freed) \<leftarrow> release_chain (vq_modern vq) (vq_desc vq) (vq_free_head vq) idx 0;
        Some (ex, vq\<lparr>vq_desc := desc, vq_free_head := free_head,
                     vq_num_free := vq_num_free vq + ucast freed\<rparr>) })"

text \<open>The result is (cookie, the length stored through \<open>len_out\<close> if any, kernel, queue).\<close>

definition VirtQueue_GetBuf ::
  "exec \<Rightarrow> virtqueue \<Rightarrow> (u32 \<times> u32 option \<times> exec \<times> virtqueue) option" where
  "VirtQueue_GetBuf ex vq =
     (let m = vq_modern vq in
      if vq_last_used_idx vq = vr16 m (vq_used_idx vq) then Some (0, None, ex, vq)
      else if vq_num vq = 0 then None
      else do {
        elem \<leftarrow> rd (vq_used_ring vq) (unat (vq_last_used_idx vq) mod unat (vq_num vq));
        let desc_id = vr32 m (u_id elem);
        let written = vr32 m (u_len elem);
        if vq_num vq \<le> desc_id
        then Some (0, None, ex, vq\<lparr>vq_last_used_idx := vq_last_used_idx vq + 1\<rparr>)
        else do {
          cookie \<leftarrow> rd (vq_cookies vq) (unat desc_id);
          cookies \<leftarrow> wr (vq_cookies vq) (unat desc_id) 0;
          itbl \<leftarrow> rd (vq_indirect_tables vq) (unat desc_id);
          itables \<leftarrow> wr (vq_indirect_tables vq) (unat desc_id) 0;
          (ex, vq) \<leftarrow> getbuf_release ex
             (vq\<lparr>vq_cookies := cookies, vq_indirect_tables := itables\<rparr>) (ucast desc_id) itbl;
          let vq = vq\<lparr>vq_last_used_idx := vq_last_used_idx vq + 1\<rparr>;
          if vq_use_event_idx vq then do {
            ring \<leftarrow> wr (vq_avail_ring vq) (unat (vq_num vq)) (vr16 m (vq_last_used_idx vq));
            Some (cookie, Some written, ex, vq\<lparr>vq_avail_ring := ring\<rparr>) }
          else Some (cookie, Some written, ex, vq) } })"

end
