(* ===== verification/Virtqueue_Correct.thy ===== *)
theory Virtqueue_Correct
  imports Virtqueue
begin

text \<open>
  The descriptor bookkeeping of the virtqueue against an abstract allocator: a list of free
  descriptors and the chains the device holds partition the descriptor table.  AddBuf moves a
  prefix of the free list to the device, GetBuf pushes a chain back in reverse order.
\<close>

section \<open>Paths and chains in the descriptor table\<close>

fun free_path :: "vring_desc list \<Rightarrow> u16 \<Rightarrow> u16 list \<Rightarrow> u16 \<Rightarrow> bool" where
  "free_path desc h [] e \<longleftrightarrow> h = e"
| "free_path desc h (i # is) e \<longleftrightarrow>
     h = i \<and> unat i < length desc \<and> free_path desc (d_next (desc ! unat i)) is e"

fun chain_ok :: "bool \<Rightarrow> vring_desc list \<Rightarrow> u16 list \<Rightarrow> bool" where
  "chain_ok m desc [] \<longleftrightarrow> False"
| "chain_ok m desc [i] \<longleftrightarrow> unat i < length desc \<and> \<not> has_next m (desc ! unat i)"
| "chain_ok m desc (i # j # is) \<longleftrightarrow> unat i < length desc \<and> has_next m (desc ! unat i) \<and>
     vr16 m (d_next (desc ! unat i)) = j \<and> chain_ok m desc (j # is)"

text \<open>What the device reads along a chain: address, length, and whether it may write.\<close>

definition chain_view :: "bool \<Rightarrow> vring_desc list \<Rightarrow> u16 list \<Rightarrow> (u64 \<times> u32 \<times> bool) list" where
  "chain_view m desc c = map (\<lambda>i. let d = desc ! unat i in
     (vr64 m (d_addr d), vr32 m (d_len d), vr16 m (d_flags d) AND VRING_DESC_F_WRITE \<noteq> 0)) c"

definition same_on :: "u16 list \<Rightarrow> vring_desc list \<Rightarrow> vring_desc list \<Rightarrow> bool" where
  "same_on is desc desc' \<longleftrightarrow>
     length desc' = length desc \<and> (\<forall>i\<in>set is. desc' ! unat i = desc ! unat i)"

lemma same_on_trans: "same_on is a b \<Longrightarrow> same_on is b c \<Longrightarrow> same_on is a c"
  by (simp add: same_on_def)

lemma free_path_cong: "same_on is desc desc' \<Longrightarrow> free_path desc h is e \<longleftrightarrow> free_path desc' h is e"
  by (induction desc h "is" e rule: free_path.induct) (auto simp: same_on_def)

lemma chain_ok_cong: "same_on c desc desc' \<Longrightarrow> chain_ok m desc c \<longleftrightarrow> chain_ok m desc' c"
  by (induction m desc c rule: chain_ok.induct) (auto simp: same_on_def)

lemma free_path_append:
  "free_path desc h (xs @ ys) e \<longleftrightarrow> (\<exists>k. free_path desc h xs k \<and> free_path desc k ys e)"
  by (induction desc h xs e rule: free_path.induct) auto

lemma free_path_bounds: "free_path desc h is e \<Longrightarrow> i \<in> set is \<Longrightarrow> unat i < length desc"
  by (induction desc h "is" e rule: free_path.induct) auto

lemma chain_ok_bounds: "chain_ok m desc c \<Longrightarrow> i \<in> set c \<Longrightarrow> unat i < length desc"
  by (induction m desc c rule: chain_ok.induct) auto

lemma chain_ok_nonempty: "chain_ok m desc c \<Longrightarrow> c \<noteq> []"
  by auto

lemma same_on_update [intro]: "i \<notin> set is \<Longrightarrow> same_on is desc (desc[unat i := d])"
  unfolding same_on_def by (metis length_list_update nth_list_update_neq unat_inj)

lemma same_on_step:
  assumes "\<forall>is. set is \<inter> set c = {} \<longrightarrow> same_on is (desc[unat i := d]) desc'"
  shows "\<forall>is. set is \<inter> set (i # c) = {} \<longrightarrow> same_on is desc desc'"
proof (intro allI impI)
  fix "is" assume "set is \<inter> set (i # c) = {}"
  then have "i \<notin> set is" "set is \<inter> set c = {}" by auto
  then show "same_on is desc desc'"
    using assms by (blast intro: same_on_trans)
qed

section \<open>Filling a direct chain\<close>

lemma flag_bits [simp]:
  "(2 OR 1 :: u16) AND 1 = 1" "(2 OR 0 :: u16) AND 1 = 0" "(0 OR 1 :: u16) AND 1 = 1"
  "(2 OR 1 :: u16) AND 2 = 2" "(2 OR 0 :: u16) AND 2 = 2" "(0 OR 1 :: u16) AND 2 = 0"
  by simp_all

lemma addbuf_loop:
  assumes "free_path desc h fs e" "distinct fs" "fs \<noteq> []"
    "n + length fs = unat tot" "unat tot \<le> length sg"
  shows "\<exists>i desc'. foldM (addbuf_step m sg out_num tot) [n..<unat tot] (h, fh, desc)
           = Some (i, e, desc')
         \<and> chain_ok m desc' fs
         \<and> (\<forall>is. set is \<inter> set fs = {} \<longrightarrow> same_on is desc desc')
         \<and> chain_view m desc' fs = map (\<lambda>k. (ucast (sg_addr (sg ! k)), sg_len (sg ! k), unat out_num \<le> k))
             [n..<unat tot]"
  using assms
proof (induction fs arbitrary: n h desc)
  case Nil
  then show ?case by simp
next
  case (Cons i fs)
  have [simp]: "h = i" and i: "unat i < length desc"
    and path: "free_path desc (d_next (desc ! unat i)) fs e"
    using Cons.prems(1) by auto
  have n: "n < unat tot" "n < length sg" using Cons.prems(4,5) by auto
  have tot: "unat (tot - 1) = unat tot - 1"
    using n(1) by (metis gr_zeroI less_nat_zero_code measure_unat unat_eq_zero unat_minus_one)
  have upt: "[n..<unat tot] = n # [Suc n..<unat tot]"
    using n(1) by (simp add: upt_conv_Cons)
  show ?case
  proof (cases fs)
    case Nil
    with Cons.prems(4) have last: "unat tot = Suc n" by simp
    then show ?thesis using i n path Nil tot
      by (auto simp: upt addbuf_step_def rd_in wr_in chain_view_def has_next_def same_on_def
          nth_list_update)
  next
    case (Cons j fs')
    let ?nx = "d_next (desc ! unat i)"
    let ?d = "(desc ! unat i)\<lparr>d_addr := vr64 m (ucast (sg_addr (sg ! n))),
       d_len := vr32 m (sg_len (sg ! n)),
       d_flags := vr16 m ((if unat out_num \<le> n then 2 else 0) OR 1), d_next := vr16 m ?nx\<rparr>"
    let ?desc = "desc[unat i := ?d]"
    have more: "n < unat (tot - 1)" using Cons.prems(4) Cons tot by simp
    have nx: "?nx = j" using path Cons by simp
    have i_notin: "i \<notin> set fs" "distinct fs" using Cons.prems(2) by auto
    have path': "free_path ?desc ?nx fs e"
      using path free_path_cong [OF same_on_update [OF i_notin(1), of desc ?d]] by blast
    obtain k desc' where IH:
      "foldM (addbuf_step m sg out_num tot) [Suc n..<unat tot] (?nx, fh, ?desc) = Some (k, e, desc')"
      "chain_ok m desc' fs" "\<forall>is. set is \<inter> set fs = {} \<longrightarrow> same_on is ?desc desc'"
      "chain_view m desc' fs = map (\<lambda>k. (ucast (sg_addr (sg ! k)), sg_len (sg ! k), unat out_num \<le> k))
             [Suc n..<unat tot]"
      using Cons.IH [OF path' i_notin(2), of "Suc n"] Cons.prems(4,5) Cons by auto
    have at_i: "desc' ! unat i = ?d" "length desc' = length desc"
      using IH(3) [rule_format, of "[i]"] i_notin(1) i by (auto simp: same_on_def)
    have "foldM (addbuf_step m sg out_num tot) [n..<unat tot] (h, fh, desc) = Some (k, e, desc')"
      using i n more IH(1)
      by (cases "unat out_num \<le> n") (simp_all add: upt addbuf_step_def rd_in wr_in Let_def)
    moreover have "chain_ok m desc' (i # fs)"
      using at_i i IH(2) nx Cons by (auto simp: has_next_def)
    moreover have "\<forall>is. set is \<inter> set (i # fs) = {} \<longrightarrow> same_on is desc desc'"
      by (rule same_on_step [OF IH(3)])
    moreover have "chain_view m desc' (i # fs) =
        map (\<lambda>k. (ucast (sg_addr (sg ! k)), sg_len (sg ! k), unat out_num \<le> k)) [n..<unat tot]"
      using IH(4) at_i by (auto simp: upt chain_view_def)
    ultimately show ?thesis by blast
  qed
qed

section \<open>Releasing a chain\<close>

lemma release_chain_ok:
  assumes "chain_ok m desc c" "distinct c" "c \<noteq> []"
  shows "\<exists>desc'. release_chain m desc fh (hd c) freed = Some (desc', last c, freed + of_nat (length c))
     \<and> free_path desc' (last c) (rev c) fh
     \<and> (\<forall>is. set is \<inter> set c = {} \<longrightarrow> same_on is desc desc')"
  using assms
proof (induction c arbitrary: desc fh freed)
  case Nil
  then show ?case by simp
next
  case (Cons i c)
  let ?desc = "desc[unat i := \<lparr>d_addr = 0, d_len = 0, d_flags = 0, d_next = fh\<rparr>]"
  have i: "unat i < length desc" using Cons.prems(1) by (cases c) auto
  show ?case
  proof (cases c)
    case Nil
    then show ?thesis using Cons.prems(1) i
      by (auto simp: release_chain.simps [of m desc fh i] Let_def)
  next
    case (Cons j c')
    have nxt: "has_next m (desc ! unat i)" "vr16 m (d_next (desc ! unat i)) = j"
      and ok: "chain_ok m desc c" using Cons.prems(1) Cons by auto
    have notin: "i \<notin> set c" "distinct c" using Cons.prems(2) by auto
    have ok': "chain_ok m ?desc c"
      using ok chain_ok_cong [OF same_on_update [OF notin(1)]] by blast
    obtain desc' where IH:
      "release_chain m ?desc i (hd c) (freed + 1) = Some (desc', last c, freed + 1 + of_nat (length c))"
      "free_path desc' (last c) (rev c) i"
      "\<forall>is. set is \<inter> set c = {} \<longrightarrow> same_on is ?desc desc'"
      using Cons.IH [OF ok' notin(2)] Cons by fastforce
    have at_i: "desc' ! unat i = \<lparr>d_addr = 0, d_len = 0, d_flags = 0, d_next = fh\<rparr>"
      "length desc' = length desc"
      using IH(3) [rule_format, of "[i]"] notin(1) i by (auto simp: same_on_def)
    have "release_chain m desc fh i freed = Some (desc', last c, freed + 1 + of_nat (length c))"
      using i nxt IH(1) Cons by (simp add: release_chain.simps [of m desc fh i] Let_def)
    moreover have "free_path desc' (last c) (rev c @ [i]) fh"
      using IH(2) at_i i by (auto simp: free_path_append)
    moreover have "\<forall>is. set is \<inter> set (i # c) = {} \<longrightarrow> same_on is desc desc'"
      by (rule same_on_step [OF IH(3)])
    ultimately show ?thesis using Cons by (auto simp: algebra_simps)
  qed
qed

section \<open>The allocator invariant\<close>

definition vq_wf :: "virtqueue \<Rightarrow> bool" where
  "vq_wf vq \<longleftrightarrow> 0 < unat (vq_num vq) \<and> unat (vq_num vq) \<le> 32768
     \<and> length (vq_desc vq) = unat (vq_num vq)
     \<and> length (vq_avail_ring vq) = unat (vq_num vq) + 1
     \<and> length (vq_used_ring vq) = unat (vq_num vq)
     \<and> length (vq_cookies vq) = unat (vq_num vq)
     \<and> length (vq_indirect_tables vq) = unat (vq_num vq)"

definition inflight_ok :: "virtqueue \<Rightarrow> u16 list \<Rightarrow> bool" where
  "inflight_ok vq c \<longleftrightarrow> c \<noteq> [] \<and> unat (hd c) < length (vq_desc vq) \<and>
     (if vq_indirect_tables vq ! unat (hd c) = 0 then chain_ok (vq_modern vq) (vq_desc vq) c
      else c = [hd c])"

definition vq_inv :: "virtqueue \<Rightarrow> u16 list \<Rightarrow> u16 list list \<Rightarrow> bool" where
  "vq_inv vq fs cs \<longleftrightarrow> vq_wf vq
     \<and> (\<exists>e. free_path (vq_desc vq) (vq_free_head vq) fs e)
     \<and> unat (vq_num_free vq) = length fs
     \<and> distinct (fs @ concat cs) \<and> length (fs @ concat cs) = unat (vq_num vq)
     \<and> (\<forall>c\<in>set cs. inflight_ok vq c)"

text \<open>\<open>vq'\<close> shows the device one more available entry, \<open>head\<close>, and nothing else new.\<close>

definition published :: "virtqueue \<Rightarrow> u16 \<Rightarrow> virtqueue \<Rightarrow> bool" where
  "published vq head vq' \<longleftrightarrow>
     (let m = vq_modern vq; slot = unat (vr16 m (vq_avail_idx vq)) mod unat (vq_num vq) in
      vr16 m (vq_avail_idx vq') = vr16 m (vq_avail_idx vq) + 1
      \<and> vq_avail_ring vq' = (vq_avail_ring vq)[slot := vr16 m head])"

text \<open>Fields the driver side of the queue never changes by adding or taking buffers.\<close>

definition vq_const :: "virtqueue \<Rightarrow> u32 \<times> bool \<times> bool \<times> bool \<times> u32 \<times> u32" where
  "vq_const vq = (vq_num vq, vq_modern vq, vq_use_event_idx vq, vq_use_indirect vq,
     vq_notify_addr vq, vq_notify_bar_off vq)"

lemma inflight_ok_same:
  assumes "inflight_ok vq c" "same_on c (vq_desc vq) (vq_desc vq')" "vq_modern vq' = vq_modern vq"
    "vq_indirect_tables vq' ! unat (hd c) = vq_indirect_tables vq ! unat (hd c)"
  shows "inflight_ok vq' c"
  using assms chain_ok_cong [OF assms(2)] by (auto simp: inflight_ok_def same_on_def)

lemma vq_publish_ok:
  assumes "0 < unat (vq_num vq)" "length (vq_avail_ring vq) = unat (vq_num vq) + 1"
  shows "\<exists>r i. vq_publish vq head = Some (vq\<lparr>vq_avail_ring := r, vq_avail_idx := i\<rparr>)
     \<and> length r = length (vq_avail_ring vq)
     \<and> published vq head (vq\<lparr>vq_avail_ring := r, vq_avail_idx := i\<rparr>)"
proof -
  have "unat (vr16 (vq_modern vq) (vq_avail_idx vq)) mod unat (vq_num vq) < length (vq_avail_ring vq)"
    using assms by (simp add: less_SucI)
  moreover have "vq_num vq \<noteq> 0" using assms(1) by auto
  ultimately show ?thesis
    by (auto simp: vq_publish_def published_def Let_def wr_in)
qed

lemma free_head_bound:
  "vq_inv vq fs cs \<Longrightarrow> fs \<noteq> [] \<Longrightarrow> vq_free_head vq = hd fs \<and> unat (hd fs) < unat (vq_num vq)"
  by (cases fs) (auto simp: vq_inv_def vq_wf_def)

text \<open>The direct path: the first \<open>tot\<close> free descriptors become a chain of the device.\<close>

lemma addbuf_direct_ok:
  assumes inv: "vq_inv vq fs cs" and tot: "0 < unat tot" "unat tot \<le> length fs" "unat tot \<le> length sg"
  defines "t \<equiv> unat tot"
  shows "\<exists>vq'. addbuf_direct vq sg out_num tot cookie = Some vq'
     \<and> vq_inv vq' (drop t fs) (take t fs # cs) \<and> published vq (hd fs) vq'
     \<and> vq_cookies vq' = (vq_cookies vq)[unat (hd fs) := cookie]
     \<and> vq_indirect_tables vq' = (vq_indirect_tables vq)[unat (hd fs) := 0]
     \<and> vq_const vq' = vq_const vq \<and> vq_last_used_idx vq' = vq_last_used_idx vq
     \<and> vq_used_ring vq' = vq_used_ring vq \<and> vq_used_idx vq' = vq_used_idx vq
     \<and> chain_view (vq_modern vq) (vq_desc vq') (take t fs) =
         map (\<lambda>k. (ucast (sg_addr (sg ! k)), sg_len (sg ! k), unat out_num \<le> k)) [0..<t]"
proof -
  let ?c = "take t fs"
  obtain e k where path: "free_path (vq_desc vq) (vq_free_head vq) ?c k"
      "free_path (vq_desc vq) k (drop t fs) e"
    using inv free_path_append [of _ _ ?c "drop t fs"] by (auto simp: vq_inv_def)
  have c: "distinct ?c" "?c \<noteq> []" "length ?c = t" and hd: "hd ?c = hd fs" "fs \<noteq> []"
    using inv tot by (auto simp: vq_inv_def t_def hd_take)
  have dis: "set (drop t fs) \<inter> set ?c = {}"
    using inv by (auto simp: vq_inv_def dest: set_take_disj_set_drop_if_distinct [of fs t t])
  have dis2: "set ch \<inter> set ?c = {}" if "ch \<in> set cs" for ch
    using inv that by (fastforce simp: vq_inv_def dest: in_set_takeD)
  obtain i desc' where loop:
    "foldM (addbuf_step (vq_modern vq) sg out_num tot) [0..<t] (vq_free_head vq, vq_free_head vq, vq_desc vq)
       = Some (i, k, desc')"
    "chain_ok (vq_modern vq) desc' ?c"
    "\<forall>is. set is \<inter> set ?c = {} \<longrightarrow> same_on is (vq_desc vq) desc'"
    "chain_view (vq_modern vq) desc' ?c =
       map (\<lambda>k. (ucast (sg_addr (sg ! k)), sg_len (sg ! k), unat out_num \<le> k)) [0..<t]"
    using addbuf_loop [OF path(1) c(1,2), where n = 0 and tot = tot and sg = sg and
        m = "vq_modern vq" and fh = "vq_free_head vq" and out_num = out_num] c(3) tot
    by (auto simp: t_def)
  have fh: "vq_free_head vq = hd fs" "unat (hd fs) < unat (vq_num vq)"
    using free_head_bound [OF inv hd(2)] by auto
  have lens: "length (vq_cookies vq) = unat (vq_num vq)"
      "length (vq_indirect_tables vq) = unat (vq_num vq)" "length (vq_desc vq) = unat (vq_num vq)"
    using inv by (auto simp: vq_inv_def vq_wf_def)
  let ?vq = "vq\<lparr>vq_desc := desc', vq_free_head := k, vq_num_free := vq_num_free vq - ucast tot,
      vq_cookies := (vq_cookies vq)[unat (hd fs) := cookie],
      vq_indirect_tables := (vq_indirect_tables vq)[unat (hd fs) := 0]\<rparr>"
  obtain r j where pub: "vq_publish ?vq (hd fs) = Some (?vq\<lparr>vq_avail_ring := r, vq_avail_idx := j\<rparr>)"
      "length r = length (vq_avail_ring vq)"
      "published ?vq (hd fs) (?vq\<lparr>vq_avail_ring := r, vq_avail_idx := j\<rparr>)"
    using vq_publish_ok [of ?vq "hd fs"] inv by (auto simp: vq_inv_def vq_wf_def)
  let ?vq' = "?vq\<lparr>vq_avail_ring := r, vq_avail_idx := j\<rparr>"
  have res: "addbuf_direct vq sg out_num tot cookie = Some ?vq'"
    using loop(1) fh lens pub(1) by (simp add: addbuf_direct_def Let_def t_def wr_in)
  have len': "length desc' = length (vq_desc vq)"
    using loop(3) [rule_format, of "[]"] by (simp add: same_on_def)
  have path': "free_path desc' k (drop t fs) e"
    using path(2) free_path_cong loop(3) dis by blast
  have num: "unat (vq_num_free vq - ucast tot) = length fs - t"
  proof -
    have n: "unat (vq_num_free vq) = length fs" "length fs \<le> 32768"
      using inv by (auto simp: vq_inv_def vq_wf_def)
    then have tt: "unat (ucast tot :: u16) = t"
      using tot(2) by (simp add: t_def)
    then have "(ucast tot :: u16) \<le> vq_num_free vq"
      using n tot(2) by (simp add: word_le_nat_alt t_def)
    then show ?thesis using n(1) tt by (simp add: unat_sub)
  qed
  have old: "inflight_ok ?vq' ch" if "ch \<in> set cs" for ch
  proof (rule inflight_ok_same)
    show ok: "inflight_ok vq ch" using inv that by (simp add: vq_inv_def)
    show "same_on ch (vq_desc vq) (vq_desc ?vq')" using loop(3) dis2 [OF that] by simp
    have "hd ch \<in> set ch" using ok by (simp add: inflight_ok_def)
    moreover have "hd fs \<in> set ?c" using c(2) hd(1) hd_in_set by metis
    ultimately have "hd ch \<noteq> hd fs" using dis2 [OF that] by auto
    then show "vq_indirect_tables ?vq' ! unat (hd ch) = vq_indirect_tables vq ! unat (hd ch)"
      by simp
  qed simp
  have new: "inflight_ok ?vq' ?c"
    using loop(2) c(2) hd lens fh len' by (simp add: inflight_ok_def)
  have "vq_inv ?vq' (drop t fs) (?c # cs)"
  proof -
    have "distinct (drop t fs @ concat (?c # cs))" "length (drop t fs @ concat (?c # cs)) = unat (vq_num vq)"
      using inv dis dis2 tot(2) by (auto simp: vq_inv_def t_def min_def dest: in_set_dropD)
    then show ?thesis
      using inv path' num old new len' pub(2) by (auto simp: vq_inv_def vq_wf_def)
  qed
  then show ?thesis
    using res pub(3) loop(4) by (intro exI [of _ ?vq']) (simp add: published_def vq_const_def)
qed

section \<open>The indirect path\<close>

lemma indirect_table_loop:
  assumes "t \<le> length sg"
  shows "foldM (\<lambda>n acc. do { e \<leftarrow> rd sg n; Some (acc @ [indirect_entry m out_num n e]) }) [0..<t] []
     = Some (map (\<lambda>n. indirect_entry m out_num n (sg ! n)) [0..<t])"
  using assms by (induction t) (simp_all add: foldM_append rd_in)

lemma exec_held [simp]:
  "holdings (FreeVec p (snd (AllocVecTags ex))) =
     (remove1 p (if fst (AllocVecTags ex) = 0 then ex_live ex else fst (AllocVecTags ex) # ex_live ex),
      ex_dma ex, ex_objs ex, ex_signals ex)"
  by (simp add: holdings_def exec_defs Let_def)

text \<open>
  A failed attempt gives back everything it took from the kernel and leaves the queue
  as it was; a successful one occupies exactly one descriptor.
\<close>

lemma addbuf_indirect_cases:
  assumes inv: "vq_inv vq fs cs" and ne: "fs \<noteq> []" and sg: "unat tot \<le> length sg"
  shows "\<exists>ok ex' vq'. addbuf_indirect ex vq sg out_num tot cookie = Some (ok, ex', vq')
     \<and> (\<not> ok \<longrightarrow> vq' = vq \<and> holdings ex' = holdings ex)
     \<and> (ok \<longrightarrow> vq_inv vq' (tl fs) ([hd fs] # cs) \<and> published vq (hd fs) vq'
          \<and> vq_const vq' = vq_const vq \<and> vq_last_used_idx vq' = vq_last_used_idx vq
          \<and> vq_used_ring vq' = vq_used_ring vq \<and> vq_used_idx vq' = vq_used_idx vq
          \<and> vq_cookies vq' = (vq_cookies vq)[unat (hd fs) := cookie]
          \<and> (\<exists>itbl. itbl \<noteq> 0 \<and> holdings ex' = (itbl # ex_live ex, itbl # ex_dma ex, ex_objs ex, ex_signals ex)
              \<and> vq_indirect_tables vq' = (vq_indirect_tables vq)[unat (hd fs) := itbl]
              \<and> vr64 (vq_modern vq) (d_addr (vq_desc vq' ! unat (hd fs))) = ucast (ex_phys ex itbl)
              \<and> vr32 (vq_modern vq) (d_len (vq_desc vq' ! unat (hd fs))) = 16 * tot
              \<and> vr16 (vq_modern vq) (d_flags (vq_desc vq' ! unat (hd fs))) = VRING_DESC_F_INDIRECT
              \<and> vq_itbl_mem vq' itbl = map (\<lambda>n. indirect_entry (vq_modern vq) out_num n (sg ! n)) [0..<unat tot]))"
proof -
  obtain f fs' where fs: "fs = f # fs'" using ne by (cases fs) auto
  have wf: "vq_wf vq" using inv by (simp add: vq_inv_def)
  have fh: "vq_free_head vq = f" "unat f < unat (vq_num vq)"
    using free_head_bound [OF inv ne] fs by auto
  have lens: "length (vq_cookies vq) = unat (vq_num vq)"
      "length (vq_indirect_tables vq) = unat (vq_num vq)" "length (vq_desc vq) = unat (vq_num vq)"
    using wf by (auto simp: vq_wf_def)
  obtain itbl ex1 where a: "AllocVecTags ex = (itbl, ex1)" by force
  obtain n ex2 where s: "StartDMA itbl ex1 = (n, ex2)" by force
  obtain ob ex3 where b: "AllocSysObject ex2 = (ob, ex3)" by force
  note eqs = a s b
  show ?thesis
  proof (cases "itbl = 0 \<or> n = 0 \<or> ob = 0")
    case True
    then show ?thesis using eqs indirect_table_loop [OF sg]
      by (auto simp: addbuf_indirect_def Let_def holdings_def exec_defs)
  next
    case False
    let ?d = "\<lparr>d_addr = vr64 (vq_modern vq) (ucast (ex_phys ex itbl)),
       d_len = vr32 (vq_modern vq) (16 * tot), d_flags = vr16 (vq_modern vq) 4, d_next = 0\<rparr>"
    let ?tbl = "map (\<lambda>n. indirect_entry (vq_modern vq) out_num n (sg ! n)) [0..<unat tot]"
    let ?vq = "vq\<lparr>vq_desc := (vq_desc vq)[unat f := ?d], vq_free_head := d_next (vq_desc vq ! unat f),
       vq_num_free := vq_num_free vq - 1, vq_cookies := (vq_cookies vq)[unat f := cookie],
       vq_indirect_tables := (vq_indirect_tables vq)[unat f := itbl],
       vq_itbl_mem := (vq_itbl_mem vq)(itbl := ?tbl)\<rparr>"
    obtain r j where pub: "vq_publish ?vq f = Some (?vq\<lparr>vq_avail_ring := r, vq_avail_idx := j\<rparr>)"
        "length r = length (vq_avail_ring vq)"
        "published ?vq f (?vq\<lparr>vq_avail_ring := r, vq_avail_idx := j\<rparr>)"
      using vq_publish_ok [of ?vq f] wf by (auto simp: vq_wf_def)
    let ?vq' = "?vq\<lparr>vq_avail_ring := r, vq_avail_idx := j\<rparr>"
    have ph: "ex_phys ex3 itbl = ex_phys ex itbl"
      using eqs by (auto simp: exec_defs Let_def)
    have res: "addbuf_indirect ex vq sg out_num tot cookie = Some (True, FreeSysObject ob ex3, ?vq')"
      using False eqs indirect_table_loop [OF sg] fh lens pub(1) ph
      by (simp add: addbuf_indirect_def Let_def rd_in wr_in)
    have hold: "holdings (FreeSysObject ob ex3) = (itbl # ex_live ex, itbl # ex_dma ex, ex_objs ex, ex_signals ex)"
      using False eqs by (auto simp: holdings_def exec_defs Let_def)
    obtain e where path: "free_path (vq_desc vq) (d_next (vq_desc vq ! unat f)) fs' e"
      using inv fs by (auto simp: vq_inv_def)
    have f_notin: "f \<notin> set fs'" "\<And>ch. ch \<in> set cs \<Longrightarrow> f \<notin> set ch"
      using inv fs by (auto simp: vq_inv_def)
    have path': "free_path ((vq_desc vq)[unat f := ?d]) (d_next (vq_desc vq ! unat f)) fs' e"
      using path free_path_cong [OF same_on_update [OF f_notin(1)]] by blast
    have num: "unat (vq_num_free vq - 1) = length fs'"
    proof -
      have "unat (vq_num_free vq) = Suc (length fs')" using inv fs by (simp add: vq_inv_def)
      then show ?thesis by (metis Zero_neq_Suc diff_Suc_1 unat_0 unat_minus_one)
    qed
    have old: "inflight_ok ?vq' ch" if "ch \<in> set cs" for ch
    proof (rule inflight_ok_same)
      show ok: "inflight_ok vq ch" using inv that by (simp add: vq_inv_def)
      show "same_on ch (vq_desc vq) (vq_desc ?vq')"
        using same_on_update [OF f_notin(2) [OF that]] by simp
      have "hd ch \<in> set ch" using ok by (simp add: inflight_ok_def)
      then have "hd ch \<noteq> f" using f_notin(2) [OF that] by auto
      then show "vq_indirect_tables ?vq' ! unat (hd ch) = vq_indirect_tables vq ! unat (hd ch)"
        by simp
    qed simp
    have "inflight_ok ?vq' [f]"
      using False lens fh by (simp add: inflight_ok_def)
    then have "vq_inv ?vq' fs' ([f] # cs)"
      using inv fs path' num old pub(2) f_notin by (auto simp: vq_inv_def vq_wf_def)
    then show ?thesis using res hold fs pub(3) fh lens False
      by (intro exI [of _ True] exI [of _ "FreeSysObject ob ex3"] exI [of _ ?vq'])
        (auto simp: published_def vq_const_def)
  qed
qed

section \<open>GetBuf\<close>

lemma getbuf_idle:
  "vq_last_used_idx vq = vr16 (vq_modern vq) (vq_used_idx vq) \<Longrightarrow>
     VirtQueue_GetBuf ex vq = Some (0, None, ex, vq)"
  by (simp add: VirtQueue_GetBuf_def)

text \<open>The next used element, as the driver decodes it.\<close>

definition used_elem :: "virtqueue \<Rightarrow> u32 \<times> u32" where
  "used_elem vq = (let e = vq_used_ring vq ! (unat (vq_last_used_idx vq) mod unat (vq_num vq)) in
     (vr32 (vq_modern vq) (u_id e), vr32 (vq_modern vq) (u_len e)))"

definition used_pending :: "virtqueue \<Rightarrow> bool" where
  "used_pending vq \<longleftrightarrow> vq_last_used_idx vq \<noteq> vr16 (vq_modern vq) (vq_used_idx vq)"

lemma used_slot_read:
  assumes "vq_wf vq"
  shows "rd (vq_used_ring vq) (unat (vq_last_used_idx vq) mod unat (vq_num vq)) =
     Some (vq_used_ring vq ! (unat (vq_last_used_idx vq) mod unat (vq_num vq)))"
proof -
  have "unat (vq_last_used_idx vq) mod unat (vq_num vq) < length (vq_used_ring vq)"
    using assms by (simp add: vq_wf_def)
  then show ?thesis by (rule rd_in)
qed

lemma getbuf_bogus:
  assumes "vq_wf vq" "used_pending vq" "vq_num vq \<le> fst (used_elem vq)"
  shows "VirtQueue_GetBuf ex vq =
     Some (0, None, ex, vq\<lparr>vq_last_used_idx := vq_last_used_idx vq + 1\<rparr>)"
proof -
  have "vq_num vq \<noteq> 0" using assms(1) by (auto simp: vq_wf_def)
  then show ?thesis using assms
    by (simp add: VirtQueue_GetBuf_def used_pending_def used_elem_def used_slot_read Let_def)
qed

lemma vq_inv_take_chain:
  assumes inv: "vq_inv vq fs cs" and c: "c \<in> set cs"
    and path: "free_path desc' h (rev c @ fs) e" and n: "unat n = length fs + length c"
    and frame: "\<forall>is. set is \<inter> set c = {} \<longrightarrow> same_on is (vq_desc vq) desc'"
    and tb: "tb = (vq_indirect_tables vq)[unat (hd c) := 0]"
    and len: "length ck = length (vq_cookies vq)" "length rg = length (vq_avail_ring vq)"
  shows "vq_inv (vq\<lparr>vq_desc := desc', vq_free_head := h, vq_num_free := n, vq_cookies := ck,
      vq_indirect_tables := tb, vq_last_used_idx := l, vq_avail_ring := rg\<rparr>) (rev c @ fs) (remove1 c cs)"
    (is "vq_inv ?vq _ _")
proof -
  obtain xs ys where cs: "cs = xs @ c # ys" "remove1 c cs = xs @ ys"
    using c by (metis remove1_append split_list_first remove1.simps(2))
  have dist: "distinct (rev c @ fs @ concat (xs @ ys))"
    using inv cs(1) by (auto simp: vq_inv_def)
  have old: "inflight_ok ?vq ch" if "ch \<in> set (xs @ ys)" for ch
  proof (rule inflight_ok_same)
    have dis: "set ch \<inter> set c = {}" using inv cs(1) that by (auto simp: vq_inv_def)
    show ok: "inflight_ok vq ch" using inv cs(1) that by (auto simp: vq_inv_def)
    show "same_on ch (vq_desc vq) (vq_desc ?vq)" using frame dis by simp
    have "hd ch \<in> set ch" using ok by (simp add: inflight_ok_def)
    moreover have "hd c \<in> set c" using inv c by (auto simp: vq_inv_def inflight_ok_def)
    ultimately have "hd ch \<noteq> hd c" using dis by auto
    then show "vq_indirect_tables ?vq ! unat (hd ch) = vq_indirect_tables vq ! unat (hd ch)"
      by (simp add: tb)
  qed simp
  have len': "length desc' = length (vq_desc vq)"
    using frame [rule_format, of "[]"] by (simp add: same_on_def)
  show ?thesis unfolding cs(2)
    using inv path n dist old len len' cs(1) by (auto simp: vq_inv_def vq_wf_def tb)
qed

text \<open>
  GetBuf on the head of a chain the device holds: the cookie stored with the chain comes back,
  its descriptors go to the front of the free list, last one first, and the indirect table,
  if any, is unmapped and freed.
\<close>

lemma getbuf_ok:
  assumes inv: "vq_inv vq fs cs" and c: "c \<in> set cs" and pend: "used_pending vq"
    and id: "fst (used_elem vq) = ucast (hd c)"
  shows "\<exists>ex' vq'. VirtQueue_GetBuf ex vq =
       Some (vq_cookies vq ! unat (hd c), Some (snd (used_elem vq)), ex', vq')
     \<and> vq_inv vq' (rev c @ fs) (remove1 c cs)
     \<and> vq_last_used_idx vq' = vq_last_used_idx vq + 1
     \<and> vq_cookies vq' = (vq_cookies vq)[unat (hd c) := 0]
     \<and> vq_const vq' = vq_const vq \<and> vq_avail_idx vq' = vq_avail_idx vq
     \<and> vq_used_ring vq' = vq_used_ring vq \<and> vq_used_idx vq' = vq_used_idx vq
     \<and> take (unat (vq_num vq)) (vq_avail_ring vq') = take (unat (vq_num vq)) (vq_avail_ring vq)
     \<and> ex' = (let t = vq_indirect_tables vq ! unat (hd c) in
               if t = 0 then ex else FreeVec t (EndDMA t ex))"
proof -
  have wf: "vq_wf vq" and okc: "inflight_ok vq c"
    using inv c by (auto simp: vq_inv_def)
  have hdc: "unat (hd c) < unat (vq_num vq)" "c \<noteq> []"
    using okc wf by (auto simp: inflight_ok_def vq_wf_def)
  have lens: "length (vq_cookies vq) = unat (vq_num vq)" "length (vq_desc vq) = unat (vq_num vq)"
    "length (vq_indirect_tables vq) = unat (vq_num vq)" "vq_num vq \<noteq> 0"
    "length (vq_avail_ring vq) = unat (vq_num vq) + 1"
    using wf by (auto simp: vq_wf_def)
  have small: "\<not> vq_num vq \<le> ucast (hd c)" using hdc(1) by (simp add: word_le_nat_alt)
  have down: "ucast (ucast (hd c) :: u32) = hd c" by simp
  obtain e where path: "free_path (vq_desc vq) (vq_free_head vq) fs e"
    using inv by (auto simp: vq_inv_def)
  have numf: "unat (vq_num_free vq) = length fs" "length fs + length c \<le> 32768"
    using inv c by (auto simp: vq_inv_def vq_wf_def dest!: split_list)
  have dis: "set fs \<inter> set c = {}" "distinct c"
    using inv c by (auto simp: vq_inv_def dest!: split_list)
  let ?m = "vq_modern vq"
  let ?tb = "vq_indirect_tables vq ! unat (hd c)"
  let ?vq1 = "vq\<lparr>vq_cookies := (vq_cookies vq)[unat (hd c) := 0],
      vq_indirect_tables := (vq_indirect_tables vq)[unat (hd c) := 0]\<rparr>"
  define ex' where "ex' = (if ?tb = 0 then ex else FreeVec ?tb (EndDMA ?tb ex))"
  have "\<exists>desc' h n. getbuf_release ex ?vq1 (hd c) ?tb =
      Some (ex', ?vq1\<lparr>vq_desc := desc', vq_free_head := h, vq_num_free := n\<rparr>)
    \<and> free_path desc' h (rev c @ fs) e \<and> unat n = length fs + length c
    \<and> (\<forall>is. set is \<inter> set c = {} \<longrightarrow> same_on is (vq_desc vq) desc')"
  proof (cases "?tb = 0")
    case True
    then have ok: "chain_ok ?m (vq_desc vq) c" using okc by (simp add: inflight_ok_def)
    obtain desc' where r: "release_chain ?m (vq_desc vq) (vq_free_head vq) (hd c) 0
         = Some (desc', last c, 0 + of_nat (length c))"
      "free_path desc' (last c) (rev c) (vq_free_head vq)"
      "\<forall>is. set is \<inter> set c = {} \<longrightarrow> same_on is (vq_desc vq) desc'"
      using release_chain_ok [OF ok dis(2) hdc(2)] by blast
    have "free_path desc' (vq_free_head vq) fs e"
      using path free_path_cong r(3) dis(1) by blast
    then have p: "free_path desc' (last c) (rev c @ fs) e" using r(2) by (auto simp: free_path_append)
    have "unat (vq_num_free vq + of_nat (length c)) = length fs + length c"
      using numf by (simp add: unat_word_ariths unat_of_nat)
    then show ?thesis using True r p
      by (intro exI [of _ desc'] exI [of _ "last c"]
          exI [of _ "vq_num_free vq + of_nat (length c)"]) (simp add: getbuf_release_def ex'_def)
  next
    case False
    then have c1: "c = [hd c]" using okc by (simp add: inflight_ok_def)
    let ?desc = "(vq_desc vq)[unat (hd c) := zero_desc\<lparr>d_next := vq_free_head vq\<rparr>]"
    have hd_notin: "hd c \<notin> set fs" using dis(1) hdc(2) hd_in_set by blast
    then have "free_path ?desc (vq_free_head vq) fs e"
      using path free_path_cong [OF same_on_update] by blast
    then have p: "free_path ?desc (hd c) (rev c @ fs) e"
      using hdc lens by (subst c1) simp
    have n: "unat (vq_num_free vq + 1) = length fs + length c"
      using numf arg_cong [OF c1, of length] by (simp add: unat_word_ariths)
    have fr: "\<forall>is. set is \<inter> set c = {} \<longrightarrow> same_on is (vq_desc vq) ?desc"
      using hdc(2) hd_in_set by blast
    show ?thesis using False p n fr hdc lens
      by (intro exI [of _ ?desc] exI [of _ "hd c"] exI [of _ "vq_num_free vq + 1"])
        (simp add: getbuf_release_def ex'_def rd_in wr_in)
  qed
  then obtain desc' h n where rel: "getbuf_release ex ?vq1 (hd c) ?tb =
      Some (ex', ?vq1\<lparr>vq_desc := desc', vq_free_head := h, vq_num_free := n\<rparr>)"
    "free_path desc' h (rev c @ fs) e" "unat n = length fs + length c"
    "\<forall>is. set is \<inter> set c = {} \<longrightarrow> same_on is (vq_desc vq) desc'" by blast
  let ?l = "vq_last_used_idx vq + 1"
  let ?rg = "if vq_use_event_idx vq then (vq_avail_ring vq)[unat (vq_num vq) := vr16 ?m ?l]
             else vq_avail_ring vq"
  let ?vq' = "vq\<lparr>vq_desc := desc', vq_free_head := h, vq_num_free := n,
      vq_cookies := (vq_cookies vq)[unat (hd c) := 0],
      vq_indirect_tables := (vq_indirect_tables vq)[unat (hd c) := 0],
      vq_last_used_idx := ?l, vq_avail_ring := ?rg\<rparr>"
  have "VirtQueue_GetBuf ex vq = Some (vq_cookies vq ! unat (hd c), Some (snd (used_elem vq)), ex', ?vq')"
    using pend id small hdc lens rel(1) down
    by (simp add: VirtQueue_GetBuf_def used_pending_def used_elem_def used_slot_read [OF wf] Let_def
        rd_in wr_in)
  moreover have "vq_inv ?vq' (rev c @ fs) (remove1 c cs)"
    by (rule vq_inv_take_chain [OF inv c rel(2) _ rel(4)]) (use rel(3) in simp_all)
  ultimately show ?thesis
    by (intro exI [of _ ex'] exI [of _ ?vq']) (simp add: vq_const_def ex'_def Let_def)
qed

section \<open>Allocation\<close>

lemma vring_layout_values:
  assumes "unat q \<le> 32768"
  shows "unat (fst (vring_layout q)) = 16 * unat q"
    and "unat (fst (snd (vring_layout q))) = (18 * unat q + 6 + 4095) div 4096 * 4096"
    and "unat (snd (snd (vring_layout q))) = (18 * unat q + 6 + 4095) div 4096 * 4096 + 6 + 8 * unat q"
proof -
  have a: "unat (16 * q) = 16 * unat q" "unat (2 * (3 + q)) = 6 + 2 * unat q"
      "unat (2 * 3 + 8 * q) = 6 + 8 * unat q"
    using assms by (simp_all add: unat_word_ariths)
  show "unat (fst (vring_layout q)) = 16 * unat q" using a by (simp add: vring_layout_def Let_def)
  have e: "unat (16 * q + 2 * (3 + q) + 4096 - 1) = 18 * unat q + 6 + 4095"
  proof -
    have "16 * q + 2 * (3 + q) + 4096 - 1 = 18 * q + (6 + 4095)" by simp
    moreover have "unat (18 * q + (6 + 4095)) = 18 * unat q + (6 + 4095)"
      using assms by (simp add: unat_word_ariths)
    ultimately show ?thesis by (simp add: ac_simps)
  qed
  show u: "unat (fst (snd (vring_layout q))) = (18 * unat q + 6 + 4095) div 4096 * 4096"
    using unat_align4096 [of "16 * q + 2 * (3 + q) + 4096 - 1"] unfolding e
    by (simp add: vring_layout_def Let_def)
  have "snd (snd (vring_layout q)) = fst (snd (vring_layout q)) + (2 * 3 + 8 * q)"
    by (simp add: vring_layout_def Let_def)
  then show "unat (snd (snd (vring_layout q))) =
      (18 * unat q + 6 + 4095) div 4096 * 4096 + 6 + 8 * unat q"
    using assms a(3) u by (simp add: unat_word_ariths)
qed

lemma init_free_chain_ok:
  assumes "0 < unat q"
  shows "init_free_chain q (replicate (unat q) zero_desc) =
     Some (map (\<lambda>j. zero_desc\<lparr>d_next := if Suc j < unat q then of_nat (Suc j) else 0\<rparr>) [0..<unat q])"
proof -
  let ?n = "unat q"
  let ?part = "\<lambda>k. map (\<lambda>j. zero_desc\<lparr>d_next := if j < k then of_nat (Suc j) else 0\<rparr>) [0..<?n]"
  have q1: "unat (q - 1) = ?n - 1"
    using assms by (metis measure_unat unat_minus_one unat_0 less_irrefl)
  have rep: "replicate ?n zero_desc = ?part 0"
    by (rule nth_equalityI) simp_all
  have loop: "k \<le> ?n - 1 \<Longrightarrow> foldM (\<lambda>j desc. do { d \<leftarrow> rd desc j; wr desc j (d\<lparr>d_next := of_nat (j + 1)\<rparr>) })
      [0..<k] (?part 0) = Some (?part k)" for k
  proof (induction k)
    case 0
    then show ?case by simp
  next
    case (Suc k)
    have "(?part k)[k := zero_desc\<lparr>d_next := of_nat (Suc k)\<rparr>] = ?part (Suc k)"
      by (rule nth_equalityI) (auto simp: nth_list_update less_Suc_eq)
    then show ?case using Suc by (simp add: foldM_append rd_in wr_in)
  qed
  have "(?part (?n - 1))[?n - 1 := zero_desc\<lparr>d_next := 0\<rparr>] =
      map (\<lambda>j. zero_desc\<lparr>d_next := if Suc j < ?n then of_nat (Suc j) else 0\<rparr>) [0..<?n]"
    by (rule nth_equalityI) (auto simp: nth_list_update)
  then show ?thesis
    using assms loop [of "?n - 1"] by (simp add: init_free_chain_def q1 rep rd_in wr_in)
qed

lemma init_free_path:
  assumes "n \<le> 32768" "k < n"
  defines "desc \<equiv> map (\<lambda>j. zero_desc\<lparr>d_next := if Suc j < n then of_nat (Suc j) else 0\<rparr>) [0..<n]"
  shows "free_path desc (of_nat k) (map of_nat [k..<n]) 0"
  using assms(2)
proof (induction "n - k" arbitrary: k)
  case 0
  then show ?case by simp
next
  case (Suc x)
  have k: "unat (of_nat k :: u16) = k"
    using Suc.prems assms(1) by (simp add: unat_of_nat)
  have up: "[k..<n] = k # [Suc k..<n]" using Suc.prems by (simp add: upt_conv_Cons)
  show ?case
  proof (cases "Suc k < n")
    case True
    then show ?thesis using Suc.hyps(1) [of "Suc k"] Suc.hyps(2) Suc.prems k
      by (simp add: up desc_def)
  next
    case False
    then show ?thesis using Suc.prems k by (simp add: up desc_def)
  qed
qed

lemma distinct_of_nat16: "n \<le> 65536 \<Longrightarrow> distinct (map (of_nat :: nat \<Rightarrow> u16) [0..<n])"
  by (auto simp: distinct_map inj_on_def word_of_nat_eq_iff take_bit_nat_eq_self)

end
