(* ===== verification/Queue_Interface.thy ===== *)
theory Queue_Interface
  imports Virtqueue_Correct "HOL-Library.Multiset"
begin

text \<open>
  The contract between the virtqueue and its clients (the control-queue transactions, the cursor
  queue and the 3D submissions), stated as a locale over an abstract queue, and its interpretation
  on the model of the code.  The abstract state of a queue is the list of free descriptors,
  the chains the device holds, and the heads the device has reported used but the driver has
  not yet collected.
\<close>

section \<open>The interface\<close>

locale async_queue =
  fixes inv :: "'q \<Rightarrow> 'd list \<Rightarrow> 'd list list \<Rightarrow> 'd list \<Rightarrow> bool"
    and slots :: "'q \<Rightarrow> nat"
    and valid :: "'r \<Rightarrow> bool"
    and post :: "'q \<Rightarrow> 'r \<Rightarrow> 'q"
    and complete :: "'q \<Rightarrow> 'd \<Rightarrow> 'q"
    and collect :: "'q \<Rightarrow> 'q"
  assumes inv_parts: "inv q fs cs us \<Longrightarrow> distinct (fs @ concat cs) \<and> length (fs @ concat cs) = slots q
      \<and> [] \<notin> set cs \<and> set us \<subseteq> hd ` set cs \<and> distinct us"
    and post_inv: "inv q fs cs us \<Longrightarrow> valid r \<Longrightarrow>
      \<exists>k\<le>length fs. inv (post q r) (drop k fs) (if k = 0 then cs else take k fs # cs) us
        \<and> slots (post q r) = slots q"
    and complete_inv: "inv q fs cs us \<Longrightarrow> c \<in> set cs \<Longrightarrow> hd c \<notin> set us \<Longrightarrow>
      inv (complete q (hd c)) fs cs (us @ [hd c]) \<and> slots (complete q (hd c)) = slots q"
    and collect_inv: "inv q fs cs (hd c # us) \<Longrightarrow> c \<in> set cs \<Longrightarrow>
      inv (collect q) (rev c @ fs) (remove1 c cs) us \<and> slots (collect q) = slots q"
    and collect_idle: "inv q fs cs [] \<Longrightarrow> collect q = q"
begin

lemma collect_some:
  assumes "inv q fs cs (u # us)"
  shows "\<exists>c\<in>set cs. hd c = u \<and> inv (collect q) (rev c @ fs) (remove1 c cs) us"
  using assms inv_parts [OF assms] collect_inv by fastforce

text \<open>Any number of polls keeps the queue well formed and loses no descriptor.\<close>

lemma poll_inv:
  assumes "inv q fs cs us"
  shows "\<exists>fs' cs'. inv ((collect ^^ n) q) fs' cs' (drop n us) \<and> slots ((collect ^^ n) q) = slots q
    \<and> mset fs \<subseteq># mset fs' \<and> mset cs' \<subseteq># mset cs \<and> length cs' = length cs - min n (length us)"
  using assms
proof (induction n arbitrary: q fs cs us)
  case 0
  then show ?case by auto
next
  case (Suc n)
  show ?case
  proof (cases us)
    case Nil
    then have "collect q = q" using Suc.prems collect_idle by simp
    then have "(collect ^^ Suc n) q = (collect ^^ n) q" by (simp only: funpow_Suc_right o_apply)
    with Suc.IH [OF Suc.prems] Nil show ?thesis by simp
  next
    case (Cons u us')
    then obtain c where c: "c \<in> set cs" "hd c = u"
      using collect_some Suc.prems by blast
    have one: "inv (collect q) (rev c @ fs) (remove1 c cs) us'" "slots (collect q) = slots q"
      using collect_inv [of q fs cs c us'] c Suc.prems Cons by auto
    obtain fs' cs' where rest: "inv ((collect ^^ n) (collect q)) fs' cs' (drop n us')"
      "slots ((collect ^^ n) (collect q)) = slots (collect q)"
      "mset (rev c @ fs) \<subseteq># mset fs'" "mset cs' \<subseteq># mset (remove1 c cs)"
      "length cs' = length (remove1 c cs) - min n (length us')"
      using Suc.IH [OF one(1)] by blast
    have "mset fs \<subseteq># mset fs'"
      using rest(3) by (auto intro: subset_mset.order_trans [of _ "mset c + mset fs"])
    moreover have "mset cs' \<subseteq># mset cs"
      using rest(4) by (auto intro: subset_mset.order_trans [of _ "mset cs - {#c#}"])
    moreover have "length cs' = length cs - min (Suc n) (length us)"
      using rest(5) c(1) Cons by (simp add: length_remove1)
    ultimately show ?thesis
      using rest(1,2) one(2) Cons by (auto simp: funpow_Suc_right simp del: funpow.simps)
  qed
qed

text \<open>A synchronous transaction gives back exactly the descriptors it took.\<close>

lemma transaction:
  assumes "inv q fs cs []" "valid r" "inv (post q r) fs' (c # cs) []" "fs = c @ fs'"
  shows "inv (collect (complete (post q r) (hd c))) (rev c @ fs') cs []
     \<and> mset (rev c @ fs') = mset fs"
proof -
  have "inv (complete (post q r) (hd c)) fs' (c # cs) [hd c]"
    using complete_inv [OF assms(3), of c] by simp
  then show ?thesis using collect_inv [of _ fs' "c # cs" c "[]"] assms(4) by simp
qed

end

section \<open>The device side of the used ring\<close>

text \<open>
  What a conforming device does (VirtIO 1.2, 2.7.8): it writes the head and the length at the
  slot of its index and advances the index.
\<close>

definition device_used :: "virtqueue \<Rightarrow> u16 \<Rightarrow> u32 \<Rightarrow> virtqueue" where
  "device_used vq head len =
     (let m = vq_modern vq; i = vr16 m (vq_used_idx vq) in
      vq\<lparr>vq_used_ring := (vq_used_ring vq)[unat i mod unat (vq_num vq) :=
            \<lparr>u_id = vr32 m (ucast head), u_len = vr32 m len\<rparr>],
         vq_used_idx := vr16 m (i + 1)\<rparr>)"

definition used_list :: "virtqueue \<Rightarrow> u16 list \<Rightarrow> bool" where
  "used_list vq us \<longleftrightarrow> unat (vq_num vq) dvd 65536 \<and> length us \<le> unat (vq_num vq) \<and>
     vr16 (vq_modern vq) (vq_used_idx vq) = vq_last_used_idx vq + of_nat (length us) \<and>
     (\<forall>i<length us. vr32 (vq_modern vq) (u_id (vq_used_ring vq !
        ((unat (vq_last_used_idx vq) + i) mod unat (vq_num vq)))) = ucast (us ! i))"

definition queue_inv :: "exec \<times> virtqueue \<Rightarrow> u16 list \<Rightarrow> u16 list list \<Rightarrow> u16 list \<Rightarrow> bool" where
  "queue_inv q fs cs us \<longleftrightarrow> vq_inv (snd q) fs cs \<and> used_list (snd q) us
     \<and> set us \<subseteq> hd ` set cs \<and> distinct us"

lemma ring_slot: "n dvd 65536 \<Longrightarrow> unat (a + of_nat i :: u16) mod n = (unat a + i) mod n"
  by (simp add: unat_word_ariths unat_of_nat mod_mod_cancel mod_add_right_eq)

lemma ring_slot_neq:
  assumes "i < j" "j < n"
  shows "(a + i) mod n \<noteq> (a + j) mod (n :: nat)"
proof
  assume "(a + i) mod n = (a + j) mod n"
  then have "n dvd (a + j) - (a + i)" using assms by (metis add_le_cancel_left less_imp_le mod_eq_dvd_iff_nat)
  then have "n dvd j - i" by simp
  moreover have "0 < j - i" "j - i < n" using assms by auto
  ultimately show False using nat_dvd_not_less by blast
qed

lemma used_list_complete:
  assumes ul: "used_list vq us" and len: "length us < unat (vq_num vq)" and wf: "vq_wf vq"
  shows "used_list (device_used vq h l) (us @ [h])"
proof -
  let ?n = "unat (vq_num vq)" and ?a = "unat (vq_last_used_idx vq)" and ?m = "vq_modern vq"
  have dvd: "?n dvd 65536" and idx: "vr16 ?m (vq_used_idx vq) = vq_last_used_idx vq + of_nat (length us)"
    using ul by (auto simp: used_list_def)
  note slot = ring_slot [OF dvd]
  have ring: "length (vq_used_ring vq) = ?n" "0 < ?n" using wf by (auto simp: vq_wf_def)
  have "vr32 ?m (u_id (vq_used_ring (device_used vq h l) ! ((?a + i) mod ?n))) = ucast ((us @ [h]) ! i)"
    if "i < length (us @ [h])" for i
  proof (cases "i = length us")
    case True
    then show ?thesis using ring idx slot by (simp add: device_used_def Let_def)
  next
    case False
    then have i: "i < length us" using that by simp
    then have "(?a + i) mod ?n \<noteq> (?a + length us) mod ?n" using ring_slot_neq len by simp
    then show ?thesis using ul i idx slot
      by (simp add: device_used_def Let_def used_list_def nth_append)
  qed
  then show ?thesis using ul len idx slot
    by (simp add: used_list_def device_used_def Let_def ac_simps)
qed

lemma used_list_same:
  assumes "used_list vq us" "vq_const vq' = vq_const vq" "vq_last_used_idx vq' = vq_last_used_idx vq"
    "vq_used_ring vq' = vq_used_ring vq" "vq_used_idx vq' = vq_used_idx vq"
  shows "used_list vq' us"
  using assms by (simp add: used_list_def vq_const_def)

lemma used_list_collect:
  assumes "used_list vq (u # us)" "vq_const vq' = vq_const vq"
    "vq_last_used_idx vq' = vq_last_used_idx vq + 1"
    "vq_used_ring vq' = vq_used_ring vq" "vq_used_idx vq' = vq_used_idx vq"
  shows "used_list vq' us"
proof -
  have "vr32 (vq_modern vq) (u_id (vq_used_ring vq !
      ((unat (vq_last_used_idx vq + 1) + i) mod unat (vq_num vq)))) = ucast (us ! i)"
    if "i < length us" for i
  proof -
    have "unat (vq_last_used_idx vq + 1) mod unat (vq_num vq) = (unat (vq_last_used_idx vq) + 1) mod unat (vq_num vq)"
      using assms(1) ring_slot [of "unat (vq_num vq)" "vq_last_used_idx vq" 1] by (simp add: used_list_def)
    then have "(unat (vq_last_used_idx vq + 1) + i) mod unat (vq_num vq) =
        (unat (vq_last_used_idx vq) + 1 + i) mod unat (vq_num vq)"
      by (rule mod_add_cong) simp
    then show ?thesis using assms(1) that by (auto simp: used_list_def dest: spec [of _ "Suc i"])
  qed
  then show ?thesis using assms by (simp add: used_list_def vq_const_def ac_simps)
qed

lemma used_list_pending:
  assumes "used_list vq (u # us)" "vq_wf vq"
  shows "used_pending vq \<and> fst (used_elem vq) = ucast u"
proof -
  have len: "Suc (length us) \<le> 32768" using assms by (auto simp: used_list_def vq_wf_def)
  have "unat (of_nat (Suc (length us)) :: u16) = Suc (length us)"
    using len by (subst unat_of_nat) simp
  then have "(of_nat (Suc (length us)) :: u16) \<noteq> 0" by (metis Zero_not_Suc unat_0)
  then show ?thesis using assms
    by (auto simp: used_list_def used_pending_def used_elem_def Let_def)
qed

section \<open>The model of the code as a provider\<close>

text \<open>
  A request is what a client passes to AddBuf.  \<open>queue_post\<close>, \<open>queue_collect\<close> forget the return
  codes: a refused or faulting call would leave the pair as it is.
\<close>

type_synonym request = "vring_sg list \<times> u32 \<times> u32 \<times> u32"

definition valid_request :: "request \<Rightarrow> bool" where
  "valid_request r = (case r of (sg, out_num, in_num, cookie) \<Rightarrow>
     0 < unat (out_num + in_num) \<and> unat (out_num + in_num) \<le> length sg)"

definition queue_post :: "exec \<times> virtqueue \<Rightarrow> request \<Rightarrow> exec \<times> virtqueue" where
  "queue_post q r = (case r of (sg, out_num, in_num, cookie) \<Rightarrow>
     (case VirtQueue_AddBuf (fst q) (snd q) sg out_num in_num cookie of
        None \<Rightarrow> q | Some (rc, ex, vq) \<Rightarrow> (ex, vq)))"

definition queue_complete :: "u32 \<Rightarrow> exec \<times> virtqueue \<Rightarrow> u16 \<Rightarrow> exec \<times> virtqueue" where
  "queue_complete len q h = (fst q, device_used (snd q) h len)"

definition queue_collect :: "exec \<times> virtqueue \<Rightarrow> exec \<times> virtqueue" where
  "queue_collect q = (case VirtQueue_GetBuf (fst q) (snd q) of
     None \<Rightarrow> q | Some (cookie, written, ex, vq) \<Rightarrow> (ex, vq))"

definition queue_slots :: "exec \<times> virtqueue \<Rightarrow> nat" where
  "queue_slots q = unat (vq_num (snd q))"

text \<open>Everything AddBuf can do on a well-formed queue.\<close>

lemma addbuf_cases:
  assumes inv: "vq_inv vq fs cs" and v: "valid_request (sg, out_num, in_num, cookie)"
  shows "\<exists>rc ex' vq'. VirtQueue_AddBuf ex vq sg out_num in_num cookie = Some (rc, ex', vq') \<and>
     (rc = -1 \<and> vq' = vq \<and> holdings ex' = holdings ex \<and> length fs < unat (out_num + in_num)
      \<or> rc = 0 \<and> (\<exists>k. (k = unat (out_num + in_num) \<or> k = 1 \<and> vq_use_indirect vq) \<and> 0 < k \<and> k \<le> length fs \<and>
           vq_inv vq' (drop k fs) (take k fs # cs)) \<and> published vq (hd fs) vq'
         \<and> vq_cookies vq' = (vq_cookies vq)[unat (hd fs) := cookie]
         \<and> vq_const vq' = vq_const vq \<and> vq_last_used_idx vq' = vq_last_used_idx vq
         \<and> vq_used_ring vq' = vq_used_ring vq \<and> vq_used_idx vq' = vq_used_idx vq)"
proof -
  let ?tot = "out_num + in_num"
  have tot: "0 < unat ?tot" "unat ?tot \<le> length sg" using v by (auto simp: valid_request_def)
  have nf: "unat (vq_num_free vq) = length fs" using inv by (simp add: vq_inv_def)
  have room: "ucast (vq_num_free vq) < ?tot \<longleftrightarrow> length fs < unat ?tot"
    by (simp add: word_less_nat_alt nf)
  have none: "vq_num_free vq < 1 \<longleftrightarrow> fs = []"
    by (simp add: word_less_nat_alt nf)
  have direct: ?thesis if call: "\<And>vq'. addbuf_direct vq sg out_num ?tot cookie = Some vq' \<Longrightarrow>
       \<exists>ex'. VirtQueue_AddBuf ex vq sg out_num in_num cookie = Some (0, ex', vq')"
    and le: "unat ?tot \<le> length fs"
  proof -
    obtain vq' where d: "addbuf_direct vq sg out_num ?tot cookie = Some vq'"
      "vq_inv vq' (drop (unat ?tot) fs) (take (unat ?tot) fs # cs)" "published vq (hd fs) vq'"
      "vq_cookies vq' = (vq_cookies vq)[unat (hd fs) := cookie]"
      "vq_const vq' = vq_const vq" "vq_last_used_idx vq' = vq_last_used_idx vq"
      "vq_used_ring vq' = vq_used_ring vq" "vq_used_idx vq' = vq_used_idx vq"
      using addbuf_direct_ok [OF inv tot(1) le tot(2), of out_num cookie] by blast
    obtain ex' where "VirtQueue_AddBuf ex vq sg out_num in_num cookie = Some (0, ex', vq')"
      using call [OF d(1)] by blast
    then show ?thesis using d tot(1) le by blast
  qed
  show ?thesis
  proof (cases "vq_use_indirect vq \<and> 1 < ?tot")
    case False
    then show ?thesis
    proof (cases "length fs < unat ?tot")
      case True
      with False show ?thesis by (auto simp: VirtQueue_AddBuf_def Let_def room)
    next
      case less: False
      show ?thesis by (rule direct) (use False less in \<open>auto simp: VirtQueue_AddBuf_def Let_def room\<close>)
    qed
  next
    case ind: True
    show ?thesis
    proof (cases "fs = []")
      case True
      with ind none tot(1) show ?thesis by (auto simp: VirtQueue_AddBuf_def Let_def)
    next
      case ne: False
      obtain ok ex' vq' where a: "addbuf_indirect ex vq sg out_num ?tot cookie = Some (ok, ex', vq')"
        "\<not> ok \<longrightarrow> vq' = vq \<and> holdings ex' = holdings ex"
        "ok \<longrightarrow> vq_inv vq' (tl fs) ([hd fs] # cs) \<and> published vq (hd fs) vq'
          \<and> vq_const vq' = vq_const vq \<and> vq_last_used_idx vq' = vq_last_used_idx vq
          \<and> vq_used_ring vq' = vq_used_ring vq \<and> vq_used_idx vq' = vq_used_idx vq
          \<and> vq_cookies vq' = (vq_cookies vq)[unat (hd fs) := cookie]"
        using addbuf_indirect_cases [OF inv ne tot(2), of ex out_num cookie] by blast
      show ?thesis
      proof (cases ok)
        case True
        have "take 1 fs = [hd fs]" "drop 1 fs = tl fs" "1 \<le> length fs"
          using ne by (auto simp: take_Suc drop_Suc Suc_le_eq)
        then have "\<exists>k. (k = unat ?tot \<or> k = 1 \<and> vq_use_indirect vq) \<and> 0 < k \<and> k \<le> length fs \<and>
           vq_inv vq' (drop k fs) (take k fs # cs)" using a(3) True ind by (intro exI [of _ 1]) simp
        then show ?thesis using a ind True ne none by (auto simp: VirtQueue_AddBuf_def Let_def)
      next
        case no: False
        show ?thesis
        proof (cases "length fs < unat ?tot")
          case True
          with no ind a ne none show ?thesis by (auto simp: VirtQueue_AddBuf_def Let_def room)
        next
          case less: False
          show ?thesis
            by (rule direct) (use no ind a ne none less in \<open>auto simp: VirtQueue_AddBuf_def Let_def room\<close>)
        qed
      qed
    qed
  qed
qed

lemma queue_inv_parts:
  assumes "queue_inv q fs cs us"
  shows "distinct (fs @ concat cs) \<and> length (fs @ concat cs) = queue_slots q
      \<and> [] \<notin> set cs \<and> set us \<subseteq> hd ` set cs \<and> distinct us"
  using assms by (auto simp: queue_inv_def vq_inv_def queue_slots_def inflight_ok_def)

lemma queue_post_inv:
  assumes inv: "queue_inv q fs cs us" and v: "valid_request r"
  shows "\<exists>k\<le>length fs. queue_inv (queue_post q r) (drop k fs) (if k = 0 then cs else take k fs # cs) us
        \<and> queue_slots (queue_post q r) = queue_slots q"
proof -
  obtain ex vq sg out_num in_num cookie where [simp]: "q = (ex, vq)" "r = (sg, out_num, in_num, cookie)"
    by (cases q; cases r) auto
  have vi: "vq_inv vq fs cs" using inv by (simp add: queue_inv_def)
  obtain rc ex' vq' where a: "VirtQueue_AddBuf ex vq sg out_num in_num cookie = Some (rc, ex', vq')"
    and c: "vq' = vq \<or> (\<exists>k. 0 < k \<and> k \<le> length fs \<and> vq_inv vq' (drop k fs) (take k fs # cs))
         \<and> vq_const vq' = vq_const vq \<and> vq_last_used_idx vq' = vq_last_used_idx vq
         \<and> vq_used_ring vq' = vq_used_ring vq \<and> vq_used_idx vq' = vq_used_idx vq"
    using addbuf_cases [OF vi v [unfolded \<open>r = _\<close>], of ex] by blast
  from c show ?thesis
  proof
    assume "vq' = vq"
    then show ?thesis using inv a
      by (intro exI [of _ 0]) (simp add: queue_post_def queue_inv_def queue_slots_def)
  next
    assume new: "(\<exists>k. 0 < k \<and> k \<le> length fs \<and> vq_inv vq' (drop k fs) (take k fs # cs))
         \<and> vq_const vq' = vq_const vq \<and> vq_last_used_idx vq' = vq_last_used_idx vq
         \<and> vq_used_ring vq' = vq_used_ring vq \<and> vq_used_idx vq' = vq_used_idx vq"
    then have ul: "used_list vq' us" using inv used_list_same [of vq us vq'] by (simp add: queue_inv_def)
    from new obtain k where k: "0 < k" "k \<le> length fs" "vq_inv vq' (drop k fs) (take k fs # cs)" by blast
    show ?thesis using inv a new k ul
      by (intro exI [of _ k]) (auto simp: queue_post_def queue_inv_def queue_slots_def vq_const_def)
  qed
qed

lemma device_used_vq_inv [simp]: "vq_inv (device_used vq h l) fs cs = vq_inv vq fs cs"
  by (simp add: vq_inv_def vq_wf_def inflight_ok_def device_used_def Let_def)

lemma device_used_num [simp]: "vq_num (device_used vq h l) = vq_num vq"
  by (simp add: device_used_def Let_def)

lemma heads_le: "distinct (fs @ concat cs) \<Longrightarrow> [] \<notin> set cs \<Longrightarrow> card (hd ` set cs) \<le> length (concat cs)"
proof -
  assume a: "distinct (fs @ concat cs)" "[] \<notin> set cs"
  have "hd ` set cs \<subseteq> set (concat cs)" using a(2) by (auto intro: hd_in_set)
  then have "card (hd ` set cs) \<le> card (set (concat cs))" by (simp add: card_mono)
  then show ?thesis using card_length le_trans by blast
qed

lemma queue_complete_inv:
  assumes inv: "queue_inv q fs cs us" and c: "c \<in> set cs" and new: "hd c \<notin> set us"
  shows "queue_inv (queue_complete l q (hd c)) fs cs (us @ [hd c])
     \<and> queue_slots (queue_complete l q (hd c)) = queue_slots q"
proof -
  have vi: "vq_inv (snd q) fs cs" and parts: "distinct (fs @ concat cs)" "[] \<notin> set cs"
      "set us \<subseteq> hd ` set cs" "distinct us" "length (fs @ concat cs) = queue_slots q"
    using inv queue_inv_parts [OF inv] by (auto simp: queue_inv_def)
  have "card (set (us @ [hd c])) \<le> card (hd ` set cs)"
    using parts(3) c by (intro card_mono) auto
  also have "\<dots> \<le> unat (vq_num (snd q))"
    using heads_le [OF parts(1,2)] parts(5) by (simp add: queue_slots_def)
  finally have "length us < unat (vq_num (snd q))"
    using parts(4) new by (simp add: distinct_card)
  then have "used_list (device_used (snd q) (hd c) l) (us @ [hd c])"
    using used_list_complete inv vi by (simp add: queue_inv_def vq_inv_def)
  then show ?thesis using vi parts c new
    by (auto simp: queue_inv_def queue_complete_def queue_slots_def)
qed

lemma queue_collect_inv:
  assumes inv: "queue_inv q fs cs (hd c # us)" and c: "c \<in> set cs"
  shows "queue_inv (queue_collect q) (rev c @ fs) (remove1 c cs) us
     \<and> queue_slots (queue_collect q) = queue_slots q"
proof -
  obtain ex vq where q: "q = (ex, vq)" by (cases q) auto
  have vi: "vq_inv vq fs cs" and ul: "used_list vq (hd c # us)" using inv q by (auto simp: queue_inv_def)
  have pend: "used_pending vq" "fst (used_elem vq) = ucast (hd c)"
    using used_list_pending [OF ul] vi by (auto simp: vq_inv_def)
  obtain ex' vq' where g: "VirtQueue_GetBuf ex vq =
       Some (vq_cookies vq ! unat (hd c), Some (snd (used_elem vq)), ex', vq')"
     "vq_inv vq' (rev c @ fs) (remove1 c cs)" "vq_last_used_idx vq' = vq_last_used_idx vq + 1"
     "vq_const vq' = vq_const vq" "vq_used_ring vq' = vq_used_ring vq" "vq_used_idx vq' = vq_used_idx vq"
    using getbuf_ok [OF vi c pend] by blast
  have ul': "used_list vq' us" by (rule used_list_collect [OF ul g(4,3,5,6)])
  have ne: "[] \<notin> set cs" "distinct (concat cs)" using queue_inv_parts [OF inv] by auto
  have "hd c' \<noteq> hd c" if "c' \<in> set cs" "c' \<noteq> c" for c'
  proof
    assume "hd c' = hd c"
    then have "hd c \<in> set c \<inter> set c'" using ne(1) that(1) c by (metis IntI hd_in_set)
    moreover have "set c \<inter> set c' = {}"
      using ne(2) that c by (auto simp: distinct_concat_iff)
    ultimately show False by simp
  qed
  moreover have "hd c \<notin> set us" "set us \<subseteq> hd ` set cs" "distinct us"
    using queue_inv_parts [OF inv] by auto
  ultimately have "set us \<subseteq> hd ` set (remove1 c cs)"
    by (smt (verit) image_iff in_set_remove1 subset_eq)
  then show ?thesis using q g ul' \<open>distinct us\<close>
    by (auto simp: queue_collect_def queue_inv_def queue_slots_def vq_const_def)
qed

lemma queue_collect_idle: "queue_inv q fs cs [] \<Longrightarrow> queue_collect q = q"
  by (cases q) (simp add: queue_inv_def used_list_def queue_collect_def getbuf_idle)

interpretation vqueue: async_queue queue_inv queue_slots valid_request queue_post
  "queue_complete len" queue_collect for len
  by (unfold_locales; (rule queue_inv_parts | rule queue_post_inv | rule queue_complete_inv |
      rule queue_collect_inv | rule queue_collect_idle); assumption)

end
