(* ===== verification/Register_Access.thy ===== *)
theory Register_Access
  imports Prelude
begin

text \<open>
  Device register access (\<open>include/virtio/virtio_pci_modern.h\<close> and the \<open>mmio_\<close>, \<open>vio_\<close>, \<open>devcfg_\<close>
  helpers of \<open>include/chip/chip_state.h\<close>).  A register is reached either by byte-reversed loads
  and stores on its memory address, or through the window of the PCI_CFG capability.  The
  bus is a log of the accesses made; what a read returns is a parameter, by the number of
  accesses made before it.  \<open>reg_accesses\<close> gives the device's meaning of a log, and
  both paths are shown to reach the same register.
\<close>

section \<open>Bus accesses\<close>

datatype bus_op =
    WriteConfigByte u32 u8 | WriteConfigWord u32 u16 | WriteConfigLong u32 u32
  | ReadConfigByte u32 | ReadConfigWord u32 | ReadConfigLong u32
  | Load8 u32 | Load16 u32 | Load32 u32 | Store8 u32 u8 | Store16 u32 u16 | Store32 u32 u32

record bus =
  bus_answer :: "nat \<Rightarrow> u32"
  bus_log :: "bus_op list"

definition bus_do :: "bus_op \<Rightarrow> bus \<Rightarrow> bus" where
  "bus_do p b = b\<lparr>bus_log := bus_log b @ [p]\<rparr>"

definition bus_ask :: "bus_op \<Rightarrow> bus \<Rightarrow> u32 \<times> bus" where
  "bus_ask p b = (bus_answer b (length (bus_log b)), bus_do p b)"

section \<open>The PCI_CFG window\<close>

abbreviation VIRTIO_CAP_OFF_CFG_TYPE :: u32 where "VIRTIO_CAP_OFF_CFG_TYPE \<equiv> 3"
abbreviation VIRTIO_CAP_OFF_BAR :: u32 where "VIRTIO_CAP_OFF_BAR \<equiv> 4"
abbreviation VIRTIO_CAP_OFF_OFFSET :: u32 where "VIRTIO_CAP_OFF_OFFSET \<equiv> 8"
abbreviation VIRTIO_CAP_OFF_LENGTH :: u32 where "VIRTIO_CAP_OFF_LENGTH \<equiv> 12"
abbreviation VIRTIO_CAP_OFF_NOTIFY_MULT :: u32 where "VIRTIO_CAP_OFF_NOTIFY_MULT \<equiv> 16"
abbreviation VIRTIO_CAP_OFF_PCI_CFG_DATA :: u32 where "VIRTIO_CAP_OFF_PCI_CFG_DATA \<equiv> 16"

definition cfg_setup :: "u8 \<Rightarrow> u8 \<Rightarrow> u32 \<Rightarrow> u32 \<Rightarrow> bus \<Rightarrow> bus" where
  "cfg_setup cap_off bar reg_off len b =
     (let b = bus_do (WriteConfigByte (ucast cap_off + VIRTIO_CAP_OFF_BAR) bar) b;
          b = bus_do (WriteConfigLong (ucast cap_off + VIRTIO_CAP_OFF_OFFSET) reg_off) b
      in bus_do (WriteConfigLong (ucast cap_off + VIRTIO_CAP_OFF_LENGTH) len) b)"

definition cfg_r8 :: "u8 \<Rightarrow> u8 \<Rightarrow> u32 \<Rightarrow> bus \<Rightarrow> u8 \<times> bus" where
  "cfg_r8 cap_off bar reg_off b =
     (let (v, b) = bus_ask (ReadConfigLong (ucast cap_off + VIRTIO_CAP_OFF_PCI_CFG_DATA))
                     (cfg_setup cap_off bar reg_off 1 b) in (ucast v, b))"

definition cfg_w8 :: "u8 \<Rightarrow> u8 \<Rightarrow> u32 \<Rightarrow> u8 \<Rightarrow> bus \<Rightarrow> bus" where
  "cfg_w8 cap_off bar reg_off v b =
     bus_do (WriteConfigLong (ucast cap_off + VIRTIO_CAP_OFF_PCI_CFG_DATA) (ucast v))
       (cfg_setup cap_off bar reg_off 1 b)"

definition cfg_r16 :: "u8 \<Rightarrow> u8 \<Rightarrow> u32 \<Rightarrow> bus \<Rightarrow> u16 \<times> bus" where
  "cfg_r16 cap_off bar reg_off b =
     (let (v, b) = bus_ask (ReadConfigLong (ucast cap_off + VIRTIO_CAP_OFF_PCI_CFG_DATA))
                     (cfg_setup cap_off bar reg_off 2 b) in (ucast v, b))"

definition cfg_w16 :: "u8 \<Rightarrow> u8 \<Rightarrow> u32 \<Rightarrow> u16 \<Rightarrow> bus \<Rightarrow> bus" where
  "cfg_w16 cap_off bar reg_off v b =
     bus_do (WriteConfigLong (ucast cap_off + VIRTIO_CAP_OFF_PCI_CFG_DATA) (ucast v))
       (cfg_setup cap_off bar reg_off 2 b)"

definition cfg_r32 :: "u8 \<Rightarrow> u8 \<Rightarrow> u32 \<Rightarrow> bus \<Rightarrow> u32 \<times> bus" where
  "cfg_r32 cap_off bar reg_off b =
     bus_ask (ReadConfigLong (ucast cap_off + VIRTIO_CAP_OFF_PCI_CFG_DATA))
       (cfg_setup cap_off bar reg_off 4 b)"

definition cfg_w32 :: "u8 \<Rightarrow> u8 \<Rightarrow> u32 \<Rightarrow> u32 \<Rightarrow> bus \<Rightarrow> bus" where
  "cfg_w32 cap_off bar reg_off v b =
     bus_do (WriteConfigLong (ucast cap_off + VIRTIO_CAP_OFF_PCI_CFG_DATA) v)
       (cfg_setup cap_off bar reg_off 4 b)"

section \<open>Direct memory-mapped access\<close>

text \<open>
  \<open>lhbrx\<close>, \<open>sthbrx\<close>, \<open>lwbrx\<close>, \<open>stwbrx\<close> reverse the bytes, so the value of the log entry is the
  register's own value.
\<close>

definition mmio_read8 :: "u32 \<Rightarrow> bus \<Rightarrow> u8 \<times> bus" where
  "mmio_read8 addr b = (let (v, b) = bus_ask (Load8 addr) b in (ucast v, b))"

definition mmio_write8 :: "u32 \<Rightarrow> u8 \<Rightarrow> bus \<Rightarrow> bus" where
  "mmio_write8 addr v b = bus_do (Store8 addr v) b"

definition mmio_read16 :: "u32 \<Rightarrow> bus \<Rightarrow> u16 \<times> bus" where
  "mmio_read16 addr b = (let (v, b) = bus_ask (Load16 addr) b in (ucast v, b))"

definition mmio_write16 :: "u32 \<Rightarrow> u16 \<Rightarrow> bus \<Rightarrow> bus" where
  "mmio_write16 addr v b = bus_do (Store16 addr v) b"

definition mmio_read32 :: "u32 \<Rightarrow> bus \<Rightarrow> u32 \<times> bus" where
  "mmio_read32 addr b = bus_ask (Load32 addr) b"

definition mmio_write32 :: "u32 \<Rightarrow> u32 \<Rightarrow> bus \<Rightarrow> bus" where
  "mmio_write32 addr v b = bus_do (Store32 addr v) b"

section \<open>The dispatch\<close>

record vio =
  v_common_cfg_base :: u32
  v_notify_cfg_base :: u32
  v_notify_off_mult :: u32
  v_isr_cfg_base :: u32
  v_device_cfg_base :: u32
  v_modern_mode :: bool
  v_use_pci_cfg :: bool
  v_pci_cfg_cap_off :: u8
  v_common_cfg_bar :: u8
  v_common_cfg_off :: u32
  v_notify_cfg_bar :: u8
  v_notify_cfg_off :: u32
  v_device_cfg_bar :: u8
  v_device_cfg_off :: u32
  v_isr_cfg_bar :: u8
  v_isr_cfg_off :: u32

definition vio_r8 :: "vio \<Rightarrow> u32 \<Rightarrow> bus \<Rightarrow> u8 \<times> bus" where
  "vio_r8 v reg b = (if v_use_pci_cfg v
     then cfg_r8 (v_pci_cfg_cap_off v) (v_common_cfg_bar v) (v_common_cfg_off v + reg) b
     else mmio_read8 (v_common_cfg_base v + reg) b)"

definition vio_w8 :: "vio \<Rightarrow> u32 \<Rightarrow> u8 \<Rightarrow> bus \<Rightarrow> bus" where
  "vio_w8 v reg x b = (if v_use_pci_cfg v
     then cfg_w8 (v_pci_cfg_cap_off v) (v_common_cfg_bar v) (v_common_cfg_off v + reg) x b
     else mmio_write8 (v_common_cfg_base v + reg) x b)"

definition vio_r16 :: "vio \<Rightarrow> u32 \<Rightarrow> bus \<Rightarrow> u16 \<times> bus" where
  "vio_r16 v reg b = (if v_use_pci_cfg v
     then cfg_r16 (v_pci_cfg_cap_off v) (v_common_cfg_bar v) (v_common_cfg_off v + reg) b
     else mmio_read16 (v_common_cfg_base v + reg) b)"

definition vio_w16 :: "vio \<Rightarrow> u32 \<Rightarrow> u16 \<Rightarrow> bus \<Rightarrow> bus" where
  "vio_w16 v reg x b = (if v_use_pci_cfg v
     then cfg_w16 (v_pci_cfg_cap_off v) (v_common_cfg_bar v) (v_common_cfg_off v + reg) x b
     else mmio_write16 (v_common_cfg_base v + reg) x b)"

definition vio_r32 :: "vio \<Rightarrow> u32 \<Rightarrow> bus \<Rightarrow> u32 \<times> bus" where
  "vio_r32 v reg b = (if v_use_pci_cfg v
     then cfg_r32 (v_pci_cfg_cap_off v) (v_common_cfg_bar v) (v_common_cfg_off v + reg) b
     else mmio_read32 (v_common_cfg_base v + reg) b)"

definition vio_w32 :: "vio \<Rightarrow> u32 \<Rightarrow> u32 \<Rightarrow> bus \<Rightarrow> bus" where
  "vio_w32 v reg x b = (if v_use_pci_cfg v
     then cfg_w32 (v_pci_cfg_cap_off v) (v_common_cfg_bar v) (v_common_cfg_off v + reg) x b
     else mmio_write32 (v_common_cfg_base v + reg) x b)"

definition devcfg_r32 :: "vio \<Rightarrow> u32 \<Rightarrow> bus \<Rightarrow> u32 \<times> bus" where
  "devcfg_r32 v off b = (if v_use_pci_cfg v
     then cfg_r32 (v_pci_cfg_cap_off v) (v_device_cfg_bar v) (v_device_cfg_off v + off) b
     else mmio_read32 (v_device_cfg_base v + off) b)"

definition devcfg_w32 :: "vio \<Rightarrow> u32 \<Rightarrow> u32 \<Rightarrow> bus \<Rightarrow> bus" where
  "devcfg_w32 v off x b = (if v_use_pci_cfg v
     then cfg_w32 (v_pci_cfg_cap_off v) (v_device_cfg_bar v) (v_device_cfg_off v + off) x b
     else mmio_write32 (v_device_cfg_base v + off) x b)"

section \<open>What the device sees\<close>

text \<open>
  The device side of the PCI_CFG capability at \<open>cap\<close> (VirtIO 1.2, 4.1.4.9): the bar, offset and
  length fields select a register, an access of the data field is an access of that register
  with that width.  \<open>bases\<close> maps a BAR to the address it is decoded at.
\<close>

datatype reg_access = RegWrite u32 u32 u32 | RegRead u32 u32   \<comment> \<open>address, width, value\<close>

fun reg_accesses :: "(u8 \<Rightarrow> u32) \<Rightarrow> u32 \<Rightarrow> u8 \<times> u32 \<times> u32 \<Rightarrow> bus_op list \<Rightarrow> reg_access list" where
  "reg_accesses bases cap w [] = []"
| "reg_accesses bases cap (bar, off, len) (p # ps) = (case p of
     Store8 a v \<Rightarrow> RegWrite a 1 (ucast v) # reg_accesses bases cap (bar, off, len) ps
   | Store16 a v \<Rightarrow> RegWrite a 2 (ucast v) # reg_accesses bases cap (bar, off, len) ps
   | Store32 a v \<Rightarrow> RegWrite a 4 v # reg_accesses bases cap (bar, off, len) ps
   | Load8 a \<Rightarrow> RegRead a 1 # reg_accesses bases cap (bar, off, len) ps
   | Load16 a \<Rightarrow> RegRead a 2 # reg_accesses bases cap (bar, off, len) ps
   | Load32 a \<Rightarrow> RegRead a 4 # reg_accesses bases cap (bar, off, len) ps
   | WriteConfigByte a v \<Rightarrow>
       reg_accesses bases cap (if a = cap + VIRTIO_CAP_OFF_BAR then v else bar, off, len) ps
   | WriteConfigLong a v \<Rightarrow>
       if a = cap + VIRTIO_CAP_OFF_PCI_CFG_DATA
       then RegWrite (bases bar + off) len v # reg_accesses bases cap (bar, off, len) ps
       else reg_accesses bases cap (bar,
              if a = cap + VIRTIO_CAP_OFF_OFFSET then v else off,
              if a = cap + VIRTIO_CAP_OFF_LENGTH then v else len) ps
   | ReadConfigLong a \<Rightarrow>
       if a = cap + VIRTIO_CAP_OFF_PCI_CFG_DATA
       then RegRead (bases bar + off) len # reg_accesses bases cap (bar, off, len) ps
       else reg_accesses bases cap (bar, off, len) ps
   | _ \<Rightarrow> reg_accesses bases cap (bar, off, len) ps)"

text \<open>The addresses kept for the MMIO path are those of the registers the PCI_CFG path names.\<close>

definition vio_coherent :: "(u8 \<Rightarrow> u32) \<Rightarrow> vio \<Rightarrow> bool" where
  "vio_coherent bases v \<longleftrightarrow>
     v_common_cfg_base v = bases (v_common_cfg_bar v) + v_common_cfg_off v
   \<and> v_device_cfg_base v = bases (v_device_cfg_bar v) + v_device_cfg_off v"

text \<open>The accesses a call adds to an empty log.\<close>

definition seen_by_device :: "(u8 \<Rightarrow> u32) \<Rightarrow> vio \<Rightarrow> (bus \<Rightarrow> bus) \<Rightarrow> (nat \<Rightarrow> u32) \<Rightarrow> reg_access list" where
  "seen_by_device bases v f answers =
     reg_accesses bases (ucast (v_pci_cfg_cap_off v)) (0, 0, 0)
       (bus_log (f \<lparr>bus_answer = answers, bus_log = []\<rparr>))"

lemmas cfg_defs = cfg_setup_def cfg_r8_def cfg_w8_def cfg_r16_def cfg_w16_def cfg_r32_def cfg_w32_def
  bus_do_def bus_ask_def

lemmas mmio_defs = mmio_read8_def mmio_write8_def mmio_read16_def mmio_write16_def
  mmio_read32_def mmio_write32_def

lemmas vio_defs = vio_r8_def vio_w8_def vio_r16_def vio_w16_def vio_r32_def vio_w32_def
  devcfg_r32_def devcfg_w32_def

section \<open>The two paths agree\<close>

text \<open>
  Property C10. Every register access of the driver, of each width, common or device
  configuration, read or write, is seen by the device as exactly one access of the named register
  with the right width and value, whichever of the two paths is selected.
\<close>

theorem register_paths_agree:
  assumes "vio_coherent bases v"
  shows "seen_by_device bases v (vio_w8 v reg x) ans = [RegWrite (v_common_cfg_base v + reg) 1 (ucast x)]
    \<and> seen_by_device bases v (vio_w16 v reg y) ans = [RegWrite (v_common_cfg_base v + reg) 2 (ucast y)]
    \<and> seen_by_device bases v (vio_w32 v reg z) ans = [RegWrite (v_common_cfg_base v + reg) 4 z]
    \<and> seen_by_device bases v (devcfg_w32 v reg z) ans = [RegWrite (v_device_cfg_base v + reg) 4 z]
    \<and> seen_by_device bases v (snd \<circ> vio_r8 v reg) ans = [RegRead (v_common_cfg_base v + reg) 1]
    \<and> seen_by_device bases v (snd \<circ> vio_r16 v reg) ans = [RegRead (v_common_cfg_base v + reg) 2]
    \<and> seen_by_device bases v (snd \<circ> vio_r32 v reg) ans = [RegRead (v_common_cfg_base v + reg) 4]
    \<and> seen_by_device bases v (snd \<circ> devcfg_r32 v reg) ans = [RegRead (v_device_cfg_base v + reg) 4]"
  using assms by (simp add: seen_by_device_def vio_defs cfg_defs mmio_defs vio_coherent_def add.assoc split_def)

definition demo_vio :: "bool \<Rightarrow> vio" where
  "demo_vio cfg = \<lparr>v_common_cfg_base = 0x84201000, v_notify_cfg_base = 0x84204000, v_notify_off_mult = 4,
     v_isr_cfg_base = 0x84202000, v_device_cfg_base = 0x84203000, v_modern_mode = True,
     v_use_pci_cfg = cfg, v_pci_cfg_cap_off = 0x40, v_common_cfg_bar = 4, v_common_cfg_off = 0x1000,
     v_notify_cfg_bar = 4, v_notify_cfg_off = 0x4000, v_device_cfg_bar = 4, v_device_cfg_off = 0x3000,
     v_isr_cfg_bar = 4, v_isr_cfg_off = 0x2000\<rparr>"

theorem register_paths_agree_witness:
  "seen_by_device (\<lambda>_. 0x84200000) (demo_vio True) (vio_w16 (demo_vio True) 0x16 1) (\<lambda>_. 0)
     = [RegWrite (0x84201000 + 0x16) 2 (ucast (1 :: u16))]"
proof -
  have c: "vio_coherent (\<lambda>_. 0x84200000) (demo_vio True)" by (simp add: demo_vio_def vio_coherent_def)
  have "v_common_cfg_base (demo_vio True) = 0x84201000" by (simp add: demo_vio_def)
  then show ?thesis using register_paths_agree [OF c, of "0x16" 0 "\<lambda>_. 0" 1 0] by simp
qed

end
