(* ===== verification/Gpu_Io.thy ===== *)
theory Gpu_Io
  imports Queue_Interface Dma_Memory Register_Access
begin

text \<open>
  The transport of the command layer: \<open>chip_wait_ctrlq\<close>, \<open>chip_do_io\<close>, \<open>chip_gpu_send\<close>
  (\<open>src/chip/chip_gpu_cmds.c\<close>), \<open>chip_do_io_3sg\<close> (\<open>src/chip/chip_gpu_3d.c\<close>), the cursor queue and
  \<open>chip_notify_queue\<close>, on the part of \<open>ChipGPUState\<close> they use.  The device is an environment that
  acts before every poll: it fetches the published heads, completes any of the requests it
  holds (which ones, when, and with what length is the parameter \<open>env\<close>) and writes the
  response buffer.  The result \<^term>\<open>None\<close> of an operation stands for a fault, for the
  non-recursive \<open>cursor_lock\<close> obtained twice, or for a \<open>Wait\<close> that is never signalled.
\<close>

section \<open>State\<close>

text \<open>What the device keeps of a queue: its read position and the heads it is working on.\<close>

record devq =
  dq_seen :: u16
  dq_held :: "u16 list"

text \<open>A kick of a queue, with the contents the command buffers have at that moment.\<close>

record kick =
  k_queue :: u16
  k_cmd :: bytes
  k_cmd3d :: "bytes option"
  k_cursor :: "bytes option"

record io =
  i_exec :: exec
  i_task :: u32                      \<comment> \<open>\<open>FindTask(NULL)\<close>\<close>
  i_ctrlq :: "virtqueue option"      \<comment> \<open>\<open>vqs[VIRTIO_GPU_CTRLQ]\<close>\<close>
  i_cursq :: "virtqueue option"      \<comment> \<open>\<open>vqs[VIRTIO_GPU_CURSQ]\<close>\<close>
  i_ctrl_dev :: devq
  i_curs_dev :: devq
  i_clock :: nat
  i_cmd_buf :: bytes
  i_cmd_buf_phys :: u32
  i_resp_buf :: bytes
  i_resp_buf_phys :: u32
  i_cursor_cmd_buf :: "bytes option"
  i_cursor_cmd_phys :: u32
  i_cmd3d_buf :: "bytes option"
  i_cmd3d_phys :: u32
  i_io_depth :: nat                  \<comment> \<open>how often this task holds the recursive \<open>io_lock\<close>\<close>
  i_cursor_locked :: bool
  i_irq_installed :: bool
  i_ctrlq_wait_task :: u32
  i_ctrlq_wait_mask :: u32
  i_cursorq_wait_task :: u32
  i_cursorq_wait_mask :: u32
  i_vio :: vio
  i_bus :: bus
  i_kicks :: "kick list"
  i_hot_stage :: string
  i_wait_entries :: u32
  i_wait_exits :: u32

datatype queue_sel = Ctrl | Curs

fun the_queue :: "queue_sel \<Rightarrow> io \<Rightarrow> virtqueue option" where
  "the_queue Ctrl io = i_ctrlq io"
| "the_queue Curs io = i_cursq io"

fun set_queue :: "queue_sel \<Rightarrow> virtqueue \<Rightarrow> io \<Rightarrow> io" where
  "set_queue Ctrl vq io = io\<lparr>i_ctrlq := Some vq\<rparr>"
| "set_queue Curs vq io = io\<lparr>i_cursq := Some vq\<rparr>"

fun the_dev :: "queue_sel \<Rightarrow> io \<Rightarrow> devq" where
  "the_dev Ctrl io = i_ctrl_dev io"
| "the_dev Curs io = i_curs_dev io"

fun set_dev :: "queue_sel \<Rightarrow> devq \<Rightarrow> io \<Rightarrow> io" where
  "set_dev Ctrl d io = io\<lparr>i_ctrl_dev := d\<rparr>"
| "set_dev Curs d io = io\<lparr>i_curs_dev := d\<rparr>"

section \<open>The environment\<close>

record env =
  e_complete :: "queue_sel \<Rightarrow> nat \<Rightarrow> (nat \<times> u32) list"  \<comment> \<open>which held request, length written\<close>
  e_resp :: "nat \<Rightarrow> bytes"                               \<comment> \<open>bytes written into the response buffer\<close>
  e_wakes :: "nat \<Rightarrow> bool"                               \<comment> \<open>a \<open>Wait\<close> begun now is signalled\<close>

definition dev_fetch :: "virtqueue \<Rightarrow> devq \<Rightarrow> devq" where
  "dev_fetch vq d =
     (let m = vq_modern vq; idx = vr16 m (vq_avail_idx vq) in
      d\<lparr>dq_seen := idx,
        dq_held := dq_held d @ map (\<lambda>i. vr16 m (vq_avail_ring vq !
            ((unat (dq_seen d) + i) mod unat (vq_num vq)))) [0..<unat (idx - dq_seen d)]\<rparr>)"

fun dev_complete :: "(nat \<times> u32) list \<Rightarrow> devq \<times> virtqueue \<Rightarrow> devq \<times> virtqueue" where
  "dev_complete [] s = s"
| "dev_complete ((k, len) # xs) (d, vq) =
     (if k < length (dq_held d)
      then dev_complete xs (d\<lparr>dq_held := take k (dq_held d) @ drop (Suc k) (dq_held d)\<rparr>,
                            device_used vq (dq_held d ! k) len)
      else dev_complete xs (d, vq))"

definition dev_step :: "env \<Rightarrow> queue_sel \<Rightarrow> io \<Rightarrow> io" where
  "dev_step env sel io = (case the_queue sel io of None \<Rightarrow> io
     | Some vq \<Rightarrow> (case dev_complete (e_complete env sel (i_clock io)) (dev_fetch vq (the_dev sel io), vq) of
         (d, vq) \<Rightarrow> set_dev sel d (set_queue sel vq io)))"

definition dma_write :: "bytes \<Rightarrow> bytes \<Rightarrow> bytes" where
  "dma_write bs buf = (if length bs \<le> length buf then stbytes 0 bs buf else buf)"

definition env_step :: "env \<Rightarrow> io \<Rightarrow> io" where
  "env_step env io =
     (let io' = dev_step env Curs (dev_step env Ctrl io) in
      io'\<lparr>i_clock := Suc (i_clock io), i_resp_buf := dma_write (e_resp env (i_clock io)) (i_resp_buf io)\<rparr>)"

text \<open>\<open>Wait\<close> returns only when it is signalled.\<close>

definition exec_wait :: "env \<Rightarrow> io \<Rightarrow> io option" where
  "exec_wait env io = (if e_wakes env (i_clock io) then Some (env_step env io) else None)"

section \<open>Locks, poll, kick\<close>

text \<open>
  \<open>io_lock\<close> is allocated with \<open>ASOMUTEX_Recursive\<close>: the holder obtains it again without blocking and
  releases it as often.  \<open>cursor_lock\<close> is not recursive: a second \<open>MutexObtain\<close> of the holder never
  returns.
\<close>

definition obtain_io_lock :: "io \<Rightarrow> io" where
  "obtain_io_lock io = io\<lparr>i_io_depth := Suc (i_io_depth io)\<rparr>"

definition release_io_lock :: "io \<Rightarrow> io" where
  "release_io_lock io = io\<lparr>i_io_depth := i_io_depth io - 1\<rparr>"

definition obtain_cursor_lock :: "io \<Rightarrow> io option" where
  "obtain_cursor_lock io = (if i_cursor_locked io then None else Some (io\<lparr>i_cursor_locked := True\<rparr>))"

definition release_cursor_lock :: "io \<Rightarrow> io" where
  "release_cursor_lock io = io\<lparr>i_cursor_locked := False\<rparr>"

text \<open>One call of \<open>VirtQueue_GetBuf\<close>, the device acting before it.\<close>

definition io_getbuf :: "env \<Rightarrow> queue_sel \<Rightarrow> io \<Rightarrow> (u32 \<times> u32 option \<times> io) option" where
  "io_getbuf env sel io = (let io = env_step env io in do {
     vq \<leftarrow> the_queue sel io;
     (cookie, written, ex, vq) \<leftarrow> VirtQueue_GetBuf (i_exec io) vq;
     Some (cookie, written, set_queue sel vq (io\<lparr>i_exec := ex\<rparr>)) })"

definition chip_notify_queue :: "virtqueue \<Rightarrow> u16 \<Rightarrow> io \<Rightarrow> io" where
  "chip_notify_queue vq queue_idx io =
     (let kick = \<lparr>k_queue = queue_idx, k_cmd = i_cmd_buf io, k_cmd3d = i_cmd3d_buf io,
                  k_cursor = i_cursor_cmd_buf io\<rparr>; v = i_vio io in
      if v_use_pci_cfg v
      then io\<lparr>i_bus := cfg_w16 (v_pci_cfg_cap_off v) (v_notify_cfg_bar v) (vq_notify_bar_off vq) queue_idx (i_bus io),
              i_kicks := i_kicks io @ [kick]\<rparr>
      else if vq_notify_addr vq \<noteq> 0
      then io\<lparr>i_bus := mmio_write16 (vq_notify_addr vq) queue_idx (i_bus io), i_kicks := i_kicks io @ [kick]\<rparr>
      else io)"

section \<open>Waiting for a completion\<close>

text \<open>
  The two wait loops (\<open>while (wait_attempts-- > 0)\<close>, \<open>while (timeout-- > 0)\<close>); \<open>irq\<close> selects the
  \<open>Wait\<close> between attempts.  The result is the last cookie, \<open>bytes_written\<close> and the state.
\<close>

function wait_loop :: "env \<Rightarrow> queue_sel \<Rightarrow> bool \<Rightarrow> u32 \<Rightarrow> u32 \<Rightarrow> u32 \<Rightarrow> u32 \<Rightarrow> io \<Rightarrow> (u32 \<times> u32 \<times> io) option" where
  "wait_loop env sel irq cookie n got bytes io =
     (if n = 0 then Some (got, bytes, io)
      else do {
        (got, written, io) \<leftarrow> io_getbuf env sel io;
        let bytes = (case written of None \<Rightarrow> bytes | Some w \<Rightarrow> w);
        if got = cookie then Some (got, bytes, io)
        else if irq then do {
          io \<leftarrow> exec_wait env io;
          wait_loop env sel irq cookie (n - 1) got bytes io }
        else wait_loop env sel irq cookie (n - 1) got bytes io })"
  by pat_completeness auto
termination
  by (relation "measure (\<lambda>(_, _, _, _, n, _). unat n)")
    (auto intro: unat_pred_less)

declare wait_loop.simps [simp del]

text \<open>The bounded drain of stale completions: at most 257 of them.\<close>

function drain_stale :: "env \<Rightarrow> queue_sel \<Rightarrow> u32 \<Rightarrow> io \<Rightarrow> (u32 \<times> io) option" where
  "drain_stale env sel drained io = do {
     (got, written, io) \<leftarrow> io_getbuf env sel io;
     if got = 0 then Some (drained, io)
     else if 256 < drained + 1 then Some (drained + 1, io)
     else drain_stale env sel (drained + 1) io }"
  by pat_completeness auto
termination
proof (relation "measure (\<lambda>(_, _, drained :: u32, _). unat (257 - drained))")
  fix env sel drained and io :: io and x got y written io'
  assume "\<not> 256 < (drained :: u32) + 1"
  then have "257 - drained \<noteq> 0" by auto
  then have "unat (257 - drained - 1) < unat (257 - drained)" by (rule unat_pred_less)
  then show "((env, sel, drained + 1, io'), env, sel, drained, io)
      \<in> measure (\<lambda>(_, _, drained :: u32, _). unat (257 - drained))"
    by (simp add: algebra_simps)
qed simp

declare drain_stale.simps [simp del]

section \<open>Draining the cursor queue\<close>

text \<open>
  The unbounded \<open>while (VirtQueue_GetBuf(...))\<close> of the cursor path.  It ends whatever the device
  does: every iteration that goes on has cleared a cookie.
\<close>

definition live_cookies :: "queue_sel \<Rightarrow> io \<Rightarrow> nat" where
  "live_cookies sel io = (case the_queue sel io of None \<Rightarrow> 0
     | Some vq \<Rightarrow> length (filter (\<lambda>c. c \<noteq> 0) (vq_cookies vq)))"

lemma device_used_cookies [simp]: "vq_cookies (device_used vq h l) = vq_cookies vq"
  by (simp add: device_used_def Let_def)

lemma dev_complete_cookies: "vq_cookies (snd (dev_complete xs (d, vq))) = vq_cookies vq"
proof (induction xs arbitrary: d vq)
  case (Cons x xs)
  then show ?case by (cases x) simp
qed simp

lemma dev_step_cookies [simp]: "live_cookies sel (dev_step env sel' io) = live_cookies sel io"
  using dev_complete_cookies [of "e_complete env sel' (i_clock io)"]
  by (cases sel; cases sel')
    (auto simp: live_cookies_def dev_step_def split: option.splits prod.splits, (metis snd_conv)+)

lemma env_step_cookies [simp]: "live_cookies sel (env_step env io) = live_cookies sel io"
proof -
  have "live_cookies sel (env_step env io) = live_cookies sel (dev_step env Curs (dev_step env Ctrl io))"
    by (cases sel) (simp_all add: env_step_def Let_def live_cookies_def)
  then show ?thesis by simp
qed

lemma getbuf_cookies:
  assumes "VirtQueue_GetBuf ex vq = Some (c, w, ex', vq')" "c \<noteq> 0"
  shows "length (filter (\<lambda>c. c \<noteq> 0) (vq_cookies vq')) < length (filter (\<lambda>c. c \<noteq> 0) (vq_cookies vq))"
proof -
  from assms obtain i where i: "i < length (vq_cookies vq)" "c = vq_cookies vq ! i"
      "vq_cookies vq' = (vq_cookies vq)[i := 0]"
    by (auto simp: VirtQueue_GetBuf_def getbuf_release_def Let_def rd_Some wr_Some
        split: if_splits Option.bind_splits prod.splits)
  then show ?thesis using length_filter_update_less [of i "vq_cookies vq" "\<lambda>c. c \<noteq> 0" 0] assms(2)
    by simp
qed

lemma io_getbuf_cookies:
  assumes "io_getbuf env sel io = Some (c, w, io')" "c \<noteq> 0"
  shows "live_cookies sel io' < live_cookies sel io"
proof -
  from assms(1) obtain vq ex vq' where q: "the_queue sel (env_step env io) = Some vq"
    "VirtQueue_GetBuf (i_exec (env_step env io)) vq = Some (c, w, ex, vq')"
    "io' = set_queue sel vq' ((env_step env io)\<lparr>i_exec := ex\<rparr>)"
    by (auto simp: io_getbuf_def Let_def split: Option.bind_splits)
  have "live_cookies sel io' < live_cookies sel (env_step env io)"
    using getbuf_cookies [OF q(2) assms(2)] q(1,3) by (cases sel) (simp_all add: live_cookies_def)
  then show ?thesis by simp
qed

function drain_all :: "env \<Rightarrow> queue_sel \<Rightarrow> io \<Rightarrow> io option" where
  "drain_all env sel io = do {
     (got, written, io) \<leftarrow> io_getbuf env sel io;
     if got = 0 then Some io else drain_all env sel io }"
  by pat_completeness auto
termination
  by (relation "measure (\<lambda>(_, sel, io). live_cookies sel io)") (auto intro: io_getbuf_cookies)

declare drain_all.simps [simp del]

section \<open>Control queue transactions\<close>

text \<open>
  Waiting for the own completion, as both queues do it: allocate a signal and publish task and
  mask for the interrupt handler, or poll; retract and free the signal afterwards.
\<close>

fun set_waiter :: "queue_sel \<Rightarrow> u32 \<Rightarrow> u32 \<Rightarrow> io \<Rightarrow> io" where
  "set_waiter Ctrl tsk msk io = io\<lparr>i_ctrlq_wait_task := tsk, i_ctrlq_wait_mask := msk\<rparr>"
| "set_waiter Curs tsk msk io = io\<lparr>i_cursorq_wait_task := tsk, i_cursorq_wait_mask := msk\<rparr>"

definition await :: "env \<Rightarrow> queue_sel \<Rightarrow> u32 \<Rightarrow> u32 \<Rightarrow> io \<Rightarrow> (u32 \<times> u32 \<times> io) option" where
  "await env sel polls cookie io =
     (let (sig_bit, ex) = (if i_irq_installed io then AllocSignal (i_exec io) else (-1, i_exec io));
          io = io\<lparr>i_exec := ex\<rparr>
      in if 0 \<le> sig_bit then do {
           let sig_mask = push_bit (nat sig_bit) 1;
           (got, bytes_written, io) \<leftarrow> wait_loop env sel True cookie 50 0 0 (set_waiter sel cookie sig_mask io);
           let io = set_waiter sel 0 0 io;
           Some (got, bytes_written, io\<lparr>i_exec := FreeSignal sig_bit (i_exec io)\<rparr>) }
         else wait_loop env sel False cookie polls 0 0 io)"

definition chip_wait_ctrlq :: "env \<Rightarrow> u32 \<Rightarrow> io \<Rightarrow> (u32 \<times> io) option" where
  "chip_wait_ctrlq env cookie io =
     (let io = io\<lparr>i_wait_entries := i_wait_entries io + 1, i_hot_stage := ''wait_ctrlq:enter''\<rparr>
      in do {
        (got, bytes_written, io) \<leftarrow> await env Ctrl 1000000 cookie io;
        let io = io\<lparr>i_hot_stage := ''wait_ctrlq:exit'', i_wait_exits := i_wait_exits io + 1\<rparr>;
        if got \<noteq> cookie then do {
          (drained, io) \<leftarrow> drain_stale env Ctrl 0 io;
          Some (0, io) }
        else Some (bytes_written, io) })"

definition chip_do_io :: "env \<Rightarrow> u32 \<Rightarrow> u32 \<Rightarrow> io \<Rightarrow> (u32 \<times> io) option" where
  "chip_do_io env cmd_size resp_size io = (case i_ctrlq io of
     None \<Rightarrow> Some (0, io)
   | Some vq \<Rightarrow>
      (let sg = [\<lparr>sg_addr = i_cmd_buf_phys io, sg_len = cmd_size\<rparr>,
                 \<lparr>sg_addr = i_resp_buf_phys io, sg_len = resp_size\<rparr>];
           cookie = i_task io
       in do {
         (rc, ex, vq) \<leftarrow> VirtQueue_AddBuf (i_exec io) vq sg 1 1 cookie;
         let io = io\<lparr>i_exec := ex, i_ctrlq := Some vq\<rparr>;
         if rc \<noteq> 0 then Some (0, io)
         else do {
           let io = chip_notify_queue vq 0 io;
           (bytes_written, io) \<leftarrow> chip_wait_ctrlq env cookie io;
           Some (bytes_written, io) } }))"

definition chip_gpu_send :: "env \<Rightarrow> u32 \<Rightarrow> u32 \<Rightarrow> io \<Rightarrow> (u32 \<times> io) option" where
  "chip_gpu_send env cmd_size resp_size io = do {
     (written, io) \<leftarrow> chip_do_io env cmd_size resp_size io;
     if written < 24 then Some (0, io)
     else do { t \<leftarrow> cpu_ld32 0 (i_resp_buf io); Some (GP32 t, io) } }"

definition chip_do_io_3sg :: "env \<Rightarrow> u32 \<Rightarrow> u32 \<Rightarrow> u32 \<Rightarrow> u32 \<Rightarrow> u32 \<Rightarrow> io \<Rightarrow> (u32 \<times> io) option" where
  "chip_do_io_3sg env hdr_phys hdr_size data_phys data_size resp_size io = (case i_ctrlq io of
     None \<Rightarrow> Some (0, io)
   | Some vq \<Rightarrow>
      (let sg = [\<lparr>sg_addr = hdr_phys, sg_len = hdr_size\<rparr>, \<lparr>sg_addr = data_phys, sg_len = data_size\<rparr>,
                 \<lparr>sg_addr = i_resp_buf_phys io, sg_len = resp_size\<rparr>];
           cookie = i_task io
       in do {
         (rc, ex, vq) \<leftarrow> VirtQueue_AddBuf (i_exec io) vq sg 2 1 cookie;
         let io = io\<lparr>i_exec := ex, i_ctrlq := Some vq\<rparr>;
         if rc \<noteq> 0 then Some (0, io)
         else do {
           let io = chip_notify_queue vq 0 io;
           (bytes_written, io) \<leftarrow> chip_wait_ctrlq env cookie io;
           if bytes_written = 0 then Some (0, io) else Some (bytes_written, io) } }))"

section \<open>The cursor queue\<close>

definition cursor_wait :: "env \<Rightarrow> u32 \<Rightarrow> io \<Rightarrow> io option" where
  "cursor_wait env cookie io = do {
     (got, bytes_written, io) \<leftarrow> await env Curs 50000 cookie io;
     if got \<noteq> cookie then do { (drained, io) \<leftarrow> drain_stale env Curs 0 io; Some io }
     else Some io }"

text \<open>\<open>struct virtio_gpu_update_cursor\<close>, 56 bytes: header, position, resource, hot spot.\<close>

definition fill_cursor_cmd :: "u32 \<Rightarrow> u32 \<Rightarrow> u32 \<Rightarrow> u32 \<Rightarrow> u32 \<Rightarrow> u32 \<Rightarrow> bytes \<Rightarrow> bytes option" where
  "fill_cursor_cmd cmd_type resource_id x y hot_x hot_y buf = do {
     buf \<leftarrow> chip_zero 56 buf;
     buf \<leftarrow> cpu_st32 0 (GP32 cmd_type) buf;
     buf \<leftarrow> cpu_st32 24 (GP32 0) buf;
     buf \<leftarrow> cpu_st32 28 (GP32 x) buf;
     buf \<leftarrow> cpu_st32 32 (GP32 y) buf;
     buf \<leftarrow> cpu_st32 40 (GP32 resource_id) buf;
     buf \<leftarrow> cpu_st32 44 (GP32 hot_x) buf;
     cpu_st32 48 (GP32 hot_y) buf }"

definition chip_cursor_send :: "env \<Rightarrow> u32 \<Rightarrow> u32 \<Rightarrow> u32 \<Rightarrow> u32 \<Rightarrow> u32 \<Rightarrow> u32 \<Rightarrow> io \<Rightarrow> io option" where
  "chip_cursor_send env cmd_type resource_id x y hot_x hot_y io =
     (if i_cursq io = None \<or> i_cursor_cmd_buf io = None then Some io
      else do {
        io \<leftarrow> obtain_cursor_lock io;
        io \<leftarrow> drain_all env Curs io;
        buf \<leftarrow> i_cursor_cmd_buf io;
        buf \<leftarrow> fill_cursor_cmd cmd_type resource_id x y hot_x hot_y buf;
        let io = io\<lparr>i_cursor_cmd_buf := Some buf\<rparr>;
        let cookie = i_task io;
        cq \<leftarrow> i_cursq io;
        (rc, ex, cq) \<leftarrow> VirtQueue_AddBuf (i_exec io) cq
          [\<lparr>sg_addr = i_cursor_cmd_phys io, sg_len = 56\<rparr>] 1 0 cookie;
        let io = io\<lparr>i_exec := ex, i_cursq := Some cq\<rparr>;
        if rc \<noteq> 0 then Some (release_cursor_lock io)
        else do {
          io \<leftarrow> cursor_wait env cookie (chip_notify_queue cq 1 io);
          Some (release_cursor_lock io) } })"

end
