(* ===== verification/Gpu_Io_Correct.thy ===== *)
theory Gpu_Io_Correct
  imports Gpu_Io
begin

text \<open>
  The joint invariant of a virtqueue and the device working on it, its preservation by every
  step of the transport, and what the wait loops and transactions return.
\<close>

section \<open>Queue and device together\<close>

definition unfetched :: "virtqueue \<Rightarrow> devq \<Rightarrow> u16 list" where
  "unfetched vq d = map (\<lambda>i. vr16 (vq_modern vq) (vq_avail_ring vq !
       ((unat (dq_seen d) + i) mod unat (vq_num vq))))
     [0..<unat (vr16 (vq_modern vq) (vq_avail_idx vq) - dq_seen d)]"

text \<open>
  \<open>fs\<close> free descriptors, \<open>cs\<close> chains outstanding, \<open>us\<close> heads completed and not yet collected; every
  outstanding chain is with the device (held or not yet fetched) or completed.
\<close>

definition q_state :: "virtqueue \<Rightarrow> devq \<Rightarrow> u16 list \<Rightarrow> u16 list list \<Rightarrow> u16 list \<Rightarrow> bool" where
  "q_state vq d fs cs us \<longleftrightarrow> vq_inv vq fs cs \<and> used_list vq us
     \<and> mset (map hd cs) = mset (dq_held d @ unfetched vq d @ us)"

lemma heads_distinct:
  assumes "distinct (concat cs)" "[] \<notin> set cs"
  shows "distinct (map hd cs)"
  using assms
proof (induction cs)
  case (Cons c cs)
  have "hd c \<notin> hd ` set cs"
  proof
    assume "hd c \<in> hd ` set cs"
    then obtain c' where c': "c' \<in> set cs" "hd c' = hd c" by auto
    then have "hd c \<in> set c \<inter> set c'" using Cons.prems by (metis IntI hd_in_set list.set_intros)
    then show False using Cons.prems c'(1) by auto
  qed
  then show ?case using Cons by auto
qed simp

lemma q_state_heads:
  assumes "q_state vq d fs cs us"
  shows "distinct (dq_held d @ unfetched vq d @ us)" "distinct (map hd cs)"
    "set (dq_held d @ unfetched vq d @ us) = hd ` set cs"
    "length (unfetched vq d) + length fs + length us + length (dq_held d) \<le> unat (vq_num vq)"
proof -
  have cs: "distinct (concat cs)" "[] \<notin> set cs" "length (fs @ concat cs) = unat (vq_num vq)"
    using assms by (auto simp: q_state_def vq_inv_def inflight_ok_def)
  show d: "distinct (map hd cs)" by (rule heads_distinct [OF cs(1,2)])
  have m: "mset (map hd cs) = mset (dq_held d @ unfetched vq d @ us)"
    using assms by (simp add: q_state_def)
  show "distinct (dq_held d @ unfetched vq d @ us)"
    using d m by (metis mset_eq_imp_distinct_iff)
  show "set (dq_held d @ unfetched vq d @ us) = hd ` set cs"
    using mset_eq_setD [OF m] by simp
  have "length cs \<le> length (concat cs)" using cs(2)
  proof (induction cs)
    case (Cons c cs) then show ?case by (cases c) auto
  qed simp
  moreover have "length cs = length (dq_held d @ unfetched vq d @ us)"
    using mset_eq_length [OF m] by simp
  ultimately show "length (unfetched vq d) + length fs + length us + length (dq_held d) \<le> unat (vq_num vq)"
    using cs(3) by simp
qed

lemma q_state_queue_inv: "q_state vq d fs cs us \<Longrightarrow> queue_inv (ex, vq) fs cs us"
  using q_state_heads [of vq d fs cs us] by (auto simp: q_state_def queue_inv_def)

section \<open>Steps of the device\<close>

lemma dev_fetch_state:
  assumes "q_state vq d fs cs us"
  shows "q_state vq (dev_fetch vq d) fs cs us"
proof -
  have "unfetched vq (dev_fetch vq d) = []" "dq_held (dev_fetch vq d) = dq_held d @ unfetched vq d"
    by (simp_all add: unfetched_def dev_fetch_def Let_def)
  then show ?thesis using assms by (simp add: q_state_def)
qed

lemma device_used_unfetched [simp]: "unfetched (device_used vq h l) d = unfetched vq d"
  by (simp add: unfetched_def device_used_def Let_def)

text \<open>What the device may not change.\<close>

definition driver_side :: "virtqueue \<Rightarrow> virtqueue" where
  "driver_side vq = vq\<lparr>vq_used_ring := [], vq_used_idx := 0\<rparr>"

lemma driver_side_used [simp]: "driver_side (device_used vq h l) = driver_side vq"
  by (simp add: driver_side_def device_used_def Let_def)

lemma driver_side_eqs:
  assumes "driver_side vq' = driver_side vq"
  shows "vq_cookies vq' = vq_cookies vq" "vq_num vq' = vq_num vq" "vq_desc vq' = vq_desc vq"
    "vq_modern vq' = vq_modern vq" "vq_const vq' = vq_const vq"
proof -
  have "vq_cookies (driver_side vq') = vq_cookies (driver_side vq)"
    "vq_num (driver_side vq') = vq_num (driver_side vq)" "vq_desc (driver_side vq') = vq_desc (driver_side vq)"
    "vq_modern (driver_side vq') = vq_modern (driver_side vq)" "vq_const (driver_side vq') = vq_const (driver_side vq)"
    by (simp_all only: assms)
  then show "vq_cookies vq' = vq_cookies vq" "vq_num vq' = vq_num vq" "vq_desc vq' = vq_desc vq"
    "vq_modern vq' = vq_modern vq" "vq_const vq' = vq_const vq"
    by (simp_all add: driver_side_def vq_const_def)
qed

lemma dev_complete_one:
  assumes st: "q_state vq d fs cs us" and k: "k < length (dq_held d)"
  shows "q_state (device_used vq (dq_held d ! k) len)
     (d\<lparr>dq_held := take k (dq_held d) @ drop (Suc k) (dq_held d)\<rparr>) fs cs (us @ [dq_held d ! k])"
proof -
  let ?h = "dq_held d ! k"
  have h: "?h \<in> set (dq_held d)" using k by simp
  then obtain c where c: "c \<in> set cs" "hd c = ?h"
    using q_state_heads(3) [OF st] by (metis (no_types, lifting) Un_iff imageE set_append)
  have "?h \<notin> set us" using q_state_heads(1) [OF st] h by auto
  then have qi: "queue_inv (queue_complete len (ex, vq) (hd c)) fs cs (us @ [hd c])" for ex
    using queue_complete_inv [OF q_state_queue_inv [OF st] c(1)] c(2) by simp
  have held: "dq_held d = take k (dq_held d) @ ?h # drop (Suc k) (dq_held d)"
    using k by (simp add: id_take_nth_drop)
  have "mset (dq_held d) = mset (take k (dq_held d) @ drop (Suc k) (dq_held d)) + {#?h#}"
    by (subst held) simp
  moreover have "mset (map hd cs) = mset (dq_held d @ unfetched vq d @ us)" using st by (simp add: q_state_def)
  ultimately have "mset (map hd cs) = mset (take k (dq_held d) @ drop (Suc k) (dq_held d) @ unfetched vq d @ us @ [?h])"
    by simp
  moreover have "unfetched vq (d\<lparr>dq_held := x\<rparr>) = unfetched vq d" for x by (simp add: unfetched_def)
  ultimately show ?thesis using qi c(2) by (simp add: q_state_def queue_inv_def queue_complete_def)
qed

lemma dev_complete_state:
  assumes "q_state vq d fs cs us" "dev_complete xs (d, vq) = (d', vq')"
  shows "driver_side vq' = driver_side vq \<and> (\<exists>us'. q_state vq' d' fs cs (us @ us'))"
  using assms
proof (induction xs arbitrary: d vq us)
  case Nil
  then show ?case by (auto intro: exI [of _ "[]"])
next
  case (Cons x xs)
  obtain k len where x: "x = (k, len)" by (cases x) auto
  show ?case
  proof (cases "k < length (dq_held d)")
    case True
    have "driver_side vq' = driver_side (device_used vq (dq_held d ! k) len) \<and>
        (\<exists>us'. q_state vq' d' fs cs ((us @ [dq_held d ! k]) @ us'))"
      by (rule Cons.IH [OF dev_complete_one [OF Cons.prems(1) True]]) (use Cons.prems(2) x True in simp)
    then show ?thesis by (metis append.assoc driver_side_used)
  next
    case False
    then show ?thesis using Cons x by simp
  qed
qed

section \<open>Steps of the driver\<close>

lemma unfetched_same:
  assumes "take (unat (vq_num vq)) (vq_avail_ring vq') = take (unat (vq_num vq)) (vq_avail_ring vq)"
    "vq_const vq' = vq_const vq" "vq_avail_idx vq' = vq_avail_idx vq" "0 < unat (vq_num vq)"
  shows "unfetched vq' d = unfetched vq d"
proof -
  have "vq_avail_ring vq' ! (i mod unat (vq_num vq)) = vq_avail_ring vq ! (i mod unat (vq_num vq))" for i
    using assms(1,4) by (metis mod_less_divisor nth_take)
  then show ?thesis using assms(2,3) by (simp add: unfetched_def vq_const_def)
qed

lemma getbuf_state_idle:
  assumes "q_state vq d fs cs []"
  shows "VirtQueue_GetBuf ex vq = Some (0, None, ex, vq)"
proof -
  have "used_list vq []" using assms by (simp add: q_state_def)
  then show ?thesis by (simp add: used_list_def getbuf_idle)
qed

lemma getbuf_state:
  assumes st: "q_state vq d fs cs (u # us)"
  shows "\<exists>c ex' vq' w. c \<in> set cs \<and> hd c = u
     \<and> VirtQueue_GetBuf ex vq = Some (vq_cookies vq ! unat u, Some w, ex', vq')
     \<and> q_state vq' d (rev c @ fs) (remove1 c cs) us
     \<and> vq_cookies vq' = (vq_cookies vq)[unat u := 0] \<and> vq_const vq' = vq_const vq
     \<and> ex_signals ex' = ex_signals ex"
proof -
  have vi: "vq_inv vq fs cs" and ul: "used_list vq (u # us)" using st by (auto simp: q_state_def)
  obtain c where c: "c \<in> set cs" "hd c = u"
    using q_state_heads(3) [OF st] by (metis (no_types, lifting) Un_iff imageE list.set_intros(1) set_append)
  have pend: "used_pending vq" "fst (used_elem vq) = ucast (hd c)"
    using used_list_pending [OF ul] vi c(2) by (auto simp: vq_inv_def)
  obtain ex' vq' where g: "VirtQueue_GetBuf ex vq =
       Some (vq_cookies vq ! unat (hd c), Some (snd (used_elem vq)), ex', vq')"
     "vq_inv vq' (rev c @ fs) (remove1 c cs)" "vq_last_used_idx vq' = vq_last_used_idx vq + 1"
     "vq_cookies vq' = (vq_cookies vq)[unat (hd c) := 0]"
     "vq_const vq' = vq_const vq" "vq_used_ring vq' = vq_used_ring vq" "vq_used_idx vq' = vq_used_idx vq"
     "take (unat (vq_num vq)) (vq_avail_ring vq') = take (unat (vq_num vq)) (vq_avail_ring vq)"
     "vq_avail_idx vq' = vq_avail_idx vq"
     "ex' = (let t = vq_indirect_tables vq ! unat (hd c) in if t = 0 then ex else FreeVec t (EndDMA t ex))"
    using getbuf_ok [OF vi c(1) pend] by blast
  have ul': "used_list vq' us" by (rule used_list_collect [OF ul g(5,3,6,7)])
  have unf: "unfetched vq' d = unfetched vq d"
    by (rule unfetched_same [OF g(8,5,9)]) (use vi in \<open>simp add: vq_inv_def vq_wf_def\<close>)
  have "mset (map hd cs) = mset (dq_held d @ unfetched vq d @ u # us)" using st by (simp add: q_state_def)
  then have "mset (map hd (remove1 c cs)) = mset (dq_held d @ unfetched vq d @ us)"
    using c by (simp add: mset_map mset_remove1 image_mset_Diff)
  then have "q_state vq' d (rev c @ fs) (remove1 c cs) us"
    using g(2) ul' unf by (simp add: q_state_def)
  then show ?thesis using c g(1,4,5,10)
    by (intro exI [of _ c] exI [of _ ex'] exI [of _ vq'] exI [of _ "snd (used_elem vq)"])
      (simp add: exec_defs Let_def)
qed

lemma unfetched_publish:
  assumes st: "q_state vq d fs cs us" and p: "published vq h vq'" and c: "vq_const vq' = vq_const vq"
    and fs: "fs \<noteq> []"
  shows "unfetched vq' d = unfetched vq d @ [h]"
proof -
  let ?n = "unat (vq_num vq)" and ?m = "vq_modern vq"
  let ?idx = "vr16 ?m (vq_avail_idx vq)" and ?s = "dq_seen d"
  let ?L = "unat (?idx - ?s)"
  have wf: "vq_wf vq" and dvd: "?n dvd 65536" using st by (auto simp: q_state_def vq_inv_def used_list_def)
  have "length (unfetched vq d) + length fs \<le> ?n" using q_state_heads(4) [OF st] by simp
  moreover have "0 < length fs" using fs by simp
  ultimately have L: "?L < ?n" unfolding unfetched_def length_map length_upt by linarith
  have n: "?n \<le> 32768" "length (vq_avail_ring vq) = ?n + 1" using wf by (auto simp: vq_wf_def)
  have idx: "?idx = ?s + of_nat ?L" by simp
  have "unat (?idx + 1 - ?s) = unat ((?idx - ?s) + 1)" by (simp add: algebra_simps)
  also have "\<dots> = Suc ?L" using L n by (simp add: unat_word_ariths)
  finally have len: "unat (?idx + 1 - ?s) = Suc ?L" .
  have slot: "unat ?idx mod ?n = (unat ?s + ?L) mod ?n"
    using ring_slot [OF dvd, of ?s ?L] idx by simp
  have pub: "vr16 ?m (vq_avail_idx vq') = ?idx + 1"
    "vq_avail_ring vq' = (vq_avail_ring vq)[(unat ?s + ?L) mod ?n := vr16 ?m h]"
    using p slot by (auto simp: published_def Let_def)
  have old: "vq_avail_ring vq' ! ((unat ?s + i) mod ?n) = vq_avail_ring vq ! ((unat ?s + i) mod ?n)"
    if "i < ?L" for i
    using ring_slot_neq [OF that L, of "unat ?s"] by (simp add: pub(2) nth_list_update_neq)
  have "(unat ?s + ?L) mod ?n < length (vq_avail_ring vq)" using n L by (simp add: less_SucI)
  then have new: "vr16 ?m (vq_avail_ring vq' ! ((unat ?s + ?L) mod ?n)) = h" using pub(2) by simp
  have "unfetched vq' d = map (\<lambda>i. vr16 ?m (vq_avail_ring vq' ! ((unat ?s + i) mod ?n))) [0..<Suc ?L]"
    using c pub(1) len by (simp add: unfetched_def vq_const_def del: upt_Suc)
  also have "\<dots> = unfetched vq d @ [h]"
    using old new by (simp add: unfetched_def)
  finally show ?thesis .
qed

lemma addbuf_state:
  assumes st: "q_state vq d fs cs us" and v: "valid_request (sg, out_num, in_num, cookie)"
  shows "\<exists>rc ex' vq'. VirtQueue_AddBuf ex vq sg out_num in_num cookie = Some (rc, ex', vq')
     \<and> holdings ex' = holdings ex \<and> rc = -1 \<and> vq' = vq \<and> length fs < unat (out_num + in_num)
     \<or> VirtQueue_AddBuf ex vq sg out_num in_num cookie = Some (rc, ex', vq') \<and> rc = 0 \<and>
       (\<exists>k. 0 < k \<and> k \<le> length fs \<and> q_state vq' d (drop k fs) (take k fs # cs) us)
     \<and> vq_cookies vq' = (vq_cookies vq)[unat (hd fs) := cookie] \<and> unat (hd fs) < length (vq_cookies vq)
     \<and> fs \<noteq> [] \<and> vq_const vq' = vq_const vq"
proof -
  have vi: "vq_inv vq fs cs" and ul: "used_list vq us" using st by (auto simp: q_state_def)
  obtain rc ex' vq' where a: "VirtQueue_AddBuf ex vq sg out_num in_num cookie = Some (rc, ex', vq')"
    and c: "rc = -1 \<and> vq' = vq \<and> holdings ex' = holdings ex \<and> length fs < unat (out_num + in_num)
      \<or> rc = 0 \<and> (\<exists>k. (k = unat (out_num + in_num) \<or> k = 1 \<and> vq_use_indirect vq) \<and> 0 < k \<and> k \<le> length fs \<and>
           vq_inv vq' (drop k fs) (take k fs # cs)) \<and> published vq (hd fs) vq'
         \<and> vq_cookies vq' = (vq_cookies vq)[unat (hd fs) := cookie]
         \<and> vq_const vq' = vq_const vq \<and> vq_last_used_idx vq' = vq_last_used_idx vq
         \<and> vq_used_ring vq' = vq_used_ring vq \<and> vq_used_idx vq' = vq_used_idx vq"
    using addbuf_cases [OF vi v, of ex] by blast
  from c show ?thesis
  proof
    assume "rc = -1 \<and> vq' = vq \<and> holdings ex' = holdings ex \<and> length fs < unat (out_num + in_num)"
    then show ?thesis using a by blast
  next
    assume "rc = 0 \<and> (\<exists>k. (k = unat (out_num + in_num) \<or> k = 1 \<and> vq_use_indirect vq) \<and> 0 < k \<and> k \<le> length fs \<and>
           vq_inv vq' (drop k fs) (take k fs # cs)) \<and> published vq (hd fs) vq'
         \<and> vq_cookies vq' = (vq_cookies vq)[unat (hd fs) := cookie]
         \<and> vq_const vq' = vq_const vq \<and> vq_last_used_idx vq' = vq_last_used_idx vq
         \<and> vq_used_ring vq' = vq_used_ring vq \<and> vq_used_idx vq' = vq_used_idx vq"
    then obtain k where h: "rc = 0" "0 < k" "k \<le> length fs" "vq_inv vq' (drop k fs) (take k fs # cs)"
      "published vq (hd fs) vq'" "vq_cookies vq' = (vq_cookies vq)[unat (hd fs) := cookie]"
      "vq_const vq' = vq_const vq" "vq_last_used_idx vq' = vq_last_used_idx vq"
      "vq_used_ring vq' = vq_used_ring vq" "vq_used_idx vq' = vq_used_idx vq" by (elim conjE exE) (rule that; assumption)
    have fs: "fs \<noteq> []" using h(2,3) by auto
    have b: "unat (hd fs) < length (vq_cookies vq)"
      using free_head_bound [OF vi fs] vi by (auto simp: vq_inv_def vq_wf_def)
    have "used_list vq' us" by (rule used_list_same [OF ul h(7-10)])
    moreover have "unfetched vq' d = unfetched vq d @ [hd fs]"
      by (rule unfetched_publish [OF st h(5,7) fs])
    moreover have "hd (take k fs) = hd fs" using h(2) fs by (simp add: hd_take)
    ultimately have "q_state vq' d (drop k fs) (take k fs # cs) us"
      using st h(4) by (simp add: q_state_def)
    with h(2,3) have "\<exists>k. 0 < k \<and> k \<le> length fs \<and> q_state vq' d (drop k fs) (take k fs # cs) us" by blast
    then show ?thesis using a h(1,6,7) b fs
      by (intro exI [of _ rc] exI [of _ ex'] exI [of _ vq'] disjI2 conjI)
  qed
qed

lemma addbuf_signals:
  assumes "VirtQueue_AddBuf ex vq sg out_num in_num cookie = Some (rc, ex', vq')"
  shows "ex_signals ex' = ex_signals ex"
  using assms
  by (auto simp: VirtQueue_AddBuf_def addbuf_indirect_def exec_defs Let_def
      split: if_splits Option.bind_splits)

section \<open>The transport state\<close>

definition io_q :: "queue_sel \<Rightarrow> io \<Rightarrow> u16 list \<Rightarrow> u16 list list \<Rightarrow> u16 list \<Rightarrow> bool" where
  "io_q sel io fs cs us \<longleftrightarrow> (\<exists>vq. the_queue sel io = Some vq \<and> q_state vq (the_dev sel io) fs cs us)"

definition queue_ok :: "queue_sel \<Rightarrow> io \<Rightarrow> bool" where
  "queue_ok sel io \<longleftrightarrow> the_queue sel io = None \<or> (\<exists>fs cs us. io_q sel io fs cs us)"

text \<open>What neither the device nor a poll changes: buffers, locks, bus log, kicks, signals.\<close>

definition io_static :: "io \<Rightarrow> (u32 \<times> bytes \<times> u32 \<times> u32 \<times> bytes option \<times> u32 \<times> bytes option \<times> u32)
    \<times> (nat \<times> bool \<times> bool \<times> vio \<times> bus \<times> kick list \<times> nat \<times> int list)
    \<times> (u32 \<times> u32 \<times> u32 \<times> u32)
    \<times> (u32 \<times> bool \<times> bool \<times> bool \<times> u32 \<times> u32) option \<times> (u32 \<times> bool \<times> bool \<times> bool \<times> u32 \<times> u32) option" where
  "io_static io = ((i_task io, i_cmd_buf io, i_cmd_buf_phys io, i_resp_buf_phys io, i_cursor_cmd_buf io,
      i_cursor_cmd_phys io, i_cmd3d_buf io, i_cmd3d_phys io),
     (i_io_depth io, i_cursor_locked io, i_irq_installed io, i_vio io, i_bus io, i_kicks io,
      length (i_resp_buf io), ex_signals (i_exec io)),
     (i_ctrlq_wait_task io, i_ctrlq_wait_mask io, i_cursorq_wait_task io, i_cursorq_wait_mask io),
     map_option vq_const (i_ctrlq io), map_option vq_const (i_cursq io))"

definition cookie_at :: "queue_sel \<Rightarrow> io \<Rightarrow> u16 list \<Rightarrow> u32" where
  "cookie_at sel io c = (case the_queue sel io of None \<Rightarrow> 0 | Some vq \<Rightarrow> vq_cookies vq ! unat (hd c))"

text \<open>
  One or more steps of device and polls: chains are only taken back, every descriptor stays
  accounted for, and the chains still outstanding keep their cookies.
\<close>

definition progress :: "queue_sel \<Rightarrow> io \<Rightarrow> u16 list \<Rightarrow> u16 list list \<Rightarrow> io \<Rightarrow> u16 list \<Rightarrow> u16 list list \<Rightarrow> bool" where
  "progress sel io fs cs io' fs' cs' \<longleftrightarrow> io_static io' = io_static io
     \<and> (\<forall>s. queue_ok s io \<longrightarrow> queue_ok s io') \<and> (\<exists>us. io_q sel io' fs' cs' us)
     \<and> mset cs' \<subseteq># mset cs \<and> mset (fs' @ concat cs') = mset (fs @ concat cs)
     \<and> (\<forall>c\<in>set cs'. cookie_at sel io' c = cookie_at sel io c)"

lemma progress_trans:
  assumes "progress sel io fs cs io1 fs1 cs1" "progress sel io1 fs1 cs1 io2 fs2 cs2"
  shows "progress sel io fs cs io2 fs2 cs2"
proof -
  have "set cs2 \<subseteq> set cs1" using assms(2) by (auto simp: progress_def dest: mset_subset_eqD)
  then show ?thesis using assms by (auto simp: progress_def intro: subset_mset.order_trans)
qed

lemma progress_refl: "io_q sel io fs cs us \<Longrightarrow> progress sel io fs cs io fs cs"
  by (auto simp: progress_def)

lemma set_dev_queue [simp]:
  "the_queue sel (set_dev sel' d io) = the_queue sel io"
  "the_queue sel (set_queue sel' vq io) = (if sel = sel' then Some vq else the_queue sel io)"
  "the_dev sel (set_queue sel' vq io) = the_dev sel io"
  "the_dev sel (set_dev sel' d io) = (if sel = sel' then d else the_dev sel io)"
  by (cases sel; cases sel'; simp)+

lemma dev_complete_const: "dev_complete xs (d, vq) = (d', vq') \<Longrightarrow> vq_const vq' = vq_const vq"
proof (induction xs arbitrary: d vq)
  case (Cons x xs)
  then show ?case
    by (cases x) (auto split: if_splits simp: vq_const_def device_used_def Let_def)
qed simp

lemma dev_step_frame [simp]: "io_static (dev_step env sel io) = io_static io"
  "i_clock (dev_step env sel io) = i_clock io" "i_exec (dev_step env sel io) = i_exec io"
  "i_resp_buf (dev_step env sel io) = i_resp_buf io"
  by (cases sel; auto simp: dev_step_def io_static_def dest: dev_complete_const split: option.split prod.split)+

lemma dev_step_state:
  assumes "io_q sel io fs cs us"
  shows "\<exists>us'. io_q sel (dev_step env sel' io) fs cs (us @ us')
     \<and> (\<forall>c. cookie_at sel (dev_step env sel' io) c = cookie_at sel io c)"
proof -
  obtain vq where q: "the_queue sel io = Some vq" "q_state vq (the_dev sel io) fs cs us"
    using assms by (auto simp: io_q_def)
  show ?thesis
  proof (cases "sel' = sel")
    case True
    obtain d' vq' where c: "dev_complete (e_complete env sel (i_clock io)) (dev_fetch vq (the_dev sel io), vq) = (d', vq')"
      by fastforce
    have st: "driver_side vq' = driver_side vq \<and> (\<exists>us'. q_state vq' d' fs cs (us @ us'))"
      by (rule dev_complete_state [OF dev_fetch_state [OF q(2)] c])
    then show ?thesis using True q(1) c driver_side_eqs(1) [of vq' vq]
      by (auto simp: dev_step_def io_q_def cookie_at_def)
  next
    case False
    then have "the_queue sel (dev_step env sel' io) = the_queue sel io"
      "the_dev sel (dev_step env sel' io) = the_dev sel io"
      by (simp_all add: dev_step_def split: option.split prod.split)
    then show ?thesis using q by (auto simp: io_q_def cookie_at_def intro!: exI [of _ "[]"])
  qed
qed

lemma dma_write_length [simp]: "length (dma_write bs buf) = length buf"
  by (simp add: dma_write_def length_stbytes)

lemma env_step_frame [simp]:
  "io_static (env_step env io) = io_static io" "i_exec (env_step env io) = i_exec io"
proof -
  have "io_static (dev_step env Curs (dev_step env Ctrl io)) = io_static io" by simp
  then show "io_static (env_step env io) = io_static io"
    by (simp add: env_step_def Let_def io_static_def)
  show "i_exec (env_step env io) = i_exec io" by (simp add: env_step_def Let_def)
qed

lemma env_step_queue:
  "the_queue sel (env_step env io) = the_queue sel (dev_step env Curs (dev_step env Ctrl io))"
  "the_dev sel (env_step env io) = the_dev sel (dev_step env Curs (dev_step env Ctrl io))"
  by (cases sel; simp add: env_step_def Let_def)+

lemma env_step_state:
  assumes "io_q sel io fs cs us"
  shows "\<exists>us'. io_q sel (env_step env io) fs cs us'
     \<and> (\<forall>c. cookie_at sel (env_step env io) c = cookie_at sel io c)"
proof -
  obtain us1 where a: "io_q sel (dev_step env Ctrl io) fs cs us1"
    "\<forall>c. cookie_at sel (dev_step env Ctrl io) c = cookie_at sel io c"
    using dev_step_state [OF assms, of env Ctrl] by blast
  obtain us2 where b: "io_q sel (dev_step env Curs (dev_step env Ctrl io)) fs cs us2"
    "\<forall>c. cookie_at sel (dev_step env Curs (dev_step env Ctrl io)) c = cookie_at sel (dev_step env Ctrl io) c"
    using dev_step_state [OF a(1), of env Curs] by blast
  then show ?thesis using a(2) by (auto simp: io_q_def cookie_at_def env_step_queue)
qed

lemma dev_step_none: "the_queue sel io = None \<Longrightarrow> the_queue sel (dev_step env sel' io) = None"
  by (cases "sel' = sel") (simp_all add: dev_step_def split: option.split prod.split)

lemma env_step_ok: "queue_ok sel io \<Longrightarrow> queue_ok sel (env_step env io)"
  using env_step_state [of sel io] dev_step_none
  by (auto simp: queue_ok_def env_step_queue) blast

lemma env_step_progress:
  assumes "io_q sel io fs cs us"
  shows "progress sel io fs cs (env_step env io) fs cs"
  using env_step_state [OF assms, of env] env_step_ok by (auto simp: progress_def)

section \<open>Polls and waits\<close>

lemma io_q_other [simp]:
  "queue_ok s (set_queue sel vq io) = (if s = sel then \<exists>fs cs us. q_state vq (the_dev sel io) fs cs us else queue_ok s io)"
  by (auto simp: queue_ok_def io_q_def)

lemma set_queue_static:
  "the_queue sel io = Some vq0 \<Longrightarrow> vq_const vq = vq_const vq0 \<Longrightarrow> io_static (set_queue sel vq io) = io_static io"
  by (cases sel) (simp_all add: io_static_def)

lemma the_queue_exec [simp]: "the_queue sel (io\<lparr>i_exec := ex\<rparr>) = the_queue sel io"
  "the_dev sel (io\<lparr>i_exec := ex\<rparr>) = the_dev sel io"
  by (cases sel; simp)+

lemma queue_ok_exec [simp]: "queue_ok sel (io\<lparr>i_exec := ex\<rparr>) = queue_ok sel io"
  by (simp add: queue_ok_def io_q_def)

lemma static_exec: "ex_signals ex = ex_signals (i_exec io) \<Longrightarrow> io_static (io\<lparr>i_exec := ex\<rparr>) = io_static io"
  by (simp add: io_static_def)

lemma io_getbuf_step:
  assumes q: "io_q sel io fs cs us"
  shows "\<exists>got w io' fs' cs'. io_getbuf env sel io = Some (got, w, io') \<and> progress sel io fs cs io' fs' cs'
     \<and> (got = 0 \<and> w = None \<and> fs' = fs \<and> cs' = cs
        \<or> (\<exists>c\<in>set cs. got = cookie_at sel io c \<and> w \<noteq> None \<and> cs' = remove1 c cs \<and> fs' = rev c @ fs))"
proof -
  let ?io = "env_step env io"
  obtain us' where e: "io_q sel ?io fs cs us'" "\<And>c. cookie_at sel ?io c = cookie_at sel io c"
    using env_step_state [OF q] by blast
  obtain vq where v: "the_queue sel ?io = Some vq" "q_state vq (the_dev sel ?io) fs cs us'"
    using e(1) by (auto simp: io_q_def)
  show ?thesis
  proof (cases us')
    case Nil
    have "?io\<lparr>i_exec := i_exec ?io\<rparr> = ?io" by (rule io.equality) simp_all
    then have g: "io_getbuf env sel io = Some (0, None, set_queue sel vq ?io)"
      using v getbuf_state_idle Nil by (simp add: io_getbuf_def Let_def del: env_step_frame)
    have "progress sel io fs cs (set_queue sel vq ?io) fs cs"
      using env_step_progress [OF q, of env] v set_queue_static [OF v(1) refl]
      by (auto simp: progress_def io_q_def cookie_at_def)
    then show ?thesis using g by blast
  next
    case (Cons u us2)
    obtain c ex' vq' w where c: "c \<in> set cs" "hd c = u"
      and g: "VirtQueue_GetBuf (i_exec ?io) vq = Some (vq_cookies vq ! unat u, Some w, ex', vq')"
      and s: "q_state vq' (the_dev sel ?io) (rev c @ fs) (remove1 c cs) us2"
        "vq_cookies vq' = (vq_cookies vq)[unat u := 0]" "ex_signals ex' = ex_signals (i_exec ?io)"
        "vq_const vq' = vq_const vq"
      using getbuf_state [OF v(2) [unfolded Cons], of "i_exec ?io"] by blast
    let ?io' = "set_queue sel vq' (?io\<lparr>i_exec := ex'\<rparr>)"
    have r: "io_getbuf env sel io = Some (cookie_at sel io c, Some w, ?io')"
    proof -
      have "cookie_at sel io c = vq_cookies vq ! unat u"
        using e(2) [of c] v(1) c(2) by (simp add: cookie_at_def)
      then show ?thesis using v(1) g by (simp add: io_getbuf_def Let_def)
    qed
    have hd: "hd c' \<noteq> hd c" if "c' \<in> set (remove1 c cs)" for c'
    proof -
      have "distinct (map hd cs)" by (rule q_state_heads(2) [OF v(2)])
      then have "distinct cs" "inj_on hd (set cs)" by (simp_all add: distinct_map)
      then show ?thesis using that c(1) by (auto dest: inj_onD)
    qed
    have ck: "cookie_at sel ?io' c' = cookie_at sel io c'" if "c' \<in> set (remove1 c cs)" for c'
      using hd [OF that] s(2) c(2) v(1) e(2) [of c'] by (simp add: cookie_at_def)
    have "mset (concat (remove1 c cs)) + mset c = mset (concat cs)"
      using c(1) by (induction cs) (auto simp: ac_simps)
    then have m: "mset ((rev c @ fs) @ concat (remove1 c cs)) = mset (fs @ concat cs)"
      by (metis (no_types, lifting) mset_append mset_rev union_commute union_assoc)
    have "io_static ?io' = io_static io"
      using s(3) static_exec [of ex' ?io] set_queue_static [of sel "?io\<lparr>i_exec := ex'\<rparr>" vq vq'] v(1) s(4) by simp
    moreover have "\<forall>s. queue_ok s io \<longrightarrow> queue_ok s ?io'"
      using env_step_ok s(1) by auto
    ultimately have "progress sel io fs cs ?io' (rev c @ fs) (remove1 c cs)"
      using ck m s(1) by (auto simp: progress_def io_q_def)
    then show ?thesis using r c(1) by blast
  qed
qed

text \<open>Every \<open>Wait\<close> is signalled: what the IRQ path needs from the interrupt.\<close>

definition waits_return :: "env \<Rightarrow> bool" where
  "waits_return env \<longleftrightarrow> (\<forall>t. e_wakes env t)"

lemma exec_wait_step:
  assumes "io_q sel io fs cs us" "waits_return env"
  shows "\<exists>io'. exec_wait env io = Some io' \<and> progress sel io fs cs io' fs cs"
  using assms env_step_progress by (auto simp: exec_wait_def waits_return_def)

lemma wait_loop_result:
  assumes "io_q sel io fs cs us" "irq \<Longrightarrow> waits_return env" "cookie \<noteq> 0" "got \<noteq> cookie"
  shows "\<exists>got' bytes' io' fs' cs'. wait_loop env sel irq cookie n got bytes io = Some (got', bytes', io')
     \<and> progress sel io fs cs io' fs' cs'
     \<and> (got' = cookie \<longrightarrow> (\<exists>c\<in>set cs. cookie_at sel io c = cookie \<and> length cs' < length cs))"
  using assms
proof (induction "unat n" arbitrary: n got bytes io fs cs us)
  case 0
  then have "n = 0" by (simp add: unat_eq_zero)
  then show ?case using progress_refl [OF 0(2)] 0(5) by (auto simp: wait_loop.simps)
next
  case (Suc k)
  have n0: "n \<noteq> 0" using Suc(2) by auto
  then have n: "n \<noteq> 0" "k = unat (n - 1)" using Suc(2) unat_minus_one [OF n0] by auto
  obtain g w io1 fs1 cs1 where s: "io_getbuf env sel io = Some (g, w, io1)" "progress sel io fs cs io1 fs1 cs1"
    and cs: "g = 0 \<and> w = None \<and> fs1 = fs \<and> cs1 = cs
      \<or> (\<exists>c\<in>set cs. g = cookie_at sel io c \<and> w \<noteq> None \<and> cs1 = remove1 c cs \<and> fs1 = rev c @ fs)"
    using io_getbuf_step [OF Suc(3), of env] by blast
  define b where "b = (case w of None \<Rightarrow> bytes | Some w \<Rightarrow> w)"
  show ?case
  proof (cases "g = cookie")
    case True
    then have "wait_loop env sel irq cookie n got bytes io = Some (g, b, io1)"
      using n s(1) by (simp add: wait_loop.simps Let_def b_def)
    moreover have "\<exists>c\<in>set cs. cookie_at sel io c = cookie \<and> length cs1 < length cs"
      using cs True Suc(5) by (auto simp: length_remove1) (metis One_nat_def Suc_pred length_pos_if_in_set lessI)
    ultimately show ?thesis using s(2) by blast
  next
    case False
    obtain us1 where q1: "io_q sel io1 fs1 cs1 us1" using s(2) by (auto simp: progress_def)
    have sub: "set cs1 \<subseteq> set cs" "length cs1 \<le> length cs"
      using s(2) by (auto simp: progress_def dest: mset_subset_eqD size_mset_mono)
    obtain io2 where w2: "(if irq then exec_wait env io1 else Some io1) = Some io2"
      "progress sel io1 fs1 cs1 io2 fs1 cs1"
      using exec_wait_step [OF q1] Suc(4) progress_refl [OF q1] by (cases irq) auto
    obtain us2 where q2: "io_q sel io2 fs1 cs1 us2" using w2(2) by (auto simp: progress_def)
    have p2: "progress sel io fs cs io2 fs1 cs1" by (rule progress_trans [OF s(2) w2(2)])
    have unf: "wait_loop env sel irq cookie n got bytes io = wait_loop env sel irq cookie (n - 1) g b io2"
      using n s(1) False w2(1) by (subst wait_loop.simps) (simp add: Let_def b_def split: if_splits)
    obtain got' bytes' io' fs' cs' where r: "wait_loop env sel irq cookie (n - 1) g b io2 = Some (got', bytes', io')"
      "progress sel io2 fs1 cs1 io' fs' cs'"
      "got' = cookie \<longrightarrow> (\<exists>c\<in>set cs1. cookie_at sel io2 c = cookie \<and> length cs' < length cs1)"
      using Suc(1) [OF n(2) q2 Suc(4) Suc(5) False, of b] by blast
    have "got' = cookie \<longrightarrow> (\<exists>c\<in>set cs. cookie_at sel io c = cookie \<and> length cs' < length cs)"
      using r(3) sub p2 by (fastforce simp: progress_def)
    then show ?thesis using unf r(1) progress_trans [OF p2 r(2)] by auto
  qed
qed

lemma drain_stale_result:
  assumes "io_q sel io fs cs us"
  shows "\<exists>k io' fs' cs'. drain_stale env sel drained io = Some (k, io') \<and> progress sel io fs cs io' fs' cs'"
  using assms
proof (induction env sel drained io arbitrary: fs cs us rule: drain_stale.induct)
  case (1 env sel drained io)
  obtain g w io1 fs1 cs1 where s: "io_getbuf env sel io = Some (g, w, io1)" "progress sel io fs cs io1 fs1 cs1"
    using io_getbuf_step [OF 1(2), of env] by blast
  show ?case
  proof (cases "g = 0 \<or> 256 < drained + 1")
    case True
    then show ?thesis using s by (subst drain_stale.simps) auto
  next
    case False
    obtain us1 where q1: "io_q sel io1 fs1 cs1 us1" using s(2) by (auto simp: progress_def)
    obtain k io' fs' cs' where r: "drain_stale env sel (drained + 1) io1 = Some (k, io')"
      "progress sel io1 fs1 cs1 io' fs' cs'"
      using 1(1) [OF s(1) refl refl _ _ q1] False by blast
    have "drain_stale env sel drained io = Some (k, io')"
      using s r(1) False by (subst drain_stale.simps) auto
    then show ?thesis using progress_trans [OF s(2) r(2)] by blast
  qed
qed

lemma drain_all_result:
  assumes "io_q sel io fs cs us"
  shows "\<exists>io' fs' cs'. drain_all env sel io = Some io' \<and> progress sel io fs cs io' fs' cs'"
  using assms
proof (induction env sel io arbitrary: fs cs us rule: drain_all.induct)
  case (1 env sel io)
  obtain g w io1 fs1 cs1 where s: "io_getbuf env sel io = Some (g, w, io1)" "progress sel io fs cs io1 fs1 cs1"
    using io_getbuf_step [OF 1(2), of env] by blast
  show ?case
  proof (cases "g = 0")
    case True
    then show ?thesis using s by (subst drain_all.simps) auto
  next
    case False
    obtain us1 where q1: "io_q sel io1 fs1 cs1 us1" using s(2) by (auto simp: progress_def)
    obtain io' fs' cs' where r: "drain_all env sel io1 = Some io'" "progress sel io1 fs1 cs1 io' fs' cs'"
      using 1(1) [OF s(1) refl refl False q1] by blast
    have "drain_all env sel io = Some io'" using s r(1) False by (subst drain_all.simps) auto
    then show ?thesis using progress_trans [OF s(2) r(2)] by blast
  qed
qed

section \<open>Transactions\<close>

definition same_queues :: "io \<Rightarrow> io \<Rightarrow> bool" where
  "same_queues a b \<longleftrightarrow> i_ctrlq a = i_ctrlq b \<and> i_cursq a = i_cursq b
     \<and> i_ctrl_dev a = i_ctrl_dev b \<and> i_curs_dev a = i_curs_dev b"

lemma same_queues_sel: "same_queues a b \<Longrightarrow> the_queue sel a = the_queue sel b \<and> the_dev sel a = the_dev sel b"
  by (cases sel) (simp_all add: same_queues_def)

lemma progress_wrap:
  assumes "progress sel io1 fs cs io2 fs' cs'" "same_queues io io1" "same_queues io2 io3"
    "io_static io3 = io_static io"
  shows "progress sel io fs cs io3 fs' cs'"
proof -
  have "queue_ok s io = queue_ok s io1" "queue_ok s io2 = queue_ok s io3"
    "cookie_at s io = cookie_at s io1" "cookie_at s io2 = cookie_at s io3"
    "io_q s io2 = io_q s io3" for s
    using same_queues_sel [OF assms(2), of s] same_queues_sel [OF assms(3), of s]
    by (auto simp: queue_ok_def io_q_def cookie_at_def fun_eq_iff)
  then show ?thesis using assms(1,4) by (simp add: progress_def)
qed

lemma io_q_same: "same_queues io io1 \<Longrightarrow> io_q sel io fs cs us \<Longrightarrow> io_q sel io1 fs cs us"
  using same_queues_sel [of io io1 sel] by (simp add: io_q_def)

definition no_waiter :: "io \<Rightarrow> bool" where
  "no_waiter io \<longleftrightarrow> i_ctrlq_wait_task io = 0 \<and> i_ctrlq_wait_mask io = 0
     \<and> i_cursorq_wait_task io = 0 \<and> i_cursorq_wait_mask io = 0"

lemma await_result:
  assumes q: "io_q sel io fs cs us" and w: "i_irq_installed io \<longrightarrow> waits_return env"
    and ck: "cookie \<noteq> 0" and nw: "no_waiter io"
  shows "\<exists>got bytes io' fs' cs'. await env sel polls cookie io = Some (got, bytes, io')
     \<and> progress sel io fs cs io' fs' cs'
     \<and> (got = cookie \<longrightarrow> (\<exists>c\<in>set cs. cookie_at sel io c = cookie \<and> length cs' < length cs))"
proof -
  obtain sig ex where se: "(if i_irq_installed io then AllocSignal (i_exec io) else (-1, i_exec io)) = (sig, ex)"
    by fastforce
  have sigs: "ex_signals ex = (if 0 \<le> sig then sig # ex_signals (i_exec io) else ex_signals (i_exec io))"
    "0 \<le> sig \<Longrightarrow> i_irq_installed io"
    using se by (auto simp: AllocSignal_def Let_def split: if_splits)
  define io1 where "io1 = (if 0 \<le> sig then set_waiter sel cookie (push_bit (nat sig) 1) (io\<lparr>i_exec := ex\<rparr>)
     else io\<lparr>i_exec := ex\<rparr>)"
  define att where "att = (if 0 \<le> sig then 50 else polls)"
  have sq: "same_queues io io1" by (cases sel) (simp_all add: same_queues_def io1_def)
  have wl: "0 \<le> sig \<Longrightarrow> waits_return env" "0 \<noteq> cookie" using w sigs(2) ck by auto
  obtain got bytes io2 fs2 cs2 where l: "wait_loop env sel (0 \<le> sig) cookie att 0 0 io1 = Some (got, bytes, io2)"
    "progress sel io1 fs cs io2 fs2 cs2"
    "got = cookie \<longrightarrow> (\<exists>c\<in>set cs. cookie_at sel io1 c = cookie \<and> length cs2 < length cs)"
    using wait_loop_result [where irq = "0 \<le> sig" and n = att and bytes = 0,
        OF io_q_same [OF sq q] _ ck wl(2)] wl(1) by blast
  define io3 where "io3 = (if 0 \<le> sig then (set_waiter sel 0 0 io2)\<lparr>i_exec := FreeSignal sig (i_exec io2)\<rparr> else io2)"
  have "io_static io2 = io_static io1" using l(2) by (simp add: progress_def)
  then have st: "io_static io3 = io_static io"
    using sigs(1) nw by (cases sel) (auto simp: io_static_def no_waiter_def FreeSignal_def io1_def io3_def)
  have sq3: "same_queues io2 io3" by (cases sel) (simp_all add: same_queues_def io3_def)
  have p: "progress sel io fs cs io3 fs2 cs2" by (rule progress_wrap [OF l(2) sq sq3 st])
  have ck1: "cookie_at sel io1 = cookie_at sel io"
    using same_queues_sel [OF sq, of sel] by (simp add: cookie_at_def fun_eq_iff)
  have "i_exec (set_waiter sel 0 0 io2) = i_exec io2" by (cases sel) simp_all
  then have "await env sel polls cookie io = Some (got, bytes, io3)"
    using l(1) se by (cases "0 \<le> sig") (simp_all add: await_def Let_def io1_def att_def io3_def)
  then show ?thesis using p l(3) ck1 by auto
qed

lemma chip_wait_ctrlq_result:
  assumes q: "io_q Ctrl io fs cs us" and w: "i_irq_installed io \<longrightarrow> waits_return env"
    and ck: "cookie \<noteq> 0" and nw: "no_waiter io"
  shows "\<exists>n io' fs' cs'. chip_wait_ctrlq env cookie io = Some (n, io') \<and> progress Ctrl io fs cs io' fs' cs'
     \<and> (n \<noteq> 0 \<longrightarrow> (\<exists>c\<in>set cs. cookie_at Ctrl io c = cookie \<and> length cs' < length cs))"
proof -
  define io1 where "io1 = io\<lparr>i_wait_entries := i_wait_entries io + 1, i_hot_stage := ''wait_ctrlq:enter''\<rparr>"
  have sq: "same_queues io io1" by (simp add: same_queues_def io1_def)
  have w1: "i_irq_installed io1 \<longrightarrow> waits_return env" "no_waiter io1"
    using w nw by (simp_all add: io1_def no_waiter_def)
  obtain got bytes io2 fs2 cs2 where l: "await env Ctrl 1000000 cookie io1 = Some (got, bytes, io2)"
    "progress Ctrl io1 fs cs io2 fs2 cs2"
    "got = cookie \<longrightarrow> (\<exists>c\<in>set cs. cookie_at Ctrl io1 c = cookie \<and> length cs2 < length cs)"
    using await_result [OF io_q_same [OF sq q] w1(1) ck w1(2)] by blast
  define io3 where "io3 = io2\<lparr>i_hot_stage := ''wait_ctrlq:exit'', i_wait_exits := i_wait_exits io2 + 1\<rparr>"
  have "io_static io2 = io_static io1" using l(2) by (simp add: progress_def)
  then have st: "io_static io3 = io_static io" by (simp add: io_static_def io1_def io3_def)
  have p: "progress Ctrl io fs cs io3 fs2 cs2"
    by (rule progress_wrap [OF l(2) sq _ st]) (simp add: same_queues_def io3_def)
  have ck1: "cookie_at Ctrl io1 = cookie_at Ctrl io" by (simp add: cookie_at_def fun_eq_iff io1_def)
  have run: "chip_wait_ctrlq env cookie io =
      (if got \<noteq> cookie then do { (k, io) \<leftarrow> drain_stale env Ctrl 0 io3; Some (0, io) } else Some (bytes, io3))"
    using l(1) by (simp add: chip_wait_ctrlq_def Let_def io1_def io3_def)
  show ?thesis
  proof (cases "got = cookie")
    case True
    then have "chip_wait_ctrlq env cookie io = Some (bytes, io3)" using run by simp
    moreover have "\<exists>c\<in>set cs. cookie_at Ctrl io c = cookie \<and> length cs2 < length cs"
      using True l(3) ck1 by auto
    ultimately show ?thesis using p by blast
  next
    case False
    obtain us4 where "io_q Ctrl io3 fs2 cs2 us4" using p by (auto simp: progress_def)
    then obtain k io' fs' cs' where d: "drain_stale env Ctrl 0 io3 = Some (k, io')"
      "progress Ctrl io3 fs2 cs2 io' fs' cs'"
      using drain_stale_result by blast
    have "progress Ctrl io fs cs io' fs' cs'" by (rule progress_trans [OF p d(2)])
    moreover have "chip_wait_ctrlq env cookie io = Some (0, io')" using run d(1) False by simp
    ultimately show ?thesis by auto
  qed
qed

lemma cursor_wait_result:
  assumes q: "io_q Curs io fs cs us" and w: "i_irq_installed io \<longrightarrow> waits_return env"
    and ck: "cookie \<noteq> 0" and nw: "no_waiter io"
  shows "\<exists>io' fs' cs'. cursor_wait env cookie io = Some io' \<and> progress Curs io fs cs io' fs' cs'"
proof -
  obtain got bytes io2 fs2 cs2 where l: "await env Curs 50000 cookie io = Some (got, bytes, io2)"
    "progress Curs io fs cs io2 fs2 cs2"
    using await_result [OF q w ck nw] by blast
  obtain us2 where q2: "io_q Curs io2 fs2 cs2 us2" using l(2) by (auto simp: progress_def)
  obtain k io' fs' cs' where d: "drain_stale env Curs 0 io2 = Some (k, io')" "progress Curs io2 fs2 cs2 io' fs' cs'"
    using drain_stale_result [OF q2] by blast
  show ?thesis
  proof (cases "got = cookie")
    case True
    then show ?thesis using l by (auto simp: cursor_wait_def)
  next
    case False
    then have "cursor_wait env cookie io = Some io'" using l(1) d(1) by (simp add: cursor_wait_def)
    then show ?thesis using progress_trans [OF l(2) d(2)] by blast
  qed
qed

text \<open>The kick changes the bus log and the list of kicks only.\<close>

lemma notify_frame:
  "same_queues io (chip_notify_queue vq q io)" "i_exec (chip_notify_queue vq q io) = i_exec io"
  "i_task (chip_notify_queue vq q io) = i_task io" "i_irq_installed (chip_notify_queue vq q io) = i_irq_installed io"
  "no_waiter (chip_notify_queue vq q io) = no_waiter io"
  "i_cmd_buf (chip_notify_queue vq q io) = i_cmd_buf io" "i_cmd3d_buf (chip_notify_queue vq q io) = i_cmd3d_buf io"
  "i_cursor_cmd_buf (chip_notify_queue vq q io) = i_cursor_cmd_buf io"
  "i_io_depth (chip_notify_queue vq q io) = i_io_depth io"
  "i_cursor_locked (chip_notify_queue vq q io) = i_cursor_locked io"
  "i_resp_buf (chip_notify_queue vq q io) = i_resp_buf io"
  by (simp_all add: chip_notify_queue_def Let_def same_queues_def no_waiter_def)

lemma notify_static:
  assumes "v_use_pci_cfg (i_vio io) \<or> vq_notify_addr vq \<noteq> 0"
  shows "i_kicks (chip_notify_queue vq q io) = i_kicks io @
    [\<lparr>k_queue = q, k_cmd = i_cmd_buf io, k_cmd3d = i_cmd3d_buf io, k_cursor = i_cursor_cmd_buf io\<rparr>]"
  using assms by (auto simp: chip_notify_queue_def Let_def)

text \<open>The common shape of \<open>chip_do_io\<close> and \<open>chip_do_io_3sg\<close>.\<close>

definition transact :: "env \<Rightarrow> vring_sg list \<Rightarrow> u32 \<Rightarrow> u32 \<Rightarrow> io \<Rightarrow> (u32 \<times> io) option" where
  "transact env sg out_num in_num io = (case i_ctrlq io of
     None \<Rightarrow> Some (0, io)
   | Some vq \<Rightarrow> do {
       (rc, ex, vq) \<leftarrow> VirtQueue_AddBuf (i_exec io) vq sg out_num in_num (i_task io);
       let io = io\<lparr>i_exec := ex, i_ctrlq := Some vq\<rparr>;
       if rc \<noteq> 0 then Some (0, io)
       else chip_wait_ctrlq env (i_task io) (chip_notify_queue vq 0 io) })"

lemma option_pair_eta: "do { (a, b) \<leftarrow> m; Some (a, b) } = m"
  by (cases m) auto

lemma chip_do_io_transact:
  "chip_do_io env cs rs io = transact env [\<lparr>sg_addr = i_cmd_buf_phys io, sg_len = cs\<rparr>,
     \<lparr>sg_addr = i_resp_buf_phys io, sg_len = rs\<rparr>] 1 1 io"
  unfolding chip_do_io_def transact_def Let_def
  by (intro option.case_cong arg_cong2 [of _ _ _ _ Option.bind] ext refl)
    (auto simp: option_pair_eta split: prod.split)

lemma do_io_3sg_tail:
  "do { (n, io) \<leftarrow> m; if n = 0 then Some (0 :: u32, io) else Some (n, io) } = m"
proof (cases m)
  case (Some a)
  then show ?thesis by (cases a) simp
qed simp

lemma chip_do_io_3sg_transact:
  "chip_do_io_3sg env hp hs dp ds rs io = transact env [\<lparr>sg_addr = hp, sg_len = hs\<rparr>,
     \<lparr>sg_addr = dp, sg_len = ds\<rparr>, \<lparr>sg_addr = i_resp_buf_phys io, sg_len = rs\<rparr>] 2 1 io"
  unfolding chip_do_io_3sg_def transact_def Let_def
  by (intro option.case_cong arg_cong2 [of _ _ _ _ Option.bind] ext refl)
    (auto simp: do_io_3sg_tail split: prod.split)

text \<open>What a transaction leaves alone: all of \<open>io_static\<close> but the bus log and the kicks.\<close>

definition io_kept where
  "io_kept io = io_static (io\<lparr>i_bus := \<lparr>bus_answer = (\<lambda>_. 0), bus_log = []\<rparr>, i_kicks := []\<rparr>)"

lemma io_kept_static: "io_static a = io_static b \<Longrightarrow> io_kept a = io_kept b"
  by (simp add: io_kept_def io_static_def)

definition can_kick :: "io \<Rightarrow> bool" where
  "can_kick io \<longleftrightarrow> v_use_pci_cfg (i_vio io) \<or> (\<forall>vq. i_ctrlq io = Some vq \<longrightarrow> vq_notify_addr vq \<noteq> 0)"

lemma can_kick_kept: "io_kept a = io_kept b \<Longrightarrow> can_kick a = can_kick b"
  by (cases "i_ctrlq a"; cases "i_ctrlq b")
    (auto simp: io_kept_def io_static_def can_kick_def vq_const_def)

definition kick_of :: "u16 \<Rightarrow> io \<Rightarrow> kick" where
  "kick_of q io = \<lparr>k_queue = q, k_cmd = i_cmd_buf io, k_cmd3d = i_cmd3d_buf io, k_cursor = i_cursor_cmd_buf io\<rparr>"

text \<open>The transport works: both queues sound, waits return, no waiter, a task to wake.\<close>

definition io_ready :: "env \<Rightarrow> io \<Rightarrow> bool" where
  "io_ready env io \<longleftrightarrow> (\<forall>s. queue_ok s io) \<and> (i_irq_installed io \<longrightarrow> waits_return env)
     \<and> no_waiter io \<and> i_task io \<noteq> 0 \<and> can_kick io"

lemma notify_kept [simp]: "io_kept (chip_notify_queue vq q io) = io_kept io"
  by (simp add: chip_notify_queue_def Let_def io_kept_def io_static_def)

lemma io_kept_parts:
  assumes "io_kept a = io_kept b"
  shows "no_waiter a = no_waiter b" "i_task a = i_task b" "i_irq_installed a = i_irq_installed b"
    "i_cmd_buf a = i_cmd_buf b" "i_cmd3d_buf a = i_cmd3d_buf b" "i_cursor_cmd_buf a = i_cursor_cmd_buf b"
    "i_io_depth a = i_io_depth b" "i_cursor_locked a = i_cursor_locked b"
    "length (i_resp_buf a) = length (i_resp_buf b)" "i_vio a = i_vio b"
    "i_cmd_buf_phys a = i_cmd_buf_phys b" "i_resp_buf_phys a = i_resp_buf_phys b" "i_cmd3d_phys a = i_cmd3d_phys b"
    "i_cursor_cmd_phys a = i_cursor_cmd_phys b"
  using assms by (simp_all add: io_kept_def io_static_def no_waiter_def)

lemma transact_result:
  assumes q: "io_q Ctrl io fs cs us" and rdy: "io_ready env io"
    and v: "valid_request (sg, out_num, in_num, i_task io)"
  shows "\<exists>n io' fs' cs' us'. transact env sg out_num in_num io = Some (n, io') \<and> io_kept io' = io_kept io
     \<and> io_ready env io' \<and> io_q Ctrl io' fs' cs' us' \<and> mset (fs' @ concat cs') = mset (fs @ concat cs)
     \<and> (n = 0 \<and> i_kicks io' = i_kicks io \<and> length fs < unat (out_num + in_num)
        \<or> i_kicks io' = i_kicks io @ [kick_of 0 io] \<and> (n \<noteq> 0 \<longrightarrow> length cs' \<le> length cs))"
proof -
  obtain vq where vq: "i_ctrlq io = Some vq" "q_state vq (i_ctrl_dev io) fs cs us"
    using q by (auto simp: io_q_def)
  have rd: "\<And>s. queue_ok s io" "i_irq_installed io \<longrightarrow> waits_return env" "no_waiter io" "i_task io \<noteq> 0" "can_kick io"
    using rdy by (auto simp: io_ready_def)
  obtain rc ex' vq' where a: "VirtQueue_AddBuf (i_exec io) vq sg out_num in_num (i_task io) = Some (rc, ex', vq')"
    and cs: "rc = -1 \<and> vq' = vq \<and> length fs < unat (out_num + in_num)
     \<or> rc = 0 \<and> (\<exists>k. 0 < k \<and> k \<le> length fs \<and> q_state vq' (i_ctrl_dev io) (drop k fs) (take k fs # cs) us)
       \<and> vq_const vq' = vq_const vq"
    using addbuf_state [OF vq(2) v, of "i_exec io"] by blast
  define io1 where "io1 = io\<lparr>i_exec := ex', i_ctrlq := Some vq'\<rparr>"
  have kept1: "io_kept io1 = io_kept io"
    using addbuf_signals [OF a] vq(1) cs by (auto simp: io1_def io_kept_def io_static_def)
  have other: "queue_ok Curs io1" using rd(1) [of Curs] by (simp add: io1_def queue_ok_def io_q_def)
  have run: "transact env sg out_num in_num io = (if rc \<noteq> 0 then Some (0, io1)
      else chip_wait_ctrlq env (i_task io) (chip_notify_queue vq' 0 io1))"
    using vq(1) a by (simp add: transact_def Let_def io1_def)
  from cs show ?thesis
  proof (elim disjE conjE exE)
    assume f: "rc = -1" "vq' = vq" "length fs < unat (out_num + in_num)"
    then have q1: "io_q Ctrl io1 fs cs us" using vq(2) by (simp add: io_q_def io1_def)
    then have "queue_ok s io1" for s using other by (cases s) (auto simp: queue_ok_def)
    then have "io_ready env io1" using rd io_kept_parts(1-3) [OF kept1] can_kick_kept [OF kept1] by (simp add: io_ready_def)
    moreover have "transact env sg out_num in_num io = Some (0, io1)" using run f(1) by simp
    moreover have "i_kicks io1 = i_kicks io" by (simp add: io1_def)
    ultimately show ?thesis using q1 kept1 f(3)
      by (intro exI [of _ 0] exI [of _ io1] exI [of _ fs] exI [of _ cs] exI [of _ us]) simp
  next
    fix k assume g: "rc = 0" "0 < k" "k \<le> length fs"
      "q_state vq' (i_ctrl_dev io) (drop k fs) (take k fs # cs) us" "vq_const vq' = vq_const vq"
    define io2 where "io2 = chip_notify_queue vq' 0 io1"
    have sq: "same_queues io1 io2" by (simp add: io2_def notify_frame)
    have q2: "io_q Ctrl io2 (drop k fs) (take k fs # cs) us"
      by (rule io_q_same [OF sq]) (use g(4) in \<open>simp add: io_q_def io1_def\<close>)
    have kept2: "io_kept io2 = io_kept io" using kept1 by (simp add: io2_def)
    have "v_use_pci_cfg (i_vio io1) \<or> vq_notify_addr vq' \<noteq> 0"
      using rd(5) vq(1) g(5) by (auto simp: can_kick_def io1_def vq_const_def)
    then have kicks: "i_kicks io2 = i_kicks io @ [kick_of 0 io]"
      by (simp add: io2_def notify_static) (simp add: io1_def kick_of_def)
    have ok2: "queue_ok s io2" for s
      using q2 other same_queues_sel [OF sq, of Curs] by (cases s) (auto simp: queue_ok_def io_q_def)
    have w: "i_irq_installed io2 \<longrightarrow> waits_return env" "no_waiter io2"
      using rd(2,3) io_kept_parts(1,3) [OF kept2] by auto
    obtain n io' fs' cs' where r: "chip_wait_ctrlq env (i_task io) io2 = Some (n, io')"
      "progress Ctrl io2 (drop k fs) (take k fs # cs) io' fs' cs'"
      "n \<noteq> 0 \<longrightarrow> (\<exists>c\<in>set (take k fs # cs). cookie_at Ctrl io2 c = i_task io \<and> length cs' < length (take k fs # cs))"
      using chip_wait_ctrlq_result [OF q2 w(1) rd(4) w(2)] by (elim exE conjE) (rule that)
    have st: "io_static io' = io_static io2" using r(2) by (simp add: progress_def)
    have kept: "io_kept io' = io_kept io" by (rule trans [OF io_kept_static [OF st] kept2])
    have kk: "i_kicks io' = i_kicks io @ [kick_of 0 io]" using st kicks by (simp add: io_static_def)
    have "\<forall>s. queue_ok s io'" using r(2) ok2 by (simp add: progress_def)
    then have rdy': "io_ready env io'" using rd io_kept_parts(1-3) [OF kept] can_kick_kept [OF kept] by (simp add: io_ready_def)
    obtain us' where q': "io_q Ctrl io' fs' cs' us'" using r(2) by (auto simp: progress_def)
    have "mset (drop k fs) + mset (take k fs) = mset fs"
      by (metis append_take_drop_id mset_append union_commute)
    then have m: "mset (fs' @ concat cs') = mset (fs @ concat cs)"
      using r(2) by (simp add: progress_def add.assoc [symmetric])
    have "transact env sg out_num in_num io = Some (n, io')" using run g(1) r(1) by (simp add: io2_def)
    then show ?thesis using kept kk rdy' q' m r(3)
      by (intro exI [of _ n] exI [of _ io'] exI [of _ fs'] exI [of _ cs'] exI [of _ us']) auto
  qed
qed

lemmas chip_do_io_result = transact_result [of _ _ _ _ _ "[\<lparr>sg_addr = i_cmd_buf_phys io, sg_len = cs\<rparr>,
     \<lparr>sg_addr = i_resp_buf_phys io, sg_len = rs\<rparr>]" 1 1 for io cs rs, folded chip_do_io_transact]

lemma no_queue_result:
  assumes "i_ctrlq io = None"
  shows "chip_do_io env cs rs io = Some (0, io)"
  using assms by (simp add: chip_do_io_transact transact_def)

text \<open>What a command wrapper needs: totality, the frame, the kick.\<close>

end
