(* ===== verification/Gpu_Commands.thy ===== *)
theory Gpu_Commands
  imports Gpu_Io_Correct
begin

text \<open>
  The command wrappers of \<open>src/chip/chip_gpu_cmds.c\<close> and \<open>src/chip/chip_gpu_3d.c\<close> that only use the
  transport state: each takes \<open>io_lock\<close>, fills the command buffer at the offsets of the
  protocol struct (\<open>include/gpu/virtio_gpu_proto.h\<close>), runs one transaction, releases the lock and
  looks at the response type.
\<close>

section \<open>Protocol constants\<close>

abbreviation CMD_GET_DISPLAY_INFO :: u32 where "CMD_GET_DISPLAY_INFO \<equiv> 0x0100"
abbreviation CMD_RESOURCE_CREATE_2D :: u32 where "CMD_RESOURCE_CREATE_2D \<equiv> 0x0101"
abbreviation CMD_RESOURCE_UNREF :: u32 where "CMD_RESOURCE_UNREF \<equiv> 0x0102"
abbreviation CMD_SET_SCANOUT :: u32 where "CMD_SET_SCANOUT \<equiv> 0x0103"
abbreviation CMD_RESOURCE_FLUSH :: u32 where "CMD_RESOURCE_FLUSH \<equiv> 0x0104"
abbreviation CMD_TRANSFER_TO_HOST_2D :: u32 where "CMD_TRANSFER_TO_HOST_2D \<equiv> 0x0105"
abbreviation CMD_RESOURCE_ATTACH_BACKING :: u32 where "CMD_RESOURCE_ATTACH_BACKING \<equiv> 0x0106"
abbreviation CMD_GET_CAPSET_INFO :: u32 where "CMD_GET_CAPSET_INFO \<equiv> 0x0108"
abbreviation CMD_GET_CAPSET :: u32 where "CMD_GET_CAPSET \<equiv> 0x0109"
abbreviation CMD_GET_EDID :: u32 where "CMD_GET_EDID \<equiv> 0x010A"
abbreviation CMD_RESOURCE_CREATE_BLOB :: u32 where "CMD_RESOURCE_CREATE_BLOB \<equiv> 0x010D"
abbreviation CMD_CTX_CREATE :: u32 where "CMD_CTX_CREATE \<equiv> 0x0200"
abbreviation CMD_CTX_DESTROY :: u32 where "CMD_CTX_DESTROY \<equiv> 0x0201"
abbreviation CMD_CTX_ATTACH_RESOURCE :: u32 where "CMD_CTX_ATTACH_RESOURCE \<equiv> 0x0202"
abbreviation CMD_CTX_DETACH_RESOURCE :: u32 where "CMD_CTX_DETACH_RESOURCE \<equiv> 0x0203"
abbreviation CMD_RESOURCE_CREATE_3D :: u32 where "CMD_RESOURCE_CREATE_3D \<equiv> 0x0204"
abbreviation CMD_TRANSFER_TO_HOST_3D :: u32 where "CMD_TRANSFER_TO_HOST_3D \<equiv> 0x0205"
abbreviation CMD_TRANSFER_FROM_HOST_3D :: u32 where "CMD_TRANSFER_FROM_HOST_3D \<equiv> 0x0206"
abbreviation CMD_SUBMIT_3D :: u32 where "CMD_SUBMIT_3D \<equiv> 0x0207"
abbreviation CMD_UPDATE_CURSOR :: u32 where "CMD_UPDATE_CURSOR \<equiv> 0x0300"
abbreviation CMD_MOVE_CURSOR :: u32 where "CMD_MOVE_CURSOR \<equiv> 0x0301"

abbreviation RESP_OK_NODATA :: u32 where "RESP_OK_NODATA \<equiv> 0x1100"
abbreviation RESP_OK_DISPLAY_INFO :: u32 where "RESP_OK_DISPLAY_INFO \<equiv> 0x1101"
abbreviation RESP_OK_CAPSET_INFO :: u32 where "RESP_OK_CAPSET_INFO \<equiv> 0x1102"
abbreviation RESP_OK_CAPSET :: u32 where "RESP_OK_CAPSET \<equiv> 0x1103"
abbreviation RESP_OK_EDID :: u32 where "RESP_OK_EDID \<equiv> 0x1104"

abbreviation FORMAT_B8G8R8A8_UNORM :: u32 where "FORMAT_B8G8R8A8_UNORM \<equiv> 1"
abbreviation FORMAT_B8G8R8X8_UNORM :: u32 where "FORMAT_B8G8R8X8_UNORM \<equiv> 2"

record dma_entry =
  de_phys :: u32
  de_len :: u32

record gpu_box =
  bx_x :: u32
  bx_y :: u32
  bx_z :: u32
  bx_w :: u32
  bx_h :: u32
  bx_d :: u32

section \<open>The common skeleton\<close>

text \<open>
  Lock, clear both buffers, fill, send.  The lock is still held afterwards: the wrapper
  releases it, after it has read the response if it reads it.
\<close>

definition gpu_begin :: "env \<Rightarrow> nat \<Rightarrow> nat \<Rightarrow> nat \<Rightarrow> (bytes \<Rightarrow> bytes option) \<Rightarrow> io \<Rightarrow> (u32 \<times> io) option" where
  "gpu_begin env cmd_size resp_clear resp_size fill io = do {
     let io = obtain_io_lock io;
     cmd \<leftarrow> chip_zero cmd_size (i_cmd_buf io);
     resp \<leftarrow> chip_zero resp_clear (i_resp_buf io);
     cmd \<leftarrow> fill cmd;
     chip_gpu_send env (of_nat cmd_size) (of_nat resp_size) (io\<lparr>i_cmd_buf := cmd, i_resp_buf := resp\<rparr>) }"

definition gpu_nodata :: "env \<Rightarrow> nat \<Rightarrow> (bytes \<Rightarrow> bytes option) \<Rightarrow> io \<Rightarrow> (bool \<times> io) option" where
  "gpu_nodata env cmd_size fill io = do {
     (rt, io) \<leftarrow> gpu_begin env cmd_size 24 24 fill io;
     let io = release_io_lock io;
     Some (rt = RESP_OK_NODATA, io) }"

definition put_rect :: "nat \<Rightarrow> u32 \<Rightarrow> u32 \<Rightarrow> u32 \<Rightarrow> u32 \<Rightarrow> bytes \<Rightarrow> bytes option" where
  "put_rect off x y w h cmd = do {
     cmd \<leftarrow> cpu_st32 off (GP32 x) cmd;
     cmd \<leftarrow> cpu_st32 (off + 4) (GP32 y) cmd;
     cmd \<leftarrow> cpu_st32 (off + 8) (GP32 w) cmd;
     cpu_st32 (off + 12) (GP32 h) cmd }"

text \<open>\<open>if (n > max) n = max;\<close>\<close>

definition clamp :: "u32 \<Rightarrow> u32 \<Rightarrow> u32" where
  "clamp m n = (if m < n then m else n)"

text \<open>The entry loop shared by ATTACH_BACKING and CREATE_BLOB: 16 bytes per entry.\<close>

definition put_mem_entry :: "nat \<Rightarrow> dma_entry list \<Rightarrow> nat \<Rightarrow> bytes \<Rightarrow> bytes option" where
  "put_mem_entry base dma_list i cmd = do {
     e \<leftarrow> rd dma_list i;
     cmd \<leftarrow> cpu_st64 (base + 16 * i) (GP64 (ucast (de_phys e))) cmd;
     cmd \<leftarrow> cpu_st32 (base + 16 * i + 8) (GP32 (de_len e)) cmd;
     cpu_st32 (base + 16 * i + 12) 0 cmd }"

definition put_mem_entries :: "nat \<Rightarrow> dma_entry list \<Rightarrow> u32 \<Rightarrow> bytes \<Rightarrow> bytes option" where
  "put_mem_entries base dma_list dma_count = foldM (put_mem_entry base dma_list) [0..<unat dma_count]"

section \<open>2D commands\<close>

fun first_enabled :: "nat list \<Rightarrow> bytes \<Rightarrow> (u32 \<times> u32) option option" where
  "first_enabled [] resp = Some None"
| "first_enabled (i # is) resp = do {
     enabled \<leftarrow> cpu_ld32 (24 + 24 * i + 16) resp;
     if GP32 enabled \<noteq> 0 then do {
       w \<leftarrow> cpu_ld32 (24 + 24 * i + 8) resp;
       h \<leftarrow> cpu_ld32 (24 + 24 * i + 12) resp;
       Some (Some (GP32 w, GP32 h)) }
     else first_enabled is resp }"

definition chip_GetDisplayInfo :: "env \<Rightarrow> io \<Rightarrow> ((u32 \<times> u32) option \<times> io) option" where
  "chip_GetDisplayInfo env io = do {
     (resp_type, io) \<leftarrow> gpu_begin env 24 408 408 (\<lambda>cmd. cpu_st32 0 (GP32 CMD_GET_DISPLAY_INFO) cmd) io;
     if resp_type \<noteq> RESP_OK_DISPLAY_INFO then Some (None, release_io_lock io)
     else do {
       r \<leftarrow> first_enabled [0..<16] (i_resp_buf io);
       Some (r, release_io_lock io) } }"

definition chip_ResourceCreate2D :: "env \<Rightarrow> u32 \<Rightarrow> u32 \<Rightarrow> u32 \<Rightarrow> u32 \<Rightarrow> io \<Rightarrow> (bool \<times> io) option" where
  "chip_ResourceCreate2D env resource_id format width height = gpu_nodata env 40 (\<lambda>cmd. do {
     cmd \<leftarrow> cpu_st32 0 (GP32 CMD_RESOURCE_CREATE_2D) cmd;
     cmd \<leftarrow> cpu_st32 24 (GP32 resource_id) cmd;
     cmd \<leftarrow> cpu_st32 28 (GP32 format) cmd;
     cmd \<leftarrow> cpu_st32 32 (GP32 width) cmd;
     cpu_st32 36 (GP32 height) cmd })"

definition chip_ResourceUnref :: "env \<Rightarrow> u32 \<Rightarrow> io \<Rightarrow> (bool \<times> io) option" where
  "chip_ResourceUnref env resource_id = gpu_nodata env 32 (\<lambda>cmd. do {
     cmd \<leftarrow> cpu_st32 0 (GP32 CMD_RESOURCE_UNREF) cmd;
     cpu_st32 24 (GP32 resource_id) cmd })"

definition chip_ResourceAttachBacking :: "env \<Rightarrow> u32 \<Rightarrow> dma_entry list \<Rightarrow> u32 \<Rightarrow> io \<Rightarrow> (bool \<times> io) option" where
  "chip_ResourceAttachBacking env resource_id dma_list dma_count =
     (let max_entries = (4096 - 32) div 16;
          dma_count = clamp max_entries dma_count;
          cmd_size = 32 + 16 * dma_count
      in gpu_nodata env (unat cmd_size) (\<lambda>cmd. do {
           cmd \<leftarrow> cpu_st32 0 (GP32 CMD_RESOURCE_ATTACH_BACKING) cmd;
           cmd \<leftarrow> cpu_st32 24 (GP32 resource_id) cmd;
           cmd \<leftarrow> cpu_st32 28 (GP32 dma_count) cmd;
           put_mem_entries 32 dma_list dma_count cmd }))"

definition set_scanout_once :: "env \<Rightarrow> u32 \<Rightarrow> u32 \<Rightarrow> u32 \<Rightarrow> u32 \<Rightarrow> u32 \<Rightarrow> u32 \<Rightarrow> io \<Rightarrow> (bool \<times> io) option" where
  "set_scanout_once env scanout_id resource_id x y width height = gpu_nodata env 48 (\<lambda>cmd. do {
     cmd \<leftarrow> cpu_st32 0 (GP32 CMD_SET_SCANOUT) cmd;
     cmd \<leftarrow> put_rect 24 x y width height cmd;
     cmd \<leftarrow> cpu_st32 40 (GP32 scanout_id) cmd;
     cpu_st32 44 (GP32 resource_id) cmd })"

text \<open>\<open>for (attempt = 0; attempt < 3; attempt++)\<close>; the delay loop between attempts has no effect.\<close>

fun set_scanout_retry :: "nat \<Rightarrow> env \<Rightarrow> u32 \<Rightarrow> u32 \<Rightarrow> u32 \<Rightarrow> u32 \<Rightarrow> u32 \<Rightarrow> u32 \<Rightarrow> io \<Rightarrow> (bool \<times> io) option" where
  "set_scanout_retry 0 env scanout_id resource_id x y width height io = Some (False, io)"
| "set_scanout_retry (Suc n) env scanout_id resource_id x y width height io = do {
     (ok, io) \<leftarrow> set_scanout_once env scanout_id resource_id x y width height io;
     if ok then Some (True, io)
     else set_scanout_retry n env scanout_id resource_id x y width height io }"

definition transfer_to_host_2d_cmd :: "env \<Rightarrow> u32 \<Rightarrow> u32 \<Rightarrow> u32 \<Rightarrow> u32 \<Rightarrow> u32 \<Rightarrow> u64 \<Rightarrow> io \<Rightarrow> (bool \<times> io) option" where
  "transfer_to_host_2d_cmd env resource_id x y width height offset = gpu_nodata env 56 (\<lambda>cmd. do {
     cmd \<leftarrow> cpu_st32 0 (GP32 CMD_TRANSFER_TO_HOST_2D) cmd;
     cmd \<leftarrow> put_rect 24 x y width height cmd;
     cmd \<leftarrow> cpu_st64 40 (GP64 offset) cmd;
     cpu_st32 48 (GP32 resource_id) cmd })"

definition chip_ResourceFlush :: "env \<Rightarrow> u32 \<Rightarrow> u32 \<Rightarrow> u32 \<Rightarrow> u32 \<Rightarrow> u32 \<Rightarrow> io \<Rightarrow> (bool \<times> io) option" where
  "chip_ResourceFlush env resource_id x y width height = gpu_nodata env 48 (\<lambda>cmd. do {
     cmd \<leftarrow> cpu_st32 0 (GP32 CMD_RESOURCE_FLUSH) cmd;
     cmd \<leftarrow> put_rect 24 x y width height cmd;
     cpu_st32 40 (GP32 resource_id) cmd })"

section \<open>3D commands\<close>

definition chip_GetCapsetInfo :: "env \<Rightarrow> u32 \<Rightarrow> io \<Rightarrow> ((u32 \<times> u32 \<times> u32) option \<times> io) option" where
  "chip_GetCapsetInfo env index io = do {
     (rt, io) \<leftarrow> gpu_begin env 32 40 40 (\<lambda>cmd. do {
        cmd \<leftarrow> cpu_st32 0 (GP32 CMD_GET_CAPSET_INFO) cmd;
        cpu_st32 24 (GP32 index) cmd }) io;
     if rt \<noteq> RESP_OK_CAPSET_INFO then Some (None, release_io_lock io)
     else do {
       cid \<leftarrow> cpu_ld32 24 (i_resp_buf io);
       max_ver \<leftarrow> cpu_ld32 28 (i_resp_buf io);
       max_size \<leftarrow> cpu_ld32 32 (i_resp_buf io);
       Some (Some (GP32 cid, GP32 max_ver, GP32 max_size), release_io_lock io) } }"

text \<open>The result is the caller's buffer with the copied bytes and the size reported.\<close>

definition chip_GetCapset :: "env \<Rightarrow> u32 \<Rightarrow> u32 \<Rightarrow> bytes \<Rightarrow> u32 \<Rightarrow> io \<Rightarrow> ((bytes \<times> u32) option \<times> io) option" where
  "chip_GetCapset env capset_id capset_version buf_out buf_size io =
     (let resp_expect = 24 + buf_size;
          resp_expect = clamp 4096 resp_expect
      in do {
        (rt, io) \<leftarrow> gpu_begin env 32 2072 (unat resp_expect) (\<lambda>cmd. do {
           cmd \<leftarrow> cpu_st32 0 (GP32 CMD_GET_CAPSET) cmd;
           cmd \<leftarrow> cpu_st32 24 (GP32 capset_id) cmd;
           cpu_st32 28 (GP32 capset_version) cmd }) io;
        if rt \<noteq> RESP_OK_CAPSET then Some (None, release_io_lock io)
        else do {
          let avail = resp_expect - 24;
          let copy_size = clamp avail buf_size;
          buf \<leftarrow> foldM (\<lambda>i buf. do { b \<leftarrow> rd (i_resp_buf io) (24 + i); wr buf i b })
                   [0..<unat copy_size] buf_out;
          Some (Some (buf, copy_size), release_io_lock io) } })"

text \<open>\<open>while (nlen < 63 && debug_name[nlen])\<close> over the memory of a C string.\<close>

fun copy_name :: "nat \<Rightarrow> u32 \<Rightarrow> bytes \<Rightarrow> bytes \<Rightarrow> (u32 \<times> bytes) option" where
  "copy_name 0 nlen name cmd = Some (nlen, cmd)"
| "copy_name (Suc k) nlen name cmd = do {
     c \<leftarrow> rd name (unat nlen);
     if c = 0 then Some (nlen, cmd)
     else do { cmd \<leftarrow> wr cmd (32 + unat nlen) c; copy_name k (nlen + 1) name cmd } }"

definition chip_CTXCreate :: "env \<Rightarrow> u32 \<Rightarrow> bytes option \<Rightarrow> u32 \<Rightarrow> io \<Rightarrow> (bool \<times> io) option" where
  "chip_CTXCreate env ctx_id debug_name context_init = gpu_nodata env 96 (\<lambda>cmd. do {
     cmd \<leftarrow> cpu_st32 0 (GP32 CMD_CTX_CREATE) cmd;
     cmd \<leftarrow> cpu_st32 16 (GP32 ctx_id) cmd;
     (nlen, cmd) \<leftarrow> (case debug_name of None \<Rightarrow> Some (0, cmd)
        | Some name \<Rightarrow> do {
            (nlen, cmd) \<leftarrow> copy_name 63 0 name cmd;
            cmd \<leftarrow> wr cmd (32 + unat nlen) 0;
            Some (nlen, cmd) });
     cmd \<leftarrow> cpu_st32 24 (GP32 nlen) cmd;
     cpu_st32 28 (GP32 context_init) cmd })"

definition chip_CTXDestroy :: "env \<Rightarrow> u32 \<Rightarrow> io \<Rightarrow> io option" where
  "chip_CTXDestroy env ctx_id io = do {
     (rt, io) \<leftarrow> gpu_begin env 24 24 24 (\<lambda>cmd. do {
        cmd \<leftarrow> cpu_st32 0 (GP32 CMD_CTX_DESTROY) cmd;
        cpu_st32 16 (GP32 ctx_id) cmd }) io;
     Some (release_io_lock io) }"

definition chip_CTXAttachResource :: "env \<Rightarrow> u32 \<Rightarrow> u32 \<Rightarrow> io \<Rightarrow> (bool \<times> io) option" where
  "chip_CTXAttachResource env ctx_id resource_id = gpu_nodata env 32 (\<lambda>cmd. do {
     cmd \<leftarrow> cpu_st32 0 (GP32 CMD_CTX_ATTACH_RESOURCE) cmd;
     cmd \<leftarrow> cpu_st32 16 (GP32 ctx_id) cmd;
     cpu_st32 24 (GP32 resource_id) cmd })"

definition chip_CTXDetachResource :: "env \<Rightarrow> u32 \<Rightarrow> u32 \<Rightarrow> io \<Rightarrow> (bool \<times> io) option" where
  "chip_CTXDetachResource env ctx_id resource_id = gpu_nodata env 32 (\<lambda>cmd. do {
     cmd \<leftarrow> cpu_st32 0 (GP32 CMD_CTX_DETACH_RESOURCE) cmd;
     cmd \<leftarrow> cpu_st32 16 (GP32 ctx_id) cmd;
     cpu_st32 24 (GP32 resource_id) cmd })"

definition chip_ResourceCreate3D :: "env \<Rightarrow> u32 \<Rightarrow> u32 \<Rightarrow> u32 \<Rightarrow> u32 \<Rightarrow> u32 \<Rightarrow> u32 \<Rightarrow> u32 \<Rightarrow> u32 \<Rightarrow> u32 \<Rightarrow> u32 \<Rightarrow>
    u32 \<Rightarrow> io \<Rightarrow> (bool \<times> io) option" where
  "chip_ResourceCreate3D env resource_id target format bindf width height depth array_size last_level
      nr_samples flags = gpu_nodata env 72 (\<lambda>cmd. do {
     cmd \<leftarrow> cpu_st32 0 (GP32 CMD_RESOURCE_CREATE_3D) cmd;
     cmd \<leftarrow> cpu_st32 24 (GP32 resource_id) cmd;
     cmd \<leftarrow> cpu_st32 28 (GP32 target) cmd;
     cmd \<leftarrow> cpu_st32 32 (GP32 format) cmd;
     cmd \<leftarrow> cpu_st32 36 (GP32 bindf) cmd;
     cmd \<leftarrow> cpu_st32 40 (GP32 width) cmd;
     cmd \<leftarrow> cpu_st32 44 (GP32 height) cmd;
     cmd \<leftarrow> cpu_st32 48 (GP32 depth) cmd;
     cmd \<leftarrow> cpu_st32 52 (GP32 array_size) cmd;
     cmd \<leftarrow> cpu_st32 56 (GP32 last_level) cmd;
     cmd \<leftarrow> cpu_st32 60 (GP32 nr_samples) cmd;
     cpu_st32 64 (GP32 flags) cmd })"

definition put_transfer_3d :: "u32 \<Rightarrow> u32 \<Rightarrow> u32 \<Rightarrow> u32 \<Rightarrow> u32 \<Rightarrow> u32 \<Rightarrow> u64 \<Rightarrow> gpu_box \<Rightarrow> bytes \<Rightarrow> bytes option" where
  "put_transfer_3d cmd_type ctx_id resource_id level stride layer_stride offset box cmd = do {
     cmd \<leftarrow> cpu_st32 0 (GP32 cmd_type) cmd;
     cmd \<leftarrow> cpu_st32 16 (GP32 ctx_id) cmd;
     cmd \<leftarrow> cpu_st32 56 (GP32 resource_id) cmd;
     cmd \<leftarrow> cpu_st32 60 (GP32 level) cmd;
     cmd \<leftarrow> cpu_st32 64 (GP32 stride) cmd;
     cmd \<leftarrow> cpu_st32 68 (GP32 layer_stride) cmd;
     cmd \<leftarrow> cpu_st64 48 (GP64 offset) cmd;
     cmd \<leftarrow> cpu_st32 24 (GP32 (bx_x box)) cmd;
     cmd \<leftarrow> cpu_st32 28 (GP32 (bx_y box)) cmd;
     cmd \<leftarrow> cpu_st32 32 (GP32 (bx_z box)) cmd;
     cmd \<leftarrow> cpu_st32 36 (GP32 (bx_w box)) cmd;
     cmd \<leftarrow> cpu_st32 40 (GP32 (bx_h box)) cmd;
     cpu_st32 44 (GP32 (bx_d box)) cmd }"

definition chip_TransferToHost3D :: "env \<Rightarrow> u32 \<Rightarrow> u32 \<Rightarrow> u32 \<Rightarrow> u32 \<Rightarrow> u32 \<Rightarrow> u64 \<Rightarrow> gpu_box \<Rightarrow> io \<Rightarrow> (bool \<times> io) option" where
  "chip_TransferToHost3D env ctx_id resource_id level stride layer_stride offset box = gpu_nodata env 72
     (put_transfer_3d CMD_TRANSFER_TO_HOST_3D ctx_id resource_id level stride layer_stride offset box)"

definition chip_TransferFromHost3D :: "env \<Rightarrow> u32 \<Rightarrow> u32 \<Rightarrow> u32 \<Rightarrow> u32 \<Rightarrow> u32 \<Rightarrow> u64 \<Rightarrow> gpu_box \<Rightarrow> io \<Rightarrow> (bool \<times> io) option" where
  "chip_TransferFromHost3D env ctx_id resource_id level stride layer_stride offset box = gpu_nodata env 72
     (put_transfer_3d CMD_TRANSFER_FROM_HOST_3D ctx_id resource_id level stride layer_stride offset box)"

text \<open>\<open>cmd_data\<close> is the memory at the caller's pointer.\<close>

definition chip_Submit3D :: "env \<Rightarrow> u32 \<Rightarrow> bytes \<Rightarrow> u32 \<Rightarrow> io \<Rightarrow> (bool \<times> io) option" where
  "chip_Submit3D env ctx_id cmd_data cmd_size io = (case i_cmd3d_buf io of
     None \<Rightarrow> Some (False, io)
   | Some cmd3d \<Rightarrow>
       if cmd_size = 0 then Some (False, io)
       else if 64 * 1024 < cmd_size then Some (False, io)
       else do {
         let io = obtain_io_lock io;
         cmd \<leftarrow> chip_zero 32 (i_cmd_buf io);
         resp \<leftarrow> chip_zero 24 (i_resp_buf io);
         cmd \<leftarrow> cpu_st32 0 (GP32 CMD_SUBMIT_3D) cmd;
         cmd \<leftarrow> cpu_st32 16 (GP32 ctx_id) cmd;
         cmd \<leftarrow> cpu_st32 24 (GP32 cmd_size) cmd;
         dst \<leftarrow> foldM (\<lambda>i dst. do { b \<leftarrow> rd cmd_data i; wr dst i b }) [0..<unat cmd_size] cmd3d;
         (written, io) \<leftarrow> chip_do_io_3sg env (i_cmd_buf_phys io) 32 (i_cmd3d_phys io) cmd_size 24
           (io\<lparr>i_cmd_buf := cmd, i_resp_buf := resp, i_cmd3d_buf := Some dst\<rparr>);
         rt \<leftarrow> (if 24 \<le> written then map_option GP32 (cpu_ld32 0 (i_resp_buf io)) else Some 0);
         let io = release_io_lock io;
         Some (rt = RESP_OK_NODATA, io) })"

definition create_blob_cmd :: "env \<Rightarrow> u32 \<Rightarrow> u32 \<Rightarrow> u32 \<Rightarrow> u64 \<Rightarrow> u64 \<Rightarrow> dma_entry list \<Rightarrow> u32 \<Rightarrow> io \<Rightarrow> (bool \<times> io) option" where
  "create_blob_cmd env resource_id blob_mem blob_flags blob_id bsize dma_list dma_count =
     (let max_entries = (4096 - 56) div 16;
          dma_count = clamp max_entries dma_count;
          cmd_size = 56 + 16 * dma_count
      in gpu_nodata env (unat cmd_size) (\<lambda>cmd. do {
           cmd \<leftarrow> cpu_st32 0 (GP32 CMD_RESOURCE_CREATE_BLOB) cmd;
           cmd \<leftarrow> cpu_st32 24 (GP32 resource_id) cmd;
           cmd \<leftarrow> cpu_st32 28 (GP32 blob_mem) cmd;
           cmd \<leftarrow> cpu_st32 32 (GP32 blob_flags) cmd;
           cmd \<leftarrow> cpu_st32 36 (GP32 dma_count) cmd;
           cmd \<leftarrow> cpu_st64 40 (GP64 blob_id) cmd;
           cmd \<leftarrow> cpu_st64 48 (GP64 bsize) cmd;
           put_mem_entries 56 dma_list dma_count cmd }))"

end
