(* ===== verification/Gpu_Protocol.thy ===== *)
theory Gpu_Protocol
  imports Gpu_Commands
begin

text \<open>
  The device's reading of a command buffer: the structs of \<open>include/gpu/virtio_gpu_proto.h\<close> with
  little-endian fields at their offsets, as a decoder from bytes to commands.  The wrappers
  of \<open>Gpu_Commands\<close> are then shown to deliver exactly the command they are called for.
\<close>

section \<open>Commands as the device reads them\<close>

record rect =
  r_x :: u32
  r_y :: u32
  r_w :: u32
  r_h :: u32

datatype gpu_cmd =
    GetDisplayInfo
  | ResourceCreate2D u32 u32 u32 u32                     \<comment> \<open>id, format, width, height\<close>
  | ResourceUnref u32
  | SetScanout rect u32 u32                              \<comment> \<open>rectangle, scanout, resource\<close>
  | ResourceFlush rect u32
  | TransferToHost2D rect u64 u32
  | AttachBacking u32 "(u64 \<times> u32) list"
  | GetCapsetInfo u32
  | GetCapset u32 u32
  | GetEdid u32
  | CreateBlob u32 u32 u32 u64 u64 "(u64 \<times> u32) list"   \<comment> \<open>id, mem, flags, blob id, size\<close>
  | CtxCreate u32 u32 bytes                              \<comment> \<open>context, init, name\<close>
  | CtxDestroy u32
  | CtxAttach u32 u32
  | CtxDetach u32 u32
  | ResourceCreate3D "u32 list"                          \<comment> \<open>the eleven fields in order\<close>
  | TransferToHost3D u32 gpu_box u64 u32 u32 u32 u32     \<comment> \<open>ctx, box, offset, id, level, strides\<close>
  | TransferFromHost3D u32 gpu_box u64 u32 u32 u32 u32
  | Submit3D u32 u32                                     \<comment> \<open>ctx, size\<close>

definition get_rect :: "bytes \<Rightarrow> nat \<Rightarrow> rect" where
  "get_rect b k = \<lparr>r_x = le_ld32 b k, r_y = le_ld32 b (k + 4), r_w = le_ld32 b (k + 8), r_h = le_ld32 b (k + 12)\<rparr>"

definition get_entries :: "bytes \<Rightarrow> nat \<Rightarrow> nat \<Rightarrow> (u64 \<times> u32) list" where
  "get_entries b k n = map (\<lambda>i. (le_ld64 b (k + 16 * i), le_ld32 b (k + 16 * i + 8))) [0..<n]"

definition get_box :: "bytes \<Rightarrow> gpu_box" where
  "get_box b = \<lparr>bx_x = le_ld32 b 24, bx_y = le_ld32 b 28, bx_z = le_ld32 b 32,
     bx_w = le_ld32 b 36, bx_h = le_ld32 b 40, bx_d = le_ld32 b 44\<rparr>"

definition decode_cmd :: "bytes \<Rightarrow> gpu_cmd option" where
  "decode_cmd b = (let t = le_ld32 b 0 in
     if t = CMD_GET_DISPLAY_INFO then Some GetDisplayInfo
     else if t = CMD_RESOURCE_CREATE_2D
     then Some (ResourceCreate2D (le_ld32 b 24) (le_ld32 b 28) (le_ld32 b 32) (le_ld32 b 36))
     else if t = CMD_RESOURCE_UNREF then Some (ResourceUnref (le_ld32 b 24))
     else if t = CMD_SET_SCANOUT then Some (SetScanout (get_rect b 24) (le_ld32 b 40) (le_ld32 b 44))
     else if t = CMD_RESOURCE_FLUSH then Some (ResourceFlush (get_rect b 24) (le_ld32 b 40))
     else if t = CMD_TRANSFER_TO_HOST_2D
     then Some (TransferToHost2D (get_rect b 24) (le_ld64 b 40) (le_ld32 b 48))
     else if t = CMD_RESOURCE_ATTACH_BACKING
     then Some (AttachBacking (le_ld32 b 24) (get_entries b 32 (unat (le_ld32 b 28))))
     else if t = CMD_GET_CAPSET_INFO then Some (GetCapsetInfo (le_ld32 b 24))
     else if t = CMD_GET_CAPSET then Some (GetCapset (le_ld32 b 24) (le_ld32 b 28))
     else if t = CMD_GET_EDID then Some (GetEdid (le_ld32 b 24))
     else if t = CMD_RESOURCE_CREATE_BLOB
     then Some (CreateBlob (le_ld32 b 24) (le_ld32 b 28) (le_ld32 b 32) (le_ld64 b 40) (le_ld64 b 48)
            (get_entries b 56 (unat (le_ld32 b 36))))
     else if t = CMD_CTX_CREATE
     then Some (CtxCreate (le_ld32 b 16) (le_ld32 b 28) (take (unat (le_ld32 b 24)) (drop 32 b)))
     else if t = CMD_CTX_DESTROY then Some (CtxDestroy (le_ld32 b 16))
     else if t = CMD_CTX_ATTACH_RESOURCE then Some (CtxAttach (le_ld32 b 16) (le_ld32 b 24))
     else if t = CMD_CTX_DETACH_RESOURCE then Some (CtxDetach (le_ld32 b 16) (le_ld32 b 24))
     else if t = CMD_RESOURCE_CREATE_3D
     then Some (ResourceCreate3D (map (le_ld32 b) [24, 28, 32, 36, 40, 44, 48, 52, 56, 60, 64]))
     else if t = CMD_TRANSFER_TO_HOST_3D
     then Some (TransferToHost3D (le_ld32 b 16) (get_box b) (le_ld64 b 48) (le_ld32 b 56) (le_ld32 b 60)
            (le_ld32 b 64) (le_ld32 b 68))
     else if t = CMD_TRANSFER_FROM_HOST_3D
     then Some (TransferFromHost3D (le_ld32 b 16) (get_box b) (le_ld64 b 48) (le_ld32 b 56) (le_ld32 b 60)
            (le_ld32 b 64) (le_ld32 b 68))
     else if t = CMD_SUBMIT_3D then Some (Submit3D (le_ld32 b 16) (le_ld32 b 24))
     else None)"

section \<open>The skeleton\<close>

definition cmd3d_ok :: "io \<Rightarrow> bool" where
  "cmd3d_ok io \<longleftrightarrow> (case i_cmd3d_buf io of None \<Rightarrow> True | Some b \<Rightarrow> length b = 65536)"

definition io_idle :: "env \<Rightarrow> nat \<Rightarrow> io \<Rightarrow> bool" where
  "io_idle env lk io \<longleftrightarrow> io_ready env io \<and> i_io_depth io = lk
     \<and> length (i_cmd_buf io) = 4096 \<and> length (i_resp_buf io) = 4096 \<and> cmd3d_ok io"

text \<open>
  \<open>io_idle env lk io\<close>: between commands, with the task holding \<open>io_lock\<close> \<open>lk\<close> times and the buffers
  of the size they were allocated with.  The outcome of
  a command: it returns, the lock is held as often as before and the transport sound again, and it
  has either shown the device the command \<open>c\<close> (with one kick of the control queue) or nothing.
\<close>

definition told :: "gpu_cmd \<Rightarrow> io \<Rightarrow> io \<Rightarrow> bool" where
  "told c io io' \<longleftrightarrow> (\<exists>k. i_kicks io' = i_kicks io @ [k] \<and> k_queue k = 0 \<and> decode_cmd (k_cmd k) = Some c)"

lemma ready_queue:
  assumes "io_ready env io" "i_ctrlq io \<noteq> None"
  shows "\<exists>fs cs us. io_q Ctrl io fs cs us"
  using assms by (auto simp: io_ready_def queue_ok_def dest: spec [of _ Ctrl])

lemma chip_do_io_total:
  assumes rdy: "io_ready env io"
  shows "\<exists>n io'. chip_do_io env cs rs io = Some (n, io') \<and> io_kept io' = io_kept io \<and> io_ready env io'
     \<and> (n = 0 \<and> i_kicks io' = i_kicks io \<or> i_kicks io' = i_kicks io @ [kick_of 0 io])"
proof (cases "i_ctrlq io")
  case None
  then show ?thesis using rdy by (simp add: no_queue_result)
next
  case (Some vq)
  then obtain fs ch us where q: "io_q Ctrl io fs ch us" using ready_queue rdy by blast
  have v: "valid_request ([\<lparr>sg_addr = i_cmd_buf_phys io, sg_len = cs\<rparr>,
     \<lparr>sg_addr = i_resp_buf_phys io, sg_len = rs\<rparr>], 1, 1, i_task io)"
    by (simp add: valid_request_def)
  show ?thesis using transact_result [OF q rdy v] unfolding chip_do_io_transact by blast
qed

lemma io_ready_same:
  assumes "same_queues a b" "i_irq_installed a = i_irq_installed b" "no_waiter a = no_waiter b"
    "i_task a = i_task b" "i_vio a = i_vio b"
  shows "io_ready env a = io_ready env b"
proof -
  have "queue_ok s a = queue_ok s b" for s
    using same_queues_sel [OF assms(1), of s] by (simp add: queue_ok_def io_q_def)
  then show ?thesis using assms by (simp add: io_ready_def can_kick_def same_queues_def)
qed

lemma ready_upd:
  "io_ready env (io\<lparr>i_cmd_buf := c, i_resp_buf := r\<rparr>) = io_ready env io"
  "io_ready env (io\<lparr>i_cmd_buf := c, i_resp_buf := r, i_cmd3d_buf := d\<rparr>) = io_ready env io"
  "io_ready env (io\<lparr>i_io_depth := l\<rparr>) = io_ready env io"
  "io_ready env (io\<lparr>i_io_depth := l, i_cmd_buf := c, i_resp_buf := r\<rparr>) = io_ready env io"
  "io_ready env (io\<lparr>i_io_depth := l, i_cmd_buf := c, i_resp_buf := r, i_cmd3d_buf := d\<rparr>) = io_ready env io"
  by (rule io_ready_same; simp add: same_queues_def no_waiter_def)+

lemma gpu_send_result:
  assumes rdy: "io_ready env io" and len: "4 \<le> length (i_resp_buf io)"
  shows "\<exists>rt io'. chip_gpu_send env cs rs io = Some (rt, io') \<and> io_kept io' = io_kept io \<and> io_ready env io'
     \<and> (rt \<noteq> 0 \<longrightarrow> rt = le_ld32 (i_resp_buf io') 0)
     \<and> (rt = 0 \<and> i_kicks io' = i_kicks io \<or> i_kicks io' = i_kicks io @ [kick_of 0 io])"
proof -
  obtain n io' where d: "chip_do_io env cs rs io = Some (n, io')" "io_kept io' = io_kept io" "io_ready env io'"
    "n = 0 \<and> i_kicks io' = i_kicks io \<or> i_kicks io' = i_kicks io @ [kick_of 0 io]"
    using chip_do_io_total [OF rdy] by blast
  have l: "4 \<le> length (i_resp_buf io')" using len io_kept_parts(9) [OF d(2)] by simp
  then have "map_option GP32 (cpu_ld32 0 (i_resp_buf io')) = Some (le_ld32 (i_resp_buf io') 0)"
    using cpu_ld32_GP32 [of 0] by simp
  then obtain t where t: "cpu_ld32 0 (i_resp_buf io') = Some t" "GP32 t = le_ld32 (i_resp_buf io') 0" by blast
  show ?thesis
  proof (cases "n < 24")
    case True
    then have "chip_gpu_send env cs rs io = Some (0, io')" using d(1) by (simp add: chip_gpu_send_def)
    then show ?thesis using d by auto
  next
    case False
    then have "n \<noteq> 0" by auto
    have "chip_gpu_send env cs rs io = Some (le_ld32 (i_resp_buf io') 0, io')"
      using d(1) t False by (simp add: chip_gpu_send_def)
    then show ?thesis using d \<open>n \<noteq> 0\<close> by auto
  qed
qed

lemma gpu_begin_result:
  assumes idle: "io_idle env lk io" and n: "cs \<le> 4096" "rc \<le> 4096"
    and fill: "fill (zeroed cs (i_cmd_buf io)) = Some cmd'" and len: "length cmd' = 4096"
  shows "\<exists>rt io'. gpu_begin env cs rc rs fill io = Some (rt, io') \<and> io_idle env lk (release_io_lock io')
     \<and> length (i_resp_buf io') = 4096 \<and> (rt \<noteq> 0 \<longrightarrow> rt = le_ld32 (i_resp_buf io') 0)
     \<and> (rt = 0 \<and> i_kicks io' = i_kicks io
        \<or> (\<exists>k. i_kicks io' = i_kicks io @ [k] \<and> k_queue k = 0 \<and> k_cmd k = cmd'))"
proof -
  have id: "io_ready env io" "i_io_depth io = lk" "length (i_cmd_buf io) = 4096" "length (i_resp_buf io) = 4096" "cmd3d_ok io"
    using idle by (auto simp: io_idle_def)
  define io1 where "io1 = io\<lparr>i_io_depth := Suc lk, i_cmd_buf := cmd', i_resp_buf := zeroed rc (i_resp_buf io)\<rparr>"
  have r1: "io_ready env io1" using id(1) by (simp add: io1_def ready_upd)
  have l1: "length (i_resp_buf io1) = 4096" using id(4) n(2) by (simp add: io1_def length_zeroed)
  obtain rt io' where s: "chip_gpu_send env (of_nat cs) (of_nat rs) io1 = Some (rt, io')"
    "io_kept io' = io_kept io1" "io_ready env io'" "rt \<noteq> 0 \<longrightarrow> rt = le_ld32 (i_resp_buf io') 0"
    "rt = 0 \<and> i_kicks io' = i_kicks io1 \<or> i_kicks io' = i_kicks io1 @ [kick_of 0 io1]"
    using gpu_send_result [OF r1] l1 by (metis numeral_le_iff semiring_norm(68,69,71,76))
  have run: "gpu_begin env cs rc rs fill io = Some (rt, io')"
    using id n fill s(1) by (simp add: gpu_begin_def obtain_io_lock_def chip_zero_eq io1_def)
  have parts: "i_cmd_buf io' = cmd'" "length (i_resp_buf io') = 4096"
    using io_kept_parts(4,9) [OF s(2)] l1 by (simp_all add: io1_def)
  then have "io_idle env lk (release_io_lock io')"
    using s(3) len id(5) io_kept_parts(5,7) [OF s(2)] by (simp add: io1_def io_idle_def cmd3d_ok_def release_io_lock_def ready_upd)
  then show ?thesis using run parts s(4,5) by (auto simp: io1_def kick_of_def)
qed

lemma gpu_nodata_result:
  assumes idle: "io_idle env lk io" and n: "cs \<le> 4096"
    and fill: "fill (zeroed cs (i_cmd_buf io)) = Some cmd'" and len: "length cmd' = 4096"
    and dec: "decode_cmd cmd' = Some c"
  shows "\<exists>ok io'. gpu_nodata env cs fill io = Some (ok, io') \<and> io_idle env lk io'
     \<and> (ok \<longrightarrow> le_ld32 (i_resp_buf io') 0 = RESP_OK_NODATA)
     \<and> (\<not> ok \<and> i_kicks io' = i_kicks io \<or> told c io io')"
proof -
  obtain rt io' where r: "gpu_begin env cs 24 24 fill io = Some (rt, io')" "io_idle env lk (release_io_lock io')"
    "rt \<noteq> 0 \<longrightarrow> rt = le_ld32 (i_resp_buf io') 0"
    "rt = 0 \<and> i_kicks io' = i_kicks io \<or> (\<exists>k. i_kicks io' = i_kicks io @ [k] \<and> k_queue k = 0 \<and> k_cmd k = cmd')"
    using gpu_begin_result [where fill = fill and cs = cs and rc = 24 and rs = 24 and cmd' = cmd', OF idle n]
      fill len by auto
  have "gpu_nodata env cs fill io = Some (rt = RESP_OK_NODATA, release_io_lock io')"
    using r(1) by (simp add: gpu_nodata_def)
  moreover have "told c io (release_io_lock io') \<or> rt = 0 \<and> i_kicks (release_io_lock io') = i_kicks io"
    using r(4) dec by (auto simp: told_def release_io_lock_def)
  ultimately show ?thesis using r(2,3)
    by (intro exI [of _ "rt = RESP_OK_NODATA"] exI [of _ "release_io_lock io'"]) (auto simp: release_io_lock_def)
qed

section \<open>What each wrapper delivers\<close>

text \<open>Straight-line fills: a run of stores, read back by look-up.\<close>

definition delivers :: "env \<Rightarrow> nat \<Rightarrow> gpu_cmd \<Rightarrow> (io \<Rightarrow> (bool \<times> io) option) \<Rightarrow> io \<Rightarrow> bool" where
  "delivers env lk c f io \<longleftrightarrow> (\<exists>ok io'. f io = Some (ok, io') \<and> io_idle env lk io'
     \<and> (ok \<longrightarrow> le_ld32 (i_resp_buf io') 0 = RESP_OK_NODATA)
     \<and> (\<not> ok \<and> i_kicks io' = i_kicks io \<or> told c io io'))"

lemma idle_len: "io_idle env lk io \<Longrightarrow> length (i_cmd_buf io) = 4096"
  by (simp add: io_idle_def)

lemma delivers_of:
  assumes "io_idle env lk io" "cs \<le> 4096"
    and "\<exists>cmd'. fill (zeroed cs (i_cmd_buf io)) = Some cmd' \<and> length cmd' = 4096 \<and> decode_cmd cmd' = Some c"
  shows "delivers env lk c (gpu_nodata env cs fill) io"
  using assms gpu_nodata_result [OF assms(1,2), of fill _ c] by (auto simp: delivers_def)

lemma deliversI:
  assumes "io_idle env lk io" "cs \<le> 4096" "words_ok 4096 fs" "\<And>b. fill b = put_words fs b"
    and "\<And>b. length b = 4096 \<Longrightarrow> (\<And>k. 4 dvd k \<Longrightarrow> k + 4 \<le> 4096 \<Longrightarrow>
       le_ld32 b k = (case map_of fs k of None \<Rightarrow> le_ld32 (zeroed cs (i_cmd_buf io)) k | Some v \<Rightarrow> v)) \<Longrightarrow>
       decode_cmd b = Some c"
  shows "delivers env lk c (gpu_nodata env cs fill) io"
proof -
  have l: "length (zeroed cs (i_cmd_buf io)) = 4096"
    using idle_len [OF assms(1)] assms(2) by (simp add: length_zeroed)
  note s = stores_result [of "zeroed cs (i_cmd_buf io)" fs, unfolded l, OF assms(3)]
  have "fill (zeroed cs (i_cmd_buf io)) = Some (stores fs (zeroed cs (i_cmd_buf io)))"
    using assms(4) s(1) by simp
  then show ?thesis
    using gpu_nodata_result [OF assms(1,2), of fill _ c] s(2) assms(5) [OF s(2) s(3)]
    by (simp add: delivers_def)
qed

lemmas fill_simps = put_words_Cons put_words_Nil cpu_st64_words put_rect_def words_ok_def

lemmas decode_simps = decode_cmd_def get_rect_def get_box_def le_ld64_def mk64_ucast Let_def

lemma delivers_create_2d:
  assumes "io_idle env lk io"
  shows "delivers env lk (ResourceCreate2D rid fmt w h) (chip_ResourceCreate2D env rid fmt w h) io"
  unfolding chip_ResourceCreate2D_def
  by (rule deliversI [OF assms, where fs = "[(0, CMD_RESOURCE_CREATE_2D), (24, rid), (28, fmt), (32, w), (36, h)]"])
    (simp_all add: fill_simps decode_simps)

lemma delivers_unref:
  assumes "io_idle env lk io"
  shows "delivers env lk (ResourceUnref rid) (chip_ResourceUnref env rid) io"
  unfolding chip_ResourceUnref_def
  by (rule deliversI [OF assms, where fs = "[(0, CMD_RESOURCE_UNREF), (24, rid)]"])
    (simp_all add: fill_simps decode_simps)

lemma delivers_set_scanout:
  assumes "io_idle env lk io"
  shows "delivers env lk (SetScanout \<lparr>r_x = x, r_y = y, r_w = w, r_h = h\<rparr> sid rid)
     (set_scanout_once env sid rid x y w h) io"
  unfolding set_scanout_once_def
  by (rule deliversI [OF assms, where fs = "[(0, CMD_SET_SCANOUT), (24, x), (28, y), (32, w), (36, h),
       (40, sid), (44, rid)]"])
    (simp_all add: fill_simps decode_simps)

lemma delivers_flush:
  assumes "io_idle env lk io"
  shows "delivers env lk (ResourceFlush \<lparr>r_x = x, r_y = y, r_w = w, r_h = h\<rparr> rid) (chip_ResourceFlush env rid x y w h) io"
  unfolding chip_ResourceFlush_def
  by (rule deliversI [OF assms, where fs = "[(0, CMD_RESOURCE_FLUSH), (24, x), (28, y), (32, w), (36, h), (40, rid)]"])
    (simp_all add: fill_simps decode_simps)

lemma delivers_transfer_2d:
  assumes "io_idle env lk io"
  shows "delivers env lk (TransferToHost2D \<lparr>r_x = x, r_y = y, r_w = w, r_h = h\<rparr> off rid)
     (transfer_to_host_2d_cmd env rid x y w h off) io"
  unfolding transfer_to_host_2d_cmd_def
  by (rule deliversI [OF assms, where fs = "[(0, CMD_TRANSFER_TO_HOST_2D), (24, x), (28, y), (32, w), (36, h),
       (40, ucast off), (44, ucast (drop_bit 32 off)), (48, rid)]"])
    (simp_all add: fill_simps decode_simps byte_simps)

lemma delivers_ctx_attach:
  assumes "io_idle env lk io"
  shows "delivers env lk (CtxAttach ctx rid) (chip_CTXAttachResource env ctx rid) io"
  unfolding chip_CTXAttachResource_def
  by (rule deliversI [OF assms, where fs = "[(0, CMD_CTX_ATTACH_RESOURCE), (16, ctx), (24, rid)]"])
    (simp_all add: fill_simps decode_simps)

lemma delivers_ctx_detach:
  assumes "io_idle env lk io"
  shows "delivers env lk (CtxDetach ctx rid) (chip_CTXDetachResource env ctx rid) io"
  unfolding chip_CTXDetachResource_def
  by (rule deliversI [OF assms, where fs = "[(0, CMD_CTX_DETACH_RESOURCE), (16, ctx), (24, rid)]"])
    (simp_all add: fill_simps decode_simps)

lemma delivers_create_3d:
  assumes "io_idle env lk io"
  shows "delivers env lk (ResourceCreate3D [rid, target, fmt, bindf, w, h, d, asz, ll, ns, fl])
     (chip_ResourceCreate3D env rid target fmt bindf w h d asz ll ns fl) io"
  unfolding chip_ResourceCreate3D_def
  by (rule deliversI [OF assms, where fs = "[(0, CMD_RESOURCE_CREATE_3D), (24, rid), (28, target), (32, fmt),
      (36, bindf), (40, w), (44, h), (48, d), (52, asz), (56, ll), (60, ns), (64, fl)]"])
    (simp_all add: fill_simps decode_simps)

abbreviation transfer_words :: "u32 \<Rightarrow> u32 \<Rightarrow> u32 \<Rightarrow> u32 \<Rightarrow> u32 \<Rightarrow> u32 \<Rightarrow> u64 \<Rightarrow> gpu_box \<Rightarrow> (nat \<times> u32) list" where
  "transfer_words t ctx rid lvl st ls off box \<equiv> [(0, t), (16, ctx), (56, rid), (60, lvl), (64, st), (68, ls),
     (48, ucast off), (52, ucast (drop_bit 32 off)), (24, bx_x box), (28, bx_y box), (32, bx_z box),
     (36, bx_w box), (40, bx_h box), (44, bx_d box)]"

lemma delivers_transfer_to_3d:
  assumes "io_idle env lk io"
  shows "delivers env lk (TransferToHost3D ctx box off rid lvl st ls) (chip_TransferToHost3D env ctx rid lvl st ls off box) io"
  unfolding chip_TransferToHost3D_def
  by (rule deliversI [OF assms, where fs = "transfer_words CMD_TRANSFER_TO_HOST_3D ctx rid lvl st ls off box"])
    (simp_all add: fill_simps put_transfer_3d_def decode_simps byte_simps)

lemma delivers_transfer_from_3d:
  assumes "io_idle env lk io"
  shows "delivers env lk (TransferFromHost3D ctx box off rid lvl st ls) (chip_TransferFromHost3D env ctx rid lvl st ls off box) io"
  unfolding chip_TransferFromHost3D_def
  by (rule deliversI [OF assms, where fs = "transfer_words CMD_TRANSFER_FROM_HOST_3D ctx rid lvl st ls off box"])
    (simp_all add: fill_simps put_transfer_3d_def decode_simps byte_simps)

section \<open>Entry lists\<close>

definition entries_read :: "nat \<Rightarrow> dma_entry list \<Rightarrow> bytes \<Rightarrow> nat \<Rightarrow> bytes \<Rightarrow> bool" where
  "entries_read base dl b n b' \<longleftrightarrow> length b' = length b
     \<and> (\<forall>i<n. le_ld64 b' (base + 16 * i) = ucast (de_phys (dl ! i)) \<and> le_ld32 b' (base + 16 * i + 8) = de_len (dl ! i))
     \<and> (\<forall>k. k + 4 \<le> base \<longrightarrow> le_ld32 b' k = le_ld32 b k)"

lemma put_mem_entry_step:
  assumes inv: "entries_read base dl b i b1" and i: "i < length dl" and fits: "base + 16 * Suc i \<le> length b"
  shows "\<exists>b2. put_mem_entry base dl i b1 = Some b2 \<and> entries_read base dl b (Suc i) b2"
proof -
  let ?o = "base + 16 * i"
  let ?b2 = "st32 (?o + 12) 0 (st32 (?o + 8) (de_len (dl ! i)) (st64 ?o (ucast (de_phys (dl ! i))) b1))"
  have l: "length b1 = length b" using inv by (simp add: entries_read_def)
  have "cpu_st32 off 0 buf = cpu_st32 off (GP32 0) buf" for off buf by (simp add: GP32_def)
  then have "put_mem_entry base dl i b1 = Some ?b2"
    using i fits l by (simp add: put_mem_entry_def rd_in dma_simps)
  moreover have "length ?b2 = length b" using fits l by (simp add: dma_simps)
  moreover have "le_ld64 ?b2 ?o = ucast (de_phys (dl ! i))" "le_ld32 ?b2 (?o + 8) = de_len (dl ! i)"
    using fits l by (simp_all add: dma_simps)
  moreover have "le_ld64 ?b2 (base + 16 * j) = le_ld64 b1 (base + 16 * j)"
    "le_ld32 ?b2 (base + 16 * j + 8) = le_ld32 b1 (base + 16 * j + 8)" if "j < i" for j
    using fits l that by (simp_all add: dma_simps)
  moreover have "le_ld32 ?b2 k = le_ld32 b1 k" if "k + 4 \<le> base" for k
    using fits l that by (simp add: dma_simps)
  ultimately show ?thesis using inv by (auto simp: entries_read_def less_Suc_eq)
qed

lemma put_mem_entries_result:
  assumes "unat n \<le> length dl" "base + 16 * unat n \<le> length b"
  shows "\<exists>b'. put_mem_entries base dl n b = Some b' \<and> entries_read base dl b (unat n) b'"
  unfolding put_mem_entries_def
proof (rule foldM_upt_rule [where P = "entries_read base dl b"])
  show "entries_read base dl b 0 b" by (simp add: entries_read_def)
next
  fix k s assume "k < unat n" "entries_read base dl b k s"
  then show "\<exists>s'. put_mem_entry base dl k s = Some s' \<and> entries_read base dl b (Suc k) s'"
    using assms by (intro put_mem_entry_step) auto
qed simp

lemma get_entries_read:
  assumes "entries_read base dl b n b'" "n \<le> length dl"
  shows "get_entries b' base n = map (\<lambda>e. (ucast (de_phys e), de_len e)) (take n dl)"
  using assms by (auto simp: get_entries_def entries_read_def intro!: nth_equalityI)

text \<open>A fill that ends with an entry list.\<close>

lemma deliversI_entries:
  assumes idle: "io_idle env lk io" and cs: "base + 16 * unat n \<le> 4096" "unat n \<le> length dl"
    and ok: "words_ok base fs" "\<And>b. fill b = do { b \<leftarrow> put_words fs b; put_mem_entries base dl n b }"
    and dec: "\<And>b. length b = 4096 \<Longrightarrow> (\<And>k v. map_of fs k = Some v \<Longrightarrow> le_ld32 b k = v) \<Longrightarrow>
       get_entries b base (unat n) = map (\<lambda>e. (ucast (de_phys e), de_len e)) (take (unat n) dl) \<Longrightarrow>
       decode_cmd b = Some c"
  shows "delivers env lk c (gpu_nodata env (base + 16 * unat n) fill) io"
proof -
  let ?z = "zeroed (base + 16 * unat n) (i_cmd_buf io)"
  have l: "length ?z = 4096" using idle_len [OF idle] cs(1) by (simp add: length_zeroed)
  have w: "words_ok (length ?z) fs" using ok(1) cs(1) l by (auto simp: words_ok_def list_all_iff)
  note s = stores_result [OF w]
  obtain b' where b': "put_mem_entries base dl n (stores fs ?z) = Some b'"
    "entries_read base dl (stores fs ?z) (unat n) b'"
    using put_mem_entries_result [of n dl base "stores fs ?z"] cs s(2) l by auto
  have f: "fill ?z = Some b'" using ok(2) s(1) b'(1) by simp
  have lb: "length b' = 4096" using b'(2) s(2) l by (simp add: entries_read_def)
  have rd: "le_ld32 b' k = v" if "map_of fs k = Some v" for k v
  proof -
    have k: "4 dvd k" "k + 4 \<le> base"
      using map_of_SomeD [OF that] ok(1) by (auto simp: words_ok_def list_all_iff)
    then have "le_ld32 b' k = le_ld32 (stores fs ?z) k" using b'(2) by (simp add: entries_read_def)
    also have "\<dots> = v" using s(3) [OF k(1)] k(2) cs(1) l that by simp
    finally show ?thesis .
  qed
  have "decode_cmd b' = Some c"
    by (rule dec [OF lb rd get_entries_read [OF b'(2) cs(2)]])
  then show ?thesis
    using gpu_nodata_result [where fill = fill and cmd' = b' and c = c, OF idle cs(1)] f lb
    by (simp add: delivers_def)
qed

lemma delivers_attach_backing:
  assumes idle: "io_idle env lk io" and dl: "unat n \<le> length dl"
  shows "delivers env lk (AttachBacking rid (map (\<lambda>e. (ucast (de_phys e), de_len e)) (take (unat (clamp 254 n)) dl)))
     (chip_ResourceAttachBacking env rid dl n) io"
proof -
  let ?n = "clamp 254 n"
  have n: "unat ?n \<le> 254" "unat ?n \<le> length dl"
    using dl by (auto simp: clamp_def word_less_nat_alt)
  have cs: "unat (32 + 16 * ?n) = 32 + 16 * unat ?n" using n(1) by (simp add: unat_word_ariths)
  have "delivers env lk (AttachBacking rid (map (\<lambda>e. (ucast (de_phys e), de_len e)) (take (unat ?n) dl)))
     (gpu_nodata env (32 + 16 * unat ?n) (\<lambda>cmd. do {
           cmd \<leftarrow> cpu_st32 0 (GP32 CMD_RESOURCE_ATTACH_BACKING) cmd;
           cmd \<leftarrow> cpu_st32 24 (GP32 rid) cmd;
           cmd \<leftarrow> cpu_st32 28 (GP32 ?n) cmd;
           put_mem_entries 32 dl ?n cmd })) io"
    by (rule deliversI_entries [OF idle, where fs = "[(0, CMD_RESOURCE_ATTACH_BACKING), (24, rid), (28, ?n)]"])
      (use n in \<open>simp_all add: fill_simps decode_simps\<close>)
  then show ?thesis
    by (simp add: chip_ResourceAttachBacking_def Let_def cs)
qed

lemma delivers_create_blob:
  assumes idle: "io_idle env lk io" and dl: "unat n \<le> length dl"
  shows "delivers env lk (CreateBlob rid bm bf bid bs (map (\<lambda>e. (ucast (de_phys e), de_len e)) (take (unat (clamp 252 n)) dl)))
     (create_blob_cmd env rid bm bf bid bs dl n) io"
proof -
  let ?n = "clamp 252 n"
  have n: "unat ?n \<le> 252" "unat ?n \<le> length dl"
    using dl by (auto simp: clamp_def word_less_nat_alt)
  have cs: "unat (56 + 16 * ?n) = 56 + 16 * unat ?n" using n(1) by (simp add: unat_word_ariths)
  have "delivers env lk (CreateBlob rid bm bf bid bs (map (\<lambda>e. (ucast (de_phys e), de_len e)) (take (unat ?n) dl)))
     (gpu_nodata env (56 + 16 * unat ?n) (\<lambda>cmd. do {
           cmd \<leftarrow> cpu_st32 0 (GP32 CMD_RESOURCE_CREATE_BLOB) cmd;
           cmd \<leftarrow> cpu_st32 24 (GP32 rid) cmd;
           cmd \<leftarrow> cpu_st32 28 (GP32 bm) cmd;
           cmd \<leftarrow> cpu_st32 32 (GP32 bf) cmd;
           cmd \<leftarrow> cpu_st32 36 (GP32 ?n) cmd;
           cmd \<leftarrow> cpu_st64 40 (GP64 bid) cmd;
           cmd \<leftarrow> cpu_st64 48 (GP64 bs) cmd;
           put_mem_entries 56 dl ?n cmd })) io"
    by (rule deliversI_entries [OF idle, where fs = "[(0, CMD_RESOURCE_CREATE_BLOB), (24, rid), (28, bm), (32, bf),
         (36, ?n), (40, ucast bid), (44, ucast (drop_bit 32 bid)), (48, ucast bs), (52, ucast (drop_bit 32 bs))]"])
      (use n in \<open>simp_all add: fill_simps decode_simps byte_simps\<close>)
  then show ?thesis
    by (simp add: create_blob_cmd_def Let_def cs)
qed

section \<open>Context creation with a name\<close>

text \<open>The C string at a pointer, at most \<open>k\<close> characters.\<close>

definition c_string :: "nat \<Rightarrow> bytes \<Rightarrow> bytes" where
  "c_string k mem = takeWhile (\<lambda>c. c \<noteq> 0) (take k mem)"

lemma c_string_le: "length (c_string k mem) \<le> k"
  unfolding c_string_def by (rule le_trans [OF length_takeWhile_le]) simp

definition terminated :: "nat \<Rightarrow> bytes \<Rightarrow> bool" where
  "terminated k mem \<longleftrightarrow> k \<le> length mem \<or> 0 \<in> set mem"

lemma stbytes_Nil: "stbytes off [] buf = buf"
  by (simp add: stbytes_def)

lemma stbytes_wr:
  assumes "off + Suc (length s) \<le> length buf"
  shows "stbytes (Suc off) s (buf[off := c]) = stbytes off (c # s) buf"
proof -
  have "take (Suc off) (buf[off := c]) = take off buf @ [c]"
    using assms by (simp add: take_Suc_conv_app_nth)
  then show ?thesis by (simp add: stbytes_def)
qed

lemma copy_name_result:
  assumes "terminated (unat nlen + k) name" "0 \<notin> set (take (unat nlen) name)" "unat nlen + k \<le> 63" "95 \<le> length cmd"
  shows "copy_name k nlen name cmd =
    (let s = c_string k (drop (unat nlen) name) in Some (nlen + of_nat (length s), stbytes (32 + unat nlen) s cmd))"
  using assms
proof (induction k arbitrary: nlen cmd)
  case 0
  then show ?case by (simp add: c_string_def stbytes_Nil)
next
  case (Suc k)
  have n: "unat (nlen + 1) = Suc (unat nlen)" using Suc.prems(3) by (simp add: unat_word_ariths)
  have lt: "unat nlen < length name"
  proof (rule ccontr)
    assume "\<not> unat nlen < length name"
    then show False using Suc.prems(1,2) by (auto simp: terminated_def)
  qed
  have hd: "c_string (Suc k) (drop (unat nlen) name) =
      (if name ! unat nlen = 0 then [] else name ! unat nlen # c_string k (drop (Suc (unat nlen)) name))"
    using lt by (simp add: c_string_def Cons_nth_drop_Suc [symmetric])
  show ?case
  proof (cases "name ! unat nlen = 0")
    case True
    then show ?thesis using lt hd by (simp add: rd_in stbytes_Nil)
  next
    case False
    let ?s = "c_string k (drop (Suc (unat nlen)) name)"
    have "0 \<notin> set (take (Suc (unat nlen)) name)"
      using Suc.prems(2) False lt by (auto simp: take_Suc_conv_app_nth)
    then have ih: "copy_name k (nlen + 1) name (cmd[32 + unat nlen := name ! unat nlen]) =
        Some (nlen + 1 + of_nat (length ?s), stbytes (Suc (32 + unat nlen)) ?s (cmd[32 + unat nlen := name ! unat nlen]))"
      using Suc.IH [of "nlen + 1" "cmd[32 + unat nlen := name ! unat nlen]"] Suc.prems n
      by (simp add: Let_def)
    have "length ?s \<le> k" by (rule c_string_le)
    then have "32 + unat nlen + Suc (length ?s) \<le> length cmd" using Suc.prems(3,4) by simp
    then show ?thesis
      using lt hd False ih Suc.prems(3,4) stbytes_wr [of "32 + unat nlen" ?s cmd "name ! unat nlen"]
      by (simp add: rd_in wr_in Let_def ac_simps)
  qed
qed

lemma delivers_ctx_create:
  assumes idle: "io_idle env lk io" and t: "\<And>name. dn = Some name \<Longrightarrow> terminated 63 name"
  shows "delivers env lk (CtxCreate ctx ci (case dn of None \<Rightarrow> [] | Some name \<Rightarrow> c_string 63 name))
     (chip_CTXCreate env ctx dn ci) io"
proof (cases dn)
  case None
  show ?thesis unfolding chip_CTXCreate_def None
    by (rule deliversI [OF idle, where fs = "[(0, CMD_CTX_CREATE), (16, ctx), (24, 0), (28, ci)]"])
      (simp_all add: fill_simps decode_simps)
next
  case (Some name)
  let ?z = "zeroed 96 (i_cmd_buf io)" and ?s = "c_string 63 name"
  let ?fs = "[(0, CMD_CTX_CREATE), (16, ctx)] :: (nat \<times> u32) list"
  let ?gs = "[(24, of_nat (length ?s)), (28, ci)] :: (nat \<times> u32) list"
  have lz: "length ?z = 4096" using idle_len [OF idle] by (simp add: length_zeroed)
  have ls: "length ?s \<le> 63" by (rule c_string_le)
  have n: "unat (of_nat (length ?s) :: u32) = length ?s" using ls by (simp add: unat_of_nat)
  have w: "words_ok (length ?z) ?fs" by (simp add: lz words_ok_def)
  note a = stores_result [OF w]
  let ?b1 = "stores ?fs ?z"
  let ?b2 = "(stbytes 32 ?s ?b1)[32 + length ?s := 0]"
  have l1: "length ?b1 = 4096" using a(2) lz by simp
  have l2: "length ?b2 = 4096" using l1 ls by (simp add: length_stbytes)
  have cp: "copy_name 63 0 name ?b1 = Some (of_nat (length ?s), stbytes 32 ?s ?b1)"
    using copy_name_result [of 0 63 name ?b1] t [OF Some] l1 by (simp add: Let_def)
  have w2: "words_ok (length ?b2) ?gs" using l2 by (simp add: words_ok_def)
  note b = stores_result [OF w2]
  let ?b3 = "stores ?gs ?b2"
  have l3: "length ?b3 = 4096" using b(2) l2 by simp
  have fill: "(do { cmd \<leftarrow> cpu_st32 0 (GP32 CMD_CTX_CREATE) ?z;
     cmd \<leftarrow> cpu_st32 16 (GP32 ctx) cmd;
     (nlen, cmd) \<leftarrow> (case dn of None \<Rightarrow> Some (0, cmd)
        | Some name \<Rightarrow> do {
            (nlen, cmd) \<leftarrow> copy_name 63 0 name cmd;
            cmd \<leftarrow> wr cmd (32 + unat nlen) 0;
            Some (nlen, cmd) });
     cmd \<leftarrow> cpu_st32 24 (GP32 nlen) cmd;
     cpu_st32 28 (GP32 ci) cmd }) = Some ?b3"
  proof -
    have "(do { cmd \<leftarrow> cpu_st32 0 (GP32 CMD_CTX_CREATE) ?z; cpu_st32 16 (GP32 ctx) cmd }) = Some ?b1"
      using a(1) by (simp add: put_words_Cons put_words_Nil)
    then obtain b0 where b0: "cpu_st32 0 (GP32 CMD_CTX_CREATE) ?z = Some b0" "cpu_st32 16 (GP32 ctx) b0 = Some ?b1"
      by (auto simp: bind_eq_Some_conv)
    have "(do { cmd \<leftarrow> cpu_st32 24 (GP32 (of_nat (length ?s))) ?b2; cpu_st32 28 (GP32 ci) cmd }) = Some ?b3"
      using b(1) by (simp add: put_words_Cons put_words_Nil)
    then show ?thesis using b0 cp n ls l1 by (simp add: Some wr_in length_stbytes)
  qed
  have rd1: "le_ld32 ?b3 k = (case map_of ?gs k of None \<Rightarrow> le_ld32 ?b1 k | Some v \<Rightarrow> v)" if "4 dvd k" "k + 4 \<le> 32" for k
  proof -
    have "le_ld32 ?b2 k = le_ld32 (stbytes 32 ?s ?b1) k" using that by (simp add: le_ld32_def)
    also have "\<dots> = le_ld32 ?b1 k" using that ls l1 by (intro le_ld32_frame) auto
    finally show ?thesis using b(3) [OF that(1)] that(2) l2 by (simp split: option.split)
  qed
  have name: "take (length ?s) (drop 32 ?b3) = ?s"
  proof (rule nth_equalityI)
    show "length (take (length ?s) (drop 32 ?b3)) = length ?s" using l3 ls by simp
    fix i assume i: "i < length (take (length ?s) (drop 32 ?b3))"
    have st: "stores ?gs ?b2 ! j = ?b2 ! j" if "32 \<le> j" "j < 4096" for j
      using that l2 by (simp add: stores_def st32_def nth_stbytes length_stbytes)
    show "take (length ?s) (drop 32 ?b3) ! i = ?s ! i"
      using i ls l1 l3 by (simp add: st nth_stbytes)
  qed
  have "decode_cmd ?b3 = Some (CtxCreate ctx ci ?s)"
    using rd1 [of 0] rd1 [of 16] rd1 [of 24] rd1 [of 28] a(3) [of 0] a(3) [of 16] lz n name
    by (simp add: decode_cmd_def Let_def)
  with fill l3 show ?thesis
    unfolding chip_CTXCreate_def by (intro delivers_of [OF idle] exI [of _ ?b3] conjI) (simp_all add: Some)
qed

end
