(* ===== verification/Gpu_Driver.thy ===== *)
theory Gpu_Driver
  imports Gpu_Protocol
begin

text \<open>
  The operations of the command layer that use more of \<open>ChipGPUState\<close> than the transport:
  resource ids (\<open>include/chip/chip_state.h\<close>), SET_SCANOUT with its retries, the blob fast path of
  TRANSFER_TO_HOST_2D, EDID, capset selection, blob resources, the hardware cursor
  (\<open>src/chip/chip_gpu_cmds.c\<close>, \<open>src/chip/chip_gpu_3d.c\<close>) and the framebuffer resize of
  \<open>src/chip/chip_init.c\<close>.
\<close>

section \<open>State\<close>

record gpu =
  g_io :: io
  g_dma_lists :: "u32 \<Rightarrow> dma_entry list"   \<comment> \<open>what \<open>GetDMAList\<close> answers for a buffer\<close>
  g_scanout_log_x :: "u32 list"
  g_scanout_log_y :: "u32 list"
  g_scanout_log_w :: "u32 list"
  g_scanout_log_h :: "u32 list"
  g_fb_mem :: u32
  g_fb_phys :: u32
  g_fb_size :: u32
  g_fb_stride :: u32
  g_fb_width :: u32
  g_fb_height :: u32
  g_resource_id :: u32
  g_fb_resource_id :: u32
  g_fb_dma_count :: u32
  g_fb_dma_list :: u32                      \<comment> \<open>the DMA entry object, 0 for NULL\<close>
  g_fb_resource_id2 :: u32
  g_fb_is_blob :: bool
  g_next_resource_id :: u32
  g_next_ctx_id :: u32
  g_cursor_mem :: u32
  g_cursor_phys :: u32
  g_cursor_resource_id :: u32
  g_cursor_created :: bool
  g_cursor_x :: u16                         \<comment> \<open>a \<open>WORD\<close>: read signed\<close>
  g_cursor_y :: u16
  g_cursor_last_sent_x :: u16
  g_cursor_last_sent_y :: u16
  g_has_edid :: bool
  g_edid_size :: u32
  g_edid :: bytes
  g_edid_native_w :: u32
  g_edid_native_h :: u32
  g_edid_dtd_count :: u32
  g_edid_dtd_w :: "u16 list"
  g_edid_dtd_h :: "u16 list"
  g_has_virgl :: bool
  g_num_capsets :: u32
  g_virgl_capset_id :: u32
  g_virgl_capset_ver :: u32
  g_virgl_capset_size :: u32
  g_virgl_caps :: bytes
  g_virgl_caps_valid :: bool
  g_has_blob :: bool
  g_virgl_ctx_error :: bool

text \<open>Running a transport command inside the driver state.\<close>

definition with_io :: "(io \<Rightarrow> ('a \<times> io) option) \<Rightarrow> gpu \<Rightarrow> ('a \<times> gpu) option" where
  "with_io f gs = do { (r, io) \<leftarrow> f (g_io gs); Some (r, gs\<lparr>g_io := io\<rparr>) }"

definition with_exec :: "(exec \<Rightarrow> 'a \<times> exec) \<Rightarrow> gpu \<Rightarrow> 'a \<times> gpu" where
  "with_exec f gs = (let (r, ex) = f (i_exec (g_io gs)) in (r, gs\<lparr>g_io := (g_io gs)\<lparr>i_exec := ex\<rparr>\<rparr>))"

definition do_exec :: "(exec \<Rightarrow> exec) \<Rightarrow> gpu \<Rightarrow> gpu" where
  "do_exec f gs = gs\<lparr>g_io := (g_io gs)\<lparr>i_exec := f (i_exec (g_io gs))\<rparr>\<rparr>"

section \<open>Resource ids\<close>

text \<open>The \<open>do ... while\<close> of \<open>chip_alloc_resource_id\<close>: the id, and the counter afterwards.\<close>

definition free_after :: "u32 set \<Rightarrow> u32 \<Rightarrow> nat" where
  "free_after S next_id = (LEAST k. next_id + of_nat k \<notin> S)"

lemma free_after_ex: "\<exists>k. next_id + of_nat k \<notin> {a, b, c :: u32}"
proof -
  have "card ((\<lambda>k. next_id + of_nat k) ` {0, 1, 2, 3 :: nat}) = 4"
  proof -
    have "inj_on (\<lambda>k. next_id + of_nat k) {0, 1, 2, 3 :: nat}" by (auto simp: inj_on_def)
    then have "card ((\<lambda>k. next_id + of_nat k) ` {0, 1, 2, 3 :: nat}) = card {0, 1, 2, 3 :: nat}" by (rule card_image)
    then show ?thesis by simp
  qed
  moreover have "card {a, b, c} \<le> 3" by (simp add: card_insert_if)
  ultimately have "\<not> (\<lambda>k. next_id + of_nat k) ` {0, 1, 2, 3 :: nat} \<subseteq> {a, b, c}"
    using card_mono [of "{a, b, c}" "(\<lambda>k. next_id + of_nat k) ` {0, 1, 2, 3 :: nat}"] by auto
  then show ?thesis by blast
qed

lemma free_after_step:
  assumes "next_id \<in> {a, b, c}"
  shows "free_after {a, b, c} (next_id + 1) < free_after {a, b, c} next_id"
proof -
  let ?S = "{a, b, c}" and ?k = "free_after {a, b, c} next_id"
  have k: "next_id + of_nat ?k \<notin> ?S"
    unfolding free_after_def by (rule LeastI_ex [OF free_after_ex])
  have "?k \<noteq> 0"
  proof
    assume "?k = 0"
    then show False using k assms by simp
  qed
  then obtain j where j: "?k = Suc j" by (cases ?k) auto
  then have "next_id + 1 + of_nat j \<notin> ?S" using k by (simp add: ac_simps)
  then have "free_after ?S (next_id + 1) \<le> j"
    unfolding free_after_def by (rule Least_le)
  then show ?thesis using j by simp
qed

function next_free_id :: "u32 \<Rightarrow> u32 \<Rightarrow> u32 \<Rightarrow> u32 \<Rightarrow> u32 \<times> u32" where
  "next_free_id fb fb2 cursor next_id =
     (if next_id = fb \<or> next_id = fb2 \<or> next_id = cursor
      then next_free_id fb fb2 cursor (next_id + 1) else (next_id, next_id + 1))"
  by pat_completeness auto
termination
  by (relation "measure (\<lambda>(a, b, c, n). free_after {a, b, c} n)") (auto intro: free_after_step)

declare next_free_id.simps [simp del]

definition chip_alloc_resource_id :: "gpu \<Rightarrow> u32 \<times> gpu" where
  "chip_alloc_resource_id gs =
     (let (rid, nxt) = next_free_id (g_fb_resource_id gs) (g_fb_resource_id2 gs)
                         (g_cursor_resource_id gs) (g_next_resource_id gs)
      in (rid, gs\<lparr>g_next_resource_id := nxt\<rparr>))"

section \<open>Scanout and transfer\<close>

definition log_scanout :: "u32 \<Rightarrow> u32 \<Rightarrow> u32 \<Rightarrow> u32 \<Rightarrow> u32 \<Rightarrow> gpu \<Rightarrow> gpu option" where
  "log_scanout scanout_id x y w h gs =
     (if scanout_id < 4 then do {
        let i = unat scanout_id;
        lx \<leftarrow> rd (g_scanout_log_x gs) i;
        ly \<leftarrow> rd (g_scanout_log_y gs) i;
        lw \<leftarrow> rd (g_scanout_log_w gs) i;
        lh \<leftarrow> rd (g_scanout_log_h gs) i;
        if lx \<noteq> x \<or> ly \<noteq> y \<or> lw \<noteq> w \<or> lh \<noteq> h
        then Some (gs\<lparr>g_scanout_log_x := (g_scanout_log_x gs)[i := x],
                     g_scanout_log_y := (g_scanout_log_y gs)[i := y],
                     g_scanout_log_w := (g_scanout_log_w gs)[i := w],
                     g_scanout_log_h := (g_scanout_log_h gs)[i := h]\<rparr>)
        else Some gs }
      else Some gs)"

definition chip_SetScanout :: "env \<Rightarrow> u32 \<Rightarrow> u32 \<Rightarrow> u32 \<Rightarrow> u32 \<Rightarrow> u32 \<Rightarrow> u32 \<Rightarrow> gpu \<Rightarrow> (bool \<times> gpu) option" where
  "chip_SetScanout env scanout_id resource_id x y width height gs = do {
     gs \<leftarrow> log_scanout scanout_id x y width height gs;
     with_io (set_scanout_retry 3 env scanout_id resource_id x y width height) gs }"

definition chip_TransferToHost2D :: "env \<Rightarrow> u32 \<Rightarrow> u32 \<Rightarrow> u32 \<Rightarrow> u32 \<Rightarrow> u32 \<Rightarrow> u64 \<Rightarrow> gpu \<Rightarrow> (bool \<times> gpu) option" where
  "chip_TransferToHost2D env resource_id x y width height offset gs =
     (if g_fb_is_blob gs \<and> resource_id = g_fb_resource_id gs then Some (True, gs)
      else with_io (transfer_to_host_2d_cmd env resource_id x y width height offset) gs)"

definition chip_ResourceCreateBlob :: "env \<Rightarrow> u32 \<Rightarrow> u32 \<Rightarrow> u32 \<Rightarrow> u64 \<Rightarrow> u64 \<Rightarrow> dma_entry list \<Rightarrow> u32 \<Rightarrow> gpu \<Rightarrow> (bool \<times> gpu) option" where
  "chip_ResourceCreateBlob env resource_id blob_mem blob_flags blob_id bsize dma_list dma_count gs =
     (if \<not> g_has_blob gs then Some (False, gs)
      else with_io (create_blob_cmd env resource_id blob_mem blob_flags blob_id bsize dma_list dma_count) gs)"

section \<open>EDID\<close>

text \<open>
  The list of timings under construction: the count and the two 16-entry arrays.  The duplicate
  loop and \<open>ADD_DTD\<close> follow the macro.
\<close>

type_synonym dtds = "u32 \<times> u16 list \<times> u16 list"

fun dtd_dup :: "nat list \<Rightarrow> u32 \<Rightarrow> u32 \<Rightarrow> u16 list \<Rightarrow> u16 list \<Rightarrow> bool option" where
  "dtd_dup [] w h ws hs = Some False"
| "dtd_dup (i # is) w h ws hs = do {
     wi \<leftarrow> rd ws i;
     hi \<leftarrow> rd hs i;
     if ucast wi = w \<and> ucast hi = h then Some True else dtd_dup is w h ws hs }"

definition add_dtd :: "u32 \<Rightarrow> u32 \<Rightarrow> dtds \<Rightarrow> dtds option" where
  "add_dtd w h st = (case st of (cnt, ws, hs) \<Rightarrow>
     if 0 < w \<and> 0 < h \<and> cnt < 16 then do {
       dup \<leftarrow> dtd_dup [0..<unat cnt] w h ws hs;
       if dup then Some st
       else do {
         ws \<leftarrow> wr ws (unat cnt) (ucast w);
         hs \<leftarrow> wr hs (unat cnt) (ucast h);
         Some (cnt + 1, ws, hs) } }
     else Some st)"

text \<open>\<open>pixel_clock\<close>, \<open>h_active\<close>, \<open>v_active\<close> of the descriptor at \<open>off\<close>.\<close>

definition dtd_clock :: "bytes \<Rightarrow> nat \<Rightarrow> u16 option" where
  "dtd_clock edid off = do {
     b0 \<leftarrow> rd edid off;
     b1 \<leftarrow> rd edid (off + 1);
     Some (ucast b0 OR push_bit 8 (ucast b1)) }"

definition dtd_active :: "bytes \<Rightarrow> nat \<Rightarrow> nat \<Rightarrow> u32 option" where
  "dtd_active edid lo hi = do {
     l \<leftarrow> rd edid lo;
     h \<leftarrow> rd edid hi;
     Some (ucast l OR push_bit 8 (drop_bit 4 (ucast h))) }"

definition take_dtd :: "bytes \<Rightarrow> nat \<Rightarrow> dtds \<Rightarrow> dtds option" where
  "take_dtd edid off st = do {
     h_active \<leftarrow> dtd_active edid (off + 2) (off + 4);
     v_active \<leftarrow> dtd_active edid (off + 5) (off + 7);
     add_dtd h_active v_active st }"

text \<open>The base block; \<open>break\<close> ends the recursion, \<open>continue\<close> goes on with the same list.\<close>

fun base_dtds :: "nat list \<Rightarrow> bytes \<Rightarrow> u32 \<Rightarrow> dtds \<Rightarrow> dtds option" where
  "base_dtds [] edid edid_size st = Some st"
| "base_dtds (off # offs) edid edid_size st =
     (if unat edid_size < off + 8 then Some st
      else do {
        pixel_clock \<leftarrow> dtd_clock edid off;
        if pixel_clock = 0 then base_dtds offs edid edid_size st
        else do {
          st \<leftarrow> take_dtd edid off st;
          base_dtds offs edid edid_size st } })"

function cea_dtds :: "bytes \<Rightarrow> nat \<Rightarrow> nat \<Rightarrow> dtds \<Rightarrow> dtds option" where
  "cea_dtds edid limit off st =
     (if off + 18 \<le> limit then do {
        pixel_clock \<leftarrow> dtd_clock edid off;
        if pixel_clock = 0 then Some st
        else do {
          st \<leftarrow> take_dtd edid off st;
          cea_dtds edid limit (off + 18) st } }
      else Some st)"
  by pat_completeness auto
termination
  by (relation "measure (\<lambda>(_, limit, off, _). limit - off)") auto

declare cea_dtds.simps [simp del]

fun ext_dtds :: "nat list \<Rightarrow> bytes \<Rightarrow> u32 \<Rightarrow> dtds \<Rightarrow> dtds option" where
  "ext_dtds [] edid edid_size st = Some st"
| "ext_dtds (e # es) edid edid_size st =
     (let ext_base = 128 * (e + 1) in
      if unat edid_size < ext_base + 128 then Some st
      else do {
        tag \<leftarrow> rd edid ext_base;
        if tag \<noteq> 2 then ext_dtds es edid edid_size st
        else do {
          b \<leftarrow> rd edid (ext_base + 2);
          let dtd_off = unat b;
          if dtd_off < 4 \<or> 125 < dtd_off then ext_dtds es edid edid_size st
          else do {
            st \<leftarrow> cea_dtds edid (ext_base + 126) (ext_base + dtd_off) st;
            ext_dtds es edid edid_size st } } })"

definition parse_edid :: "bytes \<Rightarrow> u32 \<Rightarrow> dtds \<Rightarrow> dtds option" where
  "parse_edid edid edid_size st = do {
     st \<leftarrow> base_dtds [54, 72, 90, 108] edid edid_size st;
     if 128 \<le> edid_size then do {
       ext_count \<leftarrow> rd edid 126;
       ext_dtds [0..<unat ext_count] edid edid_size st }
     else Some st }"

definition chip_GetEDID :: "env \<Rightarrow> u32 \<Rightarrow> gpu \<Rightarrow> (bool \<times> gpu) option" where
  "chip_GetEDID env scanout gs = do {
     (resp_type, io) \<leftarrow> gpu_begin env 32 1056 1056 (\<lambda>cmd. do {
        cmd \<leftarrow> cpu_st32 0 (GP32 CMD_GET_EDID) cmd;
        cpu_st32 24 (GP32 scanout) cmd }) (g_io gs);
     if resp_type \<noteq> RESP_OK_EDID
     then Some (False, gs\<lparr>g_io := release_io_lock io, g_has_edid := False\<rparr>)
     else do {
       sz \<leftarrow> cpu_ld32 24 (i_resp_buf io);
       let edid_size = clamp 1024 (GP32 sz);
       edid \<leftarrow> foldM (\<lambda>i edid. do { b \<leftarrow> rd (i_resp_buf io) (32 + i); wr edid i b })
                 [0..<unat edid_size] (g_edid gs);
       (cnt, ws, hs) \<leftarrow> parse_edid edid edid_size (0, g_edid_dtd_w gs, g_edid_dtd_h gs);
       (nw, nh) \<leftarrow> (if 0 < cnt then do { w \<leftarrow> rd ws 0; h \<leftarrow> rd hs 0; Some (ucast w, ucast h) }
                   else Some (0, 0));
       Some (True, gs\<lparr>g_io := release_io_lock io, g_edid_size := edid_size, g_edid := edid,
         g_has_edid := True, g_edid_native_w := nw, g_edid_native_h := nh,
         g_edid_dtd_count := cnt, g_edid_dtd_w := ws, g_edid_dtd_h := hs\<rparr>) } }"

section \<open>Capability sets\<close>

abbreviation CAPSET_VIRGL :: u32 where "CAPSET_VIRGL \<equiv> 1"
abbreviation CAPSET_VIRGL2 :: u32 where "CAPSET_VIRGL2 \<equiv> 2"

fun query_capsets :: "env \<Rightarrow> nat list \<Rightarrow> gpu \<Rightarrow> gpu option" where
  "query_capsets env [] gs = Some gs"
| "query_capsets env (i # is) gs = do {
     (info, gs) \<leftarrow> with_io (chip_GetCapsetInfo env (of_nat i)) gs;
     (case info of None \<Rightarrow> query_capsets env is gs
      | Some (cid, max_ver, max_size) \<Rightarrow>
          if cid = CAPSET_VIRGL2 \<or> cid = CAPSET_VIRGL \<and> g_virgl_capset_id gs = 0
          then do {
            let gs = gs\<lparr>g_virgl_capset_id := cid, g_virgl_capset_ver := max_ver\<rparr>;
            let fetch_size = clamp 2048 max_size;
            (r, gs) \<leftarrow> with_io (chip_GetCapset env cid max_ver (g_virgl_caps gs) fetch_size) gs;
            let gs = (case r of None \<Rightarrow> gs
              | Some (caps, actual) \<Rightarrow> gs\<lparr>g_virgl_caps := caps, g_virgl_capset_size := actual, g_virgl_caps_valid := True\<rparr>);
            if cid = CAPSET_VIRGL2 then Some gs else query_capsets env is gs }
          else query_capsets env is gs) }"

definition chip_QueryCapsets :: "env \<Rightarrow> gpu \<Rightarrow> gpu option" where
  "chip_QueryCapsets env gs = do {
     gs \<leftarrow> query_capsets env [0..<unat (g_num_capsets gs)]
       (gs\<lparr>g_virgl_caps_valid := False, g_virgl_capset_id := 0, g_virgl_capset_ver := 0\<rparr>);
     Some (if g_virgl_caps_valid gs then gs else gs\<lparr>g_has_virgl := False\<rparr>) }"

section \<open>The hardware cursor\<close>

definition release_cursor_mem :: "gpu \<Rightarrow> gpu" where
  "release_cursor_mem gs = (do_exec (\<lambda>ex. FreeVec (g_cursor_mem gs) (EndDMA (g_cursor_mem gs) ex)) gs)\<lparr>g_cursor_mem := 0\<rparr>"

definition chip_CursorCreate :: "env \<Rightarrow> gpu \<Rightarrow> (bool \<times> gpu) option" where
  "chip_CursorCreate env gs =
     (if g_cursor_created gs then Some (True, gs)
      else if i_cursq (g_io gs) = None then Some (False, gs)
      else let (mem, gs) = with_exec AllocVecTags gs; gs = gs\<lparr>g_cursor_mem := mem\<rparr> in
      if mem = 0 then Some (False, gs)
      else let (n, gs) = with_exec (StartDMA mem) gs in
      if n = 0 then Some (False, (do_exec (FreeVec mem) gs)\<lparr>g_cursor_mem := 0\<rparr>)
      else let (dma, gs) = with_exec AllocSysObject gs in
      if dma = 0 then Some (False, release_cursor_mem gs)
      else do {
        let dma_list = g_dma_lists gs mem;
        e \<leftarrow> rd dma_list 0;
        let gs = gs\<lparr>g_cursor_phys := de_phys e, g_cursor_resource_id := 2\<rparr>;
        (ok, gs) \<leftarrow> with_io (chip_ResourceCreate2D env (g_cursor_resource_id gs) FORMAT_B8G8R8A8_UNORM 64 64) gs;
        if \<not> ok then Some (False, release_cursor_mem (do_exec (FreeSysObject dma) gs))
        else do {
          (ok, gs) \<leftarrow> with_io (chip_ResourceAttachBacking env (g_cursor_resource_id gs) dma_list 1) gs;
          if \<not> ok then Some (False, release_cursor_mem (do_exec (FreeSysObject dma) gs))
          else Some (True, (do_exec (FreeSysObject dma) gs)\<lparr>g_cursor_created := True\<rparr>) } })"

definition clamp_pos :: "u16 \<Rightarrow> u32" where
  "clamp_pos v = (if sint v < 0 then 0 else ucast v)"

definition cursor_send :: "env \<Rightarrow> u32 \<Rightarrow> u32 \<Rightarrow> u32 \<Rightarrow> u32 \<Rightarrow> u32 \<Rightarrow> u32 \<Rightarrow> gpu \<Rightarrow> gpu option" where
  "cursor_send env cmd_type resource_id x y hot_x hot_y gs = do {
     io \<leftarrow> chip_cursor_send env cmd_type resource_id x y hot_x hot_y (g_io gs);
     Some (gs\<lparr>g_io := io\<rparr>) }"

definition chip_CursorUpdate :: "env \<Rightarrow> u32 \<Rightarrow> u32 \<Rightarrow> gpu \<Rightarrow> gpu option" where
  "chip_CursorUpdate env hot_x hot_y gs =
     (if \<not> g_cursor_created gs then Some gs
      else do {
        let px = clamp_pos (g_cursor_x gs);
        let py = clamp_pos (g_cursor_y gs);
        (ok, gs) \<leftarrow> chip_TransferToHost2D env (g_cursor_resource_id gs) 0 0 64 64 0 gs;
        gs \<leftarrow> cursor_send env CMD_UPDATE_CURSOR (g_cursor_resource_id gs) px py hot_x hot_y gs;
        Some (gs\<lparr>g_cursor_last_sent_x := g_cursor_x gs, g_cursor_last_sent_y := g_cursor_y gs\<rparr>) })"

definition chip_CursorMove :: "env \<Rightarrow> u16 \<Rightarrow> u16 \<Rightarrow> gpu \<Rightarrow> gpu option" where
  "chip_CursorMove env x y gs =
     (if \<not> g_cursor_created gs then Some gs
      else do {
        let gs = gs\<lparr>g_cursor_x := x, g_cursor_y := y\<rparr>;
        let px = clamp_pos x;
        let py = clamp_pos y;
        cursor_send env CMD_MOVE_CURSOR (g_cursor_resource_id gs) px py 0 0 gs })"

definition chip_CursorHide :: "env \<Rightarrow> gpu \<Rightarrow> gpu option" where
  "chip_CursorHide env gs =
     (if \<not> g_cursor_created gs then Some gs
      else cursor_send env CMD_UPDATE_CURSOR 0 0 0 0 0 gs)"

section \<open>Resizing the framebuffer\<close>

text \<open>The \<open>fail_dma\<close> exit.\<close>

definition resize_fail :: "u32 \<Rightarrow> u32 \<Rightarrow> gpu \<Rightarrow> gpu" where
  "resize_fail new_mem new_dma gs =
     do_exec (\<lambda>ex. FreeVec new_mem (EndDMA new_mem (FreeSysObject new_dma ex))) gs"

definition chip_resize_fb_to_mode :: "env \<Rightarrow> u32 \<Rightarrow> u32 \<Rightarrow> gpu \<Rightarrow> (bool \<times> gpu) option" where
  "chip_resize_fb_to_mode env new_w new_h gs =
     (if new_w = 0 \<or> new_h = 0 then Some (False, gs)
      else if new_w = g_fb_width gs \<and> new_h = g_fb_height gs then Some (True, gs)
      else let new_stride = new_w * 4; new_size = new_h * new_stride;
               (new_mem, gs) = with_exec AllocVecTags gs in
      if new_mem = 0 then Some (False, gs)
      else let (new_dma_count, gs) = with_exec (StartDMA new_mem) gs in
      if new_dma_count = 0 then Some (False, do_exec (FreeVec new_mem) gs)
      else let (new_dma, gs) = with_exec AllocSysObject gs in
      if new_dma = 0 then Some (False, do_exec (\<lambda>ex. FreeVec new_mem (EndDMA new_mem ex)) gs)
      else do {
        let new_dma_list = g_dma_lists gs new_mem;
        e \<leftarrow> rd new_dma_list 0;
        let new_phys = de_phys e;
        let (new_res_id, gs) = chip_alloc_resource_id gs;
        (ok, gs) \<leftarrow> with_io (chip_ResourceCreate2D env new_res_id FORMAT_B8G8R8X8_UNORM new_w new_h) gs;
        if \<not> ok then Some (False, resize_fail new_mem new_dma gs)
        else do {
          (ok, gs) \<leftarrow> with_io (chip_ResourceAttachBacking env new_res_id new_dma_list new_dma_count) gs;
          if \<not> ok then do {
            (_, gs) \<leftarrow> with_io (chip_ResourceUnref env new_res_id) gs;
            Some (False, resize_fail new_mem new_dma gs) }
          else do {
            (ok, gs) \<leftarrow> chip_SetScanout env 0 new_res_id 0 0 new_w new_h gs;
            if \<not> ok then do {
              (_, gs) \<leftarrow> with_io (chip_ResourceUnref env new_res_id) gs;
              Some (False, resize_fail new_mem new_dma gs) }
            else do {
              let old_res = g_fb_resource_id gs;
              let old_mem = g_fb_mem gs;
              let old_dma = g_fb_dma_list gs;
              let gs = gs\<lparr>g_fb_mem := new_mem, g_fb_phys := new_phys, g_fb_width := new_w, g_fb_height := new_h,
                g_fb_stride := new_stride, g_fb_size := new_size, g_fb_dma_count := new_dma_count,
                g_fb_dma_list := new_dma, g_resource_id := new_res_id, g_fb_resource_id := new_res_id\<rparr>;
              (_, gs) \<leftarrow> (if old_res \<noteq> 0 then with_io (chip_ResourceUnref env old_res) gs else Some (True, gs));
              let gs = (if old_dma \<noteq> 0 then do_exec (FreeSysObject old_dma) gs else gs);
              let gs = (if old_mem \<noteq> 0 then do_exec (\<lambda>ex. FreeVec old_mem (EndDMA old_mem ex)) gs else gs);
              Some (True, gs) } } } })"

end
