(* ===== verification/Framebuffer.thy ===== *)
theory Framebuffer
  imports Pixels Profiling Gpu_Driver
begin

text \<open>
  The display state of \<open>ChipGPUState\<close> and the conversion of the visible screen into the GPU's
  pixel layout (\<open>src/chip/chip_flush.c\<close>): the row converters, their selection and
  \<open>chip_convert_rect\<close>.  Memory is one flat list of bytes; pointers are 32-bit addresses into it,
  pointer arithmetic is exact, and an access outside the list is \<^term>\<open>None\<close>.  The
  static flags that only suppress repeated debug lines are left out.
\<close>

section \<open>State\<close>

record disp =
  d_gs :: gpu
  d_mem :: bytes
  d_board_mem :: u32
  d_fb_mem2 :: u32
  d_fb_phys2 :: u32
  d_fb_dma_count2 :: u32
  d_fb_dma_list2 :: u32
  d_virgl_2d_resource2 :: u32
  d_double_buffer :: bool
  d_virgl_2d_ready :: bool
  d_virgl_2d_ctx :: u32
  d_virgl_2d_resource :: u32
  d_active_format :: RGBFTYPE
  d_active_width :: u32
  d_active_height :: u32
  d_panning_mem :: u32
  d_panning_width :: u32
  d_pan_xoff :: u16                  \<comment> \<open>a \<open>WORD\<close>: read signed\<close>
  d_pan_yoff :: u16
  d_palette :: "u32 list"
  d_flush_task :: u32
  d_flush_sig_mask :: u32
  d_stat_signal_calls :: u32
  d_signals :: "(u32 \<times> u32) list"     \<comment> \<open>the calls of \<open>Signal\<close>\<close>
  d_eclock :: eclock
  d_prof_convert :: ChipProf
  d_prof_flush_all :: ChipProf
  d_proflog :: proflog

section \<open>Row converters\<close>

type_synonym row_conv = "nat \<Rightarrow> nat \<Rightarrow> u32 \<Rightarrow> u32 list \<Rightarrow> bytes \<Rightarrow> bytes option"

definition conv_row_clut :: row_conv where
  "conv_row_clut src dst w palette = foldM (\<lambda>col m. do {
     i \<leftarrow> rd m (src + col); v \<leftarrow> rd palette (unat i); cpu_st32 (dst + col * 4) v m }) [0..<unat w]"

definition r5g6b5_pixel :: "u16 \<Rightarrow> u32" where
  "r5g6b5_pixel v =
     (let r = ucast (drop_bit 11 v) AND 0x1F; g = ucast (drop_bit 5 v) AND 0x3F; b = ucast v AND 0x1F;
          r = push_bit 3 r OR drop_bit 2 r; g = push_bit 2 g OR drop_bit 4 g; b = push_bit 3 b OR drop_bit 2 b
      in push_bit 24 b OR push_bit 16 g OR push_bit 8 r)"

definition conv_row_r5g6b5 :: row_conv where
  "conv_row_r5g6b5 src dst w palette = foldM (\<lambda>col m. do {
     v \<leftarrow> cpu_ld16 (src + col * 2) m; cpu_st32 (dst + col * 4) (r5g6b5_pixel v) m }) [0..<unat w]"

definition a8r8g8b8_pixel :: "u32 \<Rightarrow> u32" where
  "a8r8g8b8_pixel s = push_bit 24 s OR push_bit 8 (s AND 0x0000FF00) OR drop_bit 8 (s AND 0x00FF0000) OR drop_bit 24 s"

definition conv_row_a8r8g8b8 :: row_conv where
  "conv_row_a8r8g8b8 src dst w palette = foldM (\<lambda>col m. do {
     s \<leftarrow> cpu_ld32 (src + col * 4) m; cpu_st32 (dst + col * 4) (a8r8g8b8_pixel s) m }) [0..<unat w]"

definition conv_row_b8g8r8a8 :: row_conv where
  "conv_row_b8g8r8a8 src dst w palette m = (if src = dst then Some m else foldM (\<lambda>col m. do {
     s \<leftarrow> cpu_ld32 (src + col * 4) m; cpu_st32 (dst + col * 4) s m }) [0..<unat w] m)"

definition r8g8b8a8_pixel :: "u32 \<Rightarrow> u32" where
  "r8g8b8a8_pixel s = (s AND 0x00FF00FF) OR push_bit 16 (s AND 0x0000FF00) OR drop_bit 16 (s AND 0xFF000000)"

definition conv_row_r8g8b8a8 :: row_conv where
  "conv_row_r8g8b8a8 src dst w palette = foldM (\<lambda>col m. do {
     s \<leftarrow> cpu_ld32 (src + col * 4) m; cpu_st32 (dst + col * 4) (r8g8b8a8_pixel s) m }) [0..<unat w]"

definition a8b8g8r8_pixel :: "u32 \<Rightarrow> u32" where
  "a8b8g8r8_pixel s = push_bit 8 s OR drop_bit 24 s"

definition conv_row_a8b8g8r8 :: row_conv where
  "conv_row_a8b8g8r8 src dst w palette = foldM (\<lambda>col m. do {
     s \<leftarrow> cpu_ld32 (src + col * 4) m; cpu_st32 (dst + col * 4) (a8b8g8r8_pixel s) m }) [0..<unat w]"

definition r5g5b5_pixel :: "u16 \<Rightarrow> u32" where
  "r5g5b5_pixel v =
     (let r = ucast (drop_bit 10 v) AND 0x1F; g = ucast (drop_bit 5 v) AND 0x1F; b = ucast v AND 0x1F;
          r = push_bit 3 r OR drop_bit 2 r; g = push_bit 3 g OR drop_bit 2 g; b = push_bit 3 b OR drop_bit 2 b
      in push_bit 24 b OR push_bit 16 g OR push_bit 8 r)"

definition conv_row_r5g5b5 :: row_conv where
  "conv_row_r5g5b5 src dst w palette = foldM (\<lambda>col m. do {
     v \<leftarrow> cpu_ld16 (src + col * 2) m; cpu_st32 (dst + col * 4) (r5g5b5_pixel v) m }) [0..<unat w]"

fun chip_pick_row_converter :: "RGBFTYPE \<Rightarrow> row_conv option" where
  "chip_pick_row_converter RGBFB_CLUT = Some conv_row_clut"
| "chip_pick_row_converter RGBFB_R5G6B5 = Some conv_row_r5g6b5"
| "chip_pick_row_converter RGBFB_R5G5B5 = Some conv_row_r5g5b5"
| "chip_pick_row_converter RGBFB_A8R8G8B8 = Some conv_row_a8r8g8b8"
| "chip_pick_row_converter RGBFB_B8G8R8A8 = Some conv_row_b8g8r8a8"
| "chip_pick_row_converter RGBFB_R8G8B8A8 = Some conv_row_r8g8b8a8"
| "chip_pick_row_converter RGBFB_A8B8G8R8 = Some conv_row_a8b8g8r8"
| "chip_pick_row_converter _ = None"

section \<open>Converting a rectangle\<close>

text \<open>Start and end of a sample in the bucket of \<open>chip_convert_rect\<close> or of \<open>chip_flush_all\<close>.\<close>

definition prof_begin :: "disp \<Rightarrow> u32 \<times> disp" where
  "prof_begin d = (let (t, c) = chip_prof_begin (d_eclock d) in (t, d\<lparr>d_eclock := c\<rparr>))"

definition prof_end_convert :: "u32 \<Rightarrow> u32 \<Rightarrow> disp \<Rightarrow> disp option" where
  "prof_end_convert t n d = do { (p, lg, c) \<leftarrow> chip_prof_end t n (d_prof_convert d, d_proflog d, d_eclock d);
     Some (d\<lparr>d_prof_convert := p, d_proflog := lg, d_eclock := c\<rparr>) }"

definition prof_end_flush_all :: "u32 \<Rightarrow> u32 \<Rightarrow> disp \<Rightarrow> disp option" where
  "prof_end_flush_all t n d = do { (p, lg, c) \<leftarrow> chip_prof_end t n (d_prof_flush_all d, d_proflog d, d_eclock d);
     Some (d\<lparr>d_prof_flush_all := p, d_proflog := lg, d_eclock := c\<rparr>) }"

definition visible_w :: "disp \<Rightarrow> u32" where
  "visible_w d = (if d_active_width d < g_fb_width (d_gs d) then d_active_width d else g_fb_width (d_gs d))"

definition visible_h :: "disp \<Rightarrow> u32" where
  "visible_h d = (if d_active_height d < g_fb_height (d_gs d) then d_active_height d else g_fb_height (d_gs d))"

definition src_base :: "disp \<Rightarrow> u32" where
  "src_base d = (if d_panning_mem d \<noteq> 0 then d_panning_mem d else d_board_mem d)"

definition src_width :: "disp \<Rightarrow> u32" where
  "src_width d = (if d_panning_width d \<noteq> 0 then d_panning_width d else d_active_width d)"

text \<open>The panning offset, not negative, clamped to the source width and the height of the resource.\<close>

definition pan_x :: "disp \<Rightarrow> u32" where
  "pan_x d = (let p = (if 0 <s d_pan_xoff d then ucast (d_pan_xoff d) else 0); pw = src_width d; max_w = visible_w d in
     if p + max_w > pw then (if pw > max_w then pw - max_w else 0) else p)"

definition pan_y :: "disp \<Rightarrow> u32" where
  "pan_y d = (let p = (if 0 <s d_pan_yoff d then ucast (d_pan_yoff d) else 0); fb_h = g_fb_height (d_gs d); max_h = visible_h d in
     if p + max_h > fb_h then (if fb_h > max_h then fb_h - max_h else 0) else p)"

definition convert_rows :: "row_conv \<Rightarrow> u32 \<Rightarrow> u32 \<Rightarrow> u32 \<Rightarrow> u32 \<Rightarrow> u32 \<Rightarrow> disp \<Rightarrow> bytes option" where
  "convert_rows conv dst_mem x y w h d =
     (let src_bpp = ucast (chip_format_bpp (d_active_format d)); src_stride = src_width d * src_bpp;
          dst_stride = g_fb_stride (d_gs d) in
      foldM (\<lambda>row. conv (unat (src_base d) + unat ((of_nat row + pan_y d) * src_stride) + unat ((x + pan_x d) * src_bpp))
          (unat dst_mem + unat (of_nat row * dst_stride) + unat (x * 4)) w (d_palette d)) [unat y..<unat (y + h)] (d_mem d))"

definition chip_convert_rect :: "u32 \<Rightarrow> u32 \<Rightarrow> u32 \<Rightarrow> u32 \<Rightarrow> u32 \<Rightarrow> disp \<Rightarrow> disp option" where
  "chip_convert_rect dst_mem x y w h d =
     (if src_base d = 0 \<or> dst_mem = 0 then Some d
      else let (prof_t0, d) = prof_begin d in
      case chip_pick_row_converter (d_active_format d) of None \<Rightarrow> Some d
      | Some conv \<Rightarrow>
          let w = (if x + w > visible_w d then visible_w d - x else w);
              h = (if y + h > visible_h d then visible_h d - y else h) in
          if w = 0 \<or> h = 0 then Some d
          else do {
            m \<leftarrow> convert_rows conv dst_mem x y w h d;
            prof_end_convert prof_t0 (w * h * 4) (d\<lparr>d_mem := m\<rparr>) })"

end
