(* ===== verification/Flush.thy ===== *)
theory Flush
  imports Framebuffer
begin

text \<open>
  Presenting the framebuffer (\<open>src/chip/chip_flush.c\<close>): waking the flush task, the clipping of
  \<open>chip_flush\<close>, and \<open>chip_flush_all\<close> in its single-buffer and double-buffer form.  The lock
  \<open>io_lock\<close> is recursive: the commands obtain it again.
\<close>

section \<open>Lifting\<close>

definition with_gs :: "(gpu \<Rightarrow> ('a \<times> gpu) option) \<Rightarrow> disp \<Rightarrow> ('a \<times> disp) option" where
  "with_gs f d = do { (r, gs) \<leftarrow> f (d_gs d); Some (r, d\<lparr>d_gs := gs\<rparr>) }"

definition on_io :: "(io \<Rightarrow> io) \<Rightarrow> disp \<Rightarrow> disp" where
  "on_io f d = d\<lparr>d_gs := (d_gs d)\<lparr>g_io := f (g_io (d_gs d))\<rparr>\<rparr>"

definition HOT_STAGE :: "string \<Rightarrow> disp \<Rightarrow> disp" where
  "HOT_STAGE s d = on_io (\<lambda>io. io\<lparr>i_hot_stage := s\<rparr>) d"

section \<open>Waking the flush task\<close>

definition chip_flush_signal_activity :: "disp \<Rightarrow> disp" where
  "chip_flush_signal_activity d =
     (if d_flush_task d = 0 \<or> d_flush_sig_mask d = 0 then d
      else d\<lparr>d_stat_signal_calls := d_stat_signal_calls d + 1,
             d_signals := d_signals d @ [(d_flush_task d, d_flush_sig_mask d)]\<rparr>)"

text \<open>\<open>LONG\<close> arithmetic on 16-bit operands never overflows, so the clipping is written with integers.\<close>

definition chip_flush :: "u16 \<Rightarrow> u16 \<Rightarrow> u16 \<Rightarrow> u16 \<Rightarrow> disp \<Rightarrow> disp" where
  "chip_flush x y w h d =
     (if g_fb_mem (d_gs d) = 0 then d
      else let max_w = visible_w d; max_h = visible_h d;
               x0 = sint x; y0 = sint y; x1 = sint x + uint w; y1 = sint y + uint h;
               x0 = (if x0 < 0 then 0 else x0); y0 = (if y0 < 0 then 0 else y0);
               x1 = (if x1 > sint max_w then sint max_w else x1); y1 = (if y1 > sint max_h then sint max_h else y1) in
      if x0 \<ge> x1 \<or> y0 \<ge> y1 then d else chip_flush_signal_activity d)"

section \<open>Presenting a frame\<close>

definition chip_swap_buffers :: "disp \<Rightarrow> disp" where
  "chip_swap_buffers d =
     (let gs = d_gs d;
          d = d\<lparr>d_gs := gs\<lparr>g_fb_mem := d_fb_mem2 d, g_fb_phys := d_fb_phys2 d, g_fb_dma_count := d_fb_dma_count2 d,
                  g_fb_dma_list := d_fb_dma_list2 d, g_fb_resource_id := g_fb_resource_id2 gs,
                  g_fb_resource_id2 := g_fb_resource_id gs\<rparr>,
                d_fb_mem2 := g_fb_mem gs, d_fb_phys2 := g_fb_phys gs, d_fb_dma_count2 := g_fb_dma_count gs,
                d_fb_dma_list2 := g_fb_dma_list gs,
                d_virgl_2d_resource := d_virgl_2d_resource2 d, d_virgl_2d_resource2 := d_virgl_2d_resource d\<rparr>
      in d\<lparr>d_gs := (d_gs d)\<lparr>g_resource_id :=
             (if d_virgl_2d_ready d \<and> \<not> g_virgl_ctx_error (d_gs d) \<and> d_virgl_2d_resource d \<noteq> 0
              then d_virgl_2d_resource d else g_fb_resource_id (d_gs d))\<rparr>\<rparr>)"

text \<open>
  The transfer of both paths: by the 3D resource while virgl is in use, and, when that fails, by the 2D
  one with the context marked as poisoned.  The results: success, and whether virgl is still in use.
\<close>

definition flush_transfer :: "env \<Rightarrow> bool \<Rightarrow> u32 \<Rightarrow> u32 \<Rightarrow> u32 \<Rightarrow> u32 \<Rightarrow> disp \<Rightarrow> (bool \<times> bool \<times> disp) option" where
  "flush_transfer env use_virgl res3d res2d w h d =
     (if use_virgl then
        let box = \<lparr>bx_x = 0, bx_y = 0, bx_z = 0, bx_w = w, bx_h = h, bx_d = 1\<rparr> in do {
        (t_ok, d) \<leftarrow> with_gs (with_io (chip_TransferToHost3D env (d_virgl_2d_ctx d) res3d 0 (g_fb_stride (d_gs d)) 0 0 box)) d;
        if t_ok then Some (True, True, d)
        else do {
          let d = d\<lparr>d_gs := (d_gs d)\<lparr>g_virgl_ctx_error := True\<rparr>\<rparr>;
          (t_ok, d) \<leftarrow> with_gs (chip_TransferToHost2D env res2d 0 0 w h 0) d;
          Some (t_ok, False, d) } }
      else do {
        (t_ok, d) \<leftarrow> with_gs (chip_TransferToHost2D env res2d 0 0 w h 0) d;
        Some (t_ok, False, d) })"

text \<open>The single-buffer path: convert, transfer and flush under the lock.\<close>

definition flush_visible :: "env \<Rightarrow> u32 \<Rightarrow> u32 \<Rightarrow> disp \<Rightarrow> disp option" where
  "flush_visible env w h d = do {
     let d = HOT_STAGE ''flush_all:sb:res_flush'' d;
     let flush_res = (if g_virgl_ctx_error (d_gs d) \<or> \<not> d_virgl_2d_ready d then g_fb_resource_id (d_gs d) else g_resource_id (d_gs d));
     (_, d) \<leftarrow> with_gs (with_io (chip_ResourceFlush env flush_res 0 0 w h)) d;
     Some d }"

definition flush_single :: "env \<Rightarrow> u32 \<Rightarrow> u32 \<Rightarrow> u32 \<Rightarrow> disp \<Rightarrow> disp option" where
  "flush_single env prof_t0 w h d = do {
     let d = HOT_STAGE ''flush_all:sb:obtain_lock'' d;
     let d = on_io obtain_io_lock d;
     let d = HOT_STAGE ''flush_all:sb:convert'' d;
     d \<leftarrow> chip_convert_rect (g_fb_mem (d_gs d)) 0 0 w h d;
     (t_ok, _, d) \<leftarrow> flush_transfer env (d_virgl_2d_ready d \<and> \<not> g_virgl_ctx_error (d_gs d))
        (g_resource_id (d_gs d)) (g_fb_resource_id (d_gs d)) w h d;
     d \<leftarrow> (if t_ok then flush_visible env w h d else Some d);
     let d = HOT_STAGE ''flush_all:sb:release_lock'' d;
     let d = on_io release_io_lock d;
     prof_end_flush_all prof_t0 (w * h * 4) (HOT_STAGE ''flush_all:sb:done'' d) }"

text \<open>
  The double-buffer path: convert into the back buffer without the lock, then transfer, scanout,
  flush and swap under it.
\<close>

definition present_back :: "env \<Rightarrow> u32 \<Rightarrow> u32 \<Rightarrow> u32 \<Rightarrow> disp \<Rightarrow> disp option" where
  "present_back env back_res w h d = do {
     let d = HOT_STAGE ''flush_all:db:scanout'' d;
     (_, d) \<leftarrow> with_gs (chip_SetScanout env 0 back_res 0 0 w h) d;
     let d = HOT_STAGE ''flush_all:db:res_flush'' d;
     (_, d) \<leftarrow> with_gs (with_io (chip_ResourceFlush env back_res 0 0 w h)) d;
     let d = HOT_STAGE ''flush_all:db:swap'' d;
     Some (chip_swap_buffers d) }"

definition flush_double :: "env \<Rightarrow> u32 \<Rightarrow> u32 \<Rightarrow> u32 \<Rightarrow> disp \<Rightarrow> disp option" where
  "flush_double env prof_t0 w h d = do {
     let back_mem = d_fb_mem2 d;
     let back_2d_res = g_fb_resource_id2 (d_gs d);
     let back_3d_res = d_virgl_2d_resource2 d;
     let use_virgl = (d_virgl_2d_ready d \<and> \<not> g_virgl_ctx_error (d_gs d) \<and> back_3d_res \<noteq> 0);
     d \<leftarrow> chip_convert_rect back_mem 0 0 w h (HOT_STAGE ''flush_all:db:convert'' d);
     let d = HOT_STAGE ''flush_all:db:obtain_lock'' d;
     let d = on_io obtain_io_lock d;
     let d = HOT_STAGE ''flush_all:db:transfer'' d;
     (t_ok, use_virgl, d) \<leftarrow> flush_transfer env use_virgl back_3d_res back_2d_res w h d;
     if \<not> t_ok then Some (on_io release_io_lock d)
     else do {
       d \<leftarrow> present_back env (if use_virgl then back_3d_res else back_2d_res) w h d;
       let d = HOT_STAGE ''flush_all:db:release_lock'' d;
       let d = on_io release_io_lock d;
       prof_end_flush_all prof_t0 (w * h * 4) (HOT_STAGE ''flush_all:db:done'' d) } }"

definition chip_flush_all :: "env \<Rightarrow> disp \<Rightarrow> disp option" where
  "chip_flush_all env d =
     (let w = visible_w d; h = visible_h d in
      if g_fb_mem (d_gs d) = 0 then Some d
      else if w = 0 \<or> h = 0 then Some d
      else let (prof_t0, d) = prof_begin d; d = HOT_STAGE ''flush_all:start'' d in
        if \<not> d_double_buffer d \<or> d_fb_mem2 d = 0 then flush_single env prof_t0 w h d
        else flush_double env prof_t0 w h d)"

end
