(* ===== verification/Blit.thy ===== *)
theory Blit
  imports Blit_Memory Flush
begin

text \<open>
  The drawing callbacks of \<open>src/chip/chip_blit.c\<close>: planar conversion, template, pattern and line
  drawing, rectangle fill, inversion and the two rectangle copies.  Coordinates are \<open>WORD\<close>s kept as
  16-bit words and sign-extended where the code converts them; a NULL structure pointer is
  \<^term>\<open>None\<close>, a NULL memory pointer the address 0.  The flags that only suppress repeated debug
  lines are left out.
\<close>

section \<open>Data\<close>

record RenderInfo =
  ri_Memory :: u32
  ri_BytesPerRow :: u16
  ri_RGBFormat :: RGBFTYPE

record ChipTemplate =
  tm_Memory :: u32
  tm_BytesPerRow :: u16
  tm_XOffset :: u8
  tm_DrawMode :: u8
  tm_FgPen :: u32
  tm_BgPen :: u32

record ChipPattern =
  pt_Memory :: u32
  pt_XOffset :: u16
  pt_YOffset :: u16
  pt_FgPen :: u32
  pt_BgPen :: u32
  pt_Size :: u8
  pt_DrawMode :: u8

record ColorIndexMapping =
  cim_ColorMask :: u32
  cim_Colors :: "u32 list"

record ChipLine =
  ln_X :: u16
  ln_Y :: u16
  ln_Length :: u16
  ln_dX :: u16
  ln_dY :: u16
  ln_sDelta :: u16
  ln_lDelta :: u16
  ln_twoSDminusLD :: u16
  ln_LinePtrn :: u16
  ln_PatternShift :: u16
  ln_FgPen :: u32
  ln_BgPen :: u32
  ln_Horizontal :: bool
  ln_DrawMode :: u8

text \<open>The fields of \<open>struct BitMap\<close> (graphics.library) that are read.\<close>

record BitMap =
  bm_BytesPerRow :: u16
  bm_Depth :: u8
  bm_Planes :: "u32 list"

text \<open>The display with the counters and the profiling buckets, by name.\<close>

record blit =
  b_disp :: disp
  b_stat :: "string \<Rightarrow> u32"
  b_prof :: "string \<Rightarrow> ChipProf"
  b_last_fill_dst :: u32
  b_last_blit_src :: u32
  b_last_blit_dst :: u32

definition bump :: "string \<Rightarrow> blit \<Rightarrow> blit" where
  "bump name b = b\<lparr>b_stat := (b_stat b)(name := b_stat b name + 1)\<rparr>"

definition on_disp :: "(disp \<Rightarrow> disp) \<Rightarrow> blit \<Rightarrow> blit" where
  "on_disp f b = b\<lparr>b_disp := f (b_disp b)\<rparr>"

definition on_mem :: "(bytes \<Rightarrow> bytes option) \<Rightarrow> blit \<Rightarrow> blit option" where
  "on_mem f b = do { m \<leftarrow> f (d_mem (b_disp b)); Some (b\<lparr>b_disp := (b_disp b)\<lparr>d_mem := m\<rparr>\<rparr>) }"

definition blit_prof_begin :: "blit \<Rightarrow> u32 \<times> blit" where
  "blit_prof_begin b = (let (t, d) = prof_begin (b_disp b) in (t, b\<lparr>b_disp := d\<rparr>))"

definition blit_prof_end :: "string \<Rightarrow> u32 \<Rightarrow> u32 \<Rightarrow> blit \<Rightarrow> blit option" where
  "blit_prof_end name t n b = do {
     (p, lg, c) \<leftarrow> chip_prof_end t n (b_prof b name, d_proflog (b_disp b), d_eclock (b_disp b));
     Some (b\<lparr>b_prof := (b_prof b)(name := p), b_disp := (b_disp b)\<lparr>d_proflog := lg, d_eclock := c\<rparr>\<rparr>) }"

text \<open>\<open>(UBYTE *)memory + (ULONG)y * stride + (ULONG)x * bpp\<close>.\<close>

definition pixel_ptr :: "u32 \<Rightarrow> u32 \<Rightarrow> u16 \<Rightarrow> u16 \<Rightarrow> u16 \<Rightarrow> u32" where
  "pixel_ptr memory stride bpp x y = memory + scast y * stride + scast x * ucast bpp"

section \<open>Single pixels\<close>

abbreviation JAM2 :: u8 where "JAM2 \<equiv> 1"
abbreviation COMPLEMENT :: u8 where "COMPLEMENT \<equiv> 2"

definition xor_pixel :: "RGBFTYPE \<Rightarrow> u16 \<Rightarrow> u32 \<Rightarrow> bytes \<Rightarrow> bytes option" where
  "xor_pixel format bpp p m =
     (if format = RGBFB_CLUT then do { v \<leftarrow> ld8 p m; st8 p (v XOR 0xFF) m }
      else if bpp = 2 then do { v \<leftarrow> ld16 p m; st16 p (v XOR 0xFFFF) m }
      else do { v \<leftarrow> ld32 p m; sto32 p (v XOR 0xFFFFFFFF) m })"

definition store_pixel :: "RGBFTYPE \<Rightarrow> u16 \<Rightarrow> u32 \<Rightarrow> u32 \<Rightarrow> bytes \<Rightarrow> bytes option" where
  "store_pixel format bpp p color =
     (if format = RGBFB_CLUT then st8 p (ucast color) else if bpp = 2 then st16 p (ucast color) else sto32 p color)"

definition draw_bit :: "RGBFTYPE \<Rightarrow> u16 \<Rightarrow> u8 \<Rightarrow> u32 \<Rightarrow> u32 \<Rightarrow> u32 \<Rightarrow> bool \<Rightarrow> bytes \<Rightarrow> bytes option" where
  "draw_bit format bpp drawmode fg bg p bit_set m =
     (if drawmode AND COMPLEMENT \<noteq> 0 then (if bit_set then xor_pixel format bpp p m else Some m)
      else if drawmode AND 3 = JAM2 then store_pixel format bpp p (if bit_set then fg else bg) m
      else if bit_set then store_pixel format bpp p fg m else Some m)"

section \<open>Planar conversion\<close>

text \<open>The palette index of a pixel, gathered from the enabled planes.\<close>

definition planar_pixel :: "BitMap \<Rightarrow> u8 \<Rightarrow> u32 \<Rightarrow> u8 \<Rightarrow> bytes \<Rightarrow> u8 option" where
  "planar_pixel bm msk src_y_off bit_pos m = foldM (\<lambda>p pixel. do {
       if \<not> bit msk p then Some pixel
       else do {
         plane \<leftarrow> rd (bm_Planes bm) p;
         if plane = 0 then Some pixel
         else do {
           v \<leftarrow> ld8 (plane + src_y_off) m;
           Some (if v AND push_bit (unat bit_pos) 1 \<noteq> 0 then pixel OR push_bit p 1 else pixel) } } })
     [0..<min (unat (bm_Depth bm)) 8] 0"

definition planar_at :: "BitMap \<Rightarrow> u8 \<Rightarrow> u16 \<Rightarrow> u16 \<Rightarrow> nat \<Rightarrow> nat \<Rightarrow> bytes \<Rightarrow> u8 option" where
  "planar_at bm msk x y row col m =
     (let src_x = scast x + of_nat col; byte_off = drop_bit 3 src_x; bit_pos = 7 - ucast (src_x AND 7);
          src_y_off = (scast y + of_nat row) * ucast (bm_BytesPerRow bm) + byte_off
      in planar_pixel bm msk src_y_off bit_pos m)"

definition planar_chunky_rows :: "BitMap \<Rightarrow> RenderInfo \<Rightarrow> u16 \<Rightarrow> u16 \<Rightarrow> u16 \<Rightarrow> u16 \<Rightarrow> u16 \<Rightarrow> u16 \<Rightarrow> u8 \<Rightarrow> bytes \<Rightarrow> bytes option" where
  "planar_chunky_rows bm ri x y dx dy w h msk =
     (let dst_stride = ucast (ri_BytesPerRow ri); dst_base = ri_Memory ri + scast dy * dst_stride + scast dx in
      foldM (\<lambda>row. foldM (\<lambda>col m. do {
          pixel \<leftarrow> planar_at bm msk x y row col m;
          st8 (dst_base + of_nat row * dst_stride + of_nat col) pixel m }) [0..<unat w]) [0..<unat h])"

definition chip_BlitPlanar2Chunky :: "BitMap option \<Rightarrow> RenderInfo option \<Rightarrow> u16 \<Rightarrow> u16 \<Rightarrow> u16 \<Rightarrow> u16 \<Rightarrow> u16 \<Rightarrow> u16 \<Rightarrow> u8 \<Rightarrow>
    blit \<Rightarrow> blit option" where
  "chip_BlitPlanar2Chunky bm ri x y dx dy w h msk b = (case (bm, ri) of
     (Some bm, Some ri) \<Rightarrow>
       if ri_Memory ri = 0 \<or> w = 0 \<or> h = 0 then Some b
       else do { b \<leftarrow> on_mem (planar_chunky_rows bm ri x y dx dy w h msk) b; Some (on_disp (chip_flush dx dy w h) b) }
   | _ \<Rightarrow> Some b)"

definition direct_store :: "u16 \<Rightarrow> u32 \<Rightarrow> nat \<Rightarrow> u8 \<Rightarrow> u32 \<Rightarrow> bytes \<Rightarrow> bytes option" where
  "direct_store bpp dst_row col pixel color =
     (if bpp = 4 then sto32 (dst_row + of_nat col * 4) color
      else if bpp = 2 then
        let r = drop_bit 19 color AND 0x1F; g = drop_bit 10 color AND 0x3F; b = drop_bit 3 color AND 0x1F in
        st16 (dst_row + of_nat col * 2) (ucast (push_bit 11 r OR push_bit 5 g OR b))
      else st8 (dst_row + of_nat col) pixel)"

definition planar_direct_rows :: "BitMap \<Rightarrow> RenderInfo \<Rightarrow> ColorIndexMapping \<Rightarrow> u16 \<Rightarrow> u16 \<Rightarrow> u16 \<Rightarrow> u16 \<Rightarrow> u16 \<Rightarrow> u16 \<Rightarrow> u8 \<Rightarrow>
    bytes \<Rightarrow> bytes option" where
  "planar_direct_rows bm ri clut x y dx dy w h msk =
     (let dst_stride = ucast (ri_BytesPerRow ri); bpp = chip_format_bpp (ri_RGBFormat ri);
          dst_base = pixel_ptr (ri_Memory ri) dst_stride bpp dx dy in
      foldM (\<lambda>row. foldM (\<lambda>col m. do {
          pixel \<leftarrow> planar_at bm msk x y row col m;
          color \<leftarrow> rd (cim_Colors clut) (unat pixel);
          direct_store bpp (dst_base + of_nat row * dst_stride) col pixel (color AND cim_ColorMask clut) m }) [0..<unat w]) [0..<unat h])"

definition chip_BlitPlanar2Direct :: "BitMap option \<Rightarrow> RenderInfo option \<Rightarrow> ColorIndexMapping option \<Rightarrow> u16 \<Rightarrow> u16 \<Rightarrow> u16 \<Rightarrow> u16 \<Rightarrow>
    u16 \<Rightarrow> u16 \<Rightarrow> u8 \<Rightarrow> u8 \<Rightarrow> blit \<Rightarrow> blit option" where
  "chip_BlitPlanar2Direct bm ri clut x y dx dy w h minterm msk b = (case (bm, ri, clut) of
     (Some bm, Some ri, Some clut) \<Rightarrow>
       if ri_Memory ri = 0 \<or> w \<le>s 0 \<or> h \<le>s 0 then Some b
       else do { b \<leftarrow> on_mem (planar_direct_rows bm ri clut x y dx dy w h msk) b; Some (on_disp (chip_flush dx dy w h) b) }
   | _ \<Rightarrow> Some b)"

section \<open>Template and pattern\<close>

definition template_rows :: "RenderInfo \<Rightarrow> ChipTemplate \<Rightarrow> u16 \<Rightarrow> u16 \<Rightarrow> u16 \<Rightarrow> u16 \<Rightarrow> RGBFTYPE \<Rightarrow> bytes \<Rightarrow> bytes option" where
  "template_rows ri tmpl x y w h format =
     (let bpp = chip_format_bpp format; dst_stride = ucast (ri_BytesPerRow ri);
          dst_base = pixel_ptr (ri_Memory ri) dst_stride bpp x y in
      foldM (\<lambda>row. foldM (\<lambda>col m. do {
          let bit_idx = ucast (tm_XOffset tmpl) + of_nat col;
          byte_val \<leftarrow> ld8 (tm_Memory tmpl + of_nat row * scast (tm_BytesPerRow tmpl) + drop_bit 3 bit_idx) m;
          let bit_set = (drop_bit (unat (7 - (bit_idx AND 7))) byte_val AND 1 \<noteq> 0);
          draw_bit format bpp (tm_DrawMode tmpl) (tm_FgPen tmpl) (tm_BgPen tmpl)
            (dst_base + of_nat row * dst_stride + of_nat col * ucast bpp) bit_set m }) [0..<unat w]) [0..<unat h])"

definition chip_BlitTemplate :: "RenderInfo option \<Rightarrow> ChipTemplate option \<Rightarrow> u16 \<Rightarrow> u16 \<Rightarrow> u16 \<Rightarrow> u16 \<Rightarrow> RGBFTYPE \<Rightarrow> blit \<Rightarrow> blit option" where
  "chip_BlitTemplate ri tmpl x y w h format b = (case (ri, tmpl) of
     (Some ri, Some tmpl) \<Rightarrow>
       if ri_Memory ri = 0 \<or> tm_Memory tmpl = 0 \<or> w = 0 \<or> h = 0 then Some b
       else do { b \<leftarrow> on_mem (template_rows ri tmpl x y w h format) (bump ''blittemplate'' b); Some (on_disp (chip_flush x y w h) b) }
   | _ \<Rightarrow> Some b)"

definition pattern_rows :: "RenderInfo \<Rightarrow> ChipPattern \<Rightarrow> u16 \<Rightarrow> u16 \<Rightarrow> u16 \<Rightarrow> u16 \<Rightarrow> RGBFTYPE \<Rightarrow> bytes \<Rightarrow> bytes option" where
  "pattern_rows ri pat x y w h format =
     (let bpp = chip_format_bpp format; dst_stride = ucast (ri_BytesPerRow ri);
          dst_base = pixel_ptr (ri_Memory ri) dst_stride bpp x y; pat_h = push_bit (unat (pt_Size pat)) 1 in
      foldM (\<lambda>row m. do {
          let pat_row = (y + of_nat row + pt_YOffset pat) AND (pat_h - 1);
          hi \<leftarrow> ld8 (pt_Memory pat + ucast pat_row * 2) m;
          lo \<leftarrow> ld8 (pt_Memory pat + ucast pat_row * 2 + 1) m;
          let pat_word = (push_bit 8 (ucast hi) OR ucast lo :: u16);
          foldM (\<lambda>col m. do {
            let pat_col = (x + of_nat col + pt_XOffset pat) AND 15;
            let bit_set = (drop_bit (unat (15 - pat_col)) pat_word AND 1 \<noteq> 0);
            draw_bit format bpp (pt_DrawMode pat) (pt_FgPen pat) (pt_BgPen pat)
              (dst_base + of_nat row * dst_stride + of_nat col * ucast bpp) bit_set m }) [0..<unat w] m }) [0..<unat h])"

definition chip_BlitPattern :: "RenderInfo option \<Rightarrow> ChipPattern option \<Rightarrow> u16 \<Rightarrow> u16 \<Rightarrow> u16 \<Rightarrow> u16 \<Rightarrow> RGBFTYPE \<Rightarrow> blit \<Rightarrow> blit option" where
  "chip_BlitPattern ri pat x y w h format b = (case (ri, pat) of
     (Some ri, Some pat) \<Rightarrow>
       if ri_Memory ri = 0 \<or> pt_Memory pat = 0 \<or> w = 0 \<or> h = 0 then Some b
       else do { b \<leftarrow> on_mem (pattern_rows ri pat x y w h format) (bump ''blitpattern'' b); Some (on_disp (chip_flush x y w h) b) }
   | _ \<Rightarrow> Some b)"

section \<open>Lines\<close>

text \<open>The variables of the stepping loop.\<close>

record stepper =
  lp_px :: u16
  lp_py :: u16
  lp_err :: u16
  lp_pshift :: u16
  lp_min_x :: u16
  lp_max_x :: u16
  lp_min_y :: u16
  lp_max_y :: u16

definition line_start :: "ChipLine \<Rightarrow> stepper" where
  "line_start line = \<lparr>lp_px = ln_X line, lp_py = ln_Y line, lp_err = ln_twoSDminusLD line, lp_pshift = ln_PatternShift line,
     lp_min_x = ln_X line, lp_max_x = ln_X line, lp_min_y = ln_Y line, lp_max_y = ln_Y line\<rparr>"

definition step_of :: "u16 \<Rightarrow> u16" where
  "step_of delta = (if 0 \<le>s delta then 1 else - 1)"

text \<open>The Bresenham step, with the bounding box.\<close>

definition line_advance :: "ChipLine \<Rightarrow> stepper \<Rightarrow> stepper" where
  "line_advance line s =
     (let dx_step = step_of (ln_dX line); dy_step = step_of (ln_dY line); sd = ln_sDelta line; ld = ln_lDelta line;
          turn = 0 <s lp_err s; err = (if turn then lp_err s - 2 * ld else lp_err s) + 2 * sd;
          px = (if ln_Horizontal line \<or> turn then lp_px s + dx_step else lp_px s);
          py = (if \<not> ln_Horizontal line \<or> turn then lp_py s + dy_step else lp_py s)
      in s\<lparr>lp_px := px, lp_py := py, lp_err := err,
           lp_min_x := (if px <s lp_min_x s then px else lp_min_x s), lp_max_x := (if lp_max_x s <s px then px else lp_max_x s),
           lp_min_y := (if py <s lp_min_y s then py else lp_min_y s), lp_max_y := (if lp_max_y s <s py then py else lp_max_y s)\<rparr>)"

definition line_pixel :: "RenderInfo \<Rightarrow> ChipLine \<Rightarrow> RGBFTYPE \<Rightarrow> stepper \<Rightarrow> bytes \<Rightarrow> bytes option" where
  "line_pixel ri line format s m =
     (let bpp = chip_format_bpp format; dm = ln_DrawMode line;
          pixel = pixel_ptr (ri_Memory ri) (ucast (ri_BytesPerRow ri)) bpp (lp_px s) (lp_py s);
          draw = (drop_bit (unat (15 - (lp_pshift s AND 15))) (ln_LinePtrn line) AND 1 \<noteq> 0) in
      if draw then (if dm AND COMPLEMENT \<noteq> 0 then xor_pixel format bpp pixel m else store_pixel format bpp pixel (ln_FgPen line) m)
      else if dm AND 3 = JAM2 then store_pixel format bpp pixel (ln_BgPen line) m else Some m)"

definition line_step :: "RenderInfo \<Rightarrow> ChipLine \<Rightarrow> RGBFTYPE \<Rightarrow> stepper \<times> bytes \<Rightarrow> (stepper \<times> bytes) option" where
  "line_step ri line format sm = do {
     m \<leftarrow> line_pixel ri line format (fst sm) (snd sm);
     Some (line_advance line ((fst sm)\<lparr>lp_pshift := lp_pshift (fst sm) + 1\<rparr>), m) }"

definition draw_line :: "RenderInfo \<Rightarrow> ChipLine \<Rightarrow> RGBFTYPE \<Rightarrow> bytes \<Rightarrow> (stepper \<times> bytes) option" where
  "draw_line ri line format m = foldM (\<lambda>_. line_step ri line format) [0..<unat (ln_Length line)] (line_start line, m)"

definition chip_DrawLine :: "RenderInfo option \<Rightarrow> ChipLine option \<Rightarrow> RGBFTYPE \<Rightarrow> blit \<Rightarrow> blit option" where
  "chip_DrawLine ri line format b = (case (ri, line) of
     (Some ri, Some line) \<Rightarrow>
       if ri_Memory ri = 0 then Some b
       else do {
         let b = bump ''drawline'' b;
         (s, m) \<leftarrow> draw_line ri line format (d_mem (b_disp b));
         b \<leftarrow> on_mem (\<lambda>_. Some m) b;
         Some (on_disp (chip_flush (lp_min_x s) (lp_min_y s) (lp_max_x s - lp_min_x s + 1) (lp_max_y s - lp_min_y s + 1)) b) }
   | _ \<Rightarrow> Some b)"

section \<open>Filling and inverting\<close>

text \<open>\<open>chip_virgl_fill_rect\<close> (\<open>src/chip/chip_virgl_2d.c\<close>) is disabled: it returns FALSE at once.\<close>

definition chip_virgl_fill_rect :: "disp \<Rightarrow> u32 \<Rightarrow> u32 \<Rightarrow> u32 \<Rightarrow> u32 \<Rightarrow> u32 \<Rightarrow> RGBFTYPE \<Rightarrow> bool" where
  "chip_virgl_fill_rect d x y w h color format = False"

definition fill_stats :: "RenderInfo \<Rightarrow> u16 \<Rightarrow> u16 \<Rightarrow> RGBFTYPE \<Rightarrow> blit \<Rightarrow> blit" where
  "fill_stats ri w h format b =
     (let b = (bump ''fillrect'' b)\<lparr>b_last_fill_dst := ri_Memory ri\<rparr>; area = (ucast w * ucast h :: u32) in
      if format = RGBFB_CLUT then
        (if area \<le> 4 then bump ''fr_clut_le4'' b else if area \<le> 16 then bump ''fr_clut_le16'' b
         else if area \<le> 256 then bump ''fr_clut_le256'' b else if area \<le> 4096 then bump ''fr_clut_le4k'' b
         else bump ''fr_clut_big'' b)
      else b)"

definition fill_rows :: "RenderInfo \<Rightarrow> u16 \<Rightarrow> u16 \<Rightarrow> u16 \<Rightarrow> u16 \<Rightarrow> u32 \<Rightarrow> RGBFTYPE \<Rightarrow> bytes \<Rightarrow> bytes option" where
  "fill_rows ri x y w h color format =
     (let bpp = chip_format_bpp format; stride = ucast (ri_BytesPerRow ri); base = pixel_ptr (ri_Memory ri) stride bpp x y in
      if format = RGBFB_CLUT then chip_fill_rect_bytes base stride (ucast w) h (ucast color)
      else if bpp = 2 then
        foldM (\<lambda>row. foldM (\<lambda>col. st16 (base + of_nat row * stride + of_nat col * 2) (ucast color)) [0..<unat w]) [0..<unat h]
      else foldM (\<lambda>row. foldM (\<lambda>col. sto32 (base + of_nat row * stride + of_nat col * 4) color) [0..<unat w]) [0..<unat h])"

definition chip_FillRect :: "RenderInfo option \<Rightarrow> u16 \<Rightarrow> u16 \<Rightarrow> u16 \<Rightarrow> u16 \<Rightarrow> u32 \<Rightarrow> RGBFTYPE \<Rightarrow> blit \<Rightarrow> blit option" where
  "chip_FillRect ri x y w h color format b = (case ri of
     None \<Rightarrow> Some b
   | Some ri \<Rightarrow>
       if ri_Memory ri = 0 \<or> w = 0 \<or> h = 0 then Some b
       else do {
         let b = fill_stats ri w h format b;
         let (prof_t0, b) = blit_prof_begin b;
         b \<leftarrow> on_mem (fill_rows ri x y w h color format) b;
         b \<leftarrow> blit_prof_end ''FillRect'' prof_t0 (ucast w * ucast h * ucast (chip_format_bpp format)) b;
         if d_virgl_2d_ready (b_disp b) \<and> ri_Memory ri = d_board_mem (b_disp b)
            \<and> chip_virgl_fill_rect (b_disp b) (scast x) (scast y) (ucast w) (ucast h) color format
         then Some (on_disp chip_flush_signal_activity b)
         else Some (on_disp (chip_flush x y w h) b) })"

definition chip_InvertRect :: "RenderInfo option \<Rightarrow> u16 \<Rightarrow> u16 \<Rightarrow> u16 \<Rightarrow> u16 \<Rightarrow> RGBFTYPE \<Rightarrow> blit \<Rightarrow> blit option" where
  "chip_InvertRect ri x y w h format b = (case ri of
     None \<Rightarrow> Some b
   | Some ri \<Rightarrow>
       if ri_Memory ri = 0 \<or> w = 0 \<or> h = 0 then Some b
       else let bpp = chip_format_bpp format; stride = ucast (ri_BytesPerRow ri) in do {
         b \<leftarrow> on_mem (chip_xor_rect_with_const (pixel_ptr (ri_Memory ri) stride bpp x y) stride (ucast w * ucast bpp) h)
            (bump ''invertrect'' b);
         Some (on_disp (chip_flush x y w h) b) })"

section \<open>Copying\<close>

definition blit_rows :: "copier \<Rightarrow> RenderInfo \<Rightarrow> u16 \<Rightarrow> u16 \<Rightarrow> u16 \<Rightarrow> u16 \<Rightarrow> u16 \<Rightarrow> u16 \<Rightarrow> bytes \<Rightarrow> bytes option" where
  "blit_rows ex ri x y dx dy w h =
     (let bpp = chip_format_bpp (ri_RGBFormat ri); stride = ucast (ri_BytesPerRow ri); row_bytes = ucast w * ucast bpp;
          src = pixel_ptr (ri_Memory ri) stride bpp x y; dst = pixel_ptr (ri_Memory ri) stride bpp dx dy in
      if dy <s y then chip_copy_rect ex src stride dst stride row_bytes h
      else if y <s dy then move_rows_up src stride dst stride row_bytes h
      else move_rows_down src stride dst stride row_bytes h)"

definition chip_BlitRect :: "copier \<Rightarrow> RenderInfo option \<Rightarrow> u16 \<Rightarrow> u16 \<Rightarrow> u16 \<Rightarrow> u16 \<Rightarrow> u16 \<Rightarrow> u16 \<Rightarrow> blit \<Rightarrow> blit option" where
  "chip_BlitRect ex ri x y dx dy w h b = (case ri of
     None \<Rightarrow> Some b
   | Some ri \<Rightarrow>
       if ri_Memory ri = 0 \<or> w = 0 \<or> h = 0 then Some b
       else do {
         let (prof_t0, b) = blit_prof_begin (bump ''blitrect'' b);
         b \<leftarrow> on_mem (blit_rows ex ri x y dx dy w h) b;
         blit_prof_end ''BlitRect'' prof_t0 (ucast w * ucast h * ucast (chip_format_bpp (ri_RGBFormat ri)))
           (on_disp chip_flush_signal_activity b) })"

definition rop_of :: "u8 \<Rightarrow> u8" where
  "rop_of opcode = (if opcode > 0x0F then drop_bit 4 opcode else opcode)"

definition nmc_bucket :: "u8 \<Rightarrow> string" where
  "nmc_bucket rop = (if rop = 0xC then ''NMC.SrcCopy'' else if rop = 0x0 then ''NMC.Clear'' else if rop = 0xF then ''NMC.Set''
     else if rop = 0x5 then ''NMC.DstInvert'' else if rop = 0x6 then ''NMC.SrcXorDst'' else ''NMC.OtherRop'')"

definition nmc_rows :: "copier \<Rightarrow> u8 \<Rightarrow> bool \<Rightarrow> u32 \<Rightarrow> u32 \<Rightarrow> u32 \<Rightarrow> u32 \<Rightarrow> u32 \<Rightarrow> u16 \<Rightarrow> bytes \<Rightarrow> bytes option" where
  "nmc_rows ex rop reverse s_base s_stride d_base d_stride row_bytes h =
     (if rop = 0xC then
        (if \<not> reverse then chip_copy_rect ex s_base s_stride d_base d_stride row_bytes h
         else move_rows_up s_base s_stride d_base d_stride row_bytes h)
      else if rop = 0x0 then chip_fill_rect_bytes d_base d_stride row_bytes h 0x00
      else if rop = 0xF then chip_fill_rect_bytes d_base d_stride row_bytes h 0xFF
      else if rop = 0x5 then chip_xor_rect_with_const d_base d_stride row_bytes h
      else if rop = 0x6 then chip_xor_rect_with_src s_base s_stride d_base d_stride row_bytes h
      else if \<not> reverse then chip_copy_rect ex s_base s_stride d_base d_stride row_bytes h
      else move_rows_up s_base s_stride d_base d_stride row_bytes h)"

definition chip_BlitRectNoMaskComplete :: "copier \<Rightarrow> RenderInfo option \<Rightarrow> RenderInfo option \<Rightarrow> u16 \<Rightarrow> u16 \<Rightarrow> u16 \<Rightarrow> u16 \<Rightarrow>
    u16 \<Rightarrow> u16 \<Rightarrow> u8 \<Rightarrow> RGBFTYPE \<Rightarrow> blit \<Rightarrow> blit option" where
  "chip_BlitRectNoMaskComplete ex src dst x y dx dy w h opcode format b = (case (src, dst) of
     (Some src, Some dst) \<Rightarrow>
       if ri_Memory src = 0 \<or> ri_Memory dst = 0 \<or> w = 0 \<or> h = 0 then Some b
       else let b = (bump ''blitrect_nmc'' b)\<lparr>b_last_blit_src := ri_Memory src, b_last_blit_dst := ri_Memory dst\<rparr>;
           bpp = chip_format_bpp format; s_stride = ucast (ri_BytesPerRow src); d_stride = ucast (ri_BytesPerRow dst);
           rop = rop_of opcode; (prof_t0, b) = blit_prof_begin b;
           reverse = (ri_Memory src = ri_Memory dst \<and> (y <s dy \<or> dy = y \<and> x <s dx)) in do {
         b \<leftarrow> on_mem (nmc_rows ex rop reverse (pixel_ptr (ri_Memory src) s_stride bpp x y) s_stride
              (pixel_ptr (ri_Memory dst) d_stride bpp dx dy) d_stride (ucast w * ucast bpp) h) b;
         blit_prof_end (nmc_bucket rop) prof_t0 (ucast w * ucast h * ucast bpp) (on_disp chip_flush_signal_activity b) }
   | _ \<Rightarrow> Some b)"

end
