(* ===== verification/Blit_Memory_Correct.thy ===== *)
theory Blit_Memory_Correct
  imports Blit_Memory
begin

text \<open>
  What the row helpers do to memory, as paintings: copies are simultaneous also when source and
  destination overlap, fills and inversions touch exactly their rectangle.
\<close>

section \<open>Loops in a given order\<close>

text \<open>
  Iterations that paint disjoint areas, each reading only what no earlier one has painted.
\<close>

lemma paints_seq:
  assumes "\<And>k m. k \<in> set ks \<Longrightarrow> agrees (Rd k) m0 m \<Longrightarrow> \<exists>m'. f k m = Some m' \<and> paints F (S k) m m'"
    and "sorted_wrt (\<lambda>j k. S j \<inter> S k = {} \<and> Rd k \<inter> S j = {}) ks"
  shows "\<exists>m'. foldM f ks m0 = Some m' \<and> paints F (\<Union>k\<in>set ks. S k) m0 m'"
  using assms
proof (induction ks rule: rev_induct)
  case Nil
  then show ?case by (simp add: paints_refl)
next
  case (snoc k ks)
  have srt: "sorted_wrt (\<lambda>j k. S j \<inter> S k = {} \<and> Rd k \<inter> S j = {}) ks" "\<forall>j\<in>set ks. S j \<inter> S k = {} \<and> Rd k \<inter> S j = {}"
    using snoc.prems(2) by (simp_all add: sorted_wrt_append)
  obtain m where m: "foldM f ks m0 = Some m" "paints F (\<Union>j\<in>set ks. S j) m0 m"
    using snoc.IH [OF snoc.prems(1) srt(1)] by auto
  have "Rd k \<inter> (\<Union>j\<in>set ks. S j) = {}" using srt(2) by blast
  then have "agrees (Rd k) m0 m" by (rule paints_agrees [OF m(2)])
  then obtain m' where m': "f k m = Some m'" "paints F (S k) m m'" using snoc.prems(1) by auto
  have "(\<Union>j\<in>set ks. S j) \<inter> S k = {}" using srt(2) by blast
  then have "paints F ((\<Union>j\<in>set ks. S j) \<union> S k) m0 m'" by (rule paints_trans [OF m(2) m'(2)])
  then show ?case using m(1) m'(1) by (simp add: foldM_append foldM_Nil Un_commute)
qed

lemma sorted_up: "(\<And>i j. i < j \<Longrightarrow> j < n \<Longrightarrow> P i j) \<Longrightarrow> sorted_wrt P [0..<n]"
  by (simp add: sorted_wrt_iff_nth_less)

lemma sorted_down: "(\<And>i j. i < j \<Longrightarrow> j < n \<Longrightarrow> P j i) \<Longrightarrow> sorted_wrt P (rev [0..<n])"
  unfolding sorted_wrt_rev by (rule sorted_up)

lemma paints_cong: "paints F S m m' \<Longrightarrow> (\<And>a. a \<in> S \<Longrightarrow> a < length m \<Longrightarrow> F a (m ! a) = G a (m ! a)) \<Longrightarrow> paints G S m m'"
  by (auto simp: paints_def)

section \<open>Addresses\<close>

lemma unat_byte_addr:
  assumes "unat (p :: u32) + i < 2 ^ 32"
  shows "unat (p + of_nat i) = unat p + i"
  using unat_row_addr [of p i 1] assms by simp

lemma unat_long_addr:
  assumes "unat (p :: u32) + i * 4 < 2 ^ 32"
  shows "unat (p + of_nat i * 4) = unat p + i * 4"
  using unat_row_addr [of p i 4] assms by simp

lemma and_3: "unat (x AND 3 :: u32) = unat x mod 4"
proof -
  have m: "(3 :: u32) = mask 2" by (simp add: mask_eq_exp_minus_1)
  have "unat (take_bit 2 x) = take_bit 2 (unat x)" by (rule unsigned_take_bit_eq)
  also have "\<dots> = unat x mod 4" by (simp only: take_bit_eq_mod) simp
  finally show ?thesis by (simp only: m take_bit_eq_mask)
qed

lemma aligned_parts:
  assumes "(a OR b OR c) AND 3 = (0 :: u32)"
  shows "unat a mod 4 = 0" "unat b mod 4 = 0" "unat c mod 4 = 0"
proof -
  have "\<not> bit ((a OR b OR c) AND 3) n" for n unfolding assms by simp
  then have off: "\<not> (bit (3 :: u32) n \<and> (bit a n \<or> bit b n \<or> bit c n))" for n by (auto simp only: bit_and_iff bit_or_iff)
  have "a AND 3 = 0" "b AND 3 = 0" "c AND 3 = 0"
    by (rule bit_word_eqI, simp only: bit_and_iff bit_0_eq bot_apply bot_bool_def, use off in blast)+
  then show "unat a mod 4 = 0" "unat b mod 4 = 0" "unat c mod 4 = 0" by (simp_all flip: and_3)
qed

lemma unat_drop2: "unat (drop_bit 2 x :: u32) = unat x div 4"
proof -
  have "take_bit LENGTH(32) (unat x) = unat x" by (rule take_bit_nat_eq_self) (rule unsigned_less)
  then have "unat (drop_bit 2 x) = drop_bit 2 (unat x)" by (simp only: unsigned_drop_bit_eq)
  also have "\<dots> = unat x div 4" by (simp only: drop_bit_eq_div) simp
  finally show ?thesis .
qed

section \<open>Copies within a row\<close>

definition source_byte :: "nat \<Rightarrow> nat \<Rightarrow> bytes \<Rightarrow> nat \<Rightarrow> u8 \<Rightarrow> u8" where
  "source_byte s d m a old = m ! (a - d + s)"

lemma copy_byte_paints:
  assumes "unat s + i < length m" "unat d + i < length m" "length m \<le> 2 ^ 32" "agrees {unat s + i} m0 m"
  shows "\<exists>m'. copy_byte s d i m = Some m' \<and> paints (source_byte (unat s) (unat d) m0) {unat d + i} m m'"
proof -
  have a: "unat (s + of_nat i) = unat s + i" "unat (d + of_nat i) = unat d + i" using assms by (simp_all add: unat_byte_addr)
  have "m ! (unat s + i) = m0 ! (unat s + i)" using assms(1,4) agrees_length [OF assms(4)] agrees_nth [OF assms(4)] by simp
  then show ?thesis using assms(1,2) unfolding copy_byte_def ld8_def st8_def a
    by (auto simp: rd_in wr_in source_byte_def add.commute intro!: paints_wr)
qed

lemma copy_long_paints:
  assumes "unat s + i * 4 + 4 \<le> length m" "unat d + i * 4 + 4 \<le> length m" "length m \<le> 2 ^ 32"
    "agrees {unat s + i * 4..<unat s + i * 4 + 4} m0 m"
  shows "\<exists>m'. copy_long s d i m = Some m' \<and> paints (source_byte (unat s) (unat d) m0) {unat d + i * 4..<unat d + i * 4 + 4} m m'"
proof -
  have a: "unat (s + of_nat i * 4) = unat s + i * 4" "unat (d + of_nat i * 4) = unat d + i * 4" using assms by (simp_all add: unat_long_addr)
  obtain v where v: "cpu_ld32 (unat s + i * 4) m = Some v"
    "be32 v = [m ! (unat s + i * 4), m ! (unat s + i * 4 + 1), m ! (unat s + i * 4 + 2), m ! (unat s + i * 4 + 3)]"
    using be_ld(2) [OF assms(1)] by blast
  have src: "m ! (unat s + i * 4 + j) = m0 ! (unat s + i * 4 + j)" if "j < 4" for j
    using assms(1) that agrees_length [OF assms(4)] by (intro agrees_nth [OF assms(4)]) simp_all
  have "paints (source_byte (unat s) (unat d) m0) {unat d + i * 4..<unat d + i * 4 + length (be32 v)} m (stbytes (unat d + i * 4) (be32 v) m)"
  proof (rule paints_stbytes)
    fix j assume "j < length (be32 v)"
    then have j: "j < 4" by simp
    then have "be32 v ! j = m ! (unat s + i * 4 + j)" unfolding v(2) by (auto simp: less_Suc_eq numeral_eq_Suc)
    then show "source_byte (unat s) (unat d) m0 (unat d + i * 4 + j) (m ! (unat d + i * 4 + j)) = be32 v ! j"
      using src [OF j] by (simp add: source_byte_def algebra_simps)
  qed (use assms(2) in simp)
  then show ?thesis using v(1) cpu_st_in(2) [OF assms(2)] by (simp add: copy_long_def ld32_def sto32_def a)
qed

lemma singles_union: "(\<Union>i<n. {b + i}) = {b..<b + (n :: nat)}"
  using pixels_union [of 1 b n] by simp

lemma move_row_paints:
  assumes s: "unat s + unat n \<le> length m" and d: "unat d + unat n \<le> length m" and len: "length m \<le> 2 ^ 32"
  shows "\<exists>m'. move_row s d n m = Some m' \<and> paints (source_byte (unat s) (unat d) m) {unat d..<unat d + unat n} m m'"
proof (cases "(s OR d OR n) AND 3 = 0")
  case al: True
  then have "unat n mod 4 = 0" by (rule aligned_parts(3))
  then have n4: "unat n = unat n div 4 * 4" by presburger
  let ?k = "unat n div 4"
  have step: "\<exists>m'. copy_long s d i m1 = Some m' \<and> paints (source_byte (unat s) (unat d) m) {unat d + i * 4..<unat d + i * 4 + 4} m1 m'"
    if "i \<in> set [0..<?k]" "agrees {unat s + i * 4..<unat s + i * 4 + 4} m m1" for i m1
  proof (rule copy_long_paints)
    have "i * 4 + 4 \<le> unat n" using that(1) n4 by auto
    then show "unat s + i * 4 + 4 \<le> length m1" "unat d + i * 4 + 4 \<le> length m1" "length m1 \<le> 2 ^ 32"
      using s d len agrees_length [OF that(2)] by simp_all
  qed (rule that(2))
  have un: "(\<Union>i<?k. {unat d + i * 4..<unat d + i * 4 + 4}) = {unat d..<unat d + unat n}"
    using pixels_union [of 4 "unat d" ?k] n4 by simp
  show ?thesis
  proof (cases "d < s")
    case True
    then have lt: "unat d < unat s" by (simp add: word_less_nat_alt)
    have "\<exists>m'. foldM (copy_long s d) [0..<?k] m = Some m' \<and> paints (source_byte (unat s) (unat d) m)
        (\<Union>i\<in>set [0..<?k]. {unat d + i * 4..<unat d + i * 4 + 4}) m m'"
      by (rule paints_seq [where Rd = "\<lambda>i. {unat s + i * 4..<unat s + i * 4 + 4}", OF step sorted_up]) (use lt in auto)
    then show ?thesis using al True un by (simp add: move_row_def chip_lmemmove_def unat_drop2 atLeast0LessThan)
  next
    case False
    then have le: "unat s \<le> unat d" by (simp add: word_less_nat_alt)
    have "\<exists>m'. foldM (copy_long s d) (rev [0..<?k]) m = Some m' \<and> paints (source_byte (unat s) (unat d) m)
        (\<Union>i\<in>set (rev [0..<?k]). {unat d + i * 4..<unat d + i * 4 + 4}) m m'"
      by (rule paints_seq [where Rd = "\<lambda>i. {unat s + i * 4..<unat s + i * 4 + 4}", OF step sorted_down]) (use le in auto)
    then show ?thesis using al False un by (simp add: move_row_def chip_lmemmove_def unat_drop2 atLeast0LessThan)
  qed
next
  case nal: False
  let ?k = "unat n"
  have step: "\<exists>m'. copy_byte s d i m1 = Some m' \<and> paints (source_byte (unat s) (unat d) m) {unat d + i} m1 m'"
    if "i \<in> set [0..<?k]" "agrees {unat s + i} m m1" for i m1
    by (rule copy_byte_paints) (use that s d len agrees_length [OF that(2)] in auto)
  show ?thesis
  proof (cases "d < s")
    case True
    then have lt: "unat d < unat s" by (simp add: word_less_nat_alt)
    have "\<exists>m'. foldM (copy_byte s d) [0..<?k] m = Some m' \<and> paints (source_byte (unat s) (unat d) m) (\<Union>i\<in>set [0..<?k]. {unat d + i}) m m'"
      by (rule paints_seq [where Rd = "\<lambda>i. {unat s + i}", OF step sorted_up]) (use lt in auto)
    then show ?thesis using nal True singles_union [of "unat d" ?k] by (simp add: move_row_def atLeast0LessThan)
  next
    case False
    then have le: "unat s \<le> unat d" by (simp add: word_less_nat_alt)
    have "\<exists>m'. foldM (copy_byte s d) (rev [0..<?k]) m = Some m' \<and> paints (source_byte (unat s) (unat d) m) (\<Union>i\<in>set (rev [0..<?k]). {unat d + i}) m m'"
      by (rule paints_seq [where Rd = "\<lambda>i. {unat s + i}", OF step sorted_down]) (use le in auto)
    then show ?thesis using nal False singles_union [of "unat d" ?k] by (simp add: move_row_def atLeast0LessThan)
  qed
qed

section \<open>Filling and inverting a row\<close>

lemma agrees_trans: "agrees R a b \<Longrightarrow> agrees R b c \<Longrightarrow> agrees R a c"
  by (simp add: agrees_def)

text \<open>The shape of the row loops: the aligned longs first, then the bytes that are left.\<close>

lemma longs_then_bytes:
  assumes longs: "\<And>j m1. j < l \<Longrightarrow> agrees R m m1 \<Longrightarrow> \<exists>m'. f j m1 = Some m' \<and> paints F {p + j * 4..<p + j * 4 + 4} m1 m'"
    and rest: "\<And>i m1. l * 4 \<le> i \<Longrightarrow> i < n \<Longrightarrow> agrees R m m1 \<Longrightarrow> \<exists>m'. g i m1 = Some m' \<and> paints F {p + i} m1 m'"
    and l: "l * 4 \<le> n" and R: "R \<inter> {p..<p + n} = {}"
  shows "\<exists>m'. do { m1 \<leftarrow> foldM f [0..<l] m; foldM g [l * 4..<n] m1 } = Some m' \<and> paints F {p..<p + n} m m'"
proof -
  have R1: "R \<inter> {p..<p + l * 4} = {}" using R l by auto
  obtain m1 where m1: "foldM f [0..<l] m = Some m1" "paints F {p..<p + l * 4} m m1"
    using paints_pixels [where f = f and F = F and base = p and k = 4 and w = l and R = R and ?m0.0 = m, OF longs _ R1 agrees_refl]
    by auto
  have ag: "agrees R m m1" by (rule paints_agrees [OF m1(2) R1])
  have "\<exists>m'. foldM g [l * 4..<n] m1 = Some m' \<and> paints F (\<Union>i\<in>set [l * 4..<n]. {p + i}) m1 m'"
  proof (rule paints_seq [where Rd = "\<lambda>_. R"])
    fix i m2 assume "i \<in> set [l * 4..<n]" "agrees R m1 m2"
    then show "\<exists>m'. g i m2 = Some m' \<and> paints F {p + i} m2 m'" by (intro rest agrees_trans [OF ag]) simp_all
  next
    show "sorted_wrt (\<lambda>j k. {p + j} \<inter> {p + k} = {} \<and> R \<inter> {p + j} = {}) [l * 4..<n]"
      using R by (auto simp: sorted_wrt_iff_nth_less)
  qed
  then obtain m' where m': "foldM g [l * 4..<n] m1 = Some m'" "paints F (\<Union>i\<in>set [l * 4..<n]. {p + i}) m1 m'" by blast
  have un: "(\<Union>i\<in>set [l * 4..<n]. {p + i}) = {p + l * 4..<p + n}"
  proof
    show "{p + l * 4..<p + n} \<subseteq> (\<Union>i\<in>set [l * 4..<n]. {p + i})"
    proof
      fix a assume "a \<in> {p + l * 4..<p + n}"
      then have "a - p \<in> set [l * 4..<n]" "a = p + (a - p)" by auto
      then show "a \<in> (\<Union>i\<in>set [l * 4..<n]. {p + i})" by blast
    qed
  qed auto
  have "paints F ({p..<p + l * 4} \<union> {p + l * 4..<p + n}) m m'" using m'(2) unfolding un by (rule paints_trans [OF m1(2)]) auto
  moreover have "{p..<p + l * 4} \<union> {p + l * 4..<p + n} = {p..<p + n}" using l by auto
  ultimately show ?thesis using m1(1) m'(1) by auto
qed

lemma longs_le: "(if c then unat (drop_bit 2 (n :: u32)) else 0) * 4 \<le> unat n"
  by (simp add: unat_drop2)

lemma bytes_broadcast: "be32 (broadcast v) = [v, v, v, v]" "ucast (broadcast v) = v"
proof -
  have mk: "broadcast v = mk32 v v v v" by (simp add: broadcast_def mk32_def word_at_def or.assoc or.commute or.left_commute)
  show "be32 (broadcast v) = [v, v, v, v]" by (simp add: be32_def mk byte_simps)
  have "ucast (broadcast v) = byte_of 0 (broadcast v)" by (simp add: byte_of_def)
  then show "ucast (broadcast v) = v" by (simp add: mk byte_simps)
qed

lemma chip_lfill_paints:
  assumes "unat p + unat n \<le> length m" "length m \<le> 2 ^ 32"
  shows "\<exists>m'. chip_lfill p n (broadcast v) m = Some m' \<and> paints (\<lambda>_ _. v) {unat p..<unat p + unat n} m m'"
  unfolding chip_lfill_def Let_def
proof (rule longs_then_bytes [where R = "{}"])
  fix j m1 assume j: "j < (if p AND 3 = 0 then unat (drop_bit 2 n) else 0)" and "agrees {} m m1"
  then have "j * 4 + 4 \<le> unat n" "length m1 = length m" using longs_le [of "p AND 3 = 0" n] agrees_length by auto
  then have i: "unat p + j * 4 + 4 \<le> length m1" "unat (p + of_nat j * 4) = unat p + j * 4" using assms by (simp_all add: unat_long_addr)
  have "paints (\<lambda>_ _. v) {unat p + j * 4..<unat p + j * 4 + length (be32 (broadcast v))} m1 (stbytes (unat p + j * 4) (be32 (broadcast v)) m1)"
    by (rule paints_stbytes) (use i(1) in \<open>auto simp: bytes_broadcast(1) less_Suc_eq numeral_eq_Suc\<close>)
  then show "\<exists>m'. sto32 (p + of_nat j * 4) (broadcast v) m1 = Some m' \<and> paints (\<lambda>_ _. v) {unat p + j * 4..<unat p + j * 4 + 4} m1 m'"
    using cpu_st_in(2) [OF i(1)] by (simp add: sto32_def i(2))
next
  fix i m1 assume "i < unat n" "agrees {} m m1"
  then have i: "unat p + i < length m1" "unat (p + of_nat i) = unat p + i" using assms agrees_length by (simp_all add: unat_byte_addr)
  then show "\<exists>m'. st8 (p + of_nat i) (ucast (broadcast v)) m1 = Some m' \<and> paints (\<lambda>_ _. v) {unat p + i} m1 m'"
    by (auto simp: st8_def wr_in bytes_broadcast(2) intro!: paints_wr)
qed (simp_all add: longs_le)

lemma bytes_xor: "be32 (a XOR b) = map2 (XOR) (be32 a) (be32 b)"
proof -
  have "byte_of k (a XOR b) = byte_of k a XOR byte_of k b" for k
    by (rule bit_word_eqI) (auto simp: bit_byte_of bit_simps)
  then show ?thesis by (simp add: be32_def)
qed

lemma be32_ones: "be32 0xFFFFFFFF = [0xFF, 0xFF, 0xFF, 0xFF]"
  by (simp add: be32_def byte_of_def)

text \<open>An exclusive or of one long, or of one byte, in place.\<close>

lemma xor_long_paints:
  assumes "unat p + 4 \<le> length m" "be32 x = xs"
    and "\<And>i b. i < 4 \<Longrightarrow> F (unat p + i) b = b XOR xs ! i"
  shows "\<exists>a m'. ld32 p m = Some a \<and> sto32 p (a XOR x) m = Some m' \<and> paints F {unat p..<unat p + 4} m m'"
proof -
  obtain a where a: "cpu_ld32 (unat p) m = Some a" "be32 a = [m ! unat p, m ! (unat p + 1), m ! (unat p + 2), m ! (unat p + 3)]"
    using be_ld(2) [OF assms(1)] by blast
  have l: "length xs = 4" using assms(2) by auto
  have "paints F {unat p..<unat p + length (be32 (a XOR x))} m (stbytes (unat p) (be32 (a XOR x)) m)"
  proof (rule paints_stbytes)
    fix i assume "i < length (be32 (a XOR x))"
    then have i: "i < 4" by simp
    then have "be32 (a XOR x) ! i = be32 a ! i XOR xs ! i" using l by (simp add: bytes_xor assms(2))
    moreover have "be32 a ! i = m ! (unat p + i)" using i unfolding a(2) by (auto simp: less_Suc_eq numeral_eq_Suc)
    ultimately show "F (unat p + i) (m ! (unat p + i)) = be32 (a XOR x) ! i" using assms(3) [OF i] by simp
  qed (use assms(1) in simp)
  then show ?thesis using a(1) cpu_st_in(2) [OF assms(1)] by (simp add: ld32_def sto32_def)
qed

definition inverted :: "nat \<Rightarrow> u8 \<Rightarrow> u8" where
  "inverted a old = old XOR 0xFF"

lemma xor_row_const_paints:
  assumes "unat p + unat n \<le> length m" "length m \<le> 2 ^ 32"
  shows "\<exists>m'. xor_row_const p n m = Some m' \<and> paints inverted {unat p..<unat p + unat n} m m'"
  unfolding xor_row_const_def Let_def
proof (rule longs_then_bytes [where R = "{}"])
  fix j m1 assume j: "j < (if p AND 3 = 0 then unat (drop_bit 2 n) else 0)" and "agrees {} m m1"
  then have "j * 4 + 4 \<le> unat n" "length m1 = length m" using longs_le [of "p AND 3 = 0" n] agrees_length by auto
  then have i: "unat (p + of_nat j * 4) + 4 \<le> length m1" "unat (p + of_nat j * 4) = unat p + j * 4" using assms by (simp_all add: unat_long_addr)
  have "inverted (unat (p + of_nat j * 4) + k) b = b XOR [0xFF, 0xFF, 0xFF, 0xFF] ! k" if "k < 4" for k b
    using that by (auto simp: inverted_def less_Suc_eq numeral_eq_Suc)
  then obtain a m' where "ld32 (p + of_nat j * 4) m1 = Some a" "sto32 (p + of_nat j * 4) (a XOR 0xFFFFFFFF) m1 = Some m'"
    "paints inverted {unat (p + of_nat j * 4)..<unat (p + of_nat j * 4) + 4} m1 m'"
    using xor_long_paints [OF i(1) be32_ones] by blast
  then show "\<exists>m'. do { a \<leftarrow> ld32 (p + of_nat j * 4) m1; sto32 (p + of_nat j * 4) (a XOR 0xFFFFFFFF) m1 } = Some m'
      \<and> paints inverted {unat p + j * 4..<unat p + j * 4 + 4} m1 m'" by (simp add: i(2))
next
  fix i m1 assume "i < unat n" "agrees {} m m1"
  then have i: "unat p + i < length m1" "unat (p + of_nat i) = unat p + i" using assms agrees_length by (simp_all add: unat_byte_addr)
  then show "\<exists>m'. do { a \<leftarrow> ld8 (p + of_nat i) m1; st8 (p + of_nat i) (a XOR 0xFF) m1 } = Some m' \<and> paints inverted {unat p + i} m1 m'"
    by (auto simp: ld8_def st8_def rd_in wr_in inverted_def intro!: paints_wr)
qed (simp_all add: longs_le)

end
