(* ===== verification/Framebuffer_Correct.thy ===== *)
theory Framebuffer_Correct
  imports Framebuffer
begin

text \<open>
  The conversion of the framebuffer against a byte-wise specification of the pixel formats: every
  converter, a row of pixels, a rectangle.
\<close>

section \<open>Pixels\<close>

text \<open>5-bit and 6-bit channels widened by repeating their high bits.\<close>

definition exp5 :: "nat \<Rightarrow> u8" where
  "exp5 v = of_nat (v * 8 + v div 4)"

definition exp6 :: "nat \<Rightarrow> u8" where
  "exp6 v = of_nat (v * 4 + v div 16)"

text \<open>The four bytes blue, green, red, X of the GPU for a source pixel of \<open>chip_format_bpp\<close> bytes.\<close>

fun gpu_pixel :: "RGBFTYPE \<Rightarrow> u32 list \<Rightarrow> bytes \<Rightarrow> bytes" where
  "gpu_pixel RGBFB_CLUT pal [i] = be32 (pal ! unat i)"
| "gpu_pixel RGBFB_R5G6B5 pal [hi, lo] =
     (let v = unat hi * 256 + unat lo in [exp5 (v mod 32), exp6 (v div 32 mod 64), exp5 (v div 2048), 0])"
| "gpu_pixel RGBFB_R5G5B5 pal [hi, lo] =
     (let v = unat hi * 256 + unat lo in [exp5 (v mod 32), exp5 (v div 32 mod 32), exp5 (v div 1024 mod 32), 0])"
| "gpu_pixel RGBFB_A8R8G8B8 pal [a, r, g, b] = [b, g, r, a]"
| "gpu_pixel RGBFB_B8G8R8A8 pal [b, g, r, a] = [b, g, r, a]"
| "gpu_pixel RGBFB_R8G8B8A8 pal [r, g, b, a] = [b, g, r, a]"
| "gpu_pixel RGBFB_A8B8G8R8 pal [a, b, g, r] = [b, g, r, a]"
| "gpu_pixel _ _ _ = []"

lemma bit_small: "unat (x :: 'a::len word) < 2 ^ k \<Longrightarrow> bit x n \<Longrightarrow> n < k"
proof -
  assume x: "unat x < 2 ^ k" and n: "bit x n"
  have "unat (take_bit k x) = unat x" using x by (simp add: unsigned_take_bit_eq take_bit_nat_eq_self)
  then have "take_bit k x = x" by (simp only: unat_inj)
  then show "n < k" using n by (metis bit_take_bit_iff)
qed

lemma be32_pack:
  assumes "unat b < 256" "unat g < 256" "unat r < 256"
  shows "be32 (push_bit 24 b OR push_bit 16 g OR push_bit 8 r) = [ucast b, ucast g, ucast r, 0]"
proof -
  have lt: "8 \<le> n \<Longrightarrow> \<not> bit x n" if "unat x < 256" for x :: u32 and n
    using bit_small [of x 8 n] that by auto
  show ?thesis unfolding be32_def
    by (auto intro!: bit_word_eqI simp: bit_byte_of bit_simps lt [OF assms(1)] lt [OF assms(2)] lt [OF assms(3)])
qed

lemma widen5: "v < 32 \<Longrightarrow> push_bit 3 (of_nat v :: u32) OR drop_bit 2 (of_nat v) = of_nat (v * 8 + v div 4)"
proof -
  have "\<forall>v\<in>set [0..<32]. push_bit 3 (of_nat v :: u32) OR drop_bit 2 (of_nat v) = of_nat (v * 8 + v div 4)" by code_simp
  then show "v < 32 \<Longrightarrow> ?thesis" by simp
qed

lemma widen6: "v < 64 \<Longrightarrow> push_bit 2 (of_nat v :: u32) OR drop_bit 4 (of_nat v) = of_nat (v * 4 + v div 16)"
proof -
  have "\<forall>v\<in>set [0..<64]. push_bit 2 (of_nat v :: u32) OR drop_bit 4 (of_nat v) = of_nat (v * 4 + v div 16)" by code_simp
  then show "v < 64 \<Longrightarrow> ?thesis" by simp
qed

lemma unat_drop_bit: "unat (drop_bit k v) = unat v div 2 ^ k" for v :: "'a::len word"
proof -
  have "take_bit LENGTH('a) (unat v) = unat v" by (rule take_bit_nat_eq_self) (rule unsigned_less)
  then have "unat (drop_bit k v) = drop_bit k (unat v)" by (simp only: unsigned_drop_bit_eq)
  also have "\<dots> = unat v div 2 ^ k" by (rule drop_bit_eq_div)
  finally show ?thesis .
qed

lemma channel: "(ucast (drop_bit k (v :: u16)) AND mask n :: u32) = of_nat (unat v div 2 ^ k mod 2 ^ n)"
proof -
  have "unat (ucast (drop_bit k v) AND mask n :: u32) = take_bit n (unat v div 2 ^ k)"
    by (simp only: take_bit_eq_mask [symmetric] unsigned_take_bit_eq unat_ucast_up32 unat_drop_bit)
  also have "\<dots> = unat v div 2 ^ k mod 2 ^ n" by (rule take_bit_eq_mod)
  finally have "(of_nat (unat (ucast (drop_bit k v) AND mask n :: u32)) :: u32) = of_nat (unat v div 2 ^ k mod 2 ^ n)" by (rule arg_cong)
  then show ?thesis by simp
qed

lemma small_byte: "n < 256 \<Longrightarrow> unat (of_nat n :: u32) < 256 \<and> ucast (of_nat n :: u32) = (of_nat n :: u8)"
  by (simp add: unat_of_nat) (rule bit_word_eqI, auto simp: bit_simps bit_of_nat_iff_bit)

lemma exp_bytes:
  "v < 32 \<Longrightarrow> unat (of_nat (v * 8 + v div 4) :: u32) < 256 \<and> ucast (of_nat (v * 8 + v div 4) :: u32) = exp5 v"
  "v < 64 \<Longrightarrow> unat (of_nat (v * 4 + v div 16) :: u32) < 256 \<and> ucast (of_nat (v * 4 + v div 16) :: u32) = exp6 v"
  using small_byte [of "v * 8 + v div 4"] small_byte [of "v * 4 + v div 16"] by (simp_all only: exp5_def exp6_def)

lemma r5g6b5_pixel_bytes:
  "be32 (r5g6b5_pixel v) = [exp5 (unat v mod 32), exp6 (unat v div 32 mod 64), exp5 (unat v div 2048), 0]"
proof -
  have m: "(0x1F :: u32) = mask 5" "(0x3F :: u32) = mask 6" by (simp_all add: mask_eq_exp_minus_1)
  have v: "unat v < 65536" using unsigned_less [of v] by simp
  let ?r = "unat v div 2048" and ?g = "unat v div 32 mod 64" and ?b = "unat v mod 32"
  have lt: "?r < 32" "?g < 64" "?b < 32" using v by simp_all
  have "(ucast (drop_bit 11 v) AND 0x1F :: u32) = of_nat ?r" "(ucast (drop_bit 5 v) AND 0x3F :: u32) = of_nat ?g"
    "(ucast v AND 0x1F :: u32) = of_nat ?b"
    unfolding m using channel [of 11 v 5] channel [of 5 v 6] channel [of 0 v 5] lt(1) by simp_all
  then have "r5g6b5_pixel v = push_bit 24 (of_nat (?b * 8 + ?b div 4)) OR push_bit 16 (of_nat (?g * 4 + ?g div 16))
      OR push_bit 8 (of_nat (?r * 8 + ?r div 4))"
    unfolding r5g6b5_pixel_def Let_def by (simp only: widen5 [OF lt(1)] widen5 [OF lt(3)] widen6 [OF lt(2)])
  then show ?thesis using exp_bytes(1) [OF lt(1)] exp_bytes(1) [OF lt(3)] exp_bytes(2) [OF lt(2)]
    by (simp only: be32_pack)
qed

lemma r5g5b5_pixel_bytes:
  "be32 (r5g5b5_pixel v) = [exp5 (unat v mod 32), exp5 (unat v div 32 mod 32), exp5 (unat v div 1024 mod 32), 0]"
proof -
  have m: "(0x1F :: u32) = mask 5" by (simp_all add: mask_eq_exp_minus_1)
  let ?r = "unat v div 1024 mod 32" and ?g = "unat v div 32 mod 32" and ?b = "unat v mod 32"
  have lt: "?r < 32" "?g < 32" "?b < 32" by simp_all
  have "(ucast (drop_bit 10 v) AND 0x1F :: u32) = of_nat ?r" "(ucast (drop_bit 5 v) AND 0x1F :: u32) = of_nat ?g"
    "(ucast v AND 0x1F :: u32) = of_nat ?b"
    unfolding m using channel [of 10 v 5] channel [of 5 v 5] channel [of 0 v 5] by simp_all
  then have "r5g5b5_pixel v = push_bit 24 (of_nat (?b * 8 + ?b div 4)) OR push_bit 16 (of_nat (?g * 8 + ?g div 4))
      OR push_bit 8 (of_nat (?r * 8 + ?r div 4))"
    unfolding r5g5b5_pixel_def Let_def by (simp only: widen5 [OF lt(1)] widen5 [OF lt(2)] widen5 [OF lt(3)])
  then show ?thesis using exp_bytes(1) [OF lt(1)] exp_bytes(1) [OF lt(2)] exp_bytes(1) [OF lt(3)]
    by (simp only: be32_pack)
qed

text \<open>The 32-bit formats only move bytes.\<close>

lemma pixel32_bytes:
  assumes "be32 s = [b0, b1, b2, b3]"
  shows "be32 (a8r8g8b8_pixel s) = [b3, b2, b1, b0]" "be32 (r8g8b8a8_pixel s) = [b2, b1, b0, b3]"
    "be32 (a8b8g8r8_pixel s) = [b1, b2, b3, b0]"
proof -
  have s: "b0 = byte_of 3 s" "b1 = byte_of 2 s" "b2 = byte_of 1 s" "b3 = byte_of 0 s" using assms by (simp_all add: be32_def)
  have m: "(0x0000FF00 :: u32) = push_bit 8 (mask 8)" "(0x00FF0000 :: u32) = push_bit 16 (mask 8)"
    "(0x00FF00FF :: u32) = push_bit 16 (mask 8) OR mask 8" "(0xFF000000 :: u32) = push_bit 24 (mask 8)" by code_simp+
  have b: "\<not> bit s n" if "32 \<le> n" for n using bit_imp_le_length [of s n] that by auto
  show "be32 (a8r8g8b8_pixel s) = [b3, b2, b1, b0]" "be32 (r8g8b8a8_pixel s) = [b2, b1, b0, b3]"
    "be32 (a8b8g8r8_pixel s) = [b1, b2, b3, b0]"
    unfolding be32_def s a8r8g8b8_pixel_def r8g8b8a8_pixel_def a8b8g8r8_pixel_def m
    by (auto intro!: bit_word_eqI simp: bit_byte_of bit_simps b)
qed

section \<open>Rows\<close>

text \<open>The bytes of the source pixel at an address, and what a painted row contains.\<close>

definition src_pixel :: "RGBFTYPE \<Rightarrow> nat \<Rightarrow> bytes \<Rightarrow> bytes" where
  "src_pixel fmt a m = take (unat (chip_format_bpp fmt)) (drop a m)"

lemma take_drop_list:
  "a + 1 \<le> length m \<Longrightarrow> take 1 (drop a m) = [m ! a]"
  "a + 2 \<le> length m \<Longrightarrow> take 2 (drop a m) = [m ! a, m ! (a + 1)]"
  "a + 4 \<le> length m \<Longrightarrow> take 4 (drop a m) = [m ! a, m ! (a + 1), m ! (a + 2), m ! (a + 3)]"
  by (auto intro!: nth_equalityI simp: less_Suc_eq nth_Cons' numeral_eq_Suc)

text \<open>A pixel loop, whatever reads the pixel.\<close>

lemma pixel_row:
  assumes px: "\<And>col m. col < n \<Longrightarrow> agrees R m0 m \<Longrightarrow> \<exists>v. f col m = cpu_st32 (dst + col * 4) v m \<and> be32 v = P col"
    and F: "\<And>col i old. col < n \<Longrightarrow> i < 4 \<Longrightarrow> F (dst + col * 4 + i) old = P col ! i"
    and dst: "dst + n * 4 \<le> length m0" "R \<inter> {dst..<dst + n * 4} = {}" and "agrees R m0 m1"
  shows "\<exists>m'. foldM f [0..<n] m1 = Some m' \<and> paints F {dst..<dst + n * 4} m1 m'"
proof (rule paints_pixels [OF _ _ dst(2) assms(5)])
  fix col m assume col: "col < n" and m: "agrees R m0 m"
  obtain v where v: "f col m = cpu_st32 (dst + col * 4) v m" "be32 v = P col" using px [OF col m] by blast
  have l: "dst + col * 4 + 4 \<le> length m" using col dst(1) agrees_length [OF m] by simp
  have lp: "length (P col) = 4" using v(2) by (metis length_images(2))
  have "paints F {dst + col * 4..<dst + col * 4 + length (be32 v)} m (stbytes (dst + col * 4) (be32 v) m)"
    by (rule paints_stbytes) (use l F [OF col] v(2) lp in simp_all)
  then show "\<exists>m'. f col m = Some m' \<and> paints F {dst + col * 4..<dst + col * 4 + 4} m m'"
    using v(1) cpu_st_in(2) [OF l] by simp
qed simp

text \<open>Big-endian loads yield the source pixel.\<close>

lemma be16_value: "be16 v = [hi, lo] \<Longrightarrow> unat v = unat hi * 256 + unat lo"
proof -
  assume "be16 v = [hi, lo]"
  then have v: "v = mk16 lo hi" using mk16_bytes [of v] by (simp add: be16_def)
  have d: "mk16 lo hi = push_bit 8 (ucast hi) + (ucast lo :: u16)"
    unfolding mk16_def word_at_def
    by (subst disjunctive_add_eq_or) (auto simp: bit_eq_iff bit_simps or.commute dest: bit_u8_less)
  have u: "unat (ucast b :: u16) = unat b" for b :: u8
    using unat_u8_less [of b] by (simp add: unsigned_ucast_eq take_bit_nat_eq_self)
  show ?thesis unfolding v d using u [of hi] u [of lo] unat_u8_less [of hi] unat_u8_less [of lo]
    by (simp add: unat_word_ariths push_bit_eq_mult)
qed

lemma ld16_pixel:
  assumes "a + 2 \<le> length m" "chip_format_bpp fmt = 2"
  shows "\<exists>v. cpu_ld16 a m = Some v \<and> be16 v = src_pixel fmt a m"
  using be_ld(1) [OF assms(1)] take_drop_list(2) [OF assms(1)] assms(2) by (simp add: src_pixel_def)

lemma ld32_pixel:
  assumes "a + 4 \<le> length m" "chip_format_bpp fmt = 4"
  shows "\<exists>v. cpu_ld32 a m = Some v \<and> be32 v = src_pixel fmt a m"
  using be_ld(2) [OF assms(1)] take_drop_list(3) [OF assms(1)] assms(2) by (simp add: src_pixel_def)

lemma be16_expand: "be16 v = [byte_of 1 v, byte_of 0 v]" and be32_expand: "be32 w = [byte_of 3 w, byte_of 2 w, byte_of 1 w, byte_of 0 w]"
  by (simp_all add: be16_def be32_def)

lemma pixel16:
  "be32 (r5g6b5_pixel v) = gpu_pixel RGBFB_R5G6B5 pal (be16 v)" "be32 (r5g5b5_pixel v) = gpu_pixel RGBFB_R5G5B5 pal (be16 v)"
  using be16_value [OF be16_expand [of v]]
  by (simp_all add: be16_expand [of v] r5g6b5_pixel_bytes r5g5b5_pixel_bytes Let_def)

lemma pixel32:
  "be32 (a8r8g8b8_pixel s) = gpu_pixel RGBFB_A8R8G8B8 pal (be32 s)" "be32 s = gpu_pixel RGBFB_B8G8R8A8 pal (be32 s)"
  "be32 (r8g8b8a8_pixel s) = gpu_pixel RGBFB_R8G8B8A8 pal (be32 s)" "be32 (a8b8g8r8_pixel s) = gpu_pixel RGBFB_A8B8G8R8 pal (be32 s)"
  using pixel32_bytes [OF be32_expand [of s]] by (simp_all add: be32_expand [of s])

text \<open>A converted row: where it lies, and the conversion of all of it.\<close>

definition row_fits :: "RGBFTYPE \<Rightarrow> nat \<Rightarrow> nat \<Rightarrow> nat \<Rightarrow> nat set \<Rightarrow> bytes \<Rightarrow> bool" where
  "row_fits fmt src dst w R m0 \<longleftrightarrow> (let k = unat (chip_format_bpp fmt) in
     src + w * k \<le> length m0 \<and> {src..<src + w * k} \<subseteq> R \<and> dst + w * 4 \<le> length m0 \<and> R \<inter> {dst..<dst + w * 4} = {})"

lemma src_pixel_agrees:
  assumes fits: "row_fits fmt src dst w R m0" and m: "agrees R m0 m" and col: "col < w"
  shows "src + col * unat (chip_format_bpp fmt) + unat (chip_format_bpp fmt) \<le> length m"
    "src_pixel fmt (src + col * unat (chip_format_bpp fmt)) m = src_pixel fmt (src + col * unat (chip_format_bpp fmt)) m0"
proof -
  let ?k = "unat (chip_format_bpp fmt)" and ?a = "src + col * unat (chip_format_bpp fmt)"
  have "Suc col * ?k \<le> w * ?k" using col by (intro mult_right_mono) simp_all
  then have l: "?a + ?k \<le> src + w * ?k" by simp
  then show "?a + ?k \<le> length m" using fits agrees_length [OF m] by (simp add: row_fits_def Let_def)
  have "m ! (?a + i) = m0 ! (?a + i)" if "i < ?k" for i
  proof (rule agrees_nth [OF m])
    show "?a + i \<in> R" using fits l that by (auto simp: row_fits_def Let_def)
    show "?a + i < length m0" using fits l that by (simp add: row_fits_def Let_def)
  qed
  then show "src_pixel fmt ?a m = src_pixel fmt ?a m0"
    using fits l agrees_length [OF m] by (auto intro!: nth_equalityI simp: src_pixel_def row_fits_def Let_def)
qed

lemma row_of_reader:
  assumes fits: "row_fits fmt src dst w R m0" and m1: "agrees R m0 m1"
    and f: "\<And>col m. src + col * unat (chip_format_bpp fmt) + unat (chip_format_bpp fmt) \<le> length m \<Longrightarrow>
      \<exists>v. f col m = cpu_st32 (dst + col * 4) v m \<and> be32 v = gpu_pixel fmt pal (src_pixel fmt (src + col * unat (chip_format_bpp fmt)) m)"
    and F: "\<And>col i old. col < w \<Longrightarrow> i < 4 \<Longrightarrow>
      F (dst + col * 4 + i) old = gpu_pixel fmt pal (src_pixel fmt (src + col * unat (chip_format_bpp fmt)) m0) ! i"
  shows "\<exists>m'. foldM f [0..<w] m1 = Some m' \<and> paints F {dst..<dst + w * 4} m1 m'"
proof (rule pixel_row [where R = R and P = "\<lambda>col. gpu_pixel fmt pal (src_pixel fmt (src + col * unat (chip_format_bpp fmt)) m0)", OF _ F _ _ m1])
  fix col m assume "col < w" "agrees R m0 m"
  then show "\<exists>v. f col m = cpu_st32 (dst + col * 4) v m
      \<and> be32 v = gpu_pixel fmt pal (src_pixel fmt (src + col * unat (chip_format_bpp fmt)) m0)"
    using f [of col m] src_pixel_agrees [OF fits, of m col] by simp
qed (use fits in \<open>simp_all add: row_fits_def Let_def\<close>)

lemma conv_row_result:
  assumes conv: "chip_pick_row_converter fmt = Some conv" and pal: "length pal = 256"
    and fits: "row_fits fmt src dst (unat w) R m0" and m1: "agrees R m0 m1" and w: "w \<noteq> 0"
    and F: "\<And>col i old. col < unat w \<Longrightarrow> i < 4 \<Longrightarrow>
      F (dst + col * 4 + i) old = gpu_pixel fmt pal (src_pixel fmt (src + col * unat (chip_format_bpp fmt)) m0) ! i"
  shows "\<exists>m'. conv src dst w pal m1 = Some m' \<and> paints F {dst..<dst + unat w * 4} m1 m'"
proof -
  note row = row_of_reader [where pal = pal, OF fits m1 _ F]
  have "0 < unat w" using w by (simp add: unat_gt_0)
  then have neq: "src \<noteq> dst" using fits bpp_cases [of fmt] by (fastforce simp: row_fits_def Let_def)
  note defs = conv_row_clut_def conv_row_r5g6b5_def conv_row_r5g5b5_def conv_row_a8r8g8b8_def conv_row_b8g8r8a8_def
    conv_row_r8g8b8a8_def conv_row_a8b8g8r8_def
  have clut: "\<exists>v. (do { i \<leftarrow> rd m (src + col); v \<leftarrow> rd pal (unat i); cpu_st32 (dst + col * 4) v m }) = cpu_st32 (dst + col * 4) v m
      \<and> be32 v = gpu_pixel RGBFB_CLUT pal (src_pixel RGBFB_CLUT (src + col) m)" if "src + col + 1 \<le> length m" for col m
    using that pal unat_u8_less take_drop_list(1) [OF that] by (simp add: rd_in src_pixel_def) blast
  have two: "\<exists>u. (do { v \<leftarrow> cpu_ld16 (src + col * 2) m; cpu_st32 (dst + col * 4) (f v) m }) = cpu_st32 (dst + col * 4) u m
      \<and> be32 u = gpu_pixel fm pal (src_pixel fm (src + col * 2) m)"
    if "src + col * 2 + 2 \<le> length m" "chip_format_bpp fm = 2" "\<And>v. be32 (f v) = gpu_pixel fm pal (be16 v)" for col m f fm
    using ld16_pixel [OF that(1,2)] that(3) by auto
  have four: "\<exists>u. (do { v \<leftarrow> cpu_ld32 (src + col * 4) m; cpu_st32 (dst + col * 4) (f v) m }) = cpu_st32 (dst + col * 4) u m
      \<and> be32 u = gpu_pixel fm pal (src_pixel fm (src + col * 4) m)"
    if "src + col * 4 + 4 \<le> length m" "chip_format_bpp fm = 4" "\<And>v. be32 (f v) = gpu_pixel fm pal (be32 v)" for col m f fm
    using ld32_pixel [OF that(1,2)] that(3) by auto
  show ?thesis
    using conv neq clut two [OF _ _ pixel16(1)] two [OF _ _ pixel16(2)] four [OF _ _ pixel32(1)] four [OF _ _ pixel32(2)]
      four [OF _ _ pixel32(3)] four [OF _ _ pixel32(4)]
    by (cases fmt) (auto simp: defs intro!: row)
qed

section \<open>Rectangles\<close>

lemma foldM_shift: "foldM f [a..<a + n] s = foldM (\<lambda>i. f (a + i)) [0..<n] s"
proof (induction n arbitrary: s)
  case (Suc n)
  have "foldM f [a..<a + Suc n] s = do { s' \<leftarrow> foldM f [a..<a + n] s; f (a + n) s' }" using foldM_Suc [of a "a + n" f s] by simp
  also have "\<dots> = foldM (\<lambda>i. f (a + i)) [0..<Suc n] s" using Suc by (simp add: foldM_Suc del: upt_Suc)
  finally show ?case .
qed simp

text \<open>The clamps of the panning offset.\<close>

lemma sint16_positive: "0 <s p \<Longrightarrow> unat (p :: u16) < 32768"
proof -
  assume "0 <s p"
  then have pos: "0 < sint p" by (simp add: word_sless_alt)
  have lt: "sint p < 32768" using sint_lt [of p] by simp
  then have "uint p = sint p" using pos by (simp add: uint_sint take_bit_int_eq_self)
  then have "unat p = nat (sint p)" by (metis nat_uint_eq)
  then show ?thesis using pos lt by simp
qed

lemma pos_word: "unat (if 0 <s p then ucast p else 0 :: u32) < 32768" for p :: u16
  using sint16_positive [of p] by simp

lemma pan_y_clamped:
  assumes "unat (g_fb_height (d_gs d)) < 2 ^ 31"
  shows "unat (pan_y d) + unat (visible_h d) \<le> unat (g_fb_height (d_gs d))"
proof -
  let ?p = "if 0 <s d_pan_yoff d then ucast (d_pan_yoff d) else 0 :: u32" and ?H = "g_fb_height (d_gs d)" and ?h = "visible_h d"
  have v: "unat ?h \<le> unat ?H" by (auto simp: visible_h_def word_less_nat_alt)
  have s: "unat (?p + ?h) = unat ?p + unat ?h" using pos_word [of "d_pan_yoff d"] v assms by (intro unat_add_u32) simp
  have "unat (?H - ?h) = unat ?H - unat ?h" using v by (simp add: unat_sub word_le_nat_alt)
  then show ?thesis using v s by (auto simp: pan_y_def Let_def word_less_nat_alt)
qed

lemma pan_x_clamped:
  assumes "unat (src_width d) < 2 ^ 31" "unat (visible_w d) \<le> unat (src_width d)"
  shows "unat (pan_x d) + unat (visible_w d) \<le> unat (src_width d)"
proof -
  let ?p = "if 0 <s d_pan_xoff d then ucast (d_pan_xoff d) else 0 :: u32" and ?W = "src_width d" and ?w = "visible_w d"
  have s: "unat (?p + ?w) = unat ?p + unat ?w" using pos_word [of "d_pan_xoff d"] assms by (intro unat_add_u32) simp
  have "unat (?W - ?w) = unat ?W - unat ?w" using assms(2) by (simp add: unat_sub word_le_nat_alt)
  then show ?thesis using assms(2) s by (auto simp: pan_x_def Let_def word_less_nat_alt)
qed

text \<open>
  When a frame can be converted: the source bitmap, from its base to the last visible row, and the
  visible part of the destination lie in memory and apart, and rows are long enough.
\<close>

definition src_bpp :: "disp \<Rightarrow> nat" where
  "src_bpp d = unat (chip_format_bpp (d_active_format d))"

definition convert_ok :: "u32 \<Rightarrow> disp \<Rightarrow> bool" where
  "convert_ok dst_mem d \<longleftrightarrow> src_base d \<noteq> 0 \<and> dst_mem \<noteq> 0 \<and> length (d_palette d) = 256 \<and> length (d_mem d) \<le> 2 ^ 32
     \<and> chip_pick_row_converter (d_active_format d) \<noteq> None
     \<and> unat (visible_w d) \<le> unat (src_width d) \<and> unat (src_width d) < 2 ^ 16
     \<and> unat (g_fb_height (d_gs d)) < 2 ^ 16 \<and> unat (visible_w d) * 4 \<le> unat (g_fb_stride (d_gs d))
     \<and> (let sbytes = (unat (pan_y d) + unat (visible_h d)) * (unat (src_width d) * src_bpp d);
            dbytes = unat (visible_h d) * unat (g_fb_stride (d_gs d)) in
        unat (src_base d) + sbytes \<le> length (d_mem d) \<and> unat dst_mem + dbytes \<le> length (d_mem d)
        \<and> {unat (src_base d)..<unat (src_base d) + sbytes} \<inter> {unat dst_mem..<unat dst_mem + dbytes} = {})"

text \<open>The converted picture: what a pixel of the destination must hold.\<close>

definition shown_pixel :: "disp \<Rightarrow> nat \<Rightarrow> nat \<Rightarrow> bytes" where
  "shown_pixel d row col = gpu_pixel (d_active_format d) (d_palette d)
     (src_pixel (d_active_format d) (unat (src_base d) + (row + unat (pan_y d)) * (unat (src_width d) * src_bpp d)
        + (col + unat (pan_x d)) * src_bpp d) (d_mem d))"

text \<open>The picture as a painting of the destination: row, column and byte of an address.\<close>

definition picture :: "disp \<Rightarrow> u32 \<Rightarrow> nat \<Rightarrow> u8 \<Rightarrow> u8" where
  "picture d dst_mem a old = (let stride = unat (g_fb_stride (d_gs d)); off = a - unat dst_mem in
     shown_pixel d (off div stride) (off mod stride div 4) ! (off mod stride mod 4))"

lemma picture_at:
  assumes "col * 4 + i < unat (g_fb_stride (d_gs d))" "i < 4"
  shows "picture d dst_mem (unat dst_mem + row * unat (g_fb_stride (d_gs d)) + col * 4 + i) old = shown_pixel d row col ! i"
proof -
  let ?s = "unat (g_fb_stride (d_gs d))"
  have o: "unat dst_mem + row * ?s + col * 4 + i - unat dst_mem = (col * 4 + i) + row * ?s" by simp
  have "(col * 4 + i + row * ?s) div ?s = row" "(col * 4 + i + row * ?s) mod ?s = col * 4 + i"
    using assms(1) by simp_all
  moreover have "(col * 4 + i) div 4 = col" "(col * 4 + i) mod 4 = i" using assms(2) by simp_all
  ultimately show ?thesis unfolding picture_def Let_def o by simp
qed

text \<open>One row of the loop.\<close>

definition src_area :: "disp \<Rightarrow> nat set" where
  "src_area d = {unat (src_base d)..<unat (src_base d) + (unat (pan_y d) + unat (visible_h d)) * (unat (src_width d) * src_bpp d)}"

lemma convert_row_addresses:
  assumes ok: "convert_ok dst_mem d" and x: "unat x + unat w \<le> unat (visible_w d)" and row: "row < unat (visible_h d)" and w: "w \<noteq> 0"
  shows "unat ((of_nat row + pan_y d) * (src_width d * ucast (chip_format_bpp (d_active_format d))))
      = (row + unat (pan_y d)) * (unat (src_width d) * src_bpp d)"
    and "unat ((x + pan_x d) * ucast (chip_format_bpp (d_active_format d))) = (unat x + unat (pan_x d)) * src_bpp d"
    and "unat (of_nat row * g_fb_stride (d_gs d)) = row * unat (g_fb_stride (d_gs d))" and "unat (x * 4) = unat x * 4"
    and "row_fits (d_active_format d)
      (unat (src_base d) + (row + unat (pan_y d)) * (unat (src_width d) * src_bpp d) + (unat x + unat (pan_x d)) * src_bpp d)
      (unat dst_mem + row * unat (g_fb_stride (d_gs d)) + unat x * 4) (unat w) (src_area d) (d_mem d)"
    and "unat x * 4 + unat w * 4 \<le> unat (g_fb_stride (d_gs d))"
proof -
  let ?k = "src_bpp d" and ?W = "unat (src_width d)" and ?H = "unat (visible_h d)" and ?s = "unat (g_fb_stride (d_gs d))"
    and ?bpp = "ucast (chip_format_bpp (d_active_format d)) :: u32"
  let ?src = "unat (src_base d) + (row + unat (pan_y d)) * (?W * ?k) + (unat x + unat (pan_x d)) * ?k"
  let ?dst = "unat dst_mem + row * ?s + unat x * 4"
  have k: "?k \<le> 4" "0 < ?k" using bpp_cases [of "d_active_format d"] by (auto simp: src_bpp_def)
  have W: "?W < 2 ^ 16" "unat (visible_w d) \<le> ?W" and H: "unat (g_fb_height (d_gs d)) < 2 ^ 16"
    and s4: "unat (visible_w d) * 4 \<le> ?s" and len: "length (d_mem d) \<le> 2 ^ 32"
    using ok by (simp_all add: convert_ok_def)
  have fits: "unat (src_base d) + (unat (pan_y d) + ?H) * (?W * ?k) \<le> length (d_mem d)" "unat dst_mem + ?H * ?s \<le> length (d_mem d)"
    "src_area d \<inter> {unat dst_mem..<unat dst_mem + ?H * ?s} = {}"
    using ok by (simp_all add: convert_ok_def Let_def src_area_def)
  have px: "unat (pan_x d) + unat (visible_w d) \<le> ?W" using pan_x_clamped W by simp
  have py: "unat (pan_y d) + ?H < 2 ^ 16" using pan_y_clamped [of d] H by simp
  have Wk: "?W * ?k < 2 ^ 18" using mult_le_mono [of ?W "2 ^ 16 - 1" ?k 4] W(1) k(1) by simp
  have stride: "unat (src_width d * ?bpp) = ?W * ?k" using Wk by (subst unat_mult_u32) (simp_all add: src_bpp_def)
  have r: "unat (of_nat row :: u32) = row" using row py by (simp add: unat_of_nat)
  have rp: "unat (of_nat row + pan_y d) = row + unat (pan_y d)" using r row py by (subst unat_add_u32) simp_all
  have next_row: "(row + unat (pan_y d)) * (?W * ?k) + ?W * ?k \<le> (unat (pan_y d) + ?H) * (?W * ?k)"
  proof -
    have "Suc (row + unat (pan_y d)) * (?W * ?k) \<le> (unat (pan_y d) + ?H) * (?W * ?k)" using row by (intro mult_right_mono) simp_all
    then show ?thesis by simp
  qed
  have "0 < unat w" using w by (simp add: unat_gt_0)
  then have "0 < ?W * ?k" using x W(2) k(2) by simp
  then have "(row + unat (pan_y d)) * (?W * ?k) < 2 ^ 32" using next_row fits(1) len by linarith
  then show "unat ((of_nat row + pan_y d) * (src_width d * ?bpp)) = (row + unat (pan_y d)) * (?W * ?k)"
    by (subst unat_mult_u32) (simp_all add: rp stride)
  have xp: "unat (x + pan_x d) = unat x + unat (pan_x d)" using x px W(1) by (subst unat_add_u32) simp_all
  have "(unat x + unat (pan_x d)) * ?k + unat w * ?k \<le> ?W * ?k"
    unfolding distrib_right [symmetric] using x px by (intro mult_right_mono) simp_all
  then have cols: "(unat x + unat (pan_x d)) * ?k + unat w * ?k \<le> ?W * ?k" .
  show "unat ((x + pan_x d) * ?bpp) = (unat x + unat (pan_x d)) * ?k"
    using cols Wk by (subst unat_mult_u32) (simp_all add: xp src_bpp_def)
  show "unat (x * 4) = unat x * 4" using x W by (subst unat_mult_u32) simp_all
  have dend: "row * ?s + (unat x * 4 + unat w * 4) \<le> ?H * ?s"
  proof -
    have "Suc row * ?s \<le> ?H * ?s" using row by (intro mult_right_mono) simp_all
    moreover have "unat x * 4 + unat w * 4 \<le> ?s" using x s4 by simp
    ultimately show ?thesis by simp
  qed
  have "row * ?s < 2 ^ 32" using dend fits(2) len \<open>0 < unat w\<close> by simp
  then show "unat (of_nat row * g_fb_stride (d_gs d)) = row * ?s" by (subst unat_mult_u32) (simp_all add: r)
  show "row_fits (d_active_format d) ?src ?dst (unat w) (src_area d) (d_mem d)"
  proof -
    have se: "?src + unat w * ?k \<le> unat (src_base d) + (unat (pan_y d) + ?H) * (?W * ?k)" using next_row cols by simp
    moreover have "{?src..<?src + unat w * ?k} \<subseteq> src_area d" using se by (auto simp: src_area_def)
    moreover have "{?dst..<?dst + unat w * 4} \<subseteq> {unat dst_mem..<unat dst_mem + ?H * ?s}" using dend by auto
    then have "src_area d \<inter> {?dst..<?dst + unat w * 4} = {}" using fits(3) by blast
    ultimately show ?thesis using fits dend unfolding row_fits_def Let_def src_bpp_def [symmetric] by simp
  qed
  show "unat x * 4 + unat w * 4 \<le> ?s" using x s4 by simp
qed

lemma convert_row:
  assumes ok: "convert_ok dst_mem d" and x: "unat x + unat w \<le> unat (visible_w d)" and row: "row < unat (visible_h d)"
    and w: "w \<noteq> 0" and conv: "chip_pick_row_converter (d_active_format d) = Some conv" and m: "agrees (src_area d) (d_mem d) m"
  shows "\<exists>m'. conv (unat (src_base d) + unat ((of_nat row + pan_y d) * (src_width d * ucast (chip_format_bpp (d_active_format d))))
        + unat ((x + pan_x d) * ucast (chip_format_bpp (d_active_format d))))
      (unat dst_mem + unat (of_nat row * g_fb_stride (d_gs d)) + unat (x * 4)) w (d_palette d) m = Some m'
     \<and> paints (picture d dst_mem) {unat dst_mem + unat x * 4 + row * unat (g_fb_stride (d_gs d))
         ..<unat dst_mem + unat x * 4 + row * unat (g_fb_stride (d_gs d)) + unat w * 4} m m'"
proof -
  let ?k = "src_bpp d" and ?W = "unat (src_width d)" and ?s = "unat (g_fb_stride (d_gs d))"
  let ?src = "unat (src_base d) + (row + unat (pan_y d)) * (?W * ?k) + (unat x + unat (pan_x d)) * ?k"
  let ?dst = "unat dst_mem + row * ?s + unat x * 4"
  note addr = convert_row_addresses [OF ok x row w]
  have F: "picture d dst_mem (?dst + col * 4 + i) old = gpu_pixel (d_active_format d) (d_palette d)
      (src_pixel (d_active_format d) (?src + col * unat (chip_format_bpp (d_active_format d))) (d_mem d)) ! i"
    if "col < unat w" "i < 4" for col i old
  proof -
    have "(unat x + col) * 4 + i < ?s" using that addr(6) by simp
    from picture_at [OF this that(2), of dst_mem row old]
    have "picture d dst_mem (?dst + col * 4 + i) old = shown_pixel d row (unat x + col) ! i" by (simp add: algebra_simps)
    moreover have "?src + col * ?k = unat (src_base d) + (row + unat (pan_y d)) * (?W * ?k) + (unat x + col + unat (pan_x d)) * ?k"
      by (simp add: algebra_simps)
    ultimately show ?thesis by (simp only: shown_pixel_def src_bpp_def)
  qed
  have "length (d_palette d) = 256" using ok by (simp add: convert_ok_def)
  from conv_row_result [OF conv this addr(5) m w F] show ?thesis unfolding addr(1-4)
    by (simp add: add.commute add.left_commute)
qed

text \<open>The whole rectangle.\<close>

definition converted :: "disp \<Rightarrow> disp \<Rightarrow> bool" where
  "converted d d' \<longleftrightarrow> (\<exists>m c p lg. d' = d\<lparr>d_mem := m, d_eclock := c, d_prof_convert := p, d_proflog := lg\<rparr>)"

lemma prof_begin_frame: "\<exists>t c. prof_begin d = (t, d\<lparr>d_eclock := c\<rparr>)"
  by (cases "chip_prof_begin (d_eclock d)") (simp add: prof_begin_def, blast)

lemma convert_rows_result:
  assumes ok: "convert_ok dst_mem d" and x: "unat x + unat w \<le> unat (visible_w d)" and y: "unat y + unat h \<le> unat (visible_h d)"
    and w: "w \<noteq> 0" and conv: "chip_pick_row_converter (d_active_format d) = Some conv"
  shows "\<exists>m. convert_rows conv dst_mem x y w h d = Some m \<and> paints (picture d dst_mem)
     (rect_bytes (unat dst_mem + unat x * 4 + unat y * unat (g_fb_stride (d_gs d))) (unat (g_fb_stride (d_gs d))) (unat w * 4) (unat h)) (d_mem d) m"
proof -
  let ?s = "unat (g_fb_stride (d_gs d))"
  let ?base = "unat dst_mem + unat x * 4 + unat y * ?s"
  have H: "unat (visible_h d) < 2 ^ 16" using ok by (auto simp: convert_ok_def visible_h_def word_less_nat_alt split: if_splits)
  then have yh: "unat (y + h) = unat y + unat h" using y by (subst unat_add_u32) simp_all
  have s4: "unat w * 4 \<le> ?s" using x ok by (simp add: convert_ok_def)
  have apart: "src_area d \<inter> rect_bytes ?base ?s (unat w * 4) (unat h) = {}"
  proof -
    have "rect_bytes ?base ?s (unat w * 4) (unat h) \<subseteq> {unat dst_mem..<unat dst_mem + unat (visible_h d) * ?s}"
    proof (unfold rect_bytes_def, intro UN_least subsetI)
      fix r a assume r: "r \<in> {..<unat h}" and a: "a \<in> {?base + r * ?s..<?base + r * ?s + unat w * 4}"
      have "Suc (unat y + r) * ?s \<le> unat (visible_h d) * ?s" using r y by (intro mult_right_mono) simp_all
      moreover have "unat x * 4 + unat w * 4 \<le> ?s" using x ok by (simp add: convert_ok_def)
      ultimately show "a \<in> {unat dst_mem..<unat dst_mem + unat (visible_h d) * ?s}" using a by (simp add: algebra_simps)
    qed
    then show ?thesis using ok unfolding convert_ok_def Let_def src_area_def by blast
  qed
  show ?thesis unfolding convert_rows_def Let_def yh foldM_shift
  proof (rule paints_rows [where R = "src_area d", OF _ s4 apart agrees_refl])
    fix r m assume r: "r < unat h" and m: "agrees (src_area d) (d_mem d) m"
    have r': "unat y + r < unat (visible_h d)" using r y by simp
    have e: "?base + r * ?s = unat dst_mem + unat x * 4 + (unat y + r) * ?s" by (simp add: algebra_simps)
    show "\<exists>m'. conv (unat (src_base d) + unat ((word_of_nat (unat y + r) + pan_y d) * (src_width d * ucast (chip_format_bpp (d_active_format d))))
          + unat ((x + pan_x d) * ucast (chip_format_bpp (d_active_format d))))
        (unat dst_mem + unat (word_of_nat (unat y + r) * g_fb_stride (d_gs d)) + unat (x * 4)) w (d_palette d) m = Some m'
       \<and> paints (picture d dst_mem) {?base + r * ?s..<?base + r * ?s + unat w * 4} m m'"
      unfolding e by (rule convert_row [OF ok x r' w conv m])
  qed
qed

lemma chip_convert_rect_result:
  assumes ok: "convert_ok dst_mem d" and x: "unat x + unat w \<le> unat (visible_w d)" and y: "unat y + unat h \<le> unat (visible_h d)"
    and wh: "w \<noteq> 0" "h \<noteq> 0" and room: "prof_room (Suc n) (d_prof_convert d)"
  shows "\<exists>d'. chip_convert_rect dst_mem x y w h d = Some d' \<and> converted d d' \<and> prof_room n (d_prof_convert d')
     \<and> paints (picture d dst_mem) (rect_bytes (unat dst_mem + unat x * 4 + unat y * unat (g_fb_stride (d_gs d)))
         (unat (g_fb_stride (d_gs d))) (unat w * 4) (unat h)) (d_mem d) (d_mem d')"
proof -
  obtain t c where t: "prof_begin d = (t, d\<lparr>d_eclock := c\<rparr>)" using prof_begin_frame by blast
  obtain conv where conv: "chip_pick_row_converter (d_active_format d) = Some conv" using ok by (auto simp: convert_ok_def)
  obtain m where m: "convert_rows conv dst_mem x y w h d = Some m" "paints (picture d dst_mem)
     (rect_bytes (unat dst_mem + unat x * 4 + unat y * unat (g_fb_stride (d_gs d))) (unat (g_fb_stride (d_gs d))) (unat w * 4) (unat h)) (d_mem d) m"
    using convert_rows_result [OF ok x y wh(1) conv] by blast
  obtain p lg c' where e: "chip_prof_end t (w * h * 4) (d_prof_convert d, d_proflog d, c) = Some (p, lg, c')" "prof_room n p"
    using prof_end_total [OF room] by blast
  have lt: "unat (visible_w d) < 2 ^ 31" "unat (visible_h d) < 2 ^ 31"
    using ok by (auto simp: convert_ok_def visible_h_def word_less_nat_alt split: if_splits)
  have c: "\<not> x + w > visible_w d" "\<not> y + h > visible_h d"
    using x y lt by (simp_all add: word_less_nat_alt unat_add_u32)
  have vis: "visible_w (d\<lparr>d_eclock := c\<rparr>) = visible_w d" "visible_h (d\<lparr>d_eclock := c\<rparr>) = visible_h d"
    "src_base (d\<lparr>d_eclock := c\<rparr>) = src_base d" "convert_rows conv dst_mem x y w h (d\<lparr>d_eclock := c\<rparr>) = convert_rows conv dst_mem x y w h d"
    by (simp_all add: visible_w_def visible_h_def src_base_def src_width_def convert_rows_def pan_x_def pan_y_def Let_def)
  have b: "src_base d \<noteq> 0" "dst_mem \<noteq> 0" using ok by (simp_all add: convert_ok_def)
  let ?d' = "d\<lparr>d_mem := m, d_eclock := c', d_prof_convert := p, d_proflog := lg\<rparr>"
  have "chip_convert_rect dst_mem x y w h d = Some ?d'"
    using t conv m(1) e(1) c wh b by (simp add: chip_convert_rect_def vis prof_end_convert_def Let_def del: not_less)
  then show ?thesis using m(2) e(2) by (auto simp: converted_def)
qed

end
