(* ===== verification/Edid_Correct.thy ===== *)
theory Edid_Correct
  imports Gpu_Driver
begin

text \<open>
  The EDID parser against its specification: the detailed timings of the base block and of
  the CEA-861 extensions, in order, without zero sizes and duplicates, at most sixteen.  The
  specification is on lists; the code is on two 16-entry arrays and checked byte reads.
\<close>

section \<open>Specification\<close>

definition clock_at :: "bytes \<Rightarrow> nat \<Rightarrow> u16" where
  "clock_at edid off = ucast (edid ! off) OR push_bit 8 (ucast (edid ! (off + 1)))"

definition active_at :: "bytes \<Rightarrow> nat \<Rightarrow> nat \<Rightarrow> u32" where
  "active_at edid lo hi = ucast (edid ! lo) OR push_bit 8 (drop_bit 4 (ucast (edid ! hi)))"

definition timing_at :: "bytes \<Rightarrow> nat \<Rightarrow> u32 \<times> u32" where
  "timing_at edid off = (active_at edid (off + 2) (off + 4), active_at edid (off + 5) (off + 7))"

definition base_timings :: "bytes \<Rightarrow> nat \<Rightarrow> (u32 \<times> u32) list" where
  "base_timings edid sz = map (timing_at edid)
     (filter (\<lambda>off. clock_at edid off \<noteq> 0) (takeWhile (\<lambda>off. off + 8 \<le> sz) [54, 72, 90, 108]))"

definition cea_timings :: "bytes \<Rightarrow> nat \<Rightarrow> nat \<Rightarrow> (u32 \<times> u32) list" where
  "cea_timings edid limit off = map (timing_at edid)
     (takeWhile (\<lambda>off. clock_at edid off \<noteq> 0) (map (\<lambda>i. off + 18 * i) [0..<(limit - off) div 18]))"

definition ext_timings :: "bytes \<Rightarrow> nat \<Rightarrow> (u32 \<times> u32) list" where
  "ext_timings edid e = (let base = 128 * (e + 1); rel = unat (edid ! (base + 2)) in
     if edid ! base = 2 \<and> 4 \<le> rel \<and> rel \<le> 125 then cea_timings edid (base + 126) (base + rel) else [])"

definition edid_timings :: "bytes \<Rightarrow> nat \<Rightarrow> (u32 \<times> u32) list" where
  "edid_timings edid sz = base_timings edid sz @
     (if 128 \<le> sz then concat (map (ext_timings edid)
        (takeWhile (\<lambda>e. 128 * (e + 1) + 128 \<le> sz) [0..<unat (edid ! 126)])) else [])"

definition keep_timing :: "u32 \<times> u32 \<Rightarrow> (u32 \<times> u32) list \<Rightarrow> (u32 \<times> u32) list" where
  "keep_timing t L = (if fst t \<noteq> 0 \<and> snd t \<noteq> 0 \<and> length L < 16 \<and> t \<notin> set L then L @ [t] else L)"

text \<open>The arrays represent the list of timings kept.\<close>

definition dtds_rep :: "dtds \<Rightarrow> (u32 \<times> u32) list \<Rightarrow> bool" where
  "dtds_rep st L \<longleftrightarrow> (case st of (n, ws, hs) \<Rightarrow> unat n = length L \<and> length L \<le> 16 \<and> length ws = 16 \<and> length hs = 16
     \<and> (\<forall>i<length L. ucast (ws ! i) = fst (L ! i) \<and> ucast (hs ! i) = snd (L ! i)))"

section \<open>Refinement\<close>

lemma dtd_dup_spec:
  assumes "\<forall>i\<in>set is. i < length ws \<and> i < length hs"
  shows "dtd_dup is w h ws hs = Some (\<exists>i\<in>set is. ucast (ws ! i) = w \<and> ucast (hs ! i) = h)"
  using assms by (induction "is") (auto simp: rd_in)

lemma ucast_u32_u16: "unat (w :: u32) < 65536 \<Longrightarrow> (ucast (ucast w :: u16) :: u32) = w"
  by (simp add: word_unat_eq_iff)

lemma add_dtd_spec:
  assumes rep: "dtds_rep st L" and b: "unat w < 65536" "unat h < 65536"
  shows "\<exists>st'. add_dtd w h st = Some st' \<and> dtds_rep st' (keep_timing (w, h) L)"
proof -
  obtain n ws hs where st: "st = (n, ws, hs)" by (cases st) auto
  have r: "unat n = length L" "length L \<le> 16" "length ws = 16" "length hs = 16"
    "\<And>i. i < length L \<Longrightarrow> ucast (ws ! i) = fst (L ! i) \<and> ucast (hs ! i) = snd (L ! i)"
    using rep st by (auto simp: dtds_rep_def)
  have full: "n < 16 \<longleftrightarrow> length L < 16" using r(1) by (simp add: word_less_nat_alt)
  have dup: "dtd_dup [0..<unat n] w h ws hs = Some ((w, h) \<in> set L)"
  proof -
    have "(\<exists>i\<in>set [0..<unat n]. ucast (ws ! i) = w \<and> ucast (hs ! i) = h) \<longleftrightarrow> (\<exists>i<length L. L ! i = (w, h))"
      using r(1,5) by (auto simp: prod_eq_iff)
    then show ?thesis using r(1-4) by (subst dtd_dup_spec) (auto simp: in_set_conv_nth)
  qed
  show ?thesis
  proof (cases "0 < w \<and> 0 < h \<and> n < 16 \<and> (w, h) \<notin> set L")
    case True
    then have k: "keep_timing (w, h) L = L @ [(w, h)]" using full by (auto simp: keep_timing_def word_gt_0)
    have "length L < 16" using True full by simp
    then have n1: "unat (n + 1) = Suc (length L)" using r(1) by (simp add: unat_word_ariths)
    have "add_dtd w h st = Some (n + 1, ws[length L := ucast w], hs[length L := ucast h])"
      using True dup st r \<open>length L < 16\<close> by (simp add: add_dtd_def wr_in)
    moreover have "dtds_rep (n + 1, ws[length L := ucast w], hs[length L := ucast h]) (L @ [(w, h)])"
      using r n1 b \<open>length L < 16\<close>
      by (auto simp: dtds_rep_def nth_append nth_list_update ucast_u32_u16 less_Suc_eq)
    ultimately show ?thesis using k by auto
  next
    case False
    then have "keep_timing (w, h) L = L" using full by (auto simp: keep_timing_def word_gt_0)
    moreover have "add_dtd w h st = Some st" using False dup st by (auto simp: add_dtd_def)
    ultimately show ?thesis using rep by simp
  qed
qed

lemma active_small: "unat (active_at edid lo hi) < 65536"
proof -
  have "take_bit 16 (active_at edid lo hi) = active_at edid lo hi"
    by (rule bit_word_eqI) (auto simp: active_at_def bit_simps dest: bit_u8_less)
  then have "unat (active_at edid lo hi) = take_bit 16 (unat (active_at edid lo hi))"
    by (metis unsigned_take_bit_eq)
  also have "\<dots> < 2 ^ 16" by (rule take_bit_nat_less_exp)
  finally show ?thesis by simp
qed

lemma take_dtd_spec:
  assumes "dtds_rep st L" "off + 8 \<le> length edid"
  shows "\<exists>st'. take_dtd edid off st = Some st' \<and> dtds_rep st' (keep_timing (timing_at edid off) L)"
proof -
  have "dtd_active edid (off + 2) (off + 4) = Some (active_at edid (off + 2) (off + 4))"
    "dtd_active edid (off + 5) (off + 7) = Some (active_at edid (off + 5) (off + 7))"
    using assms(2) by (simp_all add: dtd_active_def active_at_def rd_in)
  then show ?thesis
    using add_dtd_spec [OF assms(1) active_small active_small] by (simp add: take_dtd_def timing_at_def)
qed

lemma dtd_clock_spec: "off + 2 \<le> length edid \<Longrightarrow> dtd_clock edid off = Some (clock_at edid off)"
  by (simp add: dtd_clock_def clock_at_def rd_in)

abbreviation keep_all :: "(u32 \<times> u32) list \<Rightarrow> (u32 \<times> u32) list \<Rightarrow> (u32 \<times> u32) list" where
  "keep_all ts L \<equiv> fold keep_timing ts L"

lemma base_dtds_spec:
  assumes "dtds_rep st L" "unat sz \<le> length edid"
  shows "\<exists>st'. base_dtds offs edid sz st = Some st' \<and> dtds_rep st' (keep_all (map (timing_at edid)
     (filter (\<lambda>off. clock_at edid off \<noteq> 0) (takeWhile (\<lambda>off. off + 8 \<le> unat sz) offs))) L)"
  using assms(1)
proof (induction offs arbitrary: st L)
  case Nil
  then show ?case by simp
next
  case (Cons off offs)
  show ?case
  proof (cases "off + 8 \<le> unat sz")
    case False
    then show ?thesis using Cons.prems by simp
  next
    case True
    then have b: "off + 8 \<le> length edid" "off + 2 \<le> length edid" using assms(2) by simp_all
    show ?thesis
    proof (cases "clock_at edid off = 0")
      case z: True
      then show ?thesis using True Cons.IH [OF Cons.prems] dtd_clock_spec [OF b(2)] by simp
    next
      case z: False
      obtain st' where s: "take_dtd edid off st = Some st'" "dtds_rep st' (keep_timing (timing_at edid off) L)"
        using take_dtd_spec [OF Cons.prems b(1)] by blast
      then show ?thesis using True z Cons.IH [OF s(2)] dtd_clock_spec [OF b(2)] by simp
    qed
  qed
qed

lemma cea_timings_step:
  "cea_timings edid limit off = (if off + 18 \<le> limit \<and> clock_at edid off \<noteq> 0
     then timing_at edid off # cea_timings edid limit (off + 18) else [])"
proof (cases "off + 18 \<le> limit")
  case True
  then have "(limit - off) div 18 = Suc ((limit - (off + 18)) div 18)"
    using div_add_self2 [of 18 "limit - off - 18"] by (simp add: le_div_geq)
  then have "map (\<lambda>i. off + 18 * i) [0..<(limit - off) div 18] =
      off # map (\<lambda>i. off + 18 + 18 * i) [0..<(limit - (off + 18)) div 18]"
    by (simp add: upt_conv_Cons map_Suc_upt [symmetric] del: upt_Suc)
  then show ?thesis using True by (simp add: cea_timings_def)
next
  case False
  then show ?thesis by (simp add: cea_timings_def)
qed

lemma cea_dtds_spec:
  assumes "dtds_rep st L" "limit \<le> length edid"
  shows "\<exists>st'. cea_dtds edid limit off st = Some st' \<and> dtds_rep st' (keep_all (cea_timings edid limit off) L)"
  using assms
proof (induction edid limit off st arbitrary: L rule: cea_dtds.induct)
  case (1 edid limit off st)
  show ?case
  proof (cases "off + 18 \<le> limit")
    case False
    then show ?thesis using 1(2) by (simp add: cea_dtds.simps cea_timings_step [of edid limit off])
  next
    case True
    then have b: "off + 8 \<le> length edid" "off + 2 \<le> length edid" using 1(3) by simp_all
    note c = dtd_clock_spec [OF b(2)]
    show ?thesis
    proof (cases "clock_at edid off = 0")
      case z: True
      then show ?thesis using True 1(2) c by (simp add: cea_dtds.simps cea_timings_step [of edid limit off])
    next
      case z: False
      obtain st' where s: "take_dtd edid off st = Some st'" "dtds_rep st' (keep_timing (timing_at edid off) L)"
        using take_dtd_spec [OF 1(2) b(1)] by blast
      obtain st'' where "cea_dtds edid limit (off + 18) st' = Some st''"
        "dtds_rep st'' (keep_all (cea_timings edid limit (off + 18)) (keep_timing (timing_at edid off) L))"
        using 1(1) [OF True c z s(1) s(2) 1(3)] by blast
      then show ?thesis using True z c s(1)
        by (subst cea_dtds.simps, subst cea_timings_step) simp
    qed
  qed
qed

lemma ext_dtds_spec:
  assumes "dtds_rep st L" "unat sz \<le> length edid"
  shows "\<exists>st'. ext_dtds es edid sz st = Some st' \<and> dtds_rep st' (keep_all (concat (map (ext_timings edid)
     (takeWhile (\<lambda>e. 128 * (e + 1) + 128 \<le> unat sz) es))) L)"
  using assms(1)
proof (induction es arbitrary: st L)
  case Nil
  then show ?case by simp
next
  case (Cons e es)
  let ?base = "128 * (e + 1)"
  show ?case
  proof (cases "?base + 128 \<le> unat sz")
    case False
    then show ?thesis using Cons.prems by (simp add: Let_def)
  next
    case True
    then have b: "?base < length edid" "?base + 2 < length edid" "?base + 126 \<le> length edid"
      using assms(2) by simp_all
    let ?o = "unat (edid ! (?base + 2))"
    show ?thesis
    proof (cases "edid ! ?base = 2 \<and> 4 \<le> ?o \<and> ?o \<le> 125")
      case no: False
      then have "ext_timings edid e = []" by (auto simp: ext_timings_def Let_def)
      moreover have "ext_dtds (e # es) edid sz st = ext_dtds es edid sz st"
        using no True b by (auto simp: Let_def rd_in)
      ultimately show ?thesis using Cons.IH [OF Cons.prems] True by simp
    next
      case yes: True
      then have e: "ext_timings edid e = cea_timings edid (?base + 126) (?base + ?o)"
        by (simp add: ext_timings_def Let_def)
      obtain st' where s: "cea_dtds edid (?base + 126) (?base + ?o) st = Some st'"
        "dtds_rep st' (keep_all (cea_timings edid (?base + 126) (?base + ?o)) L)"
        using cea_dtds_spec [OF Cons.prems b(3)] by blast
      have "ext_dtds (e # es) edid sz st = ext_dtds es edid sz st'"
        using yes True b s(1) by (auto simp: Let_def rd_in)
      then show ?thesis using Cons.IH [OF s(2)] True e by simp
    qed
  qed
qed

lemma parse_edid_spec:
  assumes "dtds_rep st L" "unat sz \<le> length edid"
  shows "\<exists>st'. parse_edid edid sz st = Some st' \<and> dtds_rep st' (keep_all (edid_timings edid (unat sz)) L)"
proof -
  obtain st1 where s1: "base_dtds [54, 72, 90, 108] edid sz st = Some st1"
    "dtds_rep st1 (keep_all (base_timings edid (unat sz)) L)"
    using base_dtds_spec [OF assms] unfolding base_timings_def by blast
  show ?thesis
  proof (cases "128 \<le> unat sz")
    case False
    then have "\<not> 128 \<le> sz" by (simp add: word_le_nat_alt)
    then show ?thesis using s1 False by (simp add: parse_edid_def edid_timings_def)
  next
    case True
    then have w: "128 \<le> sz" by (simp add: word_le_nat_alt)
    have "126 < length edid" using True assms(2) by simp
    then show ?thesis
      using s1 True w ext_dtds_spec [OF s1(2) assms(2), of "[0..<unat (edid ! 126)]"]
      by (simp add: parse_edid_def edid_timings_def rd_in)
  qed
qed

text \<open>What the specification means: distinct, non-zero, at most sixteen, all from the blob.\<close>

lemma keep_all_sound:
  assumes "distinct L" "length L \<le> 16" "\<forall>t\<in>set L. fst t \<noteq> 0 \<and> snd t \<noteq> 0"
  shows "distinct (keep_all ts L) \<and> length (keep_all ts L) \<le> 16
     \<and> (\<forall>t\<in>set (keep_all ts L). fst t \<noteq> 0 \<and> snd t \<noteq> 0) \<and> set (keep_all ts L) \<subseteq> set L \<union> set ts
     \<and> take (length L) (keep_all ts L) = L"
  using assms
proof (induction ts arbitrary: L)
  case (Cons t ts)
  have k: "distinct (keep_timing t L)" "length (keep_timing t L) \<le> 16"
    "\<forall>t\<in>set (keep_timing t L). fst t \<noteq> 0 \<and> snd t \<noteq> 0"
    using Cons.prems by (auto simp: keep_timing_def)
  have p: "set (keep_timing t L) \<subseteq> set L \<union> {t}" "take (length L) (keep_timing t L) = L"
    "length L \<le> length (keep_timing t L)"
    by (auto simp: keep_timing_def)
  have "take (length L) (keep_all ts (keep_timing t L)) = L"
  proof -
    have "take (length L) (keep_all ts (keep_timing t L)) =
        take (length L) (take (length (keep_timing t L)) (keep_all ts (keep_timing t L)))"
      using p(3) by (simp add: min_absorb1)
    also have "take (length (keep_timing t L)) (keep_all ts (keep_timing t L)) = keep_timing t L"
      using Cons.IH [OF k] by blast
    finally show ?thesis using p(2) by simp
  qed
  then show ?case using Cons.IH [OF k] p(1) by auto
qed simp

lemma keep_all_complete:
  assumes "t \<in> set ts" "fst t \<noteq> 0" "snd t \<noteq> 0" "length (keep_all ts L) < 16"
  shows "t \<in> set (keep_all ts L)"
  using assms
proof (induction ts arbitrary: L)
  case (Cons a ts)
  have mono: "set L' \<subseteq> set (keep_all us L')" "length L' \<le> length (keep_all us L')" for us L'
  proof (induction us arbitrary: L')
    case (Cons u us)
    case 1 show ?case using Cons(1) [of "keep_timing u L'"] by (auto simp: keep_timing_def)
    case 2 show ?case using Cons(2) [of "keep_timing u L'"] by (auto simp: keep_timing_def split: if_splits)
  qed simp_all
  show ?case
  proof (cases "t = a")
    case True
    have "length L < 16"
      using mono(2) [of L "a # ts"] Cons.prems(4) by simp
    then have "t \<in> set (keep_timing a L)" using Cons.prems True by (auto simp: keep_timing_def)
    then show ?thesis using mono(1) [of "keep_timing a L" ts] by auto
  next
    case False
    then show ?thesis using Cons by auto
  qed
qed simp

end
