(* ===== verification/Gpu_Driver_Correct.thy ===== *)
theory Gpu_Driver_Correct
  imports Edid_Correct
begin

text \<open>
  What the operations of \<open>Gpu_Driver\<close> do: retries, response reads, copies and the cursor queue.
\<close>

section \<open>SET_SCANOUT with retries\<close>

text \<open>Commands shown to the device between two states, all of them \<open>c\<close>.\<close>

definition told_times :: "nat \<Rightarrow> gpu_cmd \<Rightarrow> io \<Rightarrow> io \<Rightarrow> bool" where
  "told_times n c io io' \<longleftrightarrow> (\<exists>ks. i_kicks io' = i_kicks io @ ks \<and> length ks \<le> n
     \<and> (\<forall>k\<in>set ks. k_queue k = 0 \<and> decode_cmd (k_cmd k) = Some c))"

lemma set_scanout_retry_result:
  assumes "io_idle env lk io"
  shows "\<exists>ok io'. set_scanout_retry n env sid rid x y w h io = Some (ok, io') \<and> io_idle env lk io'
     \<and> (ok \<longrightarrow> le_ld32 (i_resp_buf io') 0 = RESP_OK_NODATA)
     \<and> told_times n (SetScanout \<lparr>r_x = x, r_y = y, r_w = w, r_h = h\<rparr> sid rid) io io'"
  using assms
proof (induction n arbitrary: io)
  case 0
  then show ?case by (auto simp: told_times_def)
next
  case (Suc n)
  let ?c = "SetScanout \<lparr>r_x = x, r_y = y, r_w = w, r_h = h\<rparr> sid rid"
  obtain ok io1 where s: "set_scanout_once env sid rid x y w h io = Some (ok, io1)" "io_idle env lk io1"
    "ok \<longrightarrow> le_ld32 (i_resp_buf io1) 0 = RESP_OK_NODATA" "\<not> ok \<and> i_kicks io1 = i_kicks io \<or> told ?c io io1"
    using delivers_set_scanout [OF Suc.prems, of x y w h sid rid] unfolding delivers_def by blast
  have t: "told_times 1 ?c io io1" using s(4) by (auto simp: told_times_def told_def)
  show ?case
  proof (cases ok)
    case True
    have "told_times (Suc n) ?c io io1" using t by (auto simp: told_times_def)
    then show ?thesis using s True by auto
  next
    case False
    obtain ok' io' where r: "set_scanout_retry n env sid rid x y w h io1 = Some (ok', io')" "io_idle env lk io'"
      "ok' \<longrightarrow> le_ld32 (i_resp_buf io') 0 = RESP_OK_NODATA" "told_times n ?c io1 io'"
      using Suc.IH [OF s(2)] by blast
    obtain ks1 ks2 where k: "i_kicks io1 = i_kicks io @ ks1" "length ks1 \<le> 1"
      "\<forall>k\<in>set ks1. k_queue k = 0 \<and> decode_cmd (k_cmd k) = Some ?c"
      "i_kicks io' = i_kicks io1 @ ks2" "length ks2 \<le> n"
      "\<forall>k\<in>set ks2. k_queue k = 0 \<and> decode_cmd (k_cmd k) = Some ?c"
      using t r(4) by (auto simp: told_times_def)
    then have "told_times (Suc n) ?c io io'"
      unfolding told_times_def by (intro exI [of _ "ks1 @ ks2"]) auto
    then show ?thesis using s(1) False r by auto
  qed
qed

lemma with_io_result:
  assumes "f (g_io gs) = Some (r, io')"
  shows "with_io f gs = Some (r, gs\<lparr>g_io := io'\<rparr>)"
  using assms by (simp add: with_io_def)

section \<open>Submission of a 3D command stream\<close>

lemma do_io_3sg_total:
  assumes rdy: "io_ready env io"
  shows "\<exists>n io'. chip_do_io_3sg env hp hs dp ds rs io = Some (n, io') \<and> io_kept io' = io_kept io \<and> io_ready env io'
     \<and> (n = 0 \<and> i_kicks io' = i_kicks io \<or> i_kicks io' = i_kicks io @ [kick_of 0 io])"
proof (cases "i_ctrlq io")
  case None
  then show ?thesis using rdy by (simp add: chip_do_io_3sg_transact transact_def)
next
  case (Some vq)
  then obtain fs ch us where q: "io_q Ctrl io fs ch us" using ready_queue rdy by blast
  have v: "valid_request ([\<lparr>sg_addr = hp, sg_len = hs\<rparr>, \<lparr>sg_addr = dp, sg_len = ds\<rparr>,
     \<lparr>sg_addr = i_resp_buf_phys io, sg_len = rs\<rparr>], 2, 1, i_task io)"
    by (simp add: valid_request_def)
  show ?thesis using transact_result [OF q rdy v] unfolding chip_do_io_3sg_transact by blast
qed

lemma submit_3d_result:
  assumes idle: "io_idle env lk io" and b: "i_cmd3d_buf io = Some b3" "length b3 = 65536"
    and sz: "0 < sz" "unat sz \<le> 65536" "unat sz \<le> length data"
  shows "\<exists>ok io'. chip_Submit3D env ctx data sz io = Some (ok, io') \<and> io_idle env lk io'
     \<and> (ok \<longrightarrow> le_ld32 (i_resp_buf io') 0 = RESP_OK_NODATA)
     \<and> (\<not> ok \<and> i_kicks io' = i_kicks io
        \<or> (\<exists>k. i_kicks io' = i_kicks io @ [k] \<and> k_queue k = 0 \<and> decode_cmd (k_cmd k) = Some (Submit3D ctx sz)
             \<and> map_option (take (unat sz)) (k_cmd3d k) = Some (take (unat sz) data)))"
proof -
  have id: "io_ready env io" "i_io_depth io = lk" "length (i_cmd_buf io) = 4096" "length (i_resp_buf io) = 4096"
    using idle by (auto simp: io_idle_def)
  let ?fs = "[(0, CMD_SUBMIT_3D), (16, ctx), (24, sz)]"
  let ?z = "zeroed 32 (i_cmd_buf io)"
  have lz: "length ?z = 4096" using id(3) by (simp add: length_zeroed)
  have w: "words_ok (length ?z) ?fs" by (simp add: lz words_ok_def)
  note s = stores_result [OF w]
  define cmd where "cmd = stores ?fs ?z"
  have lc: "length cmd = 4096" using s(2) lz by (simp add: cmd_def)
  have dec: "decode_cmd cmd = Some (Submit3D ctx sz)"
    using s(3) [of 0] s(3) [of 16] s(3) [of 24] lz by (simp add: cmd_def decode_cmd_def Let_def)
  define dst where "dst = take (unat sz) data @ drop (unat sz) b3"
  have ld: "length dst = 65536" using sz b(2) by (simp add: dst_def)
  have cp: "foldM (\<lambda>i dst. do { b \<leftarrow> rd data i; wr dst i b }) [0..<unat sz] b3 = Some dst"
    using foldM_copy [of 0 "unat sz" data b3] sz b(2) by (simp add: dst_def)
  define io1 where "io1 = io\<lparr>i_io_depth := Suc lk, i_cmd_buf := cmd, i_resp_buf := zeroed 24 (i_resp_buf io), i_cmd3d_buf := Some dst\<rparr>"
  have r1: "io_ready env io1" using id(1) by (simp add: io1_def ready_upd)
  obtain n io' where d: "chip_do_io_3sg env (i_cmd_buf_phys io) 32 (i_cmd3d_phys io) sz 24 io1 = Some (n, io')"
    "io_kept io' = io_kept io1" "io_ready env io'"
    "n = 0 \<and> i_kicks io' = i_kicks io1 \<or> i_kicks io' = i_kicks io1 @ [kick_of 0 io1]"
    using do_io_3sg_total [OF r1] by blast
  have lr: "length (i_resp_buf io') = 4096" using io_kept_parts(9) [OF d(2)] id(4) by (simp add: io1_def length_zeroed)
  obtain t where t: "cpu_ld32 0 (i_resp_buf io') = Some t" "GP32 t = le_ld32 (i_resp_buf io') 0"
    using cpu_ld32_GP32 [of 0 "i_resp_buf io'"] lr by auto
  define rt where "rt = (if 24 \<le> n then le_ld32 (i_resp_buf io') 0 else 0)"
  have nz: "sz \<noteq> 0" using sz(1) by auto
  have le: "\<not> 64 * 1024 < sz" using sz(2) by (simp add: word_less_nat_alt)
  have puts: "(do { cmd \<leftarrow> cpu_st32 0 (GP32 CMD_SUBMIT_3D) ?z; cmd \<leftarrow> cpu_st32 16 (GP32 ctx) cmd;
      cpu_st32 24 (GP32 sz) cmd }) = Some cmd"
    using s(1) by (simp add: put_words_Cons put_words_Nil cmd_def)
  have run: "chip_Submit3D env ctx data sz io = Some (rt = RESP_OK_NODATA, release_io_lock io')"
  proof -
    obtain c1 c2 where c: "cpu_st32 0 (GP32 CMD_SUBMIT_3D) ?z = Some c1" "cpu_st32 16 (GP32 ctx) c1 = Some c2"
      "cpu_st32 24 (GP32 sz) c2 = Some cmd"
      using puts by (auto simp: bind_eq_Some_conv)
    show ?thesis using b(1) nz le id(2-4) c cp d(1) t
      by (simp add: chip_Submit3D_def obtain_io_lock_def chip_zero_eq io1_def rt_def)
  qed
  have idle': "io_idle env lk (release_io_lock io')"
    using d(3) lr lc ld io_kept_parts(4,5,7) [OF d(2)]
    by (simp add: io_idle_def cmd3d_ok_def release_io_lock_def ready_upd io1_def)
  have "take (unat sz) dst = take (unat sz) data" using sz by (simp add: dst_def)
  then have k: "k_queue (kick_of 0 io1) = 0" "decode_cmd (k_cmd (kick_of 0 io1)) = Some (Submit3D ctx sz)"
    "map_option (take (unat sz)) (k_cmd3d (kick_of 0 io1)) = Some (take (unat sz) data)"
    using dec by (simp_all add: kick_of_def io1_def)
  have kk: "\<not> (rt = RESP_OK_NODATA) \<and> i_kicks (release_io_lock io') = i_kicks io
     \<or> (\<exists>k. i_kicks (release_io_lock io') = i_kicks io @ [k] \<and> k_queue k = 0 \<and> decode_cmd (k_cmd k) = Some (Submit3D ctx sz)
             \<and> map_option (take (unat sz)) (k_cmd3d k) = Some (take (unat sz) data))"
    using d(4) k by (auto simp: release_io_lock_def rt_def io1_def)
  have "rt = RESP_OK_NODATA \<longrightarrow> le_ld32 (i_resp_buf (release_io_lock io')) 0 = RESP_OK_NODATA"
    by (auto simp: rt_def release_io_lock_def split: if_splits)
  then show ?thesis using run idle' kk by blast
qed

lemma submit_3d_rejects:
  "chip_Submit3D env ctx data 0 io = Some (False, io)"
  "65536 < unat sz \<Longrightarrow> chip_Submit3D env ctx data sz io = Some (False, io)"
  "i_cmd3d_buf io = None \<Longrightarrow> chip_Submit3D env ctx data sz io = Some (False, io)"
  by (auto simp: chip_Submit3D_def word_less_nat_alt split: option.split)

section \<open>The cursor queue\<close>

text \<open>The words of a cursor command: type, scanout, x, y, resource, hot spot.\<close>

definition cursor_fields :: "bytes \<Rightarrow> u32 list" where
  "cursor_fields b = map (le_ld32 b) [0, 24, 28, 32, 40, 44, 48]"

lemma fill_cursor_result:
  assumes "56 \<le> length b"
  shows "\<exists>b'. fill_cursor_cmd t rid x y hx hy b = Some b' \<and> length b' = length b
     \<and> cursor_fields b' = [t, 0, x, y, rid, hx, hy]"
proof -
  let ?z = "zeroed 56 b" and ?fs = "[(0, t), (24, 0), (28, x), (32, y), (40, rid), (44, hx), (48, hy)] :: (nat \<times> u32) list"
  have l: "length ?z = length b" using assms by (simp add: length_zeroed)
  have w: "words_ok (length ?z) ?fs" using assms l by (simp add: words_ok_def)
  note s = stores_result [OF w]
  have "fill_cursor_cmd t rid x y hx hy b = put_words ?fs ?z"
    using assms by (simp add: fill_cursor_cmd_def chip_zero_eq put_words_Cons put_words_Nil)
  moreover have "cursor_fields (stores ?fs ?z) = [t, 0, x, y, rid, hx, hy]"
    using s(3) l assms by (simp add: cursor_fields_def)
  ultimately show ?thesis using s(1,2) l by auto
qed

definition can_kick_cursor :: "io \<Rightarrow> bool" where
  "can_kick_cursor io \<longleftrightarrow> v_use_pci_cfg (i_vio io) \<or> (\<forall>vq. i_cursq io = Some vq \<longrightarrow> vq_notify_addr vq \<noteq> 0)"

lemma static_can_kick:
  assumes "io_static a = io_static b"
  shows "can_kick a = can_kick b" "can_kick_cursor a = can_kick_cursor b"
  using assms by (cases "i_ctrlq a"; cases "i_ctrlq b"; cases "i_cursq a"; cases "i_cursq b";
    auto simp: io_static_def can_kick_def can_kick_cursor_def vq_const_def)+

lemma static_ready:
  assumes "io_static a = io_static b" "io_ready env b" "\<forall>s. queue_ok s b \<longrightarrow> queue_ok s a"
  shows "io_ready env a"
  using assms io_kept_parts(1-3) [OF io_kept_static [OF assms(1)]] static_can_kick [OF assms(1)]
  by (simp add: io_ready_def)

lemma cursor_upd:
  "io_ready env (io\<lparr>i_cursor_locked := l\<rparr>) = io_ready env io"
  "io_ready env (io\<lparr>i_cursor_cmd_buf := b\<rparr>) = io_ready env io"
  by (rule io_ready_same; simp add: same_queues_def no_waiter_def)+

text \<open>Posting and waiting, from the point where the command stands in the buffer.\<close>

lemma cursor_post:
  assumes rdy: "io_ready env io" and q: "io_q Curs io fs cs us" and ck: "can_kick_cursor io"
    and cq: "i_cursq io = Some cq"
  shows "\<exists>rc ex cq' io'. VirtQueue_AddBuf (i_exec io) cq [\<lparr>sg_addr = i_cursor_cmd_phys io, sg_len = 56\<rparr>] 1 0 (i_task io)
       = Some (rc, ex, cq')
     \<and> (rc \<noteq> 0 \<and> io' = io\<lparr>i_exec := ex, i_cursq := Some cq'\<rparr> \<and> i_kicks io' = i_kicks io
        \<or> rc = 0 \<and> cursor_wait env (i_task io) (chip_notify_queue cq' 1 (io\<lparr>i_exec := ex, i_cursq := Some cq'\<rparr>)) = Some io'
          \<and> i_kicks io' = i_kicks io @ [kick_of 1 io])
     \<and> io_ready env io' \<and> io_kept io' = io_kept io"
proof -
  have st: "q_state cq (i_curs_dev io) fs cs us" using q cq by (auto simp: io_q_def)
  have v: "valid_request ([\<lparr>sg_addr = i_cursor_cmd_phys io, sg_len = 56\<rparr>], 1, 0, i_task io)"
    by (simp add: valid_request_def)
  obtain rc ex cq' where a: "VirtQueue_AddBuf (i_exec io) cq [\<lparr>sg_addr = i_cursor_cmd_phys io, sg_len = 56\<rparr>] 1 0 (i_task io)
       = Some (rc, ex, cq')"
    and c: "rc = -1 \<and> cq' = cq
     \<or> rc = 0 \<and> (\<exists>k. q_state cq' (i_curs_dev io) (drop k fs) (take k fs # cs) us) \<and> vq_const cq' = vq_const cq"
    using addbuf_state [OF st v, of "i_exec io"] by blast
  define io1 where "io1 = io\<lparr>i_exec := ex, i_cursq := Some cq'\<rparr>"
  have static: "io_static io1 = io_static io"
    using addbuf_signals [OF a] cq c by (auto simp: io1_def io_static_def)
  obtain fs1 cs1 where q1: "q_state cq' (i_curs_dev io) fs1 cs1 us" using c st by auto
  then have q1: "io_q Curs io1 fs1 cs1 us" by (simp add: io_q_def io1_def)
  have ok: "queue_ok s io1" for s
    using rdy q1 by (cases s) (auto simp: io_ready_def queue_ok_def io_q_def io1_def dest: spec [of _ Ctrl])
  have r1: "io_ready env io1" by (rule static_ready [OF static rdy]) (simp add: ok)
  show ?thesis
  proof (cases "rc = 0")
    case False
    then show ?thesis using a r1 static
      by (intro exI [of _ rc] exI [of _ ex] exI [of _ cq'] exI [of _ io1])
        (auto simp: io1_def intro: io_kept_static)
  next
    case True
    define io2 where "io2 = chip_notify_queue cq' 1 io1"
    have sq: "same_queues io1 io2" by (simp add: io2_def notify_frame)
    have kept2: "io_kept io2 = io_kept io" using io_kept_static [OF static] by (simp add: io2_def)
    have r2: "io_ready env io2"
      by (rule iffD1 [OF io_ready_same r1]) (use sq in \<open>simp_all add: io2_def notify_frame, simp add: chip_notify_queue_def Let_def\<close>)
    have "v_use_pci_cfg (i_vio io1) \<or> vq_notify_addr cq' \<noteq> 0"
      using static_can_kick(2) [OF static] ck by (auto simp: can_kick_cursor_def io1_def)
    then have kicks: "i_kicks io2 = i_kicks io @ [kick_of 1 io]"
      by (simp add: io2_def notify_static) (simp add: io1_def kick_of_def)
    have w: "i_irq_installed io2 \<longrightarrow> waits_return env" "no_waiter io2" "i_task io2 \<noteq> 0" "i_task io2 = i_task io"
      using r2 io_kept_parts(2) [OF kept2] by (auto simp: io_ready_def)
    obtain io' fs' cs' where r: "cursor_wait env (i_task io) io2 = Some io'" "progress Curs io2 fs1 cs1 io' fs' cs'"
      using cursor_wait_result [OF io_q_same [OF sq q1] w(1) _ w(2), of "i_task io"] w(3,4) by auto
    have st': "io_static io' = io_static io2" using r(2) by (simp add: progress_def)
    have "io_ready env io'"
      by (rule static_ready [OF st' r2]) (use r(2) in \<open>simp add: progress_def\<close>)
    moreover have "io_kept io' = io_kept io" by (rule trans [OF io_kept_static [OF st'] kept2])
    moreover have "i_kicks io' = i_kicks io @ [kick_of 1 io]" using st' kicks by (simp add: io_static_def)
    ultimately show ?thesis using a True r(1)
      by (intro exI [of _ rc] exI [of _ ex] exI [of _ cq'] exI [of _ io']) (simp add: io2_def io1_def)
  qed
qed

lemma chip_cursor_send_result:
  assumes rdy: "io_ready env io" and nl: "\<not> i_cursor_locked io" and cq: "i_cursq io \<noteq> None"
    and ck: "can_kick_cursor io" and buf: "i_cursor_cmd_buf io = Some b" "56 \<le> length b"
  shows "\<exists>io'. chip_cursor_send env t rid x y hx hy io = Some io' \<and> io_ready env io' \<and> \<not> i_cursor_locked io'
     \<and> i_cmd_buf io' = i_cmd_buf io \<and> i_io_depth io' = i_io_depth io
     \<and> (i_kicks io' = i_kicks io \<or> (\<exists>k c. i_kicks io' = i_kicks io @ [k] \<and> k_queue k = 1
          \<and> k_cursor k = Some c \<and> cursor_fields c = [t, 0, x, y, rid, hx, hy]))"
proof -
  define io1 where "io1 = io\<lparr>i_cursor_locked := True\<rparr>"
  have r1: "io_ready env io1" using rdy by (simp add: io1_def cursor_upd)
  obtain fs cs us where q1: "io_q Curs io1 fs cs us"
    using r1 cq by (auto simp: io_ready_def queue_ok_def io1_def dest: spec [of _ Curs])
  obtain io2 fs2 cs2 where d: "drain_all env Curs io1 = Some io2" "progress Curs io1 fs cs io2 fs2 cs2"
    using drain_all_result [OF q1] by blast
  have st2: "io_static io2 = io_static io1" using d(2) by (simp add: progress_def)
  have r2: "io_ready env io2" by (rule static_ready [OF st2 r1]) (use d(2) in \<open>simp add: progress_def\<close>)
  have f2: "i_cursor_cmd_buf io2 = Some b" "i_kicks io2 = i_kicks io" "i_cmd_buf io2 = i_cmd_buf io"
    "i_io_depth io2 = i_io_depth io" using st2 buf(1) by (simp_all add: io_static_def io1_def)
  obtain b' where b': "fill_cursor_cmd t rid x y hx hy b = Some b'" "cursor_fields b' = [t, 0, x, y, rid, hx, hy]"
    using fill_cursor_result [OF buf(2)] by blast
  define io3 where "io3 = io2\<lparr>i_cursor_cmd_buf := Some b'\<rparr>"
  have r3: "io_ready env io3" using r2 by (simp add: io3_def cursor_upd)
  obtain cq' us2 where q2: "i_cursq io2 = Some cq'" "io_q Curs io2 fs2 cs2 us2"
    using d(2) by (auto simp: progress_def io_q_def)
  have q3: "io_q Curs io3 fs2 cs2 us2" "i_cursq io3 = Some cq'" using q2 by (simp_all add: io3_def io_q_def)
  have ck3: "can_kick_cursor io3"
    using ck static_can_kick(2) [OF st2] by (simp add: io3_def io1_def can_kick_cursor_def)
  obtain rc ex cq2 io' where p: "VirtQueue_AddBuf (i_exec io3) cq' [\<lparr>sg_addr = i_cursor_cmd_phys io3, sg_len = 56\<rparr>] 1 0
      (i_task io3) = Some (rc, ex, cq2)"
    "rc \<noteq> 0 \<and> io' = io3\<lparr>i_exec := ex, i_cursq := Some cq2\<rparr> \<and> i_kicks io' = i_kicks io3
     \<or> rc = 0 \<and> cursor_wait env (i_task io3) (chip_notify_queue cq2 1 (io3\<lparr>i_exec := ex, i_cursq := Some cq2\<rparr>)) = Some io'
          \<and> i_kicks io' = i_kicks io3 @ [kick_of 1 io3]" "io_ready env io'" "io_kept io' = io_kept io3"
    using cursor_post [OF r3 q3(1) ck3 q3(2)] by (elim exE conjE) (rule that)
  have run: "chip_cursor_send env t rid x y hx hy io = Some (release_cursor_lock io')"
    using cq buf(1) nl d(1) f2(1) b'(1) q2(1) p(1,2)
    by (auto simp: chip_cursor_send_def obtain_cursor_lock_def io1_def io3_def Let_def)
  have "io_ready env (release_cursor_lock io')" using p(3) by (simp add: release_cursor_lock_def cursor_upd)
  moreover have "i_cmd_buf io' = i_cmd_buf io" "i_io_depth io' = i_io_depth io"
    using io_kept_parts(4,7) [OF p(4)] f2 by (simp_all add: io3_def)
  moreover have "i_kicks io' = i_kicks io \<or> (\<exists>k c. i_kicks io' = i_kicks io @ [k] \<and> k_queue k = 1
          \<and> k_cursor k = Some c \<and> cursor_fields c = [t, 0, x, y, rid, hx, hy])"
    using p(2) f2(2) b'(2) by (auto simp: io3_def kick_of_def)
  ultimately show ?thesis using run by (simp add: release_cursor_lock_def)
qed

text \<open>Positions sent to the device are not negative.\<close>

lemma clamp_pos_spec: "unat (clamp_pos v) = nat (sint v)"
proof (cases "sint v < 0")
  case False
  have "sint v < 32768" using sint_lt [of v] by simp
  then have "uint v = sint v" using False by (simp add: uint_sint take_bit_int_eq_self)
  then have "unat v = nat (sint v)" by (metis nat_uint_eq)
  moreover have "unat v < 2 ^ LENGTH(16)" by (rule unsigned_less)
  then have "unat v < 65536" by simp
  ultimately show ?thesis using False by (simp add: clamp_pos_def unsigned_ucast_eq take_bit_nat_eq_self)
qed (simp add: clamp_pos_def)

section \<open>Resource ids\<close>

lemma free_after_Suc:
  assumes "n \<in> {a, b, c}"
  shows "free_after {a, b, c} n = Suc (free_after {a, b, c} (n + 1))"
proof -
  have "n + of_nat (Suc (free_after {a, b, c} (n + 1))) \<notin> {a, b, c}"
    using LeastI_ex [OF free_after_ex [of "n + 1" a b c]] by (simp add: free_after_def ac_simps)
  then have "free_after {a, b, c} n \<le> Suc (free_after {a, b, c} (n + 1))"
    unfolding free_after_def by (rule Least_le)
  then show ?thesis using free_after_step [OF assms] by simp
qed

lemma next_free_id_spec:
  "next_free_id a b c n = (let r = n + of_nat (free_after {a, b, c} n) in (r, r + 1))"
proof (induction a b c n rule: next_free_id.induct)
  case (1 a b c n)
  show ?case
  proof (cases "n \<in> {a, b, c}")
    case True
    then have "next_free_id a b c n = next_free_id a b c (n + 1)" by (subst next_free_id.simps) auto
    also have "\<dots> = (let r = n + 1 + of_nat (free_after {a, b, c} (n + 1)) in (r, r + 1))"
      using 1 True by simp
    finally show ?thesis by (simp only: free_after_Suc [OF True] of_nat_Suc Let_def add.assoc)
  next
    case False
    then have "free_after {a, b, c} n = 0" by (simp add: free_after_def)
    moreover have "next_free_id a b c n = (n, n + 1)" using False by (subst next_free_id.simps) auto
    ultimately show ?thesis by (simp add: Let_def)
  qed
qed

lemma free_after_bound: "free_after {a, b, c} n \<le> 3"
proof -
  have "\<exists>k\<in>{0, 1, 2, 3 :: nat}. n + of_nat k \<notin> {a, b, c}"
  proof (rule ccontr)
    assume "\<not> ?thesis"
    then have "n \<in> {a, b, c} \<and> n + 1 \<in> {a, b, c} \<and> n + 2 \<in> {a, b, c} \<and> n + 3 \<in> {a, b, c}" by simp
    then have "{n, n + 1, n + 2, n + 3} \<subseteq> {a, b, c}" by blast
    then have "card {n, n + 1, n + 2, n + 3} \<le> card {a, b, c}" by (rule card_mono [rotated]) simp
    moreover have "card {n, n + 1, n + 2, n + 3} = 4" by simp
    moreover have "card {a, b, c} \<le> 3" by (simp add: card_insert_if)
    ultimately show False by simp
  qed
  then obtain k where "k \<in> {0, 1, 2, 3 :: nat}" "n + of_nat k \<notin> {a, b, c}" by (elim bexE)
  then have "k \<le> 3" "n + of_nat k \<notin> {a, b, c}" by auto
  then show ?thesis unfolding free_after_def by (metis (no_types, lifting) Least_le le_trans)
qed

lemma free_after_free: "n + of_nat (free_after {a, b, c} n) \<notin> {a, b, c}"
  unfolding free_after_def by (rule LeastI_ex [OF free_after_ex])

section \<open>Driver state around a command\<close>

text \<open>
  What resizing changes or keeps: the framebuffer.  The driver is in order when its transport is
  idle and the scanout log has its four entries.
\<close>

definition fb_view :: "gpu \<Rightarrow> (u32 \<times> u32 \<times> u32 \<times> u32 \<times> u32 \<times> u32) \<times> (u32 \<times> u32 \<times> u32 \<times> u32) \<times> bool \<times> bool" where
  "fb_view gs = ((g_fb_mem gs, g_fb_phys gs, g_fb_width gs, g_fb_height gs, g_fb_stride gs, g_fb_size gs),
     (g_fb_dma_count gs, g_fb_dma_list gs, g_resource_id gs, g_fb_resource_id gs), g_fb_is_blob gs,
     g_cursor_created gs)"

definition gpu_ok :: "env \<Rightarrow> nat \<Rightarrow> gpu \<Rightarrow> bool" where
  "gpu_ok env lk gs \<longleftrightarrow> io_idle env lk (g_io gs) \<and> length (g_scanout_log_x gs) = 4 \<and> length (g_scanout_log_y gs) = 4
     \<and> length (g_scanout_log_w gs) = 4 \<and> length (g_scanout_log_h gs) = 4"

lemma idle_exec [simp]: "io_idle env lk (io\<lparr>i_exec := ex\<rparr>) = io_idle env lk io"
proof -
  have "io_ready env (io\<lparr>i_exec := ex\<rparr>) = io_ready env io"
    by (rule io_ready_same) (simp_all add: same_queues_def no_waiter_def)
  then show ?thesis by (simp add: io_idle_def cmd3d_ok_def)
qed

lemma with_exec_eq: "with_exec f gs = (fst (f (i_exec (g_io gs))), do_exec (\<lambda>ex. snd (f ex)) gs)"
  by (simp add: with_exec_def do_exec_def split: prod.split)

lemma do_exec_frame [simp]: "gpu_ok env lk (do_exec f gs) = gpu_ok env lk gs" "fb_view (do_exec f gs) = fb_view gs"
  "g_dma_lists (do_exec f gs) = g_dma_lists gs" "i_kicks (g_io (do_exec f gs)) = i_kicks (g_io gs)"
  by (simp_all add: do_exec_def gpu_ok_def fb_view_def)

lemma resize_fail_frame [simp]: "gpu_ok env lk (resize_fail m d gs) = gpu_ok env lk gs" "fb_view (resize_fail m d gs) = fb_view gs"
  by (simp_all add: resize_fail_def)

lemma alloc_id_frame:
  "gpu_ok env lk (snd (chip_alloc_resource_id gs)) = gpu_ok env lk gs" "fb_view (snd (chip_alloc_resource_id gs)) = fb_view gs"
  "g_dma_lists (snd (chip_alloc_resource_id gs)) = g_dma_lists gs" "g_io (snd (chip_alloc_resource_id gs)) = g_io gs"
  by (simp_all add: chip_alloc_resource_id_def gpu_ok_def fb_view_def split: prod.split)

lemma delivers_gpu:
  assumes "delivers env lk c f (g_io gs)" "gpu_ok env lk gs"
  shows "\<exists>ok gs'. with_io f gs = Some (ok, gs') \<and> gpu_ok env lk gs' \<and> fb_view gs' = fb_view gs
     \<and> g_dma_lists gs' = g_dma_lists gs \<and> g_next_resource_id gs' = g_next_resource_id gs"
proof -
  obtain ok io' where "f (g_io gs) = Some (ok, io')" "io_idle env lk io'"
    using assms(1) by (auto simp: delivers_def)
  then show ?thesis using assms(2)
    by (intro exI [of _ ok] exI [of _ "gs\<lparr>g_io := io'\<rparr>"]) (simp add: with_io_result gpu_ok_def fb_view_def)
qed

lemma log_scanout_result:
  assumes "gpu_ok env lk gs"
  shows "\<exists>gs'. log_scanout sid x y w h gs = Some gs' \<and> gpu_ok env lk gs' \<and> fb_view gs' = fb_view gs \<and> g_io gs' = g_io gs"
  using assms by (auto simp: log_scanout_def gpu_ok_def fb_view_def rd_in word_less_nat_alt Let_def)

lemma chip_SetScanout_result:
  assumes "gpu_ok env lk gs"
  shows "\<exists>ok gs'. chip_SetScanout env sid rid x y w h gs = Some (ok, gs') \<and> gpu_ok env lk gs' \<and> fb_view gs' = fb_view gs
     \<and> (ok \<longrightarrow> le_ld32 (i_resp_buf (g_io gs')) 0 = RESP_OK_NODATA)
     \<and> told_times 3 (SetScanout \<lparr>r_x = x, r_y = y, r_w = w, r_h = h\<rparr> sid rid) (g_io gs) (g_io gs')"
proof -
  obtain gs1 where l: "log_scanout sid x y w h gs = Some gs1" "gpu_ok env lk gs1" "fb_view gs1 = fb_view gs" "g_io gs1 = g_io gs"
    using log_scanout_result [OF assms] by blast
  have "io_idle env lk (g_io gs1)" using l(2) by (simp add: gpu_ok_def)
  then obtain ok io' where r: "set_scanout_retry 3 env sid rid x y w h (g_io gs1) = Some (ok, io')" "io_idle env lk io'"
    "ok \<longrightarrow> le_ld32 (i_resp_buf io') 0 = RESP_OK_NODATA"
    "told_times 3 (SetScanout \<lparr>r_x = x, r_y = y, r_w = w, r_h = h\<rparr> sid rid) (g_io gs1) io'"
    using set_scanout_retry_result by blast
  then show ?thesis using l
    by (intro exI [of _ ok] exI [of _ "gs1\<lparr>g_io := io'\<rparr>"])
      (auto simp: chip_SetScanout_def with_io_result gpu_ok_def fb_view_def)
qed

lemma chip_SetScanout_lists:
  "chip_SetScanout env sid rid x y w h gs = Some (ok, gs') \<Longrightarrow> g_dma_lists gs' = g_dma_lists gs"
  by (auto simp: chip_SetScanout_def log_scanout_def with_io_def Let_def split: if_splits Option.bind_splits)

section \<open>Resizing\<close>

definition resized :: "u32 \<Rightarrow> u32 \<Rightarrow> gpu \<Rightarrow> gpu \<Rightarrow> bool" where
  "resized w h gs gs' \<longleftrightarrow> g_fb_width gs' = w \<and> g_fb_height gs' = h \<and> g_fb_stride gs' = w * 4
     \<and> g_fb_size gs' = h * (w * 4) \<and> g_fb_mem gs' \<noteq> 0 \<and> g_fb_dma_list gs' \<noteq> 0 \<and> g_fb_dma_count gs' \<noteq> 0
     \<and> g_fb_phys gs' = de_phys (g_dma_lists gs' (g_fb_mem gs') ! 0)
     \<and> g_resource_id gs' = g_fb_resource_id gs' \<and> g_fb_resource_id gs' \<noteq> g_fb_resource_id gs
     \<and> g_fb_is_blob gs' = g_fb_is_blob gs"

text \<open>The DMA list \<open>GetDMAList\<close> fills in has the entries \<open>StartDMA\<close> announced.\<close>

definition dma_lists_ok :: "gpu \<Rightarrow> bool" where
  "dma_lists_ok gs \<longleftrightarrow> (\<forall>k m. unat (ex_sdma_res (i_exec (g_io gs)) k) \<le> length (g_dma_lists gs m))"

lemma resize_retire:
  assumes ok: "gpu_ok env lk gs"
  shows "\<exists>gs'. (do {
     (_, gs) \<leftarrow> (if old_res \<noteq> 0 then with_io (chip_ResourceUnref env old_res) gs else Some (True, gs));
     let gs = (if old_dma \<noteq> 0 then do_exec (FreeSysObject old_dma) gs else gs);
     let gs = (if old_mem \<noteq> 0 then do_exec (\<lambda>ex. FreeVec old_mem (EndDMA old_mem ex)) gs else gs);
     Some (True, gs) }) = Some (True, gs') \<and> gpu_ok env lk gs' \<and> fb_view gs' = fb_view gs \<and> g_dma_lists gs' = g_dma_lists gs"
proof -
  have idle: "io_idle env lk (g_io gs)" using ok by (simp add: gpu_ok_def)
  have "\<exists>r gs1. (if old_res \<noteq> 0 then with_io (chip_ResourceUnref env old_res) gs else Some (True, gs)) = Some (r, gs1)
    \<and> gpu_ok env lk gs1 \<and> fb_view gs1 = fb_view gs \<and> g_dma_lists gs1 = g_dma_lists gs"
  proof (cases "old_res = 0")
    case True
    then show ?thesis using ok by (intro exI [of _ True] exI [of _ gs]) simp
  next
    case False
    then show ?thesis using delivers_gpu [OF delivers_unref [OF idle, of old_res] ok] by auto
  qed
  then obtain r gs1 where "(if old_res \<noteq> 0 then with_io (chip_ResourceUnref env old_res) gs else Some (True, gs)) = Some (r, gs1)"
    "gpu_ok env lk gs1" "fb_view gs1 = fb_view gs" "g_dma_lists gs1 = g_dma_lists gs"
    by blast
  then show ?thesis by (simp add: Let_def)
qed

lemma resize_undo:
  assumes ok: "gpu_ok env lk gs"
  shows "\<exists>gs'. (do { (_, gs) \<leftarrow> with_io (chip_ResourceUnref env rid) gs; Some (False, resize_fail m d gs) })
      = Some (False, gs') \<and> gpu_ok env lk gs' \<and> fb_view gs' = fb_view gs"
proof -
  have "io_idle env lk (g_io gs)" using ok by (simp add: gpu_ok_def)
  then obtain r gs1 where "with_io (chip_ResourceUnref env rid) gs = Some (r, gs1)" "gpu_ok env lk gs1" "fb_view gs1 = fb_view gs"
    using delivers_gpu [OF delivers_unref ok] by blast
  then show ?thesis by simp
qed

lemma fb_view_eqs:
  assumes "fb_view a = fb_view b"
  shows "g_fb_mem a = g_fb_mem b" "g_fb_phys a = g_fb_phys b" "g_fb_width a = g_fb_width b" "g_fb_height a = g_fb_height b"
    "g_fb_stride a = g_fb_stride b" "g_fb_size a = g_fb_size b" "g_fb_dma_count a = g_fb_dma_count b"
    "g_fb_dma_list a = g_fb_dma_list b" "g_resource_id a = g_resource_id b" "g_fb_resource_id a = g_fb_resource_id b"
    "g_fb_is_blob a = g_fb_is_blob b"
  using assms by (simp_all add: fb_view_def)

text \<open>From the point where the new buffer is mapped.\<close>

definition resize_commit :: "env \<Rightarrow> u32 \<Rightarrow> u32 \<Rightarrow> u32 \<Rightarrow> u32 \<Rightarrow> u32 \<Rightarrow> gpu \<Rightarrow> (bool \<times> gpu) option" where
  "resize_commit env new_w new_h new_mem new_dma_count new_dma gs = do {
        let new_dma_list = g_dma_lists gs new_mem;
        e \<leftarrow> rd new_dma_list 0;
        let new_phys = de_phys e;
        let (new_res_id, gs) = chip_alloc_resource_id gs;
        (ok, gs) \<leftarrow> with_io (chip_ResourceCreate2D env new_res_id FORMAT_B8G8R8X8_UNORM new_w new_h) gs;
        if \<not> ok then Some (False, resize_fail new_mem new_dma gs)
        else do {
          (ok, gs) \<leftarrow> with_io (chip_ResourceAttachBacking env new_res_id new_dma_list new_dma_count) gs;
          if \<not> ok then do {
            (_, gs) \<leftarrow> with_io (chip_ResourceUnref env new_res_id) gs;
            Some (False, resize_fail new_mem new_dma gs) }
          else do {
            (ok, gs) \<leftarrow> chip_SetScanout env 0 new_res_id 0 0 new_w new_h gs;
            if \<not> ok then do {
              (_, gs) \<leftarrow> with_io (chip_ResourceUnref env new_res_id) gs;
              Some (False, resize_fail new_mem new_dma gs) }
            else do {
              let old_res = g_fb_resource_id gs;
              let old_mem = g_fb_mem gs;
              let old_dma = g_fb_dma_list gs;
              let gs = gs\<lparr>g_fb_mem := new_mem, g_fb_phys := new_phys, g_fb_width := new_w, g_fb_height := new_h,
                g_fb_stride := new_w * 4, g_fb_size := new_h * (new_w * 4), g_fb_dma_count := new_dma_count,
                g_fb_dma_list := new_dma, g_resource_id := new_res_id, g_fb_resource_id := new_res_id\<rparr>;
              (_, gs) \<leftarrow> (if old_res \<noteq> 0 then with_io (chip_ResourceUnref env old_res) gs else Some (True, gs));
              let gs = (if old_dma \<noteq> 0 then do_exec (FreeSysObject old_dma) gs else gs);
              let gs = (if old_mem \<noteq> 0 then do_exec (\<lambda>ex. FreeVec old_mem (EndDMA old_mem ex)) gs else gs);
              Some (True, gs) } } } }"

lemma alloc_id_fresh: "fst (chip_alloc_resource_id gs) \<notin> {g_fb_resource_id gs, g_fb_resource_id2 gs, g_cursor_resource_id gs}"
  using free_after_free [of "g_next_resource_id gs" "g_fb_resource_id gs" "g_fb_resource_id2 gs" "g_cursor_resource_id gs"]
  by (simp add: chip_alloc_resource_id_def next_free_id_spec Let_def)

lemma resize_commit_result:
  assumes ok: "gpu_ok env lk gs" and l: "unat n \<le> length (g_dma_lists gs m)" and nz: "n \<noteq> 0" "m \<noteq> 0" "d \<noteq> 0"
  shows "\<exists>r gs'. resize_commit env w h m n d gs = Some (r, gs') \<and> gpu_ok env lk gs'
     \<and> (if r then resized w h gs gs' else fb_view gs' = fb_view gs)"
proof -
  let ?dl = "g_dma_lists gs m"
  have "0 < unat n" using nz(1) by (simp add: unat_gt_0)
  then have "0 < length ?dl" using l by linarith
  then have e: "rd ?dl 0 = Some (?dl ! 0)" by (simp add: rd_in)
  obtain rid gs1 where a: "chip_alloc_resource_id gs = (rid, gs1)" by fastforce
  have a1: "gpu_ok env lk gs1" "fb_view gs1 = fb_view gs" "g_dma_lists gs1 = g_dma_lists gs" "rid \<noteq> g_fb_resource_id gs"
    using alloc_id_frame(1) [of env lk gs] alloc_id_frame(2,3) [of gs] alloc_id_fresh [of gs] a ok by auto
  have idle: "gpu_ok env lk g \<Longrightarrow> io_idle env lk (g_io g)" for g by (simp add: gpu_ok_def)
  obtain c gs2 where c: "with_io (chip_ResourceCreate2D env rid FORMAT_B8G8R8X8_UNORM w h) gs1 = Some (c, gs2)"
    "gpu_ok env lk gs2" "fb_view gs2 = fb_view gs1" "g_dma_lists gs2 = g_dma_lists gs1"
    using delivers_gpu [OF delivers_create_2d [OF idle [OF a1(1)]] a1(1)] by blast
  obtain t gs3 where t: "with_io (chip_ResourceAttachBacking env rid ?dl n) gs2 = Some (t, gs3)"
    "gpu_ok env lk gs3" "fb_view gs3 = fb_view gs2" "g_dma_lists gs3 = g_dma_lists gs2"
    using delivers_gpu [OF delivers_attach_backing [OF idle [OF c(2)] l] c(2)] by blast
  obtain s gs4 where s: "chip_SetScanout env 0 rid 0 0 w h gs3 = Some (s, gs4)" "gpu_ok env lk gs4"
    "fb_view gs4 = fb_view gs3" "g_dma_lists gs4 = g_dma_lists gs3"
    using chip_SetScanout_result [OF t(2)] chip_SetScanout_lists by metis
  obtain gs3' where u3: "(do { (_, gs) \<leftarrow> with_io (chip_ResourceUnref env rid) gs3; Some (False, resize_fail m d gs) })
      = Some (False, gs3')" "gpu_ok env lk gs3'" "fb_view gs3' = fb_view gs3"
    using resize_undo [OF t(2)] by blast
  obtain gs4' where u4: "(do { (_, gs) \<leftarrow> with_io (chip_ResourceUnref env rid) gs4; Some (False, resize_fail m d gs) })
      = Some (False, gs4')" "gpu_ok env lk gs4'" "fb_view gs4' = fb_view gs4"
    using resize_undo [OF s(2)] by blast
  define gs5 where "gs5 = gs4\<lparr>g_fb_mem := m, g_fb_phys := de_phys (?dl ! 0), g_fb_width := w, g_fb_height := h,
     g_fb_stride := w * 4, g_fb_size := h * (w * 4), g_fb_dma_count := n,
     g_fb_dma_list := d, g_resource_id := rid, g_fb_resource_id := rid\<rparr>"
  have "gpu_ok env lk gs5" using s(2) by (simp add: gs5_def gpu_ok_def)
  then obtain gs6 where r: "(do {
     (_, gs) \<leftarrow> (if g_fb_resource_id gs4 \<noteq> 0 then with_io (chip_ResourceUnref env (g_fb_resource_id gs4)) gs5 else Some (True, gs5));
     let gs = (if g_fb_dma_list gs4 \<noteq> 0 then do_exec (FreeSysObject (g_fb_dma_list gs4)) gs else gs);
     let gs = (if g_fb_mem gs4 \<noteq> 0 then do_exec (\<lambda>ex. FreeVec (g_fb_mem gs4) (EndDMA (g_fb_mem gs4) ex)) gs else gs);
     Some (True, gs) }) = Some (True, gs6)" "gpu_ok env lk gs6" "fb_view gs6 = fb_view gs5" "g_dma_lists gs6 = g_dma_lists gs5"
    using resize_retire by blast
  have eqs: "fb_view gs4 = fb_view gs" "g_dma_lists gs4 = g_dma_lists gs"
    using s t c a1 by simp_all
  have "resized w h gs gs6"
    using fb_view_eqs [OF r(3)] fb_view_eqs [OF eqs(1)] r(4) eqs(2) nz a1(4) by (simp add: resized_def gs5_def)
  moreover have "resize_commit env w h m n d gs = (if \<not> c then Some (False, resize_fail m d gs2)
      else if \<not> t then Some (False, gs3') else if \<not> s then Some (False, gs4') else Some (True, gs6))"
    using e a c(1) t(1) s(1) u3(1) u4(1) r(1) [unfolded gs5_def]
    by (cases c; cases t; cases s) (simp_all add: resize_commit_def Let_def split del: if_split)
  ultimately show ?thesis using r(2) u4(2,3) u3(2,3) c(2,3) t(3) s(3) a1(2) by auto
qed

lemma chip_resize_result:
  assumes ok: "gpu_ok env lk gs" and l: "dma_lists_ok gs"
  shows "\<exists>r gs'. chip_resize_fb_to_mode env w h gs = Some (r, gs') \<and> gpu_ok env lk gs'
     \<and> (if r then gs' = gs \<and> w = g_fb_width gs \<and> h = g_fb_height gs \<or> resized w h gs gs' else fb_view gs' = fb_view gs)"
proof -
  obtain m ex1 where 1: "AllocVecTags (i_exec (g_io gs)) = (m, ex1)" by fastforce
  obtain n ex2 where 2: "StartDMA m ex1 = (n, ex2)" by fastforce
  obtain d ex3 where 3: "AllocSysObject ex2 = (d, ex3)" by fastforce
  define gs1 where "gs1 = do_exec (\<lambda>_. ex1) gs"
  define gs2 where "gs2 = do_exec (\<lambda>_. ex2) gs1"
  define gs3 where "gs3 = do_exec (\<lambda>_. ex3) gs2"
  have w: "with_exec AllocVecTags gs = (m, gs1)" "with_exec (StartDMA m) gs1 = (n, gs2)"
    "with_exec AllocSysObject gs2 = (d, gs3)"
    using 1 2 3 by (simp_all add: with_exec_def do_exec_def gs1_def gs2_def gs3_def)
  have f: "gpu_ok env lk gs1" "gpu_ok env lk gs2" "gpu_ok env lk gs3" "fb_view gs1 = fb_view gs" "fb_view gs2 = fb_view gs"
    "fb_view gs3 = fb_view gs" "g_dma_lists gs3 = g_dma_lists gs"
    using ok by (simp_all add: gs1_def gs2_def gs3_def)
  have n: "unat n \<le> length (g_dma_lists gs3 m)"
    using l 1 2 f(7) by (auto simp: dma_lists_ok_def exec_defs Let_def)
  have run: "chip_resize_fb_to_mode env w h gs =
     (if w = 0 \<or> h = 0 then Some (False, gs)
      else if w = g_fb_width gs \<and> h = g_fb_height gs then Some (True, gs)
      else if m = 0 then Some (False, gs1)
      else if n = 0 then Some (False, do_exec (FreeVec m) gs2)
      else if d = 0 then Some (False, do_exec (\<lambda>ex. FreeVec m (EndDMA m ex)) gs3)
      else resize_commit env w h m n d gs3)"
    by (simp add: chip_resize_fb_to_mode_def resize_commit_def w Let_def)
  show ?thesis
  proof (cases "w = 0 \<or> h = 0 \<or> w = g_fb_width gs \<and> h = g_fb_height gs \<or> m = 0 \<or> n = 0 \<or> d = 0")
    case True
    then show ?thesis using ok f unfolding run by auto
  next
    case False
    then obtain r gs' where "resize_commit env w h m n d gs3 = Some (r, gs')" "gpu_ok env lk gs'"
      "if r then resized w h gs3 gs' else fb_view gs' = fb_view gs3"
      using resize_commit_result [OF f(3) n] by blast
    moreover have "resized w h gs3 gs' = resized w h gs gs'"
      using fb_view_eqs [OF f(6)] by (simp add: resized_def)
    ultimately show ?thesis using False f(6) unfolding run by auto
  qed
qed

section \<open>Reading the EDID\<close>

definition edid_arrays_ok :: "gpu \<Rightarrow> bool" where
  "edid_arrays_ok gs \<longleftrightarrow> length (g_edid gs) = 1024 \<and> length (g_edid_dtd_w gs) = 16 \<and> length (g_edid_dtd_h gs) = 16"

lemma clamp_le: "unat (clamp m n) \<le> unat m" "unat (clamp m n) \<le> unat n"
  by (auto simp: clamp_def word_less_nat_alt)

lemma chip_GetEDID_result:
  assumes ok: "gpu_ok env lk gs" and arr: "edid_arrays_ok gs"
  shows "\<exists>r gs'. chip_GetEDID env scanout gs = Some (r, gs') \<and> gpu_ok env lk gs' \<and> g_has_edid gs' = r
     \<and> edid_arrays_ok gs' \<and> (r \<longrightarrow> unat (g_edid_size gs') \<le> 1024
       \<and> (\<exists>L. L = keep_all (edid_timings (g_edid gs') (unat (g_edid_size gs'))) []
            \<and> dtds_rep (g_edid_dtd_count gs', g_edid_dtd_w gs', g_edid_dtd_h gs') L
            \<and> (g_edid_native_w gs', g_edid_native_h gs') = (if L = [] then (0, 0) else hd L)))"
proof -
  let ?fs = "[(0, CMD_GET_EDID), (24, scanout)] :: (nat \<times> u32) list"
  have idle: "io_idle env lk (g_io gs)" using ok by (simp add: gpu_ok_def)
  have lz: "length (zeroed 32 (i_cmd_buf (g_io gs))) = 4096" using idle by (simp add: io_idle_def length_zeroed)
  have w: "words_ok (length (zeroed 32 (i_cmd_buf (g_io gs)))) ?fs" by (simp add: lz words_ok_def)
  note st = stores_result [OF w]
  have fill: "(do { cmd \<leftarrow> cpu_st32 0 (GP32 CMD_GET_EDID) (zeroed 32 (i_cmd_buf (g_io gs))); cpu_st32 24 (GP32 scanout) cmd })
      = Some (stores ?fs (zeroed 32 (i_cmd_buf (g_io gs))))"
    using st(1) by (simp add: put_words_Cons put_words_Nil)
  obtain rt io' where b: "gpu_begin env 32 1056 1056 (\<lambda>cmd. do {
        cmd \<leftarrow> cpu_st32 0 (GP32 CMD_GET_EDID) cmd; cpu_st32 24 (GP32 scanout) cmd }) (g_io gs) = Some (rt, io')"
    "io_idle env lk (release_io_lock io')" "length (i_resp_buf io') = 4096"
    using gpu_begin_result [where fill = "\<lambda>cmd. do {
        cmd \<leftarrow> cpu_st32 0 (GP32 CMD_GET_EDID) cmd; cpu_st32 24 (GP32 scanout) cmd }" and cs = 32 and rc = 1056
        and rs = 1056, OF idle _ _ fill] st(2) lz by auto
  show ?thesis
  proof (cases "rt = RESP_OK_EDID")
    case False
    then show ?thesis using b ok arr
      by (intro exI [of _ False] exI [of _ "gs\<lparr>g_io := release_io_lock io', g_has_edid := False\<rparr>"])
        (simp add: chip_GetEDID_def gpu_ok_def edid_arrays_ok_def)
  next
    case True
    obtain s where s: "cpu_ld32 24 (i_resp_buf io') = Some s" using b(3) by (simp add: cpu_ld32_def)
    define n where "n = clamp 1024 (GP32 s)"
    have n: "unat n \<le> 1024" using clamp_le(1) [of 1024] by (simp add: n_def)
    define ed where "ed = take (unat n) (drop 32 (i_resp_buf io')) @ drop (unat n) (g_edid gs)"
    have le: "length ed = 1024" using n b(3) arr by (simp add: ed_def edid_arrays_ok_def)
    have copy: "foldM (\<lambda>i edid. do { b \<leftarrow> rd (i_resp_buf io') (32 + i); wr edid i b }) [0..<unat n] (g_edid gs) = Some ed"
      using foldM_copy [of 32 "unat n" "i_resp_buf io'" "g_edid gs"] n b(3) arr
      by (simp add: ed_def edid_arrays_ok_def)
    have rep0: "dtds_rep (0, g_edid_dtd_w gs, g_edid_dtd_h gs) []" using arr by (simp add: dtds_rep_def edid_arrays_ok_def)
    define L where "L = keep_all (edid_timings ed (unat n)) []"
    obtain cnt ws hs where p: "parse_edid ed n (0, g_edid_dtd_w gs, g_edid_dtd_h gs) = Some (cnt, ws, hs)"
      "dtds_rep (cnt, ws, hs) L"
      using parse_edid_spec [OF rep0, of n ed] n le by (auto simp: L_def)
    have c: "unat cnt = length L" "length ws = 16" "length hs = 16"
      "L \<noteq> [] \<Longrightarrow> (ucast (ws ! 0), ucast (hs ! 0)) = L ! 0"
      using p(2) by (auto simp: dtds_rep_def)
    define nat where "nat = (if L = [] then (0, 0) else hd L)"
    have native: "(if 0 < cnt then do { w \<leftarrow> rd ws 0; h \<leftarrow> rd hs 0; Some (ucast w, ucast h) } else Some (0, 0)) = Some nat"
      using c by (cases "L = []") (auto simp: nat_def rd_in hd_conv_nth word_less_nat_alt unat_eq_zero)
    show ?thesis
      using b True s copy p native ok le c(2,3) n
      by (intro exI [of _ True] exI [of _ "gs\<lparr>g_io := release_io_lock io', g_edid_size := n, g_edid := ed,
         g_has_edid := True, g_edid_native_w := fst nat, g_edid_native_h := snd nat,
         g_edid_dtd_count := cnt, g_edid_dtd_w := ws, g_edid_dtd_h := hs\<rparr>"])
       (simp add: chip_GetEDID_def Let_def n_def [symmetric] gpu_ok_def edid_arrays_ok_def L_def [symmetric] nat_def [symmetric]
          split: prod.split)
  qed
qed

end
