(* ===== verification/Flush_Correct.thy ===== *)
theory Flush_Correct
  imports Flush Framebuffer_Correct Gpu_Driver_Correct
begin

text \<open>
  Presenting the framebuffer: the lock is balanced, the device sees the transfer of the back buffer,
  then the scanout, then the flush, and the buffers are swapped exactly when the transfer succeeded.
\<close>

section \<open>Steps that only talk to the device\<close>

text \<open>Everything but the transport and the log of scanout rectangles.\<close>

definition core :: "disp \<Rightarrow> disp" where
  "core d = d\<lparr>d_gs := (d_gs d)\<lparr>g_io := undefined, g_scanout_log_x := [], g_scanout_log_y := [],
     g_scanout_log_w := [], g_scanout_log_h := []\<rparr>\<rparr>"

definition quiet :: "disp \<Rightarrow> disp \<Rightarrow> bool" where
  "quiet d d' \<longleftrightarrow> core d' = core d"

lemma quiet_refl: "quiet d d"
  by (simp add: quiet_def)

lemma quiet_trans: "quiet a b \<Longrightarrow> quiet b c \<Longrightarrow> quiet a c"
  by (simp add: quiet_def)

text \<open>The control queue commands the device was shown in between.\<close>

definition shown :: "disp \<Rightarrow> disp \<Rightarrow> gpu_cmd list \<Rightarrow> bool" where
  "shown d d' cs \<longleftrightarrow> (\<exists>ks. i_kicks (g_io (d_gs d')) = i_kicks (g_io (d_gs d)) @ ks \<and> (\<forall>k\<in>set ks. k_queue k = 0)
     \<and> map (\<lambda>k. decode_cmd (k_cmd k)) ks = map Some cs)"

lemma shown_refl: "i_kicks (g_io (d_gs d')) = i_kicks (g_io (d_gs d)) \<Longrightarrow> shown d d' []"
  by (simp add: shown_def)

lemma shown_trans: "shown a b cs \<Longrightarrow> shown b c ds \<Longrightarrow> shown a c (cs @ ds)"
  unfolding shown_def by (elim exE conjE, rule_tac x = "ks @ ksa" in exI) auto

text \<open>Marks and the lock.\<close>

lemma idle_stage: "io_idle env lk (io\<lparr>i_hot_stage := s\<rparr>) = io_idle env lk io"
proof -
  have "io_ready env (io\<lparr>i_hot_stage := s\<rparr>) = io_ready env io"
    by (rule io_ready_same) (simp_all add: same_queues_def no_waiter_def)
  then show ?thesis by (simp add: io_idle_def cmd3d_ok_def)
qed

lemma ready_depth: "io_ready env (io\<lparr>i_io_depth := n\<rparr>) = io_ready env io"
  by (rule io_ready_same) (simp_all add: same_queues_def no_waiter_def)

definition step_ok :: "env \<Rightarrow> nat \<Rightarrow> disp \<Rightarrow> nat \<Rightarrow> disp \<Rightarrow> gpu_cmd list \<Rightarrow> bool" where
  "step_ok env lk d lk' d' cs \<longleftrightarrow> (gpu_ok env lk (d_gs d) \<longrightarrow> gpu_ok env lk' (d_gs d')) \<and> quiet d d' \<and> shown d d' cs"

lemma on_io_quiet: "quiet d (on_io f d)"
  by (simp add: quiet_def core_def on_io_def)

lemma stage_ok: "step_ok env lk d lk (HOT_STAGE s d) []"
  unfolding step_ok_def HOT_STAGE_def
  by (intro conjI on_io_quiet shown_refl) (simp_all add: on_io_def gpu_ok_def idle_stage)

lemma obtain_ok: "step_ok env lk d (Suc lk) (on_io obtain_io_lock d) []"
  unfolding step_ok_def
  by (intro conjI on_io_quiet shown_refl) (auto simp: on_io_def gpu_ok_def obtain_io_lock_def ready_depth io_idle_def cmd3d_ok_def)

lemma release_ok: "step_ok env (Suc lk) d lk (on_io release_io_lock d) []"
  unfolding step_ok_def
  by (intro conjI on_io_quiet shown_refl) (auto simp: on_io_def gpu_ok_def release_io_lock_def ready_depth io_idle_def cmd3d_ok_def)

lemma step_trans: "step_ok env l a m b cs \<Longrightarrow> step_ok env m b n c ds \<Longrightarrow> step_ok env l a n c (cs @ ds)"
  unfolding step_ok_def by (auto intro: quiet_trans shown_trans)

text \<open>What quiet steps keep.\<close>

lemma quiet_mem:
  assumes "quiet d d'"
  shows "d_mem d' = d_mem d" "d_prof_convert d' = d_prof_convert d" "d_prof_flush_all d' = d_prof_flush_all d"
proof -
  have "d_mem d = d_mem (core d)" "d_prof_convert d = d_prof_convert (core d)" "d_prof_flush_all d = d_prof_flush_all (core d)" for d
    by (simp_all add: core_def)
  then show "d_mem d' = d_mem d" "d_prof_convert d' = d_prof_convert d" "d_prof_flush_all d' = d_prof_flush_all d"
    using assms unfolding quiet_def by metis+
qed

text \<open>The two buffers: memory, physical address, DMA list and resources of each.\<close>

type_synonym buffer = "u32 \<times> u32 \<times> u32 \<times> u32 \<times> u32 \<times> u32"

definition buffers :: "disp \<Rightarrow> buffer \<times> buffer" where
  "buffers d = ((g_fb_mem (d_gs d), g_fb_phys (d_gs d), g_fb_dma_count (d_gs d), g_fb_dma_list (d_gs d),
        g_fb_resource_id (d_gs d), d_virgl_2d_resource d),
      (d_fb_mem2 d, d_fb_phys2 d, d_fb_dma_count2 d, d_fb_dma_list2 d, g_fb_resource_id2 (d_gs d), d_virgl_2d_resource2 d))"

definition virgl_state :: "disp \<Rightarrow> u32 \<times> bool \<times> bool \<times> u32 \<times> u32 \<times> bool" where
  "virgl_state d = (g_resource_id (d_gs d), d_virgl_2d_ready d, g_virgl_ctx_error (d_gs d), d_virgl_2d_ctx d,
     g_fb_stride (d_gs d), g_fb_is_blob (d_gs d))"

lemma quiet_buffers:
  assumes "quiet d d'"
  shows "buffers d' = buffers d" "virgl_state d' = virgl_state d"
proof -
  have "buffers (core d) = buffers d" "virgl_state (core d) = virgl_state d" for d
    by (simp_all add: core_def buffers_def virgl_state_def)
  then show "buffers d' = buffers d" "virgl_state d' = virgl_state d" using assms unfolding quiet_def by metis+
qed

section \<open>Commands\<close>

lemma delivers_step:
  assumes "delivers env lk c f (g_io (d_gs d))" "gpu_ok env lk (d_gs d)"
  shows "\<exists>ok d' cs. with_gs (with_io f) d = Some (ok, d') \<and> gpu_ok env lk (d_gs d') \<and> quiet d d' \<and> shown d d' cs
     \<and> (cs = [c] \<or> cs = [] \<and> \<not> ok)"
proof -
  obtain ok io' where f: "f (g_io (d_gs d)) = Some (ok, io')" "io_idle env lk io'"
    "\<not> ok \<and> i_kicks io' = i_kicks (g_io (d_gs d)) \<or> told c (g_io (d_gs d)) io'"
    using assms(1) by (auto simp: delivers_def)
  let ?d' = "d\<lparr>d_gs := (d_gs d)\<lparr>g_io := io'\<rparr>\<rparr>"
  have "with_gs (with_io f) d = Some (ok, ?d')" using f(1) by (simp add: with_gs_def with_io_result)
  moreover have "gpu_ok env lk (d_gs ?d')" using assms(2) f(2) by (simp add: gpu_ok_def)
  moreover have "quiet d ?d'" by (simp add: quiet_def core_def)
  moreover have "\<exists>cs. shown d ?d' cs \<and> (cs = [c] \<or> cs = [] \<and> \<not> ok)"
  proof (cases "told c (g_io (d_gs d)) io'")
    case True
    then have "shown d ?d' [c]" by (auto simp: told_def shown_def)
    then show ?thesis by blast
  next
    case False
    then have "shown d ?d' []" "\<not> ok" using f(3) by (auto intro: shown_refl)
    then show ?thesis by blast
  qed
  ultimately show ?thesis by blast
qed

lemma set_scanout_step:
  assumes "gpu_ok env lk (d_gs d)"
  shows "\<exists>ok d' n. with_gs (chip_SetScanout env sid rid x y w h) d = Some (ok, d') \<and> gpu_ok env lk (d_gs d') \<and> quiet d d'
     \<and> n \<le> 3 \<and> shown d d' (replicate n (SetScanout \<lparr>r_x = x, r_y = y, r_w = w, r_h = h\<rparr> sid rid))"
proof -
  obtain gs1 where l: "log_scanout sid x y w h (d_gs d) = Some gs1" "gpu_ok env lk gs1" "g_io gs1 = g_io (d_gs d)"
    using log_scanout_result [OF assms] by blast
  have idle: "io_idle env lk (g_io gs1)" using l(2) by (simp add: gpu_ok_def)
  obtain ok io' where s: "set_scanout_retry 3 env sid rid x y w h (g_io gs1) = Some (ok, io')" "io_idle env lk io'"
    "told_times 3 (SetScanout \<lparr>r_x = x, r_y = y, r_w = w, r_h = h\<rparr> sid rid) (g_io gs1) io'"
    using set_scanout_retry_result [OF idle, of 3 sid rid x y w h] by blast
  let ?d' = "d\<lparr>d_gs := gs1\<lparr>g_io := io'\<rparr>\<rparr>"
  have "with_gs (chip_SetScanout env sid rid x y w h) d = Some (ok, ?d')"
    using l(1) s(1) by (simp add: with_gs_def chip_SetScanout_def with_io_def)
  moreover have "gpu_ok env lk (d_gs ?d')" using l(2) s(2) by (simp add: gpu_ok_def)
  moreover have "quiet d ?d'"
  proof -
    have "core (d\<lparr>d_gs := gs1\<lparr>g_io := io'\<rparr>\<rparr>) = core d" using l(1)
      by (auto simp: log_scanout_def core_def Let_def split: if_splits Option.bind_splits)
    then show ?thesis by (simp add: quiet_def)
  qed
  moreover obtain ks where ks: "i_kicks io' = i_kicks (g_io (d_gs d)) @ ks" "length ks \<le> 3" "\<forall>k\<in>set ks. k_queue k = 0
     \<and> decode_cmd (k_cmd k) = Some (SetScanout \<lparr>r_x = x, r_y = y, r_w = w, r_h = h\<rparr> sid rid)"
    using s(3) l(3) by (auto simp: told_times_def)
  then have "shown d ?d' (replicate (length ks) (SetScanout \<lparr>r_x = x, r_y = y, r_w = w, r_h = h\<rparr> sid rid))"
    unfolding shown_def by (intro exI [of _ ks]) (auto intro: nth_equalityI)
  ultimately show ?thesis using ks(2) by blast
qed

section \<open>The transfer\<close>

abbreviation frame :: "u32 \<Rightarrow> u32 \<Rightarrow> rect" where
  "frame w h \<equiv> \<lparr>r_x = 0, r_y = 0, r_w = w, r_h = h\<rparr>"

definition transfer_3d :: "u32 \<Rightarrow> u32 \<Rightarrow> u32 \<Rightarrow> u32 \<Rightarrow> u32 \<Rightarrow> gpu_cmd" where
  "transfer_3d ctx res w h stride = TransferToHost3D ctx \<lparr>bx_x = 0, bx_y = 0, bx_z = 0, bx_w = w, bx_h = h, bx_d = 1\<rparr> 0 res 0 stride 0"

definition poison :: "bool \<Rightarrow> disp \<Rightarrow> disp" where
  "poison e d = (if e then d\<lparr>d_gs := (d_gs d)\<lparr>g_virgl_ctx_error := True\<rparr>\<rparr> else d)"

lemma core_poison: "core (poison e d) = poison e (core d)"
  by (simp add: core_def poison_def)

lemma gpu_ok_poison: "gpu_ok env lk (d_gs (poison e d)) = gpu_ok env lk (d_gs d)"
  by (simp add: poison_def gpu_ok_def)

lemma transfer_2d_step:
  assumes "gpu_ok env lk (d_gs d)"
  shows "\<exists>ok d' cs. with_gs (chip_TransferToHost2D env res 0 0 w h 0) d = Some (ok, d') \<and> gpu_ok env lk (d_gs d') \<and> quiet d d'
     \<and> shown d d' cs \<and> (if g_fb_is_blob (d_gs d) \<and> res = g_fb_resource_id (d_gs d) then ok \<and> cs = []
        else cs = [TransferToHost2D (frame w h) 0 res] \<or> cs = [] \<and> \<not> ok)"
proof (cases "g_fb_is_blob (d_gs d) \<and> res = g_fb_resource_id (d_gs d)")
  case True
  then have "with_gs (chip_TransferToHost2D env res 0 0 w h 0) d = Some (True, d)"
    by (simp add: with_gs_def chip_TransferToHost2D_def)
  then show ?thesis using True assms quiet_refl [of d] shown_refl [of d d] by auto
next
  case False
  have "io_idle env lk (g_io (d_gs d))" using assms by (simp add: gpu_ok_def)
  then have dl: "delivers env lk (TransferToHost2D (frame w h) 0 res) (transfer_to_host_2d_cmd env res 0 0 w h 0) (g_io (d_gs d))"
    by (rule delivers_transfer_2d)
  have "with_gs (chip_TransferToHost2D env res 0 0 w h 0) d = with_gs (with_io (transfer_to_host_2d_cmd env res 0 0 w h 0)) d"
    using False by (auto simp: with_gs_def chip_TransferToHost2D_def)
  then show ?thesis using delivers_step [OF dl assms] False by (simp only: if_False)
qed

text \<open>The commands of a transfer with its result: \<open>v\<close> says whether virgl carried it.\<close>

definition transfer_cmds :: "bool \<Rightarrow> gpu_cmd \<Rightarrow> gpu_cmd \<Rightarrow> bool \<Rightarrow> bool \<Rightarrow> bool \<Rightarrow> gpu_cmd list \<Rightarrow> bool" where
  "transfer_cmds use_virgl t3 t2 skip ok v cs \<longleftrightarrow>
     (if v then use_virgl \<and> ok \<and> cs = [t3]
      else \<exists>pre post. cs = pre @ post \<and> (pre = [] \<or> use_virgl \<and> pre = [t3])
        \<and> (if skip then ok \<and> post = [] else post = [t2] \<or> post = [] \<and> \<not> ok))"

lemma flush_transfer_result:
  assumes gs: "gpu_ok env lk (d_gs d)"
  shows "\<exists>ok v d' cs. flush_transfer env use_virgl r3 r2 w h d = Some (ok, v, d') \<and> gpu_ok env lk (d_gs d')
     \<and> quiet (poison (use_virgl \<and> \<not> v) d) d' \<and> shown d d' cs
     \<and> transfer_cmds use_virgl (transfer_3d (d_virgl_2d_ctx d) r3 w h (g_fb_stride (d_gs d))) (TransferToHost2D (frame w h) 0 r2)
         (g_fb_is_blob (d_gs d) \<and> r2 = g_fb_resource_id (d_gs d)) ok v cs"
proof (cases use_virgl)
  case False
  obtain ok d' cs where "with_gs (chip_TransferToHost2D env r2 0 0 w h 0) d = Some (ok, d')" "gpu_ok env lk (d_gs d')" "quiet d d'"
    "shown d d' cs" "if g_fb_is_blob (d_gs d) \<and> r2 = g_fb_resource_id (d_gs d) then ok \<and> cs = []
        else cs = [TransferToHost2D (frame w h) 0 r2] \<or> cs = [] \<and> \<not> ok"
    using transfer_2d_step [OF gs] by blast
  moreover from this have "flush_transfer env use_virgl r3 r2 w h d = Some (ok, False, d')" using False by (simp add: flush_transfer_def)
  ultimately show ?thesis using False by (intro exI [of _ ok] exI [of _ False] exI [of _ d'] exI [of _ cs])
    (simp add: poison_def transfer_cmds_def)
next
  case True
  let ?box = "\<lparr>bx_x = 0, bx_y = 0, bx_z = 0, bx_w = w, bx_h = h, bx_d = 1\<rparr>"
  have "io_idle env lk (g_io (d_gs d))" using gs by (simp add: gpu_ok_def)
  note dl = delivers_transfer_to_3d [OF this, of "d_virgl_2d_ctx d" ?box 0 r3 0 "g_fb_stride (d_gs d)" 0]
  obtain ok1 d1 cs1 where t: "with_gs (with_io (chip_TransferToHost3D env (d_virgl_2d_ctx d) r3 0 (g_fb_stride (d_gs d)) 0 0 ?box)) d
      = Some (ok1, d1)" "gpu_ok env lk (d_gs d1)" "quiet d d1" "shown d d1 cs1"
    "cs1 = [transfer_3d (d_virgl_2d_ctx d) r3 w h (g_fb_stride (d_gs d))] \<or> cs1 = [] \<and> \<not> ok1"
    using delivers_step [OF dl gs] unfolding transfer_3d_def by blast
  show ?thesis
  proof (cases ok1)
    case ok: True
    have "flush_transfer env use_virgl r3 r2 w h d = Some (True, True, d1)" using True t(1) ok by (simp add: flush_transfer_def)
    then show ?thesis using t ok True by (intro exI [of _ True] exI [of _ True] exI [of _ d1] exI [of _ cs1])
      (simp add: poison_def transfer_cmds_def)
  next
    case bad: False
    let ?d1 = "poison True d1"
    have q: "quiet (poison True d) ?d1" using t(3) by (simp add: quiet_def core_poison)
    have b: "g_fb_is_blob (d_gs ?d1) = g_fb_is_blob (d_gs d)" "g_fb_resource_id (d_gs ?d1) = g_fb_resource_id (d_gs d)"
      using quiet_buffers [OF t(3)] by (simp_all add: poison_def buffers_def virgl_state_def)
    have ok1: "gpu_ok env lk (d_gs ?d1)" using t(2) by (simp add: gpu_ok_poison)
    obtain ok d' cs where u: "with_gs (chip_TransferToHost2D env r2 0 0 w h 0) ?d1 = Some (ok, d')" "gpu_ok env lk (d_gs d')"
      "quiet ?d1 d'" "shown ?d1 d' cs" "if g_fb_is_blob (d_gs ?d1) \<and> r2 = g_fb_resource_id (d_gs ?d1) then ok \<and> cs = []
        else cs = [TransferToHost2D (frame w h) 0 r2] \<or> cs = [] \<and> \<not> ok"
      using transfer_2d_step [OF ok1] by blast
    have "flush_transfer env use_virgl r3 r2 w h d = Some (ok, False, d')" using True t(1) u(1) bad
      by (simp add: flush_transfer_def poison_def)
    moreover have "quiet (poison (use_virgl \<and> \<not> False) d) d'" using quiet_trans [OF q u(3)] True by simp
    moreover have "shown d1 ?d1 []" by (rule shown_refl) (simp add: poison_def)
    then have "shown d d' (cs1 @ cs)" using shown_trans [OF t(4) shown_trans [of d1 ?d1 "[]" d' cs]] u(4) by simp
    moreover have "transfer_cmds use_virgl (transfer_3d (d_virgl_2d_ctx d) r3 w h (g_fb_stride (d_gs d))) (TransferToHost2D (frame w h) 0 r2)
         (g_fb_is_blob (d_gs d) \<and> r2 = g_fb_resource_id (d_gs d)) ok False (cs1 @ cs)"
      unfolding transfer_cmds_def if_False
      by (intro exI [of _ cs1] exI [of _ cs] conjI refl) (use t(5) bad u(5) True b in auto)
    ultimately show ?thesis using u(2) by blast
  qed
qed

section \<open>Presenting the back buffer\<close>

lemma swap_buffers_result:
  "buffers (chip_swap_buffers d) = (snd (buffers d), fst (buffers d))"
  "g_resource_id (d_gs (chip_swap_buffers d)) = (if d_virgl_2d_ready d \<and> \<not> g_virgl_ctx_error (d_gs d) \<and> d_virgl_2d_resource2 d \<noteq> 0
     then d_virgl_2d_resource2 d else g_fb_resource_id2 (d_gs d))"
  "gpu_ok env lk (d_gs (chip_swap_buffers d)) = gpu_ok env lk (d_gs d)" "d_mem (chip_swap_buffers d) = d_mem d"
  "d_prof_flush_all (chip_swap_buffers d) = d_prof_flush_all d" "i_kicks (g_io (d_gs (chip_swap_buffers d))) = i_kicks (g_io (d_gs d))"
  by (simp_all add: chip_swap_buffers_def Let_def buffers_def gpu_ok_def)

definition presented :: "u32 \<Rightarrow> u32 \<Rightarrow> u32 \<Rightarrow> gpu_cmd list \<Rightarrow> bool" where
  "presented res w h cs \<longleftrightarrow> (\<exists>n fs. n \<le> 3 \<and> cs = replicate n (SetScanout (frame w h) 0 res) @ fs \<and> (fs = [] \<or> fs = [ResourceFlush (frame w h) res]))"

lemma present_back_result:
  assumes gs: "gpu_ok env lk (d_gs d)"
  shows "\<exists>d1 d' cs. present_back env res w h d = Some d' \<and> quiet d d1 \<and> d' = chip_swap_buffers d1 \<and> gpu_ok env lk (d_gs d')
     \<and> shown d d' cs \<and> presented res w h cs"
proof -
  let ?a = "HOT_STAGE ''flush_all:db:scanout'' d"
  have a: "gpu_ok env lk (d_gs ?a)" "quiet d ?a" "shown d ?a []"
    using stage_ok [of env lk d "''flush_all:db:scanout''"] gs by (simp_all add: step_ok_def)
  obtain r b n where b: "with_gs (chip_SetScanout env 0 res 0 0 w h) ?a = Some (r, b)" "gpu_ok env lk (d_gs b)" "quiet ?a b"
    "n \<le> 3" "shown ?a b (replicate n (SetScanout (frame w h) 0 res))"
    using set_scanout_step [OF a(1)] by blast
  let ?c = "HOT_STAGE ''flush_all:db:res_flush'' b"
  have c: "gpu_ok env lk (d_gs ?c)" "quiet b ?c" "shown b ?c []"
    using stage_ok [of env lk b "''flush_all:db:res_flush''"] b(2) by (simp_all add: step_ok_def)
  then have "io_idle env lk (g_io (d_gs ?c))" by (simp add: gpu_ok_def)
  note dl = delivers_flush [OF this, of 0 0 w h res]
  obtain f e fs where e: "with_gs (with_io (chip_ResourceFlush env res 0 0 w h)) ?c = Some (f, e)" "gpu_ok env lk (d_gs e)" "quiet ?c e"
    "shown ?c e fs" "fs = [ResourceFlush (frame w h) res] \<or> fs = [] \<and> \<not> f"
    using delivers_step [OF dl c(1)] by blast
  let ?g = "HOT_STAGE ''flush_all:db:swap'' e"
  have g: "gpu_ok env lk (d_gs ?g)" "quiet e ?g" "shown e ?g []"
    using stage_ok [of env lk e "''flush_all:db:swap''"] e(2) by (simp_all add: step_ok_def)
  have z: "shown ?g (chip_swap_buffers ?g) []" by (rule shown_refl) (simp add: swap_buffers_result)
  then have "shown d (chip_swap_buffers ?g) (replicate n (SetScanout (frame w h) 0 res) @ fs)"
    using shown_trans [OF a(3) shown_trans [OF b(5) shown_trans [OF c(3) shown_trans [OF e(4) shown_trans [OF g(3) z]]]]] by simp
  moreover have "quiet d ?g" using quiet_trans [OF a(2) quiet_trans [OF b(3) quiet_trans [OF c(2) quiet_trans [OF e(3) g(2)]]]] .
  moreover have "present_back env res w h d = Some (chip_swap_buffers ?g)" using b(1) e(1) by (simp add: present_back_def)
  moreover have "gpu_ok env lk (d_gs (chip_swap_buffers ?g))" using g(1) by (simp add: swap_buffers_result)
  moreover have "presented res w h (replicate n (SetScanout (frame w h) 0 res) @ fs)" using b(4) e(5) by (auto simp: presented_def)
  ultimately show ?thesis by blast
qed

section \<open>The whole frame\<close>

lemma quiet_convert:
  assumes "quiet d d'"
  shows "convert_ok m d' = convert_ok m d" "picture d' = picture d" "visible_w d' = visible_w d" "visible_h d' = visible_h d"
proof -
  have a: "visible_w (core d) = visible_w d" "visible_h (core d) = visible_h d" "src_base (core d) = src_base d" "src_width (core d) = src_width d"
    "src_bpp (core d) = src_bpp d" for d
    by (simp_all add: core_def visible_w_def visible_h_def src_base_def src_width_def src_bpp_def)
  have p: "pan_x (core d) = pan_x d" "pan_y (core d) = pan_y d" for d
    by (simp_all only: pan_x_def pan_y_def a) (simp_all add: core_def)
  have f: "d_palette (core d) = d_palette d" "d_mem (core d) = d_mem d" "d_active_format (core d) = d_active_format d"
    "g_fb_height (d_gs (core d)) = g_fb_height (d_gs d)" "g_fb_stride (d_gs (core d)) = g_fb_stride (d_gs d)" for d
    by (simp_all add: core_def)
  have "convert_ok m (core d) = convert_ok m d" for d by (simp only: convert_ok_def a p f)
  moreover have "picture (core d) = picture d" for d
    by (intro ext) (simp only: picture_def shown_pixel_def a p f)
  ultimately show "convert_ok m d' = convert_ok m d" "picture d' = picture d" "visible_w d' = visible_w d" "visible_h d' = visible_h d"
    using assms a unfolding quiet_def by metis+
qed

lemma eclock_convert [simp]:
  "convert_ok m (d\<lparr>d_eclock := c\<rparr>) = convert_ok m d" "picture (d\<lparr>d_eclock := c\<rparr>) = picture d"
  "visible_w (d\<lparr>d_eclock := c\<rparr>) = visible_w d" "visible_h (d\<lparr>d_eclock := c\<rparr>) = visible_h d"
  "buffers (d\<lparr>d_eclock := c\<rparr>) = buffers d" "virgl_state (d\<lparr>d_eclock := c\<rparr>) = virgl_state d"
proof -
  have a: "visible_w (d\<lparr>d_eclock := c\<rparr>) = visible_w d" "visible_h (d\<lparr>d_eclock := c\<rparr>) = visible_h d" "src_base (d\<lparr>d_eclock := c\<rparr>) = src_base d"
    "src_width (d\<lparr>d_eclock := c\<rparr>) = src_width d" "src_bpp (d\<lparr>d_eclock := c\<rparr>) = src_bpp d"
    by (simp_all add: visible_w_def visible_h_def src_base_def src_width_def src_bpp_def)
  have p: "pan_x (d\<lparr>d_eclock := c\<rparr>) = pan_x d" "pan_y (d\<lparr>d_eclock := c\<rparr>) = pan_y d"
    by (simp_all add: pan_x_def pan_y_def a)
  show "convert_ok m (d\<lparr>d_eclock := c\<rparr>) = convert_ok m d" by (simp add: convert_ok_def a p)
  show "picture (d\<lparr>d_eclock := c\<rparr>) = picture d" by (intro ext) (simp add: picture_def shown_pixel_def a p)
  show "visible_w (d\<lparr>d_eclock := c\<rparr>) = visible_w d" "visible_h (d\<lparr>d_eclock := c\<rparr>) = visible_h d" by (rule a)+
  show "buffers (d\<lparr>d_eclock := c\<rparr>) = buffers d" "virgl_state (d\<lparr>d_eclock := c\<rparr>) = virgl_state d"
    by (simp_all add: buffers_def virgl_state_def)
qed

lemma converted_frame:
  assumes "converted d d'"
  shows "d_gs d' = d_gs d" "buffers d' = buffers d" "virgl_state d' = virgl_state d" "d_prof_flush_all d' = d_prof_flush_all d"
  using assms by (auto simp: converted_def buffers_def virgl_state_def)

text \<open>The visible frame converted into a buffer: what its bytes become.\<close>

definition frame_bytes :: "u32 \<Rightarrow> disp \<Rightarrow> nat set" where
  "frame_bytes m d = rect_bytes (unat m) (unat (g_fb_stride (d_gs d))) (unat (visible_w d) * 4) (unat (visible_h d))"

lemma convert_frame:
  assumes "convert_ok m d" "visible_w d \<noteq> 0" "visible_h d \<noteq> 0" "prof_room (Suc n) (d_prof_convert d)"
  shows "\<exists>d'. chip_convert_rect m 0 0 (visible_w d) (visible_h d) d = Some d' \<and> converted d d'
     \<and> paints (picture d m) (frame_bytes m d) (d_mem d) (d_mem d')"
  using chip_convert_rect_result [OF assms(1), of 0 "visible_w d" 0 "visible_h d"] assms by (auto simp: frame_bytes_def)

text \<open>The end of both paths: mark, release, mark, sample.\<close>

lemma flush_end:
  assumes "gpu_ok env (Suc lk) (d_gs d)" "prof_room (Suc n) (d_prof_flush_all d)"
  shows "\<exists>d1 d'. prof_end_flush_all t k (HOT_STAGE s2 (on_io release_io_lock (HOT_STAGE s1 d))) = Some d' \<and> quiet d d1
     \<and> gpu_ok env lk (d_gs d') \<and> shown d d' [] \<and> d_gs d' = d_gs d1 \<and> buffers d' = buffers d1 \<and> d_mem d' = d_mem d1"
proof -
  let ?d1 = "HOT_STAGE s2 (on_io release_io_lock (HOT_STAGE s1 d))"
  have st: "step_ok env (Suc lk) d lk ?d1 ([] @ [] @ [])"
    by (rule step_trans [OF stage_ok step_trans [OF release_ok stage_ok]])
  then have q: "quiet d ?d1" "gpu_ok env lk (d_gs ?d1)" "shown d ?d1 []" using assms(1) by (simp_all add: step_ok_def)
  have room: "prof_room (Suc n) (d_prof_flush_all ?d1)" using quiet_mem(3) [OF q(1)] assms(2) by simp
  obtain p lg c where e: "chip_prof_end t k (d_prof_flush_all ?d1, d_proflog ?d1, d_eclock ?d1) = Some (p, lg, c)"
    using prof_end_total [OF room] by blast
  let ?d' = "?d1\<lparr>d_prof_flush_all := p, d_proflog := lg, d_eclock := c\<rparr>"
  have "prof_end_flush_all t k ?d1 = Some ?d'" using e by (simp add: prof_end_flush_all_def)
  moreover have "shown d ?d' []" using q(3) by (simp add: shown_def)
  moreover have "buffers ?d' = buffers ?d1" by (simp add: buffers_def)
  ultimately show ?thesis using q(1,2) by (intro exI [of _ ?d1] exI [of _ ?d']) simp
qed

text \<open>
  The outcome of a double-buffered frame.  \<open>ts\<close> are the commands of the transfer; when it failed nothing
  else happened; when it succeeded the buffers are swapped and \<open>resource_id\<close> names what was presented.
\<close>

definition frame_outcome :: "u32 \<Rightarrow> u32 \<Rightarrow> disp \<Rightarrow> disp \<Rightarrow> bool" where
  "frame_outcome w h d d' \<longleftrightarrow> (\<exists>ok v ts cs. shown d d' (ts @ cs)
     \<and> transfer_cmds (d_virgl_2d_ready d \<and> \<not> g_virgl_ctx_error (d_gs d) \<and> d_virgl_2d_resource2 d \<noteq> 0)
         (transfer_3d (d_virgl_2d_ctx d) (d_virgl_2d_resource2 d) w h (g_fb_stride (d_gs d)))
         (TransferToHost2D (frame w h) 0 (g_fb_resource_id2 (d_gs d)))
         (g_fb_is_blob (d_gs d) \<and> g_fb_resource_id2 (d_gs d) = g_fb_resource_id (d_gs d)) ok v ts
     \<and> (if ok then buffers d' = (snd (buffers d), fst (buffers d)) \<and> presented (g_resource_id (d_gs d')) w h cs
           \<and> g_resource_id (d_gs d') = (if v then d_virgl_2d_resource2 d else g_fb_resource_id2 (d_gs d))
         else buffers d' = buffers d \<and> g_resource_id (d_gs d') = g_resource_id (d_gs d) \<and> cs = []))"

lemma poisoned_frame:
  assumes "quiet (poison e d) d'"
  shows "buffers d' = buffers d" "d_mem d' = d_mem d" "d_prof_flush_all d' = d_prof_flush_all d"
    "d_virgl_2d_ready d' = d_virgl_2d_ready d" "g_virgl_ctx_error (d_gs d') = (g_virgl_ctx_error (d_gs d) \<or> e)"
    "g_resource_id (d_gs d') = g_resource_id (d_gs d)"
  using quiet_buffers [OF assms] quiet_mem [OF assms] by (simp_all add: poison_def buffers_def virgl_state_def split: if_splits)

definition finish_double :: "env \<Rightarrow> u32 \<Rightarrow> u32 \<Rightarrow> u32 \<Rightarrow> u32 \<Rightarrow> disp \<Rightarrow> disp option" where
  "finish_double env t res w h d = do {
     d \<leftarrow> present_back env res w h d;
     prof_end_flush_all t (w * h * 4) (HOT_STAGE ''flush_all:db:done'' (on_io release_io_lock (HOT_STAGE ''flush_all:db:release_lock'' d))) }"

lemma finish_double_result:
  assumes gs: "gpu_ok env (Suc lk) (d_gs g)" and b: "buffers g = buffers d" and ready: "d_virgl_2d_ready g = d_virgl_2d_ready d"
    and err: "g_virgl_ctx_error (d_gs g) = (g_virgl_ctx_error (d_gs d)
        \<or> (d_virgl_2d_ready d \<and> \<not> g_virgl_ctx_error (d_gs d) \<and> d_virgl_2d_resource2 d \<noteq> 0) \<and> \<not> v)"
    and v: "v \<longrightarrow> d_virgl_2d_ready d \<and> \<not> g_virgl_ctx_error (d_gs d) \<and> d_virgl_2d_resource2 d \<noteq> 0"
    and room: "prof_room (Suc m) (d_prof_flush_all g)"
  shows "\<exists>d' cs. finish_double env t (if v then d_virgl_2d_resource2 d else g_fb_resource_id2 (d_gs d)) w h g = Some d'
     \<and> gpu_ok env lk (d_gs d') \<and> buffers d' = (snd (buffers d), fst (buffers d)) \<and> d_mem d' = d_mem g \<and> shown g d' cs
     \<and> presented (g_resource_id (d_gs d')) w h cs
     \<and> g_resource_id (d_gs d') = (if v then d_virgl_2d_resource2 d else g_fb_resource_id2 (d_gs d))"
proof -
  let ?res = "if v then d_virgl_2d_resource2 d else g_fb_resource_id2 (d_gs d)"
  obtain d1 p cs where p: "present_back env ?res w h g = Some p" "quiet g d1" "p = chip_swap_buffers d1" "gpu_ok env (Suc lk) (d_gs p)"
    "shown g p cs" "presented ?res w h cs"
    using present_back_result [OF gs, of ?res w h] by blast
  have q: "buffers d1 = buffers d" "d_virgl_2d_ready d1 = d_virgl_2d_ready d" "g_virgl_ctx_error (d_gs d1) = g_virgl_ctx_error (d_gs g)"
    "d_virgl_2d_resource2 d1 = d_virgl_2d_resource2 d" "g_fb_resource_id2 (d_gs d1) = g_fb_resource_id2 (d_gs d)" "d_mem d1 = d_mem g"
    using quiet_buffers [OF p(2)] quiet_mem [OF p(2)] b ready by (simp_all add: virgl_state_def buffers_def)
  have res: "g_resource_id (d_gs p) = ?res" using v unfolding p(3) swap_buffers_result q err by auto
  have pb: "buffers p = (snd (buffers d), fst (buffers d))" "d_mem p = d_mem g" "prof_room (Suc m) (d_prof_flush_all p)"
    using room quiet_mem(3) [OF p(2)] unfolding p(3) by (simp_all add: swap_buffers_result q)
  obtain d2 d' where e: "prof_end_flush_all t (w * h * 4)
      (HOT_STAGE ''flush_all:db:done'' (on_io release_io_lock (HOT_STAGE ''flush_all:db:release_lock'' p))) = Some d'"
    "quiet p d2" "gpu_ok env lk (d_gs d')" "shown p d' []" "d_gs d' = d_gs d2" "buffers d' = buffers d2" "d_mem d' = d_mem d2"
    using flush_end [OF p(4) pb(3)] by blast
  have "g_resource_id (d_gs d') = ?res" using quiet_buffers(2) [OF e(2)] res e(5) by (simp add: virgl_state_def)
  moreover have "shown g d' cs" using shown_trans [OF p(5) e(4)] by simp
  ultimately show ?thesis using p(1,6) e pb quiet_buffers(1) [OF e(2)] quiet_mem(1) [OF e(2)]
    by (intro exI [of _ d'] exI [of _ cs]) (simp add: finish_double_def)
qed

lemma flush_double_result:
  assumes gs: "gpu_ok env lk (d_gs d)" and cv: "convert_ok (d_fb_mem2 d) d" "visible_w d \<noteq> 0" "visible_h d \<noteq> 0"
    and room: "prof_room (Suc n) (d_prof_convert d)" "prof_room (Suc m) (d_prof_flush_all d)"
  shows "\<exists>d'. flush_double env t (visible_w d) (visible_h d) d = Some d' \<and> gpu_ok env lk (d_gs d')
     \<and> paints (picture d (d_fb_mem2 d)) (frame_bytes (d_fb_mem2 d) d) (d_mem d) (d_mem d')
     \<and> frame_outcome (visible_w d) (visible_h d) d d'"
proof -
  let ?w = "visible_w d" and ?h = "visible_h d" and ?b = "d_fb_mem2 d"
  let ?r3 = "d_virgl_2d_resource2 d" and ?r2 = "g_fb_resource_id2 (d_gs d)"
  let ?uv = "d_virgl_2d_ready d \<and> \<not> g_virgl_ctx_error (d_gs d) \<and> ?r3 \<noteq> 0"
  let ?a = "HOT_STAGE ''flush_all:db:convert'' d"
  have a: "gpu_ok env lk (d_gs ?a)" "quiet d ?a" "shown d ?a []"
    using stage_ok [of env lk d "''flush_all:db:convert''"] gs by (simp_all add: step_ok_def)
  note qa = quiet_convert [OF a(2)]
  obtain e where e: "chip_convert_rect ?b 0 0 ?w ?h ?a = Some e" "converted ?a e" "paints (picture d ?b) (frame_bytes ?b ?a) (d_mem d) (d_mem e)"
    using convert_frame [of ?b ?a] cv room(1) by (auto simp: qa quiet_mem [OF a(2)])
  have fb: "frame_bytes ?b ?a = frame_bytes ?b d" using quiet_buffers(2) [OF a(2)] by (simp add: frame_bytes_def qa virgl_state_def)
  have e': "gpu_ok env lk (d_gs e)" "shown d e []" using a(1,3) converted_frame(1) [OF e(2)] by (simp_all add: shown_def)
  have eb: "buffers e = buffers d" "virgl_state e = virgl_state d" "d_prof_flush_all e = d_prof_flush_all d"
    using converted_frame [OF e(2)] quiet_buffers [OF a(2)] quiet_mem [OF a(2)] by simp_all
  let ?f = "HOT_STAGE ''flush_all:db:transfer'' (on_io obtain_io_lock (HOT_STAGE ''flush_all:db:obtain_lock'' e))"
  have "step_ok env lk e (Suc lk) ?f ([] @ [] @ [])" by (rule step_trans [OF stage_ok step_trans [OF obtain_ok stage_ok]])
  then have f: "gpu_ok env (Suc lk) (d_gs ?f)" "quiet e ?f" "shown e ?f []" using e'(1) by (simp_all add: step_ok_def)
  have fbuf: "buffers ?f = buffers d" "virgl_state ?f = virgl_state d" "d_mem ?f = d_mem e" "d_prof_flush_all ?f = d_prof_flush_all d"
    using quiet_buffers [OF f(2)] quiet_mem [OF f(2)] eb by simp_all
  then have fv: "d_virgl_2d_ctx ?f = d_virgl_2d_ctx d" "g_fb_stride (d_gs ?f) = g_fb_stride (d_gs d)"
    "g_fb_is_blob (d_gs ?f) = g_fb_is_blob (d_gs d)" "g_fb_resource_id (d_gs ?f) = g_fb_resource_id (d_gs d)"
    by (simp_all add: buffers_def virgl_state_def)
  obtain ok v g ts where g: "flush_transfer env ?uv ?r3 ?r2 ?w ?h ?f = Some (ok, v, g)" "gpu_ok env (Suc lk) (d_gs g)"
    "quiet (poison (?uv \<and> \<not> v) ?f) g" "shown ?f g ts"
    "transfer_cmds ?uv (transfer_3d (d_virgl_2d_ctx d) ?r3 ?w ?h (g_fb_stride (d_gs d))) (TransferToHost2D (frame ?w ?h) 0 ?r2)
         (g_fb_is_blob (d_gs d) \<and> ?r2 = g_fb_resource_id (d_gs d)) ok v ts"
    using flush_transfer_result [OF f(1), of ?uv ?r3 ?r2 ?w ?h] unfolding fv by blast
  have gd: "shown d g ts" using shown_trans [OF e'(2) shown_trans [OF f(3) g(4)]] by simp
  have gb: "buffers g = buffers d" "d_mem g = d_mem e" "d_prof_flush_all g = d_prof_flush_all d" "d_virgl_2d_ready g = d_virgl_2d_ready d"
    "g_virgl_ctx_error (d_gs g) = (g_virgl_ctx_error (d_gs d) \<or> ?uv \<and> \<not> v)" "g_resource_id (d_gs g) = g_resource_id (d_gs d)"
    using poisoned_frame [OF g(3)] fbuf by (simp_all add: virgl_state_def)
  show ?thesis
  proof (cases ok)
    case False
    let ?d' = "on_io release_io_lock g"
    have st: "step_ok env (Suc lk) g lk ?d' []" by (rule release_ok)
    then have q: "quiet g ?d'" "gpu_ok env lk (d_gs ?d')" "shown g ?d' []" using g(2) by (simp_all add: step_ok_def)
    have "flush_double env t ?w ?h d = Some ?d'" using e(1) g(1) False fv by (simp add: flush_double_def Let_def)
    moreover have "buffers ?d' = buffers d" "g_resource_id (d_gs ?d') = g_resource_id (d_gs d)" "d_mem ?d' = d_mem e"
      using quiet_buffers [OF q(1)] quiet_mem [OF q(1)] gb by (simp_all add: virgl_state_def)
    moreover have "shown d ?d' (ts @ [])" by (rule shown_trans [OF gd q(3)])
    ultimately show ?thesis using q(2) e(3) g(5) False unfolding fb frame_outcome_def
      by (intro exI [of _ ?d'] conjI exI [of _ False] exI [of _ v] exI [of _ ts] exI [of _ "[]"]) simp_all
  next
    case True
    have v: "v \<longrightarrow> ?uv" using g(5) by (auto simp: transfer_cmds_def split: if_splits)
    have room': "prof_room (Suc m) (d_prof_flush_all g)" using room(2) gb(3) by simp
    obtain d' cs where d': "finish_double env t (if v then ?r3 else ?r2) ?w ?h g = Some d'" "gpu_ok env lk (d_gs d')"
      "buffers d' = (snd (buffers d), fst (buffers d))" "d_mem d' = d_mem g" "shown g d' cs" "presented (g_resource_id (d_gs d')) ?w ?h cs"
      "g_resource_id (d_gs d') = (if v then ?r3 else ?r2)"
      using finish_double_result [OF g(2) gb(1,4,5) v room'] by blast
    have "flush_double env t ?w ?h d = Some d'" using e(1) g(1) True d'(1) by (simp add: flush_double_def finish_double_def Let_def)
    moreover have "shown d d' (ts @ cs)" by (rule shown_trans [OF gd d'(5)])
    ultimately show ?thesis using d' e(3) g(5) True gb(2) unfolding fb frame_outcome_def
      by (intro exI [of _ d'] conjI exI [of _ True] exI [of _ v] exI [of _ ts] exI [of _ cs]) simp_all
  qed
qed

lemma flush_all_double:
  assumes gs: "gpu_ok env lk (d_gs d)" and db: "d_double_buffer d" "d_fb_mem2 d \<noteq> 0" "g_fb_mem (d_gs d) \<noteq> 0"
    and cv: "convert_ok (d_fb_mem2 d) d" "visible_w d \<noteq> 0" "visible_h d \<noteq> 0"
    and room: "prof_room (Suc n) (d_prof_convert d)" "prof_room (Suc m) (d_prof_flush_all d)"
  shows "\<exists>d'. chip_flush_all env d = Some d' \<and> gpu_ok env lk (d_gs d')
     \<and> paints (picture d (d_fb_mem2 d)) (frame_bytes (d_fb_mem2 d) d) (d_mem d) (d_mem d')
     \<and> frame_outcome (visible_w d) (visible_h d) d d'"
proof -
  obtain t c where t: "prof_begin d = (t, d\<lparr>d_eclock := c\<rparr>)" using prof_begin_frame by blast
  let ?a = "d\<lparr>d_eclock := c\<rparr>" and ?s = "HOT_STAGE ''flush_all:start'' (d\<lparr>d_eclock := c\<rparr>)"
  have a: "gpu_ok env lk (d_gs ?s)" "quiet ?a ?s" "shown ?a ?s []"
    using stage_ok [of env lk ?a "''flush_all:start''"] gs by (simp_all add: step_ok_def)
  have q: "convert_ok m ?s = convert_ok m d" "picture ?s = picture d" "visible_w ?s = visible_w d" "visible_h ?s = visible_h d" for m
    using quiet_convert [OF a(2)] by simp_all
  have b: "buffers ?s = buffers d" "virgl_state ?s = virgl_state d" "d_mem ?s = d_mem d" "d_prof_convert ?s = d_prof_convert d"
    "d_prof_flush_all ?s = d_prof_flush_all d"
    using quiet_buffers [OF a(2)] quiet_mem [OF a(2)] by simp_all
  then have f: "d_fb_mem2 ?s = d_fb_mem2 d" "d_virgl_2d_ready ?s = d_virgl_2d_ready d" "g_virgl_ctx_error (d_gs ?s) = g_virgl_ctx_error (d_gs d)"
    "d_virgl_2d_resource2 ?s = d_virgl_2d_resource2 d" "d_virgl_2d_ctx ?s = d_virgl_2d_ctx d" "g_fb_stride (d_gs ?s) = g_fb_stride (d_gs d)"
    "g_fb_resource_id2 (d_gs ?s) = g_fb_resource_id2 (d_gs d)" "g_fb_resource_id (d_gs ?s) = g_fb_resource_id (d_gs d)"
    "g_fb_is_blob (d_gs ?s) = g_fb_is_blob (d_gs d)" "g_resource_id (d_gs ?s) = g_resource_id (d_gs d)"
    by (simp_all add: buffers_def virgl_state_def)
  have sh: "shown ?s d' cs \<Longrightarrow> shown d d' cs" for d' cs using a(3) by (auto simp: shown_def)
  obtain d' where d': "flush_double env t (visible_w d) (visible_h d) ?s = Some d'" "gpu_ok env lk (d_gs d')"
    "paints (picture d (d_fb_mem2 d)) (frame_bytes (d_fb_mem2 d) d) (d_mem d) (d_mem d')" "frame_outcome (visible_w d) (visible_h d) ?s d'"
    using flush_double_result [OF a(1), of n m t] cv room by (auto simp: q f b frame_bytes_def)
  have "frame_outcome (visible_w d) (visible_h d) d d'"
    using d'(4) sh unfolding frame_outcome_def f b by blast
  moreover have "d_double_buffer ?s" using db(1) by (simp add: HOT_STAGE_def on_io_def)
  then have "chip_flush_all env d = Some d'" using t d'(1) db cv f(1) by (simp add: chip_flush_all_def Let_def)
  ultimately show ?thesis using d'(2,3) by blast
qed

section \<open>Waking the flush task\<close>

text \<open>A dirty rectangle wakes the flush task exactly if one of its pixels is visible.\<close>

definition rect_visible :: "u16 \<Rightarrow> u16 \<Rightarrow> u16 \<Rightarrow> u16 \<Rightarrow> disp \<Rightarrow> bool" where
  "rect_visible x y w h d \<longleftrightarrow> (\<exists>px py. 0 \<le> px \<and> px < int (unat (visible_w d)) \<and> 0 \<le> py \<and> py < int (unat (visible_h d))
     \<and> sint x \<le> px \<and> px < sint x + uint w \<and> sint y \<le> py \<and> py < sint y + uint h)"

lemma interval_meets: "(\<exists>p. 0 \<le> p \<and> p < m \<and> a \<le> p \<and> p < b) \<longleftrightarrow> (if a < 0 then 0 else a) < (if b > m then m else b)" for a b m :: int
proof
  assume "(if a < 0 then 0 else a) < (if b > m then m else b)"
  then show "\<exists>p. 0 \<le> p \<and> p < m \<and> a \<le> p \<and> p < b"
    by (intro exI [of _ "if a < 0 then 0 else a"]) (auto split: if_splits)
qed auto

lemma sint31: "unat (m :: u32) < 2 ^ 31 \<Longrightarrow> sint m = int (unat m)"
proof -
  assume a: "unat m < 2 ^ 31"
  have u: "uint m = int (unat m)" by simp
  have "sint m = signed_take_bit 31 (int (unat m))" unfolding u [symmetric] by (simp only: sint_uint) simp
  also have "\<dots> = int (unat m)"
  proof (rule signed_take_bit_int_eq_self)
    show "- (2 ^ 31) \<le> int (unat m)" by (rule order_trans [of _ 0]) (simp, rule of_nat_0_le_iff)
    show "int (unat m) < 2 ^ 31" using a by (simp only: of_nat_less_iff [symmetric, where 'a = int] of_nat_power of_nat_numeral)
  qed
  finally show ?thesis .
qed

lemma chip_flush_result:
  assumes "unat (visible_w d) < 2 ^ 31" "unat (visible_h d) < 2 ^ 31" "g_fb_mem (d_gs d) \<noteq> 0"
  shows "chip_flush x y w h d = (if rect_visible x y w h d then chip_flush_signal_activity d else d)"
proof -
  note s = sint31
  have "rect_visible x y w h d \<longleftrightarrow> (\<exists>p. 0 \<le> p \<and> p < sint (visible_w d) \<and> sint x \<le> p \<and> p < sint x + uint w)
      \<and> (\<exists>p. 0 \<le> p \<and> p < sint (visible_h d) \<and> sint y \<le> p \<and> p < sint y + uint h)"
    unfolding rect_visible_def s [OF assms(1)] s [OF assms(2)] by blast
  then show ?thesis using assms(3) unfolding interval_meets
    by (simp only: chip_flush_def Let_def if_False linorder_not_le [symmetric] if_not_P) auto
qed

end
