(* ===== verification/Blit_Correct.thy ===== *)
theory Blit_Correct
  imports Blit Blit_Memory_Correct Flush_Correct
begin

text \<open>
  The drawing callbacks at the level of rectangles: a fill stores the pixel image in every pixel of
  its rectangle, an inversion complements every byte, and \<open>chip_BlitRect\<close> is a simultaneous copy
  also when the two rectangles overlap.
\<close>

section \<open>Rectangles of pixels\<close>

lemma sint16_small: "unat (v :: u16) < 2 ^ 15 \<Longrightarrow> sint v = int (unat v)"
proof -
  assume a: "unat v < 2 ^ 15"
  have u: "uint v = int (unat v)" by simp
  have "sint v = signed_take_bit 15 (int (unat v))" unfolding u [symmetric] by (simp only: sint_uint) simp
  also have "\<dots> = int (unat v)"
  proof (rule signed_take_bit_int_eq_self)
    show "- (2 ^ 15) \<le> int (unat v)" by (rule order_trans [of _ 0]) (simp, rule of_nat_0_le_iff)
    show "int (unat v) < 2 ^ 15" using a by (simp only: of_nat_less_iff [symmetric, where 'a = int] of_nat_power of_nat_numeral)
  qed
  finally show ?thesis .
qed

lemma unat_scast16:
  assumes "unat (x :: u16) < 2 ^ 15"
  shows "unat (scast x :: u32) = unat x"
proof -
  have "(scast x :: u32) = of_nat (unat x)" using sint16_small [OF assms] by (simp add: scast_eq)
  then show ?thesis using assms by (simp add: unat_of_nat)
qed

text \<open>The rectangle, in pixels of \<open>k\<close> bytes, lies in the bitmap and the bitmap in memory.\<close>

definition pixels_in :: "RenderInfo \<Rightarrow> nat \<Rightarrow> u16 \<Rightarrow> u16 \<Rightarrow> u16 \<Rightarrow> u16 \<Rightarrow> bytes \<Rightarrow> bool" where
  "pixels_in ri k x y w h m \<longleftrightarrow> unat x < 2 ^ 15 \<and> unat y < 2 ^ 15 \<and> (unat x + unat w) * k \<le> unat (ri_BytesPerRow ri)
     \<and> unat (ri_Memory ri) + (unat y + unat h) * unat (ri_BytesPerRow ri) \<le> length m \<and> length m \<le> 2 ^ 32"

definition pixel_at :: "RenderInfo \<Rightarrow> nat \<Rightarrow> nat \<Rightarrow> nat \<Rightarrow> nat" where
  "pixel_at ri k x y = unat (ri_Memory ri) + y * unat (ri_BytesPerRow ri) + x * k"

lemma pixels_in_row:
  assumes "pixels_in ri k x y w h m" "row < unat h"
  shows "pixel_at ri k (unat x) (unat y) + row * unat (ri_BytesPerRow ri) + unat w * k \<le> length m"
proof -
  have "Suc (unat y + row) * unat (ri_BytesPerRow ri) \<le> (unat y + unat h) * unat (ri_BytesPerRow ri)"
    using assms(2) by (intro mult_right_mono) simp_all
  then show ?thesis using assms(1) by (simp add: pixels_in_def pixel_at_def algebra_simps)
qed

lemma pixel_ptr_at:
  assumes "pixels_in ri (unat bpp) x y w h m" "0 < unat w" "0 < unat h" "0 < unat bpp"
  shows "unat (pixel_ptr (ri_Memory ri) (ucast (ri_BytesPerRow ri)) bpp x y) = pixel_at ri (unat bpp) (unat x) (unat y)"
proof -
  have small: "pixel_at ri (unat bpp) (unat x) (unat y) < 2 ^ 32"
  proof -
    have "0 < unat w * unat bpp" using assms(2,4) by simp
    then show ?thesis using pixels_in_row [OF assms(1,3)] assms(1) unfolding pixels_in_def by linarith
  qed
  have y: "unat (scast y * ucast (ri_BytesPerRow ri) :: u32) = unat y * unat (ri_BytesPerRow ri)"
    using assms(1) small by (subst unat_mult_u32) (simp_all add: unat_scast16 pixels_in_def pixel_at_def)
  have x: "unat (scast x * ucast bpp :: u32) = unat x * unat bpp"
    using assms(1) small by (subst unat_mult_u32) (simp_all add: unat_scast16 pixels_in_def pixel_at_def)
  have "unat (ri_Memory ri + scast y * ucast (ri_BytesPerRow ri)) = unat (ri_Memory ri) + unat y * unat (ri_BytesPerRow ri)"
    using small by (subst unat_add_u32) (simp_all add: y pixel_at_def)
  then show ?thesis using small unfolding pixel_ptr_def by (subst unat_add_u32) (simp_all add: x pixel_at_def)
qed

text \<open>Where the rows of such a rectangle start.\<close>

lemma row_ptr:
  assumes "unat (p :: u32) + row * unat (stride :: u16) + n \<le> length (m :: bytes)" "length m \<le> 2 ^ 32" "0 < n" "n \<le> unat stride"
  shows "unat (p + of_nat row * ucast stride) = unat p + row * unat stride"
proof -
  have "unat p + row * unat stride < 4294967296" using assms by simp
  then show ?thesis using unat_row_addr [of p row "ucast stride"] assms(3,4) by simp
qed

lemma rows_paint:
  assumes row: "\<And>p m1. unat p + n \<le> length m1 \<Longrightarrow> length m1 \<le> 2 ^ 32 \<Longrightarrow> \<exists>m'. f p m1 = Some m' \<and> paints F {unat p..<unat p + n} m1 m'"
    and fits: "\<And>row. row < h \<Longrightarrow> unat (p :: u32) + row * unat (stride :: u16) + n \<le> length m" "length m \<le> 2 ^ 32" "0 < n" "n \<le> unat stride"
  shows "\<exists>m'. foldM (\<lambda>row. f (p + of_nat row * ucast stride)) [0..<h] m = Some m' \<and> paints F (rect_bytes (unat p) (unat stride) n h) m m'"
proof (rule paints_rows [where R = "{}" and ?m0.0 = m])
  fix r m1 assume "r < h" "agrees {} m m1"
  then have l: "length m1 = length m" and f: "unat p + r * unat stride + n \<le> length m" using fits(1) by (simp_all add: agrees_length)
  have a: "unat (p + of_nat r * ucast stride) = unat p + r * unat stride" using f fits(2-4) by (rule row_ptr)
  show "\<exists>m'. f (p + of_nat r * ucast stride) m1 = Some m' \<and> paints F {unat p + r * unat stride..<unat p + r * unat stride + n} m1 m'"
    using row [of "p + of_nat r * ucast stride" m1] f fits(2) by (simp add: a l)
qed (use fits in \<open>auto simp: agrees_refl\<close>)

lemma unat_row_bytes: "unat (w :: u16) * unat (bpp :: u16) \<le> unat (s :: u16) \<Longrightarrow> unat (ucast w * ucast bpp :: u32) = unat w * unat bpp"
proof -
  assume a: "unat w * unat bpp \<le> unat s"
  have "unat s < 2 ^ LENGTH(16)" by (rule unsigned_less)
  then show ?thesis using a by (subst unat_mult_u32) simp_all
qed

section \<open>Fills\<close>

definition pixel_image :: "RGBFTYPE \<Rightarrow> u32 \<Rightarrow> bytes" where
  "pixel_image format color = (if format = RGBFB_CLUT then [ucast color]
     else if chip_format_bpp format = 2 then be16 (ucast color) else be32 color)"

lemma length_pixel_image: "chip_format_bpp format \<noteq> 3 \<Longrightarrow> length (pixel_image format color) = unat (chip_format_bpp format)"
  by (cases format) (simp_all add: pixel_image_def)

text \<open>The picture of a fill: the pixel image, repeated.\<close>

definition filled :: "nat \<Rightarrow> nat \<Rightarrow> bytes \<Rightarrow> nat \<Rightarrow> u8 \<Rightarrow> u8" where
  "filled base stride img a old = img ! ((a - base) mod stride mod length img)"

lemma filled_at:
  assumes "col * length img + i < stride" "i < length img"
  shows "filled base stride img (base + row * stride + (col * length img + i)) old = img ! i"
proof -
  have "(row * stride + (col * length img + i)) mod stride = col * length img + i" using assms(1) by simp
  then show ?thesis using assms(2) by (simp add: filled_def)
qed

lemma fill_pixels:
  assumes store: "\<And>p m1. unat p + length img \<le> length m1 \<Longrightarrow> st p m1 = Some (stbytes (unat p) img m1)"
    and img: "0 < length img" "of_nat (length img) = (k :: u32)" "unat k = length img"
    and fits: "\<And>row. row < h \<Longrightarrow> unat p + row * unat (stride :: u16) + w * length img \<le> length m" "length m \<le> 2 ^ 32"
      "0 < w" "w * length img \<le> unat stride"
  shows "\<exists>m'. foldM (\<lambda>row. foldM (\<lambda>col. st (p + of_nat row * ucast stride + of_nat col * k)) [0..<w]) [0..<h] m = Some m'
    \<and> paints (filled (unat p) (unat stride) img) (rect_bytes (unat p) (unat stride) (w * length img) h) m m'"
proof (rule paints_rows [where R = "{}" and ?m0.0 = m])
  let ?F = "filled (unat p) (unat stride) img"
  fix r m1 assume r: "r < h" and "agrees {} m m1"
  then have l: "length m1 = length m" by (simp add: agrees_length)
  have n: "0 < w * length img" using img(1) fits(3) by simp
  have a: "unat (p + of_nat r * ucast stride) = unat p + r * unat stride" using fits(1) [OF r] fits(2) n fits(4) by (rule row_ptr)
  show "\<exists>m'. foldM (\<lambda>col. st (p + of_nat r * ucast stride + of_nat col * k)) [0..<w] m1 = Some m'
      \<and> paints ?F {unat p + r * unat stride..<unat p + r * unat stride + w * length img} m1 m'"
  proof (rule paints_pixels [where R = "{}" and ?m0.0 = m1])
    fix col m2 assume col: "col < w" and "agrees {} m1 m2"
    then have l2: "length m2 = length m" by (simp add: agrees_length l)
    have "Suc col * length img \<le> w * length img" using col by (intro mult_right_mono) simp_all
    then have c: "col * length img + length img \<le> w * length img" by simp
    have b: "unat p + r * unat stride + col * length img + length img \<le> length m" using c fits(1) [OF r] by linarith
    have "length m \<le> 4294967296" using fits(2) by simp
    then have "unat (p + of_nat r * ucast stride) + col * unat k < 4294967296" using b img(1) unfolding a img(3) by linarith
    then have a2: "unat (p + of_nat r * ucast stride + of_nat col * k) = unat p + r * unat stride + col * length img"
      using unat_row_addr [of "p + of_nat r * ucast stride" col k] a img(1,3) by simp
    have "paints ?F {unat p + r * unat stride + col * length img..<unat p + r * unat stride + col * length img + length img} m2
        (stbytes (unat p + r * unat stride + col * length img) img m2)"
    proof (rule paints_stbytes)
      fix i assume i: "i < length img"
      then have "col * length img + i < unat stride" using c fits(4) by linarith
      then show "?F (unat p + r * unat stride + col * length img + i) (m2 ! (unat p + r * unat stride + col * length img + i)) = img ! i"
        using filled_at [OF _ i, of col "unat stride" "unat p" r] by (simp add: add.assoc)
    qed (use b l2 in simp)
    then show "\<exists>m'. st (p + of_nat r * ucast stride + of_nat col * k) m2 = Some m'
        \<and> paints ?F {unat p + r * unat stride + col * length img..<unat p + r * unat stride + col * length img + length img} m2 m'"
      using store [of "p + of_nat r * ucast stride + of_nat col * k" m2] b l2 by (simp add: a2)
  qed (use img in \<open>auto simp: agrees_refl\<close>)
qed (use fits in \<open>auto simp: agrees_refl\<close>)

lemma fill_rows_paints:
  assumes ok: "pixels_in ri (unat (chip_format_bpp format)) x y w h m" and nz: "w \<noteq> 0" "h \<noteq> 0" and k: "chip_format_bpp format \<noteq> 3"
  shows "\<exists>m'. fill_rows ri x y w h color format m = Some m'
    \<and> paints (filled (pixel_at ri (unat (chip_format_bpp format)) (unat x) (unat y)) (unat (ri_BytesPerRow ri)) (pixel_image format color))
        (rect_bytes (pixel_at ri (unat (chip_format_bpp format)) (unat x) (unat y)) (unat (ri_BytesPerRow ri))
          (unat w * unat (chip_format_bpp format)) (unat h)) m m'"
proof -
  let ?bpp = "chip_format_bpp format" and ?s = "ri_BytesPerRow ri"
  let ?p = "pixel_ptr (ri_Memory ri) (ucast ?s) ?bpp x y"
  have pos: "0 < unat w" "0 < unat h" "0 < unat ?bpp" using nz bpp_cases [of format] by (auto simp: unat_gt_0)
  note p = pixel_ptr_at [OF ok pos]
  have len: "length m \<le> 2 ^ 32" and ws: "unat w * unat ?bpp \<le> unat ?s" using ok by (auto simp: pixels_in_def algebra_simps)
  have fits: "row < unat h \<Longrightarrow> unat ?p + row * unat ?s + unat w * unat ?bpp \<le> length m" for row
    using pixels_in_row [OF ok, of row] by (simp add: p)
  consider "format = RGBFB_CLUT" | "format \<noteq> RGBFB_CLUT" "?bpp = 2" | "format \<noteq> RGBFB_CLUT" "?bpp = 4"
    using k bpp_cases [of format] by (cases format) auto
  then show ?thesis
  proof cases
    case 1
    have w0: "(ucast w :: u32) \<noteq> 0"
    proof
      assume e: "(ucast w :: u32) = 0"
      have "unat w = unat (ucast w :: u32)" by (rule unat_ucast_up32 [symmetric])
      then show False using pos(1) by (simp only: e unat_0 less_irrefl)
    qed
    have "\<exists>m'. foldM (\<lambda>row. chip_lfill (?p + of_nat row * ucast ?s) (ucast w) (broadcast (ucast color))) [0..<unat h] m = Some m'
        \<and> paints (\<lambda>_ _. ucast color) (rect_bytes (unat ?p) (unat ?s) (unat w) (unat h)) m m'"
      by (rule rows_paint [where f = "\<lambda>p. chip_lfill p (ucast w) (broadcast (ucast color))"])
        (use 1 fits len ws pos chip_lfill_paints [where n = "ucast w"] in auto)
    then obtain m' where m': "foldM (\<lambda>row. chip_lfill (?p + of_nat row * ucast ?s) (ucast w) (broadcast (ucast color))) [0..<unat h] m = Some m'"
      "paints (\<lambda>_ _. ucast color) (rect_bytes (unat ?p) (unat ?s) (unat w) (unat h)) m m'" by blast
    have "paints (filled (unat ?p) (unat ?s) [ucast color]) (rect_bytes (unat ?p) (unat ?s) (unat w) (unat h)) m m'"
      by (rule paints_cong [OF m'(2)]) (simp add: filled_def)
    then show ?thesis using m'(1) 1 nz w0 by (simp add: fill_rows_def Let_def chip_fill_rect_bytes_def pixel_image_def p [unfolded 1, simplified])
  next
    case 2
    have "\<exists>m'. foldM (\<lambda>row. foldM (\<lambda>col. st16 (?p + of_nat row * ucast ?s + of_nat col * 2) (ucast color)) [0..<unat w]) [0..<unat h] m = Some m'
      \<and> paints (filled (unat ?p) (unat ?s) (be16 (ucast color))) (rect_bytes (unat ?p) (unat ?s) (unat w * length (be16 (ucast color))) (unat h)) m m'"
      by (rule fill_pixels [where st = "\<lambda>p. st16 p (ucast color)"]) (use 2 fits len ws pos in \<open>auto simp: st16_def cpu_st_in\<close>)
    then show ?thesis using 2 p by (simp add: fill_rows_def Let_def pixel_image_def)
  next
    case 3
    have "\<exists>m'. foldM (\<lambda>row. foldM (\<lambda>col. sto32 (?p + of_nat row * ucast ?s + of_nat col * 4) color) [0..<unat w]) [0..<unat h] m = Some m'
      \<and> paints (filled (unat ?p) (unat ?s) (be32 color)) (rect_bytes (unat ?p) (unat ?s) (unat w * length (be32 color)) (unat h)) m m'"
      by (rule fill_pixels [where st = "\<lambda>p. sto32 p color"]) (use 3 fits len ws pos in \<open>auto simp: sto32_def cpu_st_in\<close>)
    then show ?thesis using 3 p by (simp add: fill_rows_def Let_def pixel_image_def)
  qed
qed

section \<open>Inversion and copies\<close>

lemma invert_rows_paint:
  assumes ok: "pixels_in ri (unat (chip_format_bpp format)) x y w h m" and nz: "w \<noteq> 0" "h \<noteq> 0"
  shows "\<exists>m'. chip_xor_rect_with_const (pixel_ptr (ri_Memory ri) (ucast (ri_BytesPerRow ri)) (chip_format_bpp format) x y)
        (ucast (ri_BytesPerRow ri)) (ucast w * ucast (chip_format_bpp format)) h m = Some m'
    \<and> paints inverted (rect_bytes (pixel_at ri (unat (chip_format_bpp format)) (unat x) (unat y)) (unat (ri_BytesPerRow ri))
        (unat w * unat (chip_format_bpp format)) (unat h)) m m'"
proof -
  let ?bpp = "chip_format_bpp format" and ?s = "ri_BytesPerRow ri"
  let ?p = "pixel_ptr (ri_Memory ri) (ucast ?s) ?bpp x y"
  have pos: "0 < unat w" "0 < unat h" "0 < unat ?bpp" using nz bpp_cases [of format] by (auto simp: unat_gt_0)
  have ws: "unat w * unat ?bpp \<le> unat ?s" using ok by (auto simp: pixels_in_def algebra_simps)
  note n = unat_row_bytes [OF ws] and p = pixel_ptr_at [OF ok pos]
  have "\<exists>m'. foldM (\<lambda>row. xor_row_const (?p + of_nat row * ucast ?s) (ucast w * ucast ?bpp)) [0..<unat h] m = Some m'
      \<and> paints inverted (rect_bytes (unat ?p) (unat ?s) (unat w * unat ?bpp) (unat h)) m m'"
  proof (rule rows_paint [where f = "\<lambda>p. xor_row_const p (ucast w * ucast ?bpp)"])
    fix p :: u32 and m1 :: bytes assume "unat p + unat w * unat ?bpp \<le> length m1" "length m1 \<le> 2 ^ 32"
    then show "\<exists>m'. xor_row_const p (ucast w * ucast ?bpp) m1 = Some m' \<and> paints inverted {unat p..<unat p + unat w * unat ?bpp} m1 m'"
      using xor_row_const_paints [of p "ucast w * ucast ?bpp" m1] by (simp only: n)
  next
    fix row assume "row < unat h"
    then show "unat ?p + row * unat ?s + unat w * unat ?bpp \<le> length m" using pixels_in_row [OF ok, of row] by (simp add: p)
  qed (use ok ws pos in \<open>auto simp: pixels_in_def\<close>)
  then show ?thesis by (simp add: chip_xor_rect_with_const_def p)
qed

text \<open>
  The documented behaviour of exec.library's copy routines, on regions in memory that do not overlap;
  \<open>CopyMemQuick\<close> also wants addresses and length to be multiples of four.
\<close>

definition copies :: "(u32 \<Rightarrow> u32 \<Rightarrow> u32 \<Rightarrow> bytes \<Rightarrow> bytes option) \<Rightarrow> bool \<Rightarrow> bool" where
  "copies f quick \<longleftrightarrow> (\<forall>s d n m. unat s + unat n \<le> length m \<and> unat d + unat n \<le> length m
     \<and> {unat s..<unat s + unat n} \<inter> {unat d..<unat d + unat n} = {} \<and> (quick \<longrightarrow> (s OR d OR n) AND 3 = 0)
     \<longrightarrow> f s d n m = Some (stbytes (unat d) (take (unat n) (drop (unat s) m)) m))"

definition copier_ok :: "copier \<Rightarrow> bool" where
  "copier_ok ex \<longleftrightarrow> copies (CopyMemQuick ex) True \<and> copies (CopyMem ex) False"

lemma row_copy_paints:
  assumes "copier_ok ex" "unat s + unat n \<le> length m" "unat d + unat n \<le> length m"
    and "{unat s..<unat s + unat n} \<inter> {unat d..<unat d + unat n} = {}"
  shows "\<exists>m'. chip_row_copy ex s d n m = Some m' \<and> paints (source_byte (unat s) (unat d) m) {unat d..<unat d + unat n} m m'"
proof -
  let ?bs = "take (unat n) (drop (unat s) m)"
  have l: "length ?bs = unat n" using assms(2) by simp
  have "chip_row_copy ex s d n m = Some (stbytes (unat d) ?bs m)"
    using assms unfolding chip_row_copy_def copier_ok_def copies_def by (simp split: if_splits)
  moreover have "paints (source_byte (unat s) (unat d) m) {unat d..<unat d + length ?bs} m (stbytes (unat d) ?bs m)"
    by (rule paints_stbytes) (use assms(2,3) l in \<open>auto simp: source_byte_def add.commute\<close>)
  ultimately show ?thesis by (simp only: l) blast
qed

text \<open>
  Rows copied one after the other, the rows \<open>ks\<close> in an order in which no row is overwritten before it
  is read: together, a simultaneous copy.
\<close>

definition copy_order :: "nat \<Rightarrow> nat \<Rightarrow> nat list \<Rightarrow> bool" where
  "copy_order y dy ks \<longleftrightarrow> sorted_wrt (\<lambda>j k. j \<noteq> k \<and> dy + j \<noteq> y + k) ks"

lemma in_line:
  assumes "a \<in> {pixel_at ri k x y + row * s..<pixel_at ri k x y + row * s + n}" "x * k + n \<le> s" "s = unat (ri_BytesPerRow ri)"
  shows "a \<in> {unat (ri_Memory ri) + (y + row) * s..<unat (ri_Memory ri) + (y + row) * s + s}"
  using assms by (auto simp: pixel_at_def algebra_simps)

lemma lines_apart:
  assumes "x * k + n \<le> s" "dx * k + n \<le> s" "s = unat (ri_BytesPerRow ri)" "y + i \<noteq> dy + j"
  shows "{pixel_at ri k x y + i * s..<pixel_at ri k x y + i * s + n} \<inter> {pixel_at ri k dx dy + j * s..<pixel_at ri k dx dy + j * s + n} = {}"
proof -
  let ?L = "\<lambda>r. {unat (ri_Memory ri) + r * s..<unat (ri_Memory ri) + r * s + s}"
  have "?L (y + i) \<inter> ?L (dy + j) = {}" using rows_apart [of s s "y + i" "dy + j"] rows_apart [of s s "dy + j" "y + i"] assms(4)
    by (metis inf_commute linorder_neqE_nat order_refl)
  then show ?thesis using in_line [OF _ assms(1,3)] in_line [OF _ assms(2,3)] by blast
qed

lemma copy_rows_paint:
  assumes mv: "\<And>s d m1. unat s + n \<le> length m1 \<Longrightarrow> unat d + n \<le> length m1 \<Longrightarrow> length m1 \<le> 2 ^ 32 \<Longrightarrow>
        Q (unat s) (unat d) \<Longrightarrow> \<exists>m'. mv s d m1 = Some m' \<and> paints (source_byte (unat s) (unat d) m1) {unat d..<unat d + n} m1 m'"
    and Q: "\<And>r. r < h \<Longrightarrow> Q (pixel_at ri k x y + r * st) (pixel_at ri k dx dy + r * st)"
    and p: "unat (src :: u32) = pixel_at ri k x y" "unat (dst :: u32) = pixel_at ri k dx dy" "st = unat (ri_BytesPerRow ri)"
    and fits: "\<And>r. r < h \<Longrightarrow> pixel_at ri k x y + r * st + n \<le> length m" "\<And>r. r < h \<Longrightarrow> pixel_at ri k dx dy + r * st + n \<le> length m"
      "length m \<le> 2 ^ 32" "0 < n" "x * k + n \<le> st" "dx * k + n \<le> st"
    and ord: "copy_order y dy ks" "set ks = {..<h}"
  shows "\<exists>m'. foldM (\<lambda>row. mv (src + of_nat row * ucast (ri_BytesPerRow ri)) (dst + of_nat row * ucast (ri_BytesPerRow ri))) ks m = Some m'
    \<and> paints (source_byte (pixel_at ri k x y) (pixel_at ri k dx dy) m) (rect_bytes (pixel_at ri k dx dy) st n h) m m'"
proof -
  let ?S = "\<lambda>r. {pixel_at ri k dx dy + r * st..<pixel_at ri k dx dy + r * st + n}"
  let ?R = "\<lambda>r. {pixel_at ri k x y + r * st..<pixel_at ri k x y + r * st + n}"
  let ?F = "source_byte (pixel_at ri k x y) (pixel_at ri k dx dy) m"
  have "\<exists>m'. foldM (\<lambda>row. mv (src + of_nat row * ucast (ri_BytesPerRow ri)) (dst + of_nat row * ucast (ri_BytesPerRow ri))) ks m = Some m'
      \<and> paints ?F (\<Union>r\<in>set ks. ?S r) m m'"
  proof (rule paints_seq [where Rd = ?R])
    fix r m1 assume "r \<in> set ks" and ag: "agrees (?R r) m m1"
    then have r: "r < h" and l: "length m1 = length m" using ord(2) agrees_length by auto
    have nst: "n \<le> st" using fits(5) by simp
    have a: "unat (src + of_nat r * ucast (ri_BytesPerRow ri)) = pixel_at ri k x y + r * st"
      "unat (dst + of_nat r * ucast (ri_BytesPerRow ri)) = pixel_at ri k dx dy + r * st"
      using row_ptr [of src r "ri_BytesPerRow ri" n m] row_ptr [of dst r "ri_BytesPerRow ri" n m] fits(1,2) [OF r] fits(3,4) nst
      by (simp_all only: p)
    obtain m' where m': "mv (src + of_nat r * ucast (ri_BytesPerRow ri)) (dst + of_nat r * ucast (ri_BytesPerRow ri)) m1 = Some m'"
      "paints (source_byte (pixel_at ri k x y + r * st) (pixel_at ri k dx dy + r * st) m1) (?S r) m1 m'"
      using mv [of "src + of_nat r * ucast (ri_BytesPerRow ri)" m1 "dst + of_nat r * ucast (ri_BytesPerRow ri)"]
        fits(1,2) [OF r] fits(3) Q [OF r] unfolding a l by blast
    have "paints ?F (?S r) m1 m'"
    proof (rule paints_cong [OF m'(2)])
      fix b assume b: "b \<in> ?S r"
      then have "b - (pixel_at ri k dx dy + r * st) + (pixel_at ri k x y + r * st) \<in> ?R r" by auto
      then have "m1 ! (b - (pixel_at ri k dx dy + r * st) + (pixel_at ri k x y + r * st))
          = m ! (b - (pixel_at ri k dx dy + r * st) + (pixel_at ri k x y + r * st))"
        using fits(1) [OF r] by (intro agrees_nth [OF ag]) auto
      moreover have "b - (pixel_at ri k dx dy + r * st) + (pixel_at ri k x y + r * st) = b - pixel_at ri k dx dy + pixel_at ri k x y"
        using b by auto
      ultimately show "source_byte (pixel_at ri k x y + r * st) (pixel_at ri k dx dy + r * st) m1 b (m1 ! b) = ?F b (m1 ! b)"
        unfolding source_byte_def by (simp only:)
    qed
    then show "\<exists>m'. mv (src + of_nat r * ucast (ri_BytesPerRow ri)) (dst + of_nat r * ucast (ri_BytesPerRow ri)) m1 = Some m' \<and> paints ?F (?S r) m1 m'"
      using m'(1) by blast
  next
    have "j \<noteq> i \<Longrightarrow> dy + j \<noteq> y + i \<Longrightarrow> ?S j \<inter> ?S i = {} \<and> ?R i \<inter> ?S j = {}" for i j
      using lines_apart [OF fits(6,6) p(3), of dy j dy i] lines_apart [OF fits(5,6) p(3), of y i dy j] by auto
    then show "sorted_wrt (\<lambda>j i. ?S j \<inter> ?S i = {} \<and> ?R i \<inter> ?S j = {}) ks"
      by (intro sorted_wrt_mono_rel [OF _ ord(1) [unfolded copy_order_def]]) blast
  qed
  then show ?thesis by (simp only: ord(2) rect_bytes_def)
qed

lemma copy_orders: "dy \<le> y \<Longrightarrow> copy_order y dy [0..<h]" "y \<le> dy \<Longrightarrow> copy_order y dy (rev [0..<h])"
  unfolding copy_order_def by (auto intro!: sorted_up sorted_down)

lemma sless16: "unat (a :: u16) < 2 ^ 15 \<Longrightarrow> unat b < 2 ^ 15 \<Longrightarrow> a <s b \<longleftrightarrow> unat a < unat b"
  by (simp only: word_sless_alt sint16_small of_nat_less_iff)

lemma blit_rows_paint:
  assumes ex: "copier_ok ex" and nz: "w \<noteq> 0" "h \<noteq> 0"
    and ok: "pixels_in ri (unat (chip_format_bpp (ri_RGBFormat ri))) x y w h m" "pixels_in ri (unat (chip_format_bpp (ri_RGBFormat ri))) dx dy w h m"
  shows "\<exists>m'. blit_rows ex ri x y dx dy w h m = Some m'
    \<and> paints (source_byte (pixel_at ri (unat (chip_format_bpp (ri_RGBFormat ri))) (unat x) (unat y))
          (pixel_at ri (unat (chip_format_bpp (ri_RGBFormat ri))) (unat dx) (unat dy)) m)
        (rect_bytes (pixel_at ri (unat (chip_format_bpp (ri_RGBFormat ri))) (unat dx) (unat dy)) (unat (ri_BytesPerRow ri))
          (unat w * unat (chip_format_bpp (ri_RGBFormat ri))) (unat h)) m m'"
proof -
  let ?bpp = "chip_format_bpp (ri_RGBFormat ri)" and ?s = "ri_BytesPerRow ri"
  let ?n = "unat w * unat ?bpp" and ?nb = "ucast w * ucast ?bpp :: u32"
  let ?src = "pixel_ptr (ri_Memory ri) (ucast ?s) ?bpp x y" and ?dst = "pixel_ptr (ri_Memory ri) (ucast ?s) ?bpp dx dy"
  have pos: "0 < unat w" "0 < unat h" "0 < unat ?bpp" using nz bpp_cases [of "ri_RGBFormat ri"] by (auto simp: unat_gt_0)
  have fit: "unat x * unat ?bpp + ?n \<le> unat ?s" "unat dx * unat ?bpp + ?n \<le> unat ?s" "0 < ?n" "length m \<le> 2 ^ 32"
    using ok pos by (auto simp: pixels_in_def algebra_simps)
  have "?n \<le> unat ?s" using fit(1) by simp
  then have n: "unat ?nb = ?n" by (rule unat_row_bytes)
  note ptr = pixel_ptr_at [OF ok(1) pos] pixel_ptr_at [OF ok(2) pos]
  note rows = pixels_in_row [OF ok(1)] pixels_in_row [OF ok(2)]
  have move: "\<exists>m'. move_row s d ?nb m1 = Some m' \<and> paints (source_byte (unat s) (unat d) m1) {unat d..<unat d + ?n} m1 m'"
    if "unat s + ?n \<le> length m1" "unat d + ?n \<le> length m1" "length m1 \<le> 2 ^ 32" for s d m1
    using move_row_paints [of s ?nb m1 d] that by (simp only: n)
  have s: "dy <s y \<longleftrightarrow> unat dy < unat y" "y <s dy \<longleftrightarrow> unat y < unat dy" using ok by (auto simp: pixels_in_def intro!: sless16)
  let ?goal = "\<lambda>f ks. \<exists>m'. foldM (\<lambda>row. f (?src + of_nat row * ucast ?s) (?dst + of_nat row * ucast ?s)) ks m = Some m'
    \<and> paints (source_byte (pixel_at ri (unat ?bpp) (unat x) (unat y)) (pixel_at ri (unat ?bpp) (unat dx) (unat dy)) m)
        (rect_bytes (pixel_at ri (unat ?bpp) (unat dx) (unat dy)) (unat ?s) ?n (unat h)) m m'"
  have moves: "?goal (\<lambda>s d. move_row s d ?nb) ks" if "copy_order (unat y) (unat dy) ks" "set ks = {..<unat h}" for ks
    by (rule copy_rows_paint [where Q = "\<lambda>_ _. True"]) (use move rows fit ptr that in \<open>auto simp del: unat_ucast_up32\<close>)
  consider "unat dy < unat y" | "unat y < unat dy" | "unat y = unat dy" by linarith
  then show ?thesis
  proof cases
    case 1
    have nb: "?nb \<noteq> 0" using fit(3) n by (metis less_numeral_extra(3) unat_0)
    have "?goal (\<lambda>s d. chip_row_copy ex s d ?nb) [0..<unat h]"
    proof (rule copy_rows_paint [where Q = "\<lambda>s d. {s..<s + ?n} \<inter> {d..<d + ?n} = {}"])
      fix r assume "r < unat h"
      show "{pixel_at ri (unat ?bpp) (unat x) (unat y) + r * unat ?s..<pixel_at ri (unat ?bpp) (unat x) (unat y) + r * unat ?s + ?n}
         \<inter> {pixel_at ri (unat ?bpp) (unat dx) (unat dy) + r * unat ?s..<pixel_at ri (unat ?bpp) (unat dx) (unat dy) + r * unat ?s + ?n} = {}"
        by (rule lines_apart) (use fit 1 in auto)
    next
      fix s d :: u32 and m1 :: bytes
      assume "unat s + ?n \<le> length m1" "unat d + ?n \<le> length m1" "{unat s..<unat s + ?n} \<inter> {unat d..<unat d + ?n} = {}"
      then show "\<exists>m'. chip_row_copy ex s d ?nb m1 = Some m' \<and> paints (source_byte (unat s) (unat d) m1) {unat d..<unat d + ?n} m1 m'"
        using row_copy_paints [OF ex, of s ?nb m1 d] by (simp only: n)
    qed (use rows fit ptr 1 copy_orders(1) in auto)
    then show ?thesis using 1 s nb nz by (simp add: blit_rows_def Let_def chip_copy_rect_def)
  next
    case 2
    have "?goal (\<lambda>s d. move_row s d ?nb) (rev [0..<unat h])" using 2 by (intro moves copy_orders) auto
    then show ?thesis using 2 s by (simp add: blit_rows_def Let_def move_rows_up_def)
  next
    case 3
    have "?goal (\<lambda>s d. move_row s d ?nb) [0..<unat h]" using 3 by (intro moves copy_orders) auto
    then show ?thesis using 3 s by (simp add: blit_rows_def Let_def move_rows_down_def)
  qed
qed

end
