(* ===== verification/Virgl_Encoder.thy ===== *)
theory Virgl_Encoder
  imports Dma_Memory
begin

text \<open>
  The virgl command stream encoder, \<open>src/chip/chip_virgl.c\<close> and \<open>include/virgl/virgl_cmd.h\<close>: a
  command buffer of 32-bit words that the encoders append to, and the encoders themselves in the
  order of the file.  A \<open>float\<close> argument is its IEEE bit pattern, which is all the code emits of
  it.  The result \<^term>\<open>None\<close> stands for an access outside an array.
\<close>

section \<open>The command buffer\<close>

type_synonym f32 = u32
type_synonym f64 = u64

abbreviation F_0 :: f32 where "F_0 \<equiv> 0"
abbreviation F_1 :: f32 where "F_1 \<equiv> 0x3F800000"

record VirglCmdBuf =
  vc_buf :: "u32 list"           \<comment> \<open>the words as the CPU stores them\<close>
  vc_dwords :: u32
  vc_max_dwords :: u32

definition virgl_cmd_init :: "u32 list \<Rightarrow> u32 \<Rightarrow> VirglCmdBuf" where
  "virgl_cmd_init buf max_dwords = \<lparr>vc_buf = buf, vc_dwords = 0, vc_max_dwords = max_dwords\<rparr>"

definition virgl_cmd_reset :: "VirglCmdBuf \<Rightarrow> VirglCmdBuf" where
  "virgl_cmd_reset cbuf = cbuf\<lparr>vc_dwords := 0\<rparr>"

definition VIRGL_CMD_HDR :: "u32 \<Rightarrow> u32 \<Rightarrow> u32 \<Rightarrow> u32" where
  "VIRGL_CMD_HDR cmd obj len = cmd OR push_bit 8 obj OR push_bit 16 len"

definition virgl_emit_dword :: "u32 \<Rightarrow> VirglCmdBuf \<Rightarrow> VirglCmdBuf option" where
  "virgl_emit_dword val cbuf =
     (if vc_dwords cbuf < vc_max_dwords cbuf then do {
        buf \<leftarrow> wr (vc_buf cbuf) (unat (vc_dwords cbuf)) (GP32 val);
        Some (cbuf\<lparr>vc_buf := buf, vc_dwords := vc_dwords cbuf + 1\<rparr>) }
      else Some cbuf)"

definition virgl_emit_float :: "f32 \<Rightarrow> VirglCmdBuf \<Rightarrow> VirglCmdBuf option" where
  "virgl_emit_float val cbuf = virgl_emit_dword val cbuf"

definition virgl_emit_double :: "f64 \<Rightarrow> VirglCmdBuf \<Rightarrow> VirglCmdBuf option" where
  "virgl_emit_double val cbuf = do {
     cbuf \<leftarrow> virgl_emit_dword (ucast (val AND 0xFFFFFFFF)) cbuf;
     virgl_emit_dword (ucast (drop_bit 32 val)) cbuf }"

text \<open>A run of \<open>virgl_emit_dword\<close> calls, and one that reads its words from an array.\<close>

definition emits :: "u32 list \<Rightarrow> VirglCmdBuf \<Rightarrow> VirglCmdBuf option" where
  "emits ws cbuf = foldM virgl_emit_dword ws cbuf"

definition emit_array :: "u32 list \<Rightarrow> u32 \<Rightarrow> VirglCmdBuf \<Rightarrow> VirglCmdBuf option" where
  "emit_array hs n cbuf = foldM (\<lambda>i cbuf. do { h \<leftarrow> rd hs i; virgl_emit_dword h cbuf }) [0..<unat n] cbuf"

section \<open>Command and object codes\<close>

abbreviation CCMD_CREATE_OBJECT :: u32 where "CCMD_CREATE_OBJECT \<equiv> 1"
abbreviation CCMD_BIND_OBJECT :: u32 where "CCMD_BIND_OBJECT \<equiv> 2"
abbreviation CCMD_DESTROY_OBJECT :: u32 where "CCMD_DESTROY_OBJECT \<equiv> 3"
abbreviation CCMD_SET_VIEWPORT_STATE :: u32 where "CCMD_SET_VIEWPORT_STATE \<equiv> 4"
abbreviation CCMD_SET_FRAMEBUFFER_STATE :: u32 where "CCMD_SET_FRAMEBUFFER_STATE \<equiv> 5"
abbreviation CCMD_SET_VERTEX_BUFFERS :: u32 where "CCMD_SET_VERTEX_BUFFERS \<equiv> 6"
abbreviation CCMD_CLEAR :: u32 where "CCMD_CLEAR \<equiv> 7"
abbreviation CCMD_DRAW_VBO :: u32 where "CCMD_DRAW_VBO \<equiv> 8"
abbreviation CCMD_RESOURCE_INLINE_WRITE :: u32 where "CCMD_RESOURCE_INLINE_WRITE \<equiv> 9"
abbreviation CCMD_SET_SAMPLER_VIEWS :: u32 where "CCMD_SET_SAMPLER_VIEWS \<equiv> 10"
abbreviation CCMD_SET_SCISSOR_STATE :: u32 where "CCMD_SET_SCISSOR_STATE \<equiv> 15"
abbreviation CCMD_BLIT :: u32 where "CCMD_BLIT \<equiv> 16"
abbreviation CCMD_BIND_SAMPLER_STATES :: u32 where "CCMD_BIND_SAMPLER_STATES \<equiv> 18"
abbreviation CCMD_SET_SUB_CTX :: u32 where "CCMD_SET_SUB_CTX \<equiv> 28"
abbreviation CCMD_CREATE_SUB_CTX :: u32 where "CCMD_CREATE_SUB_CTX \<equiv> 29"
abbreviation CCMD_BIND_SHADER :: u32 where "CCMD_BIND_SHADER \<equiv> 31"

abbreviation OBJECT_BLEND :: u32 where "OBJECT_BLEND \<equiv> 1"
abbreviation OBJECT_RASTERIZER :: u32 where "OBJECT_RASTERIZER \<equiv> 2"
abbreviation OBJECT_DSA :: u32 where "OBJECT_DSA \<equiv> 3"
abbreviation OBJECT_SHADER :: u32 where "OBJECT_SHADER \<equiv> 4"
abbreviation OBJECT_VERTEX_ELEMENTS :: u32 where "OBJECT_VERTEX_ELEMENTS \<equiv> 5"
abbreviation OBJECT_SAMPLER_VIEW :: u32 where "OBJECT_SAMPLER_VIEW \<equiv> 6"
abbreviation OBJECT_SAMPLER_STATE :: u32 where "OBJECT_SAMPLER_STATE \<equiv> 7"
abbreviation OBJECT_SURFACE :: u32 where "OBJECT_SURFACE \<equiv> 8"

abbreviation PIPE_SHADER_VERTEX :: u32 where "PIPE_SHADER_VERTEX \<equiv> 0"
abbreviation PIPE_SHADER_FRAGMENT :: u32 where "PIPE_SHADER_FRAGMENT \<equiv> 1"

text \<open>The bit fields of a blend word, and the two blends of the defaults.\<close>

definition BLEND_RT_BLEND_ENABLE :: "u32 \<Rightarrow> u32" where "BLEND_RT_BLEND_ENABLE x = x AND 0x1"
definition BLEND_RT_RGB_FUNC :: "u32 \<Rightarrow> u32" where "BLEND_RT_RGB_FUNC x = push_bit 1 (x AND 0x7)"
definition BLEND_RT_RGB_SRC_FACTOR :: "u32 \<Rightarrow> u32" where "BLEND_RT_RGB_SRC_FACTOR x = push_bit 4 (x AND 0x1f)"
definition BLEND_RT_RGB_DST_FACTOR :: "u32 \<Rightarrow> u32" where "BLEND_RT_RGB_DST_FACTOR x = push_bit 9 (x AND 0x1f)"
definition BLEND_RT_ALPHA_FUNC :: "u32 \<Rightarrow> u32" where "BLEND_RT_ALPHA_FUNC x = push_bit 14 (x AND 0x7)"
definition BLEND_RT_ALPHA_SRC_FACTOR :: "u32 \<Rightarrow> u32" where "BLEND_RT_ALPHA_SRC_FACTOR x = push_bit 17 (x AND 0x1f)"
definition BLEND_RT_ALPHA_DST_FACTOR :: "u32 \<Rightarrow> u32" where "BLEND_RT_ALPHA_DST_FACTOR x = push_bit 22 (x AND 0x1f)"
definition BLEND_RT_COLORMASK :: "u32 \<Rightarrow> u32" where "BLEND_RT_COLORMASK x = push_bit 27 (x AND 0xf)"

lemmas blend_rt_defs = BLEND_RT_BLEND_ENABLE_def BLEND_RT_RGB_FUNC_def BLEND_RT_RGB_SRC_FACTOR_def
  BLEND_RT_RGB_DST_FACTOR_def BLEND_RT_ALPHA_FUNC_def BLEND_RT_ALPHA_SRC_FACTOR_def
  BLEND_RT_ALPHA_DST_FACTOR_def BLEND_RT_COLORMASK_def

definition VIRGL_BLEND_RT_OPAQUE :: u32 where
  "VIRGL_BLEND_RT_OPAQUE = BLEND_RT_COLORMASK 0xF"

definition VIRGL_BLEND_RT_ALPHA :: u32 where
  "VIRGL_BLEND_RT_ALPHA = BLEND_RT_BLEND_ENABLE 1 OR BLEND_RT_RGB_FUNC 0 OR BLEND_RT_RGB_SRC_FACTOR 0x03 OR
     BLEND_RT_RGB_DST_FACTOR 0x13 OR BLEND_RT_ALPHA_FUNC 0 OR BLEND_RT_ALPHA_SRC_FACTOR 0x01 OR
     BLEND_RT_ALPHA_DST_FACTOR 0x13 OR BLEND_RT_COLORMASK 0xF"

section \<open>Text and data packing\<close>

fun virgl_strlen :: "bytes \<Rightarrow> u32 \<Rightarrow> u32 option" where
  "virgl_strlen [] n = None"
| "virgl_strlen (c # s) n = (if c = 0 then Some n else virgl_strlen s (n + 1))"

definition virgl_pack_text_word :: "bytes \<Rightarrow> nat \<Rightarrow> nat \<Rightarrow> u32 option" where
  "virgl_pack_text_word text offset len = foldM (\<lambda>i val.
     if offset + i < len then do { b \<leftarrow> rd text (offset + i); Some (val OR push_bit (i * 8) (ucast b)) }
     else Some val) [0..<4] 0"

text \<open>\<open>for (off = 0; off < len; off += 4)\<close>, in \<open>create_shader\<close> and in \<open>resource_inline_write\<close>.\<close>

function emit_packed :: "bytes \<Rightarrow> nat \<Rightarrow> nat \<Rightarrow> VirglCmdBuf \<Rightarrow> VirglCmdBuf option" where
  "emit_packed data off len cbuf =
     (if off < len then do {
        word \<leftarrow> virgl_pack_text_word data off len;
        cbuf \<leftarrow> virgl_emit_dword word cbuf;
        emit_packed data (off + 4) len cbuf }
      else Some cbuf)"
  by pat_completeness auto
termination
  by (relation "measure (\<lambda>(_, off, len, _). len - off)") auto

declare emit_packed.simps [simp del]

section \<open>Encoders\<close>

definition virgl_cmd_create_sub_ctx :: "u32 \<Rightarrow> VirglCmdBuf \<Rightarrow> VirglCmdBuf option" where
  "virgl_cmd_create_sub_ctx sub_ctx_id = emits [VIRGL_CMD_HDR CCMD_CREATE_SUB_CTX 0 1, sub_ctx_id]"

definition virgl_cmd_set_sub_ctx :: "u32 \<Rightarrow> VirglCmdBuf \<Rightarrow> VirglCmdBuf option" where
  "virgl_cmd_set_sub_ctx sub_ctx_id = emits [VIRGL_CMD_HDR CCMD_SET_SUB_CTX 0 1, sub_ctx_id]"

definition virgl_cmd_create_surface :: "u32 \<Rightarrow> u32 \<Rightarrow> u32 \<Rightarrow> u32 \<Rightarrow> u32 \<Rightarrow> VirglCmdBuf \<Rightarrow> VirglCmdBuf option" where
  "virgl_cmd_create_surface handle res_handle format first_element last_element =
     emits [VIRGL_CMD_HDR CCMD_CREATE_OBJECT OBJECT_SURFACE 5, handle, res_handle, format, first_element, last_element]"

definition virgl_cmd_create_blend :: "u32 \<Rightarrow> u32 \<Rightarrow> u32 \<Rightarrow> VirglCmdBuf \<Rightarrow> VirglCmdBuf option" where
  "virgl_cmd_create_blend handle s0 rt0_blend cbuf = do {
     cbuf \<leftarrow> emits [VIRGL_CMD_HDR CCMD_CREATE_OBJECT OBJECT_BLEND 11, handle, s0, 0, rt0_blend] cbuf;
     foldM (\<lambda>i. virgl_emit_dword 0) [1..<8] cbuf }"

definition virgl_cmd_create_dsa :: "u32 \<Rightarrow> u32 \<Rightarrow> u32 \<Rightarrow> u32 \<Rightarrow> f32 \<Rightarrow> VirglCmdBuf \<Rightarrow> VirglCmdBuf option" where
  "virgl_cmd_create_dsa handle s0 s1_front s2_back alpha_ref cbuf = do {
     cbuf \<leftarrow> emits [VIRGL_CMD_HDR CCMD_CREATE_OBJECT OBJECT_DSA 5, handle, s0, s1_front, s2_back] cbuf;
     virgl_emit_float alpha_ref cbuf }"

definition virgl_cmd_create_rasterizer :: "u32 \<Rightarrow> u32 \<Rightarrow> f32 \<Rightarrow> u32 \<Rightarrow> u32 \<Rightarrow> f32 \<Rightarrow> f32 \<Rightarrow> f32 \<Rightarrow> f32 \<Rightarrow>
    VirglCmdBuf \<Rightarrow> VirglCmdBuf option" where
  "virgl_cmd_create_rasterizer handle s0 point_size sprite_coord_enable s3 line_width offset_units offset_scale
      offset_clamp cbuf = do {
     cbuf \<leftarrow> emits [VIRGL_CMD_HDR CCMD_CREATE_OBJECT OBJECT_RASTERIZER 9, handle, s0] cbuf;
     cbuf \<leftarrow> virgl_emit_float point_size cbuf;
     cbuf \<leftarrow> emits [sprite_coord_enable, s3] cbuf;
     cbuf \<leftarrow> virgl_emit_float line_width cbuf;
     cbuf \<leftarrow> virgl_emit_float offset_units cbuf;
     cbuf \<leftarrow> virgl_emit_float offset_scale cbuf;
     virgl_emit_float offset_clamp cbuf }"

definition virgl_cmd_create_shader :: "u32 \<Rightarrow> u32 \<Rightarrow> bytes \<Rightarrow> VirglCmdBuf \<Rightarrow> VirglCmdBuf option" where
  "virgl_cmd_create_shader handle shader_type tgsi_text cbuf = do {
     text_len \<leftarrow> virgl_strlen tgsi_text 0;
     let text_with_nul = text_len + 1;
     let text_words = (text_with_nul + 3) div 4;
     let payload_len = 5 + text_words;
     cbuf \<leftarrow> emits [VIRGL_CMD_HDR CCMD_CREATE_OBJECT OBJECT_SHADER payload_len, handle, shader_type,
                text_with_nul, text_words, 0] cbuf;
     emit_packed tgsi_text 0 (unat text_with_nul) cbuf }"

record VirglVertexElement =
  ve_src_offset :: u32
  ve_instance_divisor :: u32
  ve_vertex_buffer_index :: u32
  ve_src_format :: u32

record VirglVertexBuffer =
  vb_stride :: u32
  vb_buffer_offset :: u32
  vb_res_handle :: u32

definition virgl_cmd_create_vertex_elements :: "u32 \<Rightarrow> u32 \<Rightarrow> VirglVertexElement list \<Rightarrow> VirglCmdBuf \<Rightarrow> VirglCmdBuf option" where
  "virgl_cmd_create_vertex_elements handle num_elements elements cbuf = do {
     let payload_len = 1 + num_elements * 4;
     cbuf \<leftarrow> emits [VIRGL_CMD_HDR CCMD_CREATE_OBJECT OBJECT_VERTEX_ELEMENTS payload_len, handle] cbuf;
     foldM (\<lambda>i cbuf. do {
        e \<leftarrow> rd elements i;
        emits [ve_src_offset e, ve_instance_divisor e, ve_vertex_buffer_index e, ve_src_format e] cbuf })
       [0..<unat num_elements] cbuf }"

definition virgl_cmd_bind_object :: "u32 \<Rightarrow> u32 \<Rightarrow> VirglCmdBuf \<Rightarrow> VirglCmdBuf option" where
  "virgl_cmd_bind_object obj_type handle = emits [VIRGL_CMD_HDR CCMD_BIND_OBJECT obj_type 1, handle]"

definition virgl_cmd_bind_shader :: "u32 \<Rightarrow> u32 \<Rightarrow> VirglCmdBuf \<Rightarrow> VirglCmdBuf option" where
  "virgl_cmd_bind_shader shader_type handle = emits [VIRGL_CMD_HDR CCMD_BIND_SHADER 0 2, handle, shader_type]"

definition virgl_cmd_set_viewport :: "u32 \<Rightarrow> f32 \<Rightarrow> f32 \<Rightarrow> f32 \<Rightarrow> f32 \<Rightarrow> f32 \<Rightarrow> f32 \<Rightarrow> VirglCmdBuf \<Rightarrow> VirglCmdBuf option" where
  "virgl_cmd_set_viewport start_slot scale_x scale_y scale_z trans_x trans_y trans_z cbuf = do {
     cbuf \<leftarrow> emits [VIRGL_CMD_HDR CCMD_SET_VIEWPORT_STATE 0 7, start_slot] cbuf;
     foldM virgl_emit_float [scale_x, scale_y, scale_z, trans_x, trans_y, trans_z] cbuf }"

definition virgl_cmd_set_framebuffer_state :: "u32 \<Rightarrow> u32 \<Rightarrow> u32 list \<Rightarrow> VirglCmdBuf \<Rightarrow> VirglCmdBuf option" where
  "virgl_cmd_set_framebuffer_state nr_cbufs zsurf_handle surf_handles cbuf = do {
     let payload_len = 2 + nr_cbufs;
     cbuf \<leftarrow> emits [VIRGL_CMD_HDR CCMD_SET_FRAMEBUFFER_STATE 0 payload_len, nr_cbufs, zsurf_handle] cbuf;
     emit_array surf_handles nr_cbufs cbuf }"

definition virgl_cmd_set_vertex_buffers :: "u32 \<Rightarrow> VirglVertexBuffer list \<Rightarrow> VirglCmdBuf \<Rightarrow> VirglCmdBuf option" where
  "virgl_cmd_set_vertex_buffers num_buffers buffers cbuf = do {
     let payload_len = num_buffers * 3;
     cbuf \<leftarrow> emits [VIRGL_CMD_HDR CCMD_SET_VERTEX_BUFFERS 0 payload_len] cbuf;
     foldM (\<lambda>i cbuf. do {
        b \<leftarrow> rd buffers i;
        emits [vb_stride b, vb_buffer_offset b, vb_res_handle b] cbuf }) [0..<unat num_buffers] cbuf }"

definition virgl_cmd_set_scissor_state :: "u32 \<Rightarrow> u32 \<Rightarrow> u32 \<Rightarrow> u32 \<Rightarrow> u32 \<Rightarrow> VirglCmdBuf \<Rightarrow> VirglCmdBuf option" where
  "virgl_cmd_set_scissor_state start_slot minx miny maxx maxy =
     emits [VIRGL_CMD_HDR CCMD_SET_SCISSOR_STATE 0 3, start_slot,
       (minx AND 0xFFFF) OR push_bit 16 miny, (maxx AND 0xFFFF) OR push_bit 16 maxy]"

definition virgl_cmd_clear :: "u32 \<Rightarrow> f32 \<Rightarrow> f32 \<Rightarrow> f32 \<Rightarrow> f32 \<Rightarrow> f64 \<Rightarrow> u32 \<Rightarrow> VirglCmdBuf \<Rightarrow> VirglCmdBuf option" where
  "virgl_cmd_clear buffers r g b a depth stencil cbuf = do {
     cbuf \<leftarrow> emits [VIRGL_CMD_HDR CCMD_CLEAR 0 8, buffers] cbuf;
     cbuf \<leftarrow> foldM virgl_emit_float [r, g, b, a] cbuf;
     cbuf \<leftarrow> virgl_emit_double depth cbuf;
     virgl_emit_dword stencil cbuf }"

definition virgl_cmd_draw_vbo :: "u32 \<Rightarrow> u32 \<Rightarrow> u32 \<Rightarrow> u32 \<Rightarrow> u32 \<Rightarrow> u32 \<Rightarrow> u32 \<Rightarrow> u32 \<Rightarrow> u32 \<Rightarrow> u32 \<Rightarrow> u32 \<Rightarrow> u32 \<Rightarrow>
    VirglCmdBuf \<Rightarrow> VirglCmdBuf option" where
  "virgl_cmd_draw_vbo start cnt mode indexed instance_count index_bias start_instance primitive_restart
      restart_index min_index max_index cso_handle =
     emits [VIRGL_CMD_HDR CCMD_DRAW_VBO 0 12, start, cnt, mode, indexed, instance_count, index_bias,
       start_instance, primitive_restart, restart_index, min_index, max_index, cso_handle]"

definition virgl_cmd_resource_inline_write :: "u32 \<Rightarrow> u32 \<Rightarrow> u32 \<Rightarrow> u32 \<Rightarrow> u32 \<Rightarrow> u32 \<Rightarrow> u32 \<Rightarrow> u32 \<Rightarrow> u32 \<Rightarrow> u32 \<Rightarrow> u32 \<Rightarrow>
    bytes \<Rightarrow> u32 \<Rightarrow> VirglCmdBuf \<Rightarrow> VirglCmdBuf option" where
  "virgl_cmd_resource_inline_write res_handle level usage stride layer_stride x y z w h d data data_size cbuf = do {
     let data_words = (data_size + 3) div 4;
     let payload_len = 11 + data_words;
     cbuf \<leftarrow> emits [VIRGL_CMD_HDR CCMD_RESOURCE_INLINE_WRITE 0 payload_len, res_handle, level, usage, stride,
       layer_stride, x, y, z, w, h, d] cbuf;
     emit_packed data 0 (unat data_size) cbuf }"

definition VIRGL_BLIT_S1_DST_LEVEL :: "u32 \<Rightarrow> u32" where "VIRGL_BLIT_S1_DST_LEVEL x = x AND 0xff"
definition VIRGL_BLIT_S1_DST_FORMAT :: "u32 \<Rightarrow> u32" where "VIRGL_BLIT_S1_DST_FORMAT x = push_bit 8 (x AND 0xffff)"

definition virgl_cmd_blit :: "u32 \<Rightarrow> u32 \<Rightarrow> u32 \<Rightarrow> u32 \<Rightarrow> u32 \<Rightarrow> u32 \<Rightarrow> u32 \<Rightarrow> u32 \<Rightarrow> u32 \<Rightarrow> u32 \<Rightarrow>
    u32 \<Rightarrow> u32 \<Rightarrow> u32 \<Rightarrow> u32 \<Rightarrow> u32 \<Rightarrow> u32 \<Rightarrow> u32 \<Rightarrow> u32 \<Rightarrow> u32 \<Rightarrow> VirglCmdBuf \<Rightarrow> VirglCmdBuf option" where
  "virgl_cmd_blit s0_flags dst_res dst_format dst_level dst_x1 dst_y1 dst_z1 dst_x2 dst_y2 dst_z2
      src_res src_format src_level src_x1 src_y1 src_z1 src_x2 src_y2 src_z2 =
     emits [VIRGL_CMD_HDR CCMD_BLIT 0 17, s0_flags,
       VIRGL_BLIT_S1_DST_LEVEL dst_level OR VIRGL_BLIT_S1_DST_FORMAT dst_format,
       dst_res, dst_x1, dst_y1, dst_z1, dst_x2, dst_y2, dst_z2,
       VIRGL_BLIT_S1_DST_LEVEL src_level OR VIRGL_BLIT_S1_DST_FORMAT src_format,
       src_res, src_x1, src_y1, src_z1, src_x2, src_y2, src_z2]"

definition virgl_cmd_destroy_object :: "u32 \<Rightarrow> u32 \<Rightarrow> VirglCmdBuf \<Rightarrow> VirglCmdBuf option" where
  "virgl_cmd_destroy_object obj_type handle = emits [VIRGL_CMD_HDR CCMD_DESTROY_OBJECT obj_type 1, handle]"

definition virgl_cmd_create_sampler_state :: "u32 \<Rightarrow> u32 \<Rightarrow> f32 \<Rightarrow> f32 \<Rightarrow> f32 \<Rightarrow> f32 \<Rightarrow> f32 \<Rightarrow> f32 \<Rightarrow> f32 \<Rightarrow>
    VirglCmdBuf \<Rightarrow> VirglCmdBuf option" where
  "virgl_cmd_create_sampler_state handle s0 lod_bias min_lod max_lod border_r border_g border_b border_a cbuf = do {
     cbuf \<leftarrow> emits [VIRGL_CMD_HDR CCMD_CREATE_OBJECT OBJECT_SAMPLER_STATE 9, handle, s0] cbuf;
     foldM virgl_emit_float [lod_bias, min_lod, max_lod, border_r, border_g, border_b, border_a] cbuf }"

definition virgl_cmd_create_sampler_view :: "u32 \<Rightarrow> u32 \<Rightarrow> u32 \<Rightarrow> u32 \<Rightarrow> u32 \<Rightarrow> u32 \<Rightarrow> u32 \<Rightarrow> u32 \<Rightarrow> u32 \<Rightarrow>
    VirglCmdBuf \<Rightarrow> VirglCmdBuf option" where
  "virgl_cmd_create_sampler_view handle res_handle format first_element last_element swizzle_r swizzle_g
      swizzle_b swizzle_a =
     (let swiz = (swizzle_r AND 0x7) OR push_bit 3 (swizzle_g AND 0x7) OR push_bit 6 (swizzle_b AND 0x7) OR
                 push_bit 9 (swizzle_a AND 0x7)
      in emits [VIRGL_CMD_HDR CCMD_CREATE_OBJECT OBJECT_SAMPLER_VIEW 6, handle, res_handle, format,
           first_element, last_element, swiz])"

definition virgl_cmd_set_sampler_views :: "u32 \<Rightarrow> u32 \<Rightarrow> u32 \<Rightarrow> u32 list \<Rightarrow> VirglCmdBuf \<Rightarrow> VirglCmdBuf option" where
  "virgl_cmd_set_sampler_views shader_type start_slot cnt view_handles cbuf = do {
     let payload_len = 2 + cnt;
     cbuf \<leftarrow> emits [VIRGL_CMD_HDR CCMD_SET_SAMPLER_VIEWS 0 payload_len, shader_type, start_slot] cbuf;
     emit_array view_handles cnt cbuf }"

definition virgl_cmd_bind_sampler_states :: "u32 \<Rightarrow> u32 \<Rightarrow> u32 \<Rightarrow> u32 list \<Rightarrow> VirglCmdBuf \<Rightarrow> VirglCmdBuf option" where
  "virgl_cmd_bind_sampler_states shader_type start_slot cnt state_handles cbuf = do {
     let payload_len = 2 + cnt;
     cbuf \<leftarrow> emits [VIRGL_CMD_HDR CCMD_BIND_SAMPLER_STATES 0 payload_len, shader_type, start_slot] cbuf;
     emit_array state_handles cnt cbuf }"

section \<open>Default pipeline objects\<close>

definition virgl_setup_default_blend :: "u32 \<Rightarrow> VirglCmdBuf \<Rightarrow> VirglCmdBuf option" where
  "virgl_setup_default_blend handle = virgl_cmd_create_blend handle 0 VIRGL_BLEND_RT_OPAQUE"

definition virgl_setup_alpha_blend :: "u32 \<Rightarrow> VirglCmdBuf \<Rightarrow> VirglCmdBuf option" where
  "virgl_setup_alpha_blend handle = virgl_cmd_create_blend handle 0 VIRGL_BLEND_RT_ALPHA"

definition virgl_setup_default_dsa :: "u32 \<Rightarrow> VirglCmdBuf \<Rightarrow> VirglCmdBuf option" where
  "virgl_setup_default_dsa handle = virgl_cmd_create_dsa handle 0 0 0 F_0"

definition RS_S0_DEPTH_CLIP :: "u32 \<Rightarrow> u32" where "RS_S0_DEPTH_CLIP x = push_bit 1 (x AND 0x1)"
definition RS_S0_CULL_FACE :: "u32 \<Rightarrow> u32" where "RS_S0_CULL_FACE x = push_bit 8 (x AND 0x3)"
definition RS_S0_FILL_FRONT :: "u32 \<Rightarrow> u32" where "RS_S0_FILL_FRONT x = push_bit 10 (x AND 0x3)"
definition RS_S0_FILL_BACK :: "u32 \<Rightarrow> u32" where "RS_S0_FILL_BACK x = push_bit 12 (x AND 0x3)"

definition virgl_setup_default_rasterizer :: "u32 \<Rightarrow> VirglCmdBuf \<Rightarrow> VirglCmdBuf option" where
  "virgl_setup_default_rasterizer handle =
     (let s0 = RS_S0_DEPTH_CLIP 1 OR RS_S0_CULL_FACE 0 OR RS_S0_FILL_FRONT 0 OR RS_S0_FILL_BACK 0
      in virgl_cmd_create_rasterizer handle s0 F_1 0 0 F_1 F_0 F_0 F_0)"

text \<open>The TGSI sources: lines ended by a newline, a NUL at the end.\<close>

definition tgsi_lines :: "string list \<Rightarrow> bytes" where
  "tgsi_lines ls = concat (map (\<lambda>l. map of_char l @ [10]) ls) @ [0]"

definition tgsi_vs_passthrough :: bytes where
  "tgsi_vs_passthrough = tgsi_lines [''VERT'', ''DCL IN[0]'', ''DCL IN[1]'', ''DCL OUT[0], POSITION'',
     ''DCL OUT[1], GENERIC[0]'', ''  0: MOV OUT[0], IN[0]'', ''  1: MOV OUT[1], IN[1]'', ''  2: END'']"

definition tgsi_fs_color :: bytes where
  "tgsi_fs_color = tgsi_lines [''FRAG'', ''DCL IN[0], GENERIC[0], PERSPECTIVE'', ''DCL OUT[0], COLOR'',
     ''  0: MOV OUT[0], IN[0]'', ''  1: END'']"

definition tgsi_fs_texture :: bytes where
  "tgsi_fs_texture = tgsi_lines [''FRAG'', ''DCL IN[0], GENERIC[0], PERSPECTIVE'', ''DCL OUT[0], COLOR'',
     ''DCL SAMP[0]'', ''  0: TEX OUT[0], IN[0], SAMP[0], 2D'', ''  1: END'']"

definition virgl_setup_passthrough_vs :: "u32 \<Rightarrow> VirglCmdBuf \<Rightarrow> VirglCmdBuf option" where
  "virgl_setup_passthrough_vs handle = virgl_cmd_create_shader handle PIPE_SHADER_VERTEX tgsi_vs_passthrough"

definition virgl_setup_color_fs :: "u32 \<Rightarrow> VirglCmdBuf \<Rightarrow> VirglCmdBuf option" where
  "virgl_setup_color_fs handle = virgl_cmd_create_shader handle PIPE_SHADER_FRAGMENT tgsi_fs_color"

definition virgl_setup_texture_fs :: "u32 \<Rightarrow> VirglCmdBuf \<Rightarrow> VirglCmdBuf option" where
  "virgl_setup_texture_fs handle = virgl_cmd_create_shader handle PIPE_SHADER_FRAGMENT tgsi_fs_texture"

end
