(* ===== verification/Virgl_Encoder_Correct.thy ===== *)
theory Virgl_Encoder_Correct
  imports Virgl_Encoder
begin

text \<open>
  The stream as the host reads it: a parser for headers and payloads, and for every encoder the
  command it appends.  Commands that do not fit are cut, which the parser notices or, at a
  command boundary, does not.
\<close>

section \<open>What a command buffer holds\<close>

definition cb_ok :: "VirglCmdBuf \<Rightarrow> bool" where
  "cb_ok cb \<longleftrightarrow> vc_dwords cb \<le> vc_max_dwords cb \<and> unat (vc_max_dwords cb) \<le> length (vc_buf cb)"

definition cb_words :: "VirglCmdBuf \<Rightarrow> u32 list" where
  "cb_words cb = map GP32 (take (unat (vc_dwords cb)) (vc_buf cb))"

text \<open>\<open>cb'\<close> is \<open>cb\<close> with \<open>ws\<close> appended as far as they fit.\<close>

definition appended :: "u32 list \<Rightarrow> VirglCmdBuf \<Rightarrow> VirglCmdBuf \<Rightarrow> bool" where
  "appended ws cb cb' \<longleftrightarrow> cb_ok cb' \<and> vc_max_dwords cb' = vc_max_dwords cb
     \<and> cb_words cb' = take (unat (vc_max_dwords cb)) (cb_words cb @ ws)"

lemma cb_words_length: "cb_ok cb \<Longrightarrow> length (cb_words cb) = unat (vc_dwords cb)"
  by (auto simp: cb_ok_def cb_words_def word_le_nat_alt)

lemma appended_refl: "cb_ok cb \<Longrightarrow> appended [] cb cb"
  using cb_words_length [of cb] by (simp add: appended_def) (simp add: cb_ok_def word_le_nat_alt)

lemma take_append_take: "take m (take m xs @ ys) = take m (xs @ ys)"
  by (cases "length xs \<le> m") (simp_all add: min_def)

lemma appended_trans: "appended ws a b \<Longrightarrow> appended vs b c \<Longrightarrow> appended (ws @ vs) a c"
  using take_append_take [of "unat (vc_max_dwords a)" "cb_words a @ ws" vs]
  by (simp add: appended_def del: take_append)

lemma appended_cb_ok: "appended ws cb cb' \<Longrightarrow> cb_ok cb'"
  by (simp add: appended_def)

lemma emit_dword_result:
  assumes ok: "cb_ok cb"
  shows "\<exists>cb'. virgl_emit_dword v cb = Some cb' \<and> appended [v] cb cb'"
proof (cases "vc_dwords cb < vc_max_dwords cb")
  case True
  let ?n = "unat (vc_dwords cb)"
  have n: "?n < unat (vc_max_dwords cb)" "?n < length (vc_buf cb)"
    using True ok by (auto simp: cb_ok_def word_less_nat_alt)
  have s: "unat (vc_dwords cb + 1) = Suc ?n"
    using n(1) unat_u32_less [of "vc_max_dwords cb"] by (simp add: unat_word_ariths)
  let ?cb = "cb\<lparr>vc_buf := (vc_buf cb)[?n := GP32 v], vc_dwords := vc_dwords cb + 1\<rparr>"
  have "virgl_emit_dword v cb = Some ?cb" using True n(2) by (simp add: virgl_emit_dword_def wr_in)
  moreover have "cb_ok ?cb" using n s ok by (simp add: cb_ok_def word_le_nat_alt)
  moreover have "cb_words ?cb = cb_words cb @ [v]"
    using n(2) by (simp add: cb_words_def s take_Suc_conv_app_nth GP32_def)
  moreover have "length (cb_words cb @ [v]) \<le> unat (vc_max_dwords cb)"
    using cb_words_length [OF ok] n(1) by simp
  ultimately show ?thesis by (auto simp: appended_def)
next
  case False
  then have "unat (vc_max_dwords cb) = length (cb_words cb)"
    using ok cb_words_length [OF ok] by (auto simp: cb_ok_def word_le_nat_alt word_less_nat_alt)
  then show ?thesis using False ok by (simp add: virgl_emit_dword_def appended_def)
qed

text \<open>A step that appends a list of words on every sound buffer, and sequences of such steps.\<close>

definition adds :: "(VirglCmdBuf \<Rightarrow> VirglCmdBuf option) \<Rightarrow> u32 list \<Rightarrow> bool" where
  "adds f ws \<longleftrightarrow> (\<forall>cb. cb_ok cb \<longrightarrow> (\<exists>cb'. f cb = Some cb' \<and> appended ws cb cb'))"

lemma adds_dword: "adds (virgl_emit_dword v) [v]"
  by (simp add: adds_def emit_dword_result)

lemma adds_float: "adds (virgl_emit_float v) [v]"
  using adds_dword [of v] by (simp add: adds_def virgl_emit_float_def)

lemma adds_Some: "adds Some []"
  by (simp add: adds_def appended_refl)

lemma adds_bind:
  assumes "adds f ws" "adds g vs"
  shows "adds (\<lambda>cb. do { cb \<leftarrow> f cb; g cb }) (ws @ vs)"
  unfolding adds_def
proof (intro allI impI)
  fix cb assume "cb_ok cb"
  then obtain b where b: "f cb = Some b" "appended ws cb b" using assms(1) by (auto simp: adds_def)
  then obtain c where c: "g b = Some c" "appended vs b c"
    using assms(2) by (auto simp: adds_def dest: appended_cb_ok)
  show "\<exists>cb'. (do { cb \<leftarrow> f cb; g cb }) = Some cb' \<and> appended (ws @ vs) cb cb'"
    using b c appended_trans [OF b(2) c(2)] by simp
qed

lemma adds_foldM:
  assumes "\<And>x. x \<in> set xs \<Longrightarrow> adds (f x) (h x)"
  shows "adds (foldM f xs) (concat (map h xs))"
  using assms
proof (induction xs)
  case Nil
  then show ?case using adds_Some by (simp add: foldM_Nil)
next
  case (Cons x xs)
  then show ?case using adds_bind [of "f x" "h x" "foldM f xs"] by simp
qed

lemma adds_emits: "adds (emits ws) ws"
  using adds_foldM [of ws virgl_emit_dword "\<lambda>w. [w]"] adds_dword by (simp add: emits_def [abs_def])

lemma adds_floats: "adds (foldM virgl_emit_float ws) ws"
  using adds_foldM [of ws virgl_emit_float "\<lambda>w. [w]"] adds_float by simp

lemma adds_double: "adds (virgl_emit_double v) [ucast v, ucast (drop_bit 32 v)]"
proof -
  have "ucast (v AND 0xFFFFFFFF) = (ucast v :: u32)"
  proof -
    have m: "(0xFFFFFFFF :: u64) = mask 32" by (simp add: mask_eq_exp_minus_1)
    show ?thesis unfolding m by (rule bit_word_eqI) (auto simp: bit_simps)
  qed
  then show ?thesis
    using adds_bind [OF adds_dword [of "ucast v"] adds_dword [of "ucast (drop_bit 32 v)"]]
    by (simp add: virgl_emit_double_def [abs_def])
qed

lemma rd_array: "adds (\<lambda>cb. do { h \<leftarrow> rd hs i; f h cb }) ws" if "i < length hs" "adds (f (hs ! i)) ws"
  using that by (simp add: rd_in)

lemma adds_array:
  assumes "unat n \<le> length hs"
  shows "adds (emit_array hs n) (take (unat n) hs)"
proof -
  have "adds (foldM (\<lambda>i cb. do { h \<leftarrow> rd hs i; virgl_emit_dword h cb }) [0..<unat n]) (concat (map (\<lambda>i. [hs ! i]) [0..<unat n]))"
    by (rule adds_foldM) (use assms in \<open>auto intro!: rd_array adds_dword\<close>)
  moreover have "concat (map (\<lambda>i. [hs ! i]) [0..<unat n]) = take (unat n) hs"
    using assms by (simp add: concat_singles map_nth_take)
  ultimately show ?thesis by (simp add: emit_array_def [abs_def])
qed

section \<open>Packed bytes\<close>

fun pack4 :: "bytes \<Rightarrow> u32 list" where
  "pack4 [] = []"
| "pack4 [a] = [mk32 a 0 0 0]"
| "pack4 [a, b] = [mk32 a b 0 0]"
| "pack4 [a, b, c] = [mk32 a b c 0]"
| "pack4 (a # b # c # d # bs) = mk32 a b c d # pack4 bs"

lemma length_pack4: "length (pack4 bs) = (length bs + 3) div 4"
  by (induction bs rule: pack4.induct) simp_all

text \<open>The little-endian image of the packed words is the data, padded with zeros.\<close>

lemma pack4_image: "concat (map le32 (pack4 bs)) = bs @ replicate (4 * length (pack4 bs) - length bs) 0"
proof -
  have "replicate 2 z = [z, z]" "replicate 3 z = [z, z, z]" for z :: u8 by (simp_all add: numeral_eq_Suc)
  then show ?thesis by (induction bs rule: pack4.induct) (simp_all add: le32_def byte_simps length_pack4)
qed

lemma pack4_unfold:
  assumes "bs \<noteq> []"
  shows "pack4 bs = mk32 (bs ! 0) (if 1 < length bs then bs ! 1 else 0) (if 2 < length bs then bs ! 2 else 0)
     (if 3 < length bs then bs ! 3 else 0) # pack4 (drop 4 bs)"
  using assms by (cases bs rule: pack4.cases) simp_all

lemma pack4_step:
  assumes "off < len" "len \<le> length text"
  shows "pack4 (take (len - off) (drop off text)) =
     mk32 (text ! off) (if off + 1 < len then text ! (off + 1) else 0) (if off + 2 < len then text ! (off + 2) else 0)
       (if off + 3 < len then text ! (off + 3) else 0) # pack4 (take (len - (off + 4)) (drop (off + 4) text))"
proof -
  let ?bs = "take (len - off) (drop off text)"
  have l: "length ?bs = len - off" using assms by simp
  have n: "?bs ! k = text ! (off + k)" if "off + k < len" for k using that assms by simp
  have "drop 4 ?bs = take (len - (off + 4)) (drop (off + 4) text)" by (simp add: drop_take ac_simps)
  moreover have "?bs \<noteq> []" using assms by simp
  ultimately show ?thesis
    using pack4_unfold [of ?bs] n [of 0] n [of 1] n [of 2] n [of 3] assms(1) unfolding l
    by (auto simp: less_diff_conv ac_simps simp del: nth_take drop_take nth_drop take_eq_Nil)
qed

lemma pack_text_word_result:
  assumes "off < len" "len \<le> length text"
  shows "virgl_pack_text_word text off len = Some (mk32 (text ! off) (if off + 1 < len then text ! (off + 1) else 0)
       (if off + 2 < len then text ! (off + 2) else 0) (if off + 3 < len then text ! (off + 3) else 0))"
proof -
  have "[0..<4] = [0, 1, 2, 3 :: nat]" by (simp add: upt_rec)
  then show ?thesis
    using assms by (auto simp: virgl_pack_text_word_def rd_in mk32_def word_at_def ac_simps)
qed

lemma adds_packed:
  assumes "len \<le> length data"
  shows "adds (emit_packed data off len) (pack4 (take (len - off) (drop off data)))"
proof (induction "len - off" arbitrary: off rule: less_induct)
  case less
  show ?case
  proof (cases "off < len")
    case True
    obtain w where w: "virgl_pack_text_word data off len = Some w"
      "pack4 (take (len - off) (drop off data)) = w # pack4 (take (len - (off + 4)) (drop (off + 4) data))"
      using pack_text_word_result [OF True assms] pack4_step [OF True assms] by simp
    have "emit_packed data off len = (\<lambda>cb. do { cb \<leftarrow> virgl_emit_dword w cb; emit_packed data (off + 4) len cb })"
      by (rule ext, subst emit_packed.simps) (simp add: True w(1))
    moreover have "adds (emit_packed data (off + 4) len) (pack4 (take (len - (off + 4)) (drop (off + 4) data)))"
      using less [of "off + 4"] True by simp
    ultimately show ?thesis using adds_bind [OF adds_dword [of w]] w(2) by simp
  next
    case False
    then have "emit_packed data off len = Some" by (intro ext) (subst emit_packed.simps, simp)
    then show ?thesis using False adds_Some by simp
  qed
qed

section \<open>The stream as the host parses it\<close>

datatype vcmd = VCmd u32 u32 "u32 list"       \<comment> \<open>command, object type, payload\<close>

fun encode_vcmd :: "vcmd \<Rightarrow> u32 list" where
  "encode_vcmd (VCmd c ob ws) = VIRGL_CMD_HDR c ob (of_nat (length ws)) # ws"

fun vcmd_ok :: "vcmd \<Rightarrow> bool" where
  "vcmd_ok (VCmd c ob ws) \<longleftrightarrow> take_bit 8 c = c \<and> take_bit 8 ob = ob \<and> length ws < 65536"

function parse_stream :: "u32 list \<Rightarrow> vcmd list option" where
  "parse_stream [] = Some []"
| "parse_stream (h # ws) = (let n = unat (drop_bit 16 h) in
     if n \<le> length ws then do {
       cs \<leftarrow> parse_stream (drop n ws);
       Some (VCmd (take_bit 8 h) (take_bit 8 (drop_bit 8 h)) (take n ws) # cs) }
     else None)"
  by pat_completeness auto
termination
  by (relation "measure length") auto

lemma hdr_fields:
  assumes "take_bit 8 c = c" "take_bit 8 ob = ob" "take_bit 16 l = l"
  shows "take_bit 8 (VIRGL_CMD_HDR c ob l) = c" "take_bit 8 (drop_bit 8 (VIRGL_CMD_HDR c ob l)) = ob"
    "drop_bit 16 (VIRGL_CMD_HDR c ob l) = l"
proof -
  have b: "bit c n \<Longrightarrow> n < 8" "bit ob n \<Longrightarrow> n < 8" "bit l n \<Longrightarrow> n < 16" for n
    using assms by (metis bit_take_bit_iff)+
  show "take_bit 8 (VIRGL_CMD_HDR c ob l) = c" "take_bit 8 (drop_bit 8 (VIRGL_CMD_HDR c ob l)) = ob"
    "drop_bit 16 (VIRGL_CMD_HDR c ob l) = l"
    by (rule bit_word_eqI; auto simp: VIRGL_CMD_HDR_def bit_simps dest: b)+
qed

lemma take_bit_of_nat: "n < 65536 \<Longrightarrow> take_bit 16 (of_nat n :: u32) = of_nat n"
  by (simp add: of_nat_take_bit [symmetric] take_bit_nat_eq_self)

lemma parse_encode:
  assumes "vcmd_ok c"
  shows "parse_stream (encode_vcmd c @ ws) = map_option (Cons c) (parse_stream ws)"
proof (cases c)
  case (VCmd a ob ps)
  have l: "take_bit 16 (of_nat (length ps) :: u32) = of_nat (length ps)" "unat (of_nat (length ps) :: u32) = length ps"
    using assms VCmd take_bit_of_nat by (simp_all add: unat_of_nat)
  show ?thesis
    using assms VCmd hdr_fields [OF _ _ l(1), of a ob] l(2)
    by (cases "parse_stream ws") (simp_all add: Let_def)
qed

lemma parse_encode_all:
  assumes "list_all vcmd_ok cs"
  shows "parse_stream (concat (map encode_vcmd cs)) = Some cs"
  using assms by (induction cs) (simp_all add: parse_encode)

section \<open>The encoders\<close>

definition encodes :: "(VirglCmdBuf \<Rightarrow> VirglCmdBuf option) \<Rightarrow> vcmd \<Rightarrow> bool" where
  "encodes f c \<longleftrightarrow> vcmd_ok c \<and> adds f (encode_vcmd c)"

lemma encodes_emits:
  assumes "vcmd_ok (VCmd c ob ps)" "l = of_nat (length ps)"
  shows "encodes (emits (VIRGL_CMD_HDR c ob l # ps)) (VCmd c ob ps)"
  using assms adds_emits [of "VIRGL_CMD_HDR c ob l # ps"] by (simp add: encodes_def)

lemma encodes_bind:
  assumes "adds f ps'" "vcmd_ok (VCmd c ob (ps @ ps'))" "l = of_nat (length (ps @ ps'))"
  shows "encodes (\<lambda>cb. do { cb \<leftarrow> emits (VIRGL_CMD_HDR c ob l # ps) cb; f cb }) (VCmd c ob (ps @ ps'))"
  using assms adds_bind [OF adds_emits [of "VIRGL_CMD_HDR c ob l # ps"] assms(1)] by (simp add: encodes_def)

lemma encodes_create_blend:
  "encodes (virgl_cmd_create_blend h s0 rt0) (VCmd CCMD_CREATE_OBJECT OBJECT_BLEND ([h, s0, 0, rt0] @ replicate 7 0))"
proof -
  have "concat (map (\<lambda>i. [0]) [1..<8 :: nat]) = replicate 7 (0 :: u32)"
    by (simp add: concat_singles map_replicate_const)
  then have "adds (foldM (\<lambda>i. virgl_emit_dword 0) [1..<8 :: nat]) (replicate 7 0)"
    using adds_foldM [of "[1..<8]" "\<lambda>i. virgl_emit_dword 0" "\<lambda>i. [0]"] adds_dword by simp
  then show ?thesis
    unfolding virgl_cmd_create_blend_def [abs_def] by (rule encodes_bind) simp_all
qed

text \<open>The encoders with a fixed payload.\<close>

lemma encodes_sub_ctx:
  "encodes (virgl_cmd_create_sub_ctx i) (VCmd CCMD_CREATE_SUB_CTX 0 [i])"
  "encodes (virgl_cmd_set_sub_ctx i) (VCmd CCMD_SET_SUB_CTX 0 [i])"
  unfolding virgl_cmd_create_sub_ctx_def virgl_cmd_set_sub_ctx_def by (rule encodes_emits; simp)+

lemma encodes_create_surface:
  "encodes (virgl_cmd_create_surface h r f a b) (VCmd CCMD_CREATE_OBJECT OBJECT_SURFACE [h, r, f, a, b])"
  unfolding virgl_cmd_create_surface_def by (rule encodes_emits; simp)

lemma encodes_bind_destroy:
  assumes "take_bit 8 ty = ty"
  shows "encodes (virgl_cmd_bind_object ty h) (VCmd CCMD_BIND_OBJECT ty [h])"
    "encodes (virgl_cmd_destroy_object ty h) (VCmd CCMD_DESTROY_OBJECT ty [h])"
  unfolding virgl_cmd_bind_object_def virgl_cmd_destroy_object_def by (rule encodes_emits; simp add: assms)+

lemma encodes_bind_shader: "encodes (virgl_cmd_bind_shader ty h) (VCmd CCMD_BIND_SHADER 0 [h, ty])"
  unfolding virgl_cmd_bind_shader_def by (rule encodes_emits; simp)

lemma encodes_scissor:
  "encodes (virgl_cmd_set_scissor_state s x0 y0 x1 y1) (VCmd CCMD_SET_SCISSOR_STATE 0
     [s, (x0 AND 0xFFFF) OR push_bit 16 y0, (x1 AND 0xFFFF) OR push_bit 16 y1])"
  unfolding virgl_cmd_set_scissor_state_def by (rule encodes_emits; simp)

lemma encodes_draw_vbo:
  "encodes (virgl_cmd_draw_vbo a b c d e f g h i j k l) (VCmd CCMD_DRAW_VBO 0 [a, b, c, d, e, f, g, h, i, j, k, l])"
  unfolding virgl_cmd_draw_vbo_def by (rule encodes_emits; simp)

lemma encodes_blit:
  "encodes (virgl_cmd_blit s0 dr df dl dx1 dy1 dz1 dx2 dy2 dz2 sr sf sl sx1 sy1 sz1 sx2 sy2 sz2) (VCmd CCMD_BLIT 0
     [s0, VIRGL_BLIT_S1_DST_LEVEL dl OR VIRGL_BLIT_S1_DST_FORMAT df, dr, dx1, dy1, dz1, dx2, dy2, dz2,
      VIRGL_BLIT_S1_DST_LEVEL sl OR VIRGL_BLIT_S1_DST_FORMAT sf, sr, sx1, sy1, sz1, sx2, sy2, sz2])"
  unfolding virgl_cmd_blit_def by (rule encodes_emits; simp)

lemma encodes_sampler_view:
  "encodes (virgl_cmd_create_sampler_view h r f a b sr sg sb sa) (VCmd CCMD_CREATE_OBJECT OBJECT_SAMPLER_VIEW
     [h, r, f, a, b, (sr AND 0x7) OR push_bit 3 (sg AND 0x7) OR push_bit 6 (sb AND 0x7) OR push_bit 9 (sa AND 0x7)])"
  unfolding virgl_cmd_create_sampler_view_def Let_def by (rule encodes_emits; simp)

text \<open>Floats behind words.\<close>

lemma encodes_create_dsa:
  "encodes (virgl_cmd_create_dsa h s0 f b ref) (VCmd CCMD_CREATE_OBJECT OBJECT_DSA ([h, s0, f, b] @ [ref]))"
  unfolding virgl_cmd_create_dsa_def [abs_def] by (rule encodes_bind [OF adds_float]) simp_all

lemma encodes_set_viewport:
  "encodes (virgl_cmd_set_viewport s sx sy sz tx ty tz) (VCmd CCMD_SET_VIEWPORT_STATE 0 ([s] @ [sx, sy, sz, tx, ty, tz]))"
  unfolding virgl_cmd_set_viewport_def [abs_def] by (rule encodes_bind [OF adds_floats]) simp_all

lemma encodes_sampler_state:
  "encodes (virgl_cmd_create_sampler_state h s0 lb mi ma r g b a) (VCmd CCMD_CREATE_OBJECT OBJECT_SAMPLER_STATE
     ([h, s0] @ [lb, mi, ma, r, g, b, a]))"
  unfolding virgl_cmd_create_sampler_state_def [abs_def] by (rule encodes_bind [OF adds_floats]) simp_all

lemma encodes_clear:
  "encodes (virgl_cmd_clear bufs r g b a d st) (VCmd CCMD_CLEAR 0
     ([bufs] @ ([r, g, b, a] @ [ucast d, ucast (drop_bit 32 d)] @ [st])))"
proof -
  note tail = adds_bind [OF adds_floats [of "[r, g, b, a]"] adds_bind [OF adds_double [of d] adds_dword [of st]]]
  show ?thesis unfolding virgl_cmd_clear_def [abs_def] by (rule encodes_bind [OF tail]) simp_all
qed

lemma encodes_rasterizer:
  "encodes (virgl_cmd_create_rasterizer h s0 ps sc s3 lw ou os oc) (VCmd CCMD_CREATE_OBJECT OBJECT_RASTERIZER
     ([h, s0] @ ([ps] @ [sc, s3] @ [lw] @ [ou] @ [os] @ [oc])))"
proof -
  note tail = adds_bind [OF adds_float [of ps] adds_bind [OF adds_emits [of "[sc, s3]"] adds_bind [OF adds_float [of lw]
     adds_bind [OF adds_float [of ou] adds_bind [OF adds_float [of os] adds_float [of oc]]]]]]
  show ?thesis unfolding virgl_cmd_create_rasterizer_def [abs_def] by (rule encodes_bind [OF tail]) simp_all
qed

text \<open>Arrays and packed data: the payload length computed in 32 bits is the number of words emitted.\<close>

lemma encodes_arrays:
  assumes "unat n \<le> length hs" "unat n < 65000"
  shows "encodes (virgl_cmd_set_framebuffer_state n z hs) (VCmd CCMD_SET_FRAMEBUFFER_STATE 0 ([n, z] @ take (unat n) hs))"
    "encodes (virgl_cmd_set_sampler_views ty s n hs) (VCmd CCMD_SET_SAMPLER_VIEWS 0 ([ty, s] @ take (unat n) hs))"
    "encodes (virgl_cmd_bind_sampler_states ty s n hs) (VCmd CCMD_BIND_SAMPLER_STATES 0 ([ty, s] @ take (unat n) hs))"
  unfolding virgl_cmd_set_framebuffer_state_def [abs_def] virgl_cmd_set_sampler_views_def [abs_def]
    virgl_cmd_bind_sampler_states_def [abs_def] Let_def
  by (rule encodes_bind [OF adds_array [OF assms(1)]]; use assms in \<open>simp add: min_def\<close>)+

lemma concat_take_map:
  assumes "n \<le> length xs"
  shows "concat (map (\<lambda>i. h (xs ! i)) [0..<n]) = concat (map h (take n xs))"
proof -
  have "map (\<lambda>i. h (xs ! i)) [0..<n] = map h (map ((!) xs) [0..<n])" by simp
  then show ?thesis using map_nth_take [OF assms] by simp
qed

lemma adds_records:
  assumes "unat n \<le> length es"
  shows "adds (foldM (\<lambda>i cb. do { e \<leftarrow> rd es i; emits (h e) cb }) [0..<unat n]) (concat (map h (take (unat n) es)))"
proof -
  have "adds (foldM (\<lambda>i cb. do { e \<leftarrow> rd es i; emits (h e) cb }) [0..<unat n]) (concat (map (\<lambda>i. h (es ! i)) [0..<unat n]))"
    by (rule adds_foldM) (use assms in \<open>auto intro!: rd_array adds_emits\<close>)
  then show ?thesis by (simp only: concat_take_map [OF assms])
qed

lemma length_concat_const: "(\<And>x. length (h x) = k) \<Longrightarrow> length (concat (map h xs)) = k * length xs"
  by (induction xs) simp_all

lemma encodes_vertex_elements:
  assumes "unat n \<le> length es" "unat n < 16000"
  shows "encodes (virgl_cmd_create_vertex_elements h n es) (VCmd CCMD_CREATE_OBJECT OBJECT_VERTEX_ELEMENTS
     ([h] @ concat (map (\<lambda>e. [ve_src_offset e, ve_instance_divisor e, ve_vertex_buffer_index e, ve_src_format e])
        (take (unat n) es))))"
  unfolding virgl_cmd_create_vertex_elements_def [abs_def] Let_def
  by (rule encodes_bind [OF adds_records [OF assms(1)]])
    (use assms in \<open>simp_all add: length_concat_const [where k = 4] min_def mult.commute\<close>)

lemma encodes_vertex_buffers:
  assumes "unat n \<le> length bs" "unat n < 20000"
  shows "encodes (virgl_cmd_set_vertex_buffers n bs) (VCmd CCMD_SET_VERTEX_BUFFERS 0
     ([] @ concat (map (\<lambda>b. [vb_stride b, vb_buffer_offset b, vb_res_handle b]) (take (unat n) bs))))"
  unfolding virgl_cmd_set_vertex_buffers_def [abs_def] Let_def
  by (rule encodes_bind [OF adds_records [OF assms(1)]])
    (use assms in \<open>simp_all add: length_concat_const [where k = 3] min_def mult.commute\<close>)

lemma packed_length_word:
  assumes "unat n < 200000"
  shows "(of_nat ((unat n + 3) div 4) :: u32) = (n + 3) div 4"
proof -
  have "unat ((n + 3) div 4) = (unat n + 3) div 4"
    using assms by (simp add: unat_div_distrib unat_word_ariths)
  then show ?thesis using assms by (simp add: word_unat_eq_iff unat_of_nat)
qed

lemma encodes_inline_write:
  assumes "unat n \<le> length data" "unat n < 200000"
  shows "encodes (virgl_cmd_resource_inline_write r l u st ls x y z w h d data n) (VCmd CCMD_RESOURCE_INLINE_WRITE 0
     ([r, l, u, st, ls, x, y, z, w, h, d] @ pack4 (take (unat n) data)))"
proof -
  have a: "adds (emit_packed data 0 (unat n)) (pack4 (take (unat n) data))"
    using adds_packed [OF assms(1), of 0] by simp
  have l: "length (pack4 (take (unat n) data)) = (unat n + 3) div 4" using assms(1) by (simp add: length_pack4 min_def)
  show ?thesis
    unfolding virgl_cmd_resource_inline_write_def [abs_def] Let_def
    by (rule encodes_bind [OF a]) (use assms(2) packed_length_word [OF assms(2)] in \<open>simp_all add: l ac_simps\<close>)
qed

lemma virgl_strlen_result: "0 \<notin> set s \<Longrightarrow> virgl_strlen (s @ 0 # r) n = Some (n + of_nat (length s))"
  by (induction s arbitrary: n) (simp_all add: ac_simps)

lemma encodes_shader:
  assumes "0 \<notin> set s" "length s < 100000"
  shows "encodes (virgl_cmd_create_shader h ty (s @ 0 # r)) (VCmd CCMD_CREATE_OBJECT OBJECT_SHADER
     ([h, ty, of_nat (length s + 1), of_nat ((length s + 4) div 4), 0] @ pack4 (s @ [0])))"
proof -
  let ?n = "of_nat (length s) + 1 :: u32"
  have n: "unat ?n = length s + 1" using assms(2) by (simp add: unat_word_ariths unat_of_nat)
  define tw where "tw = (?n + 3) div 4"
  have w: "tw = of_nat ((length s + 4) div 4)"
    using packed_length_word [of ?n, unfolded n] assms(2) by (simp add: tw_def add.commute [of 3] add.commute [of 4] add.assoc)
  have a: "adds (emit_packed (s @ 0 # r) 0 (unat ?n)) (pack4 (s @ [0]))"
    using adds_packed [of "unat ?n" "s @ 0 # r" 0] by (simp add: n)
  have l: "length (pack4 (s @ [0])) = (length s + 4) div 4" by (simp add: length_pack4)
  have run: "virgl_cmd_create_shader h ty (s @ 0 # r) = (\<lambda>cb. do {
     cb \<leftarrow> emits (VIRGL_CMD_HDR CCMD_CREATE_OBJECT OBJECT_SHADER (5 + tw) # [h, ty, ?n, tw, 0]) cb;
     emit_packed (s @ 0 # r) 0 (unat ?n) cb })"
    by (rule ext) (simp add: virgl_cmd_create_shader_def virgl_strlen_result [OF assms(1)] Let_def tw_def)
  have "encodes (virgl_cmd_create_shader h ty (s @ 0 # r))
     (VCmd CCMD_CREATE_OBJECT OBJECT_SHADER ([h, ty, ?n, tw, 0] @ pack4 (s @ [0])))"
    unfolding run by (rule encodes_bind [OF a]) (use assms(2) in \<open>simp_all add: l w\<close>)
  then show ?thesis by (simp add: w add.commute)
qed

section \<open>Sequences of commands\<close>

lemma encodes_all:
  assumes "list_all2 encodes fs cs"
  shows "adds (foldM (\<lambda>f. f) fs) (concat (map encode_vcmd cs)) \<and> list_all vcmd_ok cs"
  using assms
proof (induction fs cs rule: list_all2_induct)
  case Nil
  then show ?case using adds_Some by (simp add: foldM_Nil)
next
  case (Cons f fs c cs)
  then show ?case using adds_bind [of f "encode_vcmd c" "foldM (\<lambda>f. f) fs"] by (simp add: encodes_def)
qed

lemma init_ok: "unat m \<le> length buf \<Longrightarrow> cb_ok (virgl_cmd_init buf m)" "cb_words (virgl_cmd_init buf m) = []"
  by (simp_all add: cb_ok_def virgl_cmd_init_def cb_words_def)

lemma run_encoders:
  assumes "list_all2 encodes fs cs" "unat m \<le> length buf"
  shows "\<exists>cb. foldM (\<lambda>f. f) fs (virgl_cmd_init buf m) = Some cb \<and> cb_ok cb \<and> vc_max_dwords cb = m
     \<and> cb_words cb = take (unat m) (concat (map encode_vcmd cs))"
  using encodes_all [OF assms(1)] init_ok(1) [OF assms(2)] init_ok(2) [of buf m]
  by (auto simp: adds_def appended_def virgl_cmd_init_def)

text \<open>Commands parsed from a stream account for all its words.\<close>

lemma parse_length: "parse_stream ws = Some cs \<Longrightarrow> length (concat (map encode_vcmd cs)) = length ws"
proof (induction ws arbitrary: cs rule: parse_stream.induct)
  case (2 h ws)
  then show ?case by (auto simp: Let_def split: if_splits Option.bind_splits)
qed simp

lemma cut_stream:
  assumes "m < length (concat (map encode_vcmd cs))"
  shows "parse_stream (take m (concat (map encode_vcmd cs))) \<noteq> Some cs"
  using assms parse_length [of "take m (concat (map encode_vcmd cs))" cs] by auto

end
