(* ===== verification/Virgl_Submit.thy ===== *)
theory Virgl_Submit
  imports Virgl_Encoder_Correct Gpu_Driver_Correct
begin

text \<open>
  Submission of a command buffer (\<open>virgl_submit\<close>, \<open>src/chip/chip_virgl.c\<close>): the composition of the
  encoder with \<open>SUBMIT_3D\<close>, and the poisoning of the context after a failure.
\<close>

definition virgl_submit :: "env \<Rightarrow> u32 \<Rightarrow> VirglCmdBuf \<Rightarrow> gpu \<Rightarrow> (bool \<times> VirglCmdBuf \<times> gpu) option" where
  "virgl_submit env ctx_id cbuf gs =
     (if vc_dwords cbuf = 0 then Some (True, cbuf, gs)
      else if g_virgl_ctx_error gs then Some (False, cbuf\<lparr>vc_dwords := 0\<rparr>, gs)
      else do {
        (ok, gs) \<leftarrow> with_io (chip_Submit3D env ctx_id (concat (map be32 (vc_buf cbuf))) (vc_dwords cbuf * 4)) gs;
        let cbuf = cbuf\<lparr>vc_dwords := 0\<rparr>;
        if \<not> ok then Some (False, cbuf, gs\<lparr>g_virgl_ctx_error := True\<rparr>)
        else Some (True, cbuf, gs) })"

text \<open>The words of a byte stream as the host reads them.\<close>

definition le_words :: "nat \<Rightarrow> bytes \<Rightarrow> u32 list" where
  "le_words n b = map (\<lambda>i. le_ld32 b (4 * i)) [0..<n]"

lemma nth_concat_be32:
  assumes "i < length ws" "k < 4"
  shows "concat (map be32 ws) ! (4 * i + k) = be32 (ws ! i) ! k"
  using assms
proof (induction ws arbitrary: i)
  case (Cons w ws)
  then show ?case by (cases i) (simp_all add: nth_append)
qed simp

lemma length_concat_be32: "length (concat (map be32 ws)) = 4 * length ws"
  by (induction ws) simp_all

lemma le_ld32_be32:
  assumes "i < length ws"
  shows "le_ld32 (concat (map be32 ws)) (4 * i) = GP32 (ws ! i)"
  using nth_concat_be32 [OF assms, of 0] nth_concat_be32 [OF assms, of 1] nth_concat_be32 [OF assms, of 2]
    nth_concat_be32 [OF assms, of 3]
  by (simp add: le_ld32_def be32_def GP32_def bswap32_def)

lemma le_words_take:
  assumes "take (4 * n) b = take (4 * n) (concat (map be32 ws))" "n \<le> length ws"
  shows "le_words n b = map GP32 (take n ws)"
proof (rule nth_equalityI)
  show l: "length (le_words n b) = length (map GP32 (take n ws))" using assms(2) by (simp add: le_words_def)
  fix i assume "i < length (le_words n b)"
  then have i: "i < n" by (simp add: le_words_def)
  have "b ! k = concat (map be32 ws) ! k" if "k < 4 * n" for k
    using assms(1) that by (metis nth_take)
  then have "le_ld32 b (4 * i) = le_ld32 (concat (map be32 ws)) (4 * i)" using i by (simp add: le_ld32_def)
  then show "le_words n b ! i = map GP32 (take n ws) ! i"
    using i assms(2) le_ld32_be32 [of i ws] by (simp add: le_words_def)
qed

lemma virgl_submit_result:
  assumes ok: "gpu_ok env lk gs" and b3: "i_cmd3d_buf (g_io gs) = Some b3" "length b3 = 65536"
    and cb: "cb_ok cb" "vc_max_dwords cb \<le> 16384" "vc_dwords cb \<noteq> 0" and err: "\<not> g_virgl_ctx_error gs"
  shows "\<exists>r cb' gs'. virgl_submit env ctx cb gs = Some (r, cb', gs') \<and> gpu_ok env lk gs' \<and> vc_dwords cb' = 0
     \<and> g_virgl_ctx_error gs' = (\<not> r)
     \<and> (\<not> r \<and> i_kicks (g_io gs') = i_kicks (g_io gs)
        \<or> (\<exists>k d. i_kicks (g_io gs') = i_kicks (g_io gs) @ [k] \<and> decode_cmd (k_cmd k) = Some (Submit3D ctx (vc_dwords cb * 4))
             \<and> k_cmd3d k = Some d \<and> le_words (unat (vc_dwords cb)) d = cb_words cb))"
proof -
  let ?n = "unat (vc_dwords cb)" and ?data = "concat (map be32 (vc_buf cb))"
  have n: "?n \<le> 16384" "?n \<le> length (vc_buf cb)" "0 < ?n"
    using cb by (auto simp: cb_ok_def word_le_nat_alt unat_gt_0)
  have sz: "unat (vc_dwords cb * 4) = 4 * ?n" using n(1) by (simp add: unat_word_ariths mult.commute)
  have "vc_dwords cb * 4 \<noteq> 0"
  proof
    assume "vc_dwords cb * 4 = 0"
    then have "unat (vc_dwords cb * 4) = unat (0 :: u32)" by (rule arg_cong)
    then show False using sz n(3) by simp
  qed
  then have pos: "0 < vc_dwords cb * 4" by (simp only: word_gt_0)
  have idle: "io_idle env lk (g_io gs)" using ok by (simp add: gpu_ok_def)
  have fits: "unat (vc_dwords cb * 4) \<le> 65536" "unat (vc_dwords cb * 4) \<le> length ?data"
    using n sz by (simp_all add: length_concat_be32)
  obtain r io' where s: "chip_Submit3D env ctx ?data (vc_dwords cb * 4) (g_io gs) = Some (r, io')" "io_idle env lk io'"
    "\<not> r \<and> i_kicks io' = i_kicks (g_io gs)
     \<or> (\<exists>k. i_kicks io' = i_kicks (g_io gs) @ [k] \<and> k_queue k = 0 \<and> decode_cmd (k_cmd k) = Some (Submit3D ctx (vc_dwords cb * 4))
             \<and> map_option (take (unat (vc_dwords cb * 4))) (k_cmd3d k) = Some (take (unat (vc_dwords cb * 4)) ?data))"
    using submit_3d_result [OF idle b3 pos fits, of ctx] by (elim exE conjE) (rule that)
  have kicked: "\<exists>k d. i_kicks io' = i_kicks (g_io gs) @ [k] \<and> decode_cmd (k_cmd k) = Some (Submit3D ctx (vc_dwords cb * 4))
             \<and> k_cmd3d k = Some d \<and> le_words ?n d = cb_words cb"
    if sent: "\<not> (\<not> r \<and> i_kicks io' = i_kicks (g_io gs))"
  proof -
    obtain k d where k: "i_kicks io' = i_kicks (g_io gs) @ [k]" "decode_cmd (k_cmd k) = Some (Submit3D ctx (vc_dwords cb * 4))"
      "k_cmd3d k = Some d" "take (4 * ?n) d = take (4 * ?n) ?data"
      using s(3) sent sz by auto
    show ?thesis using k le_words_take [OF k(4) n(2)] by (auto simp: cb_words_def)
  qed
  have run: "virgl_submit env ctx cb gs = Some (r, cb\<lparr>vc_dwords := 0\<rparr>,
      if r then gs\<lparr>g_io := io'\<rparr> else gs\<lparr>g_io := io', g_virgl_ctx_error := True\<rparr>)"
    using s(1) cb(3) err by (simp add: virgl_submit_def with_io_def)
  let ?gs' = "if r then gs\<lparr>g_io := io'\<rparr> else gs\<lparr>g_io := io', g_virgl_ctx_error := True\<rparr>"
  have ok': "gpu_ok env lk ?gs'" using ok s(2) by (cases r) (simp_all add: gpu_ok_def)
  have err': "g_virgl_ctx_error ?gs' = (\<not> r)" using err by (cases r) simp_all
  have io: "g_io ?gs' = io'" by (cases r) simp_all
  show ?thesis
  proof (intro exI conjI)
    show "virgl_submit env ctx cb gs = Some (r, cb\<lparr>vc_dwords := 0\<rparr>, ?gs')" by (rule run)
    show "gpu_ok env lk ?gs'" by (rule ok')
    show "g_virgl_ctx_error ?gs' = (\<not> r)" by (rule err')
    show "\<not> r \<and> i_kicks (g_io ?gs') = i_kicks (g_io gs)
      \<or> (\<exists>k d. i_kicks (g_io ?gs') = i_kicks (g_io gs) @ [k] \<and> decode_cmd (k_cmd k) = Some (Submit3D ctx (vc_dwords cb * 4))
             \<and> k_cmd3d k = Some d \<and> le_words ?n d = cb_words cb)"
      unfolding io using kicked by blast
  qed simp
qed

end
