(* ===== verification/Virtqueue_Properties.thy ===== *)
theory Virtqueue_Properties
  imports Queue_Interface
begin

text \<open>
  The properties of the virtqueue: allocation, posting, collecting, and sequences of
  them, with concrete queues of four slots as witnesses.
\<close>

section \<open>A four-slot queue\<close>

definition demo_queue :: "bool \<Rightarrow> bool \<Rightarrow> virtqueue" where
  "demo_queue modern ind =
     \<lparr>vq_index = 0, vq_num = 4,
      vq_desc = map (\<lambda>n. zero_desc\<lparr>d_next := n\<rparr>) [1, 2, 3, 0],
      vq_avail_flags = 0, vq_avail_idx = 0, vq_avail_ring = [0, 0, 0, 0, 0],
      vq_used_flags = 0, vq_used_idx = 0,
      vq_used_ring = replicate 4 \<lparr>u_id = 0, u_len = 0\<rparr>,
      vq_free_head = 0, vq_num_free = 4, vq_last_used_idx = 0,
      vq_cookies = [0, 0, 0, 0], vq_mem_block = 4096, vq_mem_size = 8192, vq_vq_ptr = 64,
      vq_cookies_ptr = 128, vq_itables_ptr = 192, vq_dma_entries = 0, vq_dma_phys = 4096,
      vq_avail_phys = 4160, vq_used_phys = 8192, vq_notify_addr = 0, vq_notify_bar_off = 0,
      vq_modern = modern, vq_use_event_idx = False, vq_last_kick_avail_idx = 0, vq_use_indirect = ind,
      vq_indirect_tables = [0, 0, 0, 0], vq_itbl_mem = (\<lambda>_. [])\<rparr>"

definition demo_exec :: exec where
  "demo_exec = \<lparr>ex_step = 0, ex_alloc_res = (\<lambda>k. of_nat (4096 * (k + 1))), ex_sdma_res = (\<lambda>_. 1),
     ex_obj_res = (\<lambda>_. 77), ex_signal_res = (\<lambda>_. 5), ex_phys = (\<lambda>p. p), ex_live = [], ex_dma = [],
     ex_objs = [], ex_signals = []\<rparr>"

definition demo_sg :: "vring_sg list" where
  "demo_sg = [\<lparr>sg_addr = 0x1000, sg_len = 24\<rparr>, \<lparr>sg_addr = 0x2000, sg_len = 24\<rparr>]"

lemma demo_queue_inv: "vq_inv (demo_queue m ind) [0, 1, 2, 3] []"
  by (simp add: vq_inv_def vq_wf_def demo_queue_def)

lemma demo_valid: "valid_request (demo_sg, 1, 1, 9)"
  by (simp add: valid_request_def demo_sg_def)

section \<open>Allocation\<close>

lemma allocate_cases:
  assumes "0 < unat q" "unat q \<le> 32768"
  shows "\<exists>r ex'. VirtQueue_Allocate ex qi q = Some (r, ex') \<and>
    (case r of None \<Rightarrow> holdings ex' = holdings ex
     | Some vq \<Rightarrow> vq_inv vq (map of_nat [0..<unat q]) [] \<and> vq_num vq = q
         \<and> holdings (VirtQueue_Free ex' (Some vq)) = holdings ex)"
proof -
  let ?d = "map (\<lambda>j. zero_desc\<lparr>d_next := if Suc j < unat q then of_nat (Suc j) else 0\<rparr>) [0..<unat q]"
  have len: "length (map of_nat [0..<unat q] :: u16 list) = unat q" by simp
  have path: "free_path ?d 0 (map of_nat [0..<unat q]) 0"
    using init_free_path [of "unat q" 0] assms by simp
  obtain p1 e1 where 1: "AllocVecTags ex = (p1, e1)" by force
  obtain p2 e2 where 2: "AllocVecTags e1 = (p2, e2)" by force
  obtain p3 e3 where 3: "AllocVecTags e2 = (p3, e3)" by force
  obtain p4 e4 where 4: "AllocVecTags e3 = (p4, e4)" by force
  obtain a b c where l: "vring_layout q = (a, b, c)" by (cases "vring_layout q") auto
  note eqs = 1 2 3 4 l
  show ?thesis
  proof (cases "p1 = 0 \<or> p2 = 0 \<or> p3 = 0 \<or> p4 = 0")
    case True
    then show ?thesis using eqs
      by (auto simp: VirtQueue_Allocate_def Let_def holdings_def exec_defs)
  next
    case False
    have small: "unat (ucast q :: u16) = unat q" using assms by simp
    show ?thesis using False eqs assms path small distinct_of_nat16 [of "unat q"]
      by (auto simp: VirtQueue_Allocate_def init_free_chain_ok Let_def vq_inv_def vq_wf_def
          VirtQueue_Free_def holdings_def exec_defs)
  qed
qed

text \<open>
  Property C1. VirtQueue_Allocate, for every queue size a device can report (1 to 32768), never
  writes outside the descriptor table; it either fails with every allocation given back, or
  returns a queue whose free list is 0, 1, ..., num-1 and whose release through VirtQueue_Free
  gives back exactly what it took.
\<close>

theorem virtqueue_allocate_balanced:
  assumes "0 < unat q" "unat q \<le> 32768"
  shows "\<exists>r ex'. VirtQueue_Allocate ex qi q = Some (r, ex') \<and>
    (case r of None \<Rightarrow> holdings ex' = holdings ex
     | Some vq \<Rightarrow> vq_inv vq (map of_nat [0..<unat q]) [] \<and> vq_num vq = q
         \<and> holdings (VirtQueue_Free ex' (Some vq)) = holdings ex)"
  by (rule allocate_cases [OF assms])

theorem virtqueue_allocate_balanced_witness:
  "\<exists>r ex'. VirtQueue_Allocate demo_exec 0 64 = Some (r, ex') \<and>
    (case r of None \<Rightarrow> holdings ex' = holdings demo_exec
     | Some vq \<Rightarrow> vq_inv vq (map of_nat [0..<unat (64 :: u32)]) [] \<and> vq_num vq = 64
         \<and> holdings (VirtQueue_Free ex' (Some vq)) = holdings demo_exec)"
  by (rule virtqueue_allocate_balanced) simp_all

text \<open>
  Property C2. The three ring regions that VirtQueue_Allocate lays out do not overlap: for up to
  32768 entries nothing wraps in 32 bits, the available ring with its used_event word ends before
  the used ring, the used ring starts on a 4096-byte boundary less than a page later, and the
  block ends after the last used element.
\<close>

theorem vring_layout_disjoint:
  assumes "unat q \<le> 32768"
  shows "case vring_layout q of (avail_off, used_off, tot_mem) \<Rightarrow>
     unat avail_off = 16 * unat q \<and> unat avail_off + 2 * (3 + unat q) \<le> unat used_off
     \<and> unat used_off < unat avail_off + 2 * (3 + unat q) + 4096
     \<and> unat used_off mod 4096 = 0 \<and> unat tot_mem = unat used_off + 6 + 8 * unat q"
proof -
  obtain a u t where l: "vring_layout q = (a, u, t)" by (cases "vring_layout q") auto
  have v: "unat a = 16 * unat q" "unat u = (18 * unat q + 6 + 4095) div 4096 * 4096"
      "unat t = (18 * unat q + 6 + 4095) div 4096 * 4096 + 6 + 8 * unat q"
    using vring_layout_values [OF assms] l by simp_all
  have "18 * unat q + 6 \<le> (18 * unat q + 6 + 4095) div 4096 * 4096"
    "(18 * unat q + 6 + 4095) div 4096 * 4096 < 18 * unat q + 6 + 4096" by linarith+
  then show ?thesis using v l by simp
qed

theorem vring_layout_disjoint_witness:
  "case vring_layout 256 of (avail_off, used_off, tot_mem) \<Rightarrow>
     unat avail_off = 16 * unat (256 :: u32) \<and> unat avail_off + 2 * (3 + unat (256 :: u32)) \<le> unat used_off
     \<and> unat used_off < unat avail_off + 2 * (3 + unat (256 :: u32)) + 4096
     \<and> unat used_off mod 4096 = 0 \<and> unat tot_mem = unat used_off + 6 + 8 * unat (256 :: u32)"
proof -
  have "unat (256 :: u32) \<le> 32768" by simp
  then show ?thesis by (rule vring_layout_disjoint [of 256])
qed

section \<open>Posting and collecting\<close>

text \<open>
  Property C3. VirtQueue_AddBuf refines the abstract descriptor allocator: on a well-formed queue it
  never touches memory out of range; it returns -1, the queue and the kernel holdings unchanged,
  only when fewer than the requested descriptors are free; otherwise it moves a prefix of
  the free list (the whole request, or one descriptor with an indirect table) to the device and
  publishes its head.
\<close>

theorem addbuf_refines_allocator:
  assumes "vq_inv vq fs cs" "valid_request (sg, out_num, in_num, cookie)"
  shows "\<exists>rc ex' vq'. VirtQueue_AddBuf ex vq sg out_num in_num cookie = Some (rc, ex', vq') \<and>
     (rc = -1 \<and> vq' = vq \<and> holdings ex' = holdings ex \<and> length fs < unat (out_num + in_num)
      \<or> rc = 0 \<and> (\<exists>k. (k = unat (out_num + in_num) \<or> k = 1 \<and> vq_use_indirect vq) \<and> 0 < k \<and> k \<le> length fs \<and>
           vq_inv vq' (drop k fs) (take k fs # cs)) \<and> published vq (hd fs) vq'
         \<and> vq_cookies vq' = (vq_cookies vq)[unat (hd fs) := cookie]
         \<and> vq_const vq' = vq_const vq \<and> vq_last_used_idx vq' = vq_last_used_idx vq
         \<and> vq_used_ring vq' = vq_used_ring vq \<and> vq_used_idx vq' = vq_used_idx vq)"
  by (rule addbuf_cases [OF assms])

theorem addbuf_refines_allocator_witness:
  "\<exists>rc ex' vq'. VirtQueue_AddBuf demo_exec (demo_queue True True) demo_sg 1 1 9 = Some (rc, ex', vq') \<and>
     (rc = -1 \<and> vq' = demo_queue True True \<and> holdings ex' = holdings demo_exec
        \<and> length [0, 1, 2, 3 :: u16] < unat (1 + 1 :: u32)
      \<or> rc = 0 \<and> (\<exists>k. (k = unat (1 + 1 :: u32) \<or> k = 1 \<and> vq_use_indirect (demo_queue True True)) \<and> 0 < k \<and>
           k \<le> length [0, 1, 2, 3 :: u16] \<and>
           vq_inv vq' (drop k [0, 1, 2, 3]) (take k [0, 1, 2, 3] # []))
         \<and> published (demo_queue True True) (hd [0, 1, 2, 3]) vq'
         \<and> vq_cookies vq' = (vq_cookies (demo_queue True True))[unat (hd [0, 1, 2, 3 :: u16]) := 9]
         \<and> vq_const vq' = vq_const (demo_queue True True) \<and> vq_last_used_idx vq' = vq_last_used_idx (demo_queue True True)
         \<and> vq_used_ring vq' = vq_used_ring (demo_queue True True) \<and> vq_used_idx vq' = vq_used_idx (demo_queue True True))"
  by (rule addbuf_refines_allocator [OF demo_queue_inv demo_valid])



text \<open>
  Property C5. VirtQueue_GetBuf on a chain the device reports used: it returns the stored
  cookie and the written length, clears the cookie slot, puts the chain's descriptors back in front of
  the free list (last one first), frees the indirect table if there was one, and consumes
  exactly one used element.
\<close>

theorem getbuf_refines_allocator:
  assumes "vq_inv vq fs cs" "c \<in> set cs" "used_pending vq" "fst (used_elem vq) = ucast (hd c)"
  shows "\<exists>ex' vq'. VirtQueue_GetBuf ex vq =
       Some (vq_cookies vq ! unat (hd c), Some (snd (used_elem vq)), ex', vq')
     \<and> vq_inv vq' (rev c @ fs) (remove1 c cs)
     \<and> vq_last_used_idx vq' = vq_last_used_idx vq + 1
     \<and> vq_cookies vq' = (vq_cookies vq)[unat (hd c) := 0]
     \<and> ex' = (let t = vq_indirect_tables vq ! unat (hd c) in
               if t = 0 then ex else FreeVec t (EndDMA t ex))"
  using getbuf_ok [OF assms] by blast

text \<open>The state after one posted and completed request, as a concrete queue.\<close>

definition demo_posted :: virtqueue where
  "demo_posted = (demo_queue True False)
     \<lparr>vq_desc := [\<lparr>d_addr = bswap64 0x1000, d_len = bswap32 24, d_flags = bswap16 1, d_next = bswap16 1\<rparr>,
                 \<lparr>d_addr = bswap64 0x2000, d_len = bswap32 24, d_flags = bswap16 2, d_next = 2\<rparr>,
                 zero_desc\<lparr>d_next := 3\<rparr>, zero_desc],
      vq_free_head := 2, vq_num_free := 2, vq_cookies := [9, 0, 0, 0], vq_avail_idx := bswap16 1,
      vq_used_idx := bswap16 1,
      vq_used_ring := [\<lparr>u_id = 0, u_len = bswap32 24\<rparr>, \<lparr>u_id = 0, u_len = 0\<rparr>, \<lparr>u_id = 0, u_len = 0\<rparr>, \<lparr>u_id = 0, u_len = 0\<rparr>]\<rparr>"

lemma demo_posted_inv: "vq_inv demo_posted [2, 3] [[0, 1]]"
  by (simp add: vq_inv_def vq_wf_def demo_posted_def demo_queue_def inflight_ok_def has_next_def vr16_def)

lemma demo_posted_used: "used_pending demo_posted" "fst (used_elem demo_posted) = ucast (hd [0 :: u16, 1])"
  by (simp_all add: used_pending_def used_elem_def demo_posted_def demo_queue_def vr16_def vr32_def)

theorem getbuf_refines_allocator_witness:
  "\<exists>ex' vq'. VirtQueue_GetBuf demo_exec demo_posted =
       Some (vq_cookies demo_posted ! unat (hd [0 :: u16, 1]), Some (snd (used_elem demo_posted)), ex', vq')
     \<and> vq_inv vq' (rev [0, 1] @ [2, 3]) (remove1 [0, 1] [[0, 1]])
     \<and> vq_last_used_idx vq' = vq_last_used_idx demo_posted + 1
     \<and> vq_cookies vq' = (vq_cookies demo_posted)[unat (hd [0 :: u16, 1]) := 0]
     \<and> ex' = (let t = vq_indirect_tables demo_posted ! unat (hd [0 :: u16, 1]) in
               if t = 0 then demo_exec else FreeVec t (EndDMA t demo_exec))"
  by (rule getbuf_refines_allocator [OF demo_posted_inv _ demo_posted_used]) simp

text \<open>
  A used element whose id is not a descriptor index changes nothing but the consumed
  index: no cookie is returned and no array is touched.
\<close>

theorem getbuf_skips_bogus_id:
  assumes "vq_wf vq" "used_pending vq" "vq_num vq \<le> fst (used_elem vq)"
  shows "VirtQueue_GetBuf ex vq =
     Some (0, None, ex, vq\<lparr>vq_last_used_idx := vq_last_used_idx vq + 1\<rparr>)"
  by (rule getbuf_bogus [OF assms])

theorem getbuf_skips_bogus_id_witness:
  "VirtQueue_GetBuf demo_exec (device_used (demo_queue False False) 40 0) =
     Some (0, None, demo_exec, (device_used (demo_queue False False) 40 0)
       \<lparr>vq_last_used_idx := vq_last_used_idx (device_used (demo_queue False False) 40 0) + 1\<rparr>)"
  by (rule getbuf_skips_bogus_id)
    (simp_all add: vq_wf_def used_pending_def used_elem_def device_used_def demo_queue_def vr16_def vr32_def)

text \<open>
  Property C6. Any number of polls with VirtQueue_GetBuf, with any completions of posted chains
  outstanding, keeps the queue well formed: no descriptor is lost or freed twice, and exactly
  the reported chains are collected, in the order the device reported them.
\<close>

theorem polls_conserve_descriptors:
  assumes "queue_inv q fs cs us"
  shows "\<exists>fs' cs'. queue_inv ((queue_collect ^^ n) q) fs' cs' (drop n us)
     \<and> queue_slots ((queue_collect ^^ n) q) = queue_slots q
     \<and> mset fs \<subseteq># mset fs' \<and> mset cs' \<subseteq># mset cs \<and> length cs' = length cs - min n (length us)"
  by (rule vqueue.poll_inv [OF assms])

lemma demo_posted_queue_inv: "queue_inv (demo_exec, demo_posted) [2, 3] [[0, 1]] [0]"
  using demo_posted_inv
  by (simp add: queue_inv_def used_list_def) (simp add: demo_posted_def demo_queue_def vr16_def vr32_def)

theorem polls_conserve_descriptors_witness:
  "\<exists>fs' cs'. queue_inv ((queue_collect ^^ 3) (demo_exec, demo_posted)) fs' cs' (drop 3 [0])
     \<and> queue_slots ((queue_collect ^^ 3) (demo_exec, demo_posted)) = queue_slots (demo_exec, demo_posted)
     \<and> mset [2, 3] \<subseteq># mset fs' \<and> mset cs' \<subseteq># mset [[0, 1]]
     \<and> length cs' = length [[0 :: u16, 1]] - min 3 (length [0 :: u16])"
  by (rule polls_conserve_descriptors [OF demo_posted_queue_inv])

end
