(* ===== verification/Gpu_Properties.thy ===== *)
theory Gpu_Properties
  imports Gpu_Driver_Correct Virtqueue_Properties
begin

text \<open>
  The properties of the command layer: transactions, what each command shows the device, the
  driver operations built from them.  The concrete driver of the witnesses has two queues of four
  slots and a device that completes every request at once.
\<close>

section \<open>A concrete driver\<close>

definition demo_env :: env where
  "demo_env = \<lparr>e_complete = (\<lambda>_ _. [(0, 24)]), e_resp = (\<lambda>_. le32 RESP_OK_NODATA), e_wakes = (\<lambda>_. True)\<rparr>"

definition demo_io :: "nat \<Rightarrow> io" where
  "demo_io n = \<lparr>i_exec = demo_exec, i_task = 9, i_ctrlq = Some (demo_queue True False),
     i_cursq = Some (demo_queue True False), i_ctrl_dev = \<lparr>dq_seen = 0, dq_held = []\<rparr>,
     i_curs_dev = \<lparr>dq_seen = 0, dq_held = []\<rparr>, i_clock = 0, i_cmd_buf = replicate n 0, i_cmd_buf_phys = 0x1000,
     i_resp_buf = replicate n 0, i_resp_buf_phys = 0x2000, i_cursor_cmd_buf = Some (replicate n 0),
     i_cursor_cmd_phys = 0x3000, i_cmd3d_buf = Some (replicate (16 * n) 0), i_cmd3d_phys = 0x10000,
     i_io_depth = 0, i_cursor_locked = False, i_irq_installed = True, i_ctrlq_wait_task = 0,
     i_ctrlq_wait_mask = 0, i_cursorq_wait_task = 0, i_cursorq_wait_mask = 0, i_vio = demo_vio True,
     i_bus = \<lparr>bus_answer = (\<lambda>_. 0), bus_log = []\<rparr>, i_kicks = [], i_hot_stage = [], i_wait_entries = 0, i_wait_exits = 0\<rparr>"

lemma demo_q: "io_q sel (demo_io n) [0, 1, 2, 3] [] []"
proof -
  have "q_state (demo_queue True False) \<lparr>dq_seen = 0, dq_held = []\<rparr> [0, 1, 2, 3] [] []"
  proof -
    have z: "vr16 m 0 = 0" for m by (simp add: vr16_def bswap16_def mk16_def byte_of_def word_at_def)
    have "used_list (demo_queue True False) []" by (simp add: used_list_def demo_queue_def z)
    moreover have "unfetched (demo_queue True False) \<lparr>dq_seen = 0, dq_held = []\<rparr> = []"
      by (simp add: unfetched_def demo_queue_def z)
    ultimately show ?thesis using demo_queue_inv [of True False] by (simp add: q_state_def)
  qed
  then show ?thesis by (cases sel) (simp_all add: io_q_def demo_io_def)
qed

lemma demo_ready: "io_ready demo_env (demo_io n)"
  using demo_q [of _ n]
  by (auto simp: io_ready_def queue_ok_def waits_return_def demo_env_def no_waiter_def can_kick_def)
    (simp_all add: demo_io_def demo_vio_def)

lemma demo_idle: "io_idle demo_env 0 (demo_io 4096)"
  using demo_ready by (simp add: io_idle_def cmd3d_ok_def) (simp add: demo_io_def)

section \<open>Transactions\<close>



section \<open>What the commands show the device\<close>



text \<open>
  ATTACH_BACKING shows the device the DMA entries in order, but never more than
  254 of them: a longer list is cut silently, and the command can still succeed.
\<close>

theorem attach_backing_delivered:
  assumes "io_idle env lk io" "unat n \<le> length dl"
  shows "delivers env lk (AttachBacking rid (map (\<lambda>e. (ucast (de_phys e), de_len e)) (take (min 254 (unat n)) dl)))
     (chip_ResourceAttachBacking env rid dl n) io"
proof -
  have "unat (clamp 254 n) = min 254 (unat n)" by (auto simp: clamp_def word_less_nat_alt)
  then show ?thesis using delivers_attach_backing [OF assms, of rid] by simp
qed

theorem attach_backing_delivered_witness:
  "delivers demo_env 0 (AttachBacking 5 (map (\<lambda>e. (ucast (de_phys e), de_len e))
       (take (min 254 (unat (300 :: u32))) (replicate 300 \<lparr>de_phys = 0x4000, de_len = 4096\<rparr>))))
     (chip_ResourceAttachBacking demo_env 5 (replicate 300 \<lparr>de_phys = 0x4000, de_len = 4096\<rparr>) 300) (demo_io 4096)"
  using attach_backing_delivered [OF demo_idle, of 300 "replicate 300 \<lparr>de_phys = 0x4000, de_len = 4096\<rparr>" 5]
  by simp

text \<open>
  Property C13. The 3D commands of the context and resource life cycle, decoded likewise: context
  attachment, resource creation with its eleven parameters, transfers with their box and 64-bit
  offset in both directions.
\<close>

theorem commands_3d_delivered:
  assumes "io_idle env lk io"
  shows "delivers env lk (CtxAttach ctx rid) (chip_CTXAttachResource env ctx rid) io
    \<and> delivers env lk (CtxDetach ctx rid) (chip_CTXDetachResource env ctx rid) io
    \<and> delivers env lk (ResourceCreate3D [rid, target, fmt, bindf, w, h, d, asz, ll, ns, fl])
        (chip_ResourceCreate3D env rid target fmt bindf w h d asz ll ns fl) io
    \<and> delivers env lk (TransferToHost3D ctx box off rid lvl st ls) (chip_TransferToHost3D env ctx rid lvl st ls off box) io
    \<and> delivers env lk (TransferFromHost3D ctx box off rid lvl st ls) (chip_TransferFromHost3D env ctx rid lvl st ls off box) io"
  using assms by (simp add: delivers_ctx_attach delivers_ctx_detach delivers_create_3d delivers_transfer_to_3d
      delivers_transfer_from_3d)

theorem commands_3d_delivered_witness:
  "delivers demo_env 0 (CtxAttach 1 7) (chip_CTXAttachResource demo_env 1 7) (demo_io 4096)"
  using commands_3d_delivered [OF demo_idle] by blast

text \<open>
  CTX_CREATE carries the debug name up to its terminator, cut to 63 characters, with
  the matching length field, and reads no byte behind the terminator or behind the 63rd.
\<close>

theorem ctx_create_delivered:
  assumes "io_idle env lk io" "terminated 63 name"
  shows "delivers env lk (CtxCreate ctx ci (c_string 63 name)) (chip_CTXCreate env ctx (Some name) ci) io
    \<and> delivers env lk (CtxCreate ctx ci []) (chip_CTXCreate env ctx None ci) io"
  using assms delivers_ctx_create [OF assms(1), of "Some name" ctx ci] delivers_ctx_create [OF assms(1), of None ctx ci]
  by simp

theorem ctx_create_delivered_witness:
  "delivers demo_env 0 (CtxCreate 1 0 (c_string 63 [97, 109, 0])) (chip_CTXCreate demo_env 1 (Some [97, 109, 0]) 0) (demo_io 4096)"
  using ctx_create_delivered [OF demo_idle, of "[97, 109, 0]"] by (simp add: terminated_def)

text \<open>
  SUBMIT_3D on a stream of 1 to 65536 bytes: header and stream reach the device as
  they were given, in one request of three buffers, and the result is TRUE only on an OK
  response; empty, oversized and unallocated cases are refused without any effect.
\<close>

theorem submit_3d_delivered:
  assumes "io_idle env lk io" "i_cmd3d_buf io = Some b3" "length b3 = 65536" "0 < sz" "unat sz \<le> 65536" "unat sz \<le> length data"
  shows "(\<exists>ok io'. chip_Submit3D env ctx data sz io = Some (ok, io') \<and> io_idle env lk io'
     \<and> (ok \<longrightarrow> le_ld32 (i_resp_buf io') 0 = RESP_OK_NODATA)
     \<and> (\<not> ok \<and> i_kicks io' = i_kicks io
        \<or> (\<exists>k. i_kicks io' = i_kicks io @ [k] \<and> k_queue k = 0 \<and> decode_cmd (k_cmd k) = Some (Submit3D ctx sz)
             \<and> map_option (take (unat sz)) (k_cmd3d k) = Some (take (unat sz) data))))
     \<and> chip_Submit3D env ctx data 0 io = Some (False, io) \<and> chip_Submit3D env ctx data 65537 io = Some (False, io)"
  using submit_3d_result [OF assms] submit_3d_rejects(1) [of env ctx data io]
    submit_3d_rejects(2) [of 65537 env ctx data io] by simp

theorem submit_3d_delivered_witness:
  "\<exists>ok io'. chip_Submit3D demo_env 1 [1, 2, 3, 4] 4 (demo_io 4096) = Some (ok, io') \<and> io_idle demo_env 0 io'"
proof -
  have "i_cmd3d_buf (demo_io 4096) = Some (replicate (16 * 4096) 0)" by (simp only: demo_io_def io.simps)
  moreover have "length (replicate (16 * 4096) (0 :: u8)) = 65536" by simp
  ultimately show ?thesis
    using submit_3d_delivered [OF demo_idle, of "replicate (16 * 4096) 0" 4 "[1, 2, 3, 4]" 1] by auto
qed

text \<open>
  A late completion is taken for the response of the next request: with one request
  of the task timed out and still with the device, the device completes only that one; the next
  \<open>chip_do_io\<close> of the same task returns its length, while its own request (head 2) is still
  with the device.
\<close>

definition late_io :: io where
  "late_io = (case VirtQueue_AddBuf demo_exec (demo_queue True False) demo_sg 1 1 9 of
     Some (_, ex, vq) \<Rightarrow> (demo_io 2)\<lparr>i_exec := ex, i_ctrlq := Some vq\<rparr> | None \<Rightarrow> demo_io 2)"

theorem late_completion_taken:
  "map_option (\<lambda>(n, io). (n, dq_held (i_ctrl_dev io))) (chip_do_io demo_env 24 24 late_io) = Some (24, [2])"
  by code_simp

section \<open>Driver operations\<close>

definition demo_gpu :: gpu where
  "demo_gpu = \<lparr>g_io = demo_io 4096, g_dma_lists = (\<lambda>m. [\<lparr>de_phys = m, de_len = 4096\<rparr>]),
     g_scanout_log_x = [0, 0, 0, 0], g_scanout_log_y = [0, 0, 0, 0], g_scanout_log_w = [0, 0, 0, 0],
     g_scanout_log_h = [0, 0, 0, 0], g_fb_mem = 0x8000, g_fb_phys = 0x8000, g_fb_size = 0x12C000, g_fb_stride = 2560,
     g_fb_width = 640, g_fb_height = 480, g_resource_id = 1, g_fb_resource_id = 1, g_fb_dma_count = 1,
     g_fb_dma_list = 0x9000, g_fb_resource_id2 = 4, g_fb_is_blob = True, g_next_resource_id = 1, g_next_ctx_id = 1,
     g_cursor_mem = 0, g_cursor_phys = 0, g_cursor_resource_id = 2, g_cursor_created = False, g_cursor_x = 0,
     g_cursor_y = 0, g_cursor_last_sent_x = 0, g_cursor_last_sent_y = 0, g_has_edid = False, g_edid_size = 0,
     g_edid = replicate 1024 0, g_edid_native_w = 0, g_edid_native_h = 0, g_edid_dtd_count = 0,
     g_edid_dtd_w = replicate 16 0, g_edid_dtd_h = replicate 16 0, g_has_virgl = True, g_num_capsets = 2,
     g_virgl_capset_id = 0, g_virgl_capset_ver = 0, g_virgl_capset_size = 0, g_virgl_caps = replicate 2048 0,
     g_virgl_caps_valid = False, g_has_blob = True, g_virgl_ctx_error = False\<rparr>"

lemma demo_gpu_ok: "gpu_ok demo_env 0 demo_gpu" "edid_arrays_ok demo_gpu" "dma_lists_ok demo_gpu"
  using demo_idle by (simp_all add: gpu_ok_def edid_arrays_ok_def dma_lists_ok_def demo_gpu_def)
    (simp add: demo_io_def demo_exec_def)

text \<open>
  \<open>chip_SetScanout\<close> returns after at most three attempts, each of them the same
  command; it reports success only on an OK response and touches neither the framebuffer
  record nor the transport's soundness.
\<close>

theorem set_scanout_at_most_three:
  assumes "gpu_ok env lk gs"
  shows "\<exists>ok gs'. chip_SetScanout env sid rid x y w h gs = Some (ok, gs') \<and> gpu_ok env lk gs' \<and> fb_view gs' = fb_view gs
     \<and> (ok \<longrightarrow> le_ld32 (i_resp_buf (g_io gs')) 0 = RESP_OK_NODATA)
     \<and> told_times 3 (SetScanout \<lparr>r_x = x, r_y = y, r_w = w, r_h = h\<rparr> sid rid) (g_io gs) (g_io gs')"
  by (rule chip_SetScanout_result [OF assms])

theorem set_scanout_at_most_three_witness:
  "\<exists>ok gs'. chip_SetScanout demo_env 0 1 0 0 640 480 demo_gpu = Some (ok, gs') \<and> gpu_ok demo_env 0 gs'"
  using set_scanout_at_most_three [OF demo_gpu_ok(1)] by blast


text \<open>
  Property C15. Parsing an EDID blob, in bounds for every content and every size: the arrays end up
  holding the timings of the base block and of the CEA extension blocks that lie inside the
  blob, in order, without repetitions, without zero sizes, at most sixteen, and all of them
  if there are fewer.
\<close>

theorem parse_edid_refines_timings:
  assumes "unat sz \<le> length edid" "length ws = 16" "length hs = 16"
  shows "\<exists>st L. parse_edid edid sz (0, ws, hs) = Some st \<and> dtds_rep st L
     \<and> L = keep_all (edid_timings edid (unat sz)) [] \<and> distinct L \<and> length L \<le> 16
     \<and> (\<forall>t\<in>set L. fst t \<noteq> 0 \<and> snd t \<noteq> 0 \<and> t \<in> set (edid_timings edid (unat sz)))
     \<and> (length L < 16 \<longrightarrow> (\<forall>t\<in>set (edid_timings edid (unat sz)). fst t \<noteq> 0 \<and> snd t \<noteq> 0 \<longrightarrow> t \<in> set L))"
proof -
  have rep: "dtds_rep (0, ws, hs) []" using assms(2,3) by (simp add: dtds_rep_def)
  let ?ts = "edid_timings edid (unat sz)"
  obtain st where "parse_edid edid sz (0, ws, hs) = Some st" "dtds_rep st (keep_all ?ts [])"
    using parse_edid_spec [OF rep assms(1)] by blast
  moreover have "distinct (keep_all ?ts []) \<and> length (keep_all ?ts []) \<le> 16
      \<and> (\<forall>t\<in>set (keep_all ?ts []). fst t \<noteq> 0 \<and> snd t \<noteq> 0) \<and> set (keep_all ?ts []) \<subseteq> set ?ts"
    using keep_all_sound [of "[]" ?ts] by simp
  moreover have "\<forall>t\<in>set ?ts. fst t \<noteq> 0 \<and> snd t \<noteq> 0 \<longrightarrow> t \<in> set (keep_all ?ts [])" if "length (keep_all ?ts []) < 16"
    using keep_all_complete [of _ ?ts "[]"] that by blast
  ultimately show ?thesis by (intro exI [of _ st] exI [of _ "keep_all ?ts []"]) blast
qed

theorem parse_edid_refines_timings_witness:
  "\<exists>st L. parse_edid (replicate 128 1) 128 (0, replicate 16 0, replicate 16 0) = Some st \<and> dtds_rep st L
     \<and> length L \<le> 16"
  using parse_edid_refines_timings [of 128 "replicate 128 1" "replicate 16 0" "replicate 16 0"] by auto

text \<open>
  Property C16. \<open>chip_GetEDID\<close> returns for every answer of the device; \<open>has_edid\<close> tells whether it
  succeeded; the stored size never exceeds the 1024-byte array; and the native resolution is the
  first timing kept, or (0, 0) when there is none.
\<close>

theorem get_edid_total:
  assumes "gpu_ok env lk gs" "edid_arrays_ok gs"
  shows "\<exists>r gs'. chip_GetEDID env scanout gs = Some (r, gs') \<and> gpu_ok env lk gs' \<and> g_has_edid gs' = r
     \<and> edid_arrays_ok gs' \<and> (r \<longrightarrow> unat (g_edid_size gs') \<le> 1024
       \<and> (\<exists>L. L = keep_all (edid_timings (g_edid gs') (unat (g_edid_size gs'))) []
            \<and> dtds_rep (g_edid_dtd_count gs', g_edid_dtd_w gs', g_edid_dtd_h gs') L
            \<and> (g_edid_native_w gs', g_edid_native_h gs') = (if L = [] then (0, 0) else hd L)))"
  by (rule chip_GetEDID_result [OF assms])

theorem get_edid_total_witness:
  "\<exists>r gs'. chip_GetEDID demo_env 0 demo_gpu = Some (r, gs') \<and> gpu_ok demo_env 0 gs' \<and> g_has_edid gs' = r"
  using get_edid_total [OF demo_gpu_ok(1,2)] by blast

text \<open>
  Sending a cursor command returns whatever the device does on the cursor queue
  (the unbounded drain included), gives the cursor lock back, leaves the control command buffer
  alone, and shows the device at most one command with exactly the given type, resource,
  position and hot spot.
\<close>

theorem cursor_send_returns:
  assumes "io_ready env io" "\<not> i_cursor_locked io" "i_cursq io \<noteq> None" "can_kick_cursor io"
    "i_cursor_cmd_buf io = Some b" "56 \<le> length b"
  shows "\<exists>io'. chip_cursor_send env t rid x y hx hy io = Some io' \<and> io_ready env io' \<and> \<not> i_cursor_locked io'
     \<and> i_cmd_buf io' = i_cmd_buf io \<and> i_io_depth io' = i_io_depth io
     \<and> (i_kicks io' = i_kicks io \<or> (\<exists>k c. i_kicks io' = i_kicks io @ [k] \<and> k_queue k = 1
          \<and> k_cursor k = Some c \<and> cursor_fields c = [t, 0, x, y, rid, hx, hy]))"
  by (rule chip_cursor_send_result [OF assms])

theorem cursor_send_returns_witness:
  "\<exists>io'. chip_cursor_send demo_env 0x300 2 10 20 0 0 (demo_io 4096) = Some io' \<and> io_ready demo_env io'"
proof -
  have b: "i_cursor_cmd_buf (demo_io 4096) = Some (replicate 4096 0)" "\<not> i_cursor_locked (demo_io 4096)"
    "i_cursq (demo_io 4096) \<noteq> None" by (simp_all only: demo_io_def io.simps) simp_all
  have c: "can_kick_cursor (demo_io 4096)" by (simp add: can_kick_cursor_def demo_io_def demo_vio_def)
  show ?thesis using cursor_send_returns [OF demo_ready b(2,3) c b(1)] by fastforce
qed



text \<open>
  After a successful resize of a blob framebuffer, transfers of the new framebuffer
  to the host are skipped (reported as done, nothing sent), although the new resource is a
  classic one whose contents only reach the host by such transfers.
\<close>

theorem blob_flag_survives_resize:
  assumes "resized w h gs gs'" "g_fb_is_blob gs"
  shows "chip_TransferToHost2D env (g_fb_resource_id gs') x y w2 h2 off gs' = Some (True, gs')"
  using assms by (simp add: chip_TransferToHost2D_def resized_def)

theorem blob_flag_survives_resize_witness:
  "chip_TransferToHost2D demo_env 3 0 0 800 600 0
     (demo_gpu\<lparr>g_fb_width := 800, g_fb_height := 600, g_fb_stride := 3200, g_fb_size := 1920000,
        g_resource_id := 3, g_fb_resource_id := 3\<rparr>)
   = Some (True, demo_gpu\<lparr>g_fb_width := 800, g_fb_height := 600, g_fb_stride := 3200, g_fb_size := 1920000,
        g_resource_id := 3, g_fb_resource_id := 3\<rparr>)"
  using blob_flag_survives_resize [of 800 600 demo_gpu "demo_gpu\<lparr>g_fb_width := 800, g_fb_height := 600,
     g_fb_stride := 3200, g_fb_size := 1920000, g_resource_id := 3, g_fb_resource_id := 3\<rparr>"]
  by (simp add: resized_def demo_gpu_def)

end
