(* ===== verification/Virgl_Properties.thy ===== *)
theory Virgl_Properties
  imports Virgl_Submit Gpu_Properties
begin

text \<open>
  The properties of the virgl command stream: what each encoder appends, what the host parses out
  of a sequence of encoders, what happens when the buffer is too small, and the composition with
  \<open>SUBMIT_3D\<close>.
\<close>

text \<open>
  The encoders with a payload of fixed size append to every sound command buffer
  exactly one command: a header with the right command code, object type and payload length,
  and the arguments in the order of the wire format (floats as their bit patterns, the clear
  depth as two words low half first, rectangles packed into 16-bit halves).
\<close>

theorem virgl_fixed_encoders:
  "encodes (virgl_cmd_create_sub_ctx i) (VCmd 29 0 [i]) \<and> encodes (virgl_cmd_set_sub_ctx i) (VCmd 28 0 [i])
   \<and> encodes (virgl_cmd_create_surface h r f a b) (VCmd 1 8 [h, r, f, a, b])
   \<and> encodes (virgl_cmd_create_blend h s rt) (VCmd 1 1 ([h, s, 0, rt] @ replicate 7 0))
   \<and> encodes (virgl_cmd_create_dsa h s f b ref) (VCmd 1 3 [h, s, f, b, ref])
   \<and> encodes (virgl_cmd_create_rasterizer h s ps sc s3 lw ou os oc) (VCmd 1 2 [h, s, ps, sc, s3, lw, ou, os, oc])
   \<and> encodes (virgl_cmd_bind_shader ty h) (VCmd 31 0 [h, ty])
   \<and> encodes (virgl_cmd_set_viewport s sx sy sz tx ty tz) (VCmd 4 0 [s, sx, sy, sz, tx, ty, tz])
   \<and> encodes (virgl_cmd_set_scissor_state s x0 y0 x1 y1) (VCmd 15 0
        [s, (x0 AND 0xFFFF) OR push_bit 16 y0, (x1 AND 0xFFFF) OR push_bit 16 y1])
   \<and> encodes (virgl_cmd_clear bufs cr cg cb ca d st) (VCmd 7 0 [bufs, cr, cg, cb, ca, ucast d, ucast (drop_bit 32 d), st])
   \<and> encodes (virgl_cmd_draw_vbo v0 n m ix ic ib si pr ri mi ma cs) (VCmd 8 0 [v0, n, m, ix, ic, ib, si, pr, ri, mi, ma, cs])
   \<and> encodes (virgl_cmd_create_sampler_state h s lb mi ma cr cg cb ca) (VCmd 1 7 [h, s, lb, mi, ma, cr, cg, cb, ca])"
  using encodes_sub_ctx [of i] encodes_create_surface [of h r f a b] encodes_create_blend [of h s rt]
    encodes_create_dsa [of h s f b ref] encodes_rasterizer [of h s ps sc s3 lw ou os oc] encodes_bind_shader [of ty h]
    encodes_set_viewport [of s sx sy sz tx ty tz] encodes_scissor [of s x0 y0 x1 y1]
    encodes_clear [of bufs cr cg cb ca d st] encodes_draw_vbo [of v0 n m ix ic ib si pr ri mi ma cs]
    encodes_sampler_state [of h s lb mi ma cr cg cb ca]
  by simp

text \<open>
  The encoders that copy arrays or bytes: within the stated sizes no access leaves
  the arrays, the payload length computed in 32 bits is the number of words emitted, array
  elements come in order, and the host's little-endian reading of a shader starts with the
  source text and its NUL.
\<close>

theorem virgl_array_encoders:
  assumes "unat n \<le> length hs" "unat n \<le> length es" "unat n \<le> length bs" "unat n \<le> length data" "unat n < 16000"
    "0 \<notin> set s" "length s < 100000"
  shows "encodes (virgl_cmd_set_framebuffer_state n z hs) (VCmd 5 0 ([n, z] @ take (unat n) hs))
   \<and> encodes (virgl_cmd_set_sampler_views ty sl n hs) (VCmd 10 0 ([ty, sl] @ take (unat n) hs))
   \<and> encodes (virgl_cmd_bind_sampler_states ty sl n hs) (VCmd 18 0 ([ty, sl] @ take (unat n) hs))
   \<and> encodes (virgl_cmd_create_vertex_elements h n es) (VCmd 1 5 ([h] @ concat (map (\<lambda>e.
        [ve_src_offset e, ve_instance_divisor e, ve_vertex_buffer_index e, ve_src_format e]) (take (unat n) es))))
   \<and> encodes (virgl_cmd_set_vertex_buffers n bs) (VCmd 6 0 (concat (map (\<lambda>b.
        [vb_stride b, vb_buffer_offset b, vb_res_handle b]) (take (unat n) bs))))
   \<and> encodes (virgl_cmd_resource_inline_write r l u st ls x y zz w ht d data n) (VCmd 9 0
        ([r, l, u, st, ls, x, y, zz, w, ht, d] @ pack4 (take (unat n) data)))
   \<and> encodes (virgl_cmd_create_shader h ty (s @ 0 # rest)) (VCmd 1 4
        ([h, ty, of_nat (length s + 1), of_nat ((length s + 4) div 4), 0] @ pack4 (s @ [0])))
   \<and> take (length s + 1) (concat (map le32 (pack4 (s @ [0])))) = s @ [0]"
proof -
  have "unat n < 65000" "unat n < 20000" "unat n < 200000" using assms(5) by simp_all
  then show ?thesis
    using encodes_arrays(1) [OF assms(1), of z] encodes_arrays(2,3) [OF assms(1), of ty sl]
      encodes_vertex_elements [OF assms(2,5), of h] encodes_vertex_buffers [OF assms(3)]
      encodes_inline_write [OF assms(4), of r l u st ls x y zz w ht d] encodes_shader [OF assms(6,7), of h ty rest]
    by (simp add: pack4_image)
qed

theorem virgl_array_encoders_witness:
  "encodes (virgl_cmd_set_framebuffer_state 2 0 [7, 8]) (VCmd 5 0 [2, 0, 7, 8])
   \<and> encodes (virgl_cmd_create_shader 3 1 ([70, 82, 65, 71] @ 0 # [])) (VCmd 1 4 ([3, 1, 5, 2, 0] @ pack4 [70, 82, 65, 71, 0]))"
  using virgl_array_encoders [of 2 "[7, 8]" "[\<lparr>ve_src_offset = 0, ve_instance_divisor = 0, ve_vertex_buffer_index = 0,
      ve_src_format = 0\<rparr>, \<lparr>ve_src_offset = 0, ve_instance_divisor = 0, ve_vertex_buffer_index = 0, ve_src_format = 0\<rparr>]"
    "[\<lparr>vb_stride = 0, vb_buffer_offset = 0, vb_res_handle = 0\<rparr>, \<lparr>vb_stride = 0, vb_buffer_offset = 0, vb_res_handle = 0\<rparr>]"
    "[1, 2]" "[70, 82, 65, 71]" 0 1 0 3 0 0 0 0 0 0 0 0 0 0 0 "[]"]
  by simp





text \<open>
  Property C23. \<open>virgl_submit\<close> on a non-empty buffer of a healthy context: it returns with the
  buffer empty; the context is poisoned exactly when it fails; the device sees at most one
  \<open>SUBMIT_3D\<close>, and that one carries exactly the words of the buffer in the host's byte order.
\<close>

theorem virgl_submit_delivers:
  assumes "gpu_ok env lk gs" "i_cmd3d_buf (g_io gs) = Some b3" "length b3 = 65536"
    "cb_ok cb" "vc_max_dwords cb \<le> 16384" "vc_dwords cb \<noteq> 0" "\<not> g_virgl_ctx_error gs"
  shows "\<exists>r cb' gs'. virgl_submit env ctx cb gs = Some (r, cb', gs') \<and> gpu_ok env lk gs' \<and> vc_dwords cb' = 0
     \<and> g_virgl_ctx_error gs' = (\<not> r)
     \<and> (\<not> r \<and> i_kicks (g_io gs') = i_kicks (g_io gs)
        \<or> (\<exists>k d. i_kicks (g_io gs') = i_kicks (g_io gs) @ [k] \<and> decode_cmd (k_cmd k) = Some (Submit3D ctx (vc_dwords cb * 4))
             \<and> k_cmd3d k = Some d \<and> le_words (unat (vc_dwords cb)) d = cb_words cb))"
  by (rule virgl_submit_result [OF assms])

theorem virgl_submit_delivers_witness:
  "\<exists>r cb' gs'. virgl_submit demo_env 1 \<lparr>vc_buf = [7, 8], vc_dwords = 2, vc_max_dwords = 2\<rparr> demo_gpu = Some (r, cb', gs')
     \<and> gpu_ok demo_env 0 gs' \<and> vc_dwords cb' = 0"
proof -
  have b: "i_cmd3d_buf (g_io demo_gpu) = Some (replicate (16 * 4096) 0)" "\<not> g_virgl_ctx_error demo_gpu"
    by (simp_all only: demo_gpu_def demo_io_def gpu.simps io.simps) simp
  show ?thesis
    using virgl_submit_delivers [OF demo_gpu_ok(1) b(1), of "\<lparr>vc_buf = [7, 8], vc_dwords = 2, vc_max_dwords = 2\<rparr>" 1] b(2)
    by (auto simp: cb_ok_def)
qed

end
