(* ===== verification/Interrupts.thy ===== *)
theory Interrupts
  imports Gpu_Io_Correct
begin

text \<open>
  The interrupt handler, its installation and removal (\<open>src/chip/chip_irq.c\<close>), and the handshake
  between the handler and the tasks waiting in \<open>chip_wait_ctrlq\<close> and \<open>chip_cursor_send\<close>: a task
  publishes task pointer and signal mask with two stores and retracts them with two more; the
  handler may run between any two of them.  AmigaOS runs the handler on the same CPU, so it
  is not interleaved itself.
\<close>

section \<open>The handler\<close>

definition signal_waiter :: "u32 \<Rightarrow> u32 \<Rightarrow> (u32 \<times> u32) list" where
  "signal_waiter tsk msk = (if tsk \<noteq> 0 \<and> msk \<noteq> 0 then [(tsk, msk)] else [])"

definition read_isr :: "vio \<Rightarrow> bus \<Rightarrow> u8 \<times> bus" where
  "read_isr v b = (if v_use_pci_cfg v then cfg_r8 (v_pci_cfg_cap_off v) (v_isr_cfg_bar v) (v_isr_cfg_off v) b
     else mmio_read8 (v_isr_cfg_base v) b)"

abbreviation VIRTIO_PCI_ISR_QUEUE :: u8 where "VIRTIO_PCI_ISR_QUEUE \<equiv> 0x01"

text \<open>The result code, the \<open>Signal\<close> calls made, the state.\<close>

definition chip_InterruptHandler :: "io \<Rightarrow> u32 \<times> (u32 \<times> u32) list \<times> io" where
  "chip_InterruptHandler io =
     (let (isr, b) = read_isr (i_vio io) (i_bus io); io = io\<lparr>i_bus := b\<rparr> in
      if isr = 0 then (0, [], io)
      else if isr AND VIRTIO_PCI_ISR_QUEUE \<noteq> 0
      then (1, signal_waiter (i_ctrlq_wait_task io) (i_ctrlq_wait_mask io)
               @ signal_waiter (i_cursorq_wait_task io) (i_cursorq_wait_mask io), io)
      else (1, [], io))"

section \<open>Installation\<close>

record irq =
  irq_io :: io
  irq_number :: u32
  irq_servers :: "u32 list"          \<comment> \<open>vectors the kernel runs the handler on\<close>

text \<open>\<open>vector\<close> is the answer of \<open>MapInterrupt\<close>, \<open>added\<close> the one of \<open>AddIntServer\<close>.\<close>

definition chip_irq_install :: "u32 \<Rightarrow> bool \<Rightarrow> irq \<Rightarrow> bool \<times> irq" where
  "chip_irq_install vector added st =
     (let st = st\<lparr>irq_number := vector\<rparr> in
      if irq_number st = 0 then (False, st)
      else if \<not> added then (False, st)
      else (True, st\<lparr>irq_servers := irq_number st # irq_servers st, irq_io := (irq_io st)\<lparr>i_irq_installed := True\<rparr>\<rparr>))"

definition chip_irq_remove :: "irq \<Rightarrow> irq" where
  "chip_irq_remove st =
     (if \<not> i_irq_installed (irq_io st) then st
      else st\<lparr>irq_servers := remove1 (irq_number st) (irq_servers st), irq_io := (irq_io st)\<lparr>i_irq_installed := False\<rparr>\<rparr>)"

text \<open>The handler is chained exactly while \<open>irq_installed\<close> is set.\<close>

definition irq_inv :: "irq \<Rightarrow> bool" where
  "irq_inv st \<longleftrightarrow> irq_servers st = (if i_irq_installed (irq_io st) then [irq_number st] else [])"

lemma irq_install_inv: "irq_inv st \<Longrightarrow> \<not> i_irq_installed (irq_io st) \<Longrightarrow> irq_inv (snd (chip_irq_install v a st))"
  by (simp add: irq_inv_def chip_irq_install_def Let_def)

lemma irq_remove_inv: "irq_inv st \<Longrightarrow> irq_inv (chip_irq_remove st) \<and> irq_servers (chip_irq_remove st) = []"
  by (simp add: irq_inv_def chip_irq_remove_def)

section \<open>The handshake with the waiting tasks\<close>

text \<open>The two stores of a publication and of a retraction, one at a time.\<close>

fun store_task :: "queue_sel \<Rightarrow> u32 \<Rightarrow> io \<Rightarrow> io" where
  "store_task Ctrl tsk io = io\<lparr>i_ctrlq_wait_task := tsk\<rparr>"
| "store_task Curs tsk io = io\<lparr>i_cursorq_wait_task := tsk\<rparr>"

fun store_mask :: "queue_sel \<Rightarrow> u32 \<Rightarrow> io \<Rightarrow> io" where
  "store_mask Ctrl msk io = io\<lparr>i_ctrlq_wait_mask := msk\<rparr>"
| "store_mask Curs msk io = io\<lparr>i_cursorq_wait_mask := msk\<rparr>"

lemma set_waiter_stores:
  "set_waiter sel tsk msk io = store_mask sel msk (store_task sel tsk io)"
  "set_waiter sel tsk msk io = store_task sel tsk (store_mask sel msk io)"
  by (cases sel; simp)+

datatype phase = Idle | Publishing u32 u32 | Published u32 u32 | Retracting u32 u32

record irqs =
  s_phase :: "queue_sel \<Rightarrow> phase"
  s_io :: io
  s_sent :: "((u32 \<times> u32) \<times> (queue_sel \<Rightarrow> phase)) list"   \<comment> \<open>signals, with the phases they were sent in\<close>

inductive irq_step :: "irqs \<Rightarrow> irqs \<Rightarrow> bool" where
  publish_task: "s_phase s sel = Idle \<Longrightarrow> t \<noteq> 0 \<Longrightarrow> m \<noteq> 0 \<Longrightarrow>
    irq_step s (s\<lparr>s_phase := (s_phase s)(sel := Publishing t m), s_io := store_task sel t (s_io s)\<rparr>)"
| publish_mask: "s_phase s sel = Publishing t m \<Longrightarrow>
    irq_step s (s\<lparr>s_phase := (s_phase s)(sel := Published t m), s_io := store_mask sel m (s_io s)\<rparr>)"
| retract_mask: "s_phase s sel = Published t m \<Longrightarrow>
    irq_step s (s\<lparr>s_phase := (s_phase s)(sel := Retracting t m), s_io := store_mask sel 0 (s_io s)\<rparr>)"
| retract_task: "s_phase s sel = Retracting t m \<Longrightarrow>
    irq_step s (s\<lparr>s_phase := (s_phase s)(sel := Idle), s_io := store_task sel 0 (s_io s)\<rparr>)"
| interrupt: "chip_InterruptHandler (s_io s) = (r, sigs, io') \<Longrightarrow>
    irq_step s (s\<lparr>s_io := io', s_sent := s_sent s @ map (\<lambda>x. (x, s_phase s)) sigs\<rparr>)"

text \<open>What the two cells of a queue hold in each phase.\<close>

fun slot_of :: "queue_sel \<Rightarrow> io \<Rightarrow> u32 \<times> u32" where
  "slot_of Ctrl io = (i_ctrlq_wait_task io, i_ctrlq_wait_mask io)"
| "slot_of Curs io = (i_cursorq_wait_task io, i_cursorq_wait_mask io)"

fun slot_ok :: "phase \<Rightarrow> u32 \<times> u32 \<Rightarrow> bool" where
  "slot_ok Idle c \<longleftrightarrow> c = (0, 0)"
| "slot_ok (Publishing t m) c \<longleftrightarrow> c = (t, 0) \<and> t \<noteq> 0 \<and> m \<noteq> 0"
| "slot_ok (Published t m) c \<longleftrightarrow> c = (t, m) \<and> t \<noteq> 0 \<and> m \<noteq> 0"
| "slot_ok (Retracting t m) c \<longleftrightarrow> c = (t, 0)"

fun waiter_of :: "phase \<Rightarrow> (u32 \<times> u32) list" where
  "waiter_of (Published t m) = [(t, m)]"
| "waiter_of _ = []"

lemma slot_signal: "slot_ok p c \<Longrightarrow> signal_waiter (fst c) (snd c) = waiter_of p"
  by (cases p) (auto simp: signal_waiter_def)

definition irqs_inv :: "irqs \<Rightarrow> bool" where
  "irqs_inv s \<longleftrightarrow> (\<forall>sel. slot_ok (s_phase s sel) (slot_of sel (s_io s)))
     \<and> (\<forall>(x, p)\<in>set (s_sent s). \<exists>sel. p sel = Published (fst x) (snd x))"

lemma slot_of_store [simp]:
  "slot_of q (store_task sel t io) = (if q = sel then (t, snd (slot_of q io)) else slot_of q io)"
  "slot_of q (store_mask sel m io) = (if q = sel then (fst (slot_of q io), m) else slot_of q io)"
  by (cases q; cases sel; simp)+

lemma slot_of_bus [simp]: "slot_of q (io\<lparr>i_bus := b\<rparr>) = slot_of q io"
  by (cases q) simp_all

text \<open>In every sound state the handler signals exactly the published waiters.\<close>

lemma handler_result:
  assumes "irqs_inv s"
  shows "\<exists>isr b. read_isr (i_vio (s_io s)) (i_bus (s_io s)) = (isr, b)
     \<and> chip_InterruptHandler (s_io s) = (if isr = 0 then 0 else 1,
         if isr AND VIRTIO_PCI_ISR_QUEUE = 0 then [] else waiter_of (s_phase s Ctrl) @ waiter_of (s_phase s Curs),
         (s_io s)\<lparr>i_bus := b\<rparr>)"
proof -
  obtain isr b where r: "read_isr (i_vio (s_io s)) (i_bus (s_io s)) = (isr, b)" by fastforce
  have a: "slot_ok (s_phase s q) (slot_of q (s_io s))" for q using assms by (simp add: irqs_inv_def)
  have "signal_waiter (i_ctrlq_wait_task (s_io s)) (i_ctrlq_wait_mask (s_io s)) = waiter_of (s_phase s Ctrl)"
    "signal_waiter (i_cursorq_wait_task (s_io s)) (i_cursorq_wait_mask (s_io s)) = waiter_of (s_phase s Curs)"
    using slot_signal [OF a [of Ctrl]] slot_signal [OF a [of Curs]] by simp_all
  then show ?thesis using r by (auto simp: chip_InterruptHandler_def Let_def)
qed

lemma waiter_of_Published: "x \<in> set (waiter_of p) \<Longrightarrow> p = Published (fst x) (snd x)"
  by (cases p) auto

text \<open>A store into one queue's cells, with the phase it leads to.\<close>

lemma irqs_inv_store:
  assumes "irqs_inv s" "slot_ok p (slot_of sel io')" "\<And>q. q \<noteq> sel \<Longrightarrow> slot_of q io' = slot_of q (s_io s)"
  shows "irqs_inv (s\<lparr>s_phase := (s_phase s)(sel := p), s_io := io'\<rparr>)"
  using assms by (simp add: irqs_inv_def)

lemma irq_step_inv:
  assumes "irq_step s s'" "irqs_inv s"
  shows "irqs_inv s'"
proof -
  have a: "slot_ok (s_phase s q) (slot_of q (s_io s))" for q using assms(2) by (simp add: irqs_inv_def)
  show ?thesis using assms(1)
  proof cases
    case (publish_task sel t m)
    show ?thesis unfolding publish_task(1)
      by (rule irqs_inv_store [OF assms(2)]) (use a [of sel] publish_task in simp_all)
  next
    case (publish_mask sel t m)
    show ?thesis unfolding publish_mask(1)
      by (rule irqs_inv_store [OF assms(2)]) (use a [of sel] publish_mask in \<open>simp_all add: prod_eq_iff\<close>)
  next
    case (retract_mask sel t m)
    show ?thesis unfolding retract_mask(1)
      by (rule irqs_inv_store [OF assms(2)]) (use a [of sel] retract_mask in \<open>simp_all add: prod_eq_iff\<close>)
  next
    case (retract_task sel t m)
    show ?thesis unfolding retract_task(1)
      by (rule irqs_inv_store [OF assms(2)]) (use a [of sel] retract_task in \<open>simp_all add: prod_eq_iff\<close>)
  next
    case (interrupt r sigs io')
    obtain isr b where h: "chip_InterruptHandler (s_io s) = (if isr = 0 then 0 else 1,
         if isr AND VIRTIO_PCI_ISR_QUEUE = 0 then [] else waiter_of (s_phase s Ctrl) @ waiter_of (s_phase s Curs),
         (s_io s)\<lparr>i_bus := b\<rparr>)"
      using handler_result [OF assms(2)] by blast
    then show ?thesis using interrupt assms(2)
      by (auto simp: irqs_inv_def dest!: waiter_of_Published split: if_splits)
  qed
qed

lemma irq_steps_inv:
  assumes "irq_step\<^sup>*\<^sup>* s s'" "irqs_inv s"
  shows "irqs_inv s'"
  using assms by (induction rule: rtranclp_induct) (auto intro: irq_step_inv)

lemma irqs_start: "no_waiter io \<Longrightarrow> irqs_inv \<lparr>s_phase = \<lambda>_. Idle, s_io = io, s_sent = []\<rparr>"
proof -
  assume "no_waiter io"
  then have "slot_of q io = (0, 0)" for q by (cases q) (simp_all add: no_waiter_def)
  then show ?thesis by (simp add: irqs_inv_def)
qed

end
