(* ===== verification/Screen_Modes.thy ===== *)
theory Screen_Modes
  imports Gpu_Driver
begin

text \<open>
  The mode table and the registration of screen modes (\<open>src/chip/chip_modes.c\<close>), with the
  hotplug path \<open>chip_handle_display_change\<close> of \<open>src/chip/chip_gpu_cmds.c\<close>.  The nodes of
  \<open>bi->ResolutionsList\<close> are a list of records in list order; a \<open>ModeInfo\<close> is kept in the slot
  of \<open>Modes\<close> that points to it.  \<open>UWORD\<close> and \<open>ULONG\<close> arithmetic wraps as in the code.
\<close>

section \<open>Data\<close>

record ChipModeEntry =
  cm_w :: u16
  cm_h :: u16
  cm_clock :: u32
  cm_hor_total :: u16
  cm_hor_sync_start :: u16
  cm_hor_sync_size :: u16
  cm_ver_total :: u16
  cm_ver_sync_start :: u16
  cm_ver_sync_size :: u16
  cm_flags :: u8

record ModeInfo =
  mi_Width :: u16
  mi_Height :: u16
  mi_Depth :: u8
  mi_Flags :: u8
  mi_HorTotal :: u16
  mi_HorBlankSize :: u16
  mi_HorSyncStart :: u16
  mi_HorSyncSize :: u16
  mi_VerTotal :: u16
  mi_VerBlankSize :: u16
  mi_VerSyncStart :: u16
  mi_VerSyncSize :: u16
  mi_clock :: u8
  mi_clock_div :: u8
  mi_PixelClock :: u32

record Resolution =
  res_P96ID :: bytes
  res_Name :: bytes
  res_DisplayID :: u32
  res_Width :: u16
  res_Height :: u16
  res_Flags :: u16
  res_Modes :: "ModeInfo option list"

record BoardInfo =
  bi_BoardNum :: u16
  bi_ResolutionsList :: "Resolution list"

record mstate =
  ms_gpu :: gpu
  ms_bi :: "BoardInfo option"
  ms_hotplug :: u32

abbreviation GMF_HV :: u8 where "GMF_HV \<equiv> 0x0C"          \<comment> \<open>\<open>GMF_HPOLARITY | GMF_VPOLARITY\<close>\<close>
abbreviation P96F_FAMILY :: u16 where "P96F_FAMILY \<equiv> 1"

fun mode_entry :: "u16 \<Rightarrow> u16 \<Rightarrow> u32 \<Rightarrow> u16 list \<Rightarrow> u8 \<Rightarrow> ChipModeEntry" where
  "mode_entry w h clk ts fl = \<lparr>cm_w = w, cm_h = h, cm_clock = clk, cm_hor_total = ts ! 0, cm_hor_sync_start = ts ! 1,
     cm_hor_sync_size = ts ! 2, cm_ver_total = ts ! 3, cm_ver_sync_start = ts ! 4, cm_ver_sync_size = ts ! 5, cm_flags = fl\<rparr>"

definition chip_modes :: "ChipModeEntry list" where
  "chip_modes =
    [mode_entry 0 0 0 [0, 0, 0, 0, 0, 0] 0,
     mode_entry 640 480 25175000 [800, 16, 96, 525, 10, 2] GMF_HV,
     mode_entry 800 600 40000000 [1056, 40, 128, 628, 1, 4] GMF_HV,
     mode_entry 1024 768 65000000 [1344, 24, 136, 806, 3, 6] GMF_HV,
     mode_entry 1280 720 74250000 [1650, 110, 40, 750, 5, 5] 0,
     mode_entry 1280 800 83500000 [1440, 48, 32, 823, 3, 6] GMF_HV,
     mode_entry 1280 1024 108000000 [1688, 48, 112, 1066, 1, 3] 0,
     mode_entry 1440 900 88750000 [1600, 48, 32, 926, 3, 6] GMF_HV,
     mode_entry 1600 900 108000000 [1800, 24, 80, 1000, 1, 3] 0,
     mode_entry 1600 1200 162000000 [2160, 64, 192, 1250, 1, 3] 0,
     mode_entry 1920 1080 148500000 [2200, 88, 44, 1125, 4, 5] 0,
     mode_entry 1920 1200 154000000 [2080, 48, 32, 1235, 3, 6] GMF_HV,
     mode_entry 2560 1440 241500000 [2720, 48, 32, 1478, 3, 5] GMF_HV,
     mode_entry 3840 2160 594000000 [4400, 176, 88, 2250, 8, 10] 0]"

abbreviation chip_num_modes :: u32 where "chip_num_modes \<equiv> 14"

definition chip_depth_table :: "(nat \<times> u8) list" where
  "chip_depth_table = [(1, 8), (2, 16), (4, 32)]"

definition chip_resolution_exists :: "BoardInfo \<Rightarrow> u16 \<Rightarrow> u16 \<Rightarrow> bool" where
  "chip_resolution_exists bi w h = list_ex (\<lambda>r. res_Width r = w \<and> res_Height r = h) (bi_ResolutionsList bi)"

section \<open>The name of a mode\<close>

text \<open>\<open>*p++ = c\<close> into the 22-byte name.\<close>

definition put_char :: "u8 \<Rightarrow> bytes \<times> nat \<Rightarrow> (bytes \<times> nat) option" where
  "put_char c np = do { name \<leftarrow> wr (fst np) (snd np) c; Some (name, snd np + 1) }"

function digits_loop :: "u16 \<Rightarrow> u8 list \<Rightarrow> nat \<Rightarrow> (u8 list \<times> nat) option" where
  "digits_loop val digits nd = do {
     digits \<leftarrow> wr digits nd (48 + ucast (val mod 10));
     if val div 10 > 0 then digits_loop (val div 10) digits (nd + 1) else Some (digits, nd + 1) }"
  by pat_completeness auto
termination
proof (relation "measure (\<lambda>(val, _, _). unat val)")
  fix val :: u16 and digits :: "u8 list" and nd ds
  assume "val div 10 > 0"
  then have "unat (val div 10) \<noteq> 0" by (simp add: word_less_nat_alt)
  moreover have "unat (val div 10) = unat val div 10" by (simp add: unat_div_distrib)
  ultimately show "((val div 10, ds, nd + 1), val, digits, nd) \<in> measure (\<lambda>(val, _, _). unat val)" by simp
qed simp

declare digits_loop.simps [simp del]

definition put_number :: "u16 \<Rightarrow> bytes \<times> nat \<Rightarrow> (bytes \<times> nat) option" where
  "put_number val np = do {
     (digits, nd) \<leftarrow> digits_loop val (replicate 6 0) 0;
     foldM (\<lambda>i np. do { d \<leftarrow> rd digits i; put_char d np }) (rev [0..<nd]) np }"

definition mode_name :: "u16 \<Rightarrow> u16 \<Rightarrow> bytes option" where
  "mode_name mw mh = do {
     np \<leftarrow> foldM put_char [86, 73, 79, 58] (replicate 22 0, 0);
     np \<leftarrow> put_number mw np;
     np \<leftarrow> put_char 120 np;
     np \<leftarrow> put_number mh np;
     wr (fst np) (snd np) 0 }"

section \<open>Adding a mode\<close>

record mode_timing =
  t_hor_total :: u16
  t_hor_sync_start :: u16
  t_hor_sync_size :: u16
  t_ver_total :: u16
  t_ver_sync_start :: u16
  t_ver_sync_size :: u16
  t_clock :: u32
  t_flags :: u8

text \<open>CVT-RB timing when the caller supplied none.\<close>

definition cvt_timing :: "u16 \<Rightarrow> u16 \<Rightarrow> mode_timing \<Rightarrow> mode_timing" where
  "cvt_timing mw mh t =
     (if t_hor_total t = 0 \<or> t_ver_total t = 0
      then let ht = mw + 160; vt = mh + 23 in
        \<lparr>t_hor_total = ht, t_hor_sync_start = 48, t_hor_sync_size = 32, t_ver_total = vt, t_ver_sync_start = 3,
         t_ver_sync_size = 6, t_clock = ucast ht * ucast vt * 60, t_flags = GMF_HV\<rparr>
      else t)"

definition mode_info :: "u16 \<Rightarrow> u16 \<Rightarrow> u8 \<Rightarrow> mode_timing \<Rightarrow> u32 \<Rightarrow> ModeInfo" where
  "mode_info mw mh depth t slot_idx =
     \<lparr>mi_Width = mw, mi_Height = mh, mi_Depth = depth, mi_Flags = t_flags t,
      mi_HorTotal = t_hor_total t, mi_HorBlankSize = t_hor_total t - mw, mi_HorSyncStart = t_hor_sync_start t,
      mi_HorSyncSize = t_hor_sync_size t, mi_VerTotal = t_ver_total t, mi_VerBlankSize = t_ver_total t - mh,
      mi_VerSyncStart = t_ver_sync_start t, mi_VerSyncSize = t_ver_sync_size t,
      mi_clock = (if slot_idx < chip_num_modes then ucast slot_idx else 1), mi_clock_div = 1, mi_PixelClock = t_clock t\<rparr>"

text \<open>The loop over the depths: a \<open>ModeInfo\<close> that cannot be allocated is skipped.\<close>

definition add_depth :: "u16 \<Rightarrow> u16 \<Rightarrow> mode_timing \<Rightarrow> u32 \<Rightarrow> nat \<times> u8 \<Rightarrow> ModeInfo option list \<times> u32 \<times> gpu \<Rightarrow>
    (ModeInfo option list \<times> u32 \<times> gpu) option" where
  "add_depth mw mh t slot_idx md st = (case st of (modes, created, gs) \<Rightarrow>
     let (mi, gs) = with_exec AllocVecTags gs in
     if mi = 0 then Some (modes, created, gs)
     else do {
       modes \<leftarrow> wr modes (fst md) (Some (mode_info mw mh (snd md) t slot_idx));
       Some (modes, created + 1, gs) })"

definition chip_add_mode :: "u16 \<Rightarrow> u16 \<Rightarrow> mode_timing \<Rightarrow> u32 \<Rightarrow> mstate \<Rightarrow> (bool \<times> mstate) option" where
  "chip_add_mode mw mh t slot_idx st = (case ms_bi st of
     None \<Rightarrow> Some (False, st)
   | Some bi \<Rightarrow>
      if mw = 0 \<or> mh = 0 then Some (False, st)
      else if chip_resolution_exists bi mw mh then Some (True, st)
      else let t = cvt_timing mw mh t; (res, gs) = with_exec AllocVecTags (ms_gpu st) in
      if res = 0 then Some (False, st\<lparr>ms_gpu := gs\<rparr>)
      else do {
        name \<leftarrow> mode_name mw mh;
        (modes, created, gs) \<leftarrow> foldM (add_depth mw mh t slot_idx) chip_depth_table (replicate 5 None, 0, gs);
        if created = 0 then Some (False, st\<lparr>ms_gpu := do_exec (FreeVec res) gs\<rparr>)
        else
          let r = \<lparr>res_P96ID = [82, 84, 71, 45, 48 + ucast (bi_BoardNum bi mod 10), 58], res_Name = name,
                   res_DisplayID = 0x00050000 OR push_bit 8 (slot_idx AND 0xFF), res_Width = mw, res_Height = mh,
                   res_Flags = P96F_FAMILY, res_Modes = modes\<rparr>
          in Some (True, st\<lparr>ms_gpu := gs, ms_bi := Some (bi\<lparr>bi_ResolutionsList := bi_ResolutionsList bi @ [r]\<rparr>)\<rparr>) })"

section \<open>Registration\<close>

definition no_timing :: mode_timing where
  "no_timing = \<lparr>t_hor_total = 0, t_hor_sync_start = 0, t_hor_sync_size = 0, t_ver_total = 0, t_ver_sync_start = 0,
     t_ver_sync_size = 0, t_clock = 0, t_flags = 0\<rparr>"

definition add_table_mode :: "nat \<Rightarrow> mstate \<Rightarrow> mstate option" where
  "add_table_mode m st = do {
     e \<leftarrow> rd chip_modes m;
     (ok, st) \<leftarrow> chip_add_mode (cm_w e) (cm_h e) \<lparr>t_hor_total = cm_hor_total e, t_hor_sync_start = cm_hor_sync_start e,
        t_hor_sync_size = cm_hor_sync_size e, t_ver_total = cm_ver_total e, t_ver_sync_start = cm_ver_sync_start e,
        t_ver_sync_size = cm_ver_sync_size e, t_clock = cm_clock e, t_flags = cm_flags e\<rparr> (of_nat m) st;
     Some st }"

definition add_edid_mode :: "nat \<Rightarrow> mstate \<Rightarrow> mstate option" where
  "add_edid_mode i st = do {
     ew \<leftarrow> rd (g_edid_dtd_w (ms_gpu st)) i;
     eh \<leftarrow> rd (g_edid_dtd_h (ms_gpu st)) i;
     (ok, st) \<leftarrow> chip_add_mode ew eh no_timing (chip_num_modes + of_nat i) st;
     Some st }"

definition chip_register_modes :: "mstate \<Rightarrow> mstate option" where
  "chip_register_modes st =
     (if ms_bi st = None then Some st
      else do {
        st \<leftarrow> foldM add_table_mode [2..<unat chip_num_modes] st;
        if g_has_edid (ms_gpu st) \<and> 0 < g_edid_dtd_count (ms_gpu st)
        then foldM add_edid_mode [0..<unat (g_edid_dtd_count (ms_gpu st))] st
        else Some st })"

definition chip_handle_display_change :: "env \<Rightarrow> mstate \<Rightarrow> mstate option" where
  "chip_handle_display_change env st = do {
     (r, gs) \<leftarrow> with_io (chip_GetDisplayInfo env) (ms_gpu st);
     let st = st\<lparr>ms_gpu := gs\<rparr>;
     (case r of None \<Rightarrow> Some st
      | Some (new_w, new_h) \<Rightarrow> do {
          let slot_idx = 0xC0 + (ms_hotplug st AND 0x3F);
          (ok, st) \<leftarrow> chip_add_mode (ucast new_w) (ucast new_h) no_timing slot_idx st;
          Some (if ok then st\<lparr>ms_hotplug := ms_hotplug st + 1\<rparr> else st) }) }"

end
