(* ===== verification/Screen_Modes_Correct.thy ===== *)
theory Screen_Modes_Correct
  imports Screen_Modes Gpu_Driver_Correct
begin

text \<open>
  Mode registration: the decimal names, the invariant of the resolution list, what one
  \<open>chip_add_mode\<close> does, and the identifiers of the modes.
\<close>

section \<open>Decimal names\<close>

fun dec :: "nat \<Rightarrow> bytes" where
  "dec n = (if n < 10 then [48 + of_nat n] else dec (n div 10) @ [48 + of_nat (n mod 10)])"

declare dec.simps [simp del]

lemma dec_length: "n < 10 ^ Suc k \<Longrightarrow> length (dec n) \<le> Suc k"
proof (induction k arbitrary: n)
  case 0
  then show ?case by (subst dec.simps) simp
next
  case (Suc k)
  have "length (dec (n div 10)) \<le> Suc k" if "\<not> n < 10"
    by (rule Suc.IH) (use Suc.prems in \<open>simp add: div_less_iff_less_mult\<close>)
  then show ?case by (subst dec.simps) simp
qed

lemma dec_u16_length: "length (dec (unat (w :: u16))) \<le> 5"
proof -
  have "unat w < 2 ^ LENGTH(16)" by (rule unsigned_less)
  then show ?thesis using dec_length [of "unat w" 4] by simp
qed

lemma digit_char: "(48 + ucast (v mod 10) :: u8) = 48 + of_nat (unat v mod 10)" for v :: u16
proof -
  have "unat (v mod 10) = unat v mod 10" by (simp add: unat_mod_distrib)
  then show ?thesis by (metis of_nat_unat)
qed

lemma digits_loop_result:
  assumes "nd + length (dec (unat v)) \<le> length ds"
  shows "digits_loop v ds nd = Some (stbytes nd (rev (dec (unat v))) ds, nd + length (dec (unat v)))"
  using assms
proof (induction "unat v" arbitrary: v ds nd rule: less_induct)
  case less
  let ?c = "48 + of_nat (unat v mod 10) :: u8"
  have dv: "unat (v div 10) = unat v div 10" by (simp add: unat_div_distrib)
  have "0 < length (dec (unat v))" by (subst dec.simps) simp
  then have w: "wr ds nd ?c = Some (ds[nd := ?c])" using less.prems by (intro wr_in) linarith
  show ?case
  proof (cases "unat v < 10")
    case True
    then have "\<not> v div 10 > 0" using dv by (simp add: word_less_nat_alt)
    moreover have "dec (unat v) = [?c]" using True by (subst dec.simps) simp
    moreover have "ds[nd := ?c] = stbytes nd [?c] ds"
      using less.prems \<open>dec (unat v) = [?c]\<close> by (simp add: stbytes_def upd_conv_take_nth_drop)
    ultimately show ?thesis using w by (subst digits_loop.simps) (simp add: digit_char)
  next
    case False
    then have pos: "v div 10 > 0" using dv by (simp add: word_less_nat_alt)
    have d: "dec (unat v) = dec (unat (v div 10)) @ [?c]" using False by (subst dec.simps) (simp add: dv)
    have lt: "unat (v div 10) < unat v" using False dv by simp
    have "digits_loop (v div 10) (ds[nd := ?c]) (nd + 1) =
      Some (stbytes (nd + 1) (rev (dec (unat (v div 10)))) (ds[nd := ?c]), nd + 1 + length (dec (unat (v div 10))))"
      by (rule less.hyps [OF lt]) (use less.prems d in simp)
    moreover have "stbytes (Suc nd) (rev (dec (unat (v div 10)))) (ds[nd := ?c]) = stbytes nd (?c # rev (dec (unat (v div 10)))) ds"
      by (rule stbytes_wr) (use less.prems d in simp)
    ultimately show ?thesis using w pos d by (subst digits_loop.simps) (simp add: digit_char)
  qed
qed

text \<open>The name under construction: the characters so far, and zeros.\<close>

definition name_so_far :: "bytes \<Rightarrow> bytes \<times> nat \<Rightarrow> bool" where
  "name_so_far s np \<longleftrightarrow> np = (s @ replicate (22 - length s) 0, length s) \<and> length s \<le> 22"

lemma put_char_result:
  assumes "name_so_far s np" "length s < 22"
  shows "\<exists>np'. put_char c np = Some np' \<and> name_so_far (s @ [c]) np'"
proof -
  obtain k where k: "22 - length s = Suc k" using assms(2) by (metis Suc_diff_Suc)
  then show ?thesis using assms
    by (auto simp: name_so_far_def put_char_def wr_in list_update_append)
qed

lemma put_chars_result:
  assumes "name_so_far s np" "length s + length cs \<le> 22"
  shows "\<exists>np'. foldM put_char cs np = Some np' \<and> name_so_far (s @ cs) np'"
  using assms
proof (induction cs arbitrary: s np)
  case (Cons c cs)
  then obtain np1 where "put_char c np = Some np1" "name_so_far (s @ [c]) np1"
    using put_char_result [of s np c] by auto
  then show ?case using Cons.IH [of "s @ [c]" np1] Cons.prems by simp
qed simp

lemma foldM_rd:
  assumes "\<And>i. i \<in> set is \<Longrightarrow> i < length xs"
  shows "foldM (\<lambda>i s. do { d \<leftarrow> rd xs i; f d s }) is s = foldM f (map ((!) xs) is) s"
  using assms
proof (induction "is" arbitrary: s)
  case (Cons i "is")
  then show ?case by (cases "f (xs ! i) s") (simp_all add: rd_in)
qed simp

lemma put_number_result:
  assumes "name_so_far s np" "length s + length (dec (unat v)) \<le> 22"
  shows "\<exists>np'. put_number v np = Some np' \<and> name_so_far (s @ dec (unat v)) np'"
proof -
  let ?d = "dec (unat v)"
  have l: "length ?d \<le> 5" by (rule dec_u16_length)
  then have r: "digits_loop v (replicate 6 0) 0 = Some (stbytes 0 (rev ?d) (replicate 6 0), length ?d)"
    using digits_loop_result [of 0 v "replicate 6 0"] by simp
  let ?ds = "stbytes 0 (rev ?d) (replicate 6 0)"
  have len: "length ?ds = 6" using l by (simp add: length_stbytes)
  have "map ((!) ?ds) (rev [0..<length ?d]) = rev (map ((!) ?ds) [0..<length ?d])" by (rule rev_map [symmetric])
  also have "\<dots> = rev (take (length ?d) ?ds)" using len l by (simp add: map_nth_take)
  also have "\<dots> = ?d" by (simp add: stbytes_def)
  finally have m: "map ((!) ?ds) (rev [0..<length ?d]) = ?d" .
  have "foldM (\<lambda>i np. do { d \<leftarrow> rd ?ds i; put_char d np }) (rev [0..<length ?d]) np = foldM put_char ?d np"
    using foldM_rd [of "rev [0..<length ?d]" ?ds put_char np] len l m by simp
  then show ?thesis using r put_chars_result [OF assms] by (simp add: put_number_def)
qed

definition name_of :: "u16 \<Rightarrow> u16 \<Rightarrow> bytes" where
  "name_of w h = [86, 73, 79, 58] @ dec (unat w) @ [120] @ dec (unat h)"

lemma mode_name_result: "mode_name w h = Some (name_of w h @ replicate (22 - length (name_of w h)) 0)"
proof -
  have l: "length (dec (unat w)) \<le> 5" "length (dec (unat h)) \<le> 5" by (rule dec_u16_length)+
  let ?p = "[86, 73, 79, 58] :: bytes"
  have "name_so_far [] (replicate 22 0, 0)" by (simp add: name_so_far_def)
  then obtain n1 where n1: "foldM put_char ?p (replicate 22 0, 0) = Some n1" "name_so_far ?p n1"
    using put_chars_result [of "[]" "(replicate 22 0, 0)" ?p] by auto
  obtain n2 where n2: "put_number w n1 = Some n2" "name_so_far (?p @ dec (unat w)) n2"
    using put_number_result [OF n1(2), of w] l by auto
  obtain n3 where n3: "put_char 120 n2 = Some n3" "name_so_far ((?p @ dec (unat w)) @ [120]) n3"
    using put_char_result [OF n2(2), of 120] l by auto
  obtain n4 where n4: "put_number h n3 = Some n4" "name_so_far (((?p @ dec (unat w)) @ [120]) @ dec (unat h)) n4"
    using put_number_result [OF n3(2), of h] l by auto
  let ?s = "name_of w h"
  have s: "n4 = (?s @ replicate (22 - length ?s) 0, length ?s)" using n4(2) by (simp add: name_so_far_def name_of_def)
  have "length ?s < 22" using l by (simp add: name_of_def)
  then obtain k where "22 - length ?s = Suc k" by (metis Suc_diff_Suc)
  then have "wr (fst n4) (snd n4) 0 = Some (?s @ replicate (22 - length ?s) 0)"
    using s by (simp add: wr_in list_update_append)
  then show ?thesis using n1(1) n2(1) n3(1) n4(1) by (simp add: mode_name_def)
qed

section \<open>One mode\<close>

definition exec_only :: "gpu \<Rightarrow> gpu \<Rightarrow> bool" where
  "exec_only gs gs' \<longleftrightarrow> (\<exists>ex. gs' = gs\<lparr>g_io := (g_io gs)\<lparr>i_exec := ex\<rparr>\<rparr>)"

lemma exec_only_refl: "exec_only gs gs"
  unfolding exec_only_def by (rule exI [of _ "i_exec (g_io gs)"]) simp

lemma exec_only_with: "with_exec f gs = (r, gs') \<Longrightarrow> exec_only gs gs'"
  by (auto simp: with_exec_def exec_only_def split: prod.splits)

lemma exec_only_do: "exec_only gs (do_exec f gs)"
  by (auto simp: do_exec_def exec_only_def)

lemma exec_only_trans: "exec_only a b \<Longrightarrow> exec_only b c \<Longrightarrow> exec_only a c"
  by (auto simp: exec_only_def)

lemma exec_only_frame:
  assumes "exec_only gs gs'"
  shows "gpu_ok env lk gs' = gpu_ok env lk gs" "edid_arrays_ok gs' = edid_arrays_ok gs" "g_has_edid gs' = g_has_edid gs"
    "g_edid_dtd_count gs' = g_edid_dtd_count gs" "g_edid_dtd_w gs' = g_edid_dtd_w gs" "g_edid_dtd_h gs' = g_edid_dtd_h gs"
  using assms by (auto simp: exec_only_def gpu_ok_def edid_arrays_ok_def)

text \<open>A table of depth classes: each entry is empty or the mode information of its class.\<close>

definition mode_table_ok :: "u16 \<Rightarrow> u16 \<Rightarrow> ModeInfo option list \<Rightarrow> bool" where
  "mode_table_ok w h ms \<longleftrightarrow> length ms = 5 \<and> (\<forall>i<5. case ms ! i of None \<Rightarrow> True
     | Some mi \<Rightarrow> (i, mi_Depth mi) \<in> set chip_depth_table \<and> mi_Width mi = w \<and> mi_Height mi = h
         \<and> mi_Width mi + mi_HorBlankSize mi = mi_HorTotal mi \<and> mi_Height mi + mi_VerBlankSize mi = mi_VerTotal mi
         \<and> mi_clock mi < 14)"

lemma mode_info_clock: "mi_clock (mode_info w h d t k) < 14"
proof -
  have "unat (ucast k :: u8) = unat k" if "k < 14"
  proof -
    have "unat k < 14" using that by (simp add: word_less_nat_alt)
    then show ?thesis by (simp add: unsigned_ucast_eq take_bit_nat_eq_self)
  qed
  then show ?thesis by (auto simp: mode_info_def word_less_nat_alt)
qed

lemma add_depth_result:
  assumes "mode_table_ok w h ms" "md \<in> set chip_depth_table"
    "unat created < 5" "created = 0 \<longleftrightarrow> (\<forall>m\<in>set ms. m = None)"
  shows "\<exists>ms' created' gs'. add_depth w h t k md (ms, created, gs) = Some (ms', created', gs') \<and> mode_table_ok w h ms'
     \<and> (created' = 0 \<longleftrightarrow> (\<forall>m\<in>set ms'. m = None)) \<and> unat created' \<le> Suc (unat created) \<and> exec_only gs gs'"
proof -
  obtain mi gs' where a: "with_exec AllocVecTags gs = (mi, gs')" by fastforce
  have i: "fst md < length ms" using assms(1,2) by (auto simp: mode_table_ok_def chip_depth_table_def)
  show ?thesis
  proof (cases "mi = 0")
    case True
    then show ?thesis using a assms exec_only_with [OF a] by (simp add: add_depth_def)
  next
    case False
    let ?m = "mode_info w h (snd md) t k" and ?ms = "ms[fst md := Some (mode_info w h (snd md) t k)]"
    have "mode_table_ok w h ?ms"
      using assms(1,2) mode_info_clock [of w h "snd md" t k] i
      by (auto simp: mode_table_ok_def nth_list_update mode_info_def)
    moreover have "unat (created + 1) = Suc (unat created)" using assms(3) by (simp add: unat_word_ariths)
    moreover from this have "created + 1 \<noteq> 0" by (metis nat.distinct(1) unat_0)
    moreover have "Some ?m \<in> set ?ms" using i by (simp add: set_update_memI)
    ultimately show ?thesis using a False i exec_only_with [OF a]
      by (auto simp: add_depth_def wr_in Let_def)
  qed
qed

lemma add_depths_result:
  "\<exists>ms created gs'. foldM (add_depth w h t k) chip_depth_table (replicate 5 None, 0, gs) = Some (ms, created, gs')
     \<and> mode_table_ok w h ms \<and> (created = 0 \<longleftrightarrow> (\<forall>m\<in>set ms. m = None)) \<and> exec_only gs gs'"
proof -
  have mem: "(1, 8) \<in> set chip_depth_table" "(2, 16) \<in> set chip_depth_table" "(4, 32) \<in> set chip_depth_table"
    by (simp_all add: chip_depth_table_def)
  have "mode_table_ok w h (replicate 5 None)" by (simp add: mode_table_ok_def)
  then obtain m1 c1 g1 where 1: "add_depth w h t k (1, 8) (replicate 5 None, 0, gs) = Some (m1, c1, g1)" "mode_table_ok w h m1"
    "c1 = 0 \<longleftrightarrow> (\<forall>m\<in>set m1. m = None)" "unat c1 \<le> 1" "exec_only gs g1"
    using add_depth_result [OF _ mem(1), of w h "replicate 5 None" 0 t k gs] by auto
  then obtain m2 c2 g2 where 2: "add_depth w h t k (2, 16) (m1, c1, g1) = Some (m2, c2, g2)" "mode_table_ok w h m2"
    "c2 = 0 \<longleftrightarrow> (\<forall>m\<in>set m2. m = None)" "unat c2 \<le> 2" "exec_only g1 g2"
    using add_depth_result [OF 1(2) mem(2), of c1 t k g1] by fastforce
  then obtain m3 c3 g3 where 3: "add_depth w h t k (4, 32) (m2, c2, g2) = Some (m3, c3, g3)" "mode_table_ok w h m3"
    "c3 = 0 \<longleftrightarrow> (\<forall>m\<in>set m3. m = None)" "exec_only g2 g3"
    using add_depth_result [OF 2(2) mem(3), of c2 t k g2] by fastforce
  have "exec_only gs g3" using exec_only_trans [OF exec_only_trans [OF 1(5) 2(5)] 3(4)] .
  then show ?thesis using 1(1) 2(1) 3 by (simp add: chip_depth_table_def)
qed

section \<open>The resolution list\<close>

definition dims :: "Resolution \<Rightarrow> u16 \<times> u16" where
  "dims r = (res_Width r, res_Height r)"

definition display_id :: "u32 \<Rightarrow> u32" where
  "display_id slot_idx = 0x00050000 OR push_bit 8 (slot_idx AND 0xFF)"

definition res_ok :: "Resolution \<Rightarrow> bool" where
  "res_ok r \<longleftrightarrow> res_Width r \<noteq> 0 \<and> res_Height r \<noteq> 0 \<and> mode_table_ok (res_Width r) (res_Height r) (res_Modes r)
     \<and> (\<exists>m\<in>set (res_Modes r). m \<noteq> None) \<and> length (res_P96ID r) = 6
     \<and> (let s = name_of (res_Width r) (res_Height r) in res_Name r = s @ replicate (22 - length s) 0)"

definition list_ok :: "Resolution list \<Rightarrow> bool" where
  "list_ok rs \<longleftrightarrow> (\<forall>r\<in>set rs. res_ok r) \<and> distinct (map dims rs)"

lemma exists_iff: "chip_resolution_exists bi w h \<longleftrightarrow> (w, h) \<in> dims ` set (bi_ResolutionsList bi)"
  by (auto simp: chip_resolution_exists_def list_ex_iff dims_def)

text \<open>
  One call of \<open>chip_add_mode\<close> on a board: it returns; the list stays sound and grows by at most one
  resolution, the wanted one, with the identifier of its slot; on TRUE the resolution is there.
\<close>

lemma chip_add_mode_result:
  assumes bi: "ms_bi st = Some bi" and ok: "list_ok (bi_ResolutionsList bi)"
  shows "\<exists>b gs' rs. chip_add_mode w h t k st =
       Some (b, st\<lparr>ms_gpu := gs', ms_bi := Some (bi\<lparr>bi_ResolutionsList := bi_ResolutionsList bi @ rs\<rparr>)\<rparr>)
     \<and> exec_only (ms_gpu st) gs' \<and> list_ok (bi_ResolutionsList bi @ rs)
     \<and> (rs = [] \<or> b \<and> (\<exists>r. rs = [r] \<and> dims r = (w, h) \<and> res_DisplayID r = display_id k))
     \<and> (b \<longrightarrow> (w, h) \<in> dims ` set (bi_ResolutionsList bi @ rs))"
proof (cases "w = 0 \<or> h = 0 \<or> chip_resolution_exists bi w h")
  case True
  have "st\<lparr>ms_gpu := ms_gpu st, ms_bi := Some bi\<rparr> = st" using bi by simp
  then show ?thesis using True bi ok exec_only_refl [of "ms_gpu st"]
    by (intro exI [of _ "w \<noteq> 0 \<and> h \<noteq> 0"] exI [of _ "ms_gpu st"] exI [of _ "[]"])
      (auto simp: chip_add_mode_def exists_iff [symmetric])
next
  case False
  obtain p g1 where a: "with_exec AllocVecTags (ms_gpu st) = (p, g1)" by fastforce
  note e1 = exec_only_with [OF a]
  let ?t = "cvt_timing w h t"
  obtain ms created g2 where d: "foldM (add_depth w h ?t k) chip_depth_table (replicate 5 None, 0, g1) = Some (ms, created, g2)"
    "mode_table_ok w h ms" "created = 0 \<longleftrightarrow> (\<forall>m\<in>set ms. m = None)" "exec_only g1 g2"
    using add_depths_result [of w h ?t k g1] by blast
  have e2: "exec_only (ms_gpu st) g2" by (rule exec_only_trans [OF e1 d(4)])
  have e3: "exec_only (ms_gpu st) (do_exec (FreeVec p) g2)" by (rule exec_only_trans [OF e2 exec_only_do])
  let ?s = "name_of w h"
  define r where "r = \<lparr>res_P96ID = [82, 84, 71, 45, 48 + ucast (bi_BoardNum bi mod 10), 58],
     res_Name = ?s @ replicate (22 - length ?s) 0, res_DisplayID = display_id k, res_Width = w, res_Height = h,
     res_Flags = P96F_FAMILY, res_Modes = ms\<rparr>"
  have run: "chip_add_mode w h t k st =
     (if p = 0 then Some (False, st\<lparr>ms_gpu := g1\<rparr>)
      else if created = 0 then Some (False, st\<lparr>ms_gpu := do_exec (FreeVec p) g2\<rparr>)
      else Some (True, st\<lparr>ms_gpu := g2, ms_bi := Some (bi\<lparr>bi_ResolutionsList := bi_ResolutionsList bi @ [r]\<rparr>)\<rparr>))"
    using bi False a d(1) by (simp add: chip_add_mode_def mode_name_result Let_def r_def display_id_def)
  have same: "st\<lparr>ms_gpu := g, ms_bi := Some bi\<rparr> = st\<lparr>ms_gpu := g\<rparr>" for g using bi by simp
  show ?thesis
  proof (cases "p = 0 \<or> created = 0")
    case True
    then show ?thesis using run ok e1 e3 same
      by (intro exI [of _ False] exI [of _ "if p = 0 then g1 else do_exec (FreeVec p) g2"] exI [of _ "[]"]) auto
  next
    case created: False
    have "res_ok r" using False d(2,3) created by (auto simp: res_ok_def r_def)
    moreover have "dims r = (w, h)" by (simp add: dims_def r_def)
    moreover have "(w, h) \<notin> dims ` set (bi_ResolutionsList bi)" using False by (simp add: exists_iff)
    ultimately have "list_ok (bi_ResolutionsList bi @ [r])" using ok by (auto simp: list_ok_def)
    then show ?thesis using run created e2 \<open>dims r = (w, h)\<close>
      by (intro exI [of _ True] exI [of _ g2] exI [of _ "[r]"]) (auto simp: r_def)
  qed
qed

section \<open>Identifiers\<close>

lemma display_id_slot: "take_bit 8 (drop_bit 8 (display_id s)) = take_bit 8 s"
proof -
  have c: "(0x00050000 :: u32) = push_bit 16 5" and m: "(0xFF :: u32) = mask 8" by (simp_all add: mask_eq_exp_minus_1)
  have "display_id s = push_bit 16 5 OR push_bit 8 (take_bit 8 s)"
    unfolding display_id_def c m take_bit_eq_mask by (rule refl)
  then show ?thesis by (simp only:) (rule bit_word_eqI, auto simp: bit_simps)
qed

lemma take_bit_8_small: "x < 256 \<Longrightarrow> take_bit 8 x = x" for x :: u32
proof -
  assume "x < 256"
  then have "unat x < 2 ^ 8" by (simp add: word_less_nat_alt)
  then have "unat (take_bit 8 x) = unat x" by (simp add: unsigned_take_bit_eq take_bit_nat_eq_self)
  then show "take_bit 8 x = x" by (simp only: unat_inj)
qed

lemma display_id_inj: "display_id a = display_id b \<Longrightarrow> a < 256 \<Longrightarrow> b < 256 \<Longrightarrow> a = b"
  by (metis display_id_slot take_bit_8_small)

text \<open>The identifiers of a list, by the slots they were made of.\<close>

definition ids_ok :: "(u32 \<Rightarrow> bool) \<Rightarrow> Resolution list \<Rightarrow> bool" where
  "ids_ok P rs \<longleftrightarrow> (\<exists>slots. map res_DisplayID rs = map display_id slots \<and> distinct slots \<and> (\<forall>s\<in>set slots. s < 256 \<and> P s))"

lemma ids_ok_distinct: "ids_ok P rs \<Longrightarrow> distinct (map res_DisplayID rs)"
proof -
  assume "ids_ok P rs"
  then obtain slots where s: "map res_DisplayID rs = map display_id slots" "distinct slots" "\<forall>s\<in>set slots. s < 256"
    by (auto simp: ids_ok_def)
  have "inj_on display_id (set slots)" using s(3) display_id_inj by (auto simp: inj_on_def)
  then show ?thesis unfolding s(1) using s(2) by (simp add: distinct_map)
qed

lemma ids_ok_mono: "ids_ok P rs \<Longrightarrow> (\<And>s. P s \<Longrightarrow> Q s) \<Longrightarrow> ids_ok Q rs"
  unfolding ids_ok_def by blast

lemma ids_ok_snoc:
  assumes "ids_ok P rs" "res_DisplayID r = display_id k" "k < 256" "\<not> P k" "\<And>s. P s \<or> s = k \<Longrightarrow> Q s"
  shows "ids_ok Q (rs @ [r])"
proof -
  obtain slots where s: "map res_DisplayID rs = map display_id slots" "distinct slots" "\<forall>s\<in>set slots. s < 256 \<and> P s"
    using assms(1) by (auto simp: ids_ok_def)
  show ?thesis unfolding ids_ok_def
    by (rule exI [of _ "slots @ [k]"]) (use s assms(2-5) in auto)
qed

text \<open>
  A registered board: the list sound, its identifiers from allowed slots, its dimensions from an
  allowed set.
\<close>

definition reg_ok :: "(u32 \<Rightarrow> bool) \<Rightarrow> (u16 \<times> u16) set \<Rightarrow> mstate \<Rightarrow> bool" where
  "reg_ok P D st \<longleftrightarrow> (\<exists>bi. ms_bi st = Some bi \<and> list_ok (bi_ResolutionsList bi) \<and> ids_ok P (bi_ResolutionsList bi)
     \<and> dims ` set (bi_ResolutionsList bi) \<subseteq> D)"

lemma reg_ok_add:
  assumes st: "reg_ok P D st" and k: "k < 256" "\<not> P k" "\<forall>s. P s \<or> s = k \<longrightarrow> Q s" and wh: "(w, h) \<in> D'" "D \<subseteq> D'"
  shows "\<exists>b st'. chip_add_mode w h t k st = Some (b, st') \<and> reg_ok Q D' st' \<and> exec_only (ms_gpu st) (ms_gpu st')
     \<and> ms_hotplug st' = ms_hotplug st \<and> (\<not> b \<longrightarrow> reg_ok P D st')"
proof -
  obtain bi where bi: "ms_bi st = Some bi" "list_ok (bi_ResolutionsList bi)" "ids_ok P (bi_ResolutionsList bi)"
    "dims ` set (bi_ResolutionsList bi) \<subseteq> D"
    using st by (auto simp: reg_ok_def)
  obtain b gs' rs where r: "chip_add_mode w h t k st =
       Some (b, st\<lparr>ms_gpu := gs', ms_bi := Some (bi\<lparr>bi_ResolutionsList := bi_ResolutionsList bi @ rs\<rparr>)\<rparr>)"
     "exec_only (ms_gpu st) gs'" "list_ok (bi_ResolutionsList bi @ rs)"
     "rs = [] \<or> b \<and> (\<exists>r. rs = [r] \<and> dims r = (w, h) \<and> res_DisplayID r = display_id k)"
    using chip_add_mode_result [OF bi(1,2)] by blast
  have "ids_ok Q (bi_ResolutionsList bi @ rs)"
  proof (cases "rs = []")
    case True
    have "ids_ok Q (bi_ResolutionsList bi)" by (rule ids_ok_mono [OF bi(3)]) (simp add: k(3))
    then show ?thesis using True by simp
  next
    case False
    then obtain r where e: "rs = [r]" "res_DisplayID r = display_id k" using r(4) by auto
    have "ids_ok Q (bi_ResolutionsList bi @ [r])" by (rule ids_ok_snoc [OF bi(3) e(2) k(1,2)]) (use k(3) in blast)
    then show ?thesis using e(1) by simp
  qed
  moreover have "dims ` set (bi_ResolutionsList bi @ rs) \<subseteq> D'" using r(4) bi(4) wh by auto
  moreover have "\<not> b \<longrightarrow> rs = []" using r(4) by auto
  ultimately show ?thesis using r(1-3) bi by (auto simp: reg_ok_def)
qed

lemma reg_ok_mono: "reg_ok P D st \<Longrightarrow> (\<And>s. P s \<Longrightarrow> Q s) \<Longrightarrow> D \<subseteq> D' \<Longrightarrow> reg_ok Q D' st"
  unfolding reg_ok_def by (blast intro: ids_ok_mono)

section \<open>Registering the table and the EDID timings\<close>

definition table_dims :: "(u16 \<times> u16) set" where
  "table_dims = (\<lambda>e. (cm_w e, cm_h e)) ` set (drop 2 chip_modes)"

definition edid_dims :: "gpu \<Rightarrow> (u16 \<times> u16) set" where
  "edid_dims gs = set (take (unat (g_edid_dtd_count gs)) (zip (g_edid_dtd_w gs) (g_edid_dtd_h gs)))"

lemma chip_modes_length: "length chip_modes = 14"
  by (simp add: chip_modes_def)

lemma add_table_mode_result:
  assumes "reg_ok (\<lambda>s. unat s < m) D st" "2 \<le> m" "m < 14" "table_dims \<subseteq> D"
  shows "\<exists>st'. add_table_mode m st = Some st' \<and> reg_ok (\<lambda>s. unat s < Suc m) D st' \<and> exec_only (ms_gpu st) (ms_gpu st')
     \<and> ms_hotplug st' = ms_hotplug st"
proof -
  let ?e = "chip_modes ! m"
  have u: "unat (of_nat m :: u32) = m" using assms(3) by (simp add: unat_of_nat)
  obtain j where j: "m = 2 + j" using assms(2) le_Suc_ex by blast
  have "?e \<in> set (drop 2 chip_modes)"
    using j assms(3) chip_modes_length nth_drop [of 2 chip_modes j] nth_mem [of j "drop 2 chip_modes"] by simp
  then have d: "(cm_w ?e, cm_h ?e) \<in> D" using assms(4) by (auto simp: table_dims_def)
  have r: "rd chip_modes m = Some ?e" using assms(3) chip_modes_length by (simp add: rd_in)
  have k: "of_nat m < (256 :: u32)" "\<not> unat (of_nat m :: u32) < m"
    "\<forall>s :: u32. unat s < m \<or> s = of_nat m \<longrightarrow> unat s < Suc m"
    using u assms(3) by (auto simp: word_less_nat_alt)
  show ?thesis
    using reg_ok_add [where Q = "\<lambda>s. unat s < Suc m", OF assms(1) k d order_refl, of "\<lparr>t_hor_total = cm_hor_total ?e,
        t_hor_sync_start = cm_hor_sync_start ?e, t_hor_sync_size = cm_hor_sync_size ?e, t_ver_total = cm_ver_total ?e,
        t_ver_sync_start = cm_ver_sync_start ?e, t_ver_sync_size = cm_ver_sync_size ?e, t_clock = cm_clock ?e,
        t_flags = cm_flags ?e\<rparr>"] r
    by (fastforce simp: add_table_mode_def)
qed

lemma add_edid_mode_result:
  assumes "reg_ok (\<lambda>s. unat s < 14 + i) D st" "i < unat (g_edid_dtd_count (ms_gpu st))" "unat (g_edid_dtd_count (ms_gpu st)) \<le> 16"
    "edid_arrays_ok (ms_gpu st)" "edid_dims (ms_gpu st) \<subseteq> D"
  shows "\<exists>st'. add_edid_mode i st = Some st' \<and> reg_ok (\<lambda>s. unat s < 14 + Suc i) D st' \<and> exec_only (ms_gpu st) (ms_gpu st')
     \<and> ms_hotplug st' = ms_hotplug st"
proof -
  let ?w = "g_edid_dtd_w (ms_gpu st)" and ?h = "g_edid_dtd_h (ms_gpu st)" and ?k = "14 + of_nat i :: u32"
  have l: "i < length ?w" "i < length ?h" using assms(2-4) by (auto simp: edid_arrays_ok_def)
  then have r: "rd ?w i = Some (?w ! i)" "rd ?h i = Some (?h ! i)" by (simp_all add: rd_in)
  have d: "(?w ! i, ?h ! i) \<in> D"
    using assms(2,5) l by (auto simp: edid_dims_def in_set_conv_nth intro!: subsetD [OF assms(5)] exI [of _ i])
  have u: "unat ?k = 14 + i" using assms(2,3) by (simp add: unat_word_ariths unat_of_nat)
  have k: "?k < 256" "\<not> unat ?k < 14 + i" "\<forall>s :: u32. unat s < 14 + i \<or> s = ?k \<longrightarrow> unat s < 14 + Suc i"
    using u assms(2,3) by (auto simp: word_less_nat_alt)
  show ?thesis
    using reg_ok_add [where Q = "\<lambda>s. unat s < 14 + Suc i", OF assms(1) k d order_refl, of no_timing] r
    by (fastforce simp: add_edid_mode_def)
qed

lemma chip_register_modes_result:
  assumes bi: "ms_bi st = Some bi" "bi_ResolutionsList bi = []"
    and e: "edid_arrays_ok (ms_gpu st)" "unat (g_edid_dtd_count (ms_gpu st)) \<le> 16"
  shows "\<exists>st'. chip_register_modes st = Some st' \<and> reg_ok (\<lambda>s. unat s < 30) (table_dims \<union> edid_dims (ms_gpu st)) st'
     \<and> exec_only (ms_gpu st) (ms_gpu st') \<and> ms_hotplug st' = ms_hotplug st"
proof -
  let ?D = "table_dims \<union> edid_dims (ms_gpu st)"
  let ?I = "\<lambda>b k s. reg_ok (\<lambda>x. unat x < b + k) ?D s \<and> exec_only (ms_gpu st) (ms_gpu s) \<and> ms_hotplug s = ms_hotplug st"
  have "?I 0 2 st" using bi exec_only_refl by (simp add: reg_ok_def list_ok_def ids_ok_def)
  then have "\<exists>st1. foldM add_table_mode [2..<14] st = Some st1 \<and> ?I 0 14 st1"
  proof (rule foldM_upt_rule)
    fix k s assume k: "2 \<le> k" "k < 14" and I: "?I 0 k s"
    have "reg_ok (\<lambda>x. unat x < k) ?D s" using I by simp
    from add_table_mode_result [OF this k Un_upper1] obtain s' where
      "add_table_mode k s = Some s'" "reg_ok (\<lambda>x. unat x < Suc k) ?D s'" "exec_only (ms_gpu s) (ms_gpu s')" "ms_hotplug s' = ms_hotplug s"
      by blast
    then show "\<exists>s'. add_table_mode k s = Some s' \<and> ?I 0 (Suc k) s'"
      using I exec_only_trans by auto
  qed simp
  then obtain st1 where s1: "foldM add_table_mode [2..<14] st = Some st1" "?I 0 14 st1" by blast
  have "unat chip_num_modes = 14" by simp
  then have run: "chip_register_modes st = (if g_has_edid (ms_gpu st1) \<and> 0 < g_edid_dtd_count (ms_gpu st1)
     then foldM add_edid_mode [0..<unat (g_edid_dtd_count (ms_gpu st1))] st1 else Some st1)"
    by (simp only: chip_register_modes_def s1(1) bi(1) option.simps if_False Option.bind_lunit)
  have f1: "edid_arrays_ok (ms_gpu st1)" "unat (g_edid_dtd_count (ms_gpu st1)) \<le> 16" "edid_dims (ms_gpu st1) = edid_dims (ms_gpu st)"
    using s1(2) exec_only_frame [of "ms_gpu st" "ms_gpu st1"] e by (simp_all add: edid_dims_def)
  show ?thesis
  proof (cases "g_has_edid (ms_gpu st1) \<and> 0 < g_edid_dtd_count (ms_gpu st1)")
    case False
    have "reg_ok (\<lambda>s. unat s < 30) ?D st1"
      by (rule reg_ok_mono [of "\<lambda>x. unat x < 14"]) (use s1(2) in auto)
    then show ?thesis using s1(2) run False by auto
  next
    case True
    let ?n = "unat (g_edid_dtd_count (ms_gpu st1))"
    have "?I 14 0 st1" using s1(2) by simp
    then have "\<exists>st2. foldM add_edid_mode [0..<?n] st1 = Some st2 \<and> ?I 14 ?n st2"
    proof (rule foldM_upt_rule)
      fix k s assume k: "k < ?n" and I: "?I 14 k s"
      have f: "edid_arrays_ok (ms_gpu s)" "g_edid_dtd_count (ms_gpu s) = g_edid_dtd_count (ms_gpu st1)"
        "edid_dims (ms_gpu s) = edid_dims (ms_gpu st)"
        using I s1(2) e(1) exec_only_frame [of "ms_gpu st" "ms_gpu s"] exec_only_frame [of "ms_gpu st" "ms_gpu st1"]
        by (simp_all add: edid_dims_def)
      have r: "reg_ok (\<lambda>x. unat x < 14 + k) ?D s" using I by simp
      obtain s' where "add_edid_mode k s = Some s'" "reg_ok (\<lambda>x. unat x < 14 + Suc k) ?D s'" "exec_only (ms_gpu s) (ms_gpu s')"
        "ms_hotplug s' = ms_hotplug s"
        using add_edid_mode_result [OF r _ _ f(1)] k f f1(2) by auto
      then show "\<exists>s'. add_edid_mode k s = Some s' \<and> ?I 14 (Suc k) s'" using I exec_only_trans by auto
    qed simp
    then obtain st2 where s2: "foldM add_edid_mode [0..<?n] st1 = Some st2" "?I 14 ?n st2" by blast
    have "reg_ok (\<lambda>s. unat s < 30) ?D st2"
      by (rule reg_ok_mono [of "\<lambda>x. unat x < 14 + ?n"]) (use s2(2) f1(2) in auto)
    then show ?thesis using s2 run True by auto
  qed
qed

section \<open>Hotplug\<close>

lemma first_enabled_total:
  assumes "length resp = 4096" "\<forall>i\<in>set is. i < 16"
  shows "\<exists>r. first_enabled is resp = Some r"
  using assms(2)
proof (induction "is")
  case (Cons i "is")
  have "\<exists>v. cpu_ld32 (24 + 24 * i + k) resp = Some v" if "k \<le> 16" for k
    using Cons.prems that assms(1) by (auto simp: cpu_ld32_def)
  from this [of 16] this [of 8] this [of 12] show ?case using Cons by fastforce
qed simp

lemma get_display_info_total:
  assumes "gpu_ok env lk gs"
  shows "\<exists>r gs'. with_io (chip_GetDisplayInfo env) gs = Some (r, gs') \<and> gpu_ok env lk gs'"
proof -
  have idle: "io_idle env lk (g_io gs)" using assms by (simp add: gpu_ok_def)
  let ?z = "zeroed 24 (i_cmd_buf (g_io gs))" and ?fs = "[(0, CMD_GET_DISPLAY_INFO)] :: (nat \<times> u32) list"
  have lz: "length ?z = 4096" using idle_len [OF idle] by (simp add: length_zeroed)
  note s = stores_result [of ?z ?fs]
  have fill: "cpu_st32 0 (GP32 CMD_GET_DISPLAY_INFO) ?z = Some (stores ?fs ?z)" "length (stores ?fs ?z) = 4096"
    using s lz by (simp_all add: words_ok_def put_words_Cons put_words_Nil)
  obtain rt io' where b: "gpu_begin env 24 408 408 (\<lambda>cmd. cpu_st32 0 (GP32 CMD_GET_DISPLAY_INFO) cmd) (g_io gs) = Some (rt, io')"
    "io_idle env lk (release_io_lock io')" "length (i_resp_buf io') = 4096"
    using gpu_begin_result [where fill = "\<lambda>cmd. cpu_st32 0 (GP32 CMD_GET_DISPLAY_INFO) cmd" and cs = 24 and rc = 408
        and rs = 408, OF idle _ _ fill] by auto
  obtain d where "first_enabled [0..<16] (i_resp_buf io') = Some d" using first_enabled_total [OF b(3), of "[0..<16]"] by auto
  then show ?thesis using b assms
    by (auto simp: with_io_def chip_GetDisplayInfo_def gpu_ok_def)
qed

definition hot_slots :: "nat \<Rightarrow> u32 \<Rightarrow> bool" where
  "hot_slots n s \<longleftrightarrow> unat s < 30 \<or> 0xC0 \<le> unat s \<and> unat s < 0xC0 + n"

lemma hot_slot_word:
  assumes "unat c < 64"
  shows "unat (0xC0 + (c AND 0x3F) :: u32) = 0xC0 + unat c"
proof -
  have "(0x3F :: u32) = mask 6" by (simp add: mask_eq_exp_minus_1)
  then have "c AND 0x3F = take_bit 6 c" by (simp only: take_bit_eq_mask)
  moreover have "unat (take_bit 6 c) = unat c" using assms by (simp add: unsigned_take_bit_eq take_bit_nat_eq_self)
  ultimately show ?thesis using assms by (simp add: unat_word_ariths)
qed

lemma display_change_result:
  assumes gs: "gpu_ok env lk (ms_gpu st)" and reg: "reg_ok (hot_slots (unat (ms_hotplug st))) D st" and n: "unat (ms_hotplug st) < 64"
  shows "\<exists>st'. chip_handle_display_change env st = Some st' \<and> gpu_ok env lk (ms_gpu st')
     \<and> reg_ok (hot_slots (unat (ms_hotplug st'))) UNIV st' \<and> unat (ms_hotplug st') \<le> Suc (unat (ms_hotplug st))"
proof -
  let ?c = "ms_hotplug st"
  obtain r gs' where i: "with_io (chip_GetDisplayInfo env) (ms_gpu st) = Some (r, gs')" "gpu_ok env lk gs'"
    using get_display_info_total [OF gs] by blast
  let ?st = "st\<lparr>ms_gpu := gs'\<rparr>"
  have reg': "reg_ok (hot_slots (unat ?c)) D ?st" using reg by (simp add: reg_ok_def)
  show ?thesis
  proof (cases r)
    case None
    have "reg_ok (hot_slots (unat ?c)) UNIV ?st" by (rule reg_ok_mono [OF reg']) auto
    then show ?thesis using i None by (simp add: chip_handle_display_change_def)
  next
    case (Some wh)
    obtain w h where wh: "wh = (w, h)" by fastforce
    let ?k = "0xC0 + (?c AND 0x3F)"
    have u: "unat ?k = 0xC0 + unat ?c" by (rule hot_slot_word [OF n])
    have s: "unat (?c + 1) = Suc (unat ?c)" using n by (simp add: unat_word_ariths)
    have k: "?k < 256" "\<not> hot_slots (unat ?c) ?k" using u n by (auto simp: word_less_nat_alt hot_slots_def)
    have q: "\<forall>s. hot_slots (unat ?c) s \<or> s = ?k \<longrightarrow> hot_slots (unat (?c + 1)) s"
      using u unfolding hot_slots_def s by auto
    obtain b st' where a: "chip_add_mode (ucast w) (ucast h) no_timing ?k ?st = Some (b, st')"
      "reg_ok (hot_slots (unat (?c + 1))) UNIV st'" "exec_only gs' (ms_gpu st')" "ms_hotplug st' = ?c"
      "\<not> b \<longrightarrow> reg_ok (hot_slots (unat ?c)) D st'"
      using reg_ok_add [where Q = "hot_slots (unat (?c + 1))" and w = "ucast w" and h = "ucast h" and t = no_timing
          and D' = UNIV, OF reg' k q] by auto
    have m: "\<not> b \<longrightarrow> reg_ok (hot_slots (unat ?c)) UNIV st'" using a(5) reg_ok_mono by blast
    have ok: "gpu_ok env lk (ms_gpu st')" using exec_only_frame(1) [OF a(3)] i(2) by simp
    have "reg_ok P UNIV (st'\<lparr>ms_hotplug := n\<rparr>) = reg_ok P UNIV st'" for P n by (simp add: reg_ok_def)
    then show ?thesis using i(1) Some wh a(1,2,4) m ok s
      by (cases b) (simp_all add: chip_handle_display_change_def)
  qed
qed

end
