(* ===== verification/Display_Properties.thy ===== *)
theory Display_Properties
  imports Virgl_Properties Interrupts Screen_Modes_Correct
begin

text \<open>
  The properties of the interrupt handshake and of the screen modes.
\<close>

section \<open>Interrupts\<close>

text \<open>
  Property C24. Interrupt handshake: tasks publish and retract task pointer and signal mask with
  single stores and the handler runs between any two of them. Whatever the interleaving, every
  signal sent so far went to a task that was then waiting with exactly that mask, and the next
  run of the handler signals, if its status byte has the queue bit, all waiters that are
  published, and claims the interrupt exactly if the status byte is not 0.
\<close>

theorem interrupt_signals_waiters:
  assumes "no_waiter io" "irq_step\<^sup>*\<^sup>* \<lparr>s_phase = \<lambda>_. Idle, s_io = io, s_sent = []\<rparr> s"
  shows "(\<forall>((t, m), p)\<in>set (s_sent s). \<exists>sel. p sel = Published t m)
    \<and> (\<exists>isr b. read_isr (i_vio (s_io s)) (i_bus (s_io s)) = (isr, b)
      \<and> chip_InterruptHandler (s_io s) = (if isr = 0 then 0 else 1,
          if isr AND VIRTIO_PCI_ISR_QUEUE = 0 then [] else waiter_of (s_phase s Ctrl) @ waiter_of (s_phase s Curs),
          (s_io s)\<lparr>i_bus := b\<rparr>))"
proof -
  have inv: "irqs_inv s" by (rule irq_steps_inv [OF assms(2) irqs_start [OF assms(1)]])
  then have "\<forall>((t, m), p)\<in>set (s_sent s). \<exists>sel. p sel = Published t m"
    by (fastforce simp: irqs_inv_def)
  then show ?thesis using handler_result [OF inv] by simp
qed

theorem interrupt_signals_waiters_witness:
  "\<exists>s. irq_step\<^sup>*\<^sup>* \<lparr>s_phase = \<lambda>_. Idle, s_io = demo_io 4, s_sent = []\<rparr> s \<and> s_phase s Ctrl = Published 9 1
     \<and> (\<forall>((t, m), p)\<in>set (s_sent s). \<exists>sel. p sel = Published t m)"
proof -
  let ?s0 = "\<lparr>s_phase = \<lambda>_. Idle, s_io = demo_io 4, s_sent = []\<rparr>"
  let ?s1 = "?s0\<lparr>s_phase := (s_phase ?s0)(Ctrl := Publishing 9 1), s_io := store_task Ctrl 9 (s_io ?s0)\<rparr>"
  let ?s2 = "?s1\<lparr>s_phase := (s_phase ?s1)(Ctrl := Published 9 1), s_io := store_mask Ctrl 1 (s_io ?s1)\<rparr>"
  have "irq_step ?s0 ?s1" by (rule irq_step.publish_task) simp_all
  moreover have "irq_step ?s1 ?s2" by (rule irq_step.publish_mask) simp
  ultimately have r: "irq_step\<^sup>*\<^sup>* ?s0 ?s2" by (meson rtranclp.rtrancl_refl rtranclp.rtrancl_into_rtrancl)
  have "no_waiter (demo_io 4)" by (simp add: no_waiter_def demo_io_def)
  from interrupt_signals_waiters [OF this r] have "\<forall>((t, m), p)\<in>set (s_sent ?s2). \<exists>sel. p sel = Published t m" ..
  then show ?thesis using r by (intro exI [of _ ?s2]) simp
qed

section \<open>Screen modes\<close>

text \<open>
  Property C25. Registration of the screen modes on a board without any: it returns, every
  resolution in the list is a table mode from 800x600 on or a detailed timing of the EDID, no resolution
  occurs twice, all display identifiers differ, and each node is well formed: right name, at least
  one depth, and every \<open>ModeInfo\<close> in the slot of its depth with blanking that adds up to the totals.
\<close>

theorem register_modes_sound:
  assumes "ms_bi st = Some bi" "bi_ResolutionsList bi = []"
    and "edid_arrays_ok (ms_gpu st)" "unat (g_edid_dtd_count (ms_gpu st)) \<le> 16"
  shows "\<exists>st' bi'. chip_register_modes st = Some st' \<and> ms_bi st' = Some bi'
     \<and> (\<forall>r\<in>set (bi_ResolutionsList bi'). res_ok r \<and> dims r \<in> table_dims \<union> edid_dims (ms_gpu st))
     \<and> distinct (map dims (bi_ResolutionsList bi')) \<and> distinct (map res_DisplayID (bi_ResolutionsList bi'))"
proof -
  obtain st' where st': "chip_register_modes st = Some st'"
    "reg_ok (\<lambda>s. unat s < 30) (table_dims \<union> edid_dims (ms_gpu st)) st'"
    using chip_register_modes_result [OF assms] by blast
  then show ?thesis using ids_ok_distinct by (fastforce simp: reg_ok_def list_ok_def)
qed

theorem register_modes_sound_witness:
  "\<exists>st' bi'. chip_register_modes \<lparr>ms_gpu = demo_gpu, ms_bi = Some \<lparr>bi_BoardNum = 0, bi_ResolutionsList = []\<rparr>, ms_hotplug = 0\<rparr>
       = Some st' \<and> ms_bi st' = Some bi' \<and> distinct (map dims (bi_ResolutionsList bi'))"
proof -
  have "unat (g_edid_dtd_count demo_gpu) \<le> 16" by (simp only: demo_gpu_def gpu.simps) simp
  then show ?thesis
    using register_modes_sound [of "\<lparr>ms_gpu = demo_gpu, ms_bi = Some \<lparr>bi_BoardNum = 0, bi_ResolutionsList = []\<rparr>, ms_hotplug = 0\<rparr>"]
      demo_gpu_ok(2) by auto
qed

text \<open>
  Property C26. Hotplug: starting from a list with distinct identifiers, each of the first 64
  display changes returns, keeps the driver state sound, and leaves a list without double
  resolutions whose identifiers are still distinct, whatever size the host reports.
\<close>

theorem display_change_keeps_ids:
  assumes "gpu_ok env lk (ms_gpu st)" "reg_ok (hot_slots (unat (ms_hotplug st))) D st" "unat (ms_hotplug st) < 64"
  shows "\<exists>st' bi. chip_handle_display_change env st = Some st' \<and> gpu_ok env lk (ms_gpu st') \<and> ms_bi st' = Some bi
     \<and> reg_ok (hot_slots (unat (ms_hotplug st'))) UNIV st' \<and> unat (ms_hotplug st') \<le> Suc (unat (ms_hotplug st))
     \<and> distinct (map dims (bi_ResolutionsList bi)) \<and> distinct (map res_DisplayID (bi_ResolutionsList bi))"
proof -
  obtain st' where st': "chip_handle_display_change env st = Some st'" "gpu_ok env lk (ms_gpu st')"
    "reg_ok (hot_slots (unat (ms_hotplug st'))) UNIV st'" "unat (ms_hotplug st') \<le> Suc (unat (ms_hotplug st))"
    using display_change_result [OF assms] by blast
  from st'(3) obtain bi where "ms_bi st' = Some bi" "list_ok (bi_ResolutionsList bi)"
    "ids_ok (hot_slots (unat (ms_hotplug st'))) (bi_ResolutionsList bi)" by (auto simp: reg_ok_def)
  then show ?thesis using st' ids_ok_distinct by (auto simp: list_ok_def)
qed

theorem display_change_keeps_ids_witness:
  "\<exists>st' bi. chip_handle_display_change demo_env
       \<lparr>ms_gpu = demo_gpu, ms_bi = Some \<lparr>bi_BoardNum = 0, bi_ResolutionsList = []\<rparr>, ms_hotplug = 0\<rparr> = Some st'
     \<and> ms_bi st' = Some bi \<and> distinct (map res_DisplayID (bi_ResolutionsList bi))"
  using display_change_keeps_ids [of demo_env 0 "\<lparr>ms_gpu = demo_gpu, ms_bi = Some \<lparr>bi_BoardNum = 0, bi_ResolutionsList = []\<rparr>, ms_hotplug = 0\<rparr>" "{}"]
    demo_gpu_ok(1)
  by (auto simp: reg_ok_def list_ok_def ids_ok_def)

end
