(* ===== verification/Flush_Properties.thy ===== *)
theory Flush_Properties
  imports Flush_Correct Display_Properties
begin

text \<open>
  The properties of the framebuffer conversion, of the presentation of a frame and of the wake-up of
  the flush task.
\<close>

text \<open>A driver with a screen of two by one CLUT pixels at 4, a front buffer at 8 and a back buffer at 16.\<close>

definition demo_prof :: ChipProf where
  "demo_prof = CHIP_PROF_DEFINE 0 200"

definition demo_disp :: disp where
  "demo_disp = \<lparr>d_gs = demo_gpu\<lparr>g_fb_mem := 8, g_fb_stride := 8, g_fb_width := 2, g_fb_height := 1\<rparr>,
     d_mem = replicate 24 1, d_board_mem = 4, d_fb_mem2 = 16, d_fb_phys2 = 16, d_fb_dma_count2 = 1, d_fb_dma_list2 = 0x9100,
     d_virgl_2d_resource2 = 0, d_double_buffer = True, d_virgl_2d_ready = False, d_virgl_2d_ctx = 0, d_virgl_2d_resource = 0,
     d_active_format = RGBFB_CLUT, d_active_width = 2, d_active_height = 1, d_panning_mem = 0, d_panning_width = 0,
     d_pan_xoff = 0, d_pan_yoff = 0, d_palette = replicate 256 0x11223300, d_flush_task = 7, d_flush_sig_mask = 32,
     d_stat_signal_calls = 0, d_signals = [], d_eclock = \<lparr>ec_itimer = True, ec_freq = 1000000, ec_ticks = of_nat, ec_reads = 0\<rparr>,
     d_prof_convert = demo_prof, d_prof_flush_all = demo_prof, d_proflog = \<lparr>pl_warned = 0, pl_msgs = []\<rparr>\<rparr>"

lemma demo_disp_fields:
  "visible_w demo_disp = 2" "visible_h demo_disp = 1" "src_base demo_disp = 4" "src_width demo_disp = 2" "src_bpp demo_disp = 1"
  "pan_x demo_disp = 0" "pan_y demo_disp = 0" "g_fb_stride (d_gs demo_disp) = 8" "d_fb_mem2 demo_disp = 16"
  "length (d_mem demo_disp) = 24" "g_fb_height (d_gs demo_disp) = 1" "d_active_format demo_disp = RGBFB_CLUT"
  "length (d_palette demo_disp) = 256" "g_fb_mem (d_gs demo_disp) = 8" "d_double_buffer demo_disp"
  by (simp_all add: demo_disp_def visible_w_def visible_h_def src_base_def src_width_def src_bpp_def pan_x_def pan_y_def)

lemma demo_disp_ok: "convert_ok 16 demo_disp" "prof_room (Suc 0) (d_prof_convert demo_disp)" "prof_room (Suc 0) (d_prof_flush_all demo_disp)"
  "gpu_ok demo_env 0 (d_gs demo_disp)"
proof -
  show "convert_ok 16 demo_disp" unfolding convert_ok_def by (simp only: demo_disp_fields) simp
  show "prof_room (Suc 0) (d_prof_convert demo_disp)" "prof_room (Suc 0) (d_prof_flush_all demo_disp)"
    by (simp_all add: demo_disp_def demo_prof_def CHIP_PROF_DEFINE_def prof_room_def pair_value_def)
  have "gpu_ok demo_env 0 (demo_gpu\<lparr>g_fb_mem := a, g_fb_stride := b, g_fb_width := c, g_fb_height := e\<rparr>) = gpu_ok demo_env 0 demo_gpu" for a b c e
    by (simp add: gpu_ok_def)
  then show "gpu_ok demo_env 0 (d_gs demo_disp)" using demo_gpu_ok(1) by (simp add: demo_disp_def)
qed

text \<open>
  Property C27. The conversion of a rectangle of the visible screen: every pixel of the rectangle
  becomes, in the four bytes at its place of the destination, the blue, green, red and X bytes of
  the source pixel under it, looked up in the palette or unpacked by its format, at the panning
  offset clamped to the bitmap; every other byte of memory and the driver state keep their value.
\<close>

theorem convert_rect_pixels:
  assumes "convert_ok dst_mem d" "unat x + unat w \<le> unat (visible_w d)" "unat y + unat h \<le> unat (visible_h d)" "w \<noteq> 0" "h \<noteq> 0"
    and "prof_room (Suc n) (d_prof_convert d)"
  shows "\<exists>d'. chip_convert_rect dst_mem x y w h d = Some d' \<and> d_gs d' = d_gs d \<and> length (d_mem d') = length (d_mem d)
     \<and> (\<forall>row<unat h. \<forall>col<unat w. \<forall>i<4.
          d_mem d' ! (unat dst_mem + (unat y + row) * unat (g_fb_stride (d_gs d)) + (unat x + col) * 4 + i)
          = shown_pixel d (unat y + row) (unat x + col) ! i)
     \<and> (\<forall>a<length (d_mem d). a \<notin> rect_bytes (unat dst_mem + unat x * 4 + unat y * unat (g_fb_stride (d_gs d)))
            (unat (g_fb_stride (d_gs d))) (unat w * 4) (unat h) \<longrightarrow> d_mem d' ! a = d_mem d ! a)"
proof -
  let ?s = "unat (g_fb_stride (d_gs d))"
  let ?base = "unat dst_mem + unat x * 4 + unat y * ?s"
  obtain d' where d': "chip_convert_rect dst_mem x y w h d = Some d'" "converted d d'"
    "paints (picture d dst_mem) (rect_bytes ?base ?s (unat w * 4) (unat h)) (d_mem d) (d_mem d')"
    using chip_convert_rect_result [OF assms] by blast
  have px: "d_mem d' ! (unat dst_mem + (unat y + row) * ?s + (unat x + col) * 4 + i) = shown_pixel d (unat y + row) (unat x + col) ! i"
    if "row < unat h" "col < unat w" "i < 4" for row col i
  proof -
    let ?a = "unat dst_mem + (unat y + row) * ?s + (unat x + col) * 4 + i"
    have s4: "(unat x + col) * 4 + i < ?s" using assms(1,2) that by (simp add: convert_ok_def)
    have "Suc (unat y + row) * ?s \<le> unat (visible_h d) * ?s" using assms(3) that by (intro mult_right_mono) simp_all
    then have "?a < length (d_mem d)" using s4 assms(1) by (simp add: convert_ok_def Let_def)
    moreover have "?a = ?base + row * ?s + (col * 4 + i)" by (simp add: algebra_simps)
    then have "?a \<in> rect_bytes ?base ?s (unat w * 4) (unat h)" using rect_row [OF that(1), of ?base ?s "unat w * 4"] that(2,3) by fastforce
    ultimately show ?thesis using d'(3) picture_at [OF s4 that(3), of dst_mem "unat y + row"] by (simp add: paints_def)
  qed
  show ?thesis using d' px converted_frame(1) [OF d'(2)] by (intro exI [of _ d']) (simp add: paints_def)
qed

theorem convert_rect_pixels_witness:
  "\<exists>d'. chip_convert_rect 16 0 0 2 1 demo_disp = Some d' \<and> d_mem d' ! 20 = 0x11 \<and> d_mem d' ! 8 = 1"
proof -
  obtain d' where d': "chip_convert_rect 16 0 0 2 1 demo_disp = Some d'"
    "\<forall>row<1. \<forall>col<2. \<forall>i<4. d_mem d' ! (16 + row * 8 + col * 4 + i) = shown_pixel demo_disp row col ! i"
    "\<forall>a<24. a \<notin> rect_bytes 16 8 8 1 \<longrightarrow> d_mem d' ! a = d_mem demo_disp ! a"
    using convert_rect_pixels [OF demo_disp_ok(1), of 0 2 0 1 0] demo_disp_ok(2) by (auto simp: demo_disp_fields)
  have "d_mem d' ! (16 + 0 * 8 + 1 * 4 + 0) = shown_pixel demo_disp 0 1 ! 0" using d'(2) by (metis less_one one_less_numeral_iff semiring_norm(76) zero_less_numeral)
  moreover have "shown_pixel demo_disp 0 1 ! 0 = 0x11"
    unfolding shown_pixel_def by (simp only: demo_disp_fields) (simp add: src_pixel_def demo_disp_def, code_simp)
  moreover have "d_mem d' ! 8 = d_mem demo_disp ! 8" using d'(3) by (simp add: rect_bytes_def)
  ultimately show ?thesis using d'(1) by (simp add: demo_disp_def)
qed



text \<open>
  Dirty rectangles: \<open>chip_flush\<close> wakes the flush task, once and with its signal mask,
  exactly if some pixel of the rectangle lies on the visible screen, also for rectangles that
  begin left of or above the screen; otherwise it changes nothing.
\<close>

theorem flush_wakes_if_visible:
  assumes "unat (visible_w d) < 2 ^ 31" "unat (visible_h d) < 2 ^ 31" "g_fb_mem (d_gs d) \<noteq> 0" "d_flush_task d \<noteq> 0" "d_flush_sig_mask d \<noteq> 0"
  shows "chip_flush x y w h d = (if rect_visible x y w h d
     then d\<lparr>d_stat_signal_calls := d_stat_signal_calls d + 1, d_signals := d_signals d @ [(d_flush_task d, d_flush_sig_mask d)]\<rparr>
     else d)"
  using chip_flush_result [OF assms(1-3), of x y w h] assms(4,5) by (simp add: chip_flush_signal_activity_def)

theorem flush_wakes_if_visible_witness:
  "d_signals (chip_flush (- 1) 0 2 1 demo_disp) = [(7, 32)] \<and> chip_flush (- 2) 0 2 1 demo_disp = demo_disp"
proof -
  have h: "unat (visible_w demo_disp) < 2 ^ 31" "unat (visible_h demo_disp) < 2 ^ 31" "g_fb_mem (d_gs demo_disp) \<noteq> 0"
    "d_flush_task demo_disp \<noteq> 0" "d_flush_sig_mask demo_disp \<noteq> 0"
    by (simp_all only: demo_disp_fields) (simp_all add: demo_disp_def)
  have "rect_visible (- 1) 0 2 1 demo_disp" unfolding rect_visible_def
    by (intro exI [of _ 0]) (simp add: demo_disp_fields)
  then have a: "d_signals (chip_flush (- 1) 0 2 1 demo_disp) = [(7, 32)]"
    using flush_wakes_if_visible [OF h, of "- 1" 0 2 1] by (simp add: demo_disp_def)
  have "\<not> rect_visible (- 2) 0 2 1 demo_disp" unfolding rect_visible_def by (auto simp: demo_disp_fields)
  then show ?thesis using a flush_wakes_if_visible [OF h, of "- 2" 0 2 1] by simp
qed

end
