(* ===== verification/Blit_Properties.thy ===== *)
theory Blit_Properties
  imports Blit_Correct Flush_Properties
begin

text \<open>
  The properties of the drawing callbacks: rectangle fill and overlapping rectangle copy.
\<close>

lemma rect_paint_at:
  assumes "paints F (rect_bytes base stride n h) m m'" "row < h" "i < n" "base + row * stride + n \<le> length m"
  shows "m' ! (base + row * stride + i) = F (base + row * stride + i) (m ! (base + row * stride + i))"
proof -
  have "base + row * stride + i \<in> rect_bytes base stride n h" using rect_row [OF assms(2)] assms(3) by fastforce
  then show ?thesis using assms by (simp add: paints_def)
qed

lemma blit_prof_begin_frame: "\<exists>t c. blit_prof_begin b = (t, b\<lparr>b_disp := (b_disp b)\<lparr>d_eclock := c\<rparr>\<rparr>)"
  using prof_begin_frame [of "b_disp b"] by (auto simp: blit_prof_begin_def)

lemma blit_prof_end_frame:
  assumes "prof_room (Suc n) (b_prof b name)"
  shows "\<exists>p lg c. blit_prof_end name t bytes b
    = Some (b\<lparr>b_prof := (b_prof b)(name := p), b_disp := (b_disp b)\<lparr>d_proflog := lg, d_eclock := c\<rparr>\<rparr>)"
proof -
  obtain p lg c where "chip_prof_end t bytes (b_prof b name, d_proflog (b_disp b), d_eclock (b_disp b)) = Some (p, lg, c)"
    using prof_end_total [OF assms] by blast
  then show ?thesis by (intro exI [of _ p] exI [of _ lg] exI [of _ c]) (simp add: blit_prof_end_def)
qed

lemma bump_frame [simp]: "b_disp (bump name b) = b_disp b" "b_prof (bump name b) = b_prof b"
  by (simp_all add: bump_def)

lemma fill_stats_frame: "b_disp (fill_stats ri w h format b) = b_disp b" "b_prof (fill_stats ri w h format b) = b_prof b"
  by (simp_all add: fill_stats_def Let_def)

lemma flush_frame:
  "d_mem (chip_flush x y w h d) = d_mem d" "d_gs (chip_flush x y w h d) = d_gs d"
  by (simp_all add: chip_flush_def chip_flush_signal_activity_def Let_def)

lemma flush_signals:
  assumes "d_gs d' = d_gs d" "visible_w d' = visible_w d" "visible_h d' = visible_h d" "d_flush_task d' = d_flush_task d"
    "d_flush_sig_mask d' = d_flush_sig_mask d" "d_signals d' = d_signals d"
  shows "d_signals (chip_flush x y w h d') = d_signals (chip_flush x y w h d)"
  using assms by (simp add: chip_flush_def chip_flush_signal_activity_def Let_def)

lemma flush_signals_mem: "d_signals (chip_flush x y w h (d\<lparr>d_eclock := c, d_mem := m, d_proflog := lg, d_eclock := c'\<rparr>)) = d_signals (chip_flush x y w h d)"
  by (rule flush_signals) (simp_all add: visible_w_def visible_h_def)


text \<open>A bitmap of three rows of four bytes at address 4 of a memory that counts upwards.\<close>

definition demo_blit :: blit where
  "demo_blit = \<lparr>b_disp = demo_disp\<lparr>d_mem := map of_nat [0..<24]\<rparr>, b_stat = \<lambda>_. 0, b_prof = \<lambda>_. demo_prof,
     b_last_fill_dst = 0, b_last_blit_src = 0, b_last_blit_dst = 0\<rparr>"

definition demo_ri :: RenderInfo where
  "demo_ri = \<lparr>ri_Memory = 4, ri_BytesPerRow = 4, ri_RGBFormat = RGBFB_CLUT\<rparr>"

lemma demo_blit_room: "prof_room (Suc 0) (b_prof demo_blit name)"
  using demo_disp_ok(2) by (simp add: demo_blit_def demo_disp_def)


text \<open>
  Property C30. \<open>chip_BlitRect\<close> is a simultaneous copy: whatever the overlap of source and
  destination, after the call every byte of the destination rectangle is the byte the source
  rectangle held there before it, every other byte keeps its value, and the flush task is woken
  once. exec.library's copy routines are only used on rows that do not overlap.
\<close>

theorem blit_rect_simultaneous:
  assumes "copier_ok ex" "ri_Memory ri \<noteq> 0" "w \<noteq> 0" "h \<noteq> 0"
    and "pixels_in ri (unat (chip_format_bpp (ri_RGBFormat ri))) x y w h (d_mem (b_disp b))"
    and "pixels_in ri (unat (chip_format_bpp (ri_RGBFormat ri))) dx dy w h (d_mem (b_disp b))"
    and "prof_room (Suc n) (b_prof b ''BlitRect'')"
  shows "\<exists>b'. chip_BlitRect ex (Some ri) x y dx dy w h b = Some b' \<and> d_gs (b_disp b') = d_gs (b_disp b)
     \<and> d_signals (b_disp b') = d_signals (chip_flush_signal_activity (b_disp b)) \<and> length (d_mem (b_disp b')) = length (d_mem (b_disp b))
     \<and> (\<forall>row<unat h. \<forall>i<unat w * unat (chip_format_bpp (ri_RGBFormat ri)).
          d_mem (b_disp b') ! (pixel_at ri (unat (chip_format_bpp (ri_RGBFormat ri))) (unat dx) (unat dy + row) + i)
          = d_mem (b_disp b) ! (pixel_at ri (unat (chip_format_bpp (ri_RGBFormat ri))) (unat x) (unat y + row) + i))
     \<and> (\<forall>a<length (d_mem (b_disp b)). a \<notin> rect_bytes (pixel_at ri (unat (chip_format_bpp (ri_RGBFormat ri))) (unat dx) (unat dy))
            (unat (ri_BytesPerRow ri)) (unat w * unat (chip_format_bpp (ri_RGBFormat ri))) (unat h)
          \<longrightarrow> d_mem (b_disp b') ! a = d_mem (b_disp b) ! a)"
proof -
  let ?k = "unat (chip_format_bpp (ri_RGBFormat ri))" and ?s = "unat (ri_BytesPerRow ri)" and ?m = "d_mem (b_disp b)"
  let ?src = "pixel_at ri ?k (unat x) (unat y)" and ?dst = "pixel_at ri ?k (unat dx) (unat dy)" and ?b0 = "bump ''blitrect'' b"
  note f0 = bump_frame
  obtain t c where t: "blit_prof_begin ?b0 = (t, ?b0\<lparr>b_disp := (b_disp b)\<lparr>d_eclock := c\<rparr>\<rparr>)"
    using blit_prof_begin_frame [of ?b0] by (auto simp: f0)
  obtain m' where m': "blit_rows ex ri x y dx dy w h ?m = Some m'"
    "paints (source_byte ?src ?dst ?m) (rect_bytes ?dst ?s (unat w * ?k) (unat h)) ?m m'"
    using blit_rows_paint [OF assms(1,3,4,5,6)] by blast
  let ?b1 = "?b0\<lparr>b_disp := chip_flush_signal_activity ((b_disp b)\<lparr>d_eclock := c, d_mem := m'\<rparr>)\<rparr>"
  have "prof_room (Suc n) (b_prof ?b1 ''BlitRect'')" using assms(7) by (simp add: f0)
  then obtain p lg c' where e: "blit_prof_end ''BlitRect'' t (ucast w * ucast h * ucast (chip_format_bpp (ri_RGBFormat ri))) ?b1
      = Some (?b1\<lparr>b_prof := (b_prof ?b1)(''BlitRect'' := p), b_disp := (b_disp ?b1)\<lparr>d_proflog := lg, d_eclock := c'\<rparr>\<rparr>)"
    using blit_prof_end_frame by blast
  let ?b' = "?b1\<lparr>b_prof := (b_prof ?b1)(''BlitRect'' := p), b_disp := (b_disp ?b1)\<lparr>d_proflog := lg, d_eclock := c'\<rparr>\<rparr>"
  have run: "chip_BlitRect ex (Some ri) x y dx dy w h b = Some ?b'"
    using assms(2-4) m'(1) e by (simp add: chip_BlitRect_def t on_mem_def on_disp_def)
  have px: "m' ! (pixel_at ri ?k (unat dx) (unat dy + row) + i) = ?m ! (pixel_at ri ?k (unat x) (unat y + row) + i)"
    if "row < unat h" "i < unat w * ?k" for row i
    using rect_paint_at [OF m'(2) that pixels_in_row [OF assms(6) that(1)]]
    by (simp add: source_byte_def pixel_at_def algebra_simps)
  show ?thesis using px m'(2) by (intro exI [of _ ?b'] conjI run) (simp_all add: chip_flush_signal_activity_def paints_def)
qed

definition demo_copier :: copier where
  "demo_copier = (let f = \<lambda>s d n m. if unat s + unat n \<le> length m \<and> unat d + unat n \<le> length m
     then Some (stbytes (unat d) (take (unat n) (drop (unat s) m)) m) else None in \<lparr>CopyMemQuick = f, CopyMem = f\<rparr>)"

theorem blit_rect_simultaneous_witness:
  "\<exists>b'. chip_BlitRect demo_copier (Some demo_ri) 0 0 1 1 3 2 demo_blit = Some b' \<and> d_mem (b_disp b') ! 14 = 9 \<and> d_mem (b_disp b') ! 9 = 4"
proof -
  have a: "copier_ok demo_copier" "ri_Memory demo_ri \<noteq> 0" "(3 :: u16) \<noteq> 0" "(2 :: u16) \<noteq> 0"
    "pixels_in demo_ri (unat (chip_format_bpp (ri_RGBFormat demo_ri))) 0 0 3 2 (d_mem (b_disp demo_blit))"
    "pixels_in demo_ri (unat (chip_format_bpp (ri_RGBFormat demo_ri))) 1 1 3 2 (d_mem (b_disp demo_blit))"
    by (simp_all add: pixels_in_def demo_ri_def demo_blit_def copier_ok_def copies_def demo_copier_def Let_def)
  obtain b' where b': "chip_BlitRect demo_copier (Some demo_ri) 0 0 1 1 3 2 demo_blit = Some b'"
    "\<forall>row<unat (2 :: u16). \<forall>i<unat (3 :: u16) * unat (chip_format_bpp (ri_RGBFormat demo_ri)).
       d_mem (b_disp b') ! (pixel_at demo_ri (unat (chip_format_bpp (ri_RGBFormat demo_ri))) (unat (1 :: u16)) (unat (1 :: u16) + row) + i)
       = d_mem (b_disp demo_blit) ! (pixel_at demo_ri (unat (chip_format_bpp (ri_RGBFormat demo_ri))) (unat (0 :: u16)) (unat (0 :: u16) + row) + i)"
    using blit_rect_simultaneous [OF a demo_blit_room] by blast
  have "d_mem (b_disp b') ! 14 = 9" "d_mem (b_disp b') ! 9 = 4"
    using b'(2) [rule_format, of 1 1] b'(2) [rule_format, of 0 0] by (simp_all add: pixel_at_def demo_ri_def demo_blit_def)
  then show ?thesis using b'(1) by blast
qed

end
