(* ===== verification/Float32.thy ===== *)
theory Float32
  imports Complex_Main "HOL-Library.Log_Nat" Virgl_Encoder
begin

text \<open>
  The \<open>float\<close> arithmetic of the vertex and colour computations (\<open>src/chip/chip_virgl_2d.c\<close>,
  \<open>src/chip/chip_composite.c\<close>): IEEE single precision, rounding to nearest, ties to even.  The code
  never produces a negative zero, so zero has one representation.
\<close>

datatype fl = FNaN | FInf bool | FFin rat       \<comment> \<open>the sign of an infinity: true for negative\<close>

definition f32_val :: "f32 \<Rightarrow> fl" where
  "f32_val w =
     (let neg = bit w 31; e = uint w div 2 ^ 23 mod 256; m = uint w mod 2 ^ 23; s = (if neg then - 1 else 1) in
      if e = 255 then (if m = 0 then FInf neg else FNaN)
      else FFin (s * (if e = 0 then of_int m / 2 ^ 149 else of_int (2 ^ 23 + m) * 2 ^ nat e / 2 ^ 150)))"

definition round_even :: "rat \<Rightarrow> int" where
  "round_even q = (let f = \<lfloor>q\<rfloor>; r = q - of_int f in
     if r < 1 / 2 then f else if 1 / 2 < r then f + 1 else if even f then f else f + 1)"

text \<open>The exponent \<open>e\<close> with \<open>2 ^ e \<le> q < 2 ^ (e + 1)\<close>, and the powers of two.\<close>

definition two_to :: "int \<Rightarrow> rat" where
  "two_to e = (if 0 \<le> e then 2 ^ nat e else 1 / 2 ^ nat (- e))"

definition exponent_of :: "rat \<Rightarrow> int" where
  "exponent_of q = (case quotient_of q of (n, d) \<Rightarrow>
     let e = bitlen n - bitlen d in if two_to e \<le> q then e else e - 1)"

definition f32_round :: "fl \<Rightarrow> f32" where
  "f32_round x = (case x of FNaN \<Rightarrow> 0x7FC00000 | FInf neg \<Rightarrow> (if neg then 0xFF800000 else 0x7F800000)
   | FFin q \<Rightarrow>
       if q = 0 then 0
       else let sgn = (if q < 0 then 0x80000000 else 0); e = max (exponent_of \<bar>q\<bar>) (- 126);
                bits = (e + 126) * 2 ^ 23 + round_even (\<bar>q\<bar> / two_to (e - 23)) in
            sgn OR (if 255 * 2 ^ 23 \<le> bits then 0x7F800000 else of_int bits))"

definition fl_neg :: "fl \<Rightarrow> bool" where
  "fl_neg x = (case x of FNaN \<Rightarrow> False | FInf s \<Rightarrow> s | FFin q \<Rightarrow> q < 0)"

fun fl_mul :: "fl \<Rightarrow> fl \<Rightarrow> fl" where
  "fl_mul (FFin a) (FFin b) = FFin (a * b)"
| "fl_mul FNaN y = FNaN"
| "fl_mul x FNaN = FNaN"
| "fl_mul x y = (if x = FFin 0 \<or> y = FFin 0 then FNaN else FInf (fl_neg x \<noteq> fl_neg y))"

fun fl_div :: "fl \<Rightarrow> fl \<Rightarrow> fl" where
  "fl_div (FFin a) (FFin b) = (if b \<noteq> 0 then FFin (a / b) else if a = 0 then FNaN else FInf (a < 0))"
| "fl_div FNaN y = FNaN"
| "fl_div x FNaN = FNaN"
| "fl_div (FInf a) (FInf b) = FNaN"
| "fl_div (FInf a) (FFin b) = FInf (a \<noteq> (b < 0))"
| "fl_div (FFin a) (FInf b) = FFin 0"

fun fl_sub :: "fl \<Rightarrow> fl \<Rightarrow> fl" where
  "fl_sub (FFin a) (FFin b) = FFin (a - b)"
| "fl_sub FNaN y = FNaN"
| "fl_sub x FNaN = FNaN"
| "fl_sub (FInf a) (FInf b) = (if a = b then FNaN else FInf a)"
| "fl_sub (FInf a) (FFin b) = FInf a"
| "fl_sub (FFin a) (FInf b) = FInf (\<not> b)"

definition f32_mul :: "f32 \<Rightarrow> f32 \<Rightarrow> f32" where "f32_mul a b = f32_round (fl_mul (f32_val a) (f32_val b))"
definition f32_div :: "f32 \<Rightarrow> f32 \<Rightarrow> f32" where "f32_div a b = f32_round (fl_div (f32_val a) (f32_val b))"
definition f32_sub :: "f32 \<Rightarrow> f32 \<Rightarrow> f32" where "f32_sub a b = f32_round (fl_sub (f32_val a) (f32_val b))"

text \<open>The conversion \<open>(float)u\<close> of an unsigned value.\<close>

definition f32_of_u32 :: "u32 \<Rightarrow> f32" where
  "f32_of_u32 u = f32_round (FFin (of_int (uint u)))"

abbreviation F_half :: f32 where "F_half \<equiv> 0x3F000000"
abbreviation F_2 :: f32 where "F_2 \<equiv> 0x40000000"
abbreviation F_255 :: f32 where "F_255 \<equiv> 0x437F0000"

end
