(* ===== verification/Virgl_2d.thy ===== *)
theory Virgl_2d
  imports Virgl_Submit Flush Float32
begin

text \<open>
  The virgl context of the 2D driver (\<open>src/chip/chip_virgl_2d.c\<close>): creation of the 3D scanout and of
  the pipeline objects, shutdown, recovery from a poisoned context and the coloured quad; and the
  blend objects of the compositing operators (\<open>src/chip/chip_composite.c\<close>), which the
  initialisation creates last.  Command words on the stack are written before they are read, so
  their first contents do not matter and are zero here.
\<close>

section \<open>State\<close>

record v2d =
  v_disp :: disp
  v_blend :: u32
  v_blend_alpha :: u32
  v_dsa :: u32
  v_rast :: u32
  v_vs :: u32
  v_fs :: u32
  v_fs_tex :: u32
  v_res_w :: u32
  v_res_h :: u32
  v_surface :: u32
  v_sampler :: u32
  v_sampler_linear :: u32
  v_shaders_ok :: bool
  v_samplers_ok :: bool
  v_ve :: u32
  v_vbuf_res :: u32
  v_tex_res :: u32               \<comment> \<open>\<open>comp_tex_res\<close> and so on\<close>
  v_tex_view :: u32
  v_tex_w :: u32
  v_tex_h :: u32
  v_next_handle :: u32
  v_blends :: "u32 list"

abbreviation v_gs :: "v2d \<Rightarrow> gpu" where "v_gs v \<equiv> d_gs (v_disp v)"

definition on_vdisp :: "(disp \<Rightarrow> disp) \<Rightarrow> v2d \<Rightarrow> v2d" where
  "on_vdisp f v = v\<lparr>v_disp := f (v_disp v)\<rparr>"

definition on_vgs :: "(gpu \<Rightarrow> gpu) \<Rightarrow> v2d \<Rightarrow> v2d" where
  "on_vgs f v = on_vdisp (\<lambda>d. d\<lparr>d_gs := f (d_gs d)\<rparr>) v"

text \<open>Running an operation of the command layer.\<close>

definition in_gs :: "(gpu \<Rightarrow> ('a \<times> gpu) option) \<Rightarrow> v2d \<Rightarrow> ('a \<times> v2d) option" where
  "in_gs f v = do { (r, d) \<leftarrow> with_gs f (v_disp v); Some (r, v\<lparr>v_disp := d\<rparr>) }"

definition in_io :: "(io \<Rightarrow> ('a \<times> io) option) \<Rightarrow> v2d \<Rightarrow> ('a \<times> v2d) option" where
  "in_io f = in_gs (with_io f)"

definition v_submit :: "env \<Rightarrow> u32 \<Rightarrow> VirglCmdBuf \<Rightarrow> v2d \<Rightarrow> (bool \<times> VirglCmdBuf \<times> v2d) option" where
  "v_submit env ctx_id cbuf v = do {
     (ok, cbuf, gs) \<leftarrow> virgl_submit env ctx_id cbuf (v_gs v);
     Some (ok, cbuf, on_vgs (\<lambda>_. gs) v) }"

definition v_CTXDestroy :: "env \<Rightarrow> u32 \<Rightarrow> v2d \<Rightarrow> v2d option" where
  "v_CTXDestroy env ctx_id v = do {
     (_, v) \<leftarrow> in_io (\<lambda>io. do { io \<leftarrow> chip_CTXDestroy env ctx_id io; Some ((), io) }) v;
     Some v }"

definition v_alloc_id :: "v2d \<Rightarrow> u32 \<times> v2d" where
  "v_alloc_id v = (let (i, gs) = chip_alloc_resource_id (v_gs v) in (i, on_vgs (\<lambda>_. gs) v))"

text \<open>A fresh command buffer of \<open>n\<close> words on the stack, filled by \<open>f\<close>.\<close>

definition filled_cmd :: "nat \<Rightarrow> (VirglCmdBuf \<Rightarrow> VirglCmdBuf option) \<Rightarrow> VirglCmdBuf option" where
  "filled_cmd n f = f (virgl_cmd_init (replicate n 0) (of_nat n))"

section \<open>Handles\<close>

abbreviation V2D_HANDLE_BLEND :: u32 where "V2D_HANDLE_BLEND \<equiv> 100"
abbreviation V2D_HANDLE_BLEND_ALPHA :: u32 where "V2D_HANDLE_BLEND_ALPHA \<equiv> 101"
abbreviation V2D_HANDLE_DSA :: u32 where "V2D_HANDLE_DSA \<equiv> 102"
abbreviation V2D_HANDLE_RAST :: u32 where "V2D_HANDLE_RAST \<equiv> 103"
abbreviation V2D_HANDLE_VS :: u32 where "V2D_HANDLE_VS \<equiv> 104"
abbreviation V2D_HANDLE_FS :: u32 where "V2D_HANDLE_FS \<equiv> 105"
abbreviation V2D_HANDLE_SURFACE :: u32 where "V2D_HANDLE_SURFACE \<equiv> 106"
abbreviation V2D_HANDLE_FS_TEX :: u32 where "V2D_HANDLE_FS_TEX \<equiv> 107"
abbreviation V2D_HANDLE_SAMPLER :: u32 where "V2D_HANDLE_SAMPLER \<equiv> 108"
abbreviation V2D_HANDLE_SAMPLER_LINEAR :: u32 where "V2D_HANDLE_SAMPLER_LINEAR \<equiv> 109"
abbreviation V2D_HANDLE_VE :: u32 where "V2D_HANDLE_VE \<equiv> 110"
abbreviation V2D_VBUF_SIZE :: u32 where "V2D_VBUF_SIZE \<equiv> 256"

abbreviation PIPE_TEXTURE_2D :: u32 where "PIPE_TEXTURE_2D \<equiv> 2"
abbreviation PIPE_BUFFER :: u32 where "PIPE_BUFFER \<equiv> 0"
abbreviation PIPE_B8G8R8A8_UNORM :: u32 where "PIPE_B8G8R8A8_UNORM \<equiv> 1"
abbreviation PIPE_B8G8R8X8_UNORM :: u32 where "PIPE_B8G8R8X8_UNORM \<equiv> 2"
abbreviation PIPE_R32G32B32A32_FLOAT :: u32 where "PIPE_R32G32B32A32_FLOAT \<equiv> 31"
abbreviation PIPE_R8_UNORM :: u32 where "PIPE_R8_UNORM \<equiv> 64"

text \<open>\<open>PIPE_BIND_RENDER_TARGET | PIPE_BIND_SAMPLER_VIEW | PIPE_BIND_SCANOUT\<close>, and the other two masks used.\<close>

definition BIND_SCANOUT_TEXTURE :: u32 where "BIND_SCANOUT_TEXTURE = push_bit 1 1 OR push_bit 3 1 OR push_bit 14 1"
definition PIPE_BIND_SAMPLER_VIEW :: u32 where "PIPE_BIND_SAMPLER_VIEW = push_bit 3 1"
definition PIPE_BIND_VERTEX_BUFFER :: u32 where "PIPE_BIND_VERTEX_BUFFER = push_bit 4 1"

definition RS_S0_SCISSOR :: "u32 \<Rightarrow> u32" where "RS_S0_SCISSOR x = push_bit 14 (x AND 0x1)"

definition SAMPLER_S0 :: "u32 \<Rightarrow> u32 \<Rightarrow> u32 \<Rightarrow> u32 \<Rightarrow> u32 \<Rightarrow> u32 \<Rightarrow> u32" where
  "SAMPLER_S0 wrap_s wrap_t wrap_r min_img min_mip mag_img =
     (wrap_s AND 0x7) OR push_bit 3 (wrap_t AND 0x7) OR push_bit 6 (wrap_r AND 0x7) OR push_bit 9 (min_img AND 0x3)
       OR push_bit 11 (min_mip AND 0x3) OR push_bit 13 (mag_img AND 0x3)"

section \<open>Compositing handles and blends\<close>

definition comp_alloc_handle :: "v2d \<Rightarrow> u32 \<times> v2d" where
  "comp_alloc_handle v =
     (let h = (if v_next_handle v = 0 then 200 else v_next_handle v) in (h, v\<lparr>v_next_handle := h + 1\<rparr>))"

definition comp_blend_rt :: "u32 \<Rightarrow> u32 \<Rightarrow> u32 \<Rightarrow> u32 \<Rightarrow> u32" where
  "comp_blend_rt src_rgb dst_rgb src_a dst_a =
     BLEND_RT_BLEND_ENABLE 1 OR BLEND_RT_RGB_FUNC 0 OR BLEND_RT_RGB_SRC_FACTOR src_rgb OR BLEND_RT_RGB_DST_FACTOR dst_rgb OR
     BLEND_RT_ALPHA_FUNC 0 OR BLEND_RT_ALPHA_SRC_FACTOR src_a OR BLEND_RT_ALPHA_DST_FACTOR dst_a OR BLEND_RT_COLORMASK 0xF"

abbreviation BF_ONE :: u32 where "BF_ONE \<equiv> 0x01"
abbreviation BF_SRC_ALPHA :: u32 where "BF_SRC_ALPHA \<equiv> 0x03"
abbreviation BF_DST_ALPHA :: u32 where "BF_DST_ALPHA \<equiv> 0x04"
abbreviation BF_ZERO :: u32 where "BF_ZERO \<equiv> 0x11"
abbreviation BF_INV_SRC_ALPHA :: u32 where "BF_INV_SRC_ALPHA \<equiv> 0x13"
abbreviation BF_INV_DST_ALPHA :: u32 where "BF_INV_DST_ALPHA \<equiv> 0x14"

definition pd_factors :: "(u32 \<times> u32 \<times> u32 \<times> u32) list" where
  "pd_factors = [
     (BF_ZERO, BF_ZERO, BF_ZERO, BF_ZERO),
     (BF_ONE, BF_ZERO, BF_ONE, BF_ZERO),
     (BF_ZERO, BF_ONE, BF_ZERO, BF_ONE),
     (BF_SRC_ALPHA, BF_INV_SRC_ALPHA, BF_ONE, BF_INV_SRC_ALPHA),
     (BF_INV_DST_ALPHA, BF_ONE, BF_INV_DST_ALPHA, BF_ONE),
     (BF_DST_ALPHA, BF_ZERO, BF_DST_ALPHA, BF_ZERO),
     (BF_ZERO, BF_SRC_ALPHA, BF_ZERO, BF_SRC_ALPHA),
     (BF_INV_DST_ALPHA, BF_ZERO, BF_INV_DST_ALPHA, BF_ZERO),
     (BF_ZERO, BF_INV_SRC_ALPHA, BF_ZERO, BF_INV_SRC_ALPHA),
     (BF_DST_ALPHA, BF_INV_SRC_ALPHA, BF_ZERO, BF_ONE),
     (BF_INV_DST_ALPHA, BF_SRC_ALPHA, BF_ONE, BF_ZERO),
     (BF_INV_DST_ALPHA, BF_INV_SRC_ALPHA, BF_INV_DST_ALPHA, BF_INV_SRC_ALPHA),
     (BF_ONE, BF_ONE, BF_ONE, BF_ONE)]"

definition comp_init_blend :: "env \<Rightarrow> u32 \<Rightarrow> nat \<Rightarrow> bool \<times> v2d \<Rightarrow> (bool \<times> v2d) option" where
  "comp_init_blend env ctx_id op st = (case st of (ok, v) \<Rightarrow>
     if \<not> ok then Some (ok, v)
     else let (handle, v) = comp_alloc_handle v in do {
       (sr, dr, sa, da) \<leftarrow> rd pd_factors op;
       cbuf \<leftarrow> filled_cmd 16 (virgl_cmd_create_blend handle 0 (comp_blend_rt sr dr sa da));
       (ok, _, v) \<leftarrow> v_submit env ctx_id cbuf v;
       if ok then do { bs \<leftarrow> wr (v_blends v) op handle; Some (ok, v\<lparr>v_blends := bs\<rparr>) }
       else Some (ok, v) })"

definition chip_comp_init_blends :: "env \<Rightarrow> v2d \<Rightarrow> (bool \<times> v2d) option" where
  "chip_comp_init_blends env v =
     (if \<not> d_virgl_2d_ready (v_disp v) then Some (False, v)
      else do {
        (ok, v) \<leftarrow> foldM (comp_init_blend env (d_virgl_2d_ctx (v_disp v))) [0..<13] (True, v);
        bs \<leftarrow> wr (v_blends v) 13 0;
        bs \<leftarrow> wr bs 14 0;
        Some (ok, v\<lparr>v_blends := bs\<rparr>) })"

section \<open>Initialisation\<close>

text \<open>Every failing exit gives \<^term>\<open>None\<close> as its result, after destroying the context where the code does.\<close>

definition give_up :: "env \<Rightarrow> u32 \<Rightarrow> v2d \<Rightarrow> ('a option \<times> v2d) option" where
  "give_up env ctx_id v = do { v \<leftarrow> v_CTXDestroy env ctx_id v; Some (None, v) }"

definition ctx_name :: bytes where
  "ctx_name = map of_char ''virtiogpu-2d'' @ [0]"

text \<open>Step 1: the context and its sub-context.\<close>

definition v2d_context :: "env \<Rightarrow> v2d \<Rightarrow> (u32 option \<times> v2d) option" where
  "v2d_context env v = do {
     let ctx_id = g_next_ctx_id (v_gs v);
     let v = on_vdisp (\<lambda>d. d\<lparr>d_gs := (d_gs d)\<lparr>g_next_ctx_id := ctx_id + 1\<rparr>, d_virgl_2d_ctx := ctx_id\<rparr>) v;
     (ok, v) \<leftarrow> in_io (chip_CTXCreate env ctx_id (Some ctx_name) 0) v;
     if \<not> ok then Some (None, v)
     else do {
       cbuf \<leftarrow> filled_cmd 512 (\<lambda>cb. do { cb \<leftarrow> virgl_cmd_create_sub_ctx 1 cb; virgl_cmd_set_sub_ctx 1 cb });
       (ok, _, v) \<leftarrow> v_submit env ctx_id cbuf v;
       if \<not> ok then give_up env ctx_id v else Some (Some ctx_id, v) } }"

text \<open>Step 2: the scanout resource over the pages of the framebuffer.\<close>

definition scanout_texture :: "env \<Rightarrow> u32 \<Rightarrow> u32 \<Rightarrow> u32 \<Rightarrow> v2d \<Rightarrow> (bool \<times> v2d) option" where
  "scanout_texture env res w h = in_io (chip_ResourceCreate3D env res PIPE_TEXTURE_2D PIPE_B8G8R8X8_UNORM BIND_SCANOUT_TEXTURE
     w h 1 1 0 0 0)"

definition v2d_scanout :: "env \<Rightarrow> u32 \<Rightarrow> v2d \<Rightarrow> (u32 option \<times> v2d) option" where
  "v2d_scanout env ctx_id v = do {
     let (res_3d, v) = v_alloc_id v;
     let d = v_disp v;
     let res_w = (if d_active_width d \<noteq> 0 then d_active_width d else g_fb_width (d_gs d));
     let res_h = (if d_active_height d \<noteq> 0 then d_active_height d else g_fb_height (d_gs d));
     let res_w = (if g_fb_width (d_gs d) < res_w then g_fb_width (d_gs d) else res_w);
     let res_h = (if g_fb_height (d_gs d) < res_h then g_fb_height (d_gs d) else res_h);
     let v = v\<lparr>v_res_w := res_w, v_res_h := res_h\<rparr>;
     (ok, v) \<leftarrow> scanout_texture env res_3d res_w res_h v;
     if \<not> ok then give_up env ctx_id v
     else do {
       (ok, v) \<leftarrow> in_io (chip_ResourceAttachBacking env res_3d (g_dma_lists (v_gs v) (g_fb_mem (v_gs v))) (g_fb_dma_count (v_gs v))) v;
       if \<not> ok then give_up env ctx_id v
       else do {
         (ok, v) \<leftarrow> in_gs (chip_SetScanout env 0 res_3d 0 0 res_w res_h) v;
         if \<not> ok then give_up env ctx_id v
         else do {
           let v = on_vdisp (\<lambda>d. d\<lparr>d_virgl_2d_resource := res_3d, d_gs := (d_gs d)\<lparr>g_resource_id := res_3d\<rparr>\<rparr>) v;
           (_, v) \<leftarrow> in_io (chip_CTXAttachResource env ctx_id res_3d) v;
           Some (Some res_3d, v) } } } }"

definition v2d_second :: "env \<Rightarrow> u32 \<Rightarrow> v2d \<Rightarrow> v2d option" where
  "v2d_second env ctx_id v = do {
     let v = on_vdisp (\<lambda>d. d\<lparr>d_virgl_2d_resource2 := 0\<rparr>) v;
     if d_double_buffer (v_disp v) \<and> d_fb_mem2 (v_disp v) \<noteq> 0 then do {
       let (res_3d_2, v) = v_alloc_id v;
       (ok, v) \<leftarrow> scanout_texture env res_3d_2 (v_res_w v) (v_res_h v) v;
       (ok, v) \<leftarrow> (if ok then in_io (chip_ResourceAttachBacking env res_3d_2
            (g_dma_lists (v_gs v) (d_fb_mem2 (v_disp v))) (d_fb_dma_count2 (v_disp v))) v else Some (False, v));
       if ok then do {
         (_, v) \<leftarrow> in_io (chip_CTXAttachResource env ctx_id res_3d_2) v;
         Some (on_vdisp (\<lambda>d. d\<lparr>d_virgl_2d_resource2 := res_3d_2\<rparr>) v) }
       else Some (on_vdisp (\<lambda>d. d\<lparr>d_double_buffer := False\<rparr>) v) }
     else Some v }"

text \<open>Step 3: blends, depth and stencil, rasterizer.\<close>

definition v2d_rast_s0 :: u32 where
  "v2d_rast_s0 = RS_S0_DEPTH_CLIP 1 OR RS_S0_CULL_FACE 0 OR RS_S0_FILL_FRONT 0 OR RS_S0_FILL_BACK 0 OR RS_S0_SCISSOR 1"

definition v2d_pipeline :: "env \<Rightarrow> u32 \<Rightarrow> v2d \<Rightarrow> (bool \<times> v2d) option" where
  "v2d_pipeline env ctx_id v = do {
     cbuf \<leftarrow> filled_cmd 512 (\<lambda>cb. do {
        cb \<leftarrow> virgl_setup_default_blend V2D_HANDLE_BLEND cb;
        cb \<leftarrow> virgl_setup_alpha_blend V2D_HANDLE_BLEND_ALPHA cb;
        cb \<leftarrow> virgl_setup_default_dsa V2D_HANDLE_DSA cb;
        virgl_cmd_create_rasterizer V2D_HANDLE_RAST v2d_rast_s0 F_1 0 0 F_1 F_0 F_0 F_0 cb });
     let v = v\<lparr>v_blend := V2D_HANDLE_BLEND, v_blend_alpha := V2D_HANDLE_BLEND_ALPHA, v_dsa := V2D_HANDLE_DSA, v_rast := V2D_HANDLE_RAST\<rparr>;
     (ok, _, v) \<leftarrow> v_submit env ctx_id cbuf v;
     if \<not> ok then do { v \<leftarrow> v_CTXDestroy env ctx_id v; Some (False, v) } else Some (True, v) }"

text \<open>Step 3b: one submission per shader.\<close>

definition v2d_shader :: "env \<Rightarrow> u32 \<Rightarrow> (VirglCmdBuf \<Rightarrow> VirglCmdBuf option) \<Rightarrow> (v2d \<Rightarrow> v2d) \<Rightarrow> v2d \<Rightarrow> v2d option" where
  "v2d_shader env ctx_id setup keep v = (if \<not> v_shaders_ok v then Some v else do {
     cbuf \<leftarrow> filled_cmd 512 setup;
     (ok, _, v) \<leftarrow> v_submit env ctx_id cbuf v;
     Some (if \<not> ok then v\<lparr>v_shaders_ok := False\<rparr> else keep v) })"

definition v2d_shaders :: "env \<Rightarrow> u32 \<Rightarrow> v2d \<Rightarrow> v2d option" where
  "v2d_shaders env ctx_id v = do {
     v \<leftarrow> v2d_shader env ctx_id (virgl_setup_passthrough_vs V2D_HANDLE_VS) (\<lambda>v. v\<lparr>v_vs := V2D_HANDLE_VS\<rparr>) (v\<lparr>v_shaders_ok := True\<rparr>);
     v \<leftarrow> v2d_shader env ctx_id (virgl_setup_color_fs V2D_HANDLE_FS) (\<lambda>v. v\<lparr>v_fs := V2D_HANDLE_FS\<rparr>) v;
     v \<leftarrow> v2d_shader env ctx_id (virgl_setup_texture_fs V2D_HANDLE_FS_TEX) (\<lambda>v. v\<lparr>v_fs_tex := V2D_HANDLE_FS_TEX\<rparr>) v;
     Some (if \<not> v_shaders_ok v then v\<lparr>v_vs := 0, v_fs := 0, v_fs_tex := 0\<rparr> else v) }"

text \<open>Steps 3c to 3e: samplers, vertex layout, vertex buffer.\<close>

definition v2d_samplers :: "env \<Rightarrow> u32 \<Rightarrow> v2d \<Rightarrow> v2d option" where
  "v2d_samplers env ctx_id v =
     (if \<not> v_shaders_ok v then Some (v\<lparr>v_samplers_ok := False, v_sampler := 0, v_sampler_linear := 0\<rparr>)
      else do {
        cbuf \<leftarrow> filled_cmd 512 (\<lambda>cb. do {
          cb \<leftarrow> virgl_cmd_create_sampler_state V2D_HANDLE_SAMPLER (SAMPLER_S0 2 2 2 0 2 0) F_0 F_0 F_0 F_0 F_0 F_0 F_0 cb;
          virgl_cmd_create_sampler_state V2D_HANDLE_SAMPLER_LINEAR (SAMPLER_S0 2 2 2 1 2 1) F_0 F_0 F_0 F_0 F_0 F_0 F_0 cb });
        let v = v\<lparr>v_sampler := V2D_HANDLE_SAMPLER, v_sampler_linear := V2D_HANDLE_SAMPLER_LINEAR\<rparr>;
        (ok, _, v) \<leftarrow> v_submit env ctx_id cbuf v;
        Some (if \<not> ok then v\<lparr>v_samplers_ok := False, v_sampler := 0, v_sampler_linear := 0\<rparr> else v\<lparr>v_samplers_ok := True\<rparr>) })"

definition v2d_elements :: "VirglVertexElement list" where
  "v2d_elements = [
     \<lparr>ve_src_offset = 0, ve_instance_divisor = 0, ve_vertex_buffer_index = 0, ve_src_format = PIPE_R32G32B32A32_FLOAT\<rparr>,
     \<lparr>ve_src_offset = 16, ve_instance_divisor = 0, ve_vertex_buffer_index = 0, ve_src_format = PIPE_R32G32B32A32_FLOAT\<rparr>]"

definition v2d_vertex_layout :: "env \<Rightarrow> u32 \<Rightarrow> v2d \<Rightarrow> v2d option" where
  "v2d_vertex_layout env ctx_id v =
     (if \<not> v_shaders_ok v then Some v
      else do {
        cbuf \<leftarrow> filled_cmd 512 (virgl_cmd_create_vertex_elements V2D_HANDLE_VE 2 v2d_elements);
        (ok, _, v) \<leftarrow> v_submit env ctx_id cbuf v;
        Some (v\<lparr>v_ve := (if \<not> ok then 0 else V2D_HANDLE_VE)\<rparr>) })"

definition v2d_vertex_buffer :: "env \<Rightarrow> u32 \<Rightarrow> v2d \<Rightarrow> v2d option" where
  "v2d_vertex_buffer env ctx_id v =
     (if v_shaders_ok v \<and> v_ve v \<noteq> 0 then do {
        let (vbuf_res, v) = v_alloc_id v;
        (ok, v) \<leftarrow> in_io (chip_ResourceCreate3D env vbuf_res PIPE_BUFFER PIPE_R8_UNORM PIPE_BIND_VERTEX_BUFFER V2D_VBUF_SIZE 1 1 1 0 0 0) v;
        if \<not> ok then Some (v\<lparr>v_vbuf_res := 0\<rparr>)
        else do {
          (_, v) \<leftarrow> in_io (chip_CTXAttachResource env ctx_id vbuf_res) v;
          Some (v\<lparr>v_vbuf_res := vbuf_res\<rparr>) } }
      else Some v)"

text \<open>Step 4: the surface, the bindings and the viewport.\<close>

definition surface_words :: "u32 \<Rightarrow> v2d \<Rightarrow> VirglCmdBuf \<Rightarrow> VirglCmdBuf option" where
  "surface_words res_3d v cb = do {
     cb \<leftarrow> virgl_cmd_create_surface V2D_HANDLE_SURFACE res_3d PIPE_B8G8R8X8_UNORM 0 0 cb;
     cb \<leftarrow> virgl_cmd_bind_object OBJECT_BLEND V2D_HANDLE_BLEND cb;
     cb \<leftarrow> virgl_cmd_bind_object OBJECT_DSA V2D_HANDLE_DSA cb;
     cb \<leftarrow> virgl_cmd_bind_object OBJECT_RASTERIZER V2D_HANDLE_RAST cb;
     cb \<leftarrow> (if v_shaders_ok v then do {
              cb \<leftarrow> virgl_cmd_bind_shader PIPE_SHADER_VERTEX V2D_HANDLE_VS cb;
              virgl_cmd_bind_shader PIPE_SHADER_FRAGMENT V2D_HANDLE_FS cb }
            else Some cb);
     cb \<leftarrow> (if v_ve v \<noteq> 0 then virgl_cmd_bind_object OBJECT_VERTEX_ELEMENTS V2D_HANDLE_VE cb else Some cb);
     cb \<leftarrow> virgl_cmd_set_framebuffer_state 1 0 [V2D_HANDLE_SURFACE] cb;
     let half_w = f32_mul (f32_of_u32 (v_res_w v)) F_half;
     let half_h = f32_mul (f32_of_u32 (v_res_h v)) F_half;
     cb \<leftarrow> virgl_cmd_set_viewport 0 half_w half_h F_half half_w half_h F_half cb;
     virgl_cmd_set_scissor_state 0 0 0 (v_res_w v) (v_res_h v) cb }"

definition v2d_bind :: "env \<Rightarrow> u32 \<Rightarrow> u32 \<Rightarrow> v2d \<Rightarrow> (bool \<times> v2d) option" where
  "v2d_bind env ctx_id res_3d v = do {
     cbuf \<leftarrow> filled_cmd 512 (surface_words res_3d v);
     (ok, _, v) \<leftarrow> v_submit env ctx_id cbuf (v\<lparr>v_surface := V2D_HANDLE_SURFACE\<rparr>);
     if \<not> ok then do { v \<leftarrow> v_CTXDestroy env ctx_id v; Some (False, v) } else Some (True, v) }"

text \<open>Step 5: the first transfer.\<close>

definition v2d_first_frame :: "env \<Rightarrow> u32 \<Rightarrow> u32 \<Rightarrow> v2d \<Rightarrow> v2d option" where
  "v2d_first_frame env ctx_id res_3d v = do {
     let box = \<lparr>bx_x = 0, bx_y = 0, bx_z = 0, bx_w = v_res_w v, bx_h = v_res_h v, bx_d = 1\<rparr>;
     (_, v) \<leftarrow> in_io (chip_TransferToHost3D env ctx_id res_3d 0 (g_fb_stride (v_gs v)) 0 0 box) v;
     (_, v) \<leftarrow> in_io (chip_ResourceFlush env res_3d 0 0 (v_res_w v) (v_res_h v)) v;
     Some v }"

definition chip_virgl_init_2d :: "env \<Rightarrow> v2d \<Rightarrow> (bool \<times> v2d) option" where
  "chip_virgl_init_2d env v = do {
     let v = on_vdisp (\<lambda>d. d\<lparr>d_virgl_2d_ready := False\<rparr>) v;
     if \<not> g_has_virgl (v_gs v) \<or> \<not> g_virgl_caps_valid (v_gs v) \<or> i_cmd3d_buf (g_io (v_gs v)) = None then Some (False, v)
     else do {
       (ctx, v) \<leftarrow> v2d_context env v;
       (case ctx of None \<Rightarrow> Some (False, v) | Some ctx_id \<Rightarrow> do {
          (res, v) \<leftarrow> v2d_scanout env ctx_id v;
          (case res of None \<Rightarrow> Some (False, v) | Some res_3d \<Rightarrow> do {
             v \<leftarrow> v2d_second env ctx_id v;
             (ok, v) \<leftarrow> v2d_pipeline env ctx_id v;
             if \<not> ok then Some (False, v)
             else do {
               v \<leftarrow> v2d_shaders env ctx_id v;
               v \<leftarrow> v2d_samplers env ctx_id v;
               v \<leftarrow> v2d_vertex_layout env ctx_id v;
               v \<leftarrow> v2d_vertex_buffer env ctx_id v;
               (ok, v) \<leftarrow> v2d_bind env ctx_id res_3d v;
               if \<not> ok then Some (False, v)
               else do {
                 v \<leftarrow> v2d_first_frame env ctx_id res_3d v;
                 (_, v) \<leftarrow> chip_comp_init_blends env (on_vdisp (\<lambda>d. d\<lparr>d_virgl_2d_ready := True\<rparr>) v);
                 Some (True, v) } } }) }) } }"

section \<open>Shutdown and recovery\<close>

definition chip_virgl_shutdown_2d :: "env \<Rightarrow> v2d \<Rightarrow> v2d option" where
  "chip_virgl_shutdown_2d env v =
     (if \<not> d_virgl_2d_ready (v_disp v) then Some v
      else do {
        cbuf \<leftarrow> filled_cmd 256 (\<lambda>cb. do {
          cb \<leftarrow> virgl_cmd_destroy_object OBJECT_SURFACE V2D_HANDLE_SURFACE cb;
          cb \<leftarrow> (if v_ve v \<noteq> 0 then virgl_cmd_destroy_object OBJECT_VERTEX_ELEMENTS V2D_HANDLE_VE cb else Some cb);
          cb \<leftarrow> (if v_shaders_ok v then do {
                   cb \<leftarrow> virgl_cmd_destroy_object OBJECT_SHADER V2D_HANDLE_VS cb;
                   cb \<leftarrow> virgl_cmd_destroy_object OBJECT_SHADER V2D_HANDLE_FS cb;
                   virgl_cmd_destroy_object OBJECT_SHADER V2D_HANDLE_FS_TEX cb }
                 else Some cb);
          cb \<leftarrow> (if v_samplers_ok v then do {
                   cb \<leftarrow> virgl_cmd_destroy_object OBJECT_SAMPLER_STATE V2D_HANDLE_SAMPLER cb;
                   virgl_cmd_destroy_object OBJECT_SAMPLER_STATE V2D_HANDLE_SAMPLER_LINEAR cb }
                 else Some cb);
          cb \<leftarrow> virgl_cmd_destroy_object OBJECT_BLEND V2D_HANDLE_BLEND cb;
          cb \<leftarrow> virgl_cmd_destroy_object OBJECT_BLEND V2D_HANDLE_BLEND_ALPHA cb;
          cb \<leftarrow> virgl_cmd_destroy_object OBJECT_DSA V2D_HANDLE_DSA cb;
          virgl_cmd_destroy_object OBJECT_RASTERIZER V2D_HANDLE_RAST cb });
        (_, _, v) \<leftarrow> v_submit env (d_virgl_2d_ctx (v_disp v)) cbuf v;
        v \<leftarrow> v_CTXDestroy env (d_virgl_2d_ctx (v_disp v)) v;
        Some (on_vdisp (\<lambda>d. d\<lparr>d_virgl_2d_ready := False\<rparr>) v) })"

definition unref_if :: "env \<Rightarrow> u32 \<Rightarrow> (v2d \<Rightarrow> v2d) \<Rightarrow> v2d \<Rightarrow> v2d option" where
  "unref_if env res clear v =
     (if res \<noteq> 0 then do { (_, v) \<leftarrow> in_io (chip_ResourceUnref env res) v; Some (clear v) } else Some v)"

definition clear_handles :: "v2d \<Rightarrow> v2d" where
  "clear_handles v = v\<lparr>v_tex_res := 0, v_tex_view := 0, v_next_handle := 0, v_blends := replicate 15 0,
     v_blend := 0, v_blend_alpha := 0, v_dsa := 0, v_rast := 0, v_vs := 0, v_fs := 0, v_fs_tex := 0, v_surface := 0,
     v_sampler := 0, v_sampler_linear := 0, v_ve := 0, v_shaders_ok := False, v_samplers_ok := False\<rparr>"

definition chip_virgl_recover_2d :: "env \<Rightarrow> v2d \<Rightarrow> (bool \<times> v2d) option" where
  "chip_virgl_recover_2d env v = do {
     let v = on_vdisp (\<lambda>d. d\<lparr>d_virgl_2d_ready := False, d_gs := (d_gs d)\<lparr>g_virgl_ctx_error := False\<rparr>\<rparr>) v;
     (_, v) \<leftarrow> in_gs (chip_SetScanout env 0 0 0 0 0 0) v;
     let v = on_vgs (\<lambda>gs. gs\<lparr>g_resource_id := g_fb_resource_id gs\<rparr>) v;
     v \<leftarrow> v_CTXDestroy env (d_virgl_2d_ctx (v_disp v)) v;
     v \<leftarrow> unref_if env (d_virgl_2d_resource (v_disp v)) (on_vdisp (\<lambda>d. d\<lparr>d_virgl_2d_resource := 0\<rparr>)) v;
     v \<leftarrow> unref_if env (d_virgl_2d_resource2 (v_disp v)) (on_vdisp (\<lambda>d. d\<lparr>d_virgl_2d_resource2 := 0\<rparr>)) v;
     v \<leftarrow> unref_if env (v_vbuf_res v) (\<lambda>v. v\<lparr>v_vbuf_res := 0\<rparr>) v;
     let v = clear_handles v;
     let v = on_vgs (\<lambda>gs. gs\<lparr>g_virgl_ctx_error := False, g_resource_id := g_fb_resource_id gs\<rparr>) v;
     chip_virgl_init_2d env v }"

section \<open>Quads\<close>

definition virgl_upload_vertex_floats :: "u32 \<Rightarrow> f32 list \<Rightarrow> u32 \<Rightarrow> VirglCmdBuf \<Rightarrow> VirglCmdBuf option" where
  "virgl_upload_vertex_floats res_handle data num_floats cbuf = do {
     let data_bytes = num_floats * 4;
     let payload_len = 11 + num_floats;
     cbuf \<leftarrow> emits [VIRGL_CMD_HDR CCMD_RESOURCE_INLINE_WRITE 0 payload_len, res_handle, 0, 0, 0, 0, 0, 0, 0, data_bytes, 1, 1] cbuf;
     foldM (\<lambda>i cbuf. do { x \<leftarrow> rd data i; virgl_emit_float x cbuf }) [0..<unat num_floats] cbuf }"

text \<open>A pixel coordinate in device coordinates, \<open>2.0f * (float)p / (float)extent - 1.0f\<close>.\<close>

definition to_ndc :: "u32 \<Rightarrow> u32 \<Rightarrow> f32" where
  "to_ndc p extent = f32_sub (f32_div (f32_mul F_2 (f32_of_u32 p)) (f32_of_u32 extent)) F_1"

text \<open>Six vertices: the corners of the rectangle with the attributes of each corner.\<close>

definition quad_verts :: "f32 \<Rightarrow> f32 \<Rightarrow> f32 \<Rightarrow> f32 \<Rightarrow> f32 list \<Rightarrow> f32 list \<Rightarrow> f32 list \<Rightarrow> f32 list \<Rightarrow> f32 list" where
  "quad_verts x0 y0 x1 y1 c00 c10 c11 c01 =
     [x0, y0, F_0, F_1] @ c00 @ [x1, y0, F_0, F_1] @ c10 @ [x1, y1, F_0, F_1] @ c11 @
     [x0, y0, F_0, F_1] @ c00 @ [x1, y1, F_0, F_1] @ c11 @ [x0, y1, F_0, F_1] @ c01"

definition draw_quad_words :: "u32 \<Rightarrow> f32 list \<Rightarrow> VirglCmdBuf \<Rightarrow> VirglCmdBuf option" where
  "draw_quad_words vbuf verts cb = do {
     cb \<leftarrow> virgl_upload_vertex_floats vbuf verts 48 cb;
     cb \<leftarrow> virgl_cmd_set_vertex_buffers 1 [\<lparr>vb_stride = 32, vb_buffer_offset = 0, vb_res_handle = vbuf\<rparr>] cb;
     virgl_cmd_draw_vbo 0 6 4 0 1 0 0 0 0 0 5 0 cb }"

definition chip_virgl_draw_colored_quad :: "env \<Rightarrow> u32 \<Rightarrow> u32 \<Rightarrow> u32 \<Rightarrow> u32 \<Rightarrow> f32 \<Rightarrow> f32 \<Rightarrow> f32 \<Rightarrow> f32 \<Rightarrow> v2d \<Rightarrow> (bool \<times> v2d) option" where
  "chip_virgl_draw_colored_quad env x y w h r g b a v =
     (if \<not> d_virgl_2d_ready (v_disp v) \<or> \<not> v_shaders_ok v then Some (False, v)
      else if v_vbuf_res v = 0 \<or> v_ve v = 0 then Some (False, v)
      else do {
        let fb_w = g_fb_width (v_gs v);
        let fb_h = g_fb_height (v_gs v);
        let c = [r, g, b, a];
        let verts = quad_verts (to_ndc x fb_w) (to_ndc y fb_h) (to_ndc (x + w) fb_w) (to_ndc (y + h) fb_h) c c c c;
        cbuf \<leftarrow> filled_cmd 96 (draw_quad_words (v_vbuf_res v) verts);
        (ok, _, v) \<leftarrow> v_submit env (d_virgl_2d_ctx (v_disp v)) cbuf v;
        if ok then do { (_, v) \<leftarrow> in_io (chip_ResourceFlush env (g_resource_id (v_gs v)) x y w h) v; Some (ok, v) }
        else Some (ok, v) })"

text \<open>\<open>chip_virgl_blit_rect\<close> is disabled as well.\<close>

definition chip_virgl_blit_rect :: "disp \<Rightarrow> u32 \<Rightarrow> u32 \<Rightarrow> u32 \<Rightarrow> u32 \<Rightarrow> u32 \<Rightarrow> u32 \<Rightarrow> bool" where
  "chip_virgl_blit_rect d sx sy dx dy w h = False"

end
