(* ===== verification/Composite.thy ===== *)
theory Composite
  imports Virgl_2d Blit_Memory
begin

text \<open>
  Hardware compositing (\<open>src/chip/chip_composite.c\<close>): the upload of a bitmap as a texture in strips,
  the textured quad, \<open>chip_virgl_composite\<close>, and the hook over \<open>CompositeTagList\<close> of
  graphics.library.  The values of the \<open>COMP*\<close> and \<open>TAG_*\<close> constants and \<open>GetBitMapAttr\<close> come from
  the SDK and from graphics.library: they are fields of the record \<open>gfx\<close>.  The counters that only
  limit debug lines are left out.
\<close>

section \<open>What graphics.library supplies\<close>

record gfx =
  TAG_DONE :: u32
  TAG_IGNORE :: u32
  TAG_MORE :: u32
  TAG_SKIP :: u32
  COMPTAG_SrcX :: u32
  COMPTAG_SrcY :: u32
  COMPTAG_SrcWidth :: u32
  COMPTAG_SrcHeight :: u32
  COMPTAG_DestX :: u32
  COMPTAG_DestY :: u32
  COMPTAG_DestWidth :: u32
  COMPTAG_DestHeight :: u32
  COMPTAG_Flags :: u32
  COMPTAG_Color0 :: u32
  COMPTAG_VertexArray :: u32
  COMPTAG_SrcAlphaMask :: u32
  COMPFLAG_ForceSoftware :: u32
  COMPFLAG_Color1Modulate :: u32
  COMPFLAG_SrcFilter :: u32
  COMPERR_Success :: u32
  COMPERR_Generic :: u32
  COMPERR_UnknownOperator :: u32
  COMPERR_SoftwareFallback :: u32
  COMPERR_Value :: u32
  COMPERR_OutOfMemory :: u32
  COMPSRC_SOLIDCOLOR :: u32
  BMA_WIDTH :: "u32 \<Rightarrow> u32"           \<comment> \<open>\<open>GetBitMapAttr\<close> of a bitmap\<close>
  BMA_HEIGHT :: "u32 \<Rightarrow> u32"
  BMA_PIXELFORMAT :: "u32 \<Rightarrow> RGBFTYPE"
  bm_planes0 :: "u32 \<Rightarrow> u32"          \<comment> \<open>the \<open>BitMap\<close> at an address: \<open>Planes[0]\<close>, \<open>BytesPerRow\<close>\<close>
  bm_bpr :: "u32 \<Rightarrow> u16"

section \<open>Upload\<close>

text \<open>One strip: the header of the inline write and \<open>rows_this\<close> rows of pixels, from memory \<open>mem\<close>.\<close>

definition strip_words :: "bytes \<Rightarrow> u32 \<Rightarrow> u32 \<Rightarrow> u32 \<Rightarrow> u32 \<Rightarrow> u32 \<Rightarrow> u32 \<Rightarrow> u32 \<Rightarrow> u32 \<Rightarrow> VirglCmdBuf \<Rightarrow> VirglCmdBuf option" where
  "strip_words mem res src src_bpr x y w rows_done rows_this cbuf = do {
     let data_words = w * rows_this;
     let payload_len = 11 + data_words;
     cbuf \<leftarrow> emits [VIRGL_CMD_HDR CCMD_RESOURCE_INLINE_WRITE 0 payload_len, res, 0, 0, w * 4, 0, x, y + rows_done, 0, w, rows_this, 1] cbuf;
     foldM (\<lambda>row. foldM (\<lambda>col cbuf. do {
         p \<leftarrow> ld32 (src + (rows_done + of_nat row) * src_bpr + of_nat col * 4) mem;
         virgl_emit_dword p cbuf }) [0..<unat w]) [0..<unat rows_this] cbuf }"

definition comp_max_rows :: "u32 \<Rightarrow> u32 \<Rightarrow> u32" where
  "comp_max_rows w h =
     (let max_rows = 15000 div w; max_rows = (if max_rows = 0 then 1 else max_rows) in if h < max_rows then h else max_rows)"

definition comp_cbuf_size :: "u32 \<Rightarrow> u32 \<Rightarrow> u32" where
  "comp_cbuf_size w max_rows = (let n = 12 + w * max_rows + 16 in if 16000 < n then 16000 else n)"

text \<open>The upload loop; the fuel \<^term>\<open>Suc (unat h)\<close> suffices, since every turn sends a row.\<close>

fun comp_strips :: "nat \<Rightarrow> env \<Rightarrow> bytes \<Rightarrow> u32 \<Rightarrow> u32 \<Rightarrow> u32 \<Rightarrow> u32 \<Rightarrow> u32 \<Rightarrow> u32 \<Rightarrow> u32 \<Rightarrow> u32 \<Rightarrow> u32 \<Rightarrow> bool \<Rightarrow> v2d \<Rightarrow> (bool \<times> v2d) option" where
  "comp_strips 0 env mem ctx_id res src src_bpr x y w h rows_done ok v = None"
| "comp_strips (Suc n) env mem ctx_id res src src_bpr x y w h rows_done ok v =
     (if rows_done < h \<and> ok then do {
        let rows_this = h - rows_done;
        let rows_this = (if comp_max_rows w h < rows_this then comp_max_rows w h else rows_this);
        cbuf \<leftarrow> filled_cmd (unat (comp_cbuf_size w (comp_max_rows w h))) (strip_words mem res src src_bpr x y w rows_done rows_this);
        (ok, _, v) \<leftarrow> v_submit env ctx_id cbuf v;
        comp_strips n env mem ctx_id res src src_bpr x y w h (rows_done + rows_this) ok v }
      else Some (ok, v))"

text \<open>A width of zero would divide by zero.\<close>

definition chip_comp_upload_pixels_32bpp :: "env \<Rightarrow> bytes \<Rightarrow> u32 \<Rightarrow> u32 \<Rightarrow> u32 \<Rightarrow> u32 \<Rightarrow> u32 \<Rightarrow> u32 \<Rightarrow> u32 \<Rightarrow> v2d \<Rightarrow> (bool \<times> v2d) option" where
  "chip_comp_upload_pixels_32bpp env mem res src src_bpr x y w h v =
     (if w = 0 then None
      else let (cmd_words, gs) = with_exec AllocVecTags (v_gs v); v = on_vgs (\<lambda>_. gs) v in
        if cmd_words = 0 then Some (False, v)
        else do {
          (ok, v) \<leftarrow> comp_strips (Suc (unat h)) env mem (d_virgl_2d_ctx (v_disp v)) res src src_bpr x y w h 0 True v;
          Some (ok, on_vgs (do_exec (FreeVec cmd_words)) v) })"

definition drop_resource :: "env \<Rightarrow> u32 \<Rightarrow> u32 \<Rightarrow> v2d \<Rightarrow> v2d option" where
  "drop_resource env ctx_id res v = do {
     (_, v) \<leftarrow> in_io (chip_CTXDetachResource env ctx_id res) v;
     (_, v) \<leftarrow> in_io (chip_ResourceUnref env res) v;
     Some v }"

definition chip_comp_free_texture :: "env \<Rightarrow> v2d \<Rightarrow> v2d option" where
  "chip_comp_free_texture env v =
     (if v_tex_res v = 0 then Some v
      else do {
        let ctx_id = d_virgl_2d_ctx (v_disp v);
        cbuf \<leftarrow> filled_cmd 16 (\<lambda>cb. if v_tex_view v \<noteq> 0 then virgl_cmd_destroy_object OBJECT_SAMPLER_VIEW (v_tex_view v) cb else Some cb);
        (_, _, v) \<leftarrow> v_submit env ctx_id cbuf v;
        v \<leftarrow> drop_resource env ctx_id (v_tex_res v) v;
        Some (v\<lparr>v_tex_res := 0, v_tex_view := 0, v_tex_w := 0, v_tex_h := 0\<rparr>) })"

definition chip_comp_upload_bitmap :: "env \<Rightarrow> bytes \<Rightarrow> u32 \<Rightarrow> u32 \<Rightarrow> u32 \<Rightarrow> u32 \<Rightarrow> bool \<Rightarrow> v2d \<Rightarrow> (bool \<times> v2d) option" where
  "chip_comp_upload_bitmap env mem src_data src_bpr src_w src_h has_alpha v =
     (if \<not> d_virgl_2d_ready (v_disp v) \<or> \<not> v_shaders_ok v then Some (False, v)
      else if src_w = 0 \<or> src_h = 0 \<or> src_data = 0 then Some (False, v)
      else if 1024 < src_w \<or> 1024 < src_h then Some (False, v)
      else do {
        v \<leftarrow> (if v_tex_res v \<noteq> 0 then chip_comp_free_texture env v else Some v);
        let ctx_id = d_virgl_2d_ctx (v_disp v);
        let pipe_fmt = (if has_alpha then PIPE_B8G8R8A8_UNORM else PIPE_B8G8R8X8_UNORM);
        let (res_id, v) = v_alloc_id v;
        (ok, v) \<leftarrow> in_io (chip_ResourceCreate3D env res_id PIPE_TEXTURE_2D pipe_fmt PIPE_BIND_SAMPLER_VIEW src_w src_h 1 1 0 0 0) v;
        if \<not> ok then Some (False, v)
        else do {
          (_, v) \<leftarrow> in_io (chip_CTXAttachResource env ctx_id res_id) v;
          (ok, v) \<leftarrow> chip_comp_upload_pixels_32bpp env mem res_id src_data src_bpr 0 0 src_w src_h v;
          if \<not> ok then do { v \<leftarrow> drop_resource env ctx_id res_id v; Some (False, v) }
          else do {
            let (view_handle, v) = comp_alloc_handle v;
            cbuf \<leftarrow> filled_cmd 32 (virgl_cmd_create_sampler_view view_handle res_id pipe_fmt 0 0 0 1 2 3);
            (ok, _, v) \<leftarrow> v_submit env ctx_id cbuf v;
            if \<not> ok then do { v \<leftarrow> drop_resource env ctx_id res_id v; Some (False, v) }
            else Some (True, v\<lparr>v_tex_res := res_id, v_tex_view := view_handle, v_tex_w := src_w, v_tex_h := src_h\<rparr>) } } })"

section \<open>Textured quad\<close>

definition textured_words :: "v2d \<Rightarrow> f32 list \<Rightarrow> bool \<Rightarrow> VirglCmdBuf \<Rightarrow> VirglCmdBuf option" where
  "textured_words v verts use_linear cb = do {
     cb \<leftarrow> virgl_cmd_bind_shader PIPE_SHADER_FRAGMENT (v_fs_tex v) cb;
     cb \<leftarrow> virgl_cmd_bind_sampler_states PIPE_SHADER_FRAGMENT 0 1 [if use_linear then v_sampler_linear v else v_sampler v] cb;
     cb \<leftarrow> virgl_cmd_set_sampler_views PIPE_SHADER_FRAGMENT 0 1 [v_tex_view v] cb;
     draw_quad_words (v_vbuf_res v) verts cb }"

definition chip_comp_draw_textured_quad :: "env \<Rightarrow> u32 \<Rightarrow> u32 \<Rightarrow> u32 \<Rightarrow> u32 \<Rightarrow> f32 \<Rightarrow> f32 \<Rightarrow> f32 \<Rightarrow> f32 \<Rightarrow> bool \<Rightarrow> v2d \<Rightarrow> (bool \<times> v2d) option" where
  "chip_comp_draw_textured_quad env dst_x dst_y dst_w dst_h s0 t0 s1 t1 use_linear v =
     (if \<not> d_virgl_2d_ready (v_disp v) \<or> \<not> v_shaders_ok v then Some (False, v)
      else if v_tex_view v = 0 \<or> v_vbuf_res v = 0 then Some (False, v)
      else do {
        let ctx_id = d_virgl_2d_ctx (v_disp v);
        let fb_w = g_fb_width (v_gs v);
        let fb_h = g_fb_height (v_gs v);
        let verts = quad_verts (to_ndc dst_x fb_w) (to_ndc dst_y fb_h) (to_ndc (dst_x + dst_w) fb_w) (to_ndc (dst_y + dst_h) fb_h)
          [s0, t0, F_0, F_1] [s1, t0, F_0, F_1] [s1, t1, F_0, F_1] [s0, t1, F_0, F_1];
        cbuf \<leftarrow> filled_cmd 128 (textured_words v verts use_linear);
        (ok, _, v) \<leftarrow> v_submit env ctx_id cbuf v;
        v \<leftarrow> (if ok then do { (_, v) \<leftarrow> in_io (chip_ResourceFlush env (g_resource_id (v_gs v)) dst_x dst_y dst_w dst_h) v; Some v }
             else Some v);
        rcbuf \<leftarrow> filled_cmd 8 (virgl_cmd_bind_shader PIPE_SHADER_FRAGMENT (v_fs v));
        (_, _, v) \<leftarrow> v_submit env ctx_id rcbuf v;
        Some (ok, v) })"

section \<open>Compositing\<close>

definition bind_blend :: "env \<Rightarrow> u32 \<Rightarrow> u32 \<Rightarrow> v2d \<Rightarrow> (bool \<times> v2d) option" where
  "bind_blend env ctx_id blend v = do {
     cbuf \<leftarrow> filled_cmd 8 (virgl_cmd_bind_object OBJECT_BLEND blend);
     (ok, _, v) \<leftarrow> v_submit env ctx_id cbuf v;
     Some (ok, v) }"

text \<open>A colour channel as a float.\<close>

definition channel :: "nat \<Rightarrow> u32 \<Rightarrow> f32" where
  "channel sh color = f32_div (f32_of_u32 (drop_bit sh color AND 0xFF)) F_255"

definition comp_solid :: "env \<Rightarrow> u32 \<Rightarrow> u32 \<Rightarrow> u32 \<Rightarrow> u32 \<Rightarrow> u32 \<Rightarrow> v2d \<Rightarrow> (bool \<times> v2d) option" where
  "comp_solid env dst_x dst_y dst_w dst_h color0 v =
     chip_virgl_draw_colored_quad env dst_x dst_y dst_w dst_h (channel 16 color0) (channel 8 color0) (channel 0 color0) (channel 24 color0) v"

text \<open>The bitmap source: \<^term>\<open>Inl e\<close> for an early return with the code \<open>e\<close>.\<close>

definition comp_bitmap :: "gfx \<Rightarrow> env \<Rightarrow> bytes \<Rightarrow> u32 \<Rightarrow> u32 \<Rightarrow> RGBFTYPE \<Rightarrow> u32 \<Rightarrow> u32 \<Rightarrow> u32 \<Rightarrow> u32 \<Rightarrow> u32 \<Rightarrow> u32 \<Rightarrow> u32 \<Rightarrow> u32 \<Rightarrow> u32 \<Rightarrow> v2d
     \<Rightarrow> ((u32 + bool) \<times> v2d) option" where
  "comp_bitmap k env mem src_data src_bpr src_format src_x src_y src_w src_h dst_x dst_y dst_w dst_h flags v =
     (let has_alpha = (src_format = RGBFB_A8R8G8B8) in
      if src_format \<notin> {RGBFB_A8R8G8B8, RGBFB_R8G8B8A8, RGBFB_B8G8R8A8, RGBFB_A8B8G8R8} \<and> chip_format_bpp src_format \<noteq> 4
      then Some (Inl (COMPERR_SoftwareFallback k), v)
      else if src_x <s 0 \<or> src_y <s 0 \<or> src_w \<le>s 0 \<or> src_h \<le>s 0 then Some (Inl (COMPERR_SoftwareFallback k), v)
      else do {
        let src_region = src_data + src_y * src_bpr + src_x * 4;
        (ok, v) \<leftarrow> chip_comp_upload_bitmap env mem src_region src_bpr src_w src_h has_alpha v;
        if \<not> ok then Some (Inl (COMPERR_OutOfMemory k), v)
        else do {
          (ok, v) \<leftarrow> chip_comp_draw_textured_quad env dst_x dst_y dst_w dst_h F_0 F_0 F_1 F_1 (flags AND COMPFLAG_SrcFilter k \<noteq> 0) v;
          v \<leftarrow> chip_comp_free_texture env v;
          Some (Inr ok, v) } })"

text \<open>The checks before anything is sent: the code to return, if one fails.\<close>

definition comp_refuses :: "gfx \<Rightarrow> u32 \<Rightarrow> u32 \<Rightarrow> u32 \<Rightarrow> u32 \<Rightarrow> u32 \<Rightarrow> u32 \<Rightarrow> u32 \<Rightarrow> v2d \<Rightarrow> u32 option option" where
  "comp_refuses k op src_bm src_w src_h dst_w dst_h flags v =
     (if \<not> d_virgl_2d_ready (v_disp v) \<or> \<not> v_shaders_ok v then Some (Some (COMPERR_Generic k))
      else if 15 \<le> op then Some (Some (COMPERR_UnknownOperator k))
      else if flags AND COMPFLAG_ForceSoftware k \<noteq> 0 then Some (Some (COMPERR_SoftwareFallback k))
      else if flags AND COMPFLAG_Color1Modulate k \<noteq> 0 then Some (Some (COMPERR_SoftwareFallback k))
      else do {
        blend \<leftarrow> rd (v_blends v) (unat op);
        if blend = 0 then Some (Some (COMPERR_SoftwareFallback k))
        else if dst_w \<le>s 0 \<or> dst_h \<le>s 0 then Some (Some (COMPERR_Value k))
        else if src_bm \<noteq> COMPSRC_SOLIDCOLOR k \<and> (src_w \<noteq> dst_w \<or> src_h \<noteq> dst_h) then Some (Some (COMPERR_SoftwareFallback k))
        else Some None })"

definition chip_virgl_composite :: "gfx \<Rightarrow> env \<Rightarrow> bytes \<Rightarrow> u32 \<Rightarrow> u32 \<Rightarrow> u32 \<Rightarrow> u32 \<Rightarrow> RGBFTYPE \<Rightarrow> u32 \<Rightarrow> u32 \<Rightarrow> u32 \<Rightarrow> u32 \<Rightarrow> u32 \<Rightarrow> u32 \<Rightarrow> u32 \<Rightarrow> u32
     \<Rightarrow> u32 \<Rightarrow> u32 \<Rightarrow> v2d \<Rightarrow> (u32 \<times> v2d) option" where
  "chip_virgl_composite k env mem op src_bm src_data src_bpr src_format src_x src_y src_w src_h dst_x dst_y dst_w dst_h flags color0 v = do {
     refused \<leftarrow> comp_refuses k op src_bm src_w src_h dst_w dst_h flags v;
     (case refused of Some e \<Rightarrow> Some (e, v)
      | None \<Rightarrow> do {
          let ctx_id = d_virgl_2d_ctx (v_disp v);
          blend \<leftarrow> rd (v_blends v) (unat op);
          (ok, v) \<leftarrow> bind_blend env ctx_id blend v;
          if \<not> ok then Some (COMPERR_Generic k, v)
          else do {
            (r, v) \<leftarrow> (if src_bm = COMPSRC_SOLIDCOLOR k
                then do { (ok, v) \<leftarrow> comp_solid env dst_x dst_y dst_w dst_h color0 v; Some (Inr ok, v) }
                else comp_bitmap k env mem src_data src_bpr src_format src_x src_y src_w src_h dst_x dst_y dst_w dst_h flags v);
            (case r of Inl e \<Rightarrow> Some (e, v)
             | Inr ok \<Rightarrow> do {
                 (_, v) \<leftarrow> bind_blend env ctx_id (v_blend v) v;
                 Some (if \<not> ok then COMPERR_Generic k else COMPERR_Success k, v) }) } }) }"

text \<open>The test picture: a checkerboard of four by four pixels, at address 4 of a memory of its own.\<close>

definition test_pixels :: "u32 list" where
  "test_pixels = concat (replicate 2 [0xFFFF0000, 0xFF00FF00, 0xFFFF0000, 0xFF00FF00, 0xFF00FF00, 0xFFFF0000, 0xFF00FF00, 0xFFFF0000])"

definition chip_comp_test_textured_quad :: "env \<Rightarrow> v2d \<Rightarrow> (bool \<times> v2d) option" where
  "chip_comp_test_textured_quad env v =
     (if \<not> d_virgl_2d_ready (v_disp v) \<or> \<not> v_shaders_ok v then Some (False, v)
      else do {
        (ok, v) \<leftarrow> chip_comp_upload_bitmap env (concat (map be32 (0 # test_pixels))) 4 16 4 4 True v;
        if \<not> ok then Some (False, v)
        else do {
          (ok, v) \<leftarrow> chip_comp_draw_textured_quad env 100 80 128 128 F_0 F_0 F_1 F_1 False v;
          v \<leftarrow> chip_comp_free_texture env v;
          Some (ok, v) } })"

section \<open>The hook\<close>

record comp_tags =
  ct_src_x :: u32                     \<comment> \<open>\<open>int32\<close>: read signed\<close>
  ct_src_y :: u32
  ct_src_w :: u32
  ct_src_h :: u32
  ct_dst_x :: u32
  ct_dst_y :: u32
  ct_dst_w :: u32
  ct_dst_h :: u32
  ct_flags :: u32
  ct_color0 :: u32
  ct_vertex_array :: bool
  ct_alpha_mask :: bool

definition no_tags :: comp_tags where
  "no_tags = \<lparr>ct_src_x = 0, ct_src_y = 0, ct_src_w = 0, ct_src_h = 0, ct_dst_x = 0, ct_dst_y = 0, ct_dst_w = 0, ct_dst_h = 0,
     ct_flags = 0, ct_color0 = 0xFF000000, ct_vertex_array = False, ct_alpha_mask = False\<rparr>"

definition take_tag :: "gfx \<Rightarrow> u32 \<Rightarrow> u32 \<Rightarrow> comp_tags \<Rightarrow> comp_tags" where
  "take_tag k tag data t =
     (if tag = TAG_IGNORE k then t
      else if tag = COMPTAG_SrcX k then t\<lparr>ct_src_x := data\<rparr>
      else if tag = COMPTAG_SrcY k then t\<lparr>ct_src_y := data\<rparr>
      else if tag = COMPTAG_SrcWidth k then t\<lparr>ct_src_w := data\<rparr>
      else if tag = COMPTAG_SrcHeight k then t\<lparr>ct_src_h := data\<rparr>
      else if tag = COMPTAG_DestX k then t\<lparr>ct_dst_x := data\<rparr>
      else if tag = COMPTAG_DestY k then t\<lparr>ct_dst_y := data\<rparr>
      else if tag = COMPTAG_DestWidth k then t\<lparr>ct_dst_w := data\<rparr>
      else if tag = COMPTAG_DestHeight k then t\<lparr>ct_dst_h := data\<rparr>
      else if tag = COMPTAG_Flags k then t\<lparr>ct_flags := data\<rparr>
      else if tag = COMPTAG_Color0 k then t\<lparr>ct_color0 := data\<rparr>
      else if tag = COMPTAG_VertexArray k then t\<lparr>ct_vertex_array := True\<rparr>
      else if tag = COMPTAG_SrcAlphaMask k then t\<lparr>ct_alpha_mask := True\<rparr>
      else t)"

text \<open>The walk over the tag list in memory; a circular list is never left.\<close>

partial_function (option) parse_comp_tags :: "gfx \<Rightarrow> bytes \<Rightarrow> u32 \<Rightarrow> comp_tags \<Rightarrow> comp_tags option" where
  "parse_comp_tags k mem p t =
     (if p = 0 then Some t
      else do {
        tag \<leftarrow> ld32 p mem;
        if tag = TAG_DONE k then Some t
        else do {
          data \<leftarrow> ld32 (p + 4) mem;
          if tag = TAG_MORE k then parse_comp_tags k mem data t
          else if tag = TAG_SKIP k then parse_comp_tags k mem (p + (data + 1) * 8) t
          else parse_comp_tags k mem (p + 8) (take_tag k tag data t) } })"

text \<open>
  The driver as the hook sees it: whether \<open>g_chip_state\<close> is set, the driver, the size of the board
  memory, whether \<open>IGraphics\<close> is set, and the three counters.
\<close>

record hook =
  h_attached :: bool
  h_v :: v2d
  h_board_mem_size :: u32
  h_has_igraphics :: bool
  h_hw_count :: u32
  h_sw_count :: u32
  h_total :: u32

text \<open>The original method: it may write the memory and gives a code.\<close>

type_synonym original = "u32 \<Rightarrow> u32 \<Rightarrow> u32 \<Rightarrow> u32 \<Rightarrow> bytes \<Rightarrow> u32 \<times> bytes"

definition call_original :: "original \<Rightarrow> u32 \<Rightarrow> u32 \<Rightarrow> u32 \<Rightarrow> u32 \<Rightarrow> hook \<Rightarrow> u32 \<times> hook" where
  "call_original orig op src dst tags h =
     (let (r, mem) = orig op src dst tags (d_mem (v_disp (h_v h))) in (r, h\<lparr>h_v := on_vdisp (\<lambda>d. d\<lparr>d_mem := mem\<rparr>) (h_v h)\<rparr>))"

definition count_sw :: "hook \<Rightarrow> hook" where
  "count_sw h = h\<lparr>h_sw_count := h_sw_count h + 1, h_total := h_total h + 1\<rparr>"

definition count_hw :: "hook \<Rightarrow> hook" where
  "count_hw h = h\<lparr>h_hw_count := h_hw_count h + 1, h_total := h_total h + 1\<rparr>"

definition default_sizes :: "gfx \<Rightarrow> bool \<Rightarrow> u32 \<Rightarrow> u32 \<Rightarrow> comp_tags \<Rightarrow> comp_tags" where
  "default_sizes k has src dst t =
     (if \<not> has then t
      else let t = (if src \<noteq> 0 \<and> src \<noteq> COMPSRC_SOLIDCOLOR k then
                 t\<lparr>ct_src_w := (if ct_src_w t = 0 then BMA_WIDTH k src else ct_src_w t),
                   ct_src_h := (if ct_src_h t = 0 then BMA_HEIGHT k src else ct_src_h t)\<rparr> else t) in
        if dst \<noteq> 0 then t\<lparr>ct_dst_w := (if ct_dst_w t = 0 then BMA_WIDTH k dst else ct_dst_w t),
                   ct_dst_h := (if ct_dst_h t = 0 then BMA_HEIGHT k dst else ct_dst_h t)\<rparr> else t)"

text \<open>The attempt under \<open>io_lock\<close>.\<close>

definition locked_composite :: "gfx \<Rightarrow> env \<Rightarrow> u32 \<Rightarrow> u32 \<Rightarrow> u32 \<Rightarrow> u32 \<Rightarrow> RGBFTYPE \<Rightarrow> comp_tags \<Rightarrow> hook \<Rightarrow> (u32 \<times> hook) option" where
  "locked_composite k env op src src_data src_bpr src_format t h = do {
     let v = on_vgs (\<lambda>gs. gs\<lparr>g_io := obtain_io_lock (g_io gs)\<rparr>) (h_v h);
     (result, v) \<leftarrow> chip_virgl_composite k env (d_mem (v_disp v)) op src src_data src_bpr src_format (ct_src_x t) (ct_src_y t) (ct_src_w t) (ct_src_h t)
       (ct_dst_x t) (ct_dst_y t) (ct_dst_w t) (ct_dst_h t) (ct_flags t) (ct_color0 t) v;
     Some (result, h\<lparr>h_v := on_vgs (\<lambda>gs. gs\<lparr>g_io := release_io_lock (g_io gs)\<rparr>) v\<rparr>) }"

definition hook_CompositeTagList :: "gfx \<Rightarrow> env \<Rightarrow> original \<Rightarrow> u32 \<Rightarrow> u32 \<Rightarrow> u32 \<Rightarrow> u32 \<Rightarrow> hook \<Rightarrow> (u32 \<times> hook) option" where
  "hook_CompositeTagList k env orig op src dst tags h =
     (let d = v_disp (h_v h); sw = call_original orig op src dst tags in
      if \<not> h_attached h \<or> \<not> d_virgl_2d_ready d \<or> dst = 0 then Some (sw (count_sw h))
      else if \<not> (d_board_mem d \<le> bm_planes0 k dst \<and> bm_planes0 k dst < d_board_mem d + h_board_mem_size h) then Some (sw (count_sw h))
      else do {
        t \<leftarrow> parse_comp_tags k (d_mem d) tags no_tags;
        let t = default_sizes k (h_has_igraphics h) src dst t;
        if ct_vertex_array t \<or> ct_alpha_mask t then Some (sw (count_sw h))
        else if d_double_buffer d then Some (sw (count_sw h))
        else do {
          let is_solid = (src = COMPSRC_SOLIDCOLOR k);
          let with_source = (\<not> is_solid \<and> src \<noteq> 0);
          let src_data = (if with_source then bm_planes0 k src else 0);
          let src_bpr = (if with_source then ucast (bm_bpr k src) else 0);
          let src_format = (if with_source \<and> h_has_igraphics h then BMA_PIXELFORMAT k src else RGBFB_A8R8G8B8);
          if with_source \<and> chip_format_bpp src_format \<noteq> 4 then Some (sw (count_sw h))
          else do {
            (result, h) \<leftarrow> locked_composite k env op src src_data src_bpr src_format t h;
            if result \<noteq> COMPERR_Success k then Some (sw (count_sw h))
            else let (_, h) = sw h in Some (result, count_hw h) } } })"

end
