(* ===== verification/Virgl_2d_Correct.thy ===== *)
theory Virgl_2d_Correct
  imports Virgl_2d Flush_Correct
begin

text \<open>
  The virgl context always comes up complete or not at all, and every submission of its
  initialisation and recovery is a stream the host can parse, with at most one shader in it
  (the rule the head of \<open>src/chip/chip_virgl_2d.c\<close> explains).
\<close>

section \<open>Streams\<close>

definition stream :: "(VirglCmdBuf \<Rightarrow> VirglCmdBuf option) \<Rightarrow> vcmd list \<Rightarrow> bool" where
  "stream f cs \<longleftrightarrow> adds f (concat (map encode_vcmd cs)) \<and> list_all vcmd_ok cs"

lemma stream_one: "encodes f c \<Longrightarrow> stream f [c]"
  by (simp add: stream_def encodes_def)

lemma stream_none: "stream Some []"
  by (simp add: stream_def adds_Some)

lemma stream_bind: "stream f cs \<Longrightarrow> stream g ds \<Longrightarrow> stream (\<lambda>cb. do { cb \<leftarrow> f cb; g cb }) (cs @ ds)"
  using adds_bind [of f "concat (map encode_vcmd cs)" g "concat (map encode_vcmd ds)"] by (simp add: stream_def)

lemma stream_if: "(c \<Longrightarrow> stream f cs) \<Longrightarrow> stream (\<lambda>cb. if c then f cb else Some cb) (if c then cs else [])"
  using stream_none by (cases c) simp_all

fun is_shader :: "vcmd \<Rightarrow> bool" where
  "is_shader (VCmd c ob ps) \<longleftrightarrow> c = CCMD_CREATE_OBJECT \<and> ob = OBJECT_SHADER"

fun vcmd_size :: "vcmd \<Rightarrow> nat" where
  "vcmd_size (VCmd c ob ps) = Suc (length ps)"

lemma encoded_size: "length (concat (map encode_vcmd cs)) = sum_list (map vcmd_size cs)"
proof (induction cs)
  case (Cons c cs)
  then show ?case by (cases c) simp
qed simp

text \<open>A kick of the control queue with at most one shader in its submission.\<close>

definition one_shader :: "kick \<Rightarrow> bool" where
  "one_shader k \<longleftrightarrow> (\<forall>ctx n. decode_cmd (k_cmd k) = Some (Submit3D ctx n) \<longrightarrow>
     (\<exists>d cs. k_cmd3d k = Some d \<and> parse_stream (le_words (unat n div 4) d) = Some cs \<and> length (filter is_shader cs) \<le> 1))"

definition kicks_ok :: "io \<Rightarrow> io \<Rightarrow> bool" where
  "kicks_ok a b \<longleftrightarrow> (\<exists>ks. i_kicks b = i_kicks a @ ks \<and> (\<forall>k\<in>set ks. one_shader k))"

lemma kicks_ok_refl: "i_kicks b = i_kicks a \<Longrightarrow> kicks_ok a b"
  by (simp add: kicks_ok_def)

lemma kicks_ok_trans: "kicks_ok a b \<Longrightarrow> kicks_ok b c \<Longrightarrow> kicks_ok a c"
  unfolding kicks_ok_def by (elim exE conjE, rule_tac x = "ks @ ksa" in exI) auto

lemma kicks_ok_told: "told c a b \<Longrightarrow> (\<And>ctx n. c \<noteq> Submit3D ctx n) \<Longrightarrow> kicks_ok a b"
  by (auto simp: told_def kicks_ok_def one_shader_def)

section \<open>Steps\<close>

text \<open>The driver is sound: transport idle, DMA lists as long as their counts, room for the blends.\<close>

definition v_ok :: "env \<Rightarrow> nat \<Rightarrow> v2d \<Rightarrow> bool" where
  "v_ok env lk v \<longleftrightarrow> gpu_ok env lk (v_gs v) \<and> length (v_blends v) = 15
     \<and> unat (g_fb_dma_count (v_gs v)) \<le> length (g_dma_lists (v_gs v) (g_fb_mem (v_gs v)))
     \<and> unat (d_fb_dma_count2 (v_disp v)) \<le> length (g_dma_lists (v_gs v) (d_fb_mem2 (v_disp v)))"

definition ctx_err :: "v2d \<Rightarrow> bool" where
  "ctx_err v \<longleftrightarrow> g_virgl_ctx_error (v_gs v)"

text \<open>Only the transport, the error flag, the log of scanouts and the resource counter may differ.\<close>

definition settled :: "gpu \<Rightarrow> gpu" where
  "settled gs = gs\<lparr>g_io := undefined, g_virgl_ctx_error := False, g_scanout_log_x := [], g_scanout_log_y := [],
     g_scanout_log_w := [], g_scanout_log_h := [], g_next_resource_id := 0\<rparr>"

text \<open>What the conversion of a frame reads, none of which the virgl context changes.\<close>

definition screen_view :: "disp \<Rightarrow> (bytes \<times> u32 list \<times> RGBFTYPE) \<times> u32 list \<times> u16 list \<times> ChipProf list" where
  "screen_view d = ((d_mem d, d_palette d, d_active_format d),
     [d_board_mem d, d_fb_mem2 d, d_active_width d, d_active_height d, d_panning_mem d, d_panning_width d,
      g_fb_mem (d_gs d), g_fb_width (d_gs d), g_fb_height (d_gs d), g_fb_stride (d_gs d)],
     [d_pan_xoff d, d_pan_yoff d], [d_prof_convert d, d_prof_flush_all d])"

definition calm :: "env \<Rightarrow> nat \<Rightarrow> v2d \<Rightarrow> v2d \<Rightarrow> bool" where
  "calm env lk v v' \<longleftrightarrow> gpu_ok env lk (v_gs v') \<and> kicks_ok (g_io (v_gs v)) (g_io (v_gs v'))
     \<and> (\<exists>gs'. v' = on_vgs (\<lambda>_. gs') v \<and> settled gs' = settled (v_gs v))"

lemma settled_parts:
  assumes "settled a = settled b"
  shows "g_resource_id a = g_resource_id b" "g_fb_resource_id a = g_fb_resource_id b" "g_fb_mem a = g_fb_mem b"
    "g_fb_dma_count a = g_fb_dma_count b" "g_dma_lists a = g_dma_lists b" "g_fb_width a = g_fb_width b" "g_fb_height a = g_fb_height b"
    "g_fb_stride a = g_fb_stride b" "g_has_virgl a = g_has_virgl b" "g_virgl_caps_valid a = g_virgl_caps_valid b"
proof -
  have f: "g_resource_id (settled g) = g_resource_id g" "g_fb_resource_id (settled g) = g_fb_resource_id g"
    "g_fb_mem (settled g) = g_fb_mem g" "g_fb_dma_count (settled g) = g_fb_dma_count g" "g_dma_lists (settled g) = g_dma_lists g"
    "g_fb_width (settled g) = g_fb_width g" "g_fb_height (settled g) = g_fb_height g" "g_fb_stride (settled g) = g_fb_stride g"
    "g_has_virgl (settled g) = g_has_virgl g" "g_virgl_caps_valid (settled g) = g_virgl_caps_valid g" for g
    by (simp_all add: settled_def)
  show "g_resource_id a = g_resource_id b" "g_fb_resource_id a = g_fb_resource_id b" "g_fb_mem a = g_fb_mem b"
    "g_fb_dma_count a = g_fb_dma_count b" "g_dma_lists a = g_dma_lists b" "g_fb_width a = g_fb_width b" "g_fb_height a = g_fb_height b"
    "g_fb_stride a = g_fb_stride b" "g_has_virgl a = g_has_virgl b" "g_virgl_caps_valid a = g_virgl_caps_valid b"
    by (simp_all only: f [of a, symmetric] assms) (simp_all only: f)
qed

lemma vgs_upd: "v_gs (on_vgs f v) = f (v_gs v)"
  by (simp add: on_vgs_def on_vdisp_def)

lemma v_upd_parts [simp]:
  "v_shaders_ok (on_vgs f v) = v_shaders_ok v" "v_samplers_ok (on_vgs f v) = v_samplers_ok v" "v_ve (on_vgs f v) = v_ve v"
  "v_vs (on_vgs f v) = v_vs v" "v_fs (on_vgs f v) = v_fs v" "v_fs_tex (on_vgs f v) = v_fs_tex v" "v_blends (on_vgs f v) = v_blends v"
  "v_vbuf_res (on_vgs f v) = v_vbuf_res v" "v_res_w (on_vgs f v) = v_res_w v" "v_res_h (on_vgs f v) = v_res_h v"
  "v_tex_res (on_vgs f v) = v_tex_res v" "v_tex_view (on_vgs f v) = v_tex_view v" "v_blend (on_vgs f v) = v_blend v"
  "v_sampler (on_vgs f v) = v_sampler v" "v_sampler_linear (on_vgs f v) = v_sampler_linear v" "v_next_handle (on_vgs f v) = v_next_handle v"
  by (simp_all add: on_vgs_def on_vdisp_def)

lemma v_disp_parts [simp]:
  "d_virgl_2d_ready (v_disp (on_vgs f v)) = d_virgl_2d_ready (v_disp v)" "d_virgl_2d_ctx (v_disp (on_vgs f v)) = d_virgl_2d_ctx (v_disp v)"
  "d_virgl_2d_resource (v_disp (on_vgs f v)) = d_virgl_2d_resource (v_disp v)" "d_fb_mem2 (v_disp (on_vgs f v)) = d_fb_mem2 (v_disp v)"
  "d_fb_dma_count2 (v_disp (on_vgs f v)) = d_fb_dma_count2 (v_disp v)" "d_double_buffer (v_disp (on_vgs f v)) = d_double_buffer (v_disp v)"
  "d_virgl_2d_resource2 (v_disp (on_vgs f v)) = d_virgl_2d_resource2 (v_disp v)"
  by (simp_all add: on_vgs_def on_vdisp_def)

lemma calm_screen:
  assumes "calm env lk v v'"
  shows "screen_view (v_disp v') = screen_view (v_disp v)"
proof -
  obtain gs' where g: "v' = on_vgs (\<lambda>_. gs') v" "settled gs' = settled (v_gs v)" using assms by (auto simp: calm_def)
  show ?thesis using settled_parts [OF g(2)] by (simp add: g(1) screen_view_def on_vgs_def on_vdisp_def)
qed

lemma on_vgs_twice: "on_vgs f (on_vgs g v) = on_vgs (f \<circ> g) v"
  by (simp add: on_vgs_def on_vdisp_def)

lemma calm_trans: "calm env lk a b \<Longrightarrow> calm env lk b c \<Longrightarrow> calm env lk a c"
  unfolding calm_def
  by (elim conjE exE) (intro conjI, assumption, blast intro: kicks_ok_trans,
    rule_tac x = gs'a in exI, simp add: on_vgs_twice comp_def vgs_upd)

lemma calm_refl: "v_ok env lk v \<Longrightarrow> calm env lk v v"
proof -
  have "v = on_vgs (\<lambda>_. v_gs v) v" by (simp add: on_vgs_def on_vdisp_def)
  then show "v_ok env lk v \<Longrightarrow> calm env lk v v" unfolding calm_def v_ok_def by (auto intro: kicks_ok_refl)
qed

lemma calm_ok: "calm env lk v v' \<Longrightarrow> v_ok env lk v \<Longrightarrow> v_ok env lk v'"
proof -
  assume c: "calm env lk v v'" and ok: "v_ok env lk v"
  obtain gs' where g: "v' = on_vgs (\<lambda>_. gs') v" "settled gs' = settled (v_gs v)" "gpu_ok env lk gs'"
    using c by (auto simp: calm_def vgs_upd)
  show ?thesis using ok g(3) settled_parts(3-5) [OF g(2)] by (simp add: v_ok_def g(1) vgs_upd)
qed

text \<open>A command of the command layer.\<close>

lemma in_io_calm:
  assumes "v_ok env lk v" "\<And>io. io_idle env lk io \<Longrightarrow> delivers env lk c f io" "\<And>ctx n. c \<noteq> Submit3D ctx n"
  shows "\<exists>ok v'. in_io f v = Some (ok, v') \<and> calm env lk v v' \<and> ctx_err v' = ctx_err v"
proof -
  have g: "gpu_ok env lk (v_gs v)" using assms(1) by (simp add: v_ok_def)
  then have "io_idle env lk (g_io (v_gs v))" by (simp add: gpu_ok_def)
  then obtain ok io' where f: "f (g_io (v_gs v)) = Some (ok, io')" "io_idle env lk io'"
    "\<not> ok \<and> i_kicks io' = i_kicks (g_io (v_gs v)) \<or> told c (g_io (v_gs v)) io'"
    using assms(2) unfolding delivers_def by blast
  let ?v' = "on_vgs (\<lambda>gs. gs\<lparr>g_io := io'\<rparr>) v"
  have run: "in_io f v = Some (ok, ?v')" using f(1) by (simp add: in_io_def in_gs_def with_gs_def with_io_def on_vgs_def on_vdisp_def)
  have "kicks_ok (g_io (v_gs v)) io'" using f(3) kicks_ok_told [OF _ assms(3)] kicks_ok_refl by blast
  moreover have "gpu_ok env lk (v_gs ?v')" using g f(2) by (simp add: vgs_upd gpu_ok_def)
  moreover have "?v' = on_vgs (\<lambda>_. (v_gs v)\<lparr>g_io := io'\<rparr>) v" by (simp add: on_vgs_def on_vdisp_def)
  moreover have "settled ((v_gs v)\<lparr>g_io := io'\<rparr>) = settled (v_gs v)" by (simp add: settled_def)
  ultimately have "calm env lk v ?v'" unfolding calm_def by (auto simp: vgs_upd)
  then show ?thesis using run by (auto simp: ctx_err_def vgs_upd)
qed

lemmas in_io_create_3d = in_io_calm [OF _ delivers_create_3d, simplified]
lemmas in_io_attach = in_io_calm [OF _ delivers_ctx_attach, simplified]
lemmas in_io_detach = in_io_calm [OF _ delivers_ctx_detach, simplified]
lemmas in_io_unref = in_io_calm [OF _ delivers_unref, simplified]
lemmas in_io_flush = in_io_calm [OF _ delivers_flush, simplified]
lemmas in_io_transfer_3d = in_io_calm [OF _ delivers_transfer_to_3d, simplified]

lemma in_io_backing:
  assumes "v_ok env lk v" "unat n \<le> length dl"
  shows "\<exists>ok v'. in_io (chip_ResourceAttachBacking env rid dl n) v = Some (ok, v') \<and> calm env lk v v' \<and> ctx_err v' = ctx_err v"
  by (rule in_io_calm [OF assms(1) delivers_attach_backing [OF _ assms(2)]]) simp_all

lemma in_io_ctx_create:
  assumes "v_ok env lk v"
  shows "\<exists>ok v'. in_io (chip_CTXCreate env ctx (Some ctx_name) 0) v = Some (ok, v') \<and> calm env lk v v' \<and> ctx_err v' = ctx_err v"
proof (rule in_io_calm [OF assms delivers_ctx_create])
  show "terminated 63 name" if "Some ctx_name = Some name" for name
    using that by (auto simp: terminated_def ctx_name_def)
qed simp_all

lemma destroy_nodata:
  "chip_CTXDestroy env ctx io = map_option snd (gpu_nodata env 24 (\<lambda>cmd. do {
      cmd \<leftarrow> cpu_st32 0 (GP32 CMD_CTX_DESTROY) cmd; cpu_st32 16 (GP32 ctx) cmd }) io)"
  by (simp add: chip_CTXDestroy_def gpu_nodata_def map_option_case split: Option.bind_split option.split)

lemma delivers_ctx_destroy:
  assumes "io_idle env lk io"
  shows "delivers env lk (CtxDestroy ctx) (gpu_nodata env 24 (\<lambda>cmd. do {
      cmd \<leftarrow> cpu_st32 0 (GP32 CMD_CTX_DESTROY) cmd; cpu_st32 16 (GP32 ctx) cmd })) io"
  by (rule deliversI [OF assms, where fs = "[(0, CMD_CTX_DESTROY), (16, ctx)]"]) (simp_all add: fill_simps decode_simps)

lemma destroy_calm:
  assumes "v_ok env lk v"
  shows "\<exists>v'. v_CTXDestroy env ctx v = Some v' \<and> calm env lk v v' \<and> ctx_err v' = ctx_err v"
proof -
  let ?f = "gpu_nodata env 24 (\<lambda>cmd. do { cmd \<leftarrow> cpu_st32 0 (GP32 CMD_CTX_DESTROY) cmd; cpu_st32 16 (GP32 ctx) cmd })"
  obtain ok v' where v': "in_io ?f v = Some (ok, v')" "calm env lk v v'" "ctx_err v' = ctx_err v"
    using in_io_calm [OF assms delivers_ctx_destroy] by fastforce
  have "v_CTXDestroy env ctx v = Some v'" using v'(1)
    by (auto simp: v_CTXDestroy_def in_io_def in_gs_def with_gs_def with_io_def destroy_nodata bind_eq_Some_conv)
  then show ?thesis using v'(2,3) by blast
qed

lemma core_split:
  assumes "core d' = core d"
  shows "d' = d\<lparr>d_gs := d_gs d'\<rparr>" "settled (d_gs d') = settled (d_gs d)" "g_virgl_ctx_error (d_gs d') = g_virgl_ctx_error (d_gs d)"
proof -
  show "d' = d\<lparr>d_gs := d_gs d'\<rparr>" using assms by (cases d, cases d') (simp add: core_def)
  have s: "settled (d_gs (core x)) = settled (d_gs x)" for x
    by (simp add: core_def settled_def)
  show "settled (d_gs d') = settled (d_gs d)" using s [of d'] s [of d] assms by simp
  have e: "g_virgl_ctx_error (d_gs (core x)) = g_virgl_ctx_error (d_gs x)" for x by (simp add: core_def)
  show "g_virgl_ctx_error (d_gs d') = g_virgl_ctx_error (d_gs d)" using e [of d'] e [of d] assms by simp
qed

lemma set_scanout_calm:
  assumes "v_ok env lk v"
  shows "\<exists>ok v'. in_gs (chip_SetScanout env sid rid x y w h) v = Some (ok, v') \<and> calm env lk v v' \<and> ctx_err v' = ctx_err v"
proof -
  let ?c = "SetScanout \<lparr>r_x = x, r_y = y, r_w = w, r_h = h\<rparr> sid rid"
  have g: "gpu_ok env lk (d_gs (v_disp v))" using assms by (simp add: v_ok_def)
  obtain ok d' n where s: "with_gs (chip_SetScanout env sid rid x y w h) (v_disp v) = Some (ok, d')" "gpu_ok env lk (d_gs d')"
    "quiet (v_disp v) d'" "shown (v_disp v) d' (replicate n ?c)"
    using set_scanout_step [OF g] by blast
  note c = core_split [OF s(3) [unfolded quiet_def]]
  have "in_gs (chip_SetScanout env sid rid x y w h) v = Some (ok, v\<lparr>v_disp := d'\<rparr>)" using s(1) by (simp add: in_gs_def)
  moreover have v': "v\<lparr>v_disp := d'\<rparr> = on_vgs (\<lambda>_. d_gs d') v" using c(1) by (simp add: on_vgs_def on_vdisp_def)
  moreover obtain ks where ks: "i_kicks (g_io (d_gs d')) = i_kicks (g_io (v_gs v)) @ ks"
    "map (\<lambda>k. decode_cmd (k_cmd k)) ks = map Some (replicate n ?c)"
    using s(4) by (auto simp: shown_def)
  have "one_shader k" if "k \<in> set ks" for k
  proof -
    have "decode_cmd (k_cmd k) \<in> set (map Some (replicate n ?c))" unfolding ks(2) [symmetric] using that by auto
    then show ?thesis by (auto simp: one_shader_def)
  qed
  then have "kicks_ok (g_io (v_gs v)) (g_io (d_gs d'))" using ks(1) by (auto simp: kicks_ok_def)
  ultimately show ?thesis using s(2) c(2,3) by (auto simp: calm_def vgs_upd ctx_err_def)
qed

section \<open>Submissions\<close>

lemma filled_result:
  assumes "stream f cs" "cs \<noteq> []" "sum_list (map vcmd_size cs) \<le> n" "n \<le> 16384"
  shows "\<exists>cb. filled_cmd n f = Some cb \<and> cb_ok cb \<and> vc_max_dwords cb = of_nat n \<and> cb_words cb = concat (map encode_vcmd cs) \<and> vc_dwords cb \<noteq> 0"
proof -
  let ?ws = "concat (map encode_vcmd cs)"
  have n: "unat (of_nat n :: u32) = n" using assms(4) by (simp add: unat_of_nat)
  have i: "cb_ok (virgl_cmd_init (replicate n 0) (of_nat n))" "cb_words (virgl_cmd_init (replicate n 0) (of_nat n)) = []"
    using n by (simp_all add: init_ok)
  then obtain cb where cb: "f (virgl_cmd_init (replicate n 0) (of_nat n)) = Some cb" "appended ?ws (virgl_cmd_init (replicate n 0) (of_nat n)) cb"
    using assms(1) unfolding stream_def adds_def by blast
  have m: "vc_max_dwords (virgl_cmd_init (replicate n 0) (of_nat n)) = of_nat n" by (simp add: virgl_cmd_init_def)
  have w: "cb_ok cb" "vc_max_dwords cb = of_nat n" "cb_words cb = take n ?ws"
    using cb(2) unfolding appended_def i(2) m n by simp_all
  then have w': "cb_words cb = ?ws" using assms(3) encoded_size [of cs] by simp
  obtain c cs' where "cs = c # cs'" using assms(2) by (cases cs) auto
  then have "length ?ws \<noteq> 0" by (cases c) simp
  then have "vc_dwords cb \<noteq> 0" using cb_words_length [OF w(1)] w' by auto
  then show ?thesis using cb(1) w(1,2) w' by (simp add: filled_cmd_def)
qed

lemma submit_settled: "virgl_submit env ctx cb gs = Some (r, cb', gs') \<Longrightarrow> settled gs' = settled gs"
  by (auto simp: virgl_submit_def with_io_def settled_def Let_def split: if_splits Option.bind_splits prod.splits)

lemma submit_without_buffer:
  assumes "vc_dwords cb \<noteq> 0" "\<not> g_virgl_ctx_error gs" "i_cmd3d_buf (g_io gs) = None"
  shows "virgl_submit env ctx cb gs = Some (False, cb\<lparr>vc_dwords := 0\<rparr>, gs\<lparr>g_io := g_io gs, g_virgl_ctx_error := True\<rparr>)"
  using assms by (simp add: virgl_submit_def with_io_def chip_Submit3D_def)

definition streamed :: "u32 \<Rightarrow> vcmd list \<Rightarrow> kick \<Rightarrow> bool" where
  "streamed ctx cs k \<longleftrightarrow> (\<exists>d n. decode_cmd (k_cmd k) = Some (Submit3D ctx n) \<and> k_cmd3d k = Some d \<and> parse_stream (le_words (unat n div 4) d) = Some cs)"

definition sent :: "u32 \<Rightarrow> vcmd list \<Rightarrow> bool \<Rightarrow> io \<Rightarrow> io \<Rightarrow> bool" where
  "sent ctx cs r a b \<longleftrightarrow> \<not> r \<and> i_kicks b = i_kicks a \<or> (\<exists>k. i_kicks b = i_kicks a @ [k] \<and> streamed ctx cs k)"

lemma submit_calm:
  assumes ok: "v_ok env lk v" and f: "stream f cs" "cs \<noteq> []" "sum_list (map vcmd_size cs) \<le> n" "n \<le> 16384"
    and one: "length (filter is_shader cs) \<le> 1"
  shows "\<exists>cb r cb' v'. filled_cmd n f = Some cb \<and> v_submit env ctx cb v = Some (r, cb', v') \<and> calm env lk v v'
     \<and> ctx_err v' = (ctx_err v \<or> \<not> r) \<and> (ctx_err v \<longrightarrow> \<not> r) \<and> sent ctx cs r (g_io (v_gs v)) (g_io (v_gs v'))"
proof -
  obtain cb where cb: "filled_cmd n f = Some cb" "cb_ok cb" "vc_max_dwords cb = of_nat n" "cb_words cb = concat (map encode_vcmd cs)"
    "vc_dwords cb \<noteq> 0" using filled_result [OF f] by blast
  have g: "gpu_ok env lk (v_gs v)" using ok by (simp add: v_ok_def)
  have main: "\<exists>r cb' gs'. virgl_submit env ctx cb (v_gs v) = Some (r, cb', gs') \<and> gpu_ok env lk gs'
      \<and> kicks_ok (g_io (v_gs v)) (g_io gs') \<and> g_virgl_ctx_error gs' = (ctx_err v \<or> \<not> r) \<and> (ctx_err v \<longrightarrow> \<not> r)
      \<and> sent ctx cs r (g_io (v_gs v)) (g_io gs')"
  proof (cases "ctx_err v")
    case True
    then have "virgl_submit env ctx cb (v_gs v) = Some (False, cb\<lparr>vc_dwords := 0\<rparr>, v_gs v)"
      using cb(5) by (simp add: virgl_submit_def ctx_err_def)
    then show ?thesis using g True by (auto intro: kicks_ok_refl simp: ctx_err_def sent_def)
  next
    case noerr: False
    then have err: "\<not> g_virgl_ctx_error (v_gs v)" by (simp add: ctx_err_def)
    show ?thesis
    proof (cases "i_cmd3d_buf (g_io (v_gs v))")
      case None
      have "gpu_ok env lk ((v_gs v)\<lparr>g_io := g_io (v_gs v), g_virgl_ctx_error := True\<rparr>)" using g by (simp add: gpu_ok_def)
      then show ?thesis using submit_without_buffer [OF cb(5) err None, of env ctx] noerr by (auto intro: kicks_ok_refl simp: sent_def)
    next
      case (Some b3)
      then have b3: "length b3 = 65536" using g by (auto simp: gpu_ok_def io_idle_def cmd3d_ok_def)
      have n: "unat (of_nat n :: u32) = n" using f(4) by (simp add: unat_of_nat)
      have m: "vc_max_dwords cb \<le> 16384" using f(4) n by (simp add: cb(3) word_le_nat_alt)
      obtain r cb' gs' where s: "virgl_submit env ctx cb (v_gs v) = Some (r, cb', gs')" "gpu_ok env lk gs'" "g_virgl_ctx_error gs' = (\<not> r)"
        "\<not> r \<and> i_kicks (g_io gs') = i_kicks (g_io (v_gs v))
         \<or> (\<exists>k d. i_kicks (g_io gs') = i_kicks (g_io (v_gs v)) @ [k] \<and> decode_cmd (k_cmd k) = Some (Submit3D ctx (vc_dwords cb * 4))
             \<and> k_cmd3d k = Some d \<and> le_words (unat (vc_dwords cb)) d = cb_words cb)"
        using virgl_submit_result [OF g Some b3 cb(2) m cb(5) err, of ctx] by blast
      have dw: "unat (vc_dwords cb) \<le> 16384" using cb(2) m by (auto simp: cb_ok_def word_le_nat_alt)
      have p: "unat (vc_dwords cb * 4) div 4 = unat (vc_dwords cb)" "parse_stream (cb_words cb) = Some cs"
        using dw f(1) by (simp_all add: unat_word_ariths cb(4) stream_def parse_encode_all)
      then have "kicks_ok (g_io (v_gs v)) (g_io gs')" using s(4) one
        by (auto simp: kicks_ok_def one_shader_def)
      moreover have "sent ctx cs r (g_io (v_gs v)) (g_io gs')" using s(4) p unfolding sent_def streamed_def by metis
      ultimately show ?thesis using s(1-3) noerr by blast
    qed
  qed
  then obtain r cb' gs' where s: "virgl_submit env ctx cb (v_gs v) = Some (r, cb', gs')" "gpu_ok env lk gs'"
    "kicks_ok (g_io (v_gs v)) (g_io gs')" "g_virgl_ctx_error gs' = (ctx_err v \<or> \<not> r)" "ctx_err v \<longrightarrow> \<not> r"
    "sent ctx cs r (g_io (v_gs v)) (g_io gs')" by blast
  have "calm env lk v (on_vgs (\<lambda>_. gs') v)" using s(2,3) submit_settled [OF s(1)] by (auto simp: calm_def vgs_upd)
  then show ?thesis using cb(1) s by (auto simp: v_submit_def ctx_err_def vgs_upd)
qed

definition goes :: "env \<Rightarrow> nat \<Rightarrow> v2d \<Rightarrow> v2d \<Rightarrow> bool" where
  "goes env lk v v' \<longleftrightarrow> v_ok env lk v' \<and> kicks_ok (g_io (v_gs v)) (g_io (v_gs v')) \<and> (ctx_err v \<longrightarrow> ctx_err v')
     \<and> screen_view (v_disp v') = screen_view (v_disp v)"

definition submits :: "nat \<Rightarrow> (VirglCmdBuf \<Rightarrow> VirglCmdBuf option) \<Rightarrow> bool" where
  "submits n f \<longleftrightarrow> (\<exists>cs. stream f cs \<and> cs \<noteq> [] \<and> sum_list (map vcmd_size cs) \<le> n \<and> n \<le> 16384 \<and> length (filter is_shader cs) \<le> 1)"

lemma submitsI: "stream f cs \<Longrightarrow> cs \<noteq> [] \<Longrightarrow> sum_list (map vcmd_size cs) \<le> n \<Longrightarrow> n \<le> 16384 \<Longrightarrow> length (filter is_shader cs) \<le> 1 \<Longrightarrow> submits n f"
  by (auto simp: submits_def)

lemma submit_result:
  assumes "v_ok env lk v" "submits n f"
  shows "\<exists>cb r cb' v'. filled_cmd n f = Some cb \<and> v_submit env ctx cb v = Some (r, cb', v') \<and> calm env lk v v'
     \<and> goes env lk v v' \<and> ctx_err v' = (ctx_err v \<or> \<not> r) \<and> (ctx_err v \<longrightarrow> \<not> r)"
proof -
  obtain cs where f: "stream f cs" "cs \<noteq> []" "sum_list (map vcmd_size cs) \<le> n" "n \<le> 16384" "length (filter is_shader cs) \<le> 1"
    using assms(2) by (auto simp: submits_def)
  obtain cb r cb' v' where s: "filled_cmd n f = Some cb" "v_submit env ctx cb v = Some (r, cb', v')" "calm env lk v v'"
    "ctx_err v' = (ctx_err v \<or> \<not> r)" "ctx_err v \<longrightarrow> \<not> r"
    using submit_calm [OF assms(1) f, of ctx] by blast
  have "goes env lk v v'" using s(4) unfolding goes_def using calm_ok [OF s(3) assms(1)] calm_screen [OF s(3)] s(3) by (simp add: calm_def)
  then show ?thesis using s by blast
qed

section \<open>The steps of the initialisation\<close>

lemma goes_trans: "goes env lk a b \<Longrightarrow> goes env lk b c \<Longrightarrow> goes env lk a c"
  unfolding goes_def using kicks_ok_trans by auto

lemma goes_ok: "goes env lk a b \<Longrightarrow> v_ok env lk b"
  by (simp add: goes_def)

lemma calm_goes: "v_ok env lk v \<Longrightarrow> calm env lk v v' \<Longrightarrow> (ctx_err v \<longrightarrow> ctx_err v') \<Longrightarrow> goes env lk v v'"
  unfolding goes_def using calm_ok calm_screen calm_def by blast

text \<open>Updates of the driver's own fields.\<close>

definition same_transport :: "v2d \<Rightarrow> v2d \<Rightarrow> bool" where
  "same_transport v v' \<longleftrightarrow> g_io (v_gs v') = g_io (v_gs v) \<and> ctx_err v' = ctx_err v \<and> (\<forall>env lk. v_ok env lk v \<longrightarrow> v_ok env lk v')
     \<and> screen_view (v_disp v') = screen_view (v_disp v)"

lemma goes_same: "same_transport v v' \<Longrightarrow> v_ok env lk v \<Longrightarrow> goes env lk v v'"
  by (simp add: same_transport_def goes_def kicks_ok_refl)

lemma goes_after: "goes env lk a b \<Longrightarrow> same_transport b c \<Longrightarrow> goes env lk a c"
  by (blast intro: goes_trans goes_same goes_ok)

lemma goes_before: "same_transport a b \<Longrightarrow> v_ok env lk a \<Longrightarrow> goes env lk b c \<Longrightarrow> goes env lk a c"
  by (blast intro: goes_trans goes_same)

lemma alloc_id_same: "v_alloc_id v = (i, v') \<Longrightarrow> same_transport v v' \<and> (\<exists>gs'. v' = on_vgs (\<lambda>_. gs') v \<and> settled gs' = settled (v_gs v))"
proof -
  assume a: "v_alloc_id v = (i, v')"
  obtain gs' where g: "chip_alloc_resource_id (v_gs v) = (i, gs')" "v' = on_vgs (\<lambda>_. gs') v"
    using a by (auto simp: v_alloc_id_def split: prod.splits)
  have "gs' = (v_gs v)\<lparr>g_next_resource_id := g_next_resource_id gs'\<rparr>"
    using g(1) by (auto simp: chip_alloc_resource_id_def split: prod.splits)
  then obtain n where n: "gs' = (v_gs v)\<lparr>g_next_resource_id := n\<rparr>" by blast
  have "same_transport v v'" unfolding same_transport_def g(2) n
    by (simp add: vgs_upd ctx_err_def v_ok_def gpu_ok_def screen_view_def on_vgs_def on_vdisp_def)
  moreover have "settled gs' = settled (v_gs v)" by (simp add: n settled_def)
  ultimately show ?thesis using g(2) by blast
qed

lemma give_up_result:
  assumes "v_ok env lk v"
  shows "\<exists>v'. give_up env ctx v = Some (None, v') \<and> goes env lk v v'
     \<and> d_virgl_2d_ready (v_disp v') = d_virgl_2d_ready (v_disp v)"
proof -
  obtain v' where d: "v_CTXDestroy env ctx v = Some v'" "calm env lk v v'" "ctx_err v' = ctx_err v" using destroy_calm [OF assms] by blast
  then have "d_virgl_2d_ready (v_disp v') = d_virgl_2d_ready (v_disp v)" by (auto simp: calm_def)
  then show ?thesis using d assms calm_goes [OF assms d(2)] by (simp add: give_up_def)
qed

lemma calm_ready: "calm env lk v v' \<Longrightarrow> d_virgl_2d_ready (v_disp v') = d_virgl_2d_ready (v_disp v)"
  by (auto simp: calm_def)

lemma context_words: "submits 512 (\<lambda>cb. do { cb \<leftarrow> virgl_cmd_create_sub_ctx 1 cb; virgl_cmd_set_sub_ctx 1 cb })"
  by (rule submitsI [OF stream_bind [OF stream_one [OF encodes_sub_ctx(1)] stream_one [OF encodes_sub_ctx(2)]]]) simp_all

lemma context_result:
  assumes ok: "v_ok env lk v" and nr: "\<not> d_virgl_2d_ready (v_disp v)"
  shows "\<exists>r v'. v2d_context env v = Some (r, v') \<and> goes env lk v v' \<and> \<not> d_virgl_2d_ready (v_disp v')"
proof -
  let ?ctx = "g_next_ctx_id (v_gs v)"
  let ?v1 = "on_vdisp (\<lambda>d. d\<lparr>d_gs := (d_gs d)\<lparr>g_next_ctx_id := ?ctx + 1\<rparr>, d_virgl_2d_ctx := ?ctx\<rparr>) v"
  have s1: "same_transport v ?v1" by (simp add: same_transport_def screen_view_def on_vdisp_def ctx_err_def v_ok_def gpu_ok_def)
  have ok1: "v_ok env lk ?v1" using s1 ok by (simp add: same_transport_def)
  have nr1: "\<not> d_virgl_2d_ready (v_disp ?v1)" using nr by (simp add: on_vdisp_def)
  obtain r1 v2 where c: "in_io (chip_CTXCreate env ?ctx (Some ctx_name) 0) ?v1 = Some (r1, v2)" "calm env lk ?v1 v2" "ctx_err v2 = ctx_err ?v1"
    using in_io_ctx_create [OF ok1] by blast
  have g2: "goes env lk v v2" using goes_before [OF s1 ok calm_goes [OF ok1 c(2)]] c(3) by simp
  have nr2: "\<not> d_virgl_2d_ready (v_disp v2)" using calm_ready [OF c(2)] nr1 by simp
  obtain cb r cb' v3 where s: "filled_cmd 512 (\<lambda>cb. do { cb \<leftarrow> virgl_cmd_create_sub_ctx 1 cb; virgl_cmd_set_sub_ctx 1 cb }) = Some cb"
    "v_submit env ?ctx cb v2 = Some (r, cb', v3)" "calm env lk v2 v3" "goes env lk v2 v3"
    using submit_result [OF goes_ok [OF g2] context_words, of ?ctx] by blast
  have g3: "goes env lk v v3" by (rule goes_trans [OF g2 s(4)])
  have nr3: "\<not> d_virgl_2d_ready (v_disp v3)" using calm_ready [OF s(3)] nr2 by simp
  obtain v4 where u: "give_up env ?ctx v3 = Some (None :: u32 option, v4)" "goes env lk v3 v4" "\<not> d_virgl_2d_ready (v_disp v4)"
    using give_up_result [OF goes_ok [OF g3]] nr3 by metis
  show ?thesis
  proof (cases "r1 \<and> r")
    case True
    then have "v2d_context env v = Some (Some ?ctx, v3)" using c(1) s(1,2) by (simp add: v2d_context_def Let_def)
    then show ?thesis using g3 nr3 by blast
  next
    case False
    show ?thesis
    proof (cases r1)
      case True
      then have "v2d_context env v = Some (None, v4)" using False c(1) s(1,2) u(1) by (simp add: v2d_context_def Let_def)
      then show ?thesis using goes_trans [OF g3 u(2)] u(3) by blast
    next
      case False
      then have "v2d_context env v = Some (None, v2)" using c(1) by (simp add: v2d_context_def Let_def)
      then show ?thesis using g2 nr2 by blast
    qed
  qed
qed

text \<open>The parts of the pipeline.\<close>

definition shaders_made :: "v2d \<Rightarrow> bool" where
  "shaders_made v \<longleftrightarrow> v_shaders_ok v \<and> v_vs v = V2D_HANDLE_VS \<and> v_fs v = V2D_HANDLE_FS \<and> v_fs_tex v = V2D_HANDLE_FS_TEX"

definition samplers_made :: "v2d \<Rightarrow> bool" where
  "samplers_made v \<longleftrightarrow> v_samplers_ok v \<and> v_sampler v = V2D_HANDLE_SAMPLER \<and> v_sampler_linear v = V2D_HANDLE_SAMPLER_LINEAR"

definition on_screen :: "v2d \<Rightarrow> bool" where
  "on_screen v \<longleftrightarrow> g_resource_id (v_gs v) = d_virgl_2d_resource (v_disp v)"

lemma calm_parts:
  assumes "calm env lk v v'"
  shows "shaders_made v' = shaders_made v" "samplers_made v' = samplers_made v" "on_screen v' = on_screen v" "v_ve v' = v_ve v"
    "v_shaders_ok v' = v_shaders_ok v" "v_blends v' = v_blends v" "v_next_handle v' = v_next_handle v"
    "d_virgl_2d_resource (v_disp v') = d_virgl_2d_resource (v_disp v)" "v_vbuf_res v' = v_vbuf_res v"
proof -
  obtain gs' where g: "v' = on_vgs (\<lambda>_. gs') v" "settled gs' = settled (v_gs v)" using assms by (auto simp: calm_def)
  show "shaders_made v' = shaders_made v" "samplers_made v' = samplers_made v" "v_ve v' = v_ve v" "v_shaders_ok v' = v_shaders_ok v"
    "v_blends v' = v_blends v" "v_next_handle v' = v_next_handle v" "d_virgl_2d_resource (v_disp v') = d_virgl_2d_resource (v_disp v)"
    "v_vbuf_res v' = v_vbuf_res v"
    by (simp_all add: g(1) shaders_made_def samplers_made_def)
  show "on_screen v' = on_screen v" using settled_parts(1) [OF g(2)] by (simp add: on_screen_def g(1) vgs_upd)
qed

lemma scanout_result:
  assumes ok: "v_ok env lk v" and nr: "\<not> d_virgl_2d_ready (v_disp v)"
  shows "\<exists>r v'. v2d_scanout env ctx v = Some (r, v') \<and> goes env lk v v' \<and> \<not> d_virgl_2d_ready (v_disp v') \<and> (r \<noteq> None \<longrightarrow> on_screen v')"
proof -
  obtain res v0 where a: "v_alloc_id v = (res, v0)" by fastforce
  obtain gs0 where s0: "same_transport v v0" "v0 = on_vgs (\<lambda>_. gs0) v" "settled gs0 = settled (v_gs v)"
    using alloc_id_same [OF a] by blast
  define w where "w = (let m = (if d_active_width (v_disp v0) \<noteq> 0 then d_active_width (v_disp v0) else g_fb_width (v_gs v0)) in
     if g_fb_width (v_gs v0) < m then g_fb_width (v_gs v0) else m)"
  define h where "h = (let m = (if d_active_height (v_disp v0) \<noteq> 0 then d_active_height (v_disp v0) else g_fb_height (v_gs v0)) in
     if g_fb_height (v_gs v0) < m then g_fb_height (v_gs v0) else m)"
  let ?v1 = "v0\<lparr>v_res_w := w, v_res_h := h\<rparr>"
  have "same_transport v0 ?v1" by (simp add: same_transport_def screen_view_def ctx_err_def v_ok_def)
  then have g1: "goes env lk v ?v1" using goes_after [OF goes_same [OF s0(1) ok]] by blast
  have nr1: "\<not> d_virgl_2d_ready (v_disp ?v1)" using nr by (simp add: s0(2))
  obtain r1 v2 where c: "scanout_texture env res w h ?v1 = Some (r1, v2)" "calm env lk ?v1 v2" "ctx_err v2 = ctx_err ?v1"
    using in_io_create_3d [OF goes_ok [OF g1]] unfolding scanout_texture_def by blast
  have g2: "goes env lk v v2" using goes_trans [OF g1 calm_goes [OF goes_ok [OF g1] c(2)]] c(3) by simp
  have dma: "unat (g_fb_dma_count (v_gs v2)) \<le> length (g_dma_lists (v_gs v2) (g_fb_mem (v_gs v2)))" using goes_ok [OF g2] by (simp add: v_ok_def)
  obtain r2 v3 where b: "in_io (chip_ResourceAttachBacking env res (g_dma_lists (v_gs v2) (g_fb_mem (v_gs v2))) (g_fb_dma_count (v_gs v2))) v2
      = Some (r2, v3)" "calm env lk v2 v3" "ctx_err v3 = ctx_err v2"
    using in_io_backing [OF goes_ok [OF g2] dma] by blast
  have g3: "goes env lk v v3" using goes_trans [OF g2 calm_goes [OF goes_ok [OF g2] b(2)]] b(3) by simp
  obtain r3 v4 where s: "in_gs (chip_SetScanout env 0 res 0 0 w h) v3 = Some (r3, v4)" "calm env lk v3 v4" "ctx_err v4 = ctx_err v3"
    using set_scanout_calm [OF goes_ok [OF g3]] by blast
  have g4: "goes env lk v v4" using goes_trans [OF g3 calm_goes [OF goes_ok [OF g3] s(2)]] s(3) by simp
  let ?v5 = "on_vdisp (\<lambda>d. d\<lparr>d_virgl_2d_resource := res, d_gs := (d_gs d)\<lparr>g_resource_id := res\<rparr>\<rparr>) v4"
  have "same_transport v4 ?v5" by (simp add: same_transport_def screen_view_def on_vdisp_def ctx_err_def v_ok_def gpu_ok_def)
  then have g5: "goes env lk v ?v5" by (rule goes_after [OF g4])
  obtain r5 v6 where t: "in_io (chip_CTXAttachResource env ctx res) ?v5 = Some (r5, v6)" "calm env lk ?v5 v6" "ctx_err v6 = ctx_err ?v5"
    using in_io_attach [OF goes_ok [OF g5]] by blast
  have g6: "goes env lk v v6" using goes_trans [OF g5 calm_goes [OF goes_ok [OF g5] t(2)]] t(3) by simp
  have nr': "\<not> d_virgl_2d_ready (v_disp v2)" "\<not> d_virgl_2d_ready (v_disp v3)" "\<not> d_virgl_2d_ready (v_disp v4)" "\<not> d_virgl_2d_ready (v_disp v6)"
    using nr1 calm_ready [OF c(2)] calm_ready [OF b(2)] calm_ready [OF s(2)] calm_ready [OF t(2)] by (simp_all add: on_vdisp_def)
  have scr: "on_screen v6" using calm_parts(3) [OF t(2)] by (simp add: on_screen_def on_vdisp_def)
  have fail: "\<exists>v'. give_up env ctx x = Some (None :: u32 option, v') \<and> goes env lk v v' \<and> \<not> d_virgl_2d_ready (v_disp v')"
    if "goes env lk v x" "\<not> d_virgl_2d_ready (v_disp x)" for x
    using give_up_result [OF goes_ok [OF that(1)]] goes_trans [OF that(1)] that(2) by metis
  have run: "v2d_scanout env ctx v = (if \<not> r1 then give_up env ctx v2 else if \<not> r2 then give_up env ctx v3
     else if \<not> r3 then give_up env ctx v4 else Some (Some res, v6))"
    using a c(1) b(1) s(1) t(1) unfolding w_def h_def by (simp add: v2d_scanout_def Let_def)
  show ?thesis unfolding run using fail [OF g2 nr'(1)] fail [OF g3 nr'(2)] fail [OF g4 nr'(3)] g6 nr'(4) scr by auto
qed

lemma second_result:
  assumes ok: "v_ok env lk v" and nr: "\<not> d_virgl_2d_ready (v_disp v)"
  shows "\<exists>v'. v2d_second env ctx v = Some v' \<and> goes env lk v v' \<and> \<not> d_virgl_2d_ready (v_disp v') \<and> on_screen v' = on_screen v"
proof -
  let ?v1 = "on_vdisp (\<lambda>d. d\<lparr>d_virgl_2d_resource2 := 0\<rparr>) v"
  have s1: "same_transport v ?v1" by (simp add: same_transport_def screen_view_def on_vdisp_def ctx_err_def v_ok_def)
  have g1: "goes env lk v ?v1" by (rule goes_same [OF s1 ok])
  have k1: "\<not> d_virgl_2d_ready (v_disp ?v1)" "on_screen ?v1 = on_screen v" using nr by (simp_all add: on_vdisp_def on_screen_def)
  show ?thesis
  proof (cases "d_double_buffer (v_disp ?v1) \<and> d_fb_mem2 (v_disp ?v1) \<noteq> 0")
    case False
    then have "v2d_second env ctx v = Some ?v1" by (auto simp: v2d_second_def Let_def)
    then show ?thesis using g1 k1 by blast
  next
    case db: True
    obtain res v0 where a: "v_alloc_id ?v1 = (res, v0)" by fastforce
    obtain gs0 where s0: "same_transport ?v1 v0" "v0 = on_vgs (\<lambda>_. gs0) ?v1" "settled gs0 = settled (v_gs ?v1)"
      using alloc_id_same [OF a] by blast
    have g0: "goes env lk v v0" by (rule goes_after [OF g1 s0(1)])
    have k0: "\<not> d_virgl_2d_ready (v_disp v0)" "on_screen v0 = on_screen v"
      using k1 settled_parts(1) [OF s0(3)] by (simp_all add: s0(2) on_screen_def vgs_upd)
    obtain r1 v2 where c: "scanout_texture env res (v_res_w v0) (v_res_h v0) v0 = Some (r1, v2)" "calm env lk v0 v2" "ctx_err v2 = ctx_err v0"
      using in_io_create_3d [OF goes_ok [OF g0]] unfolding scanout_texture_def by blast
    have g2: "goes env lk v v2" using goes_trans [OF g0 calm_goes [OF goes_ok [OF g0] c(2)]] c(3) by simp
    have k2: "\<not> d_virgl_2d_ready (v_disp v2)" "on_screen v2 = on_screen v" using k0 calm_ready [OF c(2)] calm_parts(3) [OF c(2)] by simp_all
    have dma: "unat (d_fb_dma_count2 (v_disp v2)) \<le> length (g_dma_lists (v_gs v2) (d_fb_mem2 (v_disp v2)))" using goes_ok [OF g2] by (simp add: v_ok_def)
    obtain r2 v3 where b: "in_io (chip_ResourceAttachBacking env res (g_dma_lists (v_gs v2) (d_fb_mem2 (v_disp v2))) (d_fb_dma_count2 (v_disp v2))) v2
        = Some (r2, v3)" "calm env lk v2 v3" "ctx_err v3 = ctx_err v2"
      using in_io_backing [OF goes_ok [OF g2] dma] by blast
    have g3: "goes env lk v v3" using goes_trans [OF g2 calm_goes [OF goes_ok [OF g2] b(2)]] b(3) by simp
    have k3: "\<not> d_virgl_2d_ready (v_disp v3)" "on_screen v3 = on_screen v" using k2 calm_ready [OF b(2)] calm_parts(3) [OF b(2)] by simp_all
    obtain r4 v4 where t: "in_io (chip_CTXAttachResource env ctx res) v3 = Some (r4, v4)" "calm env lk v3 v4" "ctx_err v4 = ctx_err v3"
      using in_io_attach [OF goes_ok [OF g3]] by blast
    have g4: "goes env lk v v4" using goes_trans [OF g3 calm_goes [OF goes_ok [OF g3] t(2)]] t(3) by simp
    have k4: "\<not> d_virgl_2d_ready (v_disp v4)" "on_screen v4 = on_screen v" using k3 calm_ready [OF t(2)] calm_parts(3) [OF t(2)] by simp_all
    let ?keep = "\<lambda>x. on_vdisp (\<lambda>d. d\<lparr>d_virgl_2d_resource2 := res\<rparr>) x" and ?drop = "\<lambda>x. on_vdisp (\<lambda>d. d\<lparr>d_double_buffer := False\<rparr>) x"
    have upd: "same_transport x (?keep x)" "same_transport x (?drop x)" for x
      by (simp_all add: same_transport_def screen_view_def on_vdisp_def ctx_err_def v_ok_def)
    have k: "d_virgl_2d_ready (v_disp (?keep x)) = d_virgl_2d_ready (v_disp x)" "on_screen (?keep x) = on_screen x"
      "d_virgl_2d_ready (v_disp (?drop x)) = d_virgl_2d_ready (v_disp x)" "on_screen (?drop x) = on_screen x" for x
      by (simp_all add: on_vdisp_def on_screen_def)
    have run: "v2d_second env ctx v = Some (if r1 \<and> r2 then ?keep v4 else if r1 then ?drop v3 else ?drop v2)"
      using db a c(1) b(1) t(1) by (simp add: v2d_second_def Let_def)
    show ?thesis unfolding run using goes_after [OF g4 upd(1)] goes_after [OF g3 upd(2)] goes_after [OF g2 upd(2)] k k2 k3 k4 by simp
  qed
qed

lemma pipeline_words: "submits 512 (\<lambda>cb. do {
        cb \<leftarrow> virgl_setup_default_blend V2D_HANDLE_BLEND cb;
        cb \<leftarrow> virgl_setup_alpha_blend V2D_HANDLE_BLEND_ALPHA cb;
        cb \<leftarrow> virgl_setup_default_dsa V2D_HANDLE_DSA cb;
        virgl_cmd_create_rasterizer V2D_HANDLE_RAST v2d_rast_s0 F_1 0 0 F_1 F_0 F_0 F_0 cb })"
  unfolding virgl_setup_default_blend_def virgl_setup_alpha_blend_def virgl_setup_default_dsa_def
  by (rule submitsI [OF stream_bind [OF stream_one [OF encodes_create_blend] stream_bind [OF stream_one [OF encodes_create_blend]
      stream_bind [OF stream_one [OF encodes_create_dsa] stream_one [OF encodes_rasterizer]]]]]) simp_all

lemma pipeline_result:
  assumes ok: "v_ok env lk v" and nr: "\<not> d_virgl_2d_ready (v_disp v)"
  shows "\<exists>r v'. v2d_pipeline env ctx v = Some (r, v') \<and> goes env lk v v' \<and> \<not> d_virgl_2d_ready (v_disp v') \<and> on_screen v' = on_screen v"
proof -
  let ?v1 = "v\<lparr>v_blend := V2D_HANDLE_BLEND, v_blend_alpha := V2D_HANDLE_BLEND_ALPHA, v_dsa := V2D_HANDLE_DSA, v_rast := V2D_HANDLE_RAST\<rparr>"
  have "same_transport v ?v1" by (simp add: same_transport_def screen_view_def ctx_err_def v_ok_def)
  then have g1: "goes env lk v ?v1" by (rule goes_same [OF _ ok])
  obtain cb r cb' v2 where s: "filled_cmd 512 (\<lambda>cb. do {
        cb \<leftarrow> virgl_setup_default_blend V2D_HANDLE_BLEND cb;
        cb \<leftarrow> virgl_setup_alpha_blend V2D_HANDLE_BLEND_ALPHA cb;
        cb \<leftarrow> virgl_setup_default_dsa V2D_HANDLE_DSA cb;
        virgl_cmd_create_rasterizer V2D_HANDLE_RAST v2d_rast_s0 F_1 0 0 F_1 F_0 F_0 F_0 cb }) = Some cb"
    "v_submit env ctx cb ?v1 = Some (r, cb', v2)" "calm env lk ?v1 v2" "goes env lk ?v1 v2"
    using submit_result [OF goes_ok [OF g1] pipeline_words, of ctx] by blast
  have g2: "goes env lk v v2" by (rule goes_trans [OF g1 s(4)])
  have k2: "\<not> d_virgl_2d_ready (v_disp v2)" "on_screen v2 = on_screen v"
    using nr calm_ready [OF s(3)] calm_parts(3) [OF s(3)] by (simp_all add: on_screen_def)
  obtain v3 where d: "v_CTXDestroy env ctx v2 = Some v3" "calm env lk v2 v3" "ctx_err v3 = ctx_err v2"
    using destroy_calm [OF goes_ok [OF g2]] by blast
  have g3: "goes env lk v v3" using goes_trans [OF g2 calm_goes [OF goes_ok [OF g2] d(2)]] d(3) by simp
  have k3: "\<not> d_virgl_2d_ready (v_disp v3)" "on_screen v3 = on_screen v" using k2 calm_ready [OF d(2)] calm_parts(3) [OF d(2)] by simp_all
  have run: "v2d_pipeline env ctx v = Some (if \<not> r then (False, v3) else (True, v2))"
    using s(1,2) d(1) by (simp add: v2d_pipeline_def Let_def)
  show ?thesis unfolding run using g2 g3 k2 k3 by (cases r) auto
qed

text \<open>Steps that leave the flag and the scanout alone.\<close>

definition keeps :: "env \<Rightarrow> nat \<Rightarrow> v2d \<Rightarrow> v2d \<Rightarrow> bool" where
  "keeps env lk v v' \<longleftrightarrow> goes env lk v v' \<and> d_virgl_2d_ready (v_disp v') = d_virgl_2d_ready (v_disp v) \<and> on_screen v' = on_screen v"

definition own_fields :: "v2d \<Rightarrow> v2d \<Rightarrow> bool" where
  "own_fields v v' \<longleftrightarrow> v_disp v' = v_disp v \<and> length (v_blends v') = length (v_blends v)"

lemma own_same: "own_fields v v' \<Longrightarrow> same_transport v v'"
  by (simp add: own_fields_def same_transport_def ctx_err_def v_ok_def)

lemma keeps_own: "own_fields v v' \<Longrightarrow> v_ok env lk v \<Longrightarrow> keeps env lk v v'"
  using goes_same [OF own_same] by (simp add: keeps_def own_fields_def on_screen_def)

lemma keeps_trans: "keeps env lk a b \<Longrightarrow> keeps env lk b c \<Longrightarrow> keeps env lk a c"
  unfolding keeps_def using goes_trans by blast

lemma keeps_ok: "keeps env lk a b \<Longrightarrow> v_ok env lk b"
  by (simp add: keeps_def goes_def)

lemma keeps_err: "keeps env lk a b \<Longrightarrow> ctx_err a \<Longrightarrow> ctx_err b"
  by (simp add: keeps_def goes_def)

lemma keeps_after: "keeps env lk a b \<Longrightarrow> own_fields b c \<Longrightarrow> keeps env lk a c"
  using keeps_trans keeps_own keeps_ok by blast

lemma own_err: "own_fields a b \<Longrightarrow> ctx_err b = ctx_err a"
  by (simp add: own_fields_def ctx_err_def)

lemma calm_keeps: "v_ok env lk v \<Longrightarrow> calm env lk v v' \<Longrightarrow> (ctx_err v \<longrightarrow> ctx_err v') \<Longrightarrow> keeps env lk v v'"
  unfolding keeps_def using calm_goes calm_ready calm_parts(3) by blast

lemma submit_keeps:
  assumes "v_ok env lk v" "submits n f"
  shows "\<exists>cb r cb' v'. filled_cmd n f = Some cb \<and> v_submit env ctx cb v = Some (r, cb', v') \<and> calm env lk v v'
     \<and> keeps env lk v v' \<and> ctx_err v' = (ctx_err v \<or> \<not> r) \<and> (ctx_err v \<longrightarrow> \<not> r)"
proof -
  obtain cb r cb' v' where s: "filled_cmd n f = Some cb" "v_submit env ctx cb v = Some (r, cb', v')" "calm env lk v v'"
    "ctx_err v' = (ctx_err v \<or> \<not> r)" "ctx_err v \<longrightarrow> \<not> r" using submit_result [OF assms, of ctx] by blast
  have "ctx_err v \<longrightarrow> ctx_err v'" using s(4) by simp
  then show ?thesis using s calm_keeps [OF assms(1) s(3)] by blast
qed

text \<open>A shader that is made, or an error that stays.\<close>

lemma shader_result:
  assumes ok: "v_ok env lk v" and w: "submits 512 setup" and keep: "\<And>x. own_fields x (keep x)" and on: "ctx_err v \<or> v_shaders_ok v"
    and flag: "\<And>x. v_shaders_ok (keep x) = v_shaders_ok x"
  shows "\<exists>v'. v2d_shader env ctx setup keep v = Some v' \<and> keeps env lk v v' \<and> (ctx_err v' \<or> v_shaders_ok v')
     \<and> (ctx_err v' \<or> (\<exists>x. calm env lk v x \<and> v' = keep x))"
proof (cases "v_shaders_ok v")
  case False
  then have "v2d_shader env ctx setup keep v = Some v" "ctx_err v" using on by (simp_all add: v2d_shader_def)
  moreover have "keeps env lk v v" by (rule keeps_own [OF _ ok]) (simp add: own_fields_def)
  ultimately show ?thesis by blast
next
  case True
  obtain cb r cb' x where s: "filled_cmd 512 setup = Some cb" "v_submit env ctx cb v = Some (r, cb', x)" "calm env lk v x"
    "keeps env lk v x" "ctx_err x = (ctx_err v \<or> \<not> r)" using submit_keeps [OF ok w, of ctx] by blast
  let ?off = "x\<lparr>v_shaders_ok := False\<rparr>"
  have st: "own_fields x ?off" by (simp add: own_fields_def)
  show ?thesis
  proof (cases r)
    case made: True
    have run: "v2d_shader env ctx setup keep v = Some (keep x)" using True made s(1,2) by (simp add: v2d_shader_def)
    have "v_shaders_ok (keep x)" using flag calm_parts(5) [OF s(3)] True by simp
    then show ?thesis using run keeps_after [OF s(4) keep] s(3) by blast
  next
    case failed: False
    have run: "v2d_shader env ctx setup keep v = Some ?off" using True failed s(1,2) by (simp add: v2d_shader_def)
    have "ctx_err ?off" using own_err [OF st] s(5) failed by simp
    then show ?thesis using run keeps_after [OF s(4) st] by blast
  qed
qed

lemma shader_words: "submits 512 (virgl_setup_passthrough_vs V2D_HANDLE_VS)" "submits 512 (virgl_setup_color_fs V2D_HANDLE_FS)"
  "submits 512 (virgl_setup_texture_fs V2D_HANDLE_FS_TEX)"
proof -
  have one: "submits 512 (virgl_cmd_create_shader h ty (s @ [0]))" if "0 \<notin> set s" "length s < 1000" for h ty s
    by (rule submitsI [OF stream_one [OF encodes_shader]]) (use that in \<open>simp_all add: length_pack4\<close>)
  have t: "0 \<notin> set (butlast t) \<and> length (butlast t) < 1000 \<and> t = butlast t @ [0]"
    if "t \<in> {tgsi_vs_passthrough, tgsi_fs_color, tgsi_fs_texture}" for t
    using that by (auto simp: tgsi_vs_passthrough_def tgsi_fs_color_def tgsi_fs_texture_def tgsi_lines_def)
  show "submits 512 (virgl_setup_passthrough_vs V2D_HANDLE_VS)" "submits 512 (virgl_setup_color_fs V2D_HANDLE_FS)"
    "submits 512 (virgl_setup_texture_fs V2D_HANDLE_FS_TEX)"
    unfolding virgl_setup_passthrough_vs_def virgl_setup_color_fs_def virgl_setup_texture_fs_def
    using one t by (metis insertCI)+
qed

lemma calm_shaders: "calm env lk v v' \<Longrightarrow> v_vs v' = v_vs v \<and> v_fs v' = v_fs v \<and> v_fs_tex v' = v_fs_tex v"
  by (auto simp: calm_def)

lemma shaders_result:
  assumes ok: "v_ok env lk v"
  shows "\<exists>v'. v2d_shaders env ctx v = Some v' \<and> keeps env lk v v' \<and> (ctx_err v' \<or> shaders_made v')"
proof -
  let ?v0 = "v\<lparr>v_shaders_ok := True\<rparr>"
  let ?k1 = "\<lambda>v. v\<lparr>v_vs := V2D_HANDLE_VS\<rparr>" and ?k2 = "\<lambda>v. v\<lparr>v_fs := V2D_HANDLE_FS\<rparr>" and ?k3 = "\<lambda>v. v\<lparr>v_fs_tex := V2D_HANDLE_FS_TEX\<rparr>"
  have own: "own_fields x (?k1 x)" "own_fields x (?k2 x)" "own_fields x (?k3 x)" "own_fields v ?v0"
    "own_fields x (x\<lparr>v_vs := 0, v_fs := 0, v_fs_tex := 0\<rparr>)" for x :: v2d by (simp_all add: own_fields_def)
  have g0: "keeps env lk v ?v0" by (rule keeps_own [OF own(4) ok])
  have on0: "ctx_err ?v0 \<or> v_shaders_ok ?v0" by simp
  obtain v1 where 1: "v2d_shader env ctx (virgl_setup_passthrough_vs V2D_HANDLE_VS) ?k1 ?v0 = Some v1"
    "keeps env lk ?v0 v1" "ctx_err v1 \<or> v_shaders_ok v1" "ctx_err v1 \<or> (\<exists>x. calm env lk ?v0 x \<and> v1 = ?k1 x)"
    using shader_result [where keep = ?k1 and ctx = ctx, OF keeps_ok [OF g0] shader_words(1) own(1) on0] by auto
  obtain v2 where 2: "v2d_shader env ctx (virgl_setup_color_fs V2D_HANDLE_FS) ?k2 v1 = Some v2"
    "keeps env lk v1 v2" "ctx_err v2 \<or> v_shaders_ok v2" "ctx_err v2 \<or> (\<exists>x. calm env lk v1 x \<and> v2 = ?k2 x)"
    using shader_result [where keep = ?k2 and ctx = ctx, OF keeps_ok [OF 1(2)] shader_words(2) own(2) 1(3)] by auto
  obtain v3 where 3: "v2d_shader env ctx (virgl_setup_texture_fs V2D_HANDLE_FS_TEX) ?k3 v2 = Some v3"
    "keeps env lk v2 v3" "ctx_err v3 \<or> v_shaders_ok v3" "ctx_err v3 \<or> (\<exists>x. calm env lk v2 x \<and> v3 = ?k3 x)"
    using shader_result [where keep = ?k3 and ctx = ctx, OF keeps_ok [OF 2(2)] shader_words(3) own(3) 2(3)] by auto
  have g3: "keeps env lk v v3" by (rule keeps_trans [OF keeps_trans [OF keeps_trans [OF g0 1(2)] 2(2)] 3(2)])
  have made: "ctx_err v3 \<or> shaders_made v3"
  proof (cases "ctx_err v3")
    case False
    then have e: "\<not> ctx_err v2" "\<not> ctx_err v1" using keeps_err [OF 2(2)] keeps_err [OF 3(2)] by blast+
    obtain x1 x2 x3 where x: "v1 = ?k1 x1" "calm env lk v1 x2" "v2 = ?k2 x2" "calm env lk v2 x3" "v3 = ?k3 x3"
      using 1(4) 2(4) 3(4) e False by blast
    have "v_vs v3 = V2D_HANDLE_VS" "v_fs v3 = V2D_HANDLE_FS" "v_fs_tex v3 = V2D_HANDLE_FS_TEX"
      using calm_shaders [OF x(2)] calm_shaders [OF x(4)] unfolding x(5) by (simp_all add: x(1,3))
    then show ?thesis using 3(3) False by (simp add: shaders_made_def)
  qed simp
  let ?v4 = "if \<not> v_shaders_ok v3 then v3\<lparr>v_vs := 0, v_fs := 0, v_fs_tex := 0\<rparr> else v3"
  have run: "v2d_shaders env ctx v = Some ?v4" using 1(1) 2(1) 3(1) by (simp add: v2d_shaders_def)
  show ?thesis
  proof (cases "v_shaders_ok v3")
    case True
    then show ?thesis using run g3 made by simp
  next
    case False
    then have "ctx_err v3" using 3(3) by simp
    then have "ctx_err (v3\<lparr>v_vs := 0, v_fs := 0, v_fs_tex := 0\<rparr>)" using own_err [OF own(5)] by blast
    then show ?thesis using run False keeps_after [OF g3 own(5)] by auto
  qed
qed

text \<open>Samplers, vertex layout and vertex buffer.\<close>

lemma sampler_words: "submits 512 (\<lambda>cb. do {
          cb \<leftarrow> virgl_cmd_create_sampler_state V2D_HANDLE_SAMPLER (SAMPLER_S0 2 2 2 0 2 0) F_0 F_0 F_0 F_0 F_0 F_0 F_0 cb;
          virgl_cmd_create_sampler_state V2D_HANDLE_SAMPLER_LINEAR (SAMPLER_S0 2 2 2 1 2 1) F_0 F_0 F_0 F_0 F_0 F_0 F_0 cb })"
  by (rule submitsI [OF stream_bind [OF stream_one [OF encodes_sampler_state] stream_one [OF encodes_sampler_state]]]) simp_all

lemma samplers_result:
  assumes ok: "v_ok env lk v" and on: "ctx_err v \<or> shaders_made v"
  shows "\<exists>v'. v2d_samplers env ctx v = Some v' \<and> keeps env lk v v' \<and> (ctx_err v' \<or> shaders_made v' \<and> samplers_made v')"
proof (cases "v_shaders_ok v")
  case False
  let ?v' = "v\<lparr>v_samplers_ok := False, v_sampler := 0, v_sampler_linear := 0\<rparr>"
  have own: "own_fields v ?v'" by (simp add: own_fields_def)
  have "ctx_err ?v'" using on False own_err [OF own] by (auto simp: shaders_made_def)
  then show ?thesis using False keeps_own [OF own ok] by (simp add: v2d_samplers_def)
next
  case True
  let ?v1 = "v\<lparr>v_sampler := V2D_HANDLE_SAMPLER, v_sampler_linear := V2D_HANDLE_SAMPLER_LINEAR\<rparr>"
  have own1: "own_fields v ?v1" by (simp add: own_fields_def)
  have g1: "keeps env lk v ?v1" by (rule keeps_own [OF own1 ok])
  obtain cb r cb' x where s: "filled_cmd 512 (\<lambda>cb. do {
          cb \<leftarrow> virgl_cmd_create_sampler_state V2D_HANDLE_SAMPLER (SAMPLER_S0 2 2 2 0 2 0) F_0 F_0 F_0 F_0 F_0 F_0 F_0 cb;
          virgl_cmd_create_sampler_state V2D_HANDLE_SAMPLER_LINEAR (SAMPLER_S0 2 2 2 1 2 1) F_0 F_0 F_0 F_0 F_0 F_0 F_0 cb }) = Some cb"
    "v_submit env ctx cb ?v1 = Some (r, cb', x)" "calm env lk ?v1 x" "keeps env lk ?v1 x" "ctx_err x = (ctx_err ?v1 \<or> \<not> r)"
    using submit_keeps [OF keeps_ok [OF g1] sampler_words, of ctx] by blast
  have g2: "keeps env lk v x" by (rule keeps_trans [OF g1 s(4)])
  let ?off = "x\<lparr>v_samplers_ok := False, v_sampler := 0, v_sampler_linear := 0\<rparr>" and ?on = "x\<lparr>v_samplers_ok := True\<rparr>"
  have own: "own_fields x ?off" "own_fields x ?on" by (simp_all add: own_fields_def)
  have run: "v2d_samplers env ctx v = Some (if \<not> r then ?off else ?on)" using True s(1,2) by (simp add: v2d_samplers_def Let_def)
  have h: "v_sampler x = V2D_HANDLE_SAMPLER" "v_sampler_linear x = V2D_HANDLE_SAMPLER_LINEAR" "shaders_made x = shaders_made v"
    using s(3) calm_parts(1) [OF s(3)] by (auto simp: calm_def shaders_made_def)
  show ?thesis
  proof (cases r)
    case True
    have "ctx_err ?on \<or> shaders_made ?on \<and> samplers_made ?on"
      using on h s(5) own_err [OF own(2)] own_err [OF own1] by (auto simp: shaders_made_def samplers_made_def)
    then show ?thesis using run True keeps_after [OF g2 own(2)] by auto
  next
    case False
    then have "ctx_err ?off" using s(5) own_err [OF own(1)] by simp
    then show ?thesis using run False keeps_after [OF g2 own(1)] by auto
  qed
qed

lemma calm_made: "calm env lk v v' \<Longrightarrow> shaders_made v' = shaders_made v \<and> samplers_made v' = samplers_made v \<and> v_ve v' = v_ve v"
  using calm_parts(1,2,4) by blast

lemma layout_words: "submits 512 (virgl_cmd_create_vertex_elements V2D_HANDLE_VE 2 v2d_elements)"
  by (rule submitsI [OF stream_one [OF encodes_vertex_elements]]) (simp_all add: v2d_elements_def take_Cons')

definition pipeline_made :: "v2d \<Rightarrow> bool" where
  "pipeline_made v \<longleftrightarrow> shaders_made v \<and> samplers_made v \<and> v_ve v = V2D_HANDLE_VE"

lemma calm_pipeline: "calm env lk v v' \<Longrightarrow> pipeline_made v' = pipeline_made v"
  using calm_made by (simp add: pipeline_made_def)

lemma layout_result:
  assumes ok: "v_ok env lk v" and on: "ctx_err v \<or> shaders_made v \<and> samplers_made v"
  shows "\<exists>v'. v2d_vertex_layout env ctx v = Some v' \<and> keeps env lk v v' \<and> (ctx_err v' \<or> pipeline_made v')"
proof (cases "v_shaders_ok v")
  case False
  then have "v2d_vertex_layout env ctx v = Some v" "ctx_err v" using on by (auto simp: v2d_vertex_layout_def shaders_made_def)
  moreover have "keeps env lk v v" by (rule keeps_own [OF _ ok]) (simp add: own_fields_def)
  ultimately show ?thesis by blast
next
  case True
  obtain cb r cb' x where s: "filled_cmd 512 (virgl_cmd_create_vertex_elements V2D_HANDLE_VE 2 v2d_elements) = Some cb"
    "v_submit env ctx cb v = Some (r, cb', x)" "calm env lk v x" "keeps env lk v x" "ctx_err x = (ctx_err v \<or> \<not> r)"
    using submit_keeps [OF ok layout_words, of ctx] by blast
  let ?v' = "x\<lparr>v_ve := (if \<not> r then 0 else V2D_HANDLE_VE)\<rparr>"
  have own: "own_fields x ?v'" by (simp add: own_fields_def)
  have run: "v2d_vertex_layout env ctx v = Some ?v'" using True s(1,2) by (simp add: v2d_vertex_layout_def)
  have "ctx_err ?v' \<or> pipeline_made ?v'"
    using own_err [OF own] s(5) on calm_made [OF s(3)] by (cases r) (auto simp: pipeline_made_def shaders_made_def samplers_made_def)
  then show ?thesis using run keeps_after [OF s(4) own] by blast
qed

lemma vertex_buffer_result:
  assumes ok: "v_ok env lk v"
  shows "\<exists>v'. v2d_vertex_buffer env ctx v = Some v' \<and> keeps env lk v v' \<and> ctx_err v' = ctx_err v \<and> pipeline_made v' = pipeline_made v"
proof (cases "v_shaders_ok v \<and> v_ve v \<noteq> 0")
  case False
  then have "v2d_vertex_buffer env ctx v = Some v" by (auto simp: v2d_vertex_buffer_def)
  moreover have "keeps env lk v v" by (rule keeps_own [OF _ ok]) (simp add: own_fields_def)
  ultimately show ?thesis by blast
next
  case True
  obtain res v0 where a: "v_alloc_id v = (res, v0)" by fastforce
  obtain gs0 where s0: "same_transport v v0" "v0 = on_vgs (\<lambda>_. gs0) v" "settled gs0 = settled (v_gs v)"
    using alloc_id_same [OF a] by blast
  have g0: "keeps env lk v v0" using goes_same [OF s0(1) ok] settled_parts(1) [OF s0(3)]
    by (simp add: keeps_def s0(2) on_screen_def vgs_upd)
  have p0: "pipeline_made v0 = pipeline_made v" "ctx_err v0 = ctx_err v" using s0(1)
    by (simp_all add: s0(2) pipeline_made_def shaders_made_def samplers_made_def same_transport_def)
  obtain r1 v1 where c: "in_io (chip_ResourceCreate3D env res PIPE_BUFFER PIPE_R8_UNORM PIPE_BIND_VERTEX_BUFFER V2D_VBUF_SIZE 1 1 1 0 0 0) v0 = Some (r1, v1)"
    "calm env lk v0 v1" "ctx_err v1 = ctx_err v0"
    using in_io_create_3d [OF keeps_ok [OF g0]] by blast
  have g1: "keeps env lk v v1" using keeps_trans [OF g0 calm_keeps [OF keeps_ok [OF g0] c(2)]] c(3) by simp
  obtain r2 v2 where t: "in_io (chip_CTXAttachResource env ctx res) v1 = Some (r2, v2)" "calm env lk v1 v2" "ctx_err v2 = ctx_err v1"
    using in_io_attach [OF keeps_ok [OF g1]] by blast
  have g2: "keeps env lk v v2" using keeps_trans [OF g1 calm_keeps [OF keeps_ok [OF g1] t(2)]] t(3) by simp
  have own: "own_fields x (x\<lparr>v_vbuf_res := i\<rparr>)" "pipeline_made (x\<lparr>v_vbuf_res := i\<rparr>) = pipeline_made x" for x i
    by (simp_all add: own_fields_def pipeline_made_def shaders_made_def samplers_made_def)
  have run: "v2d_vertex_buffer env ctx v = Some (if \<not> r1 then v1\<lparr>v_vbuf_res := 0\<rparr> else v2\<lparr>v_vbuf_res := res\<rparr>)"
    using True a c(1) t(1) by (simp add: v2d_vertex_buffer_def)
  have p: "pipeline_made v1 = pipeline_made v" "pipeline_made v2 = pipeline_made v" "ctx_err v1 = ctx_err v" "ctx_err v2 = ctx_err v"
    using calm_pipeline [OF c(2)] calm_pipeline [OF t(2)] p0 c(3) t(3) by simp_all
  show ?thesis
  proof (cases r1)
    case False
    have "ctx_err (v1\<lparr>v_vbuf_res := 0\<rparr>) = ctx_err v" using own_err [OF own(1) [of v1]] p by simp
    then show ?thesis using run False keeps_after [OF g1 own(1)] p own(2) by auto
  next
    case True
    have "ctx_err (v2\<lparr>v_vbuf_res := res\<rparr>) = ctx_err v" using own_err [OF own(1) [of v2]] p by simp
    then show ?thesis using run True keeps_after [OF g2 own(1)] p own(2) by auto
  qed
qed

text \<open>The bindings: a submission that goes through means that no earlier one was refused.\<close>

lemma surface_stream: "\<exists>cs. stream (surface_words res v) cs \<and> cs \<noteq> [] \<and> sum_list (map vcmd_size cs) \<le> 64 \<and> filter is_shader cs = []"
proof -
  have bd: "stream (virgl_cmd_bind_object ty h) [VCmd CCMD_BIND_OBJECT ty [h]]" if "take_bit 8 ty = ty" for ty h
    by (rule stream_one [OF encodes_bind_destroy(1)]) (use that in simp)
  show ?thesis
    unfolding surface_words_def Let_def
    by (rule exI, intro conjI, (rule bd stream_one [OF encodes_create_surface] stream_one [OF encodes_bind_shader]
        stream_one [OF encodes_arrays(1)] stream_one [OF encodes_set_viewport] stream_one [OF encodes_scissor] stream_if stream_bind | (simp; fail))+)
qed

lemma bind_words: "submits 512 (surface_words res v)"
  using surface_stream [of res v] unfolding submits_def by force

lemma bind_result:
  assumes ok: "v_ok env lk v" and on: "ctx_err v \<or> pipeline_made v"
  shows "\<exists>r v'. v2d_bind env ctx res v = Some (r, v') \<and> keeps env lk v v' \<and> (r \<longrightarrow> \<not> ctx_err v' \<and> pipeline_made v')"
proof -
  let ?v1 = "v\<lparr>v_surface := V2D_HANDLE_SURFACE\<rparr>"
  have own: "own_fields v ?v1" by (simp add: own_fields_def)
  have g1: "keeps env lk v ?v1" by (rule keeps_own [OF own ok])
  obtain cb r cb' x where s: "filled_cmd 512 (surface_words res v) = Some cb"
    "v_submit env ctx cb ?v1 = Some (r, cb', x)" "calm env lk ?v1 x" "keeps env lk ?v1 x" "ctx_err x = (ctx_err ?v1 \<or> \<not> r)"
    "ctx_err ?v1 \<longrightarrow> \<not> r"
    using submit_keeps [where ctx = ctx, OF keeps_ok [OF g1] bind_words [of res v]] by blast
  have g2: "keeps env lk v x" by (rule keeps_trans [OF g1 s(4)])
  obtain x' where d: "v_CTXDestroy env ctx x = Some x'" "calm env lk x x'" "ctx_err x' = ctx_err x"
    using destroy_calm [OF keeps_ok [OF g2]] by blast
  have g3: "keeps env lk v x'" using keeps_trans [OF g2 calm_keeps [OF keeps_ok [OF g2] d(2)]] d(3) by simp
  have run: "v2d_bind env ctx res v = Some (if \<not> r then (False, x') else (True, x))" using s(1,2) d(1) by (simp add: v2d_bind_def)
  have p: "pipeline_made x = pipeline_made v" using calm_pipeline [OF s(3)]
    by (simp add: pipeline_made_def shaders_made_def samplers_made_def)
  have e: "ctx_err ?v1 = ctx_err v" by (rule own_err [OF own])
  show ?thesis unfolding run using g2 g3 p e s(5,6) on by (cases r) auto
qed

lemma first_frame_result:
  assumes ok: "v_ok env lk v"
  shows "\<exists>v'. v2d_first_frame env ctx res v = Some v' \<and> keeps env lk v v' \<and> ctx_err v' = ctx_err v \<and> calm env lk v v'"
proof -
  let ?box = "\<lparr>bx_x = 0, bx_y = 0, bx_z = 0, bx_w = v_res_w v, bx_h = v_res_h v, bx_d = 1\<rparr>"
  obtain r1 x where t: "in_io (chip_TransferToHost3D env ctx res 0 (g_fb_stride (v_gs v)) 0 0 ?box) v = Some (r1, x)" "calm env lk v x" "ctx_err x = ctx_err v"
    using in_io_transfer_3d [OF ok] by blast
  have g1: "keeps env lk v x" using calm_keeps [OF ok t(2)] t(3) by simp
  obtain r2 y where f: "in_io (chip_ResourceFlush env res 0 0 (v_res_w x) (v_res_h x)) x = Some (r2, y)" "calm env lk x y" "ctx_err y = ctx_err x"
    using in_io_flush [OF keeps_ok [OF g1]] by blast
  have g2: "keeps env lk v y" using keeps_trans [OF g1 calm_keeps [OF keeps_ok [OF g1] f(2)]] f(3) by simp
  have "v2d_first_frame env ctx res v = Some y" using t(1) f(1) by (simp add: v2d_first_frame_def Let_def)
  then show ?thesis using g2 t(3) f(3) calm_trans [OF t(2) f(2)] by auto
qed

section \<open>The compositing blends\<close>

definition blends_upto :: "nat \<Rightarrow> v2d \<Rightarrow> bool" where
  "blends_upto n v \<longleftrightarrow> v_next_handle v = (if n = 0 then 0 else 200 + of_nat n) \<and> take n (v_blends v) = map (\<lambda>k. 200 + of_nat k) [0..<n]"

lemma blend_words: "submits 16 (virgl_cmd_create_blend h s0 rt0)"
  by (rule submitsI [OF stream_one [OF encodes_create_blend]]) simp_all

lemma comp_handle_next:
  assumes "v_next_handle v = (if n = 0 then 0 else 200 + of_nat n)" "n < 13"
  shows "comp_alloc_handle v = (200 + of_nat n, v\<lparr>v_next_handle := 200 + of_nat (Suc n)\<rparr>)"
proof -
  have "(200 + of_nat n :: u32) \<noteq> 0"
  proof
    assume z: "(200 + of_nat n :: u32) = 0"
    have "unat (200 + of_nat n :: u32) = 200 + n" using assms(2) by (simp add: unat_word_ariths unat_of_nat)
    then show False using z by simp
  qed
  then show ?thesis using assms by (cases "n = 0") (simp_all add: comp_alloc_handle_def Let_def add.commute)
qed

lemma comp_init_blend_result:
  assumes ok: "v_ok env lk v" and n: "n < 13"
  shows "\<exists>r v'. comp_init_blend env ctx n (b, v) = Some (r, v') \<and> keeps env lk v v' \<and> pipeline_made v' = pipeline_made v
     \<and> (b \<and> blends_upto n v \<longrightarrow> r \<and> blends_upto (Suc n) v' \<or> \<not> r \<and> ctx_err v') \<and> (\<not> b \<longrightarrow> \<not> r)"
proof (cases b)
  case False
  have "keeps env lk v v" by (rule keeps_own [OF _ ok]) (simp add: own_fields_def)
  then show ?thesis using False by (auto simp: comp_init_blend_def)
next
  case True
  obtain h v1 where a: "comp_alloc_handle v = (h, v1)" by fastforce
  then have v1: "v1 = v\<lparr>v_next_handle := h + 1\<rparr>" by (auto simp: comp_alloc_handle_def Let_def)
  have own1: "own_fields v v1" by (simp add: v1 own_fields_def)
  have g1: "keeps env lk v v1" by (rule keeps_own [OF own1 ok])
  obtain sr dr sa da where pd: "rd pd_factors n = Some (sr, dr, sa, da)" using n
    by (cases "pd_factors ! n") (auto simp: rd_def pd_factors_def)
  obtain cb r cb' x where s: "filled_cmd 16 (virgl_cmd_create_blend h 0 (comp_blend_rt sr dr sa da)) = Some cb"
    "v_submit env ctx cb v1 = Some (r, cb', x)" "calm env lk v1 x" "keeps env lk v1 x" "ctx_err x = (ctx_err v1 \<or> \<not> r)"
    using submit_keeps [where ctx = ctx, OF keeps_ok [OF g1] blend_words [of h 0 "comp_blend_rt sr dr sa da"]] by blast
  have g2: "keeps env lk v x" by (rule keeps_trans [OF g1 s(4)])
  have len: "length (v_blends x) = 15" using keeps_ok [OF g2] by (simp add: v_ok_def)
  let ?y = "x\<lparr>v_blends := (v_blends x)[n := h]\<rparr>"
  have w: "wr (v_blends x) n h = Some ((v_blends x)[n := h])" using len n by (simp add: wr_def)
  have run: "comp_init_blend env ctx n (b, v) = Some (if r then (True, ?y) else (False, x))"
    using True a pd s(1,2) w by (simp add: comp_init_blend_def)
  have own2: "own_fields x ?y" by (simp add: own_fields_def)
  have p: "pipeline_made x = pipeline_made v" "pipeline_made ?y = pipeline_made x" using calm_pipeline [OF s(3)]
    by (simp_all add: v1 pipeline_made_def shaders_made_def samplers_made_def)
  show ?thesis
  proof (cases r)
    case False
    then have "ctx_err x" using s(5) by simp
    then show ?thesis using run False g2 p by auto
  next
    case made: True
    have "blends_upto (Suc n) ?y" if up: "blends_upto n v"
    proof -
      have h: "h = 200 + of_nat n" "v1 = v\<lparr>v_next_handle := 200 + of_nat (Suc n)\<rparr>"
        using comp_handle_next [OF _ n, of v] up a by (simp_all add: blends_upto_def)
      have x: "v_blends x = v_blends v" "v_next_handle x = 200 + of_nat (Suc n)"
        using calm_parts(6,7) [OF s(3)] by (simp_all add: h(2))
      have "take (Suc n) ((v_blends v)[n := h]) = take n (v_blends v) @ [h]"
        using len n x(1) by (simp add: take_Suc_conv_app_nth)
      then show ?thesis using up x h(1) by (simp add: blends_upto_def)
    qed
    moreover have "keeps env lk v ?y" by (rule keeps_after [OF g2 own2])
    ultimately show ?thesis unfolding run using made True p by (intro exI [of _ True] exI [of _ ?y]) simp
  qed
qed

lemma comp_blends_fold:
  assumes "v_ok env lk v" "n \<le> 13"
  shows "\<exists>r v'. foldM (comp_init_blend env ctx) [0..<n] (True, v) = Some (r, v') \<and> keeps env lk v v' \<and> pipeline_made v' = pipeline_made v
     \<and> (v_next_handle v = 0 \<longrightarrow> r \<and> blends_upto n v' \<or> \<not> r \<and> ctx_err v')"
  using assms(2)
proof (induction n)
  case 0
  have "keeps env lk v v" by (rule keeps_own [OF _ assms(1)]) (simp add: own_fields_def)
  then show ?case by (auto simp: blends_upto_def)
next
  case (Suc n)
  then obtain r v1 where 1: "foldM (comp_init_blend env ctx) [0..<n] (True, v) = Some (r, v1)" "keeps env lk v v1"
    "pipeline_made v1 = pipeline_made v" "v_next_handle v = 0 \<longrightarrow> r \<and> blends_upto n v1 \<or> \<not> r \<and> ctx_err v1" by auto
  obtain r' v2 where 2: "comp_init_blend env ctx n (r, v1) = Some (r', v2)" "keeps env lk v1 v2" "pipeline_made v2 = pipeline_made v1"
    "r \<and> blends_upto n v1 \<longrightarrow> r' \<and> blends_upto (Suc n) v2 \<or> \<not> r' \<and> ctx_err v2" "\<not> r \<longrightarrow> \<not> r'"
    using comp_init_blend_result [OF keeps_ok [OF 1(2)], of n ctx r] Suc.prems by auto
  have "foldM (comp_init_blend env ctx) [0..<Suc n] (True, v) = Some (r', v2)" using 1(1) 2(1) by (simp add: foldM_append)
  then show ?case using keeps_trans [OF 1(2) 2(2)] 1(3,4) 2(3,4,5) keeps_err [OF 2(2)] by auto
qed

definition blends_made :: "v2d \<Rightarrow> bool" where
  "blends_made v \<longleftrightarrow> v_blends v = map (\<lambda>k. 200 + of_nat k) [0..<13] @ [0, 0]"

lemma blends_result:
  assumes ok: "v_ok env lk v" and rdy: "d_virgl_2d_ready (v_disp v)"
  shows "\<exists>r v'. chip_comp_init_blends env v = Some (r, v') \<and> keeps env lk v v' \<and> pipeline_made v' = pipeline_made v
     \<and> (v_next_handle v = 0 \<longrightarrow> blends_made v' \<or> ctx_err v')"
proof -
  obtain r x where f: "foldM (comp_init_blend env (d_virgl_2d_ctx (v_disp v))) [0..<13] (True, v) = Some (r, x)" "keeps env lk v x"
    "pipeline_made x = pipeline_made v" "v_next_handle v = 0 \<longrightarrow> r \<and> blends_upto 13 x \<or> \<not> r \<and> ctx_err x"
    using comp_blends_fold [OF ok, of 13 "d_virgl_2d_ctx (v_disp v)"] by auto
  have len: "length (v_blends x) = 15" using keeps_ok [OF f(2)] by (simp add: v_ok_def)
  let ?bs = "(v_blends x)[13 := 0, 14 := 0]" and ?y = "x\<lparr>v_blends := (v_blends x)[13 := 0, 14 := 0]\<rparr>"
  have own: "own_fields x ?y" by (simp add: own_fields_def)
  have run: "chip_comp_init_blends env v = Some (r, ?y)" using rdy f(1) len by (simp add: chip_comp_init_blends_def wr_def)
  have bs: "?bs = take 13 (v_blends x) @ [0, 0]"
    using len by (intro nth_equalityI) (auto simp: nth_append nth_list_update less_Suc_eq numeral_eq_Suc)
  have "blends_made ?y" if "blends_upto 13 x" using that by (simp add: blends_made_def blends_upto_def bs)
  moreover have "pipeline_made ?y = pipeline_made x" by (simp add: pipeline_made_def shaders_made_def samplers_made_def)
  ultimately show ?thesis using run keeps_after [OF f(2) own] f(3,4) own_err [OF own] by auto
qed

section \<open>Initialisation and recovery\<close>

text \<open>The context is complete and shown exactly when the call succeeds.\<close>

definition v_complete :: "v2d \<Rightarrow> bool" where
  "v_complete v \<longleftrightarrow> pipeline_made v \<and> on_screen v"

lemma init_tail:
  assumes ok: "v_ok env lk v" and nr: "\<not> d_virgl_2d_ready (v_disp v)" and scr: "on_screen v"
    and def: "t = do {
             v \<leftarrow> v2d_second env ctx_id v;
             (ok, v) \<leftarrow> v2d_pipeline env ctx_id v;
             if \<not> ok then Some (False, v)
             else do {
               v \<leftarrow> v2d_shaders env ctx_id v;
               v \<leftarrow> v2d_samplers env ctx_id v;
               v \<leftarrow> v2d_vertex_layout env ctx_id v;
               v \<leftarrow> v2d_vertex_buffer env ctx_id v;
               (ok, v) \<leftarrow> v2d_bind env ctx_id res_3d v;
               if \<not> ok then Some (False, v)
               else do {
                 v \<leftarrow> v2d_first_frame env ctx_id res_3d v;
                 (_, v) \<leftarrow> chip_comp_init_blends env (on_vdisp (\<lambda>d. d\<lparr>d_virgl_2d_ready := True\<rparr>) v);
                 Some (True, v) } } }"
  shows "\<exists>r v'. t = Some (r, v') \<and> goes env lk v v' \<and> d_virgl_2d_ready (v_disp v') = r \<and> (r \<longrightarrow> v_complete v')"
proof -
  obtain v1 where 1: "v2d_second env ctx_id v = Some v1" "goes env lk v v1" "\<not> d_virgl_2d_ready (v_disp v1)" "on_screen v1"
    using second_result [OF ok nr, of ctx_id] scr by auto
  obtain r2 v2 where 2: "v2d_pipeline env ctx_id v1 = Some (r2, v2)" "goes env lk v1 v2" "\<not> d_virgl_2d_ready (v_disp v2)" "on_screen v2"
    using pipeline_result [OF goes_ok [OF 1(2)] 1(3), of ctx_id] 1(4) by auto
  have g2: "goes env lk v v2" by (rule goes_trans [OF 1(2) 2(2)])
  obtain v3 where 3: "v2d_shaders env ctx_id v2 = Some v3" "keeps env lk v2 v3" "ctx_err v3 \<or> shaders_made v3"
    using shaders_result [OF goes_ok [OF g2], of ctx_id] by blast
  obtain v4 where 4: "v2d_samplers env ctx_id v3 = Some v4" "keeps env lk v3 v4" "ctx_err v4 \<or> shaders_made v4 \<and> samplers_made v4"
    using samplers_result [OF keeps_ok [OF 3(2)] 3(3), of ctx_id] by blast
  obtain v5 where 5: "v2d_vertex_layout env ctx_id v4 = Some v5" "keeps env lk v4 v5" "ctx_err v5 \<or> pipeline_made v5"
    using layout_result [OF keeps_ok [OF 4(2)] 4(3), of ctx_id] by blast
  obtain v6 where 6: "v2d_vertex_buffer env ctx_id v5 = Some v6" "keeps env lk v5 v6" "ctx_err v6 \<or> pipeline_made v6"
    using vertex_buffer_result [OF keeps_ok [OF 5(2)], of ctx_id] 5(3) by metis
  obtain r7 v7 where 7: "v2d_bind env ctx_id res_3d v6 = Some (r7, v7)" "keeps env lk v6 v7" "r7 \<longrightarrow> \<not> ctx_err v7 \<and> pipeline_made v7"
    using bind_result [OF keeps_ok [OF 6(2)] 6(3), of ctx_id res_3d] by blast
  have k7: "keeps env lk v2 v7" by (rule keeps_trans [OF keeps_trans [OF keeps_trans [OF keeps_trans [OF 3(2) 4(2)] 5(2)] 6(2)] 7(2)])
  obtain v8 where 8: "v2d_first_frame env ctx_id res_3d v7 = Some v8" "keeps env lk v7 v8" "calm env lk v7 v8"
    using first_frame_result [OF keeps_ok [OF k7], of ctx_id res_3d] by blast
  have k8: "keeps env lk v2 v8" by (rule keeps_trans [OF k7 8(2)])
  let ?v9 = "on_vdisp (\<lambda>d. d\<lparr>d_virgl_2d_ready := True\<rparr>) v8"
  have st: "same_transport v8 ?v9" by (simp add: same_transport_def screen_view_def on_vdisp_def ctx_err_def v_ok_def)
  have g9: "goes env lk v ?v9" by (rule goes_after [OF goes_trans [OF g2] st]) (use k8 in \<open>simp add: keeps_def\<close>)
  have s9: "d_virgl_2d_ready (v_disp ?v9)" "on_screen ?v9 = on_screen v8" "pipeline_made ?v9 = pipeline_made v8"
    by (simp_all add: on_vdisp_def on_screen_def pipeline_made_def shaders_made_def samplers_made_def)
  obtain r v' where 10: "chip_comp_init_blends env ?v9 = Some (r, v')" "keeps env lk ?v9 v'" "pipeline_made v' = pipeline_made ?v9"
    using blends_result [OF goes_ok [OF g9] s9(1)] by blast
  have g10: "goes env lk v v'" using goes_trans [OF g9] 10(2) by (simp add: keeps_def)
  have g7: "goes env lk v v7" using goes_trans [OF g2] k7 by (simp add: keeps_def)
  have run: "t = Some (if \<not> r2 then (False, v2) else if \<not> r7 then (False, v7) else (True, v'))"
    unfolding def using 1(1) 2(1) 3(1) 4(1) 5(1) 6(1) 7(1) 8(1) 10(1) by simp
  have end7: "\<not> d_virgl_2d_ready (v_disp v7)" using k7 2(3) by (simp add: keeps_def)
  have end8: "d_virgl_2d_ready (v_disp v')" "on_screen v'" using 10(2) s9 k8 2(4) by (simp_all add: keeps_def)
  have "r7 \<longrightarrow> pipeline_made v'" using 7(3) calm_pipeline [OF 8(3)] s9(3) 10(3) by simp
  then show ?thesis unfolding run using g2 g7 g10 2(3) end7 end8 by (cases r2; cases r7) (auto simp: v_complete_def)
qed

lemma init_result:
  assumes ok: "v_ok env lk v"
  shows "\<exists>r v'. chip_virgl_init_2d env v = Some (r, v') \<and> goes env lk v v' \<and> d_virgl_2d_ready (v_disp v') = r \<and> (r \<longrightarrow> v_complete v')"
proof -
  let ?v0 = "on_vdisp (\<lambda>d. d\<lparr>d_virgl_2d_ready := False\<rparr>) v"
  have st: "same_transport v ?v0" by (simp add: same_transport_def screen_view_def on_vdisp_def ctx_err_def v_ok_def)
  have g0: "goes env lk v ?v0" by (rule goes_same [OF st ok])
  have nr0: "\<not> d_virgl_2d_ready (v_disp ?v0)" by (simp add: on_vdisp_def)
  show ?thesis
  proof (cases "\<not> g_has_virgl (v_gs ?v0) \<or> \<not> g_virgl_caps_valid (v_gs ?v0) \<or> i_cmd3d_buf (g_io (v_gs ?v0)) = None")
    case True
    then have "chip_virgl_init_2d env v = Some (False, ?v0)" by (auto simp: chip_virgl_init_2d_def Let_def)
    then show ?thesis using g0 nr0 by auto
  next
    case guard: False
    obtain b3 where b3: "i_cmd3d_buf (g_io (v_gs ?v0)) = Some b3" using guard by auto
    obtain c v1 where 1: "v2d_context env ?v0 = Some (c, v1)" "goes env lk ?v0 v1" "\<not> d_virgl_2d_ready (v_disp v1)"
      using context_result [OF goes_ok [OF g0] nr0] by blast
    have g1: "goes env lk v v1" by (rule goes_trans [OF g0 1(2)])
    show ?thesis
    proof (cases c)
      case None
      then have "chip_virgl_init_2d env v = Some (False, v1)" using guard b3 1(1) by (simp add: chip_virgl_init_2d_def Let_def)
      then show ?thesis using g1 1(3) by auto
    next
      case c: (Some ctx)
      obtain s v2 where 2: "v2d_scanout env ctx v1 = Some (s, v2)" "goes env lk v1 v2" "\<not> d_virgl_2d_ready (v_disp v2)" "s \<noteq> None \<longrightarrow> on_screen v2"
        using scanout_result [OF goes_ok [OF g1] 1(3), of ctx] by blast
      have g2: "goes env lk v v2" by (rule goes_trans [OF g1 2(2)])
      show ?thesis
      proof (cases s)
        case None
        then have "chip_virgl_init_2d env v = Some (False, v2)" using guard b3 1(1) 2(1) c by (simp add: chip_virgl_init_2d_def Let_def)
        then show ?thesis using g2 2(3) by auto
      next
        case (Some res)
        obtain r v' where t: "chip_virgl_init_2d env v = Some (r, v')" "goes env lk v2 v'" "d_virgl_2d_ready (v_disp v') = r" "r \<longrightarrow> v_complete v'"
          using init_tail [OF goes_ok [OF g2] 2(3) _ refl, of ctx res] guard b3 1(1) 2(1,4) c Some
          by (simp add: chip_virgl_init_2d_def Let_def) blast
        then show ?thesis using goes_trans [OF g2 t(2)] by blast
      qed
    qed
  qed
qed

lemma unref_if_result:
  assumes ok: "v_ok env lk v" and clear: "\<And>x. same_transport x (clear x)"
  shows "\<exists>v'. unref_if env res clear v = Some v' \<and> goes env lk v v'"
proof (cases "res = 0")
  case True
  then show ?thesis using goes_same [OF _ ok, of v] by (simp add: unref_if_def same_transport_def)
next
  case False
  obtain r x where u: "in_io (chip_ResourceUnref env res) v = Some (r, x)" "calm env lk v x" "ctx_err x = ctx_err v"
    using in_io_unref [OF ok] by blast
  have "goes env lk v (clear x)" by (rule goes_after [OF calm_goes [OF ok u(2)] clear]) (simp add: u(3))
  then show ?thesis using u(1) False by (simp add: unref_if_def)
qed

lemma recover_result:
  assumes ok: "v_ok env lk v"
  shows "\<exists>r v'. chip_virgl_recover_2d env v = Some (r, v') \<and> v_ok env lk v' \<and> kicks_ok (g_io (v_gs v)) (g_io (v_gs v'))
     \<and> d_virgl_2d_ready (v_disp v') = r \<and> (r \<longrightarrow> v_complete v') \<and> screen_view (v_disp v') = screen_view (v_disp v)"
proof -
  define sound where "sound a b \<longleftrightarrow> v_ok env lk b \<and> kicks_ok (g_io (v_gs a)) (g_io (v_gs b)) \<and> screen_view (v_disp b) = screen_view (v_disp a)" for a b
  have sound_goes: "sound a c" if "sound a b" "goes env lk b c" for a b c
    using that kicks_ok_trans unfolding sound_def goes_def by auto
  have sound_calm: "sound a c" if "sound a b" "calm env lk b c" for a b c
    using that(1) calm_ok [OF that(2)] calm_screen [OF that(2)] that(2) [unfolded calm_def] kicks_ok_trans unfolding sound_def by auto
  have sound_upd: "sound a c" if "sound a b" "g_io (v_gs c) = g_io (v_gs b)" "v_ok env lk b \<longrightarrow> v_ok env lk c"
      "screen_view (v_disp c) = screen_view (v_disp b)" for a b c
    using that by (simp add: sound_def)
  let ?v1 = "on_vdisp (\<lambda>d. d\<lparr>d_virgl_2d_ready := False, d_gs := (d_gs d)\<lparr>g_virgl_ctx_error := False\<rparr>\<rparr>) v"
  have "sound v v" using ok by (simp add: sound_def kicks_ok_refl)
  then have 1: "sound v ?v1" by (rule sound_upd) (simp_all add: on_vdisp_def v_ok_def gpu_ok_def screen_view_def)
  obtain r2 v2 where s: "in_gs (chip_SetScanout env 0 0 0 0 0 0) ?v1 = Some (r2, v2)" "calm env lk ?v1 v2"
    using set_scanout_calm [of env lk ?v1] 1 unfolding sound_def by blast
  let ?v3 = "on_vgs (\<lambda>gs. gs\<lparr>g_resource_id := g_fb_resource_id gs\<rparr>) v2"
  have 3: "sound v ?v3" by (rule sound_upd [OF sound_calm [OF 1 s(2)]]) (simp_all add: vgs_upd v_ok_def gpu_ok_def screen_view_def on_vgs_def on_vdisp_def)
  obtain v4 where d: "v_CTXDestroy env (d_virgl_2d_ctx (v_disp ?v3)) ?v3 = Some v4" "calm env lk ?v3 v4"
    using destroy_calm [of env lk ?v3] 3 unfolding sound_def by blast
  have 4: "sound v v4" by (rule sound_calm [OF 3 d(2)])
  have clear: "same_transport x (on_vdisp (\<lambda>d. d\<lparr>d_virgl_2d_resource := 0\<rparr>) x)"
    "same_transport x (on_vdisp (\<lambda>d. d\<lparr>d_virgl_2d_resource2 := 0\<rparr>) x)" "same_transport x (x\<lparr>v_vbuf_res := 0\<rparr>)" for x
    by (simp_all add: same_transport_def screen_view_def on_vdisp_def ctx_err_def v_ok_def)
  obtain v5 where u5: "unref_if env (d_virgl_2d_resource (v_disp v4)) (on_vdisp (\<lambda>d. d\<lparr>d_virgl_2d_resource := 0\<rparr>)) v4 = Some v5" "goes env lk v4 v5"
    using unref_if_result [where clear = "on_vdisp (\<lambda>d. d\<lparr>d_virgl_2d_resource := 0\<rparr>)", OF _ clear(1)] 4 unfolding sound_def by blast
  have 5: "sound v v5" by (rule sound_goes [OF 4 u5(2)])
  obtain v6 where u6: "unref_if env (d_virgl_2d_resource2 (v_disp v5)) (on_vdisp (\<lambda>d. d\<lparr>d_virgl_2d_resource2 := 0\<rparr>)) v5 = Some v6" "goes env lk v5 v6"
    using unref_if_result [where clear = "on_vdisp (\<lambda>d. d\<lparr>d_virgl_2d_resource2 := 0\<rparr>)", OF _ clear(2)] 5 unfolding sound_def by blast
  have 6: "sound v v6" by (rule sound_goes [OF 5 u6(2)])
  obtain v7 where u7: "unref_if env (v_vbuf_res v6) (\<lambda>v. v\<lparr>v_vbuf_res := 0\<rparr>) v6 = Some v7" "goes env lk v6 v7"
    using unref_if_result [where clear = "\<lambda>v. v\<lparr>v_vbuf_res := 0\<rparr>", OF _ clear(3)] 6 unfolding sound_def by blast
  have 7: "sound v v7" by (rule sound_goes [OF 6 u7(2)])
  let ?v8 = "on_vgs (\<lambda>gs. gs\<lparr>g_virgl_ctx_error := False, g_resource_id := g_fb_resource_id gs\<rparr>) (clear_handles v7)"
  have 8: "sound v ?v8" by (rule sound_upd [OF 7]) (simp_all add: vgs_upd v_ok_def gpu_ok_def clear_handles_def screen_view_def on_vgs_def on_vdisp_def)
  obtain r v' where i: "chip_virgl_init_2d env ?v8 = Some (r, v')" "goes env lk ?v8 v'" "d_virgl_2d_ready (v_disp v') = r" "r \<longrightarrow> v_complete v'"
    using init_result [of env lk ?v8] 8 unfolding sound_def by blast
  have run: "chip_virgl_recover_2d env v = Some (r, v')"
    using s(1) d(1) u5(1) u6(1) u7(1) i(1) by (simp add: chip_virgl_recover_2d_def Let_def)
  have "sound v v'" by (rule sound_goes [OF 8 i(2)])
  then show ?thesis using run i(3,4) by (auto simp: sound_def)
qed

end
