(* ===== verification/Composite_Correct.thy ===== *)
theory Composite_Correct
  imports Composite Virgl_2d_Correct
begin

text \<open>
  The texture upload sends every row of the bitmap once, in order and complete; compositing leaves
  no texture behind, and the hook runs the original method exactly once.
\<close>

section \<open>Strips\<close>

definition pixel_at :: "bytes \<Rightarrow> u32 \<Rightarrow> u32" where
  "pixel_at mem p = (case ld32 p mem of Some v \<Rightarrow> v | None \<Rightarrow> 0)"

definition bitmap_rows :: "bytes \<Rightarrow> u32 \<Rightarrow> u32 \<Rightarrow> u32 \<Rightarrow> nat list \<Rightarrow> u32 list" where
  "bitmap_rows mem src bpr w rows =
     concat (map (\<lambda>row. map (\<lambda>col. pixel_at mem (src + of_nat row * bpr + of_nat col * 4)) [0..<unat w]) rows)"

definition readable :: "bytes \<Rightarrow> u32 \<Rightarrow> u32 \<Rightarrow> u32 \<Rightarrow> u32 \<Rightarrow> bool" where
  "readable mem src bpr w h \<longleftrightarrow> (\<forall>row<unat h. \<forall>col<unat w. ld32 (src + of_nat row * bpr + of_nat col * 4) mem \<noteq> None)"

definition strip_cmd :: "bytes \<Rightarrow> u32 \<Rightarrow> u32 \<Rightarrow> u32 \<Rightarrow> u32 \<Rightarrow> u32 \<Rightarrow> u32 \<Rightarrow> nat \<times> nat \<Rightarrow> vcmd" where
  "strip_cmd mem res src bpr x y w s = (case s of (r, n) \<Rightarrow>
     VCmd CCMD_RESOURCE_INLINE_WRITE 0 ([res, 0, 0, w * 4, 0, x, y + of_nat r, 0, w, of_nat n, 1] @ bitmap_rows mem src bpr w [r..<r + n]))"

lemma length_bitmap_rows: "length (bitmap_rows mem src bpr w rows) = unat w * length rows"
  unfolding bitmap_rows_def by (induction rows) simp_all

lemma adds_ext: "adds f ws \<Longrightarrow> ws = ws' \<Longrightarrow> adds f ws'"
  by simp

lemma adds_pixel:
  assumes "ld32 p mem \<noteq> None"
  shows "adds (\<lambda>cb. do { q \<leftarrow> ld32 p mem; virgl_emit_dword q cb }) [pixel_at mem p]"
  using assms adds_dword by (auto simp: pixel_at_def)

lemma adds_strip:
  assumes "readable mem src bpr w h" "r + n \<le> unat h"
  shows "adds (foldM (\<lambda>row. foldM (\<lambda>col cbuf. do {
         p \<leftarrow> ld32 (src + (of_nat r + of_nat row) * bpr + of_nat col * 4) mem;
         virgl_emit_dword p cbuf }) [0..<unat w]) [0..<n]) (bitmap_rows mem src bpr w [r..<r + n])"
proof -
  let ?row = "\<lambda>row. map (\<lambda>col. pixel_at mem (src + of_nat (r + row) * bpr + of_nat col * 4)) [0..<unat w]"
  have "adds (foldM (\<lambda>col cbuf. do {
         p \<leftarrow> ld32 (src + (of_nat r + of_nat row) * bpr + of_nat col * 4) mem;
         virgl_emit_dword p cbuf }) [0..<unat w]) (?row row)" if "row < n" for row
  proof -
    have "adds (foldM (\<lambda>col cbuf. do {
         p \<leftarrow> ld32 (src + of_nat (r + row) * bpr + of_nat col * 4) mem;
         virgl_emit_dword p cbuf }) [0..<unat w]) (concat (map (\<lambda>col. [pixel_at mem (src + of_nat (r + row) * bpr + of_nat col * 4)]) [0..<unat w]))"
    proof (rule adds_foldM, rule adds_pixel)
      fix col assume "col \<in> set [0..<unat w]"
      then have "r + row < unat h" "col < unat w" using that assms(2) by simp_all
      then show "ld32 (src + of_nat (r + row) * bpr + of_nat col * 4) mem \<noteq> None" using assms(1) unfolding readable_def by blast
    qed
    then show ?thesis by (simp only: concat_singles of_nat_add)
  qed
  then have "adds (foldM (\<lambda>row. foldM (\<lambda>col cbuf. do {
         p \<leftarrow> ld32 (src + (of_nat r + of_nat row) * bpr + of_nat col * 4) mem;
         virgl_emit_dword p cbuf }) [0..<unat w]) [0..<n]) (concat (map ?row [0..<n]))"
    by (intro adds_foldM) simp
  moreover have "concat (map ?row [0..<n]) = bitmap_rows mem src bpr w [r..<r + n]"
  proof -
    have "[r..<r + n] = map (\<lambda>i. r + i) [0..<n]" by (simp add: map_add_upt add.commute)
    then show ?thesis by (simp add: bitmap_rows_def comp_def)
  qed
  ultimately show ?thesis by simp
qed

lemma strip_stream:
  assumes "readable mem src bpr w h" "r + n \<le> unat h" "unat w * n \<le> 60000" "n \<le> 60000"
  shows "stream (strip_words mem res src bpr x y w (of_nat r) (of_nat n)) [strip_cmd mem res src bpr x y w (r, n)]"
proof -
  have n: "unat (of_nat n :: u32) = n" using assms(4) by (simp add: unat_of_nat)
  let ?ps = "[res, 0, 0, w * 4, 0, x, y + of_nat r, 0, w, of_nat n, 1]" and ?ws = "bitmap_rows mem src bpr w [r..<r + n]"
  have len: "length ?ws = unat w * n" by (simp add: length_bitmap_rows)
  have l: "11 + w * of_nat n = (of_nat (length (?ps @ ?ws)) :: u32)" by (simp add: len)
  have ok: "vcmd_ok (VCmd CCMD_RESOURCE_INLINE_WRITE 0 (?ps @ ?ws))" using assms(3) by (simp add: len)
  note a = adds_strip [OF assms(1,2)]
  have "encodes (strip_words mem res src bpr x y w (of_nat r) (of_nat n)) (VCmd CCMD_RESOURCE_INLINE_WRITE 0 (?ps @ ?ws))"
    unfolding strip_words_def [abs_def] Let_def n by (rule encodes_bind [OF a ok l])
  then show ?thesis using stream_one by (simp add: strip_cmd_def)
qed

lemma max_rows_facts:
  assumes "w \<noteq> 0" "w \<le> 1024" "h \<noteq> 0" "h \<le> 1024"
  shows "0 < unat (comp_max_rows w h)" "unat (comp_max_rows w h) \<le> 1024" "unat w * unat (comp_max_rows w h) \<le> 15000"
    "unat (comp_cbuf_size w (comp_max_rows w h)) = 28 + unat w * unat (comp_max_rows w h)"
proof -
  let ?q = "15000 div w" and ?m = "comp_max_rows w h"
  have w: "0 < unat w" "unat w \<le> 1024" "0 < unat h" "unat h \<le> 1024" using assms by (simp_all add: unat_gt_0 word_le_nat_alt)
  have q: "unat ?q = 15000 div unat w" by (simp add: unat_div)
  have "1 \<le> 15000 div unat w" using w(1,2) by (simp add: Suc_le_eq div_greater_zero_iff)
  then have "?q \<noteq> 0" using q by (metis not_one_le_zero unat_0)
  then have m: "?m = (if h < ?q then h else ?q)" by (simp add: comp_max_rows_def)
  have mq: "unat ?m \<le> 15000 div unat w" using q by (auto simp: m word_less_nat_alt)
  have mh: "unat ?m \<le> unat h" by (auto simp: m word_less_nat_alt)
  show "0 < unat ?m" using w(3) \<open>?q \<noteq> 0\<close> by (simp add: m unat_gt_0 assms(3))
  show m1: "unat ?m \<le> 1024" using mh w(4) by simp
  have "unat w * unat ?m \<le> unat w * (15000 div unat w)" using mq by simp
  also have "\<dots> \<le> 15000" by simp
  finally show p: "unat w * unat ?m \<le> 15000" .
  then have wm: "unat (w * ?m) = unat w * unat ?m" by (simp add: unat_word_ariths)
  have "unat (12 + w * ?m + 16) = 28 + unat w * unat ?m" using p wm by (simp add: unat_word_ariths)
  then show "unat (comp_cbuf_size w ?m) = 28 + unat w * unat ?m" using p by (simp add: comp_cbuf_size_def word_less_nat_alt)
qed

definition rows_of :: "(nat \<times> nat) list \<Rightarrow> nat list" where
  "rows_of ss = concat (map (\<lambda>(r, n). [r..<r + n]) ss)"

lemma strips_result:
  assumes wh: "w \<noteq> 0" "w \<le> 1024" "h \<noteq> 0" "h \<le> 1024" and src: "readable mem src bpr w h"
  shows "v_ok env lk v \<Longrightarrow> r \<le> unat h \<Longrightarrow> unat h - r < fuel \<Longrightarrow>
    \<exists>ok' v' ss ks. comp_strips fuel env mem ctx res src bpr x y w h (of_nat r) ok v = Some (ok', v') \<and> calm env lk v v'
      \<and> (ctx_err v \<longrightarrow> ctx_err v') \<and> (\<not> ok \<longrightarrow> \<not> ok')
      \<and> i_kicks (g_io (v_gs v')) = i_kicks (g_io (v_gs v)) @ ks
      \<and> list_all2 (\<lambda>s k. streamed ctx [strip_cmd mem res src bpr x y w s] k) ss ks
      \<and> (\<exists>m. r \<le> m \<and> m \<le> unat h \<and> rows_of ss = [r..<m] \<and> (ok' \<longrightarrow> m = unat h))"
proof (induction fuel arbitrary: r ok v)
  case 0
  then show ?case by simp
next
  case (Suc fuel)
  let ?m = "comp_max_rows w h"
  have h: "unat h \<le> 1024" using wh(4) by (simp add: word_le_nat_alt)
  have r: "unat (of_nat r :: u32) = r" using Suc.prems(2) h by (simp add: unat_of_nat)
  show ?case
  proof (cases "r < unat h \<and> ok")
    case False
    then have "comp_strips (Suc fuel) env mem ctx res src bpr x y w h (of_nat r) ok v = Some (ok, v)"
      using r by (auto simp: word_less_nat_alt)
    moreover have "ok \<longrightarrow> r = unat h" using False Suc.prems(2) by auto
    ultimately show ?thesis using calm_refl [OF Suc.prems(1)] Suc.prems(2)
      by (intro exI [of _ ok] exI [of _ v] exI [of _ "[]"] exI [of _ "[]"]) (auto simp: rows_of_def intro!: exI [of _ r])
  next
    case True
    define n where "n = (if unat ?m < unat h - r then unat ?m else unat h - r)"
    note f = max_rows_facts [OF wh]
    have n: "0 < n" "r + n \<le> unat h" "n \<le> unat ?m" using True f(1) unfolding n_def by (auto split: if_split)
    have u: "unat (h - of_nat r) = unat h - r" using r Suc.prems(2) by (simp add: unat_sub_if')
    have this_n: "(if ?m < h - of_nat r then ?m else h - of_nat r) = of_nat n"
      unfolding word_unat_eq_iff using u n(2) h by (simp add: n_def word_less_nat_alt unat_of_nat)
    have wn: "unat w * n \<le> 15000" using f(3) n(3) by (meson le_trans mult_le_mono2)
    let ?f = "strip_words mem res src bpr x y w (of_nat r) (of_nat n)" and ?c = "strip_cmd mem res src bpr x y w (r, n)"
    have st: "stream ?f [?c]" by (rule strip_stream [OF src n(2)]) (use wn n h in simp_all)
    have wn': "unat w * n \<le> 16 + unat w * unat ?m" by (rule trans_le_add2 [OF mult_le_mono2 [OF n(3)]])
    have size: "sum_list (map vcmd_size [?c]) \<le> unat (comp_cbuf_size w ?m)"
      unfolding f(4) using wn' by (simp add: strip_cmd_def length_bitmap_rows)
    have lim: "unat (comp_cbuf_size w ?m) \<le> 16384" using f(3,4) by simp
    have sh: "length (filter is_shader [?c]) \<le> 1" by (simp add: strip_cmd_def)
    obtain cb ok1 cb' v1 where s: "filled_cmd (unat (comp_cbuf_size w ?m)) ?f = Some cb" "v_submit env ctx cb v = Some (ok1, cb', v1)"
      "calm env lk v v1" "ctx_err v1 = (ctx_err v \<or> \<not> ok1)" "sent ctx [?c] ok1 (g_io (v_gs v)) (g_io (v_gs v1))"
      using submit_calm [where ctx = ctx, OF Suc.prems(1) st _ size lim sh] by auto
    have ok1: "v_ok env lk v1" by (rule calm_ok [OF s(3) Suc.prems(1)])
    have less: "unat h - (r + n) < fuel" using Suc.prems(3) n(1,2) by simp
    obtain ok' v' ss ks m where i: "comp_strips fuel env mem ctx res src bpr x y w h (of_nat (r + n)) ok1 v1 = Some (ok', v')" "calm env lk v1 v'"
      "ctx_err v1 \<longrightarrow> ctx_err v'" "\<not> ok1 \<longrightarrow> \<not> ok'" "i_kicks (g_io (v_gs v')) = i_kicks (g_io (v_gs v1)) @ ks"
      "list_all2 (\<lambda>s k. streamed ctx [strip_cmd mem res src bpr x y w s] k) ss ks"
      "r + n \<le> m" "m \<le> unat h" "rows_of ss = [r + n..<m]" "ok' \<longrightarrow> m = unat h"
      using Suc.IH [where ok = ok1, OF ok1 n(2) less] by (elim exE conjE) (rule that)
    have run: "comp_strips (Suc fuel) env mem ctx res src bpr x y w h (of_nat r) ok v = Some (ok', v')"
      using True r s(1,2) i(1) this_n by (simp add: word_less_nat_alt Let_def)
    have cm: "calm env lk v v'" by (rule calm_trans [OF s(3) i(2)])
    have er: "ctx_err v \<longrightarrow> ctx_err v'" using s(4) i(3) by simp
    show ?thesis
    proof (cases "i_kicks (g_io (v_gs v1)) = i_kicks (g_io (v_gs v)) \<and> \<not> ok1")
      case unsent: True
      have stop: "comp_strips fuel env mem ctx res src bpr x y w h (of_nat (r + n)) ok1 v1 = Some (False, v1)"
        using unsent less by (cases fuel) simp_all
      then show ?thesis using run i(1) cm er unsent
        by (intro exI [of _ False] exI [of _ v'] exI [of _ "[]"] exI [of _ "[]"]) (auto simp: rows_of_def intro!: exI [of _ r] Suc.prems(2))
    next
      case False
      then obtain k where k: "i_kicks (g_io (v_gs v1)) = i_kicks (g_io (v_gs v)) @ [k]" "streamed ctx [?c] k"
        using s(5) unfolding sent_def by blast
      have "rows_of ((r, n) # ss) = [r..<m]" using i(7,9) upt_add_eq_append [of r "r + n" "m - (r + n)"] by (simp add: rows_of_def)
      then show ?thesis using run cm er i(5-8,10) k True
        by (intro exI [of _ ok'] exI [of _ v'] exI [of _ "(r, n) # ss"] exI [of _ "k # ks"]) (auto intro!: exI [of _ m])
    qed
  qed
qed

lemma exec_calm: "v_ok env lk v \<Longrightarrow> calm env lk v (on_vgs (do_exec f) v)"
proof -
  assume ok: "v_ok env lk v"
  have "on_vgs (do_exec f) v = on_vgs (\<lambda>_. do_exec f (v_gs v)) v" by (simp add: on_vgs_def on_vdisp_def)
  moreover have "settled (do_exec f (v_gs v)) = settled (v_gs v)" by (simp add: settled_def do_exec_def)
  ultimately show ?thesis using ok unfolding calm_def v_ok_def by (auto simp: vgs_upd intro: kicks_ok_refl)
qed

lemma exec_err [simp]: "ctx_err (on_vgs (do_exec f) v) = ctx_err v" "i_kicks (g_io (v_gs (on_vgs (do_exec f) v))) = i_kicks (g_io (v_gs v))"
  "d_virgl_2d_ctx (v_disp (on_vgs (do_exec f) v)) = d_virgl_2d_ctx (v_disp v)"
  by (simp_all add: ctx_err_def vgs_upd do_exec_def)

lemma upload_result:
  assumes ok: "v_ok env lk v" and wh: "w \<noteq> 0" "w \<le> 1024" "h \<noteq> 0" "h \<le> 1024" and src: "readable mem src bpr w h"
  shows "\<exists>r v' ss ks m. chip_comp_upload_pixels_32bpp env mem res src bpr x y w h v = Some (r, v') \<and> calm env lk v v'
     \<and> (ctx_err v \<longrightarrow> ctx_err v') \<and> i_kicks (g_io (v_gs v')) = i_kicks (g_io (v_gs v)) @ ks
     \<and> list_all2 (\<lambda>s k. streamed (d_virgl_2d_ctx (v_disp v)) [strip_cmd mem res src bpr x y w s] k) ss ks
     \<and> m \<le> unat h \<and> rows_of ss = [0..<m] \<and> (r \<longrightarrow> m = unat h)"
proof -
  obtain p gs where a: "with_exec AllocVecTags (v_gs v) = (p, gs)" by fastforce
  let ?v1 = "on_vgs (\<lambda>_. gs) v"
  have v1: "?v1 = on_vgs (do_exec (\<lambda>ex. snd (AllocVecTags ex))) v" using a by (auto simp: with_exec_eq on_vgs_def on_vdisp_def)
  have c1: "calm env lk v ?v1" unfolding v1 by (rule exec_calm [OF ok])
  have ok1: "v_ok env lk ?v1" by (rule calm_ok [OF c1 ok])
  show ?thesis
  proof (cases "p = 0")
    case True
    then have "chip_comp_upload_pixels_32bpp env mem res src bpr x y w h v = Some (False, ?v1)"
      using wh(1) a by (simp add: chip_comp_upload_pixels_32bpp_def)
    then show ?thesis using c1
      by (intro exI [of _ False] exI [of _ ?v1] exI [of _ "[]"] exI [of _ "[]"] exI [of _ 0]) (simp add: v1 rows_of_def)
  next
    case False
    let ?ctx = "d_virgl_2d_ctx (v_disp v)"
    have z: "0 \<le> unat h" "unat h - 0 < Suc (unat h)" by simp_all
    obtain r v2 ss ks m where s: "comp_strips (Suc (unat h)) env mem ?ctx res src bpr x y w h (of_nat 0) True ?v1 = Some (r, v2)"
      "calm env lk ?v1 v2" "ctx_err ?v1 \<longrightarrow> ctx_err v2" "\<not> True \<longrightarrow> \<not> r" "i_kicks (g_io (v_gs v2)) = i_kicks (g_io (v_gs ?v1)) @ ks"
      "list_all2 (\<lambda>s k. streamed ?ctx [strip_cmd mem res src bpr x y w s] k) ss ks"
      "0 \<le> m" "m \<le> unat h" "rows_of ss = [0..<m]" "r \<longrightarrow> m = unat h"
      using strips_result [OF wh src ok1 z, of ?ctx res x y True] by (elim exE conjE) (rule that)
    let ?v3 = "on_vgs (do_exec (FreeVec p)) v2"
    have c3: "calm env lk v ?v3" by (rule calm_trans [OF c1 calm_trans [OF s(2) exec_calm [OF calm_ok [OF s(2) ok1]]]])
    have "chip_comp_upload_pixels_32bpp env mem res src bpr x y w h v = Some (r, ?v3)"
      using wh(1) a False s(1) unfolding chip_comp_upload_pixels_32bpp_def by (simp del: comp_strips.simps)
    then show ?thesis using c3 s(3,5,6,8-10)
      by (intro exI [of _ r] exI [of _ ?v3] exI [of _ ss] exI [of _ ks] exI [of _ m]) (simp add: v1)
  qed
qed

section \<open>Textures\<close>

text \<open>Steps that touch the driver only inside the command layer and the texture fields.\<close>

definition walks :: "env \<Rightarrow> nat \<Rightarrow> v2d \<Rightarrow> v2d \<Rightarrow> bool" where
  "walks env lk v v' \<longleftrightarrow> v_ok env lk v' \<and> kicks_ok (g_io (v_gs v)) (g_io (v_gs v')) 
     \<and> (\<exists>gs'. v_disp v' = (v_disp v)\<lparr>d_gs := gs'\<rparr>)"

lemma walks_ok: "walks env lk v v' \<Longrightarrow> v_ok env lk v'"
  by (simp add: walks_def)

lemma walks_trans: "walks env lk a b \<Longrightarrow> walks env lk b c \<Longrightarrow> walks env lk a c"
  unfolding walks_def by (elim conjE exE) (intro conjI, assumption, blast intro: kicks_ok_trans, auto)

lemma walks_refl: "v_ok env lk v \<Longrightarrow> walks env lk v v"
  unfolding walks_def by (intro conjI exI [of _ "v_gs v"]) (simp_all add: kicks_ok_refl)

lemma calm_walks: "v_ok env lk v \<Longrightarrow> calm env lk v v' \<Longrightarrow> walks env lk v v'"
  unfolding walks_def using calm_ok [of env lk v v'] by (intro conjI) (simp, simp add: calm_def, auto simp: calm_def on_vgs_def on_vdisp_def)

lemma own_walks: "own_fields v v' \<Longrightarrow> v_ok env lk v \<Longrightarrow> walks env lk v v'"
  unfolding walks_def own_fields_def v_ok_def by (intro conjI exI [of _ "v_gs v"]) (simp_all add: kicks_ok_refl)

lemma calm_tex: "calm env lk v v' \<Longrightarrow> v_tex_res v' = v_tex_res v \<and> v_tex_view v' = v_tex_view v"
  by (auto simp: calm_def)

lemma drop_result:
  assumes "v_ok env lk v"
  shows "\<exists>v'. drop_resource env ctx res v = Some v' \<and> calm env lk v v'"
proof -
  obtain r1 v1 where d: "in_io (chip_CTXDetachResource env ctx res) v = Some (r1, v1)" "calm env lk v v1"
    using in_io_detach [OF assms] by blast
  obtain r2 v2 where u: "in_io (chip_ResourceUnref env res) v1 = Some (r2, v2)" "calm env lk v1 v2"
    using in_io_unref [OF calm_ok [OF d(2) assms]] by blast
  show ?thesis using d u calm_trans by (auto simp: drop_resource_def)
qed

lemma free_words: "view \<noteq> 0 \<Longrightarrow> submits 16 (virgl_cmd_destroy_object OBJECT_SAMPLER_VIEW view)"
  by (rule submitsI [OF stream_one [OF encodes_bind_destroy(2)]]) simp_all

lemma empty_submit: "\<exists>cb. filled_cmd n Some = Some cb \<and> v_submit env ctx cb v = Some (True, cb, v)"
  by (simp add: filled_cmd_def virgl_cmd_init_def v_submit_def virgl_submit_def on_vgs_def on_vdisp_def)

lemma free_texture_result:
  assumes ok: "v_ok env lk v"
  shows "\<exists>v'. chip_comp_free_texture env v = Some v' \<and> walks env lk v v' \<and> v_tex_res v' = 0"
proof (cases "v_tex_res v = 0")
  case True
  then show ?thesis using walks_refl [OF ok] by (simp add: chip_comp_free_texture_def)
next
  case False
  let ?f = "\<lambda>cb. if v_tex_view v \<noteq> 0 then virgl_cmd_destroy_object OBJECT_SAMPLER_VIEW (v_tex_view v) cb else Some cb"
  have "\<exists>cb r cb' v1. filled_cmd 16 ?f = Some cb \<and> v_submit env (d_virgl_2d_ctx (v_disp v)) cb v = Some (r, cb', v1) \<and> calm env lk v v1"
  proof (cases "v_tex_view v = 0")
    case True
    then have "?f = Some" by (simp add: fun_eq_iff)
    then show ?thesis using empty_submit [of 16 env "d_virgl_2d_ctx (v_disp v)" v] calm_refl [OF ok] by metis
  next
    case False
    then show ?thesis using submit_result [OF ok free_words [OF False]] by simp blast
  qed
  then obtain cb r cb' v1 where s: "filled_cmd 16 ?f = Some cb" "v_submit env (d_virgl_2d_ctx (v_disp v)) cb v = Some (r, cb', v1)"
    "calm env lk v v1" by blast
  obtain v2 where d: "drop_resource env (d_virgl_2d_ctx (v_disp v)) (v_tex_res v) v1 = Some v2" "calm env lk v1 v2"
    using drop_result [OF calm_ok [OF s(3) ok]] by blast
  let ?v3 = "v2\<lparr>v_tex_res := 0, v_tex_view := 0, v_tex_w := 0, v_tex_h := 0\<rparr>"
  have "chip_comp_free_texture env v = Some ?v3" using False s(1,2) d(1) by (simp add: chip_comp_free_texture_def Let_def calm_tex [OF s(3)])
  moreover have "walks env lk v v2" by (rule calm_walks [OF ok calm_trans [OF s(3) d(2)]])
  moreover have "walks env lk v2 ?v3" by (rule own_walks) (use calm_ok [OF d(2) calm_ok [OF s(3) ok]] in \<open>simp_all add: own_fields_def\<close>)
  ultimately show ?thesis using walks_trans by fastforce
qed

lemma view_words: "submits 32 (virgl_cmd_create_sampler_view h res fmt a b sr sg sb sa)"
  by (rule submitsI [OF stream_one [OF encodes_sampler_view]]) simp_all

lemma alloc_id_walks:
  assumes "v_ok env lk v" "v_alloc_id v = (i, v')"
  shows "walks env lk v v'" "v_tex_res v' = v_tex_res v"
proof -
  obtain gs' where s: "same_transport v v'" "v' = on_vgs (\<lambda>_. gs') v" using alloc_id_same [OF assms(2)] by blast
  have "v_ok env lk v'" "kicks_ok (g_io (v_gs v)) (g_io (v_gs v'))" using s(1) assms(1)
    by (simp_all add: same_transport_def kicks_ok_refl)
  then show "walks env lk v v'" unfolding walks_def by (auto simp: s(2) on_vgs_def on_vdisp_def)
  show "v_tex_res v' = v_tex_res v" by (simp add: s(2))
qed

text \<open>A resource that is created and then dropped or kept as the texture.\<close>

lemma upload_bitmap_result:
  assumes ok: "v_ok env lk v" and src: "src \<noteq> 0 \<Longrightarrow> readable mem src bpr w h"
  shows "\<exists>r v'. chip_comp_upload_bitmap env mem src bpr w h al v = Some (r, v') \<and> walks env lk v v'
     \<and> (\<not> r \<and> v_tex_res v = 0 \<longrightarrow> v_tex_res v' = 0)"
proof (cases "\<not> d_virgl_2d_ready (v_disp v) \<or> \<not> v_shaders_ok v \<or> w = 0 \<or> h = 0 \<or> src = 0 \<or> 1024 < w \<or> 1024 < h")
  case True
  then have "chip_comp_upload_bitmap env mem src bpr w h al v = Some (False, v)" by (auto simp: chip_comp_upload_bitmap_def)
  then show ?thesis using walks_refl [OF ok] by auto
next
  case False
  then have wh: "w \<noteq> 0" "w \<le> 1024" "h \<noteq> 0" "h \<le> 1024" and rd: "readable mem src bpr w h" using src by auto
  obtain v0 where f: "(if v_tex_res v \<noteq> 0 then chip_comp_free_texture env v else Some v) = Some v0" "walks env lk v v0" "v_tex_res v0 = 0"
    using free_texture_result [OF ok] walks_refl [OF ok] by (cases "v_tex_res v = 0") auto
  let ?ctx = "d_virgl_2d_ctx (v_disp v0)" and ?fmt = "if al then PIPE_B8G8R8A8_UNORM else PIPE_B8G8R8X8_UNORM"
  obtain res v1 where a: "v_alloc_id v0 = (res, v1)" by fastforce
  have w1: "walks env lk v v1" "v_tex_res v1 = 0" using walks_trans [OF f(2) alloc_id_walks(1) [OF walks_ok [OF f(2)] a]]
      alloc_id_walks(2) [OF walks_ok [OF f(2)] a] f(3) by simp_all
  obtain r2 v2 where c: "in_io (chip_ResourceCreate3D env res PIPE_TEXTURE_2D ?fmt PIPE_BIND_SAMPLER_VIEW w h 1 1 0 0 0) v1 = Some (r2, v2)" "calm env lk v1 v2"
    using in_io_create_3d [OF walks_ok [OF w1(1)]] by blast
  have ok2: "v_ok env lk v2" by (rule calm_ok [OF c(2) walks_ok [OF w1(1)]])
  obtain r3 v3 where t: "in_io (chip_CTXAttachResource env ?ctx res) v2 = Some (r3, v3)" "calm env lk v2 v3"
    using in_io_attach [OF ok2] by blast
  have ok3: "v_ok env lk v3" by (rule calm_ok [OF t(2) ok2])
  obtain r4 v4 where u: "chip_comp_upload_pixels_32bpp env mem res src bpr 0 0 w h v3 = Some (r4, v4)" "calm env lk v3 v4"
    using upload_result [OF ok3 wh rd, of res 0 0] by blast
  have c4: "calm env lk v1 v4" by (rule calm_trans [OF c(2) calm_trans [OF t(2) u(2)]])
  have ok4: "v_ok env lk v4" by (rule calm_ok [OF u(2) ok3])
  obtain v5 where d: "drop_resource env ?ctx res v4 = Some v5" "calm env lk v4 v5" using drop_result [OF ok4] by blast
  obtain hd v6 where h: "comp_alloc_handle v4 = (hd, v6)" by fastforce
  then have v6: "v6 = v4\<lparr>v_next_handle := hd + 1\<rparr>" by (auto simp: comp_alloc_handle_def Let_def)
  have w6: "walks env lk v4 v6" by (rule own_walks [OF _ ok4]) (simp add: v6 own_fields_def)
  obtain cb r7 cb' v7 where s: "filled_cmd 32 (virgl_cmd_create_sampler_view hd res ?fmt 0 0 0 1 2 3) = Some cb"
    "v_submit env ?ctx cb v6 = Some (r7, cb', v7)" "calm env lk v6 v7"
    using submit_result [where ctx = ?ctx, OF walks_ok [OF w6] view_words [of hd res ?fmt 0 0 0 1 2 3]] by blast
  have ok7: "v_ok env lk v7" by (rule calm_ok [OF s(3) walks_ok [OF w6]])
  obtain v8 where d8: "drop_resource env ?ctx res v7 = Some v8" "calm env lk v7 v8" using drop_result [OF ok7] by blast
  let ?v9 = "v7\<lparr>v_tex_res := res, v_tex_view := hd, v_tex_w := w, v_tex_h := h\<rparr>"
  have w4: "walks env lk v v4" by (rule walks_trans [OF w1(1) calm_walks [OF walks_ok [OF w1(1)] c4]])
  have w7: "walks env lk v v7" by (rule walks_trans [OF walks_trans [OF w4 w6] calm_walks [OF walks_ok [OF w6] s(3)]])
  have W: "walks env lk v v2" "walks env lk v v5" "walks env lk v v8" "walks env lk v ?v9"
    using walks_trans [OF w1(1) calm_walks [OF walks_ok [OF w1(1)] c(2)]] walks_trans [OF w4 calm_walks [OF ok4 d(2)]]
      walks_trans [OF w7 calm_walks [OF ok7 d8(2)]] walks_trans [OF w7 own_walks [OF _ ok7, of ?v9]] by (simp_all add: own_fields_def)
  have T: "v_tex_res v2 = 0" "v_tex_res v5 = 0" "v_tex_res v8 = 0"
    using calm_tex [OF c(2)] calm_tex [OF c4] calm_tex [OF d(2)] calm_tex [OF s(3)] calm_tex [OF d8(2)] w1(2) by (simp_all add: v6)
  have run: "chip_comp_upload_bitmap env mem src bpr w h al v
      = Some (if \<not> r2 then (False, v2) else if \<not> r4 then (False, v5) else if \<not> r7 then (False, v8) else (True, ?v9))"
    using False f(1) a c(1) t(1) u(1) d(1) h s(1,2) d8(1) by (simp add: chip_comp_upload_bitmap_def Let_def)
  show ?thesis unfolding run using W T by (cases r2; cases r4; cases r7) auto
qed

section \<open>Quads\<close>

lemma adds_float_array:
  assumes "unat n \<le> length ds"
  shows "adds (foldM (\<lambda>i cb. do { x \<leftarrow> rd ds i; virgl_emit_float x cb }) [0..<unat n]) (take (unat n) ds)"
proof -
  have "adds (foldM (\<lambda>i cb. do { x \<leftarrow> rd ds i; virgl_emit_float x cb }) [0..<unat n]) (concat (map (\<lambda>i. [ds ! i]) [0..<unat n]))"
    by (rule adds_foldM) (use assms in \<open>auto intro!: rd_array adds_float\<close>)
  moreover have "concat (map (\<lambda>i. [ds ! i]) [0..<unat n]) = take (unat n) ds"
    using assms by (simp add: concat_singles map_nth_take)
  ultimately show ?thesis by simp
qed

lemma encodes_vertex_floats:
  assumes "length ds = 48"
  shows "encodes (virgl_upload_vertex_floats res ds 48) (VCmd CCMD_RESOURCE_INLINE_WRITE 0 ([res, 0, 0, 0, 0, 0, 0, 0, 192, 1, 1] @ take 48 ds))"
  unfolding virgl_upload_vertex_floats_def [abs_def] Let_def
  using encodes_bind [OF adds_float_array [of "48 :: u32" ds], of CCMD_RESOURCE_INLINE_WRITE 0 "[res, 0, 0, 0, 0, 0, 0, 0, 192, 1, 1]" 59] assms by simp

lemma quad_stream:
  assumes "length verts = 48"
  shows "\<exists>cs. stream (draw_quad_words vbuf verts) cs \<and> cs \<noteq> [] \<and> sum_list (map vcmd_size cs) = 77 \<and> filter is_shader cs = []"
  unfolding draw_quad_words_def
  by (rule exI, intro conjI, (rule stream_one [OF encodes_vertex_floats [OF assms]] stream_one [OF encodes_vertex_buffers]
        stream_one [OF encodes_draw_vbo] stream_bind | (simp add: assms; fail))+)

lemma length_quad_verts: "length c00 = 4 \<Longrightarrow> length c10 = 4 \<Longrightarrow> length c11 = 4 \<Longrightarrow> length c01 = 4 \<Longrightarrow> length (quad_verts x0 y0 x1 y1 c00 c10 c11 c01) = 48"
  by (simp add: quad_verts_def)

lemma quad_words:
  assumes "length verts = 48"
  shows "submits 96 (draw_quad_words vbuf verts)"
  using quad_stream [OF assms, of vbuf] unfolding submits_def by force

lemma textured_quad_words:
  assumes "length verts = 48"
  shows "submits 128 (textured_words v verts lin)"
proof -
  obtain cs where q: "stream (draw_quad_words (v_vbuf_res v) verts) cs" "sum_list (map vcmd_size cs) = 77" "filter is_shader cs = []"
    using quad_stream [OF assms] by blast
  have "\<exists>ds. stream (textured_words v verts lin) ds \<and> ds \<noteq> [] \<and> sum_list (map vcmd_size ds) \<le> 128 \<and> length (filter is_shader ds) \<le> 1"
    unfolding textured_words_def
    by (rule exI, intro conjI, (rule q(1) stream_one [OF encodes_bind_shader] stream_one [OF encodes_arrays(2)] stream_one [OF encodes_arrays(3)]
          stream_bind | (simp add: q; fail))+)
  then show ?thesis unfolding submits_def by fastforce
qed

lemma shader_bind_words: "submits 8 (virgl_cmd_bind_shader ty h)"
  by (rule submitsI [OF stream_one [OF encodes_bind_shader]]) simp_all

lemma colored_quad_result:
  assumes ok: "v_ok env lk v"
  shows "\<exists>r' v'. chip_virgl_draw_colored_quad env x y w h r g b a v = Some (r', v') \<and> calm env lk v v'"
proof (cases "\<not> d_virgl_2d_ready (v_disp v) \<or> \<not> v_shaders_ok v \<or> v_vbuf_res v = 0 \<or> v_ve v = 0")
  case True
  then have "chip_virgl_draw_colored_quad env x y w h r g b a v = Some (False, v)" by (auto simp: chip_virgl_draw_colored_quad_def)
  then show ?thesis using calm_refl [OF ok] by blast
next
  case False
  define verts where "verts = quad_verts (to_ndc x (g_fb_width (v_gs v))) (to_ndc y (g_fb_height (v_gs v)))
     (to_ndc (x + w) (g_fb_width (v_gs v))) (to_ndc (y + h) (g_fb_height (v_gs v))) [r, g, b, a] [r, g, b, a] [r, g, b, a] [r, g, b, a]"
  have len: "length verts = 48" by (simp add: verts_def length_quad_verts)
  obtain cb q cb' v1 where s: "filled_cmd 96 (draw_quad_words (v_vbuf_res v) verts) = Some cb"
    "v_submit env (d_virgl_2d_ctx (v_disp v)) cb v = Some (q, cb', v1)" "calm env lk v v1"
    using submit_result [where ctx = "d_virgl_2d_ctx (v_disp v)", OF ok quad_words [OF len, of "v_vbuf_res v"]] by blast
  obtain r2 v2 where f: "in_io (chip_ResourceFlush env (g_resource_id (v_gs v1)) x y w h) v1 = Some (r2, v2)" "calm env lk v1 v2"
    using in_io_flush [OF calm_ok [OF s(3) ok]] by blast
  have run: "chip_virgl_draw_colored_quad env x y w h r g b a v = Some (if q then (q, v2) else (q, v1))"
    using False s(1,2) f(1) by (simp add: chip_virgl_draw_colored_quad_def Let_def verts_def)
  show ?thesis unfolding run using s(3) calm_trans [OF s(3) f(2)] by (cases q) auto
qed

lemma textured_quad_result:
  assumes ok: "v_ok env lk v"
  shows "\<exists>r v'. chip_comp_draw_textured_quad env x y w h s0 t0 s1 t1 lin v = Some (r, v') \<and> calm env lk v v'"
proof (cases "\<not> d_virgl_2d_ready (v_disp v) \<or> \<not> v_shaders_ok v \<or> v_tex_view v = 0 \<or> v_vbuf_res v = 0")
  case True
  then have "chip_comp_draw_textured_quad env x y w h s0 t0 s1 t1 lin v = Some (False, v)" by (auto simp: chip_comp_draw_textured_quad_def)
  then show ?thesis using calm_refl [OF ok] by blast
next
  case False
  let ?ctx = "d_virgl_2d_ctx (v_disp v)"
  define verts where "verts = quad_verts (to_ndc x (g_fb_width (v_gs v))) (to_ndc y (g_fb_height (v_gs v)))
     (to_ndc (x + w) (g_fb_width (v_gs v))) (to_ndc (y + h) (g_fb_height (v_gs v))) [s0, t0, F_0, F_1] [s1, t0, F_0, F_1] [s1, t1, F_0, F_1] [s0, t1, F_0, F_1]"
  have len: "length verts = 48" by (simp add: verts_def length_quad_verts)
  obtain cb q cb' v1 where s: "filled_cmd 128 (textured_words v verts lin) = Some cb"
    "v_submit env ?ctx cb v = Some (q, cb', v1)" "calm env lk v v1"
    using submit_result [where ctx = ?ctx, OF ok textured_quad_words [OF len, of v lin]] by blast
  have ok1: "v_ok env lk v1" by (rule calm_ok [OF s(3) ok])
  obtain r2 v2 where f: "in_io (chip_ResourceFlush env (g_resource_id (v_gs v1)) x y w h) v1 = Some (r2, v2)" "calm env lk v1 v2"
    using in_io_flush [OF ok1] by blast
  define v3 where "v3 = (if q then v2 else v1)"
  have c3: "calm env lk v v3" using s(3) calm_trans [OF s(3) f(2)] by (simp add: v3_def)
  obtain cb2 q2 cb2' v4 where s2: "filled_cmd 8 (virgl_cmd_bind_shader PIPE_SHADER_FRAGMENT (v_fs v3)) = Some cb2"
    "v_submit env ?ctx cb2 v3 = Some (q2, cb2', v4)" "calm env lk v3 v4"
    using submit_result [where ctx = ?ctx, OF calm_ok [OF c3 ok] shader_bind_words [of PIPE_SHADER_FRAGMENT "v_fs v3"]] by blast
  have "chip_comp_draw_textured_quad env x y w h s0 t0 s1 t1 lin v = Some (q, v4)"
    using False s(1,2) f(1) s2(1,2) by (simp add: chip_comp_draw_textured_quad_def Let_def verts_def v3_def split: if_splits)
  then show ?thesis using calm_trans [OF c3 s2(3)] by blast
qed

section \<open>Compositing\<close>

lemma bind_blend_result:
  assumes "v_ok env lk v"
  shows "\<exists>r v'. bind_blend env ctx b v = Some (r, v') \<and> calm env lk v v'"
proof -
  have "submits 8 (virgl_cmd_bind_object OBJECT_BLEND b)"
    by (rule submitsI [OF stream_one [OF encodes_bind_destroy(1)]]) simp_all
  then show ?thesis using submit_result [OF assms, of 8 "virgl_cmd_bind_object OBJECT_BLEND b" ctx] by (auto simp: bind_blend_def)
qed

lemma comp_bitmap_result:
  assumes ok: "v_ok env lk v" and tex: "v_tex_res v = 0"
    and src: "src + sy * bpr + sx * 4 \<noteq> 0 \<Longrightarrow> readable mem (src + sy * bpr + sx * 4) bpr sw sh"
  shows "\<exists>r v'. comp_bitmap k env mem src bpr fmt sx sy sw sh dx dy dw dh flags v = Some (r, v') \<and> walks env lk v v' \<and> v_tex_res v' = 0
     \<and> (\<forall>e. r = Inl e \<longrightarrow> e = COMPERR_SoftwareFallback k \<or> e = COMPERR_OutOfMemory k)"
proof (cases "fmt \<notin> {RGBFB_A8R8G8B8, RGBFB_R8G8B8A8, RGBFB_B8G8R8A8, RGBFB_A8B8G8R8} \<and> chip_format_bpp fmt \<noteq> 4
    \<or> sx <s 0 \<or> sy <s 0 \<or> sw \<le>s 0 \<or> sh \<le>s 0")
  case True
  then have "comp_bitmap k env mem src bpr fmt sx sy sw sh dx dy dw dh flags v = Some (Inl (COMPERR_SoftwareFallback k), v)"
    by (auto simp: comp_bitmap_def Let_def)
  then show ?thesis using walks_refl [OF ok] tex by auto
next
  case False
  let ?p = "src + sy * bpr + sx * 4"
  obtain r1 v1 where u: "chip_comp_upload_bitmap env mem ?p bpr sw sh (fmt = RGBFB_A8R8G8B8) v = Some (r1, v1)" "walks env lk v v1"
    "\<not> r1 \<longrightarrow> v_tex_res v1 = 0"
    using upload_bitmap_result [OF ok src, of "fmt = RGBFB_A8R8G8B8"] tex by auto
  obtain r2 v2 where q: "chip_comp_draw_textured_quad env dx dy dw dh F_0 F_0 F_1 F_1 (flags AND COMPFLAG_SrcFilter k \<noteq> 0) v1 = Some (r2, v2)" "calm env lk v1 v2"
    using textured_quad_result [OF walks_ok [OF u(2)]] by blast
  obtain v3 where f: "chip_comp_free_texture env v2 = Some v3" "walks env lk v2 v3" "v_tex_res v3 = 0"
    using free_texture_result [OF calm_ok [OF q(2) walks_ok [OF u(2)]]] by blast
  have w3: "walks env lk v v3" by (rule walks_trans [OF u(2) walks_trans [OF calm_walks [OF walks_ok [OF u(2)] q(2)] f(2)]])
  have run: "comp_bitmap k env mem src bpr fmt sx sy sw sh dx dy dw dh flags v
      = Some (if \<not> r1 then (Inl (COMPERR_OutOfMemory k), v1) else (Inr r2, v3))"
    using False u(1) q(1) f(1) by (auto simp: comp_bitmap_def Let_def)
  show ?thesis unfolding run using u(2,3) w3 f(3) by (cases r1) auto
qed

lemma composite_result:
  assumes ok: "v_ok env lk v" and tex: "v_tex_res v = 0"
    and src: "bm \<noteq> COMPSRC_SOLIDCOLOR k \<Longrightarrow> src + sy * bpr + sx * 4 \<noteq> 0 \<Longrightarrow> readable mem (src + sy * bpr + sx * 4) bpr sw sh"
  shows "\<exists>e v'. chip_virgl_composite k env mem op bm src bpr fmt sx sy sw sh dx dy dw dh flags color v = Some (e, v')
     \<and> walks env lk v v' \<and> v_tex_res v' = 0 \<and> (\<forall>e'. comp_refuses k op bm sw sh dw dh flags v = Some (Some e') \<longrightarrow> e = e' \<and> v' = v)"
proof -
  have len: "length (v_blends v) = 15" using ok by (simp add: v_ok_def)
  have "\<exists>q. comp_refuses k op bm sw sh dw dh flags v = Some q"
    using len by (auto simp: comp_refuses_def rd_def word_le_nat_alt)
  then obtain q where q: "comp_refuses k op bm sw sh dw dh flags v = Some q" by blast
  show ?thesis
  proof (cases q)
    case (Some e)
    then have "chip_virgl_composite k env mem op bm src bpr fmt sx sy sw sh dx dy dw dh flags color v = Some (e, v)"
      using q by (simp add: chip_virgl_composite_def)
    then show ?thesis using walks_refl [OF ok] tex q Some by auto
  next
    case None
    have "\<not> 15 \<le> op" using q None by (auto simp: comp_refuses_def split: if_splits)
    then have op: "unat op < 15" by (simp add: word_le_nat_alt)
    let ?ctx = "d_virgl_2d_ctx (v_disp v)"
    obtain r1 v1 where b: "bind_blend env ?ctx (v_blends v ! unat op) v = Some (r1, v1)" "calm env lk v v1"
      using bind_blend_result [OF ok] by blast
    have ok1: "v_ok env lk v1" by (rule calm_ok [OF b(2) ok])
    have tex1: "v_tex_res v1 = 0" using calm_tex [OF b(2)] tex by simp
    obtain r2 v2 where d: "(if bm = COMPSRC_SOLIDCOLOR k then do { (ok, v) \<leftarrow> comp_solid env dx dy dw dh color v1; Some (Inr ok, v) }
        else comp_bitmap k env mem src bpr fmt sx sy sw sh dx dy dw dh flags v1) = Some (r2, v2)" "walks env lk v1 v2" "v_tex_res v2 = 0"
    proof (cases "bm = COMPSRC_SOLIDCOLOR k")
      case True
      obtain q' w where c: "comp_solid env dx dy dw dh color v1 = Some (q', w)" "calm env lk v1 w"
        using colored_quad_result [OF ok1] unfolding comp_solid_def by blast
      then show ?thesis using that [of "Inr q'" w] True calm_walks [OF ok1 c(2)] calm_tex [OF c(2)] tex1 by simp
    next
      case False
      then show ?thesis using that comp_bitmap_result [OF ok1 tex1 src [OF False]] by simp blast
    qed
    obtain r3 v3 where e: "bind_blend env ?ctx (v_blend v2) v2 = Some (r3, v3)" "calm env lk v2 v3"
      using bind_blend_result [OF walks_ok [OF d(2)]] by blast
    have run: "chip_virgl_composite k env mem op bm src bpr fmt sx sy sw sh dx dy dw dh flags color v
        = Some (if \<not> r1 then (COMPERR_Generic k, v1) else case r2 of Inl e \<Rightarrow> (e, v2)
             | Inr ok \<Rightarrow> (if \<not> ok then COMPERR_Generic k else COMPERR_Success k, v3))"
      using q None b(1) d(1) e(1) op len by (simp add: chip_virgl_composite_def Let_def rd_def split: sum.split)
    have w: "walks env lk v v1" "walks env lk v v2" "walks env lk v v3"
      using calm_walks [OF ok b(2)] walks_trans d(2) calm_walks [OF walks_ok [OF d(2)] e(2)] by blast+
    have t: "v_tex_res v3 = 0" using calm_tex [OF e(2)] d(3) by simp
    show ?thesis unfolding run using w t d(3) tex1 q None by (cases r1; cases r2) auto
  qed
qed

end
