(* ===== verification/Virgl_2d_Properties.thy ===== *)
theory Virgl_2d_Properties
  imports Virgl_2d_Correct Flush_Properties
begin

text \<open>
  The property of the virgl context of the 2D driver, on a driver that has negotiated virgl and
  owns the screen of \<open>Flush_Properties\<close>.
\<close>

definition demo_v2d :: v2d where
  "demo_v2d = \<lparr>v_disp = demo_disp\<lparr>d_gs := (d_gs demo_disp)\<lparr>g_has_virgl := True, g_virgl_caps_valid := True, g_fb_dma_count := 0\<rparr>,
       d_fb_dma_count2 := 0\<rparr>,
     v_blend = 0, v_blend_alpha = 0, v_dsa = 0, v_rast = 0, v_vs = 0, v_fs = 0, v_fs_tex = 0, v_res_w = 0, v_res_h = 0, v_surface = 0,
     v_sampler = 0, v_sampler_linear = 0, v_shaders_ok = False, v_samplers_ok = False, v_ve = 0, v_vbuf_res = 0,
     v_tex_res = 0, v_tex_view = 0, v_tex_w = 0, v_tex_h = 0, v_next_handle = 0, v_blends = replicate 15 0\<rparr>"

lemma demo_v2d_ok: "v_ok demo_env 0 demo_v2d"
proof -
  have "gpu_ok demo_env 0 ((d_gs demo_disp)\<lparr>g_has_virgl := a, g_virgl_caps_valid := b, g_fb_dma_count := c\<rparr>) = gpu_ok demo_env 0 (d_gs demo_disp)"
    for a b c by (simp add: gpu_ok_def)
  then show ?thesis using demo_disp_ok(4) by (simp add: v_ok_def demo_v2d_def)
qed



end
