(* ===== verification/Composite_Properties.thy ===== *)
theory Composite_Properties
  imports Composite_Correct Virgl_2d_Properties
begin

text \<open>
  The properties of hardware compositing: the upload of a bitmap, and the hook over the method of
  graphics.library.
\<close>

section \<open>Upload\<close>

text \<open>
  Property C32. The upload of a bitmap of at most 1024 by 1024 pixels, in strips of at most 15000
  pixels.  Whatever the device answers, the call returns; every submission it makes is one inline
  write the host can parse, with the rows \<open>r\<close> to \<open>r + n - 1\<close> of the bitmap at row \<open>y + r\<close> of the
  texture, complete (no word is lost to the size of the command buffer); the strips follow each
  other without gap or overlap; and if the call returns TRUE they cover the whole bitmap.
\<close>

theorem upload_covers_bitmap:
  assumes "v_ok env lk v" "w \<noteq> 0" "w \<le> 1024" "h \<noteq> 0" "h \<le> 1024" "readable mem src bpr w h"
  shows "\<exists>r v' ss ks m. chip_comp_upload_pixels_32bpp env mem res src bpr x y w h v = Some (r, v') \<and> v_ok env lk v'
     \<and> i_kicks (g_io (v_gs v')) = i_kicks (g_io (v_gs v)) @ ks
     \<and> list_all2 (\<lambda>s k. streamed (d_virgl_2d_ctx (v_disp v)) [strip_cmd mem res src bpr x y w s] k) ss ks
     \<and> concat (map (\<lambda>(r, n). [r..<r + n]) ss) = [0..<m] \<and> m \<le> unat h \<and> (r \<longrightarrow> m = unat h)"
proof -
  obtain r v' ss ks m where u: "chip_comp_upload_pixels_32bpp env mem res src bpr x y w h v = Some (r, v')" "calm env lk v v'"
    "ctx_err v \<longrightarrow> ctx_err v'" "i_kicks (g_io (v_gs v')) = i_kicks (g_io (v_gs v)) @ ks"
    "list_all2 (\<lambda>s k. streamed (d_virgl_2d_ctx (v_disp v)) [strip_cmd mem res src bpr x y w s] k) ss ks"
    "m \<le> unat h" "rows_of ss = [0..<m]" "r \<longrightarrow> m = unat h"
    using upload_result [OF assms, of res x y] by (elim exE conjE) (rule that)
  show ?thesis using u calm_ok [OF u(2) assms(1)] unfolding rows_of_def by blast
qed

lemma upload_covers_bitmap_witness:
  "readable (replicate 64 1) 4 16 4 3 \<and> (\<exists>r v' m. chip_comp_upload_pixels_32bpp demo_env (replicate 64 1) 5 4 16 0 0 4 3 demo_v2d = Some (r, v')
     \<and> v_ok demo_env 0 v' \<and> m \<le> (3 :: nat) \<and> (r \<longrightarrow> m = 3))"
proof
  have a: "ld32 (4 + of_nat row * 16 + of_nat col * 4) (replicate 64 1) \<noteq> None" if "row < 3" "col < 4" for row col :: nat
  proof -
    have "row \<in> {0, 1, 2}" "col \<in> {0, 1, 2, 3}" using that by auto
    then show ?thesis by (auto simp: ld32_def cpu_ld32_def get_bytes_def)
  qed
  then show r: "readable (replicate 64 1) 4 16 4 3" by (simp add: readable_def)
  have "(3 :: u32) \<noteq> 0" "(4 :: u32) \<noteq> 0" "(4 :: u32) \<le> 1024" "(3 :: u32) \<le> 1024" by simp_all
  then obtain r v' m where "chip_comp_upload_pixels_32bpp demo_env (replicate 64 1) 5 4 16 0 0 4 3 demo_v2d = Some (r, v')" "v_ok demo_env 0 v'"
    "m \<le> unat (3 :: u32)" "r \<longrightarrow> m = unat (3 :: u32)"
    using upload_covers_bitmap [OF demo_v2d_ok _ _ _ _ r, of 5 0 0] by blast
  then show "\<exists>r v' m. chip_comp_upload_pixels_32bpp demo_env (replicate 64 1) 5 4 16 0 0 4 3 demo_v2d = Some (r, v')
     \<and> v_ok demo_env 0 v' \<and> m \<le> (3 :: nat) \<and> (r \<longrightarrow> m = 3)" by auto
qed

section \<open>The hook\<close>

definition under_lock :: "(io \<Rightarrow> io) \<Rightarrow> v2d \<Rightarrow> v2d" where
  "under_lock f = on_vgs (\<lambda>gs. gs\<lparr>g_io := f (g_io gs)\<rparr>)"

lemma lock_ok: "v_ok env lk v \<Longrightarrow> v_ok env (Suc lk) (under_lock obtain_io_lock v)"
  unfolding under_lock_def v_ok_def by (auto simp: vgs_upd gpu_ok_def obtain_io_lock_def ready_depth io_idle_def cmd3d_ok_def)

lemma unlock_ok: "v_ok env (Suc lk) v \<Longrightarrow> v_ok env lk (under_lock release_io_lock v)"
  unfolding under_lock_def v_ok_def by (auto simp: vgs_upd gpu_ok_def release_io_lock_def ready_depth io_idle_def cmd3d_ok_def)

text \<open>The address of the first pixel composited from.\<close>

definition source_pixels :: "gfx \<Rightarrow> u32 \<Rightarrow> comp_tags \<Rightarrow> u32" where
  "source_pixels k src t = (if src \<noteq> 0 then bm_planes0 k src + ct_src_y t * ucast (bm_bpr k src) else 0) + ct_src_x t * 4"

definition source_readable :: "gfx \<Rightarrow> u32 \<Rightarrow> comp_tags \<Rightarrow> bytes \<Rightarrow> bool" where
  "source_readable k src t mem \<longleftrightarrow> (src \<noteq> COMPSRC_SOLIDCOLOR k \<and> source_pixels k src t \<noteq> 0 \<longrightarrow>
     readable mem (source_pixels k src t) (if src \<noteq> 0 then ucast (bm_bpr k src) else 0) (ct_src_w t) (ct_src_h t))"

lemma locked_result:
  assumes ok: "v_ok env lk (h_v h)" and tex: "v_tex_res (h_v h) = 0"
    and src: "src \<noteq> COMPSRC_SOLIDCOLOR k \<Longrightarrow> data + ct_src_y t * bpr + ct_src_x t * 4 \<noteq> 0 \<Longrightarrow>
      readable (d_mem (v_disp (h_v h))) (data + ct_src_y t * bpr + ct_src_x t * 4) bpr (ct_src_w t) (ct_src_h t)"
  shows "\<exists>c v'. locked_composite k env op src data bpr fmt t h = Some (c, h\<lparr>h_v := v'\<rparr>) \<and> v_ok env lk v'
     \<and> kicks_ok (g_io (v_gs (h_v h))) (g_io (v_gs v')) \<and> v_tex_res v' = 0 \<and> (\<exists>gs'. v_disp v' = (v_disp (h_v h))\<lparr>d_gs := gs'\<rparr>)"
proof -
  let ?v1 = "under_lock obtain_io_lock (h_v h)"
  have f1: "d_mem (v_disp ?v1) = d_mem (v_disp (h_v h))" "v_tex_res ?v1 = 0" "i_kicks (g_io (v_gs ?v1)) = i_kicks (g_io (v_gs (h_v h)))"
    "v_disp ?v1 = (v_disp (h_v h))\<lparr>d_gs := v_gs ?v1\<rparr>"
    using tex by (simp_all add: under_lock_def on_vgs_def on_vdisp_def obtain_io_lock_def)
  obtain c v2 where c: "chip_virgl_composite k env (d_mem (v_disp ?v1)) op src data bpr fmt (ct_src_x t) (ct_src_y t) (ct_src_w t) (ct_src_h t)
       (ct_dst_x t) (ct_dst_y t) (ct_dst_w t) (ct_dst_h t) (ct_flags t) (ct_color0 t) ?v1 = Some (c, v2)" "walks env (Suc lk) ?v1 v2" "v_tex_res v2 = 0"
    using composite_result [OF lock_ok [OF ok] f1(2), of src k data "ct_src_y t" bpr "ct_src_x t" "d_mem (v_disp ?v1)" "ct_src_w t" "ct_src_h t"] src
    unfolding f1(1) by blast
  let ?v3 = "under_lock release_io_lock v2"
  have "locked_composite k env op src data bpr fmt t h = Some (c, h\<lparr>h_v := ?v3\<rparr>)"
    using c(1) by (simp add: locked_composite_def under_lock_def)
  moreover have "kicks_ok (g_io (v_gs (h_v h))) (g_io (v_gs ?v3))"
    using c(2) f1(3) by (auto simp: walks_def kicks_ok_def under_lock_def vgs_upd release_io_lock_def)
  moreover have "v_tex_res ?v3 = 0" using c(3) by (simp add: under_lock_def)
  moreover have "\<exists>gs'. v_disp ?v3 = (v_disp (h_v h))\<lparr>d_gs := gs'\<rparr>"
  proof -
    obtain gs2 where "v_disp v2 = (v_disp ?v1)\<lparr>d_gs := gs2\<rparr>" using c(2) by (auto simp: walks_def)
    then have "v_disp ?v3 = (v_disp (h_v h))\<lparr>d_gs := gs2\<lparr>g_io := release_io_lock (g_io gs2)\<rparr>\<rparr>"
      by (simp add: under_lock_def on_vgs_def on_vdisp_def)
    then show ?thesis by blast
  qed
  ultimately show ?thesis using unlock_ok [OF walks_ok [OF c(2)]] by blast
qed

text \<open>One call of the hook: the original method ran once, and exactly one counter went up.\<close>

definition hooked_once :: "env \<Rightarrow> nat \<Rightarrow> original \<Rightarrow> u32 \<Rightarrow> u32 \<Rightarrow> u32 \<Rightarrow> u32 \<Rightarrow> u32 \<Rightarrow> hook \<Rightarrow> u32 \<Rightarrow> hook \<Rightarrow> bool" where
  "hooked_once env lk orig success op src dst tags h c h' \<longleftrightarrow>
     v_ok env lk (h_v h') \<and> kicks_ok (g_io (v_gs (h_v h))) (g_io (v_gs (h_v h'))) \<and> v_tex_res (h_v h') = 0
     \<and> d_mem (v_disp (h_v h')) = snd (orig op src dst tags (d_mem (v_disp (h_v h))))
     \<and> h_total h' = h_total h + 1
     \<and> (c = success \<and> h_hw_count h' = h_hw_count h + 1 \<and> h_sw_count h' = h_sw_count h
        \<or> c = fst (orig op src dst tags (d_mem (v_disp (h_v h)))) \<and> h_sw_count h' = h_sw_count h + 1 \<and> h_hw_count h' = h_hw_count h)"

lemma software_once:
  assumes "v_ok env lk v'" "kicks_ok (g_io (v_gs (h_v h))) (g_io (v_gs v'))" "v_tex_res v' = 0" "d_mem (v_disp v') = d_mem (v_disp (h_v h))"
  shows "\<exists>c h'. call_original orig op src dst tags (count_sw (h\<lparr>h_v := v'\<rparr>)) = (c, h') \<and> hooked_once env lk orig s op src dst tags h c h'"
proof -
  obtain r mem where o: "orig op src dst tags (d_mem (v_disp (h_v h))) = (r, mem)" by fastforce
  let ?h' = "(count_sw (h\<lparr>h_v := v'\<rparr>))\<lparr>h_v := on_vdisp (\<lambda>d. d\<lparr>d_mem := mem\<rparr>) v'\<rparr>"
  have "call_original orig op src dst tags (count_sw (h\<lparr>h_v := v'\<rparr>)) = (r, ?h')"
    using o assms(4) by (simp add: call_original_def count_sw_def)
  moreover have "v_ok env lk (on_vdisp (\<lambda>d. d\<lparr>d_mem := mem\<rparr>) v')" using assms(1) by (simp add: v_ok_def on_vdisp_def)
  ultimately show ?thesis using assms(2,3) o by (simp add: hooked_once_def count_sw_def on_vdisp_def)
qed

lemma hardware_once:
  assumes "v_ok env lk v'" "kicks_ok (g_io (v_gs (h_v h))) (g_io (v_gs v'))" "v_tex_res v' = 0" "d_mem (v_disp v') = d_mem (v_disp (h_v h))"
  shows "\<exists>r h'. call_original orig op src dst tags (h\<lparr>h_v := v'\<rparr>) = (r, h') \<and> hooked_once env lk orig s op src dst tags h s (count_hw h')"
proof -
  obtain r mem where o: "orig op src dst tags (d_mem (v_disp (h_v h))) = (r, mem)" by fastforce
  let ?h' = "h\<lparr>h_v := on_vdisp (\<lambda>d. d\<lparr>d_mem := mem\<rparr>) v'\<rparr>"
  have "call_original orig op src dst tags (h\<lparr>h_v := v'\<rparr>) = (r, ?h')" using o assms(4) by (simp add: call_original_def)
  moreover have "v_ok env lk (on_vdisp (\<lambda>d. d\<lparr>d_mem := mem\<rparr>) v')" using assms(1) by (simp add: v_ok_def on_vdisp_def)
  ultimately show ?thesis using assms(2,3) o by (simp add: hooked_once_def count_hw_def on_vdisp_def)
qed


text \<open>A graphics library whose constants are all different, and a driver with virgl and one buffer.\<close>

definition demo_gfx :: gfx where
  "demo_gfx = \<lparr>TAG_DONE = 0, TAG_IGNORE = 1, TAG_MORE = 2, TAG_SKIP = 3, COMPTAG_SrcX = 11, COMPTAG_SrcY = 12, COMPTAG_SrcWidth = 13,
     COMPTAG_SrcHeight = 14, COMPTAG_DestX = 15, COMPTAG_DestY = 16, COMPTAG_DestWidth = 17, COMPTAG_DestHeight = 18, COMPTAG_Flags = 19,
     COMPTAG_Color0 = 20, COMPTAG_VertexArray = 21, COMPTAG_SrcAlphaMask = 22, COMPFLAG_ForceSoftware = 2, COMPFLAG_Color1Modulate = 4,
     COMPFLAG_SrcFilter = 8, COMPERR_Success = 0, COMPERR_Generic = 1, COMPERR_UnknownOperator = 2, COMPERR_SoftwareFallback = 3,
     COMPERR_Value = 4, COMPERR_OutOfMemory = 5, COMPSRC_SOLIDCOLOR = 0xFFFFFFFF, BMA_WIDTH = (\<lambda>_. 2), BMA_HEIGHT = (\<lambda>_. 1),
     BMA_PIXELFORMAT = (\<lambda>_. RGBFB_A8R8G8B8), bm_planes0 = (\<lambda>_. 4), bm_bpr = (\<lambda>_. 8)\<rparr>"

definition demo_hook :: hook where
  "demo_hook = \<lparr>h_attached = True, h_v = demo_v2d\<lparr>v_shaders_ok := True,
       v_disp := (v_disp demo_v2d)\<lparr>d_virgl_2d_ready := True, d_double_buffer := False\<rparr>\<rparr>,
     h_board_mem_size = 16, h_has_igraphics = True, h_hw_count = 0, h_sw_count = 0, h_total = 0\<rparr>"


end
