(* ===== verification/Flush_Task.thy ===== *)
theory Flush_Task
  imports Composite Screen_Modes
begin

text \<open>
  The flush task (\<open>chip_flush_task_entry\<close> in \<open>src/chip/chip_flush.c\<close>): start, the loop around \<open>Wait\<close>,
  and the shutdown.  A wake-up is the set of signals \<open>Wait\<close> returned together with what the other
  tasks did to the driver meanwhile; the loop consumes a list of them and is still running when the
  list is used up.  \<open>SetSignal\<close> only clears a bit the next \<open>Wait\<close> would return again.
\<close>

section \<open>State\<close>

record flusher =
  f_v :: v2d
  f_bi :: "BoardInfo option"
  f_hotplug :: u32
  f_refresh_us :: u32
  f_sig_bit :: int
  f_dpms_level :: u32
  f_quit :: bool
  f_vsync_phase :: u8
  f_last_vsync_lo :: u32
  f_wait_vsync_task :: u32
  f_wait_vsync_mask :: u32
  f_vsync_mutex :: u32
  f_vbi_enabled :: bool
  f_soft_code :: u32                  \<comment> \<open>\<open>bi->SoftInterrupt.is_Code\<close>\<close>
  f_causes :: nat                     \<comment> \<open>calls of \<open>Cause\<close>\<close>
  f_signals :: "(u32 \<times> u32) list"    \<comment> \<open>calls of \<open>Signal\<close>, to the tasks that wait for the vertical sync\<close>
  f_test_quad :: u32
  f_hot_iter :: u32
  f_timers_armed :: u32
  f_timers_fired :: u32
  f_flush_entries :: u32
  f_flush_exits :: u32
  f_timer_pending :: bool             \<comment> \<open>local to the task, as is \<open>cycle\<close>\<close>
  f_cycle :: u32
  f_requests :: "u32 list"            \<comment> \<open>timer requests sent and not yet collected\<close>
  f_devices :: nat                    \<comment> \<open>\<open>OpenDevice\<close> without \<open>CloseDevice\<close>, \<open>GetInterface\<close> without \<open>DropInterface\<close>\<close>
  f_interfaces :: nat

text \<open>The operating system: answers of the calls at the start, and \<open>SIGBREAKF_CTRL_C\<close>.\<close>

record task_os =
  os_open_device :: bool
  os_itimer :: bool
  os_eclock_freq :: u32
  os_port_sig_bit :: nat
  os_this_task :: u32
  os_ctrl_c :: u32

record task_locals =
  l_port :: u32
  l_tr :: u32
  l_itimer :: bool
  l_flush_sig :: u32
  l_timer_sig :: u32

record wake =
  wk_signals :: u32
  wk_others :: "flusher \<Rightarrow> flusher"

definition f_disp :: "(disp \<Rightarrow> disp) \<Rightarrow> flusher \<Rightarrow> flusher" where
  "f_disp g st = st\<lparr>f_v := on_vdisp g (f_v st)\<rparr>"

definition f_stage :: "string \<Rightarrow> flusher \<Rightarrow> flusher" where
  "f_stage s = f_disp (HOT_STAGE s)"

definition in_v :: "(v2d \<Rightarrow> ('a \<times> v2d) option) \<Rightarrow> flusher \<Rightarrow> ('a \<times> flusher) option" where
  "in_v g st = do { (r, v) \<leftarrow> g (f_v st); Some (r, st\<lparr>f_v := v\<rparr>) }"

definition f_exec :: "(exec \<Rightarrow> 'a \<times> exec) \<Rightarrow> flusher \<Rightarrow> 'a \<times> flusher" where
  "f_exec g st = (let (r, gs) = with_exec g (v_gs (f_v st)) in (r, f_disp (\<lambda>d. d\<lparr>d_gs := gs\<rparr>) st))"

definition f_free :: "(exec \<Rightarrow> exec) \<Rightarrow> flusher \<Rightarrow> flusher" where
  "f_free g = f_disp (\<lambda>d. d\<lparr>d_gs := do_exec g (d_gs d)\<rparr>)"

section \<open>Start\<close>

text \<open>\<^term>\<open>None\<close>: the task returns at once.\<close>

definition flush_task_start :: "task_os \<Rightarrow> flusher \<Rightarrow> task_locals option \<times> flusher" where
  "flush_task_start os st =
     (let (port, st) = f_exec AllocSysObject st in
      if port = 0 then (None, st)
      else let (tr, st) = f_exec AllocSysObject st in
      if tr = 0 then (None, f_free (FreeSysObject port) st)
      else if \<not> os_open_device os then (None, f_free (FreeSysObject port) (f_free (FreeSysObject tr) st))
      else let st = st\<lparr>f_devices := f_devices st + 1\<rparr>;
               st = (if os_itimer os then st\<lparr>f_interfaces := f_interfaces st + 1\<rparr> else st);
               (sig_bit, st) = f_exec AllocSignal st in
      if sig_bit < 0 then
        let st = (if os_itimer os then st\<lparr>f_interfaces := f_interfaces st - 1\<rparr> else st);
            st = st\<lparr>f_devices := f_devices st - 1\<rparr> in
        (None, f_free (FreeSysObject port) (f_free (FreeSysObject tr) st))
      else let flush_sig = push_bit (nat sig_bit) 1;
               st = f_disp (\<lambda>d. d\<lparr>d_flush_task := os_this_task os, d_flush_sig_mask := flush_sig\<rparr>) st;
               st = st\<lparr>f_sig_bit := sig_bit, f_refresh_us := (if f_refresh_us st = 0 then 16667 else f_refresh_us st),
                    f_timer_pending := False, f_cycle := 0\<rparr>;
               c = d_eclock (v_disp (f_v st));
               (lo, c) = (if os_itimer os then ReadEClock c else (f_last_vsync_lo st, c));
               c = c\<lparr>ec_itimer := os_itimer os, ec_freq := (if os_itimer os then os_eclock_freq os else 0)\<rparr>;
               st = f_disp (\<lambda>d. d\<lparr>d_eclock := c\<rparr>) (st\<lparr>f_last_vsync_lo := lo\<rparr>) in
        (Some \<lparr>l_port = port, l_tr = tr, l_itimer = os_itimer os, l_flush_sig = flush_sig,
               l_timer_sig = push_bit (os_port_sig_bit os) 1\<rparr>, f_stage ''loop:enter'' st))"

section \<open>One turn of the loop\<close>

definition arm_timer :: "flusher \<Rightarrow> flusher" where
  "arm_timer st =
     (if f_timer_pending st then st
      else let st = f_stage ''timer:arming'' st;
               st = st\<lparr>f_requests := f_requests st @ [f_refresh_us st], f_timers_armed := f_timers_armed st + 1, f_timer_pending := True\<rparr> in
        f_stage ''timer:armed'' st)"

definition take_signals :: "bool \<Rightarrow> bool \<Rightarrow> flusher \<Rightarrow> flusher" where
  "take_signals was_timer was_signal st =
     (let st = (if was_timer then let st = f_stage ''timer:getmsg'' st in
                  st\<lparr>f_requests := tl (f_requests st), f_timers_fired := f_timers_fired st + 1, f_timer_pending := False\<rparr> else st) in
      if was_signal then f_stage ''flush_sig:clear'' st else st)"

text \<open>The rendezvous with a task in \<open>chip_WaitVerticalSync\<close>, under \<open>vsync_mutex\<close>.\<close>

definition wake_vsync_waiter :: "flusher \<Rightarrow> flusher" where
  "wake_vsync_waiter st =
     (if f_wait_vsync_task st \<noteq> 0 \<and> f_vsync_mutex st \<noteq> 0 then
        let vt = f_wait_vsync_task st; vm = f_wait_vsync_mask st;
            st = st\<lparr>f_wait_vsync_task := 0, f_wait_vsync_mask := 0\<rparr> in
        if vt \<noteq> 0 \<and> vm \<noteq> 0 then st\<lparr>f_signals := f_signals st @ [(vt, vm)]\<rparr> else st
      else st)"

definition flush_frame_marks :: "task_locals \<Rightarrow> flusher \<Rightarrow> flusher" where
  "flush_frame_marks l st =
     (let st = st\<lparr>f_vsync_phase := xor (f_vsync_phase st) 1\<rparr>;
          st = (if l_itimer l then
                  let (lo, c) = ReadEClock (d_eclock (v_disp (f_v st))) in f_disp (\<lambda>d. d\<lparr>d_eclock := c\<rparr>) (st\<lparr>f_last_vsync_lo := lo\<rparr>)
                else st);
          st = wake_vsync_waiter st in
      if f_vbi_enabled st \<and> f_bi st \<noteq> None \<and> f_soft_code st \<noteq> 0 then st\<lparr>f_causes := f_causes st + 1\<rparr> else st)"

abbreviation F_0_8 :: f32 where "F_0_8 \<equiv> 0x3F4CCCCD"

definition flush_overlay :: "env \<Rightarrow> flusher \<Rightarrow> flusher option" where
  "flush_overlay env st =
     (if f_test_quad st = 1 then do {
        (_, st) \<leftarrow> in_v (chip_virgl_draw_colored_quad env 200 100 160 120 F_1 F_0 F_0 F_0_8) st; Some st }
      else if f_test_quad st = 2 then do { (_, st) \<leftarrow> in_v (chip_comp_test_textured_quad env) st; Some st }
      else Some st)"

text \<open>Every 50 turns: the events register of the device.\<close>

definition on_fio :: "(io \<Rightarrow> io) \<Rightarrow> flusher \<Rightarrow> flusher" where
  "on_fio g st = st\<lparr>f_v := on_vgs (\<lambda>gs. gs\<lparr>g_io := g (g_io gs)\<rparr>) (f_v st)\<rparr>"

definition display_event :: "env \<Rightarrow> flusher \<Rightarrow> flusher option" where
  "display_event env st = do {
     ms \<leftarrow> chip_handle_display_change env \<lparr>ms_gpu = v_gs (f_v st), ms_bi = f_bi st, ms_hotplug = f_hotplug st\<rparr>;
     Some (st\<lparr>f_v := on_vgs (\<lambda>_. ms_gpu ms) (f_v st), f_bi := ms_bi ms, f_hotplug := ms_hotplug ms\<rparr>) }"

definition poll_events :: "env \<Rightarrow> flusher \<Rightarrow> flusher option" where
  "poll_events env st =
     (let io = g_io (v_gs (f_v st)); vio = i_vio io in
      if f_cycle st mod 50 = 0 \<and> v_device_cfg_base vio \<noteq> 0 then
        let (events, b) = devcfg_r32 vio 0 (i_bus io); st = on_fio (\<lambda>io. io\<lparr>i_bus := b\<rparr>) st in
        if events AND 1 \<noteq> 0 then display_event env (on_fio (\<lambda>io. io\<lparr>i_bus := devcfg_w32 vio 4 1 (i_bus io)\<rparr>) st)
        else Some st
      else Some st)"

definition flush_work :: "env \<Rightarrow> flusher \<Rightarrow> flusher option" where
  "flush_work env st = do {
     st \<leftarrow> (if g_virgl_ctx_error (v_gs (f_v st)) then do { (_, st) \<leftarrow> in_v (chip_virgl_recover_2d env) st; Some st } else Some st);
     let st = f_stage ''flush_all:enter'' st;
     let st = st\<lparr>f_flush_entries := f_flush_entries st + 1\<rparr>;
     d \<leftarrow> chip_flush_all env (v_disp (f_v st));
     let st = f_disp (\<lambda>_. d) st;
     let st = st\<lparr>f_flush_exits := f_flush_exits st + 1\<rparr>;
     let st = f_stage ''flush_all:exit'' st;
     flush_overlay env st }"

definition await_signals :: "wake \<Rightarrow> flusher \<Rightarrow> flusher" where
  "await_signals w st =
     (let st = f_stage ''loop:top'' (st\<lparr>f_hot_iter := f_hot_iter st + 1\<rparr>);
          st = arm_timer st in
      f_stage ''wait:return'' (wk_others w (f_stage ''wait:enter'' st)))"

text \<open>After the tests that leave the loop.\<close>

definition flush_turn :: "task_locals \<Rightarrow> env \<Rightarrow> u32 \<Rightarrow> flusher \<Rightarrow> flusher option" where
  "flush_turn l env signals st =
     (let st = take_signals (signals AND l_timer_sig l \<noteq> 0) (signals AND l_flush_sig l \<noteq> 0) st in
      if f_dpms_level st \<noteq> 0 then
        let st = f_stage ''dpms:skip'' st in Some (st\<lparr>f_cycle := f_cycle st + 1\<rparr>)
      else do {
        st \<leftarrow> flush_work env (flush_frame_marks l st);
        poll_events env (st\<lparr>f_cycle := f_cycle st + 1\<rparr>) })"

text \<open>The result says whether the loop goes on.\<close>

definition flush_iter :: "task_os \<Rightarrow> task_locals \<Rightarrow> env \<Rightarrow> wake \<Rightarrow> flusher \<Rightarrow> (bool \<times> flusher) option" where
  "flush_iter os l env w st =
     (let st = await_signals w st in
      if wk_signals w AND os_ctrl_c os \<noteq> 0 \<or> f_quit st then Some (False, st)
      else do { st \<leftarrow> flush_turn l env (wk_signals w) st; Some (True, st) })"

text \<open>The result says whether the loop has ended.\<close>

fun flush_loop :: "task_os \<Rightarrow> task_locals \<Rightarrow> env \<Rightarrow> wake list \<Rightarrow> flusher \<Rightarrow> (bool \<times> flusher) option" where
  "flush_loop os l env [] st = Some (f_quit st, st)"
| "flush_loop os l env (w # ws) st =
     (if f_quit st then Some (True, st)
      else do { (go, st) \<leftarrow> flush_iter os l env w st; if go then flush_loop os l env ws st else Some (True, st) })"

section \<open>Shutdown\<close>

definition flush_task_stop :: "task_locals \<Rightarrow> flusher \<Rightarrow> flusher" where
  "flush_task_stop l st =
     (let st = (if f_timer_pending st then st\<lparr>f_requests := tl (f_requests st)\<rparr> else st);
          st = f_disp (\<lambda>d. d\<lparr>d_flush_sig_mask := 0, d_flush_task := 0\<rparr>) st;
          st = (if f_sig_bit st \<ge> 0 then (f_free (FreeSignal (f_sig_bit st)) st)\<lparr>f_sig_bit := -1\<rparr> else st);
          st = f_disp (\<lambda>d. d\<lparr>d_eclock := (d_eclock d)\<lparr>ec_itimer := False\<rparr>\<rparr>) st;
          st = (if l_itimer l then st\<lparr>f_interfaces := f_interfaces st - 1\<rparr> else st);
          st = st\<lparr>f_devices := f_devices st - 1\<rparr> in
      f_free (FreeSysObject (l_port l)) (f_free (FreeSysObject (l_tr l)) st))"

definition chip_flush_task_entry :: "task_os \<Rightarrow> env \<Rightarrow> wake list \<Rightarrow> flusher \<Rightarrow> (bool \<times> flusher) option" where
  "chip_flush_task_entry os env ws st =
     (let (l, st) = flush_task_start os st in
      case l of None \<Rightarrow> Some (True, st)
      | Some l \<Rightarrow> do {
          (ended, st) \<leftarrow> flush_loop os l env ws st;
          Some (ended, if ended then flush_task_stop l st else st) })"

end
