(* ===== verification/Flush_Task_Correct.thy ===== *)
theory Flush_Task_Correct
  imports Flush_Task Composite_Correct Screen_Modes_Correct
begin

text \<open>
  The discipline of the flush task: at most one timer request is in flight and one is whenever the
  task waits; and what a turn of the loop does for the tasks that wait for it.
\<close>

section \<open>The timer\<close>

text \<open>The part of the state only the flush task writes.\<close>

definition timer_view :: "flusher \<Rightarrow> u32 \<times> u32 \<times> bool \<times> u32 list \<times> u32 \<times> u32 \<times> nat \<times> nat" where
  "timer_view st = (f_timers_armed st, f_timers_fired st, f_timer_pending st, f_requests st, f_flush_entries st, f_flush_exits st,
     f_devices st, f_interfaces st)"

definition timer_ok :: "nat \<times> nat \<Rightarrow> flusher \<Rightarrow> bool" where
  "timer_ok dv st \<longleftrightarrow> f_timers_armed st = f_timers_fired st + (if f_timer_pending st then 1 else 0)
     \<and> length (f_requests st) = (if f_timer_pending st then 1 else 0) \<and> f_flush_entries st = f_flush_exits st
     \<and> (f_devices st, f_interfaces st) = dv"

lemma timer_ok_view: "timer_view b = timer_view a \<Longrightarrow> timer_ok dv b = timer_ok dv a"
  by (simp add: timer_view_def timer_ok_def)

lemma f_disp_view [simp]: "timer_view (f_disp g st) = timer_view st" "timer_view (f_stage s st) = timer_view st"
  "timer_view (on_fio h st) = timer_view st" "timer_view (f_free k st) = timer_view st"
  by (simp_all add: f_disp_def f_stage_def on_fio_def f_free_def timer_view_def)

lemma in_v_view: "in_v g st = Some (r, st') \<Longrightarrow> timer_view st' = timer_view st"
  by (auto simp: in_v_def timer_view_def bind_eq_Some_conv)

lemma stage_fields [simp]: "f_timer_pending (f_stage s st) = f_timer_pending st" "f_requests (f_stage s st) = f_requests st"
  "f_timers_armed (f_stage s st) = f_timers_armed st" "f_timers_fired (f_stage s st) = f_timers_fired st"
  "f_flush_entries (f_stage s st) = f_flush_entries st" "f_flush_exits (f_stage s st) = f_flush_exits st"
  "f_dpms_level (f_stage s st) = f_dpms_level st" "f_quit (f_stage s st) = f_quit st" "f_cycle (f_stage s st) = f_cycle st"
  "f_hot_iter (f_stage s st) = f_hot_iter st" "f_devices (f_stage s st) = f_devices st" "f_interfaces (f_stage s st) = f_interfaces st"
  "f_refresh_us (f_stage s st) = f_refresh_us st"
  by (simp_all add: f_stage_def f_disp_def)

lemma arm_timer_ok:
  assumes "timer_ok dv st"
  shows "timer_ok dv (arm_timer st)" "f_timer_pending (arm_timer st)"
  using assms by (auto simp: arm_timer_def timer_ok_def Let_def)

lemma take_signals_ok:
  assumes "timer_ok dv st" "f_timer_pending st"
  shows "timer_ok dv (take_signals t s st)"
  using assms by (cases "f_requests st") (auto simp: take_signals_def timer_ok_def Let_def)

lemma frame_marks_view: "timer_view (flush_frame_marks l st) = timer_view st"
  by (simp add: flush_frame_marks_def wake_vsync_waiter_def Let_def timer_view_def f_disp_def split: prod.split)

lemma overlay_view: "flush_overlay env st = Some st' \<Longrightarrow> timer_view st' = timer_view st"
  by (auto simp: flush_overlay_def bind_eq_Some_conv split: if_splits dest: in_v_view)

lemma work_timer:
  assumes "timer_ok dv st" "flush_work env st = Some st'"
  shows "timer_ok dv st'"
proof -
  obtain a where a: "(if g_virgl_ctx_error (v_gs (f_v st)) then do { (_, st) \<leftarrow> in_v (chip_virgl_recover_2d env) st; Some st } else Some st) = Some a"
    using assms(2) by (auto simp: flush_work_def bind_eq_Some_conv)
  then have va: "timer_view a = timer_view st" using in_v_view by (auto simp: bind_eq_Some_conv split: if_splits)
  let ?b = "(f_stage ''flush_all:enter'' a)\<lparr>f_flush_entries := f_flush_entries (f_stage ''flush_all:enter'' a) + 1\<rparr>"
  obtain d where d: "flush_overlay env (f_stage ''flush_all:exit'' ((f_disp (\<lambda>_. d) ?b)\<lparr>f_flush_exits := f_flush_exits (f_disp (\<lambda>_. d) ?b) + 1\<rparr>)) = Some st'"
    using assms(2) a by (auto simp: flush_work_def bind_eq_Some_conv Let_def)
  let ?c = "f_stage ''flush_all:exit'' ((f_disp (\<lambda>_. d) ?b)\<lparr>f_flush_exits := f_flush_exits (f_disp (\<lambda>_. d) ?b) + 1\<rparr>)"
  have "timer_view st' = timer_view ?c" by (rule overlay_view [OF d])
  moreover have "timer_ok dv ?c" using assms(1) va by (simp add: timer_ok_def timer_view_def f_disp_def)
  ultimately show ?thesis using timer_ok_view by blast
qed

lemma display_event_view: "display_event env st = Some st' \<Longrightarrow> timer_view st' = timer_view st"
  by (auto simp: display_event_def timer_view_def bind_eq_Some_conv)

lemma poll_view:
  assumes "poll_events env st = Some st'"
  shows "timer_view st' = timer_view st"
proof -
  let ?io = "g_io (v_gs (f_v st))"
  obtain events b where r: "devcfg_r32 (i_vio ?io) 0 (i_bus ?io) = (events, b)" by fastforce
  let ?s1 = "on_fio (\<lambda>io. io\<lparr>i_bus := b\<rparr>) st"
  let ?s2 = "on_fio (\<lambda>io. io\<lparr>i_bus := devcfg_w32 (i_vio ?io) 4 1 (i_bus io)\<rparr>) ?s1"
  show ?thesis
  proof (cases "(f_cycle st mod 50 = 0 \<and> v_device_cfg_base (i_vio ?io) \<noteq> 0) \<and> events AND 1 \<noteq> 0")
    case False
    then have "st' = st \<or> st' = ?s1" using assms by (simp add: poll_events_def Let_def r split: if_splits)
    then show ?thesis by auto
  next
    case True
    then have "display_event env ?s2 = Some st'" using assms by (simp add: poll_events_def Let_def r)
    then show ?thesis by (simp add: display_event_view)
  qed
qed

definition leaves_timer :: "wake \<Rightarrow> bool" where
  "leaves_timer w \<longleftrightarrow> (\<forall>st. timer_view (wk_others w st) = timer_view st)"

lemma await_timer:
  assumes "timer_ok dv st" "leaves_timer w"
  shows "timer_ok dv (await_signals w st)" "f_timer_pending (await_signals w st)"
proof -
  let ?a = "arm_timer (f_stage ''loop:top'' (st\<lparr>f_hot_iter := f_hot_iter st + 1\<rparr>))"
  have "timer_ok dv (f_stage ''loop:top'' (st\<lparr>f_hot_iter := f_hot_iter st + 1\<rparr>))" using assms(1) by (simp add: timer_ok_def)
  note a = arm_timer_ok [OF this]
  have v: "timer_view (await_signals w st) = timer_view ?a" using assms(2) by (simp add: leaves_timer_def await_signals_def Let_def)
  show "timer_ok dv (await_signals w st)" "f_timer_pending (await_signals w st)"
    using a timer_ok_view [OF v] v by (simp_all add: timer_view_def)
qed

lemma turn_timer:
  assumes "timer_ok dv st" "f_timer_pending st" "flush_turn l env signals st = Some st'"
  shows "timer_ok dv st'"
proof -
  let ?c = "take_signals (signals AND l_timer_sig l \<noteq> 0) (signals AND l_flush_sig l \<noteq> 0) st"
  have c: "timer_ok dv ?c" by (rule take_signals_ok [OF assms(1,2)])
  show ?thesis
  proof (cases "f_dpms_level ?c \<noteq> 0")
    case True
    then have "st' = (f_stage ''dpms:skip'' ?c)\<lparr>f_cycle := f_cycle (f_stage ''dpms:skip'' ?c) + 1\<rparr>"
      using assms(3) by (simp add: flush_turn_def Let_def)
    then show ?thesis using c by (simp add: timer_ok_def)
  next
    case False
    obtain d where d: "flush_work env (flush_frame_marks l ?c) = Some d" "poll_events env (d\<lparr>f_cycle := f_cycle d + 1\<rparr>) = Some st'"
      using assms(3) False by (auto simp: flush_turn_def Let_def bind_eq_Some_conv)
    have "timer_ok dv d" by (rule work_timer [OF _ d(1)]) (use c frame_marks_view timer_ok_view in blast)
    then have "timer_ok dv (d\<lparr>f_cycle := f_cycle d + 1\<rparr>)" by (simp add: timer_ok_def)
    then show ?thesis using poll_view [OF d(2)] timer_ok_view by blast
  qed
qed

lemma iter_timer:
  assumes "timer_ok dv st" "leaves_timer w" "flush_iter os l env w st = Some (go, st')"
  shows "timer_ok dv st'"
  using await_timer [OF assms(1,2)] turn_timer [of dv] assms(3)
  by (auto simp: flush_iter_def Let_def bind_eq_Some_conv simp del: split_paired_All split: if_splits)

lemma loop_timer:
  assumes "timer_ok dv st" "\<forall>w \<in> set ws. leaves_timer w" "flush_loop os l env ws st = Some (ended, st')"
  shows "timer_ok dv st'"
  using assms
proof (induction ws arbitrary: st)
  case (Cons w ws)
  show ?case
  proof (cases "f_quit st")
    case False
    then obtain go a where a: "flush_iter os l env w st = Some (go, a)" "if go then flush_loop os l env ws a = Some (ended, st') else st' = a"
      using Cons.prems(3) by (auto simp: bind_eq_Some_conv split: if_splits)
    have "timer_ok dv a" by (rule iter_timer [OF Cons.prems(1) _ a(1)]) (use Cons.prems(2) in simp)
    then show ?thesis using a(2) Cons.IH [of a] Cons.prems(2) by (simp split: if_splits)
  qed (use Cons.prems in simp)
qed simp

definition device_view :: "flusher \<Rightarrow> u32 \<times> u32 \<times> u32 list \<times> u32 \<times> u32 \<times> nat \<times> nat" where
  "device_view st = (f_timers_armed st, f_timers_fired st, f_requests st, f_flush_entries st, f_flush_exits st, f_devices st, f_interfaces st)"

lemma f_exec_view: "f_exec g st = (r, a) \<Longrightarrow> device_view a = device_view st"
  by (auto simp: f_exec_def f_disp_def device_view_def split: prod.splits)

lemma f_disp_device [simp]: "device_view (f_disp g st) = device_view st" "device_view (f_stage s st) = device_view st"
    "device_view (f_free k st) = device_view st"
  by (simp_all add: f_disp_def f_stage_def f_free_def device_view_def)

lemma stop_device:
  "device_view (flush_task_stop l st) = (f_timers_armed st, f_timers_fired st, (if f_timer_pending st then tl (f_requests st) else f_requests st),
     f_flush_entries st, f_flush_exits st, f_devices st - 1, f_interfaces st - (if l_itimer l then 1 else 0))"
  by (simp add: flush_task_stop_def Let_def device_view_def f_disp_def f_free_def)

text \<open>Every way out of the start gives the device back.\<close>

lemma start_device:
  assumes "flush_task_start os st = (r, a)"
  shows "case r of None \<Rightarrow> device_view a = device_view st
    | Some l \<Rightarrow> l_itimer l = os_itimer os \<and> \<not> f_timer_pending a \<and> device_view a =
        (f_timers_armed st, f_timers_fired st, f_requests st, f_flush_entries st, f_flush_exits st,
         f_devices st + 1, f_interfaces st + (if os_itimer os then 1 else 0))"
proof -
  obtain port s1 where p: "f_exec AllocSysObject st = (port, s1)" by fastforce
  obtain tr s2 where t: "f_exec AllocSysObject s1 = (tr, s2)" by fastforce
  let ?s3 = "s2\<lparr>f_devices := f_devices s2 + 1\<rparr>"
  let ?s4 = "if os_itimer os then ?s3\<lparr>f_interfaces := f_interfaces ?s3 + 1\<rparr> else ?s3"
  obtain b s5 where s: "f_exec AllocSignal ?s4 = (b, s5)" by fastforce
  have v: "device_view s1 = device_view st" "device_view s2 = device_view st" "device_view s5 = device_view ?s4"
    using f_exec_view [OF p] f_exec_view [OF t] f_exec_view [OF s] by simp_all
  consider "port = 0" | "port \<noteq> 0" "tr = 0" | "port \<noteq> 0" "tr \<noteq> 0" "\<not> os_open_device os"
    | "port \<noteq> 0" "tr \<noteq> 0" "os_open_device os" "b < 0" | "port \<noteq> 0" "tr \<noteq> 0" "os_open_device os" "\<not> b < 0" by blast
  then show ?thesis
  proof cases
    case 4
    let ?s6 = "(if os_itimer os then s5\<lparr>f_interfaces := f_interfaces s5 - 1\<rparr> else s5)"
    have "r = None" "a = f_free (FreeSysObject port) (f_free (FreeSysObject tr) (?s6\<lparr>f_devices := f_devices ?s6 - 1\<rparr>))"
      using assms 4 p t s by (cases "os_itimer os"; simp add: flush_task_start_def Let_def)+
    then show ?thesis using v by (simp add: device_view_def f_free_def f_disp_def split: if_splits)
  next
    case 5
    have "r \<noteq> None" "l_itimer (the r) = os_itimer os" "\<not> f_timer_pending a" "device_view a = device_view s5"
      using assms 5 p t s by (cases "os_itimer os"; auto simp: flush_task_start_def Let_def f_disp_def f_stage_def device_view_def split: if_splits prod.splits)+
    then show ?thesis using v by (auto simp: device_view_def split: if_splits)
  qed (use assms p t v(1,2) in \<open>auto simp: flush_task_start_def simp del: split_paired_All\<close>)
qed

lemma start_ok:
  assumes "flush_task_start os st = (Some l, a)" "f_requests st = []" "f_timers_armed st = f_timers_fired st" "f_flush_entries st = f_flush_exits st"
  shows "timer_ok (f_devices st + 1, f_interfaces st + (if l_itimer l then 1 else 0)) a"
  using start_device [OF assms(1)] assms(2-) by (simp add: timer_ok_def device_view_def)

inductive task_reach for os :: task_os and l :: task_locals and env :: env and st0 :: flusher where
  reach_start: "task_reach os l env st0 st0"
| reach_turn: "task_reach os l env st0 st \<Longrightarrow> leaves_timer w \<Longrightarrow> flush_iter os l env w st = Some (True, st') \<Longrightarrow> task_reach os l env st0 st'"

lemma reach_timer:
  assumes "task_reach os l env st0 st" "timer_ok dv st0"
  shows "timer_ok dv st"
  using assms by induction (auto intro: iter_timer simp del: split_paired_All)

section \<open>A frame\<close>

lemma flush_visible_total:
  assumes "gpu_ok env lk (d_gs d)"
  shows "\<exists>d'. flush_visible env w h d = Some d' \<and> gpu_ok env lk (d_gs d') \<and> quiet d d'"
proof -
  let ?s = "HOT_STAGE ''flush_all:sb:res_flush'' d"
  have s: "gpu_ok env lk (d_gs ?s)" "quiet d ?s" using stage_ok [of env lk d] assms by (simp_all add: step_ok_def)
  let ?res = "if g_virgl_ctx_error (d_gs ?s) \<or> \<not> d_virgl_2d_ready ?s then g_fb_resource_id (d_gs ?s) else g_resource_id (d_gs ?s)"
  have i: "io_idle env lk (g_io (d_gs ?s))" using s(1) by (simp add: gpu_ok_def)
  obtain ok d' where "with_gs (with_io (chip_ResourceFlush env ?res 0 0 w h)) ?s = Some (ok, d')" "gpu_ok env lk (d_gs d')" "quiet ?s d'"
    using delivers_step [OF delivers_flush [OF i] s(1)] by blast
  then show ?thesis using quiet_trans [OF s(2)] by (auto simp: flush_visible_def Let_def)
qed

lemma flush_single_total:
  assumes gs: "gpu_ok env lk (d_gs d)" and cv: "convert_ok (g_fb_mem (d_gs d)) d" "visible_w d \<noteq> 0" "visible_h d \<noteq> 0"
    and room: "prof_room (Suc n) (d_prof_convert d)" "prof_room (Suc m) (d_prof_flush_all d)"
  shows "\<exists>d'. flush_single env t (visible_w d) (visible_h d) d = Some d' \<and> gpu_ok env lk (d_gs d')"
proof -
  let ?w = "visible_w d" and ?h = "visible_h d"
  let ?a = "HOT_STAGE ''flush_all:sb:convert'' (on_io obtain_io_lock (HOT_STAGE ''flush_all:sb:obtain_lock'' d))"
  have "step_ok env lk d (Suc lk) ?a ([] @ [] @ [])" by (rule step_trans [OF stage_ok step_trans [OF obtain_ok stage_ok]])
  then have a: "gpu_ok env (Suc lk) (d_gs ?a)" "quiet d ?a" using gs by (simp_all add: step_ok_def)
  note qa = quiet_convert [OF a(2)]
  have fb: "g_fb_mem (d_gs ?a) = g_fb_mem (d_gs d)" using quiet_buffers(1) [OF a(2)] by (simp add: buffers_def)
  obtain e where e: "chip_convert_rect (g_fb_mem (d_gs ?a)) 0 0 ?w ?h ?a = Some e" "converted ?a e"
    using convert_frame [of "g_fb_mem (d_gs ?a)" ?a n] cv room(1) unfolding fb qa quiet_mem [OF a(2)] by blast
  have ge: "gpu_ok env (Suc lk) (d_gs e)" "d_prof_flush_all e = d_prof_flush_all d"
    using a(1) converted_frame [OF e(2)] quiet_mem [OF a(2)] by simp_all
  obtain ok v g where g: "flush_transfer env (d_virgl_2d_ready e \<and> \<not> g_virgl_ctx_error (d_gs e)) (g_resource_id (d_gs e)) (g_fb_resource_id (d_gs e)) ?w ?h e
      = Some (ok, v, g)" "gpu_ok env (Suc lk) (d_gs g)" "quiet (poison ((d_virgl_2d_ready e \<and> \<not> g_virgl_ctx_error (d_gs e)) \<and> \<not> v) e) g"
    using flush_transfer_result [OF ge(1)] by blast
  obtain f where f: "(if ok then flush_visible env ?w ?h g else Some g) = Some f" "gpu_ok env (Suc lk) (d_gs f)" "quiet g f"
  proof (cases ok)
    case True
    then show ?thesis using that flush_visible_total [OF g(2), of ?w ?h] by auto
  next
    case False
    then show ?thesis using that [of g] g(2) quiet_refl by simp
  qed
  have "prof_room (Suc m) (d_prof_flush_all f)" using room(2) quiet_mem(3) [OF f(3)] poisoned_frame(3) [OF g(3)] ge(2) by simp
  then obtain d' where d': "prof_end_flush_all t (?w * ?h * 4) (HOT_STAGE ''flush_all:sb:done'' (on_io release_io_lock (HOT_STAGE ''flush_all:sb:release_lock'' f))) = Some d'"
    "gpu_ok env lk (d_gs d')" using flush_end [OF f(2)] by blast
  have "flush_single env t ?w ?h d = Some d'" using e(1) g(1) f(1) d'(1) by (simp add: flush_single_def Let_def)
  then show ?thesis using d'(2) by blast
qed

text \<open>What a frame needs: the conversion is possible into either buffer.\<close>

definition frame_ready :: "disp \<Rightarrow> bool" where
  "frame_ready d \<longleftrightarrow> (g_fb_mem (d_gs d) \<noteq> 0 \<and> visible_w d \<noteq> 0 \<and> visible_h d \<noteq> 0 \<longrightarrow>
     convert_ok (g_fb_mem (d_gs d)) d \<and> (d_fb_mem2 d \<noteq> 0 \<longrightarrow> convert_ok (d_fb_mem2 d) d)
     \<and> prof_room 1 (d_prof_convert d) \<and> prof_room 1 (d_prof_flush_all d))"

lemma flush_all_total:
  assumes gs: "gpu_ok env lk (d_gs d)" and r: "frame_ready d"
  shows "\<exists>d'. chip_flush_all env d = Some d' \<and> gpu_ok env lk (d_gs d')"
proof (cases "g_fb_mem (d_gs d) = 0 \<or> visible_w d = 0 \<or> visible_h d = 0")
  case True
  then show ?thesis using gs by (auto simp: chip_flush_all_def Let_def)
next
  case False
  have cv: "convert_ok (g_fb_mem (d_gs d)) d" "prof_room (Suc 0) (d_prof_convert d)" "prof_room (Suc 0) (d_prof_flush_all d)"
    using r False by (simp_all add: frame_ready_def)
  show ?thesis
  proof (cases "d_double_buffer d \<and> d_fb_mem2 d \<noteq> 0")
    case True
    then have "convert_ok (d_fb_mem2 d) d" using r False by (simp add: frame_ready_def)
    then show ?thesis using flush_all_double [OF gs _ _ _ _ _ _ cv(2,3)] True False by blast
  next
    case single: False
    obtain t c where t: "prof_begin d = (t, d\<lparr>d_eclock := c\<rparr>)" using prof_begin_frame by blast
    let ?a = "d\<lparr>d_eclock := c\<rparr>" and ?s = "HOT_STAGE ''flush_all:start'' (d\<lparr>d_eclock := c\<rparr>)"
    have a: "gpu_ok env lk (d_gs ?s)" "quiet ?a ?s" using stage_ok [of env lk ?a "''flush_all:start''"] gs by (simp_all add: step_ok_def)
    have q: "convert_ok m ?s = convert_ok m d" "visible_w ?s = visible_w d" "visible_h ?s = visible_h d" for m
      using quiet_convert [OF a(2)] by simp_all
    have b: "g_fb_mem (d_gs ?s) = g_fb_mem (d_gs d)" "d_prof_convert ?s = d_prof_convert d" "d_prof_flush_all ?s = d_prof_flush_all d"
      using quiet_buffers(1) [OF a(2)] quiet_mem [OF a(2)] by (simp_all add: buffers_def)
    have s1: "convert_ok (g_fb_mem (d_gs ?s)) ?s" "visible_w ?s \<noteq> 0" "visible_h ?s \<noteq> 0" "prof_room (Suc 0) (d_prof_convert ?s)"
      "prof_room (Suc 0) (d_prof_flush_all ?s)" using cv False unfolding q b by simp_all
    obtain d' where d': "flush_single env t (visible_w d) (visible_h d) ?s = Some d'" "gpu_ok env lk (d_gs d')"
      using flush_single_total [OF a(1) s1, of t] unfolding q by blast
    have "(\<not> d_double_buffer ?s \<or> d_fb_mem2 ?s = 0)" using single by (auto simp: HOT_STAGE_def on_io_def)
    then have "chip_flush_all env d = Some d'" using t d'(1) False by (simp add: chip_flush_all_def Let_def)
    then show ?thesis using d'(2) by blast
  qed
qed

lemma screen_ready:
  assumes "screen_view d' = screen_view d"
  shows "frame_ready d' = frame_ready d"
proof -
  have v: "visible_w d' = visible_w d" "visible_h d' = visible_h d" "src_base d' = src_base d" "src_width d' = src_width d" "src_bpp d' = src_bpp d"
    using assms by (simp_all add: screen_view_def visible_w_def visible_h_def src_base_def src_width_def src_bpp_def)
  have p: "pan_x d' = pan_x d" "pan_y d' = pan_y d" using assms by (simp_all add: pan_x_def pan_y_def v) (simp_all add: screen_view_def)
  have f: "d_palette d' = d_palette d" "d_mem d' = d_mem d" "d_active_format d' = d_active_format d"
    "g_fb_height (d_gs d') = g_fb_height (d_gs d)" "g_fb_stride (d_gs d') = g_fb_stride (d_gs d)" "g_fb_mem (d_gs d') = g_fb_mem (d_gs d)"
    "d_fb_mem2 d' = d_fb_mem2 d" "d_prof_convert d' = d_prof_convert d" "d_prof_flush_all d' = d_prof_flush_all d"
    using assms by (simp_all add: screen_view_def)
  have "convert_ok m d' = convert_ok m d" for m by (simp only: convert_ok_def v p f)
  then show ?thesis by (simp only: frame_ready_def v f)
qed

section \<open>A turn\<close>

text \<open>What a turn changes outside the 2D driver.\<close>

definition turn_view :: "flusher \<Rightarrow> (u32 \<times> u8 \<times> u32 \<times> u32 \<times> u32) \<times> nat \<times> (u32 \<times> u32) list \<times> u32 \<times> u32" where
  "turn_view st = ((f_cycle st, f_vsync_phase st, f_wait_vsync_task st, f_wait_vsync_mask st, f_dpms_level st), f_causes st, f_signals st,
     f_flush_entries st, f_flush_exits st)"

lemma turn_view_disp [simp]: "turn_view (f_disp g st) = turn_view st" "turn_view (f_stage s st) = turn_view st" "turn_view (on_fio h st) = turn_view st"
  by (simp_all add: f_disp_def f_stage_def on_fio_def turn_view_def)

definition events_ready :: "flusher \<Rightarrow> bool" where
  "events_ready st \<longleftrightarrow> unat (f_hotplug st) < 64 \<and> f_test_quad st = 0
     \<and> (\<exists>D. reg_ok (hot_slots (unat (f_hotplug st))) D \<lparr>ms_gpu = v_gs (f_v st), ms_bi = f_bi st, ms_hotplug = f_hotplug st\<rparr>)"

lemma events_ready_same:
  assumes "f_hotplug b = f_hotplug a" "f_test_quad b = f_test_quad a" "f_bi b = f_bi a"
  shows "events_ready b = events_ready a"
  using assms by (simp add: events_ready_def reg_ok_def)

lemma stage_gpu: "d_gs (HOT_STAGE s d) = (d_gs d)\<lparr>g_io := (g_io (d_gs d))\<lparr>i_hot_stage := s\<rparr>\<rparr>"
  by (simp add: HOT_STAGE_def on_io_def)

lemma on_fio_gpu: "v_gs (f_v (on_fio h st)) = (v_gs (f_v st))\<lparr>g_io := h (g_io (v_gs (f_v st)))\<rparr>"
  by (simp add: on_fio_def on_vgs_def on_vdisp_def)

definition turn_ready :: "env \<Rightarrow> nat \<Rightarrow> flusher \<Rightarrow> bool" where
  "turn_ready env lk st \<longleftrightarrow> v_ok env lk (f_v st) \<and> frame_ready (v_disp (f_v st)) \<and> events_ready st"

lemma v_ok_same:
  assumes "g_fb_dma_count (v_gs b) = g_fb_dma_count (v_gs a)" "g_dma_lists (v_gs b) = g_dma_lists (v_gs a)" "g_fb_mem (v_gs b) = g_fb_mem (v_gs a)"
    "d_fb_dma_count2 (v_disp b) = d_fb_dma_count2 (v_disp a)" "d_fb_mem2 (v_disp b) = d_fb_mem2 (v_disp a)" "v_blends b = v_blends a"
    "gpu_ok env lk (v_gs b) = gpu_ok env lk (v_gs a)"
  shows "v_ok env lk b = v_ok env lk a"
  using assms by (simp add: v_ok_def)

lemma ready_stage [simp]: "turn_ready env lk (f_stage s st) = turn_ready env lk st"
proof -
  let ?a = "f_v st" and ?b = "f_v (f_stage s st)"
  have d: "v_disp ?b = HOT_STAGE s (v_disp ?a)" "v_blends ?b = v_blends ?a"
    by (simp_all add: f_stage_def f_disp_def on_vdisp_def)
  have "gpu_ok env lk (v_gs ?b) = gpu_ok env lk (v_gs ?a)" unfolding d by (simp add: stage_gpu gpu_ok_def idle_stage)
  then have "v_ok env lk ?b = v_ok env lk ?a" by (intro v_ok_same) (simp_all add: d HOT_STAGE_def on_io_def)
  moreover have "screen_view (v_disp ?b) = screen_view (v_disp ?a)" unfolding d by (simp add: screen_view_def HOT_STAGE_def on_io_def)
  then have "frame_ready (v_disp ?b) = frame_ready (v_disp ?a)" by (rule screen_ready)
  moreover have "events_ready (f_stage s st) = events_ready st" by (rule events_ready_same) (simp_all add: f_stage_def f_disp_def)
  ultimately show ?thesis by (simp add: turn_ready_def)
qed

lemma ready_take [simp]: "turn_ready env lk (take_signals t s st) = turn_ready env lk st"
proof -
  have u: "turn_ready env lk (st\<lparr>f_requests := a, f_timers_fired := b, f_timer_pending := c\<rparr>) = turn_ready env lk st" for a b c st
    by (simp add: turn_ready_def events_ready_def)
  show ?thesis by (simp add: take_signals_def Let_def u)
qed

lemma ready_fields:
  assumes "v_ok env lk (f_v b) = v_ok env lk (f_v a)" "screen_view (v_disp (f_v b)) = screen_view (v_disp (f_v a))"
    "f_hotplug b = f_hotplug a" "f_test_quad b = f_test_quad a" "f_bi b = f_bi a"
  shows "turn_ready env lk b = turn_ready env lk a"
  using assms(1) screen_ready [OF assms(2)] events_ready_same [OF assms(3-5)] by (simp add: turn_ready_def)

lemma ready_eclock:
  "turn_ready env lk (f_disp (\<lambda>d. d\<lparr>d_eclock := c\<rparr>) (st\<lparr>f_last_vsync_lo := lo\<rparr>)) = turn_ready env lk st"
proof (rule ready_fields)
  let ?b = "f_disp (\<lambda>d. d\<lparr>d_eclock := c\<rparr>) (st\<lparr>f_last_vsync_lo := lo\<rparr>)"
  show "v_ok env lk (f_v ?b) = v_ok env lk (f_v st)" by (rule v_ok_same) (simp_all add: f_disp_def on_vdisp_def)
  show "screen_view (v_disp (f_v ?b)) = screen_view (v_disp (f_v st))" by (simp add: f_disp_def on_vdisp_def screen_view_def)
qed (simp_all add: f_disp_def)

definition waiter_called :: "flusher \<Rightarrow> bool" where
  "waiter_called st \<longleftrightarrow> f_wait_vsync_task st \<noteq> 0 \<and> f_wait_vsync_mask st \<noteq> 0 \<and> f_vsync_mutex st \<noteq> 0"

lemma frame_marks_result:
  "turn_ready env lk (flush_frame_marks l st) = turn_ready env lk st"
  "turn_view (flush_frame_marks l st) =
     (let served = f_wait_vsync_task st \<noteq> 0 \<and> f_vsync_mutex st \<noteq> 0 in
      ((f_cycle st, xor (f_vsync_phase st) 1, (if served then 0 else f_wait_vsync_task st), (if served then 0 else f_wait_vsync_mask st), f_dpms_level st),
       f_causes st + (if f_vbi_enabled st \<and> f_bi st \<noteq> None \<and> f_soft_code st \<noteq> 0 then 1 else 0),
       f_signals st @ (if waiter_called st then [(f_wait_vsync_task st, f_wait_vsync_mask st)] else []), f_flush_entries st, f_flush_exits st))"
proof -
  have w: "turn_ready env lk (wake_vsync_waiter s) = turn_ready env lk s" for s
    by (rule ready_fields) (simp_all add: wake_vsync_waiter_def Let_def)
  have p: "turn_ready env lk (s\<lparr>f_vsync_phase := x\<rparr>) = turn_ready env lk s" "turn_ready env lk (s\<lparr>f_causes := y\<rparr>) = turn_ready env lk s" for s x y
    by (simp_all add: turn_ready_def events_ready_def)
  show "turn_ready env lk (flush_frame_marks l st) = turn_ready env lk st"
    by (simp add: flush_frame_marks_def Let_def w p ready_eclock split: prod.split)
  show "turn_view (flush_frame_marks l st) = (let served = f_wait_vsync_task st \<noteq> 0 \<and> f_vsync_mutex st \<noteq> 0 in
      ((f_cycle st, xor (f_vsync_phase st) 1, (if served then 0 else f_wait_vsync_task st), (if served then 0 else f_wait_vsync_mask st), f_dpms_level st),
       f_causes st + (if f_vbi_enabled st \<and> f_bi st \<noteq> None \<and> f_soft_code st \<noteq> 0 then 1 else 0),
       f_signals st @ (if waiter_called st then [(f_wait_vsync_task st, f_wait_vsync_mask st)] else []), f_flush_entries st, f_flush_exits st))"
    by (cases "l_itimer l") (auto simp: flush_frame_marks_def wake_vsync_waiter_def waiter_called_def turn_view_def Let_def f_disp_def split: prod.split)
qed

lemma work_total:
  assumes "turn_ready env lk st"
  shows "\<exists>st'. flush_work env st = Some st' \<and> gpu_ok env lk (v_gs (f_v st')) \<and> events_ready st'
     \<and> turn_view st' = turn_view (st\<lparr>f_flush_entries := f_flush_entries st + 1, f_flush_exits := f_flush_exits st + 1\<rparr>)"
proof -
  obtain a where a: "(if g_virgl_ctx_error (v_gs (f_v st)) then do { (_, st) \<leftarrow> in_v (chip_virgl_recover_2d env) st; Some st } else Some st) = Some a"
    "turn_ready env lk a" "turn_view a = turn_view st"
  proof (cases "g_virgl_ctx_error (v_gs (f_v st))")
    case True
    have ok: "v_ok env lk (f_v st)" using assms by (simp add: turn_ready_def)
    obtain r v where v: "chip_virgl_recover_2d env (f_v st) = Some (r, v)" "v_ok env lk v" "screen_view (v_disp v) = screen_view (v_disp (f_v st))"
      using recover_result [OF ok] by blast
    have "turn_ready env lk (st\<lparr>f_v := v\<rparr>) = turn_ready env lk st"
      by (rule ready_fields) (use v(2,3) ok in simp_all)
    moreover have "turn_view (st\<lparr>f_v := v\<rparr>) = turn_view st" by (simp add: turn_view_def)
    ultimately show ?thesis using that [of "st\<lparr>f_v := v\<rparr>"] True v(1) assms by (simp add: in_v_def)
  qed (use that [of st] assms in simp)
  let ?b = "(f_stage ''flush_all:enter'' a)\<lparr>f_flush_entries := f_flush_entries (f_stage ''flush_all:enter'' a) + 1\<rparr>"
  have "turn_ready env lk (f_stage ''flush_all:enter'' a)" using a(2) by simp
  then have b: "gpu_ok env lk (v_gs (f_v ?b))" "frame_ready (v_disp (f_v ?b))" "events_ready ?b"
    by (simp_all add: turn_ready_def v_ok_def events_ready_def)
  obtain d where d: "chip_flush_all env (v_disp (f_v ?b)) = Some d" "gpu_ok env lk (d_gs d)"
    using flush_all_total [OF b(1,2)] by blast
  let ?c = "f_disp (\<lambda>_. d) ?b"
  let ?e = "f_stage ''flush_all:exit'' (?c\<lparr>f_flush_exits := f_flush_exits ?c + 1\<rparr>)"
  have e: "events_ready ?e = events_ready ?b" by (rule events_ready_same) (simp_all add: f_stage_def f_disp_def)
  have q: "f_test_quad ?e = 0" using b(3) e by (simp add: events_ready_def)
  have "gpu_ok env lk (v_gs (f_v ?e))" using d(2) by (simp add: f_stage_def f_disp_def on_vdisp_def stage_gpu gpu_ok_def idle_stage)
  moreover have "flush_work env st = Some ?e" using a(1) d(1) q by (simp add: flush_work_def Let_def flush_overlay_def)
  moreover have "turn_view ?e = turn_view (st\<lparr>f_flush_entries := f_flush_entries st + 1, f_flush_exits := f_flush_exits st + 1\<rparr>)"
    using a(3) by (simp add: turn_view_def f_disp_def f_stage_def)
  ultimately show ?thesis using b(3) e by blast
qed

lemma display_event_total:
  assumes "gpu_ok env lk (v_gs (f_v st))" "events_ready st"
  shows "\<exists>st'. display_event env st = Some st' \<and> gpu_ok env lk (v_gs (f_v st')) \<and> turn_view st' = turn_view st"
proof -
  let ?ms = "\<lparr>ms_gpu = v_gs (f_v st), ms_bi = f_bi st, ms_hotplug = f_hotplug st\<rparr>"
  obtain D where D: "reg_ok (hot_slots (unat (f_hotplug st))) D ?ms" "unat (f_hotplug st) < 64" using assms(2) by (auto simp: events_ready_def)
  obtain ms where "chip_handle_display_change env ?ms = Some ms" "gpu_ok env lk (ms_gpu ms)"
    using display_change_result [of env lk ?ms D] assms(1) D by auto
  then show ?thesis by (simp add: display_event_def turn_view_def on_vgs_def on_vdisp_def)
qed

lemma bus_ok:
  assumes "gpu_ok env lk (v_gs (f_v st))"
  shows "gpu_ok env lk (v_gs (f_v (on_fio (\<lambda>io. io\<lparr>i_bus := h io\<rparr>) st)))"
proof -
  have "io_ready env (io\<lparr>i_bus := b\<rparr>) = io_ready env io" for io b
    by (rule io_ready_same) (simp_all add: same_queues_def no_waiter_def)
  then show ?thesis using assms by (simp add: on_fio_gpu gpu_ok_def io_idle_def cmd3d_ok_def)
qed

lemma poll_total:
  assumes "gpu_ok env lk (v_gs (f_v st))" "events_ready st"
  shows "\<exists>st'. poll_events env st = Some st' \<and> gpu_ok env lk (v_gs (f_v st')) \<and> turn_view st' = turn_view st"
proof -
  let ?io = "g_io (v_gs (f_v st))"
  obtain events b where r: "devcfg_r32 (i_vio ?io) 0 (i_bus ?io) = (events, b)" by fastforce
  let ?s1 = "on_fio (\<lambda>io. io\<lparr>i_bus := b\<rparr>) st"
  let ?s2 = "on_fio (\<lambda>io. io\<lparr>i_bus := devcfg_w32 (i_vio ?io) 4 1 (i_bus io)\<rparr>) ?s1"
  have g: "gpu_ok env lk (v_gs (f_v ?s1))" by (rule bus_ok [OF assms(1)])
  have g2: "gpu_ok env lk (v_gs (f_v ?s2))" by (rule bus_ok [OF g])
  have e: "events_ready ?s2 = events_ready st" by (rule events_ready_same) (simp_all add: on_fio_def)
  show ?thesis
  proof (cases "(f_cycle st mod 50 = 0 \<and> v_device_cfg_base (i_vio ?io) \<noteq> 0) \<and> events AND 1 \<noteq> 0")
    case False
    then have "poll_events env st = Some st \<or> poll_events env st = Some ?s1" by (auto simp: poll_events_def Let_def r)
    then show ?thesis using assms(1) g by auto
  next
    case True
    then have "poll_events env st = display_event env ?s2" by (simp add: poll_events_def Let_def r)
    then show ?thesis using display_event_total [OF g2] e assms(2) by simp
  qed
qed

lemma take_turn_view [simp]: "turn_view (take_signals t s st) = turn_view st"
  by (simp add: take_signals_def Let_def f_stage_def f_disp_def turn_view_def)

text \<open>A turn with the display on.\<close>

definition served :: "flusher \<Rightarrow> flusher \<Rightarrow> bool" where
  "served st st' \<longleftrightarrow> f_vsync_phase st' = xor (f_vsync_phase st) 1
     \<and> f_signals st' = f_signals st @ (if waiter_called st then [(f_wait_vsync_task st, f_wait_vsync_mask st)] else [])
     \<and> (f_vsync_mutex st \<noteq> 0 \<longrightarrow> f_wait_vsync_task st' = 0)
     \<and> f_causes st' = f_causes st + (if f_vbi_enabled st \<and> f_bi st \<noteq> None \<and> f_soft_code st \<noteq> 0 then 1 else 0)
     \<and> f_flush_entries st' = f_flush_entries st + 1 \<and> f_flush_exits st' = f_flush_exits st + 1"

definition untouched :: "flusher \<Rightarrow> flusher \<Rightarrow> bool" where
  "untouched st st' \<longleftrightarrow> f_vsync_phase st' = f_vsync_phase st \<and> f_signals st' = f_signals st \<and> f_wait_vsync_task st' = f_wait_vsync_task st
     \<and> f_causes st' = f_causes st \<and> f_flush_entries st' = f_flush_entries st \<and> i_kicks (g_io (v_gs (f_v st'))) = i_kicks (g_io (v_gs (f_v st)))"

lemma take_fields [simp]:
  "f_vbi_enabled (take_signals t s st) = f_vbi_enabled st" "f_bi (take_signals t s st) = f_bi st" "f_soft_code (take_signals t s st) = f_soft_code st"
  "f_vsync_mutex (take_signals t s st) = f_vsync_mutex st" "i_kicks (g_io (v_gs (f_v (take_signals t s st)))) = i_kicks (g_io (v_gs (f_v st)))"
  by (simp_all add: take_signals_def Let_def f_stage_def f_disp_def on_vdisp_def stage_gpu)

lemma turn_view_parts:
  assumes "turn_view b = turn_view a"
  shows "f_cycle b = f_cycle a" "f_vsync_phase b = f_vsync_phase a" "f_wait_vsync_task b = f_wait_vsync_task a" "f_wait_vsync_mask b = f_wait_vsync_mask a"
    "f_dpms_level b = f_dpms_level a" "f_causes b = f_causes a" "f_signals b = f_signals a" "f_flush_entries b = f_flush_entries a"
    "f_flush_exits b = f_flush_exits a"
  using assms by (simp_all add: turn_view_def)

lemma turn_result:
  assumes "turn_ready env lk st"
  shows "\<exists>st'. flush_turn l env signals st = Some st' \<and> gpu_ok env lk (v_gs (f_v st')) \<and> f_cycle st' = f_cycle st + 1
     \<and> (if f_dpms_level st = 0 then served st st' else untouched st st')"
proof -
  let ?c = "take_signals (signals AND l_timer_sig l \<noteq> 0) (signals AND l_flush_sig l \<noteq> 0) st"
  note tv = turn_view_parts [OF take_turn_view, of _ _ st]
  have c: "turn_ready env lk ?c" using assms by simp
  show ?thesis
  proof (cases "f_dpms_level st = 0")
    case False
    let ?e = "(f_stage ''dpms:skip'' ?c)\<lparr>f_cycle := f_cycle (f_stage ''dpms:skip'' ?c) + 1\<rparr>"
    have "flush_turn l env signals st = Some ?e" using False by (simp add: flush_turn_def Let_def tv)
    moreover have "turn_ready env lk (f_stage ''dpms:skip'' ?c)" using c by simp
    then have "gpu_ok env lk (v_gs (f_v ?e))" by (simp add: turn_ready_def v_ok_def)
    moreover have "untouched st ?e" using tv by (simp add: untouched_def f_stage_def f_disp_def on_vdisp_def stage_gpu)
    ultimately show ?thesis using False tv by simp
  next
    case True
    let ?m = "flush_frame_marks l ?c"
    have m: "turn_ready env lk ?m" using c by (simp add: frame_marks_result(1))
    obtain w where w: "flush_work env ?m = Some w" "gpu_ok env lk (v_gs (f_v w))" "events_ready w"
      "turn_view w = turn_view (?m\<lparr>f_flush_entries := f_flush_entries ?m + 1, f_flush_exits := f_flush_exits ?m + 1\<rparr>)"
      using work_total [OF m] by blast
    let ?w = "w\<lparr>f_cycle := f_cycle w + 1\<rparr>"
    have r: "gpu_ok env lk (v_gs (f_v ?w))" "events_ready ?w" using w(2,3) by (simp_all add: events_ready_def)
    obtain e where e: "poll_events env ?w = Some e" "gpu_ok env lk (v_gs (f_v e))" "turn_view e = turn_view ?w" using poll_total [OF r] by blast
    have "flush_turn l env signals st = Some e" using True w(1) e(1) by (simp add: flush_turn_def Let_def tv)
    moreover have "served st e" "f_cycle e = f_cycle st + 1"
      using turn_view_parts [OF e(3)] turn_view_parts [OF w(4)] frame_marks_result(2) [of l ?c] tv
      by (simp_all add: served_def turn_view_def waiter_called_def Let_def)
    ultimately show ?thesis using True e(2) by auto
  qed
qed

end
