(* ===== verification/Flush_Task_Properties.thy ===== *)
theory Flush_Task_Properties
  imports Flush_Task_Correct Virgl_2d_Properties
begin

text \<open>
  The properties of the flush task: its timer, what it holds of the system, and what one turn of its
  loop does for the tasks that wait for it.
\<close>

definition demo_os :: task_os where
  "demo_os = \<lparr>os_open_device = True, os_itimer = True, os_eclock_freq = 1000000, os_port_sig_bit = 20, os_this_task = 7, os_ctrl_c = 0x1000\<rparr>"

definition demo_flusher :: flusher where
  "demo_flusher = \<lparr>f_v = demo_v2d\<lparr>v_disp := (v_disp demo_v2d)\<lparr>d_flush_task := 0, d_flush_sig_mask := 0,
       d_gs := do_exec (\<lambda>ex. ex\<lparr>ex_obj_res := \<lambda>_. 0x5000, ex_signal_res := \<lambda>_. 5\<rparr>) (d_gs (v_disp demo_v2d))\<rparr>\<rparr>,
     f_bi = Some \<lparr>bi_BoardNum = 0, bi_ResolutionsList = []\<rparr>, f_hotplug = 0, f_refresh_us = 0, f_sig_bit = -1, f_dpms_level = 0,
     f_quit = False, f_vsync_phase = 0, f_last_vsync_lo = 0, f_wait_vsync_task = 9, f_wait_vsync_mask = 64, f_vsync_mutex = 1,
     f_vbi_enabled = False, f_soft_code = 0, f_causes = 0, f_signals = [], f_test_quad = 0, f_hot_iter = 0, f_timers_armed = 0, f_timers_fired = 0,
     f_flush_entries = 0, f_flush_exits = 0, f_timer_pending = False, f_cycle = 0, f_requests = [], f_devices = 0, f_interfaces = 0\<rparr>"

lemma demo_start_result:
  "\<exists>l a. flush_task_start demo_os demo_flusher = (Some l, a) \<and> l_itimer l"
proof -
  obtain r a where r: "flush_task_start demo_os demo_flusher = (r, a)" by fastforce
  have "r \<noteq> None"
    using r by (auto simp: flush_task_start_def Let_def demo_os_def demo_flusher_def f_exec_def with_exec_def do_exec_def f_disp_def on_vdisp_def
        AllocSysObject_def AllocSignal_def split: prod.splits)
  then show ?thesis using start_device [OF r] r by (auto simp: demo_os_def)
qed

text \<open>
  Property C34. The timer of the flush task: after any number of turns of the loop, and whatever the
  other tasks do to the rest of the driver during the waits, exactly one timer request is in flight
  whenever the task calls \<open>Wait\<close>, the armed requests outnumber the collected ones by that one, no
  flush is left half done, and the device and interfaces opened at the start are still held.
\<close>

theorem flush_timer_discipline:
  assumes "flush_task_start os st = (Some l, st0)" "f_requests st = []" "f_timers_armed st = f_timers_fired st"
    "f_flush_entries st = f_flush_exits st" "task_reach os l env st0 st'" "leaves_timer w"
  shows "length (f_requests (await_signals w st')) = 1
     \<and> f_timers_armed (await_signals w st') = f_timers_fired (await_signals w st') + 1
     \<and> f_flush_entries (await_signals w st') = f_flush_exits (await_signals w st')
     \<and> f_devices (await_signals w st') = f_devices st + 1
     \<and> f_interfaces (await_signals w st') = f_interfaces st + (if l_itimer l then 1 else 0)"
proof -
  have "timer_ok (f_devices st + 1, f_interfaces st + (if l_itimer l then 1 else 0)) st'"
    by (rule reach_timer [OF assms(5) start_ok [OF assms(1-4)]])
  from await_timer [OF this assms(6)] show ?thesis by (simp add: timer_ok_def)
qed

theorem flush_timer_discipline_witness:
  "\<exists>l a. flush_task_start demo_os demo_flusher = (Some l, a)
     \<and> length (f_requests (await_signals \<lparr>wk_signals = 32, wk_others = \<lambda>st. st\<lparr>f_wait_vsync_task := 9\<rparr>\<rparr> a)) = 1"
proof -
  obtain l a where a: "flush_task_start demo_os demo_flusher = (Some l, a)" using demo_start_result by blast
  have "f_requests demo_flusher = []" "f_timers_armed demo_flusher = f_timers_fired demo_flusher" "f_flush_entries demo_flusher = f_flush_exits demo_flusher"
    by (simp_all add: demo_flusher_def)
  moreover have "leaves_timer \<lparr>wk_signals = 32, wk_others = \<lambda>st. st\<lparr>f_wait_vsync_task := 9\<rparr>\<rparr>"
    by (simp add: leaves_timer_def timer_view_def)
  ultimately show ?thesis using flush_timer_discipline [OF a _ _ _ reach_start] a by blast
qed

text \<open>
  Property C35. The flush task gives back what it took: however it is left, by a failed allocation
  at the start, by the break signal or by the request to quit, no timer request is in flight, the
  timer device is closed as often as it was opened, and its interface is dropped.
\<close>

theorem flush_task_releases:
  assumes "chip_flush_task_entry os env ws st = Some (True, st')" "\<forall>w \<in> set ws. leaves_timer w"
    "f_requests st = []" "f_timers_armed st = f_timers_fired st" "f_flush_entries st = f_flush_exits st"
  shows "f_requests st' = [] \<and> f_devices st' = f_devices st \<and> f_interfaces st' = f_interfaces st
     \<and> f_flush_entries st' = f_flush_exits st'"
proof -
  obtain r a where r: "flush_task_start os st = (r, a)" by fastforce
  show ?thesis
  proof (cases r)
    case None
    then show ?thesis using start_device [OF r] r assms by (auto simp: chip_flush_task_entry_def device_view_def)
  next
    case (Some l)
    obtain b where b: "flush_loop os l env ws a = Some (True, b)" "st' = flush_task_stop l b"
      using assms(1) r Some by (auto simp: chip_flush_task_entry_def bind_eq_Some_conv split: if_splits)
    have "timer_ok (f_devices st + 1, f_interfaces st + (if l_itimer l then 1 else 0)) b"
      by (rule loop_timer [OF start_ok [OF r [unfolded Some] assms(3-5)] assms(2) b(1)])
    then show ?thesis using stop_device [of l b] b(2) by (auto simp: timer_ok_def device_view_def length_Suc_conv split: if_splits)
  qed
qed

theorem flush_task_releases_witness:
  "\<exists>st'. chip_flush_task_entry demo_os demo_env [\<lparr>wk_signals = 0x1000, wk_others = \<lambda>st. st\<rparr>] demo_flusher = Some (True, st')
     \<and> f_requests st' = [] \<and> f_devices st' = 0 \<and> f_interfaces st' = 0"
proof -
  let ?w = "\<lparr>wk_signals = 0x1000, wk_others = \<lambda>st. st\<rparr>"
  obtain l a where a: "flush_task_start demo_os demo_flusher = (Some l, a)" using demo_start_result by blast
  have "\<exists>b. flush_loop demo_os l demo_env [?w] a = Some (True, b)" by (simp add: flush_iter_def demo_os_def)
  then obtain st' where st': "chip_flush_task_entry demo_os demo_env [?w] demo_flusher = Some (True, st')"
    using a by (auto simp: chip_flush_task_entry_def)
  have w: "\<forall>w \<in> set [?w]. leaves_timer w" by (simp add: leaves_timer_def)
  have d: "f_requests demo_flusher = []" "f_timers_armed demo_flusher = f_timers_fired demo_flusher" "f_flush_entries demo_flusher = f_flush_exits demo_flusher"
    "f_devices demo_flusher = 0" "f_interfaces demo_flusher = 0" by (simp_all add: demo_flusher_def)
  show ?thesis using flush_task_releases [OF st' w d(1-3)] st' d(4,5) by auto
qed


lemma demo_flusher_ready:
  "v_ok demo_env 0 (f_v demo_flusher)" "frame_ready (v_disp (f_v demo_flusher))" "f_test_quad demo_flusher = 0" "unat (f_hotplug demo_flusher) < 64"
  "reg_ok (hot_slots (unat (f_hotplug demo_flusher))) {} \<lparr>ms_gpu = v_gs (f_v demo_flusher), ms_bi = f_bi demo_flusher, ms_hotplug = f_hotplug demo_flusher\<rparr>"
proof -
  have v: "v_disp (f_v demo_flusher) = (v_disp demo_v2d)\<lparr>d_flush_task := 0, d_flush_sig_mask := 0,
      d_gs := do_exec (\<lambda>ex. ex\<lparr>ex_obj_res := \<lambda>_. 0x5000, ex_signal_res := \<lambda>_. 5\<rparr>) (v_gs demo_v2d)\<rparr>"
    "v_blends (f_v demo_flusher) = v_blends demo_v2d" by (simp_all add: demo_flusher_def)
  have "v_ok demo_env 0 (f_v demo_flusher) = v_ok demo_env 0 demo_v2d" by (rule v_ok_same) (simp_all add: v do_exec_def gpu_ok_def)
  then show "v_ok demo_env 0 (f_v demo_flusher)" using demo_v2d_ok by simp
  have "screen_view (v_disp (f_v demo_flusher)) = screen_view demo_disp"
    unfolding v by (simp add: screen_view_def do_exec_def demo_v2d_def)
  moreover have "convert_ok 8 demo_disp" unfolding convert_ok_def by (simp only: demo_disp_fields) simp
  then have "frame_ready demo_disp" using demo_disp_ok unfolding frame_ready_def by (simp add: demo_disp_fields)
  ultimately show "frame_ready (v_disp (f_v demo_flusher))" using screen_ready by blast
qed (simp_all add: demo_flusher_def reg_ok_def list_ok_def ids_ok_def)


end
