(* ===== verification/Display_Database.thy ===== *)
theory Display_Database
  imports Prelude
begin

text \<open>
  What the driver does to the display database and the interface of graphics.library: marking its
  modes as composited in hardware (\<open>chip_comp_set_dipf_flags\<close>) and patching \<open>CompositeTagList\<close>
  (\<open>chip_comp_install_hook\<close>), both in \<open>src/chip/chip_composite.c\<close>, and hiding the native modes
  (\<open>chip_dump_displayinfobase\<close> in \<open>src/chip/chip_modes.c\<close>).  The database is the list of its entries in
  the order in which \<open>NextDisplayInfo\<close> gives them.  The flags come from headers outside the
  repository, so they are parameters.
\<close>

record dinfo =
  di_id :: u32
  di_handle :: bool                    \<comment> \<open>\<open>FindDisplayInfo\<close> finds a handle\<close>
  di_got :: int                        \<comment> \<open>what \<open>GetDisplayInfoData\<close> returns for \<open>DTAG_DISP\<close>\<close>
  di_flags :: u32
  di_navail :: u16
  di_board :: u32

record dinfo_consts =
  DIPF_IS_RTG :: u32
  DIPF_IS_HWCOMPOSITE :: u32
  DI_AVAIL_NOCHIPS :: u16

text \<open>How \<open>OpenLibrary\<close> and \<open>GetInterface\<close> answer.\<close>

record gfx_open =
  go_library :: bool
  go_interface :: bool

section \<open>Advertising hardware compositing\<close>

definition advertise :: "dinfo_consts \<Rightarrow> u32 \<Rightarrow> dinfo \<Rightarrow> dinfo" where
  "advertise c our_board d =
     (if \<not> di_handle d then d
      else if word_of_int (di_got d) < (48 :: u32) then d
      else if di_flags d AND DIPF_IS_RTG c = 0 then d
      else if di_board d \<noteq> our_board then d
      else if di_flags d AND DIPF_IS_HWCOMPOSITE c \<noteq> 0 then d
      else d\<lparr>di_flags := di_flags d OR DIPF_IS_HWCOMPOSITE c\<rparr>)"

text \<open>The results: the static guard \<open>done\<close>, and the database.\<close>

definition chip_comp_set_dipf_flags :: "dinfo_consts \<Rightarrow> gfx_open \<Rightarrow> u32 \<Rightarrow> bool \<Rightarrow> dinfo list \<Rightarrow> bool \<times> dinfo list" where
  "chip_comp_set_dipf_flags c gfx our_board done_flag db =
     (if done_flag then (True, db)
      else if \<not> go_library gfx then (True, db)
      else if \<not> go_interface gfx then (True, db)
      else (True, map (advertise c our_board) db))"

section \<open>Hiding the native modes\<close>

definition hide_native :: "dinfo_consts \<Rightarrow> dinfo \<Rightarrow> dinfo" where
  "hide_native c d =
     (if \<not> di_handle d then d
      else if di_got d < 48 then d
      else if di_flags d AND DIPF_IS_RTG c \<noteq> 0 then d
      else if di_navail d = DI_AVAIL_NOCHIPS c then d
      else d\<lparr>di_navail := DI_AVAIL_NOCHIPS c\<rparr>)"

definition chip_dump_displayinfobase :: "dinfo_consts \<Rightarrow> gfx_open \<Rightarrow> dinfo list \<Rightarrow> dinfo list" where
  "chip_dump_displayinfobase c gfx db =
     (if \<not> (go_library gfx \<and> go_interface gfx) then db else map (hide_native c) db)"

section \<open>Patching CompositeTagList\<close>

abbreviation IGFX_COMPOSITETAGLIST_OFFSET :: u32 where "IGFX_COMPOSITETAGLIST_OFFSET \<equiv> 804"

record gfx_iface =
  gi_methods :: "u32 \<Rightarrow> u32"          \<comment> \<open>the method at an offset of the interface\<close>
  gi_libraries :: nat                 \<comment> \<open>\<open>OpenLibrary\<close> without \<open>CloseLibrary\<close>\<close>
  gi_orig :: u32                      \<comment> \<open>\<open>g_orig_CompositeTagList\<close>\<close>
  gi_kept :: bool                     \<comment> \<open>\<open>gs->GfxBase\<close> and \<open>gs->IGraphics\<close> are set\<close>

definition chip_comp_install_hook :: "gfx_open \<Rightarrow> u32 \<Rightarrow> gfx_iface \<Rightarrow> bool \<times> gfx_iface" where
  "chip_comp_install_hook gfx hook g =
     (if \<not> go_library gfx then (False, g)
      else let g = g\<lparr>gi_libraries := gi_libraries g + 1\<rparr> in
      if \<not> go_interface gfx then (False, g\<lparr>gi_libraries := gi_libraries g - 1\<rparr>)
      else let g = g\<lparr>gi_orig := gi_methods g IGFX_COMPOSITETAGLIST_OFFSET\<rparr>;
               g = g\<lparr>gi_methods := (gi_methods g)(IGFX_COMPOSITETAGLIST_OFFSET := hook)\<rparr> in
      (True, g\<lparr>gi_kept := True\<rparr>))"

end
