(* ===== verification/P96_Callbacks.thy ===== *)
theory P96_Callbacks
  imports Flush_Task Display_Database Blit
begin

text \<open>
  The Picasso96 callbacks of \<open>src/chip/chip_p96.c\<close>: the display configuration, the pixel clocks, the
  synthesised vertical sync, the power levels and the sprite, with the table of callbacks.  The
  driver state \<open>g_chip_state\<close> exists and \<open>bi\<close> is not NULL, as after \<open>chip_InitCard_C\<close>; of the
  \<open>BoardInfo\<close> only the fields the callbacks use are kept.  Memory is the flat memory of the display.
\<close>

section \<open>State\<close>

record panel =
  pb_ModeInfo :: "ModeInfo option"
  pb_RGBFormat :: RGBFTYPE
  pb_Depth :: u8
  pb_XOffset :: u16                   \<comment> \<open>\<open>WORD\<close>s, as are the two positions\<close>
  pb_YOffset :: u16
  pb_CLUT :: bytes
  pb_MouseX :: u16
  pb_MouseY :: u16
  pb_MouseWidth :: u8
  pb_MouseHeight :: u8
  pb_MouseXOffset :: u8
  pb_MouseYOffset :: u8
  pb_MouseImage :: u32
  pb_slots :: "string \<Rightarrow> string option"   \<comment> \<open>the callbacks by slot, \<^term>\<open>None\<close> for NULL\<close>

record p96 =
  p_f :: flusher
  p_bi :: panel
  p_stat :: "string \<Rightarrow> u32"            \<comment> \<open>\<open>stat_\<close> and \<open>prev_\<close> counters by name\<close>
  p_active_bpr :: u32
  p_last_panning_mem :: u32
  p_clut_debug_done :: bool
  p_rtg_output_enabled :: bool
  p_flush_running :: bool
  p_spawned :: nat                    \<comment> \<open>flush tasks created\<close>
  p_DOSBase :: bool
  p_IDOS :: bool
  p_dipf_done :: bool
  p_displayinfo_dumped :: bool
  p_null_vtable_checked :: bool
  p_db :: "dinfo list"
  p_board :: u32                      \<comment> \<open>\<open>bi->BoardNum\<close>\<close>
  p_cursor_visible :: bool
  p_cursor_needs_refresh :: bool
  p_cursor_w :: u16
  p_cursor_h :: u16
  p_cursor_hot_x :: u16
  p_cursor_hot_y :: u16
  p_cursor_colors :: "(u8 \<times> u8 \<times> u8) list"
  p_cursor_oob_last_log :: u32

text \<open>How the operating system answers: dos.library, its variable and its process, and \<open>CreateTaskTags\<close>.\<close>

record dos =
  dos_open :: bool
  dos_iface :: bool
  dos_var :: bool                     \<comment> \<open>\<open>GetVar\<close> finds \<open>virtiogpu_null_vtable\<close>\<close>
  dos_proc :: bool
  dos_task :: bool
  dos_gfx :: gfx_open
  dos_consts :: dinfo_consts

abbreviation p_disp :: "p96 \<Rightarrow> disp" where "p_disp p \<equiv> v_disp (f_v (p_f p))"

definition on_pdisp :: "(disp \<Rightarrow> disp) \<Rightarrow> p96 \<Rightarrow> p96" where
  "on_pdisp g p = p\<lparr>p_f := f_disp g (p_f p)\<rparr>"

definition p_gpu :: "(gpu \<Rightarrow> ('a \<times> gpu) option) \<Rightarrow> p96 \<Rightarrow> ('a \<times> p96) option" where
  "p_gpu g p = do { (r, gs) \<leftarrow> g (d_gs (p_disp p)); Some (r, on_pdisp (\<lambda>d. d\<lparr>d_gs := gs\<rparr>) p) }"

definition p_bump :: "string \<Rightarrow> p96 \<Rightarrow> p96" where
  "p_bump name p = p\<lparr>p_stat := (p_stat p)(name := p_stat p name + 1)\<rparr>"

definition signal_activity :: "p96 \<Rightarrow> p96" where
  "signal_activity = on_pdisp chip_flush_signal_activity"

definition on_bi :: "(panel \<Rightarrow> panel) \<Rightarrow> p96 \<Rightarrow> p96" where
  "on_bi g p = p\<lparr>p_bi := g (p_bi p)\<rparr>"

section \<open>The table of callbacks\<close>

type_synonym slots = "string \<Rightarrow> string option"

definition set_slots :: "(string \<times> string option) list \<Rightarrow> slots \<Rightarrow> slots" where
  "set_slots xs s = foldl (\<lambda>s (k, v). s(k := v)) s xs"

definition drawing_ops :: "string list" where
  "drawing_ops = [''FillRect'', ''InvertRect'', ''BlitRect'', ''BlitTemplate'', ''BlitPattern'', ''DrawLine'',
     ''BlitRectNoMaskComplete'', ''BlitPlanar2Chunky'', ''BlitPlanar2Direct'']"

definition chip_alloc_fill_vtable :: "slots \<Rightarrow> slots" where
  "chip_alloc_fill_vtable = set_slots [(''AllocCardMem'', Some ''chip_AllocCardMem''), (''FreeCardMem'', Some ''chip_FreeCardMem''),
     (''AllocBitMap'', None), (''FreeBitMap'', None), (''GetBitMapAttr'', None)]"

definition chip_blit_fill_vtable :: "slots \<Rightarrow> slots" where
  "chip_blit_fill_vtable = set_slots (concat (map (\<lambda>n. [(n, Some (''chip_'' @ n)), (n @ ''FB'', Some (''chip_'' @ n))]) drawing_ops))"

definition own_callbacks :: "string list" where
  "own_callbacks = [''SetSwitch'', ''SetColorArray'', ''SetDAC'', ''SetGC'', ''SetPanning'', ''CalculateBytesPerRow'', ''CalculateMemory'',
     ''GetCompatibleFormats'', ''SetDisplay'', ''ResolvePixelClock'', ''GetPixelClock'', ''WaitVerticalSync'', ''SetInterrupt'',
     ''GetVSyncState'', ''GetCurrentY'', ''SetDPMSLevel'', ''SetSprite'', ''SetSpritePosition'', ''SetSpriteImage'', ''SetSpriteColor'']"

definition stub_callbacks :: "(string \<times> string) list" where
  "stub_callbacks = map (\<lambda>n. (n, ''stub_'' @ n)) [''SetClock'', ''SetMemoryMode'', ''SetWriteMask'', ''SetClearMask'', ''SetReadPlane'',
     ''WaitBlitter'', ''ResetChip'']
   @ map (\<lambda>n. (''_'' @ n, ''stub_'' @ n)) [''fp21'', ''fp22'', ''fp23'', ''fp24'', ''fp43'', ''fp44'', ''fp45'', ''fp46'', ''fp47'', ''fp48'',
     ''fp49'', ''fp50'', ''fp51'', ''fp52'', ''fp57'', ''fp65'', ''fp66'', ''fp67'']"

definition chip_fill_boardinfo_vtable :: "slots \<Rightarrow> slots" where
  "chip_fill_boardinfo_vtable s =
     set_slots (map (\<lambda>n. (n, Some (''chip_'' @ n))) own_callbacks @ map (\<lambda>(k, v). (k, Some v)) stub_callbacks)
       (chip_blit_fill_vtable (chip_alloc_fill_vtable s))"

definition null_drawing_slots :: "slots \<Rightarrow> slots" where
  "null_drawing_slots = set_slots (concat (map (\<lambda>n. [(n, None), (n @ ''FB'', None)]) drawing_ops))"

text \<open>The stubs report their first call.\<close>

definition stub_log_once :: "nat \<Rightarrow> string \<Rightarrow> u32 \<times> string list \<Rightarrow> u32 \<times> string list" where
  "stub_log_once k name st = (case st of (seen, msgs) \<Rightarrow>
     let m = push_bit k 1 in if seen AND m = 0 then (seen OR m, msgs @ [name]) else st)"

section \<open>Display configuration\<close>

definition open_dos :: "dos \<Rightarrow> p96 \<Rightarrow> p96" where
  "open_dos os p = (if p_DOSBase p then p
     else if \<not> dos_open os then p
     else p\<lparr>p_DOSBase := True, p_IDOS := p_IDOS p \<or> dos_iface os\<rparr>)"

definition chip_apply_null_vtable_overrides :: "dos \<Rightarrow> p96 \<Rightarrow> p96" where
  "chip_apply_null_vtable_overrides os p =
     (let p = open_dos os p in
      if \<not> p_IDOS p then p
      else if \<not> dos_var os then p
      else on_bi (\<lambda>b. b\<lparr>pb_slots := null_drawing_slots (pb_slots b)\<rparr>) p)"

definition spawn_flush_process :: "dos \<Rightarrow> p96 \<Rightarrow> p96" where
  "spawn_flush_process os p =
     (let p = (if p_DOSBase p then p else if \<not> dos_open os then p else p\<lparr>p_DOSBase := True, p_IDOS := dos_iface os\<rparr>) in
      if p_IDOS p \<and> dos_proc os then p\<lparr>p_flush_running := True, p_spawned := p_spawned p + 1\<rparr> else p)"

definition chip_SetSwitch :: "dos \<Rightarrow> bool \<Rightarrow> p96 \<Rightarrow> bool \<times> p96" where
  "chip_SetSwitch os enabled p =
     (let p = (p_bump ''setswitch'' p)\<lparr>p_rtg_output_enabled := enabled\<rparr>;
          p = (if enabled \<and> \<not> p_flush_running p then spawn_flush_process os p else p);
          p = (if enabled \<and> d_virgl_2d_ready (p_disp p) then
                 let (dn, db) = chip_comp_set_dipf_flags (dos_consts os) (dos_gfx os) (p_board p) (p_dipf_done p) (p_db p)
                 in p\<lparr>p_dipf_done := dn, p_db := db\<rparr> else p);
          p = (if enabled \<and> \<not> p_displayinfo_dumped p then
                 p\<lparr>p_db := chip_dump_displayinfobase (dos_consts os) (dos_gfx os) (p_db p), p_displayinfo_dumped := True\<rparr> else p);
          p = (if enabled \<and> \<not> p_null_vtable_checked p then
                 (chip_apply_null_vtable_overrides os p)\<lparr>p_null_vtable_checked := True\<rparr> else p) in
      (True, if enabled then signal_activity p else p))"

definition clut_entry :: "u8 \<Rightarrow> u8 \<Rightarrow> u8 \<Rightarrow> u32" where
  "clut_entry r g b = push_bit 24 (ucast b) OR push_bit 16 (ucast g) OR push_bit 8 (ucast r)"

definition chip_SetColorArray :: "u16 \<Rightarrow> u16 \<Rightarrow> p96 \<Rightarrow> p96 option" where
  "chip_SetColorArray start cnt p = do {
     let p = p_bump ''setcolor'' p;
     let clut = pb_CLUT (p_bi p);
     pal \<leftarrow> foldM (\<lambda>i pal. do {
        r \<leftarrow> rd clut (i * 3);
        g \<leftarrow> rd clut (i * 3 + 1);
        b \<leftarrow> rd clut (i * 3 + 2);
        wr pal i (clut_entry r g b) }) [unat start..<min (unat start + unat cnt) 256] (d_palette (p_disp p));
     let p = on_pdisp (\<lambda>d. d\<lparr>d_palette := pal\<rparr>) p;
     Some (if d_active_format (p_disp p) = RGBFB_CLUT \<and> cnt > 1
       then signal_activity (p\<lparr>p_clut_debug_done := False\<rparr>) else p) }"

definition chip_SetDAC :: "RGBFTYPE \<Rightarrow> p96 \<Rightarrow> p96" where
  "chip_SetDAC format p = p"

definition chip_compute_refresh_us :: "ModeInfo option \<Rightarrow> u32" where
  "chip_compute_refresh_us mi = (case mi of None \<Rightarrow> 16667 | Some mi \<Rightarrow>
     if mi_PixelClock mi = 0 \<or> mi_HorTotal mi = 0 \<or> mi_VerTotal mi = 0 then 16667
     else let sum = ucast (mi_HorTotal mi) * ucast (mi_VerTotal mi) in
     if sum = 0 then 16667
     else let refresh_hz = mi_PixelClock mi div sum;
              refresh_hz = (if refresh_hz < 30 then 30 else refresh_hz);
              refresh_hz = (if refresh_hz > 240 then 240 else refresh_hz) in 1000000 div refresh_hz)"

definition mode_format :: "ModeInfo \<Rightarrow> RGBFTYPE" where
  "mode_format mi = (if mi_Depth mi \<le> 8 then RGBFB_CLUT else if mi_Depth mi \<le> 16 then RGBFB_R5G6B5 else RGBFB_A8R8G8B8)"

definition announce_mode :: "ModeInfo \<Rightarrow> p96 \<Rightarrow> p96" where
  "announce_mode mi = on_bi (\<lambda>b. b\<lparr>pb_ModeInfo := Some mi, pb_Depth := mi_Depth mi, pb_RGBFormat := mode_format mi\<rparr>)"

definition same_mode :: "ModeInfo \<Rightarrow> p96 \<Rightarrow> bool" where
  "same_mode mi p \<longleftrightarrow> d_active_width (p_disp p) = ucast (mi_Width mi) \<and> d_active_height (p_disp p) = ucast (mi_Height mi)
     \<and> d_active_format (p_disp p) = mode_format mi"

definition op_counters :: "string list" where
  "op_counters = [''fillrect'', ''blitrect'', ''blitrect_nmc'', ''blittemplate'', ''blitpattern'',
     ''fr_clut_le4'', ''fr_clut_le16'', ''fr_clut_le256'', ''fr_clut_le4k'', ''fr_clut_big'']"

definition snapshot_counters :: "p96 \<Rightarrow> p96" where
  "snapshot_counters p = p\<lparr>p_stat := foldl (\<lambda>s n. s(''prev_'' @ n := s n)) (p_stat p) op_counters\<rparr>"

definition set_active :: "ModeInfo \<Rightarrow> p96 \<Rightarrow> p96" where
  "set_active mi p = (on_pdisp (\<lambda>d. d\<lparr>d_active_format := mode_format mi, d_active_width := ucast (mi_Width mi),
       d_active_height := ucast (mi_Height mi)\<rparr>) p)\<lparr>p_active_bpr := ucast (mi_Width mi) * ucast (chip_format_bpp (mode_format mi))\<rparr>"

definition chip_SetGC :: "env \<Rightarrow> ModeInfo option \<Rightarrow> p96 \<Rightarrow> p96 option" where
  "chip_SetGC env mi p = (case mi of None \<Rightarrow> Some p | Some m \<Rightarrow>
     let p = p_bump ''setgc'' p;
         p = p\<lparr>p_f := (p_f p)\<lparr>f_refresh_us := chip_compute_refresh_us mi\<rparr>\<rparr> in
     if same_mode m p then Some (announce_mode m p)
     else let dims_changed = (d_active_width (p_disp p) \<noteq> ucast (mi_Width m) \<or> d_active_height (p_disp p) \<noteq> ucast (mi_Height m));
              p = set_active m (announce_mode m (snapshot_counters p)) in do {
       p \<leftarrow> (if dims_changed \<and> g_fb_mem (d_gs (p_disp p)) \<noteq> 0 then do {
          (_, p) \<leftarrow> p_gpu (chip_resize_fb_to_mode env (d_active_width (p_disp p)) (d_active_height (p_disp p))) p;
          Some (p\<lparr>p_cursor_needs_refresh := True\<rparr>) } else Some p);
       Some (signal_activity p) })"

definition chip_SetPanning :: "u32 \<Rightarrow> u16 \<Rightarrow> u16 \<Rightarrow> u16 \<Rightarrow> RGBFTYPE \<Rightarrow> p96 \<Rightarrow> p96" where
  "chip_SetPanning mem width xOff yOff format p =
     (let p = p_bump ''setpanning'' (on_bi (\<lambda>b. b\<lparr>pb_XOffset := xOff, pb_YOffset := yOff\<rparr>) p);
          p = (if mem \<noteq> 0 then
                 let p = (on_pdisp (\<lambda>d. d\<lparr>d_panning_mem := mem, d_panning_width := ucast width, d_pan_xoff := xOff, d_pan_yoff := yOff\<rparr>) p)
                           \<lparr>p_last_panning_mem := mem\<rparr> in
                 if format \<noteq> d_active_format (p_disp p) then
                   (on_pdisp (\<lambda>d. d\<lparr>d_active_format := format\<rparr>) p)\<lparr>p_active_bpr := ucast width * ucast (chip_format_bpp format)\<rparr>
                 else p
               else p) in
      signal_activity p)"

section \<open>Formats\<close>

definition chip_CalculateBytesPerRow :: "u16 \<Rightarrow> RGBFTYPE \<Rightarrow> u16" where
  "chip_CalculateBytesPerRow width format = ucast (ucast width * ucast (chip_format_bpp format) :: u32)"

definition chip_CalculateMemory :: "u32 \<Rightarrow> RGBFTYPE \<Rightarrow> u32" where
  "chip_CalculateMemory mem format = mem"

definition chip_SetDisplay :: "dos \<Rightarrow> bool \<Rightarrow> p96 \<Rightarrow> bool \<times> p96" where
  "chip_SetDisplay os enabled p =
     (let p = p_bump ''setdisplay'' p;
          p = (if enabled \<and> \<not> p_flush_running p \<and> dos_task os
               then p\<lparr>p_flush_running := True, p_spawned := p_spawned p + 1\<rparr> else p) in
      (True, if enabled then signal_activity p else p))"

section \<open>Pixel clocks\<close>

definition clock_diff :: "u32 \<Rightarrow> u32 \<Rightarrow> u32" where
  "clock_diff a b = (if a > b then a - b else b - a)"

definition closer_clock :: "u32 \<Rightarrow> nat \<Rightarrow> u32 \<times> u32 \<Rightarrow> (u32 \<times> u32) option" where
  "closer_clock pixelClock i st = (case st of (best_idx, best_diff) \<Rightarrow> do {
     e \<leftarrow> rd chip_modes i;
     let diff = clock_diff pixelClock (cm_clock e);
     Some (if diff < best_diff then (of_nat i, diff) else (best_idx, best_diff)) })"

definition chip_ResolvePixelClock :: "ModeInfo option \<Rightarrow> u32 \<Rightarrow> (u32 \<times> ModeInfo option) option" where
  "chip_ResolvePixelClock mi pixelClock = (case mi of None \<Rightarrow> Some (0, None) | Some m \<Rightarrow> do {
     (best_idx, _) \<leftarrow> foldM (closer_clock pixelClock) [1..<unat chip_num_modes] (1, 0xFFFFFFFF);
     Some (best_idx, Some (m\<lparr>mi_PixelClock := pixelClock, mi_clock := ucast best_idx, mi_clock_div := 1\<rparr>)) })"

definition chip_GetPixelClock :: "u32 \<Rightarrow> u32 option" where
  "chip_GetPixelClock i = (if i < chip_num_modes then do { e \<leftarrow> rd chip_modes (unat i); Some (cm_clock e) } else Some 0)"

section \<open>Vertical sync\<close>

text \<open>The two critical sections of \<open>chip_WaitVerticalSync\<close>, and the function; \<open>others\<close> is what happens while it waits.\<close>

definition publish_waiter :: "u32 \<Rightarrow> u32 \<Rightarrow> flusher \<Rightarrow> flusher" where
  "publish_waiter me sig_mask st = st\<lparr>f_wait_vsync_task := me, f_wait_vsync_mask := sig_mask\<rparr>"

definition retract_waiter :: "u32 \<Rightarrow> flusher \<Rightarrow> flusher" where
  "retract_waiter me st = (if f_wait_vsync_task st = me then st\<lparr>f_wait_vsync_task := 0, f_wait_vsync_mask := 0\<rparr> else st)"

definition chip_WaitVerticalSync :: "u32 \<Rightarrow> (flusher \<Rightarrow> flusher) \<Rightarrow> flusher \<Rightarrow> flusher" where
  "chip_WaitVerticalSync me others st =
     (if d_flush_task (v_disp (f_v st)) = 0 \<or> f_vsync_mutex st = 0 then st
      else let (sig_bit, st) = f_exec AllocSignal st in
      if sig_bit < 0 then st
      else let st = publish_waiter me (push_bit (nat sig_bit) 1) st;
               st = others st;
               st = retract_waiter me st in
      f_free (FreeSignal sig_bit) st)"

definition chip_GetCurrentY :: "flusher \<Rightarrow> u32 \<times> flusher" where
  "chip_GetCurrentY st =
     (let d = v_disp (f_v st); c = d_eclock d; freq = ec_freq c; refresh_us = f_refresh_us st; height = d_active_height d in
      if \<not> ec_itimer c \<or> freq = 0 \<or> refresh_us = 0 \<or> height = 0 then (0, st)
      else let (lo, c) = ReadEClock c;
               st = f_disp (\<lambda>d. d\<lparr>d_eclock := c\<rparr>) st;
               delta_ticks = lo - f_last_vsync_lo st;
               delta_us = (ucast delta_ticks * 1000000 :: u64) div ucast freq in
      if delta_us \<ge> ucast refresh_us then (height - 1, st)
      else (ucast ((delta_us * ucast height) div ucast refresh_us), st))"

definition chip_SetInterrupt :: "bool \<Rightarrow> flusher \<Rightarrow> bool \<times> flusher" where
  "chip_SetInterrupt enable st = (True, st\<lparr>f_vbi_enabled := enable\<rparr>)"

definition chip_GetVSyncState :: "flusher \<Rightarrow> bool" where
  "chip_GetVSyncState st \<longleftrightarrow> f_vsync_phase st AND 1 \<noteq> 0"

abbreviation DPMS_ON :: u32 where "DPMS_ON \<equiv> 0"

definition chip_SetDPMSLevel :: "env \<Rightarrow> u32 \<Rightarrow> p96 \<Rightarrow> p96 option" where
  "chip_SetDPMSLevel env level p =
     (let p = p\<lparr>p_f := (p_f p)\<lparr>f_dpms_level := level\<rparr>\<rparr>; d = p_disp p; gs = d_gs d in
      if level = DPMS_ON then
        let w = (if d_active_width d < g_fb_width gs then d_active_width d else g_fb_width gs);
            h = (if d_active_height d < g_fb_height gs then d_active_height d else g_fb_height gs) in do {
          (_, p) \<leftarrow> p_gpu (chip_SetScanout env 0 (g_resource_id gs) 0 0 w h) p;
          Some (signal_activity p) }
      else do { (_, p) \<leftarrow> p_gpu (chip_SetScanout env 0 0 0 0 0 0) p; Some p })"

section \<open>The sprite\<close>

definition chip_SetSprite :: "bool \<Rightarrow> p96 \<Rightarrow> bool \<times> p96" where
  "chip_SetSprite activate p = (activate, (p_bump ''setsprite'' p)\<lparr>p_cursor_visible := activate\<rparr>)"

text \<open>The panned origin is subtracted and the position clamped to the mode; \<open>WORD\<close> arithmetic wraps.\<close>

definition sprite_coord :: "u16 \<Rightarrow> u16 \<Rightarrow> u16 option \<Rightarrow> u8 \<Rightarrow> u16" where
  "sprite_coord x off limit extent =
     (let v = x - off;
          v = (case limit of None \<Rightarrow> v | Some l \<Rightarrow> if sint v > sint l then l else v);
          lowest = 1 - ucast extent in
      if sint v < sint lowest then lowest else v)"

definition set_cursor_pos :: "u16 \<Rightarrow> u16 \<Rightarrow> p96 \<Rightarrow> p96" where
  "set_cursor_pos vx vy = on_pdisp (\<lambda>d. d\<lparr>d_gs := (d_gs d)\<lparr>g_cursor_x := vx, g_cursor_y := vy\<rparr>\<rparr>)"

definition log_oob :: "u16 \<Rightarrow> u16 \<Rightarrow> p96 \<Rightarrow> p96" where
  "log_oob vx vy p =
     (let outside = (\<lambda>(v :: u16) lim. sint v \<ge> 0 \<and> ucast v \<ge> lim) in
      if (outside vx (d_active_width (p_disp p)) \<or> outside vy (d_active_height (p_disp p)))
         \<and> p_stat p ''setspritepos'' - p_cursor_oob_last_log p > 50
      then p\<lparr>p_cursor_oob_last_log := p_stat p ''setspritepos''\<rparr> else p)"

definition chip_SetSpritePosition :: "env \<Rightarrow> u16 \<Rightarrow> u16 \<Rightarrow> p96 \<Rightarrow> p96 option" where
  "chip_SetSpritePosition env x y p =
     (let p = p_bump ''setspritepos'' p; b = p_bi p;
          vx = sprite_coord x (pb_XOffset b) (map_option mi_Width (pb_ModeInfo b)) (pb_MouseWidth b);
          vy = sprite_coord y (pb_YOffset b) (map_option mi_Height (pb_ModeInfo b)) (pb_MouseHeight b);
          p = set_cursor_pos vx vy p; gs = d_gs (p_disp p) in do {
        p \<leftarrow> (if p_cursor_needs_refresh p \<and> g_cursor_created gs \<and> (vx \<noteq> g_cursor_last_sent_x gs \<or> vy \<noteq> g_cursor_last_sent_y gs) then do {
            gs \<leftarrow> chip_CursorMove env vx vy gs;
            Some ((on_pdisp (\<lambda>d. d\<lparr>d_gs := gs\<lparr>g_cursor_last_sent_x := vx, g_cursor_last_sent_y := vy\<rparr>\<rparr>) p)\<lparr>p_cursor_needs_refresh := False\<rparr>) }
          else Some p);
        Some (log_oob vx vy p) })"

definition sprite_color :: "u8 \<times> u8 \<times> u8 \<Rightarrow> u32" where
  "sprite_color c = (case c of (r, g, b) \<Rightarrow> push_bit 24 (ucast b) OR push_bit 16 (ucast g) OR push_bit 8 (ucast r) OR 0xFF)"

definition sprite_colors :: "(u8 \<times> u8 \<times> u8) list \<Rightarrow> u32 list" where
  "sprite_colors cs = 0 # map sprite_color cs"

text \<open>The data and mask bits of a row of the image, in the high bits.\<close>

definition sprite_row :: "bool \<Rightarrow> nat \<Rightarrow> nat \<Rightarrow> bytes \<Rightarrow> (u32 \<times> u32) option" where
  "sprite_row wide img row mem =
     (if wide then do {
        a \<leftarrow> cpu_ld32 (img + (row + 1) * 8) mem; b \<leftarrow> cpu_ld32 (img + (row + 1) * 8 + 4) mem; Some (a, b) }
      else do {
        a \<leftarrow> cpu_ld16 (img + (row + 1) * 4) mem; b \<leftarrow> cpu_ld16 (img + (row + 1) * 4 + 2) mem;
        Some (push_bit 16 (ucast a), push_bit 16 (ucast b)) })"

definition sprite_index :: "u32 \<Rightarrow> u32 \<Rightarrow> nat \<Rightarrow> nat" where
  "sprite_index data_bits mask_bits col =
     (let bit = push_bit (31 - col) 1 in
      2 * (if mask_bits AND bit \<noteq> 0 then 1 else 0) + (if data_bits AND bit \<noteq> 0 then 1 else 0))"

definition draw_sprite_row :: "u32 list \<Rightarrow> bool \<Rightarrow> nat \<Rightarrow> nat \<Rightarrow> nat \<Rightarrow> nat \<Rightarrow> bytes \<Rightarrow> bytes option" where
  "draw_sprite_row colors wide img cursor mw row mem = do {
     (data_bits, mask_bits) \<leftarrow> sprite_row wide img row mem;
     foldM (\<lambda>col mem. do {
        c \<leftarrow> rd colors (sprite_index data_bits mask_bits col);
        cpu_st32 (cursor + (row * 64 + col) * 4) c mem }) [0..<min (if wide then 32 else 16) mw] mem }"

definition draw_sprite :: "u32 list \<Rightarrow> bool \<Rightarrow> nat \<Rightarrow> nat \<Rightarrow> nat \<Rightarrow> nat \<Rightarrow> bytes \<Rightarrow> bytes option" where
  "draw_sprite colors wide img cursor mw mh = foldM (draw_sprite_row colors wide img cursor mw) [0..<mh]"

definition clear_cursor :: "nat \<Rightarrow> bytes \<Rightarrow> bytes option" where
  "clear_cursor cursor = foldM (\<lambda>i. cpu_st32 (cursor + i * 4) 0) [0..<64 * 64]"

definition clamp_extent :: "u8 \<Rightarrow> u8" where
  "clamp_extent m = (if m > 64 then 64 else m)"

definition sync_sprite :: "panel \<Rightarrow> p96 \<Rightarrow> p96" where
  "sync_sprite b p = (set_cursor_pos (pb_MouseX b - pb_XOffset b) (pb_MouseY b - pb_YOffset b) p)
     \<lparr>p_cursor_hot_x := ucast (pb_MouseXOffset b), p_cursor_hot_y := ucast (pb_MouseYOffset b)\<rparr>"

text \<open>From the drawing on: the image is there and has an extent.\<close>

definition put_sprite :: "env \<Rightarrow> p96 \<Rightarrow> p96 option" where
  "put_sprite env p = do {
     let b = p_bi p;
     let mw = clamp_extent (pb_MouseWidth b);
     let mh = clamp_extent (pb_MouseHeight b);
     let p = p\<lparr>p_cursor_w := ucast mw, p_cursor_h := ucast mh\<rparr>;
     if pb_MouseImage b = 0 then Some p
     else do {
       let cursor = unat (g_cursor_mem (d_gs (p_disp p)));
       m \<leftarrow> draw_sprite (sprite_colors (p_cursor_colors p)) (mw > 16) (unat (pb_MouseImage b)) cursor (unat mw) (unat mh)
             (d_mem (p_disp p));
       let p = sync_sprite b (on_pdisp (\<lambda>d. d\<lparr>d_mem := m\<rparr>) p);
       gs \<leftarrow> chip_CursorUpdate env (ucast (pb_MouseXOffset b)) (ucast (pb_MouseYOffset b)) (d_gs (p_disp p));
       Some (on_pdisp (\<lambda>d. d\<lparr>d_gs := gs\<rparr>) p) } }"

definition chip_SetSpriteImage :: "env \<Rightarrow> p96 \<Rightarrow> p96 option" where
  "chip_SetSpriteImage env p = do {
     let p = p_bump ''setspriteimg'' p;
     (ok, p) \<leftarrow> (if g_cursor_created (d_gs (p_disp p)) then Some (True, p) else p_gpu (chip_CursorCreate env) p);
     if \<not> ok then Some p
     else if g_cursor_mem (d_gs (p_disp p)) = 0 then Some p
     else do {
       m \<leftarrow> clear_cursor (unat (g_cursor_mem (d_gs (p_disp p)))) (d_mem (p_disp p));
       let p = on_pdisp (\<lambda>d. d\<lparr>d_mem := m\<rparr>) p;
       if pb_MouseWidth (p_bi p) = 0 \<or> pb_MouseHeight (p_bi p) = 0 then Some p else put_sprite env p } }"

definition chip_SetSpriteColor :: "u8 \<Rightarrow> u8 \<Rightarrow> u8 \<Rightarrow> u8 \<Rightarrow> p96 \<Rightarrow> p96" where
  "chip_SetSpriteColor idx r g b p =
     (if idx > 2 then p
      else (p_bump ''setspritecol'' p)\<lparr>p_cursor_colors := (p_cursor_colors p)[unat idx := (r, g, b)]\<rparr>)"

end
