(* ===== verification/P96_Correct.thy ===== *)
theory P96_Correct
  imports P96_Callbacks Flush_Task_Correct
begin

text \<open>
  What the Picasso96 callbacks do: the image of the sprite, the position of the sprite, the
  palette, the pixel clocks, the refresh interval and the synthesised beam position.
\<close>

section \<open>The image of the sprite\<close>

definition sprite_bits :: "bool \<Rightarrow> nat \<Rightarrow> nat" where
  "sprite_bits wide mw = min (if wide then 32 else 16) mw"

definition sprite_pixel :: "u32 list \<Rightarrow> bool \<Rightarrow> nat \<Rightarrow> bytes \<Rightarrow> nat \<Rightarrow> nat \<Rightarrow> u32" where
  "sprite_pixel colors wide img mem row col =
     (case sprite_row wide img row mem of None \<Rightarrow> 0 | Some (d, k) \<Rightarrow> colors ! sprite_index d k col)"

definition sprite_bytes :: "u32 list \<Rightarrow> bool \<Rightarrow> nat \<Rightarrow> nat \<Rightarrow> bytes \<Rightarrow> nat \<Rightarrow> u8 \<Rightarrow> u8" where
  "sprite_bytes colors wide img cursor mem a _ =
     (let k = (a - cursor) div 4 in be32 (sprite_pixel colors wide img mem (k div 64) (k mod 64)) ! ((a - cursor) mod 4))"

definition image_bytes :: "bool \<Rightarrow> nat \<Rightarrow> nat \<Rightarrow> nat set" where
  "image_bytes wide img mh = {img..<img + (mh + 1) * (if wide then 8 else 4)}"

lemma sprite_bytes_at:
  assumes "col < 64" "i < 4"
  shows "sprite_bytes colors wide img cursor mem (cursor + (row * 64 + col) * 4 + i) old
    = be32 (sprite_pixel colors wide img mem row col) ! i"
proof -
  have a: "cursor + (row * 64 + col) * 4 + i - cursor = (row * 64 + col) * 4 + i" by simp
  have "(k * 4 + i) div 4 = k" "(k * 4 + i) mod 4 = i" for k using assms(2) by simp_all
  then have "((row * 64 + col) * 4 + i) div 4 = row * 64 + col" "((row * 64 + col) * 4 + i) mod 4 = i" by blast+
  moreover have "(row * 64 + col) div 64 = row" "(row * 64 + col) mod 64 = col" using assms(1) by simp_all
  ultimately show ?thesis by (simp only: sprite_bytes_def a Let_def)
qed

lemma sprite_index_less: "sprite_index d k col < 4"
  by (simp add: sprite_index_def Let_def)

lemma clear_cursor_result:
  assumes "cursor + 16384 \<le> length m"
  shows "\<exists>m'. clear_cursor cursor m = Some m' \<and> paints (\<lambda>_ _. 0) {cursor..<cursor + 16384} m m'"
proof -
  have "\<exists>m'. foldM (\<lambda>i. cpu_st32 (cursor + i * 4) 0) [0..<4096] m = Some m' \<and> paints (\<lambda>_ _. 0) {cursor..<cursor + 4096 * 4} m m'"
  proof (rule paints_pixels [where R = "{}" and ?m0.0 = m])
    fix col b assume c: "col < (4096 :: nat)" and "agrees {} m b"
    then have l: "cursor + col * 4 + 4 \<le> length b" using assms agrees_length by fastforce
    have len: "length (be32 0) = 4" by (simp add: be32_def)
    have "be32 (0 :: u32) = replicate 4 0" by (simp add: be32_def byte_of_def numeral_eq_Suc)
    then have "be32 (0 :: u32) ! i = 0" if "i < 4" for i using that by (simp only: nth_replicate)
    then have "paints (\<lambda>_ _. 0) {cursor + col * 4..<cursor + col * 4 + 4} b (stbytes (cursor + col * 4) (be32 0) b)"
      using paints_stbytes [of "cursor + col * 4" "be32 0" b "\<lambda>_ _. 0"] l unfolding len by simp
    then show "\<exists>m'. cpu_st32 (cursor + col * 4) 0 b = Some m' \<and> paints (\<lambda>_ _. 0) {cursor + col * 4..<cursor + col * 4 + 4} b m'"
      using cpu_st_in(2) [OF l] by blast
  qed (simp_all add: agrees_refl)
  then show ?thesis by (simp add: clear_cursor_def)
qed

lemma sprite_row_agrees:
  assumes "agrees (image_bytes wide img mh) m0 m" "row < mh" "img + (mh + 1) * (if wide then 8 else 4) \<le> length m0"
  shows "\<exists>d k. sprite_row wide img row m = Some (d, k) \<and> sprite_row wide img row m0 = Some (d, k)"
proof -
  have len: "length m = length m0" using assms(1) by (rule agrees_length)
  have at: "m ! (img + j) = m0 ! (img + j)" if "j < (mh + 1) * (if wide then 8 else 4)" for j
    using assms(1,3) that by (auto simp: agrees_def image_bytes_def)
  have ld: "cpu_ld32 (img + j) m = cpu_ld32 (img + j) m0" if "j + 4 \<le> (mh + 1) * (if wide then 8 else 4)" for j
    using that at [of j] at [of "j + 1"] at [of "j + 2"] at [of "j + 3"] by (simp add: cpu_ld32_def len add.assoc)
  have ld': "cpu_ld16 (img + j) m = cpu_ld16 (img + j) m0" if "j + 2 \<le> (mh + 1) * (if wide then 8 else 4)" for j
    using that at [of j] at [of "j + 1"] by (simp add: cpu_ld16_def len add.assoc)
  show ?thesis
  proof (cases wide)
    case True
    have j: "(row + 1) * 8 + 8 \<le> (mh + 1) * 8" using assms(2) by simp
    then show ?thesis
      using ld [of "(row + 1) * 8"] ld [of "(row + 1) * 8 + 4"] assms(3) True be_ld(2) [of "img + (row + 1) * 8" m0] be_ld(2) [of "img + (row + 1) * 8 + 4" m0]
      by (auto simp: sprite_row_def ac_simps)
  next
    case False
    have j: "(row + 1) * 4 + 4 \<le> (mh + 1) * 4" using assms(2) by simp
    then show ?thesis
      using ld' [of "(row + 1) * 4"] ld' [of "(row + 1) * 4 + 2"] assms(3) False be_ld(1) [of "img + (row + 1) * 4" m0] be_ld(1) [of "img + (row + 1) * 4 + 2" m0]
      by (auto simp: sprite_row_def ac_simps)
  qed
qed

lemma draw_sprite_result:
  assumes cur: "cursor + 16384 \<le> length m0" and img: "img + (mh + 1) * (if wide then 8 else 4) \<le> length m0"
    and apart: "image_bytes wide img mh \<inter> {cursor..<cursor + 16384} = {}" and mh: "mh \<le> 64" and cols: "length colors = 4"
    and start: "agrees (image_bytes wide img mh) m0 m1"
  shows "\<exists>m'. draw_sprite colors wide img cursor mw mh m1 = Some m'
    \<and> paints (sprite_bytes colors wide img cursor m0) (rect_bytes cursor 256 (sprite_bits wide mw * 4) mh) m1 m'"
proof -
  let ?R = "image_bytes wide img mh" and ?F = "sprite_bytes colors wide img cursor m0" and ?w = "sprite_bits wide mw"
  have w: "?w \<le> 32" by (cases wide) (simp_all add: sprite_bits_def)
  have sub: "{cursor + row * 256..<cursor + row * 256 + ?w * 4} \<subseteq> {cursor..<cursor + 16384}" if "row < mh" for row
  proof -
    have "row * 256 + ?w * 4 \<le> 63 * 256 + 32 * 4" using that mh w by (intro add_mono mult_right_mono) simp_all
    then show ?thesis by auto
  qed
  show ?thesis unfolding draw_sprite_def
  proof (rule paints_rows [where R = ?R and ?m0.0 = m0])
    show "?R \<inter> rect_bytes cursor 256 (?w * 4) mh = {}" using apart sub by (fastforce simp: rect_bytes_def)
    show "?w * 4 \<le> 256" using w by simp
    fix row m assume r: "row < mh" and ag: "agrees ?R m0 m"
    obtain d k where dk: "sprite_row wide img row m = Some (d, k)" "sprite_row wide img row m0 = Some (d, k)"
      using sprite_row_agrees [OF ag r img] by blast
    have "\<exists>m'. foldM (\<lambda>col mem. do { c \<leftarrow> rd colors (sprite_index d k col); cpu_st32 (cursor + (row * 64 + col) * 4) c mem }) [0..<?w] m = Some m'
      \<and> paints ?F {cursor + row * 256..<cursor + row * 256 + ?w * 4} m m'"
    proof (rule paints_pixels [where R = ?R and ?m0.0 = m0])
      fix col b assume c: "col < ?w" and b: "agrees ?R m0 b"
      have eq: "cursor + row * 256 + col * 4 = cursor + (row * 64 + col) * 4" by simp
      have "cursor + (row * 64 + col) * 4 + 4 \<le> cursor + 16384" using c w r mh by auto
      then have l: "cursor + (row * 64 + col) * 4 + 4 \<le> length b" using cur agrees_length [OF b] by linarith
      have rdc: "rd colors (sprite_index d k col) = Some (sprite_pixel colors wide img m0 row col)"
        using sprite_index_less [of d k col] cols dk(2) by (simp add: rd_def sprite_pixel_def)
      have len: "length (be32 v) = 4" for v by (simp add: be32_def)
      have "paints ?F {cursor + (row * 64 + col) * 4..<cursor + (row * 64 + col) * 4 + 4} b
         (stbytes (cursor + (row * 64 + col) * 4) (be32 (sprite_pixel colors wide img m0 row col)) b)"
        using paints_stbytes [of "cursor + (row * 64 + col) * 4" "be32 (sprite_pixel colors wide img m0 row col)" b ?F] l
          sprite_bytes_at [of col _ colors wide img cursor m0 row] c w unfolding len by auto
      then show "\<exists>m'. (do { c \<leftarrow> rd colors (sprite_index d k col); cpu_st32 (cursor + (row * 64 + col) * 4) c b }) = Some m'
         \<and> paints ?F {cursor + row * 256 + col * 4..<cursor + row * 256 + col * 4 + 4} b m'"
        unfolding eq rdc using cpu_st_in(2) [OF l] by auto
    next
      show "?R \<inter> {cursor + row * 256..<cursor + row * 256 + ?w * 4} = {}" using apart sub [OF r] by blast
    qed (simp_all add: ag)
    then show "\<exists>m'. draw_sprite_row colors wide img cursor mw row m = Some m' \<and> paints ?F {cursor + row * 256..<cursor + row * 256 + ?w * 4} m m'"
      by (simp add: draw_sprite_row_def dk(1) sprite_bits_def)
  qed (rule start)
qed

section \<open>The position of the sprite\<close>

lemma sint_sub:
  fixes a b :: u16
  assumes "- 32768 \<le> sint a - sint b" "sint a - sint b < 32768"
  shows "sint (a - b) = sint a - sint b"
proof -
  have "sint (a - b) = signed_take_bit 15 (sint a - sint b)" by (simp add: sint_word_ariths)
  also have "\<dots> = sint a - sint b" using assms by (intro signed_take_bit_int_eq_self) simp_all
  finally show ?thesis .
qed

lemma lowest_sint: "sint (1 - ucast (e :: u8) :: u16) = 1 - uint e"
proof -
  have u: "uint e < 256" using uint_lt2p [of e] by simp
  have s: "sint (ucast e :: u16) = uint e"
  proof -
    have "sint (ucast e :: u16) = signed_take_bit 15 (uint e)" by (simp add: signed_ucast_eq)
    also have "\<dots> = uint e" using u by (intro signed_take_bit_int_eq_self) (auto intro: order_trans [OF _ uint_ge_0])
    finally show ?thesis .
  qed
  have o1: "sint (1 :: u16) = 1" by simp
  have "sint (1 - ucast e :: u16) = sint (1 :: u16) - sint (ucast e :: u16)" 
    by (rule sint_sub) (use s u o1 uint_ge_0 [of e] in linarith)+
  then show ?thesis using s by simp
qed

lemma sprite_coord_clamps:
  assumes "- 32768 \<le> sint x - sint off" "sint x - sint off < 32768"
  shows "sint (sprite_coord x off limit e) = max (1 - uint e) (case limit of None \<Rightarrow> sint x - sint off | Some l \<Rightarrow> min (sint l) (sint x - sint off))"
  by (cases limit) (simp_all add: sprite_coord_def Let_def sint_sub [OF assms] lowest_sint)

section \<open>The palette\<close>

lemma set_color_array_result:
  assumes "length (pb_CLUT (p_bi p)) = 768" "length (d_palette (p_disp p)) = 256"
  shows "\<exists>p' pal. chip_SetColorArray start cnt p = Some p' \<and> d_palette (p_disp p') = pal \<and> length pal = 256
    \<and> (\<forall>i<256. pal ! i = (if unat start \<le> i \<and> i < unat start + unat cnt
         then clut_entry (pb_CLUT (p_bi p) ! (i * 3)) (pb_CLUT (p_bi p) ! (i * 3 + 1)) (pb_CLUT (p_bi p) ! (i * 3 + 2))
         else d_palette (p_disp p) ! i))
    \<and> d_signals (p_disp p') = d_signals (p_disp p) @ (if d_active_format (p_disp p) = RGBFB_CLUT \<and> cnt > 1
         \<and> d_flush_task (p_disp p) \<noteq> 0 \<and> d_flush_sig_mask (p_disp p) \<noteq> 0 then [(d_flush_task (p_disp p), d_flush_sig_mask (p_disp p))] else [])"
proof -
  let ?c = "pb_CLUT (p_bi p)" and ?P = "d_palette (p_disp p)" and ?n = "min (unat start + unat cnt) 256"
  let ?f = "\<lambda>i pal. do { r \<leftarrow> rd ?c (i * 3); g \<leftarrow> rd ?c (i * 3 + 1); b \<leftarrow> rd ?c (i * 3 + 2); wr pal i (clut_entry r g b) }"
  let ?new = "\<lambda>i. clut_entry (?c ! (i * 3)) (?c ! (i * 3 + 1)) (?c ! (i * 3 + 2))"
  have "\<exists>pal. foldM ?f [unat start..<?n] ?P = Some pal \<and> length pal = 256
     \<and> (\<forall>i<256. pal ! i = (if unat start \<le> i \<and> i < unat start + unat cnt then ?new i else ?P ! i))"
  proof (cases "unat start \<le> ?n")
    case False
    then have "[unat start..<?n] = []" by simp
    then show ?thesis using assms False by (auto simp: foldM_Nil)
  next
    case True
    define inv where "inv k pal \<longleftrightarrow> length pal = 256 \<and> (\<forall>i<256. pal ! i = (if unat start \<le> i \<and> i < k then ?new i else ?P ! i))" for k pal
    have "\<exists>pal. foldM ?f [unat start..<?n] ?P = Some pal \<and> inv ?n pal"
    proof (rule foldM_upt_rule [where P = inv])
      show "inv (unat start) ?P" using assms by (auto simp: inv_def)
      fix k pal assume "unat start \<le> k" "k < ?n" "inv k pal"
      then show "\<exists>pal'. ?f k pal = Some pal' \<and> inv (Suc k) pal'"
        using assms(1) by (simp add: inv_def rd_def wr_def nth_list_update less_Suc_eq)
    qed (rule True)
    then show ?thesis by (auto simp: inv_def)
  qed
  then obtain pal where "foldM ?f [unat start..<?n] ?P = Some pal" "length pal = 256"
     "\<forall>i<256. pal ! i = (if unat start \<le> i \<and> i < unat start + unat cnt then ?new i else ?P ! i)" by blast
  then show ?thesis
    by (auto simp: chip_SetColorArray_def p_bump_def on_pdisp_def f_disp_def on_vdisp_def signal_activity_def chip_flush_signal_activity_def Let_def)
qed

section \<open>Pixel clocks\<close>

lemma mode_table_length: "length chip_modes = 14"
  by (simp add: chip_modes_def)

lemma nearest_clock:
  "\<exists>idx d. foldM (closer_clock c) [1..<14] (1, 0xFFFFFFFF) = Some (of_nat idx, d) \<and> 1 \<le> idx \<and> idx < 14
     \<and> (\<forall>i. 1 \<le> i \<and> i < 14 \<longrightarrow> clock_diff c (cm_clock (chip_modes ! idx)) \<le> clock_diff c (cm_clock (chip_modes ! i))
          \<and> (i < idx \<longrightarrow> clock_diff c (cm_clock (chip_modes ! idx)) < clock_diff c (cm_clock (chip_modes ! i))))"
proof -
  let ?d = "\<lambda>i. clock_diff c (cm_clock (chip_modes ! i))"
  define inv where "inv k st \<longleftrightarrow> (\<exists>idx. st = (of_nat idx :: u32, snd st) \<and> 1 \<le> idx \<and> idx < max k 2
     \<and> (\<forall>i. 1 \<le> i \<and> i < k \<longrightarrow> snd st \<le> ?d i \<and> (i < idx \<longrightarrow> snd st < ?d i)) \<and> (if k = 1 then idx = 1 \<and> snd st = 0xFFFFFFFF else snd st = ?d idx))" for k :: nat and st :: "u32 \<times> u32"
  have top: "v \<le> 0xFFFFFFFF" for v :: u32 
  proof -
    have "unat v < 2 ^ LENGTH(32)" by (rule unsigned_less)
    then show ?thesis by (simp add: word_le_nat_alt)
  qed
  have "\<exists>st. foldM (closer_clock c) [1..<14] (1, 0xFFFFFFFF) = Some st \<and> inv 14 st"
  proof (rule foldM_upt_rule)
    have "inv 1 (1, 0xFFFFFFFF)" unfolding inv_def by (intro exI [of _ 1]) auto
    then show "inv 1 (1, 0xFFFFFFFF)" .
    fix k st assume k: "1 \<le> k" "k < (14 :: nat)" and "inv k st"
    then obtain idx where i: "st = (of_nat idx, snd st)" "1 \<le> idx" "idx < max k 2" "\<forall>i. 1 \<le> i \<and> i < k \<longrightarrow> snd st \<le> ?d i \<and> (i < idx \<longrightarrow> snd st < ?d i)"
      "if k = 1 then idx = 1 \<and> snd st = 0xFFFFFFFF else snd st = ?d idx" unfolding inv_def by blast
    have r: "closer_clock c k st = Some (if ?d k < snd st then (of_nat k, ?d k) else st)"
      using k i(1) mode_table_length by (simp add: closer_clock_def rd_def split: prod.split)
    have "inv (Suc k) (if ?d k < snd st then (of_nat k, ?d k) else st)"
    proof (cases "?d k < snd st")
      case True
      then show ?thesis unfolding inv_def using k i(4) by (intro exI [of _ k]) (auto simp: less_Suc_eq intro: less_le_trans)
    next
      case False
      then have "snd st = ?d idx" using i(5) top [of "?d k"] by (auto split: if_splits)
      then show ?thesis unfolding inv_def using k i False by (intro exI [of _ idx]) (auto simp: less_Suc_eq)
    qed
    then show "\<exists>s'. closer_clock c k st = Some s' \<and> inv (Suc k) s'" using r by blast
  qed simp
  then obtain st where st: "foldM (closer_clock c) [1..<14] (1, 0xFFFFFFFF) = Some st" "inv 14 st" by blast
  then obtain idx where "st = (of_nat idx, snd st)" "1 \<le> idx" "idx < 14" "\<forall>i. 1 \<le> i \<and> i < 14 \<longrightarrow> snd st \<le> ?d i \<and> (i < idx \<longrightarrow> snd st < ?d i)"
    "snd st = ?d idx" by (auto simp: inv_def)
  then show ?thesis using st(1) by metis
qed

section \<open>Refresh and beam position\<close>

lemma refresh_bounds:
  "4166 \<le> unat (chip_compute_refresh_us mi) \<and> unat (chip_compute_refresh_us mi) \<le> 33333"
proof -
  have b: "4166 \<le> unat (1000000 div h :: u32) \<and> unat (1000000 div h :: u32) \<le> 33333" if "30 \<le> h" "h \<le> 240" for h :: u32
  proof -
    have h: "30 \<le> unat h" "unat h \<le> 240" using that by (simp_all add: word_le_nat_alt)
    have "unat (1000000 div h) = 1000000 div unat h" by (simp add: unat_div)
    moreover have "1000000 div 240 \<le> 1000000 div unat h" "1000000 div unat h \<le> 1000000 div 30" using h by (intro div_le_mono2; simp)+
    ultimately show ?thesis by simp
  qed
  have c: "30 \<le> (if h > 240 then 240 else h)" "(if h > 240 then 240 else h) \<le> 240" if "30 \<le> h" for h :: u32
    using that by (auto simp: not_less)
  show ?thesis
  proof (cases mi)
    case (Some m)
    let ?q = "mi_PixelClock m div (ucast (mi_HorTotal m) * ucast (mi_VerTotal m))"
    have "30 \<le> (if ?q < 30 then 30 else ?q)" by (simp add: not_less)
    from b [OF c(1) [OF this] c(2) [OF this]] show ?thesis by (simp add: Some chip_compute_refresh_us_def Let_def)
  qed (simp add: chip_compute_refresh_us_def)
qed

definition beam_us :: "nat \<Rightarrow> nat \<Rightarrow> nat" where
  "beam_us ticks freq = ticks * 1000000 div freq"

lemma unat_u64_mult:
  assumes "unat (a :: u64) * unat b < 2 ^ 64"
  shows "unat (a * b) = unat a * unat b"
  using assms by (simp add: unat_word_ariths)

lemma current_y_result:
  fixes st :: flusher
  defines "d \<equiv> v_disp (f_v st)"
  assumes "ec_itimer (d_eclock d)" "ec_freq (d_eclock d) \<noteq> 0" "f_refresh_us st \<noteq> 0" "d_active_height d \<noteq> 0"
  shows "unat (fst (chip_GetCurrentY st)) = min (unat (d_active_height d) - 1)
     (beam_us (unat (fst (ReadEClock (d_eclock d)) - f_last_vsync_lo st)) (unat (ec_freq (d_eclock d))) * unat (d_active_height d) div unat (f_refresh_us st))"
proof -
  let ?t = "fst (ReadEClock (d_eclock d)) - f_last_vsync_lo st" and ?f = "ec_freq (d_eclock d)" and ?r = "f_refresh_us st" and ?h = "d_active_height d"
  let ?us = "(ucast ?t * 1000000 :: u64) div ucast ?f"
  have lt: "unat (v :: u32) < 4294967296" for v using unsigned_less [of v] by simp
  have uc: "unat (ucast v :: u64) = unat v" for v :: u32 using lt [of v] by (simp add: unsigned_ucast_eq take_bit_nat_eq_self)
  have "unat (ucast ?t * 1000000 :: u64) = unat ?t * 1000000"
    using unat_u64_mult [of "ucast ?t" 1000000] lt [of ?t] by (simp add: uc)
  then have us: "unat ?us = beam_us (unat ?t) (unat ?f)" by (simp add: unat_div uc beam_us_def)
  obtain lo c where r: "ReadEClock (d_eclock (v_disp (f_v st))) = (lo, c)" by fastforce
  have nz: "0 < unat ?r" "0 < unat ?h" using assms by (simp_all add: unat_gt_0)
  show ?thesis
  proof (cases "?us \<ge> ucast ?r")
    case True
    then have "unat ?r \<le> beam_us (unat ?t) (unat ?f)" by (simp add: word_le_nat_alt us uc)
    then have "unat ?h \<le> beam_us (unat ?t) (unat ?f) * unat ?h div unat ?r"
      using nz(1) by (metis div_le_mono mult_le_mono1 nonzero_mult_div_cancel_left not_gr_zero)
    moreover have "unat (?h - 1) = unat ?h - 1" using unat_minus_one [OF assms(5)] by simp
    ultimately show ?thesis using True assms by (simp add: chip_GetCurrentY_def Let_def f_disp_def r)
  next
    case False
    then have l: "beam_us (unat ?t) (unat ?f) < unat ?r" by (simp add: word_le_nat_alt us uc)
    have "beam_us (unat ?t) (unat ?f) * unat ?h < 2 ^ 64"
    proof -
      have "beam_us (unat ?t) (unat ?f) * unat ?h \<le> 4294967295 * 4294967295" using l lt [of ?r] lt [of ?h] by (intro mult_le_mono) linarith+
      then show ?thesis by simp
    qed
    then have m: "unat (?us * ucast ?h) = beam_us (unat ?t) (unat ?f) * unat ?h" using unat_u64_mult [of ?us "ucast ?h"] by (simp add: us uc)
    have q: "beam_us (unat ?t) (unat ?f) * unat ?h div unat ?r < unat ?h"
    proof -
      have "beam_us (unat ?t) (unat ?f) * unat ?h < unat ?r * unat ?h" using l nz(2) by simp
      then show ?thesis using nz(1) by (simp add: less_mult_imp_div_less mult.commute)
    qed
    have "unat (ucast (?us * ucast ?h div ucast ?r) :: u32) = beam_us (unat ?t) (unat ?f) * unat ?h div unat ?r"
    proof -
      have "unat (?us * ucast ?h div ucast ?r) = beam_us (unat ?t) (unat ?f) * unat ?h div unat ?r" by (simp add: unat_div m uc)
      then show ?thesis using q lt [of ?h] by (simp add: unsigned_ucast_eq take_bit_nat_eq_self)
    qed
    then show ?thesis using False assms q by (simp add: chip_GetCurrentY_def Let_def f_disp_def r)
  qed
qed

section \<open>Setting the mode\<close>

lemma on_pdisp_simps [simp]:
  "p_disp (on_pdisp g p) = g (p_disp p)" "p_bi (on_pdisp g p) = p_bi p" "f_refresh_us (p_f (on_pdisp g p)) = f_refresh_us (p_f p)"
  "p_cursor_needs_refresh (on_pdisp g p) = p_cursor_needs_refresh p" "p_spawned (on_pdisp g p) = p_spawned p"
  "p_flush_running (on_pdisp g p) = p_flush_running p" "p_stat (on_pdisp g p) = p_stat p" "p_active_bpr (on_pdisp g p) = p_active_bpr p"
  by (simp_all add: on_pdisp_def f_disp_def on_vdisp_def)

lemma signal_frame [simp]:
  "d_gs (chip_flush_signal_activity d) = d_gs d" "d_active_width (chip_flush_signal_activity d) = d_active_width d"
  "d_active_height (chip_flush_signal_activity d) = d_active_height d" "d_active_format (chip_flush_signal_activity d) = d_active_format d"
  by (simp_all add: chip_flush_signal_activity_def)

lemma p96_frame [simp]:
  "p_disp (p_bump n p) = p_disp p" "p_bi (p_bump n p) = p_bi p" "p_f (p_bump n p) = p_f p" "p_active_bpr (p_bump n p) = p_active_bpr p"
  "p_disp (announce_mode m p) = p_disp p" "p_f (announce_mode m p) = p_f p"
  "p_disp (snapshot_counters p) = p_disp p" "p_f (snapshot_counters p) = p_f p" "p_bi (snapshot_counters p) = p_bi p"
  "p_spawned (p_bump n p) = p_spawned p" "p_flush_running (p_bump n p) = p_flush_running p"
  by (simp_all add: p_bump_def announce_mode_def snapshot_counters_def on_bi_def)

lemma set_active_frame:
  "p_disp (set_active m p) = (p_disp p)\<lparr>d_active_format := mode_format m, d_active_width := ucast (mi_Width m), d_active_height := ucast (mi_Height m)\<rparr>"
  "p_bi (set_active m p) = p_bi p" "f_refresh_us (p_f (set_active m p)) = f_refresh_us (p_f p)"
  by (simp_all add: set_active_def on_pdisp_def f_disp_def on_vdisp_def)

definition shows_mode :: "ModeInfo \<Rightarrow> p96 \<Rightarrow> bool" where
  "shows_mode m p \<longleftrightarrow> pb_ModeInfo (p_bi p) = Some m \<and> pb_Depth (p_bi p) = mi_Depth m \<and> pb_RGBFormat (p_bi p) = mode_format m
     \<and> same_mode m p \<and> f_refresh_us (p_f p) = chip_compute_refresh_us (Some m)"

lemma set_gc_result:
  assumes ok: "gpu_ok env lk (d_gs (p_disp p))" "dma_lists_ok (d_gs (p_disp p))"
  shows "\<exists>p'. chip_SetGC env (Some m) p = Some p' \<and> gpu_ok env lk (d_gs (p_disp p')) \<and> shows_mode m p'
    \<and> (if same_mode m p then p_disp p' = p_disp p
       else if (d_active_width (p_disp p) \<noteq> ucast (mi_Width m) \<or> d_active_height (p_disp p) \<noteq> ucast (mi_Height m)) \<and> g_fb_mem (d_gs (p_disp p)) \<noteq> 0
       then p_cursor_needs_refresh p' \<and> (g_fb_width (d_gs (p_disp p')) = ucast (mi_Width m) \<and> g_fb_height (d_gs (p_disp p')) = ucast (mi_Height m)
              \<or> fb_view (d_gs (p_disp p')) = fb_view (d_gs (p_disp p)))
       else d_gs (p_disp p') = d_gs (p_disp p))"
proof -
  let ?p0 = "p_bump ''setgc'' p"
  let ?p1 = "?p0\<lparr>p_f := (p_f ?p0)\<lparr>f_refresh_us := chip_compute_refresh_us (Some m)\<rparr>\<rparr>"
  have p1: "p_disp ?p1 = p_disp p" by simp
  have same: "same_mode m ?p1 = same_mode m p" by (simp add: same_mode_def)
  show ?thesis
  proof (cases "same_mode m p")
    case True
    let ?q = "announce_mode m ?p1"
    have "chip_SetGC env (Some m) p = Some ?q" using True same by (simp add: chip_SetGC_def Let_def)
    moreover have "shows_mode m ?q" using True by (simp add: shows_mode_def announce_mode_def on_bi_def same_mode_def)
    ultimately show ?thesis using True ok(1) by simp
  next
    case False
    let ?q = "set_active m (announce_mode m (snapshot_counters ?p1))"
    let ?dims = "d_active_width (p_disp p) \<noteq> ucast (mi_Width m) \<or> d_active_height (p_disp p) \<noteq> ucast (mi_Height m)"
    have q: "d_gs (p_disp ?q) = d_gs (p_disp p)" "d_active_width (p_disp ?q) = ucast (mi_Width m)" "d_active_height (p_disp ?q) = ucast (mi_Height m)"
      by (simp_all add: set_active_frame)
    have sm: "shows_mode m ?q" by (simp add: shows_mode_def same_mode_def set_active_frame announce_mode_def on_bi_def)
    have keep: "shows_mode m (signal_activity r) = shows_mode m r" for r
      by (simp add: shows_mode_def same_mode_def signal_activity_def)
    show ?thesis
    proof (cases "?dims \<and> g_fb_mem (d_gs (p_disp p)) \<noteq> 0")
      case True
      obtain r gs where r: "chip_resize_fb_to_mode env (ucast (mi_Width m)) (ucast (mi_Height m)) (d_gs (p_disp p)) = Some (r, gs)" "gpu_ok env lk gs"
        "if r then gs = d_gs (p_disp p) \<and> ucast (mi_Width m) = g_fb_width (d_gs (p_disp p)) \<and> ucast (mi_Height m) = g_fb_height (d_gs (p_disp p))
            \<or> resized (ucast (mi_Width m)) (ucast (mi_Height m)) (d_gs (p_disp p)) gs else fb_view gs = fb_view (d_gs (p_disp p))"
        using chip_resize_result [OF ok] by blast
      let ?r = "(on_pdisp (\<lambda>d. d\<lparr>d_gs := gs\<rparr>) ?q)\<lparr>p_cursor_needs_refresh := True\<rparr>"
      have "chip_SetGC env (Some m) p = Some (signal_activity ?r)"
        using False same True r(1) p1 q by (simp add: chip_SetGC_def Let_def p_gpu_def)
      moreover have "shows_mode m ?r" using sm by (simp add: shows_mode_def same_mode_def)
      moreover have "d_gs (p_disp (signal_activity ?r)) = gs" "p_cursor_needs_refresh (signal_activity ?r)" by (simp_all add: signal_activity_def)
      ultimately show ?thesis using False True r(2,3) keep by (auto simp: resized_def split: if_splits)
    next
      case unchanged: False
      have "chip_SetGC env (Some m) p = Some (signal_activity ?q)"
        using False same unchanged p1 q by (cases ?dims) (auto simp: chip_SetGC_def Let_def)
      moreover have "d_gs (p_disp (signal_activity ?q)) = d_gs (p_disp p)" using q(1) by (simp add: signal_activity_def)
      ultimately show ?thesis using False unchanged ok(1) keep sm by (intro exI [of _ "signal_activity ?q"]) (simp del: de_Morgan_conj)
    qed
  qed
qed

section \<open>The flush task is created once\<close>

datatype display_call = Switch dos bool | Display dos bool

fun run_call :: "display_call \<Rightarrow> p96 \<Rightarrow> p96" where
  "run_call (Switch os b) p = snd (chip_SetSwitch os b p)"
| "run_call (Display os b) p = snd (chip_SetDisplay os b p)"

definition spawn_ok :: "p96 \<Rightarrow> bool" where
  "spawn_ok p \<longleftrightarrow> p_spawned p = (if p_flush_running p then 1 else 0)"

lemma signal_spawn [simp]: "spawn_ok (signal_activity p) = spawn_ok p" "p_flush_running (signal_activity p) = p_flush_running p"
  by (simp_all add: spawn_ok_def signal_activity_def)

lemma spawn_process_ok: "spawn_ok p \<Longrightarrow> \<not> p_flush_running p \<Longrightarrow> spawn_ok (spawn_flush_process os p)"
  by (simp add: spawn_ok_def spawn_flush_process_def Let_def)

lemma null_overrides_spawn: "spawn_ok (chip_apply_null_vtable_overrides os p) = spawn_ok p"
  by (simp add: spawn_ok_def chip_apply_null_vtable_overrides_def open_dos_def on_bi_def Let_def)

lemma set_switch_spawn:
  assumes "spawn_ok p"
  shows "spawn_ok (snd (chip_SetSwitch os b p))"
proof -
  have upd: "spawn_ok (q\<lparr>p_rtg_output_enabled := e\<rparr>) = spawn_ok q" "spawn_ok (q\<lparr>p_dipf_done := dn, p_db := db\<rparr>) = spawn_ok q"
    "spawn_ok (q\<lparr>p_db := db, p_displayinfo_dumped := e\<rparr>) = spawn_ok q" "spawn_ok (q\<lparr>p_null_vtable_checked := e\<rparr>) = spawn_ok q"
    "spawn_ok (p_bump n q) = spawn_ok q" for q e dn db n by (simp_all add: spawn_ok_def)
  have pick: "spawn_ok (if c then x else y)" if "c \<Longrightarrow> spawn_ok x" "spawn_ok y" for c x y using that by simp
  define p1 where "p1 = (p_bump ''setswitch'' p)\<lparr>p_rtg_output_enabled := b\<rparr>"
  have 1: "spawn_ok p1" using assms by (simp add: p1_def upd)
  define p2 where "p2 = (if b \<and> \<not> p_flush_running p1 then spawn_flush_process os p1 else p1)"
  have 2: "spawn_ok p2" unfolding p2_def by (rule pick) (use 1 spawn_process_ok in blast)+
  obtain dn db where c: "chip_comp_set_dipf_flags (dos_consts os) (dos_gfx os) (p_board p2) (p_dipf_done p2) (p_db p2) = (dn, db)" by fastforce
  define p3 where "p3 = (if b \<and> d_virgl_2d_ready (p_disp p2) then p2\<lparr>p_dipf_done := dn, p_db := db\<rparr> else p2)"
  have 3: "spawn_ok p3" unfolding p3_def by (rule pick) (use 2 upd(2) in blast)+
  define p4 where "p4 = (if b \<and> \<not> p_displayinfo_dumped p3 then
     p3\<lparr>p_db := chip_dump_displayinfobase (dos_consts os) (dos_gfx os) (p_db p3), p_displayinfo_dumped := True\<rparr> else p3)"
  have 4: "spawn_ok p4" unfolding p4_def by (rule pick) (use 3 upd(3) in blast)+
  define p5 where "p5 = (if b \<and> \<not> p_null_vtable_checked p4 then (chip_apply_null_vtable_overrides os p4)\<lparr>p_null_vtable_checked := True\<rparr> else p4)"
  have 5: "spawn_ok p5" unfolding p5_def by (rule pick) (use 4 upd(4) null_overrides_spawn in blast)+
  have "chip_SetSwitch os b p = (True, if b then signal_activity p5 else p5)"
    unfolding chip_SetSwitch_def Let_def p1_def [symmetric] p2_def [symmetric] c prod.case p3_def [symmetric] p4_def [symmetric] p5_def [symmetric] by (rule refl)
  then show ?thesis using 5 by simp
qed

lemma run_call_spawn: "spawn_ok p \<Longrightarrow> spawn_ok (run_call c p)"
proof (cases c)
  case (Display os b)
  assume "spawn_ok p"
  then show ?thesis unfolding Display by (simp add: chip_SetDisplay_def Let_def) (simp add: spawn_ok_def)
qed (simp add: set_switch_spawn)

lemma display_calls_spawn: "spawn_ok p \<Longrightarrow> spawn_ok (foldl (\<lambda>p c. run_call c p) p cs)"
  by (induction cs arbitrary: p) (simp_all add: run_call_spawn)

end
