(* ===== verification/Vsync_Waiters.thy ===== *)
theory Vsync_Waiters
  imports P96_Callbacks
begin

text \<open>
  The rendezvous between \<open>chip_WaitVerticalSync\<close> (\<open>src/chip/chip_p96.c\<close>) and the flush task as an
  interleaving of its critical sections, which \<open>vsync_mutex\<close> makes atomic: a task publishes itself and
  sleeps, the flush task ticks, a task that was signalled resumes and retracts.  With \<open>serial\<close> a task
  publishes itself only while no other one sleeps.
\<close>

record vsync =
  vs_f :: flusher
  vs_asleep :: "u32 \<Rightarrow> bool"
  vs_woken :: "u32 \<Rightarrow> bool"            \<comment> \<open>its signal has arrived\<close>

definition vsync_tick :: "vsync \<Rightarrow> vsync" where
  "vsync_tick s = (let st = wake_vsync_waiter (vs_f s) in
     s\<lparr>vs_f := st, vs_woken := (\<lambda>t. vs_woken s t \<or> t \<in> fst ` set (drop (length (f_signals (vs_f s))) (f_signals st)))\<rparr>)"

inductive vsync_step :: "bool \<Rightarrow> vsync \<Rightarrow> vsync \<Rightarrow> bool" for serial :: bool where
  vsync_wait: "\<not> vs_asleep s t \<Longrightarrow> t \<noteq> 0 \<Longrightarrow> m \<noteq> 0 \<Longrightarrow> serial \<longrightarrow> (\<forall>u. \<not> vs_asleep s u) \<Longrightarrow>
    vsync_step serial s (s\<lparr>vs_f := publish_waiter t m (vs_f s), vs_asleep := (vs_asleep s)(t := True)\<rparr>)"
| vsync_turn: "vsync_step serial s (vsync_tick s)"
| vsync_resume: "vs_asleep s t \<Longrightarrow> vs_woken s t \<Longrightarrow>
    vsync_step serial s (s\<lparr>vs_f := retract_waiter t (vs_f s), vs_asleep := (vs_asleep s)(t := False), vs_woken := (vs_woken s)(t := False)\<rparr>)"

inductive vsync_reach :: "bool \<Rightarrow> vsync \<Rightarrow> vsync \<Rightarrow> bool" for serial :: bool and s0 :: vsync where
  vsync_start: "vsync_reach serial s0 s0"
| vsync_next: "vsync_reach serial s0 s \<Longrightarrow> vsync_step serial s s' \<Longrightarrow> vsync_reach serial s0 s'"

inductive_cases vsync_stepE: "vsync_step serial s s'"

definition slot_holds :: "flusher \<Rightarrow> u32 \<Rightarrow> bool" where
  "slot_holds st t \<longleftrightarrow> f_wait_vsync_task st = t \<and> t \<noteq> 0 \<and> f_wait_vsync_mask st \<noteq> 0"

text \<open>Whoever sleeps is alone, and is registered or already signalled.\<close>

definition vsync_inv :: "vsync \<Rightarrow> bool" where
  "vsync_inv s \<longleftrightarrow> f_vsync_mutex (vs_f s) \<noteq> 0 \<and> (\<forall>t u. vs_asleep s t \<and> vs_asleep s u \<longrightarrow> t = u)
     \<and> (\<forall>t. vs_asleep s t \<longrightarrow> vs_woken s t \<or> slot_holds (vs_f s) t)"

lemma tick_wakes:
  assumes "slot_holds (vs_f s) t" "f_vsync_mutex (vs_f s) \<noteq> 0"
  shows "vs_woken (vsync_tick s) t"
  using assms by (auto simp: slot_holds_def vsync_tick_def wake_vsync_waiter_def Let_def)

lemma tick_keeps: "vs_woken s t \<Longrightarrow> vs_woken (vsync_tick s) t" "vs_asleep (vsync_tick s) = vs_asleep s"
  "f_vsync_mutex (vs_f (vsync_tick s)) = f_vsync_mutex (vs_f s)"
  by (simp_all add: vsync_tick_def wake_vsync_waiter_def Let_def)

lemma vsync_inv_tick: "vsync_inv s \<Longrightarrow> vsync_inv (vsync_tick s)"
  using tick_wakes [of s] tick_keeps [of s] by (auto simp: vsync_inv_def)

lemma vsync_inv_step: "vsync_step True s s' \<Longrightarrow> vsync_inv s \<Longrightarrow> vsync_inv s'"
proof (erule vsync_stepE)
  fix t m assume "s' = s\<lparr>vs_f := publish_waiter t m (vs_f s), vs_asleep := (vs_asleep s)(t := True)\<rparr>"
    "t \<noteq> 0" "m \<noteq> 0" "True \<longrightarrow> (\<forall>u. \<not> vs_asleep s u)" "vsync_inv s"
  then show ?thesis by (auto simp: vsync_inv_def publish_waiter_def slot_holds_def)
next
  fix t assume "s' = s\<lparr>vs_f := retract_waiter t (vs_f s), vs_asleep := (vs_asleep s)(t := False), vs_woken := (vs_woken s)(t := False)\<rparr>"
    "vsync_inv s" "vs_asleep s t"
  then show ?thesis by (auto simp: vsync_inv_def retract_waiter_def slot_holds_def)
qed (simp add: vsync_inv_tick)

lemma vsync_inv_reach:
  assumes "vsync_reach True s0 s" "vsync_inv s0"
  shows "vsync_inv s"
  using assms by induction (auto intro: vsync_inv_step)

text \<open>An empty slot: the ticks have nobody to wake.\<close>

lemma ticks_idle:
  assumes "f_wait_vsync_task (vs_f s) = 0"
  shows "vs_woken ((vsync_tick ^^ n) s) = vs_woken s \<and> f_wait_vsync_task (vs_f ((vsync_tick ^^ n) s)) = 0"
proof (induction n)
  case (Suc n)
  then show ?case by (simp add: vsync_tick_def wake_vsync_waiter_def)
qed (use assms in simp)

end
