(* ===== verification/P96_Properties.thy ===== *)
theory P96_Properties
  imports P96_Correct Vsync_Waiters Flush_Task_Properties
begin

text \<open>
  The properties of the Picasso96 callbacks: the mode, the palette, the sprite, the pixel clocks,
  the beam position, the wait for the vertical sync, the creation of the flush task, and what the
  driver does to the display database.
\<close>

definition demo_mode :: ModeInfo where
  "demo_mode = \<lparr>mi_Width = 800, mi_Height = 600, mi_Depth = 16, mi_Flags = 0, mi_HorTotal = 1056, mi_HorBlankSize = 0, mi_HorSyncStart = 24,
     mi_HorSyncSize = 128, mi_VerTotal = 628, mi_VerBlankSize = 0, mi_VerSyncStart = 1, mi_VerSyncSize = 4, mi_clock = 2, mi_clock_div = 1,
     mi_PixelClock = 40000000\<rparr>"

definition demo_panel :: panel where
  "demo_panel = \<lparr>pb_ModeInfo = None, pb_RGBFormat = RGBFB_A8R8G8B8, pb_Depth = 32, pb_XOffset = 0, pb_YOffset = 0, pb_CLUT = replicate 768 0x40,
     pb_MouseX = 0, pb_MouseY = 0, pb_MouseWidth = 16, pb_MouseHeight = 16, pb_MouseXOffset = 0, pb_MouseYOffset = 0, pb_MouseImage = 0,
     pb_slots = (\<lambda>_. None)\<rparr>"

definition demo_p96 :: p96 where
  "demo_p96 = \<lparr>p_f = demo_flusher, p_bi = demo_panel, p_stat = (\<lambda>_. 0), p_active_bpr = 2, p_last_panning_mem = 0, p_clut_debug_done = True,
     p_rtg_output_enabled = True, p_flush_running = False, p_spawned = 0, p_DOSBase = False, p_IDOS = False, p_dipf_done = False,
     p_displayinfo_dumped = False, p_null_vtable_checked = False, p_db = [], p_board = 0, p_cursor_visible = False, p_cursor_needs_refresh = False,
     p_cursor_w = 16, p_cursor_h = 16, p_cursor_hot_x = 0, p_cursor_hot_y = 0, p_cursor_colors = replicate 3 (0, 0, 0), p_cursor_oob_last_log = 0\<rparr>"

lemma demo_p96_gpu: "gpu_ok demo_env 0 (d_gs (p_disp demo_p96))" "dma_lists_ok (d_gs (p_disp demo_p96))"
proof -
  have d: "d_gs (p_disp demo_p96) = v_gs (f_v demo_flusher)" by (simp add: demo_p96_def)
  show "gpu_ok demo_env 0 (d_gs (p_disp demo_p96))" using demo_flusher_ready(1) by (simp add: d v_ok_def)
  have "dma_lists_ok (v_gs (f_v demo_flusher)) = dma_lists_ok demo_gpu"
    by (simp add: demo_flusher_def demo_v2d_def demo_disp_def do_exec_def dma_lists_ok_def)
  then show "dma_lists_ok (d_gs (p_disp demo_p96))" using demo_gpu_ok(3) by (simp add: d)
qed

section \<open>The mode\<close>



text \<open>
  \<open>chip_SetColorArray\<close> replaces exactly the palette entries of its range, cut off at 256,
  by the red, green and blue of the board's table, stored so that the big-endian bytes of an entry are
  blue, green, red and zero, the order of the screen's resource; it wakes the flush task only for a
  palette screen and more than one entry.
\<close>

theorem color_array_installed:
  assumes "length (pb_CLUT (p_bi p)) = 768" "length (d_palette (p_disp p)) = 256"
  shows "\<exists>p'. chip_SetColorArray start cnt p = Some p' \<and> length (d_palette (p_disp p')) = 256
    \<and> (\<forall>i<256. if unat start \<le> i \<and> i < unat start + unat cnt
         then be32 (d_palette (p_disp p') ! i) = [pb_CLUT (p_bi p) ! (i * 3 + 2), pb_CLUT (p_bi p) ! (i * 3 + 1), pb_CLUT (p_bi p) ! (i * 3), 0]
         else d_palette (p_disp p') ! i = d_palette (p_disp p) ! i)
    \<and> d_signals (p_disp p') = d_signals (p_disp p) @ (if d_active_format (p_disp p) = RGBFB_CLUT \<and> cnt > 1
         \<and> d_flush_task (p_disp p) \<noteq> 0 \<and> d_flush_sig_mask (p_disp p) \<noteq> 0 then [(d_flush_task (p_disp p), d_flush_sig_mask (p_disp p))] else [])"
proof -
  have "be32 (clut_entry r g b) = [b, g, r, 0]" for r g b
    by (auto simp: be32_def byte_of_def clut_entry_def intro!: bit_word_eqI) (auto simp: bit_simps dest: bit_imp_le_length)
  then show ?thesis using set_color_array_result [OF assms, of start cnt] by fastforce
qed

theorem color_array_installed_witness:
  "\<exists>p'. chip_SetColorArray 1 2 demo_p96 = Some p' \<and> be32 (d_palette (p_disp p') ! 2) = [0x40, 0x40, 0x40, 0]
     \<and> d_palette (p_disp p') ! 3 = d_palette (p_disp demo_p96) ! 3"
proof -
  have l: "length (pb_CLUT (p_bi demo_p96)) = 768" "length (d_palette (p_disp demo_p96)) = 256" "pb_CLUT (p_bi demo_p96) = replicate 768 0x40"
    by (simp_all only: demo_p96_def p96.simps demo_panel_def panel.simps length_replicate)
      (simp add: demo_flusher_def demo_v2d_def demo_disp_def)
  obtain p' where p': "chip_SetColorArray 1 2 demo_p96 = Some p'"
    "\<forall>i<256. if unat (1 :: u16) \<le> i \<and> i < unat (1 :: u16) + unat (2 :: u16)
         then be32 (d_palette (p_disp p') ! i) = [pb_CLUT (p_bi demo_p96) ! (i * 3 + 2), pb_CLUT (p_bi demo_p96) ! (i * 3 + 1), pb_CLUT (p_bi demo_p96) ! (i * 3), 0]
         else d_palette (p_disp p') ! i = d_palette (p_disp demo_p96) ! i"
    using color_array_installed [OF l(1,2), of 1 2] by blast
  show ?thesis using p'(1) spec [OF p'(2), of 2] spec [OF p'(2), of 3] l(3) by simp
qed

section \<open>The sprite\<close>



text \<open>
  The position of the sprite is, while the subtraction of the panned origin stays within
  16 bits, exactly the panned position clamped from above to the size of the mode and from below so
  that one row and column of the sprite stay visible.
\<close>

theorem sprite_position_clamped:
  assumes "- 32768 \<le> sint x - sint off" "sint x - sint off < 32768"
  shows "sint (sprite_coord x off limit extent)
    = max (1 - uint extent) (case limit of None \<Rightarrow> sint x - sint off | Some l \<Rightarrow> min (sint l) (sint x - sint off))"
  by (rule sprite_coord_clamps [OF assms])

theorem sprite_position_clamped_witness:
  "sint (sprite_coord 900 0 (Some 800) 16) = 800 \<and> sint (sprite_coord (- 20) 0 (Some 800) 16) = - 15"
  using sprite_position_clamped [of 900 0 "Some 800" 16] sprite_position_clamped [of "- 20" 0 "Some 800" 16] by simp

section \<open>Pixel clocks\<close>

text \<open>
  \<open>chip_ResolvePixelClock\<close> always returns, accepts exactly the requested clock, and
  gives the first table entry, from 1 on, whose clock is nearest to it; \<open>chip_GetPixelClock\<close> of that
  index is the clock of that entry.
\<close>

theorem pixel_clock_nearest:
  "\<exists>idx. chip_ResolvePixelClock (Some m) c = Some (of_nat idx, Some (m\<lparr>mi_PixelClock := c, mi_clock := of_nat idx, mi_clock_div := 1\<rparr>))
     \<and> 1 \<le> idx \<and> idx < length chip_modes \<and> chip_GetPixelClock (of_nat idx) = Some (cm_clock (chip_modes ! idx))
     \<and> (\<forall>i\<in>{1..<length chip_modes}. clock_diff c (cm_clock (chip_modes ! idx)) \<le> clock_diff c (cm_clock (chip_modes ! i))
          \<and> (i < idx \<longrightarrow> clock_diff c (cm_clock (chip_modes ! idx)) < clock_diff c (cm_clock (chip_modes ! i))))"
proof -
  obtain idx d where i: "foldM (closer_clock c) [1..<14] (1, 0xFFFFFFFF) = Some (of_nat idx, d)" "1 \<le> idx" "idx < 14"
    "\<forall>i. 1 \<le> i \<and> i < 14 \<longrightarrow> clock_diff c (cm_clock (chip_modes ! idx)) \<le> clock_diff c (cm_clock (chip_modes ! i))
          \<and> (i < idx \<longrightarrow> clock_diff c (cm_clock (chip_modes ! idx)) < clock_diff c (cm_clock (chip_modes ! i)))"
    using nearest_clock by blast
  have u: "unat (of_nat idx :: u32) = idx" using i(3) by (simp add: unat_of_nat)
  have "chip_GetPixelClock (of_nat idx) = Some (cm_clock (chip_modes ! idx))"
    using i(3) mode_table_length by (simp add: chip_GetPixelClock_def word_less_nat_alt u rd_def)
  moreover have "(ucast (of_nat idx :: u32) :: u8) = of_nat idx" using i(3) by (simp add: unsigned_of_nat take_bit_nat_eq_self)
  ultimately show ?thesis using i by (intro exI [of _ idx]) (simp add: chip_ResolvePixelClock_def mode_table_length)
qed

theorem pixel_clock_nearest_witness:
  "\<exists>idx. chip_ResolvePixelClock (Some demo_mode) 65000000 = Some (of_nat idx, Some (demo_mode\<lparr>mi_PixelClock := 65000000, mi_clock := of_nat idx, mi_clock_div := 1\<rparr>))
     \<and> clock_diff 65000000 (cm_clock (chip_modes ! idx)) = 0"
proof -
  obtain idx where i: "chip_ResolvePixelClock (Some demo_mode) 65000000 = Some (of_nat idx, Some (demo_mode\<lparr>mi_PixelClock := 65000000, mi_clock := of_nat idx, mi_clock_div := 1\<rparr>))"
    "\<forall>i\<in>{1..<length chip_modes}. clock_diff 65000000 (cm_clock (chip_modes ! idx)) \<le> clock_diff 65000000 (cm_clock (chip_modes ! i))"
    using pixel_clock_nearest [of demo_mode 65000000] by blast
  have "clock_diff 65000000 (cm_clock (chip_modes ! 3)) = 0" by (simp add: chip_modes_def clock_diff_def)
  then have "clock_diff 65000000 (cm_clock (chip_modes ! idx)) = 0" using bspec [OF i(2), of 3] by (simp add: mode_table_length)
  then show ?thesis using i(1) by blast
qed

section \<open>Vertical sync\<close>

text \<open>
  Property C39. The beam position: once the flush task has published its clock, \<open>chip_GetCurrentY\<close> is the
  fraction of the refresh interval that has passed since the last frame, in microseconds rounded
  down, times the visible height, cut off at the last line; the 64-bit products never overflow and a
  wrapped tick counter does no harm.
\<close>

theorem beam_position_exact:
  assumes "ec_itimer (d_eclock (v_disp (f_v st)))" "ec_freq (d_eclock (v_disp (f_v st))) \<noteq> 0" "f_refresh_us st \<noteq> 0"
    "d_active_height (v_disp (f_v st)) \<noteq> 0"
  shows "unat (fst (chip_GetCurrentY st)) = min (unat (d_active_height (v_disp (f_v st))) - 1)
     (unat (fst (ReadEClock (d_eclock (v_disp (f_v st)))) - f_last_vsync_lo st) * 1000000 div unat (ec_freq (d_eclock (v_disp (f_v st))))
        * unat (d_active_height (v_disp (f_v st))) div unat (f_refresh_us st))"
  using current_y_result [OF assms] by (simp add: beam_us_def)

theorem beam_position_exact_witness:
  "fst (chip_GetCurrentY (demo_flusher\<lparr>f_refresh_us := 16667\<rparr>)) = 0"
proof -
  let ?st = "demo_flusher\<lparr>f_refresh_us := 16667\<rparr>"
  have d: "ec_itimer (d_eclock (v_disp (f_v ?st)))" "ec_freq (d_eclock (v_disp (f_v ?st))) \<noteq> 0" "f_refresh_us ?st \<noteq> 0"
    "d_active_height (v_disp (f_v ?st)) \<noteq> 0" "d_active_height (v_disp (f_v demo_flusher)) = 1"
    by (simp_all add: demo_flusher_def demo_v2d_def demo_disp_def)
  show ?thesis using beam_position_exact [OF d(1-4)] by (simp add: d(5) unat_eq_0)
qed


definition demo_vsync :: vsync where
  "demo_vsync = \<lparr>vs_f = demo_flusher\<lparr>f_wait_vsync_task := 0, f_wait_vsync_mask := 0\<rparr>, vs_asleep = (\<lambda>_. False), vs_woken = (\<lambda>_. False)\<rparr>"

definition demo_sleeper :: "u32 \<Rightarrow> vsync \<Rightarrow> vsync" where
  "demo_sleeper t s = s\<lparr>vs_f := publish_waiter t 64 (vs_f s), vs_asleep := (vs_asleep s)(t := True)\<rparr>"


text \<open>
  Two callers at once: the second registration replaces the first, so there is a run,
  allowed by the code, after which the first caller sleeps and is not woken by any number of ticks.
\<close>

theorem second_waiter_starves_first:
  "\<exists>s. vsync_reach False demo_vsync s \<and> vs_asleep s 9 \<and> (\<forall>n. \<not> vs_woken ((vsync_tick ^^ n) s) 9)"
proof -
  let ?a = "demo_sleeper 9 demo_vsync" let ?b = "demo_sleeper 10 ?a" let ?c = "vsync_tick ?b"
  have "vsync_step False demo_vsync ?a" unfolding demo_sleeper_def by (rule vsync_wait) (simp_all add: demo_vsync_def)
  moreover have "vsync_step False ?a ?b" unfolding demo_sleeper_def [of 10] by (rule vsync_wait) (simp_all add: demo_sleeper_def demo_vsync_def)
  moreover have "vsync_step False ?b ?c" by (rule vsync_turn)
  ultimately have r: "vsync_reach False demo_vsync ?c" by (meson vsync_start vsync_next)
  have c: "f_wait_vsync_task (vs_f ?c) = 0" "vs_asleep ?c 9" "\<not> vs_woken ?c 9"
    by (simp_all add: vsync_tick_def wake_vsync_waiter_def demo_sleeper_def publish_waiter_def demo_vsync_def demo_flusher_def)
  show ?thesis using r c ticks_idle [OF c(1)] by (intro exI [of _ ?c]) simp
qed

section \<open>The flush task\<close>

text \<open>
  However the display is switched on and off, and however the attempts turn out, at most
  one flush task is created, by whichever of \<open>chip_SetDisplay\<close> and \<open>chip_SetSwitch\<close> succeeds first, and
  \<open>flush_running\<close> says whether there is one.
\<close>

theorem flush_task_created_once:
  assumes "p_spawned p = 0" "\<not> p_flush_running p"
  shows "p_spawned (foldl (\<lambda>p c. run_call c p) p cs) = (if p_flush_running (foldl (\<lambda>p c. run_call c p) p cs) then 1 else 0)"
  using display_calls_spawn [of p cs] assms by (simp add: spawn_ok_def)

definition demo_dos :: dos where
  "demo_dos = \<lparr>dos_open = True, dos_iface = True, dos_var = False, dos_proc = True, dos_task = True,
     dos_gfx = \<lparr>go_library = True, go_interface = True\<rparr>, dos_consts = \<lparr>DIPF_IS_RTG = 1, DIPF_IS_HWCOMPOSITE = 2, DI_AVAIL_NOCHIPS = 1\<rparr>\<rparr>"

theorem flush_task_created_once_witness:
  "p_spawned (foldl (\<lambda>p c. run_call c p) demo_p96 [Display demo_dos True, Switch demo_dos True]) \<le> 1"
  using flush_task_created_once [of demo_p96 "[Display demo_dos True, Switch demo_dos True]"] by (simp add: demo_p96_def del: foldl_Cons)

end
