(* ===== verification/Pci_Probe.thy ===== *)
theory Pci_Probe
  imports Register_Access Exec_Kernel
begin

text \<open>
  The PCI side of the card's initialisation (\<open>src/chip/chip_init.c\<close>): the MMU attributes of the BARs
  and of the framebuffer, the repair of the BARs the AmigaOne leaves half assigned, the walk over
  the BARs and over the VirtIO capabilities, and the probe of the status register.  The values of
  the SDK's constants, the ranges and capabilities of the device and the answers of the MMU are
  parameters; configuration space is read and written through the bus.  A release build is
  modelled: \<open>DCHIP\<close> expands to nothing, so its arguments are not evaluated.
\<close>

section \<open>The environment\<close>

record sdk =
  MEMATTRF_CACHEINHIBIT :: u32
  MEMATTRF_COHERENT :: u32
  MEMATTRF_WRITETHROUGH :: u32
  MEMATTRF_GUARDED :: u32
  PCI_RANGE_MEMORY :: u32
  PCI_CAPABILITYID_VENDOR :: u32
  PCI_COMMAND :: u32
  PCI_COMMAND_MEMORY :: u16
  PCI_COMMAND_MASTER :: u16
  PCI_COMMAND_INT_DISABLE :: u16
  PCI_BASE_ADDRESS_0 :: u32
  PCI_CAP_BUSMASTER :: u32
  PCI_CAP_SETCLR :: u32

record pci_range =
  pr_BaseAddress :: u32
  pr_Size :: u32
  pr_Physical :: u32
  pr_Flags :: u32

record pci_cap =
  cap_Type :: u32
  cap_CapOffset :: u32

text \<open>What \<open>GetResourceRange\<close>, \<open>GetFirstCapability\<close> and its successor, and \<open>GetCapabilities\<close> answer.\<close>

record pci_device =
  pd_range :: "nat \<Rightarrow> pci_range option"
  pd_caps :: "pci_cap list"
  pd_capabilities :: u32

section \<open>Memory attributes\<close>

text \<open>
  \<open>mmu_iface\<close>: \<open>GetInterface(SysBase, "mmu")\<close> succeeds.  \<open>mmu_answer\<close> gives what \<open>GetMemoryAttrs\<close> reads, by
  the number of attribute changes made before, which the log keeps.
\<close>

record mmu =
  mmu_iface :: bool
  mmu_answer :: "nat \<Rightarrow> u32 \<Rightarrow> u32"
  mmu_log :: "(u32 \<times> u32 \<times> u32) list"   \<comment> \<open>address, size, attributes\<close>

text \<open>The result is the pair \<open>out_existing\<close>, \<open>out_new\<close>; \<^term>\<open>None\<close> stands for FALSE.\<close>

definition chip_immu_update :: "u32 \<Rightarrow> u32 \<Rightarrow> u32 \<Rightarrow> u32 \<Rightarrow> mmu \<Rightarrow> (u32 \<times> u32) option \<times> mmu" where
  "chip_immu_update addr sz clear_mask set_mask m =
     (if \<not> mmu_iface m then (None, m)
      else let existing = mmu_answer m (length (mmu_log m)) addr;
               newattrs = (existing AND NOT clear_mask) OR set_mask
           in (Some (existing, newattrs), m\<lparr>mmu_log := mmu_log m @ [(addr, sz, newattrs)]\<rparr>))"

definition chip_immu_set_coherent :: "sdk \<Rightarrow> u32 \<Rightarrow> u32 \<Rightarrow> mmu \<Rightarrow> mmu" where
  "chip_immu_set_coherent c addr sz m =
     snd (chip_immu_update addr sz (MEMATTRF_CACHEINHIBIT c) (MEMATTRF_COHERENT c) m)"

definition chip_immu_set_writethrough :: "sdk \<Rightarrow> u32 \<Rightarrow> u32 \<Rightarrow> mmu \<Rightarrow> mmu" where
  "chip_immu_set_writethrough c addr sz m =
     snd (chip_immu_update addr sz (MEMATTRF_CACHEINHIBIT c) (MEMATTRF_WRITETHROUGH c) m)"

definition chip_immu_setup_bar :: "sdk \<Rightarrow> pci_range option \<Rightarrow> mmu \<Rightarrow> mmu" where
  "chip_immu_setup_bar c bar m = (case bar of None \<Rightarrow> m
     | Some r \<Rightarrow> if pr_Flags r AND PCI_RANGE_MEMORY c = 0 then m
         else snd (chip_immu_update (pr_BaseAddress r) (pr_Size r) 0
                     (MEMATTRF_CACHEINHIBIT c OR MEMATTRF_GUARDED c) m))"

section \<open>Enabling the device and repairing its BARs\<close>

definition config_read16 :: "u32 \<Rightarrow> bus \<Rightarrow> u16 \<times> bus" where
  "config_read16 off b = (let (v, b) = bus_ask (ReadConfigWord off) b in (ucast v, b))"

definition config_read8 :: "u32 \<Rightarrow> bus \<Rightarrow> u8 \<times> bus" where
  "config_read8 off b = (let (v, b) = bus_ask (ReadConfigByte off) b in (ucast v, b))"

definition config_read32 :: "u32 \<Rightarrow> bus \<Rightarrow> u32 \<times> bus" where
  "config_read32 off b = bus_ask (ReadConfigLong off) b"

text \<open>Memory decoding and bus mastering on, INTx off; the second component is the \<open>SetCapabilities\<close> call made.\<close>

definition pci_enable :: "sdk \<Rightarrow> pci_device \<Rightarrow> bus \<Rightarrow> u32 option \<times> bus" where
  "pci_enable c dev b =
     (let (pci_cmd, b) = config_read16 (PCI_COMMAND c) b;
          need = PCI_COMMAND_MEMORY c OR PCI_COMMAND_MASTER c OR PCI_COMMAND_INT_DISABLE c;
          b = (if pci_cmd AND need \<noteq> need
               then bus_do (WriteConfigWord (PCI_COMMAND c) (pci_cmd OR need)) b else b)
      in (if pd_capabilities dev AND PCI_CAP_BUSMASTER c = 0
          then Some (PCI_CAP_BUSMASTER c OR PCI_CAP_SETCLR c) else None, b))"

text \<open>The AmigaOne repair: \<open>n\<close> is the loop variable, which skips the high half of a 64-bit BAR.\<close>

function repair_bars :: "sdk \<Rightarrow> nat \<Rightarrow> bus \<Rightarrow> bus" where
  "repair_bars c n b =
     (if n < 6 then
        let off = PCI_BASE_ADDRESS_0 c + of_nat n * 4;
            (lo, b) = config_read32 off b
        in if lo AND 1 = 0 \<and> lo AND 6 = 4
           then if n = 5 then b
                else let (hi, b) = config_read32 (off + 4) b;
                         b = (if hi = 0xFFFFFFFF then bus_do (WriteConfigLong (off + 4) 0) b else b)
                     in repair_bars c (n + 2) b
           else repair_bars c (n + 1) b
      else b)"
  by pat_completeness auto
termination
  by (relation "measure (\<lambda>(_, n, _). 6 - n)") auto

declare repair_bars.simps [simp del]

section \<open>The BARs\<close>

record bar =
  bar_base :: u32
  bar_size :: u32
  bar_physical :: u32
  bar_flags :: u32
  bar_valid :: bool

definition no_bar :: bar where
  "no_bar = \<lparr>bar_base = 0, bar_size = 0, bar_physical = 0, bar_flags = 0, bar_valid = False\<rparr>"

definition scan_bar :: "sdk \<Rightarrow> pci_range option \<Rightarrow> bar \<Rightarrow> mmu \<Rightarrow> bar \<times> mmu" where
  "scan_bar c rg b m =
     (let b = b\<lparr>bar_valid := False, bar_base := 0, bar_size := 0\<rparr> in
      case rg of None \<Rightarrow> (b, m)
      | Some r \<Rightarrow> (b\<lparr>bar_base := pr_BaseAddress r, bar_size := pr_Size r, bar_physical := pr_Physical r,
                     bar_flags := pr_Flags r, bar_valid := True\<rparr>,
                   if pr_Flags r AND PCI_RANGE_MEMORY c \<noteq> 0 then chip_immu_setup_bar c (Some r) m else m))"

fun scan_bars_from :: "sdk \<Rightarrow> pci_device \<Rightarrow> nat \<Rightarrow> bar list \<Rightarrow> mmu \<Rightarrow> bar list \<times> mmu" where
  "scan_bars_from c dev i [] m = ([], m)"
| "scan_bars_from c dev i (b # bs) m =
     (let (b, m) = scan_bar c (pd_range dev i) b m; (bs, m) = scan_bars_from c dev (Suc i) bs m in (b # bs, m))"

definition chip_scan_bars :: "sdk \<Rightarrow> pci_device \<Rightarrow> bar list \<Rightarrow> mmu \<Rightarrow> bar list \<times> mmu" where
  "chip_scan_bars c dev bars m = scan_bars_from c dev 0 bars m"

section \<open>The VirtIO capabilities\<close>

abbreviation VIRTIO_PCI_CAP_COMMON_CFG :: u8 where "VIRTIO_PCI_CAP_COMMON_CFG \<equiv> 1"
abbreviation VIRTIO_PCI_CAP_NOTIFY_CFG :: u8 where "VIRTIO_PCI_CAP_NOTIFY_CFG \<equiv> 2"
abbreviation VIRTIO_PCI_CAP_ISR_CFG :: u8 where "VIRTIO_PCI_CAP_ISR_CFG \<equiv> 3"
abbreviation VIRTIO_PCI_CAP_DEVICE_CFG :: u8 where "VIRTIO_PCI_CAP_DEVICE_CFG \<equiv> 4"
abbreviation VIRTIO_PCI_CAP_PCI_CFG :: u8 where "VIRTIO_PCI_CAP_PCI_CFG \<equiv> 5"

text \<open>The first \<open>switch\<close>: the BAR and offset of the region, for the PCI_CFG path.\<close>

definition note_region :: "u8 \<Rightarrow> u8 \<Rightarrow> u32 \<Rightarrow> u32 \<Rightarrow> vio \<Rightarrow> bus \<Rightarrow> vio \<times> bus" where
  "note_region cfg_type bar_num offset cap_off v b =
     (if cfg_type = VIRTIO_PCI_CAP_COMMON_CFG
      then (v\<lparr>v_common_cfg_bar := bar_num, v_common_cfg_off := offset, v_modern_mode := True\<rparr>, b)
      else if cfg_type = VIRTIO_PCI_CAP_NOTIFY_CFG
      then let (mult, b) = config_read32 (cap_off + VIRTIO_CAP_OFF_NOTIFY_MULT) b
           in (v\<lparr>v_notify_cfg_bar := bar_num, v_notify_cfg_off := offset, v_notify_off_mult := mult\<rparr>, b)
      else if cfg_type = VIRTIO_PCI_CAP_ISR_CFG
      then (v\<lparr>v_isr_cfg_bar := bar_num, v_isr_cfg_off := offset\<rparr>, b)
      else if cfg_type = VIRTIO_PCI_CAP_DEVICE_CFG
      then (v\<lparr>v_device_cfg_bar := bar_num, v_device_cfg_off := offset\<rparr>, b)
      else (v, b))"

text \<open>The second \<open>switch\<close>: the address of the region, for the MMIO path.\<close>

definition mapped_bar :: "sdk \<Rightarrow> bar list \<Rightarrow> u8 \<Rightarrow> bool" where
  "mapped_bar c bars bar_num \<longleftrightarrow> bar_num < 6 \<and> bar_valid (bars ! unat bar_num)
     \<and> bar_flags (bars ! unat bar_num) AND PCI_RANGE_MEMORY c \<noteq> 0"

definition place_region :: "sdk \<Rightarrow> bar list \<Rightarrow> u8 \<Rightarrow> u8 \<Rightarrow> u32 \<Rightarrow> vio \<Rightarrow> vio" where
  "place_region c bars cfg_type bar_num offset v =
     (if mapped_bar c bars bar_num
      then let virt_addr = bar_base (bars ! unat bar_num) + offset in
        if cfg_type = VIRTIO_PCI_CAP_COMMON_CFG then v\<lparr>v_common_cfg_base := virt_addr\<rparr>
        else if cfg_type = VIRTIO_PCI_CAP_NOTIFY_CFG then v\<lparr>v_notify_cfg_base := virt_addr\<rparr>
        else if cfg_type = VIRTIO_PCI_CAP_ISR_CFG then v\<lparr>v_isr_cfg_base := virt_addr\<rparr>
        else if cfg_type = VIRTIO_PCI_CAP_DEVICE_CFG then v\<lparr>v_device_cfg_base := virt_addr\<rparr>
        else v
      else v)"

definition scan_cap :: "sdk \<Rightarrow> bar list \<Rightarrow> u32 \<Rightarrow> vio \<Rightarrow> bus \<Rightarrow> vio \<times> bus" where
  "scan_cap c bars cap_off v b =
     (let (cfg_type, b) = config_read8 (cap_off + VIRTIO_CAP_OFF_CFG_TYPE) b;
          (bar_num, b) = config_read8 (cap_off + VIRTIO_CAP_OFF_BAR) b;
          (offset, b) = config_read32 (cap_off + VIRTIO_CAP_OFF_OFFSET) b
      in if cfg_type = VIRTIO_PCI_CAP_PCI_CFG then (v\<lparr>v_pci_cfg_cap_off := ucast cap_off\<rparr>, b)
         else let (v, b) = note_region cfg_type bar_num offset cap_off v b
              in (place_region c bars cfg_type bar_num offset v, b))"

text \<open>\<open>guard\<close> bounds the walk over a malformed, cyclic list.\<close>

fun scan_caps :: "sdk \<Rightarrow> bar list \<Rightarrow> nat \<Rightarrow> pci_cap list \<Rightarrow> vio \<Rightarrow> bus \<Rightarrow> vio \<times> bus" where
  "scan_caps c bars guard [] v b = (v, b)"
| "scan_caps c bars guard (cap # caps) v b =
     (if guard < 32
      then if cap_Type cap \<noteq> PCI_CAPABILITYID_VENDOR c then scan_caps c bars (Suc guard) caps v b
           else let (v, b) = scan_cap c bars (cap_CapOffset cap) v b in scan_caps c bars (Suc guard) caps v b
      else (v, b))"

abbreviation VIRTIO_PCI_COMMON_STATUS :: u32 where "VIRTIO_PCI_COMMON_STATUS \<equiv> 0x14"
abbreviation VIRTIO_STATUS_ACKNOWLEDGE :: u8 where "VIRTIO_STATUS_ACKNOWLEDGE \<equiv> 1"

text \<open>The probe: reset, ACKNOWLEDGE, read back, reset; always on the MMIO path.\<close>

definition probe_status :: "u32 \<Rightarrow> bus \<Rightarrow> u8 \<times> bus" where
  "probe_status base b =
     (let b = mmio_write8 (base + VIRTIO_PCI_COMMON_STATUS) 0 b;
          b = mmio_write8 (base + VIRTIO_PCI_COMMON_STATUS) VIRTIO_STATUS_ACKNOWLEDGE b;
          (probe, b) = mmio_read8 (base + VIRTIO_PCI_COMMON_STATUS) b
      in (probe, mmio_write8 (base + VIRTIO_PCI_COMMON_STATUS) 0 b))"

definition no_regions :: "vio \<Rightarrow> vio" where
  "no_regions v = v\<lparr>v_modern_mode := False, v_common_cfg_base := 0, v_notify_cfg_base := 0, v_notify_off_mult := 0,
     v_isr_cfg_base := 0, v_device_cfg_base := 0, v_use_pci_cfg := False, v_pci_cfg_cap_off := 0\<rparr>"

definition chip_scan_pci_caps :: "sdk \<Rightarrow> bar list \<Rightarrow> pci_device \<Rightarrow> vio \<Rightarrow> bus \<Rightarrow> bool \<times> vio \<times> bus" where
  "chip_scan_pci_caps c bars dev v b =
     (let (v, b) = scan_caps c bars 0 (pd_caps dev) (no_regions v) b in
      if \<not> v_modern_mode v then (False, v, b)
      else if v_common_cfg_base v = 0 then (False, v, b)
      else let (probe, b) = probe_status (v_common_cfg_base v) b in
           if probe \<noteq> VIRTIO_STATUS_ACKNOWLEDGE then (False, v, b)
           else (True, v\<lparr>v_use_pci_cfg := False\<rparr>, b))"

end
