(* ===== verification/Device_Init.thy ===== *)
theory Device_Init
  imports Pci_Probe Gpu_Driver
begin

text \<open>
  The VirtIO side of the card's initialisation (\<open>src/chip/chip_init.c\<close>): DMA buffers, the reset, the
  feature negotiation, and the control and cursor queues (\<open>chip_virtio_init\<close>).  The
  operations run on the driver state of \<open>Gpu_Driver\<close>; a result \<^term>\<open>None\<close> stands for a fault
  of the ring code.
\<close>

section \<open>DMA buffers\<close>

text \<open>The address and \<open>*phys_out\<close>; \<^term>\<open>None\<close> stands for NULL.\<close>

definition chip_dma_alloc :: "exec \<Rightarrow> (u32 \<times> u32) option \<times> exec" where
  "chip_dma_alloc ex =
     (let (mem, ex) = AllocVecTags ex in
      if mem = 0 then (None, ex)
      else let (n, ex) = StartDMA mem ex in
      if n = 0 then (None, FreeVec mem ex)
      else let (dma_list, ex) = AllocSysObject ex in
      if dma_list = 0 then (None, FreeVec mem (EndDMA mem ex))
      else (Some (mem, ex_phys ex mem), FreeSysObject dma_list ex))"

definition chip_dma_free :: "u32 \<Rightarrow> exec \<Rightarrow> exec" where
  "chip_dma_free mem ex = (if mem = 0 then ex else FreeVec mem (EndDMA mem ex))"

section \<open>Registers and features\<close>

abbreviation VIRTIO_PCI_COMMON_DFSELECT :: u32 where "VIRTIO_PCI_COMMON_DFSELECT \<equiv> 0x00"
abbreviation VIRTIO_PCI_COMMON_DF :: u32 where "VIRTIO_PCI_COMMON_DF \<equiv> 0x04"
abbreviation VIRTIO_PCI_COMMON_DFSELECTG :: u32 where "VIRTIO_PCI_COMMON_DFSELECTG \<equiv> 0x08"
abbreviation VIRTIO_PCI_COMMON_DFG :: u32 where "VIRTIO_PCI_COMMON_DFG \<equiv> 0x0C"
abbreviation VIRTIO_PCI_COMMON_Q_SELECT :: u32 where "VIRTIO_PCI_COMMON_Q_SELECT \<equiv> 0x16"
abbreviation VIRTIO_PCI_COMMON_Q_SIZE :: u32 where "VIRTIO_PCI_COMMON_Q_SIZE \<equiv> 0x18"
abbreviation VIRTIO_PCI_COMMON_Q_ENABLE :: u32 where "VIRTIO_PCI_COMMON_Q_ENABLE \<equiv> 0x1C"
abbreviation VIRTIO_PCI_COMMON_Q_NOFF :: u32 where "VIRTIO_PCI_COMMON_Q_NOFF \<equiv> 0x1E"
abbreviation VIRTIO_PCI_COMMON_Q_DESCLO :: u32 where "VIRTIO_PCI_COMMON_Q_DESCLO \<equiv> 0x20"
abbreviation VIRTIO_PCI_COMMON_Q_DESCHI :: u32 where "VIRTIO_PCI_COMMON_Q_DESCHI \<equiv> 0x24"
abbreviation VIRTIO_PCI_COMMON_Q_AVAILLO :: u32 where "VIRTIO_PCI_COMMON_Q_AVAILLO \<equiv> 0x28"
abbreviation VIRTIO_PCI_COMMON_Q_AVAILHI :: u32 where "VIRTIO_PCI_COMMON_Q_AVAILHI \<equiv> 0x2C"
abbreviation VIRTIO_PCI_COMMON_Q_USEDLO :: u32 where "VIRTIO_PCI_COMMON_Q_USEDLO \<equiv> 0x30"
abbreviation VIRTIO_PCI_COMMON_Q_USEDHI :: u32 where "VIRTIO_PCI_COMMON_Q_USEDHI \<equiv> 0x34"

abbreviation VIRTIO_STATUS_DRIVER :: u8 where "VIRTIO_STATUS_DRIVER \<equiv> 2"
abbreviation VIRTIO_STATUS_DRIVER_OK :: u8 where "VIRTIO_STATUS_DRIVER_OK \<equiv> 4"
abbreviation VIRTIO_STATUS_FEATURES_OK :: u8 where "VIRTIO_STATUS_FEATURES_OK \<equiv> 8"
abbreviation VIRTIO_STATUS_FAILED :: u8 where "VIRTIO_STATUS_FAILED \<equiv> 128"

abbreviation VIRTIO_GPU_F_VIRGL :: u32 where "VIRTIO_GPU_F_VIRGL \<equiv> 1"
abbreviation VIRTIO_GPU_F_EDID :: u32 where "VIRTIO_GPU_F_EDID \<equiv> 2"
abbreviation VIRTIO_GPU_F_RESOURCE_BLOB :: u32 where "VIRTIO_GPU_F_RESOURCE_BLOB \<equiv> 8"

definition VIRTIO_DEVICE_FEATURES_MASK :: u32 where
  "VIRTIO_DEVICE_FEATURES_MASK = VIRTIO_GPU_F_EDID OR VIRTIO_GPU_F_VIRGL OR VIRTIO_GPU_F_RESOURCE_BLOB"

text \<open>The wait for the end of a reset: at most \<open>n\<close> reads (the code's bound is 1000).\<close>

fun await_reset :: "nat \<Rightarrow> vio \<Rightarrow> bus \<Rightarrow> bus" where
  "await_reset 0 v b = b"
| "await_reset (Suc n) v b = (let (rst, b) = vio_r8 v VIRTIO_PCI_COMMON_STATUS b in
     if rst = 0 then b else await_reset n v b)"

definition reset_device :: "vio \<Rightarrow> bus \<Rightarrow> bus" where
  "reset_device v b =
     (let b = await_reset 1000 v (vio_w8 v VIRTIO_PCI_COMMON_STATUS 0 b);
          b = vio_w8 v VIRTIO_PCI_COMMON_STATUS VIRTIO_STATUS_ACKNOWLEDGE b;
          (ack, b) = vio_r8 v VIRTIO_PCI_COMMON_STATUS b;
          b = vio_w8 v VIRTIO_PCI_COMMON_STATUS (VIRTIO_STATUS_ACKNOWLEDGE OR VIRTIO_STATUS_DRIVER) b;
          (drv, b) = vio_r8 v VIRTIO_PCI_COMMON_STATUS b
      in b)"

text \<open>The features asked for: the low and the high word.\<close>

definition read_features :: "vio \<Rightarrow> bus \<Rightarrow> (u32 \<times> u32) \<times> bus" where
  "read_features v b =
     (let b = vio_w32 v VIRTIO_PCI_COMMON_DFSELECT 0 b;
          (dev_feat_lo, b) = vio_r32 v VIRTIO_PCI_COMMON_DF b;
          b = vio_w32 v VIRTIO_PCI_COMMON_DFSELECT 1 b;
          (dev_feat_hi, b) = vio_r32 v VIRTIO_PCI_COMMON_DF b
      in ((dev_feat_lo AND VIRTIO_DEVICE_FEATURES_MASK, dev_feat_hi AND 1), b))"

definition write_features :: "vio \<Rightarrow> u32 \<Rightarrow> u32 \<Rightarrow> bus \<Rightarrow> bus" where
  "write_features v lo hi b =
     (let b = vio_w32 v VIRTIO_PCI_COMMON_DFSELECTG 0 b;
          b = vio_w32 v VIRTIO_PCI_COMMON_DFG lo b;
          b = vio_w32 v VIRTIO_PCI_COMMON_DFSELECTG 1 b
      in vio_w32 v VIRTIO_PCI_COMMON_DFG hi b)"

text \<open>Steps 5 and 6: FEATURES_OK is kept by the device, or the driver gives up with FAILED.\<close>

definition confirm_features :: "vio \<Rightarrow> bus \<Rightarrow> bool \<times> bus" where
  "confirm_features v b =
     (let b = vio_w8 v VIRTIO_PCI_COMMON_STATUS
                (VIRTIO_STATUS_ACKNOWLEDGE OR VIRTIO_STATUS_DRIVER OR VIRTIO_STATUS_FEATURES_OK) b;
          (status_check, b) = vio_r8 v VIRTIO_PCI_COMMON_STATUS b
      in if status_check AND VIRTIO_STATUS_FEATURES_OK = 0
         then (False, vio_w8 v VIRTIO_PCI_COMMON_STATUS VIRTIO_STATUS_FAILED b)
         else (True, b))"

section \<open>The queues\<close>

text \<open>The DMA mapping of the rings; on failure the queue is freed.\<close>

definition map_rings :: "virtqueue \<Rightarrow> exec \<Rightarrow> virtqueue option \<times> exec" where
  "map_rings vq ex =
     (let (vring_entries, ex) = StartDMA (vq_mem_block vq) ex in
      if vring_entries = 0 then (None, VirtQueue_Free ex (Some vq))
      else let (vring_dma, ex) = AllocSysObject ex in
      if vring_dma = 0 then (None, VirtQueue_Free (EndDMA (vq_mem_block vq) ex) (Some vq))
      else (Some (vq\<lparr>vq_dma_phys := ex_phys ex (vq_mem_block vq), vq_dma_entries := vring_entries\<rparr>),
            FreeSysObject vring_dma ex))"

text \<open>The physical addresses of the rings of a queue of \<open>q_max\<close> entries.\<close>

definition place_rings :: "u16 \<Rightarrow> virtqueue \<Rightarrow> virtqueue" where
  "place_rings q_max vq =
     (let desc_size = 16 * ucast q_max;
          avail_size = 2 * (3 + ucast q_max);
          used_offset = (desc_size + avail_size + 4095) AND NOT 4095
      in vq\<lparr>vq_avail_phys := vq_dma_phys vq + desc_size, vq_used_phys := vq_dma_phys vq + used_offset\<rparr>)"

definition write_ring_registers :: "vio \<Rightarrow> virtqueue \<Rightarrow> bus \<Rightarrow> bus" where
  "write_ring_registers v vq b =
     (let b = vio_w32 v VIRTIO_PCI_COMMON_Q_DESCLO (vq_dma_phys vq) b;
          b = vio_w32 v VIRTIO_PCI_COMMON_Q_DESCHI 0 b;
          b = vio_w32 v VIRTIO_PCI_COMMON_Q_AVAILLO (vq_avail_phys vq) b;
          b = vio_w32 v VIRTIO_PCI_COMMON_Q_AVAILHI 0 b;
          b = vio_w32 v VIRTIO_PCI_COMMON_Q_USEDLO (vq_used_phys vq) b;
          b = vio_w32 v VIRTIO_PCI_COMMON_Q_USEDHI 0 b
      in vio_w16 v VIRTIO_PCI_COMMON_Q_ENABLE 1 b)"

definition notify_delta :: "vio \<Rightarrow> u16 \<Rightarrow> u32" where
  "notify_delta v q_noff = (if v_notify_off_mult v \<noteq> 0 then ucast q_noff * v_notify_off_mult v else 0)"

definition place_notify :: "vio \<Rightarrow> virtqueue \<Rightarrow> bus \<Rightarrow> virtqueue \<times> bus" where
  "place_notify v vq b =
     (let (q_noff, b) = vio_r16 v VIRTIO_PCI_COMMON_Q_NOFF b
      in (vq\<lparr>vq_notify_addr := v_notify_cfg_base v + notify_delta v q_noff,
             vq_notify_bar_off := v_notify_cfg_off v + notify_delta v q_noff,
             vq_modern := True, vq_use_event_idx := False, vq_last_kick_avail_idx := 0xFFFF,
             vq_use_indirect := False\<rparr>, b))"

definition enable_queue :: "vio \<Rightarrow> u16 \<Rightarrow> virtqueue \<Rightarrow> bus \<Rightarrow> virtqueue \<times> bus" where
  "enable_queue v q_max vq b =
     (let vq = place_rings q_max vq in place_notify v vq (write_ring_registers v vq b))"

definition on_bus :: "(bus \<Rightarrow> 'a \<times> bus) \<Rightarrow> io \<Rightarrow> 'a \<times> io" where
  "on_bus f io = (let (r, b) = f (i_bus io) in (r, io\<lparr>i_bus := b\<rparr>))"

definition do_bus :: "(bus \<Rightarrow> bus) \<Rightarrow> io \<Rightarrow> io" where
  "do_bus f io = io\<lparr>i_bus := f (i_bus io)\<rparr>"

abbreviation VIRTIO_GPU_CURSQ :: u16 where "VIRTIO_GPU_CURSQ \<equiv> 1"

definition select_queue :: "u16 \<Rightarrow> io \<Rightarrow> u16 \<times> io" where
  "select_queue idx io =
     on_bus (\<lambda>b. vio_r16 (i_vio io) VIRTIO_PCI_COMMON_Q_SIZE (vio_w16 (i_vio io) VIRTIO_PCI_COMMON_Q_SELECT idx b)) io"

text \<open>
  Both queues go through the same steps; \<^term>\<open>None\<close> stands for a queue that is not available.  The control
  queue is required, the cursor queue is optional.
\<close>

definition setup_queue :: "u16 \<Rightarrow> io \<Rightarrow> (virtqueue option \<times> io) option" where
  "setup_queue idx io =
     (let (q_max, io) = select_queue idx io in
      if q_max = 0 then Some (None, io)
      else do {
        (q, ex) \<leftarrow> VirtQueue_Allocate (i_exec io) (ucast idx) (ucast q_max);
        (case q of None \<Rightarrow> Some (None, io\<lparr>i_exec := ex\<rparr>)
         | Some vq \<Rightarrow> (case map_rings vq ex of
             (None, ex) \<Rightarrow> Some (None, io\<lparr>i_exec := ex\<rparr>)
           | (Some vq, ex) \<Rightarrow>
               let (vq, io) = on_bus (enable_queue (i_vio io) q_max vq) (io\<lparr>i_exec := ex\<rparr>)
               in Some (Some vq, io))) })"

definition setup_ctrlq :: "io \<Rightarrow> (bool \<times> io) option" where
  "setup_ctrlq io = do {
     (q, io) \<leftarrow> setup_queue 0 io;
     Some (case q of None \<Rightarrow> (False, io) | Some vq \<Rightarrow> (True, io\<lparr>i_ctrlq := Some vq\<rparr>)) }"

definition setup_cursq :: "io \<Rightarrow> (bool \<times> io) option" where
  "setup_cursq io = do {
     (q, io) \<leftarrow> setup_queue VIRTIO_GPU_CURSQ io;
     Some (case q of None \<Rightarrow> (False, io) | Some cq \<Rightarrow> (True, io\<lparr>i_cursq := Some cq\<rparr>)) }"

section \<open>The whole sequence\<close>

text \<open>The state besides the driver's: \<open>num_queues\<close>.\<close>

definition chip_virtio_init :: "gpu \<Rightarrow> u16 \<Rightarrow> (bool \<times> gpu \<times> u16) option" where
  "chip_virtio_init gs num_queues =
     (let v = i_vio (g_io gs);
          io = do_bus (reset_device v) (g_io gs);
          ((lo, hi), io) = on_bus (read_features v) io;
          gs = gs\<lparr>g_has_virgl := (lo AND VIRTIO_GPU_F_VIRGL \<noteq> 0), g_has_blob := (lo AND VIRTIO_GPU_F_RESOURCE_BLOB \<noteq> 0)\<rparr>;
          io = do_bus (write_features v lo hi) io;
          (kept, io) = on_bus (confirm_features v) io
      in if \<not> kept then Some (False, gs\<lparr>g_io := io\<rparr>, num_queues)
         else do {
           (ok, io) \<leftarrow> setup_ctrlq io;
           if \<not> ok then Some (False, gs\<lparr>g_io := io\<rparr>, num_queues)
           else do {
             (cursor, io) \<leftarrow> setup_cursq io;
             let io = do_bus (vio_w8 v VIRTIO_PCI_COMMON_STATUS (VIRTIO_STATUS_ACKNOWLEDGE OR VIRTIO_STATUS_DRIVER
                          OR VIRTIO_STATUS_FEATURES_OK OR VIRTIO_STATUS_DRIVER_OK)) io;
             let io = snd (on_bus (vio_r8 v VIRTIO_PCI_COMMON_STATUS) io);
             Some (True, gs\<lparr>g_io := io\<rparr>, if cursor then 2 else 1) } })"

end
