(* ===== verification/Board_Fields.thy ===== *)
theory Board_Fields
  imports Gpu_Driver Pixels
begin

text \<open>
  The private area of the \<open>BoardInfo\<close> that PCIGraphics.card appends (the accessors of
  \<open>include/p96/boardinfo.h\<close>), as bytes of a big-endian machine, and the EDID entry the driver adds to the mode
  list there (\<open>chip_register_edid\<close>, \<open>chip_ConfigureDisplay\<close> of \<open>src/chip/chip_init.c\<close>).
\<close>

section \<open>The accessors\<close>

abbreviation BOARDINFO_OFF_PCIDEVICE :: nat where "BOARDINFO_OFF_PCIDEVICE \<equiv> 1630"
abbreviation BOARDINFO_OFF_EDID_GATE :: nat where "BOARDINFO_OFF_EDID_GATE \<equiv> 1634"
abbreviation BOARDINFO_OFF_EDID_MODELIST :: nat where "BOARDINFO_OFF_EDID_MODELIST \<equiv> 1714"
abbreviation BOARDINFO_EDID_GATE_MIN :: u32 where "BOARDINFO_EDID_GATE_MIN \<equiv> 1777"
abbreviation BOARDINFO_OFF_MEMORY_SPACE_BASE :: nat where "BOARDINFO_OFF_MEMORY_SPACE_BASE \<equiv> 1546"
abbreviation BOARDINFO_OFF_MEMORY_SPACE_SIZE :: nat where "BOARDINFO_OFF_MEMORY_SPACE_SIZE \<equiv> 1550"
abbreviation BOARDINFO_OFF_SYNC_TIME_SECS :: nat where "BOARDINFO_OFF_SYNC_TIME_SECS \<equiv> 1558"
abbreviation BOARDINFO_OFF_SYNC_TIME_USECS :: nat where "BOARDINFO_OFF_SYNC_TIME_USECS \<equiv> 1562"
abbreviation BOARDINFO_OFF_PCI_VENDOR_ID :: nat where "BOARDINFO_OFF_PCI_VENDOR_ID \<equiv> 1566"
abbreviation BOARDINFO_OFF_PCI_DEVICE_ID :: nat where "BOARDINFO_OFF_PCI_DEVICE_ID \<equiv> 1568"
abbreviation BOARDINFO_OFF_ESSENTIAL_FORMATS :: nat where "BOARDINFO_OFF_ESSENTIAL_FORMATS \<equiv> 1616"
abbreviation BOARDINFO_OFF_MAX_BM_WIDTH :: nat where "BOARDINFO_OFF_MAX_BM_WIDTH \<equiv> 1642"
abbreviation BOARDINFO_OFF_MAX_BM_HEIGHT :: nat where "BOARDINFO_OFF_MAX_BM_HEIGHT \<equiv> 1646"

text \<open>A result \<^term>\<open>None\<close> is an access outside the buffer the \<open>BoardInfo\<close> lives in.\<close>

definition boardinfo_get_pcidevice :: "bytes \<Rightarrow> u32 option" where
  "boardinfo_get_pcidevice bi = cpu_ld32 BOARDINFO_OFF_PCIDEVICE bi"

definition boardinfo_set_pcidevice :: "u32 \<Rightarrow> bytes \<Rightarrow> bytes option" where
  "boardinfo_set_pcidevice pciDev bi = cpu_st32 BOARDINFO_OFF_PCIDEVICE pciDev bi"

definition boardinfo_edid_gate :: "bytes \<Rightarrow> u32 option" where
  "boardinfo_edid_gate bi = cpu_ld32 BOARDINFO_OFF_EDID_GATE bi"

definition boardinfo_edid_modelist :: "u32 \<Rightarrow> u32" where
  "boardinfo_edid_modelist bi_addr = bi_addr + of_nat BOARDINFO_OFF_EDID_MODELIST"

definition boardinfo_set_memory_space :: "u32 \<Rightarrow> u32 \<Rightarrow> bytes \<Rightarrow> bytes option" where
  "boardinfo_set_memory_space base sz bi = do {
     bi \<leftarrow> cpu_st32 BOARDINFO_OFF_MEMORY_SPACE_BASE base bi;
     cpu_st32 BOARDINFO_OFF_MEMORY_SPACE_SIZE sz bi }"

definition boardinfo_set_sync_time :: "u32 \<Rightarrow> u32 \<Rightarrow> bytes \<Rightarrow> bytes option" where
  "boardinfo_set_sync_time secs usecs bi = do {
     bi \<leftarrow> cpu_st32 BOARDINFO_OFF_SYNC_TIME_SECS secs bi;
     cpu_st32 BOARDINFO_OFF_SYNC_TIME_USECS usecs bi }"

definition boardinfo_set_pci_id :: "u16 \<Rightarrow> u16 \<Rightarrow> bytes \<Rightarrow> bytes option" where
  "boardinfo_set_pci_id vendor device bi = do {
     bi \<leftarrow> cpu_st16 BOARDINFO_OFF_PCI_VENDOR_ID vendor bi;
     cpu_st16 BOARDINFO_OFF_PCI_DEVICE_ID device bi }"

definition boardinfo_set_essential_formats__UNSAFE_AOS4 :: "u32 \<Rightarrow> bytes \<Rightarrow> bytes option" where
  "boardinfo_set_essential_formats__UNSAFE_AOS4 formats bi = cpu_st32 BOARDINFO_OFF_ESSENTIAL_FORMATS formats bi"

definition boardinfo_set_max_bm_size__UNSAFE_AOS4 :: "u32 \<Rightarrow> u32 \<Rightarrow> bytes \<Rightarrow> bytes option" where
  "boardinfo_set_max_bm_size__UNSAFE_AOS4 width height bi = do {
     bi \<leftarrow> cpu_st32 BOARDINFO_OFF_MAX_BM_WIDTH width bi;
     cpu_st32 BOARDINFO_OFF_MAX_BM_HEIGHT height bi }"

section \<open>The EDID callback\<close>

text \<open>
  \<open>gs\<close> is \<open>g_chip_state\<close>, \<open>outBuf\<close> the memory behind the pointer, \<^term>\<open>None\<close> for NULL; the result is the return
  value and that memory.
\<close>

definition chip_ConfigureDisplay :: "gpu option \<Rightarrow> bytes option \<Rightarrow> u32 \<Rightarrow> (u32 \<times> bytes option) option" where
  "chip_ConfigureDisplay state outBuf totalBytes = (case (outBuf, state) of
     (Some buf, Some gs) \<Rightarrow>
       if totalBytes = 0 then Some (0, outBuf)
       else if g_has_edid gs \<and> 0 < g_edid_size gs
       then let copyLen = (if totalBytes < g_edid_size gs then totalBytes else g_edid_size gs) in do {
         buf \<leftarrow> foldM (\<lambda>i buf. do { b \<leftarrow> rd (g_edid gs) i; wr buf i b }) [0..<unat copyLen] buf;
         Some (1, Some buf) }
       else Some (0, outBuf)
   | _ \<Rightarrow> Some (0, outBuf))"

text \<open>
  The 128-byte entry at address \<open>entry\<close>: the name, the two bases, the back pointer, the EDID buffer
  and the callback; \<open>name\<close> and \<open>callback\<close> are the addresses of \<open>disp_name\<close> and \<open>chip_ConfigureDisplay\<close>.
\<close>

definition edid_entry :: "u32 \<Rightarrow> u32 \<Rightarrow> u32 \<Rightarrow> u32 \<Rightarrow> bytes option" where
  "edid_entry entry name bi callback = do {
     e \<leftarrow> cpu_st32 10 name (replicate 128 0);
     e \<leftarrow> cpu_st32 32 40 e;
     e \<leftarrow> cpu_st32 36 100 e;
     e \<leftarrow> cpu_st32 40 bi e;
     e \<leftarrow> cpu_st32 44 (entry + 64) e;
     cpu_st32 56 callback e }"

text \<open>The entries of the mode list, in list order, with the allocation made.\<close>

definition chip_register_edid :: "u32 \<Rightarrow> u32 \<Rightarrow> u32 \<Rightarrow> bytes \<Rightarrow> (u32 \<times> bytes) list \<Rightarrow> exec \<Rightarrow> ((u32 \<times> bytes) list \<times> exec) option" where
  "chip_register_edid name callback bi_addr bi modelist ex = do {
     gate \<leftarrow> boardinfo_edid_gate bi;
     if gate \<le> BOARDINFO_EDID_GATE_MIN then Some (modelist, ex)
     else let (entry, ex) = AllocVecTags ex in
     if entry = 0 then Some (modelist, ex)
     else do {
       e \<leftarrow> edid_entry entry name bi_addr callback;
       Some (modelist @ [(entry, e)], ex) } }"

end
