(* ===== verification/Card_Init.thy ===== *)
theory Card_Init
  imports Device_Init Board_Fields Interrupts P96_Callbacks Screen_Modes
begin

text \<open>
  \<open>chip_InitCard_C\<close> (\<open>src/chip/chip_init.c\<close>): the stages of the card's initialisation, in the order of
  the code, and the chain of cleanup labels.  A stage either succeeds or names the label it jumps to;
  a result \<^term>\<open>None\<close> stands for a fault or a wait that never returns.  The driver state proper is the record
  \<open>disp\<close>; \<open>card\<close> adds what only the initialisation uses.
\<close>

section \<open>State\<close>

text \<open>The fields of \<open>BoardInfo\<close> that are filled in; \<open>cb_raw\<close> is the buffer, for the private area.\<close>

record card_board =
  cb_MemoryBase :: u32
  cb_MemoryIOBase :: u32
  cb_MemorySize :: u32
  cb_BoardName :: string
  cb_VBIName :: string
  cb_BoardType :: u32
  cb_PaletteChipType :: u32
  cb_GraphicsControllerType :: u32
  cb_MoniSwitch :: u16
  cb_BitsPerCannon :: u16
  cb_Flags :: u32
  cb_SoftSpriteFlags :: "RGBFTYPE list"     \<comment> \<open>the formats whose \<open>RGBFF_\<close> bit is set\<close>
  cb_ChipFlags :: u16
  cb_CardFlags :: u32
  cb_RGBFormats :: "RGBFTYPE list"
  cb_MaxHorValue :: "u16 list"
  cb_MaxVerValue :: "u16 list"
  cb_MaxHorResolution :: "u16 list"
  cb_MaxVerResolution :: "u16 list"
  cb_MemoryClock :: u32
  cb_PixelClockCount :: "u32 list"
  cb_RGBFormat :: RGBFTYPE
  cb_Depth :: u16
  cb_Mask :: u32
  cb_Border :: bool
  cb_raw :: bytes
  cb_slots :: slots
  cb_modelist :: "(u32 \<times> bytes) list"
  cb_info :: BoardInfo

record card =
  k_disp :: disp
  k_mmu :: mmu
  k_bars :: "bar list"
  k_num_queues :: u16
  k_irq_number :: u32
  k_irq_servers :: "u32 list"
  k_setcaps :: "u32 list"          \<comment> \<open>calls of \<open>SetCapabilities\<close>\<close>
  k_state :: u32                   \<comment> \<open>the address of \<open>ChipGPUState\<close>, 0 before it is allocated\<close>
  k_cmd_buf :: u32
  k_resp_buf :: u32
  k_cursor_cmd_buf :: u32
  k_cmd3d_buf :: u32
  k_io_lock :: u32
  k_cursor_lock :: u32
  k_alloc_mutex :: u32
  k_cmd3d_lock :: u32
  k_vsync_mutex :: u32
  k_next_fence_id :: u32
  k_board_mem_size :: u32
  k_active_bpr :: u32
  k_cursor_w :: u16
  k_cursor_h :: u16
  k_rtg_output_enabled :: bool
  k_flush_task_quit :: bool
  k_exp :: bool                    \<comment> \<open>expansion.library is open\<close>
  k_ipci :: bool                   \<comment> \<open>its interface is held\<close>
  k_locked :: bool                 \<comment> \<open>the PCI device is locked\<close>
  k_published :: bool              \<comment> \<open>\<open>g_chip_state\<close> is set\<close>
  k_bi :: card_board

text \<open>What the system answers, and the addresses the EDID entry names.\<close>

record boot =
  bt_sdk :: sdk
  bt_dev :: pci_device
  bt_exp :: bool
  bt_ipci :: bool
  bt_find :: u32                   \<comment> \<open>\<open>FindDeviceTags\<close>, 0 for NULL\<close>
  bt_lock :: bool
  bt_vector :: u32                 \<comment> \<open>\<open>MapInterrupt\<close>\<close>
  bt_addint :: bool                \<comment> \<open>\<open>AddIntServer\<close>\<close>
  bt_disp_name :: u32
  bt_callback :: u32
  bt_bi_addr :: u32

abbreviation k_gs :: "card \<Rightarrow> gpu" where "k_gs k \<equiv> d_gs (k_disp k)"
abbreviation k_io :: "card \<Rightarrow> io" where "k_io k \<equiv> g_io (k_gs k)"
abbreviation k_exec :: "card \<Rightarrow> exec" where "k_exec k \<equiv> i_exec (k_io k)"

definition on_kdisp :: "(disp \<Rightarrow> disp) \<Rightarrow> card \<Rightarrow> card" where
  "on_kdisp f k = k\<lparr>k_disp := f (k_disp k)\<rparr>"

definition on_kgs :: "(gpu \<Rightarrow> gpu) \<Rightarrow> card \<Rightarrow> card" where
  "on_kgs f = on_kdisp (\<lambda>d. d\<lparr>d_gs := f (d_gs d)\<rparr>)"

definition on_kio :: "(io \<Rightarrow> io) \<Rightarrow> card \<Rightarrow> card" where
  "on_kio f = on_kgs (\<lambda>gs. gs\<lparr>g_io := f (g_io gs)\<rparr>)"

definition on_kbi :: "(card_board \<Rightarrow> card_board) \<Rightarrow> card \<Rightarrow> card" where
  "on_kbi f k = k\<lparr>k_bi := f (k_bi k)\<rparr>"

definition k_do :: "(exec \<Rightarrow> exec) \<Rightarrow> card \<Rightarrow> card" where
  "k_do f = on_kgs (do_exec f)"

definition k_call :: "(exec \<Rightarrow> 'a \<times> exec) \<Rightarrow> card \<Rightarrow> 'a \<times> card" where
  "k_call f k = (let (r, ex) = f (k_exec k) in (r, k_do (\<lambda>_. ex) k))"

definition k_bus :: "(bus \<Rightarrow> 'a \<times> bus) \<Rightarrow> card \<Rightarrow> 'a \<times> card" where
  "k_bus f k = (let (r, b) = f (i_bus (k_io k)) in (r, on_kio (\<lambda>io. io\<lparr>i_bus := b\<rparr>) k))"

definition k_gpu :: "(gpu \<Rightarrow> ('a \<times> gpu) option) \<Rightarrow> card \<Rightarrow> ('a \<times> card) option" where
  "k_gpu f k = do { (r, gs) \<leftarrow> f (k_gs k); Some (r, on_kgs (\<lambda>_. gs) k) }"

section \<open>The cleanup labels\<close>

datatype label = Fail_exp | Fail_ipci | Fail_pci | Fail_gs | Fail_cmd | Fail_resp | Fail_vqs
  | Fail_fb_mem | Fail_fb_dma | Fail_fb_dma_list | Return_false

definition fail_exp :: "card \<Rightarrow> card" where
  "fail_exp k = k\<lparr>k_exp := False\<rparr>"

definition fail_ipci :: "card \<Rightarrow> card" where
  "fail_ipci k = fail_exp (k\<lparr>k_ipci := False\<rparr>)"

definition fail_pci :: "card \<Rightarrow> card" where
  "fail_pci k = fail_ipci (k\<lparr>k_locked := False\<rparr>)"

definition free_lock :: "u32 \<Rightarrow> exec \<Rightarrow> exec" where
  "free_lock l ex = (if l \<noteq> 0 then FreeSysObject l ex else ex)"

definition fail_gs :: "card \<Rightarrow> card" where
  "fail_gs k = fail_pci ((k_do (\<lambda>ex. FreeVec (k_state k) (free_lock (k_io_lock k) (free_lock (k_alloc_mutex k)
     (free_lock (k_cursor_lock k) (free_lock (k_cmd3d_lock k) ex))))) k)
     \<lparr>k_cmd3d_lock := 0, k_cursor_lock := 0, k_alloc_mutex := 0, k_io_lock := 0, k_state := 0\<rparr>)"

definition fail_cmd :: "card \<Rightarrow> card" where
  "fail_cmd k = fail_gs (k_do (chip_dma_free (k_cmd_buf k)) k)"

definition fail_resp :: "card \<Rightarrow> card" where
  "fail_resp k = fail_cmd (k_do (\<lambda>ex. chip_dma_free (k_resp_buf k) (chip_dma_free (k_cursor_cmd_buf k) ex)) k)"

definition fail_vqs :: "card \<Rightarrow> card" where
  "fail_vqs k = fail_resp (k_do (\<lambda>ex. VirtQueue_Free (VirtQueue_Free ex (i_ctrlq (k_io k))) (i_cursq (k_io k))) k)"

definition fail_fb_mem :: "card \<Rightarrow> card" where
  "fail_fb_mem k = fail_vqs (k_do (\<lambda>ex. chip_dma_free (k_cmd3d_buf k) (FreeVec (g_fb_mem (k_gs k)) ex)) k)"

definition fail_fb_dma :: "card \<Rightarrow> card" where
  "fail_fb_dma k = fail_fb_mem (k_do (EndDMA (g_fb_mem (k_gs k))) k)"

definition fail_fb_dma_list :: "card \<Rightarrow> card" where
  "fail_fb_dma_list k = fail_fb_dma ((k_do (\<lambda>ex.
     let ex = (if d_fb_dma_list2 (k_disp k) \<noteq> 0 then FreeSysObject (d_fb_dma_list2 (k_disp k)) ex else ex);
         ex = (if d_fb_mem2 (k_disp k) \<noteq> 0 then FreeVec (d_fb_mem2 (k_disp k)) (EndDMA (d_fb_mem2 (k_disp k)) ex) else ex);
         ex = free_lock (k_vsync_mutex k) ex
     in FreeSysObject (g_fb_dma_list (k_gs k)) ex) k)\<lparr>k_vsync_mutex := 0\<rparr>)"

fun go_to :: "label \<Rightarrow> card \<Rightarrow> card" where
  "go_to Fail_exp = fail_exp"
| "go_to Fail_ipci = fail_ipci"
| "go_to Fail_pci = fail_pci"
| "go_to Fail_gs = fail_gs"
| "go_to Fail_cmd = fail_cmd"
| "go_to Fail_resp = fail_resp"
| "go_to Fail_vqs = fail_vqs"
| "go_to Fail_fb_mem = fail_fb_mem"
| "go_to Fail_fb_dma = fail_fb_dma"
| "go_to Fail_fb_dma_list = fail_fb_dma_list"
| "go_to Return_false = id"

type_synonym stage = "card \<Rightarrow> (label option \<times> card) option"

fun run_stages :: "stage list \<Rightarrow> stage" where
  "run_stages [] k = Some (None, k)"
| "run_stages (f # fs) k = do { (r, k) \<leftarrow> f k; case r of None \<Rightarrow> run_stages fs k | Some l \<Rightarrow> Some (Some l, k) }"

section \<open>Finding and preparing the device\<close>

definition open_device :: "boot \<Rightarrow> stage" where
  "open_device bt k = do {
     preset \<leftarrow> boardinfo_get_pcidevice (cb_raw (k_bi k));
     Some (if \<not> bt_exp bt then (Some Return_false, k)
      else let k = k\<lparr>k_exp := True\<rparr> in
        if \<not> bt_ipci bt then (Some Fail_exp, k)
        else let k = k\<lparr>k_ipci := True\<rparr>; pciDev = (if preset \<noteq> 0 then preset else bt_find bt) in
        if pciDev = 0 then (Some Fail_ipci, k)
        else if \<not> bt_lock bt then (Some Fail_ipci, k)
        else (None, k\<lparr>k_locked := True\<rparr>)) }"

text \<open>
  \<open>AVT_ClearWithValue, 0\<close>: every field of the driver state is zero (0 is \<open>RGBFB_NONE\<close>).  The kernel, the bus, the device
  and memory are not part of that state.
\<close>

definition zero_vio :: vio where
  "zero_vio = \<lparr>v_common_cfg_base = 0, v_notify_cfg_base = 0, v_notify_off_mult = 0, v_isr_cfg_base = 0, v_device_cfg_base = 0,
     v_modern_mode = False, v_use_pci_cfg = False, v_pci_cfg_cap_off = 0, v_common_cfg_bar = 0, v_common_cfg_off = 0,
     v_notify_cfg_bar = 0, v_notify_cfg_off = 0, v_device_cfg_bar = 0, v_device_cfg_off = 0, v_isr_cfg_bar = 0, v_isr_cfg_off = 0\<rparr>"

definition zero_io :: "io \<Rightarrow> io" where
  "zero_io io = \<lparr>i_exec = i_exec io, i_task = i_task io, i_ctrlq = None, i_cursq = None,
     i_ctrl_dev = \<lparr>dq_seen = 0, dq_held = []\<rparr>, i_curs_dev = \<lparr>dq_seen = 0, dq_held = []\<rparr>, i_clock = i_clock io,
     i_cmd_buf = [], i_cmd_buf_phys = 0, i_resp_buf = [], i_resp_buf_phys = 0, i_cursor_cmd_buf = None, i_cursor_cmd_phys = 0,
     i_cmd3d_buf = None, i_cmd3d_phys = 0, i_io_depth = 0, i_cursor_locked = False, i_irq_installed = False,
     i_ctrlq_wait_task = 0, i_ctrlq_wait_mask = 0, i_cursorq_wait_task = 0, i_cursorq_wait_mask = 0,
     i_vio = zero_vio, i_bus = i_bus io, i_kicks = i_kicks io, i_hot_stage = [], i_wait_entries = 0, i_wait_exits = 0\<rparr>"

definition zero_gpu :: "gpu \<Rightarrow> gpu" where
  "zero_gpu gs = \<lparr>g_io = zero_io (g_io gs), g_dma_lists = g_dma_lists gs,
     g_scanout_log_x = replicate 4 0, g_scanout_log_y = replicate 4 0, g_scanout_log_w = replicate 4 0, g_scanout_log_h = replicate 4 0,
     g_fb_mem = 0, g_fb_phys = 0, g_fb_size = 0, g_fb_stride = 0, g_fb_width = 0, g_fb_height = 0, g_resource_id = 0,
     g_fb_resource_id = 0, g_fb_dma_count = 0, g_fb_dma_list = 0, g_fb_resource_id2 = 0, g_fb_is_blob = False,
     g_next_resource_id = 0, g_next_ctx_id = 0, g_cursor_mem = 0, g_cursor_phys = 0, g_cursor_resource_id = 0,
     g_cursor_created = False, g_cursor_x = 0, g_cursor_y = 0, g_cursor_last_sent_x = 0, g_cursor_last_sent_y = 0,
     g_has_edid = False, g_edid_size = 0, g_edid = replicate 1024 0, g_edid_native_w = 0, g_edid_native_h = 0,
     g_edid_dtd_count = 0, g_edid_dtd_w = replicate 16 0, g_edid_dtd_h = replicate 16 0, g_has_virgl = False,
     g_num_capsets = 0, g_virgl_capset_id = 0, g_virgl_capset_ver = 0, g_virgl_capset_size = 0,
     g_virgl_caps = replicate 2048 0, g_virgl_caps_valid = False, g_has_blob = False, g_virgl_ctx_error = False\<rparr>"

definition zero_disp :: "disp \<Rightarrow> disp" where
  "zero_disp d = \<lparr>d_gs = zero_gpu (d_gs d), d_mem = d_mem d, d_board_mem = 0, d_fb_mem2 = 0, d_fb_phys2 = 0, d_fb_dma_count2 = 0,
     d_fb_dma_list2 = 0, d_virgl_2d_resource2 = 0, d_double_buffer = False, d_virgl_2d_ready = False, d_virgl_2d_ctx = 0,
     d_virgl_2d_resource = 0, d_active_format = RGBFB_other 0, d_active_width = 0, d_active_height = 0, d_panning_mem = 0,
     d_panning_width = 0, d_pan_xoff = 0, d_pan_yoff = 0, d_palette = replicate 256 0, d_flush_task = 0, d_flush_sig_mask = 0,
     d_stat_signal_calls = 0, d_signals = d_signals d, d_eclock = (d_eclock d)\<lparr>ec_itimer := False, ec_freq := 0\<rparr>,
     d_prof_convert = d_prof_convert d, d_prof_flush_all = d_prof_flush_all d, d_proflog = d_proflog d\<rparr>"

definition alloc_state :: stage where
  "alloc_state k =
     (let (gs, k) = k_call AllocVecTags k in
      if gs = 0 then Some (Some Fail_pci, k)
      else let k = (on_kdisp zero_disp k)\<lparr>k_bars := replicate 6 no_bar, k_num_queues := 0, k_irq_number := 0, k_state := gs,
             k_cmd_buf := 0, k_resp_buf := 0, k_cursor_cmd_buf := 0, k_cmd3d_buf := 0, k_cmd3d_lock := 0, k_vsync_mutex := 0,
             k_next_fence_id := 0\<rparr>;
           (io_lock, k) = k_call AllocSysObject k;
           (cursor_lock, k) = k_call AllocSysObject k;
           (alloc_mutex, k) = k_call AllocSysObject k;
           k = k\<lparr>k_io_lock := io_lock, k_cursor_lock := cursor_lock, k_alloc_mutex := alloc_mutex\<rparr>
      in if io_lock = 0 \<or> cursor_lock = 0 \<or> alloc_mutex = 0 then Some (Some Fail_gs, k) else Some (None, k))"

definition probe_device :: "boot \<Rightarrow> stage" where
  "probe_device bt k =
     (let c = bt_sdk bt; dev = bt_dev bt;
          (setcap, k) = k_bus (pci_enable c dev) k;
          k = k\<lparr>k_setcaps := k_setcaps k @ (case setcap of None \<Rightarrow> [] | Some x \<Rightarrow> [x])\<rparr>;
          k = on_kio (do_bus (repair_bars c 0)) k;
          (bars, m) = chip_scan_bars c dev (k_bars k) (k_mmu k);
          k = k\<lparr>k_bars := bars, k_mmu := m\<rparr>;
          (ok, v, b) = chip_scan_pci_caps c bars dev (i_vio (k_io k)) (i_bus (k_io k));
          k = on_kio (\<lambda>io. io\<lparr>i_vio := v, i_bus := b\<rparr>) k
      in Some (if ok then None else Some Fail_gs, k))"

section \<open>Buffers, transport and interrupt\<close>

definition alloc_buffers :: stage where
  "alloc_buffers k =
     (let (cmd, k) = k_call chip_dma_alloc k in
      case cmd of None \<Rightarrow> Some (Some Fail_gs, k)
      | Some (mem, phys) \<Rightarrow>
          let k = (on_kio (\<lambda>io. io\<lparr>i_cmd_buf := replicate 4096 0, i_cmd_buf_phys := phys\<rparr>) k)\<lparr>k_cmd_buf := mem\<rparr>;
              (resp, k) = k_call chip_dma_alloc k in
          case resp of None \<Rightarrow> Some (Some Fail_cmd, k)
          | Some (mem, phys) \<Rightarrow>
              let k = (on_kio (\<lambda>io. io\<lparr>i_resp_buf := replicate 4096 0, i_resp_buf_phys := phys\<rparr>) k)\<lparr>k_resp_buf := mem\<rparr>;
                  (cursor, k) = k_call chip_dma_alloc k in
              Some (None, case cursor of None \<Rightarrow> k
                | Some (mem, phys) \<Rightarrow> (on_kio (\<lambda>io. io\<lparr>i_cursor_cmd_buf := Some (replicate 4096 0), i_cursor_cmd_phys := phys\<rparr>) k)
                    \<lparr>k_cursor_cmd_buf := mem\<rparr>))"

definition start_transport :: stage where
  "start_transport k = do {
     (ok, gs, n) \<leftarrow> chip_virtio_init (k_gs k) (k_num_queues k);
     Some (if ok then None else Some Fail_resp, (on_kgs (\<lambda>_. gs) k)\<lparr>k_num_queues := n\<rparr>) }"

definition install_irq :: "boot \<Rightarrow> stage" where
  "install_irq bt k =
     (let (ok, st) = chip_irq_install (bt_vector bt) (bt_addint bt)
            \<lparr>irq_io = k_io k, irq_number = k_irq_number k, irq_servers = k_irq_servers k\<rparr>;
          k = (on_kio (\<lambda>_. irq_io st) k)\<lparr>k_irq_number := irq_number st, k_irq_servers := irq_servers st\<rparr>;
          c = bt_sdk bt
      in if ok
         then let (pci_cmd, k) = k_bus (config_read16 (PCI_COMMAND c)) k
              in Some (None, on_kio (do_bus (bus_do (WriteConfigWord (PCI_COMMAND c) (pci_cmd AND NOT (PCI_COMMAND_INT_DISABLE c))))) k)
         else Some (None, k))"

definition prepare_3d :: stage where
  "prepare_3d k =
     (if g_has_virgl (k_gs k) \<and> v_device_cfg_base (i_vio (k_io k)) \<noteq> 0
      then let (n, k) = k_bus (devcfg_r32 (i_vio (k_io k)) 12) k;
               k = on_kgs (\<lambda>gs. gs\<lparr>g_num_capsets := n\<rparr>) k;
               (r, k) = k_call chip_dma_alloc k;
               k = (case r of None \<Rightarrow> on_kgs (\<lambda>gs. gs\<lparr>g_has_virgl := False\<rparr>) k
                    | Some (mem, phys) \<Rightarrow>
                        let k = on_kio (\<lambda>io. io\<lparr>i_cmd3d_phys := phys\<rparr>) k; (lock, k) = k_call AllocSysObject k in
                        if lock = 0
                        then on_kgs (\<lambda>gs. gs\<lparr>g_has_virgl := False\<rparr>) (k_do (chip_dma_free mem) k)
                        else (on_kio (\<lambda>io. io\<lparr>i_cmd3d_buf := Some (replicate 65536 0)\<rparr>) k)
                               \<lparr>k_cmd3d_buf := mem, k_cmd3d_lock := lock\<rparr>)
           in Some (None, (on_kgs (\<lambda>gs. gs\<lparr>g_next_resource_id := 3, g_next_ctx_id := 1\<rparr>) k)\<lparr>k_next_fence_id := 1\<rparr>)
      else Some (None, k))"

section \<open>The framebuffer\<close>

definition choose_resolution :: "env \<Rightarrow> card \<Rightarrow> ((u32 \<times> u32) \<times> card) option" where
  "choose_resolution env k = do {
     (got_edid, k) \<leftarrow> k_gpu (chip_GetEDID env 0) k;
     let nw = g_edid_native_w (k_gs k);
     let nh = g_edid_native_h (k_gs k);
     let (w, h) = (if got_edid \<and> 0 < nw \<and> 0 < nh then (nw, nh) else (0, 0));
     if w = 0 \<or> h = 0
     then do {
       (r, k) \<leftarrow> k_gpu (with_io (chip_GetDisplayInfo env)) k;
       Some (case r of Some (di_w, di_h) \<Rightarrow> if 0 < di_w \<and> 0 < di_h then (di_w, di_h) else (1024, 768)
             | None \<Rightarrow> (1024, 768), k) }
     else Some ((w, h), k) }"

definition alloc_framebuffer :: "boot \<Rightarrow> u32 \<Rightarrow> u32 \<Rightarrow> stage" where
  "alloc_framebuffer bt width height k =
     (let max_w = (if width \<noteq> 0 then width else 1280); max_h = (if height \<noteq> 0 then height else 800);
          k = on_kgs (\<lambda>gs. gs\<lparr>g_fb_width := max_w, g_fb_height := max_h, g_fb_stride := max_w * 4,
                g_fb_size := max_h * (max_w * 4)\<rparr>) k;
          (mem, k) = k_call AllocVecTags k;
          k = on_kgs (\<lambda>gs. gs\<lparr>g_fb_mem := mem\<rparr>) k in
      if mem = 0 then Some (Some Fail_vqs, k)
      else let (n, k) = k_call (StartDMA mem) k; k = on_kgs (\<lambda>gs. gs\<lparr>g_fb_dma_count := n\<rparr>) k in
      if n = 0 then Some (Some Fail_fb_mem, k)
      else let (l, k) = k_call AllocSysObject k; k = on_kgs (\<lambda>gs. gs\<lparr>g_fb_dma_list := l\<rparr>) k in
      if l = 0 then Some (Some Fail_fb_dma, k)
      else do {
        e \<leftarrow> rd (g_dma_lists (k_gs k) mem) 0;
        let k = on_kgs (\<lambda>gs. gs\<lparr>g_fb_phys := de_phys e\<rparr>) k;
        let k = k\<lparr>k_mmu := chip_immu_set_writethrough (bt_sdk bt) mem (g_fb_size (k_gs k)) (k_mmu k)\<rparr>;
        Some (None, on_kdisp (\<lambda>d. d\<lparr>d_double_buffer := False, d_fb_mem2 := 0\<rparr>) k) })"

abbreviation VIRTIO_GPU_BLOB_MEM_GUEST :: u32 where "VIRTIO_GPU_BLOB_MEM_GUEST \<equiv> 1"

text \<open>The resource, as a guest blob or a classic 2D resource with backing.\<close>

definition create_fb_blob :: "env \<Rightarrow> card \<Rightarrow> (bool \<times> card) option" where
  "create_fb_blob env k =
     (if g_has_blob (k_gs k)
      then do {
        (ok, k) \<leftarrow> k_gpu (\<lambda>gs. chip_ResourceCreateBlob env (g_resource_id gs) VIRTIO_GPU_BLOB_MEM_GUEST 0 0 (ucast (g_fb_size gs))
                            (g_dma_lists gs (g_fb_mem gs)) (g_fb_dma_count gs) gs) k;
        Some (ok, if ok then on_kgs (\<lambda>gs. gs\<lparr>g_fb_is_blob := True\<rparr>) k else k) }
      else Some (False, k))"

definition create_fb_resource :: "env \<Rightarrow> stage" where
  "create_fb_resource env k = do {
     let k = on_kgs (\<lambda>gs. gs\<lparr>g_resource_id := 1, g_fb_resource_id := 1, g_fb_is_blob := False\<rparr>) k;
     (blob, k) \<leftarrow> create_fb_blob env k;
     if blob then Some (None, k)
     else do {
       (ok, k) \<leftarrow> k_gpu (\<lambda>gs. with_io (chip_ResourceCreate2D env (g_resource_id gs) FORMAT_B8G8R8X8_UNORM
                            (g_fb_width gs) (g_fb_height gs)) gs) k;
       if \<not> ok then Some (Some Fail_fb_dma_list, k)
       else do {
         (ok, k) \<leftarrow> k_gpu (\<lambda>gs. with_io (chip_ResourceAttachBacking env (g_resource_id gs) (g_dma_lists gs (g_fb_mem gs))
                              (g_fb_dma_count gs)) gs) k;
         Some (if ok then None else Some Fail_fb_dma_list, k) } } }"

definition show_fb :: "env \<Rightarrow> u32 \<Rightarrow> u32 \<Rightarrow> stage" where
  "show_fb env width height k = do {
     (ok, k) \<leftarrow> k_gpu (\<lambda>gs. chip_SetScanout env 0 (g_resource_id gs) 0 0 width height gs) k;
     if \<not> ok then Some (Some Fail_fb_dma_list, k)
     else do {
       (_, k) \<leftarrow> k_gpu (\<lambda>gs. chip_TransferToHost2D env (g_resource_id gs) 0 0 width height 0 gs) k;
       (_, k) \<leftarrow> k_gpu (\<lambda>gs. with_io (chip_ResourceFlush env (g_resource_id gs) 0 0 width height) gs) k;
       Some (None, k) } }"

section \<open>Board memory and publication\<close>

definition alloc_board_memory :: "u32 \<Rightarrow> u32 \<Rightarrow> card \<Rightarrow> card" where
  "alloc_board_memory width height k =
     (let (mem, k) = k_call AllocVecTags k;
          (mem, sz) = (if mem = 0 then (g_fb_mem (k_gs k), g_fb_size (k_gs k)) else (mem, 128 * 1024 * 1024));
          k = on_kdisp (\<lambda>d. d\<lparr>d_board_mem := mem, d_active_format := RGBFB_A8R8G8B8, d_active_width := width,
                d_active_height := height, d_panning_mem := mem\<rparr>) k;
          k = on_kgs (\<lambda>gs. gs\<lparr>g_cursor_x := -1, g_cursor_y := -1\<rparr>) k
      in k\<lparr>k_board_mem_size := sz, k_active_bpr := width * 4, k_cursor_w := 16, k_cursor_h := 16\<rparr>)"

definition publish_state :: "card \<Rightarrow> card" where
  "publish_state k = (let (m, k) = k_call AllocSysObject (k\<lparr>k_published := True\<rparr>) in k\<lparr>k_vsync_mutex := m\<rparr>)"

section \<open>The board information\<close>

definition BT_VIRTIOGPU :: u32 where "BT_VIRTIOGPU = 0x56"

abbreviation BIF_HARDWARESPRITE :: u32 where "BIF_HARDWARESPRITE \<equiv> 0x1"
abbreviation BIF_VBLANKINTERRUPT :: u32 where "BIF_VBLANKINTERRUPT \<equiv> 0x10"
abbreviation BIF_INDISPLAYCHAIN :: u32 where "BIF_INDISPLAYCHAIN \<equiv> 0x100000"
abbreviation BIF_NOMASKBLITS :: u32 where "BIF_NOMASKBLITS \<equiv> 0x400000"
abbreviation BIF_NOC2PBLITS :: u32 where "BIF_NOC2PBLITS \<equiv> 0x800000"
abbreviation BIF_GRANTDIRECTACCESS :: u32 where "BIF_GRANTDIRECTACCESS \<equiv> 0x4000000"

definition supported_formats :: "RGBFTYPE list" where
  "supported_formats = [RGBFB_CLUT, RGBFB_R5G6B5, RGBFB_A8R8G8B8]"

text \<open>The two loops that copy the name of the interrupt and pad its 32 characters.\<close>

definition copy_vbi_name :: "string \<Rightarrow> string" where
  "copy_vbi_name vbi = take 31 vbi @ replicate (32 - length (take 31 vbi)) (CHR 0x00)"

text \<open>The entries for CHUNKY, HICOLOR and TRUEALPHA of a table of five.\<close>

definition for_modes :: "'a \<Rightarrow> 'a list \<Rightarrow> 'a list" where
  "for_modes x xs = xs[1 := x, 2 := x, 4 := x]"

definition fill_board_info :: "u32 \<Rightarrow> u32 \<Rightarrow> card_board \<Rightarrow> card_board option" where
  "fill_board_info board_mem board_mem_size bi = do {
     let bi = bi\<lparr>cb_BoardName := ''VirtIOGPU'', cb_BoardType := BT_VIRTIOGPU, cb_PaletteChipType := 0,
       cb_GraphicsControllerType := 0, cb_MoniSwitch := 1, cb_MemoryClock := 200000000,
       cb_VBIName := copy_vbi_name ''VirtIOGPU.vbi'',
       cb_MemoryBase := board_mem, cb_MemorySize := board_mem_size, cb_MemoryIOBase := 0\<rparr>;
     raw \<leftarrow> boardinfo_set_memory_space board_mem board_mem_size (cb_raw bi);
     let bi = bi\<lparr>cb_MaxHorValue := for_modes 4096 (cb_MaxHorValue bi), cb_MaxVerValue := for_modes 4096 (cb_MaxVerValue bi),
       cb_MaxHorResolution := for_modes 4096 (cb_MaxHorResolution bi), cb_MaxVerResolution := for_modes 4096 (cb_MaxVerResolution bi),
       cb_PixelClockCount := for_modes chip_num_modes (cb_PixelClockCount bi),
       cb_Flags := BIF_GRANTDIRECTACCESS OR BIF_NOMASKBLITS OR BIF_NOC2PBLITS OR BIF_INDISPLAYCHAIN OR BIF_HARDWARESPRITE
         OR BIF_VBLANKINTERRUPT,
       cb_SoftSpriteFlags := supported_formats, cb_ChipFlags := 0, cb_CardFlags := 0,
       cb_RGBFormats := supported_formats, cb_BitsPerCannon := 8, cb_RGBFormat := RGBFB_A8R8G8B8, cb_Depth := 32,
       cb_Mask := 0xFFFFFFFF, cb_Border := False\<rparr>;
     raw \<leftarrow> boardinfo_set_pci_id 0x1AF4 0x1050 raw;
     raw \<leftarrow> boardinfo_set_sync_time 0 0 raw;
     Some (bi\<lparr>cb_raw := raw, cb_slots := chip_fill_boardinfo_vtable (cb_slots bi)\<rparr>) }"

definition describe_board :: "card \<Rightarrow> card option" where
  "describe_board k = do {
     bi \<leftarrow> fill_board_info (d_board_mem (k_disp k)) (k_board_mem_size k) (k_bi k);
     Some (k\<lparr>k_bi := bi, k_rtg_output_enabled := True\<rparr>) }"

text \<open>The EDID callback, the screen modes and the capability sets.\<close>

definition announce_modes :: "env \<Rightarrow> boot \<Rightarrow> card \<Rightarrow> card option" where
  "announce_modes env bt k = do {
     (ml, ex) \<leftarrow> chip_register_edid (bt_disp_name bt) (bt_callback bt) (bt_bi_addr bt) (cb_raw (k_bi k)) (cb_modelist (k_bi k)) (k_exec k);
     let k = on_kbi (\<lambda>bi. bi\<lparr>cb_modelist := ml\<rparr>) (k_do (\<lambda>_. ex) k);
     st \<leftarrow> chip_register_modes \<lparr>ms_gpu = k_gs k, ms_bi = Some (cb_info (k_bi k)), ms_hotplug = 0\<rparr>;
     let k = on_kgs (\<lambda>_. ms_gpu st) k;
     let k = on_kbi (\<lambda>bi. bi\<lparr>cb_info := (case ms_bi st of None \<Rightarrow> cb_info bi | Some i \<Rightarrow> i)\<rparr>) k;
     if g_has_virgl (k_gs k) \<and> 0 < g_num_capsets (k_gs k)
     then do { gs \<leftarrow> chip_QueryCapsets env (k_gs k); Some (on_kgs (\<lambda>_. gs) k) }
     else Some k }"

section \<open>The whole initialisation\<close>

definition before_display :: "boot \<Rightarrow> stage list" where
  "before_display bt = [open_device bt, alloc_state, probe_device bt, alloc_buffers, start_transport, install_irq bt, prepare_3d]"

definition bring_up_display :: "env \<Rightarrow> boot \<Rightarrow> u32 \<Rightarrow> u32 \<Rightarrow> stage list" where
  "bring_up_display env bt width height = [alloc_framebuffer bt width height, create_fb_resource env, show_fb env width height]"

definition complete_init :: "env \<Rightarrow> boot \<Rightarrow> u32 \<Rightarrow> u32 \<Rightarrow> card \<Rightarrow> card option" where
  "complete_init env bt width height k = do {
     k \<leftarrow> describe_board (publish_state (alloc_board_memory width height k));
     k \<leftarrow> announce_modes env bt k;
     Some (k\<lparr>k_flush_task_quit := False\<rparr>) }"

definition chip_InitCard_C :: "env \<Rightarrow> boot \<Rightarrow> card \<Rightarrow> (bool \<times> card) option" where
  "chip_InitCard_C env bt k = do {
     (r, k) \<leftarrow> run_stages (before_display bt) k;
     case r of Some l \<Rightarrow> Some (False, go_to l k)
     | None \<Rightarrow> do {
         ((width, height), k) \<leftarrow> choose_resolution env k;
         (r, k) \<leftarrow> run_stages (bring_up_display env bt width height) k;
         case r of Some l \<Rightarrow> Some (False, go_to l k)
         | None \<Rightarrow> do {
             k \<leftarrow> complete_init env bt width height k;
             Some (True, k) } } }"

end
