(* ===== verification/Pci_Probe_Correct.thy ===== *)
theory Pci_Probe_Correct
  imports Pci_Probe
begin

text \<open>
  What the capability walk finds.  The device is described by the contents \<open>cs\<close> of its
  configuration space (\<open>answers_from\<close>); the region of a kind is the one named by the last of the first
  32 capabilities that describes one of that kind in a mapped memory BAR.
\<close>

section \<open>A device with a configuration space\<close>

fun config_answer :: "(u32 \<Rightarrow> u32) \<Rightarrow> bus_op \<Rightarrow> u32 \<Rightarrow> bool" where
  "config_answer cs (ReadConfigByte a) v \<longleftrightarrow> v = cs a"
| "config_answer cs (ReadConfigLong a) v \<longleftrightarrow> v = cs a"
| "config_answer cs _ v \<longleftrightarrow> True"

text \<open>Every configuration read logged after the first \<open>n\<close> accesses was answered with the contents.\<close>

definition answers_from :: "(u32 \<Rightarrow> u32) \<Rightarrow> nat \<Rightarrow> bus \<Rightarrow> bool" where
  "answers_from cs n b \<longleftrightarrow> (\<forall>i. n \<le> i \<and> i < length (bus_log b) \<longrightarrow> config_answer cs (bus_log b ! i) (bus_answer b i))"

text \<open>A bus reached from another one: the same device, more accesses.\<close>

definition bus_extends :: "bus \<Rightarrow> bus \<Rightarrow> bool" where
  "bus_extends b b' \<longleftrightarrow> bus_answer b' = bus_answer b \<and> (\<exists>l. bus_log b' = bus_log b @ l)"

lemma extends_refl [simp, intro]: "bus_extends b b"
  by (simp add: bus_extends_def)

lemma extends_trans: "bus_extends a b \<Longrightarrow> bus_extends b d \<Longrightarrow> bus_extends a d"
  by (auto simp: bus_extends_def)

lemma extends_do [simp, intro]: "bus_extends b (bus_do p b)"
  by (simp add: bus_extends_def bus_do_def)

lemma extends_ask: "bus_ask p b = (v, b') \<Longrightarrow> bus_extends b b'"
  by (auto simp: bus_ask_def)

lemma answers_from_earlier:
  assumes "answers_from cs n b'" "bus_extends b b'"
  shows "answers_from cs n b"
  using assms by (auto simp: answers_from_def bus_extends_def nth_append)

lemma ask_answer:
  assumes "bus_ask p b = (v, b')" "bus_extends b' b2" "answers_from cs n b2" "n \<le> length (bus_log b)"
  shows "config_answer cs p v"
proof -
  have "bus_answer b2 (length (bus_log b)) = v" "bus_log b2 ! length (bus_log b) = p" "length (bus_log b) < length (bus_log b2)"
    using assms(1,2) by (auto simp: bus_ask_def bus_do_def bus_extends_def nth_append)
  then show ?thesis using assms(3,4) by (auto simp: answers_from_def)
qed

lemma config_read8_at:
  assumes "config_read8 a b = (v, b')" "bus_extends b' b2" "answers_from cs n b2" "n \<le> length (bus_log b)"
  shows "v = ucast (cs a) \<and> bus_extends b b' \<and> n \<le> length (bus_log b')"
proof -
  obtain w where w: "bus_ask (ReadConfigByte a) b = (w, b')" "v = ucast w"
    using assms(1) by (auto simp: config_read8_def split: prod.splits)
  then show ?thesis using ask_answer [OF w(1) assms(2-4)] extends_ask [OF w(1)] assms(4)
    by (auto simp: bus_extends_def)
qed

lemma config_read32_at:
  assumes "config_read32 a b = (v, b')" "bus_extends b' b2" "answers_from cs n b2" "n \<le> length (bus_log b)"
  shows "v = cs a \<and> bus_extends b b' \<and> n \<le> length (bus_log b')"
  using ask_answer [OF assms(1) [unfolded config_read32_def] assms(2-4)] extends_ask [OF assms(1) [unfolded config_read32_def]] assms(4)
  by (auto simp: bus_extends_def)

lemma config_reads_extend:
  "config_read8 a b = (v8, b') \<Longrightarrow> bus_extends b b'"
  "config_read32 a b = (v32, b') \<Longrightarrow> bus_extends b b'"
  by (auto simp: config_read8_def config_read32_def dest: extends_ask split: prod.splits)

section \<open>The regions\<close>

definition cap_kind :: "(u32 \<Rightarrow> u32) \<Rightarrow> pci_cap \<Rightarrow> u8" where
  "cap_kind cs cap = ucast (cs (cap_CapOffset cap + VIRTIO_CAP_OFF_CFG_TYPE))"

definition cap_bar :: "(u32 \<Rightarrow> u32) \<Rightarrow> pci_cap \<Rightarrow> u8" where
  "cap_bar cs cap = ucast (cs (cap_CapOffset cap + VIRTIO_CAP_OFF_BAR))"

definition cap_offset :: "(u32 \<Rightarrow> u32) \<Rightarrow> pci_cap \<Rightarrow> u32" where
  "cap_offset cs cap = cs (cap_CapOffset cap + VIRTIO_CAP_OFF_OFFSET)"

definition of_kind :: "sdk \<Rightarrow> (u32 \<Rightarrow> u32) \<Rightarrow> u8 \<Rightarrow> pci_cap \<Rightarrow> bool" where
  "of_kind c cs k cap \<longleftrightarrow> cap_Type cap = PCI_CAPABILITYID_VENDOR c \<and> cap_kind cs cap = k"

text \<open>The last capability of a kind, and the last one in a mapped memory BAR.\<close>

definition last_of :: "sdk \<Rightarrow> (u32 \<Rightarrow> u32) \<Rightarrow> u8 \<Rightarrow> pci_cap list \<Rightarrow> pci_cap option" where
  "last_of c cs k caps = find (of_kind c cs k) (rev caps)"

definition last_mapped :: "sdk \<Rightarrow> bar list \<Rightarrow> (u32 \<Rightarrow> u32) \<Rightarrow> u8 \<Rightarrow> pci_cap list \<Rightarrow> pci_cap option" where
  "last_mapped c bars cs k caps = find (\<lambda>cap. of_kind c cs k cap \<and> mapped_bar c bars (cap_bar cs cap)) (rev caps)"

definition region :: "sdk \<Rightarrow> bar list \<Rightarrow> (u32 \<Rightarrow> u32) \<Rightarrow> u8 \<Rightarrow> pci_cap list \<Rightarrow> u32" where
  "region c bars cs k caps = (case last_mapped c bars cs k caps of None \<Rightarrow> 0
     | Some cap \<Rightarrow> bar_base (bars ! unat (cap_bar cs cap)) + cap_offset cs cap)"

definition multiplier :: "sdk \<Rightarrow> (u32 \<Rightarrow> u32) \<Rightarrow> pci_cap list \<Rightarrow> u32" where
  "multiplier c cs caps = (case last_of c cs VIRTIO_PCI_CAP_NOTIFY_CFG caps of None \<Rightarrow> 0
     | Some cap \<Rightarrow> cs (cap_CapOffset cap + VIRTIO_CAP_OFF_NOTIFY_MULT))"

lemma find_snoc: "find P (rev (xs @ [x])) = (if P x then Some x else find P (rev xs))"
  by simp

lemma region_snoc:
  "region c bars cs k (caps @ [cap]) = (if of_kind c cs k cap \<and> mapped_bar c bars (cap_bar cs cap)
     then bar_base (bars ! unat (cap_bar cs cap)) + cap_offset cs cap else region c bars cs k caps)"
  by (simp add: region_def last_mapped_def)

lemma multiplier_snoc:
  "multiplier c cs (caps @ [cap]) = (if of_kind c cs VIRTIO_PCI_CAP_NOTIFY_CFG cap
     then cs (cap_CapOffset cap + VIRTIO_CAP_OFF_NOTIFY_MULT) else multiplier c cs caps)"
  by (simp add: multiplier_def last_of_def)

lemma last_of_snoc:
  "last_of c cs k (caps @ [cap]) = (if of_kind c cs k cap then Some cap else last_of c cs k caps)"
  by (simp add: last_of_def)

text \<open>What is known after walking over \<open>caps\<close>.\<close>

definition found :: "sdk \<Rightarrow> bar list \<Rightarrow> (u32 \<Rightarrow> u32) \<Rightarrow> pci_cap list \<Rightarrow> vio \<Rightarrow> bool" where
  "found c bars cs caps v \<longleftrightarrow>
     v_common_cfg_base v = region c bars cs VIRTIO_PCI_CAP_COMMON_CFG caps
   \<and> v_notify_cfg_base v = region c bars cs VIRTIO_PCI_CAP_NOTIFY_CFG caps
   \<and> v_isr_cfg_base v = region c bars cs VIRTIO_PCI_CAP_ISR_CFG caps
   \<and> v_device_cfg_base v = region c bars cs VIRTIO_PCI_CAP_DEVICE_CFG caps
   \<and> v_notify_off_mult v = multiplier c cs caps
   \<and> v_modern_mode v = (last_of c cs VIRTIO_PCI_CAP_COMMON_CFG caps \<noteq> None)
   \<and> \<not> v_use_pci_cfg v"

lemma found_start: "found c bars cs [] (no_regions v)"
  by (simp add: found_def no_regions_def region_def last_mapped_def multiplier_def last_of_def)

lemma found_other:
  assumes "found c bars cs caps v" "cap_Type cap \<noteq> PCI_CAPABILITYID_VENDOR c"
  shows "found c bars cs (caps @ [cap]) v"
  using assms by (simp add: found_def region_snoc multiplier_snoc last_of_snoc of_kind_def)

lemma note_region_extends: "note_region t n off co v b = (v', b') \<Longrightarrow> bus_extends b b'"
  by (auto simp: note_region_def Let_def dest: config_reads_extend split: if_splits prod.splits)

lemma scan_cap_extends: "scan_cap c bars co v b = (v', b') \<Longrightarrow> bus_extends b b'"
  by (auto simp: scan_cap_def Let_def split: prod.splits if_splits dest!: config_reads_extend note_region_extends
      intro: extends_trans)

text \<open>One vendor capability.\<close>

lemma scan_cap_found:
  assumes "scan_cap c bars (cap_CapOffset cap) v b = (v', b')" "cap_Type cap = PCI_CAPABILITYID_VENDOR c"
    and "found c bars cs caps v" "answers_from cs n b'" "n \<le> length (bus_log b)"
  shows "found c bars cs (caps @ [cap]) v'"
proof -
  let ?o = "cap_CapOffset cap"
  obtain kind b1 bar_num b2 off b3 where r: "config_read8 (?o + VIRTIO_CAP_OFF_CFG_TYPE) b = (kind, b1)"
      "config_read8 (?o + VIRTIO_CAP_OFF_BAR) b1 = (bar_num, b2)"
      "config_read32 (?o + VIRTIO_CAP_OFF_OFFSET) b2 = (off, b3)"
    by (metis surj_pair)
  have e: "bus_extends b1 b2" "bus_extends b2 b3" using r by (auto dest: config_reads_extend)
  have e3: "bus_extends b3 b'" using assms(1) r
    by (auto simp: scan_cap_def split: if_splits prod.splits dest: note_region_extends)
  note t = extends_trans [OF e(2) e3]
  have k1: "kind = cap_kind cs cap \<and> n \<le> length (bus_log b1)"
    using config_read8_at [OF r(1) extends_trans [OF e(1) t] assms(4,5)] by (simp add: cap_kind_def)
  have k2: "bar_num = cap_bar cs cap \<and> n \<le> length (bus_log b2)"
    using config_read8_at [OF r(2) t assms(4)] k1 by (simp add: cap_bar_def)
  have k3: "off = cap_offset cs cap \<and> n \<le> length (bus_log b3)"
    using config_read32_at [OF r(3) e3 assms(4)] k2 by (simp add: cap_offset_def)
  have m: "mult = cs (?o + VIRTIO_CAP_OFF_NOTIFY_MULT)"
    if "config_read32 (?o + VIRTIO_CAP_OFF_NOTIFY_MULT) b3 = (mult, b')" for mult
    using config_read32_at [OF that _ assms(4)] k3 by simp
  have v': "v' = (if kind = VIRTIO_PCI_CAP_PCI_CFG then v\<lparr>v_pci_cfg_cap_off := ucast ?o\<rparr>
      else place_region c bars kind bar_num off (fst (note_region kind bar_num off ?o v b3)))"
    "kind \<noteq> VIRTIO_PCI_CAP_PCI_CFG \<Longrightarrow> snd (note_region kind bar_num off ?o v b3) = b'"
    using assms(1) r by (auto simp: scan_cap_def split: if_splits prod.splits)
  have nr: "note_region kind bar_num off ?o v b3 =
      (fst (note_region kind bar_num off ?o v b3), b')" if "kind \<noteq> VIRTIO_PCI_CAP_PCI_CFG"
    using v'(2) [OF that] by (metis prod.collapse)
  have K: "of_kind c cs k cap \<longleftrightarrow> k = kind" for k using assms(2) k1 by (auto simp: of_kind_def)
  have N: "note_region kind bar_num off ?o v b3 = (w, b') \<Longrightarrow>
      v_notify_off_mult w = (if kind = VIRTIO_PCI_CAP_NOTIFY_CFG then cs (?o + VIRTIO_CAP_OFF_NOTIFY_MULT) else v_notify_off_mult v)
    \<and> v_modern_mode w = (kind = VIRTIO_PCI_CAP_COMMON_CFG \<or> v_modern_mode v)
    \<and> v_common_cfg_base w = v_common_cfg_base v \<and> v_notify_cfg_base w = v_notify_cfg_base v
    \<and> v_isr_cfg_base w = v_isr_cfg_base v \<and> v_device_cfg_base w = v_device_cfg_base v
    \<and> v_use_pci_cfg w = v_use_pci_cfg v" for w
    by (auto simp: note_region_def split: if_splits prod.splits dest: m)
  show ?thesis
  proof (cases "kind = VIRTIO_PCI_CAP_PCI_CFG")
    case True
    then show ?thesis using v'(1) assms(3) by (simp add: found_def region_snoc multiplier_snoc last_of_snoc K)
  next
    case False
    show ?thesis using N [OF nr [OF False]] v'(1) False assms(3) k2 k3
      by (auto simp: found_def region_snoc multiplier_snoc last_of_snoc K place_region_def Let_def)
  qed
qed

lemma scan_caps_extends: "scan_caps c bars g caps v b = (v', b') \<Longrightarrow> bus_extends b b'"
proof (induction c bars g caps v b arbitrary: v' b' rule: scan_caps.induct)
  case (2 c bars guard cap caps v b)
  then show ?case
    by (auto split: if_splits prod.splits dest!: scan_cap_extends intro: extends_trans)
qed simp

lemma scan_caps_found:
  assumes "scan_caps c bars guard caps v b = (v', b')" "found c bars cs done v" "length done = guard"
    and "answers_from cs n b'" "n \<le> length (bus_log b)"
  shows "found c bars cs (done @ take (32 - guard) caps) v'"
  using assms
proof (induction c bars guard caps v b arbitrary: "done" v' b' rule: scan_caps.induct)
  case (2 c bars guard cap caps v b)
  show ?case
  proof (cases "guard < 32")
    case False
    then show ?thesis using 2 by simp
  next
    case g: True
    then have tk: "take (32 - guard) (cap # caps) = cap # take (32 - Suc guard) caps" by (simp add: take_Cons')
    show ?thesis
    proof (cases "cap_Type cap = PCI_CAPABILITYID_VENDOR c")
      case False
      then show ?thesis
        using 2(1) [OF g False _ found_other [OF 2(4) False], of v' b'] 2(3,5,6,7) g by (simp add: tk)
    next
      case True
      obtain w b1 where s: "scan_cap c bars (cap_CapOffset cap) v b = (w, b1)" by fastforce
      then have rest: "scan_caps c bars (Suc guard) caps w b1 = (v', b')" using 2(3) g True by simp
      have a: "answers_from cs n b1" by (rule answers_from_earlier [OF 2(6) scan_caps_extends [OF rest]])
      have f: "found c bars cs (done @ [cap]) w" by (rule scan_cap_found [OF s True 2(4) a 2(7)])
      have "n \<le> length (bus_log b1)" using scan_cap_extends [OF s] 2(7) by (auto simp: bus_extends_def)
      then show ?thesis using 2(2) [OF g _ refl s [symmetric] rest f _ 2(6)] True 2(5) by (simp add: tk)
    qed
  qed
qed simp

end
