(* ===== verification/Device_Init_Correct.thy ===== *)
theory Device_Init_Correct
  imports Device_Init Pci_Probe_Correct Gpu_Driver_Correct
begin

text \<open>
  The VirtIO initialisation: what the device is told (\<open>tells\<close>: the register writes, in order), what the
  queues look like when it succeeds, and what is left in the kernel's books when it fails.
\<close>

section \<open>What the device is told\<close>

text \<open>The stores of a log, as register and value.\<close>

fun store_of :: "bus_op \<Rightarrow> (u32 \<times> u32) list" where
  "store_of (Store8 a v) = [(a, ucast v)]"
| "store_of (Store16 a v) = [(a, ucast v)]"
| "store_of (Store32 a v) = [(a, v)]"
| "store_of _ = []"

definition stores :: "bus_op list \<Rightarrow> (u32 \<times> u32) list" where
  "stores l = concat (map store_of l)"

definition tells :: "vio \<Rightarrow> bus \<Rightarrow> (u32 \<times> u32) list \<Rightarrow> bus \<Rightarrow> bool" where
  "tells v b ws b' \<longleftrightarrow> bus_extends b b'
     \<and> stores (bus_log b') = stores (bus_log b) @ map (\<lambda>(r, x). (v_common_cfg_base v + r, x)) ws"

lemma tells_refl: "tells v b [] b"
  by (simp add: tells_def)

lemma tells_trans: "tells v a ws b \<Longrightarrow> tells v b xs d \<Longrightarrow> tells v a (ws @ xs) d"
  by (auto simp: tells_def intro: extends_trans)

lemma tells_write:
  assumes "\<not> v_use_pci_cfg v"
  shows "tells v b [(r, ucast x8)] (vio_w8 v r x8 b)" "tells v b [(r, ucast x16)] (vio_w16 v r x16 b)"
    "tells v b [(r, x32)] (vio_w32 v r x32 b)"
  using assms by (simp_all add: tells_def vio_defs mmio_defs bus_do_def stores_def bus_extends_def)

lemma tells_read:
  assumes "\<not> v_use_pci_cfg v"
  shows "vio_r8 v r b = (x8, b') \<Longrightarrow> tells v b [] b'" "vio_r16 v r b = (x16, b') \<Longrightarrow> tells v b [] b'"
    "vio_r32 v r b = (x32, b') \<Longrightarrow> tells v b [] b'"
  using assms by (auto simp: tells_def vio_defs mmio_defs bus_ask_def bus_do_def stores_def bus_extends_def)

lemma await_reset_tells:
  "\<not> v_use_pci_cfg v \<Longrightarrow> tells v b [] (await_reset n v b)"
proof (induction n arbitrary: b)
  case (Suc n)
  obtain rst b1 where r: "vio_r8 v VIRTIO_PCI_COMMON_STATUS b = (rst, b1)" by fastforce
  show ?case using tells_read(1) [OF Suc.prems r] tells_trans [OF tells_read(1) [OF Suc.prems r] Suc.IH [OF Suc.prems]] r
    by simp
qed (simp add: tells_refl)

lemma reset_device_tells:
  assumes m: "\<not> v_use_pci_cfg v"
  shows "tells v b [(VIRTIO_PCI_COMMON_STATUS, 0), (VIRTIO_PCI_COMMON_STATUS, 1), (VIRTIO_PCI_COMMON_STATUS, 3)] (reset_device v b)"
proof -
  define b1 where "b1 = await_reset 1000 v (vio_w8 v VIRTIO_PCI_COMMON_STATUS 0 b)"
  have 1: "tells v b [(VIRTIO_PCI_COMMON_STATUS, 0)] b1"
    using tells_trans [OF tells_write(1) [OF m, of b VIRTIO_PCI_COMMON_STATUS 0] await_reset_tells [OF m, of _ 1000]]
    by (simp add: b1_def)
  define b2 where "b2 = vio_w8 v VIRTIO_PCI_COMMON_STATUS VIRTIO_STATUS_ACKNOWLEDGE b1"
  obtain ack b3 where r: "vio_r8 v VIRTIO_PCI_COMMON_STATUS b2 = (ack, b3)" by fastforce
  have 3: "tells v b [(VIRTIO_PCI_COMMON_STATUS, 0), (VIRTIO_PCI_COMMON_STATUS, 1)] b3"
    using tells_trans [OF tells_trans [OF 1 tells_write(1) [OF m, of b1 VIRTIO_PCI_COMMON_STATUS 1]] tells_read(1) [OF m r [unfolded b2_def]]]
    by simp
  define b4 where "b4 = vio_w8 v VIRTIO_PCI_COMMON_STATUS (VIRTIO_STATUS_ACKNOWLEDGE OR VIRTIO_STATUS_DRIVER) b3"
  obtain drv b5 where s: "vio_r8 v VIRTIO_PCI_COMMON_STATUS b4 = (drv, b5)" by fastforce
  have "tells v b [(VIRTIO_PCI_COMMON_STATUS, 0), (VIRTIO_PCI_COMMON_STATUS, 1), (VIRTIO_PCI_COMMON_STATUS, 3)] b5"
    using tells_trans [OF tells_trans [OF 3 tells_write(1) [OF m, of b3 VIRTIO_PCI_COMMON_STATUS "1 OR 2"]] tells_read(1) [OF m s [unfolded b4_def]]]
    by simp
  moreover have "reset_device v b = b5"
    using r s by (simp add: reset_device_def Let_def b1_def [symmetric] b2_def [symmetric] b4_def)
  ultimately show ?thesis by simp
qed

text \<open>The answer the device gave to the access at position \<open>k\<close>.\<close>

definition answered :: "bus \<Rightarrow> nat \<Rightarrow> bus_op \<Rightarrow> u32 \<Rightarrow> bool" where
  "answered b k p x \<longleftrightarrow> k < length (bus_log b) \<and> bus_log b ! k = p \<and> bus_answer b k = x"

lemma answered_later: "answered b k p x \<Longrightarrow> bus_extends b b' \<Longrightarrow> answered b' k p x"
  by (auto simp: answered_def bus_extends_def nth_append)

lemma ask_answered: "bus_ask p b = (x, b') \<Longrightarrow> answered b' (length (bus_log b)) p x"
  by (auto simp: answered_def bus_ask_def bus_do_def)

lemma tells_extends: "tells v b ws b' \<Longrightarrow> bus_extends b b'"
  by (simp add: tells_def)

lemma read_features_tells:
  assumes m: "\<not> v_use_pci_cfg v" and r: "read_features v b = ((lo, hi), b')"
  shows "tells v b [(VIRTIO_PCI_COMMON_DFSELECT, 0), (VIRTIO_PCI_COMMON_DFSELECT, 1)] b'
    \<and> (\<exists>k x. answered b' k (Load32 (v_common_cfg_base v + VIRTIO_PCI_COMMON_DF)) x \<and> lo = x AND VIRTIO_DEVICE_FEATURES_MASK)
    \<and> (\<exists>k x. answered b' k (Load32 (v_common_cfg_base v + VIRTIO_PCI_COMMON_DF)) x \<and> hi = x AND 1)"
proof -
  let ?df = "Load32 (v_common_cfg_base v + VIRTIO_PCI_COMMON_DF)"
  define b1 where "b1 = vio_w32 v VIRTIO_PCI_COMMON_DFSELECT 0 b"
  obtain x b2 where x: "vio_r32 v VIRTIO_PCI_COMMON_DF b1 = (x, b2)" by fastforce
  define b3 where "b3 = vio_w32 v VIRTIO_PCI_COMMON_DFSELECT 1 b2"
  obtain y b4 where y: "vio_r32 v VIRTIO_PCI_COMMON_DF b3 = (y, b4)" by fastforce
  have b': "b' = b4" "lo = x AND VIRTIO_DEVICE_FEATURES_MASK" "hi = y AND 1"
    using r x y by (simp_all add: read_features_def Let_def b1_def [symmetric] b3_def [symmetric])
  have t2: "tells v b [(VIRTIO_PCI_COMMON_DFSELECT, 0)] b2"
    using tells_trans [OF tells_write(3) [OF m, of b VIRTIO_PCI_COMMON_DFSELECT 0] tells_read(3) [OF m x [unfolded b1_def]]] by simp
  have t4: "tells v b2 [(VIRTIO_PCI_COMMON_DFSELECT, 1)] b4"
    using tells_trans [OF tells_write(3) [OF m, of b2 VIRTIO_PCI_COMMON_DFSELECT 1] tells_read(3) [OF m y [unfolded b3_def]]] by simp
  have a: "answered b2 (length (bus_log b1)) ?df x" "answered b4 (length (bus_log b3)) ?df y"
    using x y m by (simp_all add: vio_r32_def mmio_read32_def ask_answered)
  show ?thesis using tells_trans [OF t2 t4] answered_later [OF a(1) tells_extends [OF t4]] a(2) b' by auto
qed

lemma write_features_tells:
  assumes m: "\<not> v_use_pci_cfg v"
  shows "tells v b [(VIRTIO_PCI_COMMON_DFSELECTG, 0), (VIRTIO_PCI_COMMON_DFG, lo),
    (VIRTIO_PCI_COMMON_DFSELECTG, 1), (VIRTIO_PCI_COMMON_DFG, hi)] (write_features v lo hi b)"
  using tells_trans [OF tells_trans [OF tells_trans [OF tells_write(3) [OF m] tells_write(3) [OF m]] tells_write(3) [OF m]] tells_write(3) [OF m],
    of b VIRTIO_PCI_COMMON_DFSELECTG 0 VIRTIO_PCI_COMMON_DFG lo VIRTIO_PCI_COMMON_DFSELECTG 1 VIRTIO_PCI_COMMON_DFG hi]
  by (simp add: write_features_def Let_def)

lemma confirm_features_tells:
  assumes m: "\<not> v_use_pci_cfg v" and r: "confirm_features v b = (kept, b')"
  shows "tells v b ((VIRTIO_PCI_COMMON_STATUS, 11) # (if kept then [] else [(VIRTIO_PCI_COMMON_STATUS, 128)])) b'
    \<and> (kept \<longrightarrow> (\<exists>k x. answered b' k (Load8 (v_common_cfg_base v + VIRTIO_PCI_COMMON_STATUS)) x
         \<and> ucast x AND VIRTIO_STATUS_FEATURES_OK \<noteq> 0))"
proof -
  define b1 where "b1 = vio_w8 v VIRTIO_PCI_COMMON_STATUS 11 b"
  obtain s b2 where s: "vio_r8 v VIRTIO_PCI_COMMON_STATUS b1 = (s, b2)" by fastforce
  have t: "tells v b [(VIRTIO_PCI_COMMON_STATUS, 11)] b2"
    using tells_trans [OF tells_write(1) [OF m] tells_read(1) [OF m s [unfolded b1_def]]] by simp
  obtain x where x: "answered b2 (length (bus_log b1)) (Load8 (v_common_cfg_base v + VIRTIO_PCI_COMMON_STATUS)) x" "s = ucast x"
    using s m by (auto simp: vio_r8_def mmio_read8_def split: prod.splits dest: ask_answered)
  show ?thesis
  proof (cases "s AND VIRTIO_STATUS_FEATURES_OK = 0")
    case True
    then have "kept = False" "b' = vio_w8 v VIRTIO_PCI_COMMON_STATUS VIRTIO_STATUS_FAILED b2"
      using r s by (auto simp: confirm_features_def Let_def b1_def [symmetric])
    then show ?thesis using tells_trans [OF t tells_write(1) [OF m, of b2 VIRTIO_PCI_COMMON_STATUS 128]] by simp
  next
    case False
    then have "kept = True" "b' = b2"
      using r s by (auto simp: confirm_features_def Let_def b1_def [symmetric])
    then show ?thesis using t x False by auto
  qed
qed

text \<open>The ring registers of a queue.\<close>

definition ring_writes :: "virtqueue \<Rightarrow> (u32 \<times> u32) list" where
  "ring_writes vq = [(VIRTIO_PCI_COMMON_Q_DESCLO, vq_dma_phys vq), (VIRTIO_PCI_COMMON_Q_DESCHI, 0),
     (VIRTIO_PCI_COMMON_Q_AVAILLO, vq_avail_phys vq), (VIRTIO_PCI_COMMON_Q_AVAILHI, 0),
     (VIRTIO_PCI_COMMON_Q_USEDLO, vq_used_phys vq), (VIRTIO_PCI_COMMON_Q_USEDHI, 0), (VIRTIO_PCI_COMMON_Q_ENABLE, 1)]"

lemma ring_registers_tell:
  assumes m: "\<not> v_use_pci_cfg v"
  shows "tells v b (ring_writes vq) (write_ring_registers v vq b)"
proof -
  note w = tells_write(3) [OF m]
  note t = tells_trans [OF tells_trans [OF tells_trans [OF tells_trans [OF tells_trans [OF tells_trans [OF w w] w] w] w] w]
      tells_write(2) [OF m]]
  show ?thesis
    using t [of b VIRTIO_PCI_COMMON_Q_DESCLO "vq_dma_phys vq" VIRTIO_PCI_COMMON_Q_DESCHI 0 VIRTIO_PCI_COMMON_Q_AVAILLO
      "vq_avail_phys vq" VIRTIO_PCI_COMMON_Q_AVAILHI 0 VIRTIO_PCI_COMMON_Q_USEDLO "vq_used_phys vq" VIRTIO_PCI_COMMON_Q_USEDHI 0
      VIRTIO_PCI_COMMON_Q_ENABLE 1]
    by (simp add: write_ring_registers_def ring_writes_def Let_def)
qed

lemma enable_queue_tells:
  assumes m: "\<not> v_use_pci_cfg v" and r: "enable_queue v q vq b = (vq', b')"
  shows "tells v b (ring_writes vq') b'"
proof -
  define b1 where "b1 = write_ring_registers v (place_rings q vq) b"
  obtain x b2 where x: "vio_r16 v VIRTIO_PCI_COMMON_Q_NOFF b1 = (x, b2)" by fastforce
  have "b' = b2" "ring_writes vq' = ring_writes (place_rings q vq)"
    using r x by (auto simp: enable_queue_def place_notify_def Let_def b1_def [symmetric] ring_writes_def)
  then show ?thesis
    using tells_trans [OF ring_registers_tell [OF m] tells_read(2) [OF m x [unfolded b1_def]]] by simp
qed

section \<open>The books\<close>

text \<open>
  The kernel state \<open>ex\<close> holds, besides what \<open>ex0\<close> held, the allocations \<open>L\<close>, the DMA mappings \<open>D\<close> and the
  system objects \<open>S\<close>.
\<close>

definition holds :: "exec \<Rightarrow> u32 multiset \<Rightarrow> u32 multiset \<Rightarrow> u32 multiset \<Rightarrow> exec \<Rightarrow> bool" where
  "holds ex0 L D S ex \<longleftrightarrow> mset (ex_live ex) = mset (ex_live ex0) + L \<and> mset (ex_dma ex) = mset (ex_dma ex0) + D
     \<and> mset (ex_objs ex) = mset (ex_objs ex0) + S \<and> ex_signals ex = ex_signals ex0"

lemma holds_refl: "holds ex {#} {#} {#} ex"
  by (simp add: holds_def)

lemma holds_holdings: "holdings a = holdings b \<Longrightarrow> holds ex0 L D S a = holds ex0 L D S b"
  by (simp add: holds_def holdings_def)

lemma holds_alloc:
  "holds ex0 L D S ex \<Longrightarrow> AllocVecTags ex = (p, ex') \<Longrightarrow> holds ex0 (if p = 0 then L else add_mset p L) D S ex'"
  by (auto simp: holds_def AllocVecTags_def Let_def)

lemma holds_dma:
  "holds ex0 L D S ex \<Longrightarrow> StartDMA p ex = (n, ex') \<Longrightarrow> holds ex0 L (if n = 0 then D else add_mset p D) S ex'"
  by (auto simp: holds_def StartDMA_def Let_def)

lemma holds_obj:
  "holds ex0 L D S ex \<Longrightarrow> AllocSysObject ex = (p, ex') \<Longrightarrow> holds ex0 L D (if p = 0 then S else add_mset p S) ex'"
  by (auto simp: holds_def AllocSysObject_def Let_def)

lemma holds_free: "holds ex0 (add_mset p L) D S ex \<Longrightarrow> holds ex0 L D S (FreeVec p ex)"
  by (simp add: holds_def FreeVec_def)

lemma holds_end_dma: "holds ex0 L (add_mset p D) S ex \<Longrightarrow> holds ex0 L D S (EndDMA p ex)"
  by (simp add: holds_def EndDMA_def)

lemma holds_free_obj: "holds ex0 L D (add_mset p S) ex \<Longrightarrow> holds ex0 L D S (FreeSysObject p ex)"
  by (simp add: holds_def FreeSysObject_def)

lemma dma_alloc_holds:
  assumes "holds ex0 L D S ex" "chip_dma_alloc ex = (r, ex')"
  shows "case r of None \<Rightarrow> holds ex0 L D S ex'
    | Some (mem, phys) \<Rightarrow> mem \<noteq> 0 \<and> phys = ex_phys ex mem \<and> holds ex0 (add_mset mem L) (add_mset mem D) S ex'"
proof -
  obtain mem e1 where 1: "AllocVecTags ex = (mem, e1)" by fastforce
  obtain n e2 where 2: "StartDMA mem e1 = (n, e2)" by fastforce
  obtain l e3 where 3: "AllocSysObject e2 = (l, e3)" by fastforce
  have p: "ex_phys e3 = ex_phys ex" using 1 2 3 by (auto simp: exec_defs Let_def)
  note h1 = holds_alloc [OF assms(1) 1]
  note h2 = holds_dma [OF h1 2]
  note h3 = holds_obj [OF h2 3]
  consider "mem = 0" | "mem \<noteq> 0" "n = 0" | "mem \<noteq> 0" "n \<noteq> 0" "l = 0" | "mem \<noteq> 0" "n \<noteq> 0" "l \<noteq> 0" by blast
  then show ?thesis
  proof cases
    case c1: 1
    then show ?thesis using assms(2) 1 h1 by (auto simp: chip_dma_alloc_def)
  next
    case c2: 2
    then have "r = None" "ex' = FreeVec mem e2" using assms(2) 1 2 by (auto simp: chip_dma_alloc_def)
    then show ?thesis using h2 c2 by (simp add: holds_free)
  next
    case c3: 3
    then have "r = None" "ex' = FreeVec mem (EndDMA mem e3)" using assms(2) 1 2 3 by (auto simp: chip_dma_alloc_def)
    then show ?thesis using h3 c3 by (simp add: holds_free holds_end_dma)
  next
    case 4
    then have "r = Some (mem, ex_phys ex mem)" "ex' = FreeSysObject l e3" using assms(2) 1 2 3 p by (auto simp: chip_dma_alloc_def)
    then show ?thesis using h3 4 by (simp add: holds_free_obj)
  qed
qed

lemma dma_free_holds:
  "holds ex0 (if mem = 0 then L else add_mset mem L) (if mem = 0 then D else add_mset mem D) S ex
   \<Longrightarrow> holds ex0 L D S (chip_dma_free mem ex)"
  by (auto simp: chip_dma_free_def intro!: holds_free holds_end_dma split: if_splits)

section \<open>A queue just set up\<close>

definition queue_blocks :: "virtqueue \<Rightarrow> u32 list" where
  "queue_blocks vq = [vq_itables_ptr vq, vq_cookies_ptr vq, vq_vq_ptr vq, vq_mem_block vq]"

text \<open>Empty, in host byte order reversed, without indirect tables.\<close>

definition empty_queue :: "u16 \<Rightarrow> virtqueue \<Rightarrow> bool" where
  "empty_queue q vq \<longleftrightarrow> vq_num vq = ucast q \<and> 0 \<notin> set (queue_blocks vq)
     \<and> set (vq_indirect_tables vq) \<subseteq> {0} \<and> vq_avail_idx vq = 0 \<and> vq_used_idx vq = 0 \<and> vq_last_used_idx vq = 0
     \<and> vq_mem_size vq = snd (snd (vring_layout (ucast q)))
     \<and> (unat q \<le> 32768 \<longrightarrow> vq_inv vq (map of_nat [0..<unat q]) [])"

text \<open>Handed to the device: mapped, with the three ring addresses inside the mapped block.\<close>

definition live_queue :: "u16 \<Rightarrow> virtqueue \<Rightarrow> bool" where
  "live_queue q vq \<longleftrightarrow> empty_queue q vq \<and> q \<noteq> 0 \<and> vq_dma_entries vq \<noteq> 0
     \<and> vq_modern vq \<and> \<not> vq_use_event_idx vq \<and> \<not> vq_use_indirect vq
     \<and> vq_avail_phys vq = vq_dma_phys vq + fst (vring_layout (ucast q))
     \<and> vq_used_phys vq = vq_dma_phys vq + fst (snd (vring_layout (ucast q)))"

lemma allocate_fresh:
  fixes q :: u16
  assumes "q \<noteq> 0" "holds ex0 L D S ex"
  shows "\<exists>r ex'. VirtQueue_Allocate ex qi (ucast q) = Some (r, ex') \<and>
    (case r of None \<Rightarrow> holds ex0 L D S ex'
     | Some vq \<Rightarrow> empty_queue q vq \<and> vq_dma_entries vq = 0 \<and> holds ex0 (mset (queue_blocks vq) + L) D S ex')"
proof -
  have q: "0 < unat (ucast q :: u32)" "unat (ucast q :: u32) = unat q" using assms(1) by (simp_all add: unat_gt_0)
  have "free_path (map (\<lambda>j. zero_desc\<lparr>d_next := if Suc j < unat q then of_nat (Suc j) else 0\<rparr>) [0..<unat q]) 0
      (map of_nat [0..<unat q]) 0" if "unat q \<le> 32768"
    using init_free_path [of "unat q" 0] that q by simp
  then have path: "unat q \<le> 32768 \<longrightarrow> Ex (free_path (map (\<lambda>j. zero_desc\<lparr>d_next := if Suc j < unat q then of_nat (Suc j) else 0\<rparr>) [0..<unat q]) 0
      (map of_nat [0..<unat q]))" by blast
  have chain: "init_free_chain (ucast q) (replicate (unat q) zero_desc) =
      Some (map (\<lambda>j. zero_desc\<lparr>d_next := if Suc j < unat q then of_nat (Suc j) else 0\<rparr>) [0..<unat q])"
    using init_free_chain_ok [OF q(1)] unfolding q(2) .
  obtain p1 e1 where 1: "AllocVecTags ex = (p1, e1)" by force
  obtain p2 e2 where 2: "AllocVecTags e1 = (p2, e2)" by force
  obtain p3 e3 where 3: "AllocVecTags e2 = (p3, e3)" by force
  obtain p4 e4 where 4: "AllocVecTags e3 = (p4, e4)" by force
  obtain a b c where l: "vring_layout (ucast q) = (a, b, c)" by (cases "vring_layout (ucast q)") auto
  note h1 = holds_alloc [OF assms(2) 1]
  note h2 = holds_alloc [OF h1 2]
  note h3 = holds_alloc [OF h2 3]
  note h4 = holds_alloc [OF h3 4]
  consider "p1 = 0" | "p1 \<noteq> 0" "p2 = 0" | "p1 \<noteq> 0" "p2 \<noteq> 0" "p3 = 0" | "p1 \<noteq> 0" "p2 \<noteq> 0" "p3 \<noteq> 0" "p4 = 0"
    | "p1 \<noteq> 0" "p2 \<noteq> 0" "p3 \<noteq> 0" "p4 \<noteq> 0" by blast
  then show ?thesis
  proof cases
    case 5
    show ?thesis using 5 1 2 3 4 l q path h4 distinct_of_nat16 [of "unat q"]
      by (simp add: VirtQueue_Allocate_def chain empty_queue_def queue_blocks_def vq_inv_def vq_wf_def add_mset_commute)
  qed (use 1 2 3 4 l h1 h2 h3 h4 in \<open>simp_all add: VirtQueue_Allocate_def holds_free add_mset_commute\<close>)
qed

lemma free_holds:
  assumes "holds ex0 (mset (queue_blocks vq) + L) (if vq_dma_entries vq = 0 then D else add_mset (vq_mem_block vq) D) S ex"
    and "0 \<notin> set (queue_blocks vq)"
  shows "holds ex0 L D S (VirtQueue_Free ex (Some vq))"
proof -
  define e1 where "e1 = (if 0 < vq_dma_entries vq \<and> vq_mem_block vq \<noteq> 0 then EndDMA (vq_mem_block vq) ex else ex)"
  have "holds ex0 (mset (queue_blocks vq) + L) D S e1"
    using assms by (auto simp: e1_def queue_blocks_def word_gt_0 intro: holds_end_dma)
  then have "holds ex0 L D S (FreeVec (vq_vq_ptr vq) (FreeVec (vq_mem_block vq) (FreeVec (vq_cookies_ptr vq) (FreeVec (vq_itables_ptr vq) e1))))"
    by (intro holds_free) (simp add: queue_blocks_def add_mset_commute)
  then show ?thesis using assms(2) by (simp add: VirtQueue_Free_def Let_def e1_def queue_blocks_def)
qed

lemma map_rings_result:
  assumes "holds ex0 (mset (queue_blocks vq) + L) D S ex" "0 \<notin> set (queue_blocks vq)" "vq_dma_entries vq = 0"
    and "map_rings vq ex = (r, ex')"
  shows "case r of None \<Rightarrow> holds ex0 L D S ex'
    | Some vq' \<Rightarrow> (\<exists>n. n \<noteq> 0 \<and> vq' = vq\<lparr>vq_dma_phys := ex_phys ex (vq_mem_block vq), vq_dma_entries := n\<rparr>)
        \<and> holds ex0 (mset (queue_blocks vq) + L) (add_mset (vq_mem_block vq) D) S ex'"
proof -
  obtain n e1 where 1: "StartDMA (vq_mem_block vq) ex = (n, e1)" by fastforce
  obtain l e2 where 2: "AllocSysObject e1 = (l, e2)" by fastforce
  have p: "ex_phys e2 = ex_phys ex" using 1 2 by (auto simp: exec_defs Let_def)
  note h1 = holds_dma [OF assms(1) 1]
  note h2 = holds_obj [OF h1 2]
  consider "n = 0" | "n \<noteq> 0" "l = 0" | "n \<noteq> 0" "l \<noteq> 0" by blast
  then show ?thesis
  proof cases
    case c1: 1
    then have "r = None" "ex' = VirtQueue_Free e1 (Some vq)" using assms(4) 1 by (auto simp: map_rings_def)
    then show ?thesis using free_holds [of ex0 vq L D S e1] h1 c1 assms(2,3) by simp
  next
    case c2: 2
    then have "r = None" "ex' = VirtQueue_Free (EndDMA (vq_mem_block vq) e2) (Some vq)"
      using assms(4) 1 2 by (auto simp: map_rings_def)
    then show ?thesis using free_holds [of ex0 vq L D S "EndDMA (vq_mem_block vq) e2"] h2 c2 assms(2,3) holds_end_dma by simp
  next
    case 3
    then have "r = Some (vq\<lparr>vq_dma_phys := ex_phys ex (vq_mem_block vq), vq_dma_entries := n\<rparr>)" "ex' = FreeSysObject l e2"
      using assms(4) 1 2 p by (auto simp: map_rings_def)
    then show ?thesis using h2 3 holds_free_obj by auto
  qed
qed

lemma inv_upd:
  "vq_inv (vq\<lparr>vq_dma_phys := a, vq_dma_entries := n\<rparr>) fs [] = vq_inv vq fs []"
  "vq_inv (vq\<lparr>vq_avail_phys := a, vq_used_phys := b\<rparr>) fs [] = vq_inv vq fs []"
  "vq_inv (vq\<lparr>vq_notify_addr := a, vq_notify_bar_off := b, vq_modern := m, vq_use_event_idx := e,
       vq_last_kick_avail_idx := k, vq_use_indirect := i\<rparr>) fs [] = vq_inv vq fs []"
  by (simp_all add: vq_inv_def vq_wf_def)

lemma empty_queue_upd:
  assumes "empty_queue q vq"
  shows "empty_queue q (vq\<lparr>vq_dma_phys := a, vq_dma_entries := n\<rparr>)"
    "empty_queue q (vq\<lparr>vq_avail_phys := a, vq_used_phys := b\<rparr>)"
    "empty_queue q (vq\<lparr>vq_notify_addr := a, vq_notify_bar_off := b, vq_modern := m, vq_use_event_idx := e,
       vq_last_kick_avail_idx := k, vq_use_indirect := i\<rparr>)"
  using assms by (simp_all add: empty_queue_def queue_blocks_def inv_upd)

lemma enable_queue_live:
  assumes "empty_queue q vq" "q \<noteq> 0" "vq_dma_entries vq \<noteq> 0" "enable_queue v q vq b = (vq', b')"
  shows "live_queue q vq' \<and> queue_blocks vq' = queue_blocks vq"
proof -
  obtain x b2 where x: "vio_r16 v VIRTIO_PCI_COMMON_Q_NOFF (write_ring_registers v (place_rings q vq) b) = (x, b2)" by fastforce
  have "vq' = (place_rings q vq)\<lparr>vq_notify_addr := v_notify_cfg_base v + notify_delta v x,
      vq_notify_bar_off := v_notify_cfg_off v + notify_delta v x, vq_modern := True, vq_use_event_idx := False,
      vq_last_kick_avail_idx := 0xFFFF, vq_use_indirect := False\<rparr>"
    using assms(4) x by (simp add: enable_queue_def place_notify_def Let_def)
  moreover have "empty_queue q (place_rings q vq)" using empty_queue_upd(2) [OF assms(1)] by (simp add: place_rings_def Let_def)
  ultimately show ?thesis using empty_queue_upd(3) [of q "place_rings q vq"] assms(2,3)
    by (simp add: live_queue_def place_rings_def Let_def vring_layout_def queue_blocks_def)
qed

section \<open>The queues and the whole sequence\<close>

definition asked_size :: "vio \<Rightarrow> bus \<Rightarrow> u16 \<Rightarrow> bool" where
  "asked_size v b q \<longleftrightarrow> (\<exists>k x. answered b k (Load16 (v_common_cfg_base v + VIRTIO_PCI_COMMON_Q_SIZE)) x \<and> q = ucast x)"

lemma asked_size_later: "asked_size v b q \<Longrightarrow> bus_extends b b' \<Longrightarrow> asked_size v b' q"
  unfolding asked_size_def by (blast intro: answered_later)

lemma select_queue_result:
  assumes m: "\<not> v_use_pci_cfg (i_vio io)" and r: "select_queue idx io = (q, io')"
  shows "io' = io\<lparr>i_bus := i_bus io'\<rparr> \<and> tells (i_vio io) (i_bus io) [(VIRTIO_PCI_COMMON_Q_SELECT, ucast idx)] (i_bus io')
    \<and> asked_size (i_vio io) (i_bus io') q"
proof -
  define b1 where "b1 = vio_w16 (i_vio io) VIRTIO_PCI_COMMON_Q_SELECT idx (i_bus io)"
  obtain x b2 where x: "vio_r16 (i_vio io) VIRTIO_PCI_COMMON_Q_SIZE b1 = (x, b2)" by fastforce
  have e: "q = x" "io' = io\<lparr>i_bus := b2\<rparr>" using r x by (auto simp: select_queue_def on_bus_def b1_def)
  have "asked_size (i_vio io) b2 x" using x m
    by (auto simp: asked_size_def vio_r16_def mmio_read16_def split: prod.splits dest: ask_answered)
  then show ?thesis
    using tells_trans [OF tells_write(2) [OF m] tells_read(2) [OF m x [unfolded b1_def]]] e by simp
qed

lemma setup_queue_result:
  assumes m: "\<not> v_use_pci_cfg (i_vio io)" and h: "holds ex0 L D S (i_exec io)"
  shows "\<exists>r io' ws. setup_queue idx io = Some (r, io') \<and> io' = io\<lparr>i_bus := i_bus io', i_exec := i_exec io'\<rparr>
    \<and> tells (i_vio io) (i_bus io) ((VIRTIO_PCI_COMMON_Q_SELECT, ucast idx) # ws) (i_bus io')
    \<and> (case r of None \<Rightarrow> ws = [] \<and> holds ex0 L D S (i_exec io')
       | Some vq \<Rightarrow> ws = ring_writes vq \<and> (\<exists>q. live_queue q vq \<and> asked_size (i_vio io) (i_bus io') q)
           \<and> holds ex0 (mset (queue_blocks vq) + L) (add_mset (vq_mem_block vq) D) S (i_exec io'))"
proof -
  let ?v = "i_vio io"
  obtain q io1 where s1: "select_queue idx io = (q, io1)" by fastforce
  define b1 where "b1 = i_bus io1"
  have io1: "io1 = io\<lparr>i_bus := b1\<rparr>" "tells ?v (i_bus io) [(VIRTIO_PCI_COMMON_Q_SELECT, ucast idx)] b1"
      "asked_size ?v b1 q" using select_queue_result [OF m s1] by (simp_all add: b1_def)
  note s = s1 [unfolded io1(1)]
  show ?thesis
  proof (cases "q = 0")
    case True
    then show ?thesis using s io1(2) h
      by (intro exI [of _ None] exI [of _ "io\<lparr>i_bus := b1\<rparr>"] exI [of _ "[]"]) (simp add: setup_queue_def)
  next
    case False
    obtain r ex where a: "VirtQueue_Allocate (i_exec io) (ucast idx) (ucast q) = Some (r, ex)"
      and ar: "case r of None \<Rightarrow> holds ex0 L D S ex | Some vq \<Rightarrow> empty_queue q vq \<and> vq_dma_entries vq = 0
         \<and> holds ex0 (mset (queue_blocks vq) + L) D S ex" using allocate_fresh [OF False h] by blast
    show ?thesis
    proof (cases r)
      case None
      then show ?thesis using s a ar False io1(2)
        by (intro exI [of _ None] exI [of _ "io\<lparr>i_bus := b1, i_exec := ex\<rparr>"] exI [of _ "[]"]) (simp add: setup_queue_def)
    next
      case (Some vq)
      obtain r2 ex2 where mr: "map_rings vq ex = (r2, ex2)" by fastforce
      have vq: "empty_queue q vq" "vq_dma_entries vq = 0" "0 \<notin> set (queue_blocks vq)"
          "holds ex0 (mset (queue_blocks vq) + L) D S ex" using ar Some by (auto simp: empty_queue_def)
      note res = map_rings_result [OF vq(4,3,2) mr]
      show ?thesis
      proof (cases r2)
        case None
        then show ?thesis using s a mr Some False io1(2) res
          by (intro exI [of _ None] exI [of _ "io\<lparr>i_bus := b1, i_exec := ex2\<rparr>"] exI [of _ "[]"]) (simp add: setup_queue_def)
      next
        case r2: (Some vq2)
        obtain vq3 b3 where e: "enable_queue ?v q vq2 b1 = (vq3, b3)" by fastforce
        have u: "empty_queue q vq2" "vq_dma_entries vq2 \<noteq> 0" "queue_blocks vq2 = queue_blocks vq" "vq_mem_block vq2 = vq_mem_block vq"
            "holds ex0 (mset (queue_blocks vq) + L) (add_mset (vq_mem_block vq) D) S ex2"
          using res r2 empty_queue_upd(1) [OF vq(1)] by (auto simp: queue_blocks_def)
        have l: "live_queue q vq3" "queue_blocks vq3 = queue_blocks vq"
          using enable_queue_live [OF u(1) False u(2) e] u(3) by simp_all
        then have b: "vq_mem_block vq3 = vq_mem_block vq" by (simp add: queue_blocks_def)
        note t = enable_queue_tells [OF m e]
        have "setup_queue idx io = Some (Some vq3, io\<lparr>i_bus := b3, i_exec := ex2\<rparr>)"
          using s a mr Some r2 e False by (simp add: setup_queue_def on_bus_def)
        moreover have "tells ?v (i_bus io) ((VIRTIO_PCI_COMMON_Q_SELECT, ucast idx) # ring_writes vq3) b3"
          using tells_trans [OF io1(2) t] by simp
        ultimately show ?thesis using l b u(5) asked_size_later [OF io1(3) tells_extends [OF t]]
          by (intro exI [of _ "Some vq3"] exI [of _ "io\<lparr>i_bus := b3, i_exec := ex2\<rparr>"] exI [of _ "ring_writes vq3"]) auto
      qed
    qed
  qed
qed

text \<open>The register writes up to FEATURES_OK, and the features they ask for.\<close>

definition handshake :: "u32 \<Rightarrow> u32 \<Rightarrow> (u32 \<times> u32) list" where
  "handshake lo hi = [(VIRTIO_PCI_COMMON_STATUS, 0), (VIRTIO_PCI_COMMON_STATUS, 1), (VIRTIO_PCI_COMMON_STATUS, 3),
     (VIRTIO_PCI_COMMON_DFSELECT, 0), (VIRTIO_PCI_COMMON_DFSELECT, 1),
     (VIRTIO_PCI_COMMON_DFSELECTG, 0), (VIRTIO_PCI_COMMON_DFG, lo), (VIRTIO_PCI_COMMON_DFSELECTG, 1), (VIRTIO_PCI_COMMON_DFG, hi),
     (VIRTIO_PCI_COMMON_STATUS, 11)]"

definition offered :: "vio \<Rightarrow> bus \<Rightarrow> u32 \<Rightarrow> u32 \<Rightarrow> bool" where
  "offered v b lo mask_bits \<longleftrightarrow>
     (\<exists>k x. answered b k (Load32 (v_common_cfg_base v + VIRTIO_PCI_COMMON_DF)) x \<and> lo = x AND mask_bits)"

definition features_kept :: "vio \<Rightarrow> bus \<Rightarrow> bool" where
  "features_kept v b \<longleftrightarrow> (\<exists>k x. answered b k (Load8 (v_common_cfg_base v + VIRTIO_PCI_COMMON_STATUS)) x
     \<and> (ucast x :: u8) AND VIRTIO_STATUS_FEATURES_OK \<noteq> 0)"

lemma bus_facts_later:
  "offered v b lo m \<Longrightarrow> bus_extends b b' \<Longrightarrow> offered v b' lo m"
  "features_kept v b \<Longrightarrow> bus_extends b b' \<Longrightarrow> features_kept v b'"
  unfolding offered_def features_kept_def by (blast intro: answered_later)+

text \<open>Steps 1 to 6.\<close>

definition greet :: "vio \<Rightarrow> bus \<Rightarrow> (u32 \<times> u32 \<times> bool) \<times> bus" where
  "greet v b = (let b = reset_device v b; ((lo, hi), b) = read_features v b; b = write_features v lo hi b;
     (kept, b) = confirm_features v b in ((lo, hi, kept), b))"

lemma greet_tells:
  assumes m: "\<not> v_use_pci_cfg v" and r: "greet v b = ((lo, hi, kept), b')"
  shows "tells v b (handshake lo hi @ (if kept then [] else [(VIRTIO_PCI_COMMON_STATUS, 128)])) b'
    \<and> offered v b' lo VIRTIO_DEVICE_FEATURES_MASK \<and> offered v b' hi 1 \<and> (kept \<longrightarrow> features_kept v b')"
proof -
  define b1 where "b1 = reset_device v b"
  obtain l h b2 where f: "read_features v b1 = ((l, h), b2)" by (metis surj_pair)
  define b3 where "b3 = write_features v l h b2"
  obtain k b4 where c: "confirm_features v b3 = (k, b4)" by fastforce
  have e: "l = lo" "h = hi" "k = kept" "b4 = b'"
    using r f c by (auto simp: greet_def Let_def b1_def [symmetric] b3_def [symmetric])
  note f2 = read_features_tells [OF m f, unfolded e, folded offered_def] and c2 = confirm_features_tells [OF m c, unfolded e, folded features_kept_def]
  have w: "tells v b2 [(VIRTIO_PCI_COMMON_DFSELECTG, 0), (VIRTIO_PCI_COMMON_DFG, lo),
      (VIRTIO_PCI_COMMON_DFSELECTG, 1), (VIRTIO_PCI_COMMON_DFG, hi)] b3"
    using write_features_tells [OF m, of b2 lo hi] by (simp add: b3_def e)
  note fin = tells_trans [OF w conjunct1 [OF c2]]
  have "tells v b (handshake lo hi @ (if kept then [] else [(VIRTIO_PCI_COMMON_STATUS, 128)])) b'"
    using tells_trans [OF tells_trans [OF reset_device_tells [OF m, of b, folded b1_def] conjunct1 [OF f2]] fin]
    by (simp add: handshake_def)
  then show ?thesis using f2 c2 bus_facts_later(1) [OF _ tells_extends [OF fin]] by blast
qed

lemma virtio_init_greets:
  "chip_virtio_init gs n =
     (let v = i_vio (g_io gs); ((lo, hi, kept), io) = on_bus (greet v) (g_io gs);
          gs = gs\<lparr>g_has_virgl := (lo AND VIRTIO_GPU_F_VIRGL \<noteq> 0), g_has_blob := (lo AND VIRTIO_GPU_F_RESOURCE_BLOB \<noteq> 0)\<rparr>
      in if \<not> kept then Some (False, gs\<lparr>g_io := io\<rparr>, n)
         else do {
           (ok, io) \<leftarrow> setup_ctrlq io;
           if \<not> ok then Some (False, gs\<lparr>g_io := io\<rparr>, n)
           else do {
             (cursor, io) \<leftarrow> setup_cursq io;
             let io = do_bus (vio_w8 v VIRTIO_PCI_COMMON_STATUS (VIRTIO_STATUS_ACKNOWLEDGE OR VIRTIO_STATUS_DRIVER
                          OR VIRTIO_STATUS_FEATURES_OK OR VIRTIO_STATUS_DRIVER_OK)) io;
             let io = snd (on_bus (vio_r8 v VIRTIO_PCI_COMMON_STATUS) io);
             Some (True, gs\<lparr>g_io := io\<rparr>, if cursor then 2 else 1) } })"
  by (simp add: chip_virtio_init_def greet_def on_bus_def do_bus_def Let_def split: prod.split)

definition cursor_writes :: "io \<Rightarrow> (u32 \<times> u32) list" where
  "cursor_writes io = (case i_cursq io of None \<Rightarrow> [] | Some cq \<Rightarrow> ring_writes cq)"

text \<open>The part of the driver state the initialisation may change.\<close>

definition init_frame :: "gpu \<Rightarrow> gpu \<Rightarrow> bool" where
  "init_frame gs gs' \<longleftrightarrow> (\<exists>a b bus ex c d. gs' = gs\<lparr>g_has_virgl := a, g_has_blob := b,
     g_io := (g_io gs)\<lparr>i_bus := bus, i_exec := ex, i_ctrlq := c, i_cursq := d\<rparr>\<rparr>)"

definition queue_held :: "virtqueue option \<Rightarrow> u32 multiset \<times> u32 multiset" where
  "queue_held q = (case q of None \<Rightarrow> ({#}, {#}) | Some vq \<Rightarrow> (mset (queue_blocks vq), {#vq_mem_block vq#}))"

definition queues_live :: "vio \<Rightarrow> io \<Rightarrow> bool" where
  "queues_live v io \<longleftrightarrow> (\<exists>vq q. i_ctrlq io = Some vq \<and> live_queue q vq \<and> asked_size v (i_bus io) q)
     \<and> (\<forall>cq. i_cursq io = Some cq \<longrightarrow> (\<exists>q. live_queue q cq \<and> asked_size v (i_bus io) q))"

text \<open>What a run did: the state it left, the features asked for, and the writes after the handshake.\<close>

definition init_outcome :: "gpu \<Rightarrow> exec \<Rightarrow> u32 multiset \<Rightarrow> u32 multiset \<Rightarrow> u32 multiset \<Rightarrow> bool \<Rightarrow> gpu \<Rightarrow> u32 \<Rightarrow> u32 \<Rightarrow> bool" where
  "init_outcome gs ex0 L D S ok gs' lo hi \<longleftrightarrow>
     (let v = i_vio (g_io gs); io' = g_io gs'; b = i_bus (g_io gs); b' = i_bus io' in
      init_frame gs gs' \<and> offered v b' lo VIRTIO_DEVICE_FEATURES_MASK \<and> offered v b' hi 1
    \<and> g_has_virgl gs' = (lo AND VIRTIO_GPU_F_VIRGL \<noteq> 0) \<and> g_has_blob gs' = (lo AND VIRTIO_GPU_F_RESOURCE_BLOB \<noteq> 0)
    \<and> holds ex0 (fst (queue_held (i_ctrlq io')) + (fst (queue_held (i_cursq io')) + L))
        (snd (queue_held (i_ctrlq io')) + (snd (queue_held (i_cursq io')) + D)) S (i_exec io')
    \<and> (if ok then features_kept v b' \<and> queues_live v io'
          \<and> tells v b (handshake lo hi @ (VIRTIO_PCI_COMMON_Q_SELECT, 0) # ring_writes (the (i_ctrlq io'))
              @ (VIRTIO_PCI_COMMON_Q_SELECT, 1) # cursor_writes io' @ [(VIRTIO_PCI_COMMON_STATUS, 15)]) b'
       else (tells v b (handshake lo hi @ [(VIRTIO_PCI_COMMON_STATUS, 128)]) b'
              \<or> tells v b (handshake lo hi @ [(VIRTIO_PCI_COMMON_Q_SELECT, 0)]) b')
          \<and> i_ctrlq io' = None \<and> i_cursq io' = None))"

lemma virtio_init_result:
  fixes gs n
  defines "v \<equiv> i_vio (g_io gs)"
  assumes m: "\<not> v_use_pci_cfg v" and h: "holds ex0 L D S (i_exec (g_io gs))"
    and none: "i_ctrlq (g_io gs) = None" "i_cursq (g_io gs) = None"
  shows "\<exists>ok gs' n' lo hi. chip_virtio_init gs n = Some (ok, gs', n') \<and> init_outcome gs ex0 L D S ok gs' lo hi"
proof -
  let ?io = "g_io gs"
  obtain lo hi kept b1 where g: "greet v (i_bus ?io) = ((lo, hi, kept), b1)" by (metis prod_cases3 surj_pair)
  note gt = greet_tells [OF m g]
  define ga where "ga = gs\<lparr>g_has_virgl := (lo AND VIRTIO_GPU_F_VIRGL \<noteq> 0), g_has_blob := (lo AND VIRTIO_GPU_F_RESOURCE_BLOB \<noteq> 0)\<rparr>"
  define io1 where "io1 = ?io\<lparr>i_bus := b1\<rparr>"
  have io1: "\<not> v_use_pci_cfg (i_vio io1)" "holds ex0 L D S (i_exec io1)" "i_vio io1 = v" "i_bus io1 = b1"
    using m h by (simp_all add: io1_def v_def)
  have og: "on_bus (greet (i_vio ?io)) ?io = ((lo, hi, kept), ?io\<lparr>i_bus := b1\<rparr>)" using g by (simp add: on_bus_def v_def)
  have run: "chip_virtio_init gs n = (if \<not> kept then Some (False, ga\<lparr>g_io := io1\<rparr>, n)
         else do {
           (ok, io) \<leftarrow> setup_ctrlq io1;
           if \<not> ok then Some (False, ga\<lparr>g_io := io\<rparr>, n)
           else do {
             (cursor, io) \<leftarrow> setup_cursq io;
             let io = do_bus (vio_w8 v VIRTIO_PCI_COMMON_STATUS (VIRTIO_STATUS_ACKNOWLEDGE OR VIRTIO_STATUS_DRIVER
                          OR VIRTIO_STATUS_FEATURES_OK OR VIRTIO_STATUS_DRIVER_OK)) io;
             let io = snd (on_bus (vio_r8 v VIRTIO_PCI_COMMON_STATUS) io);
             Some (True, ga\<lparr>g_io := io\<rparr>, if cursor then 2 else 1) } })"
    unfolding virtio_init_greets ga_def io1_def v_def Let_def og prod.case by (rule refl)
  have fr: "init_frame gs (ga\<lparr>g_io := io1\<lparr>i_bus := b, i_exec := ex, i_ctrlq := c, i_cursq := d\<rparr>\<rparr>)" for b ex c d
    unfolding init_frame_def ga_def io1_def
    by (rule exI [of _ "lo AND VIRTIO_GPU_F_VIRGL \<noteq> 0"], rule exI [of _ "lo AND VIRTIO_GPU_F_RESOURCE_BLOB \<noteq> 0"],
        rule exI [of _ b], rule exI [of _ ex], rule exI [of _ c], rule exI [of _ d]) simp
  have fr0: "init_frame gs (ga\<lparr>g_io := io1\<lparr>i_bus := b, i_exec := ex\<rparr>\<rparr>)" for b ex
  proof -
    have "io1\<lparr>i_bus := b, i_exec := ex, i_ctrlq := None, i_cursq := None\<rparr> = io1\<lparr>i_bus := b, i_exec := ex\<rparr>"
      by (rule io.equality) (simp_all add: io1_def none)
    then show ?thesis using fr [where b = b and ex = ex and c = None and d = None] by simp
  qed
  show ?thesis
  proof (cases kept)
    case False
    have "init_outcome gs ex0 L D S False (ga\<lparr>g_io := io1\<rparr>) lo hi"
      using False gt h none fr0 [where b = b1 and ex = "i_exec (g_io gs)"]
      by (simp add: init_outcome_def ga_def queue_held_def io1_def v_def)
    then show ?thesis using run False by simp blast
  next
    case k: True
    obtain r io2 ws where q: "setup_queue 0 io1 = Some (r, io2)" "io2 = io1\<lparr>i_bus := i_bus io2, i_exec := i_exec io2\<rparr>"
      "tells v b1 ((VIRTIO_PCI_COMMON_Q_SELECT, 0) # ws) (i_bus io2)"
      "case r of None \<Rightarrow> ws = [] \<and> holds ex0 L D S (i_exec io2)
       | Some vq \<Rightarrow> ws = ring_writes vq \<and> (\<exists>q. live_queue q vq \<and> asked_size v (i_bus io2) q)
           \<and> holds ex0 (mset (queue_blocks vq) + L) (add_mset (vq_mem_block vq) D) S (i_exec io2)"
      using setup_queue_result [OF io1(1,2), of 0] unfolding io1(3,4) by auto
    define b2 ex2 where "b2 = i_bus io2" and "ex2 = i_exec io2"
    have io2: "io2 = io1\<lparr>i_bus := b2, i_exec := ex2\<rparr>" using q(2) by (simp add: b2_def ex2_def)
    have t2: "tells v (i_bus ?io) (handshake lo hi @ (VIRTIO_PCI_COMMON_Q_SELECT, 0) # ws) b2"
      using tells_trans [OF conjunct1 [OF gt] q(3)] k by (simp add: b2_def)
    have later: "offered v b2 lo VIRTIO_DEVICE_FEATURES_MASK" "offered v b2 hi 1" "features_kept v b2"
      using gt k bus_facts_later tells_extends [OF q(3)] by (auto simp: b2_def)
    show ?thesis
    proof (cases r)
      case None
      have "chip_virtio_init gs n = Some (False, ga\<lparr>g_io := io2\<rparr>, n)" using run k q(1) None by (simp add: setup_ctrlq_def)
      moreover have "init_outcome gs ex0 L D S False (ga\<lparr>g_io := io2\<rparr>) lo hi"
        using None q(4) t2 later none fr0 [where b = b2 and ex = ex2]
        by (simp add: init_outcome_def ga_def queue_held_def io1_def io2 v_def)
      ultimately show ?thesis by blast
    next
      case (Some vq)
      define io3 where "io3 = io2\<lparr>i_ctrlq := Some vq\<rparr>"
      have io3: "\<not> v_use_pci_cfg (i_vio io3)" "i_vio io3 = v" "i_bus io3 = b2"
          "holds ex0 (mset (queue_blocks vq) + L) (add_mset (vq_mem_block vq) D) S (i_exec io3)"
        using q(4) Some io1(1,3) by (simp_all add: io3_def io2 ex2_def [symmetric])
      obtain c io4 cs where cq: "setup_queue 1 io3 = Some (c, io4)" "io4 = io3\<lparr>i_bus := i_bus io4, i_exec := i_exec io4\<rparr>"
        "tells v b2 ((VIRTIO_PCI_COMMON_Q_SELECT, 1) # cs) (i_bus io4)"
        "case c of None \<Rightarrow> cs = [] \<and> holds ex0 (mset (queue_blocks vq) + L) (add_mset (vq_mem_block vq) D) S (i_exec io4)
         | Some cq \<Rightarrow> cs = ring_writes cq \<and> (\<exists>q. live_queue q cq \<and> asked_size v (i_bus io4) q)
             \<and> holds ex0 (mset (queue_blocks cq) + (mset (queue_blocks vq) + L)) (add_mset (vq_mem_block cq) (add_mset (vq_mem_block vq) D)) S (i_exec io4)"
        using setup_queue_result [OF io3(1,4), of 1] unfolding io3(2,3) by auto
      define b4 ex4 where "b4 = i_bus io4" and "ex4 = i_exec io4"
      have io4: "io4 = io3\<lparr>i_bus := b4, i_exec := ex4\<rparr>" using cq(2) by (simp add: b4_def ex4_def)
      obtain x b5 where x: "vio_r8 v VIRTIO_PCI_COMMON_STATUS (vio_w8 v VIRTIO_PCI_COMMON_STATUS 15 b4) = (x, b5)" by fastforce
      have t5: "tells v b4 [(VIRTIO_PCI_COMMON_STATUS, 15)] b5"
        using tells_trans [OF tells_write(1) [OF m] tells_read(1) [OF m x]] by simp
      note t25 = tells_trans [OF cq(3) [folded b4_def] t5]
      note q4 = q(4) [folded b2_def ex2_def] and cq4 = cq(4) [folded b4_def ex4_def]
      define io5 where "io5 = io4\<lparr>i_cursq := c, i_bus := b5\<rparr>"
      have s1: "setup_ctrlq io1 = Some (True, io3)" using q(1) Some by (simp add: setup_ctrlq_def io3_def)
      have "io3\<lparr>i_bus := b4, i_exec := ex4, i_cursq := None\<rparr> = io3\<lparr>i_bus := b4, i_exec := ex4\<rparr>"
        by (rule io.equality) (simp_all add: io3_def io2 io1_def none)
      moreover have "setup_queue 1 io3 = Some (c, io3\<lparr>i_bus := b4, i_exec := ex4\<rparr>)" using cq(1) io4 by simp
      ultimately have s2: "setup_cursq io3 = Some (c \<noteq> None, io3\<lparr>i_bus := b4, i_exec := ex4, i_cursq := c\<rparr>)"
        by (cases c) (simp_all add: setup_cursq_def)
      have "io5 = io3\<lparr>i_bus := b5, i_exec := ex4, i_cursq := c\<rparr>" by (simp add: io5_def io4)
      then have ran: "chip_virtio_init gs n = Some (True, ga\<lparr>g_io := io5\<rparr>, if c = None then 1 else 2)"
        using run k s1 s2 x by (simp add: do_bus_def on_bus_def)
      have "init_frame gs (ga\<lparr>g_io := io5\<rparr>)"
      proof -
        have "io5 = io1\<lparr>i_bus := b5, i_exec := ex4, i_ctrlq := Some vq, i_cursq := c\<rparr>"
          by (rule io.equality) (simp_all add: io5_def io4 io3_def io2)
        then show ?thesis using fr [where b = b5 and ex = ex4 and c = "Some vq" and d = c] by simp
      qed
      moreover have "queues_live v io5"
        using q4 cq4 Some asked_size_later tells_extends [OF t25] tells_extends [OF t5]
        by (auto simp: queues_live_def io5_def io4 io3_def split: option.splits)
      moreover have "holds ex0 (fst (queue_held (i_ctrlq io5)) + (fst (queue_held (i_cursq io5)) + L))
          (snd (queue_held (i_ctrlq io5)) + (snd (queue_held (i_cursq io5)) + D)) S (i_exec io5)"
        using cq4 by (cases c) (auto simp: io5_def io4 io3_def queue_held_def ac_simps add_mset_commute)
      moreover have "tells v (i_bus ?io) (handshake lo hi @ (VIRTIO_PCI_COMMON_Q_SELECT, 0) # ring_writes (the (i_ctrlq io5))
              @ (VIRTIO_PCI_COMMON_Q_SELECT, 1) # cursor_writes io5 @ [(VIRTIO_PCI_COMMON_STATUS, 15)]) (i_bus io5)"
        using tells_trans [OF t2 t25] q4 cq4 Some by (cases c) (auto simp: io5_def io4 io3_def cursor_writes_def)
      moreover have "offered v (i_bus io5) lo VIRTIO_DEVICE_FEATURES_MASK" "offered v (i_bus io5) hi 1" "features_kept v (i_bus io5)"
        using later bus_facts_later tells_extends [OF t25] by (auto simp: io5_def)
      ultimately have "init_outcome gs ex0 L D S True (ga\<lparr>g_io := io5\<rparr>) lo hi"
        by (simp add: init_outcome_def ga_def v_def)
      then show ?thesis using ran by blast
    qed
  qed
qed

end
