(* ===== verification/Exec_Books.thy ===== *)
theory Exec_Books
  imports Device_Init_Correct
begin

text \<open>
  The commands of the control queue leave the kernel's books as they found them: with a queue that
  does not use indirect tables nothing is allocated or freed, and the signal of a wait is given back.
  Stated for runs that return (\<open>calm\<close>); the queues keep their identity, so that they can be freed later.
\<close>

section \<open>Queues without indirect tables\<close>

definition direct :: "virtqueue \<Rightarrow> bool" where
  "direct vq \<longleftrightarrow> \<not> vq_use_indirect vq \<and> set (vq_indirect_tables vq) \<subseteq> {0}"

definition queue_id :: "virtqueue \<Rightarrow> u32 list \<times> u32" where
  "queue_id vq = (queue_blocks vq, vq_dma_entries vq)"

lemma publish_direct:
  "vq_publish vq h = Some vq' \<Longrightarrow> direct vq' = direct vq \<and> queue_id vq' = queue_id vq"
  by (auto simp: vq_publish_def Let_def direct_def queue_id_def queue_blocks_def split: if_splits Option.bind_splits)

lemma wr_zero: "wr xs i 0 = Some ys \<Longrightarrow> set xs \<subseteq> {0} \<Longrightarrow> set ys \<subseteq> {0}"
  using set_update_subset_insert [of xs i 0] by (auto simp: wr_Some)

lemma wr_zero_in: "x \<in> set ys \<Longrightarrow> wr xs i 0 = Some ys \<Longrightarrow> set xs \<subseteq> {0} \<Longrightarrow> x = 0"
  using wr_zero by blast

lemma addbuf_direct_keeps:
  assumes "addbuf_direct vq sg a b c = Some vq'" "direct vq"
  shows "direct vq' \<and> queue_id vq' = queue_id vq"
proof -
  obtain f d cookies tables where t: "wr (vq_indirect_tables vq) (unat (vq_free_head vq)) 0 = Some tables"
    "vq_publish (vq\<lparr>vq_desc := d, vq_free_head := f, vq_num_free := vq_num_free vq - ucast b, vq_cookies := cookies,
       vq_indirect_tables := tables\<rparr>) (vq_free_head vq) = Some vq'"
    using assms(1) by (auto simp: addbuf_direct_def Let_def split: Option.bind_splits)
  show ?thesis using publish_direct [OF t(2)] wr_zero [OF t(1)] assms(2)
    by (simp add: direct_def queue_id_def queue_blocks_def)
qed

lemma addbuf_keeps:
  assumes "VirtQueue_AddBuf ex vq sg a b c = Some (rc, ex', vq')" "direct vq"
  shows "ex' = ex \<and> direct vq' \<and> queue_id vq' = queue_id vq"
proof -
  have "\<not> vq_use_indirect vq" using assms(2) by (simp add: direct_def)
  then show ?thesis using assms by (auto simp: VirtQueue_AddBuf_def Let_def split: if_splits Option.bind_splits dest: addbuf_direct_keeps)
qed

lemma getbuf_keeps:
  assumes "VirtQueue_GetBuf ex vq = Some (c, w, ex', vq')" "direct vq"
  shows "ex' = ex \<and> direct vq' \<and> queue_id vq' = queue_id vq"
proof -
  have z: "itbl = 0" if "rd (vq_indirect_tables vq) i = Some itbl" for i itbl
    using that assms(2) by (auto simp: rd_Some direct_def dest: nth_mem)
  show ?thesis using assms
    by (auto simp: VirtQueue_GetBuf_def getbuf_release_def Let_def queue_id_def queue_blocks_def direct_def
        split: if_splits Option.bind_splits prod.splits dest: z) (blast dest: wr_zero_in)+
qed

section \<open>The transport\<close>

definition direct_io :: "io \<Rightarrow> bool" where
  "direct_io io \<longleftrightarrow> (\<forall>sel vq. the_queue sel io = Some vq \<longrightarrow> direct vq)"

definition calm :: "io \<Rightarrow> io \<Rightarrow> bool" where
  "calm io io' \<longleftrightarrow> (direct_io io \<longrightarrow> direct_io io' \<and> holdings (i_exec io') = holdings (i_exec io)
     \<and> (\<forall>sel. map_option queue_id (the_queue sel io') = map_option queue_id (the_queue sel io)))"

lemma io_calm_refl: "calm io io"
  by (simp add: calm_def)

lemma io_calm_trans: "calm a b \<Longrightarrow> calm b c \<Longrightarrow> calm a c"
  by (simp add: calm_def)

lemma calm_same:
  "i_exec io' = i_exec io \<Longrightarrow> i_ctrlq io' = i_ctrlq io \<Longrightarrow> i_cursq io' = i_cursq io \<Longrightarrow> calm io io'"
proof -
  assume a: "i_exec io' = i_exec io" "i_ctrlq io' = i_ctrlq io" "i_cursq io' = i_cursq io"
  have "the_queue sel io' = the_queue sel io" for sel by (cases sel) (simp_all add: a)
  then show ?thesis using a by (simp add: calm_def direct_io_def)
qed

lemma device_used_keeps: "direct (device_used vq h l) = direct vq" "queue_id (device_used vq h l) = queue_id vq"
  by (simp_all add: direct_def queue_id_def queue_blocks_def device_used_def Let_def)

lemma dev_complete_keeps:
  "direct (snd (dev_complete xs (d, vq))) = direct vq \<and> queue_id (snd (dev_complete xs (d, vq))) = queue_id vq"
proof (induction xs arbitrary: d vq)
  case (Cons x xs)
  then show ?case by (cases x) (simp add: device_used_keeps)
qed simp

lemma calm_queue:
  assumes "the_queue sel io = Some vq" "direct vq \<Longrightarrow> direct vq' \<and> queue_id vq' = queue_id vq"
    and "direct_io io \<Longrightarrow> holdings (i_exec io') = holdings (i_exec io)"
    and "\<And>s. the_queue s io' = (if s = sel then Some vq' else the_queue s io)"
  shows "calm io io'"
  using assms by (auto simp: calm_def direct_io_def)

lemma the_set_queue: "the_queue s (set_queue sel vq io) = (if s = sel then Some vq else the_queue s io)"
  by (cases s; cases sel) simp_all

lemma the_set_dev [simp]: "the_queue s (set_dev sel d io) = the_queue s io" "i_exec (set_dev sel d io) = i_exec io"
  "i_exec (set_queue sel vq io) = i_exec io"
  by (cases s; cases sel; simp)+

lemma dev_step_calm: "calm io (dev_step env sel io)"
proof (cases "the_queue sel io")
  case None
  then show ?thesis by (simp add: dev_step_def io_calm_refl)
next
  case (Some vq)
  obtain d vq' where e: "dev_complete (e_complete env sel (i_clock io)) (dev_fetch vq (the_dev sel io), vq) = (d, vq')" by fastforce
  have k: "direct vq' = direct vq" "queue_id vq' = queue_id vq"
    using dev_complete_keeps [of "e_complete env sel (i_clock io)" "dev_fetch vq (the_dev sel io)" vq] e by simp_all
  have s: "dev_step env sel io = set_dev sel d (set_queue sel vq' io)" using Some e by (simp add: dev_step_def)
  show ?thesis unfolding s by (rule calm_queue [OF Some, of vq']) (simp_all add: k the_set_queue)
qed

lemma env_step_calm: "calm io (env_step env io)"
proof -
  have "calm (dev_step env Curs (dev_step env Ctrl io)) (env_step env io)"
    by (rule calm_same) (simp_all add: env_step_def Let_def)
  then show ?thesis using io_calm_trans dev_step_calm by blast
qed

lemma exec_wait_calm: "exec_wait env io = Some io' \<Longrightarrow> calm io io'"
  by (auto simp: exec_wait_def env_step_calm split: if_splits)

lemma io_getbuf_calm:
  assumes "io_getbuf env sel io = Some (c, w, io')"
  shows "calm io io'"
proof -
  let ?io = "env_step env io"
  obtain vq ex vq' where q: "the_queue sel ?io = Some vq" "VirtQueue_GetBuf (i_exec ?io) vq = Some (c, w, ex, vq')"
    "io' = set_queue sel vq' (?io\<lparr>i_exec := ex\<rparr>)"
    using assms by (auto simp: io_getbuf_def Let_def split: Option.bind_splits)
  have "calm ?io io'"
  proof (rule calm_queue [OF q(1)])
    show "direct vq \<Longrightarrow> direct vq' \<and> queue_id vq' = queue_id vq" using getbuf_keeps [OF q(2)] by blast
    show "direct_io ?io \<Longrightarrow> holdings (i_exec io') = holdings (i_exec ?io)"
      using getbuf_keeps [OF q(2)] q(1,3) by (auto simp: direct_io_def)
  qed (simp add: q(3) the_set_queue)
  then show ?thesis by (rule io_calm_trans [OF env_step_calm])
qed

lemma wait_loop_calm: "wait_loop env sel irq cookie n got bytes io = Some (g, b, io') \<Longrightarrow> calm io io'"
proof (induction env sel irq cookie n got bytes io arbitrary: g b io' rule: wait_loop.induct)
  case (1 env sel irq cookie n got bytes io)
  show ?case
  proof (cases "n = 0")
    case True
    then show ?thesis using "1.prems" by (simp add: wait_loop.simps io_calm_refl)
  next
    case False
    obtain g1 w io1 where r: "io_getbuf env sel io = Some (g1, w, io1)"
      using "1.prems" False by (auto simp: wait_loop.simps [of env sel irq cookie n] split: Option.bind_splits)
    note c1 = io_getbuf_calm [OF r]
    show ?thesis
    proof (cases "g1 = cookie")
      case True
      then show ?thesis using "1.prems" False r c1 by (auto simp: wait_loop.simps [of env sel irq cookie n] Let_def)
    next
      case neq: False
      show ?thesis
      proof (cases irq)
        case True
        obtain io2 where w2: "exec_wait env io1 = Some io2"
          "wait_loop env sel irq cookie (n - 1) g1 (case w of None \<Rightarrow> bytes | Some w \<Rightarrow> w) io2 = Some (g, b, io')"
          using "1.prems" False r neq True by (auto simp: wait_loop.simps [of env sel True cookie n] Let_def split: Option.bind_splits)
        show ?thesis using io_calm_trans [OF c1 io_calm_trans [OF exec_wait_calm [OF w2(1)]]] "1.IH"(1) [OF False r refl refl refl neq True w2(1)] w2(2) True
          by simp
      next
        case ni: False
        have "wait_loop env sel irq cookie (n - 1) g1 (case w of None \<Rightarrow> bytes | Some w \<Rightarrow> w) io1 = Some (g, b, io')"
          using "1.prems" False r neq ni by (auto simp: wait_loop.simps [of env sel False cookie n] Let_def)
        then show ?thesis using io_calm_trans [OF c1] "1.IH"(2) [OF False r refl refl refl neq ni] ni by simp
      qed
    qed
  qed
qed

lemma drain_stale_calm: "drain_stale env sel k io = Some (n, io') \<Longrightarrow> calm io io'"
proof (induction env sel k io arbitrary: n io' rule: drain_stale.induct)
  case (1 env sel k io)
  obtain g1 w io1 where r: "io_getbuf env sel io = Some (g1, w, io1)"
    using "1.prems" by (auto simp: drain_stale.simps [of env sel k] split: Option.bind_splits)
  note c1 = io_getbuf_calm [OF r]
  show ?case
  proof (cases "g1 = 0 \<or> 256 < k + 1")
    case True
    then show ?thesis using "1.prems" r c1 by (auto simp: drain_stale.simps [of env sel k] split: if_splits)
  next
    case False
    then have "drain_stale env sel (k + 1) io1 = Some (n, io')" using "1.prems" r by (simp add: drain_stale.simps [of env sel k])
    then show ?thesis using io_calm_trans [OF c1] "1.IH" [OF r refl refl] False by auto
  qed
qed

lemma set_waiter_queues [simp]: "the_queue s (set_waiter sel t m io) = the_queue s io" "i_exec (set_waiter sel t m io) = i_exec io"
  by (cases s; cases sel; simp)+

lemma await_calm:
  assumes "await env sel polls cookie io = Some (g, b, io')"
  shows "calm io io'"
proof -
  obtain sig ex where se: "(if i_irq_installed io then AllocSignal (i_exec io) else (-1, i_exec io)) = (sig, ex)" by fastforce
  have h: "holdings ex = (ex_live (i_exec io), ex_dma (i_exec io), ex_objs (i_exec io),
      if 0 \<le> sig then sig # ex_signals (i_exec io) else ex_signals (i_exec io))"
    using se by (auto simp: AllocSignal_def Let_def holdings_def split: if_splits)
  show ?thesis
  proof (cases "0 \<le> sig")
    case True
    obtain io1 where w: "wait_loop env sel True cookie 50 0 0 (set_waiter sel cookie (push_bit (nat sig) 1) (io\<lparr>i_exec := ex\<rparr>)) = Some (g, b, io1)"
      "io' = (set_waiter sel 0 0 io1)\<lparr>i_exec := FreeSignal sig (i_exec io1)\<rparr>"
      using assms se True by (auto simp: await_def Let_def split: Option.bind_splits)
    show ?thesis using wait_loop_calm [OF w(1)] h True w(2)
      by (auto simp: calm_def direct_io_def holdings_def FreeSignal_def)
  next
    case False
    then have "wait_loop env sel False cookie polls 0 0 (io\<lparr>i_exec := ex\<rparr>) = Some (g, b, io')"
      using assms se by (simp add: await_def Let_def)
    from wait_loop_calm [OF this] show ?thesis using h False by (simp add: calm_def direct_io_def holdings_def)
  qed
qed

section \<open>The commands\<close>

lemma wait_ctrlq_calm:
  assumes "chip_wait_ctrlq env cookie io = Some (n, io')"
  shows "calm io io'"
proof -
  let ?in = "io\<lparr>i_wait_entries := i_wait_entries io + 1, i_hot_stage := ''wait_ctrlq:enter''\<rparr>"
  obtain got bytes io1 where a: "await env Ctrl 1000000 cookie ?in = Some (got, bytes, io1)"
    using assms by (auto simp: chip_wait_ctrlq_def Let_def split: Option.bind_splits)
  let ?out = "io1\<lparr>i_hot_stage := ''wait_ctrlq:exit'', i_wait_exits := i_wait_exits io1 + 1\<rparr>"
  have "calm ?out io'" using assms a
    by (auto simp: chip_wait_ctrlq_def Let_def io_calm_refl split: Option.bind_splits if_splits dest: drain_stale_calm)
  moreover have "calm io ?in" "calm io1 ?out" by (rule calm_same; simp)+
  ultimately show ?thesis using io_calm_trans await_calm [OF a] by blast
qed

lemma notify_calm: "calm io (chip_notify_queue vq q io)"
  by (rule calm_same) (simp_all add: chip_notify_queue_def Let_def)

lemma do_io_calm:
  assumes "chip_do_io env a b io = Some (n, io')"
  shows "calm io io'"
proof (cases "i_ctrlq io")
  case None
  then show ?thesis using assms by (simp add: chip_do_io_def io_calm_refl)
next
  case (Some vq)
  let ?sg = "[\<lparr>sg_addr = i_cmd_buf_phys io, sg_len = a\<rparr>, \<lparr>sg_addr = i_resp_buf_phys io, sg_len = b\<rparr>]"
  obtain rc ex vq' where p: "VirtQueue_AddBuf (i_exec io) vq ?sg 1 1 (i_task io) = Some (rc, ex, vq')"
    using assms Some by (auto simp: chip_do_io_def Let_def split: Option.bind_splits)
  let ?io1 = "io\<lparr>i_exec := ex, i_ctrlq := Some vq'\<rparr>"
  have c1: "calm io ?io1"
  proof (rule calm_queue [where sel = Ctrl])
    show "direct vq \<Longrightarrow> direct vq' \<and> queue_id vq' = queue_id vq" using addbuf_keeps [OF p] by blast
    have "direct_io io \<Longrightarrow> direct vq" using Some by (metis direct_io_def the_queue.simps(1))
    then show "direct_io io \<Longrightarrow> holdings (i_exec ?io1) = holdings (i_exec io)" using addbuf_keeps [OF p] by simp
    show "the_queue s ?io1 = (if s = Ctrl then Some vq' else the_queue s io)" for s by (cases s) simp_all
  qed (simp add: Some)
  have "calm ?io1 io'" using assms Some p io_calm_trans [OF notify_calm wait_ctrlq_calm]
    by (auto simp: chip_do_io_def Let_def io_calm_refl split: Option.bind_splits if_splits)
  then show ?thesis by (rule io_calm_trans [OF c1])
qed

lemma gpu_begin_calm:
  assumes "gpu_begin env a b c fill io = Some (r, io')"
  shows "calm io io'"
proof -
  obtain cmd resp n io1 where d: "chip_do_io env (of_nat a) (of_nat c) ((obtain_io_lock io)\<lparr>i_cmd_buf := cmd, i_resp_buf := resp\<rparr>) = Some (n, io1)"
    "io' = io1"
    using assms by (auto simp: gpu_begin_def chip_gpu_send_def Let_def split: Option.bind_splits if_splits)
  have "calm io ((obtain_io_lock io)\<lparr>i_cmd_buf := cmd, i_resp_buf := resp\<rparr>)"
    by (rule calm_same) (simp_all add: obtain_io_lock_def)
  then show ?thesis using io_calm_trans do_io_calm [OF d(1)] d(2) by blast
qed

lemma release_calm: "calm io (release_io_lock io)"
  by (rule calm_same) (simp_all add: release_io_lock_def)

lemma gpu_nodata_calm: "gpu_nodata env a fill io = Some (r, io') \<Longrightarrow> calm io io'"
  by (auto simp: gpu_nodata_def Let_def split: Option.bind_splits intro: io_calm_trans [OF gpu_begin_calm release_calm])

lemma get_display_info_calm: "chip_GetDisplayInfo env io = Some (r, io') \<Longrightarrow> calm io io'"
  by (auto simp: chip_GetDisplayInfo_def Let_def split: Option.bind_splits if_splits intro: io_calm_trans [OF gpu_begin_calm release_calm])

lemma set_scanout_retry_calm: "set_scanout_retry n env s r x y w h io = Some (ok, io') \<Longrightarrow> calm io io'"
proof (induction n arbitrary: io)
  case (Suc n)
  then show ?case
    by (auto simp: set_scanout_once_def io_calm_refl split: Option.bind_splits if_splits
        dest!: gpu_nodata_calm intro: io_calm_trans)
qed (simp add: io_calm_refl)

lemma commands_calm:
  "chip_ResourceCreate2D env r f w h io = Some (ok, io') \<Longrightarrow> calm io io'"
  "chip_ResourceAttachBacking env r l n io = Some (ok, io') \<Longrightarrow> calm io io'"
  "transfer_to_host_2d_cmd env r x y w h off io = Some (ok, io') \<Longrightarrow> calm io io'"
  "chip_ResourceFlush env r x y w h io = Some (ok, io') \<Longrightarrow> calm io io'"
  "create_blob_cmd env r m fl i sz l n io = Some (ok, io') \<Longrightarrow> calm io io'"
  by (auto simp: chip_ResourceCreate2D_def chip_ResourceAttachBacking_def transfer_to_host_2d_cmd_def chip_ResourceFlush_def
      create_blob_cmd_def Let_def dest: gpu_nodata_calm)

section \<open>The driver state\<close>

text \<open>What the initialisation needs of a command on the driver state: the books, and the framebuffer's fields.\<close>

definition fb_fields :: "gpu \<Rightarrow> u32 \<times> u32 \<times> u32 \<times> u32 \<times> u32 \<times> u32 \<times> u32" where
  "fb_fields gs = (g_fb_mem gs, g_fb_dma_count gs, g_fb_dma_list gs, g_fb_size gs, g_fb_stride gs, g_fb_width gs, g_fb_height gs)"

definition gpu_calm :: "gpu \<Rightarrow> gpu \<Rightarrow> bool" where
  "gpu_calm gs gs' \<longleftrightarrow> calm (g_io gs) (g_io gs') \<and> fb_fields gs' = fb_fields gs"

lemma gpu_calm_refl: "gpu_calm gs gs"
  by (simp add: gpu_calm_def io_calm_refl)

lemma gpu_calm_trans: "gpu_calm a b \<Longrightarrow> gpu_calm b c \<Longrightarrow> gpu_calm a c"
  by (auto simp: gpu_calm_def intro: io_calm_trans)

lemma with_io_calm: "with_io f gs = Some (r, gs') \<Longrightarrow> (\<And>io r io'. f io = Some (r, io') \<Longrightarrow> calm io io') \<Longrightarrow> gpu_calm gs gs'"
  by (auto simp: with_io_def gpu_calm_def fb_fields_def split: Option.bind_splits)

lemma get_edid_calm:
  assumes "chip_GetEDID env s gs = Some (r, gs')"
  shows "gpu_calm gs gs'"
proof -
  obtain rt io where b: "gpu_begin env 32 1056 1056 (\<lambda>cmd. do {
        cmd \<leftarrow> cpu_st32 0 (GP32 CMD_GET_EDID) cmd;
        cpu_st32 24 (GP32 s) cmd }) (g_io gs) = Some (rt, io)" "g_io gs' = release_io_lock io" "fb_fields gs' = fb_fields gs"
    using assms by (auto simp: chip_GetEDID_def Let_def fb_fields_def split: Option.bind_splits if_splits)
  show ?thesis using io_calm_trans [OF gpu_begin_calm [OF b(1)] release_calm] b(2,3) by (simp add: gpu_calm_def)
qed

lemma log_scanout_calm: "log_scanout s x y w h gs = Some gs' \<Longrightarrow> gpu_calm gs gs'"
  by (auto simp: log_scanout_def Let_def gpu_calm_def fb_fields_def io_calm_refl split: Option.bind_splits if_splits)

lemma gpu_commands_calm:
  "chip_SetScanout env s r x y w h gs = Some (ok, gs') \<Longrightarrow> gpu_calm gs gs'"
  "chip_TransferToHost2D env r x y w h off gs = Some (ok, gs') \<Longrightarrow> gpu_calm gs gs'"
  "chip_ResourceCreateBlob env r m fl i sz l n gs = Some (ok, gs') \<Longrightarrow> gpu_calm gs gs'"
  "with_io (chip_ResourceCreate2D env r f w h) gs = Some (ok, gs') \<Longrightarrow> gpu_calm gs gs'"
  "with_io (chip_ResourceAttachBacking env r l n) gs = Some (ok, gs') \<Longrightarrow> gpu_calm gs gs'"
  "with_io (chip_ResourceFlush env r x y w h) gs = Some (ok, gs') \<Longrightarrow> gpu_calm gs gs'"
  "with_io (chip_GetDisplayInfo env) gs = Some (d, gs') \<Longrightarrow> gpu_calm gs gs'"
  by (auto simp: chip_SetScanout_def chip_TransferToHost2D_def chip_ResourceCreateBlob_def gpu_calm_refl
      split: Option.bind_splits if_splits
      dest: log_scanout_calm elim!: with_io_calm
      intro: commands_calm get_display_info_calm gpu_calm_trans [OF log_scanout_calm with_io_calm] set_scanout_retry_calm)

end
