(* ===== verification/Card_Books.thy ===== *)
theory Card_Books
  imports Card_Init Exec_Books
begin

text \<open>
  What the card's initialisation holds at every point, and what the cleanup labels give back.  \<open>card_inv\<close>
  reads the holdings off the fields of the driver state; every stage keeps it, whether it succeeds or
  jumps, and a label releases exactly what the fields below it name.
\<close>

section \<open>The holdings of a card\<close>

definition nz :: "u32 \<Rightarrow> u32 multiset" where
  "nz x = (if x = 0 then {#} else {#x#})"

lemma nz_zero [simp]: "nz 0 = {#}"
  by (simp add: nz_def)

lemma nz_pos: "x \<noteq> 0 \<Longrightarrow> nz x = {#x#}"
  by (simp add: nz_def)

definition lock_assets :: "card \<Rightarrow> u32 multiset" where
  "lock_assets k = nz (k_io_lock k) + nz (k_cursor_lock k) + nz (k_alloc_mutex k) + nz (k_cmd3d_lock k)"

definition queue_assets :: "card \<Rightarrow> u32 multiset \<times> u32 multiset" where
  "queue_assets k = (fst (queue_held (i_ctrlq (k_io k))) + fst (queue_held (i_cursq (k_io k))),
     snd (queue_held (i_ctrlq (k_io k))) + snd (queue_held (i_cursq (k_io k))))"

definition buffer_assets :: "card \<Rightarrow> u32 multiset" where
  "buffer_assets k = nz (k_cmd_buf k) + nz (k_resp_buf k) + nz (k_cursor_cmd_buf k)"

definition fb_mapped :: "card \<Rightarrow> u32 multiset" where
  "fb_mapped k = (if g_fb_dma_count (k_gs k) = 0 then {#} else nz (g_fb_mem (k_gs k)))"

definition queue_owned :: "virtqueue option \<Rightarrow> bool" where
  "queue_owned q \<longleftrightarrow> (\<forall>vq. q = Some vq \<longrightarrow> 0 \<notin> set (queue_blocks vq) \<and> vq_dma_entries vq \<noteq> 0 \<and> direct vq)"

definition card_inv :: "exec \<Rightarrow> card \<Rightarrow> bool" where
  "card_inv ex0 k \<longleftrightarrow>
     holds ex0 (nz (k_state k) + buffer_assets k + fst (queue_assets k) + nz (k_cmd3d_buf k) + nz (g_fb_mem (k_gs k)))
       (buffer_assets k + snd (queue_assets k) + nz (k_cmd3d_buf k) + fb_mapped k)
       (lock_assets k + nz (g_fb_dma_list (k_gs k)) + nz (k_vsync_mutex k)) (k_exec k)
   \<and> queue_owned (i_ctrlq (k_io k)) \<and> queue_owned (i_cursq (k_io k))"

section \<open>The labels\<close>

lemmas k_upd_defs = k_do_def on_kio_def on_kgs_def on_kdisp_def do_exec_def

lemma k_do_simps [simp]:
  "k_exec (k_do f k) = f (k_exec k)" "k_state (k_do f k) = k_state k" "k_cmd_buf (k_do f k) = k_cmd_buf k"
  "k_resp_buf (k_do f k) = k_resp_buf k" "k_cursor_cmd_buf (k_do f k) = k_cursor_cmd_buf k" "k_cmd3d_buf (k_do f k) = k_cmd3d_buf k"
  "k_io_lock (k_do f k) = k_io_lock k" "k_cursor_lock (k_do f k) = k_cursor_lock k" "k_alloc_mutex (k_do f k) = k_alloc_mutex k"
  "k_cmd3d_lock (k_do f k) = k_cmd3d_lock k" "k_vsync_mutex (k_do f k) = k_vsync_mutex k"
  "i_ctrlq (k_io (k_do f k)) = i_ctrlq (k_io k)" "i_cursq (k_io (k_do f k)) = i_cursq (k_io k)"
  "g_fb_mem (k_gs (k_do f k)) = g_fb_mem (k_gs k)" "g_fb_dma_list (k_gs (k_do f k)) = g_fb_dma_list (k_gs k)"
  "g_fb_dma_count (k_gs (k_do f k)) = g_fb_dma_count (k_gs k)"
  "d_fb_mem2 (k_disp (k_do f k)) = d_fb_mem2 (k_disp k)" "d_fb_dma_list2 (k_disp (k_do f k)) = d_fb_dma_list2 (k_disp k)"
  by (simp_all add: k_upd_defs)

lemma k_do_comp: "k_do f (k_do g k) = k_do (f \<circ> g) k"
  by (simp add: k_upd_defs)

lemma fail_pci_exec [simp]: "k_exec (fail_pci k) = k_exec k" "k_exec (fail_ipci k) = k_exec k" "k_exec (fail_exp k) = k_exec k"
  by (simp_all add: fail_pci_def fail_ipci_def fail_exp_def)

lemma free_lock_holds: "holds ex0 L D (nz l + S) ex \<Longrightarrow> holds ex0 L D S (free_lock l ex)"
  by (auto simp: free_lock_def nz_def intro: holds_free_obj)

lemma dma_free_nz: "holds ex0 (nz m + L) (nz m + D) S ex \<Longrightarrow> holds ex0 L D S (chip_dma_free m ex)"
  by (rule dma_free_holds) (simp add: nz_def split: if_splits)

lemma queue_free_holds:
  assumes "holds ex0 (fst (queue_held q) + L) (snd (queue_held q) + D) S ex" "queue_owned q"
  shows "holds ex0 L D S (VirtQueue_Free ex q)"
proof (cases q)
  case None
  then show ?thesis using assms(1) by (simp add: queue_held_def VirtQueue_Free_def)
next
  case (Some vq)
  then show ?thesis using free_holds [of ex0 vq L D S ex] assms by (simp add: queue_held_def queue_owned_def)
qed

lemma fail_gs_holds:
  assumes "holds ex0 (nz (k_state k) + L) D (lock_assets k + S) (k_exec k)" "k_state k \<noteq> 0"
  shows "holds ex0 L D S (k_exec (fail_gs k))"
proof -
  have "holds ex0 (add_mset (k_state k) L) D (nz (k_cmd3d_lock k) + (nz (k_cursor_lock k) + (nz (k_alloc_mutex k) + (nz (k_io_lock k) + S)))) (k_exec k)"
    using assms by (simp add: lock_assets_def nz_pos ac_simps)
  then have "holds ex0 L D S (FreeVec (k_state k) (free_lock (k_io_lock k) (free_lock (k_alloc_mutex k)
      (free_lock (k_cursor_lock k) (free_lock (k_cmd3d_lock k) (k_exec k))))))"
    by (intro holds_free free_lock_holds)
  then show ?thesis by (simp add: fail_gs_def)
qed

lemma lock_assets_do [simp]: "lock_assets (k_do f k) = lock_assets k"
  by (simp add: lock_assets_def)

lemma fail_cmd_holds:
  assumes "holds ex0 (nz (k_cmd_buf k) + (nz (k_state k) + L)) (nz (k_cmd_buf k) + D) (lock_assets k + S) (k_exec k)" "k_state k \<noteq> 0"
  shows "holds ex0 L D S (k_exec (fail_cmd k))"
  unfolding fail_cmd_def by (rule fail_gs_holds) (use assms dma_free_nz in simp_all)

text \<open>The same, after one more call.\<close>

lemma fail_cmd_after:
  assumes "holds ex0 (nz (k_cmd_buf k) + (nz (k_state k) + L)) (nz (k_cmd_buf k) + D) (lock_assets k + S) (f (k_exec k))" "k_state k \<noteq> 0"
  shows "holds ex0 L D S (k_exec (fail_cmd (k_do f k)))"
  by (rule fail_cmd_holds) (use assms in simp_all)

lemma fail_resp_holds:
  assumes "holds ex0 (buffer_assets k + (nz (k_state k) + L)) (buffer_assets k + D) (lock_assets k + S) (k_exec k)" "k_state k \<noteq> 0"
  shows "holds ex0 L D S (k_exec (fail_resp k))"
proof -
  have "holds ex0 (nz (k_cursor_cmd_buf k) + (nz (k_resp_buf k) + (nz (k_cmd_buf k) + (nz (k_state k) + L))))
      (nz (k_cursor_cmd_buf k) + (nz (k_resp_buf k) + (nz (k_cmd_buf k) + D))) (lock_assets k + S) (k_exec k)"
    using assms(1) by (simp add: buffer_assets_def ac_simps)
  then show ?thesis unfolding fail_resp_def by (intro fail_cmd_after dma_free_nz assms(2))
qed

lemma buffer_assets_do [simp]: "buffer_assets (k_do f k) = buffer_assets k" "queue_assets (k_do f k) = queue_assets k"
  by (simp_all add: buffer_assets_def queue_assets_def)

lemma fail_resp_after:
  assumes "holds ex0 (buffer_assets k + (nz (k_state k) + L)) (buffer_assets k + D) (lock_assets k + S) (f (k_exec k))" "k_state k \<noteq> 0"
  shows "holds ex0 L D S (k_exec (fail_resp (k_do f k)))"
  by (rule fail_resp_holds) (use assms in simp_all)

lemma fail_vqs_holds:
  assumes h: "holds ex0 (fst (queue_assets k) + (buffer_assets k + (nz (k_state k) + L)))
      (snd (queue_assets k) + (buffer_assets k + D)) (lock_assets k + S) (k_exec k)"
    and q: "queue_owned (i_ctrlq (k_io k))" "queue_owned (i_cursq (k_io k))" and s: "k_state k \<noteq> 0"
  shows "holds ex0 L D S (k_exec (fail_vqs k))"
proof -
  have "holds ex0 (fst (queue_held (i_ctrlq (k_io k))) + (fst (queue_held (i_cursq (k_io k))) + (buffer_assets k + (nz (k_state k) + L))))
      (snd (queue_held (i_ctrlq (k_io k))) + (snd (queue_held (i_cursq (k_io k))) + (buffer_assets k + D))) (lock_assets k + S) (k_exec k)"
    using h by (simp add: queue_assets_def ac_simps)
  then show ?thesis unfolding fail_vqs_def by (intro fail_resp_after queue_free_holds q s)
qed

lemma fail_vqs_after:
  assumes "holds ex0 (fst (queue_assets k) + (buffer_assets k + (nz (k_state k) + L)))
      (snd (queue_assets k) + (buffer_assets k + D)) (lock_assets k + S) (f (k_exec k))"
    and "queue_owned (i_ctrlq (k_io k))" "queue_owned (i_cursq (k_io k))" "k_state k \<noteq> 0"
  shows "holds ex0 L D S (k_exec (fail_vqs (k_do f k)))"
  by (rule fail_vqs_holds) (use assms in simp_all)

text \<open>What is held above a label, by the fields that must be clear when the code jumps there.\<close>

definition no_fb :: "card \<Rightarrow> bool" where
  "no_fb k \<longleftrightarrow> g_fb_mem (k_gs k) = 0 \<and> g_fb_dma_count (k_gs k) = 0 \<and> g_fb_dma_list (k_gs k) = 0 \<and> k_vsync_mutex k = 0
     \<and> d_fb_mem2 (k_disp k) = 0 \<and> d_fb_dma_list2 (k_disp k) = 0"

definition no_transport :: "card \<Rightarrow> bool" where
  "no_transport k \<longleftrightarrow> i_ctrlq (k_io k) = None \<and> i_cursq (k_io k) = None \<and> k_cmd3d_buf k = 0 \<and> k_cmd3d_lock k = 0 \<and> no_fb k"

definition fb_alone :: "card \<Rightarrow> bool" where
  "fb_alone k \<longleftrightarrow> g_fb_mem (k_gs k) \<noteq> 0 \<and> k_vsync_mutex k = 0 \<and> d_fb_mem2 (k_disp k) = 0 \<and> d_fb_dma_list2 (k_disp k) = 0"

fun jump_ok :: "label \<Rightarrow> card \<Rightarrow> bool" where
  "jump_ok Fail_gs k \<longleftrightarrow> k_cmd_buf k = 0 \<and> k_resp_buf k = 0 \<and> k_cursor_cmd_buf k = 0 \<and> no_transport k"
| "jump_ok Fail_cmd k \<longleftrightarrow> k_resp_buf k = 0 \<and> k_cursor_cmd_buf k = 0 \<and> no_transport k"
| "jump_ok Fail_resp k \<longleftrightarrow> no_transport k"
| "jump_ok Fail_vqs k \<longleftrightarrow> no_fb k"
| "jump_ok Fail_fb_mem k \<longleftrightarrow> fb_alone k \<and> g_fb_dma_count (k_gs k) = 0 \<and> g_fb_dma_list (k_gs k) = 0"
| "jump_ok Fail_fb_dma k \<longleftrightarrow> fb_alone k \<and> g_fb_dma_count (k_gs k) \<noteq> 0 \<and> g_fb_dma_list (k_gs k) = 0"
| "jump_ok Fail_fb_dma_list k \<longleftrightarrow> fb_alone k \<and> g_fb_dma_count (k_gs k) \<noteq> 0 \<and> g_fb_dma_list (k_gs k) \<noteq> 0"
| "jump_ok _ k \<longleftrightarrow> False"

definition leaked :: "label \<Rightarrow> card \<Rightarrow> u32 multiset" where
  "leaked l k = (if l = Fail_vqs then nz (k_cmd3d_buf k) else {#})"

lemma fail_fb_mem_holds:
  assumes h: "holds ex0 (nz (g_fb_mem (k_gs k)) + (nz (k_cmd3d_buf k) + (fst (queue_assets k) + (buffer_assets k + (nz (k_state k) + L)))))
      (nz (k_cmd3d_buf k) + (snd (queue_assets k) + (buffer_assets k + D))) (lock_assets k + S) (k_exec k)"
    and q: "queue_owned (i_ctrlq (k_io k))" "queue_owned (i_cursq (k_io k))" and s: "k_state k \<noteq> 0" "g_fb_mem (k_gs k) \<noteq> 0"
  shows "holds ex0 L D S (k_exec (fail_fb_mem k))"
proof -
  have "holds ex0 (nz (k_cmd3d_buf k) + (fst (queue_assets k) + (buffer_assets k + (nz (k_state k) + L))))
      (nz (k_cmd3d_buf k) + (snd (queue_assets k) + (buffer_assets k + D))) (lock_assets k + S) (FreeVec (g_fb_mem (k_gs k)) (k_exec k))"
    by (rule holds_free) (use h s(2) in \<open>simp add: nz_pos\<close>)
  then show ?thesis unfolding fail_fb_mem_def by (intro fail_vqs_after dma_free_nz q s(1))
qed

lemma fail_fb_mem_after:
  assumes "holds ex0 (nz (g_fb_mem (k_gs k)) + (nz (k_cmd3d_buf k) + (fst (queue_assets k) + (buffer_assets k + (nz (k_state k) + L)))))
      (nz (k_cmd3d_buf k) + (snd (queue_assets k) + (buffer_assets k + D))) (lock_assets k + S) (f (k_exec k))"
    and "queue_owned (i_ctrlq (k_io k))" "queue_owned (i_cursq (k_io k))" "k_state k \<noteq> 0" "g_fb_mem (k_gs k) \<noteq> 0"
  shows "holds ex0 L D S (k_exec (fail_fb_mem (k_do f k)))"
  by (rule fail_fb_mem_holds) (use assms in simp_all)

lemma fail_fb_dma_holds:
  assumes h: "holds ex0 (nz (g_fb_mem (k_gs k)) + (nz (k_cmd3d_buf k) + (fst (queue_assets k) + (buffer_assets k + (nz (k_state k) + L)))))
      (nz (g_fb_mem (k_gs k)) + (nz (k_cmd3d_buf k) + (snd (queue_assets k) + (buffer_assets k + D)))) (lock_assets k + S) (k_exec k)"
    and q: "queue_owned (i_ctrlq (k_io k))" "queue_owned (i_cursq (k_io k))" and s: "k_state k \<noteq> 0" "g_fb_mem (k_gs k) \<noteq> 0"
  shows "holds ex0 L D S (k_exec (fail_fb_dma k))"
  unfolding fail_fb_dma_def
  by (intro fail_fb_mem_after q s holds_end_dma) (use h s(2) in \<open>simp add: nz_pos\<close>)

lemma fail_fb_dma_list_holds:
  assumes h: "holds ex0 (nz (g_fb_mem (k_gs k)) + (nz (k_cmd3d_buf k) + (fst (queue_assets k) + (buffer_assets k + (nz (k_state k) + L)))))
      (nz (g_fb_mem (k_gs k)) + (nz (k_cmd3d_buf k) + (snd (queue_assets k) + (buffer_assets k + D))))
      (nz (g_fb_dma_list (k_gs k)) + (lock_assets k + S)) (k_exec k)"
    and q: "queue_owned (i_ctrlq (k_io k))" "queue_owned (i_cursq (k_io k))" and s: "k_state k \<noteq> 0"
    and a: "fb_alone k" "g_fb_dma_list (k_gs k) \<noteq> 0"
  shows "holds ex0 L D S (k_exec (fail_fb_dma_list k))"
proof -
  define k1 where "k1 = (k_do (FreeSysObject (g_fb_dma_list (k_gs k))) k)\<lparr>k_vsync_mutex := 0\<rparr>"
  have e: "fail_fb_dma_list k = fail_fb_dma k1"
    using a(1) by (simp add: fail_fb_dma_list_def k1_def fb_alone_def free_lock_def)
  have "holds ex0 (nz (g_fb_mem (k_gs k)) + (nz (k_cmd3d_buf k) + (fst (queue_assets k) + (buffer_assets k + (nz (k_state k) + L)))))
      (nz (g_fb_mem (k_gs k)) + (nz (k_cmd3d_buf k) + (snd (queue_assets k) + (buffer_assets k + D)))) (lock_assets k + S)
      (FreeSysObject (g_fb_dma_list (k_gs k)) (k_exec k))"
    by (rule holds_free_obj) (use h a(2) in \<open>simp add: nz_pos\<close>)
  then show ?thesis unfolding e
    by (intro fail_fb_dma_holds) (use q s a(1) in \<open>simp_all add: k1_def fb_alone_def queue_assets_def buffer_assets_def lock_assets_def\<close>)
qed

lemma go_to_holds:
  assumes i: "card_inv ex0 k" and j: "jump_ok l k" and s: "k_state k \<noteq> 0"
  shows "holds ex0 (leaked l k) (leaked l k) {#} (k_exec (go_to l k))"
proof -
  have q: "queue_owned (i_ctrlq (k_io k))" "queue_owned (i_cursq (k_io k))" using i by (simp_all add: card_inv_def)
  note h = i [unfolded card_inv_def, THEN conjunct1]
  show ?thesis
  proof (cases l)
    case Fail_gs
    then show ?thesis using h j s
      by (simp add: leaked_def) (rule fail_gs_holds, simp_all add: no_transport_def no_fb_def queue_assets_def queue_held_def buffer_assets_def fb_mapped_def)
  next
    case Fail_cmd
    then show ?thesis using h j s
      by (simp add: leaked_def) (rule fail_cmd_holds, simp_all add: no_transport_def no_fb_def queue_assets_def queue_held_def buffer_assets_def fb_mapped_def ac_simps)
  next
    case Fail_resp
    then show ?thesis using h j s
      by (simp add: leaked_def) (rule fail_resp_holds, simp_all add: no_transport_def no_fb_def queue_assets_def queue_held_def fb_mapped_def ac_simps)
  next
    case Fail_vqs
    then show ?thesis using h j s q
      by (simp add: leaked_def) (rule fail_vqs_holds, simp_all add: no_fb_def fb_mapped_def ac_simps)
  next
    case Fail_fb_mem
    then show ?thesis using h j s q
      by (simp add: leaked_def) (rule fail_fb_mem_holds, simp_all add: fb_alone_def fb_mapped_def ac_simps)
  next
    case Fail_fb_dma
    then show ?thesis using h j s q
      by (simp add: leaked_def) (rule fail_fb_dma_holds, simp_all add: fb_alone_def fb_mapped_def ac_simps)
  next
    case Fail_fb_dma_list
    then show ?thesis using h j s q
      by (simp add: leaked_def) (rule fail_fb_dma_list_holds, simp_all add: fb_alone_def fb_mapped_def ac_simps)
  qed (use j in simp_all)
qed

end
