(* ===== verification/Card_Correct.thy ===== *)
theory Card_Correct
  imports Card_Books
begin

text \<open>
  The stages of the card's initialisation against the books of \<open>Card_Books\<close>: what each stage leaves when
  it succeeds, and that the label it names otherwise gives back everything the stages took.
\<close>

section \<open>Stages as steps of a protocol\<close>

text \<open>A stage started in \<open>P\<close> ends in \<open>Q\<close>, or names a label for which \<open>bad\<close> holds.\<close>

definition leads :: "(card \<Rightarrow> bool) \<Rightarrow> stage \<Rightarrow> (card \<Rightarrow> bool) \<Rightarrow> (label \<Rightarrow> card \<Rightarrow> bool) \<Rightarrow> bool" where
  "leads P f Q bad \<longleftrightarrow> (\<forall>k r k'. P k \<longrightarrow> f k = Some (r, k') \<longrightarrow> (case r of None \<Rightarrow> Q k' | Some l \<Rightarrow> bad l k'))"

lemma leadsI: "(\<And>k r k'. P k \<Longrightarrow> f k = Some (r, k') \<Longrightarrow> case r of None \<Rightarrow> Q k' | Some l \<Rightarrow> bad l k') \<Longrightarrow> leads P f Q bad"
  by (simp add: leads_def)

lemma leadsD: "leads P f Q bad \<Longrightarrow> P k \<Longrightarrow> f k = Some (r, k') \<Longrightarrow> case r of None \<Rightarrow> Q k' | Some l \<Rightarrow> bad l k'"
  by (simp add: leads_def)

lemma run_stages_leads:
  "(\<And>k. P k \<Longrightarrow> Q k) \<Longrightarrow> leads P (run_stages []) Q bad"
  "leads P f Q bad \<Longrightarrow> leads Q (run_stages fs) R bad \<Longrightarrow> leads P (run_stages (f # fs)) R bad"
  unfolding leads_def by (auto split: Option.bind_splits option.splits)

section \<open>The phases\<close>

definition outer :: "card \<Rightarrow> bool \<times> bool \<times> bool \<times> bool \<times> card_board" where
  "outer k = (k_exp k, k_ipci k, k_locked k, k_published k, k_bi k)"

text \<open>Nothing is open, locked or allocated; the driver state does not exist.\<close>

definition cold :: "card \<Rightarrow> bool" where
  "cold k \<longleftrightarrow> \<not> k_exp k \<and> \<not> k_ipci k \<and> \<not> k_locked k \<and> k_state k = 0"

text \<open>The outcome of a failed initialisation: at most the buffer for 3D commands is still held.\<close>

definition released :: "card \<Rightarrow> card \<Rightarrow> bool" where
  "released k0 k' \<longleftrightarrow> outer k' = (False, False, False, k_published k0, k_bi k0) \<and> k_state k' = 0
     \<and> (\<exists>L. (L = {#} \<or> L = {#k_cmd3d_buf k'#}) \<and> holds (k_exec k0) L L {#} (k_exec k'))"

definition opened :: "card \<Rightarrow> card \<Rightarrow> bool" where
  "opened k0 k \<longleftrightarrow> outer k = (True, True, True, k_published k0, k_bi k0)"

definition alive :: "card \<Rightarrow> card \<Rightarrow> bool" where
  "alive k0 k \<longleftrightarrow> opened k0 k \<and> k_state k \<noteq> 0 \<and> card_inv (k_exec k0) k"

definition no_buffers :: "card \<Rightarrow> bool" where
  "no_buffers k \<longleftrightarrow> k_cmd_buf k = 0 \<and> k_resp_buf k = 0 \<and> k_cursor_cmd_buf k = 0"

definition direct_mmio :: "card \<Rightarrow> bool" where
  "direct_mmio k \<longleftrightarrow> \<not> v_use_pci_cfg (i_vio (k_io k))"

definition framed :: "card \<Rightarrow> bool" where
  "framed k \<longleftrightarrow> fb_alone k \<and> g_fb_dma_count (k_gs k) \<noteq> 0 \<and> g_fb_dma_list (k_gs k) \<noteq> 0"

definition gives_back :: "card \<Rightarrow> label \<Rightarrow> card \<Rightarrow> bool" where
  "gives_back k0 l k \<longleftrightarrow> released k0 (go_to l k)"

lemmas fail_defs = fail_exp_def fail_ipci_def fail_pci_def fail_gs_def fail_cmd_def fail_resp_def fail_vqs_def fail_fb_mem_def
  fail_fb_dma_def fail_fb_dma_list_def

lemma k_do_outer [simp]: "outer (k_do f k) = outer k"
  by (simp add: outer_def k_upd_defs)

lemma go_to_outer:
  assumes "jump_ok l k" "opened k0 k"
  shows "outer (go_to l k) = (False, False, False, k_published k0, k_bi k0)" "k_state (go_to l k) = 0" "k_cmd3d_buf (go_to l k) = k_cmd3d_buf k"
  using assms by (cases l; simp add: fail_defs opened_def outer_def k_upd_defs)+

lemma alive_gives_back:
  assumes "alive k0 k" "jump_ok l k"
  shows "gives_back k0 l k"
proof -
  have a: "opened k0 k" "k_state k \<noteq> 0" "card_inv (k_exec k0) k" using assms(1) by (simp_all add: alive_def)
  have "leaked l k = {#} \<or> leaked l k = {#k_cmd3d_buf (go_to l k)#}"
    using go_to_outer(3) [OF assms(2) a(1)] by (simp add: leaked_def nz_def)
  then show ?thesis unfolding gives_back_def released_def
    using go_to_outer(1,2) [OF assms(2) a(1)] go_to_holds [OF a(3) assms(2) a(2)] by blast
qed

section \<open>Opening the device, the driver state\<close>

lemma holds_obj_nz: "holds ex0 L D S ex \<Longrightarrow> AllocSysObject ex = (p, ex') \<Longrightarrow> holds ex0 L D (nz p + S) ex'"
  by (drule (1) holds_obj) (simp add: nz_def split: if_splits)

lemma holds_alloc_nz: "holds ex0 L D S ex \<Longrightarrow> AllocVecTags ex = (p, ex') \<Longrightarrow> holds ex0 (nz p + L) D S ex'"
  by (drule (1) holds_alloc) (simp add: nz_def split: if_splits)

lemma k_call_eq: "k_call f k = (r, k') \<longleftrightarrow> (\<exists>ex. f (k_exec k) = (r, ex) \<and> k' = k_do (\<lambda>_. ex) k)"
  by (auto simp: k_call_def split: prod.splits)

lemma k_bus_eq: "k_bus f k = (r, k') \<longleftrightarrow> (\<exists>b. f (i_bus (k_io k)) = (r, b) \<and> k' = on_kio (\<lambda>io. io\<lparr>i_bus := b\<rparr>) k)"
  by (auto simp: k_bus_def split: prod.splits)

lemma nothing_held [simp]: "\<exists>L. (L = {#} \<or> L = {#x#}) \<and> holds ex L L {#} ex"
  by (rule exI [of _ "{#}"]) (simp add: holds_refl)

lemma open_device_leads:
  assumes "cold k0"
  shows "leads (\<lambda>k. k = k0) (open_device bt) (\<lambda>k. opened k0 k \<and> k_disp k = k_disp k0 \<and> k_state k = 0) (gives_back k0)"
  using assms
  by (auto intro!: leadsI simp: open_device_def Let_def cold_def opened_def outer_def gives_back_def released_def fail_exp_def fail_ipci_def
      split: Option.bind_splits if_splits)

lemmas asset_defs = lock_assets_def queue_assets_def buffer_assets_def fb_mapped_def queue_held_def queue_owned_def

lemmas clear_defs = no_transport_def no_fb_def

lemma zero_disp_fields [simp]:
  "i_exec (g_io (d_gs (zero_disp d))) = i_exec (g_io (d_gs d))" "i_bus (g_io (d_gs (zero_disp d))) = i_bus (g_io (d_gs d))"
  "i_ctrlq (g_io (d_gs (zero_disp d))) = None" "i_cursq (g_io (d_gs (zero_disp d))) = None" "g_fb_mem (d_gs (zero_disp d)) = 0"
  "g_fb_dma_list (d_gs (zero_disp d)) = 0" "g_fb_dma_count (d_gs (zero_disp d)) = 0" "d_fb_mem2 (zero_disp d) = 0"
  "d_fb_dma_list2 (zero_disp d) = 0" "\<not> v_use_pci_cfg (i_vio (g_io (d_gs (zero_disp d))))"
  by (simp_all add: zero_disp_def zero_gpu_def zero_io_def zero_vio_def)

lemma alloc_state_leads:
  "leads (\<lambda>k. opened k0 k \<and> k_disp k = k_disp k0 \<and> k_state k = 0) alloc_state
     (\<lambda>k. alive k0 k \<and> no_transport k \<and> no_buffers k) (gives_back k0)"
proof (rule leadsI)
  fix k r k' assume p: "opened k0 k \<and> k_disp k = k_disp k0 \<and> k_state k = 0" and run: "alloc_state k = Some (r, k')"
  obtain gs e1 where 1: "AllocVecTags (k_exec k) = (gs, e1)" by fastforce
  obtain a e2 where 2: "AllocSysObject e1 = (a, e2)" by fastforce
  obtain b e3 where 3: "AllocSysObject e2 = (b, e3)" by fastforce
  obtain c e4 where 4: "AllocSysObject e3 = (c, e4)" by fastforce
  have h1: "holds (k_exec k0) {#} {#} {#} (k_exec k)" using p by (simp add: holds_refl)
  note h2 = holds_alloc_nz [OF h1 1]
  note h4 = holds_obj_nz [OF holds_obj_nz [OF holds_obj_nz [OF h2 2] 3] 4]
  show "case r of None \<Rightarrow> alive k0 k' \<and> no_transport k' \<and> no_buffers k' | Some l \<Rightarrow> gives_back k0 l k'"
  proof (cases "gs = 0")
    case True
    then have "r = Some Fail_pci" "k' = k_do (\<lambda>_. e1) k" using run 1 by (auto simp: alloc_state_def k_call_def)
    then show ?thesis using p h2 True
      by (auto simp: gives_back_def released_def fail_defs opened_def outer_def k_upd_defs)
  next
    case False
    let ?k = "(on_kdisp zero_disp (k_do (\<lambda>_. e1) k))\<lparr>k_bars := replicate 6 no_bar, k_num_queues := 0, k_irq_number := 0, k_state := gs,
             k_cmd_buf := 0, k_resp_buf := 0, k_cursor_cmd_buf := 0, k_cmd3d_buf := 0, k_cmd3d_lock := 0, k_vsync_mutex := 0,
             k_next_fence_id := 0\<rparr>"
    let ?r = "(k_do (\<lambda>_. e4) ?k)\<lparr>k_io_lock := a, k_cursor_lock := b, k_alloc_mutex := c\<rparr>"
    have ex: "k_exec ?k = e1" by (simp add: k_upd_defs)
    have run': "alloc_state k = Some (if a = 0 \<or> b = 0 \<or> c = 0 then Some Fail_gs else None, ?r)"
      using False 1 2 3 4 ex by (simp add: alloc_state_def k_call_def k_do_comp o_def)
    have "alive k0 ?r" using h4 p False
      by (simp add: alive_def opened_def outer_def card_inv_def asset_defs k_upd_defs nz_pos ac_simps)
    moreover have "no_transport ?r \<and> no_buffers ?r" by (simp add: clear_defs no_buffers_def k_upd_defs)
    ultimately show ?thesis using run run' alive_gives_back [of k0 ?r Fail_gs] by (auto simp: no_buffers_def)
  qed
qed

section \<open>Probing and the buffers\<close>

lemma note_region_mmio: "note_region t n off co v b = (v', b') \<Longrightarrow> v_use_pci_cfg v' = v_use_pci_cfg v"
  by (auto simp: note_region_def split: if_splits prod.splits)

lemma place_region_mmio: "v_use_pci_cfg (place_region c bars t n off v) = v_use_pci_cfg v"
  by (simp add: place_region_def Let_def)

lemma scan_cap_mmio: "scan_cap c bars co v b = (v', b') \<Longrightarrow> v_use_pci_cfg v' = v_use_pci_cfg v"
  by (auto simp: scan_cap_def place_region_mmio split: if_splits prod.splits dest: note_region_mmio)

lemma scan_caps_mmio: "scan_caps c bars g caps v b = (v', b') \<Longrightarrow> v_use_pci_cfg v' = v_use_pci_cfg v"
proof (induction c bars g caps v b arbitrary: v' b' rule: scan_caps.induct)
  case (2 c bars guard cap caps v b)
  obtain w b1 where s: "scan_cap c bars (cap_CapOffset cap) v b = (w, b1)" by fastforce
  have w: "v_use_pci_cfg w = v_use_pci_cfg v" by (rule scan_cap_mmio [OF s])
  consider "32 \<le> guard" | "guard < 32" "cap_Type cap = PCI_CAPABILITYID_VENDOR c" | "guard < 32" "cap_Type cap \<noteq> PCI_CAPABILITYID_VENDOR c"
    by linarith
  then show ?case
  proof cases
    case 1
    then show ?thesis using 2(3) by simp
  next
    case c2: 2
    then have "scan_caps c bars (Suc guard) caps w b1 = (v', b')" using 2(3) s by simp
    then show ?thesis using 2(2) [OF c2(1) _ refl s [symmetric]] c2(2) w by simp
  next
    case 3
    then show ?thesis using 2(1) [OF 3] 2(3) by simp
  qed
qed simp

lemma scan_pci_caps_mmio: "chip_scan_pci_caps c bars dev v b = (ok, v', b') \<Longrightarrow> \<not> v_use_pci_cfg v'"
proof -
  assume run: "chip_scan_pci_caps c bars dev v b = (ok, v', b')"
  obtain w b1 where s: "scan_caps c bars 0 (pd_caps dev) (no_regions v) b = (w, b1)" by fastforce
  have "v_use_pci_cfg w = v_use_pci_cfg (no_regions v)" by (rule scan_caps_mmio [OF s])
  then have "\<not> v_use_pci_cfg w" by (simp add: no_regions_def)
  moreover have "v' = w \<or> v' = w\<lparr>v_use_pci_cfg := False\<rparr>" using run s
    by (simp add: chip_scan_pci_caps_def split: if_splits prod.splits)
  ultimately show ?thesis by auto
qed

text \<open>A change that leaves the books and the flags of the cleanup alone.\<close>

definition books :: "card \<Rightarrow> _" where
  "books k = (outer k, k_state k, buffer_assets k, queue_assets k, lock_assets k, fb_mapped k, k_vsync_mutex k,
     (k_cmd_buf k, k_resp_buf k, k_cursor_cmd_buf k, k_cmd3d_buf k, k_cmd3d_lock k),
     (g_fb_mem (k_gs k), g_fb_dma_list (k_gs k), g_fb_dma_count (k_gs k), d_fb_mem2 (k_disp k), d_fb_dma_list2 (k_disp k)),
     i_ctrlq (k_io k), i_cursq (k_io k), holdings (k_exec k))"

lemma books_keep:
  assumes "books k' = books k"
  shows "alive k0 k' = alive k0 k" "no_transport k' = no_transport k" "no_buffers k' = no_buffers k" "no_fb k' = no_fb k"
    "framed k' = framed k" "fb_alone k' = fb_alone k"
proof -
  have "holds e L D S (k_exec k') = holds e L D S (k_exec k)" for e L D S
    by (rule holds_holdings) (use assms in \<open>simp add: books_def\<close>)
  then show "alive k0 k' = alive k0 k" "no_transport k' = no_transport k" "no_buffers k' = no_buffers k" "no_fb k' = no_fb k"
    "framed k' = framed k" "fb_alone k' = fb_alone k"
    using assms by (simp_all add: books_def alive_def opened_def card_inv_def clear_defs no_buffers_def framed_def fb_alone_def)
qed

lemma books_on_kio:
  assumes "i_ctrlq (f (k_io k)) = i_ctrlq (k_io k)" "i_cursq (f (k_io k)) = i_cursq (k_io k)" "holdings (i_exec (f (k_io k))) = holdings (k_exec k)"
  shows "books (on_kio f k) = books k"
  using assms by (simp add: books_def outer_def asset_defs k_upd_defs)

lemma books_bus [simp]: "books (on_kio (\<lambda>io. io\<lparr>i_bus := b\<rparr>) k) = books k" "books (on_kio (do_bus g) k) = books k"
    "books (on_kio (\<lambda>io. io\<lparr>i_vio := v, i_bus := b\<rparr>) k) = books k"
  by (rule books_on_kio; simp add: do_bus_def)+

lemma books_extra [simp]: "books (k\<lparr>k_setcaps := s\<rparr>) = books k" "books (k\<lparr>k_bars := bs\<rparr>) = books k"
    "books (k\<lparr>k_mmu := m\<rparr>) = books k" "books (k\<lparr>k_num_queues := n\<rparr>) = books k" "books (k\<lparr>k_next_fence_id := u\<rparr>) = books k"
    "books (k\<lparr>k_irq_number := u\<rparr>) = books k" "books (k\<lparr>k_irq_servers := us\<rparr>) = books k"
  by (simp_all add: books_def outer_def asset_defs)

lemma probe_device_leads:
  "leads (\<lambda>k. alive k0 k \<and> no_transport k \<and> no_buffers k) (probe_device bt)
     (\<lambda>k. alive k0 k \<and> no_transport k \<and> no_buffers k \<and> direct_mmio k) (gives_back k0)"
proof (rule leadsI)
  fix k r k' assume p: "alive k0 k \<and> no_transport k \<and> no_buffers k" and run: "probe_device bt k = Some (r, k')"
  obtain setcap b0 where 1: "pci_enable (bt_sdk bt) (bt_dev bt) (i_bus (k_io k)) = (setcap, b0)" by fastforce
  define ka where "ka = on_kio (do_bus (repair_bars (bt_sdk bt) 0)) ((on_kio (\<lambda>io. io\<lparr>i_bus := b0\<rparr>) k)
    \<lparr>k_setcaps := k_setcaps (on_kio (\<lambda>io. io\<lparr>i_bus := b0\<rparr>) k) @ (case setcap of None \<Rightarrow> [] | Some x \<Rightarrow> [x])\<rparr>)"
  obtain bars m where 2: "chip_scan_bars (bt_sdk bt) (bt_dev bt) (k_bars ka) (k_mmu ka) = (bars, m)" by fastforce
  define k1 where "k1 = ka\<lparr>k_bars := bars, k_mmu := m\<rparr>"
  obtain ok v b where 3: "chip_scan_pci_caps (bt_sdk bt) bars (bt_dev bt) (i_vio (k_io k1)) (i_bus (k_io k1)) = (ok, v, b)" by (metis surj_pair)
  have s: "books k1 = books k" "k' = on_kio (\<lambda>io. io\<lparr>i_vio := v, i_bus := b\<rparr>) k1"
    "chip_scan_pci_caps (bt_sdk bt) bars (bt_dev bt) (i_vio (k_io k1)) (i_bus (k_io k1)) = (ok, v, b)" "r = (if ok then None else Some Fail_gs)"
  proof -
    have "probe_device bt k = Some (if ok then None else Some Fail_gs, on_kio (\<lambda>io. io\<lparr>i_vio := v, i_bus := b\<rparr>) k1)"
      unfolding probe_device_def Let_def k_bus_def 1 prod.case ka_def [symmetric] 2 k1_def [symmetric] 3 by (rule refl)
    then show "k' = on_kio (\<lambda>io. io\<lparr>i_vio := v, i_bus := b\<rparr>) k1" "r = (if ok then None else Some Fail_gs)" using run by simp_all
  qed (use 3 in \<open>simp_all add: k1_def ka_def\<close>)
  have "books k' = books k" by (simp add: s(1,2))
  note bk = books_keep [OF this]
  have "direct_mmio k'" using scan_pci_caps_mmio [OF s(3)] by (simp add: s(2) direct_mmio_def k_upd_defs)
  then show "case r of None \<Rightarrow> alive k0 k' \<and> no_transport k' \<and> no_buffers k' \<and> direct_mmio k' | Some l \<Rightarrow> gives_back k0 l k'"
    using p s(4) alive_gives_back [of k0 k' Fail_gs] bk by (simp add: no_buffers_def)
qed

text \<open>The holdings of a card, as sums that a new item joins at the front.\<close>

lemma card_inv_holds:
  "card_inv ex0 k \<Longrightarrow> holds ex0 (nz (k_state k) + buffer_assets k + fst (queue_assets k) + nz (k_cmd3d_buf k) + nz (g_fb_mem (k_gs k)))
       (buffer_assets k + snd (queue_assets k) + nz (k_cmd3d_buf k) + fb_mapped k)
       (lock_assets k + nz (g_fb_dma_list (k_gs k)) + nz (k_vsync_mutex k)) (k_exec k)"
  by (simp add: card_inv_def)

lemma dma_alloc_nz:
  assumes "holds ex0 L D S ex" "chip_dma_alloc ex = (r, ex')"
  shows "case r of None \<Rightarrow> holds ex0 L D S ex' | Some (mem, phys) \<Rightarrow> mem \<noteq> 0 \<and> holds ex0 (nz mem + L) (nz mem + D) S ex'"
  using dma_alloc_holds [OF assms] by (auto simp: nz_def split: option.splits prod.splits)

lemma alloc_buffers_leads:
  "leads (\<lambda>k. alive k0 k \<and> no_transport k \<and> no_buffers k \<and> direct_mmio k) alloc_buffers
     (\<lambda>k. alive k0 k \<and> no_transport k \<and> direct_mmio k) (gives_back k0)"
proof (rule leadsI)
  fix k r k' assume p: "alive k0 k \<and> no_transport k \<and> no_buffers k \<and> direct_mmio k" and run: "alloc_buffers k = Some (r, k')"
  have inv: "card_inv (k_exec k0) k" and op: "opened k0 k" "k_state k \<noteq> 0" using p by (simp_all add: alive_def)
  note base = card_inv_holds [OF inv]
  define L where "L = nz (k_state k) + fst (queue_assets k) + nz (k_cmd3d_buf k) + nz (g_fb_mem (k_gs k))"
  define D where "D = snd (queue_assets k) + nz (k_cmd3d_buf k) + fb_mapped k"
  define S where "S = lock_assets k + nz (g_fb_dma_list (k_gs k)) + nz (k_vsync_mutex k)"
  have h0: "holds (k_exec k0) L D S (k_exec k)"
    using base p by (simp add: L_def D_def S_def buffer_assets_def no_buffers_def ac_simps)
  have goal: "alive k0 k2 \<and> no_transport k2 \<and> direct_mmio k2"
    if "k2 = (on_kio f k)\<lparr>k_cmd_buf := a, k_resp_buf := b, k_cursor_cmd_buf := c\<rparr>"
      "holds (k_exec k0) (nz c + (nz b + (nz a + L))) (nz c + (nz b + (nz a + D))) S (i_exec (f (k_io k)))"
      "i_ctrlq (f (k_io k)) = i_ctrlq (k_io k)" "i_cursq (f (k_io k)) = i_cursq (k_io k)" "i_vio (f (k_io k)) = i_vio (k_io k)" for k2 f a b c
    using that(2-) p op inv unfolding that(1)
    by (simp add: alive_def opened_def outer_def card_inv_def asset_defs clear_defs direct_mmio_def k_upd_defs L_def D_def S_def ac_simps)
  show "case r of None \<Rightarrow> alive k0 k' \<and> no_transport k' \<and> direct_mmio k' | Some l \<Rightarrow> gives_back k0 l k'"
  proof -
    obtain r1 e1 where 1: "chip_dma_alloc (k_exec k) = (r1, e1)" by fastforce
    note h1 = dma_alloc_nz [OF h0 1]
    have z: "k_cmd_buf k = 0" "k_resp_buf k = 0" "k_cursor_cmd_buf k = 0" using p by (simp_all add: no_buffers_def)
    show ?thesis
    proof (cases r1)
      case None
      have k': "k' = (on_kio (\<lambda>io. io\<lparr>i_exec := e1\<rparr>) k)\<lparr>k_cmd_buf := 0, k_resp_buf := 0, k_cursor_cmd_buf := 0\<rparr>" and r: "r = Some Fail_gs"
        using run 1 None z by (auto simp: alloc_buffers_def k_call_def k_upd_defs)
      show ?thesis using goal [OF k'] h1 None alive_gives_back [of k0 k' Fail_gs] r by (simp add: k')
    next
      case s1: (Some m1)
      obtain mem phys where m1: "m1 = (mem, phys)" by fastforce
      have h1: "mem \<noteq> 0" "holds (k_exec k0) (nz mem + L) (nz mem + D) S e1" using h1 s1 m1 by simp_all
      obtain r2 e2 where 2: "chip_dma_alloc e1 = (r2, e2)" by fastforce
      note h2 = dma_alloc_nz [OF h1(2) 2]
      define f1 where "f1 = (\<lambda>io :: io. io\<lparr>i_exec := e1, i_cmd_buf := replicate 4096 0, i_cmd_buf_phys := phys\<rparr>)"
      show ?thesis
      proof (cases r2)
        case None
        have k': "k' = (on_kio (\<lambda>io. (f1 io)\<lparr>i_exec := e2\<rparr>) k)\<lparr>k_cmd_buf := mem, k_resp_buf := 0, k_cursor_cmd_buf := 0\<rparr>" and r: "r = Some Fail_cmd"
          using run 1 2 None s1 m1 z by (auto simp: alloc_buffers_def k_call_def k_upd_defs f1_def)
        show ?thesis using goal [OF k'] h2 None alive_gives_back [of k0 k' Fail_cmd] r by (simp add: k' f1_def)
      next
        case s2: (Some m2)
        obtain mem2 phys2 where m2: "m2 = (mem2, phys2)" by fastforce
        have h2: "mem2 \<noteq> 0" "holds (k_exec k0) (nz mem2 + (nz mem + L)) (nz mem2 + (nz mem + D)) S e2" using h2 s2 m2 by simp_all
        obtain r3 e3 where 3: "chip_dma_alloc e2 = (r3, e3)" by fastforce
        note h3 = dma_alloc_nz [OF h2(2) 3]
        define f2 where "f2 = (\<lambda>io :: io. (f1 io)\<lparr>i_exec := e2, i_resp_buf := replicate 4096 0, i_resp_buf_phys := phys2\<rparr>)"
        show ?thesis
        proof (cases r3)
          case None
          have k': "k' = (on_kio (\<lambda>io. (f2 io)\<lparr>i_exec := e3\<rparr>) k)\<lparr>k_cmd_buf := mem, k_resp_buf := mem2, k_cursor_cmd_buf := 0\<rparr>" and r: "r = None"
            using run 1 2 3 None s1 m1 s2 m2 z by (auto simp: alloc_buffers_def k_call_def k_upd_defs f1_def f2_def)
          show ?thesis using goal [OF k'] h3 None r by (simp add: f1_def f2_def)
        next
          case (Some m3)
          obtain mem3 phys3 where m3: "m3 = (mem3, phys3)" by fastforce
          have k': "k' = (on_kio (\<lambda>io. (f2 io)\<lparr>i_exec := e3, i_cursor_cmd_buf := Some (replicate 4096 0), i_cursor_cmd_phys := phys3\<rparr>) k)
              \<lparr>k_cmd_buf := mem, k_resp_buf := mem2, k_cursor_cmd_buf := mem3\<rparr>" and r: "r = None"
            using run 1 2 3 Some s1 m1 s2 m2 m3 by (auto simp: alloc_buffers_def k_call_def k_upd_defs f1_def f2_def)
          show ?thesis using goal [OF k'] h3 Some m3 r by (simp add: f1_def f2_def)
        qed
      qed
    qed
  qed
qed

section \<open>Transport, interrupt, 3D\<close>

definition no_3d :: "card \<Rightarrow> bool" where
  "no_3d k \<longleftrightarrow> k_cmd3d_buf k = 0 \<and> k_cmd3d_lock k = 0"

lemma live_owned: "live_queue q vq \<Longrightarrow> queue_owned (Some vq)"
  by (auto simp: live_queue_def empty_queue_def queue_owned_def direct_def)

lemma no_queue_owned [simp]: "queue_owned None"
  by (simp add: queue_owned_def)

lemma queues_live_owned: "queues_live v io \<Longrightarrow> queue_owned (i_ctrlq io) \<and> queue_owned (i_cursq io)"
  by (cases "i_cursq io") (auto simp: queues_live_def intro: live_owned)

lemma start_transport_leads:
  "leads (\<lambda>k. alive k0 k \<and> no_transport k \<and> direct_mmio k) start_transport
     (\<lambda>k. alive k0 k \<and> no_fb k \<and> no_3d k) (gives_back k0)"
proof (rule leadsI)
  fix k r k' assume p: "alive k0 k \<and> no_transport k \<and> direct_mmio k" and run: "start_transport k = Some (r, k')"
  have inv: "card_inv (k_exec k0) k" and op: "opened k0 k" "k_state k \<noteq> 0" using p by (simp_all add: alive_def)
  define L where "L = nz (k_state k) + buffer_assets k"
  define S where "S = lock_assets k"
  have h0: "holds (k_exec k0) L (buffer_assets k) S (k_exec k)"
    using card_inv_holds [OF inv] p by (simp add: L_def S_def clear_defs queue_assets_def queue_held_def fb_mapped_def)
  have m: "\<not> v_use_pci_cfg (i_vio (k_io k))" and none: "i_ctrlq (k_io k) = None" "i_cursq (k_io k) = None"
    using p by (simp_all add: direct_mmio_def clear_defs)
  obtain ok gs' n' lo hi where res: "chip_virtio_init (k_gs k) (k_num_queues k) = Some (ok, gs', n')"
    "init_outcome (k_gs k) (k_exec k0) L (buffer_assets k) S ok gs' lo hi"
    using virtio_init_result [OF m h0 none] by blast
  have k': "k' = (on_kgs (\<lambda>_. gs') k)\<lparr>k_num_queues := n'\<rparr>" and r: "r = (if ok then None else Some Fail_resp)"
    using run res(1) by (auto simp: start_transport_def)
  obtain x y bus ex c d where gs': "gs' = (k_gs k)\<lparr>g_has_virgl := x, g_has_blob := y,
     g_io := (k_io k)\<lparr>i_bus := bus, i_exec := ex, i_ctrlq := c, i_cursq := d\<rparr>\<rparr>"
  proof -
    have "init_frame (k_gs k) gs'" using res(2) by (simp add: init_outcome_def Let_def)
    then show thesis using that by (auto simp: init_frame_def)
  qed
  have own: "queue_owned c \<and> queue_owned d" and cd: "\<not> ok \<Longrightarrow> c = None \<and> d = None"
    using res(2) queues_live_owned [of _ "g_io gs'"] by (auto simp: init_outcome_def Let_def gs' split: if_splits)
  have h1: "holds (k_exec k0) (fst (queue_held c) + (fst (queue_held d) + L)) (snd (queue_held c) + (snd (queue_held d) + buffer_assets k)) S ex"
    using res(2) by (auto simp: init_outcome_def Let_def gs')
  have al: "alive k0 k'" unfolding k' gs' using op h1 own p
    by (simp add: alive_def opened_def outer_def card_inv_def lock_assets_def queue_assets_def buffer_assets_def fb_mapped_def
        clear_defs k_upd_defs L_def S_def ac_simps)
  have "no_fb k' \<and> no_3d k'" and "\<not> ok \<Longrightarrow> no_transport k'"
    unfolding k' gs' using p cd by (simp_all add: clear_defs no_3d_def k_upd_defs)
  then show "case r of None \<Rightarrow> alive k0 k' \<and> no_fb k' \<and> no_3d k' | Some l \<Rightarrow> gives_back k0 l k'"
    using al alive_gives_back [of k0 k' Fail_resp] r by simp
qed

lemma install_irq_leads:
  "leads (\<lambda>k. alive k0 k \<and> no_fb k \<and> no_3d k) (install_irq bt) (\<lambda>k. alive k0 k \<and> no_fb k \<and> no_3d k) (gives_back k0)"
proof (rule leadsI)
  fix k r k' assume p: "alive k0 k \<and> no_fb k \<and> no_3d k" and run: "install_irq bt k = Some (r, k')"
  obtain ok st where i: "chip_irq_install (bt_vector bt) (bt_addint bt)
      \<lparr>irq_io = k_io k, irq_number = k_irq_number k, irq_servers = k_irq_servers k\<rparr> = (ok, st)" by fastforce
  define k1 where "k1 = (on_kio (\<lambda>_. irq_io st) k)\<lparr>k_irq_number := irq_number st, k_irq_servers := irq_servers st\<rparr>"
  have "irq_io st = k_io k \<or> irq_io st = (k_io k)\<lparr>i_irq_installed := True\<rparr>"
    using i by (auto simp: chip_irq_install_def Let_def split: if_splits)
  then have "books (on_kio (\<lambda>_. irq_io st) k) = books k" by (intro books_on_kio) auto
  then have b1: "books k1 = books k" by (simp add: k1_def)
  have "r = None \<and> books k' = books k"
  proof (cases ok)
    case True
    obtain w b where c: "config_read16 (PCI_COMMAND (bt_sdk bt)) (i_bus (k_io k1)) = (w, b)" by fastforce
    have "install_irq bt k = Some (None, on_kio (do_bus (bus_do (WriteConfigWord (PCI_COMMAND (bt_sdk bt))
        (w AND NOT (PCI_COMMAND_INT_DISABLE (bt_sdk bt)))))) (on_kio (\<lambda>io. io\<lparr>i_bus := b\<rparr>) k1))"
      unfolding install_irq_def Let_def i prod.case k1_def [symmetric] k_bus_def c if_P [OF True] by (rule refl)
    then show ?thesis using run b1 by simp
  next
    case False
    have "install_irq bt k = Some (None, k1)"
      unfolding install_irq_def Let_def i prod.case k1_def [symmetric] if_not_P [OF False] by (rule refl)
    then show ?thesis using run b1 by simp
  qed
  moreover then have "no_3d k' = no_3d k" by (simp add: books_def no_3d_def)
  ultimately show "case r of None \<Rightarrow> alive k0 k' \<and> no_fb k' \<and> no_3d k' | Some l \<Rightarrow> gives_back k0 l k'"
    using p books_keep [of k' k] by simp
qed

lemma prepare_3d_leads:
  "leads (\<lambda>k. alive k0 k \<and> no_fb k \<and> no_3d k) prepare_3d (\<lambda>k. alive k0 k \<and> no_fb k) (gives_back k0)"
proof (rule leadsI)
  fix k r k' assume p: "alive k0 k \<and> no_fb k \<and> no_3d k" and run: "prepare_3d k = Some (r, k')"
  have inv: "card_inv (k_exec k0) k" and op: "opened k0 k" "k_state k \<noteq> 0" using p by (simp_all add: alive_def)
  define L where "L = nz (k_state k) + buffer_assets k + fst (queue_assets k)"
  define D where "D = buffer_assets k + snd (queue_assets k)"
  define S where "S = nz (k_io_lock k) + nz (k_cursor_lock k) + nz (k_alloc_mutex k)"
  have h0: "holds (k_exec k0) L D S (k_exec k)"
    using card_inv_holds [OF inv] p by (simp add: L_def D_def S_def lock_assets_def no_3d_def no_fb_def fb_mapped_def)
  have goal: "alive k0 k2 \<and> no_fb k2"
    if "k2 = (on_kgs f k)\<lparr>k_cmd3d_buf := a, k_cmd3d_lock := l, k_next_fence_id := n\<rparr>"
      "holds (k_exec k0) (nz a + L) (nz a + D) (nz l + S) (i_exec (g_io (f (k_gs k))))"
      "i_ctrlq (g_io (f (k_gs k))) = i_ctrlq (k_io k)" "i_cursq (g_io (f (k_gs k))) = i_cursq (k_io k)"
      "fb_fields (f (k_gs k)) = fb_fields (k_gs k)" for k2 f a l n
    using that(2-) p op inv unfolding that(1)
    by (simp add: alive_def opened_def outer_def card_inv_def asset_defs no_fb_def no_3d_def k_upd_defs L_def D_def S_def fb_fields_def ac_simps)
  show "case r of None \<Rightarrow> alive k0 k' \<and> no_fb k' | Some l \<Rightarrow> gives_back k0 l k'"
  proof (cases "g_has_virgl (k_gs k) \<and> v_device_cfg_base (i_vio (k_io k)) \<noteq> 0")
    case False
    then show ?thesis using run p by (auto simp: prepare_3d_def)
  next
    case t: True
    obtain n b where 1: "devcfg_r32 (i_vio (k_io k)) 12 (i_bus (k_io k)) = (n, b)" by fastforce
    obtain r1 e1 where 2: "chip_dma_alloc (k_exec k) = (r1, e1)" by fastforce
    note h1 = dma_alloc_nz [OF h0 2]
    have z: "k_cmd3d_buf k = 0" "k_cmd3d_lock k = 0" using p by (simp_all add: no_3d_def)
    define f0 where "f0 = (\<lambda>gs :: gpu. gs\<lparr>g_num_capsets := n, g_next_resource_id := 3, g_next_ctx_id := 1\<rparr>)"
    show ?thesis
    proof (cases r1)
      case None
      have k': "k' = (on_kgs (\<lambda>gs. (f0 gs)\<lparr>g_has_virgl := False, g_io := (g_io gs)\<lparr>i_bus := b, i_exec := e1\<rparr>\<rparr>) k)
          \<lparr>k_cmd3d_buf := 0, k_cmd3d_lock := 0, k_next_fence_id := 1\<rparr>" and r: "r = None"
        using run t 1 2 None z by (auto simp: prepare_3d_def k_call_def k_bus_def k_upd_defs f0_def)
      show ?thesis using goal [OF k'] h1 None r by (simp add: f0_def fb_fields_def)
    next
      case (Some m)
      obtain mem phys where m: "m = (mem, phys)" by fastforce
      obtain l e2 where 3: "AllocSysObject e1 = (l, e2)" by fastforce
      have h2: "mem \<noteq> 0" "holds (k_exec k0) (nz mem + L) (nz mem + D) (nz l + S) e2" using h1 Some m holds_obj_nz [OF _ 3] by auto
      show ?thesis
      proof (cases "l = 0")
        case True
        have k': "k' = (on_kgs (\<lambda>gs. (f0 gs)\<lparr>g_has_virgl := False, g_io := (g_io gs)\<lparr>i_bus := b, i_cmd3d_phys := phys,
            i_exec := chip_dma_free mem e2\<rparr>\<rparr>) k)\<lparr>k_cmd3d_buf := 0, k_cmd3d_lock := 0, k_next_fence_id := 1\<rparr>" and r: "r = None"
          using run t 1 2 3 Some m True z by (auto simp: prepare_3d_def k_call_def k_bus_def k_upd_defs f0_def)
        show ?thesis using goal [OF k'] dma_free_nz h2 True r by (simp add: f0_def fb_fields_def)
      next
        case False
        have k': "k' = (on_kgs (\<lambda>gs. (f0 gs)\<lparr>g_io := (g_io gs)\<lparr>i_bus := b, i_cmd3d_phys := phys,
            i_exec := e2, i_cmd3d_buf := Some (replicate 65536 0)\<rparr>\<rparr>) k)\<lparr>k_cmd3d_buf := mem, k_cmd3d_lock := l, k_next_fence_id := 1\<rparr>" and r: "r = None"
          using run t 1 2 3 Some m False by (auto simp: prepare_3d_def k_call_def k_bus_def k_upd_defs f0_def)
        show ?thesis using goal [OF k'] h2 r by (simp add: f0_def fb_fields_def)
      qed
    qed
  qed
qed

section \<open>Commands and the framebuffer\<close>

lemma queue_id_held: "map_option queue_id q' = map_option queue_id q \<Longrightarrow> queue_held q' = queue_held q"
  by (cases q; cases q') (auto simp: queue_held_def queue_id_def queue_blocks_def)

lemma queue_id_owned:
  "map_option queue_id q' = map_option queue_id q \<Longrightarrow> queue_owned q \<Longrightarrow> (\<forall>vq. q' = Some vq \<longrightarrow> direct vq) \<Longrightarrow> queue_owned q'"
  by (cases q; cases q') (auto simp: queue_owned_def queue_id_def)

lemma owned_direct:
  assumes "queue_owned (i_ctrlq io)" "queue_owned (i_cursq io)"
  shows "direct_io io"
proof (unfold direct_io_def, intro allI impI)
  fix sel vq assume "the_queue sel io = Some vq"
  then show "direct vq" using assms by (cases sel) (auto simp: queue_owned_def)
qed

text \<open>A command that returns leaves the card as alive as it was.\<close>

lemma command_keeps:
  assumes a: "alive k0 k" and c: "gpu_calm (k_gs k) gs'"
  defines "k' \<equiv> on_kgs (\<lambda>_. gs') k"
  shows "alive k0 k'" "no_fb k' = no_fb k" "framed k' = framed k"
proof -
  have own: "queue_owned (i_ctrlq (k_io k))" "queue_owned (i_cursq (k_io k))" using a by (simp_all add: alive_def card_inv_def)
  have d: "direct_io (g_io gs')" "holdings (i_exec (g_io gs')) = holdings (k_exec k)"
    "\<And>sel. map_option queue_id (the_queue sel (g_io gs')) = map_option queue_id (the_queue sel (k_io k))"
    using c owned_direct [OF own] by (simp_all add: gpu_calm_def calm_def)
  have q: "queue_held (i_ctrlq (g_io gs')) = queue_held (i_ctrlq (k_io k))" "queue_held (i_cursq (g_io gs')) = queue_held (i_cursq (k_io k))"
    using queue_id_held [OF d(3) [of Ctrl]] queue_id_held [OF d(3) [of Curs]] by simp_all
  have o: "queue_owned (i_ctrlq (g_io gs'))" "queue_owned (i_cursq (g_io gs'))"
    using queue_id_owned [OF d(3) [of Ctrl]] queue_id_owned [OF d(3) [of Curs]] own d(1)
    by (auto simp: direct_io_def dest: spec [of _ Ctrl] spec [of _ Curs])
  have f: "fb_fields gs' = fb_fields (k_gs k)" using c by (simp add: gpu_calm_def)
  have h: "holds e L D S (i_exec (g_io gs')) = holds e L D S (k_exec k)" for e L D S by (rule holds_holdings [OF d(2)])
  have m: "fb_mapped k' = fb_mapped k" using f by (simp add: fb_mapped_def k'_def k_upd_defs fb_fields_def)
  show "alive k0 k'" using a q o f h unfolding alive_def card_inv_def m
    by (simp add: opened_def outer_def lock_assets_def queue_assets_def buffer_assets_def k'_def k_upd_defs fb_fields_def)
  show "no_fb k' = no_fb k" "framed k' = framed k"
    using f by (simp_all add: no_fb_def framed_def fb_alone_def k'_def k_upd_defs fb_fields_def)
qed

lemma k_gpu_keeps:
  assumes "k_gpu f k = Some (r, k')" "alive k0 k" "\<And>gs'. f (k_gs k) = Some (r, gs') \<Longrightarrow> gpu_calm (k_gs k) gs'"
  shows "alive k0 k' \<and> no_fb k' = no_fb k \<and> framed k' = framed k"
  using assms command_keeps by (auto simp: k_gpu_def split: Option.bind_splits)

lemma choose_resolution_keeps:
  assumes "choose_resolution env k = Some (wh, k')" "alive k0 k"
  shows "alive k0 k' \<and> no_fb k' = no_fb k"
proof -
  obtain got k1 where 1: "k_gpu (chip_GetEDID env 0) k = Some (got, k1)" using assms(1)
    by (auto simp: choose_resolution_def split: Option.bind_splits)
  have k1: "alive k0 k1 \<and> no_fb k1 = no_fb k" using k_gpu_keeps [OF 1 assms(2)] get_edid_calm by blast
  from assms(1) 1 have "k' = k1 \<or> (\<exists>r. k_gpu (with_io (chip_GetDisplayInfo env)) k1 = Some (r, k'))"
    by (auto simp: choose_resolution_def Let_def split: Option.bind_splits if_splits)
  then show ?thesis using k1 k_gpu_keeps [of "with_io (chip_GetDisplayInfo env)" k1 _ k' k0] gpu_commands_calm(7) by blast
qed

lemma alloc_framebuffer_leads:
  "leads (\<lambda>k. alive k0 k \<and> no_fb k) (alloc_framebuffer bt w h) (\<lambda>k. alive k0 k \<and> framed k) (gives_back k0)"
proof (rule leadsI)
  fix k r k' assume p: "alive k0 k \<and> no_fb k" and run: "alloc_framebuffer bt w h k = Some (r, k')"
  have inv: "card_inv (k_exec k0) k" and op: "opened k0 k" "k_state k \<noteq> 0" using p by (simp_all add: alive_def)
  define L where "L = nz (k_state k) + buffer_assets k + fst (queue_assets k) + nz (k_cmd3d_buf k)"
  define D where "D = buffer_assets k + snd (queue_assets k) + nz (k_cmd3d_buf k)"
  define S where "S = lock_assets k"
  have z: "g_fb_mem (k_gs k) = 0" "g_fb_dma_count (k_gs k) = 0" "g_fb_dma_list (k_gs k) = 0" "k_vsync_mutex k = 0"
    "d_fb_mem2 (k_disp k) = 0" "d_fb_dma_list2 (k_disp k) = 0" using p by (simp_all add: no_fb_def)
  have h0: "holds (k_exec k0) L D S (k_exec k)"
    using card_inv_holds [OF inv] z by (simp add: L_def D_def S_def fb_mapped_def)
  define size where "size = (\<lambda>gs :: gpu. let mw = (if w \<noteq> 0 then w else 1280); mh = (if h \<noteq> 0 then h else 800) in
    gs\<lparr>g_fb_width := mw, g_fb_height := mh, g_fb_stride := mw * 4, g_fb_size := mh * (mw * 4)\<rparr>)"
  define at_fb where "at_fb = (\<lambda>mem n l ex. on_kgs (\<lambda>gs. (size gs)\<lparr>g_fb_mem := mem, g_fb_dma_count := n, g_fb_dma_list := l,
    g_io := (g_io gs)\<lparr>i_exec := ex\<rparr>\<rparr>) k)"
  have goal: "alive k0 (at_fb mem n l ex)"
    if "holds (k_exec k0) (nz mem + L) ((if n = 0 then {#} else nz mem) + D) (nz l + S) ex" for mem n l ex
    using that p op inv z unfolding at_fb_def
    by (auto simp: alive_def opened_def outer_def card_inv_def asset_defs k_upd_defs L_def D_def S_def size_def Let_def ac_simps split: if_splits)
  have fields: "g_fb_mem (k_gs (at_fb mem n l ex)) = mem" "g_fb_dma_count (k_gs (at_fb mem n l ex)) = n" "g_fb_dma_list (k_gs (at_fb mem n l ex)) = l"
    "k_vsync_mutex (at_fb mem n l ex) = 0" "d_fb_mem2 (k_disp (at_fb mem n l ex)) = 0" "d_fb_dma_list2 (k_disp (at_fb mem n l ex)) = 0" for mem n l ex
    using z by (simp_all add: at_fb_def k_upd_defs)
  obtain mem e1 where 1: "AllocVecTags (k_exec k) = (mem, e1)" by fastforce
  note h1 = holds_alloc_nz [OF h0 1]
  obtain n e2 where 2: "StartDMA mem e1 = (n, e2)" by fastforce
  obtain l e3 where 3: "AllocSysObject e2 = (l, e3)" by fastforce
  show "case r of None \<Rightarrow> alive k0 k' \<and> framed k' | Some l \<Rightarrow> gives_back k0 l k'"
  proof -
    note run' = run [unfolded alloc_framebuffer_def k_call_def Let_def]
    consider "mem = 0" | "mem \<noteq> 0" "n = 0" | "mem \<noteq> 0" "n \<noteq> 0" "l = 0" | "mem \<noteq> 0" "n \<noteq> 0" "l \<noteq> 0" by blast
    then show ?thesis
    proof cases
      case c1: 1
      have "r = Some Fail_vqs" "k' = at_fb 0 0 0 e1" using run' 1 c1 z by (auto simp: at_fb_def size_def k_upd_defs)
      then show ?thesis using alive_gives_back [of k0 k' Fail_vqs] goal [of 0 0 0 e1] h1 c1 fields [of 0 0 0 e1] by (simp add: no_fb_def)
    next
      case c2: 2
      have "r = Some Fail_fb_mem" "k' = at_fb mem 0 0 e2" using run' 1 2 c2 z by (auto simp: at_fb_def size_def k_upd_defs)
      moreover have "holds (k_exec k0) (nz mem + L) D S e2" using holds_dma [OF h1 2] c2 by simp
      ultimately show ?thesis using alive_gives_back [of k0 k' Fail_fb_mem] goal [of mem 0 0 e2] c2 fields [of mem 0 0 e2] by (simp add: fb_alone_def)
    next
      case c3: 3
      have "r = Some Fail_fb_dma" "k' = at_fb mem n 0 e3" using run' 1 2 3 c3 z by (auto simp: at_fb_def size_def k_upd_defs)
      moreover have "holds (k_exec k0) (nz mem + L) (nz mem + D) S e3" using holds_obj_nz [OF holds_dma [OF h1 2] 3] c3 by (simp add: nz_pos)
      ultimately show ?thesis using alive_gives_back [of k0 k' Fail_fb_dma] goal [of mem n 0 e3] c3 fields [of mem n 0 e3] by (simp add: fb_alone_def)
    next
      case c4: 4
      obtain m e where k1: "r = None" "k' = k\<lparr>k_mmu := m, k_disp := (k_disp k)\<lparr>d_gs := (size (k_gs k))\<lparr>g_fb_mem := mem, g_fb_dma_count := n,
          g_io := (k_io k)\<lparr>i_exec := e3\<rparr>, g_fb_dma_list := l, g_fb_phys := e\<rparr>, d_double_buffer := False, d_fb_mem2 := 0\<rparr>\<rparr>"
        using run' 1 2 3 c4 by (auto simp: size_def k_upd_defs Let_def split: Option.bind_splits)
      have "books k' = books (at_fb mem n l e3)" unfolding k1(2)
        by (simp add: books_def outer_def asset_defs at_fb_def size_def Let_def k_upd_defs z)
      then have "r = None \<and> books k' = books (at_fb mem n l e3)" using k1(1) by simp
      then have k': "r = None" and b: "books k' = books (at_fb mem n l e3)" by simp_all
      have "holds (k_exec k0) (nz mem + L) (nz mem + D) (nz l + S) e3" using holds_obj_nz [OF holds_dma [OF h1 2] 3] c4 by (simp add: nz_pos)
      then show ?thesis using goal [of mem n l e3] c4 fields [of mem n l e3] books_keep(1,5) [OF b] k' by (simp add: framed_def fb_alone_def)
    qed
  qed
qed

lemma k_gpu_framed:
  "k_gpu f k = Some (r, k') \<Longrightarrow> alive k0 k \<and> framed k \<Longrightarrow> (\<And>gs'. f (k_gs k) = Some (r, gs') \<Longrightarrow> gpu_calm (k_gs k) gs') \<Longrightarrow> alive k0 k' \<and> framed k'"
  using k_gpu_keeps [of f k r k' k0] by simp

lemma framed_gives_back: "alive k0 k \<and> framed k \<Longrightarrow> gives_back k0 Fail_fb_dma_list k"
  by (rule alive_gives_back) (simp_all add: framed_def)

lemma framed_fields [simp]:
  "framed (on_kgs (\<lambda>gs. gs\<lparr>g_fb_is_blob := x\<rparr>) k) = framed k" "alive k0 (on_kgs (\<lambda>gs. gs\<lparr>g_fb_is_blob := x\<rparr>) k) = alive k0 k"
  "framed (on_kgs (\<lambda>gs. gs\<lparr>g_resource_id := a, g_fb_resource_id := b, g_fb_is_blob := x\<rparr>) k) = framed k"
  "alive k0 (on_kgs (\<lambda>gs. gs\<lparr>g_resource_id := a, g_fb_resource_id := b, g_fb_is_blob := x\<rparr>) k) = alive k0 k"
  by (rule books_keep; simp add: books_def outer_def asset_defs k_upd_defs)+

lemma create_fb_blob_keeps:
  assumes "create_fb_blob env k = Some (ok, k')" "alive k0 k \<and> framed k"
  shows "alive k0 k' \<and> framed k'"
proof (cases "g_has_blob (k_gs k)")
  case False
  then show ?thesis using assms by (simp add: create_fb_blob_def)
next
  case True
  obtain k1 where 1: "k_gpu (\<lambda>gs. chip_ResourceCreateBlob env (g_resource_id gs) VIRTIO_GPU_BLOB_MEM_GUEST 0 0 (ucast (g_fb_size gs))
                            (g_dma_lists gs (g_fb_mem gs)) (g_fb_dma_count gs) gs) k = Some (ok, k1)"
    "k' = (if ok then on_kgs (\<lambda>gs. gs\<lparr>g_fb_is_blob := True\<rparr>) k1 else k1)"
    using assms(1) True by (auto simp: create_fb_blob_def split: Option.bind_splits)
  have "alive k0 k1 \<and> framed k1" using k_gpu_framed [OF 1(1) assms(2)] gpu_commands_calm(3) by blast
  then show ?thesis by (simp add: 1(2))
qed

lemma create_fb_resource_leads:
  "leads (\<lambda>k. alive k0 k \<and> framed k) (create_fb_resource env) (\<lambda>k. alive k0 k \<and> framed k) (gives_back k0)"
proof (rule leadsI)
  fix k r k' assume p: "alive k0 k \<and> framed k" and run: "create_fb_resource env k = Some (r, k')"
  let ?k = "on_kgs (\<lambda>gs. gs\<lparr>g_resource_id := 1, g_fb_resource_id := 1, g_fb_is_blob := False\<rparr>) k"
  obtain blob k1 where 1: "create_fb_blob env ?k = Some (blob, k1)" using run
    by (auto simp: create_fb_resource_def Let_def split: Option.bind_splits)
  have k1: "alive k0 k1 \<and> framed k1" using create_fb_blob_keeps [OF 1, of k0] p by simp
  show "case r of None \<Rightarrow> alive k0 k' \<and> framed k' | Some l \<Rightarrow> gives_back k0 l k'"
  proof (cases blob)
    case True
    then show ?thesis using run 1 k1 by (auto simp: create_fb_resource_def Let_def)
  next
    case False
    obtain ok k2 where 2: "k_gpu (\<lambda>gs. with_io (chip_ResourceCreate2D env (g_resource_id gs) FORMAT_B8G8R8X8_UNORM
                            (g_fb_width gs) (g_fb_height gs)) gs) k1 = Some (ok, k2)"
      using run 1 False by (auto simp: create_fb_resource_def Let_def split: Option.bind_splits)
    have k2: "alive k0 k2 \<and> framed k2" using k_gpu_framed [OF 2 k1] gpu_commands_calm(4) by blast
    show ?thesis
    proof (cases ok)
      case no: False
      then show ?thesis using run 1 2 False framed_gives_back [OF k2] by (auto simp: create_fb_resource_def Let_def)
    next
      case True
      obtain ok3 where 3: "k_gpu (\<lambda>gs. with_io (chip_ResourceAttachBacking env (g_resource_id gs) (g_dma_lists gs (g_fb_mem gs))
                              (g_fb_dma_count gs)) gs) k2 = Some (ok3, k')" "r = (if ok3 then None else Some Fail_fb_dma_list)"
        using run 1 2 False True by (auto simp: create_fb_resource_def Let_def split: Option.bind_splits)
      have "alive k0 k' \<and> framed k'" using k_gpu_framed [OF 3(1) k2] gpu_commands_calm(5) by blast
      then show ?thesis using 3(2) framed_gives_back by simp
    qed
  qed
qed

lemma show_fb_leads:
  "leads (\<lambda>k. alive k0 k \<and> framed k) (show_fb env w h) (\<lambda>k. alive k0 k \<and> framed k) (gives_back k0)"
proof (rule leadsI)
  fix k r k' assume p: "alive k0 k \<and> framed k" and run: "show_fb env w h k = Some (r, k')"
  obtain ok k1 where 1: "k_gpu (\<lambda>gs. chip_SetScanout env 0 (g_resource_id gs) 0 0 w h gs) k = Some (ok, k1)"
    using run by (auto simp: show_fb_def split: Option.bind_splits)
  have k1: "alive k0 k1 \<and> framed k1" using k_gpu_framed [OF 1 p] gpu_commands_calm(1) by blast
  show "case r of None \<Rightarrow> alive k0 k' \<and> framed k' | Some l \<Rightarrow> gives_back k0 l k'"
  proof (cases ok)
    case False
    then show ?thesis using run 1 framed_gives_back [OF k1] by (auto simp: show_fb_def)
  next
    case True
    obtain x k2 y where 2: "k_gpu (\<lambda>gs. chip_TransferToHost2D env (g_resource_id gs) 0 0 w h 0 gs) k1 = Some (x, k2)"
      "k_gpu (\<lambda>gs. with_io (chip_ResourceFlush env (g_resource_id gs) 0 0 w h) gs) k2 = Some (y, k')" "r = None"
      using run 1 True by (auto simp: show_fb_def split: Option.bind_splits)
    have "alive k0 k2 \<and> framed k2" using k_gpu_framed [OF 2(1) k1] gpu_commands_calm(2) by blast
    then have "alive k0 k' \<and> framed k'" using k_gpu_framed [OF 2(2)] gpu_commands_calm(6) by blast
    then show ?thesis using 2(3) by simp
  qed
qed

section \<open>The whole initialisation\<close>

lemma before_display_leads:
  assumes "cold k0"
  shows "leads (\<lambda>k. k = k0) (run_stages (before_display bt)) (\<lambda>k. alive k0 k \<and> no_fb k) (gives_back k0)"
  unfolding before_display_def
  by (rule run_stages_leads(2) [OF open_device_leads [OF assms]], rule run_stages_leads(2) [OF alloc_state_leads],
      rule run_stages_leads(2) [OF probe_device_leads], rule run_stages_leads(2) [OF alloc_buffers_leads],
      rule run_stages_leads(2) [OF start_transport_leads], rule run_stages_leads(2) [OF install_irq_leads],
      rule run_stages_leads(2) [OF prepare_3d_leads], rule run_stages_leads(1))

lemma bring_up_display_leads:
  "leads (\<lambda>k. alive k0 k \<and> no_fb k) (run_stages (bring_up_display env bt w h)) (\<lambda>k. alive k0 k \<and> framed k) (gives_back k0)"
  unfolding bring_up_display_def
  by (rule run_stages_leads(2) [OF alloc_framebuffer_leads], rule run_stages_leads(2) [OF create_fb_resource_leads],
      rule run_stages_leads(2) [OF show_fb_leads], rule run_stages_leads(1))

lemma init_card_failure:
  assumes c: "cold k0" and run: "chip_InitCard_C env bt k0 = Some (False, k')"
  shows "released k0 k'"
proof -
  obtain r k1 where 1: "run_stages (before_display bt) k0 = Some (r, k1)"
    using run by (auto simp: chip_InitCard_C_def split: Option.bind_splits)
  note p1 = leadsD [OF before_display_leads [OF c] refl 1]
  show ?thesis
  proof (cases r)
    case (Some l)
    then show ?thesis using run 1 p1 by (simp add: chip_InitCard_C_def gives_back_def)
  next
    case None
    obtain w h k2 where 2: "choose_resolution env k1 = Some ((w, h), k2)"
      using run 1 None by (auto simp: chip_InitCard_C_def split: Option.bind_splits)
    have k2: "alive k0 k2 \<and> no_fb k2" using choose_resolution_keeps [OF 2, of k0] p1 None by simp
    obtain r2 k3 where 3: "run_stages (bring_up_display env bt w h) k2 = Some (r2, k3)"
      using run 1 2 None by (auto simp: chip_InitCard_C_def split: Option.bind_splits)
    note p3 = leadsD [OF bring_up_display_leads k2 3]
    show ?thesis using run 1 2 3 None p3
      by (cases r2) (auto simp: chip_InitCard_C_def gives_back_def split: Option.bind_splits)
  qed
qed

end
