(* ===== verification/Card_Outcome.thy ===== *)
theory Card_Outcome
  imports Card_Correct
begin

text \<open>
  The outcome of \<open>chip_InitCard_C\<close>: up to the display it returns whatever the system and the device answer,
  and a success publishes a state the board information describes.
\<close>

section \<open>Returning\<close>

text \<open>Up to the display every stage returns, whatever the system answers.\<close>

definition returns :: "(card \<Rightarrow> bool) \<Rightarrow> stage \<Rightarrow> bool" where
  "returns P f \<longleftrightarrow> (\<forall>k. P k \<longrightarrow> (\<exists>r k'. f k = Some (r, k')))"

lemma run_stages_return:
  "returns P (run_stages [])"
  "returns P f \<Longrightarrow> leads P f Q bad \<Longrightarrow> returns Q (run_stages fs) \<Longrightarrow> returns P (run_stages (f # fs))"
proof -
  show "returns P (run_stages [])" by (simp add: returns_def)
next
  assume a: "returns P f" "leads P f Q bad" "returns Q (run_stages fs)"
  show "returns P (run_stages (f # fs))"
  proof (unfold returns_def, intro allI impI)
    fix k assume p: "P k"
    obtain r k1 where 1: "f k = Some (r, k1)" using a(1) p by (auto simp: returns_def)
    show "\<exists>r k'. run_stages (f # fs) k = Some (r, k')"
    proof (cases r)
      case None
      then have "Q k1" using leadsD [OF a(2) p 1] by simp
      then show ?thesis using a(3) 1 None by (simp add: returns_def)
    qed (simp add: 1)
  qed
qed

lemma stages_return:
  "returns P alloc_state" "returns P (probe_device bt)" "returns P alloc_buffers" "returns P (install_irq bt)" "returns P prepare_3d"
  by (auto simp: returns_def alloc_state_def probe_device_def alloc_buffers_def install_irq_def prepare_3d_def Let_def split: prod.splits option.splits)

lemma start_transport_returns: "returns (\<lambda>k. alive k0 k \<and> no_transport k \<and> direct_mmio k) start_transport"
proof (unfold returns_def, intro allI impI)
  fix k assume p: "alive k0 k \<and> no_transport k \<and> direct_mmio k"
  have "\<exists>ok gs' n' lo hi. chip_virtio_init (k_gs k) (k_num_queues k) = Some (ok, gs', n') \<and> init_outcome (k_gs k) (k_exec k) {#} {#} {#} ok gs' lo hi"
    by (rule virtio_init_result) (use p in \<open>simp_all add: direct_mmio_def clear_defs holds_refl\<close>)
  then show "\<exists>r k'. start_transport k = Some (r, k')" by (auto simp: start_transport_def)
qed

lemma before_display_returns:
  assumes "cold k0" "boardinfo_get_pcidevice (cb_raw (k_bi k0)) \<noteq> None"
  shows "\<exists>r k1. run_stages (before_display bt) k0 = Some (r, k1)"
proof -
  have "returns (\<lambda>k. k = k0) (open_device bt)" using assms(2) by (auto simp: returns_def open_device_def Let_def)
  then have "returns (\<lambda>k. k = k0) (run_stages (before_display bt))"
    unfolding before_display_def
    by (rule run_stages_return(2) [OF _ open_device_leads [OF assms(1)]], intro run_stages_return(2) [OF _ alloc_state_leads]
        run_stages_return(2) [OF _ probe_device_leads] run_stages_return(2) [OF _ alloc_buffers_leads]
        run_stages_return(2) [OF start_transport_returns start_transport_leads] run_stages_return(2) [OF _ install_irq_leads]
        run_stages_return(2) [OF _ prepare_3d_leads] run_stages_return(1) stages_return)
  then show ?thesis by (simp add: returns_def)
qed

section \<open>Success\<close>

text \<open>What the initialisation leaves in place: the board, its memory and the framebuffer.\<close>

definition board_view :: "card \<Rightarrow> (bool \<times> bool \<times> bool \<times> bool \<times> u32 \<times> u32) \<times> (u32 \<times> u32) \<times> u32 \<times> u32 \<times> u32 \<times> string" where
  "board_view k = ((k_exp k, k_ipci k, k_locked k, k_published k, k_state k, k_board_mem_size k), (d_active_width (k_disp k), d_active_height (k_disp k)),
     d_board_mem (k_disp k), cb_MemoryBase (k_bi k), cb_MemorySize (k_bi k), cb_BoardName (k_bi k))"

lemma announce_modes_view: "announce_modes env bt k = Some k' \<Longrightarrow> board_view k' = board_view k"
  by (auto simp: announce_modes_def Let_def board_view_def on_kbi_def k_upd_defs split: Option.bind_splits if_splits)

lemma describe_board_view:
  assumes "describe_board k = Some k'"
  shows "board_view k' = ((k_exp k, k_ipci k, k_locked k, k_published k, k_state k, k_board_mem_size k), (d_active_width (k_disp k), d_active_height (k_disp k)),
     d_board_mem (k_disp k), d_board_mem (k_disp k), k_board_mem_size k, ''VirtIOGPU'')"
  using assms by (auto simp: describe_board_def fill_board_info_def Let_def board_view_def split: Option.bind_splits)

lemma alloc_board_memory_fields:
  assumes "framed k" "k' = alloc_board_memory w h k"
  shows "d_board_mem (k_disp k') \<noteq> 0" "d_active_width (k_disp k') = w" "d_active_height (k_disp k') = h" "outer k' = outer k" "k_state k' = k_state k"
  using assms by (auto simp: alloc_board_memory_def k_call_def k_upd_defs outer_def framed_def fb_alone_def Let_def split: prod.splits)

lemma complete_init_view:
  assumes "complete_init env bt w h k = Some k'" "alive k0 k" "framed k"
  shows "\<exists>m sz. board_view k' = ((True, True, True, True, k_state k, sz), (w, h), m, m, sz, ''VirtIOGPU'') \<and> m \<noteq> 0"
proof -
  define k1 where "k1 = alloc_board_memory w h k"
  define k2 where "k2 = publish_state k1"
  obtain k3 k4 where s: "describe_board k2 = Some k3" "announce_modes env bt k3 = Some k4" "k' = k4\<lparr>k_flush_task_quit := False\<rparr>"
    using assms(1) by (auto simp: complete_init_def k1_def k2_def split: Option.bind_splits)
  have 2: "outer k2 = (k_exp k1, k_ipci k1, k_locked k1, True, k_bi k1)" "k_state k2 = k_state k1" "d_board_mem (k_disp k2) = d_board_mem (k_disp k1)"
    "d_active_width (k_disp k2) = d_active_width (k_disp k1)" "d_active_height (k_disp k2) = d_active_height (k_disp k1)"
    by (auto simp: k2_def publish_state_def k_call_def outer_def k_upd_defs split: prod.splits)
  note 1 = alloc_board_memory_fields [OF assms(3) k1_def]
  have o: "outer k1 = (True, True, True, k_published k0, k_bi k0)" using 1(4) assms(2) by (simp add: alive_def opened_def)
  have "board_view k' = board_view k4" by (simp add: s(3) board_view_def)
  then show ?thesis using announce_modes_view [OF s(2)] describe_board_view [OF s(1)] 1 2 o by (simp add: outer_def)
qed

lemma init_card_success:
  assumes c: "cold k0" and run: "chip_InitCard_C env bt k0 = Some (True, k')"
  shows "\<exists>st w h m sz. board_view k' = ((True, True, True, True, st, sz), (w, h), m, m, sz, ''VirtIOGPU'') \<and> st \<noteq> 0 \<and> m \<noteq> 0"
proof -
  obtain k1 w h k2 k3 where r: "run_stages (before_display bt) k0 = Some (None, k1)" "choose_resolution env k1 = Some ((w, h), k2)"
    "run_stages (bring_up_display env bt w h) k2 = Some (None, k3)" "complete_init env bt w h k3 = Some k'"
    using run by (auto simp: chip_InitCard_C_def split: Option.bind_splits option.splits)
  have k1: "alive k0 k1 \<and> no_fb k1" using leadsD [OF before_display_leads [OF c] refl r(1)] by simp
  have k2: "alive k0 k2 \<and> no_fb k2" using choose_resolution_keeps [OF r(2), of k0] k1 by simp
  have k3: "alive k0 k3 \<and> framed k3" using leadsD [OF bring_up_display_leads k2 r(3)] by simp
  then show ?thesis using complete_init_view [OF r(4), of k0] by (auto simp: alive_def)
qed

end
