(* ===== verification/Card_Properties.thy ===== *)
theory Card_Properties
  imports Card_Outcome P96_Properties
begin

text \<open>
  The properties of the card's initialisation: the capabilities found, the handshake with the device,
  the outcome of \<open>chip_InitCard_C\<close> and the EDID callback.
\<close>

section \<open>The capabilities\<close>

definition demo_sdk :: sdk where
  "demo_sdk = \<lparr>MEMATTRF_CACHEINHIBIT = 1, MEMATTRF_COHERENT = 2, MEMATTRF_WRITETHROUGH = 4, MEMATTRF_GUARDED = 8, PCI_RANGE_MEMORY = 1,
     PCI_CAPABILITYID_VENDOR = 9, PCI_COMMAND = 4, PCI_COMMAND_MEMORY = 2, PCI_COMMAND_MASTER = 4, PCI_COMMAND_INT_DISABLE = 0x400,
     PCI_BASE_ADDRESS_0 = 0x10, PCI_CAP_BUSMASTER = 1, PCI_CAP_SETCLR = 0x80\<rparr>"

text \<open>A device with its common and notify regions in BAR 4.\<close>

definition demo_bars :: "bar list" where
  "demo_bars = (replicate 6 no_bar)[4 := \<lparr>bar_base = 0x80000000, bar_size = 0x4000, bar_physical = 0x80000000, bar_flags = 1, bar_valid = True\<rparr>]"

definition demo_device :: pci_device where
  "demo_device = \<lparr>pd_range = (\<lambda>_. None), pd_caps = [\<lparr>cap_Type = 9, cap_CapOffset = 0x40\<rparr>, \<lparr>cap_Type = 5, cap_CapOffset = 0x50\<rparr>,
     \<lparr>cap_Type = 9, cap_CapOffset = 0x60\<rparr>], pd_capabilities = 1\<rparr>"

definition demo_config :: "u32 \<Rightarrow> u32" where
  "demo_config a = (if a = 0x43 then 1 else if a = 0x44 then 4 else if a = 0x48 then 0x1000
     else if a = 0x63 then 2 else if a = 0x64 then 4 else if a = 0x68 then 0x3000 else if a = 0x70 then 2 else 0)"

definition demo_probe_bus :: bus where
  "demo_probe_bus = \<lparr>bus_answer = (\<lambda>i. [1, 4, 0x1000, 2, 4, 0x3000, 2, 0, 0, 1, 0] ! i), bus_log = []\<rparr>"

text \<open>
  Property C20. After the walk over the capabilities of a device whose configuration space holds \<open>cs\<close>, the
  address of each VirtIO region is the BAR's base plus the offset that the last of the first 32 capabilities of
  that kind in a mapped memory BAR names (0 without one), the multiplier is the last notify capability's, and
  MMIO is the access path.  The driver goes on exactly if there was a common configuration, it has an
  address, and the status register, after a reset and ACKNOWLEDGE, reads back 1; the device is reset again.
\<close>

theorem pci_caps_found:
  assumes run: "chip_scan_pci_caps c bars dev v b = (ok, v', b')" and a: "answers_from cs (length (bus_log b)) b'"
  defines "caps \<equiv> take 32 (pd_caps dev)" and "status \<equiv> v_common_cfg_base v' + VIRTIO_PCI_COMMON_STATUS"
  shows "v_common_cfg_base v' = region c bars cs VIRTIO_PCI_CAP_COMMON_CFG caps
    \<and> v_notify_cfg_base v' = region c bars cs VIRTIO_PCI_CAP_NOTIFY_CFG caps
    \<and> v_isr_cfg_base v' = region c bars cs VIRTIO_PCI_CAP_ISR_CFG caps
    \<and> v_device_cfg_base v' = region c bars cs VIRTIO_PCI_CAP_DEVICE_CFG caps
    \<and> v_notify_off_mult v' = multiplier c cs caps \<and> \<not> v_use_pci_cfg v'
    \<and> (ok \<longleftrightarrow> last_of c cs VIRTIO_PCI_CAP_COMMON_CFG caps \<noteq> None \<and> v_common_cfg_base v' \<noteq> 0
         \<and> (\<exists>l x. bus_log b' = bus_log b @ l @ [Store8 status 0, Store8 status 1, Load8 status, Store8 status 0]
              \<and> bus_answer b' (length (bus_log b) + length l + 2) = x \<and> (ucast x :: u8) = 1))"
proof -
  obtain w b1 where s: "scan_caps c bars 0 (pd_caps dev) (no_regions v) b = (w, b1)" by fastforce
  obtain probe b2 where p: "probe_status (v_common_cfg_base w) b1 = (probe, b2)" by fastforce
  have x: "bus_extends b b1" by (rule scan_caps_extends [OF s])
  have ps: "b2 = b1\<lparr>bus_log := bus_log b1 @ (let st = v_common_cfg_base w + VIRTIO_PCI_COMMON_STATUS in [Store8 st 0, Store8 st 1, Load8 st, Store8 st 0])\<rparr>"
    "probe = ucast (bus_answer b1 (length (bus_log b1) + 2))"
    using p by (auto simp: probe_status_def mmio_defs bus_ask_def bus_do_def Let_def)
  have e: "bus_extends b1 b'" "v_common_cfg_base v' = v_common_cfg_base w" "v_notify_cfg_base v' = v_notify_cfg_base w" "v_isr_cfg_base v' = v_isr_cfg_base w"
    "v_device_cfg_base v' = v_device_cfg_base w" "v_notify_off_mult v' = v_notify_off_mult w" "v_modern_mode v' = v_modern_mode w"
    "v_use_pci_cfg w \<or> \<not> v_use_pci_cfg v'"
    using run s p ps(1) by (auto simp: chip_scan_pci_caps_def bus_extends_def split: if_splits)
  have f: "found c bars cs caps w"
    using scan_caps_found [OF s found_start _ answers_from_earlier [OF a e(1)]] by (simp add: caps_def)
  obtain l where l: "bus_log b1 = bus_log b @ l" "bus_answer b1 = bus_answer b" using x by (auto simp: bus_extends_def)
  have ok: "ok \<longleftrightarrow> v_modern_mode w \<and> v_common_cfg_base w \<noteq> 0 \<and> b' = b2 \<and> probe = 1"
    using run s p ps(1) by (auto simp: chip_scan_pci_caps_def split: if_splits)
  have log: "bus_log b2 = bus_log b @ l @ [Store8 status 0, Store8 status 1, Load8 status, Store8 status 0]" "bus_answer b2 = bus_answer b1"
    "probe = ucast (bus_answer b1 (length (bus_log b) + length l + 2))"
    using ps l by (simp_all add: status_def e(2) Let_def)
  have b': "v_modern_mode w \<and> v_common_cfg_base w \<noteq> 0 \<Longrightarrow> b' = b2"
    using run s p by (auto simp: chip_scan_pci_caps_def split: if_splits)
  have "ok \<longleftrightarrow> last_of c cs VIRTIO_PCI_CAP_COMMON_CFG caps \<noteq> None \<and> v_common_cfg_base v' \<noteq> 0
      \<and> (\<exists>l x. bus_log b' = bus_log b @ l @ [Store8 status 0, Store8 status 1, Load8 status, Store8 status 0]
           \<and> bus_answer b' (length (bus_log b) + length l + 2) = x \<and> (ucast x :: u8) = 1)"
  proof (cases "v_modern_mode w \<and> v_common_cfg_base w \<noteq> 0")
    case True
    then show ?thesis using ok b' log f e(2) by (auto simp: found_def)
  next
    case False
    then show ?thesis using ok f e(2) by (auto simp: found_def)
  qed
  then show ?thesis using f e by (simp add: found_def)
qed

theorem pci_caps_found_witness:
  "\<exists>v' b'. chip_scan_pci_caps demo_sdk demo_bars demo_device (demo_vio True) demo_probe_bus = (True, v', b')
     \<and> v_common_cfg_base v' = 0x80001000 \<and> v_notify_cfg_base v' = 0x80003000 \<and> v_notify_off_mult v' = 2"
proof -
  obtain ok v' b' where r: "chip_scan_pci_caps demo_sdk demo_bars demo_device (demo_vio True) demo_probe_bus = (ok, v', b')" by (metis surj_pair)
  have run: "(fst r, length (bus_log (snd (snd r))),
      list_all (\<lambda>i. config_answer demo_config (bus_log (snd (snd r)) ! i) (bus_answer (snd (snd r)) i)) [0..<11]) = (True, 11, True)"
    if "r = chip_scan_pci_caps demo_sdk demo_bars demo_device (demo_vio True) demo_probe_bus" for r
    unfolding that by code_simp
  have a: "answers_from demo_config (length (bus_log demo_probe_bus)) b'"
    using run [OF r [symmetric]] by (simp add: answers_from_def list_all_iff del: upt_Suc)
  have "region demo_sdk demo_bars demo_config VIRTIO_PCI_CAP_COMMON_CFG (take 32 (pd_caps demo_device)) = 0x80001000"
    "region demo_sdk demo_bars demo_config VIRTIO_PCI_CAP_NOTIFY_CFG (take 32 (pd_caps demo_device)) = 0x80003000"
    "multiplier demo_sdk demo_config (take 32 (pd_caps demo_device)) = 2" by code_simp+
  moreover have "ok" using run [OF r [symmetric]] by simp
  ultimately show ?thesis using pci_caps_found [OF r a] r by simp
qed

section \<open>The handshake\<close>


text \<open>A device that offers virgl and EDID, a control queue of four entries and no cursor queue.\<close>

definition demo_fresh :: gpu where
  "demo_fresh = demo_gpu\<lparr>g_edid := [], g_virgl_caps := [], g_edid_dtd_w := [], g_edid_dtd_h := [], g_io := (demo_io 4)\<lparr>i_ctrlq := None, i_cursq := None, i_vio := demo_vio False,
     i_bus := \<lparr>bus_answer = (\<lambda>i. if i = 7 then 3 else if i = 9 then 1 else if i = 15 then 11 else if i = 17 then 4 else 0), bus_log = []\<rparr>\<rparr>\<rparr>"

lemma await_reset_step: "0 < n \<Longrightarrow> await_reset n v b = (let (rst, b) = vio_r8 v VIRTIO_PCI_COMMON_STATUS b in if rst = 0 then b else await_reset (n - 1) v b)"
  by (cases n) (simp_all cong: if_cong)

lemmas bus_eval = vio_defs mmio_defs bus_ask_def bus_do_def

lemma demo_fresh_starts: "map_option fst (chip_virtio_init demo_fresh 0) = Some True"
proof -
  let ?v = "demo_vio False"
  define io0 where "io0 = g_io demo_fresh"
  have f: "i_vio io0 = ?v" "\<not> v_use_pci_cfg ?v" "i_exec io0 = demo_exec" by (simp_all add: io0_def demo_fresh_def demo_io_def demo_vio_def)
  obtain lo hi kept b1 where g: "greet ?v (i_bus io0) = ((lo, hi, kept), b1)" by (metis prod_cases3 surj_pair)
  have "kept \<and> length (bus_log b1) = 16 \<and> bus_answer b1 = bus_answer (i_bus io0)"
    using g by (auto simp: greet_def reset_device_def await_reset_step read_features_def write_features_def confirm_features_def bus_eval f(2) io0_def demo_fresh_def Let_def)
  then have k: "kept" "bus_answer b1 (Suc (length (bus_log b1))) = 4" by (simp_all add: io0_def demo_fresh_def)
  define io1 where "io1 = io0\<lparr>i_bus := b1\<rparr>"
  obtain sz io1s where s: "select_queue 0 io1 = (sz, io1s)" by fastforce
  have s1: "sz = 4" "i_exec io1s = demo_exec" "i_vio io1s = ?v"
    using s k(2) f by (auto simp: select_queue_def on_bus_def bus_eval io1_def)
  have a: "\<exists>vq ex. VirtQueue_Allocate demo_exec 0 4 = Some (Some vq, ex) \<and> ex_sdma_res ex = (\<lambda>_. 1) \<and> ex_obj_res ex = (\<lambda>_. 77)"
    using init_free_chain_ok [of 4] by (simp add: VirtQueue_Allocate_def demo_exec_def AllocVecTags_def Let_def split: prod.splits)
  obtain vq ex where a: "VirtQueue_Allocate demo_exec 0 4 = Some (Some vq, ex)" "ex_sdma_res ex = (\<lambda>_. 1)" "ex_obj_res ex = (\<lambda>_. 77)"
    using a by blast
  obtain vq1 ex1 where m: "map_rings vq ex = (Some vq1, ex1)"
    using a(2,3) by (simp add: map_rings_def StartDMA_def AllocSysObject_def Let_def)
  obtain vq2 b2 where e: "enable_queue ?v 4 vq1 (i_bus io1s) = (vq2, b2)" by fastforce
  obtain io2 where q: "setup_queue 0 io1 = Some (Some vq2, io2)" "i_vio io2 = ?v"
    using s s1 a m e by (simp add: setup_queue_def on_bus_def)
  define io3 where "io3 = io2\<lparr>i_ctrlq := Some vq2\<rparr>"
  obtain r io4 where c: "setup_queue 1 io3 = Some (r, io4)"
    using setup_queue_result [of io3 "i_exec io3" "{#}" "{#}" "{#}" 1] q(2) f(2) holds_refl by (auto simp: io3_def)
  have og: "on_bus (greet (i_vio (g_io demo_fresh))) (g_io demo_fresh) = ((lo, hi, kept), io1)"
    using g f(1) by (simp add: on_bus_def io1_def io0_def)
  have s1: "setup_ctrlq io1 = Some (True, io3)" using q(1) by (simp add: setup_ctrlq_def io3_def)
  obtain cursor io5 where s2: "setup_cursq io3 = Some (cursor, io5)"
  proof -
    obtain p where "setup_cursq io3 = Some p" using c by (simp add: setup_cursq_def)
    then show thesis using that by (cases p) simp
  qed
  show ?thesis unfolding virtio_init_greets Let_def og prod.case by (simp add: k(1) s1 s2)
qed


section \<open>The card\<close>


text \<open>A machine whose device shows no VirtIO capabilities.\<close>

definition demo_boot :: boot where
  "demo_boot = \<lparr>bt_sdk = demo_sdk, bt_dev = demo_device\<lparr>pd_caps := []\<rparr>, bt_exp = True, bt_ipci = True, bt_find = 0x600, bt_lock = True,
     bt_vector = 0, bt_addint = False, bt_disp_name = 0, bt_callback = 0, bt_bi_addr = 0\<rparr>"

definition demo_card_board :: card_board where
  "demo_card_board = \<lparr>cb_MemoryBase = 0, cb_MemoryIOBase = 0, cb_MemorySize = 0, cb_BoardName = [], cb_VBIName = [], cb_BoardType = 0, cb_PaletteChipType = 0,
     cb_GraphicsControllerType = 0, cb_MoniSwitch = 0, cb_BitsPerCannon = 0, cb_Flags = 0, cb_SoftSpriteFlags = [], cb_ChipFlags = 0, cb_CardFlags = 0,
     cb_RGBFormats = [], cb_MaxHorValue = replicate 5 0, cb_MaxVerValue = replicate 5 0, cb_MaxHorResolution = replicate 5 0, cb_MaxVerResolution = replicate 5 0,
     cb_MemoryClock = 0, cb_PixelClockCount = replicate 5 0, cb_RGBFormat = RGBFB_A8R8G8B8, cb_Depth = 0, cb_Mask = 0, cb_Border = False,
     cb_raw = replicate 2048 0, cb_slots = (\<lambda>_. None), cb_modelist = [], cb_info = \<lparr>bi_BoardNum = 0, bi_ResolutionsList = []\<rparr>\<rparr>"

definition demo_card :: card where
  "demo_card = \<lparr>k_disp = demo_disp, k_mmu = \<lparr>mmu_iface = True, mmu_answer = (\<lambda>_ _. 0), mmu_log = []\<rparr>, k_bars = [], k_num_queues = 0,
     k_irq_number = 0, k_irq_servers = [], k_setcaps = [], k_state = 0, k_cmd_buf = 0, k_resp_buf = 0, k_cursor_cmd_buf = 0, k_cmd3d_buf = 0,
     k_io_lock = 0, k_cursor_lock = 0, k_alloc_mutex = 0, k_cmd3d_lock = 0, k_vsync_mutex = 0, k_next_fence_id = 0, k_board_mem_size = 0,
     k_active_bpr = 0, k_cursor_w = 0, k_cursor_h = 0, k_rtg_output_enabled = False, k_flush_task_quit = False, k_exp = False, k_ipci = False,
     k_locked = False, k_published = False, k_bi = demo_card_board\<rparr>"

lemma demo_card_fails: "\<exists>k1. run_stages (before_display demo_boot) demo_card = Some (Some Fail_gs, k1)"
proof -
  obtain pci where o: "boardinfo_get_pcidevice (cb_raw (k_bi demo_card)) = Some pci"
    by (simp add: demo_card_def demo_card_board_def boardinfo_get_pcidevice_def cpu_ld32_def)
  define ka where "ka = demo_card\<lparr>k_exp := True, k_ipci := True, k_locked := True\<rparr>"
  have 1: "open_device demo_boot demo_card = Some (None, ka)" using o by (simp add: open_device_def demo_boot_def ka_def Let_def)
  have "k_exec ka = demo_exec" by (simp add: ka_def demo_card_def demo_disp_def demo_gpu_def demo_io_def)
  then obtain e1 where e1: "AllocVecTags (k_exec ka) = (4096, e1)" "ex_obj_res e1 = (\<lambda>_. 77)" by (simp add: AllocVecTags_def demo_exec_def)
  have obj: "ex_obj_res ex = (\<lambda>_. 77) \<Longrightarrow> \<exists>ex'. AllocSysObject ex = (77, ex') \<and> ex_obj_res ex' = (\<lambda>_. 77)" for ex
    by (simp add: AllocSysObject_def Let_def)
  obtain e2 where e2: "AllocSysObject e1 = (77, e2)" "ex_obj_res e2 = (\<lambda>_. 77)" using obj [OF e1(2)] by blast
  obtain e3 where e3: "AllocSysObject e2 = (77, e3)" "ex_obj_res e3 = (\<lambda>_. 77)" using obj [OF e2(2)] by blast
  obtain e4 where e4: "AllocSysObject e3 = (77, e4)" using obj [OF e3(2)] by blast
  let ?k = "(on_kdisp zero_disp (k_do (\<lambda>_. e1) ka))\<lparr>k_bars := replicate 6 no_bar, k_num_queues := 0, k_irq_number := 0, k_state := 4096,
             k_cmd_buf := 0, k_resp_buf := 0, k_cursor_cmd_buf := 0, k_cmd3d_buf := 0, k_cmd3d_lock := 0, k_vsync_mutex := 0,
             k_next_fence_id := 0\<rparr>"
  have ex: "k_exec ?k = e1" by (simp add: k_upd_defs)
  obtain kb where 2: "alloc_state ka = Some (None, kb)"
    using e1(1) e2(1) e3(1) e4 ex by (simp add: alloc_state_def k_call_def k_do_comp o_def)
  let ?dev = "demo_device\<lparr>pd_caps := []\<rparr>"
  obtain sc kp where p: "k_bus (pci_enable demo_sdk ?dev) kb = (sc, kp)" by fastforce
  obtain bars m where q: "chip_scan_bars demo_sdk ?dev (k_bars (on_kio (do_bus (repair_bars demo_sdk 0)) (kp\<lparr>k_setcaps := k_setcaps kp @ (case sc of None \<Rightarrow> [] | Some x \<Rightarrow> [x])\<rparr>)))
      (k_mmu (on_kio (do_bus (repair_bars demo_sdk 0)) (kp\<lparr>k_setcaps := k_setcaps kp @ (case sc of None \<Rightarrow> [] | Some x \<Rightarrow> [x])\<rparr>))) = (bars, m)" by fastforce
  obtain kc where 3: "probe_device demo_boot kb = Some (Some Fail_gs, kc)"
    by (simp add: probe_device_def chip_scan_pci_caps_def no_regions_def demo_boot_def Let_def p q)
  show ?thesis by (simp add: before_display_def 1 2 3)
qed


section \<open>The EDID callback\<close>

lemma copy_loop:
  "k \<le> length src \<Longrightarrow> k \<le> length buf \<Longrightarrow>
   foldM (\<lambda>i buf. do { b \<leftarrow> rd src i; wr buf i b }) [0..<k] buf = Some (take k src @ drop k buf)"
proof (induction k)
  case (Suc k)
  have "(take k src @ drop k buf)[k := src ! k] = take (Suc k) src @ drop (Suc k) buf"
    using Suc.prems by (simp add: list_update_append take_Suc_conv_app_nth upd_conv_take_nth_drop Cons_nth_drop_Suc [symmetric])
  then show ?case using Suc by (simp add: foldM_append rd_in wr_in)
qed simp

text \<open>
  \<open>chip_ConfigureDisplay\<close> copies the EDID bytes that were asked for and are there, and nothing after them changes;
  the caller's buffer must hold them.
\<close>

lemma configure_display_copies:
  assumes "g_has_edid gs" "n \<noteq> 0" "g_edid_size gs \<noteq> 0"
  defines "k \<equiv> min (unat n) (unat (g_edid_size gs))"
  assumes "k \<le> length (g_edid gs)" "k \<le> length buf"
  shows "chip_ConfigureDisplay (Some gs) (Some buf) n = Some (1, Some (take k (g_edid gs) @ drop k buf))"
proof -
  have "unat (if n < g_edid_size gs then n else g_edid_size gs) = k"
    by (simp add: k_def word_less_nat_alt min_def)
  then show ?thesis using assms(1-3) copy_loop [OF assms(5,6)]
    by (simp add: chip_ConfigureDisplay_def Let_def word_gt_0)
qed

end
