(* ===== verification/Spec2Isabelle.thy ===== *)
theory Spec2Isabelle
  imports Board_Properties Blit_Properties Composite_Properties Flush_Task_Properties
    P96_Properties Card_Properties
begin

text \<open>
  A model of the VirtIO GPU driver for AmigaOS 4 (\<open>src/\<close>).

  (header)
\<close>

end
